(* ===== verification/ARS_Prelude.thy ===== *)
theory ARS_Prelude
  imports Complex_Main "HOL-Library.Char_ord" "HOL-Library.List_Lexorder" "HOL-Library.While_Combinator"
begin

text \<open>
  Shared vocabulary of the development: the Python value universe the supervisor's modules
  exchange (the values \<^verbatim>\<open>json.loads\<close> yields, plus arbitrary objects that no JSON
  encoder accepts), dictionary access, the exact \<^verbatim>\<open>json.dumps\<close> text used for durable
  records, regular-expression character classes, and a small transition-system interface used
  by the stateful components.

  Conventions.  Python text is modelled on the code points U+0000 to U+00FF: a
  \<^typ>\<open>string\<close> is a list of code points, and UTF-8 spends one byte below U+0080 and two
  above.  Python integers are \<^typ>\<open>int\<close>.  A finite Python float is its exact rational
  value; \<^verbatim>\<open>float.__repr__\<close>, which only \<^verbatim>\<open>json.dumps\<close> consults, is an
  argument of the serializer.  Dictionaries are association lists with distinct keys in insertion
  order.
\<close>

named_theorems py_simps \<open>unfolding of the Python value accessors\<close>
named_theorems ledger_defs \<open>definitions of the event ledger's operations\<close>
named_theorems bridge_defs \<open>definitions of the permission bridge's operations\<close>
named_theorems store_defs \<open>definitions of the session store's operations\<close>

section \<open>Python values\<close>

datatype pyfloat = PFin rat | PInf | PNegInf | PNan

datatype pyval =
    PNone
  | PBool bool
  | PInt int
  | PFloat pyfloat
  | PStr string
  | PList "pyval list"
  | PDict "(string \<times> pyval) list"
  | PObj string \<comment> \<open>any other object, by its type name\<close>

type_synonym pydict = "(string \<times> pyval) list"

text \<open>The numeric value \<^verbatim>\<open>==\<close> compares: \<^verbatim>\<open>True == 1 == 1.0\<close>.\<close>

fun py_num :: "pyval \<Rightarrow> rat option" where
  "py_num (PBool b) = Some (if b then 1 else 0)"
| "py_num (PInt n) = Some (of_int n)"
| "py_num (PFloat (PFin q)) = Some q"
| "py_num _ = None"

definition py_eq_int :: "pyval \<Rightarrow> int \<Rightarrow> bool" where
  "py_eq_int v n \<longleftrightarrow> py_num v = Some (of_int n)"

definition py_eq_str :: "pyval \<Rightarrow> string \<Rightarrow> bool" where
  "py_eq_str v s \<longleftrightarrow> v = PStr s"

text \<open>\<^verbatim>\<open>isinstance\<close> tests; a \<^verbatim>\<open>bool\<close> is an \<^verbatim>\<open>int\<close> to Python.\<close>

fun is_str :: "pyval \<Rightarrow> bool" where "is_str (PStr _) = True" | "is_str _ = False"
fun is_dict :: "pyval \<Rightarrow> bool" where "is_dict (PDict _) = True" | "is_dict _ = False"
fun is_list :: "pyval \<Rightarrow> bool" where "is_list (PList _) = True" | "is_list _ = False"
fun is_bool :: "pyval \<Rightarrow> bool" where "is_bool (PBool _) = True" | "is_bool _ = False"
fun is_int :: "pyval \<Rightarrow> bool" where
  "is_int (PInt _) = True" | "is_int (PBool _) = True" | "is_int _ = False"
fun is_float :: "pyval \<Rightarrow> bool" where "is_float (PFloat _) = True" | "is_float _ = False"

definition plain_int :: "pyval \<Rightarrow> bool" where
  "plain_int v \<longleftrightarrow> is_int v \<and> \<not> is_bool v"

definition nonempty_str :: "pyval \<Rightarrow> bool" where
  "nonempty_str v \<longleftrightarrow> is_str v \<and> v \<noteq> PStr []"

text \<open>Python truth value testing.\<close>

fun py_truth :: "pyval \<Rightarrow> bool" where
  "py_truth PNone = False"
| "py_truth (PBool b) = b"
| "py_truth (PInt n) = (n \<noteq> 0)"
| "py_truth (PFloat x) = (x \<noteq> PFin 0)"
| "py_truth (PStr s) = (s \<noteq> [])"
| "py_truth (PList xs) = (xs \<noteq> [])"
| "py_truth (PDict d) = (d \<noteq> [])"
| "py_truth (PObj t) = True"

text \<open>Membership in a set or a dictionary hashes the value: lists and dictionaries raise.\<close>

fun py_hashable :: "pyval \<Rightarrow> bool" where
  "py_hashable (PList _) = False"
| "py_hashable (PDict _) = False"
| "py_hashable _ = True"

fun pstr_opt :: "string option \<Rightarrow> pyval" where
  "pstr_opt None = PNone"
| "pstr_opt (Some s) = PStr s"

lemma plain_int_iff: "plain_int v \<longleftrightarrow> (\<exists>n. v = PInt n)"
  by (cases v) (auto simp: plain_int_def)

lemma nonempty_str_iff: "nonempty_str v \<longleftrightarrow> (\<exists>s. v = PStr s \<and> s \<noteq> [])"
  by (cases v) (auto simp: nonempty_str_def)

lemma is_str_iff: "is_str v \<longleftrightarrow> (\<exists>s. v = PStr s)"
  by (cases v) auto

lemma is_dict_iff: "is_dict v \<longleftrightarrow> (\<exists>d. v = PDict d)"
  by (cases v) auto

section \<open>Dictionaries\<close>

definition has_key :: "string \<Rightarrow> pydict \<Rightarrow> bool" where
  "has_key k d \<longleftrightarrow> k \<in> set (map fst d)"

text \<open>\<^verbatim>\<open>d.get(k)\<close>: the value, or \<^verbatim>\<open>None\<close>.\<close>

definition dget :: "pydict \<Rightarrow> string \<Rightarrow> pyval" where
  "dget d k = (case map_of d k of None \<Rightarrow> PNone | Some v \<Rightarrow> v)"

text \<open>\<^verbatim>\<open>d[k] = v\<close> keeps the position of an existing key.\<close>

fun dset :: "string \<Rightarrow> 'v \<Rightarrow> (string \<times> 'v) list \<Rightarrow> (string \<times> 'v) list" where
  "dset k v [] = [(k, v)]"
| "dset k v ((k', w) # d) = (if k = k' then (k, v) # d else (k', w) # dset k v d)"

definition ddel :: "string \<Rightarrow> (string \<times> 'v) list \<Rightarrow> (string \<times> 'v) list" where
  "ddel k d = filter (\<lambda>p. fst p \<noteq> k) d"

lemma map_of_dset [simp]: "map_of (dset k v d) = (map_of d)(k \<mapsto> v)"
  by (induction d) auto

lemma keys_dset [simp]: "fst ` set (dset k v d) = insert k (fst ` set d)"
  by (induction k v d rule: dset.induct) auto

lemma distinct_dset: "distinct (map fst d) \<Longrightarrow> distinct (map fst (dset k v d))"
  by (induction k v d rule: dset.induct) auto

lemma map_of_ddel [simp]: "map_of (ddel k d) = (map_of d)(k := None)"
  by (induction d) (auto simp: ddel_def)

lemma keys_ddel: "fst ` set (ddel k d) = fst ` set d - {k}"
  by (auto simp: ddel_def)

lemma distinct_ddel: "distinct (map fst d) \<Longrightarrow> distinct (map fst (ddel k d))"
  by (simp add: ddel_def distinct_map_filter)

lemma has_key_map_of: "has_key k d \<longleftrightarrow> map_of d k \<noteq> None"
  by (auto simp: has_key_def map_of_eq_None_iff)

lemma dget_dset [simp]: "dget (dset k v d) k' = (if k' = k then v else dget d k')"
  by (simp add: dget_def)

lemma dget_ddel: "dget (ddel k d) k' = (if k' = k then PNone else dget d k')"
  by (simp add: dget_def)

lemma dget_absent: "k \<notin> set (map fst d) \<Longrightarrow> dget d k = PNone"
  unfolding set_map map_of_eq_None_iff [symmetric] by (simp add: dget_def)

section \<open>Character classes\<close>

definition lower_alpha :: "char \<Rightarrow> bool" where
  "lower_alpha c \<longleftrightarrow> CHR ''a'' \<le> c \<and> c \<le> CHR ''z''"

definition upper_alpha :: "char \<Rightarrow> bool" where
  "upper_alpha c \<longleftrightarrow> CHR ''A'' \<le> c \<and> c \<le> CHR ''Z''"

definition digit :: "char \<Rightarrow> bool" where
  "digit c \<longleftrightarrow> CHR ''0'' \<le> c \<and> c \<le> CHR ''9''"

definition alnum :: "char \<Rightarrow> bool" where
  "alnum c \<longleftrightarrow> lower_alpha c \<or> upper_alpha c \<or> digit c"

lemmas char_class_defs = alnum_def digit_def upper_alpha_def lower_alpha_def

definition utf8_len :: "string \<Rightarrow> int" where
  "utf8_len s = (\<Sum>c\<leftarrow>s. if of_char c < (128 :: int) then 1 else 2)"

lemma utf8_len_append: "utf8_len (s @ t) = utf8_len s + utf8_len t"
  by (simp add: utf8_len_def)

lemma utf8_len_Cons: "utf8_len (c # s) = (if of_char c < (128 :: int) then 1 else 2) + utf8_len s"
  by (simp add: utf8_len_def)

lemma utf8_len_Nil [simp]: "utf8_len [] = 0"
  by (simp add: utf8_len_def)

lemma utf8_len_nonneg [simp]: "0 \<le> utf8_len s"
  by (induction s) (auto simp: utf8_len_def)

lemma utf8_len_ge_length: "int (length s) \<le> utf8_len s"
  by (induction s) (auto simp: utf8_len_def)

section \<open>Canonical JSON text: \<^verbatim>\<open>json.dumps(..., sort_keys=True)\<close>\<close>

definition digit_char :: "nat \<Rightarrow> char" where
  "digit_char n = char_of (48 + n)"

fun dec_nat :: "nat \<Rightarrow> string" where
  "dec_nat n = (if n < 10 then [digit_char n] else dec_nat (n div 10) @ [digit_char (n mod 10)])"

declare dec_nat.simps [simp del]

definition dec_int :: "int \<Rightarrow> string" where
  "dec_int n = (if n < 0 then ''-'' @ dec_nat (nat (- n)) else dec_nat (nat n))"

definition hex_char :: "nat \<Rightarrow> char" where
  "hex_char n = (if n < 10 then char_of (48 + n) else char_of (87 + n))"

text \<open>\<^verbatim>\<open>ensure_ascii\<close>: everything outside \<^verbatim>\<open>' '..'~'\<close>, the quote and the backslash.\<close>

definition esc_char :: "char \<Rightarrow> string" where
  "esc_char c =
     (let n = (of_char c :: nat) in
      if n = 34 then [CHR 0x5C, CHR 0x22]
      else if n = 92 then [CHR 0x5C, CHR 0x5C]
      else if n = 10 then [CHR 0x5C, CHR ''n'']
      else if n = 13 then [CHR 0x5C, CHR ''r'']
      else if n = 9 then [CHR 0x5C, CHR ''t'']
      else if n = 12 then [CHR 0x5C, CHR ''f'']
      else if n = 8 then [CHR 0x5C, CHR ''b'']
      else if n < 32 \<or> 126 < n
        then [CHR 0x5C] @ ''u00'' @ [hex_char (n div 16), hex_char (n mod 16)]
      else [c])"

definition json_string :: "string \<Rightarrow> string" where
  "json_string s = [CHR 0x22] @ concat (map esc_char s) @ [CHR 0x22]"

text \<open>
  The interpreter refuses the decimal text of an integer of more than 4300 digits
  (\<^verbatim>\<open>sys.set_int_max_str_digits\<close>), and the encoder refuses objects outside JSON: both
  raise, here \<^const>\<open>None\<close>.
\<close>

definition json_int :: "int \<Rightarrow> string option" where
  "json_int n = (if length (dec_nat (nat \<bar>n\<bar>)) \<le> 4300 then Some (dec_int n) else None)"

fun join_with :: "string \<Rightarrow> string list \<Rightarrow> string" where
  "join_with sep [] = []"
| "join_with sep [x] = x"
| "join_with sep (x # y # xs) = x @ sep @ join_with sep (y # xs)"

fun opt_seq :: "'a option list \<Rightarrow> 'a list option" where
  "opt_seq [] = Some []"
| "opt_seq (x # xs) =
     (case x of None \<Rightarrow> None
      | Some a \<Rightarrow> (case opt_seq xs of None \<Rightarrow> None | Some as \<Rightarrow> Some (a # as)))"

fun json_float :: "(rat \<Rightarrow> string) \<Rightarrow> pyfloat \<Rightarrow> string" where
  "json_float frepr (PFin q) = frepr q"
| "json_float frepr PInf = ''Infinity''"
| "json_float frepr PNegInf = ''-Infinity''"
| "json_float frepr PNan = ''NaN''"

primrec dumps :: "(rat \<Rightarrow> string) \<Rightarrow> pyval \<Rightarrow> string option" where
  "dumps frepr PNone = Some ''null''"
| "dumps frepr (PBool b) = Some (if b then ''true'' else ''false'')"
| "dumps frepr (PInt n) = json_int n"
| "dumps frepr (PFloat x) = Some (json_float frepr x)"
| "dumps frepr (PStr s) = Some (json_string s)"
| "dumps frepr (PList xs) =
     map_option (\<lambda>ts. ''['' @ join_with '', '' ts @ '']'') (opt_seq (map (dumps frepr) xs))"
| "dumps frepr (PDict d) =
     map_option
       (\<lambda>ts. ''{'' @ join_with '', '' ts @ ''}'')
       (opt_seq (map (\<lambda>p. map_option (\<lambda>t. json_string (fst p) @ '': '' @ t) (snd p))
          (sort_key fst (map (map_prod id (dumps frepr)) d))))"
| "dumps frepr (PObj t) = None"

section \<open>Transition systems and invariants\<close>

text \<open>
  The interface every stateful component offers: an initial predicate, a step relation, and a
  predicate that holds initially and survives each step.  The client lemmas lift it to whole
  runs.
\<close>

locale inductive_invariant =
  fixes init :: "'s \<Rightarrow> bool"
    and step :: "'s \<Rightarrow> 's \<Rightarrow> bool"
    and inv :: "'s \<Rightarrow> bool"
  assumes inv_init: "init s \<Longrightarrow> inv s"
    and inv_step: "inv s \<Longrightarrow> step s t \<Longrightarrow> inv t"
begin

lemma inv_run: "rtranclp step s t \<Longrightarrow> inv s \<Longrightarrow> inv t"
  by (induction rule: rtranclp_induct) (auto intro: inv_step)

lemma inv_reachable: "init s \<Longrightarrow> rtranclp step s t \<Longrightarrow> inv t"
  by (blast intro: inv_run inv_init)

end

text \<open>A relation between the two ends of a run that each single step establishes.\<close>

locale step_preorder =
  fixes inv :: "'s \<Rightarrow> bool"
    and step :: "'s \<Rightarrow> 's \<Rightarrow> bool"
    and rel :: "'s \<Rightarrow> 's \<Rightarrow> bool"
  assumes rel_refl: "rel s s"
    and rel_trans: "rel s t \<Longrightarrow> rel t u \<Longrightarrow> rel s u"
    and rel_step: "inv s \<Longrightarrow> step s t \<Longrightarrow> rel s t"
    and keep_inv: "inv s \<Longrightarrow> step s t \<Longrightarrow> inv t"
begin

lemma run_rel_inv: "rtranclp step s t \<Longrightarrow> inv s \<Longrightarrow> rel s t \<and> inv t"
  by (induction rule: rtranclp_induct) (auto intro: rel_refl rel_trans rel_step keep_inv)

lemma run_rel: "rtranclp step s t \<Longrightarrow> inv s \<Longrightarrow> rel s t"
  by (simp add: run_rel_inv)

end

end
