(* ===== verification/Event_Writer.thy ===== *)
theory Event_Writer
  imports ARS_Prelude
begin

text \<open>
  The per-Run bounded serial event ledger, \<^verbatim>\<open>native_acp/event_writer.py\<close>.

  Every method of \<^verbatim>\<open>EventWriter\<close> runs on one event loop, so each stretch of code
  between two suspension points is atomic: it is one function on the state record
  \<open>ew\<close>.  A \<^verbatim>\<open>_Ticket\<close> is split into its immutable part, the record
  \<open>ticket\<close> held in the queues, and its mutable part, the cell of the ticket's sequence
  number in \<open>cells\<close>; a ticket's identity is its sequence number.  The injected clock and
  timer scheduler are the argument \<open>env\<close>: the \<open>i\<close>-th call of \<^verbatim>\<open>self._now\<close>
  reads \<open>clk e i\<close> (\<^const>\<open>None\<close> when it raises), and the \<open>i\<close>-th
  \<^verbatim>\<open>self._call_at\<close> succeeds iff \<open>sched e i\<close>.  The two coroutines, consumer and
  close, are the program counters \<open>cpc\<close> and \<open>kpc\<close>.  \<open>sink\<close> is the text
  \<^verbatim>\<open>RunHandle.append_text\<close> has put into the events file.
\<close>

section \<open>Queue policy\<close>

definition INITIAL_EVENT_CAPACITY :: int where
  "INITIAL_EVENT_CAPACITY = (1024 :: int)"

definition QUEUE_GROWTH_FACTOR :: int where
  "QUEUE_GROWTH_FACTOR = (2 :: int)"

definition MAX_EVENT_CAPACITY :: int where
  "MAX_EVENT_CAPACITY = (8192 :: int)"

definition INITIAL_QUEUED_BYTES :: int where
  "INITIAL_QUEUED_BYTES = (8 * 1024 * 1024 :: int)"

definition MAX_QUEUED_BYTES :: int where
  "MAX_QUEUED_BYTES = (64 * 1024 * 1024 :: int)"

definition DEFAULT_PRODUCER_TIMEOUT_SECONDS :: rat where
  "DEFAULT_PRODUCER_TIMEOUT_SECONDS = (5 :: rat)"

definition DEFAULT_MAX_EVENTS :: int where
  "DEFAULT_MAX_EVENTS = (10000 :: int)"

text \<open>Bounds imported from \<^verbatim>\<open>native_acp/spec.py\<close>.\<close>

definition LIMIT_MAX_EVENT_BYTES_MIN :: int where
  "LIMIT_MAX_EVENT_BYTES_MIN = (256 :: int)"

definition LIMIT_MAX_EVENT_BYTES_MAX :: int where
  "LIMIT_MAX_EVENT_BYTES_MAX = (1024 * 1024 :: int)"

definition LIMIT_MAX_EVENTS_MAX :: int where
  "LIMIT_MAX_EVENTS_MAX = (1000000 :: int)"

lemmas writer_consts = INITIAL_EVENT_CAPACITY_def QUEUE_GROWTH_FACTOR_def MAX_EVENT_CAPACITY_def
  INITIAL_QUEUED_BYTES_def MAX_QUEUED_BYTES_def DEFAULT_PRODUCER_TIMEOUT_SECONDS_def
  DEFAULT_MAX_EVENTS_def LIMIT_MAX_EVENT_BYTES_MIN_def LIMIT_MAX_EVENT_BYTES_MAX_def
  LIMIT_MAX_EVENTS_MAX_def

text \<open>
  \<^verbatim>\<open>_ladder\<close>.  The \<^verbatim>\<open>while\<close> loop need not end (a factor of 1), so not
  returning is the value \<^const>\<open>None\<close>; \<open>Some None\<close> is the refused top rung.
\<close>

partial_function (option) ladder_loop :: "int \<Rightarrow> int \<Rightarrow> int \<Rightarrow> int list \<Rightarrow> int list option" where
  "ladder_loop value maximum factor rungs =
     (if value < maximum
      then ladder_loop (value * factor) maximum factor (rungs @ [value * factor])
      else Some rungs)"

declare ladder_loop.simps [code]

definition ladder :: "int \<Rightarrow> int \<Rightarrow> int \<Rightarrow> int list option option" where
  "ladder initial maximum factor =
     (case ladder_loop initial maximum factor [initial] of
        None \<Rightarrow> None
      | Some rungs \<Rightarrow> Some (if last rungs \<noteq> maximum then None else Some rungs))"

record queue_policy =
  initial_event_capacity :: int
  max_event_capacity :: int
  growth_factor :: int
  initial_queued_bytes :: int
  max_queued_bytes :: int
  producer_timeout_seconds :: rat

definition event_capacities :: "queue_policy \<Rightarrow> int list option option" where
  "event_capacities p =
     ladder (initial_event_capacity p) (max_event_capacity p) (growth_factor p)"

definition queued_byte_budgets :: "queue_policy \<Rightarrow> int list option option" where
  "queued_byte_budgets p =
     ladder (initial_queued_bytes p) (max_queued_bytes p) (growth_factor p)"

text \<open>
  \<^verbatim>\<open>QueuePolicy.__post_init__\<close> on arguments of the declared types: \<^const>\<open>None\<close> when it
  does not return, \<open>Some False\<close> when it raises \<^verbatim>\<open>ValueError\<close>.
\<close>

definition policy_admitted :: "queue_policy \<Rightarrow> bool option" where
  "policy_admitted p =
     (if initial_event_capacity p < 1 then Some False
      else if max_event_capacity p < 1 then Some False
      else if initial_queued_bytes p < 1 then Some False
      else if max_queued_bytes p < 1 then Some False
      else if growth_factor p < 2 then Some False
      else if producer_timeout_seconds p \<le> 0 then Some False
      else if max_event_capacity p < initial_event_capacity p then Some False
      else if max_queued_bytes p < initial_queued_bytes p then Some False
      else (case (event_capacities p, queued_byte_budgets p) of
              (Some (Some cs), Some (Some bs)) \<Rightarrow> Some (length cs = length bs)
            | (Some None, _) \<Rightarrow> Some False
            | (Some (Some cs), Some None) \<Rightarrow> Some False
            | _ \<Rightarrow> None))"

definition DEFAULT_QUEUE_POLICY :: queue_policy where
  "DEFAULT_QUEUE_POLICY =
     \<lparr>initial_event_capacity = INITIAL_EVENT_CAPACITY,
      max_event_capacity = MAX_EVENT_CAPACITY,
      growth_factor = QUEUE_GROWTH_FACTOR,
      initial_queued_bytes = INITIAL_QUEUED_BYTES,
      max_queued_bytes = MAX_QUEUED_BYTES,
      producer_timeout_seconds = DEFAULT_PRODUCER_TIMEOUT_SECONDS\<rparr>"

section \<open>States, failure codes, tickets\<close>

datatype writer_state = W_NEW | W_RUNNING | W_CLOSING | W_FAILING | W_CLOSED_OK | W_CLOSED_FAILED

datatype consumer_state =
  C_NOT_STARTED | C_RUNNING | C_EXITED_CLOSE_STOP | C_EXITED_FAILURE_DRAIN | C_EXITED_ERROR

datatype ticket_state =
  T_PENDING | T_ADMITTED | T_PERSISTED | T_EXPIRED | T_FAILED | T_FAILED_UNPERSISTED

datatype failure_code =
    SERIALIZATION | MARKER_TOO_LARGE | MAX_EVENTS | SATURATED_COUNT | SATURATED_BYTES
  | PRODUCER_TIMEOUT | LEDGER_INVARIANT | CONSUMER_START | APPEND_FAILED | CONSUMER_CANCELLED
  | UNEXPECTED_CONSUMER_EXIT | CLOSE_INCONSISTENCY | NO_CONSUMER

fun rank :: "failure_code \<Rightarrow> nat" where
  "rank SERIALIZATION = 10"
| "rank MARKER_TOO_LARGE = 20"
| "rank MAX_EVENTS = 30"
| "rank SATURATED_COUNT = 40"
| "rank SATURATED_BYTES = 50"
| "rank PRODUCER_TIMEOUT = 60"
| "rank LEDGER_INVARIANT = 70"
| "rank CONSUMER_START = 80"
| "rank APPEND_FAILED = 90"
| "rank CONSUMER_CANCELLED = 100"
| "rank UNEXPECTED_CONSUMER_EXIT = 110"
| "rank CLOSE_INCONSISTENCY = 120"
| "rank NO_CONSUMER = 130"

fun message :: "failure_code \<Rightarrow> string" where
  "message SERIALIZATION = ''event evidence serialization failed''"
| "message MARKER_TOO_LARGE = ''bounded event marker exceeds max_event_bytes''"
| "message MAX_EVENTS = ''event writer max_events exceeded''"
| "message SATURATED_COUNT =
     ''evidence pipeline saturated: waiting producers past the bounded ceiling''"
| "message SATURATED_BYTES =
     ''evidence pipeline saturated: retained bytes past the bounded ceiling''"
| "message PRODUCER_TIMEOUT = ''event queue stayed full past the producer timeout''"
| "message LEDGER_INVARIANT = ''event writer ledger invariant failed''"
| "message CONSUMER_START = ''event writer consumer could not start''"
| "message APPEND_FAILED = ''event evidence append failed''"
| "message CONSUMER_CANCELLED = ''event writer consumer cancelled''"
| "message UNEXPECTED_CONSUMER_EXIT = ''event writer consumer ended before persistence''"
| "message CLOSE_INCONSISTENCY = ''event writer close could not certify persistence''"
| "message NO_CONSUMER = ''event writer closed with unpersisted evidence and no consumer''"

fun code_name :: "failure_code \<Rightarrow> string" where
  "code_name SERIALIZATION = ''SERIALIZATION''"
| "code_name MARKER_TOO_LARGE = ''MARKER_TOO_LARGE''"
| "code_name MAX_EVENTS = ''MAX_EVENTS''"
| "code_name SATURATED_COUNT = ''SATURATED_COUNT''"
| "code_name SATURATED_BYTES = ''SATURATED_BYTES''"
| "code_name PRODUCER_TIMEOUT = ''PRODUCER_TIMEOUT''"
| "code_name LEDGER_INVARIANT = ''LEDGER_INVARIANT''"
| "code_name CONSUMER_START = ''CONSUMER_START''"
| "code_name APPEND_FAILED = ''APPEND_FAILED''"
| "code_name CONSUMER_CANCELLED = ''CONSUMER_CANCELLED''"
| "code_name UNEXPECTED_CONSUMER_EXIT = ''UNEXPECTED_CONSUMER_EXIT''"
| "code_name CLOSE_INCONSISTENCY = ''CLOSE_INCONSISTENCY''"
| "code_name NO_CONSUMER = ''NO_CONSUMER''"

text \<open>\<^verbatim>\<open>_FailureKey\<close>: ordered by ordinal, then category; the code itself is not compared.\<close>

record failure_key =
  fk_ordinal :: nat
  fk_category :: nat
  fk_code :: failure_code

definition key_less :: "failure_key \<Rightarrow> failure_key \<Rightarrow> bool" where
  "key_less a b \<longleftrightarrow>
     fk_ordinal a < fk_ordinal b \<or> fk_ordinal a = fk_ordinal b \<and> fk_category a < fk_category b"

record outcome =
  out_ok :: bool
  out_ordinal :: nat
  out_code :: "failure_code option"

text \<open>
  An observation edge: no future yet, a pending future, or a future that carries an outcome.
  Observers await it through \<^verbatim>\<open>asyncio.shield\<close>, so nothing cancels it.
\<close>

type_synonym edge = "outcome option option"

record ticket =
  seq :: nat
  wire :: string
  nbytes :: int
  deadline :: rat

record tcell =
  twire :: string \<comment> \<open>the ticket's text, kept when it has left the queues\<close>
  tstate :: ticket_state
  admission :: "outcome option"
  persistence :: "outcome option"
  admission_edge :: edge
  persistence_edge :: edge

definition new_cell :: tcell where
  "new_cell = \<lparr>twire = [], tstate = T_PENDING, admission = None, persistence = None,
     admission_edge = None, persistence_edge = None\<rparr>"

datatype phase = Admission | Persistence

datatype ew_exn =
    EventWriterOverflow string nat string
  | Clock_Error \<comment> \<open>whatever the injected clock raised\<close>
  | Assertion_Error

text \<open>How an asyncio task ended, and where the two coroutines stand.\<close>

datatype task_result = Returned | Raised | Cancelled
datatype task = Task_Running | Task_Done task_result

datatype consumer_pc = At_Gate | Waiting | Appending ticket | Acking | Consumer_Exited

datatype close_result = Close_Returned | Close_Overflow ew_exn | Close_Cancelled | Close_Raised
datatype close_pc = Close_Not_Called | Close_Start | Wait_Pending | Wait_Consumer
  | Close_Done close_result

record env =
  clk :: "nat \<Rightarrow> rat option"
  sched :: "nat \<Rightarrow> bool"
  frepr :: "rat \<Rightarrow> string"

record ew =
  max_event_bytes :: int
  max_events :: int
  policy :: queue_policy
  capacities :: "int list"
  byte_budgets :: "int list"
  tier :: nat
  wstate :: writer_state
  cstate :: consumer_state
  consumer :: "task option"
  close_failure :: "ew_exn option"
  close_succeeded :: bool
  pending :: "ticket list"
  admitted :: "ticket list"
  pending_bytes :: int
  queued_bytes :: int
  persisted_bytes :: int
  accepted :: nat
  admitted_high :: nat
  persisted :: nat
  growth_mark :: nat
  in_flight :: "ticket option"
  primary_failure :: "failure_key option"
  drain_then_exit :: bool
  stop_requested :: bool
  consumer_wakeup :: bool
  pending_empty :: bool
  head_timer :: "(rat \<times> nat) option"
  timer_generation :: nat
  last_deadline :: "rat option"
  cells :: "nat \<Rightarrow> tcell"
  cpc :: consumer_pc
  kpc :: close_pc
  sink :: string
  clock_reads :: nat
  timer_calls :: nat

text \<open>
  \<^verbatim>\<open>EventWriter.__init__\<close> on arguments of the declared types; \<^const>\<open>None\<close> is
  \<^verbatim>\<open>ValueError\<close> (or a policy \<^verbatim>\<open>QueuePolicy\<close> would not construct).
\<close>

definition init_writer :: "int \<Rightarrow> int \<Rightarrow> queue_policy option \<Rightarrow> ew option" where
  "init_writer meb mev pol =
     (if meb < LIMIT_MAX_EVENT_BYTES_MIN \<or> LIMIT_MAX_EVENT_BYTES_MAX < meb then None
      else if mev < 1 \<or> LIMIT_MAX_EVENTS_MAX < mev then None
      else let p = (case pol of None \<Rightarrow> DEFAULT_QUEUE_POLICY | Some p \<Rightarrow> p) in
        if policy_admitted p \<noteq> Some True then None
        else (case (event_capacities p, queued_byte_budgets p) of
          (Some (Some cs), Some (Some bs)) \<Rightarrow> Some
            \<lparr>max_event_bytes = meb, max_events = mev, policy = p, capacities = cs,
             byte_budgets = bs, tier = 0, wstate = W_NEW, cstate = C_NOT_STARTED,
             consumer = None, close_failure = None, close_succeeded = False, pending = [],
             admitted = [], pending_bytes = 0, queued_bytes = 0, persisted_bytes = 0,
             accepted = 0, admitted_high = 0, persisted = 0, growth_mark = 0, in_flight = None,
             primary_failure = None, drain_then_exit = False, stop_requested = False,
             consumer_wakeup = False, pending_empty = True, head_timer = None,
             timer_generation = 0, last_deadline = None, cells = (\<lambda>_. new_cell),
             cpc = At_Gate, kpc = Close_Not_Called, sink = [], clock_reads = 0, timer_calls = 0\<rparr>
        | _ \<Rightarrow> None))"

section \<open>Observable ledger state\<close>

definition last_seq :: "ew \<Rightarrow> nat" where "last_seq s = persisted s"

text \<open>The tier never leaves the ladder (an index error is unreachable, see the invariant).\<close>

definition queue_capacity :: "ew \<Rightarrow> int" where
  "queue_capacity s = (if tier s < length (capacities s) then capacities s ! tier s else 0)"

definition queued_byte_budget :: "ew \<Rightarrow> int" where
  "queued_byte_budget s = (if tier s < length (byte_budgets s) then byte_budgets s ! tier s else 0)"

definition consumer_live :: "ew \<Rightarrow> bool" where
  "consumer_live s \<longleftrightarrow> cstate s = C_RUNNING \<and> consumer s = Some Task_Running"

definition can_accept :: "ew \<Rightarrow> bool" where
  "can_accept s \<longleftrightarrow>
     wstate s = W_RUNNING \<and> primary_failure s = None \<and> int (accepted s) < max_events s \<and>
     pending s = [] \<and> consumer_live s \<and> int (length (admitted s)) < queue_capacity s \<and>
     queued_bytes s < queued_byte_budget s"

definition consumer_queue_healthy :: "ew \<Rightarrow> bool" where
  "consumer_queue_healthy s \<longleftrightarrow>
     wstate s = W_RUNNING \<and> primary_failure s = None \<and>
     pending s = [] \<and> consumer_live s \<and> int (length (admitted s)) < queue_capacity s \<and>
     queued_bytes s < queued_byte_budget s"

definition lowest_unpersisted_ordinal :: "ew \<Rightarrow> nat" where
  "lowest_unpersisted_ordinal s =
     (if persisted s < accepted s then persisted s + 1 else accepted s + 1)"

definition ledger_open :: "ew \<Rightarrow> bool" where
  "ledger_open s \<longleftrightarrow> wstate s = W_NEW \<or> wstate s = W_RUNNING \<or> wstate s = W_CLOSING"

section \<open>Outcomes\<close>

definition overflow :: "failure_code \<Rightarrow> nat \<Rightarrow> ew_exn" where
  "overflow code ordinal = EventWriterOverflow (message code) ordinal (code_name code)"

definition primary_overflow :: "ew \<Rightarrow> ew_exn" where
  "primary_overflow s =
     (case primary_failure s of
        None \<Rightarrow> EventWriterOverflow ''event writer close could not certify persistence''
                  (lowest_unpersisted_ordinal s) (code_name CLOSE_INCONSISTENCY)
      | Some k \<Rightarrow> overflow (fk_code k) (fk_ordinal k))"

definition current_or_closed_failure :: "ew \<Rightarrow> ew_exn" where
  "current_or_closed_failure s =
     (if primary_failure s \<noteq> None then primary_overflow s
      else EventWriterOverflow ''event writer is closed or overflowed; the run must finalize''
             (accepted s + 1) ''CLOSED'')"

definition require_open :: "ew \<Rightarrow> ew_exn option" where
  "require_open s =
     (if \<not> (wstate s = W_NEW \<or> wstate s = W_RUNNING) then Some (current_or_closed_failure s)
      else if primary_failure s \<noteq> None then Some (primary_overflow s)
      else None)"

fun settle_edge :: "outcome \<Rightarrow> edge \<Rightarrow> edge" where
  "settle_edge out (Some None) = Some (Some out)"
| "settle_edge out e = e"

fun settle_cell :: "nat \<Rightarrow> phase \<Rightarrow> bool \<Rightarrow> failure_code option \<Rightarrow> tcell \<Rightarrow> tcell" where
  "settle_cell q Admission okv code c =
     (if admission c \<noteq> None then c
      else let out = \<lparr>out_ok = okv, out_ordinal = q, out_code = code\<rparr> in
        c\<lparr>admission := Some out, admission_edge := settle_edge out (admission_edge c)\<rparr>)"
| "settle_cell q Persistence okv code c =
     (if persistence c \<noteq> None then c
      else let out = \<lparr>out_ok = okv, out_ordinal = q, out_code = code\<rparr> in
        c\<lparr>persistence := Some out, persistence_edge := settle_edge out (persistence_edge c)\<rparr>)"

definition upd_cell :: "nat \<Rightarrow> (tcell \<Rightarrow> tcell) \<Rightarrow> ew \<Rightarrow> ew" where
  "upd_cell q f s = s\<lparr>cells := (cells s)(q := f (cells s q))\<rparr>"

definition settle_phase ::
    "ticket \<Rightarrow> phase \<Rightarrow> bool \<Rightarrow> failure_code option \<Rightarrow> ew \<Rightarrow> ew" where
  "settle_phase t ph okv code s = upd_cell (seq t) (settle_cell (seq t) ph okv code) s"

fun observe_cell :: "phase \<Rightarrow> tcell \<Rightarrow> tcell" where
  "observe_cell Admission c =
     (let e = (case admission_edge c of None \<Rightarrow> Some None | e \<Rightarrow> e) in
      c\<lparr>admission_edge := (case admission c of None \<Rightarrow> e | Some out \<Rightarrow> settle_edge out e)\<rparr>)"
| "observe_cell Persistence c =
     (let e = (case persistence_edge c of None \<Rightarrow> Some None | e \<Rightarrow> e) in
      c\<lparr>persistence_edge := (case persistence c of None \<Rightarrow> e | Some out \<Rightarrow> settle_edge out e)\<rparr>)"

definition observe :: "ticket \<Rightarrow> phase \<Rightarrow> ew \<Rightarrow> ew" where
  "observe t ph s = upd_cell (seq t) (observe_cell ph) s"

section \<open>The failure funnel\<close>

definition cancel_head_timer :: "ew \<Rightarrow> ew" where
  "cancel_head_timer s = s\<lparr>timer_generation := timer_generation s + 1, head_timer := None\<rparr>"

text \<open>\<^verbatim>\<open>while self._pending\<close> and \<^verbatim>\<open>while self._admitted\<close> of \<^verbatim>\<open>_poison\<close>.\<close>

fun drain_pending :: "failure_code \<Rightarrow> nat option \<Rightarrow> ticket list \<Rightarrow> ew \<Rightarrow> ew" where
  "drain_pending code victim [] s = s"
| "drain_pending code victim (t # ts) s =
     drain_pending code victim ts
       (settle_phase t Persistence False (Some code)
         (settle_phase t Admission False (Some code)
           (upd_cell (seq t)
             (\<lambda>c. c\<lparr>tstate := (if victim = Some (seq t) then T_EXPIRED else T_FAILED)\<rparr>)
             (s\<lparr>pending := ts, pending_bytes := pending_bytes s - nbytes t\<rparr>))))"

fun drain_admitted :: "failure_code \<Rightarrow> ticket list \<Rightarrow> ew \<Rightarrow> ew" where
  "drain_admitted code [] s = s"
| "drain_admitted code (t # ts) s =
     drain_admitted code ts
       (settle_phase t Persistence False (Some code)
         (upd_cell (seq t) (\<lambda>c. c\<lparr>tstate := T_FAILED_UNPERSISTED\<rparr>) (s\<lparr>admitted := ts\<rparr>)))"

definition merge_failure :: "failure_key \<Rightarrow> failure_key option \<Rightarrow> failure_key option" where
  "merge_failure k old =
     (case old of None \<Rightarrow> Some k | Some k' \<Rightarrow> if key_less k k' then Some k else Some k')"

definition poison :: "failure_code \<Rightarrow> nat \<Rightarrow> nat option \<Rightarrow> bool \<Rightarrow> ew \<Rightarrow> ew" where
  "poison code ordinal timeout_victim persistence_impossible s =
     (let ordinal' = max 1 ordinal;
          k = \<lparr>fk_ordinal = ordinal', fk_category = rank code, fk_code = code\<rparr>;
          s1 = s\<lparr>primary_failure := merge_failure k (primary_failure s),
                 wstate := (if wstate s \<noteq> W_CLOSED_FAILED then W_FAILING else wstate s),
                 stop_requested := False\<rparr>;
          s2 = cancel_head_timer s1;
          s3 = drain_pending code timeout_victim (pending s2) s2;
          s4 = s3\<lparr>pending_bytes := 0, pending_empty := True\<rparr>;
          cannot_persist = (persistence_impossible \<or> cstate s4 \<noteq> C_RUNNING);
          s5 = (if cannot_persist
                then (drain_admitted code (admitted s4) s4)\<lparr>queued_bytes := 0, in_flight := None\<rparr>
                else s4\<lparr>drain_then_exit := True\<rparr>)
      in s5\<lparr>consumer_wakeup := True\<rparr>)"

text \<open>\<^verbatim>\<open>_verify_invariants\<close>: the checked conjunction, and the poisoning it guards.\<close>

definition ledger_ok :: "ew \<Rightarrow> bool" where
  "ledger_ok s \<longleftrightarrow>
     persisted s \<le> admitted_high s \<and> admitted_high s \<le> accepted s \<and>
     tier s < length (capacities s) \<and>
     int (length (admitted s)) \<le> queue_capacity s \<and>
     queued_bytes s = sum_list (map nbytes (admitted s)) \<and>
     pending_bytes s = sum_list (map nbytes (pending s)) \<and>
     int (length (pending s)) \<le> max_event_capacity (policy s) \<and>
     tier s < length (byte_budgets s) \<and>
     queued_bytes s \<le> queued_byte_budget s \<and>
     queued_bytes s + pending_bytes s \<le> max_queued_bytes (policy s) \<and>
     (case in_flight s of None \<Rightarrow> True
      | Some t \<Rightarrow> (case admitted s of [] \<Rightarrow> False | a # _ \<Rightarrow> seq a = seq t))"

definition verify_invariants :: "nat \<Rightarrow> ew \<Rightarrow> ew \<times> bool" where
  "verify_invariants ordinal s =
     (if ledger_ok s then (s, True) else (poison LEDGER_INVARIANT ordinal None True s, False))"

section \<open>Canonical acceptance\<close>

text \<open>\<^verbatim>\<open>event_store.ndjson_line\<close>: the durable text of one record.\<close>

definition ndjson_line :: "(rat \<Rightarrow> string) \<Rightarrow> pydict \<Rightarrow> string option" where
  "ndjson_line fr record = map_option (\<lambda>t. t @ [CHR 0x0A]) (dumps fr (PDict record))"

text \<open>\<^verbatim>\<open>_EVENT_FAMILY_RE\<close>, matched in full: \<^verbatim>\<open>[a-z][a-z0-9_]{0,63}\<close>.\<close>

definition event_family_ok :: "string \<Rightarrow> bool" where
  "event_family_ok v \<longleftrightarrow>
     (case v of [] \<Rightarrow> False
      | c # cs \<Rightarrow> lower_alpha c \<and> length cs \<le> 63 \<and>
          list_all (\<lambda>x. lower_alpha x \<or> digit x \<or> x = CHR ''_'') cs)"

fun bounded_event_family :: "pyval \<Rightarrow> string" where
  "bounded_event_family (PStr v) = (if event_family_ok v then v else ''unknown_update'')"
| "bounded_event_family _ = ''unknown_update''"

definition event_marker :: "nat \<Rightarrow> pydict \<Rightarrow> pydict" where
  "event_marker q event =
     [(''seq'', PInt (int q)),
      (''type'', PStr (bounded_event_family (dget event ''type''))),
      (''truncated'', PBool True),
      (''truncate_reason'', PStr ''max_event_bytes'')]"

definition prepare :: "env \<Rightarrow> pydict \<Rightarrow> nat \<Rightarrow> ew \<Rightarrow> failure_code + string \<times> int" where
  "prepare e event q s =
     (case ndjson_line (frepr e) (dset ''seq'' (PInt (int q)) event) of
        None \<Rightarrow> Inl SERIALIZATION
      | Some full \<Rightarrow>
          if utf8_len full \<le> max_event_bytes s then Inr (full, utf8_len full)
          else (case ndjson_line (frepr e) (event_marker q event) of
                  None \<Rightarrow> Inl SERIALIZATION
                | Some m \<Rightarrow>
                    if max_event_bytes s < utf8_len m then Inl MARKER_TOO_LARGE
                    else Inr (m, utf8_len m)))"

section \<open>The deadline-first pump\<close>

definition room :: "int \<Rightarrow> ew \<Rightarrow> bool" where
  "room nb s \<longleftrightarrow>
     int (length (admitted s)) + 1 \<le> queue_capacity s \<and>
     queued_bytes s + nb \<le> queued_byte_budget s"

definition can_grow :: "ew \<Rightarrow> bool" where
  "can_grow s \<longleftrightarrow>
     consumer_live s \<and> primary_failure s = None \<and> tier s + 1 < length (capacities s) \<and>
     growth_mark s < persisted s"

definition admit_head :: "ticket \<Rightarrow> ticket list \<Rightarrow> ew \<Rightarrow> ew" where
  "admit_head h rest s =
     (settle_phase h Admission True None
       (upd_cell (seq h) (\<lambda>c. c\<lparr>tstate := T_ADMITTED\<rparr>)
         (s\<lparr>pending := rest, pending_bytes := pending_bytes s - nbytes h,
            admitted := admitted s @ [h], queued_bytes := queued_bytes s + nbytes h,
            admitted_high := seq h\<rparr>)))\<lparr>consumer_wakeup := True\<rparr>"

definition grow :: "ew \<Rightarrow> ew" where
  "grow s = s\<lparr>tier := tier s + 1, growth_mark := persisted s\<rparr>"

text \<open>The \<^verbatim>\<open>while self._pending\<close> loop; the flag says that it returned from \<^verbatim>\<open>_pump\<close>.\<close>

function pump_loop :: "env \<Rightarrow> ew \<Rightarrow> ew \<times> bool" where
  "pump_loop e s =
     (case pending s of
        [] \<Rightarrow> (s, False)
      | h # rest \<Rightarrow>
          (let s0 = s\<lparr>clock_reads := clock_reads s + 1\<rparr> in
           case clk e (clock_reads s) of
             None \<Rightarrow> (poison LEDGER_INVARIANT (seq h) None (\<not> consumer_live s0) s0, True)
           | Some now \<Rightarrow>
               if deadline h \<le> now
               then (poison PRODUCER_TIMEOUT (seq h) (Some (seq h)) False s0, True)
               else if room (nbytes h) s0 then pump_loop e (admit_head h rest s0)
               else if can_grow s0 then pump_loop e (grow s0)
               else (s0, False)))"
  by pat_completeness auto
termination
  by (relation "measures [\<lambda>(e, s). length (pending s), \<lambda>(e, s). length (capacities s) - tier s]")
     (auto simp: admit_head_def settle_phase_def upd_cell_def grow_def can_grow_def)

declare pump_loop.simps [simp del]

definition rearm_head_timer :: "env \<Rightarrow> ew \<Rightarrow> ew" where
  "rearm_head_timer e s =
     (let s1 = cancel_head_timer s in
      if pending s1 = [] \<or> \<not> ledger_open s1 then s1
      else let s2 = s1\<lparr>timer_calls := timer_calls s1 + 1\<rparr> in
        if sched e (timer_calls s1)
        then s2\<lparr>head_timer := Some (deadline (hd (pending s1)), timer_generation s1)\<rparr>
        else poison LEDGER_INVARIANT (seq (hd (pending s1))) None (\<not> consumer_live s2) s2)"

definition pump :: "env \<Rightarrow> ew \<Rightarrow> ew" where
  "pump e s =
     (if \<not> ledger_open s then cancel_head_timer s
      else (case pump_loop e s of
              (s1, True) \<Rightarrow> s1
            | (s1, False) \<Rightarrow>
                (let s2 = s1\<lparr>pending_empty := (pending s1 = [])\<rparr>;
                     s3 = rearm_head_timer e s2
                 in fst (verify_invariants (lowest_unpersisted_ordinal s3) s3))))"

definition on_head_timer :: "env \<Rightarrow> nat \<Rightarrow> ew \<Rightarrow> ew" where
  "on_head_timer e generation s =
     (if generation \<noteq> timer_generation s then s else pump e (s\<lparr>head_timer := None\<rparr>))"

section \<open>Submission\<close>

text \<open>
  What \<^verbatim>\<open>_submit\<close> returns: nothing more to wait for, or the observation of one phase
  of one ticket.
\<close>

datatype submitted = Settled | Observing nat phase

fun phase_outcome :: "phase \<Rightarrow> tcell \<Rightarrow> outcome option" where
  "phase_outcome Admission c = admission c"
| "phase_outcome Persistence c = persistence c"

definition refuse_submission :: "failure_code \<Rightarrow> nat \<Rightarrow> ew \<Rightarrow> ew \<times> (ew_exn + submitted)" where
  "refuse_submission code q s =
     (let s' = poison code q None False s in (s', Inl (primary_overflow s')))"

text \<open>The acceptance commit and everything after it.\<close>

definition accept_ticket :: "env \<Rightarrow> ticket \<Rightarrow> phase \<Rightarrow> ew \<Rightarrow> ew \<times> (ew_exn + submitted)" where
  "accept_ticket e t ph s =
     (let s0 = upd_cell (seq t) (\<lambda>_. new_cell\<lparr>twire := wire t\<rparr>) s;
          s1 = observe t ph s0;
          s2 = s1\<lparr>accepted := seq t, last_deadline := Some (deadline t),
                  pending := pending s1 @ [t], pending_bytes := pending_bytes s1 + nbytes t,
                  pending_empty := False\<rparr>
      in case verify_invariants (seq t) s2 of
           (s3, False) \<Rightarrow> (s3, Inl (primary_overflow s3))
         | (s3, True) \<Rightarrow>
             (let s4 = pump e s3 in
              case phase_outcome ph (cells s4 (seq t)) of
                None \<Rightarrow> (s4, Inr (Observing (seq t) ph))
              | Some out \<Rightarrow>
                  if \<not> out_ok out then
                    (s4, Inl (case out_code out of None \<Rightarrow> Assertion_Error
                              | Some code \<Rightarrow> overflow code (out_ordinal out)))
                  else if ph = Admission then (s4, Inr Settled)
                  else (s4, Inr (Observing (seq t) ph))))"

definition commit_submission ::
    "env \<Rightarrow> nat \<Rightarrow> string \<Rightarrow> int \<Rightarrow> phase \<Rightarrow> ew \<Rightarrow> ew \<times> (ew_exn + submitted)" where
  "commit_submission e q w nb ph s =
     (if max_events s \<le> int (accepted s) then refuse_submission MAX_EVENTS q s
      else if max_event_capacity (policy s) \<le> int (length (pending s))
        then refuse_submission SATURATED_COUNT q s
      else if max_queued_bytes (policy s) < pending_bytes s + queued_bytes s + nb
        then refuse_submission SATURATED_BYTES q s
      else let s1 = s\<lparr>clock_reads := clock_reads s + 1\<rparr> in
        case clk e (clock_reads s) of
          None \<Rightarrow> (s1, Inl Clock_Error)
        | Some now \<Rightarrow>
            (let dl = now + producer_timeout_seconds (policy s) in
             if (case last_deadline s of None \<Rightarrow> False | Some d \<Rightarrow> dl < d)
             then refuse_submission LEDGER_INVARIANT q s1
             else accept_ticket e \<lparr>seq = q, wire = w, nbytes = nb, deadline = dl\<rparr> ph s1))"

definition submit :: "env \<Rightarrow> pydict \<Rightarrow> phase \<Rightarrow> ew \<Rightarrow> ew \<times> (ew_exn + submitted)" where
  "submit e event ph s =
     (case require_open s of
        Some x \<Rightarrow> (s, Inl x)
      | None \<Rightarrow>
          (let s1 = pump e s in
           case require_open s1 of
             Some x \<Rightarrow> (s1, Inl x)
           | None \<Rightarrow>
               (let q = accepted s1 + 1 in
                case prepare e event q s1 of
                  Inl code \<Rightarrow> refuse_submission code q s1
                | Inr (w, nb) \<Rightarrow>
                    (let s2 = pump e s1 in
                     case require_open s2 of
                       Some x \<Rightarrow> (s2, Inl x)
                     | None \<Rightarrow> commit_submission e q w nb ph s2))))"

text \<open>
  \<^verbatim>\<open>emit\<close> and \<^verbatim>\<open>emit_ordered\<close> are \<open>submit\<close> at the admission phase; this is
  \<^verbatim>\<open>emit_awaited\<close> up to its await.
\<close>

definition emit_ordered :: "env \<Rightarrow> pydict \<Rightarrow> ew \<Rightarrow> ew \<times> (ew_exn + submitted)" where
  "emit_ordered e event s = submit e event Admission s"

definition emit_awaited :: "env \<Rightarrow> pydict \<Rightarrow> ew \<Rightarrow> ew \<times> (ew_exn + submitted)" where
  "emit_awaited e event s =
     (if \<not> consumer_live s
      then let s' = poison NO_CONSUMER (accepted s + 1) None True s
           in (s', Inl (primary_overflow s'))
      else submit e event Persistence s)"

section \<open>The consumer\<close>

definition durable_ack :: "env \<Rightarrow> ticket \<Rightarrow> ew \<Rightarrow> ew" where
  "durable_ack e t s =
     (if admitted s = [] \<or> seq (hd (admitted s)) \<noteq> seq t \<or>
         (case in_flight s of None \<Rightarrow> True | Some f \<Rightarrow> seq f \<noteq> seq t) \<or>
         tstate (cells s (seq t)) \<noteq> T_ADMITTED \<or> seq t \<noteq> persisted s + 1
      then poison LEDGER_INVARIANT (seq t) None True s
      else
        (let s1 = s\<lparr>admitted := tl (admitted s), queued_bytes := queued_bytes s - nbytes t,
                    persisted_bytes := persisted_bytes s + nbytes t, persisted := seq t\<rparr>;
             s2 = settle_phase t Persistence True None
                    (upd_cell (seq t) (\<lambda>c. c\<lparr>tstate := T_PERSISTED\<rparr>) s1);
             s3 = s2\<lparr>in_flight := None\<rparr>
         in case verify_invariants (seq t) s3 of
              (s4, False) \<Rightarrow> s4
            | (s4, True) \<Rightarrow> (pump e s4)\<lparr>consumer_wakeup := True\<rparr>))"

datatype consumer_action = Act_Ticket ticket | Act_Drained | Act_Stop | Act_Wait

definition peek_consumer_action :: "ew \<Rightarrow> consumer_action" where
  "peek_consumer_action s =
     (case admitted s of
        t # _ \<Rightarrow> Act_Ticket t
      | [] \<Rightarrow> if wstate s = W_FAILING \<or> drain_then_exit s then Act_Drained
              else if stop_requested s then Act_Stop
              else Act_Wait)"

text \<open>The \<^verbatim>\<open>finally\<close> block of \<^verbatim>\<open>_consumer_main\<close> and the end of the task.\<close>

definition consumer_finally :: "task_result \<Rightarrow> ew \<Rightarrow> ew" where
  "consumer_finally r s =
     (let s1 = (if cstate s = C_RUNNING
                then (poison UNEXPECTED_CONSUMER_EXIT (lowest_unpersisted_ordinal s) None True s)
                       \<lparr>cstate := C_EXITED_ERROR\<rparr>
                else s)
      in s1\<lparr>pending_empty := True, consumer_wakeup := True, cpc := Consumer_Exited,
            consumer := Some (Task_Done r)\<rparr>)"

text \<open>
  One turn of the consumer's loop: \<^verbatim>\<open>_next_consumer_action\<close> clears the wakeup edge and
  suspends when there is nothing to do, otherwise the action is carried out up to the next
  suspension point.
\<close>

definition consumer_poll :: "ew \<Rightarrow> ew" where
  "consumer_poll s =
     (case peek_consumer_action s of
        Act_Wait \<Rightarrow> s\<lparr>consumer_wakeup := False, cpc := Waiting\<rparr>
      | Act_Ticket t \<Rightarrow> s\<lparr>in_flight := Some t, cpc := Appending t\<rparr>
      | Act_Drained \<Rightarrow> consumer_finally Returned (s\<lparr>cstate := C_EXITED_FAILURE_DRAIN\<rparr>)
      | Act_Stop \<Rightarrow>
          if \<not> (wstate s = W_CLOSING \<and> pending s = [] \<and> primary_failure s = None)
          then consumer_finally Returned
                 ((poison CLOSE_INCONSISTENCY (lowest_unpersisted_ordinal s) None True s)
                    \<lparr>cstate := C_EXITED_ERROR\<rparr>)
          else consumer_finally Returned
                 (s\<lparr>stop_requested := False, cstate := C_EXITED_CLOSE_STOP\<rparr>))"

text \<open>
  The return of the append running in the worker thread: all of the wire text is in the
  file; or the append failed, or the await was cancelled, after \<open>k\<close> characters of it.
\<close>

definition append_ok :: "env \<Rightarrow> ticket \<Rightarrow> ew \<Rightarrow> ew" where
  "append_ok e t s =
     consumer_poll (durable_ack e t (s\<lparr>sink := sink s @ wire t, cpc := Acking\<rparr>))"

definition append_failed :: "nat \<Rightarrow> ticket \<Rightarrow> ew \<Rightarrow> ew" where
  "append_failed k t s =
     consumer_finally Returned
       ((poison APPEND_FAILED (seq t) None True (s\<lparr>sink := sink s @ take k (wire t)\<rparr>))
          \<lparr>cstate := C_EXITED_ERROR\<rparr>)"

definition append_cancelled :: "nat \<Rightarrow> ticket \<Rightarrow> ew \<Rightarrow> ew" where
  "append_cancelled k t s =
     consumer_finally Cancelled
       ((poison CONSUMER_CANCELLED (seq t) None True (s\<lparr>sink := sink s @ take k (wire t)\<rparr>))
          \<lparr>cstate := C_EXITED_ERROR\<rparr>)"

text \<open>Cancellation while suspended at the gate or on the wakeup edge.\<close>

definition consumer_cancelled :: "ew \<Rightarrow> ew" where
  "consumer_cancelled s =
     consumer_finally Cancelled
       (if cstate s = C_RUNNING
        then (poison CONSUMER_CANCELLED (lowest_unpersisted_ordinal s) None True s)
               \<lparr>cstate := C_EXITED_ERROR\<rparr>
        else s)"

text \<open>Cancellation before the coroutine's first instruction runs none of its code.\<close>

definition consumer_never_ran :: "ew \<Rightarrow> ew" where
  "consumer_never_ran s = s\<lparr>cpc := Consumer_Exited, consumer := Some (Task_Done Cancelled)\<rparr>"

definition on_consumer_done :: "task_result \<Rightarrow> ew \<Rightarrow> ew" where
  "on_consumer_done r s =
     (let s1 =
        (if cstate s = C_RUNNING
         then (poison (if r = Cancelled then CONSUMER_CANCELLED else UNEXPECTED_CONSUMER_EXIT)
                 (lowest_unpersisted_ordinal s) None True s)\<lparr>cstate := C_EXITED_ERROR\<rparr>
         else if r = Raised
         then (poison UNEXPECTED_CONSUMER_EXIT (lowest_unpersisted_ordinal s) None True s)
                \<lparr>cstate := C_EXITED_ERROR\<rparr>
         else s)
      in s1\<lparr>pending_empty := True, consumer_wakeup := True\<rparr>)"

text \<open>\<^verbatim>\<open>start\<close>; the flag says whether \<^verbatim>\<open>asyncio.create_task\<close> succeeded.\<close>

definition start :: "bool \<Rightarrow> ew \<Rightarrow> ew \<times> (ew_exn + unit)" where
  "start task_ok s =
     (if cstate s = C_RUNNING then (s, Inr ())
      else if cstate s \<noteq> C_NOT_STARTED then (s, Inl (current_or_closed_failure s))
      else if wstate s \<noteq> W_NEW then (s, Inl (current_or_closed_failure s))
      else if \<not> task_ok
      then let s1 = poison CONSUMER_START (lowest_unpersisted_ordinal s) None True
                      (s\<lparr>cstate := C_EXITED_ERROR\<rparr>)
           in (s1, Inl (primary_overflow s1))
      else (s\<lparr>consumer := Some Task_Running, cstate := C_RUNNING, wstate := W_RUNNING,
              consumer_wakeup := True, cpc := At_Gate\<rparr>, Inr ()))"

section \<open>Close\<close>

text \<open>\<^verbatim>\<open>close\<close>: the synchronous cutoff, then the owned close task is created.\<close>

definition close :: "env \<Rightarrow> ew \<Rightarrow> ew" where
  "close e s =
     (if kpc s \<noteq> Close_Not_Called then s
      else (if wstate s = W_NEW \<or> wstate s = W_RUNNING
            then pump e (s\<lparr>wstate := W_CLOSING\<rparr>) else s)\<lparr>kpc := Close_Start\<rparr>)"

definition close_fail :: "ew \<Rightarrow> ew" where
  "close_fail s = s\<lparr>wstate := W_CLOSED_FAILED, kpc := Close_Done (Close_Overflow (primary_overflow s))\<rparr>"

text \<open>The certification at the end of \<^verbatim>\<open>_close_owned\<close>.\<close>

definition close_certify :: "ew \<Rightarrow> ew" where
  "close_certify s =
     (let s1 = cancel_head_timer s;
          clean = (primary_failure s1 = None \<and>
            (cstate s1 = C_NOT_STARTED \<and> accepted s1 = 0 \<or>
             cstate s1 = C_EXITED_CLOSE_STOP \<and> persisted s1 = accepted s1))
      in if clean then s1\<lparr>wstate := W_CLOSED_OK, kpc := Close_Done Close_Returned\<rparr>
         else close_fail
           (if primary_failure s1 = None
            then poison CLOSE_INCONSISTENCY (lowest_unpersisted_ordinal s1) None True s1
            else s1))"

text \<open>The drain loop, one turn: either every ticket left \<^verbatim>\<open>_pending\<close>, or the task waits.\<close>

definition request_stop :: "ew \<Rightarrow> ew" where
  "request_stop s =
     (if wstate s = W_CLOSING \<and> primary_failure s = None
      then s\<lparr>stop_requested := True, consumer_wakeup := True\<rparr> else s)\<lparr>kpc := Wait_Consumer\<rparr>"

definition close_drain :: "env \<Rightarrow> ew \<Rightarrow> ew" where
  "close_drain e s =
     (if pending s = [] then request_stop s
      else let s1 = pump e (s\<lparr>pending_empty := False\<rparr>) in
        if pending s1 = [] then request_stop s1 else s1\<lparr>kpc := Wait_Pending\<rparr>)"

definition close_enter :: "env \<Rightarrow> ew \<Rightarrow> ew" where
  "close_enter e s =
     (if cstate s = C_NOT_STARTED then
        (if accepted s = 0 \<and> primary_failure s = None
         then (cancel_head_timer s)\<lparr>wstate := W_CLOSED_OK, kpc := Close_Done Close_Returned\<rparr>
         else close_fail (poison NO_CONSUMER (lowest_unpersisted_ordinal s) None True s))
      else if consumer s = None
      then close_certify (poison CLOSE_INCONSISTENCY (lowest_unpersisted_ordinal s) None True s)
      else close_drain e s)"

text \<open>After the awaited consumer ended.\<close>

definition close_joined :: "task_result \<Rightarrow> ew \<Rightarrow> ew" where
  "close_joined r s =
     (let s1 = (if r = Cancelled \<and> cstate s = C_RUNNING
                then (poison CONSUMER_CANCELLED (lowest_unpersisted_ordinal s) None True s)
                       \<lparr>cstate := C_EXITED_ERROR\<rparr>
                else s)
      in close_certify (s1\<lparr>consumer := None\<rparr>))"

definition cache_close_outcome :: "close_result \<Rightarrow> ew \<Rightarrow> ew" where
  "cache_close_outcome r s =
     (if close_succeeded s \<or> close_failure s \<noteq> None then s
      else (case r of
        Close_Returned \<Rightarrow> s\<lparr>close_succeeded := True\<rparr>
      | Close_Overflow x \<Rightarrow> s\<lparr>close_failure := Some x\<rparr>
      | Close_Cancelled \<Rightarrow>
          (let s1 = (if primary_failure s = None
                     then poison CLOSE_INCONSISTENCY (lowest_unpersisted_ordinal s) None True s
                     else s)
           in s1\<lparr>close_failure := Some (primary_overflow s1), wstate := W_CLOSED_FAILED\<rparr>)
      | Close_Raised \<Rightarrow>
          (let s1 = poison CLOSE_INCONSISTENCY (lowest_unpersisted_ordinal s) None True s
           in s1\<lparr>close_failure := Some (primary_overflow s1), wstate := W_CLOSED_FAILED\<rparr>)))"

section \<open>Interleavings\<close>

text \<open>
  One scheduling decision of the event loop: a producer call, a timer callback (current or
  stale), the consumer resuming or its append returning, the done callbacks, and the close
  task's progress.  Cancellation of the consumer task is possible at each of its suspension
  points.
\<close>

inductive ew_step :: "env \<Rightarrow> ew \<Rightarrow> ew \<Rightarrow> bool" for e :: env where
  st_emit: "ew_step e s (fst (emit_ordered e ev s))"
| st_emit_awaited: "ew_step e s (fst (emit_awaited e ev s))"
| st_start: "ew_step e s (fst (start b s))"
| st_timer: "ew_step e s (on_head_timer e g s)"
| st_first: "cpc s = At_Gate \<Longrightarrow> consumer s = Some Task_Running \<Longrightarrow> ew_step e s (consumer_poll s)"
| st_wake: "cpc s = Waiting \<Longrightarrow> consumer_wakeup s \<Longrightarrow> ew_step e s (consumer_poll s)"
| st_append_ok: "cpc s = Appending t \<Longrightarrow> ew_step e s (append_ok e t s)"
| st_append_failed: "cpc s = Appending t \<Longrightarrow> ew_step e s (append_failed k t s)"
| st_append_cancelled: "cpc s = Appending t \<Longrightarrow> ew_step e s (append_cancelled k t s)"
| st_cancel: "cpc s = Waiting \<or> cpc s = At_Gate \<Longrightarrow> consumer s = Some Task_Running \<Longrightarrow>
    ew_step e s (consumer_cancelled s)"
| st_never_ran: "cpc s = At_Gate \<Longrightarrow> consumer s = Some Task_Running \<Longrightarrow>
    ew_step e s (consumer_never_ran s)"
| st_done: "consumer s = Some (Task_Done r) \<Longrightarrow> ew_step e s (on_consumer_done r s)"
| st_close: "ew_step e s (close e s)"
| st_close_enter: "kpc s = Close_Start \<Longrightarrow> ew_step e s (close_enter e s)"
| st_close_drain: "kpc s = Wait_Pending \<Longrightarrow> pending_empty s \<Longrightarrow> ew_step e s (close_drain e s)"
| st_close_joined: "kpc s = Wait_Consumer \<Longrightarrow> consumer s = Some (Task_Done r) \<Longrightarrow>
    ew_step e s (close_joined r s)"
| st_close_cancelled: "kpc s = Close_Start \<or> kpc s = Wait_Pending \<or> kpc s = Wait_Consumer \<Longrightarrow>
    ew_step e s (s\<lparr>kpc := Close_Done Close_Cancelled\<rparr>)"
| st_close_cached: "kpc s = Close_Done r \<Longrightarrow> ew_step e s (cache_close_outcome r s)"

end
