(* ===== verification/Event_Writer_Inv.thy ===== *)
theory Event_Writer_Inv
  imports Event_Writer
begin

text \<open>
  The invariant of the event ledger and the facts every scheduling decision keeps: sequence
  numbers stay contiguous, byte charges exact, bounds respected, each settled outcome final,
  and the durable file a prefix of the accepted sequence.
\<close>

section \<open>Closed forms\<close>

lemmas cell_defs = settle_phase_def upd_cell_def observe_def

text \<open>What the two draining loops of \<^const>\<open>poison\<close> do to the cells.\<close>

definition fail_cell :: "failure_code \<Rightarrow> nat option \<Rightarrow> nat \<Rightarrow> tcell \<Rightarrow> tcell" where
  "fail_cell code victim q c =
     settle_cell q Persistence False (Some code)
       (settle_cell q Admission False (Some code)
         (c\<lparr>tstate := (if victim = Some q then T_EXPIRED else T_FAILED)\<rparr>))"

definition lose_cell :: "failure_code \<Rightarrow> nat \<Rightarrow> tcell \<Rightarrow> tcell" where
  "lose_cell code q c =
     settle_cell q Persistence False (Some code) (c\<lparr>tstate := T_FAILED_UNPERSISTED\<rparr>)"

definition fail_cells ::
    "failure_code \<Rightarrow> nat option \<Rightarrow> ticket list \<Rightarrow> (nat \<Rightarrow> tcell) \<Rightarrow> nat \<Rightarrow> tcell" where
  "fail_cells code v ts f = (\<lambda>q. if q \<in> seq ` set ts then fail_cell code v q (f q) else f q)"

definition lose_cells :: "failure_code \<Rightarrow> ticket list \<Rightarrow> (nat \<Rightarrow> tcell) \<Rightarrow> nat \<Rightarrow> tcell" where
  "lose_cells code ts f = (\<lambda>q. if q \<in> seq ` set ts then lose_cell code q (f q) else f q)"

lemma fail_cells_Cons:
  "seq t \<notin> seq ` set ts \<Longrightarrow>
   fail_cells code v ts (f(seq t := fail_cell code v (seq t) (f (seq t)))) =
   fail_cells code v (t # ts) f"
  by (auto simp: fail_cells_def fun_eq_iff)

lemma lose_cells_Cons:
  "seq t \<notin> seq ` set ts \<Longrightarrow>
   lose_cells code ts (f(seq t := lose_cell code (seq t) (f (seq t)))) =
   lose_cells code (t # ts) f"
  by (auto simp: lose_cells_def fun_eq_iff)

lemma drain_pending_eq:
  "distinct (map seq ts) \<Longrightarrow> pending s = ts \<Longrightarrow> drain_pending code v ts s =
     s\<lparr>pending := [], pending_bytes := pending_bytes s - sum_list (map nbytes ts),
       cells := fail_cells code v ts (cells s)\<rparr>"
proof (induction ts arbitrary: s)
  case Nil
  then show ?case by (simp add: fail_cells_def)
next
  case (Cons t ts)
  have "drain_pending code v (t # ts) s =
    drain_pending code v ts (s\<lparr>pending := ts, pending_bytes := pending_bytes s - nbytes t,
      cells := (cells s)(seq t := fail_cell code v (seq t) (cells s (seq t)))\<rparr>)"
    by (simp add: cell_defs fail_cell_def)
  also have "\<dots> = s\<lparr>pending := [],
       pending_bytes := pending_bytes s - sum_list (map nbytes (t # ts)),
       cells := fail_cells code v (t # ts) (cells s)\<rparr>"
    using Cons.prems by (subst Cons.IH) (simp_all add: fail_cells_Cons algebra_simps)
  finally show ?case .
qed

lemma drain_admitted_eq:
  "distinct (map seq ts) \<Longrightarrow> admitted s = ts \<Longrightarrow> drain_admitted code ts s =
     s\<lparr>admitted := [], cells := lose_cells code ts (cells s)\<rparr>"
proof (induction ts arbitrary: s)
  case Nil
  then show ?case by (simp add: lose_cells_def)
next
  case (Cons t ts)
  have "drain_admitted code (t # ts) s =
    drain_admitted code ts (s\<lparr>admitted := ts,
      cells := (cells s)(seq t := lose_cell code (seq t) (cells s (seq t)))\<rparr>)"
    by (simp add: cell_defs lose_cell_def)
  also have "\<dots> = s\<lparr>admitted := [], cells := lose_cells code (t # ts) (cells s)\<rparr>"
    using Cons.prems by (subst Cons.IH) (simp_all add: lose_cells_Cons)
  finally show ?case .
qed

definition cannot_persist :: "bool \<Rightarrow> ew \<Rightarrow> bool" where
  "cannot_persist imp s \<longleftrightarrow> imp \<or> cstate s \<noteq> C_RUNNING"

definition poison_key :: "failure_code \<Rightarrow> nat \<Rightarrow> failure_key" where
  "poison_key code ordinal =
     \<lparr>fk_ordinal = max 1 ordinal, fk_category = rank code, fk_code = code\<rparr>"

definition poison_cells :: "failure_code \<Rightarrow> nat option \<Rightarrow> bool \<Rightarrow> ew \<Rightarrow> nat \<Rightarrow> tcell" where
  "poison_cells code v imp s =
     (if cannot_persist imp s
      then lose_cells code (admitted s) (fail_cells code v (pending s) (cells s))
      else fail_cells code v (pending s) (cells s))"

lemma poison_eq:
  assumes "distinct (map seq (admitted s @ pending s))"
  shows "poison code ord v imp s =
    s\<lparr>wstate := (if wstate s \<noteq> W_CLOSED_FAILED then W_FAILING else wstate s),
      pending := [], admitted := (if cannot_persist imp s then [] else admitted s),
      pending_bytes := 0, queued_bytes := (if cannot_persist imp s then 0 else queued_bytes s),
      in_flight := (if cannot_persist imp s then None else in_flight s),
      primary_failure := merge_failure (poison_key code ord) (primary_failure s),
      drain_then_exit := (if cannot_persist imp s then drain_then_exit s else True),
      stop_requested := False, consumer_wakeup := True, pending_empty := True,
      head_timer := None, timer_generation := timer_generation s + 1,
      cells := poison_cells code v imp s\<rparr>"
proof -
  have d: "distinct (map seq (pending s))" "distinct (map seq (admitted s))"
    using assms by auto
  show ?thesis
  proof (cases "cannot_persist imp s")
    case True
    then have "imp \<or> cstate s \<noteq> C_RUNNING" by (simp add: cannot_persist_def)
    then show ?thesis using True d
      by (simp add: poison_def Let_def cancel_head_timer_def drain_pending_eq
          drain_admitted_eq poison_key_def poison_cells_def)
  next
    case False
    then have "\<not> imp" "cstate s = C_RUNNING" by (auto simp: cannot_persist_def)
    then show ?thesis using False d
      by (simp add: poison_def Let_def cancel_head_timer_def drain_pending_eq
          poison_key_def poison_cells_def)
  qed
qed

definition at_tier :: "int list \<Rightarrow> nat \<Rightarrow> int" where
  "at_tier xs i = (if i < length xs then xs ! i else 0)"

lemma queue_capacity_eq: "queue_capacity s = at_tier (capacities s) (tier s)"
  by (simp add: queue_capacity_def at_tier_def)

lemma queued_byte_budget_eq: "queued_byte_budget s = at_tier (byte_budgets s) (tier s)"
  by (simp add: queued_byte_budget_def at_tier_def)

section \<open>The invariant\<close>

text \<open>Sequence numbers: the queues are consecutive segments of \<open>1..accepted\<close>.\<close>

definition seq_inv :: "ew \<Rightarrow> bool" where
  "seq_inv s \<longleftrightarrow>
     persisted s \<le> admitted_high s \<and> admitted_high s \<le> accepted s \<and>
     (map seq (admitted s) = [Suc (persisted s)..<Suc (admitted_high s)] \<or>
       admitted s = [] \<and> \<not> ledger_open s) \<and>
     (map seq (pending s) = [Suc (admitted_high s)..<Suc (accepted s)] \<or>
       pending s = [] \<and> \<not> ledger_open s) \<and>
     (ledger_open s \<or> pending s = []) \<and>
     (primary_failure s \<noteq> None \<longleftrightarrow> wstate s = W_FAILING \<or> wstate s = W_CLOSED_FAILED)"

text \<open>Byte charges and bounds: what \<^verbatim>\<open>_verify_invariants\<close> checks, and why it holds.\<close>

definition ticket_ok :: "ew \<Rightarrow> ticket \<Rightarrow> bool" where
  "ticket_ok s t \<longleftrightarrow> nbytes t = utf8_len (wire t) \<and> nbytes t \<le> max_event_bytes s"

definition ladders_ok :: "ew \<Rightarrow> bool" where
  "ladders_ok s \<longleftrightarrow>
     length (capacities s) = length (byte_budgets s) \<and> tier s < length (capacities s) \<and>
     sorted (capacities s) \<and> sorted (byte_budgets s)"

definition bound_inv :: "ew \<Rightarrow> bool" where
  "bound_inv s \<longleftrightarrow>
     ladders_ok s \<and>
     (\<forall>t\<in>set (admitted s). ticket_ok s t) \<and> (\<forall>t\<in>set (pending s). ticket_ok s t) \<and>
     queued_bytes s = sum_list (map nbytes (admitted s)) \<and>
     pending_bytes s = sum_list (map nbytes (pending s)) \<and>
     int (length (admitted s)) \<le> queue_capacity s \<and>
     queued_bytes s \<le> queued_byte_budget s \<and>
     int (length (pending s)) \<le> max_event_capacity (policy s) \<and>
     queued_bytes s + pending_bytes s \<le> max_queued_bytes (policy s) \<and>
     int (accepted s) \<le> max_events s"

text \<open>The consumer coroutine, its task, and the in-flight ticket.\<close>

fun consumer_ok :: "consumer_pc \<Rightarrow> task option \<Rightarrow> consumer_state \<Rightarrow> bool" where
  "consumer_ok At_Gate c st =
     (case c of None \<Rightarrow> st \<noteq> C_RUNNING | Some Task_Running \<Rightarrow> st = C_RUNNING | _ \<Rightarrow> False)"
| "consumer_ok Waiting c st = (c = Some Task_Running \<and> st = C_RUNNING)"
| "consumer_ok Acking c st = (c = Some Task_Running \<and> st = C_RUNNING)"
| "consumer_ok (Appending t) c st = (c = Some Task_Running \<and> st = C_RUNNING)"
| "consumer_ok Consumer_Exited c st = (c \<noteq> Some Task_Running \<and> st \<noteq> C_NOT_STARTED)"

fun flight_ok :: "ticket option \<Rightarrow> consumer_pc \<Rightarrow> bool \<Rightarrow> ticket list \<Rightarrow> bool" where
  "flight_ok (Some t) c opened adm = (c = Appending t \<and> take 1 adm = [t])"
| "flight_ok None (Appending t) opened adm = (\<not> opened \<and> adm = [])"
| "flight_ok None c opened adm = True"

definition action_of :: "ticket list \<Rightarrow> writer_state \<Rightarrow> bool \<Rightarrow> bool \<Rightarrow> consumer_action" where
  "action_of adm w drain stop =
     (case adm of t # _ \<Rightarrow> Act_Ticket t
      | [] \<Rightarrow> if w = W_FAILING \<or> drain then Act_Drained else if stop then Act_Stop else Act_Wait)"

lemma peek_eq:
  "peek_consumer_action s = action_of (admitted s) (wstate s) (drain_then_exit s) (stop_requested s)"
  by (simp add: peek_consumer_action_def action_of_def)

definition flow_inv :: "ew \<Rightarrow> bool" where
  "flow_inv s \<longleftrightarrow>
     flight_ok (in_flight s) (cpc s) (ledger_open s) (admitted s) \<and>
     consumer_ok (cpc s) (consumer s) (cstate s) \<and>
     (cstate s = C_NOT_STARTED \<longrightarrow> persisted s = 0) \<and>
     (cpc s = Waiting \<and> peek_consumer_action s \<noteq> Act_Wait \<longrightarrow> consumer_wakeup s)"

text \<open>Tickets: every phase settles once, in agreement with the high-water marks.\<close>

definition ok_outcome :: "nat \<Rightarrow> outcome" where
  "ok_outcome q = \<lparr>out_ok = True, out_ordinal = q, out_code = None\<rparr>"

definition failed_outcome :: "nat \<Rightarrow> outcome option \<Rightarrow> bool" where
  "failed_outcome q out \<longleftrightarrow>
     (\<exists>c. out = Some \<lparr>out_ok = False, out_ordinal = q, out_code = Some c\<rparr>)"

definition edge_ok :: "outcome option \<Rightarrow> edge \<Rightarrow> bool" where
  "edge_ok out e \<longleftrightarrow> e = None \<or> e = Some out"

definition cell_ok :: "ew \<Rightarrow> nat \<Rightarrow> tcell \<Rightarrow> bool" where
  "cell_ok s q c \<longleftrightarrow>
     edge_ok (admission c) (admission_edge c) \<and> edge_ok (persistence c) (persistence_edge c) \<and>
     (1 \<le> q \<and> q \<le> admitted_high s \<longrightarrow> admission c = Some (ok_outcome q)) \<and>
     (1 \<le> q \<and> q \<le> persisted s \<longrightarrow>
        persistence c = Some (ok_outcome q) \<and> tstate c = T_PERSISTED) \<and>
     (q \<in> seq ` set (admitted s) \<longrightarrow> persistence c = None \<and> tstate c = T_ADMITTED) \<and>
     (q \<in> seq ` set (pending s) \<longrightarrow>
        admission c = None \<and> persistence c = None \<and> tstate c = T_PENDING) \<and>
     (persisted s < q \<and> q \<le> accepted s \<and> q \<notin> seq ` set (admitted s @ pending s) \<longrightarrow>
        failed_outcome q (persistence c)) \<and>
     (admitted_high s < q \<and> q \<le> accepted s \<and> q \<notin> seq ` set (pending s) \<longrightarrow>
        failed_outcome q (admission c))"

definition cells_inv :: "ew \<Rightarrow> bool" where
  "cells_inv s \<longleftrightarrow> (\<forall>q. cell_ok s q (cells s q)) \<and>
     (\<forall>t \<in> set (admitted s @ pending s). twire (cells s (seq t)) = wire t)"

text \<open>The file: the persisted prefix, and nothing more unless the ledger failed for good.\<close>

definition durable_text :: "ew \<Rightarrow> string" where
  "durable_text s = concat (map (\<lambda>q. twire (cells s q)) [1..<Suc (persisted s)])"

definition sink_inv :: "ew \<Rightarrow> bool" where
  "sink_inv s \<longleftrightarrow>
     sink s = durable_text s \<or>
     primary_failure s \<noteq> None \<and> admitted s = [] \<and> (\<exists>junk. sink s = durable_text s @ junk)"

text \<open>Close: a clean close certifies everything that was accepted.\<close>

definition close_inv :: "ew \<Rightarrow> bool" where
  "close_inv s \<longleftrightarrow>
     (wstate s = W_CLOSED_OK \<longrightarrow> kpc s = Close_Done Close_Returned) \<and>
     (kpc s = Close_Done Close_Returned \<longrightarrow> persisted s = accepted s \<and> admitted s = [] \<and>
        pending s = [] \<and> \<not> ledger_open s \<and> sink s = durable_text s \<and> cstate s \<noteq> C_RUNNING) \<and>
     (kpc s \<noteq> Close_Not_Called \<longrightarrow> wstate s \<noteq> W_NEW \<and> wstate s \<noteq> W_RUNNING) \<and>
     (close_succeeded s \<longrightarrow> kpc s = Close_Done Close_Returned)"

definition ew_inv :: "ew \<Rightarrow> bool" where
  "ew_inv s \<longleftrightarrow> seq_inv s \<and> bound_inv s \<and> flow_inv s \<and> cells_inv s \<and> sink_inv s \<and> close_inv s"

section \<open>Poisoning keeps the invariant\<close>

lemma seq_inv_distinct: "seq_inv s \<Longrightarrow> distinct (map seq (admitted s @ pending s))"
  unfolding seq_inv_def distinct_append map_append set_map by (auto simp flip: set_map)

lemma admitted_range:
  "seq_inv s \<Longrightarrow> q \<in> seq ` set (admitted s) \<Longrightarrow> persisted s < q \<and> q \<le> admitted_high s"
  unfolding seq_inv_def by (auto simp flip: set_map)

lemma pending_range:
  "seq_inv s \<Longrightarrow> q \<in> seq ` set (pending s) \<Longrightarrow> admitted_high s < q \<and> q \<le> accepted s"
  unfolding seq_inv_def by (auto simp flip: set_map)

lemma twire_fail_cell [simp]: "twire (fail_cell code v q c) = twire c"
  by (simp add: fail_cell_def Let_def)

lemma twire_lose_cell [simp]: "twire (lose_cell code q c) = twire c"
  by (simp add: lose_cell_def Let_def)

lemma twire_poison_cells [simp]: "twire (poison_cells code v imp s q) = twire (cells s q)"
  by (simp add: poison_cells_def fail_cells_def lose_cells_def)

lemma settle_edge_ok: "edge_ok None e \<Longrightarrow> edge_ok (Some out) (settle_edge out e)"
  by (auto simp: edge_ok_def)

lemma fail_cell_None:
  assumes "admission c = None" "persistence c = None" "edge_ok None (admission_edge c)"
    "edge_ok None (persistence_edge c)"
  shows "failed_outcome q (admission (fail_cell code v q c))"
    "failed_outcome q (persistence (fail_cell code v q c))"
    "edge_ok (admission (fail_cell code v q c)) (admission_edge (fail_cell code v q c))"
    "edge_ok (persistence (fail_cell code v q c)) (persistence_edge (fail_cell code v q c))"
  using assms by (auto simp: fail_cell_def failed_outcome_def Let_def intro: settle_edge_ok)

lemma lose_cell_None:
  assumes "persistence c = None" "edge_ok None (persistence_edge c)"
  shows "admission (lose_cell code q c) = admission c"
    "admission_edge (lose_cell code q c) = admission_edge c"
    "failed_outcome q (persistence (lose_cell code q c))"
    "edge_ok (persistence (lose_cell code q c)) (persistence_edge (lose_cell code q c))"
  using assms by (auto simp: lose_cell_def failed_outcome_def Let_def intro: settle_edge_ok)

lemma poison_cells_other:
  "q \<notin> seq ` set (pending s) \<Longrightarrow> (cannot_persist imp s \<Longrightarrow> q \<notin> seq ` set (admitted s)) \<Longrightarrow>
   poison_cells code v imp s q = cells s q"
  by (auto simp: poison_cells_def fail_cells_def lose_cells_def)

lemma poison_cells_pending:
  "q \<in> seq ` set (pending s) \<Longrightarrow> q \<notin> seq ` set (admitted s) \<Longrightarrow>
   poison_cells code v imp s q = fail_cell code v q (cells s q)"
  by (auto simp: poison_cells_def fail_cells_def lose_cells_def)

lemma poison_cells_admitted:
  "cannot_persist imp s \<Longrightarrow> q \<in> seq ` set (admitted s) \<Longrightarrow> q \<notin> seq ` set (pending s) \<Longrightarrow>
   poison_cells code v imp s q = lose_cell code q (cells s q)"
  by (auto simp: poison_cells_def fail_cells_def lose_cells_def)

lemma poison_sel:
  assumes "seq_inv s"
  shows "max_event_bytes (poison code ord v imp s) = max_event_bytes s"
    "max_events (poison code ord v imp s) = max_events s"
    "policy (poison code ord v imp s) = policy s"
    "capacities (poison code ord v imp s) = capacities s"
    "byte_budgets (poison code ord v imp s) = byte_budgets s"
    "tier (poison code ord v imp s) = tier s"
    "wstate (poison code ord v imp s) =
       (if wstate s = W_CLOSED_FAILED then W_CLOSED_FAILED else W_FAILING)"
    "cstate (poison code ord v imp s) = cstate s"
    "consumer (poison code ord v imp s) = consumer s"
    "close_failure (poison code ord v imp s) = close_failure s"
    "close_succeeded (poison code ord v imp s) = close_succeeded s"
    "pending (poison code ord v imp s) = []"
    "admitted (poison code ord v imp s) = (if cannot_persist imp s then [] else admitted s)"
    "pending_bytes (poison code ord v imp s) = 0"
    "queued_bytes (poison code ord v imp s) = (if cannot_persist imp s then 0 else queued_bytes s)"
    "accepted (poison code ord v imp s) = accepted s"
    "admitted_high (poison code ord v imp s) = admitted_high s"
    "persisted (poison code ord v imp s) = persisted s"
    "in_flight (poison code ord v imp s) = (if cannot_persist imp s then None else in_flight s)"
    "primary_failure (poison code ord v imp s) =
       merge_failure (poison_key code ord) (primary_failure s)"
    "drain_then_exit (poison code ord v imp s) = (drain_then_exit s \<or> \<not> cannot_persist imp s)"
    "stop_requested (poison code ord v imp s) = False"
    "consumer_wakeup (poison code ord v imp s) = True"
    "cells (poison code ord v imp s) = poison_cells code v imp s"
    "cpc (poison code ord v imp s) = cpc s"
    "kpc (poison code ord v imp s) = kpc s"
    "sink (poison code ord v imp s) = sink s"
  by (simp_all add: poison_eq [OF seq_inv_distinct [OF assms]])

lemma merge_failure_Some [simp]: "merge_failure k old \<noteq> None"
  by (simp add: merge_failure_def split: option.splits)

lemma poison_seq_inv:
  assumes "seq_inv s" shows "seq_inv (poison code ord v imp s)"
proof -
  note p = poison_sel [OF assms, of code ord v imp]
  have "persisted s \<le> admitted_high s" "admitted_high s \<le> accepted s"
    "map seq (admitted s) = [Suc (persisted s)..<Suc (admitted_high s)] \<or> admitted s = []"
    using assms by (auto simp: seq_inv_def)
  then show ?thesis
    unfolding seq_inv_def ledger_open_def p by auto
qed

lemma poison_bound_inv:
  assumes "seq_inv s" "bound_inv s" shows "bound_inv (poison code ord v imp s)"
proof -
  note p = poison_sel [OF assms(1), of code ord v imp]
  have nn: "0 \<le> pending_bytes s" "0 \<le> queued_bytes s"
    using assms(2) by (auto simp: bound_inv_def ticket_ok_def intro!: sum_list_nonneg)
  with assms(2) have "0 \<le> queue_capacity s" "0 \<le> queued_byte_budget s"
    "0 \<le> max_event_capacity (policy s)" "0 \<le> max_queued_bytes (policy s)"
    by (auto simp: bound_inv_def)
  with assms(2) nn show ?thesis
    unfolding bound_inv_def ladders_ok_def queue_capacity_eq queued_byte_budget_eq ticket_ok_def p
    by (cases "cannot_persist imp s") auto
qed

lemma poison_cell_ok:
  assumes "seq_inv s" "cell_ok s q (cells s q)"
  shows "cell_ok (poison code ord v imp s) q (cells (poison code ord v imp s) q)"
proof (cases "q \<in> seq ` set (pending s)")
  case True
  from assms(1) have r: "admitted_high s < q" "q \<le> accepted s" "persisted s < q"
    "q \<notin> seq ` set (admitted s)"
    using pending_range [OF assms(1) True] admitted_range [OF assms(1), of q]
    unfolding seq_inv_def by linarith+
  from True assms(2) have "admission (cells s q) = None" "persistence (cells s q) = None"
    "edge_ok None (admission_edge (cells s q))" "edge_ok None (persistence_edge (cells s q))"
    by (auto simp: cell_ok_def)
  note f = fail_cell_None [OF this, where q = q and code = code and v = v]
  show ?thesis
    using r f by (simp add: poison_sel [OF assms(1)] cell_ok_def poison_cells_pending [OF True])
next
  case np: False
  show ?thesis
  proof (cases "cannot_persist imp s \<and> q \<in> seq ` set (admitted s)")
    case True
    with assms(1) have r: "q \<le> admitted_high s" "persisted s < q"
      using admitted_range by blast+
    from True assms(2) have "persistence (cells s q) = None"
      "edge_ok None (persistence_edge (cells s q))"
      by (auto simp: cell_ok_def)
    note l = lose_cell_None [OF this, where q = q and code = code]
    show ?thesis
      using r l True assms(2) np
      by (auto simp: poison_sel [OF assms(1)] cell_ok_def poison_cells_admitted)
  next
    case False
    then have eq: "poison_cells code v imp s q = cells s q"
      using np by (intro poison_cells_other) auto
    show ?thesis
      using False np assms(2)
      by (auto simp: poison_sel [OF assms(1)] cell_ok_def eq)
  qed
qed

lemma poison_cells_inv:
  assumes "seq_inv s" "cells_inv s" shows "cells_inv (poison code ord v imp s)"
proof -
  have "\<forall>t\<in>set (admitted s @ pending s). twire (cells s (seq t)) = wire t"
    and "\<And>q. cell_ok s q (cells s q)"
    using assms(2) by (auto simp: cells_inv_def)
  moreover have "set (admitted (poison code ord v imp s) @ pending (poison code ord v imp s))
      \<subseteq> set (admitted s @ pending s)"
    by (simp add: poison_sel [OF assms(1)])
  moreover have "twire (cells (poison code ord v imp s) q) = twire (cells s q)" for q
    by (simp add: poison_sel [OF assms(1)])
  ultimately show ?thesis
    using poison_cell_ok [OF assms(1)] unfolding cells_inv_def by (metis subsetD)
qed

lemma poison_durable_text:
  "seq_inv s \<Longrightarrow> durable_text (poison code ord v imp s) = durable_text s"
  by (simp add: durable_text_def poison_sel)

lemma poison_sink_inv:
  assumes "seq_inv s" "sink_inv s" shows "sink_inv (poison code ord v imp s)"
  using assms(2) unfolding sink_inv_def poison_durable_text [OF assms(1)] poison_sel [OF assms(1)]
  by auto

lemma poison_flow_inv:
  assumes "seq_inv s" "flow_inv s" shows "flow_inv (poison code ord v imp s)"
proof -
  note p = poison_sel [OF assms(1), of code ord v imp]
  have "\<not> ledger_open (poison code ord v imp s)" by (simp add: ledger_open_def p)
  moreover have "flight_ok (in_flight s) (cpc s) (ledger_open s) (admitted s)"
    using assms(2) by (simp add: flow_inv_def)
  then have "flight_ok (if cannot_persist imp s then None else in_flight s) (cpc s) False
      (if cannot_persist imp s then [] else admitted s)"
    by (cases "in_flight s"; cases "cpc s") auto
  ultimately show ?thesis using assms(2) unfolding flow_inv_def p by simp
qed

lemma poison_close_inv:
  assumes "seq_inv s" "close_inv s" shows "close_inv (poison code ord v imp s)"
proof -
  note p = poison_sel [OF assms(1), of code ord v imp]
  have "\<not> ledger_open (poison code ord v imp s)" by (simp add: ledger_open_def p)
  with assms(2) show ?thesis
    unfolding close_inv_def poison_durable_text [OF assms(1)] p by (cases "wstate s") auto
qed

lemma poison_inv: "ew_inv s \<Longrightarrow> ew_inv (poison code ord v imp s)"
  by (simp add: ew_inv_def poison_seq_inv poison_bound_inv poison_flow_inv poison_cells_inv
      poison_sink_inv poison_close_inv)

section \<open>Fields the invariant does not read\<close>

lemmas inv_parts = seq_inv_def bound_inv_def ladders_ok_def ticket_ok_def flow_inv_def
  cells_inv_def cell_ok_def sink_inv_def durable_text_def close_inv_def
  ledger_open_def queue_capacity_eq queued_byte_budget_eq peek_eq

lemma ew_inv_clock [simp]: "ew_inv (s\<lparr>clock_reads := x\<rparr>) = ew_inv s"
  by (simp add: ew_inv_def inv_parts)

lemma ew_inv_calls [simp]: "ew_inv (s\<lparr>timer_calls := x\<rparr>) = ew_inv s"
  by (simp add: ew_inv_def inv_parts)

lemma ew_inv_timer [simp]: "ew_inv (s\<lparr>head_timer := x\<rparr>) = ew_inv s"
  by (simp add: ew_inv_def inv_parts)

lemma ew_inv_generation [simp]: "ew_inv (s\<lparr>timer_generation := x\<rparr>) = ew_inv s"
  by (simp add: ew_inv_def inv_parts)

lemma ew_inv_pending_empty [simp]: "ew_inv (s\<lparr>pending_empty := x\<rparr>) = ew_inv s"
  by (simp add: ew_inv_def inv_parts)

lemma ew_inv_close_failure [simp]: "ew_inv (s\<lparr>close_failure := x\<rparr>) = ew_inv s"
  by (simp add: ew_inv_def inv_parts)

lemma ew_inv_wakeup:
  assumes "ew_inv s" shows "ew_inv (s\<lparr>consumer_wakeup := True\<rparr>)"
proof -
  have "seq_inv (s\<lparr>consumer_wakeup := True\<rparr>) = seq_inv s"
    "bound_inv (s\<lparr>consumer_wakeup := True\<rparr>) = bound_inv s"
    "cells_inv (s\<lparr>consumer_wakeup := True\<rparr>) = cells_inv s"
    "sink_inv (s\<lparr>consumer_wakeup := True\<rparr>) = sink_inv s"
    "close_inv (s\<lparr>consumer_wakeup := True\<rparr>) = close_inv s"
    by (simp_all add: inv_parts)
  moreover from assms have "flow_inv (s\<lparr>consumer_wakeup := True\<rparr>)"
    by (simp add: ew_inv_def flow_inv_def ledger_open_def)
  ultimately show ?thesis using assms by (simp add: ew_inv_def)
qed

lemma cancel_head_timer_inv [simp]: "ew_inv (cancel_head_timer s) = ew_inv s"
  by (simp add: cancel_head_timer_def)

lemma ew_inv_ledger_ok: "ew_inv s \<Longrightarrow> ledger_ok s"
  by (auto simp: ew_inv_def ledger_ok_def seq_inv_def bound_inv_def ladders_ok_def flow_inv_def
      take_Suc split: option.splits list.splits)

lemma verify_invariants_inv [simp]: "ew_inv s \<Longrightarrow> verify_invariants q s = (s, True)"
  by (simp add: verify_invariants_def ew_inv_ledger_ok)

section \<open>The pump keeps the invariant\<close>

lemma seq_inv_open:
  "seq_inv s \<Longrightarrow> ledger_open s \<Longrightarrow>
     map seq (admitted s) = [Suc (persisted s)..<Suc (admitted_high s)] \<and>
     map seq (pending s) = [Suc (admitted_high s)..<Suc (accepted s)] \<and> primary_failure s = None"
  by (auto simp: seq_inv_def ledger_open_def)

lemma upt_Cons_eq: "x # xs = [i..<j] \<longleftrightarrow> x = i \<and> i < j \<and> xs = [Suc i..<j]"
  by (cases "i < j") (auto simp: upt_conv_Cons)

lemma pending_head:
  assumes "seq_inv s" "ledger_open s" "pending s = h # rest"
  shows "seq h = Suc (admitted_high s)" "admitted_high s < accepted s"
    "map seq rest = [Suc (Suc (admitted_high s))..<Suc (accepted s)]"
  using seq_inv_open [OF assms(1,2)] assms(3) by (simp_all add: upt_Cons_eq del: upt_Suc)

definition admit_cell :: "nat \<Rightarrow> tcell \<Rightarrow> tcell" where
  "admit_cell q c = settle_cell q Admission True None (c\<lparr>tstate := T_ADMITTED\<rparr>)"

lemma admit_head_eq:
  "admit_head h rest s =
     s\<lparr>pending := rest, pending_bytes := pending_bytes s - nbytes h,
       admitted := admitted s @ [h], queued_bytes := queued_bytes s + nbytes h,
       admitted_high := seq h, cells := (cells s)(seq h := admit_cell (seq h) (cells s (seq h))),
       consumer_wakeup := True\<rparr>"
  by (simp add: admit_head_def cell_defs admit_cell_def)

lemma admit_head_seq_inv:
  assumes "seq_inv s" "ledger_open s" "pending s = h # rest"
  shows "seq_inv (admit_head h rest s)"
proof -
  note ph = pending_head [OF assms]
  have "map seq (admitted s @ [h]) = [Suc (persisted s)..<Suc (seq h)]"
    using seq_inv_open [OF assms(1,2)] ph assms(1) by (simp add: seq_inv_def)
  with ph assms(1,2) show ?thesis
    by (auto simp: seq_inv_def admit_head_eq ledger_open_def)
qed

lemma admit_head_bound_inv:
  assumes "bound_inv s" "pending s = h # rest" "room (nbytes h) s"
  shows "bound_inv (admit_head h rest s)"
  using assms
  by (auto simp: bound_inv_def admit_head_eq ladders_ok_def room_def queue_capacity_eq
      queued_byte_budget_eq ticket_ok_def)

lemma admit_head_cells_inv:
  assumes "seq_inv s" "ledger_open s" "cells_inv s" "pending s = h # rest"
  shows "cells_inv (admit_head h rest s)"
proof -
  note ph = pending_head [OF assms(1,2,4)]
  have c: "cell_ok s q (cells s q)" for q using assms(3) by (simp add: cells_inv_def)
  have wires: "\<forall>t \<in> set (admitted s @ pending s). twire (cells s (seq t)) = wire t"
    using assms(3) by (simp add: cells_inv_def)
  have le: "persisted s \<le> admitted_high s" using assms(1) by (simp add: seq_inv_def)
  have rest: "seq ` set rest = {Suc (Suc (admitted_high s))..accepted s}"
    using arg_cong [OF ph(3), of set] by (auto simp del: upt_Suc)
  have none: "admission (cells s (seq h)) = None" "persistence (cells s (seq h)) = None"
    "edge_ok None (admission_edge (cells s (seq h)))"
    "edge_ok None (persistence_edge (cells s (seq h)))"
    using c [of "seq h"] assms(4) by (auto simp: cell_ok_def)
  have new: "admission (admit_cell (seq h) (cells s (seq h))) = Some (ok_outcome (seq h))"
    "persistence (admit_cell (seq h) (cells s (seq h))) = None"
    "tstate (admit_cell (seq h) (cells s (seq h))) = T_ADMITTED"
    "edge_ok (Some (ok_outcome (seq h))) (admission_edge (admit_cell (seq h) (cells s (seq h))))"
    "persistence_edge (admit_cell (seq h) (cells s (seq h))) = persistence_edge (cells s (seq h))"
    "twire (admit_cell (seq h) (cells s (seq h))) = twire (cells s (seq h))"
    using none by (auto simp: admit_cell_def ok_outcome_def Let_def intro: settle_edge_ok)
  have "cell_ok (admit_head h rest s) q (cells (admit_head h rest s) q)" for q
  proof (cases "q = seq h")
    case True
    with new none ph le rest show ?thesis
      by (auto simp: cell_ok_def admit_head_eq)
  next
    case False
    with c [of q] ph le assms(4) show ?thesis
      by (auto simp: cell_ok_def admit_head_eq)
  qed
  moreover have "twire (cells (admit_head h rest s) (seq t)) = wire t"
    if "t \<in> set (admitted (admit_head h rest s) @ pending (admit_head h rest s))" for t
  proof -
    have "twire (cells s (seq t)) = wire t"
      using wires that assms(4) by (auto simp: admit_head_eq)
    then show ?thesis using new(6) by (cases "seq t = seq h") (simp_all add: admit_head_eq)
  qed
  ultimately show ?thesis by (simp add: cells_inv_def)
qed

lemma durable_text_cong:
  "persisted t = persisted s \<Longrightarrow> (\<And>q. q \<le> persisted s \<Longrightarrow> twire (cells t q) = twire (cells s q)) \<Longrightarrow>
   durable_text t = durable_text s"
  by (auto simp: durable_text_def intro!: arg_cong [where f = concat])

lemma admit_head_durable:
  assumes "seq_inv s" "ledger_open s" "pending s = h # rest"
  shows "durable_text (admit_head h rest s) = durable_text s"
proof (rule durable_text_cong)
  have "persisted s < seq h"
    using pending_head [OF assms] assms(1) by (simp add: seq_inv_def)
  then show "q \<le> persisted s \<Longrightarrow> twire (cells (admit_head h rest s) q) = twire (cells s q)" for q
    by (simp add: admit_head_eq)
qed (simp add: admit_head_eq)

lemma admit_head_inv:
  assumes "ew_inv s" "ledger_open s" "pending s = h # rest" "room (nbytes h) s"
  shows "ew_inv (admit_head h rest s)"
proof -
  from assms(1) have i: "seq_inv s" "bound_inv s" "flow_inv s" "cells_inv s" "sink_inv s" "close_inv s"
    by (simp_all add: ew_inv_def)
  have "flight_ok (in_flight s) (cpc s) (ledger_open s) (admitted s)"
    using i(3) by (simp add: flow_inv_def)
  then have "flight_ok (in_flight s) (cpc s) True (admitted s @ [h])"
    using assms(2) by (cases "in_flight s"; cases "cpc s"; cases "admitted s") auto
  then have "flow_inv (admit_head h rest s)"
    using i(3) assms(2) by (simp add: flow_inv_def admit_head_eq ledger_open_def)
  moreover have "sink_inv (admit_head h rest s)"
    using i(5) seq_inv_open [OF i(1) assms(2)]
    by (auto simp: sink_inv_def admit_head_durable [OF i(1) assms(2,3)]) (simp_all add: admit_head_eq)
  moreover have "close_inv (admit_head h rest s)"
    using i(6) assms(3)
    unfolding close_inv_def admit_head_durable [OF i(1) assms(2,3)]
    by (auto simp: admit_head_eq ledger_open_def)
  ultimately show ?thesis
    using admit_head_seq_inv [OF i(1) assms(2,3)] admit_head_bound_inv [OF i(2) assms(3,4)]
      admit_head_cells_inv [OF i(1) assms(2) i(4) assms(3)]
    by (simp add: ew_inv_def)
qed

lemma grow_inv:
  assumes "ew_inv s" "can_grow s" shows "ew_inv (grow s)"
proof -
  from assms(1) have i: "seq_inv s" "bound_inv s" "flow_inv s" "cells_inv s" "sink_inv s" "close_inv s"
    by (simp_all add: ew_inv_def)
  have lt: "tier s + 1 < length (capacities s)" using assms(2) by (simp add: can_grow_def)
  have "capacities s ! tier s \<le> capacities s ! (tier s + 1)"
    "byte_budgets s ! tier s \<le> byte_budgets s ! (tier s + 1)"
    using i(2) lt by (auto simp: bound_inv_def ladders_ok_def intro!: sorted_nth_mono)
  then have "bound_inv (grow s)"
    using i(2) lt
    by (auto simp: bound_inv_def grow_def ladders_ok_def queue_capacity_eq
        queued_byte_budget_eq ticket_ok_def at_tier_def)
  moreover have "seq_inv (grow s)" "flow_inv (grow s)" "cells_inv (grow s)" "sink_inv (grow s)"
    "close_inv (grow s)"
    using i by (simp_all add: grow_def inv_parts)
  ultimately show ?thesis by (simp add: ew_inv_def)
qed

text \<open>What the pump never touches.\<close>

definition same_frame :: "ew \<Rightarrow> ew \<Rightarrow> bool" where
  "same_frame s t \<longleftrightarrow>
     accepted t = accepted s \<and> persisted t = persisted s \<and> cstate t = cstate s \<and>
     consumer t = consumer s \<and> cpc t = cpc s \<and> kpc t = kpc s \<and> sink t = sink s \<and>
     policy t = policy s \<and> max_event_bytes t = max_event_bytes s \<and> max_events t = max_events s \<and>
     close_succeeded t = close_succeeded s \<and> admitted_high s \<le> admitted_high t \<and>
     (wstate t = wstate s \<or> wstate t = W_FAILING)"

lemma same_frame_refl: "same_frame s s"
  by (simp add: same_frame_def)

lemma same_frame_trans: "same_frame s t \<Longrightarrow> same_frame t u \<Longrightarrow> same_frame s u"
  by (auto simp: same_frame_def)

lemma poison_frame: "seq_inv s \<Longrightarrow> wstate s \<noteq> W_CLOSED_FAILED \<Longrightarrow> same_frame s (poison code ord v imp s)"
  by (simp add: same_frame_def poison_sel)

lemma pump_loop_inv:
  "ew_inv s \<Longrightarrow> ledger_open s \<Longrightarrow>
     ew_inv (fst (pump_loop e s)) \<and> same_frame s (fst (pump_loop e s)) \<and>
     (\<not> snd (pump_loop e s) \<longrightarrow> ledger_open (fst (pump_loop e s)))"
proof (induction e s rule: pump_loop.induct)
  case (1 e s)
  define s0 where "s0 = s\<lparr>clock_reads := Suc (clock_reads s)\<rparr>"
  have s0': "s0 = s\<lparr>clock_reads := clock_reads s + 1\<rparr>" by (simp add: s0_def)
  have inv0: "ew_inv s0" and open0: "ledger_open s0" and frame0: "same_frame s s0"
    using "1.prems" by (auto simp: s0_def ledger_open_def same_frame_def)
  then have seq0: "seq_inv s0" and w0: "wstate s0 \<noteq> W_CLOSED_FAILED"
    by (auto simp: ew_inv_def ledger_open_def)
  have poison: "ew_inv (poison code ord v imp s0) \<and> same_frame s (poison code ord v imp s0)"
    for code ord v imp
    using poison_inv [OF inv0] same_frame_trans [OF frame0 poison_frame [OF seq0 w0]] by blast
  show ?case
  proof (cases "pending s")
    case Nil
    with "1.prems" show ?thesis by (subst (1 2 3 4) pump_loop.simps) (simp add: same_frame_refl)
  next
    case (Cons h rest)
    have p0: "pending s0 = h # rest" using Cons by (simp add: s0_def)
    show ?thesis
    proof (cases "clk e (clock_reads s)")
      case None
      with Cons poison show ?thesis by (subst (1 2 3 4) pump_loop.simps) (simp add: Let_def flip: s0_def)
    next
      case (Some now)
      consider (late) "deadline h \<le> now" | (room) "\<not> deadline h \<le> now" "room (nbytes h) s0"
        | (grow) "\<not> deadline h \<le> now" "\<not> room (nbytes h) s0" "can_grow s0"
        | (full) "\<not> deadline h \<le> now" "\<not> room (nbytes h) s0" "\<not> can_grow s0"
        by blast
      then show ?thesis
      proof cases
        case late
        with Cons Some poison show ?thesis
          by (subst (1 2 3 4) pump_loop.simps) (simp add: Let_def flip: s0_def)
      next
        case room
        have "ew_inv (admit_head h rest s0)" by (rule admit_head_inv [OF inv0 open0 p0 room(2)])
        moreover have "ledger_open (admit_head h rest s0)"
          using open0 by (simp add: admit_head_eq ledger_open_def)
        moreover have "same_frame s0 (admit_head h rest s0)"
          using pending_head [OF seq0 open0 p0] by (simp add: same_frame_def admit_head_eq)
        ultimately show ?thesis
          using "1.IH" (1) [OF Cons s0' Some room] room Cons Some same_frame_trans [OF frame0]
            same_frame_trans
          by (subst (1 2 3 4) pump_loop.simps) (auto simp: Let_def simp flip: s0_def)
      next
        case grow
        have "ew_inv (grow s0)" by (rule grow_inv [OF inv0 grow(3)])
        moreover have "ledger_open (grow s0)" "same_frame s0 (grow s0)"
          using open0 by (simp_all add: grow_def ledger_open_def same_frame_def)
        ultimately show ?thesis
          using "1.IH" (2) [OF Cons s0' Some grow] grow Cons Some same_frame_trans [OF frame0]
            same_frame_trans
          by (subst (1 2 3 4) pump_loop.simps) (auto simp: Let_def simp flip: s0_def)
      next
        case full
        with Cons Some inv0 open0 frame0 show ?thesis
          by (subst (1 2 3 4) pump_loop.simps) (simp add: Let_def flip: s0_def)
      qed
    qed
  qed
qed

lemma ew_inv_seq_inv: "ew_inv s \<Longrightarrow> seq_inv s"
  by (simp add: ew_inv_def)

lemma rearm_head_timer_inv:
  assumes "ew_inv s" "ledger_open s"
  shows "ew_inv (rearm_head_timer e s) \<and> same_frame s (rearm_head_timer e s)"
proof -
  define s2 where "s2 = (cancel_head_timer s)\<lparr>timer_calls := Suc (timer_calls s)\<rparr>"
  have "ew_inv s2" using assms(1) by (simp add: s2_def)
  moreover have "same_frame s s2" "wstate s2 \<noteq> W_CLOSED_FAILED"
    using assms(2) by (auto simp: s2_def cancel_head_timer_def same_frame_def ledger_open_def)
  ultimately have "ew_inv (poison code ord v imp s2) \<and> same_frame s (poison code ord v imp s2)"
    for code ord v imp
    using poison_inv same_frame_trans poison_frame ew_inv_seq_inv by blast
  moreover have "same_frame s (cancel_head_timer s)"
    "same_frame s (s2\<lparr>head_timer := x\<rparr>)" for x
    by (simp_all add: same_frame_def s2_def cancel_head_timer_def)
  moreover have "timer_calls (cancel_head_timer s) = timer_calls s"
    by (simp add: cancel_head_timer_def)
  ultimately show ?thesis
    using assms(1) \<open>ew_inv s2\<close> by (simp add: rearm_head_timer_def Let_def flip: s2_def)
qed

lemma pump_inv: "ew_inv s \<Longrightarrow> ew_inv (pump e s)"
  and pump_frame: "ew_inv s \<Longrightarrow> same_frame s (pump e s)"
proof -
  assume inv: "ew_inv s"
  have "ew_inv (pump e s) \<and> same_frame s (pump e s)"
  proof (cases "ledger_open s")
    case False
    then show ?thesis using inv
      by (simp add: pump_def same_frame_def) (simp add: cancel_head_timer_def)
  next
    case True
    obtain s1 b where l: "pump_loop e s = (s1, b)" by fastforce
    have i: "ew_inv s1" "same_frame s s1" "\<not> b \<Longrightarrow> ledger_open s1"
      using pump_loop_inv [OF inv True, of e] l by auto
    show ?thesis
    proof (cases b)
      case True
      with l i \<open>ledger_open s\<close> show ?thesis by (simp add: pump_def)
    next
      case False
      define s2 where "s2 = s1\<lparr>pending_empty := (pending s1 = [])\<rparr>"
      have s2: "ew_inv s2" "ledger_open s2" "same_frame s s2"
        using i False by (auto simp: s2_def ledger_open_def same_frame_def)
      have r: "ew_inv (rearm_head_timer e s2)" "same_frame s (rearm_head_timer e s2)"
        using rearm_head_timer_inv [OF s2(1,2), of e] same_frame_trans [OF s2(3)] by blast+
      show ?thesis
        using l False True r by (simp add: pump_def Let_def flip: s2_def)
    qed
  qed
  then show "ew_inv (pump e s)" "same_frame s (pump e s)" by blast+
qed

end
