(* ===== verification/Event_Writer_Steps.thy ===== *)
theory Event_Writer_Steps
  imports Event_Writer_Inv
begin

text \<open>
  Every scheduling decision of the event ledger keeps its invariant: submission, the consumer's
  turns, the append's return, cancellation, the done callbacks, and the close protocol.
\<close>

section \<open>Submission\<close>

lemma ew_inv_deadline [simp]: "ew_inv (s\<lparr>last_deadline := x\<rparr>) = ew_inv s"
  by (simp add: ew_inv_def inv_parts)

definition accepting :: "ew \<Rightarrow> bool" where
  "accepting s \<longleftrightarrow> wstate s = W_NEW \<or> wstate s = W_RUNNING"

lemma accepting_open: "accepting s \<Longrightarrow> ledger_open s"
  by (auto simp: accepting_def ledger_open_def)

lemma require_open_None: "require_open s = None \<Longrightarrow> accepting s"
  by (auto simp: require_open_def accepting_def split: if_splits)

lemma ew_inv_parts:
  "ew_inv s \<Longrightarrow> seq_inv s \<and> bound_inv s \<and> flow_inv s \<and> cells_inv s \<and> sink_inv s \<and> close_inv s"
  by (simp add: ew_inv_def)

text \<open>The ticket the acceptance commit appends, and the state it leaves.\<close>

definition enqueue :: "ticket \<Rightarrow> phase \<Rightarrow> ew \<Rightarrow> ew" where
  "enqueue t ph s =
     s\<lparr>accepted := seq t, last_deadline := Some (deadline t), pending := pending s @ [t],
       pending_bytes := pending_bytes s + nbytes t, pending_empty := False,
       cells := (cells s)(seq t := observe_cell ph (new_cell\<lparr>twire := wire t\<rparr>))\<rparr>"

definition fits :: "ticket \<Rightarrow> ew \<Rightarrow> bool" where
  "fits t s \<longleftrightarrow> seq t = Suc (accepted s) \<and> ticket_ok s t \<and> int (accepted s) < max_events s \<and>
     int (length (pending s)) < max_event_capacity (policy s) \<and>
     pending_bytes s + queued_bytes s + nbytes t \<le> max_queued_bytes (policy s)"

lemma fresh_cell:
  "admission (observe_cell ph (new_cell\<lparr>twire := w\<rparr>)) = None"
  "persistence (observe_cell ph (new_cell\<lparr>twire := w\<rparr>)) = None"
  "tstate (observe_cell ph (new_cell\<lparr>twire := w\<rparr>)) = T_PENDING"
  "twire (observe_cell ph (new_cell\<lparr>twire := w\<rparr>)) = w"
  "edge_ok None (admission_edge (observe_cell ph (new_cell\<lparr>twire := w\<rparr>)))"
  "edge_ok None (persistence_edge (observe_cell ph (new_cell\<lparr>twire := w\<rparr>)))"
  by (cases ph; simp add: new_cell_def edge_ok_def)+

lemma enqueue_cells_inv:
  assumes "seq_inv s" "cells_inv s" "seq t = Suc (accepted s)"
  shows "cells_inv (enqueue t ph s)"
proof -
  have le: "persisted s \<le> accepted s" "admitted_high s \<le> accepted s"
    using assms(1) by (auto simp: seq_inv_def)
  have old: "seq u \<le> accepted s" if "u \<in> set (admitted s @ pending s)" for u
    using that admitted_range [OF assms(1), of "seq u"] pending_range [OF assms(1), of "seq u"] le
    by auto
  have c: "cell_ok s q (cells s q)" for q using assms(2) by (simp add: cells_inv_def)
  have "cell_ok (enqueue t ph s) q (cells (enqueue t ph s) q)" for q
  proof (cases "q = seq t")
    case True
    have "q \<notin> seq ` set (admitted s)" using old True assms(3) by fastforce
    with True le assms(3) show ?thesis by (simp add: cell_ok_def enqueue_def fresh_cell)
  next
    case False
    with c [of q] assms(3) show ?thesis by (auto simp: cell_ok_def enqueue_def)
  qed
  moreover have "twire (cells (enqueue t ph s) (seq u)) = wire u"
    if "u \<in> set (admitted (enqueue t ph s) @ pending (enqueue t ph s))" for u
  proof (cases "u = t")
    case False
    then have m: "u \<in> set (admitted s @ pending s)" using that by (auto simp: enqueue_def)
    then have "seq u \<noteq> seq t" using old assms(3) by fastforce
    with m assms(2) show ?thesis by (simp add: cells_inv_def enqueue_def)
  qed (simp add: enqueue_def fresh_cell)
  ultimately show ?thesis by (simp add: cells_inv_def)
qed

lemma enqueue_inv:
  assumes "ew_inv s" "accepting s" "fits t s"
  shows "ew_inv (enqueue t ph s)"
proof -
  note i = ew_inv_parts [OF assms(1)]
  note op = accepting_open [OF assms(2)]
  from assms(3) have q: "seq t = Suc (accepted s)" by (simp add: fits_def)
  have dur: "durable_text (enqueue t ph s) = durable_text s"
    using i q by (intro durable_text_cong) (auto simp: enqueue_def seq_inv_def)
  have "seq_inv s" "persisted s \<le> admitted_high s" "admitted_high s \<le> accepted s"
    using i by (simp_all add: seq_inv_def)
  moreover have "map seq (pending s @ [t]) = [Suc (admitted_high s)..<Suc (seq t)]"
    using seq_inv_open [OF \<open>seq_inv s\<close> op] q \<open>admitted_high s \<le> accepted s\<close> by simp
  ultimately have "seq_inv (enqueue t ph s)"
    using seq_inv_open [OF \<open>seq_inv s\<close> op] op q
    unfolding seq_inv_def ledger_open_def by (auto simp: enqueue_def)
  moreover have "bound_inv (enqueue t ph s)"
    using i assms(3) by (auto simp: bound_inv_def enqueue_def fits_def ladders_ok_def
      queue_capacity_eq queued_byte_budget_eq ticket_ok_def)
  moreover have "flow_inv (enqueue t ph s)"
    using i by (simp add: flow_inv_def enqueue_def ledger_open_def peek_eq)
  moreover have "sink_inv (enqueue t ph s)"
    using i unfolding sink_inv_def dur by (simp add: enqueue_def)
  moreover have "close_inv (enqueue t ph s)"
    using i assms(2) unfolding close_inv_def dur by (auto simp: enqueue_def accepting_def)
  ultimately show ?thesis
    using enqueue_cells_inv [of s t ph] i q by (simp add: ew_inv_def)
qed

lemma accept_ticket_eq:
  assumes "ew_inv s" "accepting s" "fits t s"
  shows "fst (accept_ticket e t ph s) = pump e (enqueue t ph s)"
proof -
  have "enqueue t ph s = (observe t ph (upd_cell (seq t) (\<lambda>_. new_cell\<lparr>twire := wire t\<rparr>) s))
      \<lparr>accepted := seq t, last_deadline := Some (deadline t),
       pending := pending (observe t ph (upd_cell (seq t) (\<lambda>_. new_cell\<lparr>twire := wire t\<rparr>) s)) @ [t],
       pending_bytes :=
         pending_bytes (observe t ph (upd_cell (seq t) (\<lambda>_. new_cell\<lparr>twire := wire t\<rparr>) s)) + nbytes t,
       pending_empty := False\<rparr>"
    by (simp add: enqueue_def cell_defs)
  then show ?thesis
    using enqueue_inv [OF assms, of ph]
    by (simp add: accept_ticket_def Let_def split: option.splits)
qed

lemma accept_ticket_inv:
  "ew_inv s \<Longrightarrow> accepting s \<Longrightarrow> fits t s \<Longrightarrow> ew_inv (fst (accept_ticket e t ph s))"
  by (simp add: accept_ticket_eq enqueue_inv pump_inv)

lemma refuse_submission_inv: "ew_inv s \<Longrightarrow> ew_inv (fst (refuse_submission code q s))"
  by (simp add: refuse_submission_def Let_def poison_inv)

lemma prepare_bytes:
  "prepare e event q s = Inr (w, nb) \<Longrightarrow> nb = utf8_len w \<and> nb \<le> max_event_bytes s"
  by (auto simp: prepare_def split: option.splits if_splits)

lemma commit_submission_inv:
  assumes "ew_inv s" "accepting s" "q = Suc (accepted s)" "nb = utf8_len w" "nb \<le> max_event_bytes s"
  shows "ew_inv (fst (commit_submission e q w nb ph s))"
proof -
  have "fits \<lparr>seq = q, wire = w, nbytes = nb, deadline = d\<rparr> (s\<lparr>clock_reads := c\<rparr>)"
    if "\<not> max_events s \<le> int (accepted s)" "\<not> max_event_capacity (policy s) \<le> int (length (pending s))"
      "\<not> max_queued_bytes (policy s) < pending_bytes s + queued_bytes s + nb" for d c
    using that assms by (simp add: fits_def ticket_ok_def)
  moreover have "accepting (s\<lparr>clock_reads := c\<rparr>)" for c
    using assms(2) by (simp add: accepting_def)
  ultimately show ?thesis
    using assms(1)
    by (auto simp: commit_submission_def Let_def refuse_submission_inv accept_ticket_inv
        split: option.split)
qed

lemma submit_inv: assumes "ew_inv s" shows "ew_inv (fst (submit e ev ph s))"
proof -
  define s1 where "s1 = pump e s"
  define s2 where "s2 = pump e s1"
  have i: "ew_inv s1" "ew_inv s2" "same_frame s1 s2"
    using assms by (simp_all add: s1_def s2_def pump_inv pump_frame)
  have "ew_inv (fst (commit_submission e (Suc (accepted s1)) w nb ph s2))"
    if "prepare e ev (Suc (accepted s1)) s1 = Inr (w, nb)" "require_open s2 = None" for w nb
    using i require_open_None [OF that(2)] prepare_bytes [OF that(1)]
    by (intro commit_submission_inv) (simp_all add: same_frame_def)
  then show ?thesis
    using i assms
    by (auto simp: submit_def Let_def refuse_submission_inv simp flip: s1_def s2_def
        split: option.split sum.split)
qed

lemma emit_ordered_inv: "ew_inv s \<Longrightarrow> ew_inv (fst (emit_ordered e ev s))"
  by (simp add: emit_ordered_def submit_inv)

lemma emit_awaited_inv: "ew_inv s \<Longrightarrow> ew_inv (fst (emit_awaited e ev s))"
  by (simp add: emit_awaited_def Let_def submit_inv poison_inv)

lemma on_head_timer_inv: "ew_inv s \<Longrightarrow> ew_inv (on_head_timer e g s)"
  by (simp add: on_head_timer_def pump_inv)

section \<open>Durable acknowledgement\<close>

lemma in_flight_None:
  "flow_inv s \<Longrightarrow> (\<And>t. cpc s \<noteq> Appending t) \<Longrightarrow> in_flight s = None"
  by (cases "in_flight s") (auto simp: flow_inv_def)

lemma appending_live:
  assumes "ew_inv s" "cpc s = Appending t"
  shows "consumer s = Some Task_Running" "cstate s = C_RUNNING" "wstate s \<noteq> W_CLOSED_OK"
    "kpc s \<noteq> Close_Done Close_Returned" "\<not> close_succeeded s"
proof -
  have "flow_inv s" "close_inv s" using assms(1) by (simp_all add: ew_inv_def)
  then show "consumer s = Some Task_Running" "cstate s = C_RUNNING" "wstate s \<noteq> W_CLOSED_OK"
    "kpc s \<noteq> Close_Done Close_Returned" "\<not> close_succeeded s"
    using assms(2) by (auto simp: flow_inv_def close_inv_def)
qed

definition ack_cell :: "nat \<Rightarrow> tcell \<Rightarrow> tcell" where
  "ack_cell q c = settle_cell q Persistence True None (c\<lparr>tstate := T_PERSISTED\<rparr>)"

text \<open>The state right after the head ticket's append returned and was acknowledged.\<close>

definition acked :: "ticket \<Rightarrow> ew \<Rightarrow> ew" where
  "acked t s =
     s\<lparr>sink := sink s @ wire t, cpc := Acking, admitted := tl (admitted s),
       queued_bytes := queued_bytes s - nbytes t, persisted_bytes := persisted_bytes s + nbytes t,
       persisted := seq t, cells := (cells s)(seq t := ack_cell (seq t) (cells s (seq t))),
       in_flight := None\<rparr>"

lemma admitted_head:
  assumes "seq_inv s" "admitted s = t # rest"
  shows "seq t = Suc (persisted s)" "seq t \<le> admitted_high s"
    "map seq rest = [Suc (seq t)..<Suc (admitted_high s)]"
  using assms by (auto simp: seq_inv_def upt_Cons_eq simp del: upt_Suc)

lemma acked_seq_inv:
  assumes "seq_inv s" "admitted s = t # rest" shows "seq_inv (acked t s)"
proof -
  note ah = admitted_head [OF assms]
  have a: "admitted (acked t s) = rest" "persisted (acked t s) = seq t"
    "pending (acked t s) = pending s" "admitted_high (acked t s) = admitted_high s"
    "accepted (acked t s) = accepted s" "wstate (acked t s) = wstate s"
    "primary_failure (acked t s) = primary_failure s"
    using assms(2) by (simp_all add: acked_def)
  show ?thesis
    using assms(1) ah(2,3) unfolding seq_inv_def ledger_open_def a by blast
qed

lemma acked_bound_inv:
  "bound_inv s \<Longrightarrow> admitted s = t # rest \<Longrightarrow> bound_inv (acked t s)"
proof -
  assume b: "bound_inv s" and a: "admitted s = t # rest"
  then show ?thesis
    using utf8_len_nonneg [of "wire t"]
    by (auto simp: bound_inv_def acked_def ladders_ok_def queue_capacity_eq queued_byte_budget_eq
        ticket_ok_def simp del: utf8_len_nonneg)
qed

lemma acked_twire: "twire (cells (acked t s) q) = twire (cells s q)"
  by (auto simp: acked_def ack_cell_def Let_def)

lemma acked_cells_inv:
  assumes "seq_inv s" "cells_inv s" "admitted s = t # rest"
  shows "cells_inv (acked t s)"
proof -
  note ah = admitted_head [OF assms(1,3)]
  have c: "cell_ok s q (cells s q)" for q using assms(2) by (simp add: cells_inv_def)
  have rest: "seq ` set rest = {Suc (seq t)..admitted_high s}"
    using arg_cong [OF ah(3), of set] by (auto simp del: upt_Suc)
  have none: "persistence (cells s (seq t)) = None" "edge_ok None (persistence_edge (cells s (seq t)))"
    "admission (cells s (seq t)) = Some (ok_outcome (seq t))"
    "edge_ok (admission (cells s (seq t))) (admission_edge (cells s (seq t)))"
    using c [of "seq t"] assms(3) ah(1,2) by (auto simp: cell_ok_def)
  have new: "persistence (ack_cell (seq t) (cells s (seq t))) = Some (ok_outcome (seq t))"
    "tstate (ack_cell (seq t) (cells s (seq t))) = T_PERSISTED"
    "edge_ok (Some (ok_outcome (seq t))) (persistence_edge (ack_cell (seq t) (cells s (seq t))))"
    "admission (ack_cell (seq t) (cells s (seq t))) = admission (cells s (seq t))"
    "admission_edge (ack_cell (seq t) (cells s (seq t))) = admission_edge (cells s (seq t))"
    using none by (auto simp: ack_cell_def ok_outcome_def Let_def intro: settle_edge_ok)
  have np: "seq t \<notin> seq ` set (pending s)"
    using pending_range [OF assms(1), of "seq t"] ah(2) by auto
  have "cell_ok (acked t s) q (cells (acked t s) q)" for q
  proof (cases "q = seq t")
    case True
    with new none rest np ah show ?thesis by (simp add: cell_ok_def acked_def assms(3))
  next
    case False
    with c [of q] ah assms(3) show ?thesis
      by (auto simp: cell_ok_def acked_def)
  qed
  moreover have "twire (cells (acked t s) (seq u)) = wire u"
    if "u \<in> set (admitted (acked t s) @ pending (acked t s))" for u
    using that assms(2,3) unfolding acked_twire by (auto simp: cells_inv_def acked_def)
  ultimately show ?thesis by (simp add: cells_inv_def)
qed

lemma acked_durable:
  assumes "seq_inv s" "cells_inv s" "admitted s = t # rest"
  shows "durable_text (acked t s) = durable_text s @ wire t"
proof -
  note ah = admitted_head [OF assms(1,3)]
  have w: "twire (cells s (seq t)) = wire t" using assms(2,3) by (simp add: cells_inv_def)
  have "durable_text (acked t s) = concat (map (\<lambda>q. twire (cells s q)) [1..<Suc (seq t)])"
    unfolding durable_text_def acked_twire by (simp add: acked_def)
  also have "\<dots> = durable_text s @ wire t"
    using w by (simp add: ah(1) durable_text_def)
  finally show ?thesis .
qed

lemma acked_inv:
  assumes "ew_inv s" "cpc s = Appending t" "admitted s = t # rest"
  shows "ew_inv (acked t s)"
proof -
  note i = ew_inv_parts [OF assms(1)]
  note live = appending_live [OF assms(1,2)]
  have dur: "durable_text (acked t s) = durable_text s @ wire t"
    using i assms(3) by (intro acked_durable) auto
  have "sink s = durable_text s" using i assms(3) by (auto simp: sink_inv_def)
  then have "sink_inv (acked t s)" by (simp add: sink_inv_def dur) (simp add: acked_def)
  moreover have "flow_inv (acked t s)"
    using live by (simp add: flow_inv_def acked_def)
  moreover have "close_inv (acked t s)"
    using i live unfolding close_inv_def dur by (auto simp: acked_def)
  ultimately show ?thesis
    using acked_seq_inv acked_bound_inv acked_cells_inv i assms(3) by (simp add: ew_inv_def)
qed

text \<open>An append that returns after the ledger was poisoned for good: nothing is acknowledged.\<close>

lemma late_append_inv:
  assumes "ew_inv s" "cpc s = Appending t" "in_flight s = None"
  shows "ew_inv (s\<lparr>sink := sink s @ x, cpc := Acking\<rparr>)"
proof -
  note i = ew_inv_parts [OF assms(1)]
  note live = appending_live [OF assms(1,2)]
  from i assms(2,3) have cl: "\<not> ledger_open s" "admitted s = []" by (auto simp: flow_inv_def)
  with i live have pf: "primary_failure s \<noteq> None"
    by (cases "wstate s") (auto simp: seq_inv_def ledger_open_def)
  let ?t = "s\<lparr>sink := sink s @ x, cpc := Acking\<rparr>"
  have dur: "durable_text ?t = durable_text s" by (simp add: durable_text_def)
  have "sink_inv ?t" using i pf cl by (auto simp: sink_inv_def dur)
  moreover have "flow_inv ?t" using i assms live by (simp add: flow_inv_def)
  moreover have "close_inv ?t"
    using i live unfolding close_inv_def dur by (auto simp: ledger_open_def)
  moreover have "seq_inv ?t = seq_inv s" "bound_inv ?t = bound_inv s" "cells_inv ?t = cells_inv s"
    by (simp_all add: inv_parts)
  ultimately show ?thesis using i by (simp add: ew_inv_def)
qed

lemma durable_ack_late:
  "in_flight s = None \<Longrightarrow> durable_ack e t s = poison LEDGER_INVARIANT (seq t) None True s"
  by (simp add: durable_ack_def)

lemma durable_ack_head:
  assumes "ew_inv s" "cpc s = Appending t" "admitted s = t # rest" "in_flight s = Some t"
  shows "durable_ack e t (s\<lparr>sink := sink s @ wire t, cpc := Acking\<rparr>) =
    (pump e (acked t s))\<lparr>consumer_wakeup := True\<rparr>"
proof -
  note i = ew_inv_parts [OF assms(1)]
  have "cell_ok s (seq t) (cells s (seq t))" using i by (simp add: cells_inv_def)
  then have st: "tstate (cells s (seq t)) = T_ADMITTED"
    using assms(3) by (simp add: cell_ok_def)
  have q: "seq t = persisted s + 1" using admitted_head [of s t rest] i assms(3) by simp
  define s' where "s' = s\<lparr>sink := sink s @ wire t, cpc := Acking\<rparr>"
  have "(settle_phase t Persistence True None
          (upd_cell (seq t) (\<lambda>c. c\<lparr>tstate := T_PERSISTED\<rparr>)
            (s'\<lparr>admitted := tl (admitted s'), queued_bytes := queued_bytes s' - nbytes t,
              persisted_bytes := persisted_bytes s' + nbytes t, persisted := seq t\<rparr>)))
        \<lparr>in_flight := None\<rparr> = acked t s"
    by (simp add: s'_def acked_def cell_defs ack_cell_def)
  moreover have "admitted s' \<noteq> []" "seq (hd (admitted s')) = seq t" "in_flight s' = Some t"
    "tstate (cells s' (seq t)) = T_ADMITTED" "seq t = persisted s' + 1"
    using assms st q by (simp_all add: s'_def)
  ultimately show ?thesis
    using acked_inv [OF assms(1,2,3)] unfolding s'_def [symmetric] durable_ack_def
    by (simp add: Let_def)
qed

lemma append_returned_inv:
  assumes "ew_inv s" "cpc s = Appending t"
    and d_def: "d = durable_ack e t (s\<lparr>sink := sink s @ wire t, cpc := Acking\<rparr>)"
  shows "ew_inv d \<and> cpc d = Acking \<and> consumer d = Some Task_Running"
proof (cases "in_flight s")
  case None
  note late = late_append_inv [OF assms(1,2) None]
  show ?thesis
    using None poison_inv [OF late] appending_live [OF assms(1,2)]
      poison_sel [OF ew_inv_seq_inv [OF late]]
    by (simp add: d_def durable_ack_late)
next
  case (Some u)
  with assms(1,2) have u: "u = t" "take 1 (admitted s) = [t]"
    by (auto simp: ew_inv_def flow_inv_def)
  then obtain rest where a: "admitted s = t # rest" by (cases "admitted s") auto
  have inv: "ew_inv (acked t s)" by (rule acked_inv [OF assms(1,2) a])
  show ?thesis
    using durable_ack_head [OF assms(1,2) a, of e] Some u inv
      ew_inv_wakeup [OF pump_inv [OF inv]] pump_frame [OF inv, of e] appending_live [OF assms(1,2)]
    by (simp add: d_def same_frame_def acked_def)
qed

section \<open>The consumer's turns\<close>

text \<open>A state change that only moves the consumer and the wakeup edge.\<close>

lemma consumer_move_inv:
  assumes "ew_inv s"
    and t: "t = s\<lparr>cstate := st, consumer := c, cpc := pc, in_flight := fl, stop_requested := b,
      consumer_wakeup := w, pending_empty := pe\<rparr>"
    and "flight_ok fl pc (ledger_open s) (admitted s)" "consumer_ok pc c st"
    and "st = C_NOT_STARTED \<Longrightarrow> persisted s = 0"
    and "pc = Waiting \<Longrightarrow> action_of (admitted s) (wstate s) (drain_then_exit s) b \<noteq> Act_Wait \<Longrightarrow> w"
    and "kpc s = Close_Done Close_Returned \<Longrightarrow> st \<noteq> C_RUNNING"
  shows "ew_inv t"
proof -
  note i = ew_inv_parts [OF assms(1)]
  have "flow_inv t" using assms(3-6) by (simp add: t flow_inv_def ledger_open_def peek_eq)
  moreover have dur: "durable_text t = durable_text s" by (simp add: t durable_text_def)
  have "close_inv t"
    using i assms(7) unfolding close_inv_def dur by (auto simp: t ledger_open_def)
  moreover have "seq_inv t = seq_inv s" "bound_inv t = bound_inv s" "cells_inv t = cells_inv s"
    "sink_inv t = sink_inv s"
    by (simp_all add: t inv_parts)
  ultimately show ?thesis using i by (simp add: ew_inv_def)
qed

lemma close_returned_consumer:
  "ew_inv s \<Longrightarrow> kpc s = Close_Done Close_Returned \<Longrightarrow> cstate s \<noteq> C_RUNNING"
  by (simp add: ew_inv_def close_inv_def)

lemma consumer_finally_inv:
  assumes "ew_inv s" "in_flight s = None" "x \<noteq> C_RUNNING" "x \<noteq> C_NOT_STARTED"
  shows "ew_inv (consumer_finally r (s\<lparr>stop_requested := b, cstate := x\<rparr>))"
  using assms
  by (intro consumer_move_inv [OF assms(1), where st = x and c = "Some (Task_Done r)"
        and pc = Consumer_Exited and fl = None and b = b and w = True and pe = True])
     (simp_all add: consumer_finally_def)

lemma consumer_finally_inv':
  assumes "ew_inv s" "in_flight s = None" "x \<noteq> C_RUNNING" "x \<noteq> C_NOT_STARTED"
  shows "ew_inv (consumer_finally r (s\<lparr>cstate := x\<rparr>))"
  using consumer_finally_inv [OF assms, of r "stop_requested s"] by simp

lemma consumer_error_inv:
  assumes "ew_inv s"
  shows "ew_inv (consumer_finally r ((poison code ord None True s)\<lparr>cstate := C_EXITED_ERROR\<rparr>))"
  using poison_inv [OF assms] poison_sel [OF ew_inv_seq_inv [OF assms]]
  by (intro consumer_finally_inv') (simp_all add: cannot_persist_def)

lemma consumer_poll_inv:
  assumes "ew_inv s" "consumer s = Some Task_Running" "\<And>t. cpc s \<noteq> Appending t"
  shows "ew_inv (consumer_poll s)"
proof -
  from assms(1) have "flow_inv s" by (simp add: ew_inv_def)
  then have fl: "in_flight s = None" and run: "cstate s = C_RUNNING"
    using in_flight_None assms(2,3) by (cases "cpc s"; simp add: flow_inv_def)+
  note kr = close_returned_consumer [OF assms(1)]
  show ?thesis
  proof (cases "peek_consumer_action s")
    case (Act_Ticket t)
    then have "take 1 (admitted s) = [t]"
      by (auto simp: peek_consumer_action_def split: list.splits if_splits)
    with Act_Ticket show ?thesis
      using run assms(2) kr
      by (intro consumer_move_inv [OF assms(1), where st = C_RUNNING and c = "Some Task_Running"
            and pc = "Appending t" and fl = "Some t" and b = "stop_requested s"
            and w = "consumer_wakeup s" and pe = "pending_empty s"])
         (auto simp: consumer_poll_def)
  next
    case Act_Wait
    then show ?thesis
      using run assms(2) kr fl
      by (intro consumer_move_inv [OF assms(1), where st = C_RUNNING and c = "Some Task_Running"
            and pc = Waiting and fl = None and b = "stop_requested s" and w = False
            and pe = "pending_empty s"])
         (auto simp: consumer_poll_def peek_eq)
  next
    case Act_Drained
    then show ?thesis using assms(1) fl by (simp add: consumer_poll_def consumer_finally_inv')
  next
    case Act_Stop
    then show ?thesis using assms(1) fl
      by (simp add: consumer_poll_def consumer_finally_inv consumer_error_inv)
  qed
qed

lemma append_ok_inv: "ew_inv s \<Longrightarrow> cpc s = Appending t \<Longrightarrow> ew_inv (append_ok e t s)"
  using append_returned_inv [OF _ _ refl, of s t e]
  by (auto simp: append_ok_def intro!: consumer_poll_inv)

lemma poison_torn_append_inv:
  assumes "ew_inv s" "cpc s = Appending t"
  shows "ew_inv (poison code ord None True (s\<lparr>sink := sink s @ x\<rparr>))"
proof -
  note i = ew_inv_parts [OF assms(1)]
  note live = appending_live [OF assms]
  define s' where "s' = s\<lparr>sink := sink s @ x\<rparr>"
  have dur: "durable_text s' = durable_text s" by (simp add: s'_def durable_text_def)
  have "seq_inv s' = seq_inv s" "bound_inv s' = bound_inv s" "flow_inv s' = flow_inv s"
    "cells_inv s' = cells_inv s"
    by (simp_all add: s'_def inv_parts)
  with i have parts: "seq_inv s'" "bound_inv s'" "flow_inv s'" "cells_inv s'" by simp_all
  have cl: "close_inv s'"
    using i live unfolding close_inv_def dur by (auto simp: s'_def ledger_open_def)
  note p = poison_sel [OF parts(1), of code ord None True]
  have "\<exists>junk. sink s' = durable_text s @ junk" using i by (auto simp: sink_inv_def s'_def)
  then have "sink_inv (poison code ord None True s')"
    unfolding sink_inv_def poison_durable_text [OF parts(1)] p dur by (simp add: cannot_persist_def)
  then show ?thesis
    using parts cl
    by (simp add: ew_inv_def poison_seq_inv poison_bound_inv poison_flow_inv poison_cells_inv
        poison_close_inv flip: s'_def)
qed

lemma append_torn_exit_inv:
  assumes "ew_inv s" "cpc s = Appending t"
  shows "ew_inv (consumer_finally r
    ((poison code ord None True (s\<lparr>sink := sink s @ x\<rparr>))\<lparr>cstate := C_EXITED_ERROR\<rparr>))"
proof -
  have "seq_inv (s\<lparr>sink := sink s @ x\<rparr>) = seq_inv s" by (simp add: inv_parts)
  then have "seq_inv (s\<lparr>sink := sink s @ x\<rparr>)" using assms(1) by (simp add: ew_inv_def)
  then show ?thesis
    using poison_torn_append_inv [OF assms, of code ord x]
    by (intro consumer_finally_inv') (simp_all add: poison_sel cannot_persist_def)
qed

lemma append_failed_inv: "ew_inv s \<Longrightarrow> cpc s = Appending t \<Longrightarrow> ew_inv (append_failed k t s)"
  by (simp add: append_failed_def append_torn_exit_inv)

lemma append_cancelled_inv: "ew_inv s \<Longrightarrow> cpc s = Appending t \<Longrightarrow> ew_inv (append_cancelled k t s)"
  by (simp add: append_cancelled_def append_torn_exit_inv)

lemma suspended_running:
  "ew_inv s \<Longrightarrow> consumer s = Some Task_Running \<Longrightarrow> cstate s = C_RUNNING \<and> cpc s \<noteq> Consumer_Exited"
  by (cases "cpc s") (auto simp: ew_inv_def flow_inv_def)

lemma consumer_cancelled_inv:
  "ew_inv s \<Longrightarrow> consumer s = Some Task_Running \<Longrightarrow> ew_inv (consumer_cancelled s)"
  using suspended_running [of s] by (simp add: consumer_cancelled_def consumer_error_inv)

lemma consumer_never_ran_inv:
  assumes "ew_inv s" "cpc s = At_Gate" "consumer s = Some Task_Running"
  shows "ew_inv (consumer_never_ran s)"
proof -
  have "in_flight s = None" using assms(1,2) in_flight_None [of s] by (simp add: ew_inv_def)
  then show ?thesis
    using suspended_running [OF assms(1,3)] close_returned_consumer [OF assms(1)]
    by (intro consumer_move_inv [OF assms(1), where st = C_RUNNING and c = "Some (Task_Done Cancelled)"
          and pc = Consumer_Exited and fl = None and b = "stop_requested s"
          and w = "consumer_wakeup s" and pe = "pending_empty s"])
       (simp_all add: consumer_never_ran_def)
qed

lemma done_exited: "ew_inv s \<Longrightarrow> consumer s = Some (Task_Done r) \<Longrightarrow> cpc s = Consumer_Exited"
  by (cases "cpc s") (auto simp: ew_inv_def flow_inv_def split: task.splits)

text \<open>Marking a consumer that already exited.\<close>

lemma exited_mark_inv:
  assumes "ew_inv s" "cpc s = Consumer_Exited" "x \<noteq> C_NOT_STARTED" "x \<noteq> C_RUNNING"
  shows "ew_inv (s\<lparr>cstate := x\<rparr>)"
proof -
  have "in_flight s = None" "consumer s \<noteq> Some Task_Running"
    using assms(1,2) in_flight_None [of s] by (auto simp: ew_inv_def flow_inv_def)
  then show ?thesis
    using assms
    by (intro consumer_move_inv [OF assms(1), where st = x and c = "consumer s"
          and pc = Consumer_Exited and fl = None and b = "stop_requested s"
          and w = "consumer_wakeup s" and pe = "pending_empty s"]) auto
qed

lemma exited_join_inv:
  assumes "ew_inv s" "cpc s = Consumer_Exited"
  shows "ew_inv (s\<lparr>consumer := None\<rparr>)"
proof -
  have "in_flight s = None" "cstate s \<noteq> C_NOT_STARTED"
    using assms in_flight_None [of s] by (auto simp: ew_inv_def flow_inv_def)
  then show ?thesis
    using assms close_returned_consumer [OF assms(1)]
    by (intro consumer_move_inv [OF assms(1), where st = "cstate s" and c = None
          and pc = Consumer_Exited and fl = None and b = "stop_requested s"
          and w = "consumer_wakeup s" and pe = "pending_empty s"]) auto
qed

lemma poison_mark_inv:
  assumes "ew_inv s" "cpc s = Consumer_Exited"
  shows "ew_inv ((poison code ord None True s)\<lparr>cstate := C_EXITED_ERROR\<rparr>)"
  using exited_mark_inv [OF poison_inv [OF assms(1)], of code ord None True C_EXITED_ERROR]
    assms(2) poison_sel [OF ew_inv_seq_inv [OF assms(1)]] by simp

lemma on_consumer_done_inv:
  assumes "ew_inv s" "consumer s = Some (Task_Done r)"
  shows "ew_inv (on_consumer_done r s)"
proof -
  note ex = done_exited [OF assms]
  have "ew_inv (t\<lparr>pending_empty := True, consumer_wakeup := True\<rparr>)" if "ew_inv t" for t
    using ew_inv_wakeup [of "t\<lparr>pending_empty := True\<rparr>"] that by simp
  then show ?thesis
    using poison_mark_inv [OF assms(1) ex] assms(1) by (simp add: on_consumer_done_def Let_def)
qed

lemma not_started_gate:
  assumes "ew_inv s" "cstate s = C_NOT_STARTED"
  shows "cpc s = At_Gate" "consumer s = None" "in_flight s = None"
proof -
  from assms have f: "flow_inv s" by (simp add: ew_inv_def)
  with assms(2) show g: "cpc s = At_Gate"
    by (cases "cpc s") (auto simp: flow_inv_def)
  with f show "in_flight s = None" using in_flight_None [of s] by simp
  from f g assms(2) show "consumer s = None"
    by (auto simp: flow_inv_def split: option.splits task.splits)
qed

lemma start_inv: assumes "ew_inv s" shows "ew_inv (fst (start b s))"
proof (cases "cstate s = C_NOT_STARTED \<and> wstate s = W_NEW")
  case True
  note g = not_started_gate [OF assms, OF conjunct1 [OF True]]
  note i = ew_inv_parts [OF assms]
  have "ew_inv (s\<lparr>cstate := C_EXITED_ERROR\<rparr>)"
    using g by (intro consumer_move_inv [OF assms, where st = C_EXITED_ERROR and c = None
          and pc = At_Gate and fl = None and b = "stop_requested s"
          and w = "consumer_wakeup s" and pe = "pending_empty s"]) auto
  moreover
  define t where "t = s\<lparr>wstate := W_RUNNING\<rparr>"
  have nk: "kpc s = Close_Not_Called" using i True by (auto simp: close_inv_def)
  have "ew_inv t"
  proof -
    have dur: "durable_text t = durable_text s" by (simp add: t_def durable_text_def)
    have "bound_inv t = bound_inv s" "cells_inv t = cells_inv s" "sink_inv t = sink_inv s"
      by (simp_all add: t_def inv_parts)
    moreover have "seq_inv t"
      using i True unfolding seq_inv_def ledger_open_def by (auto simp: t_def)
    moreover have "flow_inv t" using i g True by (simp add: flow_inv_def t_def)
    moreover have "close_inv t" using i nk unfolding close_inv_def dur by (auto simp: t_def)
    ultimately show ?thesis using i by (simp add: ew_inv_def)
  qed
  then have "ew_inv (s\<lparr>consumer := Some Task_Running, cstate := C_RUNNING, wstate := W_RUNNING,
              consumer_wakeup := True, cpc := At_Gate\<rparr>)"
    using g nk by (intro consumer_move_inv [OF \<open>ew_inv t\<close>, where st = C_RUNNING
          and c = "Some Task_Running" and pc = At_Gate and fl = None and b = "stop_requested s"
          and w = True and pe = "pending_empty s"]) (auto simp: t_def)
  ultimately show ?thesis using True by (simp add: start_def Let_def poison_inv)
qed (use assms in \<open>auto simp: start_def\<close>)

section \<open>Close\<close>

text \<open>A state change that only moves the close task and the writer state.\<close>

lemma close_move_inv:
  assumes "ew_inv s" and t: "t = s\<lparr>wstate := x, kpc := k\<rparr>"
    and "seq_inv t" "flight_ok (in_flight s) (cpc s) (ledger_open t) (admitted s)"
    and "cpc s = Waiting \<Longrightarrow> x \<noteq> wstate s \<Longrightarrow> consumer_wakeup s \<or> x \<noteq> W_FAILING \<and> wstate s \<noteq> W_FAILING"
    and "close_inv t"
  shows "ew_inv t"
proof -
  note i = ew_inv_parts [OF assms(1)]
  have "flow_inv t"
    using i assms(4,5) by (auto simp: t flow_inv_def ledger_open_def peek_eq action_of_def
      split: list.splits if_splits)
  moreover have "bound_inv t = bound_inv s" "cells_inv t = cells_inv s" "sink_inv t = sink_inv s"
    by (simp_all add: t inv_parts)
  ultimately show ?thesis using i assms(3,6) by (simp add: ew_inv_def)
qed

lemma kpc_inv:
  assumes "ew_inv s" "\<not> accepting s" "wstate s \<noteq> W_CLOSED_OK" "\<not> close_succeeded s"
    "k \<noteq> Close_Done Close_Returned"
  shows "ew_inv (s\<lparr>kpc := k\<rparr>)"
proof -
  note i = ew_inv_parts [OF assms(1)]
  have "seq_inv (s\<lparr>kpc := k\<rparr>) = seq_inv s" by (simp add: inv_parts)
  then show ?thesis
    using i assms
    by (intro close_move_inv [OF assms(1), where x = "wstate s" and k = k])
       (auto simp: flow_inv_def ledger_open_def close_inv_def accepting_def)
qed

lemma failing_closed: "seq_inv s \<Longrightarrow> primary_failure s \<noteq> None \<Longrightarrow> \<not> ledger_open s"
  by (auto simp: seq_inv_def ledger_open_def)

lemma failing_wakeup:
  assumes "ew_inv s" "wstate s = W_FAILING" "cpc s = Waiting" shows "consumer_wakeup s"
proof -
  have "action_of (admitted s) W_FAILING d b \<noteq> Act_Wait" for d b
    by (simp add: action_of_def split: list.splits)
  with assms show ?thesis by (simp add: ew_inv_def flow_inv_def peek_eq)
qed

lemma closed_failed_inv:
  assumes "ew_inv s" "primary_failure s \<noteq> None"
  shows "ew_inv (s\<lparr>wstate := W_CLOSED_FAILED\<rparr>)"
proof -
  note i = ew_inv_parts [OF assms(1)]
  have op: "\<not> ledger_open s" using failing_closed i assms(2) by blast
  then have "\<not> ledger_open (s\<lparr>wstate := W_CLOSED_FAILED\<rparr>)" by (simp add: ledger_open_def)
  moreover have "seq_inv (s\<lparr>wstate := W_CLOSED_FAILED\<rparr>)"
    using i op assms(2) unfolding seq_inv_def ledger_open_def by auto
  moreover have "close_inv (s\<lparr>wstate := W_CLOSED_FAILED\<rparr>)"
    using i unfolding close_inv_def durable_text_def by (auto simp: ledger_open_def)
  ultimately show ?thesis
    using i assms op failing_wakeup [OF assms(1)]
    by (intro close_move_inv [OF assms(1), where x = W_CLOSED_FAILED and k = "kpc s"])
       (auto simp: flow_inv_def)
qed

lemma close_fail_inv:
  assumes "ew_inv s" "primary_failure s \<noteq> None" "kpc s \<noteq> Close_Done Close_Returned"
  shows "ew_inv (close_fail s)"
proof -
  have "\<not> close_succeeded s" using assms by (auto simp: ew_inv_def close_inv_def)
  with kpc_inv [OF closed_failed_inv [OF assms(1,2)]] show ?thesis
    by (simp add: close_fail_def accepting_def)
qed

lemma persisted_all:
  "seq_inv s \<Longrightarrow> persisted s = accepted s \<Longrightarrow> admitted s = [] \<and> pending s = []"
  by (auto simp: seq_inv_def)

lemma closed_ok_inv:
  assumes "ew_inv s" "primary_failure s = None" "persisted s = accepted s" "cstate s \<noteq> C_RUNNING"
  shows "ew_inv (s\<lparr>wstate := W_CLOSED_OK, kpc := Close_Done Close_Returned\<rparr>)"
proof -
  note i = ew_inv_parts [OF assms(1)]
  let ?t = "s\<lparr>wstate := W_CLOSED_OK, kpc := Close_Done Close_Returned\<rparr>"
  have e: "admitted s = []" "pending s = []" using persisted_all i assms(3) by auto
  have op: "\<not> ledger_open ?t" by (simp add: ledger_open_def)
  have dur: "durable_text ?t = durable_text s" by (simp add: durable_text_def)
  have "seq_inv ?t" using i e assms(2) op unfolding seq_inv_def by simp
  moreover have "close_inv ?t"
    using i assms e op unfolding close_inv_def dur by (simp add: sink_inv_def)
  moreover have "cpc s \<noteq> Waiting" using i assms(4) by (auto simp: flow_inv_def)
  ultimately show ?thesis
    using i e op
    by (intro close_move_inv [OF assms(1), where x = W_CLOSED_OK and k = "Close_Done Close_Returned"])
       (cases "in_flight s"; cases "cpc s"; auto simp: flow_inv_def)+
qed

lemma close_certify_inv:
  assumes "ew_inv s" "kpc s \<noteq> Close_Done Close_Returned" shows "ew_inv (close_certify s)"
proof -
  define s1 where "s1 = cancel_head_timer s"
  have i: "ew_inv s1" "kpc s1 \<noteq> Close_Done Close_Returned"
    using assms by (simp_all add: s1_def) (simp add: cancel_head_timer_def)
  then have "persisted s1 \<le> accepted s1" by (auto simp: ew_inv_def seq_inv_def)
  moreover have "cstate s1 = C_NOT_STARTED \<longrightarrow> persisted s1 = 0"
    using i by (simp add: ew_inv_def flow_inv_def)
  ultimately have "ew_inv (s1\<lparr>wstate := W_CLOSED_OK, kpc := Close_Done Close_Returned\<rparr>)"
    if "primary_failure s1 = None" "cstate s1 = C_NOT_STARTED \<and> accepted s1 = 0 \<or>
             cstate s1 = C_EXITED_CLOSE_STOP \<and> persisted s1 = accepted s1"
    using that i by (intro closed_ok_inv) auto
  moreover have "ew_inv (close_fail (poison code ord v imp s1))" for code ord v imp
    using poison_inv [OF i(1)] poison_sel [OF ew_inv_seq_inv [OF i(1)]] i(2)
    by (intro close_fail_inv) simp_all
  moreover have "primary_failure s1 \<noteq> None \<Longrightarrow> ew_inv (close_fail s1)"
    using close_fail_inv i by blast
  ultimately show ?thesis
    unfolding close_certify_def Let_def s1_def [symmetric] by auto
qed

lemma closing_not_accepting: "ew_inv s \<Longrightarrow> kpc s \<noteq> Close_Not_Called \<Longrightarrow> \<not> accepting s"
  by (simp add: ew_inv_def close_inv_def accepting_def)

lemma close_unfinished:
  "ew_inv s \<Longrightarrow> kpc s \<noteq> Close_Done Close_Returned \<Longrightarrow> wstate s \<noteq> W_CLOSED_OK \<and> \<not> close_succeeded s"
  by (auto simp: ew_inv_def close_inv_def)

lemma close_progress_inv:
  assumes "ew_inv s" "kpc s \<noteq> Close_Not_Called" "kpc s \<noteq> Close_Done Close_Returned"
    "k \<noteq> Close_Done Close_Returned"
  shows "ew_inv (s\<lparr>kpc := k\<rparr>)"
  using assms closing_not_accepting close_unfinished by (intro kpc_inv) auto

lemma request_stop_inv:
  assumes "ew_inv s" "kpc s \<noteq> Close_Not_Called" "kpc s \<noteq> Close_Done Close_Returned"
  shows "ew_inv (request_stop s)"
proof -
  have "ew_inv (s\<lparr>stop_requested := True, consumer_wakeup := True\<rparr>)"
    using ew_inv_parts [OF assms(1)] close_returned_consumer [OF assms(1)]
    by (intro consumer_move_inv [OF assms(1), where st = "cstate s" and c = "consumer s"
          and pc = "cpc s" and fl = "in_flight s" and b = True and w = True and pe = "pending_empty s"])
       (auto simp: flow_inv_def)
  then show ?thesis
    using close_progress_inv [of "s\<lparr>stop_requested := True, consumer_wakeup := True\<rparr>" Wait_Consumer]
      close_progress_inv [OF assms, of Wait_Consumer] assms
    by (simp add: request_stop_def)
qed

lemma close_drain_inv:
  assumes "ew_inv s" "kpc s \<noteq> Close_Not_Called" "kpc s \<noteq> Close_Done Close_Returned"
  shows "ew_inv (close_drain e s)"
proof -
  define s1 where "s1 = pump e (s\<lparr>pending_empty := False\<rparr>)"
  have "ew_inv (s\<lparr>pending_empty := False\<rparr>)" using assms(1) by simp
  then have "ew_inv s1" "same_frame (s\<lparr>pending_empty := False\<rparr>) s1"
    unfolding s1_def by (simp_all only: pump_inv pump_frame)
  moreover from this assms have "kpc s1 \<noteq> Close_Not_Called" "kpc s1 \<noteq> Close_Done Close_Returned"
    by (simp_all add: same_frame_def)
  ultimately show ?thesis
    using request_stop_inv [OF assms] request_stop_inv close_progress_inv
    by (simp add: close_drain_def Let_def flip: s1_def)
qed

lemma close_enter_inv:
  assumes "ew_inv s" "kpc s = Close_Start" shows "ew_inv (close_enter e s)"
proof -
  note p = poison_inv [OF assms(1)] poison_sel [OF ew_inv_seq_inv [OF assms(1)]]
  have c: "cstate (cancel_head_timer s) = cstate s" "accepted (cancel_head_timer s) = accepted s"
    "persisted (cancel_head_timer s) = persisted s"
    "primary_failure (cancel_head_timer s) = primary_failure s"
    by (simp_all add: cancel_head_timer_def)
  have "ew_inv ((cancel_head_timer s)\<lparr>wstate := W_CLOSED_OK, kpc := Close_Done Close_Returned\<rparr>)"
    if "cstate s = C_NOT_STARTED" "accepted s = 0" "primary_failure s = None"
  proof (rule closed_ok_inv)
    have "persisted s \<le> accepted s" using assms(1) by (auto simp: ew_inv_def seq_inv_def)
    with that show "persisted (cancel_head_timer s) = accepted (cancel_head_timer s)" by (simp add: c)
  qed (use assms that in \<open>simp_all add: c\<close>)
  moreover have "ew_inv (close_fail (poison NO_CONSUMER ord None True s))" for ord
    using p assms(2) by (intro close_fail_inv) simp_all
  moreover have "ew_inv (close_certify (poison CLOSE_INCONSISTENCY ord None True s))" for ord
    using p assms(2) by (intro close_certify_inv) simp_all
  moreover have "ew_inv (close_drain e s)"
    using assms by (intro close_drain_inv) simp_all
  ultimately show ?thesis by (simp add: close_enter_def)
qed

lemma close_joined_inv:
  assumes "ew_inv s" "kpc s = Wait_Consumer" "consumer s = Some (Task_Done r)"
  shows "ew_inv (close_joined r s)"
proof -
  note ex = done_exited [OF assms(1,3)]
  note p = poison_sel [OF ew_inv_seq_inv [OF assms(1)]]
  have "ew_inv (close_certify (t\<lparr>consumer := None\<rparr>))"
    if "ew_inv t" "cpc t = Consumer_Exited" "kpc t = Wait_Consumer" for t
    using exited_join_inv [OF that(1,2)] that(3) by (intro close_certify_inv) simp_all
  then show ?thesis
    using poison_mark_inv [OF assms(1) ex] assms ex p by (simp add: close_joined_def Let_def)
qed

lemma close_inv_cutoff:
  assumes "ew_inv s" "kpc s = Close_Not_Called" "accepting s"
  shows "ew_inv (s\<lparr>wstate := W_CLOSING\<rparr>)"
proof -
  note i = ew_inv_parts [OF assms(1)]
  define t where "t = s\<lparr>wstate := W_CLOSING\<rparr>"
  note op = accepting_open [OF assms(3)]
  have "ledger_open t" by (simp add: t_def ledger_open_def)
  moreover have "seq_inv t"
    using i op seq_inv_open [of s] unfolding seq_inv_def ledger_open_def by (auto simp: t_def)
  moreover have "close_inv t"
    using i assms(2) close_unfinished [OF assms(1)] by (auto simp: close_inv_def t_def)
  ultimately show ?thesis
    using i op assms(3) unfolding t_def [symmetric]
    by (intro close_move_inv [OF assms(1), where x = W_CLOSING and k = "kpc s"])
       (auto simp: flow_inv_def accepting_def t_def)
qed

lemma close_inv_op: assumes "ew_inv s" shows "ew_inv (close e s)"
proof (cases "kpc s = Close_Not_Called")
  case True
  define t where "t = s\<lparr>wstate := W_CLOSING\<rparr>"
  have un: "wstate s \<noteq> W_CLOSED_OK" "\<not> close_succeeded s"
    using close_unfinished [OF assms] True by simp_all
  show ?thesis
  proof (cases "accepting s")
    case acc: True
    have "ew_inv t" using close_inv_cutoff [OF assms True acc] by (simp add: t_def)
    then have "ew_inv (pump e t)" "same_frame t (pump e t)" by (simp_all add: pump_inv pump_frame)
    then have "ew_inv ((pump e t)\<lparr>kpc := Close_Start\<rparr>)"
      using un by (intro kpc_inv) (auto simp: same_frame_def t_def accepting_def)
    then show ?thesis using True acc by (simp add: close_def accepting_def flip: t_def)
  next
    case False
    with kpc_inv [OF assms False un] True show ?thesis
      by (simp add: close_def accepting_def)
  qed
qed (use assms in \<open>simp add: close_def\<close>)

lemma close_succeeded_inv:
  assumes "ew_inv s" "kpc s = Close_Done Close_Returned"
  shows "ew_inv (s\<lparr>close_succeeded := True\<rparr>)"
proof -
  let ?t = "s\<lparr>close_succeeded := True\<rparr>"
  have "close_inv ?t = close_inv s"
    using assms by (auto simp: close_inv_def ledger_open_def durable_text_def)
  moreover have "seq_inv ?t = seq_inv s" "bound_inv ?t = bound_inv s" "flow_inv ?t = flow_inv s"
    "cells_inv ?t = cells_inv s" "sink_inv ?t = sink_inv s"
    by (simp_all add: inv_parts)
  ultimately show ?thesis using assms(1) by (simp add: ew_inv_def)
qed

lemma cache_close_outcome_inv:
  assumes "ew_inv s" "kpc s = Close_Done r" shows "ew_inv (cache_close_outcome r s)"
proof -
  have failed: "ew_inv (t\<lparr>close_failure := y, wstate := W_CLOSED_FAILED\<rparr>)"
    if "ew_inv t" "primary_failure t \<noteq> None" for t y
    using closed_failed_inv [of "t\<lparr>close_failure := y\<rparr>"] that by simp
  have "primary_failure (poison code ord v imp s) \<noteq> None" for code ord v imp
    unfolding poison_sel [OF ew_inv_seq_inv [OF assms(1)]] by (rule merge_failure_Some)
  note poisoned = failed [OF poison_inv [OF assms(1)] this]
  show ?thesis
    using assms close_succeeded_inv poisoned failed
    by (cases r) (simp_all add: cache_close_outcome_def Let_def)
qed

section \<open>Every step\<close>

theorem ew_step_inv: "ew_step e s t \<Longrightarrow> ew_inv s \<Longrightarrow> ew_inv t"
proof (induction rule: ew_step.induct)
  case (st_first s)
  then show ?case by (intro consumer_poll_inv) simp_all
next
  case (st_wake s)
  then have "flow_inv s" by (simp add: ew_inv_def)
  with st_wake show ?case by (intro consumer_poll_inv) (simp_all add: flow_inv_def)
next
  case (st_close_drain s)
  then show ?case by (intro close_drain_inv) simp_all
next
  case (st_close_cancelled s)
  then show ?case by (intro close_progress_inv) auto
qed (simp_all add: emit_ordered_inv emit_awaited_inv start_inv on_head_timer_inv append_ok_inv
    append_failed_inv append_cancelled_inv consumer_cancelled_inv consumer_never_ran_inv
    on_consumer_done_inv close_inv_op close_enter_inv close_joined_inv cache_close_outcome_inv)

end
