(* ===== verification/Event_Writer_Mono.thy ===== *)
theory Event_Writer_Mono
  imports Event_Writer_Steps "HOL-Library.Sublist"
begin

text \<open>
  The queue policy's ladders, the initial state, and the relation that every step of the event
  ledger respects: what a run can never undo.
\<close>

section \<open>The growth ladder\<close>

lemma ladder_loop_rungs:
  assumes "1 \<le> v" "2 \<le> f"
  shows "\<exists>n. ladder_loop v m f rs = Some (rs @ map (\<lambda>i. v * f ^ i) [1..<Suc n])"
  using assms
proof (induction "nat (m - v)" arbitrary: v rs rule: less_induct)
  case less
  show ?case
  proof (cases "v < m")
    case True
    have "v < v * f" "1 \<le> v * f" using less.prems by (simp, smt (verit) mult_less_cancel_left2)
    then obtain n where n: "ladder_loop (v * f) m f (rs @ [v * f]) =
        Some ((rs @ [v * f]) @ map (\<lambda>i. v * f * f ^ i) [1..<Suc n])"
      using less.hyps [of "v * f" "rs @ [v * f]"] True less.prems by (auto simp del: upt_Suc)
    have "[1..<Suc (Suc n)] = 1 # map Suc [1..<Suc n]"
      by (simp add: upt_conv_Cons map_Suc_upt del: upt_Suc)
    then have "map (\<lambda>i. v * f ^ i) [1..<Suc (Suc n)] = v * f # map (\<lambda>i. v * f * f ^ i) [1..<Suc n]"
      by (simp add: o_def mult.assoc del: upt_Suc)
    with n True show ?thesis
      by (subst ladder_loop.simps) (intro exI [of _ "Suc n"], simp del: upt_Suc)
  next
    case False
    then show ?thesis by (subst ladder_loop.simps) (intro exI [of _ 0], simp)
  qed
qed

lemma ladder_Some:
  assumes "1 \<le> v" "2 \<le> f"
  shows "ladder v m f \<noteq> None"
    "ladder v m f = Some (Some rs) \<Longrightarrow>
       \<exists>n. rs = map (\<lambda>i. v * f ^ i) [0..<Suc n] \<and> v * f ^ n = m"
proof -
  obtain n where n: "ladder_loop v m f [v] = Some ([v] @ map (\<lambda>i. v * f ^ i) [1..<Suc n])"
    using ladder_loop_rungs [OF assms] by blast
  have eq: "[v] @ map (\<lambda>i. v * f ^ i) [1..<Suc n] = map (\<lambda>i. v * f ^ i) [0..<Suc n]"
    by (simp add: upt_conv_Cons del: upt_Suc)
  show "ladder v m f \<noteq> None" by (simp add: ladder_def n)
  assume "ladder v m f = Some (Some rs)"
  then have "rs = map (\<lambda>i. v * f ^ i) [0..<Suc n]" "last rs = m"
    unfolding ladder_def n eq by (auto split: if_splits simp del: upt_Suc)
  then show "\<exists>n. rs = map (\<lambda>i. v * f ^ i) [0..<Suc n] \<and> v * f ^ n = m"
    by (auto simp: last_map)
qed

lemma rungs_sorted:
  assumes "1 \<le> v" "2 \<le> (f :: int)" shows "sorted (map (\<lambda>i. v * f ^ i) [0..<n])"
  using assms by (auto simp: sorted_iff_nth_mono intro!: mult_left_mono power_increasing)

text \<open>What an admitted policy's two ladders look like.\<close>

definition rungs_ok :: "queue_policy \<Rightarrow> int list \<Rightarrow> int list \<Rightarrow> bool" where
  "rungs_ok p cs bs \<longleftrightarrow>
     cs \<noteq> [] \<and> length cs = length bs \<and> sorted cs \<and> sorted bs \<and>
     hd cs = initial_event_capacity p \<and> last cs = max_event_capacity p \<and>
     hd bs = initial_queued_bytes p \<and> last bs = max_queued_bytes p"

lemma ladder_shape:
  assumes "1 \<le> v" "2 \<le> f" "ladder v m f = Some (Some rs)"
  shows "rs \<noteq> [] \<and> sorted rs \<and> hd rs = v \<and> last rs = m"
proof -
  obtain n where n: "rs = map (\<lambda>i. v * f ^ i) [0..<Suc n]" "v * f ^ n = m"
    using ladder_Some(2) [OF assms] by blast
  then show ?thesis
    using rungs_sorted [OF assms(1,2)]
    by (simp add: hd_map last_map del: upt_Suc)
qed

lemma admitted_policy:
  assumes "policy_admitted p = Some True"
  obtains cs bs where "event_capacities p = Some (Some cs)" "queued_byte_budgets p = Some (Some bs)"
    "rungs_ok p cs bs" "1 \<le> initial_event_capacity p" "1 \<le> initial_queued_bytes p"
    "0 < producer_timeout_seconds p"
proof -
  from assms obtain cs bs where l: "event_capacities p = Some (Some cs)"
    "queued_byte_budgets p = Some (Some bs)" "length cs = length bs"
    and b: "1 \<le> initial_event_capacity p" "1 \<le> initial_queued_bytes p" "2 \<le> growth_factor p"
    "0 < producer_timeout_seconds p"
    by (auto simp: policy_admitted_def not_less not_le split: if_splits option.splits)
  from l b have "rungs_ok p cs bs"
    using ladder_shape unfolding rungs_ok_def event_capacities_def queued_byte_budgets_def by metis
  with l b that show ?thesis by blast
qed

section \<open>The initial state\<close>

lemma init_writer_inv:
  assumes "init_writer meb mev pol = Some s" shows "ew_inv s"
proof -
  define p where "p = (case pol of None \<Rightarrow> DEFAULT_QUEUE_POLICY | Some p \<Rightarrow> p)"
  have g: "\<not> (meb < LIMIT_MAX_EVENT_BYTES_MIN \<or> LIMIT_MAX_EVENT_BYTES_MAX < meb)"
    "\<not> (mev < 1 \<or> LIMIT_MAX_EVENTS_MAX < mev)" "policy_admitted p = Some True"
    using assms by (auto simp: init_writer_def Let_def p_def split: if_splits option.splits)
  obtain cs bs where l: "event_capacities p = Some (Some cs)" "queued_byte_budgets p = Some (Some bs)"
    and r: "rungs_ok p cs bs" "1 \<le> initial_event_capacity p" "1 \<le> initial_queued_bytes p"
    using admitted_policy [OF g(3)] by metis
  have s: "s = \<lparr>max_event_bytes = meb, max_events = mev, policy = p, capacities = cs,
             byte_budgets = bs, tier = 0, wstate = W_NEW, cstate = C_NOT_STARTED,
             consumer = None, close_failure = None, close_succeeded = False, pending = [],
             admitted = [], pending_bytes = 0, queued_bytes = 0, persisted_bytes = 0,
             accepted = 0, admitted_high = 0, persisted = 0, growth_mark = 0, in_flight = None,
             primary_failure = None, drain_then_exit = False, stop_requested = False,
             consumer_wakeup = False, pending_empty = True, head_timer = None,
             timer_generation = 0, last_deadline = None, cells = (\<lambda>_. new_cell),
             cpc = At_Gate, kpc = Close_Not_Called, sink = [], clock_reads = 0, timer_calls = 0\<rparr>"
    using assms g l unfolding init_writer_def p_def [symmetric] by simp
  have bs: "bs \<noteq> []" using r(1) by (auto simp: rungs_ok_def)
  have "initial_event_capacity p \<le> max_event_capacity p" "initial_queued_bytes p \<le> max_queued_bytes p"
    using r(1) bs sorted_nth_mono [of cs 0 "length cs - 1"] sorted_nth_mono [of bs 0 "length bs - 1"]
    by (auto simp: rungs_ok_def hd_conv_nth last_conv_nth)
  then have "bound_inv s"
    using r bs g by (auto simp: s bound_inv_def ladders_ok_def rungs_ok_def queue_capacity_eq
        queued_byte_budget_eq at_tier_def hd_conv_nth)
  moreover have "seq_inv s" "flow_inv s" "cells_inv s" "sink_inv s" "close_inv s"
    by (simp_all add: s inv_parts new_cell_def edge_ok_def)
  ultimately show ?thesis by (simp add: ew_inv_def)
qed

definition writer_init :: "ew \<Rightarrow> bool" where
  "writer_init s \<longleftrightarrow> (\<exists>meb mev pol. init_writer meb mev pol = Some s)"

interpretation ledger: inductive_invariant writer_init "ew_step e" ew_inv for e
  by unfold_locales (auto simp: writer_init_def intro: init_writer_inv ew_step_inv)


section \<open>Runs only move forward\<close>

text \<open>
  What no later step of a run can undo: marks only rise, a cut-off ledger accepts nothing more,
  the primary failure only moves to a smaller key, a settled outcome or edge of an accepted
  ticket stays, and the file only grows.
\<close>

definition settled_le :: "'a option \<Rightarrow> 'a option \<Rightarrow> bool" where
  "settled_le x y \<longleftrightarrow> x = None \<or> x = y"

definition cell_le :: "tcell \<Rightarrow> tcell \<Rightarrow> bool" where
  "cell_le c d \<longleftrightarrow> twire d = twire c \<and> settled_le (admission c) (admission d) \<and>
     settled_le (persistence c) (persistence d)"

definition failure_le :: "failure_key option \<Rightarrow> failure_key option \<Rightarrow> bool" where
  "failure_le x y \<longleftrightarrow>
     (case x of None \<Rightarrow> True | Some k \<Rightarrow> (case y of None \<Rightarrow> False | Some k' \<Rightarrow> k' = k \<or> key_less k' k))"

definition ew_mono :: "ew \<Rightarrow> ew \<Rightarrow> bool" where
  "ew_mono s t \<longleftrightarrow>
     accepted s \<le> accepted t \<and> admitted_high s \<le> admitted_high t \<and> persisted s \<le> persisted t \<and>
     (accepting s \<or> \<not> accepting t \<and> accepted t = accepted s) \<and>
     failure_le (primary_failure s) (primary_failure t) \<and>
     (\<forall>q \<le> accepted s. cell_le (cells s q) (cells t q)) \<and> prefix (sink s) (sink t)"

lemma settled_le_trans: "settled_le x y \<Longrightarrow> settled_le y z \<Longrightarrow> settled_le x z"
  by (auto simp: settled_le_def)

lemma cell_le_refl [simp]: "cell_le c c"
  by (simp add: cell_le_def settled_le_def)

lemma cell_le_trans: "cell_le c d \<Longrightarrow> cell_le d f \<Longrightarrow> cell_le c f"
  by (auto simp: cell_le_def intro: settled_le_trans)

lemma failure_le_refl [simp]: "failure_le x x"
  by (simp add: failure_le_def split: option.splits)

lemma key_less_trans: "key_less a b \<Longrightarrow> key_less b c \<Longrightarrow> key_less a c"
  by (auto simp: key_less_def)

lemma failure_le_trans: "failure_le x y \<Longrightarrow> failure_le y z \<Longrightarrow> failure_le x z"
  by (auto simp: failure_le_def split: option.splits intro: key_less_trans)

lemma failure_le_merge [simp]: "failure_le x (merge_failure k x)"
  by (simp add: failure_le_def merge_failure_def split: option.splits)

lemma ew_mono_refl [simp]: "ew_mono s s"
  by (auto simp: ew_mono_def)

lemma ew_mono_trans: assumes "ew_mono s t" "ew_mono t u" shows "ew_mono s u"
proof -
  have "cell_le (cells s q) (cells u q)" if "q \<le> accepted s" for q
    using assms that by (auto simp: ew_mono_def intro: cell_le_trans)
  moreover have "failure_le (primary_failure s) (primary_failure u)" "prefix (sink s) (sink u)"
    using assms failure_le_trans prefix_order.trans unfolding ew_mono_def by blast+
  moreover have "accepting s \<or> \<not> accepting u \<and> accepted u = accepted s"
    using assms unfolding ew_mono_def by metis
  moreover have "accepted s \<le> accepted u" "admitted_high s \<le> admitted_high u"
    "persisted s \<le> persisted u"
    using assms by (auto simp: ew_mono_def)
  ultimately show ?thesis by (simp add: ew_mono_def)
qed

text \<open>Updates of fields the relation does not read, or reads only at one end.\<close>

lemma ew_mono_frame:
  assumes "accepted t = accepted s" "admitted_high t = admitted_high s" "persisted t = persisted s"
    "primary_failure t = primary_failure s" "cells t = cells s" "prefix (sink s) (sink t)"
    "accepting t \<Longrightarrow> accepting s"
  shows "ew_mono s t"
  using assms by (auto simp: ew_mono_def)

lemma cell_le_settle: "cell_le c (settle_cell q ph b code (c\<lparr>tstate := x\<rparr>))"
  by (cases ph) (auto simp: cell_le_def settled_le_def Let_def)

lemma cell_le_fail: "cell_le c (fail_cell code v q c)"
proof -
  have "cell_le d (settle_cell q ph b cd d)" for d ph b cd
    using cell_le_settle [of d q ph b cd "tstate d"] by simp
  then show ?thesis unfolding fail_cell_def
    using cell_le_settle cell_le_trans by blast
qed

lemma cell_le_lose: "cell_le c (lose_cell code q c)"
  unfolding lose_cell_def by (rule cell_le_settle)

lemma cell_le_poison: "cell_le (cells s q) (poison_cells code v imp s q)"
  by (simp add: poison_cells_def fail_cells_def lose_cells_def cell_le_fail cell_le_lose
      cell_le_trans [OF cell_le_fail cell_le_lose])

lemma poison_mono: "seq_inv s \<Longrightarrow> ew_mono s (poison code ord v imp s)"
  by (simp add: ew_mono_def poison_sel cell_le_poison accepting_def)

lemma admit_head_mono:
  assumes "seq_inv s" "ledger_open s" "pending s = h # rest"
  shows "ew_mono s (admit_head h rest s)"
  using pending_head [OF assms] cell_le_settle [of _ _ Admission True None T_ADMITTED]
  by (simp add: ew_mono_def admit_head_eq accepting_def admit_cell_def
      del: settle_cell.simps upt_Suc) blast

lemma grow_mono: "ew_mono s (grow s)"
  by (rule ew_mono_frame) (simp_all add: grow_def accepting_def)

lemma pump_loop_mono: "ew_inv s \<Longrightarrow> ledger_open s \<Longrightarrow> ew_mono s (fst (pump_loop e s))"
proof (induction e s rule: pump_loop.induct)
  case (1 e s)
  define s0 where "s0 = s\<lparr>clock_reads := Suc (clock_reads s)\<rparr>"
  have s0': "s0 = s\<lparr>clock_reads := clock_reads s + 1\<rparr>" by (simp add: s0_def)
  have inv0: "ew_inv s0" and open0: "ledger_open s0"
    using "1.prems" by (auto simp: s0_def ledger_open_def)
  have m0: "ew_mono s s0" by (rule ew_mono_frame) (simp_all add: s0_def accepting_def)
  note seq0 = ew_inv_seq_inv [OF inv0]
  note poison = ew_mono_trans [OF m0 poison_mono [OF seq0]]
  show ?case
  proof (cases "pending s")
    case Nil
    then show ?thesis by (subst pump_loop.simps) simp
  next
    case (Cons h rest)
    have p0: "pending s0 = h # rest" using Cons by (simp add: s0_def)
    have adm: "ew_mono s (fst (pump_loop e (admit_head h rest s0)))"
      if "clk e (clock_reads s) = Some now" "\<not> deadline h \<le> now" "room (nbytes h) s0" for now
    proof -
      have "ledger_open (admit_head h rest s0)" using open0 by (simp add: admit_head_eq ledger_open_def)
      from "1.IH" (1) [OF Cons s0' that admit_head_inv [OF inv0 open0 p0 that(3)] this]
      show ?thesis using m0 admit_head_mono [OF seq0 open0 p0] ew_mono_trans by blast
    qed
    have gr: "ew_mono s (fst (pump_loop e (grow s0)))"
      if "clk e (clock_reads s) = Some now" "\<not> deadline h \<le> now" "\<not> room (nbytes h) s0" "can_grow s0"
      for now
    proof -
      have "ledger_open (grow s0)" using open0 by (simp add: grow_def ledger_open_def)
      from "1.IH" (2) [OF Cons s0' that grow_inv [OF inv0 that(4)] this]
      show ?thesis using m0 grow_mono ew_mono_trans by blast
    qed
    show ?thesis
      using Cons poison m0 adm gr
      by (subst pump_loop.simps) (auto simp: Let_def simp flip: s0_def split: option.split)
  qed
qed

lemma cancel_head_timer_mono: "ew_mono s (cancel_head_timer s)"
  by (rule ew_mono_frame) (simp_all add: cancel_head_timer_def accepting_def)

lemma rearm_head_timer_mono: assumes "ew_inv s" shows "ew_mono s (rearm_head_timer e s)"
proof -
  define s2 where "s2 = (cancel_head_timer s)\<lparr>timer_calls := Suc (timer_calls s)\<rparr>"
  have i: "seq_inv s2" using assms by (simp add: s2_def ew_inv_seq_inv)
  have m: "ew_mono s s2" "ew_mono s (s2\<lparr>head_timer := x\<rparr>)" for x
    by (auto intro!: ew_mono_frame simp: s2_def cancel_head_timer_def accepting_def)
  have "timer_calls (cancel_head_timer s) = timer_calls s" by (simp add: cancel_head_timer_def)
  then show ?thesis
    using m cancel_head_timer_mono [of s] ew_mono_trans [OF m(1) poison_mono [OF i]]
    by (simp add: rearm_head_timer_def Let_def flip: s2_def)
qed

lemma pump_mono: assumes "ew_inv s" shows "ew_mono s (pump e s)"
proof (cases "ledger_open s")
  case True
  obtain s1 b where l: "pump_loop e s = (s1, b)" by fastforce
  define s2 where "s2 = s1\<lparr>pending_empty := (pending s1 = [])\<rparr>"
  have i: "ew_inv s1" "ew_mono s s1" "\<not> b \<Longrightarrow> ledger_open s1"
    using pump_loop_inv [OF assms True, of e] pump_loop_mono [OF assms True, of e] l by auto
  have i2: "ew_inv s2" "\<not> b \<Longrightarrow> ledger_open s2" using i by (auto simp: s2_def ledger_open_def)
  have "ew_mono s1 s2" by (rule ew_mono_frame) (simp_all add: s2_def accepting_def)
  then have "ew_mono s (rearm_head_timer e s2)"
    using i(2) rearm_head_timer_mono [OF i2(1)] ew_mono_trans by blast
  moreover have "\<not> b \<Longrightarrow> ew_inv (rearm_head_timer e s2)"
    using rearm_head_timer_inv [OF i2] by blast
  ultimately show ?thesis
    using True l i(2) by (cases b) (simp_all add: pump_def Let_def flip: s2_def)
qed (simp add: pump_def cancel_head_timer_mono)


text \<open>Steps that end in an update the relation does not see.\<close>

lemma ew_mono_frame_trans:
  assumes "ew_mono s t" "accepted u = accepted t" "admitted_high u = admitted_high t"
    "persisted u = persisted t" "primary_failure u = primary_failure t" "cells u = cells t"
    "sink u = sink t" "accepting u \<Longrightarrow> accepting t"
  shows "ew_mono s u"
  using assms(2-8) by (intro ew_mono_trans [OF assms(1)] ew_mono_frame) simp_all

lemma enqueue_mono:
  assumes "accepting s" "seq t = Suc (accepted s)" shows "ew_mono s (enqueue t ph s)"
  using assms by (simp add: ew_mono_def enqueue_def)

lemma commit_submission_mono:
  assumes "ew_inv s" "accepting s" "q = Suc (accepted s)" "nb = utf8_len w" "nb \<le> max_event_bytes s"
  shows "ew_mono s (fst (commit_submission e q w nb ph s))"
proof -
  have r: "ew_mono s (fst (refuse_submission code q (s\<lparr>clock_reads := c\<rparr>)))"
    "ew_mono s (fst (refuse_submission code q s))" "ew_mono s (s\<lparr>clock_reads := c\<rparr>)" for code c
  proof -
    have i: "seq_inv (s\<lparr>clock_reads := c\<rparr>)" "seq_inv s"
      using assms(1) by (simp_all add: ew_inv_seq_inv)
    show m: "ew_mono s (s\<lparr>clock_reads := c\<rparr>)"
      by (rule ew_mono_frame) (simp_all add: accepting_def)
    show "ew_mono s (fst (refuse_submission code q (s\<lparr>clock_reads := c\<rparr>)))"
      "ew_mono s (fst (refuse_submission code q s))"
      using ew_mono_trans [OF m poison_mono [OF i(1)]] poison_mono [OF i(2)]
      by (simp_all add: refuse_submission_def Let_def)
  qed
  have a: "ew_mono s (fst (accept_ticket e \<lparr>seq = q, wire = w, nbytes = nb, deadline = d\<rparr> ph
      (s\<lparr>clock_reads := c\<rparr>)))"
    if g: "\<not> max_events s \<le> int (accepted s)" "\<not> max_event_capacity (policy s) \<le> int (length (pending s))"
      "\<not> max_queued_bytes (policy s) < pending_bytes s + queued_bytes s + nb" for d c
  proof -
    define t where "t = \<lparr>seq = q, wire = w, nbytes = nb, deadline = d\<rparr>"
    define s' where "s' = s\<lparr>clock_reads := c\<rparr>"
    have f: "fits t s'" using that assms by (simp add: fits_def ticket_ok_def t_def s'_def)
    have i: "ew_inv s'" "accepting s'" using assms(1,2) by (simp_all add: s'_def accepting_def)
    have "seq t = Suc (accepted s')" using f by (simp add: fits_def)
    then have "ew_mono s' (pump e (enqueue t ph s'))"
      using enqueue_mono i(2) pump_mono [OF enqueue_inv [OF i f]] ew_mono_trans by blast
    then show ?thesis
      using r(3) ew_mono_trans accept_ticket_eq [OF i f, of e ph] by (simp add: s'_def t_def) metis
  qed
  show ?thesis
    using r a by (auto simp: commit_submission_def Let_def split: option.split)
qed

lemma submit_mono: assumes "ew_inv s" shows "ew_mono s (fst (submit e ev ph s))"
proof -
  define s1 where "s1 = pump e s"
  define s2 where "s2 = pump e s1"
  have i: "ew_inv s1" "ew_inv s2" "same_frame s1 s2" "ew_mono s s1" "ew_mono s1 s2"
    using assms by (simp_all add: s1_def s2_def pump_inv pump_frame pump_mono)
  have c: "ew_mono s (fst (commit_submission e (Suc (accepted s1)) w nb ph s2))"
    if "prepare e ev (Suc (accepted s1)) s1 = Inr (w, nb)" "require_open s2 = None" for w nb
  proof -
    have "ew_mono s2 (fst (commit_submission e (Suc (accepted s1)) w nb ph s2))"
      using i require_open_None [OF that(2)] prepare_bytes [OF that(1)]
      by (intro commit_submission_mono) (simp_all add: same_frame_def)
    then show ?thesis using i ew_mono_trans by blast
  qed
  have r: "ew_mono s (fst (refuse_submission code q s1))" for code q
    using ew_mono_trans [OF i(4) poison_mono [OF ew_inv_seq_inv [OF i(1)]]]
    by (simp add: refuse_submission_def Let_def)
  show ?thesis
    using i c r ew_mono_trans [OF i(4,5)]
    by (auto simp: submit_def Let_def simp flip: s1_def s2_def split: option.split sum.split)
qed

lemma acked_mono:
  assumes "seq_inv s" "admitted s = t # rest" shows "ew_mono s (acked t s)"
  using admitted_head [OF assms] cell_le_settle [of _ _ Persistence True None T_PERSISTED]
  by (simp add: ew_mono_def acked_def accepting_def ack_cell_def
      del: settle_cell.simps upt_Suc) blast

lemma append_returned_mono:
  assumes "ew_inv s" "cpc s = Appending t"
  shows "ew_mono s (durable_ack e t (s\<lparr>sink := sink s @ wire t, cpc := Acking\<rparr>))"
proof (cases "in_flight s")
  case None
  have "ew_mono s (s\<lparr>sink := sink s @ wire t, cpc := Acking\<rparr>)"
    by (rule ew_mono_frame) (simp_all add: accepting_def)
  then show ?thesis
    using None ew_mono_trans poison_mono [OF ew_inv_seq_inv [OF late_append_inv [OF assms None]]]
    by (simp add: durable_ack_late)
next
  case (Some u)
  with assms have u: "u = t" "take 1 (admitted s) = [t]"
    by (auto simp: ew_inv_def flow_inv_def)
  then obtain rest where a: "admitted s = t # rest" by (cases "admitted s") auto
  have "ew_mono s (pump e (acked t s))"
    using acked_mono [OF ew_inv_seq_inv [OF assms(1)] a] pump_mono [OF acked_inv [OF assms a]]
      ew_mono_trans by blast
  then show ?thesis
    using durable_ack_head [OF assms a, of e] Some u
    by (auto simp: accepting_def intro: ew_mono_frame_trans)
qed

lemma consumer_finally_mono:
  "cstate t \<noteq> C_RUNNING \<Longrightarrow> ew_mono s t \<Longrightarrow> ew_mono s (consumer_finally r t)"
  by (erule ew_mono_frame_trans) (simp_all add: consumer_finally_def accepting_def)

lemma consumer_error_mono:
  assumes "seq_inv t" "ew_mono s t"
  shows "ew_mono s (consumer_finally r ((poison code ord None True t)\<lparr>cstate := C_EXITED_ERROR\<rparr>))"
proof -
  have "ew_mono s (poison code ord None True t)"
    using assms poison_mono ew_mono_trans by blast
  then have "ew_mono s ((poison code ord None True t)\<lparr>cstate := C_EXITED_ERROR\<rparr>)"
    by (rule ew_mono_frame_trans) (simp_all add: accepting_def)
  then show ?thesis by (simp add: consumer_finally_mono)
qed

lemma consumer_poll_mono: assumes "ew_inv s" shows "ew_mono s (consumer_poll s)"
proof -
  have "ew_mono s (s\<lparr>cstate := x\<rparr>)" "ew_mono s (s\<lparr>stop_requested := b, cstate := x\<rparr>)"
    "ew_mono s (s\<lparr>in_flight := f, cpc := c\<rparr>)" "ew_mono s (s\<lparr>consumer_wakeup := b, cpc := c\<rparr>)"
    for x b f c
    by (rule ew_mono_frame; simp add: accepting_def)+
  then show ?thesis
    using consumer_error_mono [OF ew_inv_seq_inv [OF assms] ew_mono_refl]
    by (auto simp: consumer_poll_def intro: consumer_finally_mono split: consumer_action.split)
qed

lemma append_torn_mono:
  assumes "ew_inv s"
  shows "ew_mono s (consumer_finally r
    ((poison code ord None True (s\<lparr>sink := sink s @ x\<rparr>))\<lparr>cstate := C_EXITED_ERROR\<rparr>))"
proof (rule consumer_error_mono)
  have "seq_inv (s\<lparr>sink := sink s @ x\<rparr>) = seq_inv s" by (simp add: inv_parts)
  then show "seq_inv (s\<lparr>sink := sink s @ x\<rparr>)" using assms by (simp add: ew_inv_def)
  show "ew_mono s (s\<lparr>sink := sink s @ x\<rparr>)"
    by (rule ew_mono_frame) (simp_all add: accepting_def)
qed

lemma poison_mark_mono:
  assumes "ew_inv s" shows "ew_mono s ((poison code ord None True s)\<lparr>cstate := x\<rparr>)"
  by (rule ew_mono_frame_trans [OF poison_mono [OF ew_inv_seq_inv [OF assms]]])
     (simp_all add: accepting_def)

lemma on_consumer_done_mono: assumes "ew_inv s" shows "ew_mono s (on_consumer_done r s)"
proof -
  have "ew_mono s (t\<lparr>pending_empty := True, consumer_wakeup := True\<rparr>)" if "ew_mono s t" for t
    by (rule ew_mono_frame_trans [OF that]) (simp_all add: accepting_def)
  then show ?thesis
    using poison_mark_mono [OF assms] by (simp add: on_consumer_done_def Let_def)
qed

lemma consumer_cancelled_mono:
  "ew_inv s \<Longrightarrow> consumer s = Some Task_Running \<Longrightarrow> ew_mono s (consumer_cancelled s)"
  using suspended_running [of s] consumer_error_mono [OF ew_inv_seq_inv ew_mono_refl, of s]
  by (simp add: consumer_cancelled_def)

lemma start_mono: assumes "ew_inv s" shows "ew_mono s (fst (start b s))"
proof -
  have c: "ew_mono s (s\<lparr>cstate := x\<rparr>)" for x
    by (rule ew_mono_frame) (simp_all add: accepting_def)
  have "seq_inv (s\<lparr>cstate := x\<rparr>) = seq_inv s" for x by (simp add: inv_parts)
  then have p: "ew_mono s (poison code ord v imp (s\<lparr>cstate := x\<rparr>))" for code ord v imp x
    using ew_mono_trans [OF c poison_mono] ew_inv_seq_inv [OF assms] by simp
  have "ew_mono s (s\<lparr>consumer := Some Task_Running, cstate := C_RUNNING, wstate := W_RUNNING,
              consumer_wakeup := True, cpc := At_Gate\<rparr>)" if "wstate s = W_NEW"
    using that by (intro ew_mono_frame) (simp_all add: accepting_def)
  then show ?thesis using p by (simp add: start_def Let_def)
qed

lemma close_fail_mono: "ew_mono s t \<Longrightarrow> ew_mono s (close_fail t)"
  by (erule ew_mono_frame_trans) (simp_all add: close_fail_def accepting_def)

lemma close_certify_mono: assumes "ew_inv s" shows "ew_mono s (close_certify s)"
proof -
  define s1 where "s1 = cancel_head_timer s"
  have i: "ew_inv s1" "ew_mono s s1" using assms by (simp_all add: s1_def cancel_head_timer_mono)
  have "ew_mono s (s1\<lparr>wstate := W_CLOSED_OK, kpc := k\<rparr>)" for k
    by (rule ew_mono_frame_trans [OF i(2)]) (simp_all add: accepting_def)
  moreover have "ew_mono s (poison code ord None True s1)" for code ord
    using i ew_mono_trans poison_mono ew_inv_seq_inv by blast
  ultimately show ?thesis
    using i(2) unfolding close_certify_def Let_def s1_def [symmetric] by (auto intro: close_fail_mono)
qed

lemma request_stop_mono: "ew_mono s t \<Longrightarrow> ew_mono s (request_stop t)"
  by (erule ew_mono_frame_trans) (simp_all add: request_stop_def accepting_def split: if_splits)

lemma close_drain_mono: assumes "ew_inv s" shows "ew_mono s (close_drain e s)"
proof -
  define s1 where "s1 = pump e (s\<lparr>pending_empty := False\<rparr>)"
  have m0: "ew_mono s (s\<lparr>pending_empty := False\<rparr>)"
    by (rule ew_mono_frame) (simp_all add: accepting_def)
  have "ew_inv (s\<lparr>pending_empty := False\<rparr>)" using assms by simp
  then have m: "ew_mono s s1" using ew_mono_trans [OF m0] pump_mono by (simp add: s1_def)
  have "ew_mono s (s1\<lparr>kpc := k\<rparr>)" for k
    by (rule ew_mono_frame_trans [OF m]) (simp_all add: accepting_def)
  then show ?thesis
    using m by (simp add: close_drain_def Let_def request_stop_mono flip: s1_def)
qed

lemma close_enter_mono: assumes "ew_inv s" shows "ew_mono s (close_enter e s)"
proof -
  note p = poison_mono [OF ew_inv_seq_inv [OF assms]]
  have "ew_mono s ((cancel_head_timer s)\<lparr>wstate := W_CLOSED_OK, kpc := k\<rparr>)" for k
    by (rule ew_mono_frame_trans [OF cancel_head_timer_mono]) (simp_all add: accepting_def)
  moreover have "ew_mono s (close_certify (poison code ord v imp s))" for code ord v imp
    using p close_certify_mono [OF poison_inv [OF assms]] ew_mono_trans by blast
  ultimately show ?thesis
    using p close_drain_mono [OF assms] by (simp add: close_enter_def close_fail_mono)
qed

lemma close_joined_mono:
  assumes "ew_inv s" "consumer s = Some (Task_Done r)"
  shows "ew_mono s (close_joined r s)"
proof -
  note ex = done_exited [OF assms]
  note p = poison_sel [OF ew_inv_seq_inv [OF assms(1)]]
  have "ew_mono s (close_certify (t\<lparr>consumer := None\<rparr>))"
    if "ew_inv t" "cpc t = Consumer_Exited" "ew_mono s t" for t
  proof -
    have "ew_mono s (t\<lparr>consumer := None\<rparr>)"
      by (rule ew_mono_frame_trans [OF that(3)]) (simp_all add: accepting_def)
    then show ?thesis
      using close_certify_mono [OF exited_join_inv [OF that(1,2)]] ew_mono_trans by blast
  qed
  then show ?thesis
    using poison_mark_inv [OF assms(1) ex] poison_mark_mono [OF assms(1)] assms ex p
    by (simp add: close_joined_def Let_def)
qed

lemma close_mono: assumes "ew_inv s" shows "ew_mono s (close e s)"
proof (cases "kpc s = Close_Not_Called \<and> accepting s")
  case True
  define t where "t = s\<lparr>wstate := W_CLOSING\<rparr>"
  have "ew_mono s t" by (rule ew_mono_frame) (simp_all add: t_def accepting_def)
  moreover have "ew_inv t" using close_inv_cutoff [OF assms] True by (simp add: t_def)
  ultimately have "ew_mono s (pump e t)" using pump_mono ew_mono_trans by blast
  then have "ew_mono s ((pump e t)\<lparr>kpc := Close_Start\<rparr>)"
    by (rule ew_mono_frame_trans) (simp_all add: accepting_def)
  then show ?thesis using True by (simp add: close_def accepting_def flip: t_def)
next
  case False
  have "ew_mono s (s\<lparr>kpc := k\<rparr>)" for k
    by (rule ew_mono_frame) (simp_all add: accepting_def)
  with False show ?thesis by (auto simp: close_def accepting_def)
qed

lemma cache_close_outcome_mono:
  assumes "ew_inv s" shows "ew_mono s (cache_close_outcome r s)"
proof -
  have f: "ew_mono s (t\<lparr>close_failure := x, wstate := W_CLOSED_FAILED\<rparr>)" if "ew_mono s t" for t x
    by (rule ew_mono_frame_trans [OF that]) (simp_all add: accepting_def)
  have "ew_mono s (s\<lparr>close_succeeded := b\<rparr>)" "ew_mono s (s\<lparr>close_failure := x\<rparr>)" for b x
    by (rule ew_mono_frame; simp add: accepting_def)+
  then show ?thesis
    using f [OF ew_mono_refl] f [OF poison_mono [OF ew_inv_seq_inv [OF assms]]]
    by (cases r) (simp_all add: cache_close_outcome_def Let_def)
qed

lemma frame_steps_mono:
  "ew_mono s (consumer_never_ran s)" "ew_mono s (s\<lparr>kpc := k\<rparr>)" "ew_mono s (s\<lparr>head_timer := h\<rparr>)"
  by (rule ew_mono_frame; simp add: consumer_never_ran_def accepting_def)+

lemma ew_step_mono: "ew_step e s t \<Longrightarrow> ew_inv s \<Longrightarrow> ew_mono s t"
proof (induction rule: ew_step.induct)
  case (st_emit s ev)
  then show ?case by (simp add: emit_ordered_def submit_mono)
next
  case (st_emit_awaited s ev)
  then show ?case
    by (simp add: emit_awaited_def Let_def submit_mono poison_mono ew_inv_seq_inv)
next
  case (st_timer s g)
  then have "ew_mono (s\<lparr>head_timer := None\<rparr>) (pump e (s\<lparr>head_timer := None\<rparr>))"
    by (simp add: pump_mono)
  then show ?case
    using ew_mono_trans [OF frame_steps_mono(3)] by (simp add: on_head_timer_def)
next
  case (st_append_ok s t)
  then show ?case
    unfolding append_ok_def
    using append_returned_mono append_returned_inv [OF _ _ refl, of s t e] consumer_poll_mono
      ew_mono_trans by blast
qed (simp_all add: start_mono consumer_poll_mono append_failed_def append_cancelled_def
    append_torn_mono consumer_cancelled_mono frame_steps_mono on_consumer_done_mono close_mono
    close_enter_mono close_drain_mono close_joined_mono cache_close_outcome_mono)

interpretation ledger: step_preorder ew_inv "ew_step e" ew_mono for e
  by unfold_locales (auto intro: ew_mono_trans ew_step_mono ew_step_inv)


end
