(* ===== verification/Event_Writer_Props.thy ===== *)
theory Event_Writer_Props
  imports Event_Writer_Mono
begin

text \<open>
  What the event ledger promises its clients, for every reachable state and every run, and a
  concrete run from construction to a certified close.
\<close>

section \<open>Properties of every reachable ledger\<close>

definition writer_reaches :: "env \<Rightarrow> int \<Rightarrow> int \<Rightarrow> queue_policy option \<Rightarrow> ew \<Rightarrow> bool" where
  "writer_reaches e meb mev pol s \<longleftrightarrow>
     (\<exists>s0. init_writer meb mev pol = Some s0 \<and> (ew_step e)\<^sup>*\<^sup>* s0 s)"

lemma reaches_inv: "writer_reaches e meb mev pol s \<Longrightarrow> ew_inv s"
  unfolding writer_reaches_def writer_init_def [symmetric]
  using ledger.inv_reachable [of _ e s] by (auto simp: writer_init_def)

lemma reaches_initial: "init_writer meb mev pol = Some s \<Longrightarrow> writer_reaches e meb mev pol s"
  by (auto simp: writer_reaches_def)

lemma reaches_step: "writer_reaches e meb mev pol s \<Longrightarrow> ew_step e s t \<Longrightarrow> writer_reaches e meb mev pol t"
  by (auto simp: writer_reaches_def intro: rtranclp.rtrancl_into_rtrancl)


lemma upt_split: "i \<le> j \<Longrightarrow> j \<le> k \<Longrightarrow> [i..<k] = [i..<j] @ [j..<k]"
  by (metis le_Suc_ex upt_add_eq_append)

lemma open_all_queued:
  assumes "seq_inv s" "ledger_open s" "persisted s < q" "q \<le> accepted s"
  shows "q \<in> seq ` set (admitted s) \<or> q \<in> seq ` set (pending s)"
proof -
  have "set (map seq (admitted s)) = {Suc (persisted s)..admitted_high s}"
    "set (map seq (pending s)) = {Suc (admitted_high s)..accepted s}"
    using seq_inv_open [OF assms(1,2)] by (auto simp del: upt_Suc)
  then show ?thesis using assms(3,4) by (auto simp: image_iff)
qed

text \<open>
  C1. A clean close is a certificate: when \<^verbatim>\<open>close\<close> returned without raising, every
  accepted event is persisted, each was reported persisted, and the events file is exactly the
  accepted records, in sequence order.
\<close>

theorem clean_close_certifies:
  assumes "writer_reaches e meb mev pol s" "kpc s = Close_Done Close_Returned"
  shows "persisted s = accepted s \<and>
    sink s = concat (map (\<lambda>q. twire (cells s q)) [1..<Suc (accepted s)]) \<and>
    (\<forall>q \<in> {1..accepted s}. persistence (cells s q) = Some (ok_outcome q))"
proof -
  note i = ew_inv_parts [OF reaches_inv [OF assms(1)]]
  then have "persisted s = accepted s" "sink s = durable_text s"
    using assms(2) by (simp_all add: close_inv_def)
  with i show ?thesis
    by (simp add: durable_text_def cells_inv_def cell_ok_def del: upt_Suc)
qed

text \<open>
  C3. The ledger's own self-check (\<^verbatim>\<open>_verify_invariants\<close>) can never fail: in every
  reachable state its conjunction holds, and while the ledger is open the two queues hold exactly
  the accepted, not yet persisted sequence numbers, consecutively.
\<close>

theorem ledger_selfcheck:
  assumes "writer_reaches e meb mev pol s"
  shows "ledger_ok s \<and> verify_invariants q s = (s, True) \<and>
    (\<not> ledger_open s \<or> map seq (admitted s @ pending s) = [Suc (persisted s)..<Suc (accepted s)])"
proof -
  note inv = reaches_inv [OF assms]
  have "map seq (admitted s @ pending s) = [Suc (persisted s)..<Suc (accepted s)]" if "ledger_open s"
  proof -
    have "[Suc (persisted s)..<Suc (admitted_high s)] @ [Suc (admitted_high s)..<Suc (accepted s)] =
        [Suc (persisted s)..<Suc (accepted s)]"
      using ew_inv_seq_inv [OF inv] by (intro upt_split [symmetric]) (simp_all add: seq_inv_def)
    then show ?thesis using seq_inv_open [OF ew_inv_seq_inv [OF inv] that] by simp
  qed
  then show ?thesis using ew_inv_ledger_ok [OF inv] inv by auto
qed

text \<open>
  C2. An acknowledged event is durable: once the persistence outcome of an accepted event is
  positive, its complete record is in the events file, right after the records of all earlier
  events.
\<close>

theorem acknowledged_is_durable:
  assumes "writer_reaches e meb mev pol s" "1 \<le> q" "q \<le> accepted s"
    "persistence (cells s q) = Some out" "out_ok out"
  shows "q \<le> persisted s \<and>
    (\<exists>rest. sink s = concat (map (\<lambda>i. twire (cells s i)) [1..<q]) @ twire (cells s q) @ rest)"
proof -
  note i = ew_inv_parts [OF reaches_inv [OF assms(1)]]
  have c: "cell_ok s q (cells s q)" using i by (simp add: cells_inv_def)
  have "\<not> failed_outcome q (persistence (cells s q))" using assms(4,5) by (auto simp: failed_outcome_def)
  with c assms(3,4) have le: "q \<le> persisted s" by (auto simp: cell_ok_def not_le [symmetric])
  obtain junk where "sink s = durable_text s @ junk" using i by (auto simp: sink_inv_def)
  moreover have "[1..<Suc (persisted s)] = [1..<q] @ q # [Suc q..<Suc (persisted s)]"
    using le assms(2) upt_split [of 1 q "Suc (persisted s)"] by (simp add: upt_conv_Cons del: upt_Suc)
  ultimately show ?thesis using le by (simp add: durable_text_def del: upt_Suc)
qed

text \<open>
  Runs only move forward: from any reachable state, no sequence of steps lowers a high-water
  mark, rewrites a settled outcome or the text of an accepted event, replaces the primary failure
  by a later one, or removes anything from the file; and a ledger that stopped accepting never
  accepts again.
\<close>

theorem runs_move_forward:
  assumes "writer_reaches e meb mev pol s" "(ew_step e)\<^sup>*\<^sup>* s t"
  shows "accepted s \<le> accepted t \<and> admitted_high s \<le> admitted_high t \<and> persisted s \<le> persisted t \<and>
    (accepting s \<or> \<not> accepting t \<and> accepted t = accepted s) \<and>
    failure_le (primary_failure s) (primary_failure t) \<and>
    (\<forall>q \<le> accepted s. cell_le (cells s q) (cells t q)) \<and> prefix (sink s) (sink t)"
  using ledger.run_rel [OF assms(2) reaches_inv [OF assms(1)]] by (simp add: ew_mono_def)

text \<open>
  C34. No lost wakeup: whenever the consumer waits while there is something for it to do, its wakeup
  edge is set, and the step it enables leaves the waiting point.
\<close>

theorem no_lost_wakeup:
  assumes "writer_reaches e meb mev pol s" "cpc s = Waiting" "peek_consumer_action s \<noteq> Act_Wait"
  shows "consumer_wakeup s \<and> ew_step e s (consumer_poll s) \<and> cpc (consumer_poll s) \<noteq> Waiting"
proof -
  have "consumer_wakeup s" using reaches_inv [OF assms(1)] assms(2,3)
    by (simp add: ew_inv_def flow_inv_def)
  moreover have "cpc (consumer_poll s) \<noteq> Waiting"
    using assms(3) by (auto simp: consumer_poll_def consumer_finally_def Let_def
        split: consumer_action.split)
  ultimately show ?thesis using assms(2) by (auto intro: st_wake)
qed

text \<open>
  C35. Retention is bounded: in every reachable state the admitted queue is within the current rung
  of both ladders, waiting producers within \<^verbatim>\<open>max_event_capacity\<close>, all queued bytes together
  within \<^verbatim>\<open>max_queued_bytes\<close>, no queued record exceeds \<^verbatim>\<open>max_event_bytes\<close>, and no
  more than \<^verbatim>\<open>max_events\<close> events were accepted.
\<close>

theorem retention_bounded:
  assumes "writer_reaches e meb mev pol s"
  shows "int (length (admitted s)) \<le> queue_capacity s \<and> queued_bytes s \<le> queued_byte_budget s \<and>
    int (length (pending s)) \<le> max_event_capacity (policy s) \<and>
    (\<Sum>t\<leftarrow>admitted s @ pending s. utf8_len (wire t)) \<le> max_queued_bytes (policy s) \<and>
    list_all (\<lambda>t. utf8_len (wire t) \<le> max_event_bytes s) (admitted s @ pending s) \<and>
    int (accepted s) \<le> max_events s"
proof -
  have b: "bound_inv s" using reaches_inv [OF assms] by (simp add: ew_inv_def)
  have "(\<Sum>t\<leftarrow>xs. utf8_len (wire t)) = sum_list (map nbytes xs)" if "\<forall>t\<in>set xs. ticket_ok s t" for xs
    using that by (intro arg_cong [where f = sum_list] map_cong) (auto simp: ticket_ok_def)
  with b have "(\<Sum>t\<leftarrow>admitted s @ pending s. utf8_len (wire t)) = queued_bytes s + pending_bytes s"
    by (simp add: bound_inv_def)
  with b show ?thesis by (auto simp: bound_inv_def ticket_ok_def list_all_iff)
qed


section \<open>Emission\<close>

lemma accept_ticket_result:
  assumes "ew_inv s" "accepting s" "fits t s" "u = pump e (enqueue t ph s)"
  shows "accept_ticket e t ph s =
    (u, case phase_outcome ph (cells u (seq t)) of
          None \<Rightarrow> Inr (Observing (seq t) ph)
        | Some out \<Rightarrow>
            if \<not> out_ok out then
              Inl (case out_code out of None \<Rightarrow> Assertion_Error
                   | Some code \<Rightarrow> overflow code (out_ordinal out))
            else if ph = Admission then Inr Settled else Inr (Observing (seq t) ph))"
proof -
  have "enqueue t ph s = (observe t ph (upd_cell (seq t) (\<lambda>_. new_cell\<lparr>twire := wire t\<rparr>) s))
      \<lparr>accepted := seq t, last_deadline := Some (deadline t),
       pending := pending (observe t ph (upd_cell (seq t) (\<lambda>_. new_cell\<lparr>twire := wire t\<rparr>) s)) @ [t],
       pending_bytes :=
         pending_bytes (observe t ph (upd_cell (seq t) (\<lambda>_. new_cell\<lparr>twire := wire t\<rparr>) s)) + nbytes t,
       pending_empty := False\<rparr>"
    by (simp add: enqueue_def cell_defs)
  then show ?thesis
    using enqueue_inv [OF assms(1-3), of ph] unfolding assms(4)
    by (simp add: accept_ticket_def Let_def split: option.splits)
qed

text \<open>In an open ledger no accepted event has a negative outcome.\<close>

lemma open_no_failure:
  assumes "ew_inv s" "ledger_open s" "1 \<le> q" "q \<le> accepted s"
    "phase_outcome ph (cells s q) = Some out"
  shows "out_ok out"
proof -
  note i = ew_inv_parts [OF assms(1)]
  have c: "cell_ok s q (cells s q)" using i by (simp add: cells_inv_def)
  consider (per) "q \<le> persisted s" | (adm) "q \<in> seq ` set (admitted s)" | (pen) "q \<in> seq ` set (pending s)"
    using open_all_queued [of s q] i assms(2,4) by (meson not_le)
  then show ?thesis
  proof cases
    case per
    with i have "q \<le> admitted_high s" by (auto simp: seq_inv_def)
    with per c assms(3,5) show ?thesis by (cases ph) (auto simp: cell_ok_def ok_outcome_def)
  next
    case adm
    then have "q \<le> admitted_high s" using admitted_range i by blast
    with adm c assms(3,5) show ?thesis by (cases ph) (auto simp: cell_ok_def ok_outcome_def)
  next
    case pen
    with c assms(5) show ?thesis by (cases ph) (auto simp: cell_ok_def)
  qed
qed

text \<open>What one emission call did: the ledger stopped, the clock raised, or the event is accepted.\<close>

definition emitted :: "env \<Rightarrow> pydict \<Rightarrow> ew \<Rightarrow> ew \<times> (ew_exn + submitted) \<Rightarrow> bool" where
  "emitted e ev s res \<longleftrightarrow>
     (case snd res of
        Inl x \<Rightarrow> \<not> accepting (fst res) \<or> x = Clock_Error \<and> accepted (fst res) = accepted s
      | Inr y \<Rightarrow>
          accepted (fst res) = Suc (accepted s) \<and>
          (\<exists>nb. prepare e ev (Suc (accepted s)) s = Inr (twire (cells (fst res) (Suc (accepted s))), nb)))"

lemma accept_ticket_emitted:
  assumes "ew_inv s" "accepting s" "fits t s" "prepare e ev (Suc (accepted s)) s = Inr (wire t, nb)"
  shows "emitted e ev s (accept_ticket e t ph s)"
proof -
  define s1 where "s1 = enqueue t ph s"
  define u where "u = pump e s1"
  have q: "seq t = Suc (accepted s)" using assms(3) by (simp add: fits_def)
  have i1: "ew_inv s1" using enqueue_inv [OF assms(1-3)] by (simp add: s1_def)
  have a1: "accepted s1 = Suc (accepted s)" by (simp add: s1_def enqueue_def q)
  have au: "accepted u = Suc (accepted s)"
    using pump_frame [OF i1, of e] a1 by (simp add: u_def same_frame_def)
  have "cell_le (cells s1 (seq t)) (cells u (seq t))"
    using pump_mono [OF i1, of e] a1 q by (simp add: u_def ew_mono_def)
  then have w: "twire (cells u (seq t)) = wire t"
    by (simp add: cell_le_def s1_def enqueue_def fresh_cell)
  have "out_ok out \<or> \<not> accepting u" if "phase_outcome ph (cells u (seq t)) = Some out" for out
    using open_no_failure [OF pump_inv [OF i1, of e] , folded u_def] that au q accepting_open
    by (metis One_nat_def Suc_le_mono order_refl zero_le)
  with au w q show ?thesis
    unfolding accept_ticket_result [OF assms(1-3) u_def [unfolded s1_def]] emitted_def
    using assms(4) by (cases "phase_outcome ph (cells u (seq t))"; cases ph) auto
qed


lemma prepare_cong: "max_event_bytes t = max_event_bytes s \<Longrightarrow> prepare e ev q t = prepare e ev q s"
  by (simp add: prepare_def split: option.split)

lemma refuse_emitted: "seq_inv s \<Longrightarrow> emitted e ev s0 (refuse_submission code q s)"
  by (simp add: emitted_def refuse_submission_def Let_def poison_sel accepting_def)

lemma require_open_Some: "seq_inv s \<Longrightarrow> require_open s = Some x \<Longrightarrow> \<not> accepting s"
  by (auto simp: require_open_def accepting_def seq_inv_def split: if_splits)

lemma emitted_cong:
  "accepted t = accepted s \<Longrightarrow> max_event_bytes t = max_event_bytes s \<Longrightarrow>
   emitted e ev t res = emitted e ev s res"
  by (cases "snd res") (simp_all add: emitted_def prepare_cong [of t s])

lemma commit_emitted:
  assumes "ew_inv s" "accepting s" "prepare e ev (Suc (accepted s)) s = Inr (w, nb)"
  shows "emitted e ev s (commit_submission e (Suc (accepted s)) w nb ph s)"
proof -
  define s' where "s' = s\<lparr>clock_reads := Suc (clock_reads s)\<rparr>"
  have s': "ew_inv s'" "accepting s'" "accepted s' = accepted s" "max_event_bytes s' = max_event_bytes s"
    using assms(1,2) by (simp_all add: s'_def accepting_def)
  have r: "emitted e ev s (refuse_submission code q s)" "emitted e ev s (refuse_submission code q s')"
    for code q
    using assms(1) s'(1) by (simp_all add: refuse_emitted ew_inv_seq_inv)
  have a: "emitted e ev s (accept_ticket e \<lparr>seq = Suc (accepted s), wire = w, nbytes = nb, deadline = d\<rparr> ph s')"
    if "\<not> max_events s \<le> int (accepted s)" "\<not> max_event_capacity (policy s) \<le> int (length (pending s))"
      "\<not> max_queued_bytes (policy s) < pending_bytes s + queued_bytes s + nb" for d
  proof -
    have "fits \<lparr>seq = Suc (accepted s), wire = w, nbytes = nb, deadline = d\<rparr> s'"
      using that prepare_bytes [OF assms(3)] by (simp add: fits_def ticket_ok_def s'_def)
    moreover have "prepare e ev (Suc (accepted s')) s' = Inr (w, nb)"
      using assms(3) s'(3,4) prepare_cong by metis
    ultimately have "emitted e ev s' (accept_ticket e
        \<lparr>seq = Suc (accepted s), wire = w, nbytes = nb, deadline = d\<rparr> ph s')"
      using accept_ticket_emitted [OF s'(1,2)] by simp
    then show ?thesis using emitted_cong s'(3,4) by blast
  qed
  have "emitted e ev s (s', Inl Clock_Error)" by (simp add: emitted_def s'(3))
  with r a show ?thesis
    by (auto simp: commit_submission_def Let_def simp flip: s'_def split: option.split)
qed

lemma submit_emitted: assumes "ew_inv s" shows "emitted e ev s (submit e ev ph s)"
proof -
  define s1 where "s1 = pump e s"
  define s2 where "s2 = pump e s1"
  have i: "ew_inv s1" "ew_inv s2" "same_frame s s1" "same_frame s s2"
    using assms same_frame_trans [of s s1 s2] by (simp_all add: s1_def s2_def pump_inv pump_frame)
  have fr: "accepted s1 = accepted s" "accepted s2 = accepted s"
    "max_event_bytes s1 = max_event_bytes s" "max_event_bytes s2 = max_event_bytes s"
    using i by (simp_all add: same_frame_def)
  have closed: "emitted e ev s (t, Inl x)" if "ew_inv t" "require_open t = Some x" for t x
    using require_open_Some [OF ew_inv_seq_inv [OF that(1)] that(2)] by (simp add: emitted_def)
  have "emitted e ev s (commit_submission e (Suc (accepted s)) w nb ph s2)"
    if "prepare e ev (Suc (accepted s)) s1 = Inr (w, nb)" "require_open s2 = None" for w nb
  proof -
    have "prepare e ev (Suc (accepted s2)) s2 = Inr (w, nb)"
      using that(1) fr prepare_cong by metis
    from commit_emitted [OF i(2) require_open_None [OF that(2)] this, of ph] show ?thesis
      using fr emitted_cong by metis
  qed
  then show ?thesis
    using closed [OF assms] closed [OF i(1)] closed [OF i(2)] refuse_emitted [OF ew_inv_seq_inv [OF i(1)]] fr
    by (auto simp: submit_def Let_def simp flip: s1_def s2_def split: option.split sum.split)
qed

text \<open>
  No event is dropped silently.  In every reachable state, an emission that raises leaves a ledger
  that accepts nothing more (the run must finalize), except when the injected clock itself raised
  before anything was accepted; an emission that does not raise accepted exactly one event, under
  the next sequence number, with exactly the text \<^verbatim>\<open>_prepare\<close> made of it.
\<close>

theorem emission_accounted:
  assumes "writer_reaches e meb mev pol s" "emit_ordered e ev s = (t, r)"
  shows "(case r of
      Inl x \<Rightarrow> \<not> accepting t \<or> x = Clock_Error \<and> accepted t = accepted s
    | Inr y \<Rightarrow> accepted t = Suc (accepted s) \<and>
        (\<exists>nb. prepare e ev (Suc (accepted s)) s = Inr (twire (cells t (Suc (accepted s))), nb)))"
  using submit_emitted [OF reaches_inv [OF assms(1)], of e ev Admission] assms(2)
  by (cases r) (simp_all add: emit_ordered_def emitted_def)

section \<open>A concrete run\<close>

text \<open>
  Construction, start, one accepted and persisted event, and a certified close; the run the
  witnesses below evaluate.
\<close>

definition ledger_demo_env :: env where
  "ledger_demo_env = \<lparr>clk = (\<lambda>i. Some (of_nat i)), sched = (\<lambda>_. True), frepr = (\<lambda>_. [])\<rparr>"

definition ledger_demo_policy :: queue_policy where
  "ledger_demo_policy =
     \<lparr>initial_event_capacity = 1, max_event_capacity = 2, growth_factor = 2,
      initial_queued_bytes = 256, max_queued_bytes = 512, producer_timeout_seconds = 5\<rparr>"

definition ledger_demo_init :: ew where
  "ledger_demo_init = the (init_writer 256 4 (Some ledger_demo_policy))"

fun ledger_demo :: "nat \<Rightarrow> ew" where
  "ledger_demo 0 = ledger_demo_init"
| "ledger_demo (Suc n) =
     (let s = ledger_demo n in
      if n = 0 then fst (start True s)
      else if n = 1 then consumer_poll s
      else if n = 2 then fst (emit_ordered ledger_demo_env [(''type'', PStr ''log'')] s)
      else if n = 3 then consumer_poll s
      else if n = 4 then append_ok ledger_demo_env (hd (admitted s)) s
      else if n = 5 then close ledger_demo_env s
      else if n = 6 then close_enter ledger_demo_env s
      else if n = 7 then consumer_poll s
      else close_joined Returned s)"

lemma ledger_demo_steps:
  "ew_step ledger_demo_env (ledger_demo 0) (ledger_demo 1)"
  "ew_step ledger_demo_env (ledger_demo 1) (ledger_demo 2)"
  "ew_step ledger_demo_env (ledger_demo 2) (ledger_demo 3)"
  "ew_step ledger_demo_env (ledger_demo 3) (ledger_demo 4)"
  "ew_step ledger_demo_env (ledger_demo 4) (ledger_demo 5)"
  "ew_step ledger_demo_env (ledger_demo 5) (ledger_demo 6)"
  "ew_step ledger_demo_env (ledger_demo 6) (ledger_demo 7)"
  "ew_step ledger_demo_env (ledger_demo 7) (ledger_demo 8)"
  "ew_step ledger_demo_env (ledger_demo 8) (ledger_demo 9)"
proof -
  have g: "cpc (ledger_demo 1) = At_Gate" "consumer (ledger_demo 1) = Some Task_Running"
    "cpc (ledger_demo 3) = Waiting" "consumer_wakeup (ledger_demo 3)"
    "cpc (ledger_demo 4) = Appending (hd (admitted (ledger_demo 4)))"
    "kpc (ledger_demo 6) = Close_Start"
    "cpc (ledger_demo 7) = Waiting" "consumer_wakeup (ledger_demo 7)"
    "kpc (ledger_demo 8) = Wait_Consumer" "consumer (ledger_demo 8) = Some (Task_Done Returned)"
    by code_simp+
  have s: "ledger_demo 1 = fst (start True (ledger_demo 0))"
    "ledger_demo 2 = consumer_poll (ledger_demo 1)"
    "ledger_demo 3 = fst (emit_ordered ledger_demo_env [(''type'', PStr ''log'')] (ledger_demo 2))"
    "ledger_demo 4 = consumer_poll (ledger_demo 3)"
    "ledger_demo 5 = append_ok ledger_demo_env (hd (admitted (ledger_demo 4))) (ledger_demo 4)"
    "ledger_demo 6 = close ledger_demo_env (ledger_demo 5)"
    "ledger_demo 7 = close_enter ledger_demo_env (ledger_demo 6)"
    "ledger_demo 8 = consumer_poll (ledger_demo 7)"
    "ledger_demo 9 = close_joined Returned (ledger_demo 8)"
    by (simp_all add: numeral_eq_Suc Let_def)
  show "ew_step ledger_demo_env (ledger_demo 0) (ledger_demo 1)" unfolding s by (rule st_start)
  show "ew_step ledger_demo_env (ledger_demo 1) (ledger_demo 2)"
    unfolding s(2) by (rule st_first [OF g(1,2)])
  show "ew_step ledger_demo_env (ledger_demo 2) (ledger_demo 3)" unfolding s(3) by (rule st_emit)
  show "ew_step ledger_demo_env (ledger_demo 3) (ledger_demo 4)"
    unfolding s(4) by (rule st_wake [OF g(3,4)])
  show "ew_step ledger_demo_env (ledger_demo 4) (ledger_demo 5)"
    unfolding s(5) by (rule st_append_ok [OF g(5)])
  show "ew_step ledger_demo_env (ledger_demo 5) (ledger_demo 6)" unfolding s(6) by (rule st_close)
  show "ew_step ledger_demo_env (ledger_demo 6) (ledger_demo 7)"
    unfolding s(7) by (rule st_close_enter [OF g(6)])
  show "ew_step ledger_demo_env (ledger_demo 7) (ledger_demo 8)"
    unfolding s(8) by (rule st_wake [OF g(7,8)])
  show "ew_step ledger_demo_env (ledger_demo 8) (ledger_demo 9)"
    unfolding s(9) by (rule st_close_joined [OF g(9,10)])
qed

lemma ledger_demo_reaches:
  "n \<in> {0, 3, 5, 9} \<Longrightarrow> writer_reaches ledger_demo_env 256 4 (Some ledger_demo_policy) (ledger_demo n)"
proof -
  have "init_writer 256 4 (Some ledger_demo_policy) \<noteq> None" by code_simp
  then have r0: "writer_reaches ledger_demo_env 256 4 (Some ledger_demo_policy) (ledger_demo 0)"
    by (auto simp: ledger_demo_init_def intro: reaches_initial)
  note r3 = reaches_step [OF reaches_step [OF reaches_step [OF r0]], OF ledger_demo_steps(1-3)]
  note r5 = reaches_step [OF reaches_step [OF r3], OF ledger_demo_steps(4,5)]
  note r9 = reaches_step [OF reaches_step [OF reaches_step [OF reaches_step [OF r5]]],
      OF ledger_demo_steps(6-9)]
  show "n \<in> {0, 3, 5, 9} \<Longrightarrow> writer_reaches ledger_demo_env 256 4 (Some ledger_demo_policy) (ledger_demo n)"
    using r0 r3 r5 r9 by auto
qed

theorem clean_close_certifies_witness:
  "accepted (ledger_demo 9) = 1 \<and> persisted (ledger_demo 9) = 1 \<and>
   sink (ledger_demo 9) = twire (cells (ledger_demo 9) 1)"
proof -
  have "kpc (ledger_demo 9) = Close_Done Close_Returned" "accepted (ledger_demo 9) = 1" by code_simp+
  then show ?thesis using clean_close_certifies [OF ledger_demo_reaches [of 9]] by simp
qed

theorem ledger_selfcheck_witness:
  "ledger_ok (ledger_demo 3) \<and> map seq (admitted (ledger_demo 3) @ pending (ledger_demo 3)) = [1]"
proof -
  have "ledger_open (ledger_demo 3)" "accepted (ledger_demo 3) = 1" "persisted (ledger_demo 3) = 0"
    by code_simp+
  then show ?thesis using ledger_selfcheck [OF ledger_demo_reaches [of 3]] by simp
qed

theorem acknowledged_is_durable_witness:
  "\<exists>rest. sink (ledger_demo 5) = twire (cells (ledger_demo 5) 1) @ rest"
proof -
  have "accepted (ledger_demo 5) = 1"
    "persistence (cells (ledger_demo 5) 1) = Some \<lparr>out_ok = True, out_ordinal = 1, out_code = None\<rparr>"
    by code_simp+
  then show ?thesis using acknowledged_is_durable [OF ledger_demo_reaches [of 5], of 1] by simp
qed

theorem runs_move_forward_witness:
  "cell_le (cells (ledger_demo 3) 1) (cells (ledger_demo 5) 1) \<and>
   prefix (sink (ledger_demo 3)) (sink (ledger_demo 5))"
proof -
  have "(ew_step ledger_demo_env)\<^sup>*\<^sup>* (ledger_demo 3) (ledger_demo 5)"
    using ledger_demo_steps(4,5) by (meson r_into_rtranclp rtranclp_trans)
  moreover have "accepted (ledger_demo 3) = 1" by code_simp
  ultimately show ?thesis using runs_move_forward [OF ledger_demo_reaches [of 3]] by simp
qed

theorem no_lost_wakeup_witness:
  "consumer_wakeup (ledger_demo 3) \<and> cpc (consumer_poll (ledger_demo 3)) \<noteq> Waiting"
proof -
  have "cpc (ledger_demo 3) = Waiting" "peek_consumer_action (ledger_demo 3) \<noteq> Act_Wait"
    by code_simp+
  then show ?thesis using no_lost_wakeup [OF ledger_demo_reaches [of 3]] by simp
qed

theorem retention_bounded_witness:
  "length (admitted (ledger_demo 3)) = 1 \<and> int (length (admitted (ledger_demo 3))) \<le> queue_capacity (ledger_demo 3)"
proof -
  have "length (admitted (ledger_demo 3)) = 1" by code_simp
  then show ?thesis using retention_bounded [OF ledger_demo_reaches [of 3]] by simp
qed

theorem emission_accounted_witness:
  "accepted (fst (emit_ordered ledger_demo_env [] (ledger_demo 5))) = 2"
proof -
  have a: "accepted (ledger_demo 5) = 1"
    "snd (emit_ordered ledger_demo_env [] (ledger_demo 5)) = Inr Settled" by code_simp+
  then obtain t where t: "emit_ordered ledger_demo_env [] (ledger_demo 5) = (t, Inr Settled)"
    by (metis prod.collapse)
  show ?thesis using emission_accounted [OF ledger_demo_reaches [of 5] t] a(1) t by simp
qed

end
