(* ===== verification/Event_Writer_Limits.thy ===== *)
theory Event_Writer_Limits
  imports Event_Writer_Props "HOL-Library.Multiset"
begin

text \<open>
  The event ledger's limits: the truncation marker always fits, the queue policy's validation
  always returns, and the published failure does not depend on the order of the failures.
\<close>

section \<open>The bounded marker and the queue policy\<close>

lemma dec_nat_length: "n < 10 ^ k \<Longrightarrow> 1 \<le> k \<Longrightarrow> length (dec_nat n) \<le> k"
proof (induction n arbitrary: k rule: dec_nat.induct)
  case (1 n)
  show ?case
  proof (cases "n < 10")
    case True
    then show ?thesis using "1.prems" by (subst dec_nat.simps) simp
  next
    case False
    then obtain j where k: "k = Suc j" "1 \<le> j"
      using "1.prems" by (cases k; cases "k - 1") auto
    then have "n div 10 < 10 ^ j" using "1.prems" by (simp add: less_mult_imp_div_less mult.commute)
    with "1.IH" [OF False _ k(2)] k False show ?thesis by (subst dec_nat.simps) simp
  qed
qed

lemma ascii_nat: "of_char c < (128 :: int) \<longleftrightarrow> of_char c < (128 :: nat)"
  by (metis of_nat_of_char of_nat_less_numeral_iff)

lemma digit_char_ascii: "n < 10 \<Longrightarrow> of_char (digit_char n) < (128 :: int)"
  by (simp add: ascii_nat digit_char_def)

lemma dec_nat_ascii: "utf8_len (dec_nat n) = int (length (dec_nat n))"
proof (induction n rule: dec_nat.induct)
  case (1 n)
  then show ?case
    by (subst (1 2) dec_nat.simps)
       (cases "n < 10"; simp add: utf8_len_append utf8_len_Cons digit_char_ascii del: of_char_of)
qed

definition family_char :: "char \<Rightarrow> bool" where
  "family_char c \<longleftrightarrow> lower_alpha c \<or> digit c \<or> c = CHR ''_''"

lemma family_char_plain: "family_char c \<Longrightarrow> esc_char c = [c] \<and> of_char c < (128 :: int)"
  unfolding ascii_nat family_char_def lower_alpha_def digit_def less_eq_char_def esc_char_def Let_def
  by auto

lemma family_string: "list_all family_char v \<Longrightarrow> utf8_len (json_string v) = int (length v) + 2"
proof -
  assume v: "list_all family_char v"
  then have "concat (map esc_char v) = v"
    by (induction v) (simp_all add: family_char_plain)
  moreover have "utf8_len v = int (length v)"
    using v by (induction v) (simp_all add: family_char_plain utf8_len_Cons)
  ultimately show ?thesis
    by (simp add: json_string_def utf8_len_append utf8_len_Cons)
qed

lemma bounded_family:
  "list_all family_char (bounded_event_family x) \<and> length (bounded_event_family x) \<le> 64"
proof (cases "\<exists>v. x = PStr v \<and> event_family_ok v")
  case True
  then obtain v where v: "x = PStr v" "event_family_ok v" by blast
  then show ?thesis
    by (cases v) (simp_all add: event_family_ok_def family_char_def list_all_iff)
next
  case False
  then have "bounded_event_family x = ''unknown_update''" by (cases x) auto
  moreover have "list_all family_char ''unknown_update''" by code_simp
  ultimately show ?thesis by simp
qed

lemma marker_sorted:
  "sort_key fst [(''seq'', a), (''type'', b), (''truncated'', c), (''truncate_reason'', d)] =
   [(''seq'', a), (''truncate_reason'', d), (''truncated'', c), (''type'', b)]"
proof -
  have "\<not> ''truncated'' \<le> ''truncate_reason''" "''type'' > ''truncated''" "''type'' > ''truncate_reason''"
    "''seq'' \<le> ''type''" "''seq'' \<le> ''truncated''" "''seq'' \<le> ''truncate_reason''"
    by code_simp+
  then show ?thesis by (simp add: sort_key_def)
qed

lemma marker_text:
  "ndjson_line fr (event_marker q ev) =
     (if length (dec_nat q) \<le> 4300
      then Some (''{'' @ json_string ''seq'' @ '': '' @ dec_nat q @
        '', '' @ json_string ''truncate_reason'' @ '': '' @ json_string ''max_event_bytes'' @
        '', '' @ json_string ''truncated'' @ '': true, '' @ json_string ''type'' @ '': '' @
        json_string (bounded_event_family (dget ev ''type'')) @ ''}'' @ [CHR 0x0A])
      else None)"
  by (simp add: ndjson_line_def event_marker_def marker_sorted json_int_def dec_int_def)

lemma utf8_lits:
  "utf8_len (json_string ''seq'') = 5" "utf8_len (json_string ''truncate_reason'') = 17"
  "utf8_len (json_string ''max_event_bytes'') = 17" "utf8_len (json_string ''truncated'') = 11"
  "utf8_len (json_string ''type'') = 6" "utf8_len ''{'' = 1" "utf8_len '': '' = 2"
  "utf8_len '', '' = 2" "utf8_len '': true, '' = 8" "utf8_len ''}'' = 1" "utf8_len [CHR 0x0A] = 1"
  by code_simp+

text \<open>
  The size limit cannot fail twice: with \<^verbatim>\<open>max_event_bytes\<close> and \<^verbatim>\<open>max_events\<close>
  within the bounds the constructor enforces, the truncation marker of any oversized event, whatever
  its type field holds, fits; so \<^verbatim>\<open>_prepare\<close> never reports \<^verbatim>\<open>MARKER_TOO_LARGE\<close>.
\<close>

theorem marker_always_fits:
  assumes "LIMIT_MAX_EVENT_BYTES_MIN \<le> max_event_bytes s" "int (accepted s) \<le> LIMIT_MAX_EVENTS_MAX"
  shows "prepare e ev (Suc (accepted s)) s \<noteq> Inl MARKER_TOO_LARGE"
proof -
  let ?q = "Suc (accepted s)"
  have "?q < 10 ^ 7" using assms(2) by (simp add: LIMIT_MAX_EVENTS_MAX_def)
  then have d: "length (dec_nat ?q) \<le> 7" by (rule dec_nat_length) simp
  note f = bounded_family [of "dget ev ''type''"]
  have "utf8_len m \<le> 256" if "ndjson_line (frepr e) (event_marker ?q ev) = Some m" for m
    using that d f family_string [of "bounded_event_family (dget ev ''type'')"]
    unfolding marker_text by (auto simp only: utf8_len_append utf8_lits dec_nat_ascii option.inject
        split: if_splits)
  with assms(1) show ?thesis
    by (auto simp: prepare_def LIMIT_MAX_EVENT_BYTES_MIN_def split: option.splits)
qed

theorem marker_always_fits_witness:
  "prepare \<lparr>clk = (\<lambda>_. None), sched = (\<lambda>_. True), frepr = (\<lambda>_. [])\<rparr> [(''type'', PInt 1)] (Suc 0)
     (the (init_writer 256 1000000 None)) \<noteq> Inl MARKER_TOO_LARGE"
proof -
  have "LIMIT_MAX_EVENT_BYTES_MIN \<le> max_event_bytes (the (init_writer 256 1000000 None))"
    "accepted (the (init_writer 256 1000000 None)) = 0"
    by code_simp+
  then show ?thesis
    using marker_always_fits [of "the (init_writer 256 1000000 None)"]
    by (simp add: LIMIT_MAX_EVENTS_MAX_def)
qed

text \<open>
  Policy validation always returns: \<^verbatim>\<open>QueuePolicy.__post_init__\<close> terminates on every
  argument (its guard on the growth factor comes before the ladders are built), and an accepted
  policy has two non-empty ascending ladders of equal length that run exactly from the initial to
  the maximal capacity and byte budget.
\<close>

theorem policy_validation_total:
  "policy_admitted p \<noteq> None \<and>
   (policy_admitted p = Some True \<longleftrightarrow>
     1 \<le> initial_event_capacity p \<and> 1 \<le> initial_queued_bytes p \<and> 2 \<le> growth_factor p \<and>
     0 < producer_timeout_seconds p \<and>
     (\<exists>cs bs. event_capacities p = Some (Some cs) \<and> queued_byte_budgets p = Some (Some bs) \<and>
        rungs_ok p cs bs))"
proof (intro conjI iffI)
  have "ladder v m f = None \<Longrightarrow> v < 1 \<or> f < 2" for v m f
    using ladder_Some(1) [of v f m] by linarith
  then show "policy_admitted p \<noteq> None"
    unfolding policy_admitted_def event_capacities_def queued_byte_budgets_def
    by (auto split: option.splits)
next
  assume a: "policy_admitted p = Some True"
  then have "2 \<le> growth_factor p" by (simp add: policy_admitted_def split: if_splits)
  with admitted_policy [OF a]
  show "1 \<le> initial_event_capacity p" "1 \<le> initial_queued_bytes p" "2 \<le> growth_factor p"
     "0 < producer_timeout_seconds p"
     "\<exists>cs bs. event_capacities p = Some (Some cs) \<and> queued_byte_budgets p = Some (Some bs) \<and>
        rungs_ok p cs bs"
    by metis+
next
  assume a: "1 \<le> initial_event_capacity p \<and> 1 \<le> initial_queued_bytes p \<and> 2 \<le> growth_factor p \<and>
     0 < producer_timeout_seconds p \<and>
     (\<exists>cs bs. event_capacities p = Some (Some cs) \<and> queued_byte_budgets p = Some (Some bs) \<and>
        rungs_ok p cs bs)"
  then obtain cs bs where l: "event_capacities p = Some (Some cs)"
    "queued_byte_budgets p = Some (Some bs)" and r: "rungs_ok p cs bs" by blast
  have ne: "cs \<noteq> []" "bs \<noteq> []" using r by (auto simp: rungs_ok_def)
  then have "hd cs \<le> last cs" "hd bs \<le> last bs"
    using r sorted_nth_mono [of cs 0 "length cs - 1"] sorted_nth_mono [of bs 0 "length bs - 1"]
    by (auto simp: rungs_ok_def hd_conv_nth last_conv_nth)
  with a l r show "policy_admitted p = Some True"
    by (auto simp: policy_admitted_def rungs_ok_def)
qed

lemma default_policy_ladders:
  "policy_admitted DEFAULT_QUEUE_POLICY = Some True"
  "event_capacities DEFAULT_QUEUE_POLICY = Some (Some [1024, 2048, 4096, 8192])"
  "queued_byte_budgets DEFAULT_QUEUE_POLICY = Some (Some [8388608, 16777216, 33554432, 67108864])"
  by code_simp+


section \<open>The published failure\<close>

lemma rank_inj: "rank a = rank b \<Longrightarrow> a = b"
  by (cases a; cases b) simp_all

text \<open>The documented severity order of the failure codes, as a linear order.\<close>

instantiation failure_code :: linorder
begin

definition less_eq_failure_code :: "failure_code \<Rightarrow> failure_code \<Rightarrow> bool" where
  "less_eq_failure_code a b \<longleftrightarrow> rank a \<le> rank b"

definition less_failure_code :: "failure_code \<Rightarrow> failure_code \<Rightarrow> bool" where
  "less_failure_code a b \<longleftrightarrow> rank a < rank b"

instance
  by standard (auto simp: less_eq_failure_code_def less_failure_code_def intro: rank_inj)

end

lemma poison_key_less:
  "key_less (poison_key c m) (poison_key d n) \<longleftrightarrow>
     max 1 m < max 1 n \<or> max 1 m = max 1 n \<and> c < d"
  by (simp add: key_less_def poison_key_def less_failure_code_def)

lemma poison_key_tie:
  assumes "\<not> key_less (poison_key c m) (poison_key d n)" "\<not> key_less (poison_key d n) (poison_key c m)"
  shows "poison_key c m = poison_key d n"
proof -
  have m: "max 1 m = max 1 n" using assms unfolding poison_key_less by linarith
  then have "\<not> c < d" "\<not> d < c" using assms unfolding poison_key_less by simp_all
  then have "c = d" by (metis less_linear)
  with m show ?thesis by (simp add: poison_key_def)
qed

lemma key_less_ord:
  "key_less a b \<Longrightarrow> \<not> key_less b a" "key_less a b \<Longrightarrow> \<not> key_less c b \<Longrightarrow> key_less a c"
  by (auto simp: key_less_def)

lemma merge_failure_commute:
  assumes "key_less a b \<or> key_less b a \<or> a = b"
  shows "merge_failure a (merge_failure b x) = merge_failure b (merge_failure a x)"
  using assms
proof (elim disjE)
  assume "key_less a b"
  then show ?thesis using key_less_ord [of a b] key_less_trans [of a b "the x"]
    by (cases x) (auto simp: merge_failure_def)
next
  assume "key_less b a"
  then show ?thesis using key_less_ord [of b a] key_less_trans [of b a "the x"]
    by (cases x) (auto simp: merge_failure_def)
qed simp

lemma poison_fold:
  "ew_inv s \<Longrightarrow>
   primary_failure (fold (\<lambda>(c, n). poison c n None True) xs s) =
   fold (\<lambda>(c, n). merge_failure (poison_key c n)) xs (primary_failure s)"
proof (induction xs arbitrary: s)
  case (Cons x xs)
  obtain c n where "x = (c, n)" by fastforce
  with Cons poison_inv [OF Cons.prems] show ?case
    by (simp add: poison_sel [OF ew_inv_seq_inv [OF Cons.prems]])
qed simp

text \<open>
  The published failure is deterministic: whatever the order in which a set of failures hits the
  ledger, the primary failure it keeps (and so the overflow every caller sees) is the same, the one
  with the smallest ordinal and then the smallest category.
\<close>

theorem published_failure_order_free:
  assumes "writer_reaches e meb mev pol s" "mset xs = mset ys"
  shows "primary_failure (fold (\<lambda>(c, n). poison c n None True) xs s) =
    primary_failure (fold (\<lambda>(c, n). poison c n None True) ys s)"
proof -
  have "fold (\<lambda>(c, n). merge_failure (poison_key c n)) xs =
      fold (\<lambda>(c, n). merge_failure (poison_key c n)) ys"
    by (rule fold_multiset_equiv [OF _ assms(2)])
       (auto simp: fun_eq_iff intro!: merge_failure_commute dest: poison_key_tie)
  then show ?thesis using poison_fold [OF reaches_inv [OF assms(1)]] by simp
qed

theorem published_failure_order_free_witness:
  "primary_failure (fold (\<lambda>(c, n). poison c n None True)
      [(APPEND_FAILED, 2), (PRODUCER_TIMEOUT, 1), (MAX_EVENTS, 1)] (ledger_demo 3)) =
   primary_failure (fold (\<lambda>(c, n). poison c n None True)
      [(MAX_EVENTS, 1), (PRODUCER_TIMEOUT, 1), (APPEND_FAILED, 2)] (ledger_demo 3))"
  by (rule published_failure_order_free [OF ledger_demo_reaches]) (simp_all add: add_mset_commute)

end
