(* ===== verification/Json_Text.thy ===== *)
theory Json_Text
  imports ARS_Prelude
begin

text \<open>
  The other \<^verbatim>\<open>json.dumps\<close> formats the supervisor measures or hashes: indented text for
  durable documents, \<^verbatim>\<open>ensure_ascii=False\<close> text for size checks, compact text for
  digests.  All of them sort the keys.
\<close>

text \<open>\<^verbatim>\<open>ensure_ascii=False\<close> escapes only the quote, the backslash and control characters.\<close>

definition esc_char_raw :: "char \<Rightarrow> string" where
  "esc_char_raw c = (let n = (of_char c :: nat) in if n < 32 \<or> n = 34 \<or> n = 92 then esc_char c else [c])"

definition json_string_raw :: "string \<Rightarrow> string" where
  "json_string_raw s = [CHR 0x22] @ concat (map esc_char_raw s) @ [CHR 0x22]"

record jfmt =
  jf_string :: "string \<Rightarrow> string"
  jf_float :: "rat \<Rightarrow> string"
  jf_item :: string
  jf_key :: string
  jf_indent :: bool

definition line_break :: "jfmt \<Rightarrow> nat \<Rightarrow> string" where
  "line_break f l = (if jf_indent f then CHR 0x0A # replicate (2 * l) (CHR '' '') else [])"

definition bracketed :: "jfmt \<Rightarrow> nat \<Rightarrow> string \<Rightarrow> string \<Rightarrow> string list \<Rightarrow> string" where
  "bracketed f l opening closing ts =
     (if ts = [] then opening @ closing
      else opening @ line_break f (Suc l) @ join_with (jf_item f @ line_break f (Suc l)) ts @
           line_break f l @ closing)"

primrec dumps_fmt :: "jfmt \<Rightarrow> pyval \<Rightarrow> nat \<Rightarrow> string option" where
  "dumps_fmt f PNone = (\<lambda>l. Some ''null'')"
| "dumps_fmt f (PBool b) = (\<lambda>l. Some (if b then ''true'' else ''false''))"
| "dumps_fmt f (PInt n) = (\<lambda>l. json_int n)"
| "dumps_fmt f (PFloat x) = (\<lambda>l. Some (json_float (jf_float f) x))"
| "dumps_fmt f (PStr s) = (\<lambda>l. Some (jf_string f s))"
| "dumps_fmt f (PList xs) =
     (\<lambda>l. map_option (bracketed f l ''['' '']'')
        (opt_seq (map (\<lambda>g. g (Suc l)) (map (dumps_fmt f) xs))))"
| "dumps_fmt f (PDict d) =
     (\<lambda>l. map_option (bracketed f l ''{'' ''}'')
        (opt_seq (map (\<lambda>p. map_option (\<lambda>t. jf_string f (fst p) @ jf_key f @ t) (snd p (Suc l)))
          (sort_key fst (map (map_prod id (dumps_fmt f)) d)))))"
| "dumps_fmt f (PObj t) = (\<lambda>l. None)"

text \<open>The default format is the text of the prelude's serializer.\<close>

definition fmt_default :: "(rat \<Rightarrow> string) \<Rightarrow> jfmt" where
  "fmt_default fr = \<lparr>jf_string = json_string, jf_float = fr, jf_item = '', '', jf_key = '': '', jf_indent = False\<rparr>"

definition fmt_indent2 :: "(rat \<Rightarrow> string) \<Rightarrow> jfmt" where
  "fmt_indent2 fr = \<lparr>jf_string = json_string, jf_float = fr, jf_item = '','', jf_key = '': '', jf_indent = True\<rparr>"

definition fmt_unicode :: "(rat \<Rightarrow> string) \<Rightarrow> jfmt" where
  "fmt_unicode fr = \<lparr>jf_string = json_string_raw, jf_float = fr, jf_item = '', '', jf_key = '': '', jf_indent = False\<rparr>"

definition fmt_canonical :: "(rat \<Rightarrow> string) \<Rightarrow> jfmt" where
  "fmt_canonical fr = \<lparr>jf_string = json_string_raw, jf_float = fr, jf_item = '','', jf_key = '':'', jf_indent = False\<rparr>"

lemma bracketed_default: "bracketed (fmt_default fr) l a b = (\<lambda>ts. a @ join_with '', '' ts @ b)"
  by (rule ext) (simp add: bracketed_def fmt_default_def line_break_def)

lemma insort_map_snd:
  "map (map_prod id g) (insort_key fst x xs) = insort_key fst (map_prod id g x) (map (map_prod id g) xs)"
  by (induction xs) auto

lemma sort_map_snd: "map (map_prod id g) (sort_key fst xs) = sort_key fst (map (map_prod id g) xs)"
  by (induction xs) (simp_all add: insort_map_snd del: map_prod_simp id_apply id_def)

lemma dumps_fmt_default: "dumps_fmt (fmt_default fr) v l = dumps fr v"
proof (induction v arbitrary: l)
  case (PList xs)
  then have "map (\<lambda>g. g (Suc l)) (map (dumps_fmt (fmt_default fr)) xs) = map (dumps fr) xs"
    by simp
  then show ?case by (simp only: dumps_fmt.simps dumps.simps bracketed_default)
next
  case (PDict d)
  have "map (map_prod id (\<lambda>g. g (Suc l))) (map (map_prod id (dumps_fmt (fmt_default fr))) d) =
      map (map_prod id (dumps fr)) d"
    using PDict by (fastforce simp: snds.simps)
  then have "map (map_prod id (\<lambda>g. g (Suc l))) (sort_key fst (map (map_prod id (dumps_fmt (fmt_default fr))) d)) =
      sort_key fst (map (map_prod id (dumps fr)) d)"
    by (simp only: sort_map_snd)
  from arg_cong [OF this, where f = "map (\<lambda>p. map_option (\<lambda>t. json_string (fst p) @ '': '' @ t) (snd p))"]
  have "map (\<lambda>p. map_option (\<lambda>t. json_string (fst p) @ '': '' @ t) (snd p (Suc l)))
        (sort_key fst (map (map_prod id (dumps_fmt (fmt_default fr))) d)) =
      map (\<lambda>p. map_option (\<lambda>t. json_string (fst p) @ '': '' @ t) (snd p))
        (sort_key fst (map (map_prod id (dumps fr)) d))"
    by (simp add: comp_def)
  moreover have "jf_string (fmt_default fr) = json_string" "jf_key (fmt_default fr) = '': ''"
    by (simp_all add: fmt_default_def)
  ultimately show ?case by (simp only: dumps_fmt.simps dumps.simps bracketed_default)
qed (simp_all add: fmt_default_def)

end
