(* ===== verification/Run_Result.thy ===== *)
theory Run_Result
  imports Json_Text "HOL-Library.Word" "HOL-Library.Sublist"
begin

text \<open>
  Terminal results, \<^verbatim>\<open>result.py\<close> and \<^verbatim>\<open>exit_classifier.py\<close>: the one emitter of
  \<^verbatim>\<open>result.json\<close>, the size ceilings, and the strict validation that decides whether a
  stored terminal is trusted evidence.
\<close>

section \<open>The terminal vocabulary\<close>

datatype run_status = COMPLETED | FAILED | CANCELLED | TIMED_OUT | UNKNOWN_STATUS

fun status_value :: "run_status \<Rightarrow> string" where
  "status_value COMPLETED = ''completed''"
| "status_value FAILED = ''failed''"
| "status_value CANCELLED = ''cancelled''"
| "status_value TIMED_OUT = ''timed_out''"
| "status_value UNKNOWN_STATUS = ''unknown''"

text \<open>The enum lookup \<^verbatim>\<open>AgentRunStatus(value)\<close>; \<^const>\<open>None\<close> is its \<^verbatim>\<open>ValueError\<close>.\<close>

definition run_status_of :: "string \<Rightarrow> run_status option" where
  "run_status_of v =
     find (\<lambda>st. status_value st = v) [COMPLETED, FAILED, CANCELLED, TIMED_OUT, UNKNOWN_STATUS]"

fun retryable_default :: "run_status \<Rightarrow> bool" where
  "retryable_default COMPLETED = False"
| "retryable_default TIMED_OUT = True"
| "retryable_default FAILED = False"
| "retryable_default CANCELLED = False"
| "retryable_default UNKNOWN_STATUS = False"

fun default_error_code :: "run_status \<Rightarrow> string option" where
  "default_error_code COMPLETED = None"
| "default_error_code TIMED_OUT = Some ''TIMED_OUT''"
| "default_error_code FAILED = Some ''FAILED''"
| "default_error_code CANCELLED = Some ''CANCELLED''"
| "default_error_code UNKNOWN_STATUS = Some ''UNKNOWN''"

lemma run_status_of_value [simp]: "run_status_of (status_value st) = Some st"
  by (cases st) (simp_all add: run_status_of_def)

lemma run_status_of_Some: "run_status_of v = Some st \<Longrightarrow> v = status_value st"
  by (auto simp: run_status_of_def split: if_splits)

definition MAX_NATIVE_RESULT_SERIALIZED_BYTES :: int where
  "MAX_NATIVE_RESULT_SERIALIZED_BYTES = (512 * 1024 :: int)"

definition MAX_USAGE_SERIALIZED_BYTES :: int where
  "MAX_USAGE_SERIALIZED_BYTES = (4 * 1024 :: int)"

section \<open>Truncation on a UTF-8 boundary\<close>

type_synonym bytes = "8 word list"

definition continuation :: "8 word \<Rightarrow> bool" where
  "continuation b \<longleftrightarrow> 0x80 \<le> b \<and> b \<le> 0xBF"

text \<open>The length of the well-formed sequence a byte string starts with, as the strict decoder
  reads it: no overlong forms, no surrogates, nothing above U+10FFFF.\<close>

fun utf8_first :: "bytes \<Rightarrow> nat option" where
  "utf8_first [] = None"
| "utf8_first (b # r) =
     (if b \<le> 0x7F then Some 1
      else if 0xC2 \<le> b \<and> b \<le> 0xDF then
        (case r of c # _ \<Rightarrow> if continuation c then Some 2 else None | _ \<Rightarrow> None)
      else if 0xE0 \<le> b \<and> b \<le> 0xEF then
        (case r of c # d # _ \<Rightarrow>
           if continuation c \<and> continuation d \<and> (b = 0xE0 \<longrightarrow> 0xA0 \<le> c) \<and> (b = 0xED \<longrightarrow> c \<le> 0x9F)
           then Some 3 else None
         | _ \<Rightarrow> None)
      else if 0xF0 \<le> b \<and> b \<le> 0xF4 then
        (case r of c # d # e # _ \<Rightarrow>
           if continuation c \<and> continuation d \<and> continuation e \<and>
              (b = 0xF0 \<longrightarrow> 0x90 \<le> c) \<and> (b = 0xF4 \<longrightarrow> c \<le> 0x8F)
           then Some 4 else None
         | _ \<Rightarrow> None)
      else None)"

lemma utf8_first_bounds: "utf8_first s = Some n \<Longrightarrow> 1 \<le> n \<and> n \<le> 4 \<and> n \<le> length s"
  by (cases s) (auto split: if_splits list.splits)

lemma utf8_first_take: "utf8_first s = Some n \<Longrightarrow> n \<le> k \<Longrightarrow> utf8_first (take k s) = Some n"
  by (cases s; cases k)
     (auto split: if_splits list.splits simp: take_Cons' Suc_le_eq)

function utf8_valid :: "bytes \<Rightarrow> bool" where
  "utf8_valid s =
     (if s = [] then True
      else (case utf8_first s of None \<Rightarrow> False | Some n \<Rightarrow> utf8_valid (drop n s)))"
  by pat_completeness auto
termination
  by (relation "measure length") (auto dest: utf8_first_bounds)

declare utf8_valid.simps [simp del]

function trim_invalid :: "bytes \<Rightarrow> bytes" where
  "trim_invalid chunk =
     (if chunk = [] then [] else if utf8_valid chunk then chunk else trim_invalid (butlast chunk))"
  by pat_completeness auto
termination by (relation "measure length") auto

declare trim_invalid.simps [simp del]

definition truncate_utf8_bytes :: "bytes \<Rightarrow> int \<Rightarrow> bytes" where
  "truncate_utf8_bytes data max_bytes =
     (if max_bytes \<le> 0 \<or> data = [] then [] else trim_invalid (take (nat max_bytes) data))"

lemma utf8_valid_Nil [simp]: "utf8_valid []"
  by (simp add: utf8_valid.simps)

lemma utf8_valid_near:
  "utf8_valid data \<Longrightarrow> n \<le> length data \<Longrightarrow> \<exists>k \<le> n. n \<le> k + 3 \<and> utf8_valid (take k data)"
proof (induction data arbitrary: n rule: utf8_valid.induct)
  case (1 s)
  show ?case
  proof (cases "s = []")
    case False
    with "1.prems"(1) obtain m where m: "utf8_first s = Some m" "utf8_valid (drop m s)"
      by (subst (asm) utf8_valid.simps) (auto split: option.splits)
    note b = utf8_first_bounds [OF m(1)]
    show ?thesis
    proof (cases "n < m")
      case True
      with b have "n \<le> 3" by linarith
      then show ?thesis by (intro exI [of _ 0]) simp
    next
      case ge: False
      then have "n - m \<le> length (drop m s)" using "1.prems"(2) by simp
      from "1.IH" [OF False m this] obtain k where
        k: "k \<le> n - m" "n - m \<le> k + 3" "utf8_valid (take k (drop m s))" by blast
      have "utf8_first (take (m + k) s) = Some m" by (rule utf8_first_take [OF m(1)]) simp
      moreover have "drop m (take (m + k) s) = take k (drop m s)" by (simp add: drop_take)
      ultimately have "utf8_valid (take (m + k) s)"
        using k(3) by (subst utf8_valid.simps) simp
      then show ?thesis using k ge by (intro exI [of _ "m + k"]) auto
    qed
  qed (use "1.prems" in auto)
qed

lemma trim_invalid_spec:
  "utf8_valid (trim_invalid c) \<and> prefix (trim_invalid c) c \<and>
   (\<forall>k \<le> length c. utf8_valid (take k c) \<longrightarrow> k \<le> length (trim_invalid c))"
proof (induction c rule: trim_invalid.induct)
  case (1 c)
  show ?case
  proof (cases "c = [] \<or> utf8_valid c")
    case True
    then show ?thesis by (subst (1 2 3) trim_invalid.simps) auto
  next
    case False
    then have eq: "trim_invalid c = trim_invalid (butlast c)" by (subst trim_invalid.simps) simp
    have IH: "utf8_valid (trim_invalid (butlast c))" "prefix (trim_invalid (butlast c)) (butlast c)"
      "\<forall>k \<le> length (butlast c). utf8_valid (take k (butlast c)) \<longrightarrow> k \<le> length (trim_invalid (butlast c))"
      using "1.IH" False by auto
    have "k \<le> length (trim_invalid (butlast c))" if "k \<le> length c" "utf8_valid (take k c)" for k
    proof -
      have "k \<noteq> length c" using that False by auto
      with that have "k \<le> length (butlast c)" "take k (butlast c) = take k c"
        by (simp_all add: take_butlast)
      with IH(3) that show ?thesis by auto
    qed
    moreover have "prefix (butlast c) c" by (rule prefixeq_butlast)
    ultimately show ?thesis using IH eq by (auto intro: prefix_order.trans)
  qed
qed

text \<open>
  Truncation keeps a well-formed prefix and wastes at most three bytes: on valid UTF-8,
  \<^verbatim>\<open>truncate_utf8_bytes\<close> returns a valid prefix of at most the allowed size that lacks at
  most three of the bytes the limit would allow.
\<close>

theorem truncate_utf8_tight:
  assumes "utf8_valid data"
  shows "prefix (truncate_utf8_bytes data m) data \<and> utf8_valid (truncate_utf8_bytes data m) \<and>
    int (length (truncate_utf8_bytes data m)) \<le> max 0 m \<and>
    min m (int (length data)) - 3 \<le> int (length (truncate_utf8_bytes data m))"
proof (cases "m \<le> 0 \<or> data = []")
  case False
  let ?c = "take (nat m) data"
  have eq: "truncate_utf8_bytes data m = trim_invalid ?c"
    using False by (simp add: truncate_utf8_bytes_def)
  note t = trim_invalid_spec [of ?c]
  obtain k where k: "k \<le> length ?c" "length ?c \<le> k + 3" "utf8_valid (take k data)"
    using utf8_valid_near [OF assms, of "length ?c"] by auto
  then have "utf8_valid (take k ?c)" by (simp add: min_def split: if_splits)
  with t k have "length ?c - 3 \<le> length (trim_invalid ?c)" by fastforce
  moreover have "prefix (trim_invalid ?c) data"
    using t take_is_prefix prefix_order.trans by blast
  moreover have "length (trim_invalid ?c) \<le> length ?c" using t prefix_length_le by blast
  ultimately show ?thesis using t eq False by (auto simp: min_def split: if_splits)
qed (auto simp: truncate_utf8_bytes_def)

theorem truncate_utf8_tight_witness:
  "length (truncate_utf8_bytes [0x61, 0xE2, 0x82, 0xAC] 3) = 1 \<and>
   prefix (truncate_utf8_bytes [0x61, 0xE2, 0x82, 0xAC] 3) [0x61, 0xE2, 0x82, 0xAC]"
proof -
  have "utf8_valid [0x61, 0xE2, 0x82, 0xAC]" "length (truncate_utf8_bytes [0x61, 0xE2, 0x82, 0xAC] 3) = 1"
    by code_simp+
  with truncate_utf8_tight [of "[0x61, 0xE2, 0x82, 0xAC]" 3] show ?thesis by blast
qed

section \<open>Sanitizing optional fields\<close>

definition ALLOWED_FAILURE_REASONS :: "string list" where
  "ALLOWED_FAILURE_REASONS =
     [''admission failed'', ''spawn failed'', ''startup timed out'', ''session load unavailable'',
      ''silent session recreation'', ''config fidelity failed'', ''evidence pipeline failed'',
      ''supervisor cancellation'', ''run exception'', ''run failed'']"

fun sanitize_failure_reason :: "pyval \<Rightarrow> string option" where
  "sanitize_failure_reason PNone = None"
| "sanitize_failure_reason (PStr r) =
     Some (if r \<in> set ALLOWED_FAILURE_REASONS then r else ''run failed'')"
| "sanitize_failure_reason _ = Some ''run failed''"

fun sanitize_usage :: "(rat \<Rightarrow> string) \<Rightarrow> pyval \<Rightarrow> pydict option" where
  "sanitize_usage fr (PDict usage) =
     (case dumps_fmt (fmt_unicode fr) (PDict usage) 0 of
        None \<Rightarrow> None
      | Some rendered \<Rightarrow>
          if MAX_USAGE_SERIALIZED_BYTES < utf8_len rendered
          then Some [(''truncated'', PBool True), (''truncate_reason'', PStr ''max_usage_bytes'')]
          else Some usage)"
| "sanitize_usage fr _ = None"

definition native_result_serialized_size :: "(rat \<Rightarrow> string) \<Rightarrow> pydict \<Rightarrow> int option" where
  "native_result_serialized_size fr payload =
     map_option utf8_len (dumps_fmt (fmt_indent2 fr) (PDict payload) 0)"

section \<open>The emitter\<close>

record result_args =
  ra_run_id :: string
  ra_status :: run_status
  ra_origin :: string
  ra_detail_code :: "string option"
  ra_retryable :: bool
  ra_signal :: "int option"
  ra_stop_reason :: "string option"
  ra_usage :: "pydict option"
  ra_final_message :: string
  ra_truncated :: bool
  ra_truncate_reason :: "string option"
  ra_run_dir :: string
  ra_raw_event_path :: string
  ra_stderr_path :: string
  ra_redaction_report_path :: string
  ra_error_code :: "string option"
  ra_observed_effect :: "bool option"

fun pint_opt :: "int option \<Rightarrow> pyval" where
  "pint_opt None = PNone" | "pint_opt (Some n) = PInt n"

fun pbool_opt :: "bool option \<Rightarrow> pyval" where
  "pbool_opt None = PNone" | "pbool_opt (Some b) = PBool b"

fun pdict_opt :: "pydict option \<Rightarrow> pyval" where
  "pdict_opt None = PNone" | "pdict_opt (Some d) = PDict d"

definition build_result_payload :: "result_args \<Rightarrow> pydict" where
  "build_result_payload a =
     [(''run_id'', PStr (ra_run_id a)),
      (''status'', PStr (status_value (ra_status a))),
      (''business_verdict'', PNone),
      (''error_code'', if py_truth (pstr_opt (ra_error_code a)) then pstr_opt (ra_error_code a)
         else pstr_opt (default_error_code (ra_status a))),
      (''detail_code'', pstr_opt (ra_detail_code a)),
      (''origin'', PStr (ra_origin a)),
      (''retryable'', PBool (ra_retryable a)),
      (''signal'', pint_opt (ra_signal a)),
      (''stop_reason'', pstr_opt (ra_stop_reason a)),
      (''usage'', pdict_opt (ra_usage a)),
      (''final_message'', PStr (ra_final_message a)),
      (''truncated'', PBool (ra_truncated a)),
      (''truncate_reason'', pstr_opt (ra_truncate_reason a)),
      (''observed_effect'', pbool_opt (ra_observed_effect a)),
      (''run_dir'', PStr (ra_run_dir a)),
      (''stderr_path'', PStr (ra_stderr_path a)),
      (''raw_event_path'', PStr (ra_raw_event_path a)),
      (''redaction_report_path'', PStr (ra_redaction_report_path a))]"

text \<open>The arguments every supervisor-authored terminal shares.\<close>

definition supervisor_args :: "string \<Rightarrow> run_status \<Rightarrow> string \<Rightarrow> string \<Rightarrow> result_args" where
  "supervisor_args run_id st detail run_dir =
     \<lparr>ra_run_id = run_id, ra_status = st, ra_origin = ''supervisor'', ra_detail_code = Some detail,
      ra_retryable = retryable_default st, ra_signal = None, ra_stop_reason = None, ra_usage = None,
      ra_final_message = [], ra_truncated = False, ra_truncate_reason = None, ra_run_dir = run_dir,
      ra_raw_event_path = ''events.jsonl'', ra_stderr_path = ''stderr.log'',
      ra_redaction_report_path = ''redaction-report.json'', ra_error_code = None,
      ra_observed_effect = None\<rparr>"

definition build_minimal_evidence_pipeline_result ::
    "string \<Rightarrow> string \<Rightarrow> string option \<Rightarrow> pydict" where
  "build_minimal_evidence_pipeline_result run_id run_dir session_id =
     (let payload = build_result_payload (supervisor_args run_id FAILED ''EVIDENCE_PIPELINE'' run_dir)
      in case session_id of None \<Rightarrow> payload | Some sid \<Rightarrow> dset ''session_id'' (PStr sid) payload)"

definition enforce_native_result_ceiling ::
    "(rat \<Rightarrow> string) \<Rightarrow> pydict \<Rightarrow> string \<Rightarrow> string \<Rightarrow> string option \<Rightarrow> pydict option" where
  "enforce_native_result_ceiling fr payload run_id run_dir session_id =
     (case native_result_serialized_size fr payload of
        None \<Rightarrow> None \<comment> \<open>the serializer raised\<close>
      | Some n \<Rightarrow>
          Some (if n \<le> MAX_NATIVE_RESULT_SERIALIZED_BYTES then payload
                else build_minimal_evidence_pipeline_result run_id run_dir session_id))"

section \<open>Trusted terminals\<close>

definition COMPLETED_ACP_STOP_REASONS :: "string list" where
  "COMPLETED_ACP_STOP_REASONS = [''end_turn'', ''max_tokens'', ''max_turn_requests'', ''refusal'']"

definition REQUIRED_NATIVE_RESULT_FIELDS :: "string list" where
  "REQUIRED_NATIVE_RESULT_FIELDS =
     [''run_id'', ''status'', ''business_verdict'', ''error_code'', ''detail_code'', ''origin'',
      ''retryable'', ''signal'', ''stop_reason'', ''usage'', ''final_message'', ''truncated'',
      ''truncate_reason'', ''observed_effect'', ''run_dir'', ''stderr_path'', ''raw_event_path'',
      ''redaction_report_path'']"

definition KNOWN_NATIVE_RESULT_FIELDS :: "string list" where
  "KNOWN_NATIVE_RESULT_FIELDS = REQUIRED_NATIVE_RESULT_FIELDS @ [''session_id'', ''failure_reason'']"

definition is_optional_str :: "pyval \<Rightarrow> bool" where
  "is_optional_str v \<longleftrightarrow> v = PNone \<or> is_str v"

definition is_optional_int :: "pyval \<Rightarrow> bool" where
  "is_optional_int v \<longleftrightarrow> v = PNone \<or> plain_int v"

definition is_optional_dict :: "pyval \<Rightarrow> bool" where
  "is_optional_dict v \<longleftrightarrow> v = PNone \<or> is_dict v"

definition semantic_grammar_ok :: "run_status \<Rightarrow> string \<Rightarrow> pyval \<Rightarrow> pyval \<Rightarrow> bool" where
  "semantic_grammar_ok st origin stop_reason detail_code =
     (if origin = ''acp'' \<and> stop_reason = PNone then False
      else case st of
        COMPLETED \<Rightarrow> origin = ''acp'' \<and> stop_reason \<in> set (map PStr COMPLETED_ACP_STOP_REASONS)
      | CANCELLED \<Rightarrow> origin = ''acp'' \<and> stop_reason = PStr ''cancelled''
      | UNKNOWN_STATUS \<Rightarrow> origin = ''supervisor'' \<and> stop_reason = PNone
      | TIMED_OUT \<Rightarrow>
          if origin = ''acp'' then stop_reason \<noteq> PNone
          else origin = ''supervisor'' \<and> stop_reason = PNone
      | FAILED \<Rightarrow>
          if origin = ''acp'' then stop_reason \<noteq> PNone
          else if origin \<noteq> ''supervisor'' then False
          else if stop_reason = PNone then True
          else detail_code = PStr ''EMERGENCY_FINALIZE'')"

text \<open>
  \<^verbatim>\<open>_validate_native_terminal_result_inner\<close>; the wrapper maps everything that can raise
  (here only the serializer) to \<^const>\<open>None\<close>.
\<close>

definition terminal_fields_ok :: "pydict \<Rightarrow> string \<Rightarrow> bool" where
  "terminal_fields_ok p run_id \<longleftrightarrow>
     list_all (\<lambda>k. has_key k p) REQUIRED_NATIVE_RESULT_FIELDS \<and>
     list_all (\<lambda>k. k \<in> set KNOWN_NATIVE_RESULT_FIELDS) (map fst p) \<and>
     dget p ''run_id'' = PStr run_id \<and> is_str (dget p ''status'')"

definition terminal_types_ok :: "pydict \<Rightarrow> bool" where
  "terminal_types_ok p \<longleftrightarrow>
     is_optional_str (dget p ''detail_code'') \<and> is_optional_int (dget p ''signal'') \<and>
     is_optional_str (dget p ''stop_reason'') \<and> is_optional_dict (dget p ''usage'') \<and>
     is_str (dget p ''final_message'') \<and> is_bool (dget p ''truncated'') \<and>
     is_optional_str (dget p ''truncate_reason'') \<and>
     (dget p ''observed_effect'' = PNone \<or> is_bool (dget p ''observed_effect'')) \<and>
     is_str (dget p ''run_dir'') \<and> is_str (dget p ''stderr_path'') \<and>
     is_str (dget p ''raw_event_path'') \<and> is_str (dget p ''redaction_report_path'') \<and>
     dget p ''business_verdict'' = PNone \<and>
     (\<not> has_key ''failure_reason'' p \<or> dget p ''failure_reason'' = PNone \<or>
      dget p ''failure_reason'' \<in> set (map PStr ALLOWED_FAILURE_REASONS))"

fun the_str :: "pyval \<Rightarrow> string" where
  "the_str (PStr s) = s" | "the_str _ = []"

definition validate_native_terminal_result ::
    "(rat \<Rightarrow> string) \<Rightarrow> pyval \<Rightarrow> string \<Rightarrow> pydict option" where
  "validate_native_terminal_result fr payload run_id =
     (case payload of
        PDict p \<Rightarrow>
          if \<not> terminal_fields_ok p run_id then None
          else (case run_status_of (the_str (dget p ''status'')) of
            None \<Rightarrow> None
          | Some st \<Rightarrow>
              if dget p ''retryable'' \<noteq> PBool (retryable_default st) then None
              else if dget p ''origin'' \<notin> {PStr ''acp'', PStr ''supervisor''} then None
              else if dget p ''error_code'' \<noteq> pstr_opt (default_error_code st) then None
              else if \<not> terminal_types_ok p then None
              else if \<not> semantic_grammar_ok st (the_str (dget p ''origin''))
                        (dget p ''stop_reason'') (dget p ''detail_code'') then None
              else (case native_result_serialized_size fr p of
                 None \<Rightarrow> None
               | Some n \<Rightarrow> if MAX_NATIVE_RESULT_SERIALIZED_BYTES < n then None else Some p))
      | _ \<Rightarrow> None)"

section \<open>Writer and reader agree\<close>

lemma opt_types [simp]:
  "is_optional_str (pstr_opt x)" "is_optional_int (pint_opt y)" "is_optional_dict (pdict_opt d)"
  "pbool_opt b = PNone \<or> is_bool (pbool_opt b)"
  by ((cases x; simp add: is_optional_str_def), (cases y; simp add: is_optional_int_def plain_int_def),
      (cases d; simp add: is_optional_dict_def), (cases b; simp))

text \<open>The payload as the reader sees it, with the optional session key.\<close>

definition with_session :: "string option \<Rightarrow> pydict \<Rightarrow> pydict" where
  "with_session sid p = (case sid of None \<Rightarrow> p | Some s \<Rightarrow> dset ''session_id'' (PStr s) p)"

lemma with_session_dget: "k \<noteq> ''session_id'' \<Longrightarrow> dget (with_session sid p) k = dget p k"
  by (cases sid) (simp_all add: with_session_def dget_def)

lemma with_session_keys:
  "fst ` set (with_session sid p) = (case sid of None \<Rightarrow> fst ` set p | Some _ \<Rightarrow> insert ''session_id'' (fst ` set p))"
  by (cases sid) (simp_all add: with_session_def)

definition args_native :: "result_args \<Rightarrow> bool" where
  "args_native a \<longleftrightarrow>
     ra_origin a \<in> {''acp'', ''supervisor''} \<and> ra_retryable a = retryable_default (ra_status a) \<and>
     \<not> py_truth (pstr_opt (ra_error_code a)) \<and>
     semantic_grammar_ok (ra_status a) (ra_origin a) (pstr_opt (ra_stop_reason a)) (pstr_opt (ra_detail_code a))"

lemma payload_keys: "map fst (build_result_payload a) = REQUIRED_NATIVE_RESULT_FIELDS"
  by (simp add: build_result_payload_def REQUIRED_NATIVE_RESULT_FIELDS_def)

lemma payload_fields_ok:
  "terminal_fields_ok (with_session sid (build_result_payload a)) (ra_run_id a)"
proof -
  have "set (map fst (build_result_payload a)) = set REQUIRED_NATIVE_RESULT_FIELDS"
    by (simp only: payload_keys)
  then have k: "fst ` set (build_result_payload a) = set REQUIRED_NATIVE_RESULT_FIELDS" by simp
  have "dget (build_result_payload a) ''run_id'' = PStr (ra_run_id a)"
    "dget (build_result_payload a) ''status'' = PStr (status_value (ra_status a))"
    by (simp_all add: build_result_payload_def dget_def)
  moreover have "list_all (\<lambda>k. has_key k (with_session sid (build_result_payload a))) REQUIRED_NATIVE_RESULT_FIELDS"
    by (auto simp: list_all_iff has_key_def with_session_keys k split: option.splits)
  moreover have "list_all (\<lambda>k. k \<in> set KNOWN_NATIVE_RESULT_FIELDS) (map fst (with_session sid (build_result_payload a)))"
    unfolding list_all_iff set_map with_session_keys k
    by (auto simp: KNOWN_NATIVE_RESULT_FIELDS_def split: option.splits)
  ultimately show ?thesis by (simp add: terminal_fields_ok_def with_session_dget)
qed

lemma payload_types_ok: "terminal_types_ok (with_session sid (build_result_payload a))"
proof -
  have "\<not> has_key ''failure_reason'' (with_session sid (build_result_payload a))"
    by (simp add: has_key_def with_session_keys build_result_payload_def split: option.splits)
  then show ?thesis
    by (simp add: terminal_types_ok_def with_session_dget) (simp add: build_result_payload_def dget_def)
qed

lemma native_payload_trusted:
  assumes "args_native a" "native_result_serialized_size fr (with_session sid (build_result_payload a)) = Some n"
    "n \<le> MAX_NATIVE_RESULT_SERIALIZED_BYTES"
  shows "validate_native_terminal_result fr (PDict (with_session sid (build_result_payload a))) (ra_run_id a) =
    Some (with_session sid (build_result_payload a))"
proof -
  have "dget (build_result_payload a) ''retryable'' = PBool (ra_retryable a)"
    "dget (build_result_payload a) ''status'' = PStr (status_value (ra_status a))"
    "dget (build_result_payload a) ''origin'' = PStr (ra_origin a)"
    "dget (build_result_payload a) ''stop_reason'' = pstr_opt (ra_stop_reason a)"
    "dget (build_result_payload a) ''detail_code'' = pstr_opt (ra_detail_code a)"
    by (simp_all add: build_result_payload_def dget_def)
  moreover have "dget (build_result_payload a) ''error_code'' = pstr_opt (default_error_code (ra_status a))"
    using assms(1) by (simp add: build_result_payload_def dget_def args_native_def)
  ultimately show ?thesis
    using assms payload_fields_ok [of sid a] payload_types_ok [of sid a]
    by (auto simp: validate_native_terminal_result_def with_session_dget args_native_def)
qed

text \<open>
  What the emitter writes, the reader trusts: a terminal built for a native status, origin and
  stop combination, with or without the session key and within the size ceiling, is accepted by
  the strict validation for its own run, unchanged.
\<close>

theorem emitted_terminal_trusted:
  assumes "args_native a" "native_result_serialized_size fr (with_session sid (build_result_payload a)) = Some n"
    "n \<le> MAX_NATIVE_RESULT_SERIALIZED_BYTES"
  shows "validate_native_terminal_result fr (PDict (with_session sid (build_result_payload a))) (ra_run_id a) =
    Some (with_session sid (build_result_payload a))"
  by (rule native_payload_trusted [OF assms])

definition demo_args :: result_args where
  "demo_args = (supervisor_args ''run-1'' COMPLETED ''D'' ''/r'')
     \<lparr>ra_origin := ''acp'', ra_stop_reason := Some ''end_turn'', ra_final_message := ''ok''\<rparr>"

theorem emitted_terminal_trusted_witness:
  "validate_native_terminal_result (\<lambda>_. []) (PDict (with_session (Some ''sess-1'') (build_result_payload demo_args)))
     ''run-1'' = Some (with_session (Some ''sess-1'') (build_result_payload demo_args))"
proof -
  have "args_native demo_args" "ra_run_id demo_args = ''run-1''"
    "native_result_serialized_size (\<lambda>_. []) (with_session (Some ''sess-1'') (build_result_payload demo_args)) = Some 490"
    by code_simp+
  then show ?thesis
    using emitted_terminal_trusted [of demo_args "\<lambda>_. []" "Some ''sess-1''"]
    by (simp add: MAX_NATIVE_RESULT_SERIALIZED_BYTES_def)
qed

text \<open>
  Trust is strict: a trusted terminal is returned as stored, belongs to the run it is read for,
  has no key outside the closed set, carries exactly the error code and retryability its status
  determines, and an unknown outcome is never marked retryable nor attributed to the agent.
\<close>

theorem trusted_terminal_sound:
  assumes "validate_native_terminal_result fr v run_id = Some p"
  shows "v = PDict p \<and> dget p ''run_id'' = PStr run_id \<and>
    set REQUIRED_NATIVE_RESULT_FIELDS \<subseteq> set (map fst p) \<and>
    set (map fst p) \<subseteq> set KNOWN_NATIVE_RESULT_FIELDS \<and>
    (\<exists>st. dget p ''status'' = PStr (status_value st) \<and>
       dget p ''error_code'' = pstr_opt (default_error_code st) \<and>
       dget p ''retryable'' = PBool (retryable_default st) \<and>
       (st = UNKNOWN_STATUS \<longrightarrow> dget p ''origin'' = PStr ''supervisor'' \<and> dget p ''stop_reason'' = PNone) \<and>
       (st = COMPLETED \<longrightarrow> dget p ''origin'' = PStr ''acp'' \<and>
          dget p ''stop_reason'' \<in> set (map PStr COMPLETED_ACP_STOP_REASONS)))"
proof -
  obtain st where v: "v = PDict p" "terminal_fields_ok p run_id"
    and st: "run_status_of (the_str (dget p ''status'')) = Some st"
    and r: "dget p ''retryable'' = PBool (retryable_default st)"
    "dget p ''origin'' \<in> {PStr ''acp'', PStr ''supervisor''}"
    "dget p ''error_code'' = pstr_opt (default_error_code st)"
    "semantic_grammar_ok st (the_str (dget p ''origin'')) (dget p ''stop_reason'') (dget p ''detail_code'')"
    using assms by (auto simp: validate_native_terminal_result_def split: pyval.splits option.splits if_splits)
  have "dget p ''status'' = PStr (status_value st)"
    using v(2) run_status_of_Some [OF st] by (auto simp: terminal_fields_ok_def is_str_iff)
  moreover have "st = UNKNOWN_STATUS \<Longrightarrow> dget p ''origin'' = PStr ''supervisor'' \<and> dget p ''stop_reason'' = PNone"
    "st = COMPLETED \<Longrightarrow> dget p ''origin'' = PStr ''acp'' \<and>
       dget p ''stop_reason'' \<in> set (map PStr COMPLETED_ACP_STOP_REASONS)"
    using r(2,4) by (auto simp: semantic_grammar_ok_def split: if_splits)
  ultimately show ?thesis
    using v r by (auto simp: terminal_fields_ok_def list_all_iff has_key_def)
qed

theorem trusted_terminal_sound_witness:
  "set REQUIRED_NATIVE_RESULT_FIELDS \<subseteq> set (map fst (build_result_payload demo_args))"
proof -
  have "validate_native_terminal_result (\<lambda>_. []) (PDict (build_result_payload demo_args)) ''run-1'' =
      Some (build_result_payload demo_args)" by code_simp
  from trusted_terminal_sound [OF this] show ?thesis by blast
qed

end
