(* ===== verification/Storage.thy ===== *)
theory Storage
  imports Run_Result
begin

text \<open>
  The classifying readers of \<^verbatim>\<open>native_acp/storage.py\<close>: what one observation of a path may
  conclude.  \<open>path_obs\<close> is everything the system calls of one observation answer, a failed
  call included; \<open>dec\<close> stands for \<^verbatim>\<open>json.loads(raw.decode("utf-8"))\<close>, \<^const>\<open>None\<close>
  when it raises.  A path nothing else touches during the observation is a \<open>dentry\<close>, the level
  at which the other components use the store.
\<close>

section \<open>Observations\<close>

record file_stat =
  st_dev :: int
  st_ino :: int
  st_regular :: bool
  st_size :: int
  st_mtime_ns :: int
  st_ctime_ns :: int

datatype lstat_result = Lstat file_stat | Lstat_Absent | Lstat_Error

record path_obs =
  ob_lstat :: lstat_result
  ob_open :: bool
  ob_fstat :: "file_stat option"
  ob_read :: "nat \<Rightarrow> nat \<Rightarrow> nat \<Rightarrow> bytes option" \<comment> \<open>call number, offset, requested size\<close>
  ob_fstat_after :: "file_stat option"
  ob_close :: bool

definition MAX_RECONCILE_JSON_BYTES :: int where
  "MAX_RECONCILE_JSON_BYTES = (1048576 :: int)"

function read_fd_capped :: "(nat \<Rightarrow> nat \<Rightarrow> nat \<Rightarrow> bytes option) \<Rightarrow> nat \<Rightarrow> nat \<Rightarrow> bytes \<Rightarrow> bytes option" where
  "read_fd_capped rd i limit acc =
     (if length acc < limit then
        (case rd i (length acc) (min 65536 (limit - length acc)) of
           None \<Rightarrow> None
         | Some chunk \<Rightarrow>
             if chunk = [] then Some acc else read_fd_capped rd (Suc i) limit (acc @ chunk))
      else Some acc)"
  by pat_completeness auto
termination
  by (relation "measure (\<lambda>(rd, i, limit, acc). limit - length acc)") (auto simp: length_greater_0_conv intro: diff_less_mono2)

declare read_fd_capped.simps [simp del]

definition same_stat :: "file_stat \<Rightarrow> file_stat \<Rightarrow> bool" where
  "same_stat a b \<longleftrightarrow>
     st_dev a = st_dev b \<and> st_ino a = st_ino b \<and> st_size a = st_size b \<and>
     st_mtime_ns a = st_mtime_ns b \<and> st_ctime_ns a = st_ctime_ns b"

definition read_observed_regular_file :: "int \<Rightarrow> path_obs \<Rightarrow> file_stat option \<Rightarrow> bytes option" where
  "read_observed_regular_file max_bytes ob observed =
     (case observed of
        None \<Rightarrow> None
      | Some seen \<Rightarrow>
          if \<not> ob_open ob then None
          else
            (let raw =
               (case ob_fstat ob of
                  None \<Rightarrow> None
                | Some st \<Rightarrow>
                    if (st_dev st, st_ino st) \<noteq> (st_dev seen, st_ino seen) then None
                    else if \<not> st_regular st \<or> max_bytes < st_size st then None
                    else (case read_fd_capped (ob_read ob) 0 (nat (max_bytes + 1)) [] of
                        None \<Rightarrow> None
                      | Some raw \<Rightarrow>
                          if int (length raw) \<noteq> st_size st then None
                          else (case ob_fstat_after ob of
                              None \<Rightarrow> None
                            | Some after \<Rightarrow> if same_stat after st then Some raw else None)))
             in if ob_close ob then raw else None))"

datatype doc_kind = DOC_ABSENT | DOC_VALID | DOC_CORRUPT

type_synonym doc_state = "doc_kind \<times> pydict option"

definition classify_json_document :: "(bytes \<Rightarrow> pyval option) \<Rightarrow> int \<Rightarrow> path_obs \<Rightarrow> doc_state" where
  "classify_json_document dec max_bytes ob =
     (case ob_lstat ob of
        Lstat_Absent \<Rightarrow> (DOC_ABSENT, None)
      | l \<Rightarrow>
          (case read_observed_regular_file max_bytes ob (case l of Lstat st \<Rightarrow> Some st | _ \<Rightarrow> None) of
             None \<Rightarrow> (DOC_CORRUPT, None)
           | Some raw \<Rightarrow>
               (case dec raw of
                  Some (PDict p) \<Rightarrow> (DOC_VALID, Some p)
                | _ \<Rightarrow> (DOC_CORRUPT, None))))"

datatype terminal_kind = TERM_ABSENT | TERM_TRUSTED | TERM_INVALID

definition read_native_terminal_result ::
    "(rat \<Rightarrow> string) \<Rightarrow> (bytes \<Rightarrow> pyval option) \<Rightarrow> path_obs \<Rightarrow> string \<Rightarrow> terminal_kind \<times> pydict option" where
  "read_native_terminal_result fr dec ob run_id =
     (case ob_lstat ob of
        Lstat_Absent \<Rightarrow> (TERM_ABSENT, None)
      | l \<Rightarrow>
          (case read_observed_regular_file MAX_NATIVE_RESULT_SERIALIZED_BYTES ob
                  (case l of Lstat st \<Rightarrow> Some st | _ \<Rightarrow> None) of
             None \<Rightarrow> (TERM_INVALID, None)
           | Some raw \<Rightarrow>
               (case dec raw of
                  None \<Rightarrow> (TERM_INVALID, None)
                | Some v \<Rightarrow>
                    (case validate_native_terminal_result fr v run_id of
                       None \<Rightarrow> (TERM_INVALID, None)
                     | Some p \<Rightarrow> (TERM_TRUSTED, Some p)))))"

section \<open>What a valid document proves\<close>

text \<open>A descriptor over fixed contents that answers each read with a non-empty piece of arbitrary
  size while something is left.\<close>

definition serves :: "bytes \<Rightarrow> (nat \<Rightarrow> nat) \<Rightarrow> nat \<Rightarrow> nat \<Rightarrow> nat \<Rightarrow> bytes option" where
  "serves content sizes i off n = Some (take (min n (Suc (sizes i))) (drop off content))"

lemma read_fd_capped_serves:
  "length acc \<le> limit \<Longrightarrow> acc = take (length acc) content \<Longrightarrow>
   read_fd_capped (serves content sizes) i limit acc = Some (take limit content)"
proof (induction "limit - length acc" arbitrary: i acc rule: less_induct)
  case less
  let ?n = "min 65536 (limit - length acc)"
  let ?chunk = "take (min ?n (Suc (sizes i))) (drop (length acc) content)"
  show ?case
  proof (cases "length acc < limit")
    case True
    show ?thesis
    proof (cases "?chunk = []")
      case True
      then have "length content \<le> length acc" using \<open>length acc < limit\<close> by auto
      then have "take limit content = acc" using less.prems \<open>length acc < limit\<close> by simp
      with True \<open>length acc < limit\<close> show ?thesis
        by (subst read_fd_capped.simps) (simp add: serves_def)
    next
      case False
      define k where "k = length ?chunk"
      have k: "0 < k" "length acc + k \<le> limit" "?chunk = take k (drop (length acc) content)"
        using False \<open>length acc < limit\<close> by (auto simp: k_def min_def split: if_splits)
      have "acc @ ?chunk = take (length acc + k) content"
        using less.prems(2) k(3) by (simp add: take_add)
      moreover have "length (acc @ ?chunk) = length acc + k" by (simp add: k_def)
      ultimately have "read_fd_capped (serves content sizes) (Suc i) limit (acc @ ?chunk) = Some (take limit content)"
        using k \<open>length acc < limit\<close> by (intro less.hyps) simp_all
      moreover have "serves content sizes i (length acc) ?n = Some ?chunk" by (simp add: serves_def)
      ultimately show ?thesis using False \<open>length acc < limit\<close>
        by (subst read_fd_capped.simps) (simp only: if_True if_False option.simps)
    qed
  next
    case False
    then have "length acc = limit" using less.prems(1) by simp
    with less.prems(2) show ?thesis by (subst read_fd_capped.simps) simp
  qed
qed

text \<open>
  Short reads do not matter: against a file of fixed contents, however the reads are cut, the
  capped reader returns exactly the contents, up to the cap.
\<close>

theorem read_capped_exact:
  "read_fd_capped (serves content sizes) 0 limit [] = Some (take limit content)"
  by (rule read_fd_capped_serves) simp_all

lemma read_observed_Some:
  assumes "read_observed_regular_file m ob observed = Some raw"
  obtains seen st after where "observed = Some seen" "ob_fstat ob = Some st"
    "st_dev st = st_dev seen" "st_ino st = st_ino seen" "st_regular st" "st_size st \<le> m"
    "read_fd_capped (ob_read ob) 0 (nat (m + 1)) [] = Some raw" "int (length raw) = st_size st"
    "ob_fstat_after ob = Some after" "same_stat after st"
  using assms unfolding read_observed_regular_file_def Let_def
  by (auto split: option.splits if_splits)

text \<open>
  A valid classification is never a race: whenever a path is classified as a valid document,
  the path was seen, the descriptor that was read is the object that was seen, a regular file
  within the size bound, exactly as many bytes as its size were read, its identity, size and
  timestamps were the same after the read, and those bytes decode to the reported object.  Absence
  is reported only for a clean no-such-path answer.
\<close>

theorem valid_document_is_stable:
  "(classify_json_document dec m ob = (DOC_VALID, Some p) \<longrightarrow>
      (\<exists>seen st after raw. ob_lstat ob = Lstat seen \<and> ob_fstat ob = Some st \<and>
         st_dev st = st_dev seen \<and> st_ino st = st_ino seen \<and> st_regular st \<and> st_size st \<le> m \<and>
         read_fd_capped (ob_read ob) 0 (nat (m + 1)) [] = Some raw \<and> int (length raw) = st_size st \<and>
         ob_fstat_after ob = Some after \<and> same_stat after st \<and> dec raw = Some (PDict p))) \<and>
   (fst (classify_json_document dec m ob) = DOC_ABSENT \<longleftrightarrow> ob_lstat ob = Lstat_Absent)"
proof (intro conjI impI)
  assume c: "classify_json_document dec m ob = (DOC_VALID, Some p)"
  then obtain raw where raw: "read_observed_regular_file m ob
      (case ob_lstat ob of Lstat st \<Rightarrow> Some st | _ \<Rightarrow> None) = Some raw" "dec raw = Some (PDict p)"
    by (cases "read_observed_regular_file m ob (case ob_lstat ob of Lstat st \<Rightarrow> Some st | _ \<Rightarrow> None)")
       (auto simp: classify_json_document_def split: lstat_result.splits option.splits pyval.splits)
  obtain seen where l: "ob_lstat ob = Lstat seen"
    using raw(1) by (cases "ob_lstat ob") (simp_all add: read_observed_regular_file_def)
  show "\<exists>seen st after raw. ob_lstat ob = Lstat seen \<and> ob_fstat ob = Some st \<and>
         st_dev st = st_dev seen \<and> st_ino st = st_ino seen \<and> st_regular st \<and> st_size st \<le> m \<and>
         read_fd_capped (ob_read ob) 0 (nat (m + 1)) [] = Some raw \<and> int (length raw) = st_size st \<and>
         ob_fstat_after ob = Some after \<and> same_stat after st \<and> dec raw = Some (PDict p)"
    using raw(2) l by (auto intro: read_observed_Some [OF raw(1) [unfolded l lstat_result.case]])
next
  show "fst (classify_json_document dec m ob) = DOC_ABSENT \<longleftrightarrow> ob_lstat ob = Lstat_Absent"
    by (auto simp: classify_json_document_def split: lstat_result.splits option.splits pyval.splits)
qed

section \<open>Quiet paths\<close>

text \<open>
  A path as it stays during one observation: absent, unobservable, something that is not a regular
  file, a regular file no decoder accepts (or past the bound), or a stored JSON value.
\<close>

datatype dentry = Absent | Indeterminate | Not_Regular | Undecodable | Doc pyval

definition entry_shown :: "(bytes \<Rightarrow> pyval option) \<Rightarrow> int \<Rightarrow> path_obs \<Rightarrow> dentry \<Rightarrow> bool" where
  "entry_shown dec m ob d \<longleftrightarrow>
     (case d of
        Absent \<Rightarrow> ob_lstat ob = Lstat_Absent
      | Indeterminate \<Rightarrow> ob_lstat ob = Lstat_Error
      | Not_Regular \<Rightarrow> (\<exists>st. ob_lstat ob = Lstat st) \<and>
          (\<not> ob_open ob \<or> (\<exists>st. ob_fstat ob = Some st \<and> \<not> st_regular st))
      | Undecodable \<Rightarrow> (\<exists>st. ob_lstat ob = Lstat st \<and> ob_fstat ob = Some st) \<and>
          (\<forall>raw. read_fd_capped (ob_read ob) 0 (nat (m + 1)) [] = Some raw \<longrightarrow> dec raw = None)
      | Doc v \<Rightarrow> \<exists>st content sizes. ob_lstat ob = Lstat st \<and> ob_open ob \<and> ob_fstat ob = Some st \<and>
          st_regular st \<and> st_size st = int (length content) \<and> st_size st \<le> m \<and>
          ob_read ob = serves content sizes \<and> ob_fstat_after ob = Some st \<and> ob_close ob \<and>
          dec content = Some v)"

fun classify_entry :: "dentry \<Rightarrow> doc_state" where
  "classify_entry Absent = (DOC_ABSENT, None)"
| "classify_entry (Doc (PDict p)) = (DOC_VALID, Some p)"
| "classify_entry _ = (DOC_CORRUPT, None)"

definition terminal_entry :: "(rat \<Rightarrow> string) \<Rightarrow> dentry \<Rightarrow> string \<Rightarrow> terminal_kind \<times> pydict option" where
  "terminal_entry fr d run_id =
     (case d of
        Absent \<Rightarrow> (TERM_ABSENT, None)
      | Doc v \<Rightarrow> (case validate_native_terminal_result fr v run_id of
                    None \<Rightarrow> (TERM_INVALID, None) | Some p \<Rightarrow> (TERM_TRUSTED, Some p))
      | _ \<Rightarrow> (TERM_INVALID, None))"

lemma entry_shown_read:
  assumes "entry_shown dec m ob (Doc v)"
  obtains st content where "ob_lstat ob = Lstat st"
    "read_observed_regular_file m ob (Some st) = Some content" "dec content = Some v"
proof -
  obtain st content sizes where s: "ob_lstat ob = Lstat st" "ob_open ob" "ob_fstat ob = Some st"
    "st_regular st" "st_size st = int (length content)" "st_size st \<le> m"
    "ob_read ob = serves content sizes" "ob_fstat_after ob = Some st" "ob_close ob" "dec content = Some v"
    using assms by (auto simp: entry_shown_def)
  have "read_fd_capped (ob_read ob) 0 (nat (m + 1)) [] = Some content"
    using s read_fd_capped_serves [of "[]" "nat (m + 1)" content sizes 0] by simp
  with s have "read_observed_regular_file m ob (Some st) = Some content"
    by (simp add: read_observed_regular_file_def same_stat_def)
  with s that show ?thesis by blast
qed

lemma entry_shown_valid:
  "entry_shown dec m ob (Doc (PDict p)) \<Longrightarrow> classify_json_document dec m ob = (DOC_VALID, Some p)"
  by (erule entry_shown_read) (simp add: classify_json_document_def)

lemma not_regular_unread:
  "\<not> ob_open ob \<or> (\<exists>st. ob_fstat ob = Some st \<and> \<not> st_regular st) \<Longrightarrow>
   read_observed_regular_file m ob observed = None"
  by (auto simp: read_observed_regular_file_def split: option.split)

lemma undecodable_unread:
  assumes "\<forall>raw. read_fd_capped (ob_read ob) 0 (nat (m + 1)) [] = Some raw \<longrightarrow> dec raw = None"
    "read_observed_regular_file m ob observed = Some raw"
  shows "dec raw = None"
  using read_observed_Some [OF assms(2)] assms(1) by blast

text \<open>
  The readers implement the quiet-path view: for every way the system calls may answer on a path
  that stays as it is, the descriptor-level readers return exactly what the entry determines.
\<close>

theorem readers_refine_entries:
  assumes "entry_shown dec m ob d"
  shows "classify_json_document dec m ob = classify_entry d \<and>
    (m = MAX_NATIVE_RESULT_SERIALIZED_BYTES \<longrightarrow>
       read_native_terminal_result fr dec ob run_id = terminal_entry fr d run_id)"
proof (cases d)
  case (Doc v)
  with assms show ?thesis
    by (auto elim!: entry_shown_read simp: classify_json_document_def read_native_terminal_result_def
        terminal_entry_def split: pyval.split)
next
  case Absent
  with assms show ?thesis
    by (simp add: entry_shown_def classify_json_document_def read_native_terminal_result_def terminal_entry_def)
next
  case Indeterminate
  with assms show ?thesis
    by (simp add: entry_shown_def classify_json_document_def read_native_terminal_result_def terminal_entry_def
        read_observed_regular_file_def)
next
  case Not_Regular
  with assms show ?thesis
    by (auto simp: entry_shown_def classify_json_document_def read_native_terminal_result_def
        terminal_entry_def not_regular_unread)
next
  case Undecodable
  with assms obtain st where l: "ob_lstat ob = Lstat st"
    and d: "\<forall>raw. read_fd_capped (ob_read ob) 0 (nat (m + 1)) [] = Some raw \<longrightarrow> dec raw = None"
    by (auto simp: entry_shown_def)
  have "dec raw = None" if "read_observed_regular_file m ob (Some st) = Some raw" for raw
    using undecodable_unread [OF d that] .
  with Undecodable l show ?thesis
    by (cases "read_observed_regular_file m ob (Some st)")
       (auto simp: classify_json_document_def read_native_terminal_result_def terminal_entry_def)
qed


section \<open>A concrete observation\<close>

definition demo_stat :: file_stat where
  "demo_stat = \<lparr>st_dev = 1, st_ino = 2, st_regular = True, st_size = 2, st_mtime_ns = 3, st_ctime_ns = 4\<rparr>"

definition demo_obs :: path_obs where
  "demo_obs = \<lparr>ob_lstat = Lstat demo_stat, ob_open = True, ob_fstat = Some demo_stat,
     ob_read = serves [0x7B, 0x7D] (\<lambda>_. 0), ob_fstat_after = Some demo_stat, ob_close = True\<rparr>"

definition demo_dec :: "bytes \<Rightarrow> pyval option" where
  "demo_dec raw = (if raw = [0x7B, 0x7D] then Some (PDict []) else None)"

lemma demo_obs_shown: "2 \<le> m \<Longrightarrow> entry_shown demo_dec m demo_obs (Doc (PDict []))"
  by (auto simp: entry_shown_def demo_obs_def demo_dec_def demo_stat_def)

theorem valid_document_is_stable_witness:
  "\<exists>raw. read_fd_capped (ob_read demo_obs) 0 101 [] = Some raw \<and> demo_dec raw = Some (PDict [])"
proof -
  have "classify_json_document demo_dec 100 demo_obs = (DOC_VALID, Some [])"
    by (simp add: entry_shown_valid demo_obs_shown)
  with valid_document_is_stable [of demo_dec 100 demo_obs "[]"] show ?thesis by auto
qed

theorem readers_refine_entries_witness:
  "classify_json_document demo_dec MAX_NATIVE_RESULT_SERIALIZED_BYTES demo_obs = (DOC_VALID, Some []) \<and>
   read_native_terminal_result (\<lambda>_. []) demo_dec demo_obs ''r'' = (TERM_INVALID, None)"
proof -
  have "terminal_entry (\<lambda>_. []) (Doc (PDict [])) ''r'' = (TERM_INVALID, None)" by code_simp
  with readers_refine_entries [OF demo_obs_shown, of MAX_NATIVE_RESULT_SERIALIZED_BYTES "\<lambda>_. []" "''r''"]
  show ?thesis by (simp add: MAX_NATIVE_RESULT_SERIALIZED_BYTES_def)
qed

end
