(* ===== verification/Session_Record.thy ===== *)
theory Session_Record
  imports Storage
begin

text \<open>
  Session records, \<^verbatim>\<open>session.py\<close>: identifiers, quarantine evidence, the persisted form of
  \<^verbatim>\<open>SessionRecord\<close>, its strict validation and the binding gate.  A
  \<^verbatim>\<open>SessionRecord\<close> is its attribute dictionary in field order; \<open>sha\<close> stands for
  \<^verbatim>\<open>hashlib.sha256(...).hexdigest()\<close>.
\<close>

section \<open>Errors and identifiers\<close>

datatype session_error =
    InvalidSessionIdError
  | SessionExistsError
  | SessionNotFoundError
  | SessionBindingError "string list"
  | SessionRecordInvalidError "string list"
  | SessionLockError
  | SessionQuarantinedError
  | Value_Error
  | Type_Error
  | Key_Error
  | Attribute_Error
  | Overflow_Error
  | OS_Error

definition SCHEMA_VERSION :: int where
  "SCHEMA_VERSION = (1 :: int)"

definition DEFAULT_SESSION_LEASE_SECONDS :: int where
  "DEFAULT_SESSION_LEASE_SECONDS = (900 :: int)"

definition SESSION_KIND_NATIVE :: string where
  "SESSION_KIND_NATIVE = ''native''"

text \<open>\<^verbatim>\<open>SESSION_ID_PATTERN\<close>, full match.\<close>

definition session_id_ok :: "string \<Rightarrow> bool" where
  "session_id_ok s \<longleftrightarrow>
     (case s of [] \<Rightarrow> False
      | c # cs \<Rightarrow> alnum c \<and> list_all (\<lambda>x. alnum x \<or> x = CHR ''_'' \<or> x = CHR ''-'') cs)"

fun is_valid_session_id :: "pyval \<Rightarrow> bool" where
  "is_valid_session_id (PStr s) = session_id_ok s"
| "is_valid_session_id _ = False"

text \<open>Python's \<^verbatim>\<open>b"..\\x00"\<close> tag in front of the run id.\<close>

definition session_id_tag :: string where
  "session_id_tag = ''ars-session-id-v1'' @ [CHR 0x00]"

definition derive_session_id_for_run :: "(string \<Rightarrow> string) \<Rightarrow> string \<Rightarrow> session_error + string" where
  "derive_session_id_for_run sha run_id =
     (if run_id = [] then Inl InvalidSessionIdError
      else Inr (''sess-'' @ take 32 (sha (session_id_tag @ run_id))))"

definition hex_digit :: "char \<Rightarrow> bool" where
  "hex_digit c \<longleftrightarrow> digit c \<or> CHR ''a'' \<le> c \<and> c \<le> CHR ''f''"

text \<open>The documented shape of a SHA-256 hex digest.\<close>

definition hex_digest :: "(string \<Rightarrow> string) \<Rightarrow> bool" where
  "hex_digest sha \<longleftrightarrow> (\<forall>s. length (sha s) = 64 \<and> list_all hex_digit (sha s))"

lemma hex_digit_alnum: "hex_digit c \<Longrightarrow> alnum c"
  by (auto simp: hex_digit_def alnum_def lower_alpha_def intro: order_trans)

lemma derived_session_id_ok:
  assumes "hex_digest sha" "derive_session_id_for_run sha run_id = Inr sid"
  shows "session_id_ok sid" "length sid = 37"
proof -
  have h: "length (sha (session_id_tag @ run_id)) = 64" "list_all hex_digit (sha (session_id_tag @ run_id))"
    using assms(1) by (auto simp: hex_digest_def)
  from assms(2) have sid: "sid = ''sess-'' @ take 32 (sha (session_id_tag @ run_id))"
    by (simp add: derive_session_id_for_run_def split: if_splits)
  have "\<forall>c \<in> set (take 32 (sha (session_id_tag @ run_id))). alnum c"
    using h(2) by (auto simp: list_all_iff dest: in_set_takeD intro: hex_digit_alnum)
  moreover have "alnum (CHR ''s'')" "alnum (CHR ''e'')" by code_simp+
  ultimately show "session_id_ok sid" "length sid = 37"
    using h(1) by (simp_all add: sid session_id_ok_def list_all_iff)
qed

text \<open>
  A derived Session id is always a safe path component of fixed length, different runs being
  separated by the tagged digest only: nothing of the caller's text reaches the path.
\<close>

theorem derived_session_id_safe:
  assumes "hex_digest sha" "derive_session_id_for_run sha run_id = Inr sid"
  shows "is_valid_session_id (PStr sid) \<and> length sid = 37"
  using derived_session_id_ok [OF assms] by simp

theorem derived_session_id_safe_witness:
  "is_valid_session_id (PStr (''sess-'' @ replicate 32 (CHR ''0'')))"
proof -
  have "hex_digest (\<lambda>_. replicate 64 (CHR ''0''))"
    by (simp add: hex_digest_def list_all_iff hex_digit_def digit_def)
  moreover have "derive_session_id_for_run (\<lambda>_. replicate 64 (CHR ''0'')) ''r'' =
      Inr (''sess-'' @ replicate 32 (CHR ''0''))"
    by (simp add: derive_session_id_for_run_def)
  ultimately show ?thesis using derived_session_id_safe by blast
qed

section \<open>Quarantine evidence\<close>

definition QUARANTINE_REASON_CODES :: "string list" where
  "QUARANTINE_REASON_CODES =
     [''DISPATCH_OBSERVATION_LOST'', ''DISPATCH_WITHOUT_TRUSTWORTHY_TERMINAL'',
      ''UNTRUSTED_TERMINAL_EVIDENCE'', ''SWITCH_ROLLBACK_UNPROVEN'',
      ''RECONCILED_DISPATCH_WITHOUT_TERMINAL'']"

definition build_quarantine_evidence :: "string \<Rightarrow> string \<Rightarrow> string \<Rightarrow> session_error + pydict" where
  "build_quarantine_evidence reason_code run_id recorded_at =
     (if reason_code \<notin> set QUARANTINE_REASON_CODES then Inl Value_Error
      else if run_id = [] then Inl Value_Error
      else Inr [(''reason_code'', PStr reason_code), (''source_run_id'', PStr run_id),
                (''recorded_at'', PStr recorded_at)])"

definition QUARANTINE_EVIDENCE_FIELDS :: "string list" where
  "QUARANTINE_EVIDENCE_FIELDS = [''reason_code'', ''source_run_id'', ''recorded_at'']"

fun quarantine_is_exact :: "pyval \<Rightarrow> bool" where
  "quarantine_is_exact PNone = True"
| "quarantine_is_exact (PDict q) =
     (set (map fst q) = set QUARANTINE_EVIDENCE_FIELDS \<and>
      dget q ''reason_code'' \<in> set (map PStr QUARANTINE_REASON_CODES) \<and>
      nonempty_str (dget q ''source_run_id'') \<and> nonempty_str (dget q ''recorded_at''))"
| "quarantine_is_exact _ = False"

lemma built_evidence_exact:
  "build_quarantine_evidence reason run_id moment = Inr q \<Longrightarrow> moment \<noteq> [] \<Longrightarrow> quarantine_is_exact (PDict q)"
  by (auto simp: build_quarantine_evidence_def QUARANTINE_EVIDENCE_FIELDS_def dget_def
      nonempty_str_def split: if_splits)

section \<open>The persisted record\<close>

definition DECLARED_RECORD_FIELDS :: "string list" where
  "DECLARED_RECORD_FIELDS =
     [''schema_version'', ''session_id'', ''role_id'', ''role_hash'', ''workspace_hash'',
      ''policy_hash'', ''adapter_agent'', ''effective_cwd'', ''matched_root'', ''created_at'',
      ''updated_at'', ''session_name'', ''mcp_config_path'', ''mcp_config_sha256'',
      ''session_kind'', ''native_profile_id'', ''native_profile_revision'',
      ''native_profile_hash'', ''agent_session_id'', ''owner'', ''namespace'',
      ''last_effective_model'', ''last_effective_effort'', ''quarantine'', ''native_agent_id'',
      ''native_session_epoch'', ''native_last_agent_info_name'',
      ''native_last_agent_info_version'', ''native_last_advertised_capabilities'',
      ''native_adapter_contract_hash'', ''session_compatibility_epoch'',
      ''native_agent_registration_hash'']"

definition LEGACY_ONLY_FIELDS :: "string list" where
  "LEGACY_ONLY_FIELDS = [''role_id'', ''role_hash'', ''policy_hash'', ''adapter_agent'']"

definition NATIVE_FIELDS :: "string list" where
  "NATIVE_FIELDS =
     [''session_kind'', ''native_profile_id'', ''native_profile_revision'', ''native_profile_hash'',
      ''native_adapter_contract_hash'', ''agent_session_id'', ''owner'', ''namespace'',
      ''last_effective_model'', ''last_effective_effort'', ''session_compatibility_epoch'',
      ''native_agent_id'', ''native_agent_registration_hash'', ''native_session_epoch'',
      ''native_last_agent_info_name'', ''native_last_agent_info_version'',
      ''native_last_advertised_capabilities'']"

definition LEGACY_SESSION_IDENTITY_FIELDS :: "string list" where
  "LEGACY_SESSION_IDENTITY_FIELDS =
     [''native_adapter_contract_hash'', ''session_compatibility_epoch'', ''native_agent_registration_hash'']"

type_synonym session_record = pydict

text \<open>An instance with the given attributes, every other declared field at its default.\<close>

definition new_record :: "pydict \<Rightarrow> session_record" where
  "new_record attrs = map (\<lambda>k. (k, dget attrs k)) DECLARED_RECORD_FIELDS"

definition del_when :: "(string \<Rightarrow> bool) \<Rightarrow> pydict \<Rightarrow> pydict" where
  "del_when dropped d = filter (\<lambda>p. \<not> dropped (fst p)) d"

definition record_to_dict :: "session_record \<Rightarrow> pydict" where
  "record_to_dict r =
     (let d1 = (if dget r ''mcp_config_path'' = PNone \<and> dget r ''mcp_config_sha256'' = PNone
                then ddel ''mcp_config_sha256'' (ddel ''mcp_config_path'' r) else r);
          d2 = (if dget r ''quarantine'' = PNone then ddel ''quarantine'' d1 else d1)
      in if dget r ''session_kind'' = PStr SESSION_KIND_NATIVE then
           (let d3 = del_when (\<lambda>k. k \<in> set LEGACY_ONLY_FIELDS) d2;
                d4 = (if dget r ''session_name'' = PNone then ddel ''session_name'' d3 else d3)
            in del_when (\<lambda>k. k \<in> set NATIVE_FIELDS \<and> dget r k = PNone) d4)
         else del_when (\<lambda>k. k \<in> set NATIVE_FIELDS) d2)"

definition record_from_dict :: "pyval \<Rightarrow> session_error + session_record" where
  "record_from_dict v =
     (case v of
        PDict d \<Rightarrow>
          if list_all (\<lambda>k. k \<in> set DECLARED_RECORD_FIELDS) (map fst d) then Inr (new_record d)
          else Inl (SessionRecordInvalidError
                 (sort (filter (\<lambda>k. k \<notin> set DECLARED_RECORD_FIELDS) (map fst d))))
      | _ \<Rightarrow> Inl (SessionRecordInvalidError []))"

lemma dget_del_when: "dget (del_when f d) k = (if f k then PNone else dget d k)"
proof -
  have "map_of (del_when f d) k = (if f k then None else map_of d k)"
    by (induction d) (auto simp: del_when_def)
  then show ?thesis by (simp add: dget_def)
qed

lemma keys_del: "set (map fst (del_when f d)) \<subseteq> set (map fst d)" "set (map fst (ddel k d)) \<subseteq> set (map fst d)"
  by (auto simp: del_when_def ddel_def)

lemma record_to_dict_keys: "set (map fst (record_to_dict r)) \<subseteq> set (map fst r)"
  unfolding record_to_dict_def Let_def using keys_del by (auto simp del: set_map split: if_splits) blast+

text \<open>A well-formed instance: exactly the declared attributes.\<close>

definition record_wf :: "session_record \<Rightarrow> bool" where
  "record_wf r \<longleftrightarrow> map fst r = DECLARED_RECORD_FIELDS"

lemma declared_distinct: "distinct DECLARED_RECORD_FIELDS"
  by (simp add: DECLARED_RECORD_FIELDS_def)

lemma record_wf_new: "record_wf r \<Longrightarrow> new_record r = r"
proof -
  assume w: "record_wf r"
  then have d: "distinct (map fst r)" using declared_distinct by (simp add: record_wf_def)
  have "map (\<lambda>p. (fst p, dget r (fst p))) r = r"
  proof (rule map_idI)
    fix p assume "p \<in> set r"
    then have "map_of r (fst p) = Some (snd p)" using d by (simp add: map_of_is_SomeI)
    then show "(fst p, dget r (fst p)) = p" by (simp add: dget_def)
  qed
  moreover have "new_record r = map (\<lambda>p. (fst p, dget r (fst p))) r"
    unfolding new_record_def w [unfolded record_wf_def, symmetric] by simp
  ultimately show ?thesis by simp
qed

lemma native_roundtrip:
  assumes "record_wf r" "dget r ''session_kind'' = PStr SESSION_KIND_NATIVE"
    "list_all (\<lambda>k. dget r k = PNone) LEGACY_ONLY_FIELDS"
  shows "record_from_dict (PDict (record_to_dict r)) = Inr r"
proof -
  have "dget (record_to_dict r) k = dget r k" for k
    using assms(2,3)
    by (auto simp: record_to_dict_def Let_def dget_del_when dget_ddel list_all_iff)
  then have "new_record (record_to_dict r) = r"
    using record_wf_new [OF assms(1)] by (simp add: new_record_def)
  moreover have "set (map fst (record_to_dict r)) \<subseteq> set DECLARED_RECORD_FIELDS"
    using record_to_dict_keys [of r] assms(1) by (simp add: record_wf_def del: set_map)
  ultimately show ?thesis by (auto simp: record_from_dict_def list_all_iff)
qed

text \<open>
  Persisting a native record loses nothing: a record whose pre-reset fields are unset is read
  back exactly as it was, although unset optional fields are omitted from the file.
\<close>

theorem record_roundtrip:
  assumes "record_wf r" "dget r ''session_kind'' = PStr SESSION_KIND_NATIVE"
    "list_all (\<lambda>k. dget r k = PNone) LEGACY_ONLY_FIELDS"
  shows "record_from_dict (PDict (record_to_dict r)) = Inr r"
  by (rule native_roundtrip [OF assms])

definition demo_record :: session_record where
  "demo_record = new_record
     [(''schema_version'', PInt 1), (''session_id'', PStr ''s1''), (''session_kind'', PStr ''native''),
      (''owner'', PStr ''o''), (''namespace'', PStr ''n''), (''workspace_hash'', PStr ''w''),
      (''native_profile_id'', PStr ''p''), (''native_profile_hash'', PStr ''h''),
      (''native_profile_revision'', PInt 3), (''agent_session_id'', PStr ''a'')]"

theorem record_roundtrip_witness:
  "record_from_dict (PDict (record_to_dict demo_record)) = Inr demo_record \<and>
   length (record_to_dict demo_record) = 14"
proof -
  have "record_wf demo_record" "dget demo_record ''session_kind'' = PStr SESSION_KIND_NATIVE"
    "list_all (\<lambda>k. dget demo_record k = PNone) LEGACY_ONLY_FIELDS"
    "length (record_to_dict demo_record) = 14"
    by code_simp+
  then show ?thesis using record_roundtrip by blast
qed

section \<open>Validation and binding\<close>

definition validate_native_session_record :: "session_record \<Rightarrow> string \<Rightarrow> string list" where
  "validate_native_session_record r expected =
     (if \<not> py_eq_int (dget r ''schema_version'') SCHEMA_VERSION then [''schema_version''] else []) @
     (if \<not> nonempty_str (dget r ''session_id'') then [''session_id'']
      else if dget r ''session_id'' \<noteq> PStr expected then [''session_id_conflict''] else []) @
     (if dget r ''session_kind'' \<noteq> PStr SESSION_KIND_NATIVE then [''session_kind''] else []) @
     (if \<not> quarantine_is_exact (dget r ''quarantine'') then [''quarantine''] else []) @
     filter (\<lambda>k. \<not> nonempty_str (dget r k)) [''owner'', ''namespace'', ''workspace_hash''] @
     filter (\<lambda>k. \<not> nonempty_str (dget r k)) [''native_profile_id'', ''native_profile_hash''] @
     (if \<not> plain_int (dget r ''native_profile_revision'') then [''native_profile_revision''] else []) @
     (if dget r ''agent_session_id'' \<noteq> PNone \<and> \<not> nonempty_str (dget r ''agent_session_id'')
      then [''agent_session_id''] else [])"

text \<open>
  \<^verbatim>\<open>validate_native_binding\<close>: the run's identity is the record \<open>run_identity\<close>; the
  comparison \<^verbatim>\<open>!=\<close> of a stored integer accepts every value equal to it.
\<close>

record run_identity =
  ri_profile_id :: string
  ri_profile_revision :: int
  ri_profile_hash :: string
  ri_workspace_hash :: string
  ri_owner :: string
  ri_namespace :: string
  ri_agent_id :: "string option"
  ri_epoch :: "int option"

fun py_eq_int_opt :: "pyval \<Rightarrow> int option \<Rightarrow> bool" where
  "py_eq_int_opt v None = (v = PNone)"
| "py_eq_int_opt v (Some n) = py_eq_int v n"

definition binding_mismatches :: "session_record \<Rightarrow> run_identity \<Rightarrow> bool \<Rightarrow> string list" where
  "binding_mismatches r i for_load =
     (if dget r ''native_profile_id'' \<noteq> PStr (ri_profile_id i) then [''profile_id''] else []) @
     (if \<not> py_eq_int (dget r ''native_profile_revision'') (ri_profile_revision i)
      then [''profile_revision''] else []) @
     (if dget r ''native_profile_hash'' \<noteq> PStr (ri_profile_hash i) then [''profile_hash''] else []) @
     (if dget r ''workspace_hash'' \<noteq> PStr (ri_workspace_hash i) then [''workspace_hash''] else []) @
     (if dget r ''owner'' \<noteq> PStr (ri_owner i) then [''owner''] else []) @
     (if dget r ''namespace'' \<noteq> PStr (ri_namespace i) then [''namespace''] else []) @
     (if dget r ''native_agent_id'' \<noteq> pstr_opt (ri_agent_id i) then [''agent_id''] else []) @
     (if \<not> py_eq_int_opt (dget r ''native_session_epoch'') (ri_epoch i) then [''session_epoch''] else []) @
     (if for_load \<and> dget r ''agent_session_id'' = PNone then [''agent_session_id_missing''] else [])"

definition validate_native_binding :: "session_record \<Rightarrow> run_identity \<Rightarrow> bool \<Rightarrow> session_error + unit" where
  "validate_native_binding r i for_load =
     (if dget r ''quarantine'' \<noteq> PNone then Inl SessionQuarantinedError
      else if dget r ''session_kind'' \<noteq> PStr SESSION_KIND_NATIVE then Inl (SessionBindingError [])
      else let legacy = filter (\<lambda>k. dget r k \<noteq> PNone) LEGACY_SESSION_IDENTITY_FIELDS in
        if legacy \<noteq> [] then Inl (SessionBindingError legacy)
        else let ms = binding_mismatches r i for_load in
          if ms \<noteq> [] then Inl (SessionBindingError ms) else Inr ())"

text \<open>
  The binding gate admits exactly the recorded identity: a record binds to a run if and only if
  it carries no quarantine evidence and no retired identity field, is native, agrees with the run
  on every identity component, the epoch symmetrically (present on both sides and equal, or absent
  on both), and, for a load, has an agent session.
\<close>

theorem binding_gate_exact:
  "validate_native_binding r i for_load = Inr () \<longleftrightarrow>
     dget r ''quarantine'' = PNone \<and> dget r ''session_kind'' = PStr SESSION_KIND_NATIVE \<and>
     list_all (\<lambda>k. dget r k = PNone) LEGACY_SESSION_IDENTITY_FIELDS \<and>
     dget r ''native_profile_id'' = PStr (ri_profile_id i) \<and>
     py_eq_int (dget r ''native_profile_revision'') (ri_profile_revision i) \<and>
     dget r ''native_profile_hash'' = PStr (ri_profile_hash i) \<and>
     dget r ''workspace_hash'' = PStr (ri_workspace_hash i) \<and>
     dget r ''owner'' = PStr (ri_owner i) \<and> dget r ''namespace'' = PStr (ri_namespace i) \<and>
     dget r ''native_agent_id'' = pstr_opt (ri_agent_id i) \<and>
     (case ri_epoch i of None \<Rightarrow> dget r ''native_session_epoch'' = PNone
      | Some n \<Rightarrow> py_eq_int (dget r ''native_session_epoch'') n) \<and>
     \<not> (for_load \<and> dget r ''agent_session_id'' = PNone)"
proof -
  have "binding_mismatches r i for_load = [] \<longleftrightarrow>
     dget r ''native_profile_id'' = PStr (ri_profile_id i) \<and>
     py_eq_int (dget r ''native_profile_revision'') (ri_profile_revision i) \<and>
     dget r ''native_profile_hash'' = PStr (ri_profile_hash i) \<and>
     dget r ''workspace_hash'' = PStr (ri_workspace_hash i) \<and>
     dget r ''owner'' = PStr (ri_owner i) \<and> dget r ''namespace'' = PStr (ri_namespace i) \<and>
     dget r ''native_agent_id'' = pstr_opt (ri_agent_id i) \<and>
     py_eq_int_opt (dget r ''native_session_epoch'') (ri_epoch i) \<and>
     \<not> (for_load \<and> dget r ''agent_session_id'' = PNone)"
    by (simp add: binding_mismatches_def)
  moreover have "py_eq_int_opt v e \<longleftrightarrow> (case e of None \<Rightarrow> v = PNone | Some n \<Rightarrow> py_eq_int v n)" for v e
    by (cases e) simp_all
  ultimately show ?thesis
    by (auto simp: validate_native_binding_def Let_def filter_empty_conv list_all_iff)
qed

end
