(* ===== verification/Process_Liveness.thy ===== *)
theory Process_Liveness
  imports ARS_Prelude
begin

text \<open>
  Liveness classification of a recorded lease holder, \<^verbatim>\<open>process_liveness.py\<close>.

  The injection seam \<^verbatim>\<open>LivenessProbe\<close> is the record \<open>probe\<close>; a signal
  that raises is \<^const>\<open>None\<close> in \<open>is_running\<close>, and the classification then
  raises too (\<^const>\<open>None\<close>).  The production probe is built from \<open>os_view\<close>,
  what the operating system answers: the result of \<^verbatim>\<open>os.kill(pid, 0)\<close>, the text of
  \<^verbatim>\<open>/proc/<pid>/stat\<close>, the boot id file, the host name and the own pid.
\<close>

section \<open>Identities and probes\<close>

datatype liveness = ALIVE | CRASHED | UNKNOWN

record process_identity =
  id_pid :: int
  id_process_start :: "string option"
  id_boot_id :: "string option"
  id_host :: string

record probe =
  is_running :: "int \<Rightarrow> bool option option" \<comment> \<open>\<^const>\<open>None\<close>: the call raised\<close>
  read_start :: "int \<Rightarrow> string option"
  current :: process_identity

text \<open>\<^verbatim>\<open>_valid_pid\<close>, as the pid itself when usable.\<close>

fun valid_pid :: "pyval \<Rightarrow> int option" where
  "valid_pid (PInt n) = (if 0 < n then Some n else None)"
| "valid_pid _ = None"

section \<open>The production probe\<close>

datatype kill_result = Kill_Ok | Kill_ProcessLookup | Kill_Permission | Kill_OSError

record os_view =
  kill0 :: "int \<Rightarrow> kill_result"
  proc_stat :: "int \<Rightarrow> string option" \<comment> \<open>\<^const>\<open>None\<close>: the open or read failed\<close>
  boot_id_text :: "string option"
  hostname :: string
  getpid :: int

text \<open>
  \<^verbatim>\<open>os.kill\<close> converts the pid to a C \<^verbatim>\<open>int\<close>: a larger one raises
  \<^verbatim>\<open>OverflowError\<close>, which is not an \<^verbatim>\<open>OSError\<close>.
\<close>

definition pid_is_running :: "os_view \<Rightarrow> int \<Rightarrow> bool option option" where
  "pid_is_running os pid =
     (if valid_pid (PInt pid) = None then Some None
      else if 2 ^ 31 \<le> pid then None
      else (case kill0 os pid of
              Kill_ProcessLookup \<Rightarrow> Some (Some False)
            | Kill_Permission \<Rightarrow> Some (Some True)
            | Kill_OSError \<Rightarrow> Some None
            | Kill_Ok \<Rightarrow> Some (Some True)))"

text \<open>\<^verbatim>\<open>str.rpartition\<close>, \<^verbatim>\<open>str.split()\<close> and \<^verbatim>\<open>str.strip()\<close>.\<close>

fun after_last :: "char \<Rightarrow> string \<Rightarrow> string option" where
  "after_last c [] = None"
| "after_last c (x # xs) =
     (case after_last c xs of Some r \<Rightarrow> Some r | None \<Rightarrow> if x = c then Some xs else None)"

definition py_space :: "char \<Rightarrow> bool" where
  "py_space c \<longleftrightarrow>
     (let n = (of_char c :: nat) in 9 \<le> n \<and> n \<le> 13 \<or> 28 \<le> n \<and> n \<le> 32 \<or> n = 133 \<or> n = 160)"

function split_fields :: "string \<Rightarrow> string list" where
  "split_fields s =
     (case dropWhile py_space s of
        [] \<Rightarrow> []
      | c # r \<Rightarrow> takeWhile (Not \<circ> py_space) (c # r) #
                 split_fields (dropWhile (Not \<circ> py_space) (c # r)))"
  by pat_completeness auto
termination
proof (relation "measure length", simp)
  fix s :: string and c r
  assume "dropWhile py_space s = c # r"
  then have "\<not> py_space c" "length (c # r) \<le> length s"
    by (metis hd_dropWhile list.distinct(1) list.sel(1), metis length_dropWhile_le)
  then show "(dropWhile (Not \<circ> py_space) (c # r), s) \<in> measure length"
    using length_dropWhile_le [of "Not \<circ> py_space" r] by simp
qed

declare split_fields.simps [simp del]

definition strip :: "string \<Rightarrow> string" where
  "strip s = rev (dropWhile py_space (rev (dropWhile py_space s)))"

definition parse_stat_start :: "string \<Rightarrow> string option" where
  "parse_stat_start content =
     (case after_last (CHR '')'') content of
        None \<Rightarrow> None
      | Some rest \<Rightarrow>
          (let fields = split_fields rest in
           if length fields < 20 then None else Some (fields ! 19)))"

definition read_process_start :: "os_view \<Rightarrow> int \<Rightarrow> string option" where
  "read_process_start os pid =
     (if valid_pid (PInt pid) = None then None
      else (case proc_stat os pid of None \<Rightarrow> None | Some content \<Rightarrow> parse_stat_start content))"

definition read_boot_id :: "os_view \<Rightarrow> string option" where
  "read_boot_id os =
     (case boot_id_text os of None \<Rightarrow> None
      | Some t \<Rightarrow> if strip t = [] then None else Some (strip t))"

definition identity_for_pid :: "os_view \<Rightarrow> int \<Rightarrow> process_identity" where
  "identity_for_pid os pid =
     \<lparr>id_pid = pid, id_process_start = read_process_start os pid, id_boot_id = read_boot_id os,
      id_host = hostname os\<rparr>"

definition current_identity :: "os_view \<Rightarrow> process_identity" where
  "current_identity os = identity_for_pid os (getpid os)"

definition REAL_PROBE :: "os_view \<Rightarrow> probe" where
  "REAL_PROBE os =
     \<lparr>is_running = pid_is_running os, read_start = read_process_start os,
      current = current_identity os\<rparr>"

section \<open>Classification\<close>

definition classify_holder :: "probe \<Rightarrow> pydict \<Rightarrow> liveness option" where
  "classify_holder p holder =
     (case valid_pid (dget holder ''pid'') of
        None \<Rightarrow> Some UNKNOWN
      | Some pid \<Rightarrow>
          (let host = dget holder ''host'' in
           if \<not> py_truth host \<or> host \<noteq> PStr (id_host (current p)) then Some UNKNOWN
           else let boot = dget holder ''boot_id''; cur = pstr_opt (id_boot_id (current p)) in
             if py_truth boot \<and> py_truth cur \<and> boot \<noteq> cur then Some CRASHED
             else (case is_running p pid of
                     None \<Rightarrow> None
                   | Some (Some False) \<Rightarrow> Some CRASHED
                   | Some None \<Rightarrow> Some UNKNOWN
                   | Some (Some True) \<Rightarrow>
                       (let hs = dget holder ''process_start''; cs = pstr_opt (read_start p pid) in
                        if py_truth hs \<and> py_truth cs
                        then Some (if hs = cs then ALIVE else CRASHED)
                        else Some UNKNOWN))))"

definition child_holder_view :: "pydict \<Rightarrow> pydict option" where
  "child_holder_view lock_data =
     (if dget lock_data ''child_pid'' = PNone then None
      else Some [(''pid'', dget lock_data ''child_pid''),
                 (''process_start'', dget lock_data ''child_process_start''),
                 (''boot_id'', dget lock_data ''child_boot_id''),
                 (''host'', dget lock_data ''child_host'')])"

fun combine_liveness :: "liveness \<Rightarrow> liveness \<Rightarrow> liveness" where
  "combine_liveness supervisor child =
     (if supervisor = ALIVE \<or> child = ALIVE then ALIVE
      else if supervisor = CRASHED \<and> child = CRASHED then CRASHED
      else UNKNOWN)"

definition classify_lock :: "probe \<Rightarrow> pydict \<Rightarrow> liveness option" where
  "classify_lock p lock_data =
     (case classify_holder p lock_data of
        None \<Rightarrow> None
      | Some supervisor \<Rightarrow>
          (case child_holder_view lock_data of
             None \<Rightarrow> Some supervisor
           | Some view \<Rightarrow>
               (case classify_holder p view of
                  None \<Rightarrow> None
                | Some child \<Rightarrow> Some (combine_liveness supervisor child))))"

section \<open>A sound probe never declares a live holder crashed\<close>

text \<open>
  What a probe promises about the processes that really run: it never reports a running pid
  absent, and any start time or boot id it reports is the true one.
\<close>

locale sound_probe =
  fixes p :: probe
    and alive :: "int \<Rightarrow> string \<Rightarrow> bool" \<comment> \<open>pid and start time of the running processes\<close>
    and boot :: string \<comment> \<open>the boot the host is in\<close>
  assumes running_sound: "alive pid start \<Longrightarrow> is_running p pid \<noteq> Some (Some False)"
    and start_sound: "alive pid start \<Longrightarrow> read_start p pid = Some s \<Longrightarrow> s = start"
    and boot_sound: "id_boot_id (current p) = Some b \<Longrightarrow> b = boot"
begin

text \<open>The recorded identity of a process alive in this boot, whatever host it names.\<close>

definition describes_live :: "pydict \<Rightarrow> bool" where
  "describes_live holder \<longleftrightarrow>
     (\<exists>pid start. dget holder ''pid'' = PInt pid \<and> alive pid start \<and>
        dget holder ''process_start'' \<in> {PNone, PStr start} \<and>
        dget holder ''boot_id'' \<in> {PNone, PStr boot})"

lemma live_not_crashed:
  assumes "describes_live holder" shows "classify_holder p holder \<noteq> Some CRASHED"
proof -
  from assms obtain pid start where h: "dget holder ''pid'' = PInt pid" "alive pid start"
    "dget holder ''process_start'' \<in> {PNone, PStr start}" "dget holder ''boot_id'' \<in> {PNone, PStr boot}"
    by (auto simp: describes_live_def)
  have "\<not> (py_truth (dget holder ''boot_id'') \<and> dget holder ''boot_id'' \<noteq> pstr_opt (id_boot_id (current p)) \<and>
      py_truth (pstr_opt (id_boot_id (current p))))"
    using h(4) boot_sound by (cases "id_boot_id (current p)") auto
  moreover have "\<not> (py_truth (dget holder ''process_start'') \<and> py_truth (pstr_opt (read_start p pid)) \<and>
      dget holder ''process_start'' \<noteq> pstr_opt (read_start p pid))"
    using h(3) start_sound [OF h(2)] by (cases "read_start p pid") auto
  ultimately show ?thesis
    using h(1) running_sound [OF h(2)]
    by (auto simp: classify_holder_def Let_def split: option.splits bool.splits if_splits)
qed

lemma lock_crashed_both_dead:
  assumes "classify_lock p lock = Some CRASHED"
  shows "\<not> describes_live lock \<and> (\<forall>view. child_holder_view lock = Some view \<longrightarrow> \<not> describes_live view)"
  using assms live_not_crashed
  by (auto simp: classify_lock_def split: option.splits if_splits)

end


section \<open>The production probe is sound\<close>

text \<open>A process the operating system shows: \<^verbatim>\<open>kill\<close> does not report its pid absent, and
  its stat line, when readable, carries its start time.\<close>

definition os_alive :: "os_view \<Rightarrow> int \<Rightarrow> string \<Rightarrow> bool" where
  "os_alive os pid start \<longleftrightarrow>
     kill0 os pid \<noteq> Kill_ProcessLookup \<and>
     (case read_process_start os pid of None \<Rightarrow> True | Some s \<Rightarrow> s = start)"

definition holder_lives :: "os_view \<Rightarrow> pydict \<Rightarrow> bool" where
  "holder_lives os holder \<longleftrightarrow>
     (\<exists>pid start. dget holder ''pid'' = PInt pid \<and> os_alive os pid start \<and>
        dget holder ''process_start'' \<in> {PNone, PStr start} \<and>
        dget holder ''boot_id'' \<in> {PNone, PStr (the (read_boot_id os))})"

interpretation real: sound_probe "REAL_PROBE os" "os_alive os" "the (read_boot_id os)" for os
  by unfold_locales
    (auto simp: REAL_PROBE_def os_alive_def pid_is_running_def current_identity_def
      identity_for_pid_def split: kill_result.splits if_splits)

lemma crashed_lock_no_live:
  assumes "classify_lock (REAL_PROBE os) lock = Some CRASHED"
  shows "\<not> holder_lives os lock \<and>
    (case child_holder_view lock of None \<Rightarrow> True | Some view \<Rightarrow> \<not> holder_lives os view)"
proof -
  have "holder_lives os h = real.describes_live os h" for h
    by (simp add: holder_lives_def real.describes_live_def)
  then show ?thesis using real.lock_crashed_both_dead [OF assms] by (simp split: option.splits)
qed

text \<open>
  A live holder is never reclaimed: when the production probe classifies a lock as crashed, the
  recorded supervisor is not a running process of this boot, and neither is the recorded child,
  if there is one.
\<close>

theorem crashed_lock_has_no_live_holder:
  assumes "classify_lock (REAL_PROBE os) lock = Some CRASHED"
  shows "\<not> holder_lives os lock \<and>
    (case child_holder_view lock of None \<Rightarrow> True | Some view \<Rightarrow> \<not> holder_lives os view)"
  by (rule crashed_lock_no_live [OF assms])

definition demo_os :: os_view where
  "demo_os = \<lparr>kill0 = (\<lambda>pid. if pid = 7 then Kill_Ok else Kill_ProcessLookup),
     proc_stat = (\<lambda>_. None), boot_id_text = Some ''b1'', hostname = ''h'', getpid = 7\<rparr>"

definition demo_lock :: pydict where
  "demo_lock = [(''pid'', PInt 5), (''host'', PStr ''h''), (''boot_id'', PStr ''b1''),
     (''child_pid'', PInt 6), (''child_host'', PStr ''h''), (''child_boot_id'', PStr ''b1'')]"

theorem crashed_lock_has_no_live_holder_witness:
  "classify_lock (REAL_PROBE demo_os) demo_lock = Some CRASHED \<and> \<not> holder_lives demo_os demo_lock"
proof -
  have "classify_lock (REAL_PROBE demo_os) demo_lock = Some CRASHED" by code_simp
  with crashed_lock_has_no_live_holder [OF this] show ?thesis by blast
qed

text \<open>A foreign or unverifiable holder is never reported crashed.\<close>

lemma foreign_host_unknown:
  "dget holder ''host'' \<noteq> PStr (id_host (current p)) \<Longrightarrow> classify_holder p holder = Some UNKNOWN"
  by (auto simp: classify_holder_def Let_def split: option.splits)

section \<open>The stat line\<close>

definition stat_line :: "int \<Rightarrow> string \<Rightarrow> string list \<Rightarrow> string" where
  "stat_line pid comm toks =
     dec_int pid @ '' ('' @ comm @ '') '' @ join_with '' '' toks @ [CHR 0x0A]"

definition stat_token :: "string \<Rightarrow> bool" where
  "stat_token f \<longleftrightarrow> f \<noteq> [] \<and> list_all (\<lambda>c. \<not> py_space c \<and> c \<noteq> CHR '')'') f"

lemma after_last_append: "c \<notin> set r \<Longrightarrow> after_last c (s @ c # r) = Some r"
proof (induction s)
  case Nil
  then have "after_last c r = None" by (induction r) auto
  then show ?case by simp
qed simp

lemma split_fields_token:
  assumes "stat_token f" "rest = [] \<or> py_space (hd rest)"
  shows "split_fields (f @ rest) = f # split_fields rest"
proof -
  obtain c r where f: "f = c # r" "\<not> py_space c" "\<forall>x\<in>set f. \<not> py_space x"
    using assms(1) by (cases f) (auto simp: stat_token_def list_all_iff)
  have tw: "takeWhile (Not \<circ> py_space) (f @ rest) = f" "dropWhile (Not \<circ> py_space) (f @ rest) = rest"
    using f(3) assms(2) by (cases rest; simp add: takeWhile_append2 dropWhile_append2)+
  then show ?thesis
    by (subst split_fields.simps) (simp add: f(1,2))
qed

lemma py_space_space [simp]: "py_space (CHR '' '')" "py_space (CHR 0x0A)"
  by (simp_all add: py_space_def)

lemma split_fields_space: "py_space c \<Longrightarrow> split_fields (c # s) = split_fields s"
  by (subst (1 2) split_fields.simps) simp

lemma split_fields_join:
  "list_all stat_token toks \<Longrightarrow> split_fields (join_with '' '' toks @ [CHR 0x0A]) = toks"
proof (induction toks)
  case Nil
  then show ?case by (subst split_fields.simps) simp
next
  case (Cons x xs)
  have "split_fields [] = []" by (subst split_fields.simps) simp
  with Cons show ?case by (cases xs) (simp_all add: split_fields_token split_fields_space)
qed

lemma join_no_paren: "list_all stat_token toks \<Longrightarrow> CHR '')'' \<notin> set (join_with '' '' toks)"
proof (induction toks)
  case (Cons x xs)
  then show ?case by (cases xs) (auto simp: stat_token_def list_all_iff)
qed simp

text \<open>
  Reading the start time is robust against the command name: whatever the parenthesised
  \<^verbatim>\<open>comm\<close> field holds, spaces and parentheses included, field 22 of the stat line is the
  start time that is read back.
\<close>

theorem stat_start_robust:
  assumes "list_all stat_token toks" "20 \<le> length toks"
  shows "parse_stat_start (stat_line pid comm toks) = Some (toks ! 19)"
proof -
  note join_no_paren [OF assms(1)]
  then have "after_last (CHR '')'') (stat_line pid comm toks) =
      Some (CHR '' '' # join_with '' '' toks @ [CHR 0x0A])"
    using after_last_append [of "CHR '')''" "CHR '' '' # join_with '' '' toks @ [CHR 0x0A]"
        "dec_int pid @ '' ('' @ comm"]
    by (simp add: stat_line_def)
  then show ?thesis
    using assms by (simp add: parse_stat_start_def split_fields_join split_fields_space Let_def)
qed

theorem stat_start_robust_witness:
  "parse_stat_start (stat_line 7 ''a) (b'' (replicate 19 ''0'' @ [''4711'', ''9''])) = Some ''4711''"
proof -
  have "list_all stat_token (replicate 19 ''0'' @ [''4711'', ''9''])" by code_simp
  from stat_start_robust [OF this] show ?thesis by (simp add: nth_append)
qed

text \<open>
  A recorded pid outside the range of a C \<^verbatim>\<open>int\<close> is not classified at all: the
  existence probe raises instead of answering that the holder is unknown.
\<close>

theorem oversized_pid_raises:
  assumes "2 ^ 31 \<le> pid" "hostname os \<noteq> []"
  shows "classify_lock (REAL_PROBE os) [(''pid'', PInt pid), (''host'', PStr (hostname os))] = None"
  using assms
  by (simp add: classify_lock_def classify_holder_def dget_def REAL_PROBE_def pid_is_running_def
      current_identity_def identity_for_pid_def Let_def)

theorem oversized_pid_raises_witness:
  "classify_lock (REAL_PROBE demo_os) [(''pid'', PInt (2 ^ 31)), (''host'', PStr ''h'')] = None"
  using oversized_pid_raises [of "2 ^ 31" demo_os] by (simp add: demo_os_def)

end
