(* ===== verification/Session_Store.thy ===== *)
theory Session_Store
  imports Session_Record Process_Liveness
begin

text \<open>
  The durable Session store, \<^verbatim>\<open>session.py\<close>.  A session directory is three paths: the
  record, the lease lock and the quarantine fence; the store maps session ids to directories.  Every
  mutation of one session runs under its guard file, so an operation is one function on the store.
  A durable write may raise before or after it took effect: the argument \<open>io\<close> says which.
  \<^verbatim>\<open>isoformat\<close> and \<^verbatim>\<open>fromisoformat\<close> are the arguments \<open>isofmt\<close> and
  \<open>isoparse\<close> on instants in microseconds; the token of a new lease is an argument.
\<close>

section \<open>Directories and paths\<close>

record sdir =
  session_json :: dentry
  lock_json :: dentry
  fence_json :: dentry

type_synonym store = "string \<Rightarrow> sdir"

definition empty_sdir :: sdir where
  "empty_sdir = \<lparr>session_json = Absent, lock_json = Absent, fence_json = Absent\<rparr>"

datatype io = Io_Ok | Io_Lost | Io_Late

fun put :: "io \<Rightarrow> dentry \<Rightarrow> dentry \<Rightarrow> dentry" where
  "put Io_Lost old new = old"
| "put _ old new = new"

fun io_result :: "io \<Rightarrow> 'a \<Rightarrow> session_error + 'a" where
  "io_result Io_Ok x = Inr x"
| "io_result _ x = Inl OS_Error"

text \<open>\<^verbatim>\<open>Path.exists\<close> and \<^verbatim>\<open>_read_json\<close>.  An entry that is not a regular file exists: a dangling link,
  for which \<^verbatim>\<open>Path.exists\<close> answers \<^verbatim>\<open>False\<close>, is not one of the entries modelled.  A failed \<^verbatim>\<open>stat\<close>
  raises, as it does in the interpreter versions that let errors other than a missing file through.\<close>

fun path_exists :: "dentry \<Rightarrow> session_error + bool" where
  "path_exists Absent = Inr False"
| "path_exists Indeterminate = Inl OS_Error"
| "path_exists _ = Inr True"

fun read_json :: "dentry \<Rightarrow> session_error + pyval" where
  "read_json (Doc v) = Inr v"
| "read_json Undecodable = Inl Value_Error"
| "read_json _ = Inl OS_Error"

definition read_record :: "dentry \<Rightarrow> session_error + session_record" where
  "read_record d = (case read_json d of Inl e \<Rightarrow> Inl e | Inr v \<Rightarrow> record_from_dict v)"

definition require_session_dir :: "store \<Rightarrow> string \<Rightarrow> session_error + sdir" where
  "require_session_dir st sid =
     (if \<not> session_id_ok sid then Inl InvalidSessionIdError
      else (case path_exists (session_json (st sid)) of
              Inl e \<Rightarrow> Inl e
            | Inr False \<Rightarrow> Inl SessionNotFoundError
            | Inr True \<Rightarrow> Inr (st sid)))"

section \<open>Creation and observation\<close>

record create_args =
  ca_session_id :: string
  ca_profile_id :: string
  ca_profile_revision :: int
  ca_profile_hash :: string
  ca_owner :: string
  ca_namespace :: string
  ca_workspace_hash :: string
  ca_effective_cwd :: string
  ca_matched_root :: "string option"
  ca_agent_session_id :: string
  ca_agent_id :: "string option"
  ca_session_epoch :: "int option"

definition created_record :: "create_args \<Rightarrow> string \<Rightarrow> session_record" where
  "created_record a moment = new_record
     [(''schema_version'', PInt SCHEMA_VERSION), (''session_id'', PStr (ca_session_id a)),
      (''workspace_hash'', PStr (ca_workspace_hash a)), (''effective_cwd'', PStr (ca_effective_cwd a)),
      (''matched_root'', pstr_opt (ca_matched_root a)), (''created_at'', PStr moment),
      (''updated_at'', PStr moment), (''session_kind'', PStr SESSION_KIND_NATIVE),
      (''native_profile_id'', PStr (ca_profile_id a)),
      (''native_profile_revision'', PInt (ca_profile_revision a)),
      (''native_profile_hash'', PStr (ca_profile_hash a)),
      (''native_agent_id'', pstr_opt (ca_agent_id a)),
      (''native_session_epoch'', pint_opt (ca_session_epoch a)),
      (''agent_session_id'', PStr (ca_agent_session_id a)), (''owner'', PStr (ca_owner a)),
      (''namespace'', PStr (ca_namespace a))]"

definition create_native_session ::
    "io \<Rightarrow> string \<Rightarrow> create_args \<Rightarrow> store \<Rightarrow> store \<times> (session_error + session_record)" where
  "create_native_session w moment a st =
     (let sid = ca_session_id a; d = st sid in
      if ca_agent_session_id a = [] then (st, Inl (SessionBindingError []))
      else if \<not> session_id_ok sid then (st, Inl InvalidSessionIdError)
      else (case path_exists (session_json d) of
              Inl e \<Rightarrow> (st, Inl e)
            | Inr True \<Rightarrow> (st, Inl SessionExistsError)
            | Inr False \<Rightarrow>
                (let r = created_record a moment in
                 (st(sid := d\<lparr>session_json := put w (session_json d) (Doc (PDict (record_to_dict r)))\<rparr>),
                  io_result w r))))"

definition open_session :: "store \<Rightarrow> string \<Rightarrow> session_error + session_record" where
  "open_session st sid =
     (case require_session_dir st sid of Inl e \<Rightarrow> Inl e | Inr d \<Rightarrow> read_record (session_json d))"

definition ensure_usable :: "session_record \<Rightarrow> session_error + unit" where
  "ensure_usable r = (if dget r ''quarantine'' \<noteq> PNone then Inl SessionQuarantinedError else Inr ())"

definition read_native_session_record :: "store \<Rightarrow> string \<Rightarrow> session_record option" where
  "read_native_session_record st sid =
     (case open_session st sid of
        Inl e \<Rightarrow> None
      | Inr r \<Rightarrow> if validate_native_session_record r sid = [] then Some r else None)"

text \<open>\<^verbatim>\<open>dataclasses.replace\<close> followed by a write under the guard, shared by the two
  observation commits.\<close>

definition commit_fields ::
    "io \<Rightarrow> string \<Rightarrow> pydict \<Rightarrow> store \<Rightarrow> store \<times> (session_error + session_record)" where
  "commit_fields w sid changes st =
     (case require_session_dir st sid of
        Inl e \<Rightarrow> (st, Inl e)
      | Inr d \<Rightarrow>
          (case read_record (session_json d) of
             Inl e \<Rightarrow> (st, Inl e)
           | Inr r \<Rightarrow>
               if dget r ''quarantine'' \<noteq> PNone then (st, Inl SessionQuarantinedError)
               else (let u = fold (\<lambda>(k, v). dset k v) changes r in
                 (st(sid := d\<lparr>session_json := put w (session_json d) (Doc (PDict (record_to_dict u)))\<rparr>),
                  io_result w u))))"

definition commit_last_effective ::
    "io \<Rightarrow> string \<Rightarrow> string \<Rightarrow> string \<Rightarrow> string \<Rightarrow> store \<Rightarrow> store \<times> (session_error + session_record)" where
  "commit_last_effective w sid model effort moment st =
     commit_fields w sid
       [(''last_effective_model'', PStr model), (''last_effective_effort'', PStr effort),
        (''updated_at'', PStr moment)] st"

text \<open>The candidates are checked for being strings before the store is touched.\<close>

definition commit_last_observation ::
    "io \<Rightarrow> string \<Rightarrow> pyval \<Rightarrow> pyval \<Rightarrow> pyval list \<Rightarrow> string \<Rightarrow> store \<Rightarrow> store \<times> (session_error + session_record)" where
  "commit_last_observation w sid info_name info_version caps moment st =
     (if \<not> list_all is_str (info_name # info_version # caps) then (st, Inl Type_Error)
      else commit_fields w sid
       [(''native_last_agent_info_name'', info_name), (''native_last_agent_info_version'', info_version),
        (''native_last_advertised_capabilities'', PList caps), (''updated_at'', PStr moment)] st)"

section \<open>Quarantine\<close>

definition write_quarantine_pending ::
    "io \<Rightarrow> string \<Rightarrow> string \<Rightarrow> string \<Rightarrow> string \<Rightarrow> store \<Rightarrow> store \<times> (session_error + unit)" where
  "write_quarantine_pending w sid reason run_id moment st =
     (case require_session_dir st sid of
        Inl e \<Rightarrow> (st, Inl e)
      | Inr d \<Rightarrow>
          (case build_quarantine_evidence reason run_id moment of
             Inl e \<Rightarrow> (st, Inl e)
           | Inr ev \<Rightarrow>
               (st(sid := d\<lparr>fence_json := put w (fence_json d)
                  (Doc (PDict ([(''schema'', PStr ''ars.quarantine_pending''), (''version'', PInt 1)] @ ev)))\<rparr>),
                io_result w ())))"

text \<open>\<^verbatim>\<open>_clear_quarantine_pending_unlocked\<close>: a durable unlink, idempotent when absent.\<close>

definition clear_fence :: "io \<Rightarrow> sdir \<Rightarrow> sdir" where
  "clear_fence w d = d\<lparr>fence_json := put w (fence_json d) Absent\<rparr>"

definition mark_quarantined ::
    "io \<Rightarrow> io \<Rightarrow> string \<Rightarrow> string \<Rightarrow> string \<Rightarrow> string \<Rightarrow> store \<Rightarrow> store \<times> (session_error + session_record)" where
  "mark_quarantined w u sid reason run_id moment st =
     (case require_session_dir st sid of
        Inl e \<Rightarrow> (st, Inl e)
      | Inr d \<Rightarrow>
          (case build_quarantine_evidence reason run_id moment of
             Inl e \<Rightarrow> (st, Inl e)
           | Inr ev \<Rightarrow>
               (case read_record (session_json d) of
                  Inl e \<Rightarrow> (st, Inl e)
                | Inr r \<Rightarrow>
                    if dget r ''quarantine'' \<noteq> PNone
                    then (st(sid := clear_fence u d), io_result u r)
                    else
                      (let q = dset ''updated_at'' (PStr moment) (dset ''quarantine'' (PDict ev) r);
                           d1 = d\<lparr>session_json := put w (session_json d) (Doc (PDict (record_to_dict q)))\<rparr>
                       in if w \<noteq> Io_Ok then (st(sid := d1), Inl OS_Error)
                          else (st(sid := clear_fence u d1), io_result u q)))))"

definition has_quarantine_pending :: "store \<Rightarrow> string \<Rightarrow> bool" where
  "has_quarantine_pending st sid \<longleftrightarrow>
     session_id_ok sid \<and> fence_json (st sid) \<notin> {Absent, Indeterminate}"

section \<open>The lease lock\<close>

definition lock_expiry :: "(string \<Rightarrow> int option) \<Rightarrow> pyval \<Rightarrow> session_error + int" where
  "lock_expiry isoparse v =
     (case v of
        PDict d \<Rightarrow>
          if \<not> has_key ''expires_at'' d then Inl Key_Error
          else (case dget d ''expires_at'' of
                  PStr s \<Rightarrow> (case isoparse s of None \<Rightarrow> Inl Value_Error | Some t \<Rightarrow> Inr t)
                | _ \<Rightarrow> Inl Type_Error)
      | _ \<Rightarrow> Inl Type_Error)"

definition holder_crashed :: "probe \<Rightarrow> pydict \<Rightarrow> session_error + bool" where
  "holder_crashed p lock_data =
     (if dget lock_data ''reclaimable'' = PBool False then Inr False
      else (case classify_lock p lock_data of
              None \<Rightarrow> Inl Overflow_Error
            | Some l \<Rightarrow> Inr (l = CRASHED)))"

record acquire_args =
  aq_owner :: string
  aq_now :: int
  aq_lease_seconds :: pyval
  aq_reclaim_crashed :: bool
  aq_reclaimable :: bool
  aq_holder_kind :: string
  aq_refuse_quarantined :: bool

record session_lock =
  lk_token :: string
  lk_owner :: string
  lk_acquired_at :: string
  lk_expires_at :: string

text \<open>The quarantine gate inside the guarded section.\<close>

definition quarantine_gate :: "sdir \<Rightarrow> session_error + unit" where
  "quarantine_gate d =
     (case read_record (session_json d) of
        Inl e \<Rightarrow> Inl e
      | Inr r \<Rightarrow>
          if dget r ''quarantine'' \<noteq> PNone then Inl SessionQuarantinedError
          else (case path_exists (fence_json d) of
                  Inl e \<Rightarrow> Inl e
                | Inr True \<Rightarrow> Inl SessionQuarantinedError
                | Inr False \<Rightarrow> Inr ()))"

text \<open>May an existing lock be replaced?  Raises \<^const>\<open>SessionLockError\<close> when it blocks.\<close>

definition lock_replaceable ::
    "(string \<Rightarrow> int option) \<Rightarrow> probe \<Rightarrow> acquire_args \<Rightarrow> dentry \<Rightarrow> session_error + unit" where
  "lock_replaceable isoparse p a lock =
     (case path_exists lock of
        Inl e \<Rightarrow> Inl e
      | Inr False \<Rightarrow> Inr ()
      | Inr True \<Rightarrow>
          (case read_json lock of
             Inl e \<Rightarrow> Inl e
           | Inr v \<Rightarrow>
               (case lock_expiry isoparse v of
                  Inl e \<Rightarrow> Inl e
                | Inr expires \<Rightarrow>
                    if expires \<le> aq_now a then Inr ()
                    else if \<not> aq_reclaim_crashed a then Inl SessionLockError
                    else (case v of
                            PDict d \<Rightarrow>
                              (case holder_crashed p d of
                                 Inl e \<Rightarrow> Inl e
                               | Inr c \<Rightarrow> if c then Inr () else Inl SessionLockError)
                          | _ \<Rightarrow> Inl Attribute_Error))))"

definition lock_payload :: "(int \<Rightarrow> string) \<Rightarrow> probe \<Rightarrow> acquire_args \<Rightarrow> string \<Rightarrow> int \<Rightarrow> pydict" where
  "lock_payload isofmt p a token lease =
     [(''token'', PStr token), (''owner'', PStr (aq_owner a)),
      (''acquired_at'', PStr (isofmt (aq_now a))), (''expires_at'', PStr (isofmt (aq_now a + 1000000 * lease))),
      (''host'', PStr (id_host (current p))), (''pid'', PInt (id_pid (current p))),
      (''process_start'', pstr_opt (id_process_start (current p))),
      (''boot_id'', pstr_opt (id_boot_id (current p))), (''holder_kind'', PStr (aq_holder_kind a)),
      (''reclaimable'', PBool (aq_reclaimable a))]"

text \<open>\<open>u\<close> is the outcome of unlinking a replaced lock, \<open>w\<close> that of creating the new one.\<close>

definition acquire_lock ::
    "(int \<Rightarrow> string) \<Rightarrow> (string \<Rightarrow> int option) \<Rightarrow> probe \<Rightarrow> io \<Rightarrow> io \<Rightarrow> string \<Rightarrow> string \<Rightarrow> acquire_args \<Rightarrow> store \<Rightarrow>
     store \<times> (session_error + session_lock)" where
  "acquire_lock isofmt isoparse p u w token sid a st =
     (case require_session_dir st sid of
        Inl e \<Rightarrow> (st, Inl e)
      | Inr d \<Rightarrow>
          (case aq_lease_seconds a of
             PInt lease \<Rightarrow>
               if lease \<le> 0 then (st, Inl SessionLockError)
               else (case (if aq_refuse_quarantined a then quarantine_gate d else Inr ()) of
                       Inl e \<Rightarrow> (st, Inl e)
                     | Inr _ \<Rightarrow>
                         (case lock_replaceable isoparse p a (lock_json d) of
                            Inl e \<Rightarrow> (st, Inl e)
                          | Inr _ \<Rightarrow>
                              if lock_json d \<noteq> Absent \<and> u \<noteq> Io_Ok
                              then (st(sid := d\<lparr>lock_json := put u (lock_json d) Absent\<rparr>), Inl OS_Error)
                              else
                              (let new = Doc (PDict (lock_payload isofmt p a token lease)) in
                               (st(sid := d\<lparr>lock_json := put w Absent new\<rparr>),
                                io_result w
                                  \<lparr>lk_token = token, lk_owner = aq_owner a, lk_acquired_at = isofmt (aq_now a),
                                   lk_expires_at = isofmt (aq_now a + 1000000 * lease)\<rparr>))))
           | _ \<Rightarrow> (st, Inl SessionLockError)))"

text \<open>The token check shared by \<^verbatim>\<open>update_lock_holder\<close> and \<^verbatim>\<open>release_lock\<close>.\<close>

definition owned_lock :: "string \<Rightarrow> dentry \<Rightarrow> session_error + pydict" where
  "owned_lock token lock =
     (case path_exists lock of
        Inl e \<Rightarrow> Inl e
      | Inr False \<Rightarrow> Inl SessionLockError
      | Inr True \<Rightarrow>
          (case read_json lock of
             Inl e \<Rightarrow> Inl e
           | Inr (PDict d) \<Rightarrow> if dget d ''token'' \<noteq> PStr token then Inl SessionLockError else Inr d
           | Inr _ \<Rightarrow> Inl Attribute_Error))"

definition update_lock_holder ::
    "io \<Rightarrow> string \<Rightarrow> string \<Rightarrow> process_identity \<Rightarrow> string \<Rightarrow> bool \<Rightarrow> string \<Rightarrow> store \<Rightarrow>
     store \<times> (session_error + unit)" where
  "update_lock_holder w sid token ident holder_kind reclaimable moment st =
     (case require_session_dir st sid of
        Inl e \<Rightarrow> (st, Inl e)
      | Inr d \<Rightarrow>
          (case owned_lock token (lock_json d) of
             Inl e \<Rightarrow> (st, Inl e)
           | Inr existing \<Rightarrow>
               (let new = fold (\<lambda>(k, v). dset k v)
                  [(''holder_kind'', PStr ''supervisor_with_subprocess''), (''reclaimable'', PBool reclaimable),
                   (''child_host'', PStr (id_host ident)), (''child_pid'', PInt (id_pid ident)),
                   (''child_process_start'', pstr_opt (id_process_start ident)),
                   (''child_boot_id'', pstr_opt (id_boot_id ident)),
                   (''child_holder_kind'', PStr holder_kind), (''child_holder_updated_at'', PStr moment)] existing
                in (st(sid := d\<lparr>lock_json := put w (lock_json d) (Doc (PDict new))\<rparr>), io_result w ()))))"

definition release_lock :: "io \<Rightarrow> string \<Rightarrow> string \<Rightarrow> store \<Rightarrow> store \<times> (session_error + unit)" where
  "release_lock w sid token st =
     (case require_session_dir st sid of
        Inl e \<Rightarrow> (st, Inl e)
      | Inr d \<Rightarrow>
          (case owned_lock token (lock_json d) of
             Inl e \<Rightarrow> (st, Inl e)
           | Inr _ \<Rightarrow> (st(sid := d\<lparr>lock_json := put w (lock_json d) Absent\<rparr>), io_result w ())))"

text \<open>One entry of \<^verbatim>\<open>detect_stale_locks\<close>; \<^verbatim>\<open>OverflowError\<close> and
  \<^verbatim>\<open>AttributeError\<close> are not among the exceptions it absorbs, so the whole inspection
  raises (\<^const>\<open>None\<close>).\<close>

record stale_entry =
  se_quarantined :: bool
  se_lock_present :: bool
  se_lease_expired :: bool
  se_holder_liveness :: "liveness option"
  se_recoverable :: bool

definition lock_findings ::
    "(string \<Rightarrow> int option) \<Rightarrow> probe \<Rightarrow> int \<Rightarrow> dentry \<Rightarrow> (bool \<times> liveness) option" where
  "lock_findings isoparse p now lock =
     (case read_json lock of
        Inl e \<Rightarrow> Some (True, UNKNOWN)
      | Inr v \<Rightarrow>
          (case lock_expiry isoparse v of
             Inl e \<Rightarrow> Some (True, UNKNOWN)
           | Inr expires \<Rightarrow>
               (case v of
                  PDict d \<Rightarrow>
                    if dget d ''reclaimable'' = PBool False then Some (expires \<le> now, UNKNOWN)
                    else map_option (\<lambda>l. (expires \<le> now, l)) (classify_lock p d)
                | _ \<Rightarrow> Some (True, UNKNOWN))))"

definition recovery_allowed :: "dentry \<Rightarrow> bool option" where
  "recovery_allowed lock =
     (case read_json lock of
        Inr (PDict d) \<Rightarrow> Some (\<not> (has_key ''reclaimable'' d \<and> dget d ''reclaimable'' = PBool False))
      | Inr _ \<Rightarrow> None
      | Inl _ \<Rightarrow> Some True)"

definition stale_report ::
    "(string \<Rightarrow> int option) \<Rightarrow> probe \<Rightarrow> int \<Rightarrow> session_record \<Rightarrow> dentry \<Rightarrow> stale_entry option" where
  "stale_report isoparse p now r lock =
     (case path_exists lock of
        Inl e \<Rightarrow> None
      | Inr False \<Rightarrow> Some \<lparr>se_quarantined = (dget r ''quarantine'' \<noteq> PNone), se_lock_present = False,
                 se_lease_expired = False, se_holder_liveness = None, se_recoverable = False\<rparr>
      | Inr True \<Rightarrow> (case (lock_findings isoparse p now lock, recovery_allowed lock) of
              (Some (expired, l), Some allowed) \<Rightarrow> Some
                \<lparr>se_quarantined = (dget r ''quarantine'' \<noteq> PNone), se_lock_present = True,
                 se_lease_expired = expired, se_holder_liveness = Some l,
                 se_recoverable = (expired \<or> allowed \<and> l = CRASHED)\<rparr>
            | _ \<Rightarrow> None))"

end
