(* ===== verification/Session_Props.thy ===== *)
theory Session_Props
  imports Session_Store
begin

text \<open>
  What the Session store guarantees under every sequence of operations and every write fault:
  quarantine evidence is irreversible, a fenced session never gets a new lease, a lease is
  exclusive, and a lease within its time is taken over only from a dead holder.
\<close>

section \<open>Reading back what was written\<close>

lemma dset_keys: "k \<in> set (map fst r) \<Longrightarrow> map fst (dset k v r) = map fst r"
  by (induction k v r rule: dset.induct) auto

lemma record_wf_dset: "record_wf r \<Longrightarrow> k \<in> set DECLARED_RECORD_FIELDS \<Longrightarrow> record_wf (dset k v r)"
  by (simp add: record_wf_def dset_keys del: set_map)

lemma new_record_wf [simp]: "record_wf (new_record d)"
  by (simp add: record_wf_def new_record_def comp_def)

lemma dget_new_record: "k \<in> set DECLARED_RECORD_FIELDS \<Longrightarrow> dget (new_record d) k = dget d k"
  by (simp add: new_record_def dget_def map_of_map_restrict)

lemma read_record_wf: "read_record d = Inr r \<Longrightarrow> record_wf r"
  by (auto simp: read_record_def record_from_dict_def split: sum.splits pyval.splits if_splits)

lemma quarantine_declared: "''quarantine'' \<in> set DECLARED_RECORD_FIELDS"
  by (simp add: DECLARED_RECORD_FIELDS_def)

lemma to_dict_quarantine: "dget (record_to_dict r) ''quarantine'' = dget r ''quarantine''"
  by (simp add: record_to_dict_def Let_def dget_del_when dget_ddel LEGACY_ONLY_FIELDS_def NATIVE_FIELDS_def)

lemma read_back:
  assumes "record_wf r"
  shows "\<exists>r'. read_record (Doc (PDict (record_to_dict r))) = Inr r' \<and>
    dget r' ''quarantine'' = dget r ''quarantine''"
proof -
  have "set (map fst (record_to_dict r)) \<subseteq> set DECLARED_RECORD_FIELDS"
    using record_to_dict_keys [of r] assms by (simp add: record_wf_def del: set_map)
  then have "read_record (Doc (PDict (record_to_dict r))) = Inr (new_record (record_to_dict r))"
    by (auto simp: read_record_def record_from_dict_def list_all_iff)
  then show ?thesis
    by (simp add: dget_new_record quarantine_declared to_dict_quarantine)
qed

section \<open>Steps of the store\<close>

text \<open>Any operation of any process on any session, with any write fault.\<close>

inductive store_step :: "(int \<Rightarrow> string) \<Rightarrow> (string \<Rightarrow> int option) \<Rightarrow> store \<Rightarrow> store \<Rightarrow> bool"
  for isofmt :: "int \<Rightarrow> string" and isoparse :: "string \<Rightarrow> int option" where
  ss_create: "store_step isofmt isoparse st (fst (create_native_session w moment a st))"
| ss_effective: "store_step isofmt isoparse st (fst (commit_last_effective w sid model effort moment st))"
| ss_observation: "store_step isofmt isoparse st (fst (commit_last_observation w sid n v caps moment st))"
| ss_fence: "store_step isofmt isoparse st (fst (write_quarantine_pending w sid reason run_id moment st))"
| ss_mark: "store_step isofmt isoparse st (fst (mark_quarantined w u sid reason run_id moment st))"
| ss_acquire: "store_step isofmt isoparse st (fst (acquire_lock isofmt isoparse p u w token sid aq st))"
| ss_update: "store_step isofmt isoparse st (fst (update_lock_holder w sid token ident kind recl moment st))"
| ss_release: "store_step isofmt isoparse st (fst (release_lock w sid token st))"

inductive_cases store_stepE: "store_step isofmt isoparse st st'"

definition quarantined :: "store \<Rightarrow> string \<Rightarrow> pyval \<Rightarrow> bool" where
  "quarantined st sid ev \<longleftrightarrow>
     ev \<noteq> PNone \<and> (\<exists>r. read_record (session_json (st sid)) = Inr r \<and> dget r ''quarantine'' = ev)"

definition fenced :: "store \<Rightarrow> string \<Rightarrow> bool" where
  "fenced st sid \<longleftrightarrow> fence_json (st sid) \<noteq> Absent \<or> (\<exists>ev. quarantined st sid ev)"

lemma commit_fields_quarantined:
  assumes "quarantined st sid ev" shows "quarantined (fst (commit_fields w sid' ch st)) sid ev"
  using assms
  by (cases "sid' = sid")
     (auto simp: commit_fields_def quarantined_def require_session_dir_def Let_def
       split: sum.splits if_splits bool.splits)

lemma commit_fields_fence: "fence_json (fst (commit_fields w sid' ch st) sid) = fence_json (st sid)"
  by (auto simp: commit_fields_def require_session_dir_def Let_def split: sum.split if_split bool.split)

lemma create_quarantined:
  assumes "quarantined st sid ev" shows "quarantined (fst (create_native_session w m a st)) sid ev"
proof -
  have "session_json (st sid) \<noteq> Absent" using assms by (auto simp: quarantined_def read_record_def)
  then have "path_exists (session_json (st sid)) \<noteq> Inr False" by (cases "session_json (st sid)") auto
  then show ?thesis
    using assms by (auto simp: create_native_session_def Let_def quarantined_def split: sum.splits bool.splits)
qed

lemma create_fence: "fence_json (fst (create_native_session w m a st) sid) = fence_json (st sid)"
  by (auto simp: create_native_session_def Let_def split: sum.split bool.split)

lemma lock_ops_frame:
  "session_json (fst (acquire_lock i q p u w tok sid' aq st) sid) = session_json (st sid)"
  "fence_json (fst (acquire_lock i q p u w tok sid' aq st) sid) = fence_json (st sid)"
  "session_json (fst (update_lock_holder w sid' tok ident k b m st) sid) = session_json (st sid)"
  "fence_json (fst (update_lock_holder w sid' tok ident k b m st) sid) = fence_json (st sid)"
  "session_json (fst (release_lock w sid' tok st) sid) = session_json (st sid)"
  "fence_json (fst (release_lock w sid' tok st) sid) = fence_json (st sid)"
  by (auto simp: acquire_lock_def update_lock_holder_def release_lock_def require_session_dir_def Let_def
      split: sum.split bool.split pyval.split if_split)

lemma fence_frame:
  "session_json (fst (write_quarantine_pending w sid' r x m st) sid) = session_json (st sid)"
  by (auto simp: write_quarantine_pending_def require_session_dir_def split: sum.split bool.split)

lemma frame_quarantined:
  "quarantined (fst (acquire_lock i q p u w tok sid' aq st)) sid ev = quarantined st sid ev"
  "quarantined (fst (update_lock_holder w sid' tok ident k b m st)) sid ev = quarantined st sid ev"
  "quarantined (fst (release_lock w sid' tok st)) sid ev = quarantined st sid ev"
  "quarantined (fst (write_quarantine_pending w sid' r x m st)) sid ev = quarantined st sid ev"
  by (simp_all add: quarantined_def lock_ops_frame fence_frame)

lemma fence_keeps: "fence_json (st sid) \<noteq> Absent \<Longrightarrow>
  fence_json (fst (write_quarantine_pending w sid' r x m st) sid) \<noteq> Absent"
  by (cases w) (auto simp: write_quarantine_pending_def require_session_dir_def split: sum.split bool.split)

lemma mark_quarantined_keeps:
  assumes "quarantined st sid ev" shows "quarantined (fst (mark_quarantined w u sid' r x m st)) sid ev"
  using assms
  by (cases "sid' = sid")
     (auto simp: mark_quarantined_def quarantined_def require_session_dir_def Let_def clear_fence_def
       split: sum.splits bool.splits if_splits)

text \<open>Marking: either nothing about the fence changed, or the evidence is in the record.\<close>

lemma mark_fence_or_evidence:
  "fence_json (fst (mark_quarantined w u sid' r x m st) sid) = fence_json (st sid) \<or>
   (\<exists>ev. quarantined (fst (mark_quarantined w u sid' r x m st)) sid ev)"
proof (cases "sid' = sid")
  case True
  show ?thesis
  proof (cases "require_session_dir st sid")
    case (Inr d)
    then have d: "d = st sid" by (auto simp: require_session_dir_def split: if_splits sum.splits bool.splits)
    show ?thesis
    proof (cases "build_quarantine_evidence r x m")
      case ev: (Inr ev)
      show ?thesis
      proof (cases "read_record (session_json d)")
        case rec: (Inr rec)
        let ?q = "dset ''updated_at'' (PStr m) (dset ''quarantine'' (PDict ev) rec)"
        have "''updated_at'' \<in> set DECLARED_RECORD_FIELDS" by (simp add: DECLARED_RECORD_FIELDS_def)
        then have "record_wf ?q" using read_record_wf [OF rec] quarantine_declared by (simp add: record_wf_dset)
        from read_back [OF this] obtain r' where
          r': "read_record (Doc (PDict (record_to_dict ?q))) = Inr r'" "dget r' ''quarantine'' = PDict ev"
          by auto
        show ?thesis
          using True Inr d ev rec r'
          by (cases "dget rec ''quarantine'' = PNone"; cases w)
             (auto simp: mark_quarantined_def Let_def clear_fence_def quarantined_def)
      qed (use True Inr d ev in \<open>simp add: mark_quarantined_def\<close>)
    qed (use True Inr in \<open>simp add: mark_quarantined_def\<close>)
  qed (use True in \<open>simp add: mark_quarantined_def\<close>)
next
  case False
  then show ?thesis
    by (auto simp: mark_quarantined_def require_session_dir_def Let_def split: sum.split bool.split)
qed

lemma store_step_quarantined:
  "store_step isofmt isoparse st st' \<Longrightarrow> quarantined st sid ev \<Longrightarrow> quarantined st' sid ev"
  by (erule store_step.cases)
     (simp_all add: create_quarantined commit_last_effective_def commit_last_observation_def
       commit_fields_quarantined mark_quarantined_keeps frame_quarantined)

lemma store_step_fenced:
  assumes "store_step isofmt isoparse st st'" "fenced st sid" shows "fenced st' sid"
proof (cases "\<exists>ev. quarantined st sid ev")
  case True
  then show ?thesis using store_step_quarantined [OF assms(1)] by (auto simp: fenced_def)
next
  case False
  with assms(2) have f: "fence_json (st sid) \<noteq> Absent" by (simp add: fenced_def)
  from assms(1) have "fence_json (st' sid) \<noteq> Absent \<or> (\<exists>ev. quarantined st' sid ev)"
  proof cases
    case (ss_mark w u sid' reason run_id moment)
    then show ?thesis using mark_fence_or_evidence [of w u sid' reason run_id moment st sid] f by auto
  qed (use f fence_keeps [of st sid] in \<open>simp_all add: create_fence commit_last_effective_def
      commit_last_observation_def commit_fields_fence lock_ops_frame\<close>)
  then show ?thesis by (simp add: fenced_def)
qed


interpretation quarantine: inductive_invariant "\<lambda>st. quarantined st sid ev"
    "store_step isofmt isoparse" "\<lambda>st. quarantined st sid ev" for sid ev isofmt isoparse
  by unfold_locales (auto intro: store_step_quarantined)

interpretation fence: inductive_invariant "\<lambda>st. fenced st sid"
    "store_step isofmt isoparse" "\<lambda>st. fenced st sid" for sid isofmt isoparse
  by unfold_locales (auto intro: store_step_fenced)

section \<open>Quarantine\<close>

text \<open>
  C36. Quarantine is irreversible and the first fact wins: once a session's record carries quarantine
  evidence, no sequence of store operations by any process, with any write faults, removes or
  replaces it.
\<close>

theorem quarantine_irreversible:
  assumes "quarantined st sid ev" "(store_step isofmt isoparse)\<^sup>*\<^sup>* st st'"
  shows "quarantined st' sid ev"
  using quarantine.inv_run [OF assms(2)] assms(1) by blast

lemma quarantine_gate_fenced:
  assumes "fenced st sid" shows "quarantine_gate (st sid) \<noteq> Inr ()"
proof -
  have "path_exists d \<noteq> Inr False" if "d \<noteq> Absent" for d using that by (cases d) auto
  with assms show ?thesis
    by (auto simp: quarantine_gate_def fenced_def quarantined_def split: sum.splits bool.splits if_splits)
qed

text \<open>
  C37. A fenced session never gets a new lease: as soon as the quarantine fence is on disk, or the
  evidence is in the record, every later native acquisition fails and changes nothing, whatever
  operations, crashes and write faults happened in between, the clearing of the fence included.
\<close>

theorem fenced_never_leased:
  assumes "fenced st sid" "(store_step isofmt isoparse)\<^sup>*\<^sup>* st st'" "aq_refuse_quarantined aq"
  shows "\<exists>err. acquire_lock isofmt isoparse p u w token sid aq st' = (st', Inl err)"
proof -
  have "fenced st' sid" using fence.inv_run [OF assms(2)] assms(1) by blast
  from quarantine_gate_fenced [OF this] obtain err where "quarantine_gate (st' sid) = Inl err"
    by (cases "quarantine_gate (st' sid)") auto
  then show ?thesis
    using assms(3)
    by (auto simp: acquire_lock_def require_session_dir_def split: sum.splits bool.splits pyval.splits)
qed

section \<open>The lease\<close>

definition leased :: "(string \<Rightarrow> int option) \<Rightarrow> store \<Rightarrow> string \<Rightarrow> string \<Rightarrow> int \<Rightarrow> bool" where
  "leased isoparse st sid token expires \<longleftrightarrow>
     (\<exists>d. lock_json (st sid) = Doc (PDict d) \<and> dget d ''token'' = PStr token \<and>
        lock_expiry isoparse (PDict d) = Inr expires)"

lemma acquire_Inr:
  assumes "acquire_lock isofmt isoparse p u w token sid aq st = (st', Inr lk)"
  obtains d lease where "require_session_dir st sid = Inr d" "aq_lease_seconds aq = PInt lease" "0 < lease"
    "lock_replaceable isoparse p aq (lock_json d) = Inr ()" "w = Io_Ok"
    "st' = st(sid := d\<lparr>lock_json := Doc (PDict (lock_payload isofmt p aq token lease))\<rparr>)"
    "lk_token lk = token"
  using assms
  by (cases w) (auto simp: acquire_lock_def Let_def split: sum.splits pyval.splits if_splits)

text \<open>
  C38. A lease is exclusive: a successful acquisition installs its own token until its own expiry, and
  before that instant a further acquisition that does not reclaim fails and changes nothing, a
  release or a holder update with another token fails and changes nothing.
\<close>

theorem lease_exclusive:
  assumes "acquire_lock isofmt isoparse p u w token sid aq st = (st', Inr lk)"
    "\<And>t. isoparse (isofmt t) = Some t"
  shows "\<exists>lease. aq_lease_seconds aq = PInt lease \<and> 0 < lease \<and>
    leased isoparse st' sid token (aq_now aq + 1000000 * lease) \<and>
    (\<forall>aq2 u2 w2 tok2 p2. aq_now aq2 < aq_now aq + 1000000 * lease \<longrightarrow> \<not> aq_reclaim_crashed aq2 \<longrightarrow>
       (\<exists>err. acquire_lock isofmt isoparse p2 u2 w2 tok2 sid aq2 st' = (st', Inl err))) \<and>
    (\<forall>tok2 w2. tok2 \<noteq> token \<longrightarrow> release_lock w2 sid tok2 st' = (st', Inl SessionLockError)) \<and>
    (\<forall>tok2 w2 ident k b m. tok2 \<noteq> token \<longrightarrow>
       update_lock_holder w2 sid tok2 ident k b m st' = (st', Inl SessionLockError))"
proof -
  obtain d lease where a: "require_session_dir st sid = Inr d" "aq_lease_seconds aq = PInt lease" "0 < lease"
    and st': "st' = st(sid := d\<lparr>lock_json := Doc (PDict (lock_payload isofmt p aq token lease))\<rparr>)"
    using acquire_Inr [OF assms(1)] by metis
  let ?l = "lock_payload isofmt p aq token lease"
  from a(1) have d: "d = st sid" "session_id_ok sid" "path_exists (session_json (st sid)) = Inr True"
    by (auto simp: require_session_dir_def split: if_splits sum.splits bool.splits)
  then have req: "require_session_dir st' sid = Inr (st' sid)"
    by (simp add: st' require_session_dir_def)
  have lock: "lock_json (st' sid) = Doc (PDict ?l)" by (simp add: st')
  have expiry: "lock_expiry isoparse (PDict ?l) = Inr (aq_now aq + 1000000 * lease)"
    by (simp add: lock_expiry_def lock_payload_def has_key_def dget_def assms(2))
  have tok: "dget ?l ''token'' = PStr token" by (simp add: lock_payload_def dget_def)
  have "\<exists>err. acquire_lock isofmt isoparse p2 u2 w2 tok2 sid aq2 st' = (st', Inl err)"
    if "aq_now aq2 < aq_now aq + 1000000 * lease" "\<not> aq_reclaim_crashed aq2" for aq2 u2 w2 tok2 p2
  proof -
    have "lock_replaceable isoparse p2 aq2 (lock_json (st' sid)) = Inl SessionLockError"
      using that by (simp add: lock_replaceable_def lock expiry)
    then show ?thesis
      by (auto simp: acquire_lock_def req lock split: sum.split pyval.split)
  qed
  moreover have "owned_lock tok2 (lock_json (st' sid)) = Inl SessionLockError" if "tok2 \<noteq> token" for tok2
    using that by (simp add: owned_lock_def lock tok)
  ultimately show ?thesis
    using a lock tok expiry req by (auto simp: leased_def release_lock_def update_lock_holder_def)
qed

text \<open>
  A lease still running is only taken over from the dead: if an acquisition through the
  production probe succeeds although another lease has not expired, the caller asked for
  reclamation, the lock was not marked unreclaimable, and neither the recorded supervisor nor the
  recorded child is a running process.
\<close>

theorem takeover_only_from_dead:
  assumes "acquire_lock isofmt isoparse (REAL_PROBE os) u w token sid aq st = (st', Inr lk)"
    "lock_json (st sid) = Doc (PDict d)" "lock_expiry isoparse (PDict d) = Inr expires" "aq_now aq < expires"
  shows "aq_reclaim_crashed aq \<and> dget d ''reclaimable'' \<noteq> PBool False \<and> \<not> holder_lives os d \<and>
    (case child_holder_view d of None \<Rightarrow> True | Some view \<Rightarrow> \<not> holder_lives os view)"
proof -
  obtain dir where "require_session_dir st sid = Inr dir"
    and r: "lock_replaceable isoparse (REAL_PROBE os) aq (lock_json dir) = Inr ()"
    using acquire_Inr [OF assms(1)] by metis
  then have "dir = st sid" by (auto simp: require_session_dir_def split: if_splits sum.splits bool.splits)
  with r assms(2-4) have "aq_reclaim_crashed aq" "holder_crashed (REAL_PROBE os) d = Inr True"
    by (auto simp: lock_replaceable_def split: if_splits sum.splits)
  then show ?thesis
    using crashed_lock_no_live [of os d] by (auto simp: holder_crashed_def split: if_splits option.splits)
qed

section \<open>Creation\<close>

lemma created_record_fields:
  "record_wf (created_record a m)" "dget (created_record a m) ''session_kind'' = PStr SESSION_KIND_NATIVE"
  "list_all (\<lambda>k. dget (created_record a m) k = PNone) LEGACY_ONLY_FIELDS"
  by (simp_all add: created_record_def new_record_def dget_def LEGACY_ONLY_FIELDS_def
      DECLARED_RECORD_FIELDS_def record_wf_def)

lemma created_record_valid:
  assumes "ca_owner a \<noteq> []" "ca_namespace a \<noteq> []" "ca_workspace_hash a \<noteq> []" "ca_profile_id a \<noteq> []"
    "ca_profile_hash a \<noteq> []" "ca_agent_session_id a \<noteq> []" "session_id_ok (ca_session_id a)"
  shows "validate_native_session_record (created_record a m) (ca_session_id a) = []"
proof -
  have "ca_session_id a \<noteq> []" using assms(7) by (auto simp: session_id_ok_def)
  then show ?thesis using assms
    by (simp add: validate_native_session_record_def created_record_def new_record_def dget_def
        DECLARED_RECORD_FIELDS_def nonempty_str_def plain_int_def py_eq_int_def SCHEMA_VERSION_def)
qed

text \<open>
  Creation is exclusive and complete: a successful creation found no record, publishes one that
  every later strict read of that session returns, and touches no other session; a creation whose
  write did not take effect leaves the store as it was.
\<close>

theorem creation_exclusive:
  assumes "create_native_session w moment a st = (st', res)"
  shows "(case res of
      Inr r \<Rightarrow> session_json (st (ca_session_id a)) = Absent \<and>
        (ca_owner a \<noteq> [] \<and> ca_namespace a \<noteq> [] \<and> ca_workspace_hash a \<noteq> [] \<and> ca_profile_id a \<noteq> [] \<and>
         ca_profile_hash a \<noteq> [] \<longrightarrow> read_native_session_record st' (ca_session_id a) = Some r)
    | Inl err \<Rightarrow> w = Io_Late \<or> st' = st) \<and>
    (\<forall>sid. sid \<noteq> ca_session_id a \<longrightarrow> st' sid = st sid)"
proof (cases res)
  case (Inl err)
  with assms show ?thesis
    by (cases w) (auto simp: create_native_session_def Let_def split: if_splits sum.splits bool.splits)
next
  case (Inr r)
  let ?sid = "ca_session_id a"
  from assms Inr have c: "ca_agent_session_id a \<noteq> []" "session_id_ok ?sid"
    "path_exists (session_json (st ?sid)) = Inr False" "r = created_record a moment"
    "st' = st(?sid := (st ?sid)\<lparr>session_json := Doc (PDict (record_to_dict r))\<rparr>)"
    by (cases w; auto simp: create_native_session_def Let_def split: if_splits sum.splits bool.splits)+
  then have ab: "session_json (st ?sid) = Absent" by (cases "session_json (st ?sid)") auto
  have "open_session st' ?sid = Inr r"
    using c native_roundtrip [OF created_record_fields]
    by (simp add: open_session_def require_session_dir_def read_record_def)
  then show ?thesis
    using Inr c ab created_record_valid [of a moment] by (auto simp: read_native_session_record_def)
qed

section \<open>The fence protocol\<close>

text \<open>
  The contract between the store and whoever must quarantine a session: fencing, if it reports
  success, blocks the session; marking never unblocks it and, if it reports success, leaves durable
  evidence.  Fencing before marking then blocks the session from the first success on, whatever
  fails later.
\<close>

locale quarantine_protocol =
  fixes fence_op :: "'f \<Rightarrow> 's \<Rightarrow> 's \<times> bool"
    and mark_op :: "'m \<Rightarrow> 's \<Rightarrow> 's \<times> bool"
    and blocked :: "'s \<Rightarrow> bool"
    and settled :: "'s \<Rightarrow> bool"
  assumes fence_blocks: "snd (fence_op f s) \<Longrightarrow> blocked (fst (fence_op f s))"
    and mark_keeps: "blocked s \<Longrightarrow> blocked (fst (mark_op m s))"
    and mark_settles: "snd (mark_op m s) \<Longrightarrow> settled (fst (mark_op m s))"
begin

definition fence_then_mark :: "'f \<Rightarrow> 'm \<Rightarrow> 's \<Rightarrow> 's \<times> bool" where
  "fence_then_mark f m s = (if snd (fence_op f s) then mark_op m (fst (fence_op f s)) else fence_op f s)"

lemma protocol_blocks: "snd (fence_op f s) \<Longrightarrow> blocked (fst (fence_then_mark f m s))"
  by (simp add: fence_then_mark_def fence_blocks mark_keeps)

lemma protocol_settles: "snd (fence_then_mark f m s) \<Longrightarrow> settled (fst (fence_then_mark f m s))"
  by (auto simp: fence_then_mark_def mark_settles split: if_splits)

end

definition succeeded :: "'s \<times> ('e + 'a) \<Rightarrow> 's \<times> bool" where
  "succeeded res = (fst res, (case snd res of Inl _ \<Rightarrow> False | Inr _ \<Rightarrow> True))"

lemma fence_success_blocks:
  "snd (succeeded (write_quarantine_pending w sid reason run m st)) \<Longrightarrow>
   fenced (fst (write_quarantine_pending w sid reason run m st)) sid"
  by (cases w) (auto simp: succeeded_def write_quarantine_pending_def fenced_def split: sum.splits)

lemma mark_success_settles:
  assumes "snd (succeeded (mark_quarantined w u sid reason run m st))"
  shows "\<exists>ev. quarantined (fst (mark_quarantined w u sid reason run m st)) sid ev"
proof -
  obtain d ev rec where d: "require_session_dir st sid = Inr d"
    and ev: "build_quarantine_evidence reason run m = Inr ev" and rec: "read_record (session_json d) = Inr rec"
    using assms by (auto simp: succeeded_def mark_quarantined_def split: sum.splits)
  let ?q = "dset ''updated_at'' (PStr m) (dset ''quarantine'' (PDict ev) rec)"
  have "''updated_at'' \<in> set DECLARED_RECORD_FIELDS" by (simp add: DECLARED_RECORD_FIELDS_def)
  then have "record_wf ?q" using read_record_wf [OF rec] quarantine_declared by (simp add: record_wf_dset)
  from read_back [OF this] obtain r' where
    r': "read_record (Doc (PDict (record_to_dict ?q))) = Inr r'" "dget r' ''quarantine'' = PDict ev"
    by auto
  show ?thesis
    using assms d ev rec r'
    by (cases "dget rec ''quarantine'' = PNone"; cases w; cases u)
       (auto simp: succeeded_def mark_quarantined_def Let_def clear_fence_def quarantined_def)
qed

interpretation session_quarantine: quarantine_protocol
    "\<lambda>(w, reason, run, m) st. succeeded (write_quarantine_pending w sid reason run m st)"
    "\<lambda>(w, u, reason, run, m) st. succeeded (mark_quarantined w u sid reason run m st)"
    "\<lambda>st. fenced st sid" "\<lambda>st. \<exists>ev. quarantined st sid ev" for sid
proof unfold_locales
  fix f st
  assume "snd ((case f of (w, reason, run, m) \<Rightarrow> \<lambda>st. succeeded (write_quarantine_pending w sid reason run m st)) st)"
  then show "fenced (fst ((case f of (w, reason, run, m) \<Rightarrow> \<lambda>st. succeeded (write_quarantine_pending w sid reason run m st)) st)) sid"
    using fence_success_blocks by (auto simp: succeeded_def split: prod.splits)
next
  fix st m assume "fenced st sid"
  then have "fenced (fst (mark_quarantined w u sid reason run mm st)) sid" for w u reason run mm
    by (rule store_step_fenced [OF ss_mark])
  then show "fenced (fst ((case m of (w, u, reason, run, m) \<Rightarrow> \<lambda>st. succeeded (mark_quarantined w u sid reason run m st)) st)) sid"
    by (simp add: succeeded_def split: prod.split)
next
  fix m st
  assume "snd ((case m of (w, u, reason, run, m) \<Rightarrow> \<lambda>st. succeeded (mark_quarantined w u sid reason run m st)) st)"
  then show "\<exists>ev. quarantined (fst ((case m of (w, u, reason, run, m) \<Rightarrow> \<lambda>st. succeeded (mark_quarantined w u sid reason run m st)) st)) sid ev"
    using mark_success_settles by (auto simp: succeeded_def split: prod.splits)
qed

section \<open>Inspection and acquisition disagree on a damaged lock\<close>

text \<open>
  Inspection reports a damaged lock as recoverable, but nothing recovers it: when
  \<^verbatim>\<open>lock.json\<close> exists and does not decode, \<^verbatim>\<open>detect_stale_locks\<close> reports an expired,
  recoverable lease at every instant, while every acquisition, at any time and with any options,
  raises and leaves the lock in place.
\<close>

theorem damaged_lock_stuck:
  assumes "lock_json (st sid) = Undecodable"
  shows "stale_report isoparse p now r (lock_json (st sid)) =
      Some \<lparr>se_quarantined = (dget r ''quarantine'' \<noteq> PNone), se_lock_present = True,
            se_lease_expired = True, se_holder_liveness = Some UNKNOWN, se_recoverable = True\<rparr> \<and>
    (\<exists>err. acquire_lock isofmt isoparse p u w token sid aq st = (st, Inl err))"
proof -
  have "stale_report isoparse p now r Undecodable =
      Some \<lparr>se_quarantined = (dget r ''quarantine'' \<noteq> PNone), se_lock_present = True,
            se_lease_expired = True, se_holder_liveness = Some UNKNOWN, se_recoverable = True\<rparr>"
    by (simp add: stale_report_def lock_findings_def recovery_allowed_def)
  moreover have "lock_replaceable isoparse p aq Undecodable = Inl Value_Error"
    by (simp add: lock_replaceable_def)
  then have "\<exists>err. acquire_lock isofmt isoparse p u w token sid aq st = (st, Inl err)"
    using assms
    by (auto simp: acquire_lock_def require_session_dir_def split: sum.splits bool.splits pyval.splits)
  ultimately show ?thesis using assms by simp
qed

section \<open>A concrete store\<close>

definition demo_iso :: "int \<Rightarrow> string" where
  "demo_iso t = (if t < 0 then CHR ''-'' else CHR ''+'') #
     replicate (nat \<bar>t div 1000000\<bar>) (CHR ''x'') @ replicate (nat (t mod 1000000)) (CHR ''y'')"

fun demo_isoparse :: "string \<Rightarrow> int option" where
  "demo_isoparse [] = None"
| "demo_isoparse (c # cs) = Some ((if c = CHR ''-'' then - 1000000 else 1000000) *
     int (length (filter (\<lambda>d. d = CHR ''x'') cs)) + int (length (filter (\<lambda>d. d = CHR ''y'') cs)))"

lemma demo_iso_roundtrip: "demo_isoparse (demo_iso t) = Some t"
proof -
  have "(if t < 0 then - 1000000 else 1000000) * \<bar>t div 1000000\<bar> + t mod 1000000 = t" by auto
  then show ?thesis by (auto simp: demo_iso_def)
qed

definition demo_store :: store where
  "demo_store sid =
     (if sid = ''s1''
      then empty_sdir\<lparr>session_json := Doc (PDict (record_to_dict demo_record))\<rparr> else empty_sdir)"

definition demo_acquire :: acquire_args where
  "demo_acquire = \<lparr>aq_owner = ''o'', aq_now = 10000000, aq_lease_seconds = PInt 5, aq_reclaim_crashed = True,
     aq_reclaimable = True, aq_holder_kind = ''supervisor'', aq_refuse_quarantined = True\<rparr>"

definition demo_fenced :: store where
  "demo_fenced = fst (write_quarantine_pending Io_Late ''s1'' ''DISPATCH_OBSERVATION_LOST'' ''run-1'' ''m'' demo_store)"

definition demo_quarantined :: store where
  "demo_quarantined =
     fst (mark_quarantined Io_Ok Io_Lost ''s1'' ''DISPATCH_OBSERVATION_LOST'' ''run-1'' ''m'' demo_fenced)"

theorem quarantine_irreversible_witness:
  "\<exists>ev. quarantined (fst (mark_quarantined Io_Ok Io_Ok ''s1'' ''SWITCH_ROLLBACK_UNPROVEN'' ''run-2'' ''n'' demo_quarantined))
     ''s1'' ev \<and> ev = PDict [(''reason_code'', PStr ''DISPATCH_OBSERVATION_LOST''),
       (''source_run_id'', PStr ''run-1''), (''recorded_at'', PStr ''m'')]"
proof -
  let ?ev = "PDict [(''reason_code'', PStr ''DISPATCH_OBSERVATION_LOST''),
       (''source_run_id'', PStr ''run-1''), (''recorded_at'', PStr ''m'')]"
  have "(case read_record (session_json (demo_quarantined ''s1'')) of
      Inr r \<Rightarrow> dget r ''quarantine'' = ?ev | Inl _ \<Rightarrow> False)" by code_simp
  then have "quarantined demo_quarantined ''s1'' ?ev"
    by (auto simp: quarantined_def split: sum.splits)
  moreover have "(store_step demo_iso demo_isoparse)\<^sup>*\<^sup>* demo_quarantined
      (fst (mark_quarantined Io_Ok Io_Ok ''s1'' ''SWITCH_ROLLBACK_UNPROVEN'' ''run-2'' ''n'' demo_quarantined))"
    by (rule r_into_rtranclp, rule ss_mark)
  ultimately show ?thesis using quarantine_irreversible by blast
qed

theorem fenced_never_leased_witness:
  "\<exists>err. acquire_lock demo_iso demo_isoparse (REAL_PROBE demo_os) Io_Ok Io_Ok ''t'' ''s1'' demo_acquire demo_quarantined
     = (demo_quarantined, Inl err)"
proof -
  have "fence_json (demo_fenced ''s1'') \<noteq> Absent" "aq_refuse_quarantined demo_acquire" by code_simp+
  moreover have "(store_step demo_iso demo_isoparse)\<^sup>*\<^sup>* demo_fenced demo_quarantined"
    unfolding demo_quarantined_def by (rule r_into_rtranclp, rule ss_mark)
  ultimately show ?thesis
    using fenced_never_leased [of demo_fenced "''s1''"] by (auto simp: fenced_def)
qed

definition demo_leased :: "store \<times> (session_error + session_lock)" where
  "demo_leased = acquire_lock demo_iso demo_isoparse (REAL_PROBE demo_os) Io_Ok Io_Ok ''t'' ''s1'' demo_acquire demo_store"

lemma demo_leased_ok: "\<exists>lk. demo_leased = (fst demo_leased, Inr lk)"
proof -
  have "(case snd demo_leased of Inl _ \<Rightarrow> False | Inr _ \<Rightarrow> True)" by code_simp
  then show ?thesis by (cases "snd demo_leased") (auto simp: prod_eq_iff)
qed

theorem lease_exclusive_witness:
  "leased demo_isoparse (fst demo_leased) ''s1'' ''t'' 15000000 \<and>
   release_lock Io_Ok ''s1'' ''u'' (fst demo_leased) = (fst demo_leased, Inl SessionLockError)"
proof -
  obtain lk where "acquire_lock demo_iso demo_isoparse (REAL_PROBE demo_os) Io_Ok Io_Ok ''t'' ''s1'' demo_acquire demo_store
      = (fst demo_leased, Inr lk)"
    using demo_leased_ok by (auto simp: demo_leased_def)
  from lease_exclusive [OF this demo_iso_roundtrip] show ?thesis by (simp add: demo_acquire_def)
qed

text \<open>A lease of a process that is gone, on the demo host, taken over before it expires.\<close>

definition demo_dead_lock :: pydict where
  "demo_dead_lock = [(''token'', PStr ''t''), (''expires_at'', PStr (demo_iso 20000000)), (''pid'', PInt 5),
     (''host'', PStr ''h''), (''reclaimable'', PBool True)]"

definition demo_dead_store :: store where
  "demo_dead_store = demo_store(''s1'' := (demo_store ''s1'')\<lparr>lock_json := Doc (PDict demo_dead_lock)\<rparr>)"

theorem takeover_only_from_dead_witness:
  "\<not> holder_lives demo_os demo_dead_lock"
proof -
  let ?r = "acquire_lock demo_iso demo_isoparse (REAL_PROBE demo_os) Io_Ok Io_Ok ''t2'' ''s1'' demo_acquire demo_dead_store"
  have "(case snd ?r of Inl _ \<Rightarrow> False | Inr _ \<Rightarrow> True)" by code_simp
  then obtain lk where r: "?r = (fst ?r, Inr lk)" by (cases "snd ?r") (auto simp: prod_eq_iff)
  have "lock_expiry demo_isoparse (PDict demo_dead_lock) = Inr 20000000" "aq_now demo_acquire < 20000000" by code_simp+
  then show ?thesis
    using takeover_only_from_dead [OF r] by (simp add: demo_dead_store_def)
qed

definition demo_create :: create_args where
  "demo_create = \<lparr>ca_session_id = ''s2'', ca_profile_id = ''p'', ca_profile_revision = 1, ca_profile_hash = ''h'',
     ca_owner = ''o'', ca_namespace = ''n'', ca_workspace_hash = ''w'', ca_effective_cwd = ''/c'',
     ca_matched_root = None, ca_agent_session_id = ''a'', ca_agent_id = None, ca_session_epoch = None\<rparr>"

theorem creation_exclusive_witness:
  "read_native_session_record (fst (create_native_session Io_Ok ''m'' demo_create demo_store)) ''s2'' =
     Some (created_record demo_create ''m'')"
proof -
  let ?r = "create_native_session Io_Ok ''m'' demo_create demo_store"
  have "snd ?r = Inr (created_record demo_create ''m'')" by code_simp
  then have "?r = (fst ?r, Inr (created_record demo_create ''m''))" by (simp add: prod_eq_iff)
  from creation_exclusive [OF this] show ?thesis by (simp add: demo_create_def)
qed

theorem damaged_lock_stuck_witness:
  "\<exists>err. acquire_lock demo_iso demo_isoparse (REAL_PROBE demo_os) Io_Ok Io_Ok ''t'' ''s1'' demo_acquire
     (demo_store(''s1'' := (demo_store ''s1'')\<lparr>lock_json := Undecodable\<rparr>)) =
     (demo_store(''s1'' := (demo_store ''s1'')\<lparr>lock_json := Undecodable\<rparr>), Inl err)"
  using damaged_lock_stuck [of "demo_store(''s1'' := (demo_store ''s1'')\<lparr>lock_json := Undecodable\<rparr>)" "''s1''"]
  by simp

end
