(* ===== verification/Spec_Documents.thy ===== *)
theory Spec_Documents
  imports Session_Record
begin

text \<open>
  The sealed admission documents of \<^verbatim>\<open>native_acp/spec.py\<close>: run limits and the event budget
  policy, the environment resolved once in five layers, the value-blind launch snapshot
  (\<^verbatim>\<open>launch.json\<close>) with its strict reader, and the Spec document's shape and seal.  The
  launch-permission policies of \<^verbatim>\<open>native_acp/launch_permissions.py\<close> and the environment
  name grammar of \<^verbatim>\<open>native_acp/agent_registration.py\<close> are part of that reader.
  SHA-256 of a text is the argument \<open>sha\<close>; a reader that raises is the value \<^const>\<open>None\<close>.
\<close>

section \<open>Run limits and the event budget\<close>

definition LIMIT_STARTUP_TIMEOUT_SECONDS_MAX :: rat where
  "LIMIT_STARTUP_TIMEOUT_SECONDS_MAX = (3600 :: rat)"

definition LIMIT_TURN_TIMEOUT_SECONDS_MAX :: rat where
  "LIMIT_TURN_TIMEOUT_SECONDS_MAX = (604800 :: rat)"

definition LIMIT_CANCEL_GRACE_SECONDS_MAX :: rat where
  "LIMIT_CANCEL_GRACE_SECONDS_MAX = (300 :: rat)"

definition LIMIT_MAX_STDERR_BYTES_MAX :: int where
  "LIMIT_MAX_STDERR_BYTES_MAX = (64 * 1024 * 1024 :: int)"

definition LIMIT_MAX_EVENT_BYTES_MAX :: int where
  "LIMIT_MAX_EVENT_BYTES_MAX = (1024 * 1024 :: int)"

definition LIMIT_MAX_EVENTS_MAX :: int where
  "LIMIT_MAX_EVENTS_MAX = (1000000 :: int)"

definition LIMIT_MAX_EVENT_BYTES_MIN :: int where
  "LIMIT_MAX_EVENT_BYTES_MIN = (256 :: int)"

definition DEFAULT_MAX_RUN_EVENT_BUDGET_BYTES :: int where
  "DEFAULT_MAX_RUN_EVENT_BUDGET_BYTES = (4 * 1024 * 1024 * 1024 :: int)"

definition STRUCTURAL_MAX_RUN_EVENT_BUDGET_BYTES :: int where
  "STRUCTURAL_MAX_RUN_EVENT_BUDGET_BYTES = LIMIT_MAX_EVENT_BYTES_MAX * LIMIT_MAX_EVENTS_MAX"

definition validate_limit_float :: "pyval \<Rightarrow> rat \<Rightarrow> bool" where
  "validate_limit_float v maximum =
     (case v of
        PInt n \<Rightarrow> 0 < n \<and> of_int n \<le> maximum
      | PFloat (PFin q) \<Rightarrow> 0 < q \<and> q \<le> maximum
      | _ \<Rightarrow> False)"

definition validate_limit_int :: "pyval \<Rightarrow> int \<Rightarrow> int \<Rightarrow> bool" where
  "validate_limit_int v maximum minimum =
     (case v of PInt n \<Rightarrow> minimum \<le> n \<and> n \<le> maximum | _ \<Rightarrow> False)"

text \<open>\<^verbatim>\<open>EventBudgetPolicy\<close>: the ceiling when the constructor accepts the value.\<close>

definition event_budget_policy :: "pyval \<Rightarrow> int option" where
  "event_budget_policy v =
     (case v of
        PInt n \<Rightarrow> if 0 < n \<and> n \<le> STRUCTURAL_MAX_RUN_EVENT_BUDGET_BYTES then Some n else None
      | _ \<Rightarrow> None)"

record run_limits =
  startup_timeout_seconds :: pyval
  turn_timeout_seconds :: pyval
  cancel_grace_seconds :: pyval
  max_stderr_bytes :: pyval
  max_event_bytes :: pyval
  max_events :: pyval

definition default_run_limits :: run_limits where
  "default_run_limits =
     \<lparr>startup_timeout_seconds = PFloat (PFin 60), turn_timeout_seconds = PFloat (PFin 21600),
      cancel_grace_seconds = PFloat (PFin 10), max_stderr_bytes = PInt 262144,
      max_event_bytes = PInt 65536, max_events = PInt 10000\<rparr>"

definition check_run_limits :: "int \<Rightarrow> run_limits \<Rightarrow> bool" where
  "check_run_limits cap l =
     (case (max_event_bytes l, max_events l) of
        (PInt b, PInt n) \<Rightarrow> b * n \<le> cap
      | _ \<Rightarrow> False)"

definition run_limits_fields_ok :: "run_limits \<Rightarrow> bool" where
  "run_limits_fields_ok l \<longleftrightarrow>
     validate_limit_float (startup_timeout_seconds l) LIMIT_STARTUP_TIMEOUT_SECONDS_MAX \<and>
     validate_limit_float (turn_timeout_seconds l) LIMIT_TURN_TIMEOUT_SECONDS_MAX \<and>
     validate_limit_float (cancel_grace_seconds l) LIMIT_CANCEL_GRACE_SECONDS_MAX \<and>
     validate_limit_int (max_stderr_bytes l) LIMIT_MAX_STDERR_BYTES_MAX 1 \<and>
     validate_limit_int (max_event_bytes l) LIMIT_MAX_EVENT_BYTES_MAX LIMIT_MAX_EVENT_BYTES_MIN \<and>
     validate_limit_int (max_events l) LIMIT_MAX_EVENTS_MAX 1"

text \<open>The constructor, under the daemon's ceiling (\<^const>\<open>None\<close>: the default policy).\<close>

definition run_limits_accepted :: "int option \<Rightarrow> run_limits \<Rightarrow> bool" where
  "run_limits_accepted policy l \<longleftrightarrow>
     run_limits_fields_ok l \<and>
     check_run_limits (case policy of None \<Rightarrow> DEFAULT_MAX_RUN_EVENT_BUDGET_BYTES | Some c \<Rightarrow> c) l"

lemma limit_int_iff: "validate_limit_int v hi lo \<longleftrightarrow> (\<exists>n. v = PInt n \<and> lo \<le> n \<and> n \<le> hi)"
  by (cases v) (auto simp: validate_limit_int_def)

text \<open>
  The structural policy widens and narrows nothing: limits are accepted under it exactly when
  every field is within its own bounds, so parsing a request under it decides shape only; and limits
  accepted under any admissible ceiling never let one run's event ledger exceed that ceiling.
\<close>

theorem structural_policy_adds_nothing:
  "(run_limits_accepted (Some STRUCTURAL_MAX_RUN_EVENT_BUDGET_BYTES) l \<longleftrightarrow> run_limits_fields_ok l) \<and>
   (run_limits_accepted (Some c) l \<longleftrightarrow> run_limits_fields_ok l \<and>
      (\<exists>b n. max_event_bytes l = PInt b \<and> max_events l = PInt n \<and> b * n \<le> c))"
proof -
  have "check_run_limits STRUCTURAL_MAX_RUN_EVENT_BUDGET_BYTES l" if ok: "run_limits_fields_ok l"
  proof -
    obtain b n where "max_event_bytes l = PInt b" "max_events l = PInt n" "0 \<le> b" "0 \<le> n"
      "b \<le> LIMIT_MAX_EVENT_BYTES_MAX" "n \<le> LIMIT_MAX_EVENTS_MAX"
      using ok by (auto simp: run_limits_fields_ok_def limit_int_iff LIMIT_MAX_EVENT_BYTES_MIN_def)
    then show ?thesis
      by (simp add: check_run_limits_def STRUCTURAL_MAX_RUN_EVENT_BUDGET_BYTES_def mult_mono)
  qed
  moreover have "check_run_limits c l \<longleftrightarrow>
      (\<exists>b n. max_event_bytes l = PInt b \<and> max_events l = PInt n \<and> b * n \<le> c)"
    by (auto simp: check_run_limits_def split: pyval.splits)
  ultimately show ?thesis by (auto simp: run_limits_accepted_def)
qed

section \<open>Launch permission policies\<close>

definition POLICY_DENY_WRITE_AND_SHELL_V1 :: string where
  "POLICY_DENY_WRITE_AND_SHELL_V1 = ''deny-write-and-shell-v1''"

definition CURSOR_CONFIG_DIR_ENV :: string where
  "CURSOR_CONFIG_DIR_ENV = ''CURSOR_CONFIG_DIR''"

definition ENV_SOURCE_LAUNCH_PERMISSION :: string where
  "ENV_SOURCE_LAUNCH_PERMISSION = ''launch_permission''"

definition POLICY_DOCUMENTS :: "(string \<times> pydict) list" where
  "POLICY_DOCUMENTS =
     [(POLICY_DENY_WRITE_AND_SHELL_V1,
       [(''permissions'', PDict [(''deny'', PList [PStr ''Shell(*)'', PStr ''Write(**)''])])])]"

definition POLICY_ENV_NAMES :: "(string \<times> string) list" where
  "POLICY_ENV_NAMES = [(POLICY_DENY_WRITE_AND_SHELL_V1, CURSOR_CONFIG_DIR_ENV)]"

definition RESERVED_LAUNCH_PERMISSION_KEYS :: "string list" where
  "RESERVED_LAUNCH_PERMISSION_KEYS = map snd POLICY_ENV_NAMES"

text \<open>The canonical text of a document without numbers never consults the float printer.\<close>

definition canonical_text :: "pydict \<Rightarrow> string" where
  "canonical_text d = (case dumps_fmt (fmt_canonical (\<lambda>_. [])) (PDict d) 0 of Some t \<Rightarrow> t | None \<Rightarrow> [])"

datatype launch_permission_error =
  LAUNCH_PERMISSION_UNKNOWN_POLICY | LAUNCH_PERMISSION_UNSUPPORTED_GRANT

definition compile_policy_document :: "string \<Rightarrow> string list \<Rightarrow> launch_permission_error + string" where
  "compile_policy_document policy_id capabilities =
     (case map_of POLICY_DOCUMENTS policy_id of
        None \<Rightarrow> Inl LAUNCH_PERMISSION_UNKNOWN_POLICY
      | Some document \<Rightarrow>
          if \<exists>c \<in> set capabilities. c \<notin> {''read'', ''search''}
          then Inl LAUNCH_PERMISSION_UNSUPPORTED_GRANT
          else Inr (canonical_text document))"

definition policy_digest :: "(string \<Rightarrow> string) \<Rightarrow> string \<Rightarrow> string" where
  "policy_digest sha document = ''sha256:'' @ sha document"

definition canonical_policy_digest :: "(string \<Rightarrow> string) \<Rightarrow> pyval \<Rightarrow> string option" where
  "canonical_policy_digest sha v =
     (case v of
        PStr policy_id \<Rightarrow> map_option (\<lambda>d. policy_digest sha (canonical_text d)) (map_of POLICY_DOCUMENTS policy_id)
      | _ \<Rightarrow> None)"

definition policy_pair_is_exact :: "(string \<Rightarrow> string) \<Rightarrow> pyval \<Rightarrow> pyval \<Rightarrow> bool" where
  "policy_pair_is_exact sha policy_id digest \<longleftrightarrow>
     (if policy_id = PNone \<and> digest = PNone then True
      else if policy_id = PNone \<or> digest = PNone then False
      else if \<not> is_str policy_id \<or> \<not> is_str digest then False
      else (case canonical_policy_digest sha policy_id of
              None \<Rightarrow> False | Some canonical \<Rightarrow> digest = PStr canonical))"

definition projection_matches_policy :: "pyval \<Rightarrow> (pyval \<times> pyval) list \<Rightarrow> bool" where
  "projection_matches_policy policy_id entries \<longleftrightarrow>
     list_all (\<lambda>(name, source). name \<in> set (map PStr RESERVED_LAUNCH_PERMISSION_KEYS) \<longrightarrow>
                 source = PStr ENV_SOURCE_LAUNCH_PERMISSION) entries \<and>
     (let projected = map fst (filter (\<lambda>(name, source). source = PStr ENV_SOURCE_LAUNCH_PERMISSION) entries)
      in case policy_id of
           PNone \<Rightarrow> projected = []
         | PStr p \<Rightarrow> (case map_of POLICY_ENV_NAMES p of
                        None \<Rightarrow> False | Some expected \<Rightarrow> projected = [PStr expected])
         | _ \<Rightarrow> False)"

section \<open>Environment names\<close>

definition is_env_name :: "pyval \<Rightarrow> bool" where
  "is_env_name v =
     (case v of
        PStr (c # cs) \<Rightarrow> length (c # cs) \<le> 128 \<and> (lower_alpha c \<or> upper_alpha c \<or> c = CHR ''_'') \<and>
          list_all (\<lambda>x. alnum x \<or> x = CHR ''_'') cs
      | _ \<Rightarrow> False)"

definition is_env_passthrough_domain :: "pyval \<Rightarrow> bool" where
  "is_env_passthrough_domain v =
     (case v of
        PList names \<Rightarrow> length names \<le> 32 \<and> list_all is_env_name names \<and> distinct names
      | _ \<Rightarrow> False)"

section \<open>Resolving the environment once\<close>

definition ENV_PRECEDENCE :: "(string \<times> int) list" where
  "ENV_PRECEDENCE = [(''base'', 1), (''passthrough'', 2), (''overlay'', 3), (''mediation'', 4),
     (ENV_SOURCE_LAUNCH_PERMISSION, 5)]"

definition MEDIATION_BINDINGS :: "(string \<times> (string \<times> string) list) list" where
  "MEDIATION_BINDINGS =
     [(''ask-privileged-tool-families-v1'',
       [(''OPENCODE_PERMISSION'', ''{\"bash\":\"ask\",\"edit\":\"ask\",\"webfetch\":\"ask\"}'')])]"

definition MEDIATION_BINDING_IDS :: "string list" where
  "MEDIATION_BINDING_IDS = map fst MEDIATION_BINDINGS"

type_synonym env_map = "(string \<times> (string \<times> string \<times> int)) list"

definition place :: "string \<Rightarrow> string \<times> string \<Rightarrow> env_map \<Rightarrow> env_map" where
  "place source nv = dset (fst nv) (snd nv, source, the (map_of ENV_PRECEDENCE source))"

text \<open>The names of a layer the daemon's environment holds, with its values.\<close>

definition present_in :: "(string \<times> string) list \<Rightarrow> string list \<Rightarrow> (string \<times> string) list" where
  "present_in arsd_env names = List.map_filter (\<lambda>n. map_option (Pair n) (map_of arsd_env n)) names"

record env_layers =
  el_arsd_env :: "(string \<times> string) list"
  el_base_names :: "string list"
  el_passthrough :: "string list"
  el_overlay :: "(string \<times> string) list"
  el_mediation :: "(string \<times> string) list"
  el_mediation_id :: "string option"
  el_launch_permission :: "(string \<times> string) list"

definition resolved_map :: "env_layers \<Rightarrow> env_map" where
  "resolved_map l =
     (fold (place ENV_SOURCE_LAUNCH_PERMISSION) (el_launch_permission l) \<circ>
      fold (place ''mediation'') (el_mediation l) \<circ>
      fold (place ''overlay'') (el_overlay l) \<circ>
      fold (place ''passthrough'') (present_in (el_arsd_env l) (el_passthrough l)) \<circ>
      fold (place ''base'') (present_in (el_arsd_env l) (el_base_names l))) []"

definition environment_layers :: "env_layers \<Rightarrow> env_map" where
  "environment_layers l = (let resolved = resolved_map l in
     map (\<lambda>n. (n, the (map_of resolved n))) (sort (map fst resolved)))"

record env_name =
  en_name :: string
  en_source :: string
  en_precedence :: int

record env_projection =
  ep_names :: "env_name list"
  ep_declared_absent :: "string list"
  ep_mediation_id :: "string option"

record resolved_environment =
  re_values :: "(string \<times> string) list"
  re_projection :: env_projection

definition resolve_environment :: "env_layers \<Rightarrow> resolved_environment" where
  "resolve_environment l =
     (let layers = environment_layers l in
      \<lparr>re_values = map (\<lambda>(n, v, s, p). (n, v)) layers,
       re_projection =
         \<lparr>ep_names = map (\<lambda>(n, v, s, p). \<lparr>en_name = n, en_source = s, en_precedence = p\<rparr>) layers,
          ep_declared_absent = filter (\<lambda>n. map_of (el_arsd_env l) n = None) (el_passthrough l),
          ep_mediation_id = el_mediation_id l\<rparr>\<rparr>)"

definition ENV_REDACTION_MARKER :: string where
  "ENV_REDACTION_MARKER = ''all-values-withheld''"

definition env_name_to_dict :: "env_name \<Rightarrow> pydict" where
  "env_name_to_dict e =
     [(''name'', PStr (en_name e)), (''source'', PStr (en_source e)),
      (''precedence'', PInt (en_precedence e)), (''redacted'', PBool True)]"

definition env_projection_to_dict :: "env_projection \<Rightarrow> pydict" where
  "env_projection_to_dict e =
     [(''values_persisted'', PBool False), (''redaction'', PStr ENV_REDACTION_MARKER),
      (''resolved_count'', PInt (int (length (ep_names e)))),
      (''mediation_id'', pstr_opt (ep_mediation_id e)),
      (''names'', PList (map (\<lambda>n. PDict (env_name_to_dict n)) (ep_names e))),
      (''declared_absent'', PList (map PStr (ep_declared_absent e)))]"

section \<open>The strict reader of the environment block\<close>

text \<open>\<^verbatim>\<open>all(f(x) for x in xs)\<close> stops at the first false value or exception.\<close>

fun all_opt :: "('a \<Rightarrow> bool option) \<Rightarrow> 'a list \<Rightarrow> bool option" where
  "all_opt f [] = Some True"
| "all_opt f (x # xs) = (case f x of Some True \<Rightarrow> all_opt f xs | r \<Rightarrow> r)"

definition ENV_PROJECTION_FIELDS :: "string list" where
  "ENV_PROJECTION_FIELDS =
     [''values_persisted'', ''redaction'', ''resolved_count'', ''mediation_id'', ''names'', ''declared_absent'']"

definition ENV_NAME_FIELDS :: "string list" where
  "ENV_NAME_FIELDS = [''name'', ''source'', ''precedence'', ''redacted'']"

definition keys_are :: "string list \<Rightarrow> pydict \<Rightarrow> bool" where
  "keys_are ks d \<longleftrightarrow> set (map fst d) = set ks"

definition env_name_entry_is_exact :: "pyval \<Rightarrow> bool option" where
  "env_name_entry_is_exact item =
     (case item of
        PDict d \<Rightarrow>
          if \<not> keys_are ENV_NAME_FIELDS d then Some False
          else if \<not> is_env_name (dget d ''name'') then Some False
          else if \<not> py_hashable (dget d ''source'') then None
          else (case dget d ''source'' of
                  PStr source \<Rightarrow>
                    (case map_of ENV_PRECEDENCE source of
                       None \<Rightarrow> Some False
                     | Some p \<Rightarrow> Some (dget d ''precedence'' = PInt p \<and> dget d ''redacted'' = PBool True))
                | _ \<Rightarrow> Some False)
      | _ \<Rightarrow> Some False)"

fun entry_name :: "pyval \<Rightarrow> string" where
  "entry_name (PDict d) = (case dget d ''name'' of PStr s \<Rightarrow> s | _ \<Rightarrow> [])"
| "entry_name _ = []"

text \<open>What remains once the entries are exact: order, count and the declared-absent names.\<close>

definition env_names_consistent :: "pydict \<Rightarrow> pyval list \<Rightarrow> bool" where
  "env_names_consistent d items \<longleftrightarrow>
     (let projected = map entry_name items in
      projected = sort (remdups projected) \<and>
      dget d ''resolved_count'' = PInt (int (length projected)) \<and>
      is_env_passthrough_domain (dget d ''declared_absent''))"

definition env_projection_shape_is_exact :: "pyval \<Rightarrow> bool option" where
  "env_projection_shape_is_exact payload =
     (case payload of
        PDict d \<Rightarrow>
          if \<not> keys_are ENV_PROJECTION_FIELDS d then Some False
          else if dget d ''values_persisted'' \<noteq> PBool False then Some False
          else if dget d ''redaction'' \<noteq> PStr ENV_REDACTION_MARKER then Some False
          else if \<not> py_hashable (dget d ''mediation_id'') then None
          else if dget d ''mediation_id'' \<noteq> PNone \<and>
                  dget d ''mediation_id'' \<notin> set (map PStr MEDIATION_BINDING_IDS) then Some False
          else (case dget d ''names'' of
                  PList items \<Rightarrow>
                    (case all_opt env_name_entry_is_exact items of
                       Some True \<Rightarrow> Some (env_names_consistent d items)
                     | r \<Rightarrow> r)
                | _ \<Rightarrow> Some False)
      | _ \<Rightarrow> Some False)"

section \<open>The launch snapshot\<close>

definition LAUNCH_SCHEMA_VERSION :: int where
  "LAUNCH_SCHEMA_VERSION = (2 :: int)"

text \<open>\<open>ls_session_meta\<close> is the decoded value of the \<^verbatim>\<open>session_meta\<close> text.\<close>

record launch_snapshot =
  ls_command :: string
  ls_argv :: "string list"
  ls_profile_id :: string
  ls_profile_revision :: int
  ls_profile_hash :: string
  ls_agent_id :: string
  ls_env :: env_projection
  ls_mediation_id :: "string option"
  ls_model_selector_id :: string
  ls_effort_selector_id :: "string option"
  ls_forbidden_capabilities :: "string list"
  ls_credential_refs :: "string list"
  ls_session_epoch :: "int option"
  ls_session_meta :: "pyval option"
  ls_policy_id :: "string option"
  ls_policy_digest :: "string option"

text \<open>\<^verbatim>\<open>__post_init__\<close> accepts the snapshot.\<close>

definition launch_snapshot_ok :: "(string \<Rightarrow> string) \<Rightarrow> launch_snapshot \<Rightarrow> bool" where
  "launch_snapshot_ok sha s \<longleftrightarrow>
     ls_argv s \<noteq> [] \<and> hd (ls_argv s) = ls_command s \<and>
     policy_pair_is_exact sha (pstr_opt (ls_policy_id s)) (pstr_opt (ls_policy_digest s)) \<and>
     projection_matches_policy (pstr_opt (ls_policy_id s))
       (map (\<lambda>e. (PStr (en_name e), PStr (en_source e))) (ep_names (ls_env s)))"

definition launch_to_dict :: "launch_snapshot \<Rightarrow> pydict" where
  "launch_to_dict s =
     [(''schema_version'', PInt LAUNCH_SCHEMA_VERSION), (''command'', PStr (ls_command s)),
      (''argv'', PList (map PStr (ls_argv s))), (''profile_id'', PStr (ls_profile_id s)),
      (''profile_revision'', PInt (ls_profile_revision s)), (''profile_hash'', PStr (ls_profile_hash s)),
      (''agent_id'', PStr (ls_agent_id s)), (''env'', PDict (env_projection_to_dict (ls_env s))),
      (''mediation_id'', pstr_opt (ls_mediation_id s)), (''model_selector_id'', PStr (ls_model_selector_id s)),
      (''effort_selector_id'', pstr_opt (ls_effort_selector_id s)),
      (''forbidden_capabilities'', PList (map PStr (ls_forbidden_capabilities s))),
      (''credential_refs'', PList (map PStr (ls_credential_refs s))),
      (''session_epoch'', case ls_session_epoch s of None \<Rightarrow> PNone | Some n \<Rightarrow> PInt n)] @
     (case ls_session_meta s of None \<Rightarrow> [] | Some m \<Rightarrow> [(''session_meta'', m)]) @
     (case ls_policy_id s of None \<Rightarrow> []
      | Some p \<Rightarrow> [(''launch_permission_policy_id'', PStr p),
                    (''launch_permission_digest'', pstr_opt (ls_policy_digest s))])"

definition canonical_hash :: "(string \<Rightarrow> string) \<Rightarrow> (rat \<Rightarrow> string) \<Rightarrow> pydict \<Rightarrow> string option" where
  "canonical_hash sha fr d = map_option sha (dumps_fmt (fmt_canonical fr) (PDict d) 0)"

definition launch_hash :: "(string \<Rightarrow> string) \<Rightarrow> (rat \<Rightarrow> string) \<Rightarrow> launch_snapshot \<Rightarrow> string option" where
  "launch_hash sha fr s = canonical_hash sha fr (launch_to_dict s)"

definition launch_hash_of_payload :: "(string \<Rightarrow> string) \<Rightarrow> (rat \<Rightarrow> string) \<Rightarrow> pydict \<Rightarrow> string option" where
  "launch_hash_of_payload sha fr payload = canonical_hash sha fr (ddel ''launch_spec_hash'' payload)"

definition LAUNCH_REQUIRED_FIELDS :: "string list" where
  "LAUNCH_REQUIRED_FIELDS =
     [''schema_version'', ''command'', ''argv'', ''profile_id'', ''profile_revision'', ''profile_hash'',
      ''agent_id'', ''env'', ''mediation_id'', ''model_selector_id'', ''effort_selector_id'',
      ''forbidden_capabilities'', ''credential_refs'', ''session_epoch'', ''launch_spec_hash'']"

definition LAUNCH_OPTIONAL_FIELDS :: "string list" where
  "LAUNCH_OPTIONAL_FIELDS = [''session_meta'', ''launch_permission_policy_id'', ''launch_permission_digest'']"

definition launch_command_ok :: "pydict \<Rightarrow> bool" where
  "launch_command_ok d \<longleftrightarrow>
     nonempty_str (dget d ''command'') \<and>
     (case dget d ''argv'' of
        PList argv \<Rightarrow> argv \<noteq> [] \<and> list_all is_str argv \<and> hd argv = dget d ''command''
      | _ \<Rightarrow> False)"

fun name_source :: "pyval \<Rightarrow> (pyval \<times> pyval) option" where
  "name_source (PDict d) = Some (dget d ''name'', dget d ''source'')"
| "name_source _ = None"

definition env_pairs :: "pyval \<Rightarrow> (pyval \<times> pyval) list" where
  "env_pairs env =
     (case env of PDict e \<Rightarrow> (case dget e ''names'' of PList items \<Rightarrow> List.map_filter name_source items | _ \<Rightarrow> [])
      | _ \<Rightarrow> [])"

definition launch_payload_shape_is_exact :: "(string \<Rightarrow> string) \<Rightarrow> pyval \<Rightarrow> bool option" where
  "launch_payload_shape_is_exact sha payload =
     (case payload of
        PDict d \<Rightarrow>
          if \<not> set LAUNCH_REQUIRED_FIELDS \<subseteq> set (map fst d) then Some False
          else if \<not> set (map fst d) \<subseteq> set (LAUNCH_REQUIRED_FIELDS @ LAUNCH_OPTIONAL_FIELDS) then Some False
          else if \<not> py_eq_int (dget d ''schema_version'') LAUNCH_SCHEMA_VERSION then Some False
          else if \<not> launch_command_ok d then Some False
          else if \<not> nonempty_str (dget d ''agent_id'') then Some False
          else if \<not> is_str (dget d ''launch_spec_hash'') then Some False
          else (case env_projection_shape_is_exact (dget d ''env'') of
                  Some True \<Rightarrow> Some
                    (policy_pair_is_exact sha (dget d ''launch_permission_policy_id'') (dget d ''launch_permission_digest'') \<and>
                     projection_matches_policy (dget d ''launch_permission_policy_id'') (env_pairs (dget d ''env'')))
                | r \<Rightarrow> r)
      | _ \<Rightarrow> Some False)"

section \<open>The Spec document\<close>

definition SPEC_SCHEMA_VERSION :: int where
  "SPEC_SCHEMA_VERSION = (3 :: int)"

definition GENERATED_FIELDS :: "string list" where
  "GENERATED_FIELDS = [''run_id'', ''submitted_at'', ''retry_of_run_id'']"

definition spec_hash_of_payload :: "(string \<Rightarrow> string) \<Rightarrow> (rat \<Rightarrow> string) \<Rightarrow> pydict \<Rightarrow> string option" where
  "spec_hash_of_payload sha fr payload =
     canonical_hash sha fr (filter (\<lambda>p. fst p \<notin> set GENERATED_FIELDS \<and> fst p \<noteq> ''spec_hash'') payload)"

definition SPEC_FIELDS :: "string list" where
  "SPEC_FIELDS =
     [''schema_version'', ''identity'', ''session'', ''agent'', ''execution_grant'', ''workspace'',
      ''runtime'', ''bindings'', ''input_refs'', ''limits'', ''evidence_policy_hash'',
      ''recovery_policy_hash'', ''launch_spec_hash'', ''run_id'', ''submitted_at'', ''retry_of_run_id'']"

definition spec_block_models :: "(string \<times> string list) list" where
  "spec_block_models =
     [(''identity'', [''owner'', ''namespace'']),
      (''session'', [''session_id'', ''expected_binding_hash'']),
      (''agent'', [''agent_id'', ''profile_id'', ''profile_revision'', ''profile_snapshot_ref'',
                   ''profile_hash'', ''session_epoch'']),
      (''execution_grant'', [''grant_ref'', ''grant_hash'', ''role_hash'', ''capabilities'']),
      (''workspace'', [''canonical_root'', ''cwd'', ''workspace_hash'']),
      (''runtime'', [''model_id'', ''effort'', ''config_fidelity'']),
      (''bindings'', [''mcp_snapshot_hashes'', ''credential_refs'']),
      (''limits'', [''startup_timeout_seconds'', ''turn_timeout_seconds'', ''cancel_grace_seconds'',
                    ''max_stderr_bytes'', ''max_event_bytes'', ''max_events''])]"

definition spec_block_ok :: "pydict \<Rightarrow> string \<times> string list \<Rightarrow> bool" where
  "spec_block_ok payload = (\<lambda>(name, expected).
     (case dget payload name of
        PDict block \<Rightarrow> keys_are expected block \<or>
          name = ''agent'' \<and> keys_are (removeAll ''session_epoch'' expected) block
      | _ \<Rightarrow> False))"

definition input_ref_ok :: "pyval \<Rightarrow> bool" where
  "input_ref_ok v = (case v of PDict r \<Rightarrow> keys_are [''ref'', ''content_hash''] r | _ \<Rightarrow> False)"

definition spec_payload_shape_is_exact :: "pydict \<Rightarrow> bool" where
  "spec_payload_shape_is_exact payload \<longleftrightarrow>
     keys_are (SPEC_FIELDS @ [''spec_hash'']) payload \<and>
     list_all (spec_block_ok payload) spec_block_models \<and>
     (case dget payload ''input_refs'' of PList refs \<Rightarrow> list_all input_ref_ok refs | _ \<Rightarrow> False)"

end
