(* ===== verification/Spec_Props.thy ===== *)
theory Spec_Props
  imports Spec_Documents
begin

text \<open>
  What the sealed documents promise: the last environment layer wins, the strict environment reader
  accepts exactly what the writer emits, a sealed launch document passes its own reader, and no
  compiled launch policy grants more than reading.
\<close>

section \<open>The last layer wins\<close>

definition layer_list :: "env_layers \<Rightarrow> (string \<times> (string \<times> string) list) list" where
  "layer_list l =
     [(''base'', present_in (el_arsd_env l) (el_base_names l)),
      (''passthrough'', present_in (el_arsd_env l) (el_passthrough l)),
      (''overlay'', el_overlay l), (''mediation'', el_mediation l),
      (ENV_SOURCE_LAUNCH_PERMISSION, el_launch_permission l)]"

definition supplies :: "string \<Rightarrow> string \<times> (string \<times> string) list \<Rightarrow> bool" where
  "supplies n layer \<longleftrightarrow> n \<in> fst ` set (snd layer)"

lemma map_of_fold_place:
  "map_of (fold (place s) xs m) n =
     (case map_of (rev xs) n of
        None \<Rightarrow> map_of m n | Some v \<Rightarrow> Some (v, s, the (map_of ENV_PRECEDENCE s)))"
proof (induction xs arbitrary: m)
  case (Cons x xs)
  then show ?case by (cases x) (auto simp: place_def map_add_def split: option.splits)
qed simp

lemma keys_fold_place: "fst ` set (fold (place s) xs m) = fst ` set m \<union> fst ` set xs"
  by (induction xs arbitrary: m) (auto simp: place_def)

lemma distinct_fold_place: "distinct (map fst m) \<Longrightarrow> distinct (map fst (fold (place s) xs m))"
  by (induction xs arbitrary: m) (auto simp: place_def distinct_dset)

lemma resolved_map_fold:
  "resolved_map l = fold (\<lambda>(s, xs). fold (place s) xs) (layer_list l) []"
  by (simp add: resolved_map_def layer_list_def)

lemma distinct_resolved: "distinct (map fst (resolved_map l))"
  by (simp add: resolved_map_def distinct_fold_place)

lemma map_of_layers:
  "map_of (fold (\<lambda>(s, xs). fold (place s) xs) ls m) n =
     (case filter (supplies n) (rev ls) of
        [] \<Rightarrow> map_of m n
      | (s, xs) # _ \<Rightarrow> map_option (\<lambda>v. (v, s, the (map_of ENV_PRECEDENCE s))) (map_of (rev xs) n))"
proof (induction ls rule: rev_induct)
  case (snoc x ls)
  obtain s xs where x: "x = (s, xs)" by (cases x)
  have "map_of (rev xs) n = None \<longleftrightarrow> \<not> supplies n (s, xs)"
    by (simp add: supplies_def map_of_eq_None_iff)
  with snoc show ?case
    by (auto simp: x map_of_fold_place split: option.splits)
qed simp

lemma environment_layers_map_of: "map_of (environment_layers l) = map_of (resolved_map l)"
proof
  fix n
  have "n \<notin> fst ` set (resolved_map l) \<longleftrightarrow> map_of (resolved_map l) n = None"
    by (simp add: map_of_eq_None_iff)
  then show "map_of (environment_layers l) n = map_of (resolved_map l) n"
    by (auto simp: environment_layers_def Let_def map_of_map_restrict restrict_map_def dest: map_of_SomeD)
qed

lemma environment_layers_keys: "map fst (environment_layers l) = sort (map fst (resolved_map l))"
  by (simp add: environment_layers_def Let_def comp_def)

lemma environment_layers_sorted: "sorted_wrt (<) (map fst (environment_layers l))"
  by (simp add: environment_layers_keys strict_sorted_iff distinct_resolved)

lemma projection_names:
  "map en_name (ep_names (re_projection (resolve_environment l))) = map fst (environment_layers l)"
  by (auto simp: resolve_environment_def Let_def)

text \<open>
  The last layer wins: a name of the child's environment has the value the last layer supplying
  it gives, its recorded source is that layer, and a name no layer supplies is not passed on at all;
  so an operator's pass-through or overlay never shadows a source-owned mediation or launch-permission
  pair.  The recorded names are the names passed on, ascending and without repetition.
\<close>

theorem last_layer_wins:
  "map_of (re_values (resolve_environment l)) n =
     (case filter (supplies n) (rev (layer_list l)) of [] \<Rightarrow> None | (s, xs) # _ \<Rightarrow> map_of (rev xs) n) \<and>
   map_of (map (\<lambda>e. (en_name e, en_source e)) (ep_names (re_projection (resolve_environment l)))) n =
     (case filter (supplies n) (rev (layer_list l)) of [] \<Rightarrow> None | (s, xs) # _ \<Rightarrow> Some s) \<and>
   map en_name (ep_names (re_projection (resolve_environment l))) = map fst (re_values (resolve_environment l)) \<and>
   sorted_wrt (<) (map fst (re_values (resolve_environment l)))"
proof -
  note m = map_of_layers [of "layer_list l" "[]" n, folded resolved_map_fold, folded environment_layers_map_of]
  have supplied: "\<exists>v. map_of (rev xs) n = Some v" if "filter (supplies n) ls = (s, xs) # r" for s xs r ls
  proof -
    have "supplies n (s, xs)" using that by (metis filter_eq_ConsD)
    then show ?thesis by (metis (no_types) supplies_def snd_conv map_of_eq_None_iff not_None_eq set_rev)
  qed
  have v: "re_values (resolve_environment l) = map (\<lambda>(n, x). (n, fst x)) (environment_layers l)"
    by (auto simp: resolve_environment_def Let_def)
  have s: "map (\<lambda>e. (en_name e, en_source e)) (ep_names (re_projection (resolve_environment l))) =
      map (\<lambda>(n, x). (n, fst (snd x))) (environment_layers l)"
    by (auto simp: resolve_environment_def Let_def)
  have keys: "map fst (re_values (resolve_environment l)) = map fst (environment_layers l)"
    "map en_name (ep_names (re_projection (resolve_environment l))) = map fst (environment_layers l)"
    by (auto simp: resolve_environment_def Let_def)
  have "map_of (re_values (resolve_environment l)) n =
     (case filter (supplies n) (rev (layer_list l)) of [] \<Rightarrow> None | (s, xs) # _ \<Rightarrow> map_of (rev xs) n)"
    unfolding v map_of_map comp_def m by (auto dest!: supplied split: list.splits)
  moreover have "map_of (map (\<lambda>e. (en_name e, en_source e)) (ep_names (re_projection (resolve_environment l)))) n =
     (case filter (supplies n) (rev (layer_list l)) of [] \<Rightarrow> None | (s, xs) # _ \<Rightarrow> Some s)"
    unfolding s map_of_map comp_def m by (auto dest!: supplied split: list.splits)
  ultimately show ?thesis
    using keys environment_layers_sorted [of l] by simp
qed

section \<open>The environment reader accepts exactly the writer's documents\<close>

text \<open>A projection the writer can emit.\<close>

definition env_projection_wf :: "env_projection \<Rightarrow> bool" where
  "env_projection_wf e \<longleftrightarrow>
     list_all (\<lambda>n. is_env_name (PStr (en_name n)) \<and> map_of ENV_PRECEDENCE (en_source n) = Some (en_precedence n))
       (ep_names e) \<and>
     sorted_wrt (<) (map en_name (ep_names e)) \<and>
     is_env_passthrough_domain (PList (map PStr (ep_declared_absent e))) \<and>
     (case ep_mediation_id e of None \<Rightarrow> True | Some m \<Rightarrow> m \<in> set MEDIATION_BINDING_IDS)"

text \<open>Equal as dictionaries: the same keys with the same values, in any order.\<close>

definition same_dict :: "pydict \<Rightarrow> pydict \<Rightarrow> bool" where
  "same_dict d e \<longleftrightarrow> set (map fst d) = set (map fst e) \<and> (\<forall>k. dget d k = dget e k)"

definition env_name_doc :: "pyval \<Rightarrow> env_name \<Rightarrow> bool" where
  "env_name_doc v n \<longleftrightarrow> (\<exists>d. v = PDict d \<and> same_dict d (env_name_to_dict n))"

definition env_doc :: "pydict \<Rightarrow> env_projection \<Rightarrow> bool" where
  "env_doc d e \<longleftrightarrow>
     (\<exists>items. list_all2 env_name_doc items (ep_names e) \<and>
        same_dict d (dset ''names'' (PList items) (env_projection_to_dict e)))"

lemma same_dictI:
  assumes "set (map fst d) = set ks" "set (map fst e) = set ks" "list_all (\<lambda>k. dget d k = dget e k) ks"
  shows "same_dict d e"
proof -
  have "dget d k = dget e k" for k
    using assms by (cases "k \<in> set ks") (simp_all add: list_all_iff dget_absent del: set_map)
  then show ?thesis using assms by (simp add: same_dict_def)
qed

lemma all_opt_True: "all_opt f xs = Some True \<longleftrightarrow> list_all (\<lambda>x. f x = Some True) xs"
  by (induction xs) (auto split: option.splits bool.splits)

lemma env_name_keys: "map fst (env_name_to_dict n) = ENV_NAME_FIELDS"
  by (simp add: env_name_to_dict_def ENV_NAME_FIELDS_def)

lemma dget_env_name [simp]:
  "dget (env_name_to_dict n) ''name'' = PStr (en_name n)" "dget (env_name_to_dict n) ''source'' = PStr (en_source n)"
  "dget (env_name_to_dict n) ''precedence'' = PInt (en_precedence n)"
  "dget (env_name_to_dict n) ''redacted'' = PBool True"
  by (simp_all add: env_name_to_dict_def dget_def)

lemma entry_exact_iff:
  "env_name_entry_is_exact v = Some True \<longleftrightarrow>
     (\<exists>n. env_name_doc v n \<and> is_env_name (PStr (en_name n)) \<and>
        map_of ENV_PRECEDENCE (en_source n) = Some (en_precedence n))" (is "?l \<longleftrightarrow> ?r")
proof
  assume ?l
  then obtain d where v: "v = PDict d" and k: "set (map fst d) = set ENV_NAME_FIELDS"
    and nm: "is_env_name (dget d ''name'')"
    by (auto simp: env_name_entry_is_exact_def keys_are_def split: pyval.splits if_splits)
  obtain s p where s: "dget d ''source'' = PStr s" "map_of ENV_PRECEDENCE s = Some p"
    "dget d ''precedence'' = PInt p" "dget d ''redacted'' = PBool True"
    using \<open>?l\<close> v by (auto simp: env_name_entry_is_exact_def split: pyval.splits if_splits option.splits)
  obtain m where m: "dget d ''name'' = PStr m"
    using nm by (auto simp: is_env_name_def split: pyval.splits)
  let ?n = "\<lparr>en_name = m, en_source = s, en_precedence = p\<rparr>"
  have "same_dict d (env_name_to_dict ?n)"
  proof (rule same_dictI [of _ ENV_NAME_FIELDS])
    show "list_all (\<lambda>k. dget d k = dget (env_name_to_dict ?n) k) ENV_NAME_FIELDS"
      using s m by (simp add: ENV_NAME_FIELDS_def)
  qed (simp_all only: k env_name_keys)
  then have "env_name_doc v ?n" by (simp add: env_name_doc_def v)
  with nm m s(2) show ?r by (intro exI [of _ ?n]) simp
next
  assume ?r
  then show ?l
    by (auto simp: env_name_doc_def same_dict_def env_name_entry_is_exact_def keys_are_def env_name_keys
        simp del: set_map)
qed

lemma list_all2_choice: "list_all (\<lambda>x. \<exists>y. P x y) xs \<Longrightarrow> \<exists>ys. list_all2 P xs ys"
  by (induction xs) (auto simp: list_all2_Cons1)

lemma sort_remdups_id: "xs = sort (remdups xs) \<longleftrightarrow> sorted_wrt (<) (xs :: string list)"
proof
  assume "xs = sort (remdups xs)"
  then show "sorted_wrt (<) xs" by (metis distinct_remdups distinct_sort sorted_sort strict_sorted_iff)
next
  assume "sorted_wrt (<) xs"
  then show "xs = sort (remdups xs)" by (simp add: strict_sorted_iff distinct_remdups_id sort_key_id_if_sorted)
qed

lemma env_names_text: "list_all is_env_name xs \<Longrightarrow> \<exists>ss. xs = map PStr ss"
proof (induction xs)
  case (Cons x xs)
  moreover obtain s where "x = PStr s" using Cons.prems by (auto simp: is_env_name_def split: pyval.splits)
  ultimately show ?case by (auto intro: exI [of _ "s # _"])
qed simp

lemma entry_name_doc: "env_name_doc v n \<Longrightarrow> entry_name v = en_name n"
  by (auto simp: env_name_doc_def same_dict_def)

lemma names_of_docs: "list_all2 env_name_doc items ns \<Longrightarrow> map entry_name items = map en_name ns"
  by (induction rule: list_all2_induct) (auto simp: entry_name_doc)

lemma dget_projection [simp]:
  "dget (env_projection_to_dict e) ''values_persisted'' = PBool False"
  "dget (env_projection_to_dict e) ''redaction'' = PStr ENV_REDACTION_MARKER"
  "dget (env_projection_to_dict e) ''resolved_count'' = PInt (int (length (ep_names e)))"
  "dget (env_projection_to_dict e) ''mediation_id'' = pstr_opt (ep_mediation_id e)"
  "dget (env_projection_to_dict e) ''names'' = PList (map (\<lambda>n. PDict (env_name_to_dict n)) (ep_names e))"
  "dget (env_projection_to_dict e) ''declared_absent'' = PList (map PStr (ep_declared_absent e))"
  by (simp_all add: env_projection_to_dict_def dget_def)

lemma projection_keys: "set (map fst (dset ''names'' v (env_projection_to_dict e))) = set ENV_PROJECTION_FIELDS"
  by (simp add: env_projection_to_dict_def ENV_PROJECTION_FIELDS_def)

lemma env_projection_accepted:
  assumes "env_projection_wf e" "env_doc d e"
  shows "env_projection_shape_is_exact (PDict d) = Some True"
proof -
  obtain items where items: "list_all2 env_name_doc items (ep_names e)"
    and d: "same_dict d (dset ''names'' (PList items) (env_projection_to_dict e))"
    using assms(2) by (auto simp: env_doc_def)
  have get: "dget d k = (if k = ''names'' then PList items else dget (env_projection_to_dict e) k)" for k
    using d by (simp add: same_dict_def dget_dset)
  have "\<forall>n \<in> set (ep_names e). is_env_name (PStr (en_name n)) \<and> map_of ENV_PRECEDENCE (en_source n) = Some (en_precedence n)"
    using assms(1) by (simp add: env_projection_wf_def list_all_iff)
  with items have "all_opt env_name_entry_is_exact items = Some True"
    unfolding all_opt_True list_all_iff entry_exact_iff
    by (fastforce simp: list_all2_conv_all_nth in_set_conv_nth)
  moreover have "env_names_consistent d items"
    using assms(1) list_all2_lengthD [OF items]
    by (simp add: env_names_consistent_def names_of_docs [OF items] sort_remdups_id env_projection_wf_def get Let_def)
  moreover have "keys_are ENV_PROJECTION_FIELDS d"
    using d projection_keys [of "PList items" e] by (simp add: same_dict_def keys_are_def del: set_map)
  ultimately show ?thesis
    using assms(1) by (cases "ep_mediation_id e")
      (auto simp: env_projection_shape_is_exact_def get env_projection_wf_def)
qed

lemma env_projection_read:
  assumes "env_projection_shape_is_exact v = Some True"
  obtains d e where "v = PDict d" "env_projection_wf e" "env_doc d e"
proof -
  obtain d items where v: "v = PDict d" and keys: "set (map fst d) = set ENV_PROJECTION_FIELDS"
    and fixed: "dget d ''values_persisted'' = PBool False" "dget d ''redaction'' = PStr ENV_REDACTION_MARKER"
    and med: "dget d ''mediation_id'' = PNone \<or> dget d ''mediation_id'' \<in> set (map PStr MEDIATION_BINDING_IDS)"
    and items: "dget d ''names'' = PList items" "all_opt env_name_entry_is_exact items = Some True"
      "env_names_consistent d items"
    using assms
    by (auto simp: env_projection_shape_is_exact_def keys_are_def split: pyval.splits if_splits option.splits bool.splits)
  obtain m where m: "dget d ''mediation_id'' = pstr_opt m" "case m of None \<Rightarrow> True | Some i \<Rightarrow> i \<in> set MEDIATION_BINDING_IDS"
  proof (cases "dget d ''mediation_id'' = PNone")
    case True
    with that [of None] show ?thesis by simp
  next
    case False
    with med that show ?thesis by (auto intro: that [of "Some _"])
  qed
  from list_all2_choice [OF items(2) [unfolded all_opt_True entry_exact_iff]]
  obtain ns where ns: "list_all2 (\<lambda>v n. env_name_doc v n \<and> is_env_name (PStr (en_name n)) \<and>
      map_of ENV_PRECEDENCE (en_source n) = Some (en_precedence n)) items ns"
    by (elim exE)
  then have docs: "list_all2 env_name_doc items ns" by (rule list_all2_mono) simp
  from ns have wf: "list_all (\<lambda>n. is_env_name (PStr (en_name n)) \<and>
      map_of ENV_PRECEDENCE (en_source n) = Some (en_precedence n)) ns"
    by (auto simp: list_all_length list_all2_conv_all_nth)
  obtain as where as: "dget d ''declared_absent'' = PList (map PStr as)"
    "is_env_passthrough_domain (PList (map PStr as))"
    using items(3) env_names_text
    by (fastforce simp: env_names_consistent_def Let_def is_env_passthrough_domain_def split: pyval.splits)
  let ?e = "\<lparr>ep_names = ns, ep_declared_absent = as, ep_mediation_id = m\<rparr>"
  have "env_projection_wf ?e"
    using wf as(2) m(2) items(3)
    by (simp add: env_projection_wf_def env_names_consistent_def Let_def names_of_docs [OF docs] sort_remdups_id)
  moreover have "same_dict d (dset ''names'' (PList items) (env_projection_to_dict ?e))"
  proof (rule same_dictI [of _ ENV_PROJECTION_FIELDS])
    show "list_all (\<lambda>k. dget d k = dget (dset ''names'' (PList items) (env_projection_to_dict ?e)) k)
        ENV_PROJECTION_FIELDS"
      using fixed m(1) items as(1) list_all2_lengthD [OF docs]
      by (simp add: ENV_PROJECTION_FIELDS_def dget_dset env_names_consistent_def Let_def)
  qed (simp_all only: keys projection_keys)
  then have "env_doc d ?e" using docs by (auto simp: env_doc_def)
  ultimately show thesis using that v by blast
qed

text \<open>
  The environment reader accepts exactly the documents the value-blind writer emits, up to the
  order of keys: nothing but names with a source and its precedence, the fixed redaction marker, the
  matching count, a registered mediation id and an admissible list of absent names can be in an
  accepted block.
\<close>

theorem env_reader_exact:
  "env_projection_shape_is_exact v = Some True \<longleftrightarrow>
     (\<exists>d e. v = PDict d \<and> env_projection_wf e \<and> env_doc d e)"
  using env_projection_read env_projection_accepted by metis

text \<open>
  A launch block whose mediation id is a list or an object does not make the strict reader answer
  no: hashing it raises, out of the reader, however exact the rest of the block is.
\<close>

theorem unhashable_block_raises:
  assumes "\<not> py_hashable v"
  shows "env_projection_shape_is_exact (PDict (dset ''mediation_id'' v (env_projection_to_dict e))) = None"
proof -
  have "keys_are ENV_PROJECTION_FIELDS (dset ''mediation_id'' v (env_projection_to_dict e))"
    by (simp add: keys_are_def env_projection_to_dict_def ENV_PROJECTION_FIELDS_def)
  then show ?thesis
    using assms by (simp add: env_projection_shape_is_exact_def dget_dset)
qed

theorem unhashable_block_raises_witness:
  "env_projection_shape_is_exact (PDict (dset ''mediation_id'' (PList [])
     (env_projection_to_dict \<lparr>ep_names = [], ep_declared_absent = [], ep_mediation_id = None\<rparr>))) = None"
  by (rule unhashable_block_raises) simp

section \<open>A sealed launch document passes its own reader\<close>

text \<open>What the run path writes as \<^verbatim>\<open>launch.json\<close>.\<close>

definition sealed_launch_document :: "(string \<Rightarrow> string) \<Rightarrow> (rat \<Rightarrow> string) \<Rightarrow> launch_snapshot \<Rightarrow> pydict option" where
  "sealed_launch_document sha fr s =
     map_option (\<lambda>h. dset ''launch_spec_hash'' (PStr h) (launch_to_dict s)) (launch_hash sha fr s)"

definition env_layers_ok :: "env_layers \<Rightarrow> bool" where
  "env_layers_ok l \<longleftrightarrow>
     list_all (\<lambda>n. is_env_name (PStr n)) (el_base_names l) \<and>
     is_env_passthrough_domain (PList (map PStr (el_passthrough l))) \<and>
     list_all (\<lambda>p. is_env_name (PStr (fst p))) (el_overlay l @ el_mediation l @ el_launch_permission l) \<and>
     (case el_mediation_id l of None \<Rightarrow> True | Some m \<Rightarrow> m \<in> set MEDIATION_BINDING_IDS)"

lemma present_in_keys: "fst ` set (present_in env ns) \<subseteq> set ns"
  by (auto simp: present_in_def List.map_filter_def)

lemma resolved_source:
  assumes "map_of (environment_layers l) n = Some (v, s, p)"
  shows "map_of ENV_PRECEDENCE s = Some p"
proof -
  let ?f = "filter (supplies n) (rev (layer_list l))"
  have m: "(case ?f of [] \<Rightarrow> map_of [] n
      | (s, xs) # _ \<Rightarrow> map_option (\<lambda>v. (v, s, the (map_of ENV_PRECEDENCE s))) (map_of (rev xs) n)) = Some (v, s, p)"
    using assms by (simp add: environment_layers_map_of resolved_map_fold map_of_layers)
  then obtain xs r where f: "?f = (s, xs) # r" and p: "p = the (map_of ENV_PRECEDENCE s)"
    by (auto split: list.splits)
  then have "(s, xs) \<in> set ?f" by simp
  then have "s \<in> fst ` set (layer_list l)" by force
  then show ?thesis
    by (auto simp: p layer_list_def ENV_PRECEDENCE_def ENV_SOURCE_LAUNCH_PERMISSION_def)
qed

lemma resolved_projection_wf:
  assumes "env_layers_ok l"
  shows "env_projection_wf (re_projection (resolve_environment l))"
proof -
  have pass: "list_all (\<lambda>n. is_env_name (PStr n)) (el_passthrough l)" "distinct (el_passthrough l)"
    "length (el_passthrough l) \<le> 32"
    using assms by (auto simp: env_layers_ok_def is_env_passthrough_domain_def list_all_iff distinct_map)
  have name: "is_env_name (PStr n)" if "(n, x) \<in> set (environment_layers l)" for n x
  proof -
    have "n \<in> set (map fst (environment_layers l))" using that by force
    then have "n \<in> fst ` set (resolved_map l)"
      using environment_layers_keys [of l] by simp
    then show ?thesis
      using assms pass(1) present_in_keys [of "el_arsd_env l" "el_base_names l"]
        present_in_keys [of "el_arsd_env l" "el_passthrough l"]
      unfolding resolved_map_def comp_def keys_fold_place env_layers_ok_def list_all_iff
      by auto
  qed
  have "distinct (map fst (environment_layers l))"
    using environment_layers_sorted strict_sorted_iff by blast
  then have src: "map_of ENV_PRECEDENCE s = Some p" if "(n, v, s, p) \<in> set (environment_layers l)" for n v s p
    using that resolved_source [of l n v s p] by (simp add: map_of_eq_Some_iff)
  have "sorted_wrt (<) (map en_name (ep_names (re_projection (resolve_environment l))))"
    using environment_layers_sorted [of l] by (simp add: projection_names)
  then show ?thesis
    using assms pass
    by (auto simp: env_projection_wf_def resolve_environment_def Let_def list_all_iff env_layers_ok_def
        is_env_passthrough_domain_def distinct_map intro!: name src dest: length_filter_le [THEN order_trans]
        intro: inj_on_subset)
qed

lemma dset_new: "k \<notin> fst ` set d \<Longrightarrow> dset k v d = d @ [(k, v)]"
  by (induction d) auto

lemma launch_to_dict_keys:
  "set (map fst (launch_to_dict s)) \<union> {''launch_spec_hash''} \<supseteq> set LAUNCH_REQUIRED_FIELDS"
  "set (map fst (launch_to_dict s)) \<subseteq> set (LAUNCH_REQUIRED_FIELDS @ LAUNCH_OPTIONAL_FIELDS) - {''launch_spec_hash''}"
  by (auto simp: launch_to_dict_def LAUNCH_REQUIRED_FIELDS_def LAUNCH_OPTIONAL_FIELDS_def split: option.splits)

lemma spec_hash_required: "''launch_spec_hash'' \<in> set (LAUNCH_REQUIRED_FIELDS @ LAUNCH_OPTIONAL_FIELDS)"
  by (simp add: LAUNCH_REQUIRED_FIELDS_def)

lemma dget_launch:
  "dget (launch_to_dict s) ''schema_version'' = PInt LAUNCH_SCHEMA_VERSION"
  "dget (launch_to_dict s) ''command'' = PStr (ls_command s)"
  "dget (launch_to_dict s) ''argv'' = PList (map PStr (ls_argv s))"
  "dget (launch_to_dict s) ''agent_id'' = PStr (ls_agent_id s)"
  "dget (launch_to_dict s) ''env'' = PDict (env_projection_to_dict (ls_env s))"
  "dget (launch_to_dict s) ''launch_permission_policy_id'' = pstr_opt (ls_policy_id s)"
  by (cases "ls_policy_id s"; cases "ls_session_meta s"; simp add: launch_to_dict_def dget_def)+

lemma dget_launch_digest:
  "policy_pair_is_exact sha (pstr_opt (ls_policy_id s)) (pstr_opt (ls_policy_digest s)) \<Longrightarrow>
   dget (launch_to_dict s) ''launch_permission_digest'' = pstr_opt (ls_policy_digest s)"
  by (cases "ls_policy_id s"; cases "ls_session_meta s"; cases "ls_policy_digest s")
     (simp_all add: launch_to_dict_def dget_def policy_pair_is_exact_def)

lemma projection_is_doc: "env_doc (env_projection_to_dict e) e"
proof -
  have "list_all2 env_name_doc (map (\<lambda>n. PDict (env_name_to_dict n)) (ep_names e)) (ep_names e)"
    by (auto simp: list_all2_conv_all_nth env_name_doc_def same_dict_def)
  moreover have "same_dict (env_projection_to_dict e) (dset ''names''
      (PList (map (\<lambda>n. PDict (env_name_to_dict n)) (ep_names e))) (env_projection_to_dict e))"
    by (auto simp: same_dict_def dget_dset env_projection_to_dict_def dget_def)
  ultimately show ?thesis unfolding env_doc_def by blast
qed

lemma env_pairs_projection:
  "env_pairs (PDict (env_projection_to_dict e)) =
     map (\<lambda>n. (PStr (en_name n), PStr (en_source n))) (ep_names e)"
  by (simp add: env_pairs_def List.map_filter_def comp_def)

text \<open>
  What is sealed is accepted: a launch snapshot its constructor accepts, over an environment
  resolved from admissible layers, is written as a document the strict reader accepts, and the seal
  recomputed from that document is the seal it carries.
\<close>

theorem sealed_launch_accepted:
  assumes "launch_snapshot_ok sha s" "ls_env s = re_projection (resolve_environment l)" "env_layers_ok l"
    "ls_command s \<noteq> []" "ls_agent_id s \<noteq> []" "sealed_launch_document sha fr s = Some d"
  shows "launch_payload_shape_is_exact sha (PDict d) = Some True \<and>
    (\<exists>h. launch_hash_of_payload sha fr d = Some h \<and> dget d ''launch_spec_hash'' = PStr h)"
proof -
  obtain h where h: "launch_hash sha fr s = Some h" and d: "d = dset ''launch_spec_hash'' (PStr h) (launch_to_dict s)"
    using assms(6) by (auto simp: sealed_launch_document_def)
  have new: "''launch_spec_hash'' \<notin> fst ` set (launch_to_dict s)"
    using launch_to_dict_keys(2) [of s] by auto
  have body: "ddel ''launch_spec_hash'' d = launch_to_dict s"
    using new by (force simp: d dset_new ddel_def filter_id_conv)
  have keys: "set LAUNCH_REQUIRED_FIELDS \<subseteq> set (map fst d)"
    "set (map fst d) \<subseteq> set (LAUNCH_REQUIRED_FIELDS @ LAUNCH_OPTIONAL_FIELDS)"
    using launch_to_dict_keys [of s] spec_hash_required unfolding d set_map keys_dset by blast+
  have get: "dget d k = (if k = ''launch_spec_hash'' then PStr h else dget (launch_to_dict s) k)" for k
    by (simp add: d dget_dset)
  have "env_projection_shape_is_exact (dget d ''env'') = Some True"
    using env_projection_accepted [OF resolved_projection_wf [OF assms(3)] projection_is_doc]
    by (simp add: get dget_launch assms(2))
  moreover have "launch_command_ok d"
    using assms(1,4) by (cases "ls_argv s")
      (auto simp: launch_command_ok_def get dget_launch nonempty_str_def launch_snapshot_ok_def list_all_iff)
  ultimately have "launch_payload_shape_is_exact sha (PDict d) = Some True"
    using assms(1,5) keys dget_launch_digest [of sha s]
    by (simp add: launch_payload_shape_is_exact_def get dget_launch nonempty_str_def py_eq_int_def
        launch_snapshot_ok_def env_pairs_projection del: set_map set_append)
  then show ?thesis
    using h by (simp add: launch_hash_of_payload_def launch_hash_def body get)
qed

definition demo_sha :: "string \<Rightarrow> string" where
  "demo_sha s = replicate 64 (CHR ''a'')"

definition demo_layers :: env_layers where
  "demo_layers = \<lparr>el_arsd_env = [(''PATH'', ''/bin''), (''HOME'', ''/h'')], el_base_names = [''PATH''],
     el_passthrough = [''TERM''], el_overlay = [(''PATH'', ''/opt''), (''OPENCODE_PERMISSION'', ''x'')],
     el_mediation = [(''OPENCODE_PERMISSION'', ''{}'')], el_mediation_id = Some ''ask-privileged-tool-families-v1'',
     el_launch_permission = []\<rparr>"

definition demo_launch :: launch_snapshot where
  "demo_launch = \<lparr>ls_command = ''agent'', ls_argv = [''agent'', ''--acp''], ls_profile_id = ''p'',
     ls_profile_revision = 1, ls_profile_hash = ''h'', ls_agent_id = ''a'',
     ls_env = re_projection (resolve_environment demo_layers), ls_mediation_id = Some ''ask-privileged-tool-families-v1'',
     ls_model_selector_id = ''model'', ls_effort_selector_id = None, ls_forbidden_capabilities = [],
     ls_credential_refs = [], ls_session_epoch = None, ls_session_meta = None, ls_policy_id = None,
     ls_policy_digest = None\<rparr>"

theorem sealed_launch_accepted_witness:
  "\<exists>d. sealed_launch_document demo_sha (\<lambda>_. []) demo_launch = Some d \<and>
     launch_payload_shape_is_exact demo_sha (PDict d) = Some True"
proof -
  have "sealed_launch_document demo_sha (\<lambda>_. []) demo_launch \<noteq> None" by code_simp
  then obtain d where d: "sealed_launch_document demo_sha (\<lambda>_. []) demo_launch = Some d" by blast
  have "launch_snapshot_ok demo_sha demo_launch" "env_layers_ok demo_layers" "ls_command demo_launch \<noteq> []"
    "ls_agent_id demo_launch \<noteq> []" by code_simp+
  moreover have "ls_env demo_launch = re_projection (resolve_environment demo_layers)"
    by (simp add: demo_launch_def)
  ultimately show ?thesis
    using sealed_launch_accepted [of demo_sha demo_launch demo_layers "\<lambda>_. []" d] d by blast
qed

end
