(* ===== verification/Admission.thy ===== *)
theory Admission
  imports Spec_Documents
begin

text \<open>
  Admission helpers of \<^verbatim>\<open>arsd/admission.py\<close>: the principal-scoped key and the run identity
  derived from it, the write-once submission record with its strict validator, the event budget it
  attests, and the session a run is bound to.  SHA-256 is an argument: \<open>shab\<close> on bytes,
  \<open>sha\<close> on text.
\<close>

section \<open>Bytes\<close>

text \<open>\<^verbatim>\<open>str.encode("utf-8")\<close> on the code points of the model.\<close>

definition utf8_char :: "char \<Rightarrow> bytes" where
  "utf8_char c = (let n = (of_char c :: nat) in
     if n < 128 then [of_nat n] else [of_nat (192 + n div 64), of_nat (128 + n mod 64)])"

definition utf8_encode :: "string \<Rightarrow> bytes" where
  "utf8_encode s = concat (map utf8_char s)"

fun utf8_decode :: "bytes \<Rightarrow> string" where
  "utf8_decode [] = []"
| "utf8_decode (b # bs) =
     (if unat b < 128 then char_of (unat b) # utf8_decode bs
      else (case bs of [] \<Rightarrow> [] | c # cs \<Rightarrow> char_of ((unat b - 192) * 64 + (unat c - 128)) # utf8_decode cs))"

lemma unat_byte: "k < 256 \<Longrightarrow> unat (of_nat k :: 8 word) = k"
  by (simp add: unat_of_nat)

lemma utf8_decode_char: "utf8_decode (utf8_char c @ bs) = c # utf8_decode bs"
proof (cases "(of_char c :: nat) < 128")
  case True
  then show ?thesis by (simp add: utf8_char_def unat_byte)
next
  case False
  define n where "n = (of_char c :: nat)"
  have n: "n < 256" by (simp add: n_def)
  define b1 b2 :: "8 word" where "b1 = of_nat (192 + n div 64)" and "b2 = of_nat (128 + n mod 64)"
  have "192 + n div 64 < 256" using less_mult_imp_div_less [of n 4 64] n by simp
  then have b1: "unat b1 = 192 + n div 64" unfolding b1_def by (rule unat_byte)
  have "128 + n mod 64 < 256" using mod_less_divisor [of 64 n] by simp
  then have b2: "unat b2 = 128 + n mod 64" unfolding b2_def by (rule unat_byte)
  have "utf8_char c = [b1, b2]"
    using False by (simp only: utf8_char_def Let_def b1_def b2_def n_def if_False)
  moreover have "char_of (n div 64 * 64 + n mod 64) = c" by (simp add: n_def)
  ultimately show ?thesis by (simp add: b1 b2)
qed

lemma utf8_decode_encode: "utf8_decode (utf8_encode s) = s"
  by (induction s) (simp_all add: utf8_encode_def utf8_decode_char)

lemma utf8_encode_inject [simp]: "utf8_encode s = utf8_encode t \<longleftrightarrow> s = t"
  by (metis utf8_decode_encode)

text \<open>\<^verbatim>\<open>int.to_bytes(k, "big")\<close>.\<close>

primrec to_bytes_big :: "nat \<Rightarrow> nat \<Rightarrow> bytes" where
  "to_bytes_big 0 n = []"
| "to_bytes_big (Suc k) n = to_bytes_big k (n div 256) @ [of_nat (n mod 256)]"

lemma length_to_bytes_big [simp]: "length (to_bytes_big k n) = k"
  by (induction k arbitrary: n) auto

lemma to_bytes_big_inject:
  "m < 256 ^ k \<Longrightarrow> n < 256 ^ k \<Longrightarrow> to_bytes_big k m = to_bytes_big k n \<longleftrightarrow> m = n"
proof (induction k arbitrary: m n)
  case (Suc k)
  have low: "(of_nat (m mod 256) :: 8 word) = of_nat (n mod 256) \<longleftrightarrow> m mod 256 = n mod 256"
    by (simp add: word_of_nat_eq_iff take_bit_eq_mod)
  have "m div 256 < 256 ^ k" "n div 256 < 256 ^ k"
    using Suc.prems by (simp_all add: less_mult_imp_div_less mult.commute)
  with Suc.IH low show ?case
    by simp (metis div_mult_mod_eq)
qed simp

section \<open>The admission key and the derived run\<close>

definition MAX_REQUEST_ID_CHARS :: nat where
  "MAX_REQUEST_ID_CHARS = (128 :: nat)"

record admission_key =
  principal_id :: string
  request_id :: string

definition request_id_char :: "char \<Rightarrow> bool" where
  "request_id_char c \<longleftrightarrow> alnum c \<or> c = CHR ''.'' \<or> c = CHR ''_'' \<or> c = CHR ''-''"

definition request_id_ok :: "string \<Rightarrow> bool" where
  "request_id_ok s \<longleftrightarrow> s \<noteq> [] \<and> length s \<le> MAX_REQUEST_ID_CHARS \<and> list_all request_id_char s"

definition admission_key_ok :: "admission_key \<Rightarrow> bool" where
  "admission_key_ok k \<longleftrightarrow> principal_id k \<noteq> [] \<and> request_id_ok (request_id k)"

fun has_dotdot :: "string \<Rightarrow> bool" where
  "has_dotdot (a # b # s) = (a = CHR ''.'' \<and> b = CHR ''.'' \<or> has_dotdot (b # s))"
| "has_dotdot _ = False"

definition is_safe_run_id :: "string \<Rightarrow> bool" where
  "is_safe_run_id s \<longleftrightarrow>
     s \<noteq> [] \<and> list_all request_id_char s \<and> s \<noteq> ''.'' \<and> s \<noteq> ''..'' \<and> \<not> has_dotdot s \<and>
     hd s \<noteq> CHR ''/'' \<and> hd s \<noteq> CHR 0x5C \<and> CHR 0x00 \<notin> set s"

definition DERIVATION_TAG :: bytes where
  "DERIVATION_TAG = utf8_encode (''arsd-run-id-v1'' @ [CHR 0x00])"

definition key_material :: "admission_key \<Rightarrow> bytes" where
  "key_material k =
     (let principal = utf8_encode (principal_id k); request = utf8_encode (request_id k)
      in DERIVATION_TAG @ to_bytes_big 8 (length principal) @ principal @
         to_bytes_big 8 (length request) @ request)"

definition derive_run_id :: "(bytes \<Rightarrow> string) \<Rightarrow> admission_key \<Rightarrow> string" where
  "derive_run_id shab k = ''run-'' @ take 32 (shab (key_material k))"

definition derive_session_id :: "(bytes \<Rightarrow> string) \<Rightarrow> (string \<Rightarrow> string) \<Rightarrow> admission_key \<Rightarrow> session_error + string" where
  "derive_session_id shab sha k = derive_session_id_for_run sha (derive_run_id shab k)"

text \<open>
  Field boundaries cannot shift: two admission keys with the same derivation material are the
  same key, so two different keys share a run only through a collision of the truncated digest.
\<close>

theorem key_material_injective:
  assumes "key_material k1 = key_material k2"
    "length (utf8_encode (principal_id k1)) < 2 ^ 64" "length (utf8_encode (principal_id k2)) < 2 ^ 64"
  shows "k1 = k2"
proof -
  have "to_bytes_big 8 (length (utf8_encode (principal_id k1))) = to_bytes_big 8 (length (utf8_encode (principal_id k2)))"
    and tails: "utf8_encode (principal_id k1) @ to_bytes_big 8 (length (utf8_encode (request_id k1))) @ utf8_encode (request_id k1) =
      utf8_encode (principal_id k2) @ to_bytes_big 8 (length (utf8_encode (request_id k2))) @ utf8_encode (request_id k2)"
    using assms(1) by (auto simp: key_material_def Let_def append_eq_append_conv)
  then have len: "length (utf8_encode (principal_id k1)) = length (utf8_encode (principal_id k2))"
    using assms(2,3) to_bytes_big_inject [of _ 8] by simp
  with tails have "principal_id k1 = principal_id k2" "request_id k1 = request_id k2"
    by (auto simp: append_eq_append_conv)
  then show ?thesis by simp
qed

theorem key_material_injective_witness:
  "key_material \<lparr>principal_id = ''ab'', request_id = ''c''\<rparr> \<noteq> key_material \<lparr>principal_id = ''a'', request_id = ''bc''\<rparr>"
  using key_material_injective [of "\<lparr>principal_id = ''ab'', request_id = ''c''\<rparr>" "\<lparr>principal_id = ''a'', request_id = ''bc''\<rparr>"]
  by (auto simp: utf8_encode_def utf8_char_def)

lemma no_dotdot: "CHR ''.'' \<notin> set s \<Longrightarrow> \<not> has_dotdot s"
  by (induction s rule: has_dotdot.induct) auto

text \<open>
  A derived run id is a safe directory name, and the session derived from it exists and is a
  valid session id: nothing of the caller's text reaches a path.
\<close>

theorem derived_run_id_safe:
  assumes "\<And>m. length (shab m) = 64 \<and> list_all hex_digit (shab m)" "hex_digest sha"
  shows "is_safe_run_id (derive_run_id shab k) \<and>
    (\<exists>sid. derive_session_id shab sha k = Inr sid \<and> session_id_ok sid)"
proof -
  let ?r = "derive_run_id shab k"
  have "\<forall>c \<in> set (take 32 (shab (key_material k))). hex_digit c"
    using assms(1) [of "key_material k"] by (auto simp: list_all_iff dest: in_set_takeD)
  then have c: "\<forall>c \<in> set ?r. hex_digit c \<or> c \<in> {CHR ''r'', CHR ''u'', CHR ''n'', CHR ''-''}"
    by (auto simp: derive_run_id_def)
  have "\<not> hex_digit (CHR ''.'')" "\<not> hex_digit (CHR 0x00)" by code_simp+
  with c have "CHR ''.'' \<notin> set ?r" "CHR 0x00 \<notin> set ?r" by auto
  moreover have "request_id_char (CHR ''r'')" "request_id_char (CHR ''u'')" "request_id_char (CHR ''n'')"
    "request_id_char (CHR ''-'')" by code_simp+
  then have "list_all request_id_char ?r"
    using c hex_digit_alnum by (auto simp: list_all_iff request_id_char_def)
  moreover have "?r \<noteq> ''.''" "?r \<noteq> ''..''" "hd ?r = CHR ''r''" "?r \<noteq> []" by (simp_all add: derive_run_id_def)
  ultimately have "is_safe_run_id ?r" by (auto simp: is_safe_run_id_def no_dotdot)
  moreover obtain sid where sid: "derive_session_id shab sha k = Inr sid"
    by (auto simp: derive_session_id_def derive_session_id_for_run_def derive_run_id_def)
  moreover have "session_id_ok sid"
    using derived_session_id_ok [OF assms(2)] sid by (simp add: derive_session_id_def)
  ultimately show ?thesis by blast
qed

theorem derived_run_id_safe_witness:
  "is_safe_run_id (derive_run_id (\<lambda>_. replicate 64 (CHR ''0'')) \<lparr>principal_id = ''/../'', request_id = ''..''\<rparr>)"
proof -
  have "length (replicate 64 (CHR ''0'')) = 64 \<and> list_all hex_digit (replicate 64 (CHR ''0''))"
    by (simp add: list_all_iff hex_digit_def digit_def)
  then show ?thesis
    using derived_run_id_safe [of "\<lambda>_. replicate 64 (CHR ''0'')" "\<lambda>_. replicate 64 (CHR ''0'')"
        "\<lparr>principal_id = ''/../'', request_id = ''..''\<rparr>"]
    by (simp add: hex_digest_def)
qed

section \<open>The submission record\<close>

definition SUBMISSION_SCHEMA_VERSION :: int where
  "SUBMISSION_SCHEMA_VERSION = (4 :: int)"

definition ARSD_API_VERSION :: int where
  "ARSD_API_VERSION = (3 :: int)"

text \<open>The parts of a submit command the record keeps, and the request digest.\<close>

record submit_fields =
  sf_owner :: string
  sf_namespace :: string
  sf_session_id :: "string option"
  sf_agent_id :: string
  sf_retry_of_run_id :: "string option"
  sf_request_digest :: string
  sf_prompt_sha256 :: string
  sf_prompt_bytes :: nat

record peer =
  peer_pid :: int
  peer_uid :: int
  peer_gid :: int

definition build_submission_artifact ::
    "admission_key \<Rightarrow> string \<Rightarrow> submit_fields \<Rightarrow> string \<Rightarrow> peer \<Rightarrow> int \<Rightarrow> pydict" where
  "build_submission_artifact key run_id c accepted_at p ceil =
     [(''schema_version'', PInt SUBMISSION_SCHEMA_VERSION), (''principal_id'', PStr (principal_id key)),
      (''request_id'', PStr (request_id key)), (''run_id'', PStr run_id),
      (''retry_of_run_id'', pstr_opt (sf_retry_of_run_id c)), (''api_version'', PInt ARSD_API_VERSION),
      (''accepted_at'', PStr accepted_at),
      (''peer'', PDict [(''pid'', PInt (peer_pid p)), (''uid'', PInt (peer_uid p)), (''gid'', PInt (peer_gid p))]),
      (''owner'', PStr (sf_owner c)), (''namespace'', PStr (sf_namespace c)),
      (''session_id'', pstr_opt (sf_session_id c)), (''agent_id'', PStr (sf_agent_id c)),
      (''request_digest'', PStr (sf_request_digest c)), (''prompt_sha256'', PStr (sf_prompt_sha256 c)),
      (''prompt_bytes'', PInt (int (sf_prompt_bytes c))),
      (''max_run_event_budget_bytes'', PInt ceil)]"

definition SUBMISSION_FIELDS :: "string list" where
  "SUBMISSION_FIELDS =
     [''schema_version'', ''principal_id'', ''request_id'', ''run_id'', ''retry_of_run_id'', ''api_version'',
      ''accepted_at'', ''peer'', ''owner'', ''namespace'', ''session_id'', ''agent_id'', ''request_digest'',
      ''prompt_sha256'', ''prompt_bytes'', ''max_run_event_budget_bytes'']"

record submission_attribution =
  sa_owner :: string
  sa_namespace :: string
  sa_session_id :: string

definition stored_event_budget_policy :: "pydict \<Rightarrow> int option" where
  "stored_event_budget_policy d = event_budget_policy (dget d ''max_run_event_budget_bytes'')"

text \<open>The session a validated document names: the declared one, or the one derived from the run.\<close>

definition named_session :: "(string \<Rightarrow> string) \<Rightarrow> pyval \<Rightarrow> string \<Rightarrow> string option" where
  "named_session sha declared run_id =
     (case declared of
        PNone \<Rightarrow> (case derive_session_id_for_run sha run_id of Inl _ \<Rightarrow> None | Inr sid \<Rightarrow> Some sid)
      | PStr s \<Rightarrow> if session_id_ok s then Some s else None
      | _ \<Rightarrow> None)"

definition request_id_valid :: "pyval \<Rightarrow> bool" where
  "request_id_valid v = (case v of PStr s \<Rightarrow> request_id_ok s | _ \<Rightarrow> False)"

definition peer_exact :: "pyval \<Rightarrow> bool" where
  "peer_exact v =
     (case v of
        PDict p \<Rightarrow> keys_are [''pid'', ''uid'', ''gid''] p \<and>
          list_all (\<lambda>k. plain_int (dget p k)) [''pid'', ''uid'', ''gid'']
      | _ \<Rightarrow> False)"

definition submission_fields_ok :: "pydict \<Rightarrow> string \<Rightarrow> bool" where
  "submission_fields_ok d run_id \<longleftrightarrow>
     keys_are SUBMISSION_FIELDS d \<and>
     py_eq_int (dget d ''schema_version'') SUBMISSION_SCHEMA_VERSION \<and>
     nonempty_str (dget d ''agent_id'') \<and> dget d ''run_id'' = PStr run_id \<and> run_id \<noteq> [] \<and>
     nonempty_str (dget d ''principal_id'') \<and> request_id_valid (dget d ''request_id'') \<and>
     nonempty_str (dget d ''owner'') \<and> nonempty_str (dget d ''namespace'') \<and>
     nonempty_str (dget d ''request_digest'') \<and> nonempty_str (dget d ''prompt_sha256'') \<and>
     (case dget d ''prompt_bytes'' of PInt n \<Rightarrow> 0 \<le> n | _ \<Rightarrow> False) \<and>
     plain_int (dget d ''api_version'') \<and> nonempty_str (dget d ''accepted_at'') \<and>
     peer_exact (dget d ''peer'') \<and>
     (dget d ''retry_of_run_id'' = PNone \<or> nonempty_str (dget d ''retry_of_run_id'')) \<and>
     stored_event_budget_policy d \<noteq> None"

definition validate_submission_artifact ::
    "(string \<Rightarrow> string) \<Rightarrow> pydict \<Rightarrow> string \<Rightarrow> submission_attribution option" where
  "validate_submission_artifact sha d run_id =
     (if \<not> submission_fields_ok d run_id then None
      else map_option (\<lambda>sid. \<lparr>sa_owner = the_str (dget d ''owner''), sa_namespace = the_str (dget d ''namespace''),
                             sa_session_id = sid\<rparr>)
             (named_session sha (dget d ''session_id'') run_id))"

definition classify_submission ::
    "(string \<Rightarrow> string) \<Rightarrow> dentry \<Rightarrow> string \<Rightarrow> doc_kind \<times> submission_attribution option" where
  "classify_submission sha entry run_id =
     (case classify_entry entry of
        (DOC_VALID, Some d) \<Rightarrow>
          (case validate_submission_artifact sha d run_id of
             None \<Rightarrow> (DOC_CORRUPT, None)
           | Some a \<Rightarrow> (DOC_VALID, Some a))
      | (k, _) \<Rightarrow> (k, None))"

definition submission_admits_limits :: "pydict \<Rightarrow> run_limits \<Rightarrow> bool" where
  "submission_admits_limits d l \<longleftrightarrow>
     (case stored_event_budget_policy d of None \<Rightarrow> False | Some c \<Rightarrow> check_run_limits c l)"

definition submission_binds_key :: "pydict \<Rightarrow> admission_key \<Rightarrow> bool" where
  "submission_binds_key d k \<longleftrightarrow>
     dget d ''principal_id'' = PStr (principal_id k) \<and> dget d ''request_id'' = PStr (request_id k)"

text \<open>\<^verbatim>\<open>bound_session_id_for_run\<close>.\<close>

definition bound_session_id_for_run :: "(string \<Rightarrow> string) \<Rightarrow> string \<Rightarrow> pydict option \<Rightarrow> string option" where
  "bound_session_id_for_run sha run_id submission =
     (case submission of None \<Rightarrow> None | Some d \<Rightarrow> named_session sha (dget d ''session_id'') run_id)"

definition submit_fields_ok :: "submit_fields \<Rightarrow> bool" where
  "submit_fields_ok c \<longleftrightarrow>
     sf_owner c \<noteq> [] \<and> sf_namespace c \<noteq> [] \<and> sf_agent_id c \<noteq> [] \<and> sf_request_digest c \<noteq> [] \<and>
     sf_prompt_sha256 c \<noteq> [] \<and> sf_retry_of_run_id c \<noteq> Some [] \<and>
     (case sf_session_id c of None \<Rightarrow> True | Some s \<Rightarrow> session_id_ok s)"

lemma dget_submission:
  "dget (build_submission_artifact key run_id c t p ceil) ''schema_version'' = PInt SUBMISSION_SCHEMA_VERSION"
  "dget (build_submission_artifact key run_id c t p ceil) ''principal_id'' = PStr (principal_id key)"
  "dget (build_submission_artifact key run_id c t p ceil) ''request_id'' = PStr (request_id key)"
  "dget (build_submission_artifact key run_id c t p ceil) ''run_id'' = PStr run_id"
  "dget (build_submission_artifact key run_id c t p ceil) ''retry_of_run_id'' = pstr_opt (sf_retry_of_run_id c)"
  "dget (build_submission_artifact key run_id c t p ceil) ''api_version'' = PInt ARSD_API_VERSION"
  "dget (build_submission_artifact key run_id c t p ceil) ''accepted_at'' = PStr t"
  "dget (build_submission_artifact key run_id c t p ceil) ''peer'' =
     PDict [(''pid'', PInt (peer_pid p)), (''uid'', PInt (peer_uid p)), (''gid'', PInt (peer_gid p))]"
  "dget (build_submission_artifact key run_id c t p ceil) ''owner'' = PStr (sf_owner c)"
  "dget (build_submission_artifact key run_id c t p ceil) ''namespace'' = PStr (sf_namespace c)"
  "dget (build_submission_artifact key run_id c t p ceil) ''session_id'' = pstr_opt (sf_session_id c)"
  "dget (build_submission_artifact key run_id c t p ceil) ''agent_id'' = PStr (sf_agent_id c)"
  "dget (build_submission_artifact key run_id c t p ceil) ''request_digest'' = PStr (sf_request_digest c)"
  "dget (build_submission_artifact key run_id c t p ceil) ''prompt_sha256'' = PStr (sf_prompt_sha256 c)"
  "dget (build_submission_artifact key run_id c t p ceil) ''prompt_bytes'' = PInt (int (sf_prompt_bytes c))"
  "dget (build_submission_artifact key run_id c t p ceil) ''max_run_event_budget_bytes'' = PInt ceil"
  by (simp_all add: build_submission_artifact_def dget_def)

lemma peer_record_exact: "peer_exact (PDict [(''pid'', PInt a), (''uid'', PInt b), (''gid'', PInt e)])"
  by (simp add: peer_exact_def keys_are_def plain_int_def dget_def)

lemma submission_reads_back:
  assumes "admission_key_ok key" "submit_fields_ok c" "run_id \<noteq> []" "accepted_at \<noteq> []"
    "0 < ceil" "ceil \<le> STRUCTURAL_MAX_RUN_EVENT_BUDGET_BYTES"
    and d_def: "d = build_submission_artifact key run_id c accepted_at p ceil"
  shows "\<exists>sid. validate_submission_artifact sha d run_id =
      Some \<lparr>sa_owner = sf_owner c, sa_namespace = sf_namespace c, sa_session_id = sid\<rparr> \<and>
    (case sf_session_id c of Some s \<Rightarrow> sid = s | None \<Rightarrow> derive_session_id_for_run sha run_id = Inr sid) \<and>
    bound_session_id_for_run sha run_id (Some d) = Some sid \<and>
    (\<forall>k. submission_binds_key d k = (k = key)) \<and>
    (\<forall>l. submission_admits_limits d l = check_run_limits ceil l)"
proof -
  note get = dget_submission [of key run_id c accepted_at p ceil, folded d_def]
  have pol: "stored_event_budget_policy d = Some ceil"
    using assms(5,6) by (simp add: stored_event_budget_policy_def get event_budget_policy_def)
  have "keys_are SUBMISSION_FIELDS d"
    by (simp add: keys_are_def d_def build_submission_artifact_def SUBMISSION_FIELDS_def)
  moreover have "pstr_opt (sf_retry_of_run_id c) = PNone \<or> nonempty_str (pstr_opt (sf_retry_of_run_id c))"
    using assms(2) by (cases "sf_retry_of_run_id c") (auto simp: submit_fields_ok_def nonempty_str_def)
  ultimately have fields_ok: "submission_fields_ok d run_id"
    using assms(1-4) pol
    by (simp add: submission_fields_ok_def get py_eq_int_def nonempty_str_def peer_record_exact
        request_id_valid_def admission_key_ok_def plain_int_def submit_fields_ok_def)
  obtain sid where sid: "named_session sha (pstr_opt (sf_session_id c)) run_id = Some sid"
    "case sf_session_id c of Some s \<Rightarrow> sid = s | None \<Rightarrow> derive_session_id_for_run sha run_id = Inr sid"
    using assms(2,3) by (cases "sf_session_id c")
      (auto simp: named_session_def derive_session_id_for_run_def submit_fields_ok_def)
  have "validate_submission_artifact sha d run_id =
      Some \<lparr>sa_owner = sf_owner c, sa_namespace = sf_namespace c, sa_session_id = sid\<rparr>"
    using fields_ok sid(1) by (simp add: validate_submission_artifact_def get)
  moreover have "submission_binds_key d k = (k = key)" for k
    by (auto simp: submission_binds_key_def get)
  ultimately show ?thesis
    using sid pol by (auto simp: bound_session_id_for_run_def get submission_admits_limits_def)
qed

text \<open>
  A submission record is read back as what was admitted: the record written for an admissible
  submission validates for its own run, attributes it to the declared owner and namespace and to the
  declared session or the one derived from the run, binds exactly the admitting key, admits exactly
  the limits the admitting ceiling admits, and every reader of the run's session agrees.
\<close>

theorem submission_roundtrip:
  assumes "admission_key_ok key" "submit_fields_ok c" "run_id \<noteq> []" "accepted_at \<noteq> []"
    "0 < ceil" "ceil \<le> STRUCTURAL_MAX_RUN_EVENT_BUDGET_BYTES"
    and d_def: "d = build_submission_artifact key run_id c accepted_at p ceil"
  shows "\<exists>sid. validate_submission_artifact sha d run_id =
      Some \<lparr>sa_owner = sf_owner c, sa_namespace = sf_namespace c, sa_session_id = sid\<rparr> \<and>
    (case sf_session_id c of Some s \<Rightarrow> sid = s | None \<Rightarrow> derive_session_id_for_run sha run_id = Inr sid) \<and>
    bound_session_id_for_run sha run_id (Some d) = Some sid \<and>
    (\<forall>k. submission_binds_key d k = (k = key)) \<and>
    (\<forall>l. submission_admits_limits d l = check_run_limits ceil l)"
  by (rule submission_reads_back [OF assms])

theorem submission_roundtrip_witness:
  "\<exists>sid. validate_submission_artifact (\<lambda>_. replicate 64 (CHR ''0''))
     (build_submission_artifact \<lparr>principal_id = ''p'', request_id = ''r-1''\<rparr> ''run-1''
        \<lparr>sf_owner = ''o'', sf_namespace = ''n'', sf_session_id = None, sf_agent_id = ''a'', sf_retry_of_run_id = None,
         sf_request_digest = ''d'', sf_prompt_sha256 = ''h'', sf_prompt_bytes = 3\<rparr> ''t''
        \<lparr>peer_pid = 1, peer_uid = 2, peer_gid = 3\<rparr> DEFAULT_MAX_RUN_EVENT_BUDGET_BYTES) ''run-1'' =
     Some \<lparr>sa_owner = ''o'', sa_namespace = ''n'', sa_session_id = sid\<rparr>"
proof -
  have "admission_key_ok \<lparr>principal_id = ''p'', request_id = ''r-1''\<rparr>"
    "submit_fields_ok \<lparr>sf_owner = ''o'', sf_namespace = ''n'', sf_session_id = None, sf_agent_id = ''a'',
       sf_retry_of_run_id = None, sf_request_digest = ''d'', sf_prompt_sha256 = ''h'', sf_prompt_bytes = 3\<rparr>"
    "0 < DEFAULT_MAX_RUN_EVENT_BUDGET_BYTES"
    "DEFAULT_MAX_RUN_EVENT_BUDGET_BYTES \<le> STRUCTURAL_MAX_RUN_EVENT_BUDGET_BYTES" by code_simp+
  from submission_roundtrip [OF this(1,2) _ _ this(3,4) refl, where run_id = "''run-1''" and accepted_at = "''t''" and
      p = "\<lparr>peer_pid = 1, peer_uid = 2, peer_gid = 3\<rparr>" and sha = "\<lambda>_. replicate 64 (CHR ''0'')"]
  show ?thesis by force
qed

end
