(* ===== verification/Reconcile.thy ===== *)
theory Reconcile
  imports Admission Session_Store
begin

text \<open>
  Startup reconciliation, \<^verbatim>\<open>arsd/reconcile.py\<close>.  A run directory is the entry each of its
  names shows; every run is classified before anything is written, one row of the first-match table is
  selected, and its effects are applied in the order fence, quarantine, progress, terminal.  Each write
  may raise before or after it took effect (\<open>run_io\<close>); an exception out of the classification
  is the value \<^const>\<open>None\<close>.  Nothing else writes the directories while reconciliation runs.
\<close>

section \<open>Run directories and facts\<close>

record run_dir =
  result_json :: dentry
  progress_json :: dentry
  spec_json :: dentry
  launch_json :: dentry
  submission_json :: dentry
  dispatch_started :: dentry
  prompt_accepted :: dentry
  config_switch_started :: dentry
  config_proven :: dentry
  config_rollback_proven :: dentry

datatype terminal_class = TRUSTED_TERMINAL | TRUSTED_UNKNOWN | CORRUPT_TERMINAL | ABSENT_TERMINAL

datatype recon_outcome = AUTHORITATIVE_TERMINAL | UNKNOWN_QUARANTINE | PRE_DISPATCH_FAILED | REFUSE_TO_LISTEN

datatype authority = From_Spec | From_Submission

record attribution =
  at_session_id :: string
  at_owner :: string
  at_namespace :: string
  at_source :: authority

record run_facts =
  rf_terminal :: terminal_class
  rf_dispatch :: bool
  rf_spec :: doc_kind
  rf_launch :: doc_kind
  rf_submission :: doc_kind
  rf_actionable :: bool
  rf_attribution :: "attribution option"
  rf_switch_unproven :: bool

text \<open>The digest of a text and the printer of finite floats.\<close>

record codec =
  co_sha :: "string \<Rightarrow> string"
  co_float :: "rat \<Rightarrow> string"

section \<open>Classification\<close>

text \<open>Only a clean \<^verbatim>\<open>ENOENT\<close> proves absence.\<close>

fun marker_present :: "dentry \<Rightarrow> bool" where
  "marker_present Absent = False"
| "marker_present _ = True"

definition dispatch_present :: "run_dir \<Rightarrow> bool" where
  "dispatch_present d \<longleftrightarrow> marker_present (dispatch_started d) \<or> marker_present (prompt_accepted d)"

definition switch_unproven :: "run_dir \<Rightarrow> bool" where
  "switch_unproven d \<longleftrightarrow>
     marker_present (config_switch_started d) \<and>
     \<not> (marker_present (config_proven d) \<or> marker_present (config_rollback_proven d))"

definition classify_terminal :: "codec \<Rightarrow> string \<Rightarrow> dentry \<Rightarrow> terminal_class" where
  "classify_terminal c run_id entry =
     (case terminal_entry (co_float c) entry run_id of
        (TERM_ABSENT, _) \<Rightarrow> ABSENT_TERMINAL
      | (TERM_INVALID, _) \<Rightarrow> CORRUPT_TERMINAL
      | (TERM_TRUSTED, p) \<Rightarrow>
          if dget (case p of None \<Rightarrow> [] | Some q \<Rightarrow> q) ''status'' = PStr (status_value UNKNOWN_STATUS)
          then TRUSTED_UNKNOWN else TRUSTED_TERMINAL)"

definition block :: "pydict \<Rightarrow> string \<Rightarrow> pydict" where
  "block p k = (case dget p k of PDict d \<Rightarrow> d | _ \<Rightarrow> [])"

definition spec_identity_ok :: "pydict \<Rightarrow> bool" where
  "spec_identity_ok p \<longleftrightarrow>
     nonempty_str (dget p ''launch_spec_hash'') \<and>
     list_all (\<lambda>k. is_dict (dget p k)) [''identity'', ''session'', ''agent'', ''execution_grant'', ''workspace''] \<and>
     nonempty_str (dget (block p ''identity'') ''owner'') \<and>
     nonempty_str (dget (block p ''identity'') ''namespace'') \<and>
     nonempty_str (dget (block p ''agent'') ''profile_id'') \<and>
     nonempty_str (dget (block p ''agent'') ''profile_hash'') \<and>
     plain_int (dget (block p ''agent'') ''profile_revision'') \<and>
     list_all (\<lambda>k. nonempty_str (dget (block p ''execution_grant'') k)) [''grant_ref'', ''grant_hash'', ''role_hash''] \<and>
     is_list (dget (block p ''execution_grant'') ''capabilities'') \<and>
     list_all (\<lambda>k. nonempty_str (dget (block p ''workspace'') k)) [''canonical_root'', ''cwd'', ''workspace_hash''] \<and>
     is_list (dget p ''input_refs'')"

definition spec_attribution :: "codec \<Rightarrow> pydict \<Rightarrow> string \<Rightarrow> attribution option option" where
  "spec_attribution c p run_id =
     (if \<not> spec_payload_shape_is_exact p then Some None
      else if \<not> py_eq_int (dget p ''schema_version'') SPEC_SCHEMA_VERSION then Some None
      else if dget p ''run_id'' \<noteq> PStr run_id \<or> run_id = [] then Some None
      else if \<not> nonempty_str (dget p ''spec_hash'') then Some None
      else (case spec_hash_of_payload (co_sha c) (co_float c) p of
              None \<Rightarrow> None
            | Some h \<Rightarrow>
                if dget p ''spec_hash'' \<noteq> PStr h then Some None
                else if \<not> spec_identity_ok p then Some None
                else Some (map_option
                  (\<lambda>sid. \<lparr>at_session_id = sid, at_owner = the_str (dget (block p ''identity'') ''owner''),
                          at_namespace = the_str (dget (block p ''identity'') ''namespace''), at_source = From_Spec\<rparr>)
                  (named_session (co_sha c) (dget (block p ''session'') ''session_id'') run_id))))"

definition classify_launch :: "codec \<Rightarrow> dentry \<Rightarrow> pydict option \<Rightarrow> doc_kind option" where
  "classify_launch c entry spec =
     (case classify_entry entry of
        (DOC_VALID, Some p) \<Rightarrow>
          (case launch_payload_shape_is_exact (co_sha c) (PDict p) of
             None \<Rightarrow> None
           | Some False \<Rightarrow> Some DOC_CORRUPT
           | Some True \<Rightarrow>
               (case launch_hash_of_payload (co_sha c) (co_float c) p of
                  None \<Rightarrow> None
                | Some h \<Rightarrow> Some
                    (if dget p ''launch_spec_hash'' \<noteq> PStr h then DOC_CORRUPT
                     else (case spec of
                             Some s \<Rightarrow> if dget s ''launch_spec_hash'' \<noteq> PStr h then DOC_CORRUPT else DOC_VALID
                           | None \<Rightarrow> DOC_VALID))))
      | (k, _) \<Rightarrow> Some k)"

definition is_actionable :: "attribution option \<Rightarrow> store \<Rightarrow> bool" where
  "is_actionable att st \<longleftrightarrow>
     (case att of
        None \<Rightarrow> False
      | Some a \<Rightarrow>
          (case read_native_session_record st (at_session_id a) of
             None \<Rightarrow> False
           | Some r \<Rightarrow> dget r ''owner'' = PStr (at_owner a) \<and> dget r ''namespace'' = PStr (at_namespace a)))"

text \<open>The attribution of the Spec entry: absent or invalid documents attribute nothing.\<close>

definition spec_entry_attribution :: "codec \<Rightarrow> string \<Rightarrow> dentry \<Rightarrow> attribution option option" where
  "spec_entry_attribution c run_id entry =
     (case classify_entry entry of
        (DOC_VALID, Some p) \<Rightarrow> spec_attribution c p run_id
      | _ \<Rightarrow> Some None)"

definition submission_attributed :: "submission_attribution option \<Rightarrow> attribution option" where
  "submission_attributed s =
     map_option (\<lambda>a. \<lparr>at_session_id = sa_session_id a, at_owner = sa_owner a, at_namespace = sa_namespace a,
                      at_source = From_Submission\<rparr>) s"

definition classify_run :: "codec \<Rightarrow> store \<Rightarrow> string \<Rightarrow> run_dir \<Rightarrow> run_facts option" where
  "classify_run c st run_id d =
     (case spec_entry_attribution c run_id (spec_json d) of
        None \<Rightarrow> None
      | Some sa \<Rightarrow>
          (let spec_kind = (if sa \<noteq> None then DOC_VALID
                            else if fst (classify_entry (spec_json d)) = DOC_ABSENT then DOC_ABSENT else DOC_CORRUPT)
           in case classify_launch c (launch_json d)
                    (if spec_kind = DOC_VALID then snd (classify_entry (spec_json d)) else None) of
                None \<Rightarrow> None
              | Some launch_kind \<Rightarrow>
                  (let sub = classify_submission (co_sha c) (submission_json d) run_id;
                       att = (if sa \<noteq> None then sa else submission_attributed (snd sub))
                   in Some
                     \<lparr>rf_terminal = classify_terminal c run_id (result_json d), rf_dispatch = dispatch_present d,
                      rf_spec = spec_kind, rf_launch = launch_kind, rf_submission = fst sub,
                      rf_actionable = is_actionable att st, rf_attribution = att,
                      rf_switch_unproven = switch_unproven d\<rparr>)))"

section \<open>The first-match table\<close>

definition select_row :: "run_facts \<Rightarrow> nat \<times> recon_outcome" where
  "select_row f =
     (if rf_terminal f = TRUSTED_TERMINAL then (1, AUTHORITATIVE_TERMINAL)
      else if rf_terminal f = TRUSTED_UNKNOWN then
        (if rf_actionable f then (2, UNKNOWN_QUARANTINE) else (3, REFUSE_TO_LISTEN))
      else if rf_terminal f = CORRUPT_TERMINAL then (4, REFUSE_TO_LISTEN)
      else if rf_dispatch f then
        (if rf_actionable f then (5, UNKNOWN_QUARANTINE) else (6, REFUSE_TO_LISTEN))
      else if rf_spec f = DOC_VALID then
        (if rf_launch f \<in> {DOC_VALID, DOC_ABSENT} then (7, PRE_DISPATCH_FAILED) else (8, REFUSE_TO_LISTEN))
      else if rf_spec f = DOC_CORRUPT then (9, REFUSE_TO_LISTEN)
      else if rf_launch f \<in> {DOC_VALID, DOC_CORRUPT} then (10, REFUSE_TO_LISTEN)
      else if rf_submission f = DOC_VALID then (11, PRE_DISPATCH_FAILED)
      else if rf_submission f = DOC_ABSENT then (11, PRE_DISPATCH_FAILED)
      else (11, REFUSE_TO_LISTEN))"

definition REFUSAL_BY_ROW :: "(nat \<times> string) list" where
  "REFUSAL_BY_ROW =
     [(3, ''RECONCILE_UNATTRIBUTABLE_UNKNOWN_TERMINAL''), (4, ''RECONCILE_CORRUPT_TERMINAL''),
      (6, ''RECONCILE_UNATTRIBUTABLE_DISPATCH''), (8, ''RECONCILE_CORRUPT_LAUNCH''),
      (9, ''RECONCILE_CORRUPT_SPEC''), (10, ''RECONCILE_LAUNCH_WITHOUT_SPEC''),
      (11, ''RECONCILE_CORRUPT_SUBMISSION'')]"

section \<open>Effects\<close>

datatype reconcile_error =
    Refused string \<comment> \<open>\<^verbatim>\<open>ReconciliationError\<close> with its rule\<close>
  | Refusal_Key_Error \<comment> \<open>a refusing row without a rule\<close>
  | Store_Failed session_error
  | Write_Failed
  | Classification_Raised

record run_io =
  io_fence :: io
  io_mark :: io
  io_clear :: io
  io_progress :: io
  io_terminal :: io

definition QUARANTINE_RECONCILED :: string where
  "QUARANTINE_RECONCILED = ''RECONCILED_DISPATCH_WITHOUT_TERMINAL''"

definition QUARANTINE_SWITCH :: string where
  "QUARANTINE_SWITCH = ''SWITCH_ROLLBACK_UNPROVEN''"

definition refuse :: "nat \<Rightarrow> reconcile_error" where
  "refuse row = (case map_of REFUSAL_BY_ROW row of None \<Rightarrow> Refusal_Key_Error | Some rule \<Rightarrow> Refused rule)"

definition fence_and_quarantine ::
    "run_io \<Rightarrow> string \<Rightarrow> string \<Rightarrow> string \<Rightarrow> string \<Rightarrow> store \<Rightarrow> store \<times> (session_error + unit)" where
  "fence_and_quarantine w moment sid reason run_id st =
     (let mark = (\<lambda>s. case mark_quarantined (io_mark w) (io_clear w) sid reason run_id moment s of
                        (s', Inl e) \<Rightarrow> (s', Inl e) | (s', Inr _) \<Rightarrow> (s', Inr ()))
      in case read_native_session_record st sid of
           Some r \<Rightarrow>
             if dget r ''quarantine'' \<noteq> PNone
             then (if has_quarantine_pending st sid then mark st else (st, Inr ()))
             else (case write_quarantine_pending (io_fence w) sid reason run_id moment st of
                     (s', Inl e) \<Rightarrow> (s', Inl e) | (s', Inr _) \<Rightarrow> mark s')
         | None \<Rightarrow>
             (case write_quarantine_pending (io_fence w) sid reason run_id moment st of
                (s', Inl e) \<Rightarrow> (s', Inl e) | (s', Inr _) \<Rightarrow> mark s'))"

definition progress_payload :: "pydict option \<Rightarrow> string \<Rightarrow> string \<Rightarrow> pydict" where
  "progress_payload existing state moment =
     (let e = (case existing of None \<Rightarrow> [] | Some d \<Rightarrow> d);
          last_seq = (case dget e ''last_seq'' of PInt n \<Rightarrow> n | _ \<Rightarrow> 0);
          event_count = (case dget e ''event_count'' of PInt n \<Rightarrow> n | _ \<Rightarrow> last_seq)
      in [(''schema_version'', PInt 1), (''state'', PStr state), (''last_seq'', PInt last_seq),
          (''event_count'', PInt event_count), (''updated_at'', PStr moment)])"

definition ensure_terminal_progress ::
    "run_io \<Rightarrow> string \<Rightarrow> string \<Rightarrow> run_dir \<Rightarrow> run_dir \<times> (reconcile_error + unit)" where
  "ensure_terminal_progress w moment state d =
     (let existing = snd (classify_entry (progress_json d)) in
      if (case existing of None \<Rightarrow> False | Some e \<Rightarrow> dget e ''state'' = PStr state) then (d, Inr ())
      else (d\<lparr>progress_json := put (io_progress w) (progress_json d)
                (Doc (PDict (progress_payload existing state moment)))\<rparr>,
            if io_progress w = Io_Ok then Inr () else Inl Write_Failed))"

text \<open>The terminal a reconciled run gets; \<open>runs_root\<close> is the runs directory.\<close>

definition reconciled_payload ::
    "string \<Rightarrow> string \<Rightarrow> run_status \<Rightarrow> string \<Rightarrow> attribution option \<Rightarrow> pydict" where
  "reconciled_payload runs_root run_id status detail att =
     with_session (case att of None \<Rightarrow> None
                   | Some a \<Rightarrow> if at_session_id a = [] then None else Some (at_session_id a))
       (build_result_payload (supervisor_args run_id status detail (runs_root @ ''/'' @ run_id)))"

text \<open>\<^verbatim>\<open>lstat\<close> finding the name, whatever it is, ends the write; an exclusive create on a
  path that could not be examined raises.\<close>

definition write_terminal_result ::
    "run_io \<Rightarrow> string \<Rightarrow> string \<Rightarrow> run_status \<Rightarrow> string \<Rightarrow> attribution option \<Rightarrow> run_dir \<Rightarrow>
     run_dir \<times> (reconcile_error + unit)" where
  "write_terminal_result w runs_root run_id status detail att d =
     (case result_json d of
        Absent \<Rightarrow>
          (d\<lparr>result_json := put (io_terminal w) Absent (Doc (PDict (reconciled_payload runs_root run_id status detail att)))\<rparr>,
           if io_terminal w = Io_Ok then Inr () else Inl Write_Failed)
      | Indeterminate \<Rightarrow> (d, Inl Write_Failed)
      | _ \<Rightarrow> (d, Inr ()))"

definition fence_facts :: "run_io \<Rightarrow> string \<Rightarrow> run_facts \<Rightarrow> string \<Rightarrow> string \<Rightarrow> store \<Rightarrow> store \<times> (reconcile_error + unit)" where
  "fence_facts w moment f reason run_id st =
     (case rf_attribution f of
        None \<Rightarrow> (st, Inl (Store_Failed Attribute_Error)) \<comment> \<open>the assertion\<close>
      | Some a \<Rightarrow>
          (case fence_and_quarantine w moment (at_session_id a) reason run_id st of
             (st', Inl e) \<Rightarrow> (st', Inl (Store_Failed e)) | (st', Inr _) \<Rightarrow> (st', Inr ())))"

definition apply_row ::
    "run_io \<Rightarrow> string \<Rightarrow> string \<Rightarrow> run_facts \<Rightarrow> nat \<times> recon_outcome \<Rightarrow> string \<Rightarrow> store \<Rightarrow> run_dir \<Rightarrow>
     (store \<times> run_dir) \<times> (reconcile_error + unit)" where
  "apply_row w moment runs_root f decision run_id st d =
     (case decision of
        (row, AUTHORITATIVE_TERMINAL) \<Rightarrow> ((st, d), Inr ())
      | (row, REFUSE_TO_LISTEN) \<Rightarrow>
          (if row = 4 \<and> rf_dispatch f \<and> rf_actionable f
           then (case fence_facts w moment f QUARANTINE_RECONCILED run_id st of
                   (st', Inl e) \<Rightarrow> ((st', d), Inl e)
                 | (st', Inr _) \<Rightarrow> ((st', d), Inl (refuse row)))
           else ((st, d), Inl (refuse row)))
      | (row, UNKNOWN_QUARANTINE) \<Rightarrow>
          (case fence_facts w moment f QUARANTINE_RECONCILED run_id st of
             (st', Inl e) \<Rightarrow> ((st', d), Inl e)
           | (st', Inr _) \<Rightarrow>
               (case ensure_terminal_progress w moment (status_value UNKNOWN_STATUS) d of
                  (d', Inl e) \<Rightarrow> ((st', d'), Inl e)
                | (d', Inr _) \<Rightarrow>
                    if row = 5
                    then apfst (Pair st')
                      (write_terminal_result w runs_root run_id UNKNOWN_STATUS ''RECONCILED_UNKNOWN'' (rf_attribution f) d')
                    else ((st', d'), Inr ())))
      | (row, PRE_DISPATCH_FAILED) \<Rightarrow>
          (case (if rf_switch_unproven f \<and> rf_actionable f
                 then fence_facts w moment f QUARANTINE_SWITCH run_id st else (st, Inr ())) of
             (st', Inl e) \<Rightarrow> ((st', d), Inl e)
           | (st', Inr _) \<Rightarrow> apfst (Pair st')
               (write_terminal_result w runs_root run_id FAILED ''RECONCILED_PRE_DISPATCH'' (rf_attribution f) d)))"

section \<open>The whole pass\<close>

record recon_env =
  re_codec :: codec
  re_root :: string
  re_moment :: string
  re_io :: "string \<Rightarrow> run_io"

definition reconcile_run ::
    "recon_env \<Rightarrow> string \<Rightarrow> store \<Rightarrow> run_dir \<Rightarrow> (store \<times> run_dir) \<times> (reconcile_error + unit)" where
  "reconcile_run e run_id st d =
     (case classify_run (re_codec e) st run_id d of
        None \<Rightarrow> ((st, d), Inl Classification_Raised)
      | Some f \<Rightarrow> apply_row (re_io e run_id) (re_moment e) (re_root e) f (select_row f) run_id st d)"

text \<open>An entry of the runs root: a real directory, or anything the pass skips.\<close>

datatype run_entry = Run_Dir run_dir | Other_Entry

fun reconcile_runs ::
    "recon_env \<Rightarrow> store \<Rightarrow> (string \<times> run_entry) list \<Rightarrow>
     store \<times> (string \<times> run_entry) list \<times> (reconcile_error + unit)" where
  "reconcile_runs e st [] = (st, [], Inr ())"
| "reconcile_runs e st ((n, Other_Entry) # rs) =
     (case reconcile_runs e st rs of (st', rs', res) \<Rightarrow> (st', (n, Other_Entry) # rs', res))"
| "reconcile_runs e st ((n, Run_Dir d) # rs) =
     (case reconcile_run e n st d of
        ((st', d'), Inl err) \<Rightarrow> (st', (n, Run_Dir d') # rs, Inl err)
      | ((st', d'), Inr _) \<Rightarrow>
          (case reconcile_runs e st' rs of (st'', rs', res) \<Rightarrow> (st'', (n, Run_Dir d') # rs', res)))"

definition reconcile_stores ::
    "recon_env \<Rightarrow> store \<Rightarrow> (string \<times> run_entry) list \<Rightarrow>
     store \<times> (string \<times> run_entry) list \<times> (reconcile_error + unit)" where
  "reconcile_stores e st runs = reconcile_runs e st (sort_key fst runs)"

end
