(* ===== verification/Reconcile_Props.thy ===== *)
theory Reconcile_Props
  imports Reconcile Session_Props
begin

text \<open>
  What reconciliation guarantees: the table is total, no existing terminal, sealed document, marker or
  lock is ever touched, a possibly dispatched run only gets a terminal once its session is quarantined,
  a successful pass leaves every run with a trusted terminal, and a second pass changes nothing.
\<close>

section \<open>The table\<close>

lemma refuse_rules:
  "refuse 3 = Refused ''RECONCILE_UNATTRIBUTABLE_UNKNOWN_TERMINAL''" "refuse 4 = Refused ''RECONCILE_CORRUPT_TERMINAL''"
  "refuse 6 = Refused ''RECONCILE_UNATTRIBUTABLE_DISPATCH''" "refuse 8 = Refused ''RECONCILE_CORRUPT_LAUNCH''"
  "refuse 9 = Refused ''RECONCILE_CORRUPT_SPEC''" "refuse 10 = Refused ''RECONCILE_LAUNCH_WITHOUT_SPEC''"
  "refuse 11 = Refused ''RECONCILE_CORRUPT_SUBMISSION''"
  "refuse 1 = Refusal_Key_Error" "refuse (Suc 0) = Refusal_Key_Error" "refuse 2 = Refusal_Key_Error"
  "refuse 5 = Refusal_Key_Error" "refuse 7 = Refusal_Key_Error"
  by (simp_all add: refuse_def REFUSAL_BY_ROW_def)

text \<open>
  The table is exhaustive: which of the four outcomes a run gets is determined by its terminal,
  its dispatch evidence, its documents and the session it can act on, and a row that refuses has a
  rule to name.
\<close>

theorem row_table_exhaustive:
  "(snd (select_row f) = AUTHORITATIVE_TERMINAL \<longleftrightarrow> rf_terminal f = TRUSTED_TERMINAL) \<and>
   (snd (select_row f) = UNKNOWN_QUARANTINE \<longleftrightarrow>
      rf_actionable f \<and> (rf_terminal f = TRUSTED_UNKNOWN \<or> rf_terminal f = ABSENT_TERMINAL \<and> rf_dispatch f)) \<and>
   (snd (select_row f) = PRE_DISPATCH_FAILED \<longleftrightarrow>
      rf_terminal f = ABSENT_TERMINAL \<and> \<not> rf_dispatch f \<and>
      (rf_spec f = DOC_VALID \<and> rf_launch f \<noteq> DOC_CORRUPT \<or>
       rf_spec f = DOC_ABSENT \<and> rf_launch f = DOC_ABSENT \<and> rf_submission f \<noteq> DOC_CORRUPT)) \<and>
   (snd (select_row f) = REFUSE_TO_LISTEN \<longleftrightarrow> (\<exists>rule. refuse (fst (select_row f)) = Refused rule) \<and>
      snd (select_row f) \<noteq> PRE_DISPATCH_FAILED)"
  by (cases "rf_terminal f"; cases "rf_spec f"; cases "rf_launch f"; cases "rf_submission f";
      simp add: select_row_def refuse_rules)

section \<open>Effects on the session store\<close>

definition locks_kept :: "store \<Rightarrow> store \<Rightarrow> bool" where
  "locks_kept st st' \<longleftrightarrow>
     (\<forall>s. lock_json (st' s) = lock_json (st s) \<and> (session_json (st s) = Absent \<longrightarrow> st' s = st s))"

lemma locks_kept_refl [simp]: "locks_kept st st"
  by (simp add: locks_kept_def)

lemma locks_kept_trans: "locks_kept a b \<Longrightarrow> locks_kept b c \<Longrightarrow> locks_kept a c"
  by (simp add: locks_kept_def)

lemma require_dir:
  "require_session_dir st sid = Inr d \<Longrightarrow> d = st sid \<and> session_json (st sid) \<noteq> Absent"
  by (auto simp: require_session_dir_def split: if_splits sum.splits bool.splits)

lemma fence_locks_kept: "locks_kept st (fst (write_quarantine_pending w sid reason x m st))"
proof (cases "require_session_dir st sid")
  case (Inr d)
  then show ?thesis
    using require_dir [OF Inr] by (simp add: locks_kept_def write_quarantine_pending_def split: sum.split)
qed (simp add: write_quarantine_pending_def)

lemma mark_locks_kept: "locks_kept st (fst (mark_quarantined w u sid reason x m st))"
proof (cases "require_session_dir st sid")
  case (Inr d)
  then have d: "d = st sid" "session_json (st sid) \<noteq> Absent" by (simp_all add: require_dir)
  show ?thesis
    using d by (simp add: locks_kept_def mark_quarantined_def Inr clear_fence_def Let_def split: sum.split)
qed (simp add: mark_quarantined_def)

lemma fence_and_quarantine_cases:
  "fst (fence_and_quarantine w m sid reason x st) \<in>
     {st, fst (write_quarantine_pending (io_fence w) sid reason x m st),
      fst (mark_quarantined (io_mark w) (io_clear w) sid reason x m st),
      fst (mark_quarantined (io_mark w) (io_clear w) sid reason x m
        (fst (write_quarantine_pending (io_fence w) sid reason x m st)))}"
  by (auto simp: fence_and_quarantine_def Let_def split: option.split prod.split sum.split)

text \<open>The fence protocol is two store steps, each possibly failing.\<close>

lemma fence_and_quarantine_steps:
  "(store_step i q)\<^sup>*\<^sup>* st (fst (fence_and_quarantine w m sid reason x st)) \<and>
   locks_kept st (fst (fence_and_quarantine w m sid reason x st))"
proof -
  let ?mark = "\<lambda>s. fst (mark_quarantined (io_mark w) (io_clear w) sid reason x m s)"
  let ?fence = "fst (write_quarantine_pending (io_fence w) sid reason x m st)"
  note cases = fence_and_quarantine_cases [of w m sid reason x st]
  have steps: "store_step i q st ?fence" "store_step i q s (?mark s)" for s
    by (rule ss_fence, rule ss_mark)
  have "(store_step i q)\<^sup>*\<^sup>* st ?fence" "(store_step i q)\<^sup>*\<^sup>* st (?mark st)" "(store_step i q)\<^sup>*\<^sup>* st (?mark ?fence)"
    using steps(1) steps(2) [of st] steps(2) [of ?fence] by (blast intro: rtranclp.intros)+
  moreover have "locks_kept st (?mark ?fence)"
    using fence_locks_kept mark_locks_kept by (rule locks_kept_trans)
  ultimately show ?thesis using cases fence_locks_kept mark_locks_kept by auto
qed

lemma fence_facts_steps:
  "(store_step i q)\<^sup>*\<^sup>* st (fst (fence_facts w m f reason x st)) \<and> locks_kept st (fst (fence_facts w m f reason x st))"
proof (cases "rf_attribution f")
  case (Some a)
  then have "fst (fence_facts w m f reason x st) = fst (fence_and_quarantine w m (at_session_id a) reason x st)"
    by (simp add: fence_facts_def split: prod.split sum.split)
  then show ?thesis using fence_and_quarantine_steps by simp
qed (simp add: fence_facts_def)

section \<open>A settled session\<close>

text \<open>The evidence is in a valid record of the attributed owner and no fence is pending.\<close>

definition settled :: "store \<Rightarrow> attribution \<Rightarrow> bool" where
  "settled st a \<longleftrightarrow>
     (\<exists>r. read_native_session_record st (at_session_id a) = Some r \<and> dget r ''quarantine'' \<noteq> PNone \<and>
        dget r ''owner'' = PStr (at_owner a) \<and> dget r ''namespace'' = PStr (at_namespace a)) \<and>
     \<not> has_quarantine_pending st (at_session_id a)"

lemma settled_actionable: "settled st a \<Longrightarrow> is_actionable (Some a) st"
  by (auto simp: settled_def is_actionable_def)

lemma settled_noop: "settled st a \<Longrightarrow> fence_and_quarantine w m (at_session_id a) reason x st = (st, Inr ())"
  by (auto simp: settled_def fence_and_quarantine_def)

lemma read_native_Some:
  assumes "read_native_session_record st sid = Some r"
  shows "require_session_dir st sid = Inr (st sid)" "read_record (session_json (st sid)) = Inr r"
    "validate_native_session_record r sid = []" "session_id_ok sid"
  using assms
  by (auto simp: read_native_session_record_def open_session_def require_session_dir_def
      split: sum.splits if_splits bool.splits)

lemma native_read_back:
  assumes "record_wf r" "dget r ''session_kind'' = PStr SESSION_KIND_NATIVE"
  obtains r' where "read_record (Doc (PDict (record_to_dict r))) = Inr r'"
    "\<And>k. k \<in> set DECLARED_RECORD_FIELDS \<Longrightarrow> k \<notin> set LEGACY_ONLY_FIELDS \<Longrightarrow> dget r' k = dget r k"
proof
  have "set (map fst (record_to_dict r)) \<subseteq> set DECLARED_RECORD_FIELDS"
    using record_to_dict_keys [of r] assms(1) by (simp add: record_wf_def del: set_map)
  then show "read_record (Doc (PDict (record_to_dict r))) = Inr (new_record (record_to_dict r))"
    by (auto simp: read_record_def record_from_dict_def list_all_iff)
next
  fix k assume k: "k \<in> set DECLARED_RECORD_FIELDS" "k \<notin> set LEGACY_ONLY_FIELDS"
  have "dget (record_to_dict r) k = dget r k"
    using assms(2) k(2) by (auto simp: record_to_dict_def Let_def dget_del_when dget_ddel)
  with k(1) show "dget (new_record (record_to_dict r)) k = dget r k" by (simp add: dget_new_record)
qed

lemma validated_fields:
  "\<forall>k \<in> set [''schema_version'', ''session_id'', ''session_kind'', ''owner'', ''namespace'', ''workspace_hash'',
      ''native_profile_id'', ''native_profile_hash'', ''native_profile_revision'', ''agent_session_id'', ''quarantine''].
     k \<in> set DECLARED_RECORD_FIELDS \<and> k \<notin> set LEGACY_ONLY_FIELDS"
  by (simp add: DECLARED_RECORD_FIELDS_def LEGACY_ONLY_FIELDS_def)

lemma validate_cong:
  assumes "validate_native_session_record r sid = []" "quarantine_is_exact (dget r' ''quarantine'')"
    "\<forall>k \<in> set [''schema_version'', ''session_id'', ''session_kind'', ''owner'', ''namespace'', ''workspace_hash'',
      ''native_profile_id'', ''native_profile_hash'', ''native_profile_revision'', ''agent_session_id''].
     dget r' k = dget r k"
  shows "validate_native_session_record r' sid = []"
  using assms by (simp add: validate_native_session_record_def split: if_splits)

text \<open>Marking a valid record whose evidence is missing leaves a valid record with evidence.\<close>

lemma mark_settles:
  assumes "read_record (session_json (st sid)) = Inr r" "validate_native_session_record r sid = []"
    "mark_quarantined w u sid reason x m st = (st', Inr q)" "m \<noteq> []"
  obtains r' where "read_native_session_record st' sid = Some r'" "dget r' ''quarantine'' \<noteq> PNone"
    "dget r' ''owner'' = dget r ''owner''" "dget r' ''namespace'' = dget r ''namespace''"
    "fence_json (st' sid) = Absent"
proof -
  obtain ev where dir: "require_session_dir st sid = Inr (st sid)" "session_id_ok sid"
    and ev: "build_quarantine_evidence reason x m = Inr ev"
    using assms(1,3) by (auto simp: mark_quarantined_def require_session_dir_def split: sum.splits bool.splits if_splits)
  show thesis
  proof (cases "dget r ''quarantine'' = PNone")
    case False
    then have "st' = st(sid := clear_fence u (st sid))" "u = Io_Ok"
      using assms(1,3) dir ev by (auto simp: mark_quarantined_def elim: io_result.elims)
    then show thesis
      using that [of r] False dir assms(1,2)
      by (simp add: read_native_session_record_def open_session_def require_session_dir_def clear_fence_def
          split: sum.splits bool.splits if_splits)
  next
    case True
    let ?q = "dset ''updated_at'' (PStr m) (dset ''quarantine'' (PDict ev) r)"
    have st': "st' = st(sid := clear_fence u ((st sid)\<lparr>session_json := Doc (PDict (record_to_dict ?q))\<rparr>))" "u = Io_Ok"
      using assms(1,3) dir ev True
      by (auto simp: mark_quarantined_def Let_def split: if_splits elim: io_result.elims)
    have kind: "dget r ''session_kind'' = PStr SESSION_KIND_NATIVE"
      using assms(2) by (simp add: validate_native_session_record_def split: if_splits)
    have upd: "''updated_at'' \<in> set DECLARED_RECORD_FIELDS" by (simp add: DECLARED_RECORD_FIELDS_def)
    have "record_wf ?q" using read_record_wf [OF assms(1)] upd quarantine_declared by (simp add: record_wf_dset)
    moreover have "dget ?q ''session_kind'' = PStr SESSION_KIND_NATIVE" using kind by simp
    ultimately obtain r' where r': "read_record (Doc (PDict (record_to_dict ?q))) = Inr r'"
      and eq: "\<And>k. k \<in> set DECLARED_RECORD_FIELDS \<Longrightarrow> k \<notin> set LEGACY_ONLY_FIELDS \<Longrightarrow> dget r' k = dget ?q k"
      using native_read_back by blast
    have fields: "\<forall>k \<in> set [''schema_version'', ''session_id'', ''session_kind'', ''owner'', ''namespace'', ''workspace_hash'',
        ''native_profile_id'', ''native_profile_hash'', ''native_profile_revision'', ''agent_session_id''].
        dget r' k = dget r k" and qu: "dget r' ''quarantine'' = PDict ev"
      using eq validated_fields by simp_all
    have "validate_native_session_record r' sid = []"
      using validate_cong [OF assms(2) _ fields] built_evidence_exact [OF ev assms(4)] qu by simp
    then show thesis
      using that [of r'] r' st' dir fields qu
      by (simp add: read_native_session_record_def open_session_def require_session_dir_def clear_fence_def)
  qed
qed

lemma fence_then_settled:
  assumes "is_actionable (Some a) st" "fence_and_quarantine w m (at_session_id a) reason x st = (st', Inr ())" "m \<noteq> []"
  shows "settled st' a"
proof -
  let ?sid = "at_session_id a"
  obtain r where r: "read_native_session_record st ?sid = Some r" "dget r ''owner'' = PStr (at_owner a)"
    "dget r ''namespace'' = PStr (at_namespace a)"
    using assms(1) by (auto simp: is_actionable_def split: option.splits)
  note rr = read_native_Some [OF r(1)]
  have marked: "settled s' a"
    if "mark_quarantined (io_mark w) (io_clear w) ?sid reason x m s = (s', Inr q)"
      "session_json (s ?sid) = session_json (st ?sid)" for s s' q
    using mark_settles [OF _ rr(3) that(1) assms(3)] rr(2) that(2) r(2,3)
    by (auto simp: settled_def has_quarantine_pending_def)
  show ?thesis
  proof (cases "dget r ''quarantine'' = PNone")
    case False
    then show ?thesis
      using assms(2) r marked [of st]
      by (auto simp: fence_and_quarantine_def settled_def Let_def split: if_splits prod.splits sum.splits)
  next
    case True
    let ?f = "write_quarantine_pending (io_fence w) ?sid reason x m st"
    have "session_json (fst ?f ?sid) = session_json (st ?sid)" by (rule fence_frame)
    then show ?thesis
      using assms(2) r(1) True marked [of "fst ?f"]
      by (auto simp: fence_and_quarantine_def Let_def split: prod.splits sum.splits)
  qed
qed

lemma settled_cong:
  assumes "st' (at_session_id a) = st (at_session_id a)" shows "settled st' a = settled st a"
  unfolding settled_def read_native_session_record_def open_session_def require_session_dir_def
    has_quarantine_pending_def assms by (rule refl)

text \<open>A settled session stays settled through every later fence protocol.\<close>

lemma settled_stable:
  assumes "settled st a" shows "settled (fst (fence_and_quarantine w m sid reason x st)) a"
proof (cases "sid = at_session_id a")
  case True
  then show ?thesis using settled_noop [OF assms] assms by simp
next
  case False
  have "fst (mark_quarantined w' u' sid r' x' m' s) (at_session_id a) = s (at_session_id a)" for w' u' r' x' m' s
    using False by (auto simp: mark_quarantined_def Let_def split: sum.split)
  moreover have "fst (write_quarantine_pending w' sid r' x' m' s) (at_session_id a) = s (at_session_id a)" for w' r' x' m' s
    using False by (auto simp: write_quarantine_pending_def split: sum.split)
  ultimately have "fst (fence_and_quarantine w m sid reason x st) (at_session_id a) = st (at_session_id a)"
    using fence_and_quarantine_cases [of w m sid reason x st] by auto
  then show ?thesis using assms settled_cong by blast
qed

section \<open>Effects on a run directory\<close>

definition evidence_kept :: "run_dir \<Rightarrow> run_dir \<Rightarrow> bool" where
  "evidence_kept d d' \<longleftrightarrow>
     d' = d\<lparr>result_json := result_json d', progress_json := progress_json d'\<rparr> \<and>
     (result_json d = Absent \<or> result_json d' = result_json d)"

lemma evidence_kept_refl [simp]: "evidence_kept d d"
  by (simp add: evidence_kept_def)

lemma progress_kept:
  "fst (ensure_terminal_progress w m state d) = d\<lparr>progress_json := progress_json (fst (ensure_terminal_progress w m state d))\<rparr>"
  by (simp add: ensure_terminal_progress_def Let_def split: option.split)

lemma terminal_kept:
  "fst (write_terminal_result w rt x s k att d) = d\<lparr>result_json := result_json (fst (write_terminal_result w rt x s k att d))\<rparr>"
  "result_json d \<noteq> Absent \<Longrightarrow> fst (write_terminal_result w rt x s k att d) = d"
  by (simp_all add: write_terminal_result_def split: dentry.split)

text \<open>One row: the store moves by store steps that keep locks, the directory keeps its evidence.\<close>

lemma apply_row_cases:
  "fst (fst (apply_row w m rt f dec x st d)) \<in>
     {st, fst (fence_facts w m f QUARANTINE_RECONCILED x st), fst (fence_facts w m f QUARANTINE_SWITCH x st)}"
  "snd (fst (apply_row w m rt f dec x st d)) \<in>
     {d, fst (ensure_terminal_progress w m (status_value UNKNOWN_STATUS) d),
      fst (write_terminal_result w rt x UNKNOWN_STATUS ''RECONCILED_UNKNOWN'' (rf_attribution f)
        (fst (ensure_terminal_progress w m (status_value UNKNOWN_STATUS) d))),
      fst (write_terminal_result w rt x FAILED ''RECONCILED_PRE_DISPATCH'' (rf_attribution f) d)}"
  by (cases dec; cases "snd dec"; auto simp: apply_row_def split: prod.splits sum.splits)+

lemma progress_kept_evidence: "evidence_kept d (fst (ensure_terminal_progress w m state d))"
  by (subst progress_kept) (simp add: evidence_kept_def)

lemma terminal_kept_evidence:
  assumes "d0 = d\<lparr>progress_json := p\<rparr>" shows "evidence_kept d (fst (write_terminal_result w rt x s k att d0))"
proof (cases "result_json d = Absent")
  case True
  then show ?thesis by (subst terminal_kept(1)) (simp add: evidence_kept_def assms)
next
  case False
  then show ?thesis using terminal_kept(2) [of d0] by (simp add: assms evidence_kept_def)
qed

lemma apply_row_frame:
  assumes "apply_row w m rt f dec x st d = ((st', d'), res)"
  shows "(store_step i q)\<^sup>*\<^sup>* st st'" "locks_kept st st'" "evidence_kept d d'"
proof -
  have "(store_step i q)\<^sup>*\<^sup>* st (fst (fst (apply_row w m rt f dec x st d))) \<and>
      locks_kept st (fst (fst (apply_row w m rt f dec x st d)))"
    using apply_row_cases(1) [of w m rt f dec x st d] fence_facts_steps [of i q st w m f] by auto
  then show "(store_step i q)\<^sup>*\<^sup>* st st'" "locks_kept st st'" using assms by simp_all
  have "evidence_kept d (snd (fst (apply_row w m rt f dec x st d)))"
    using apply_row_cases(2) [of w m rt f dec x st d] progress_kept_evidence
      terminal_kept_evidence [OF progress_kept] terminal_kept_evidence [where d0 = d and d = d and p = "progress_json d"]
    by auto
  then show "evidence_kept d d'" using assms by simp
qed

lemma reconcile_run_frame:
  assumes "reconcile_run e x st d = ((st', d'), res)"
  shows "(store_step i q)\<^sup>*\<^sup>* st st'" "locks_kept st st'" "evidence_kept d d'"
  using assms apply_row_frame
  by (simp_all add: reconcile_run_def split: option.splits) (blast+)?

section \<open>Classifying again\<close>

text \<open>Whom a run is attributed to depends on its sealed documents only.\<close>

definition run_attribution :: "codec \<Rightarrow> string \<Rightarrow> run_dir \<Rightarrow> attribution option" where
  "run_attribution c x d =
     (case spec_entry_attribution c x (spec_json d) of
        Some (Some a) \<Rightarrow> Some a
      | _ \<Rightarrow> submission_attributed (snd (classify_submission (co_sha c) (submission_json d) x)))"

lemma classify_run_Some:
  assumes "classify_run c st x d = Some f"
  shows "rf_attribution f = run_attribution c x d" "rf_terminal f = classify_terminal c x (result_json d)"
    "rf_dispatch f = dispatch_present d" "rf_actionable f = is_actionable (run_attribution c x d) st"
    "rf_switch_unproven f = switch_unproven d"
  using assms by (auto simp: classify_run_def run_attribution_def Let_def split: option.splits)

lemma kept_documents:
  assumes "evidence_kept d d'"
  shows "spec_json d' = spec_json d" "launch_json d' = launch_json d" "submission_json d' = submission_json d"
    "dispatch_started d' = dispatch_started d" "prompt_accepted d' = prompt_accepted d"
    "config_switch_started d' = config_switch_started d" "config_proven d' = config_proven d"
    "config_rollback_proven d' = config_rollback_proven d"
  using assms by (cases d; cases d'; simp add: evidence_kept_def)+

lemma kept_attribution: "evidence_kept d d' \<Longrightarrow> run_attribution c x d' = run_attribution c x d"
  by (simp only: run_attribution_def kept_documents)

lemma classify_again:
  assumes "evidence_kept d d'" "classify_run c st x d = Some f"
  shows "\<exists>g. classify_run c st' x d' = Some g"
  using assms(2) unfolding classify_run_def Let_def kept_documents [OF assms(1)]
  by (auto split: option.splits split del: if_split)

section \<open>A run that is done\<close>

definition progress_state :: "run_dir \<Rightarrow> string \<Rightarrow> bool" where
  "progress_state d state \<longleftrightarrow>
     (case snd (classify_entry (progress_json d)) of None \<Rightarrow> False | Some e \<Rightarrow> dget e ''state'' = PStr state)"

definition run_done :: "codec \<Rightarrow> store \<Rightarrow> string \<Rightarrow> run_dir \<Rightarrow> bool" where
  "run_done c st x d \<longleftrightarrow>
     (\<exists>f. classify_run c st x d = Some f) \<and>
     (classify_terminal c x (result_json d) = TRUSTED_TERMINAL \<or>
      classify_terminal c x (result_json d) = TRUSTED_UNKNOWN \<and> progress_state d (status_value UNKNOWN_STATUS) \<and>
      (\<exists>a. run_attribution c x d = Some a \<and> settled st a))"

text \<open>The terminals reconciliation would write for this run are within the size ceiling.\<close>

definition terminal_fits :: "recon_env \<Rightarrow> string \<Rightarrow> run_dir \<Rightarrow> bool" where
  "terminal_fits e x d \<longleftrightarrow>
     list_all (\<lambda>(s, k). case native_result_serialized_size (co_float (re_codec e))
                  (reconciled_payload (re_root e) x s k (run_attribution (re_codec e) x d)) of
                None \<Rightarrow> False | Some n \<Rightarrow> n \<le> MAX_NATIVE_RESULT_SERIALIZED_BYTES)
       [(UNKNOWN_STATUS, ''RECONCILED_UNKNOWN''), (FAILED, ''RECONCILED_PRE_DISPATCH'')]"

lemma written_terminal_trusted:
  assumes "terminal_fits e x d" "(s, k) \<in> {(UNKNOWN_STATUS, ''RECONCILED_UNKNOWN''), (FAILED, ''RECONCILED_PRE_DISPATCH'')}"
  shows "classify_terminal (re_codec e) x
      (Doc (PDict (reconciled_payload (re_root e) x s k (run_attribution (re_codec e) x d)))) =
    (if s = UNKNOWN_STATUS then TRUSTED_UNKNOWN else TRUSTED_TERMINAL)"
proof -
  let ?att = "run_attribution (re_codec e) x d" and ?fr = "co_float (re_codec e)"
  let ?a = "supervisor_args x s k (re_root e @ ''/'' @ x)"
  obtain n where "native_result_serialized_size ?fr (reconciled_payload (re_root e) x s k ?att) = Some n"
    "n \<le> MAX_NATIVE_RESULT_SERIALIZED_BYTES"
    using assms by (auto simp: terminal_fits_def split: option.splits)
  moreover have "args_native ?a"
    using assms(2) by (auto simp: args_native_def supervisor_args_def semantic_grammar_ok_def)
  moreover have "ra_run_id ?a = x" by (simp add: supervisor_args_def)
  ultimately have "validate_native_terminal_result ?fr (PDict (reconciled_payload (re_root e) x s k ?att)) x =
      Some (reconciled_payload (re_root e) x s k ?att)"
    using native_payload_trusted [of ?a ?fr] by (simp add: reconciled_payload_def)
  moreover have "dget (reconciled_payload (re_root e) x s k ?att) ''status'' = PStr (status_value s)"
    by (simp add: reconciled_payload_def with_session_dget) (simp add: build_result_payload_def dget_def supervisor_args_def)
  moreover have "status_value s = status_value UNKNOWN_STATUS \<longleftrightarrow> s = UNKNOWN_STATUS" by (cases s) simp_all
  ultimately show ?thesis by (simp add: classify_terminal_def terminal_entry_def)
qed

lemma progress_ok:
  "ensure_terminal_progress w m state d = (d', Inr ()) \<Longrightarrow> progress_state d' state \<and> result_json d' = result_json d"
  by (auto simp: ensure_terminal_progress_def progress_state_def Let_def progress_payload_def dget_def
      split: option.splits if_splits)

lemma fence_facts_ok:
  assumes "fence_facts w m f reason x st = (st', Inr ())" "is_actionable (rf_attribution f) st" "m \<noteq> []"
  obtains a where "rf_attribution f = Some a" "settled st' a"
proof -
  obtain a where a: "rf_attribution f = Some a" using assms(2) by (auto simp: is_actionable_def split: option.splits)
  with assms(1) have "fence_and_quarantine w m (at_session_id a) reason x st = (st', Inr ())"
    by (auto simp: fence_facts_def split: prod.splits sum.splits)
  from fence_then_settled [OF _ this assms(3)] show thesis using that a assms(2) by simp
qed

lemma absent_terminal: "classify_terminal c x r = ABSENT_TERMINAL \<longleftrightarrow> r = Absent"
  by (auto simp: classify_terminal_def terminal_entry_def split: dentry.splits option.splits)

lemma select_row_cases:
  "select_row f = (1, AUTHORITATIVE_TERMINAL) \<and> rf_terminal f = TRUSTED_TERMINAL \<or>
   select_row f = (2, UNKNOWN_QUARANTINE) \<and> rf_terminal f = TRUSTED_UNKNOWN \<and> rf_actionable f \<or>
   select_row f = (5, UNKNOWN_QUARANTINE) \<and> rf_terminal f = ABSENT_TERMINAL \<and> rf_dispatch f \<and> rf_actionable f \<or>
   (\<exists>row. select_row f = (row, PRE_DISPATCH_FAILED) \<and> rf_terminal f = ABSENT_TERMINAL \<and> \<not> rf_dispatch f) \<or>
   (\<exists>row. select_row f = (row, REFUSE_TO_LISTEN))"
  by (cases "rf_terminal f") (simp_all add: select_row_def)

text \<open>The four ways a run can succeed.\<close>

lemma reconcile_run_ok:
  assumes "reconcile_run e x st d = ((st', d'), Inr ())" "re_moment e \<noteq> []"
  obtains
    (terminal) "classify_terminal (re_codec e) x (result_json d) = TRUSTED_TERMINAL" "d' = d"
  | (unknown) a where "classify_terminal (re_codec e) x (result_json d) = TRUSTED_UNKNOWN"
      "result_json d' = result_json d" "progress_state d' (status_value UNKNOWN_STATUS)"
      "run_attribution (re_codec e) x d = Some a" "settled st' a"
  | (dispatched) a where "result_json d = Absent" "dispatch_present d"
      "result_json d' = Doc (PDict (reconciled_payload (re_root e) x UNKNOWN_STATUS ''RECONCILED_UNKNOWN''
         (run_attribution (re_codec e) x d)))"
      "progress_state d' (status_value UNKNOWN_STATUS)"
      "run_attribution (re_codec e) x d = Some a" "settled st' a"
  | (pre_dispatch) "result_json d = Absent" "\<not> dispatch_present d"
      "result_json d' = Doc (PDict (reconciled_payload (re_root e) x FAILED ''RECONCILED_PRE_DISPATCH''
         (run_attribution (re_codec e) x d)))"
proof -
  let ?c = "re_codec e" and ?w = "re_io e x" and ?m = "re_moment e"
  obtain f where f: "classify_run ?c st x d = Some f"
    and ap: "apply_row ?w ?m (re_root e) f (select_row f) x st d = ((st', d'), Inr ())"
    using assms(1) by (auto simp: reconcile_run_def split: option.splits)
  note fs = classify_run_Some [OF f]
  consider (t) "select_row f = (1, AUTHORITATIVE_TERMINAL)" "rf_terminal f = TRUSTED_TERMINAL"
    | (u) "select_row f = (2, UNKNOWN_QUARANTINE)" "rf_terminal f = TRUSTED_UNKNOWN" "rf_actionable f"
    | (d) "select_row f = (5, UNKNOWN_QUARANTINE)" "rf_terminal f = ABSENT_TERMINAL" "rf_dispatch f" "rf_actionable f"
    | (p) row where "select_row f = (row, PRE_DISPATCH_FAILED)" "rf_terminal f = ABSENT_TERMINAL" "\<not> rf_dispatch f"
    | (r) row where "select_row f = (row, REFUSE_TO_LISTEN)"
    using select_row_cases [of f] by blast
  then show thesis
  proof cases
    case t
    then show thesis using terminal ap fs by (simp add: apply_row_def)
  next
    case u
    then obtain st1 where fen: "fence_facts ?w ?m f QUARANTINE_RECONCILED x st = (st1, Inr ())"
      and pr: "ensure_terminal_progress ?w ?m (status_value UNKNOWN_STATUS) d = (d', Inr ())" and "st1 = st'"
      using ap by (auto simp: apply_row_def simp del: status_value.simps split: prod.splits sum.splits)
    then show thesis
      using unknown fence_facts_ok [OF fen _ assms(2)] progress_ok [OF pr] u fs by auto
  next
    case d
    then obtain d1 where fen: "fence_facts ?w ?m f QUARANTINE_RECONCILED x st = (st', Inr ())"
      and pr: "ensure_terminal_progress ?w ?m (status_value UNKNOWN_STATUS) d = (d1, Inr ())"
      and wr: "write_terminal_result ?w (re_root e) x UNKNOWN_STATUS ''RECONCILED_UNKNOWN'' (rf_attribution f) d1 = (d', Inr ())"
      using ap by (auto simp: apply_row_def apfst_def map_prod_def simp del: status_value.simps split: prod.splits sum.splits)
    have abs: "result_json d = Absent" using d(2) fs(2) absent_terminal by metis
    have "d' = d1\<lparr>result_json := Doc (PDict (reconciled_payload (re_root e) x UNKNOWN_STATUS ''RECONCILED_UNKNOWN'' (rf_attribution f)))\<rparr>"
      using wr abs progress_ok [OF pr] by (auto simp: write_terminal_result_def split: if_splits)
    moreover obtain a where "rf_attribution f = Some a" "settled st' a"
      using fence_facts_ok [OF fen _ assms(2)] d(4) fs by metis
    ultimately show thesis
      using dispatched [of a] abs progress_ok [OF pr] d(3) fs by (simp add: progress_state_def)
  next
    case p
    then have abs: "result_json d = Absent" "\<not> dispatch_present d" using fs absent_terminal by metis+
    obtain st1 where "write_terminal_result ?w (re_root e) x FAILED ''RECONCILED_PRE_DISPATCH'' (rf_attribution f) d = (d', Inr ())"
      using ap p by (auto simp: apply_row_def apfst_def map_prod_def split: prod.splits sum.splits)
    then have "d' = d\<lparr>result_json := Doc (PDict (reconciled_payload (re_root e) x FAILED ''RECONCILED_PRE_DISPATCH'' (rf_attribution f)))\<rparr>"
      using abs by (auto simp: write_terminal_result_def split: if_splits)
    then show thesis using pre_dispatch abs fs by simp
  next
    case r
    then show thesis using ap by (auto simp: apply_row_def split: prod.splits sum.splits if_splits)
  qed
qed

lemma reconcile_run_done:
  assumes "reconcile_run e x st d = ((st', d'), Inr ())" "re_moment e \<noteq> []" "terminal_fits e x d"
  shows "run_done (re_codec e) st' x d'"
proof -
  have kept: "evidence_kept d d'" using reconcile_run_frame(3) [OF assms(1)] .
  obtain f where "classify_run (re_codec e) st x d = Some f"
    using assms(1) by (auto simp: reconcile_run_def split: option.splits)
  then have c: "\<exists>g. classify_run (re_codec e) st' x d' = Some g" by (rule classify_again [OF kept])
  note att = kept_attribution [OF kept]
  show ?thesis
  proof (rule reconcile_run_ok [OF assms(1,2)], goal_cases)
    case 1
    then show ?case using c by (simp add: run_done_def)
  next
    case (2 a)
    then show ?case using c by (simp add: run_done_def att)
  next
    case (3 a)
    then show ?case
      using c written_terminal_trusted [OF assms(3), of UNKNOWN_STATUS "''RECONCILED_UNKNOWN''"]
      by (simp add: run_done_def att)
  next
    case 4
    then show ?case
      using c written_terminal_trusted [OF assms(3), of FAILED "''RECONCILED_PRE_DISPATCH''"]
      by (simp add: run_done_def)
  qed
qed

lemma done_noop:
  assumes "run_done (re_codec e) st x d" shows "reconcile_run e x st d = ((st, d), Inr ())"
proof -
  obtain f where f: "classify_run (re_codec e) st x d = Some f" using assms by (auto simp: run_done_def)
  note fs = classify_run_Some [OF f]
  show ?thesis
  proof (cases "classify_terminal (re_codec e) x (result_json d) = TRUSTED_TERMINAL")
    case True
    then show ?thesis by (simp add: reconcile_run_def f apply_row_def select_row_def fs)
  next
    case False
    with assms obtain a where u: "classify_terminal (re_codec e) x (result_json d) = TRUSTED_UNKNOWN"
      and p: "progress_state d (status_value UNKNOWN_STATUS)" and a: "run_attribution (re_codec e) x d = Some a"
      and s: "settled st a" by (auto simp: run_done_def)
    have "select_row f = (2, UNKNOWN_QUARANTINE)"
      using u a settled_actionable [OF s] by (simp add: select_row_def fs)
    moreover have "fence_facts w m f r x st = (st, Inr ())" for w m r
      using settled_noop [OF s] a by (simp add: fence_facts_def fs)
    moreover have "ensure_terminal_progress w m (status_value UNKNOWN_STATUS) d = (d, Inr ())" for w m
      using p unfolding progress_state_def ensure_terminal_progress_def Let_def by simp
    ultimately show ?thesis by (simp add: reconcile_run_def f apply_row_def)
  qed
qed

lemma settled_run: "settled st a \<Longrightarrow> settled (fst (fst (reconcile_run e x st d))) a"
proof -
  assume s: "settled st a"
  have "settled (fst (fence_facts w m f r x st)) a" for w m f r
    using settled_stable [OF s] s by (simp add: fence_facts_def split: option.split prod.split sum.split) (metis fst_conv)
  then have "settled (fst (fst (apply_row w m rt f dec x st d))) a" for w m rt f dec
    using s apply_row_cases(1) [of w m rt f dec x st d] by fastforce
  then show ?thesis using s by (simp add: reconcile_run_def split: option.split)
qed

section \<open>The whole pass\<close>

lemma reconcile_runs_keep:
  assumes "\<And>s m x. Q s \<Longrightarrow> Q (fst (fst (reconcile_run e m s x)))" "Q st"
  shows "Q (fst (reconcile_runs e st rs))"
  using assms(2)
proof (induction rs arbitrary: st)
  case (Cons p rs)
  obtain n v where p: "p = (n, v)" by (cases p)
  show ?case
  proof (cases v)
    case (Run_Dir d)
    obtain s1 d1 r where run: "reconcile_run e n st d = ((s1, d1), r)" by (metis prod.exhaust_sel)
    then have "Q s1" using assms(1) [of st n d] Cons.prems by simp
    then show ?thesis
      using Cons.IH [of s1] by (cases r) (auto simp: p Run_Dir run split: prod.split)
  next
    case Other_Entry
    then show ?thesis using Cons.IH [OF Cons.prems] by (auto simp: p split: prod.split)
  qed
qed simp

lemma run_done_store:
  assumes "run_done c st x d" "\<And>a. settled st a \<Longrightarrow> settled st' a" shows "run_done c st' x d"
proof -
  have "\<exists>g. classify_run c st' x d = Some g"
    using assms(1) classify_again [OF evidence_kept_refl] by (auto simp: run_done_def)
  with assms show ?thesis by (auto simp: run_done_def)
qed

text \<open>The relation between an entry before and after a pass, against the final store.\<close>

definition entry_rel :: "(string \<Rightarrow> run_dir \<Rightarrow> run_dir \<Rightarrow> bool) \<Rightarrow> string \<times> run_entry \<Rightarrow> string \<times> run_entry \<Rightarrow> bool" where
  "entry_rel P p p' \<longleftrightarrow> fst p' = fst p \<and>
     (case (snd p, snd p') of
        (Run_Dir d, Run_Dir d') \<Rightarrow> P (fst p) d d'
      | (Other_Entry, Other_Entry) \<Rightarrow> True
      | _ \<Rightarrow> False)"

lemma entry_rel_mono: "entry_rel P p p' \<Longrightarrow> (\<And>n d d'. P n d d' \<Longrightarrow> Q n d d') \<Longrightarrow> entry_rel Q p p'"
  by (auto simp: entry_rel_def split: run_entry.splits)

lemma entry_rel_refl: "(\<And>n d. P n d d) \<Longrightarrow> entry_rel P p p"
  by (auto simp: entry_rel_def split: run_entry.split)

text \<open>Whatever each run establishes, and later runs keep, holds of every run at the end.\<close>

lemma reconcile_runs_all:
  assumes "reconcile_runs e st rs = (st', rs', res)"
    and run: "\<And>n s d s1 d1 r. reconcile_run e n s d = ((s1, d1), r) \<Longrightarrow> P n s1 d d1"
    and refl: "\<And>n s d. P n s d d"
    and keep: "\<And>n s d d' m x. P n s d d' \<Longrightarrow> P n (fst (fst (reconcile_run e m s x))) d d'"
  shows "list_all2 (entry_rel (\<lambda>n. P n st')) rs rs'"
  using assms(1)
proof (induction rs arbitrary: st rs')
  case (Cons p rs)
  obtain n v where p: "p = (n, v)" by (cases p)
  show ?case
  proof (cases v)
    case (Run_Dir d)
    obtain s1 d1 r where run1: "reconcile_run e n st d = ((s1, d1), r)" by (metis prod.exhaust_sel)
    show ?thesis
    proof (cases r)
      case (Inl err)
      then have "st' = s1" "rs' = (n, Run_Dir d1) # rs" using Cons.prems by (simp_all add: p Run_Dir run1)
      then show ?thesis
        using run [OF run1] refl by (auto simp: p Run_Dir entry_rel_def list_all2_refl split: run_entry.split)
    next
      case (Inr u)
      then obtain rs1 where rest: "reconcile_runs e s1 rs = (st', rs1, res)" and rs': "rs' = (n, Run_Dir d1) # rs1"
        using Cons.prems by (auto simp: p Run_Dir run1 split: prod.splits)
      have "P n (fst (reconcile_runs e s1 rs)) d d1"
        by (rule reconcile_runs_keep [where Q = "\<lambda>s. P n s d d1"]) (rule keep, assumption, rule run [OF run1])
      then show ?thesis
        using Cons.IH [OF rest] by (simp add: p Run_Dir rs' rest entry_rel_def)
    qed
  next
    case Other_Entry
    then obtain rs1 where "reconcile_runs e st rs = (st', rs1, res)" "rs' = (n, Other_Entry) # rs1"
      using Cons.prems by (auto simp: p split: prod.splits)
    then show ?thesis using Cons.IH by (simp add: p Other_Entry entry_rel_def)
  qed
qed simp

text \<open>
  C9. Evidence is never touched: whatever a pass does and however it ends, no lock and no session
  without a record changes, the set of runs stays the same, no sealed document and no marker of any
  run changes, and a result that exists in any form stays exactly as it is.
\<close>

theorem reconcile_preserves_evidence:
  assumes "reconcile_stores e st runs = (st', runs', res)"
  shows "locks_kept st st' \<and> list_all2 (entry_rel (\<lambda>n. evidence_kept)) (sort_key fst runs) runs'"
proof
  have "locks_kept st (fst (reconcile_runs e st (sort_key fst runs)))"
  proof (rule reconcile_runs_keep)
    fix s m x assume "locks_kept st s"
    moreover have "locks_kept s (fst (fst (reconcile_run e m s x)))"
      using reconcile_run_frame(2) by (metis prod.collapse)
    ultimately show "locks_kept st (fst (fst (reconcile_run e m s x)))" by (rule locks_kept_trans)
  qed simp
  then show "locks_kept st st'" using assms by (simp add: reconcile_stores_def)
  show "list_all2 (entry_rel (\<lambda>n. evidence_kept)) (sort_key fst runs) runs'"
    using reconcile_runs_all [where P = "\<lambda>n s. evidence_kept", OF assms [unfolded reconcile_stores_def]]
      reconcile_run_frame(3) by auto
qed

lemma dispatched_needs_quarantine:
  assumes "reconcile_run e x st d = ((st', d'), res)" "re_moment e \<noteq> []"
    "result_json d = Absent" "dispatch_present d" "result_json d' \<noteq> Absent"
  shows "\<exists>a. run_attribution (re_codec e) x d = Some a \<and> settled st' a"
proof -
  have "d' \<noteq> d" using assms(3,5) by auto
  with assms(1) obtain f where f: "classify_run (re_codec e) st x d = Some f"
    and ap: "apply_row (re_io e x) (re_moment e) (re_root e) f (select_row f) x st d = ((st', d'), res)"
    by (auto simp: reconcile_run_def split: option.splits)
  note fs = classify_run_Some [OF f]
  have "rf_terminal f = ABSENT_TERMINAL" "rf_dispatch f" using assms(3,4) absent_terminal by (simp_all add: fs)
  then consider "select_row f = (5, UNKNOWN_QUARANTINE)" "rf_actionable f" | "select_row f = (6, REFUSE_TO_LISTEN)"
    by (cases "rf_actionable f") (simp_all add: select_row_def)
  then show ?thesis
  proof cases
    case 1
    let ?ff = "fence_facts (re_io e x) (re_moment e) f QUARANTINE_RECONCILED x st"
    have "snd ?ff = Inr ()" "fst ?ff = st'"
      using ap 1 \<open>d' \<noteq> d\<close>
      by (auto simp: apply_row_def apfst_def map_prod_def split: prod.splits sum.splits if_splits)
    then have "?ff = (st', Inr ())" by (metis prod.collapse)
    then show ?thesis using fence_facts_ok [OF _ _ assms(2)] 1(2) fs by metis
  next
    case 2
    then show ?thesis using ap \<open>d' \<noteq> d\<close> by (simp add: apply_row_def)
  qed
qed

text \<open>
  C8. Quarantine comes before the terminal: if a pass, ended or interrupted in any way, has left a
  result in a run that may have been dispatched and had none, then the session that run is attributed
  to carries its quarantine evidence in a valid record of that owner, with no fence left behind.
\<close>

theorem quarantine_before_terminal:
  assumes "reconcile_stores e st runs = (st', runs', res)" "re_moment e \<noteq> []"
  shows "list_all2 (entry_rel (\<lambda>n d d'. result_json d = Absent \<and> dispatch_present d \<and> result_json d' \<noteq> Absent \<longrightarrow>
     (\<exists>a. run_attribution (re_codec e) n d = Some a \<and> settled st' a))) (sort_key fst runs) runs'"
proof (rule reconcile_runs_all [OF assms(1) [unfolded reconcile_stores_def]], goal_cases)
  case (1 n s d s1 d1 r)
  then show ?case using dispatched_needs_quarantine [OF _ assms(2)] by blast
next
  case (3 n s d d' m x)
  then show ?case using settled_run by blast
qed blast

definition all_fit :: "recon_env \<Rightarrow> (string \<times> run_entry) list \<Rightarrow> bool" where
  "all_fit e rs \<longleftrightarrow> list_all (\<lambda>(n, v). case v of Run_Dir d \<Rightarrow> terminal_fits e n d | Other_Entry \<Rightarrow> True) rs"

definition all_done :: "codec \<Rightarrow> store \<Rightarrow> (string \<times> run_entry) list \<Rightarrow> bool" where
  "all_done c st rs \<longleftrightarrow> (\<forall>n d. (n, Run_Dir d) \<in> set rs \<longrightarrow> run_done c st n d)"

lemma reconcile_runs_done:
  assumes "reconcile_runs e st rs = (st', rs', Inr ())" "re_moment e \<noteq> []" "all_fit e rs"
  shows "all_done (re_codec e) st' rs'"
  using assms(1,3)
proof (induction rs arbitrary: st rs')
  case (Cons p rs)
  obtain n v where p: "p = (n, v)" by (cases p)
  show ?case
  proof (cases v)
    case (Run_Dir d)
    then obtain s1 d1 rs1 where run: "reconcile_run e n st d = ((s1, d1), Inr ())"
      and rest: "reconcile_runs e s1 rs = (st', rs1, Inr ())" and rs': "rs' = (n, Run_Dir d1) # rs1"
      using Cons.prems by (auto simp: p split: prod.splits sum.splits)
    have "run_done (re_codec e) s1 n d1"
      using reconcile_run_done [OF run assms(2)] Cons.prems(2) by (simp add: p Run_Dir all_fit_def)
    moreover have "settled st' a" if "settled s1 a" for a
      using reconcile_runs_keep [of "\<lambda>s. settled s a" e s1 rs] settled_run that by (simp add: rest)
    ultimately have "run_done (re_codec e) st' n d1" by (rule run_done_store)
    moreover have "all_done (re_codec e) st' rs1"
      using Cons.IH [OF rest] Cons.prems(2) by (simp add: all_fit_def)
    ultimately show ?thesis by (auto simp: all_done_def rs')
  next
    case Other_Entry
    then obtain rs1 where "reconcile_runs e st rs = (st', rs1, Inr ())" "rs' = (n, Other_Entry) # rs1"
      using Cons.prems by (auto simp: p split: prod.splits)
    then show ?thesis using Cons.IH Cons.prems(2) by (auto simp: all_done_def all_fit_def)
  qed
qed (simp add: all_done_def)

lemma all_done_noop: "all_done (re_codec e) st rs \<Longrightarrow> reconcile_runs e st rs = (st, rs, Inr ())"
proof (induction rs)
  case (Cons p rs)
  then have rest: "reconcile_runs e st rs = (st, rs, Inr ())" by (simp add: all_done_def)
  obtain n v where p: "p = (n, v)" by (cases p)
  show ?case
  proof (cases v)
    case (Run_Dir d)
    then have "run_done (re_codec e) st n d" using Cons.prems by (simp add: p all_done_def)
    then show ?thesis by (simp add: p Run_Dir done_noop rest)
  qed (simp add: p rest)
qed simp

lemma reconcile_runs_names: "reconcile_runs e st rs = (st', rs', res) \<Longrightarrow> map fst rs' = map fst rs"
  using reconcile_runs_all [where P = "\<lambda>_ _ _ _. True"]
  by (fastforce simp: list_all2_conv_all_nth entry_rel_def intro: nth_equalityI)

text \<open>
  C7. Reconciliation converges: when a pass over runs whose terminals fit the size ceiling ends
  without refusing, every run has a trusted terminal, every run whose outcome is unknown has its
  session quarantined and its progress says so, and any further pass, with whatever faults waiting
  for its writes, succeeds without writing anything.
\<close>

theorem reconcile_converges:
  assumes "reconcile_stores e st runs = (st', runs', Inr ())" "re_moment e \<noteq> []" "all_fit e (sort_key fst runs)"
    "re_codec e' = re_codec e"
  shows "all_done (re_codec e) st' runs' \<and> reconcile_stores e' st' runs' = (st', runs', Inr ())"
proof
  note r = assms(1) [unfolded reconcile_stores_def]
  show fin: "all_done (re_codec e) st' runs'" by (rule reconcile_runs_done [OF r assms(2,3)])
  have "sorted (map fst runs')" by (simp add: reconcile_runs_names [OF r])
  then have "sort_key fst runs' = runs'" by (rule sort_key_id_if_sorted)
  then show "reconcile_stores e' st' runs' = (st', runs', Inr ())"
    using all_done_noop [of e' st' runs'] fin assms(4) by (simp add: reconcile_stores_def)
qed

section \<open>The switch proof\<close>

text \<open>
  An unreadable proof counts as a proof: when a configuration switch may have started and the
  proof marker cannot be examined, the run is treated exactly as if the switch had been proven, so a
  pre-dispatch run leaves its session usable.
\<close>

theorem unreadable_proof_believed:
  assumes "config_proven d = Indeterminate"
  shows "\<not> switch_unproven d \<and>
    (classify_run c st x d = Some f \<longrightarrow> snd (select_row f) = PRE_DISPATCH_FAILED \<longrightarrow>
     fst (fst (apply_row w m rt f (select_row f) x st d)) = st)"
proof -
  have n: "\<not> switch_unproven d" using assms by (simp add: switch_unproven_def)
  moreover have "fst (fst (apply_row w m rt f (select_row f) x st d)) = st"
    if cl: "classify_run c st x d = Some f" and pre: "snd (select_row f) = PRE_DISPATCH_FAILED"
  proof -
    obtain row where "select_row f = (row, PRE_DISPATCH_FAILED)" using pre by (metis prod.collapse)
    then show ?thesis using n classify_run_Some(5) [OF cl] by (simp add: apply_row_def)
  qed
  ultimately show ?thesis by blast
qed

section \<open>A concrete pass\<close>

definition demo_env :: recon_env where
  "demo_env = \<lparr>re_codec = \<lparr>co_sha = \<lambda>_. replicate 64 (CHR ''0''), co_float = \<lambda>_. []\<rparr>, re_root = ''/r'',
     re_moment = ''m'', re_io = \<lambda>_. \<lparr>io_fence = Io_Ok, io_mark = Io_Ok, io_clear = Io_Ok, io_progress = Io_Ok,
       io_terminal = Io_Ok\<rparr>\<rparr>"

text \<open>A run that may have been dispatched, and one that crashed before its Spec.\<close>

definition demo_empty_run :: run_dir where
  "demo_empty_run = \<lparr>result_json = Absent, progress_json = Absent, spec_json = Absent, launch_json = Absent,
     submission_json = Absent, dispatch_started = Absent, prompt_accepted = Absent, config_switch_started = Absent,
     config_proven = Absent, config_rollback_proven = Absent\<rparr>"

definition demo_submission :: pydict where
  "demo_submission = build_submission_artifact \<lparr>principal_id = ''p'', request_id = ''r-1''\<rparr> ''run-2''
     \<lparr>sf_owner = ''o'', sf_namespace = ''n'', sf_session_id = Some ''s1'', sf_agent_id = ''a'', sf_retry_of_run_id = None,
      sf_request_digest = ''d'', sf_prompt_sha256 = ''h'', sf_prompt_bytes = 3\<rparr> ''t''
     \<lparr>peer_pid = 1, peer_uid = 2, peer_gid = 3\<rparr> 4096"

definition demo_runs :: "(string \<times> run_entry) list" where
  "demo_runs =
     [(''run-2'', Run_Dir (demo_empty_run\<lparr>submission_json := Doc (PDict demo_submission), dispatch_started := Not_Regular\<rparr>)),
      (''note.txt'', Other_Entry), (''run-1'', Run_Dir demo_empty_run)]"

definition demo_result :: "store \<times> (string \<times> run_entry) list \<times> (reconcile_error + unit)" where
  "demo_result = reconcile_stores demo_env demo_store demo_runs"

lemma demo_evaluated:
  "case demo_result of (st, runs, r) \<Rightarrow> r = Inr () \<and>
     list_all (\<lambda>(n, v). case v of Run_Dir d \<Rightarrow> (result_json d \<noteq> Absent) | _ \<Rightarrow> True) runs"
  by code_simp

lemma demo_result_ok: "reconcile_stores demo_env demo_store demo_runs = (fst demo_result, fst (snd demo_result), Inr ())"
  using demo_evaluated by (simp add: demo_result_def prod_eq_iff split_beta)

lemma demo_fits: "re_moment demo_env \<noteq> []" "all_fit demo_env (sort_key fst demo_runs)"
  by code_simp+

theorem reconcile_converges_witness:
  "all_done (re_codec demo_env) (fst demo_result) (fst (snd demo_result)) \<and>
   reconcile_stores (demo_env\<lparr>re_io := \<lambda>_. \<lparr>io_fence = Io_Lost, io_mark = Io_Late, io_clear = Io_Lost,
     io_progress = Io_Lost, io_terminal = Io_Late\<rparr>\<rparr>) (fst demo_result) (fst (snd demo_result)) =
     (fst demo_result, fst (snd demo_result), Inr ())"
  by (rule reconcile_converges [OF demo_result_ok demo_fits]) simp

theorem reconcile_preserves_evidence_witness:
  "list_all2 (entry_rel (\<lambda>n. evidence_kept)) (sort_key fst demo_runs) (fst (snd demo_result))"
  using reconcile_preserves_evidence [OF demo_result_ok] by simp

theorem quarantine_before_terminal_witness:
  "\<exists>d'. fst (snd demo_result) ! 2 = (''run-2'', Run_Dir d') \<and>
     (\<exists>a. at_session_id a = ''s1'' \<and> settled (fst demo_result) a)"
proof -
  have "list_all (\<lambda>(n, v). case v of Run_Dir d \<Rightarrow> (result_json d \<noteq> Absent) | _ \<Rightarrow> True) (fst (snd demo_result))"
    using demo_evaluated by (simp add: split_beta)
  moreover have "sort_key fst demo_runs ! 2 = demo_runs ! 0"
    "map_option at_session_id (run_attribution (re_codec demo_env) ''run-2''
       (demo_empty_run\<lparr>submission_json := Doc (PDict demo_submission), dispatch_started := Not_Regular\<rparr>)) = Some ''s1''"
    "length (sort_key fst demo_runs) = 3"
    by code_simp+
  ultimately show ?thesis using quarantine_before_terminal [OF demo_result_ok demo_fits(1)]
    by (auto simp: list_all2_conv_all_nth entry_rel_def demo_runs_def list_all_length dispatch_present_def demo_empty_run_def
        dest!: spec [of _ 2] split: run_entry.splits)
qed

theorem unreadable_proof_believed_witness:
  "\<not> switch_unproven (demo_empty_run\<lparr>config_switch_started := Doc PNone, config_proven := Indeterminate\<rparr>)"
  by (rule unreadable_proof_believed [THEN conjunct1]) simp

end
