(* ===== verification/Path_Walk.thy ===== *)
theory Path_Walk
  imports ARS_Prelude "HOL-Library.Sublist"
begin

text \<open>
  Canonicalization of declared locations, \<^verbatim>\<open>native_acp/permissions.py\<close>: an absolute path is
  walked one component at a time against the file system, an absent component standing for itself, a
  symbolic link being followed, with at most forty hops.  The file system is a function from canonical
  paths to what \<^verbatim>\<open>lstat\<close> finds there; it does not change during one walk.
\<close>

section \<open>Paths\<close>

text \<open>A pathlib path: its anchor (none, the root, or exactly two slashes) and its parts.\<close>

datatype anchor = Relative | Root | Double_Root

type_synonym path = "anchor \<times> string list"

fun split_slash :: "string \<Rightarrow> string \<Rightarrow> string list" where
  "split_slash acc [] = [rev acc]"
| "split_slash acc (c # cs) = (if c = CHR ''/'' then rev acc # split_slash [] cs else split_slash (c # acc) cs)"

definition path_anchor :: "string \<Rightarrow> anchor" where
  "path_anchor s =
     (if take 1 s \<noteq> ''/'' then Relative
      else if take 2 s = ''//'' \<and> take 3 s \<noteq> ''///'' then Double_Root else Root)"

text \<open>\<^verbatim>\<open>Path(s)\<close>: empty and single-dot parts disappear, double dots stay.\<close>

definition parse_path :: "string \<Rightarrow> path" where
  "parse_path s = (path_anchor s, filter (\<lambda>p. p \<noteq> [] \<and> p \<noteq> ''.'') (split_slash [] s))"

definition is_absolute :: "path \<Rightarrow> bool" where
  "is_absolute p \<longleftrightarrow> fst p \<noteq> Relative"

section \<open>The file system\<close>

datatype node = Missing | Plain | Directory | Symlink path | Lstat_Fails

record host =
  h_node :: "path \<Rightarrow> node"
  h_double_root_same :: "bool option" \<comment> \<open>is \<^verbatim>\<open>//\<close> the root? \<^const>\<open>None\<close>: \<^verbatim>\<open>stat\<close> fails\<close>

fun canonical_anchor :: "host \<Rightarrow> anchor \<Rightarrow> anchor option" where
  "canonical_anchor h Double_Root =
     (case h_double_root_same h of None \<Rightarrow> None | Some same \<Rightarrow> Some (if same then Root else Double_Root))"
| "canonical_anchor h a = Some a"

definition SYMLINK_HOP_LIMIT :: nat where
  "SYMLINK_HOP_LIMIT = (40 :: nat)"

text \<open>The loop: the canonical prefix, the pending parts, the hops spent; \<^const>\<open>None\<close> is
  \<^verbatim>\<open>OSError\<close>.\<close>

function walk :: "host \<Rightarrow> path \<Rightarrow> string list \<Rightarrow> nat \<Rightarrow> path option" where
  "walk h r [] hops = Some r"
| "walk h r (part # pending) hops =
     (if part = ''..'' then walk h (fst r, butlast (snd r)) pending hops
      else (let here = (fst r, snd r @ [part]) in
        case h_node h here of
          Missing \<Rightarrow> walk h here pending hops
        | Lstat_Fails \<Rightarrow> None
        | Plain \<Rightarrow> if pending \<noteq> [] then None else walk h here pending hops
        | Directory \<Rightarrow> walk h here pending hops
        | Symlink target \<Rightarrow>
            if SYMLINK_HOP_LIMIT < Suc hops then None
            else if is_absolute target
            then (case canonical_anchor h (fst target) of
                    None \<Rightarrow> None
                  | Some a \<Rightarrow> walk h (a, []) (snd target @ pending) (Suc hops))
            else walk h r (snd target @ pending) (Suc hops)))"
  by pat_completeness auto

termination
  by (relation "measures [\<lambda>(h, r, pending, hops). Suc SYMLINK_HOP_LIMIT - hops, \<lambda>(h, r, pending, hops). length pending]")
    auto

text \<open>\<^verbatim>\<open>_canonicalize_past_absence\<close> on an absolute path; a relative one raises
  \<^verbatim>\<open>ValueError\<close>.\<close>

definition canonicalize_past_absence :: "host \<Rightarrow> path \<Rightarrow> path option" where
  "canonicalize_past_absence h p =
     (if \<not> is_absolute p then None
      else (case canonical_anchor h (fst p) of None \<Rightarrow> None | Some a \<Rightarrow> walk h (a, []) (snd p) 0))"

text \<open>Containment: the root itself, or the root among the parents.\<close>

definition inside_workspace :: "path \<Rightarrow> path \<Rightarrow> bool" where
  "inside_workspace root_path p \<longleftrightarrow> fst p = fst root_path \<and> prefix (snd root_path) (snd p)"

section \<open>The answer of the walk means what it says\<close>

text \<open>A canonical path: its anchor settled, no step back, no component that is a link or unreadable.\<close>

definition canonical :: "host \<Rightarrow> path \<Rightarrow> bool" where
  "canonical h p \<longleftrightarrow>
     fst p \<noteq> Relative \<and> canonical_anchor h (fst p) = Some (fst p) \<and> ''..'' \<notin> set (snd p) \<and>
     (\<forall>ps. ps \<noteq> [] \<and> prefix ps (snd p) \<longrightarrow>
        (case h_node h (fst p, ps) of Symlink _ \<Rightarrow> False | Lstat_Fails \<Rightarrow> False | Plain \<Rightarrow> ps = snd p | _ \<Rightarrow> True))"

text \<open>While parts are pending, the prefix holds no plain file either.\<close>

definition traversable :: "host \<Rightarrow> path \<Rightarrow> bool" where
  "traversable h p \<longleftrightarrow>
     fst p \<noteq> Relative \<and> canonical_anchor h (fst p) = Some (fst p) \<and> ''..'' \<notin> set (snd p) \<and>
     (\<forall>ps. ps \<noteq> [] \<and> prefix ps (snd p) \<longrightarrow> h_node h (fst p, ps) \<in> {Missing, Directory})"

lemma traversable_canonical: "traversable h p \<Longrightarrow> canonical h p"
  by (auto simp: traversable_def canonical_def split: node.splits)

lemma traversable_anchor [simp]: "traversable h (a, []) \<longleftrightarrow> a \<noteq> Relative \<and> canonical_anchor h a = Some a"
  by (auto simp: traversable_def)

lemma traversable_butlast: "traversable h p \<Longrightarrow> traversable h (fst p, butlast (snd p))"
  by (auto simp: traversable_def dest: in_set_butlastD intro: prefix_order.trans [OF _ prefixeq_butlast])

lemma traversable_snoc:
  assumes "traversable h r" "part \<noteq> ''..''" "h_node h (fst r, snd r @ [part]) \<in> {Missing, Directory}"
  shows "traversable h (fst r, snd r @ [part])"
  using assms by (auto simp: traversable_def prefix_snoc)

lemma canonical_snoc:
  assumes "traversable h r" "part \<noteq> ''..''" "h_node h (fst r, snd r @ [part]) = Plain"
  shows "canonical h (fst r, snd r @ [part])"
  using assms by (auto simp: traversable_def canonical_def prefix_snoc split: node.splits)

lemma canonical_anchor_rooted: "canonical_anchor h a = Some b \<Longrightarrow> a \<noteq> Relative \<Longrightarrow> 
   b \<noteq> Relative \<and> canonical_anchor h b = Some b"
  by (cases a) (auto split: option.splits if_splits)

lemma walk_canonical: "walk h r pending hops = Some p \<Longrightarrow> traversable h r \<Longrightarrow> canonical h p"
proof (induction h r pending hops rule: walk.induct)
  case (1 h r hops)
  then show ?case by (simp add: traversable_canonical)
next
  case (2 h r part pending hops)
  show ?case
  proof (cases "part = ''..''")
    case True
    then show ?thesis using 2 by (simp add: traversable_butlast)
  next
    case False
    note trav = traversable_snoc [OF "2.prems"(2) False]
    show ?thesis
    proof (cases "h_node h (fst r, snd r @ [part])")
      case (Symlink target)
      show ?thesis
      proof (cases "is_absolute target")
        case True
        then obtain a where a: "canonical_anchor h (fst target) = Some a"
          and rest: "walk h (a, []) (snd target @ pending) (Suc hops) = Some p" "\<not> SYMLINK_HOP_LIMIT < Suc hops"
          using "2.prems"(1) False Symlink by (auto simp: Let_def split: if_splits option.splits)
        have "traversable h (a, [])" using canonical_anchor_rooted [OF a] True by (simp add: is_absolute_def)
        then show ?thesis using "2.IH"(5) [OF False refl Symlink rest(2) True a rest(1)] by blast
      qed (use 2 False Symlink in \<open>auto simp: Let_def split: if_splits\<close>)
    next
      case Plain
      then show ?thesis using 2 False canonical_snoc [OF "2.prems"(2) False Plain]
        by (auto simp: Let_def split: if_splits)
    qed (use 2 False trav in \<open>auto simp: Let_def\<close>)
  qed
qed

lemma canonicalize_canonical: "canonicalize_past_absence h p = Some q \<Longrightarrow> canonical h q"
  by (auto simp: canonicalize_past_absence_def is_absolute_def split: if_splits option.splits
      intro!: walk_canonical dest: canonical_anchor_rooted)

text \<open>A canonical path is its own answer, whatever the budget of hops.\<close>

lemma walk_canonical_fixed:
  "canonical h (a, rs @ pending) \<Longrightarrow> walk h (a, rs) pending hops = Some (a, rs @ pending)"
proof (induction pending arbitrary: rs)
  case (Cons part pending)
  have here: "case h_node h (a, rs @ [part]) of Symlink _ \<Rightarrow> False | Lstat_Fails \<Rightarrow> False
    | Plain \<Rightarrow> pending = [] | _ \<Rightarrow> True" and "part \<noteq> ''..''"
    using Cons.prems by (auto simp: canonical_def dest!: spec [where x = "rs @ [part]"] split: node.splits)
  moreover have "walk h (a, rs @ [part]) pending hops = Some (a, rs @ part # pending)"
    using Cons by simp
  ultimately show ?case by (auto split: node.splits)
qed simp

lemma canonicalize_fixed: "canonical h p \<Longrightarrow> canonicalize_past_absence h p = Some p"
  using walk_canonical_fixed [of h "fst p" "[]" "snd p" 0]
  by (cases p) (simp add: canonicalize_past_absence_def canonical_def is_absolute_def)

text \<open>A walk that meets no link spends no hop and ends at the path without its step-backs; in
  particular absence alone never raises.\<close>

lemma walk_all_missing:
  "''..'' \<notin> set pending \<Longrightarrow> (\<And>ps. prefix ps pending \<Longrightarrow> ps \<noteq> [] \<Longrightarrow> h_node h (a, rs @ ps) = Missing) \<Longrightarrow>
   walk h (a, rs) pending hops = Some (a, rs @ pending)"
proof (induction pending arbitrary: rs)
  case (Cons part pending)
  have "h_node h (a, rs @ [part]) = Missing" using Cons.prems(2) [of "[part]"] by simp
  moreover have "walk h (a, rs @ [part]) pending hops = Some (a, (rs @ [part]) @ pending)"
    using Cons.prems(1) Cons.prems(2) [of "part # ps" for ps] by (intro Cons.IH) simp_all
  moreover have "part \<noteq> ''..''" using Cons.prems(1) by auto
  ultimately show ?case by simp
qed simp

end
