(* ===== verification/Permissions.thy ===== *)
theory Permissions
  imports Path_Walk
begin

text \<open>
  The permission bridge of \<^verbatim>\<open>native_acp/permissions.py\<close>: mediation of prompts and host reads
  against the frozen grant, and the watch over tool calls that complete although the grant or a
  decision forbids it.  The bridge is a \<open>record\<close> passed through each operation; a raised
  exception is the left side of the outcome, and the bridge beside it is the state the exception
  leaves.  The evidence sink the run installs never raises, so it is the list of events received.
\<close>

section \<open>Text\<close>

text \<open>\<^verbatim>\<open>repr\<close> of a string.\<close>

definition repr_char :: "char \<Rightarrow> char \<Rightarrow> string" where
  "repr_char q c = (let n = (of_char c :: nat) in
     if c = q \<or> n = 92 then [CHR 0x5C, c]
     else if n = 9 then [CHR 0x5C, CHR ''t'']
     else if n = 10 then [CHR 0x5C, CHR ''n'']
     else if n = 13 then [CHR 0x5C, CHR ''r'']
     else if n < 32 \<or> 127 \<le> n \<and> n < 161 \<or> n = 173
       then [CHR 0x5C, CHR ''x'', hex_char (n div 16), hex_char (n mod 16)]
     else [c])"

definition py_repr :: "string \<Rightarrow> string" where
  "py_repr s =
     (let q = (if CHR 0x27 \<in> set s \<and> CHR 0x22 \<notin> set s then CHR 0x22 else CHR 0x27)
      in [q] @ concat (map (repr_char q) s) @ [q])"

text \<open>\<^verbatim>\<open>str(path)\<close>.\<close>

definition render_path :: "path \<Rightarrow> string" where
  "render_path p =
     (case fst p of
        Relative \<Rightarrow> (if snd p = [] then ''.'' else join_with ''/'' (snd p))
      | Root \<Rightarrow> ''/'' @ join_with ''/'' (snd p)
      | Double_Root \<Rightarrow> ''//'' @ join_with ''/'' (snd p))"

section \<open>Constants\<close>

definition READ_KINDS :: "string set" where
  "READ_KINDS = {''read'', ''search''}"

definition REGISTERED_KINDS :: "string set" where
  "REGISTERED_KINDS = {''read'', ''edit'', ''delete'', ''move'', ''search'', ''execute'', ''think'', ''fetch'',
   ''switch_mode'', ''other''}"

definition ALLOW_OPTION_PREFERENCE :: "string list" where
  "ALLOW_OPTION_PREFERENCE = [''allow_once'']"

definition REJECT_OPTION_PREFERENCE :: "string list" where
  "REJECT_OPTION_PREFERENCE = [''reject_once'', ''reject_always'']"

definition WRITE_FAMILY_REQUIRED_CAPABILITY :: "string \<rightharpoonup> string" where
  "WRITE_FAMILY_REQUIRED_CAPABILITY =
     [''edit'' \<mapsto> ''write'', ''delete'' \<mapsto> ''delete'', ''move'' \<mapsto> ''move'', ''execute'' \<mapsto> ''execute'']"

definition TERMINAL_TOOL_STATUSES :: "string set" where
  "TERMINAL_TOOL_STATUSES = {''completed'', ''failed''}"

definition OPEN_TOOL_CALL_LIMIT :: nat where
  "OPEN_TOOL_CALL_LIMIT = (1024 :: nat)"

section \<open>The bridge\<close>

record mediation_event =
  requested_op :: string
  ev_decision :: string
  ev_reason :: string
  ev_tool_call_id :: pyval

definition to_event :: "mediation_event \<Rightarrow> pydict" where
  "to_event e =
     (let payload = [(''type'', PStr ''permission_mediation''), (''requested_op'', PStr (requested_op e)),
                     (''decision'', PStr (ev_decision e)), (''reason'', PStr (ev_reason e))]
      in if ev_tool_call_id e \<noteq> PNone then dset ''tool_call_id'' (ev_tool_call_id e) payload else payload)"

datatype strict_answer = Resolved path | Not_Found | Unresolvable

text \<open>
  What the interpreter and the host answer during one call: \<^verbatim>\<open>Path.resolve()\<close> and
  \<^verbatim>\<open>Path.resolve(strict=True)\<close>, whose treatment of loops depends on the interpreter's version,
  and the nodes \<^verbatim>\<open>lstat\<close> finds.  A loop reported as \<^verbatim>\<open>RuntimeError\<close> is
  \<^const>\<open>Unresolvable\<close> like every other \<^verbatim>\<open>OSError\<close>.
\<close>

record fs_view =
  view_host :: host
  view_lenient :: "path \<Rightarrow> path option"
  view_strict :: "path \<Rightarrow> strict_answer"

record bridge =
  capabilities :: "string set"
  workspace_root :: path
  evidence :: "mediation_event list"
  turn_failed :: bool
  turn_failure_reason :: "string option"
  grant_violation :: bool
  grant_violation_reason :: "string option"
  tool_kinds :: "string \<rightharpoonup> string"
  open_tool_calls :: "(string \<times> string option) list"
  open_truncated :: bool
  terminal_tool_calls :: "string set"
  denied_tool_calls :: "string \<rightharpoonup> string"

datatype bridge_error = Attribute_Error | Type_Error | Resolution_Error

type_synonym 'a outcome = "bridge_error + 'a"

definition new_bridge :: "fs_view \<Rightarrow> string set \<Rightarrow> path \<Rightarrow> bridge option" where
  "new_bridge fs caps ws =
     (case view_lenient fs ws of None \<Rightarrow> None
      | Some root_path \<Rightarrow> Some \<lparr>capabilities = caps, workspace_root = root_path, evidence = [],
          turn_failed = False, turn_failure_reason = None,
          grant_violation = False, grant_violation_reason = None, tool_kinds = Map.empty,
          open_tool_calls = [], open_truncated = False, terminal_tool_calls = {},
          denied_tool_calls = Map.empty\<rparr>)"

definition client_capabilities :: "bridge \<Rightarrow> pydict" where
  "client_capabilities b =
     [(''fs'', PDict [(''readTextFile'', PBool (''read'' \<in> capabilities b)), (''writeTextFile'', PBool False)]),
      (''terminal'', PBool False)]"

definition bridge_emit :: "string \<Rightarrow> string \<Rightarrow> string \<Rightarrow> pyval \<Rightarrow> bridge \<Rightarrow> bridge \<times> pydict" where
  "bridge_emit op decision reason call_id b =
     (b\<lparr>evidence := evidence b @ [\<lparr>requested_op = op, ev_decision = decision, ev_reason = reason, ev_tool_call_id = call_id\<rparr>]\<rparr>,
      [(''decision'', PStr decision), (''reason'', PStr reason)])"

definition under_root :: "bridge \<Rightarrow> path \<Rightarrow> path" where
  "under_root b p = (if is_absolute p then p else (fst (workspace_root b), snd (workspace_root b) @ snd p))"

definition resolve_workspace_path :: "fs_view \<Rightarrow> bridge \<Rightarrow> string \<Rightarrow> path option" where
  "resolve_workspace_path fs b s = view_lenient fs (under_root b (parse_path s))"

definition resolve_read_like_location :: "fs_view \<Rightarrow> bridge \<Rightarrow> string \<Rightarrow> path option" where
  "resolve_read_like_location fs b s =
     (let candidate = under_root b (parse_path s) in
      case view_strict fs candidate of
        Resolved q \<Rightarrow> Some q
      | Unresolvable \<Rightarrow> None
      | Not_Found \<Rightarrow> canonicalize_past_absence (view_host fs) candidate)"

fun location_errors :: "fs_view \<Rightarrow> bridge \<Rightarrow> pyval list \<Rightarrow> string option" where
  "location_errors fs b [] = None"
| "location_errors fs b (PDict loc # rest) =
     (case dget loc ''path'' of
        PStr s \<Rightarrow>
          if s = [] then Some ''read-like permission request has an invalid location''
          else if \<not> is_absolute (parse_path s) then Some ''read-like permission location must be absolute''
          else (case resolve_read_like_location fs b s of
                  None \<Rightarrow> Some ''read-like permission request has an invalid location''
                | Some q \<Rightarrow>
                    if \<not> inside_workspace (workspace_root b) q
                    then Some ''read-like permission location is outside the bound workspace''
                    else location_errors fs b rest)
      | _ \<Rightarrow> Some ''read-like permission request has an invalid location'')"
| "location_errors fs b (v # rest) = Some ''read-like permission request has an invalid location''"

definition read_like_location_error :: "fs_view \<Rightarrow> bridge \<Rightarrow> pydict \<Rightarrow> string option" where
  "read_like_location_error fs b tool_call =
     (case dget tool_call ''locations'' of
        PList (x # xs) \<Rightarrow> location_errors fs b (x # xs)
      | _ \<Rightarrow> Some ''read-like permission request has no usable locations'')"

section \<open>The structured calls of the turn\<close>

definition open_call :: "string \<Rightarrow> string option \<Rightarrow> bridge \<Rightarrow> bridge" where
  "open_call call_id kind b =
     (if open_truncated b then b
      else if call_id \<notin> fst ` set (open_tool_calls b) \<and> OPEN_TOOL_CALL_LIMIT \<le> length (open_tool_calls b)
      then b\<lparr>open_truncated := True\<rparr>
      else b\<lparr>open_tool_calls := dset call_id kind (open_tool_calls b)\<rparr>)"

definition close_call :: "string \<Rightarrow> bridge \<Rightarrow> bridge" where
  "close_call call_id b =
     b\<lparr>open_tool_calls := ddel call_id (open_tool_calls b),
       terminal_tool_calls := insert call_id (terminal_tool_calls b)\<rparr>"

definition sole_open_call_if_kind :: "string set \<Rightarrow> bridge \<Rightarrow> string option" where
  "sole_open_call_if_kind kinds b =
     (if open_truncated b then None
      else (case open_tool_calls b of
              [(call_id, Some kind)] \<Rightarrow> if kind \<in> kinds then Some call_id else None
            | _ \<Rightarrow> None))"

text \<open>\<^verbatim>\<open>dict.setdefault\<close>: the first refusal for a call is the one remembered.\<close>

definition remember_denial :: "string \<Rightarrow> string \<Rightarrow> bridge \<Rightarrow> bridge" where
  "remember_denial call_id op b =
     (if call_id \<in> dom (denied_tool_calls b) then b
      else b\<lparr>denied_tool_calls := (denied_tool_calls b)(call_id \<mapsto> op)\<rparr>)"

section \<open>Host file system requests\<close>

definition deny_fs_read :: "string \<Rightarrow> bridge \<Rightarrow> bridge \<times> pydict outcome" where
  "deny_fs_read reason b =
     (let call = sole_open_call_if_kind READ_KINDS b;
          (b1, decision) = bridge_emit ''fs_read'' ''deny'' reason (pstr_opt call) b
      in (case call of None \<Rightarrow> b1 | Some call_id \<Rightarrow> remember_denial call_id ''fs_read'' b1, Inr decision))"

definition decide_fs_read :: "fs_view \<Rightarrow> string \<Rightarrow> bridge \<Rightarrow> bridge \<times> pydict outcome" where
  "decide_fs_read fs s b =
     (if ''read'' \<notin> capabilities b then deny_fs_read ''grant does not include read'' b
      else (case resolve_workspace_path fs b s of
              None \<Rightarrow> (b, Inl Resolution_Error)
            | Some q \<Rightarrow>
                if \<not> inside_workspace (workspace_root b) q
                then deny_fs_read ''path is outside the bound workspace'' b
                else (let (b1, decision) =
                            bridge_emit ''fs_read'' ''allow'' ''workspace-internal read under read grant'' PNone b
                      in (b1, Inr (dset ''resolved_path'' (PStr (render_path q)) decision)))))"

definition decide_fs_write :: "string \<Rightarrow> bridge \<Rightarrow> bridge \<times> pydict outcome" where
  "decide_fs_write s b =
     (let (b1, decision) = bridge_emit ''fs_write'' ''deny'' ''write is not permitted by the frozen grant'' PNone b
      in (b1, Inr decision))"

section \<open>Permission prompts\<close>

text \<open>\<^verbatim>\<open>for x in options or []\<close>: the elements, or a \<^verbatim>\<open>TypeError\<close>.\<close>

fun py_elements :: "pyval \<Rightarrow> pyval list option" where
  "py_elements (PList xs) = Some xs"
| "py_elements (PDict d) = Some (map (PStr \<circ> fst) d)"
| "py_elements (PStr s) = Some (map (\<lambda>c. PStr [c]) s)"
| "py_elements v = (if py_truth v then None else Some [])"

fun option_matches :: "string \<Rightarrow> pyval \<Rightarrow> bool" where
  "option_matches wanted (PDict d) = (dget d ''kind'' = PStr wanted \<and> is_str (dget d ''optionId''))"
| "option_matches wanted v = False"

fun option_text :: "pyval \<Rightarrow> string" where
  "option_text (PDict d) = (case dget d ''optionId'' of PStr s \<Rightarrow> s | _ \<Rightarrow> [])"
| "option_text v = []"

fun option_by_preference :: "pyval list \<Rightarrow> string list \<Rightarrow> string option" where
  "option_by_preference xs [] = None"
| "option_by_preference xs (wanted # ws) =
     (case find (option_matches wanted) xs of
        Some x \<Rightarrow> Some (option_text x)
      | None \<Rightarrow> option_by_preference xs ws)"

definition option_id :: "pyval \<Rightarrow> string list \<Rightarrow> string option outcome" where
  "option_id options preference =
     (case py_elements options of
        None \<Rightarrow> Inl Type_Error
      | Some xs \<Rightarrow> Inr (option_by_preference xs preference))"

definition deny_with_option :: "string \<Rightarrow> string \<Rightarrow> pyval \<Rightarrow> pyval \<Rightarrow> bridge \<Rightarrow> bridge \<times> pydict outcome" where
  "deny_with_option op reason call_id options b =
     (let (b1, decision) = bridge_emit op ''deny'' reason call_id b;
          b2 = (case call_id of PStr c \<Rightarrow> remember_denial c op b1 | _ \<Rightarrow> b1)
      in (b2, case option_id options REJECT_OPTION_PREFERENCE of
                Inl e \<Rightarrow> Inl e
              | Inr None \<Rightarrow> Inr decision
              | Inr (Some choice) \<Rightarrow> Inr (dset ''option_id'' (PStr choice) decision)))"

definition allow_once_or_deny :: "string \<Rightarrow> string \<Rightarrow> pyval \<Rightarrow> pyval \<Rightarrow> bridge \<Rightarrow> bridge \<times> pydict outcome" where
  "allow_once_or_deny kind reason call_id options b =
     (case option_id options ALLOW_OPTION_PREFERENCE of
        Inl e \<Rightarrow> (b, Inl e)
      | Inr None \<Rightarrow>
          deny_with_option (''permission:'' @ kind) ''no once-scoped allow option offered; denying'' call_id options b
      | Inr (Some choice) \<Rightarrow>
          (let (b1, decision) = bridge_emit (''permission:'' @ kind) ''allow'' reason call_id b
           in (b1, Inr (dset ''option_id'' (PStr choice) decision))))"

text \<open>The body of \<^verbatim>\<open>decide_permission_request\<close> once the kind is known to be text.\<close>

definition decide_kind :: "fs_view \<Rightarrow> string \<Rightarrow> pydict \<Rightarrow> pyval \<Rightarrow> bridge \<Rightarrow> bridge \<times> pydict outcome" where
  "decide_kind fs kind tool_call options b =
     (let call_id = dget tool_call ''toolCallId'' in
      if kind \<notin> REGISTERED_KINDS then
        deny_with_option (''permission:'' @ kind)
          (''unregistered request type '' @ py_repr kind @ '' denies by default'') call_id options b
      else if kind \<in> READ_KINDS \<and> ''read'' \<in> capabilities b then
        (case read_like_location_error fs b tool_call of
           Some location_error \<Rightarrow> deny_with_option (''permission:'' @ kind) location_error call_id options b
         | None \<Rightarrow> allow_once_or_deny kind ''workspace-scoped read-like operation under read grant'' call_id options b)
      else (case WRITE_FAMILY_REQUIRED_CAPABILITY kind of
              Some required \<Rightarrow>
                if required \<in> capabilities b
                then allow_once_or_deny kind (kind @ '' permitted once by the frozen grant'') call_id options b
                else deny_with_option (''permission:'' @ kind)
                       (py_repr kind @ '' is not permitted by the frozen grant'') call_id options b
            | None \<Rightarrow>
                deny_with_option (''permission:'' @ kind)
                  (py_repr kind @ '' is not permitted by the frozen grant'') call_id options b))"

text \<open>\<^verbatim>\<open>request.get(key) or default\<close>.\<close>

definition get_or :: "pydict \<Rightarrow> string \<Rightarrow> pyval \<Rightarrow> pyval" where
  "get_or d k otherwise = (if py_truth (dget d k) then dget d k else otherwise)"

definition decide_permission_request :: "fs_view \<Rightarrow> pydict \<Rightarrow> bridge \<Rightarrow> bridge \<times> pydict outcome" where
  "decide_permission_request fs request b =
     (case get_or request ''tool_call'' (PDict []) of
        PDict tool_call \<Rightarrow>
          (let options = get_or request ''options'' (PList []) in
           case dget tool_call ''kind'' of
             PStr (c # cs) \<Rightarrow> decide_kind fs (c # cs) tool_call options b
           | _ \<Rightarrow>
               deny_with_option ''permission:unknown'' ''unmappable permission request (no registered kind)''
                 (dget tool_call ''toolCallId'') options
                 (b\<lparr>turn_failed := True, turn_failure_reason := Some ''unmappable permission request''\<rparr>))
      | _ \<Rightarrow> (b, Inl Attribute_Error))"

section \<open>Tool call updates\<close>

fun str_value :: "pyval \<Rightarrow> string option" where
  "str_value (PStr s) = Some s"
| "str_value v = None"

definition remove_prefix :: "string \<Rightarrow> string \<Rightarrow> string" where
  "remove_prefix p s = (if take (length p) s = p then drop (length p) s else s)"

definition flag_violation :: "string \<Rightarrow> bridge \<Rightarrow> bridge" where
  "flag_violation reason b = b\<lparr>grant_violation := True, grant_violation_reason := Some reason\<rparr>"

definition violation_for_completion :: "pyval \<Rightarrow> pyval \<Rightarrow> pyval \<Rightarrow> bridge \<Rightarrow> bridge \<times> pydict option" where
  "violation_for_completion call_id kind0 status b =
     (if status \<noteq> PStr ''completed'' then (b, None)
      else
        (let kind = (case (str_value kind0, str_value call_id) of
                       (None, Some c) \<Rightarrow> pstr_opt (tool_kinds b c)
                     | _ \<Rightarrow> kind0);
             denied_op = (case str_value call_id of Some c \<Rightarrow> denied_tool_calls b c | None \<Rightarrow> None)
         in case denied_op of
              Some op \<Rightarrow>
                (let kind' = (if \<not> is_str kind \<and> take (length ''permission:'') op = ''permission:''
                              then PStr (remove_prefix ''permission:'' op) else kind);
                     reason = (if op = ''fs_read'' then ''tool completed after ARS denied its filesystem read''
                               else ''tool completed after ARS denied its permission request'')
                 in (flag_violation reason b,
                     Some [(''type'', PStr ''permission_violation''),
                           (''violation_class'', PStr ''completed_after_deny''),
                           (''tool_call_id'', call_id), (''kind'', kind'), (''reason'', PStr reason)]))
            | None \<Rightarrow>
                (case Option.bind (str_value kind) WRITE_FAMILY_REQUIRED_CAPABILITY of
                   None \<Rightarrow> (b, None)
                 | Some required \<Rightarrow>
                     if required \<in> capabilities b then (b, None)
                     else
                       (let reason = ''write-family tool kind '' @ py_repr (the (str_value kind))
                              @ '' completed without the required '' @ py_repr required
                              @ '' capability in the frozen grant''
                        in (flag_violation reason b,
                            Some [(''type'', PStr ''permission_violation''),
                                  (''violation_class'', PStr ''missing_grant_capability''),
                                  (''tool_call_id'', pstr_opt (str_value call_id)), (''kind'', kind),
                                  (''required_capability'', PStr required), (''reason'', PStr reason)])))))"

definition declare_kind :: "pyval \<Rightarrow> pyval \<Rightarrow> bridge \<Rightarrow> bridge" where
  "declare_kind call_id kind b =
     (case (str_value call_id, str_value kind) of
        (Some c, Some k) \<Rightarrow> b\<lparr>tool_kinds := (tool_kinds b)(c \<mapsto> k)\<rparr>
      | _ \<Rightarrow> b)"

definition kind_or_declared :: "pyval \<Rightarrow> string \<Rightarrow> bridge \<Rightarrow> string option" where
  "kind_or_declared kind c b = (case str_value kind of Some k \<Rightarrow> Some k | None \<Rightarrow> tool_kinds b c)"

definition is_terminal :: "pyval \<Rightarrow> bool" where
  "is_terminal status \<longleftrightarrow> (case str_value status of Some s \<Rightarrow> s \<in> TERMINAL_TOOL_STATUSES | None \<Rightarrow> False)"

definition ended_already :: "pyval \<Rightarrow> bridge \<Rightarrow> bool" where
  "ended_already call_id b \<longleftrightarrow> (case str_value call_id of Some c \<Rightarrow> c \<in> terminal_tool_calls b | None \<Rightarrow> False)"

definition tool_update :: "pydict \<Rightarrow> bool" where
  "tool_update u \<longleftrightarrow> dget u ''sessionUpdate'' = PStr ''tool_call'' \<or> dget u ''sessionUpdate'' = PStr ''tool_call_update''"

definition observe_tool_update :: "pydict \<Rightarrow> bridge \<Rightarrow> bridge \<times> pydict option outcome" where
  "observe_tool_update u b =
     (let call_id = dget u ''toolCallId''; kind = dget u ''kind''; status = dget u ''status'' in
      if \<not> tool_update u \<or> ended_already call_id b then (b, Inr None)
      else
        (let b1 = declare_kind call_id kind b in
         if \<not> py_hashable status then (b1, Inl Type_Error)
         else
           (let terminal = is_terminal status;
                b2 = (case str_value call_id of
                        Some c \<Rightarrow> if terminal then b1 else open_call c (kind_or_declared kind c b1) b1
                      | None \<Rightarrow> b1);
                (b3, violation) = violation_for_completion call_id kind status b2
            in (case str_value call_id of
                  Some c \<Rightarrow> if terminal then close_call c b3 else b3
                | None \<Rightarrow> b3,
                Inr violation))))"

lemmas bridge_op_defs = bridge_emit_def deny_fs_read_def decide_fs_read_def decide_fs_write_def
  deny_with_option_def allow_once_or_deny_def decide_kind_def decide_permission_request_def

end
