(* ===== verification/Permissions_Props.thy ===== *)
theory Permissions_Props
  imports Permissions
begin

text \<open>What the permission bridge promises: sound, once-scoped allows; one recorded text per decision; a
  picture of the unresolved calls that is the turn's own; one violation per call.\<close>

section \<open>Frames of the operations\<close>

lemma bridge_emit_simps [simp]:
  "snd (bridge_emit op dc rs c b) = [(''decision'', PStr dc), (''reason'', PStr rs)]"
  "evidence (fst (bridge_emit op dc rs c b)) =
     evidence b @ [\<lparr>requested_op = op, ev_decision = dc, ev_reason = rs, ev_tool_call_id = c\<rparr>]"
  "capabilities (fst (bridge_emit op dc rs c b)) = capabilities b"
  "workspace_root (fst (bridge_emit op dc rs c b)) = workspace_root b"
  "turn_failed (fst (bridge_emit op dc rs c b)) = turn_failed b"
  "tool_kinds (fst (bridge_emit op dc rs c b)) = tool_kinds b"
  "open_tool_calls (fst (bridge_emit op dc rs c b)) = open_tool_calls b"
  "open_truncated (fst (bridge_emit op dc rs c b)) = open_truncated b"
  "terminal_tool_calls (fst (bridge_emit op dc rs c b)) = terminal_tool_calls b"
  "denied_tool_calls (fst (bridge_emit op dc rs c b)) = denied_tool_calls b"
  "grant_violation (fst (bridge_emit op dc rs c b)) = grant_violation b"
  by (simp_all add: bridge_emit_def)

lemma remember_denial_simps [simp]:
  "evidence (remember_denial c op b) = evidence b"
  "capabilities (remember_denial c op b) = capabilities b"
  "workspace_root (remember_denial c op b) = workspace_root b"
  "turn_failed (remember_denial c op b) = turn_failed b"
  "tool_kinds (remember_denial c op b) = tool_kinds b"
  "open_tool_calls (remember_denial c op b) = open_tool_calls b"
  "open_truncated (remember_denial c op b) = open_truncated b"
  "terminal_tool_calls (remember_denial c op b) = terminal_tool_calls b"
  "denied_tool_calls (remember_denial c op b) = [c \<mapsto> op] ++ denied_tool_calls b"
  "grant_violation (remember_denial c op b) = grant_violation b"
  by (auto simp: remember_denial_def map_add_def fun_eq_iff split: option.splits)

text \<open>Mediation never touches the lifecycle of calls; it only records a text and remembers a denial.\<close>

definition same_calls :: "bridge \<Rightarrow> bridge \<Rightarrow> bool" where
  "same_calls b b' \<longleftrightarrow>
     capabilities b' = capabilities b \<and> workspace_root b' = workspace_root b \<and> tool_kinds b' = tool_kinds b \<and>
     open_tool_calls b' = open_tool_calls b \<and> open_truncated b' = open_truncated b \<and>
     terminal_tool_calls b' = terminal_tool_calls b \<and> denied_tool_calls b \<subseteq>\<^sub>m denied_tool_calls b'"

lemma same_calls_refl [simp]: "same_calls b b"
  by (simp add: same_calls_def)

lemma deny_with_option_same_calls: "same_calls b (fst (deny_with_option op rs c opts b))"
  by (cases c) (simp_all add: deny_with_option_def same_calls_def split_def Let_def)

lemma allow_once_same_calls: "same_calls b (fst (allow_once_or_deny k rs c opts b))"
  using deny_with_option_same_calls
  by (auto simp: allow_once_or_deny_def split_def split: sum.splits option.splits) (simp add: same_calls_def)

lemma decide_kind_same_calls: "same_calls b (fst (decide_kind fs k tc opts b))"
  by (simp add: decide_kind_def Let_def deny_with_option_same_calls allow_once_same_calls split: option.splits)

lemma same_calls_failed: "same_calls (b\<lparr>turn_failed := t, turn_failure_reason := r\<rparr>) b' = same_calls b b'"
  by (simp add: same_calls_def)

lemma decide_permission_same_calls: "same_calls b (fst (decide_permission_request fs req b))"
  using deny_with_option_same_calls [of "b\<lparr>turn_failed := True, turn_failure_reason := Some ''unmappable permission request''\<rparr>"]
  by (simp add: decide_permission_request_def Let_def same_calls_failed decide_kind_same_calls
      split: pyval.splits list.splits)

lemma deny_fs_read_same_calls: "same_calls b (fst (deny_fs_read rs b))"
  by (simp add: deny_fs_read_def split_def Let_def same_calls_def split: option.splits)

lemma decide_fs_read_same_calls: "same_calls b (fst (decide_fs_read fs s b))"
  by (auto simp: decide_fs_read_def split_def Let_def deny_fs_read_same_calls split: option.splits)
    (simp add: same_calls_def)

lemma decide_fs_write_same_calls: "same_calls b (fst (decide_fs_write s b))"
  by (simp add: decide_fs_write_def split_def Let_def same_calls_def)

lemmas mediation_same_calls = decide_permission_same_calls decide_fs_read_same_calls decide_fs_write_same_calls

section \<open>One text per decision\<close>

text \<open>The evidence grew by one event, and an answer repeats its decision and its reason.\<close>

definition recorded_once :: "bridge \<Rightarrow> bridge \<times> pydict outcome \<Rightarrow> bool" where
  "recorded_once b r \<longleftrightarrow>
     (\<exists>ev. evidence (fst r) = evidence b @ [ev] \<and>
        (\<forall>d. snd r = Inr d \<longrightarrow>
           dget d ''decision'' = PStr (ev_decision ev) \<and> dget d ''reason'' = PStr (ev_reason ev)))"

lemma dget_Cons [simp]: "dget ((k, v) # d) k' = (if k' = k then v else dget d k')"
  by (simp add: dget_def)

lemma dget_Nil [simp]: "dget [] k = PNone"
  by (simp add: dget_def)

lemma deny_with_option_recorded: "recorded_once b (deny_with_option op rs c opts b)"
  by (cases c) (auto simp: recorded_once_def deny_with_option_def split_def Let_def split: sum.splits option.splits)

lemma decide_fs_read_recorded:
  "decide_fs_read fs s b = (b, Inl Resolution_Error) \<or> recorded_once b (decide_fs_read fs s b)"
  by (auto simp: recorded_once_def decide_fs_read_def deny_fs_read_def split_def Let_def split: option.splits)

lemma allow_once_recorded:
  "recorded_once b (allow_once_or_deny k rs c opts b) \<or> (\<exists>e. allow_once_or_deny k rs c opts b = (b, Inl e))"
  using deny_with_option_recorded
  by (auto simp: allow_once_or_deny_def split_def Let_def split: sum.splits option.splits)
    (auto simp: recorded_once_def)

lemma recorded_failed: "recorded_once (b\<lparr>turn_failed := t, turn_failure_reason := r\<rparr>) = recorded_once b"
  by (simp add: recorded_once_def fun_eq_iff)

lemma decide_permission_recorded:
  "recorded_once b (decide_permission_request fs req b) \<or> (\<exists>e. decide_permission_request fs req b = (b, Inl e))"
  using deny_with_option_recorded [of "b\<lparr>turn_failed := True, turn_failure_reason := Some ''unmappable permission request''\<rparr>"]
  by (auto simp: decide_permission_request_def decide_kind_def Let_def recorded_failed deny_with_option_recorded
      intro!: allow_once_recorded split: pyval.splits list.splits option.splits)

section \<open>Reachable bridges\<close>

datatype bridge_input = Prompt fs_view pydict | Fs_Read fs_view string | Fs_Write string | Update pydict

text \<open>One callback of the run: the bridge after it, and the violation event it reports.\<close>

fun bridge_step :: "bridge_input \<Rightarrow> bridge \<Rightarrow> bridge \<times> pydict option" where
  "bridge_step (Prompt fs req) b = (fst (decide_permission_request fs req b), None)"
| "bridge_step (Fs_Read fs s) b = (fst (decide_fs_read fs s b), None)"
| "bridge_step (Fs_Write s) b = (fst (decide_fs_write s b), None)"
| "bridge_step (Update u) b =
     (fst (observe_tool_update u b), case snd (observe_tool_update u b) of Inl _ \<Rightarrow> None | Inr v \<Rightarrow> v)"

fun bridge_run :: "bridge_input list \<Rightarrow> bridge \<Rightarrow> bridge \<times> pydict option list" where
  "bridge_run [] b = (b, [])"
| "bridge_run (i # is) b =
     (let (b1, v) = bridge_step i b; (b2, vs) = bridge_run is b1 in (b2, v # vs))"

lemma declare_kind_simps [simp]:
  "evidence (declare_kind c k b) = evidence b"
  "capabilities (declare_kind c k b) = capabilities b"
  "open_tool_calls (declare_kind c k b) = open_tool_calls b"
  "open_truncated (declare_kind c k b) = open_truncated b"
  "terminal_tool_calls (declare_kind c k b) = terminal_tool_calls b"
  "denied_tool_calls (declare_kind c k b) = denied_tool_calls b"
  by (simp_all add: declare_kind_def split: option.splits)

lemma open_call_simps [simp]:
  "evidence (open_call c k b) = evidence b"
  "capabilities (open_call c k b) = capabilities b"
  "tool_kinds (open_call c k b) = tool_kinds b"
  "terminal_tool_calls (open_call c k b) = terminal_tool_calls b"
  "denied_tool_calls (open_call c k b) = denied_tool_calls b"
  by (simp_all add: open_call_def)

lemma flag_violation_simps [simp]:
  "evidence (flag_violation r b) = evidence b"
  "capabilities (flag_violation r b) = capabilities b"
  "tool_kinds (flag_violation r b) = tool_kinds b"
  "open_tool_calls (flag_violation r b) = open_tool_calls b"
  "open_truncated (flag_violation r b) = open_truncated b"
  "terminal_tool_calls (flag_violation r b) = terminal_tool_calls b"
  "denied_tool_calls (flag_violation r b) = denied_tool_calls b"
  "grant_violation (flag_violation r b)"
  by (simp_all add: flag_violation_def)

lemma violation_frame [simp]:
  "evidence (fst (violation_for_completion c k st b)) = evidence b"
  "capabilities (fst (violation_for_completion c k st b)) = capabilities b"
  "tool_kinds (fst (violation_for_completion c k st b)) = tool_kinds b"
  "open_tool_calls (fst (violation_for_completion c k st b)) = open_tool_calls b"
  "open_truncated (fst (violation_for_completion c k st b)) = open_truncated b"
  "terminal_tool_calls (fst (violation_for_completion c k st b)) = terminal_tool_calls b"
  "denied_tool_calls (fst (violation_for_completion c k st b)) = denied_tool_calls b"
  by (simp_all add: violation_for_completion_def Let_def split: option.splits)

lemma close_call_simps [simp]:
  "evidence (close_call c b) = evidence b"
  "capabilities (close_call c b) = capabilities b"
  "tool_kinds (close_call c b) = tool_kinds b"
  "open_tool_calls (close_call c b) = ddel c (open_tool_calls b)"
  "open_truncated (close_call c b) = open_truncated b"
  "terminal_tool_calls (close_call c b) = insert c (terminal_tool_calls b)"
  "denied_tool_calls (close_call c b) = denied_tool_calls b"
  "grant_violation (close_call c b) = grant_violation b"
  by (simp_all add: close_call_def)

lemma str_value_iff [simp]: "str_value v = Some s \<longleftrightarrow> v = PStr s"
  by (cases v) auto

text \<open>An update: the capabilities, the evidence and the denials stay, a call once ended stays ended, a
  truncated map stays truncated.\<close>

lemma observe_frame:
  "capabilities (fst (observe_tool_update u b)) = capabilities b"
  "evidence (fst (observe_tool_update u b)) = evidence b"
  "denied_tool_calls (fst (observe_tool_update u b)) = denied_tool_calls b"
  "terminal_tool_calls b \<subseteq> terminal_tool_calls (fst (observe_tool_update u b))"
  by (auto simp: observe_tool_update_def Let_def split_def split: option.splits)

lemma open_call_truncated: "open_truncated b \<Longrightarrow> open_truncated (open_call c k b)"
  by (simp add: open_call_def)

lemma observe_truncated: "open_truncated b \<Longrightarrow> open_truncated (fst (observe_tool_update u b))"
  by (auto simp: observe_tool_update_def Let_def split_def open_call_truncated split: option.splits)

lemma bridge_step_mono:
  "denied_tool_calls b \<subseteq>\<^sub>m denied_tool_calls (fst (bridge_step i b))"
  "terminal_tool_calls b \<subseteq> terminal_tool_calls (fst (bridge_step i b))"
  "open_truncated b \<Longrightarrow> open_truncated (fst (bridge_step i b))"
  "capabilities (fst (bridge_step i b)) = capabilities b"
  using mediation_same_calls observe_frame observe_truncated
  by (cases i; auto simp: same_calls_def)+

lemma bridge_run_mono:
  "denied_tool_calls b \<subseteq>\<^sub>m denied_tool_calls (fst (bridge_run is b))"
  "terminal_tool_calls b \<subseteq> terminal_tool_calls (fst (bridge_run is b))"
  "open_truncated b \<Longrightarrow> open_truncated (fst (bridge_run is b))"
proof (induction "is" arbitrary: b)
  case (Cons i "is")
  {
    case 1 then show ?case using Cons(1) bridge_step_mono(1) map_le_trans by (fastforce simp: split_def Let_def)
  next
    case 2 then show ?case using Cons(2) bridge_step_mono(2) by (fastforce simp: split_def Let_def)
  next
    case 3 then show ?case using Cons(3) bridge_step_mono(3) by (simp add: split_def Let_def)
  }
qed auto

section \<open>One violation per call\<close>

definition accuses :: "string \<Rightarrow> pydict option \<Rightarrow> bool" where
  "accuses c v \<longleftrightarrow> (case v of Some e \<Rightarrow> dget e ''tool_call_id'' = PStr c | None \<Rightarrow> False)"

lemma violation_accuses:
  "accuses c (snd (violation_for_completion call_id k st b)) \<Longrightarrow> call_id = PStr c \<and> st = PStr ''completed''"
  by (cases call_id)
    (auto simp: violation_for_completion_def accuses_def Let_def split: if_splits option.splits)

lemma observe_accuses:
  "snd (observe_tool_update u b) = Inr v \<Longrightarrow> accuses c v \<Longrightarrow>
   c \<notin> terminal_tool_calls b \<and> c \<in> terminal_tool_calls (fst (observe_tool_update u b))"
  by (auto simp: observe_tool_update_def Let_def split_def ended_already_def is_terminal_def
      TERMINAL_TOOL_STATUSES_def accuses_def [of c None] dest: violation_accuses split: if_splits option.splits)

lemma bridge_step_accuses:
  "accuses c (snd (bridge_step i b)) \<Longrightarrow>
   c \<notin> terminal_tool_calls b \<and> c \<in> terminal_tool_calls (fst (bridge_step i b))"
  using observe_accuses
  by (cases i) (auto simp: accuses_def [of c None] split: sum.splits)

lemma accusations_bound:
  "length (filter (accuses c) (snd (bridge_run is b))) \<le> (if c \<in> terminal_tool_calls b then 0 else 1)"
proof (induction "is" arbitrary: b)
  case (Cons i "is")
  show ?case
    using Cons [of "fst (bridge_step i b)"] bridge_step_accuses [of c i b] bridge_step_mono(2) [of b i]
    by (auto simp: split_def Let_def split: if_splits)
qed simp

section \<open>An allow is once-scoped, granted and contained\<close>

definition contained_locations :: "fs_view \<Rightarrow> bridge \<Rightarrow> pydict \<Rightarrow> bool" where
  "contained_locations fs b tool_call \<longleftrightarrow>
     (\<exists>locs. dget tool_call ''locations'' = PList locs \<and> locs \<noteq> [] \<and>
        (\<forall>l \<in> set locs. \<exists>loc s q. l = PDict loc \<and> dget loc ''path'' = PStr s \<and> is_absolute (parse_path s) \<and>
           resolve_read_like_location fs b s = Some q \<and> inside_workspace (workspace_root b) q))"

lemma location_errors_None:
  "location_errors fs b locs = None \<Longrightarrow> l \<in> set locs \<Longrightarrow>
   \<exists>loc s q. l = PDict loc \<and> dget loc ''path'' = PStr s \<and> is_absolute (parse_path s) \<and>
     resolve_read_like_location fs b s = Some q \<and> inside_workspace (workspace_root b) q"
  by (induction fs b locs rule: location_errors.induct) (auto split: pyval.splits if_splits option.splits)

lemma no_location_error: "read_like_location_error fs b tc = None \<Longrightarrow> contained_locations fs b tc"
  using location_errors_None [of fs b]
  by (fastforce simp: read_like_location_error_def contained_locations_def split: pyval.splits list.splits)

definition offered_once :: "pyval \<Rightarrow> pyval \<Rightarrow> bool" where
  "offered_once options choice \<longleftrightarrow>
     (\<exists>opts d. options = PList opts \<and> PDict d \<in> set opts \<and> dget d ''kind'' = PStr ''allow_once'' \<and>
        dget d ''optionId'' = choice \<and> is_str choice)"

definition granted :: "fs_view \<Rightarrow> bridge \<Rightarrow> pydict \<Rightarrow> bool" where
  "granted fs b tool_call \<longleftrightarrow>
     (\<exists>kind. dget tool_call ''kind'' = PStr kind \<and> kind \<in> REGISTERED_KINDS \<and>
        (kind \<in> READ_KINDS \<and> ''read'' \<in> capabilities b \<and> contained_locations fs b tool_call \<or>
         (\<exists>required \<in> capabilities b. WRITE_FAMILY_REQUIRED_CAPABILITY kind = Some required)))"

lemma matched_option:
  "find (option_matches wanted) xs = Some x \<Longrightarrow>
   \<exists>d. x = PDict d \<and> PDict d \<in> set xs \<and> dget d ''kind'' = PStr wanted \<and> dget d ''optionId'' = PStr (option_text x)"
proof -
  assume "find (option_matches wanted) xs = Some x"
  then have "x \<in> set xs" "option_matches wanted x" by (auto simp: find_Some_iff)
  then show ?thesis
    by (cases "(wanted, x)" rule: option_matches.cases) (auto simp: is_str_iff)
qed

lemma py_elements_dicts: "py_elements v = Some xs \<Longrightarrow> PDict d \<in> set xs \<Longrightarrow> v = PList xs"
  by (cases v) (auto split: if_splits)

lemma allow_option_once:
  "option_id options ALLOW_OPTION_PREFERENCE = Inr (Some choice) \<Longrightarrow> offered_once options (PStr choice)"
proof -
  assume "option_id options ALLOW_OPTION_PREFERENCE = Inr (Some choice)"
  then obtain xs x where xs: "py_elements options = Some xs" "find (option_matches ''allow_once'') xs = Some x"
      "choice = option_text x"
    by (auto simp: option_id_def ALLOW_OPTION_PREFERENCE_def split: option.splits)
  from matched_option [OF xs(2)] obtain d where
    "PDict d \<in> set xs" "dget d ''kind'' = PStr ''allow_once''" "dget d ''optionId'' = PStr choice"
    unfolding xs(3) by blast
  with py_elements_dicts [OF xs(1)] show ?thesis unfolding offered_once_def by (metis is_str.simps(1))
qed

lemma deny_with_option_denies:
  "snd (deny_with_option op rs c opts b) = Inr d \<Longrightarrow> dget d ''decision'' = PStr ''deny''"
  by (auto simp: deny_with_option_def split_def Let_def split: sum.splits option.splits)

lemma allow_once_choice:
  assumes "snd (allow_once_or_deny k rs c opts b) = Inr d" "dget d ''decision'' = PStr ''allow''"
  shows "offered_once opts (dget d ''option_id'')"
  using assms deny_with_option_denies allow_option_once
  by (fastforce simp: allow_once_or_deny_def split_def Let_def split: sum.splits option.splits)

lemma decide_kind_allow:
  assumes "snd (decide_kind fs k tc opts b) = Inr d" "dget d ''decision'' = PStr ''allow''"
    "dget tc ''kind'' = PStr k"
  shows "offered_once opts (dget d ''option_id'') \<and> granted fs b tc"
proof -
  have denies: "snd (deny_with_option op rs c opts b) \<noteq> Inr d" for op rs c
    using assms(2) deny_with_option_denies by fastforce
  have choice: "offered_once opts (dget d ''option_id'')"
    if "snd (allow_once_or_deny k rs c opts b) = Inr d" for rs c
    using that assms(2) by (rule allow_once_choice)
  show ?thesis
    using assms(1,3)
    by (auto simp: decide_kind_def Let_def denies granted_def dest: choice no_location_error split: if_splits option.splits)
qed

lemma permission_allow:
  assumes "snd (decide_permission_request fs req b) = Inr d" "dget d ''decision'' = PStr ''allow''"
  shows "\<exists>tc. dget req ''tool_call'' = PDict tc \<and> granted fs b tc \<and>
           offered_once (dget req ''options'') (dget d ''option_id'')"
proof -
  have denies: "snd (deny_with_option op rs c opts b') \<noteq> Inr d" for op rs c opts b'
    using assms(2) deny_with_option_denies by fastforce
  obtain tc k where tc: "get_or req ''tool_call'' (PDict []) = PDict tc" "dget tc ''kind'' = PStr k"
    and decided: "snd (decide_kind fs k tc (get_or req ''options'' (PList [])) b) = Inr d"
    using assms(1) denies
    by (auto simp: decide_permission_request_def Let_def split: pyval.splits list.splits)
  have "dget req ''tool_call'' = PDict tc" using tc by (auto simp: get_or_def split: if_splits)
  moreover have "offered_once (get_or req ''options'' (PList [])) v \<Longrightarrow> offered_once (dget req ''options'') v" for v
    by (auto simp: get_or_def offered_once_def split: if_splits)
  ultimately show ?thesis using decide_kind_allow [OF decided assms(2) tc(2)] by blast
qed

section \<open>A refusal is remembered\<close>

definition remembers :: "string \<Rightarrow> bridge \<times> pydict outcome \<Rightarrow> bool" where
  "remembers c r \<longleftrightarrow>
     (\<forall>d. snd r = Inr d \<and> dget d ''decision'' = PStr ''deny'' \<longrightarrow> c \<in> dom (denied_tool_calls (fst r)))"

lemma deny_with_option_remembers: "remembers c (deny_with_option op rs (PStr c) opts b)"
  by (auto simp: remembers_def deny_with_option_def split_def Let_def)

lemma allow_once_remembers: "remembers c (allow_once_or_deny k rs (PStr c) opts b)"
  using deny_with_option_remembers
  by (auto simp: allow_once_or_deny_def split_def Let_def split: sum.splits option.splits)
    (auto simp: remembers_def)

lemma decide_kind_remembers:
  "dget tc ''toolCallId'' = PStr c \<Longrightarrow> remembers c (decide_kind fs k tc opts b)"
  by (simp add: decide_kind_def Let_def deny_with_option_remembers allow_once_remembers split: option.splits)

lemma prompt_denial_remembered:
  assumes "decide_permission_request fs req b = (b1, Inr d)" "dget d ''decision'' = PStr ''deny''"
    "dget req ''tool_call'' = PDict tc" "dget tc ''toolCallId'' = PStr c"
  shows "c \<in> dom (denied_tool_calls b1)"
proof -
  have "get_or req ''tool_call'' (PDict []) = PDict tc"
    using assms(3,4) by (cases tc) (auto simp: get_or_def)
  then have "remembers c (decide_permission_request fs req b)"
    using assms(4)
    by (simp add: decide_permission_request_def Let_def decide_kind_remembers deny_with_option_remembers
        split: pyval.splits list.splits)
  then show ?thesis using assms(1,2) by (simp add: remembers_def)
qed

lemma completion_after_denial:
  assumes "c \<in> dom (denied_tool_calls b)" "c \<notin> terminal_tool_calls b"
    "tool_update u" "dget u ''toolCallId'' = PStr c" "dget u ''status'' = PStr ''completed''"
  shows "\<exists>b' e. observe_tool_update u b = (b', Inr (Some e)) \<and> grant_violation b' \<and>
    dget e ''violation_class'' = PStr ''completed_after_deny'' \<and> dget e ''tool_call_id'' = PStr c"
  using assms
  by (auto simp: observe_tool_update_def Let_def ended_already_def is_terminal_def TERMINAL_TOOL_STATUSES_def
      violation_for_completion_def)

section \<open>The unresolved calls of the turn\<close>

text \<open>
  The reference: each call on its own, with the kind it last declared and where its life stands.  An
  update with an unhashable status raises after the kind was noted.
\<close>

datatype phase = Unseen | Running "string option" | Ended

type_synonym turn = "string \<Rightarrow> string option \<times> phase"

definition call_step :: "string option \<Rightarrow> pyval \<Rightarrow> string option \<times> phase \<Rightarrow> string option \<times> phase" where
  "call_step kind status = (\<lambda>(declared, ph).
     if ph = Ended then (declared, ph)
     else (let declared' = (if kind = None then declared else kind) in
           if \<not> py_hashable status then (declared', ph)
           else if is_terminal status then (declared', Ended)
           else (declared', Running declared')))"

definition turn_step :: "pydict \<Rightarrow> turn \<Rightarrow> turn" where
  "turn_step u t =
     (case str_value (dget u ''toolCallId'') of
        Some c \<Rightarrow> if tool_update u then t(c := call_step (str_value (dget u ''kind'')) (dget u ''status'') (t c)) else t
      | None \<Rightarrow> t)"

fun turn_input :: "bridge_input \<Rightarrow> turn \<Rightarrow> turn" where
  "turn_input (Update u) t = turn_step u t"
| "turn_input _ t = t"

definition turn_of :: "bridge \<Rightarrow> turn" where
  "turn_of b c =
     (tool_kinds b c,
      if c \<in> terminal_tool_calls b then Ended
      else (case map_of (open_tool_calls b) c of None \<Rightarrow> Unseen | Some k \<Rightarrow> Running k))"

lemma same_calls_turn: "same_calls b b' \<Longrightarrow> turn_of b' = turn_of b"
  by (simp add: same_calls_def turn_of_def fun_eq_iff)

lemma turn_of_ended: "c \<in> terminal_tool_calls b \<Longrightarrow> snd (turn_of b c) = Ended"
  by (simp add: turn_of_def)

lemma turn_of_live: "c \<notin> terminal_tool_calls b \<Longrightarrow> snd (turn_of b c) \<noteq> Ended"
  by (simp add: turn_of_def split: option.splits)

lemma open_call_map:
  "\<not> open_truncated (open_call c k b) \<Longrightarrow> map_of (open_tool_calls (open_call c k b)) = (map_of (open_tool_calls b))(c \<mapsto> k)"
  by (auto simp: open_call_def split: if_splits)

lemma declare_kind_map:
  "tool_kinds (declare_kind (PStr c) kind b) =
   (case str_value kind of None \<Rightarrow> tool_kinds b | Some k \<Rightarrow> (tool_kinds b)(c \<mapsto> k))"
  by (simp add: declare_kind_def split: option.splits)

lemma declare_kind_anonymous: "str_value c = None \<Longrightarrow> declare_kind c kind b = b"
  by (simp add: declare_kind_def)

lemma observe_anonymous:
  "str_value (dget u ''toolCallId'') = None \<Longrightarrow> turn_of (fst (observe_tool_update u b)) = turn_of b"
  by (simp add: observe_tool_update_def Let_def split_def declare_kind_anonymous turn_of_def fun_eq_iff)

lemma observe_named:
  assumes "dget u ''toolCallId'' = PStr c" "tool_update u" "c \<notin> terminal_tool_calls b"
    "\<not> open_truncated (fst (observe_tool_update u b))"
  shows "turn_of (fst (observe_tool_update u b)) =
    (turn_of b)(c := call_step (str_value (dget u ''kind'')) (dget u ''status'') (turn_of b c))"
proof -
  define b1 where "b1 = declare_kind (PStr c) (dget u ''kind'') b"
  have kinds: "tool_kinds b1 = (case str_value (dget u ''kind'') of None \<Rightarrow> tool_kinds b | Some k \<Rightarrow> (tool_kinds b)(c \<mapsto> k))"
    by (simp add: b1_def declare_kind_map)
  have "\<not> open_truncated (open_call c (kind_or_declared (dget u ''kind'') c b1) b1)"
    if "py_hashable (dget u ''status'')" "\<not> is_terminal (dget u ''status'')"
    using assms that by (simp add: observe_tool_update_def Let_def split_def ended_already_def b1_def)
  note open_map = open_call_map [OF this]
  show ?thesis
    using assms(1-3) kinds open_map
    by (auto simp: observe_tool_update_def Let_def split_def ended_already_def call_step_def turn_of_def fun_eq_iff
        b1_def kind_or_declared_def split: option.splits)
qed

lemma observe_turn:
  assumes "\<not> open_truncated (fst (observe_tool_update u b))"
  shows "turn_of (fst (observe_tool_update u b)) = turn_step u (turn_of b)"
proof (cases "str_value (dget u ''toolCallId'')")
  case None
  then show ?thesis by (simp add: observe_anonymous turn_step_def)
next
  case (Some c)
  show ?thesis
  proof (cases "tool_update u \<and> c \<notin> terminal_tool_calls b")
    case True
    then show ?thesis using observe_named Some assms by (simp add: turn_step_def)
  next
    case False
    then have "fst (observe_tool_update u b) = b"
      using Some by (auto simp: observe_tool_update_def Let_def ended_already_def)
    then show ?thesis
      using False Some turn_of_ended [of c b]
      by (cases "turn_of b c") (auto simp: turn_step_def call_step_def)
  qed
qed

lemma bridge_step_turn:
  "\<not> open_truncated (fst (bridge_step i b)) \<Longrightarrow> turn_of (fst (bridge_step i b)) = turn_input i (turn_of b)"
  using mediation_same_calls same_calls_turn by (cases i) (auto simp: observe_turn)

lemma bridge_run_turn:
  "\<not> open_truncated (fst (bridge_run is b)) \<Longrightarrow> turn_of (fst (bridge_run is b)) = fold turn_input is (turn_of b)"
proof (induction "is" arbitrary: b)
  case (Cons i "is")
  have "\<not> open_truncated (fst (bridge_step i b))"
    using Cons.prems bridge_run_mono(3) [of "fst (bridge_step i b)" "is"] by (auto simp: split_def Let_def)
  then show ?case using Cons by (simp add: split_def Let_def bridge_step_turn)
qed simp

section \<open>The invariant of a turn\<close>

definition bridge_wf :: "bridge \<Rightarrow> bool" where
  "bridge_wf b \<longleftrightarrow>
     distinct (map fst (open_tool_calls b)) \<and> length (open_tool_calls b) \<le> OPEN_TOOL_CALL_LIMIT \<and>
     fst ` set (open_tool_calls b) \<inter> terminal_tool_calls b = {}"

definition fresh_bridge :: "bridge \<Rightarrow> bool" where
  "fresh_bridge b \<longleftrightarrow> (\<exists>fs caps ws. new_bridge fs caps ws = Some b)"

definition bridge_next :: "bridge \<Rightarrow> bridge \<Rightarrow> bool" where
  "bridge_next b b' \<longleftrightarrow> (\<exists>i. b' = fst (bridge_step i b))"

lemma fresh_bridge_simps:
  "fresh_bridge b \<Longrightarrow> open_tool_calls b = [] \<and> terminal_tool_calls b = {} \<and> tool_kinds b = Map.empty \<and> \<not> open_truncated b"
  by (auto simp: fresh_bridge_def new_bridge_def split: option.splits)

lemma length_dset: "length (dset k v d) = (if k \<in> fst ` set d then length d else Suc (length d))"
  by (induction k v d rule: dset.induct) auto

lemma length_ddel: "length (ddel k d) \<le> length d"
  by (simp add: ddel_def)

lemma same_calls_wf: "same_calls b b' \<Longrightarrow> bridge_wf b \<Longrightarrow> bridge_wf b'"
  by (simp add: same_calls_def bridge_wf_def)

lemma open_call_wf: "bridge_wf b \<Longrightarrow> c \<notin> terminal_tool_calls b \<Longrightarrow> bridge_wf (open_call c k b)"
  by (auto simp: bridge_wf_def open_call_def distinct_dset length_dset)

lemma close_call_wf: "bridge_wf b \<Longrightarrow> bridge_wf (close_call c b)"
  using length_ddel [of c "open_tool_calls b"] by (auto simp: bridge_wf_def keys_ddel distinct_ddel)

lemma wf_frame:
  "bridge_wf (declare_kind c k b) = bridge_wf b"
  "bridge_wf (fst (violation_for_completion c k st b)) = bridge_wf b"
  by (simp_all add: bridge_wf_def)

lemma observe_wf: "bridge_wf b \<Longrightarrow> bridge_wf (fst (observe_tool_update u b))"
  by (auto simp: observe_tool_update_def Let_def split_def ended_already_def wf_frame intro!: close_call_wf open_call_wf
      split: option.splits)

interpretation turn: inductive_invariant fresh_bridge bridge_next bridge_wf
proof
  show "fresh_bridge b \<Longrightarrow> bridge_wf b" for b
    by (simp add: bridge_wf_def fresh_bridge_simps)
  show "bridge_wf b \<Longrightarrow> bridge_next b b' \<Longrightarrow> bridge_wf b'" for b b'
    unfolding bridge_next_def
  proof (elim exE)
    fix i assume "bridge_wf b" "b' = fst (bridge_step i b)"
    then show "bridge_wf b'"
      using same_calls_wf [OF decide_permission_same_calls] same_calls_wf [OF decide_fs_read_same_calls]
        same_calls_wf [OF decide_fs_write_same_calls] observe_wf
      by (cases i) auto
  qed
qed

lemma bridge_run_reaches: "rtranclp bridge_next b (fst (bridge_run is b))"
proof (induction "is" arbitrary: b)
  case (Cons i "is")
  have "bridge_next b (fst (bridge_step i b))" by (auto simp: bridge_next_def)
  then show ?case using Cons by (auto simp: split_def Let_def intro: converse_rtranclp_into_rtranclp)
qed simp

lemma bridge_run_wf: "fresh_bridge b \<Longrightarrow> bridge_wf (fst (bridge_run is b))"
  using turn.inv_reachable bridge_run_reaches by blast

lemma fresh_turn: "fresh_bridge b \<Longrightarrow> turn_of b = (\<lambda>c. (None, Unseen))"
  by (simp add: turn_of_def fresh_bridge_simps fun_eq_iff)

lemma running_open: "snd (turn_of b c) = Running k \<Longrightarrow> c \<in> fst ` set (open_tool_calls b)"
  by (auto simp: turn_of_def dest: map_of_SomeD split: if_splits option.splits) (metis image_eqI fst_conv map_of_SomeD)

lemma sole_open_turn:
  assumes "sole_open_call_if_kind kinds b = Some c" "bridge_wf b"
  shows "\<not> open_truncated b" "\<exists>k \<in> kinds. snd (turn_of b c) = Running (Some k)"
    "snd (turn_of b c') = Running k' \<Longrightarrow> c' = c"
proof -
  obtain k where k: "\<not> open_truncated b" "open_tool_calls b = [(c, Some k)]" "k \<in> kinds"
    using assms(1) by (auto simp: sole_open_call_if_kind_def split: if_splits list.splits prod.splits option.splits)
  then show "\<not> open_truncated b" "\<exists>k \<in> kinds. snd (turn_of b c) = Running (Some k)"
    using assms(2) by (auto simp: turn_of_def bridge_wf_def)
  show "snd (turn_of b c') = Running k' \<Longrightarrow> c' = c"
    using running_open [of b c' k'] k(2) by simp
qed

lemma new_bridge_fresh: "new_bridge fs caps ws = Some b \<Longrightarrow> fresh_bridge b"
  unfolding fresh_bridge_def by blast

section \<open>Properties\<close>

text \<open>C28. A prompt is answered with an allow only through an option the request offers under the kind
  \<^verbatim>\<open>allow_once\<close>, only for a registered kind, and only when the frozen grant holds the capability:
  \<^verbatim>\<open>read\<close> for a read-like call, every declared location of which resolves to a path inside the
  workspace, or the capability the write family requires.\<close>

theorem prompt_allow_sound:
  assumes "decide_permission_request fs req b = (b', Inr d)" "dget d ''decision'' = PStr ''allow''"
  shows "\<exists>tc. dget req ''tool_call'' = PDict tc \<and> granted fs b tc \<and>
           offered_once (dget req ''options'') (dget d ''option_id'')"
  using permission_allow [of fs req b d] assms by simp

definition demo_view :: fs_view where
  "demo_view = \<lparr>view_host = \<lparr>h_node = \<lambda>p. Missing, h_double_root_same = Some True\<rparr>,
     view_lenient = Some, view_strict = \<lambda>p. Not_Found\<rparr>"

definition demo_bridge :: bridge where
  "demo_bridge = the (new_bridge demo_view {''read''} (Root, [''w'']))"

definition demo_request :: pydict where
  "demo_request =
     [(''tool_call'', PDict [(''toolCallId'', PStr ''c1''), (''kind'', PStr ''read''),
         (''locations'', PList [PDict [(''path'', PStr ''/w/sub/../a'')]])]),
      (''options'', PList [PDict [(''kind'', PStr ''allow_always''), (''optionId'', PStr ''A'')],
                           PDict [(''kind'', PStr ''allow_once''), (''optionId'', PStr ''B'')]])]"

lemma outcome_shape: "\<not> isl (snd x) \<Longrightarrow> x = (fst x, Inr (projr (snd x)))"
  by (cases x) simp

theorem prompt_allow_sound_witness:
  "\<exists>tc. dget demo_request ''tool_call'' = PDict tc \<and> granted demo_view demo_bridge tc \<and>
     offered_once (dget demo_request ''options'') (PStr ''B'')"
proof -
  let ?x = "decide_permission_request demo_view demo_request demo_bridge"
  have "\<not> isl (snd ?x)" by code_simp
  moreover have "dget (projr (snd ?x)) ''decision'' = PStr ''allow''" by code_simp
  moreover have "dget (projr (snd ?x)) ''option_id'' = PStr ''B''" by code_simp
  ultimately show ?thesis using prompt_allow_sound [OF outcome_shape] by metis
qed

text \<open>Every mediation, of a prompt, of a host read or of a host write, either adds exactly one
  event to the evidence, whose decision and reason are the ones handed back over the wire, or raises and
  leaves the bridge as it was.\<close>

theorem decision_recorded_once:
  "recorded_once b (decide_fs_write s b) \<and>
   (recorded_once b (decide_fs_read fs s b) \<or> decide_fs_read fs s b = (b, Inl Resolution_Error)) \<and>
   (recorded_once b (decide_permission_request fs req b) \<or>
    (\<exists>e. decide_permission_request fs req b = (b, Inl e)))"
  using decide_fs_read_recorded decide_permission_recorded
  by (auto simp: recorded_once_def decide_fs_write_def split_def)

text \<open>However prompts, host requests and updates interleave in a turn, at most one violation event
  names a given call.\<close>

theorem one_violation_per_call: "length (filter (accuses c) (snd (bridge_run is b))) \<le> 1"
  using accusations_bound [of c "is" b] by (simp split: if_splits)

text \<open>A call has ended once the agent reported it completed or failed.\<close>

definition reports_end :: "string \<Rightarrow> bridge_input \<Rightarrow> bool" where
  "reports_end c i \<longleftrightarrow>
     (case i of
        Update u \<Rightarrow> tool_update u \<and> dget u ''toolCallId'' = PStr c \<and> is_terminal (dget u ''status'')
      | _ \<Rightarrow> False)"

lemma observe_ends:
  "c \<in> terminal_tool_calls (fst (observe_tool_update u b)) \<longleftrightarrow> c \<in> terminal_tool_calls b \<or> reports_end c (Update u)"
proof -
  have "is_terminal st \<Longrightarrow> py_hashable st" for st by (cases st) (auto simp: is_terminal_def)
  then show ?thesis
    by (auto simp: observe_tool_update_def Let_def split_def ended_already_def reports_end_def split: option.splits)
qed

lemma step_ends: "c \<in> terminal_tool_calls (fst (bridge_step i b)) \<longleftrightarrow> c \<in> terminal_tool_calls b \<or> reports_end c i"
proof (cases i)
  case (Update u)
  then show ?thesis using observe_ends [of c u b] by simp
qed (use mediation_same_calls in \<open>auto simp: same_calls_def reports_end_def\<close>)

lemma run_ends: "c \<in> terminal_tool_calls (fst (bridge_run is b)) \<longleftrightarrow> c \<in> terminal_tool_calls b \<or> list_ex (reports_end c) is"
  by (induction "is" arbitrary: b) (auto simp: step_ends split_def Let_def)

text \<open>C29. A refusal is never forgotten: once a prompt naming a call was denied, whatever else the turn
  does in between, an update that reports this call completed produces a \<^verbatim>\<open>completed_after_deny\<close> event naming
  it and flags the grant violation, exactly unless the agent had already reported the call's end, before the prompt or
  since: a call ends once, and a later update of an ended call changes nothing.\<close>

theorem denied_completion_flagged:
  assumes "decide_permission_request fs req b = (b1, Inr d)" "dget d ''decision'' = PStr ''deny''"
    "dget req ''tool_call'' = PDict tc" "dget tc ''toolCallId'' = PStr c"
    "b2 = fst (bridge_run is b1)"
    "tool_update u" "dget u ''toolCallId'' = PStr c" "dget u ''status'' = PStr ''completed''"
  shows "if c \<in> terminal_tool_calls b \<or> list_ex (reports_end c) is
    then observe_tool_update u b2 = (b2, Inr None)
    else \<exists>b3 e. observe_tool_update u b2 = (b3, Inr (Some e)) \<and> grant_violation b3 \<and>
      dget e ''violation_class'' = PStr ''completed_after_deny'' \<and> dget e ''tool_call_id'' = PStr c"
proof -
  have "c \<in> dom (denied_tool_calls b1)"
    using prompt_denial_remembered [OF assms(1-4)] .
  then have denied: "c \<in> dom (denied_tool_calls b2)"
    using bridge_run_mono(1) [of b1 "is"] assms(5) by (metis map_le_implies_dom_le subsetD)
  have "terminal_tool_calls b1 = terminal_tool_calls b"
    using mediation_same_calls(1) [of b fs req] assms(1) by (simp add: same_calls_def)
  then have ended: "c \<in> terminal_tool_calls b2 \<longleftrightarrow> c \<in> terminal_tool_calls b \<or> list_ex (reports_end c) is"
    using assms(5) run_ends by simp
  show ?thesis
  proof (cases "c \<in> terminal_tool_calls b2")
    case True
    then show ?thesis using ended assms(7) by (simp add: observe_tool_update_def ended_already_def)
  next
    case False
    then show ?thesis using completion_after_denial [OF denied False assms(6-8)] ended by simp
  qed
qed

definition demo_refused :: pydict where
  "demo_refused = [(''tool_call'', PDict [(''toolCallId'', PStr ''c1''), (''kind'', PStr ''edit'')])]"

definition demo_between :: "bridge_input list" where
  "demo_between = [Fs_Write ''/w/a'', Prompt demo_view demo_request]"

definition demo_completion :: pydict where
  "demo_completion =
     [(''sessionUpdate'', PStr ''tool_call_update''), (''toolCallId'', PStr ''c1''), (''status'', PStr ''completed'')]"

definition demo_failure :: pydict where
  "demo_failure =
     [(''sessionUpdate'', PStr ''tool_call_update''), (''toolCallId'', PStr ''c1''), (''status'', PStr ''failed'')]"

lemma demo_denied:
  "decide_permission_request demo_view demo_refused demo_bridge =
     (fst (decide_permission_request demo_view demo_refused demo_bridge),
      Inr (projr (snd (decide_permission_request demo_view demo_refused demo_bridge))))"
  by (rule outcome_shape) code_simp

text \<open>Flagged after other traffic; and the same completion after the call was reported failed.\<close>

theorem denied_completion_flagged_witness:
  "(\<exists>b3 e. observe_tool_update demo_completion (fst (bridge_run demo_between (fst (decide_permission_request demo_view demo_refused demo_bridge)))) =
      (b3, Inr (Some e)) \<and> grant_violation b3 \<and>
      dget e ''violation_class'' = PStr ''completed_after_deny'' \<and> dget e ''tool_call_id'' = PStr ''c1'') \<and>
   snd (observe_tool_update demo_completion
     (fst (bridge_run (demo_between @ [Update demo_failure]) (fst (decide_permission_request demo_view demo_refused demo_bridge))))) = Inr None"
proof -
  let ?x = "decide_permission_request demo_view demo_refused demo_bridge"
  have d: "dget (projr (snd ?x)) ''decision'' = PStr ''deny''" by code_simp
  have t: "dget demo_refused ''tool_call'' = PDict [(''toolCallId'', PStr ''c1''), (''kind'', PStr ''edit'')]"
    "dget [(''toolCallId'', PStr ''c1''), (''kind'', PStr ''edit'')] ''toolCallId'' = PStr ''c1''"
    "tool_update demo_completion" "dget demo_completion ''toolCallId'' = PStr ''c1''" "dget demo_completion ''status'' = PStr ''completed''"
    by code_simp+
  note flagged = denied_completion_flagged [OF demo_denied d t(1,2) refl t(3-5)]
  have "\<not> (''c1'' \<in> terminal_tool_calls demo_bridge \<or> list_ex (reports_end ''c1'') demo_between)"
    "list_ex (reports_end ''c1'') (demo_between @ [Update demo_failure])" by code_simp+
  then show ?thesis using flagged [of demo_between] flagged [of "demo_between @ [Update demo_failure]"] by simp
qed

text \<open>C30. While the turn stays below the ceiling of 1024 unresolved calls, the bridge's bookkeeping is
  exactly the per-call life cycle of the updates received: what it knows of each call is what folding
  the updates over the reference automaton gives; and the map never outgrows its ceiling, holds each call
  once and never one that ended.\<close>

theorem open_calls_refine:
  assumes "new_bridge fs caps ws = Some b"
  shows "bridge_wf (fst (bridge_run is b)) \<and>
    (\<not> open_truncated (fst (bridge_run is b)) \<longrightarrow>
       turn_of (fst (bridge_run is b)) = fold turn_input is (\<lambda>c. (None, Unseen)))"
  using bridge_run_wf [OF new_bridge_fresh [OF assms]] bridge_run_turn [of _ b] fresh_turn [OF new_bridge_fresh [OF assms]]
  by simp

definition demo_updates :: "bridge_input list" where
  "demo_updates =
     [Update [(''sessionUpdate'', PStr ''tool_call''), (''toolCallId'', PStr ''c0''), (''kind'', PStr ''edit'')],
      Update [(''sessionUpdate'', PStr ''tool_call''), (''toolCallId'', PStr ''c1'')],
      Update [(''sessionUpdate'', PStr ''tool_call_update''), (''toolCallId'', PStr ''c1''), (''kind'', PStr ''read''),
              (''status'', PStr ''in_progress'')],
      Update [(''sessionUpdate'', PStr ''tool_call_update''), (''toolCallId'', PStr ''c0''), (''status'', PStr ''failed'')]]"

lemma demo_bridge_new: "new_bridge demo_view {''read''} (Root, [''w'']) = Some demo_bridge"
  by (simp add: demo_bridge_def new_bridge_def demo_view_def)

theorem open_calls_refine_witness:
  "turn_of (fst (bridge_run demo_updates demo_bridge)) ''c1'' = (Some ''read'', Running (Some ''read'')) \<and>
   turn_of (fst (bridge_run demo_updates demo_bridge)) ''c0'' = (Some ''edit'', Ended)"
proof -
  have "\<not> open_truncated (fst (bridge_run demo_updates demo_bridge))" by code_simp
  then have *: "turn_of (fst (bridge_run demo_updates demo_bridge)) = fold turn_input demo_updates (\<lambda>c. (None, Unseen))"
    using open_calls_refine [OF demo_bridge_new] by blast
  have "fold turn_input demo_updates (\<lambda>c. (None, Unseen)) ''c1'' = (Some ''read'', Running (Some ''read''))" by code_simp
  moreover have "fold turn_input demo_updates (\<lambda>c. (None, Unseen)) ''c0'' = (Some ''edit'', Ended)" by code_simp
  ultimately show ?thesis by (simp add: *)
qed

text \<open>A refused host read is attributed to a call only when, by the updates of the turn, that call is
  running, has declared a read-like kind, and no other call is running.\<close>

theorem denial_binds_sole_call:
  assumes "new_bridge fs caps ws = Some b"
    "sole_open_call_if_kind READ_KINDS (fst (bridge_run is b)) = Some c"
  shows "(\<exists>k \<in> READ_KINDS. snd (fold turn_input is (\<lambda>c. (None, Unseen)) c) = Running (Some k)) \<and>
    (\<forall>c' k'. snd (fold turn_input is (\<lambda>c. (None, Unseen)) c') = Running k' \<longrightarrow> c' = c)"
proof -
  note fresh = new_bridge_fresh [OF assms(1)]
  note sole = sole_open_turn [OF assms(2) bridge_run_wf [OF fresh]]
  have "turn_of (fst (bridge_run is b)) = fold turn_input is (\<lambda>c. (None, Unseen))"
    using bridge_run_turn [OF sole(1)] fresh_turn [OF fresh] by simp
  then show ?thesis using sole(2,3) by auto
qed

theorem denial_binds_sole_call_witness:
  "\<exists>k. k \<in> READ_KINDS \<and> snd (fold turn_input demo_updates (\<lambda>c. (None, Unseen)) ''c1'') = Running (Some k)"
proof -
  have "sole_open_call_if_kind READ_KINDS (fst (bridge_run demo_updates demo_bridge)) = Some ''c1''" by code_simp
  then show ?thesis using denial_binds_sole_call [OF demo_bridge_new] by blast
qed

text \<open>A declared location is canonicalized to a path whose anchor the host settled, with no step
  back, no component that is a link or unreadable and no plain file in the middle; canonicalizing the
  answer again gives the same answer.\<close>

theorem location_walk_canonical:
  assumes "canonicalize_past_absence h p = Some q"
  shows "canonical h q \<and> canonicalize_past_absence h q = Some q"
  using canonicalize_canonical [OF assms] canonicalize_fixed by auto

definition demo_host :: host where
  "demo_host =
     \<lparr>h_node = (\<lambda>p. if p = (Root, [''w'']) then Directory
                else if p = (Root, [''w'', ''l'']) then Symlink (Double_Root, [''w'', ''d''])
                else if p = (Root, [''w'', ''d'']) then Directory else Missing),
      h_double_root_same = Some True\<rparr>"

theorem location_walk_canonical_witness: "canonical demo_host (Root, [''w'', ''d'', ''new''])"
proof -
  have "canonicalize_past_absence demo_host (parse_path ''/w/l/gone/../new'') = Some (Root, [''w'', ''d'', ''new''])"
    by code_simp
  from location_walk_canonical [OF this] show ?thesis by simp
qed

end
