(* ===== verification/Config_Fidelity.thy ===== *)
theory Config_Fidelity
  imports ARS_Prelude
begin

text \<open>
  The exact-or-zero configuration machine of \<^verbatim>\<open>native_acp/config_fidelity.py\<close> and the sequence
  that drives it, \<^verbatim>\<open>set_config_exact\<close> of \<^verbatim>\<open>native_acp/driver.py\<close>.  An operation returns
  the machine it leaves and either an exception or its value; the text of a
  \<^verbatim>\<open>ConfigFidelityError\<close> is not modelled.
\<close>

datatype config_error = Config_Fidelity_Error | Config_Type_Error | Config_Assertion_Error | Config_Key_Error

type_synonym 'a config_result = "config_error + 'a"

section \<open>Fidelity modes\<close>

definition EFFORT_NOT_APPLICABLE :: string where
  "EFFORT_NOT_APPLICABLE = ''N/A''"

definition FIDELITY_SEPARATE_SELECTORS :: string where
  "FIDELITY_SEPARATE_SELECTORS = ''separate-selectors''"

definition FIDELITY_MODEL_ONLY :: string where
  "FIDELITY_MODEL_ONLY = ''model-only''"

definition FIDELITY_PARAMETERIZED :: string where
  "FIDELITY_PARAMETERIZED = ''parameterized''"

definition FIDELITY_MODES :: "string list" where
  "FIDELITY_MODES = [FIDELITY_SEPARATE_SELECTORS, FIDELITY_MODEL_ONLY, FIDELITY_PARAMETERIZED]"

definition WHOLE_CONFIGURATION_MODES :: "string list" where
  "WHOLE_CONFIGURATION_MODES = [FIDELITY_MODEL_ONLY, FIDELITY_PARAMETERIZED]"

definition validate_fidelity_pairing :: "string \<Rightarrow> string option \<Rightarrow> string \<Rightarrow> unit config_result" where
  "validate_fidelity_pairing mode effort_selector effort =
     (if mode \<notin> set FIDELITY_MODES then Inl Config_Fidelity_Error
      else if mode \<in> set WHOLE_CONFIGURATION_MODES then
        (if effort_selector \<noteq> None then Inl Config_Fidelity_Error
         else if effort \<noteq> EFFORT_NOT_APPLICABLE then Inl Config_Fidelity_Error
         else Inr ())
      else if effort_selector = None \<or> effort_selector = Some [] then Inl Config_Fidelity_Error
      else Inr ())"

section \<open>The parameterized model literal\<close>

definition STRUCTURAL :: string where
  "STRUCTURAL = ''[],=''"

type_synonym parameters = "(string \<times> string) list"

record parameterized_model =
  pm_base :: string
  pm_parameters :: parameters

definition compose_parameterized_model :: "string \<Rightarrow> parameters \<Rightarrow> string" where
  "compose_parameterized_model base ps =
     (if ps = [] then base
      else base @ ''['' @ join_with '','' (map (\<lambda>(i, v). i @ ''='' @ v) ps) @ '']'')"

text \<open>\<^verbatim>\<open>str.split\<close> on one character, and \<^verbatim>\<open>str.partition\<close> at its first occurrence.\<close>

fun split_on :: "char \<Rightarrow> string \<Rightarrow> string list" where
  "split_on c [] = [[]]"
| "split_on c (x # xs) =
     (if x = c then [] # split_on c xs
      else (case split_on c xs of [] \<Rightarrow> [[x]] | w # ws \<Rightarrow> (x # w) # ws))"

definition partition_at :: "char \<Rightarrow> string \<Rightarrow> string \<times> bool \<times> string" where
  "partition_at c s = (takeWhile (\<lambda>x. x \<noteq> c) s, c \<in> set s, drop 1 (dropWhile (\<lambda>x. x \<noteq> c) s))"

definition no_structural :: "string \<Rightarrow> bool" where
  "no_structural s \<longleftrightarrow> set s \<inter> set STRUCTURAL = {}"

fun parse_assignments :: "string list \<Rightarrow> string list \<Rightarrow> parameters config_result" where
  "parse_assignments seen [] = Inr []"
| "parse_assignments seen (a # as) =
     (case partition_at (CHR ''='') a of (config_id, assign, value) \<Rightarrow>
        if \<not> assign \<or> config_id = [] \<or> value = [] \<or> \<not> no_structural config_id \<or> \<not> no_structural value
        then Inl Config_Fidelity_Error
        else if config_id \<in> set seen then Inl Config_Fidelity_Error
        else (case parse_assignments (config_id # seen) as of
                Inl e \<Rightarrow> Inl e
              | Inr ps \<Rightarrow> Inr ((config_id, value) # ps)))"

definition parse_parameterized_model :: "string \<Rightarrow> parameterized_model config_result" where
  "parse_parameterized_model literal =
     (if literal = [] then Inl Config_Fidelity_Error
      else
        (let base = takeWhile (\<lambda>c. c \<noteq> CHR ''['') literal;
             rest = dropWhile (\<lambda>c. c \<noteq> CHR ''['') literal in
         if rest \<noteq> [] \<and> last literal \<noteq> CHR '']'' then Inl Config_Fidelity_Error
         else if base = [] \<or> CHR '']'' \<in> set base then Inl Config_Fidelity_Error
         else if rest = [] then Inr \<lparr>pm_base = base, pm_parameters = []\<rparr>
         else
           (let body = butlast (tl rest) in
            if body = [] then Inl Config_Fidelity_Error
            else (case parse_assignments [] (split_on (CHR '','') body) of
                    Inl e \<Rightarrow> Inl e
                  | Inr ps \<Rightarrow> Inr \<lparr>pm_base = base, pm_parameters = ps\<rparr>))))"

section \<open>Advertised options\<close>

record config_option =
  co_current_value :: pyval
  co_choices :: "string list"
  co_is_select :: bool

type_synonym option_set = "(string \<times> config_option) list"

text \<open>\<^verbatim>\<open>for x in v\<close>: the elements, or a \<^verbatim>\<open>TypeError\<close>.\<close>

fun py_iter :: "pyval \<Rightarrow> pyval list option" where
  "py_iter (PList xs) = Some xs"
| "py_iter (PDict d) = Some (map (PStr \<circ> fst) d)"
| "py_iter (PStr s) = Some (map (\<lambda>c. PStr [c]) s)"
| "py_iter v = None"

fun entry_value :: "pyval \<Rightarrow> string list" where
  "entry_value (PDict d) = (case dget d ''value'' of PStr s \<Rightarrow> [s] | _ \<Rightarrow> [])"
| "entry_value v = []"

fun entry_choices :: "pyval \<Rightarrow> string list" where
  "entry_choices (PDict d) =
     (case dget d ''value'' of
        PStr s \<Rightarrow> [s]
      | _ \<Rightarrow> (case dget d ''options'' of PList nested \<Rightarrow> concat (map entry_value nested) | _ \<Rightarrow> []))"
| "entry_choices v = []"

definition parse_option :: "pydict \<Rightarrow> (string \<times> config_option) config_result" where
  "parse_option payload =
     (case dget payload ''id'' of
        PStr (c # cs) \<Rightarrow>
          (let raw = dget payload ''options'';
               select = (dget payload ''type'' = PStr ''select'' \<or> \<not> has_key ''type'' payload \<and> is_list raw) in
           if \<not> select then
             Inr (c # cs, \<lparr>co_current_value = dget payload ''currentValue'', co_choices = [], co_is_select = False\<rparr>)
           else (case py_iter raw of
                   None \<Rightarrow> Inl Config_Type_Error
                 | Some entries \<Rightarrow>
                     Inr (c # cs, \<lparr>co_current_value = dget payload ''currentValue'',
                                  co_choices = concat (map entry_choices entries), co_is_select = True\<rparr>)))
      | _ \<Rightarrow> Inl Config_Fidelity_Error)"

fun parse_payloads :: "option_set \<Rightarrow> pydict list \<Rightarrow> option_set config_result" where
  "parse_payloads parsed [] = Inr parsed"
| "parse_payloads parsed (p # ps) =
     (case parse_option p of
        Inl e \<Rightarrow> Inl e
      | Inr (i, opt) \<Rightarrow> parse_payloads (dset i opt parsed) ps)"

definition parse_options :: "pydict list option \<Rightarrow> option_set config_result" where
  "parse_options options = (case options of None \<Rightarrow> Inl Config_Fidelity_Error | Some ps \<Rightarrow> parse_payloads [] ps)"

definition current_value :: "option_set \<Rightarrow> string \<Rightarrow> pyval" where
  "current_value parsed i = (case map_of parsed i of None \<Rightarrow> PNone | Some opt \<Rightarrow> co_current_value opt)"

definition advertises :: "option_set \<Rightarrow> string \<Rightarrow> string \<Rightarrow> bool" where
  "advertises parsed i v \<longleftrightarrow>
     (case map_of parsed i of None \<Rightarrow> False | Some opt \<Rightarrow> co_is_select opt \<and> v \<in> set (co_choices opt))"

section \<open>The machine\<close>

datatype phase_name = Init | Initial_Options | Mode_Planned | Post_Mode | Model_Planned | Post_Model
  | Effort_Planned | Parameter_Planned | Post_Parameter | Verified

record machine =
  fidelity_mode :: string
  model_selector_id :: string
  effort_selector_id :: "string option"
  requested_model :: string
  requested_effort :: string
  permission_mode_selector_id :: "string option"
  required_permission_mode :: "string option"
  parameterized :: "parameterized_model option"
  pending_parameters :: parameters
  planned_parameter :: "(string \<times> string) option"
  effective_model :: "string option"
  phase :: phase_name
  initial_options :: "option_set option"
  post_mode_options :: "option_set option"
  post_model_options :: "option_set option"
  snapshots :: "(string \<times> pydict list) list"

definition new_machine ::
  "string \<Rightarrow> string \<Rightarrow> string option \<Rightarrow> string \<Rightarrow> string \<Rightarrow> string option \<Rightarrow> string option \<Rightarrow> machine config_result" where
  "new_machine mode model_id effort_id model effort perm_id perm_mode =
     (if (perm_id = None) \<noteq> (perm_mode = None) then Inl Config_Fidelity_Error
      else (case validate_fidelity_pairing mode effort_id effort of
        Inl e \<Rightarrow> Inl e
      | Inr _ \<Rightarrow>
        (let m = \<lparr>fidelity_mode = mode, model_selector_id = model_id, effort_selector_id = effort_id,
                  requested_model = model, requested_effort = effort, permission_mode_selector_id = perm_id,
                  required_permission_mode = perm_mode, parameterized = None, pending_parameters = [],
                  planned_parameter = None, effective_model = None, phase = Init, initial_options = None,
                  post_mode_options = None, post_model_options = None, snapshots = []\<rparr> in
         if mode \<noteq> FIDELITY_PARAMETERIZED then Inr m
         else (case parse_parameterized_model model of
                 Inl e \<Rightarrow> Inl e
               | Inr pm \<Rightarrow>
                   if \<exists>p \<in> set (pm_parameters pm). fst p = model_id \<or> Some (fst p) = perm_id
                   then Inl Config_Fidelity_Error
                   else Inr (m\<lparr>parameterized := Some pm, pending_parameters := pm_parameters pm\<rparr>)))))"

definition is_model_only :: "machine \<Rightarrow> bool" where
  "is_model_only m \<longleftrightarrow> fidelity_mode m = FIDELITY_MODEL_ONLY"

definition is_parameterized :: "machine \<Rightarrow> bool" where
  "is_parameterized m \<longleftrightarrow> fidelity_mode m = FIDELITY_PARAMETERIZED"

definition is_whole_configuration :: "machine \<Rightarrow> bool" where
  "is_whole_configuration m \<longleftrightarrow> fidelity_mode m \<in> set WHOLE_CONFIGURATION_MODES"

definition model_selector_value :: "machine \<Rightarrow> string" where
  "model_selector_value m = (case parameterized m of Some pm \<Rightarrow> pm_base pm | None \<Rightarrow> requested_model m)"

definition has_permission_mode :: "machine \<Rightarrow> bool" where
  "has_permission_mode m \<longleftrightarrow> permission_mode_selector_id m \<noteq> None"

definition record_snapshot :: "string \<Rightarrow> pydict list option \<Rightarrow> machine \<Rightarrow> machine" where
  "record_snapshot label options m =
     m\<lparr>snapshots := snapshots m @ [(label, case options of None \<Rightarrow> [] | Some ps \<Rightarrow> ps)]\<rparr>"

definition record_initial_options :: "pydict list option \<Rightarrow> machine \<Rightarrow> machine \<times> unit config_result" where
  "record_initial_options options m =
     (if phase m \<noteq> Init then (m, Inl Config_Fidelity_Error)
      else (case parse_options options of
              Inl e \<Rightarrow> (m, Inl e)
            | Inr parsed \<Rightarrow>
                ((record_snapshot ''initial'' options (m\<lparr>initial_options := Some parsed\<rparr>))\<lparr>phase := Initial_Options\<rparr>,
                 Inr ())))"

definition permission_mode_plan :: "machine \<Rightarrow> machine \<times> string config_result" where
  "permission_mode_plan m =
     (case permission_mode_selector_id m of
        None \<Rightarrow> (m, Inl Config_Fidelity_Error)
      | Some selector \<Rightarrow>
          if phase m \<noteq> Initial_Options then (m, Inl Config_Fidelity_Error)
          else (case initial_options m of
                  None \<Rightarrow> (m, Inl Config_Assertion_Error)
                | Some parsed \<Rightarrow>
                    (case required_permission_mode m of
                       None \<Rightarrow> (m, Inl Config_Fidelity_Error)
                     | Some mode \<Rightarrow>
                         if advertises parsed selector mode then (m\<lparr>phase := Mode_Planned\<rparr>, Inr selector)
                         else (m, Inl Config_Fidelity_Error))))"

text \<open>\<^verbatim>\<open>_require_permission_mode_exact\<close>; its callers have a declared selector.\<close>

definition permission_mode_exact :: "option_set \<Rightarrow> machine \<Rightarrow> bool" where
  "permission_mode_exact parsed m \<longleftrightarrow>
     (case permission_mode_selector_id m of
        None \<Rightarrow> True
      | Some selector \<Rightarrow> current_value parsed selector = pstr_opt (required_permission_mode m))"

definition record_post_mode_options :: "pydict list option \<Rightarrow> machine \<Rightarrow> machine \<times> unit config_result" where
  "record_post_mode_options options m =
     (if phase m \<noteq> Mode_Planned then (m, Inl Config_Fidelity_Error)
      else (case parse_options options of
              Inl e \<Rightarrow> (m, Inl e)
            | Inr parsed \<Rightarrow>
                (let m1 = record_snapshot ''post_mode'' options m in
                 if permission_mode_selector_id m = None then (m1, Inl Config_Assertion_Error)
                 else if \<not> permission_mode_exact parsed m then (m1, Inl Config_Fidelity_Error)
                 else (m1\<lparr>post_mode_options := Some parsed, phase := Post_Mode\<rparr>, Inr ()))))"

definition model_plan :: "machine \<Rightarrow> machine \<times> string config_result" where
  "model_plan m =
     (let (wanted, discovered) =
            (if permission_mode_selector_id m = None then (Initial_Options, initial_options m)
             else (Post_Mode, post_mode_options m)) in
      if phase m \<noteq> wanted then (m, Inl Config_Fidelity_Error)
      else (case discovered of
              None \<Rightarrow> (m, Inl Config_Assertion_Error)
            | Some parsed \<Rightarrow>
                if advertises parsed (model_selector_id m) (model_selector_value m)
                then (m\<lparr>phase := Model_Planned\<rparr>, Inr (model_selector_id m))
                else (m, Inl Config_Fidelity_Error)))"

definition model_exact :: "option_set \<Rightarrow> machine \<Rightarrow> bool" where
  "model_exact parsed m \<longleftrightarrow> current_value parsed (model_selector_id m) = PStr (model_selector_value m)"

definition owned_ids :: "machine \<Rightarrow> string list" where
  "owned_ids m = model_selector_id m # (case permission_mode_selector_id m of None \<Rightarrow> [] | Some s \<Rightarrow> [s])"

definition requested_parameters :: "machine \<Rightarrow> parameters" where
  "requested_parameters m = (case parameterized m of Some pm \<Rightarrow> pm_parameters pm | None \<Rightarrow> [])"

definition parameter_ids_exact :: "option_set \<Rightarrow> machine \<Rightarrow> bool" where
  "parameter_ids_exact parsed m \<longleftrightarrow>
     fst ` set parsed - set (owned_ids m) = fst ` set (requested_parameters m)"

fun observe_parameters :: "option_set \<Rightarrow> parameters \<Rightarrow> parameters config_result" where
  "observe_parameters parsed [] = Inr []"
| "observe_parameters parsed ((i, v) # ps) =
     (case map_of parsed i of
        None \<Rightarrow> Inl Config_Key_Error
      | Some opt \<Rightarrow>
          if co_current_value opt \<noteq> PStr v then Inl Config_Fidelity_Error
          else (case observe_parameters parsed ps of Inl e \<Rightarrow> Inl e | Inr rest \<Rightarrow> Inr ((i, v) # rest)))"

fun text_of :: "pyval \<Rightarrow> string" where
  "text_of (PStr s) = s"
| "text_of v = []"

definition verify_whole_configuration :: "option_set \<Rightarrow> machine \<Rightarrow> machine \<times> unit config_result" where
  "verify_whole_configuration parsed m =
     (case parameterized m of
        None \<Rightarrow> (m, Inl Config_Assertion_Error)
      | Some pm \<Rightarrow>
          if \<not> model_exact parsed m then (m, Inl Config_Fidelity_Error)
          else if \<not> parameter_ids_exact parsed m then (m, Inl Config_Fidelity_Error)
          else (case observe_parameters parsed (pm_parameters pm) of
                  Inl e \<Rightarrow> (m, Inl e)
                | Inr observed \<Rightarrow>
                    if \<not> permission_mode_exact parsed m then (m, Inl Config_Fidelity_Error)
                    else (m\<lparr>effective_model := Some (compose_parameterized_model
                                (text_of (current_value parsed (model_selector_id m))) observed),
                            phase := Verified\<rparr>, Inr ())))"

definition record_post_model_options :: "pydict list option \<Rightarrow> machine \<Rightarrow> machine \<times> unit config_result" where
  "record_post_model_options options m =
     (if phase m \<noteq> Model_Planned then (m, Inl Config_Fidelity_Error)
      else (case parse_options options of
        Inl e \<Rightarrow> (m, Inl e)
      | Inr parsed \<Rightarrow>
          if \<not> model_exact parsed m then (m, Inl Config_Fidelity_Error)
          else if is_whole_configuration m \<and> \<not> permission_mode_exact parsed m then (m, Inl Config_Fidelity_Error)
          else if is_parameterized m then
            (let m1 = record_snapshot ''post_model'' options m in
             if parameterized m = None then (m1, Inl Config_Assertion_Error)
             else if \<not> parameter_ids_exact parsed m then (m1, Inl Config_Fidelity_Error)
             else
               (let m2 = m1\<lparr>post_model_options := Some parsed\<rparr> in
                if pending_parameters m \<noteq> [] then (m2\<lparr>phase := Post_Model\<rparr>, Inr ())
                else verify_whole_configuration parsed m2))
          else
            ((record_snapshot ''post_model'' options (m\<lparr>post_model_options := Some parsed\<rparr>))
               \<lparr>phase := if is_model_only m then Verified else Post_Model\<rparr>, Inr ())))"

definition parameter_plan :: "machine \<Rightarrow> machine \<times> (string \<times> string) config_result" where
  "parameter_plan m =
     (if \<not> is_parameterized m then (m, Inl Config_Fidelity_Error)
      else if phase m \<noteq> Post_Model \<and> phase m \<noteq> Post_Parameter then (m, Inl Config_Fidelity_Error)
      else (case pending_parameters m of
              [] \<Rightarrow> (m, Inl Config_Fidelity_Error)
            | (i, v) # rest \<Rightarrow>
                (case post_model_options m of
                   None \<Rightarrow> (m, Inl Config_Assertion_Error)
                 | Some parsed \<Rightarrow>
                     if advertises parsed i v
                     then (m\<lparr>planned_parameter := Some (i, v), phase := Parameter_Planned\<rparr>, Inr (i, v))
                     else (m, Inl Config_Fidelity_Error))))"

definition record_post_parameter_options :: "pydict list option \<Rightarrow> machine \<Rightarrow> machine \<times> unit config_result" where
  "record_post_parameter_options options m =
     (if phase m \<noteq> Parameter_Planned then (m, Inl Config_Fidelity_Error)
      else (case planned_parameter m of
        None \<Rightarrow> (m, Inl Config_Assertion_Error)
      | Some (i, v) \<Rightarrow>
          (case parse_options options of
             Inl e \<Rightarrow> (m, Inl e)
           | Inr parsed \<Rightarrow>
               (let m1 = record_snapshot ''post_parameter'' options m in
                if \<not> model_exact parsed m then (m1, Inl Config_Fidelity_Error)
                else if current_value parsed i \<noteq> PStr v then (m1, Inl Config_Fidelity_Error)
                else
                  (let m2 = m1\<lparr>pending_parameters := tl (pending_parameters m), planned_parameter := None,
                               post_model_options := Some parsed\<rparr> in
                   if pending_parameters m2 \<noteq> [] then (m2\<lparr>phase := Post_Parameter\<rparr>, Inr ())
                   else verify_whole_configuration parsed m2)))))"

definition effort_plan :: "machine \<Rightarrow> machine \<times> string config_result" where
  "effort_plan m =
     (if is_whole_configuration m then (m, Inl Config_Fidelity_Error)
      else if phase m \<noteq> Post_Model then (m, Inl Config_Fidelity_Error)
      else (case (post_model_options m, effort_selector_id m) of
              (None, _) \<Rightarrow> (m, Inl Config_Assertion_Error)
            | (Some parsed, None) \<Rightarrow> (m, Inl Config_Fidelity_Error)
            | (Some parsed, Some selector) \<Rightarrow>
                if advertises parsed selector (requested_effort m)
                then (m\<lparr>phase := Effort_Planned\<rparr>, Inr selector)
                else (m, Inl Config_Fidelity_Error)))"

definition effort_exact :: "option_set \<Rightarrow> machine \<Rightarrow> bool" where
  "effort_exact parsed m \<longleftrightarrow>
     (case effort_selector_id m of
        None \<Rightarrow> False
      | Some selector \<Rightarrow> current_value parsed selector = PStr (requested_effort m))"

definition record_post_effort_options :: "pydict list option \<Rightarrow> machine \<Rightarrow> machine \<times> unit config_result" where
  "record_post_effort_options options m =
     (if is_whole_configuration m then (m, Inl Config_Fidelity_Error)
      else if phase m \<noteq> Effort_Planned then (m, Inl Config_Fidelity_Error)
      else (case parse_options options of
              Inl e \<Rightarrow> (m, Inl e)
            | Inr parsed \<Rightarrow>
                (let m1 = record_snapshot ''post_effort'' options m in
                 if current_value parsed (model_selector_id m) \<noteq> PStr (requested_model m)
                 then (m1, Inl Config_Fidelity_Error)
                 else if \<not> effort_exact parsed m then (m1, Inl Config_Fidelity_Error)
                 else if \<not> permission_mode_exact parsed m then (m1, Inl Config_Fidelity_Error)
                 else (m1\<lparr>phase := Verified\<rparr>, Inr ()))))"

definition record_option_update :: "pydict list \<Rightarrow> machine \<Rightarrow> machine" where
  "record_option_update options m = record_snapshot ''option_update'' (Some options) m"

definition require_ready :: "machine \<Rightarrow> (string \<times> string) config_result" where
  "require_ready m =
     (if phase m \<noteq> Verified then Inl Config_Fidelity_Error
      else (case effective_model m of
              Some model \<Rightarrow> Inr (model, requested_effort m)
            | None \<Rightarrow> Inr (requested_model m, requested_effort m)))"

end
