(* ===== verification/Config_Props.thy ===== *)
theory Config_Props
  imports Config_Fidelity
begin

text \<open>The configuration machine: the grammar of the parameterized literal, what a verified machine has
  seen, the order of its legs, and the driver's sequence over an agent.\<close>

section \<open>Splitting and joining\<close>

lemma split_on_nonempty [simp]: "split_on c s \<noteq> []"
  by (induction s) (auto split: list.splits)

lemma join_split_on: "join_with [c] (split_on c s) = s"
proof (induction s)
  case (Cons x xs)
  obtain w ws where w: "split_on c xs = w # ws" by (cases "split_on c xs") auto
  show ?case using Cons w by (cases ws) auto
qed simp

lemma split_on_free: "c \<notin> set w \<Longrightarrow> split_on c w = [w]"
  by (induction w) auto

lemma split_on_append: "c \<notin> set w \<Longrightarrow> split_on c (w @ c # s) = w # split_on c s"
  by (induction w) auto

lemma split_on_join:
  "ws \<noteq> [] \<Longrightarrow> (\<And>w. w \<in> set ws \<Longrightarrow> c \<notin> set w) \<Longrightarrow> split_on c (join_with [c] ws) = ws"
proof (induction "[c]" ws rule: join_with.induct)
  case (2 x)
  then show ?case by (simp add: split_on_free)
next
  case (3 x y xs)
  then show ?case by (simp add: split_on_append)
qed simp

section \<open>The literal\<close>

definition assignment_ok :: "string \<times> string \<Rightarrow> bool" where
  "assignment_ok p \<longleftrightarrow> fst p \<noteq> [] \<and> snd p \<noteq> [] \<and> no_structural (fst p) \<and> no_structural (snd p)"

definition literal_ok :: "parameterized_model \<Rightarrow> bool" where
  "literal_ok pm \<longleftrightarrow>
     pm_base pm \<noteq> [] \<and> CHR ''['' \<notin> set (pm_base pm) \<and> CHR '']'' \<notin> set (pm_base pm) \<and>
     (\<forall>p \<in> set (pm_parameters pm). assignment_ok p) \<and> distinct (map fst (pm_parameters pm))"

definition assignment_text :: "string \<times> string \<Rightarrow> string" where
  "assignment_text p = fst p @ ''='' @ snd p"

lemma compose_alt:
  "compose_parameterized_model b ps =
   (if ps = [] then b else b @ ''['' @ join_with '','' (map assignment_text ps) @ '']'')"
proof -
  have "map (\<lambda>(i, v). i @ ''='' @ v) ps = map assignment_text ps"
    by (auto simp: assignment_text_def)
  then show ?thesis by (simp only: compose_parameterized_model_def)
qed

lemma partition_rebuild: "partition_at c s = (a, True, v) \<Longrightarrow> s = a @ c # v"
proof -
  assume *: "partition_at c s = (a, True, v)"
  then have "dropWhile (\<lambda>x. x \<noteq> c) s \<noteq> []" by (auto simp: partition_at_def)
  then obtain x xs where x: "dropWhile (\<lambda>x. x \<noteq> c) s = x # xs" by (meson neq_Nil_conv)
  then have "x = c" using hd_dropWhile [of "\<lambda>x. x \<noteq> c" s] by simp
  then show ?thesis using * x takeWhile_dropWhile_id [of "\<lambda>x. x \<noteq> c" s] by (auto simp: partition_at_def)
qed

lemma partition_text:
  "CHR ''='' \<notin> set (fst p) \<Longrightarrow> partition_at (CHR ''='') (assignment_text p) = (fst p, True, snd p)"
  by (simp add: partition_at_def assignment_text_def takeWhile_append dropWhile_append)

lemma no_structural_assign: "no_structural s \<Longrightarrow> CHR ''='' \<notin> set s" "no_structural s \<Longrightarrow> CHR '','' \<notin> set s"
  by (auto simp: no_structural_def STRUCTURAL_def)

lemma parse_assignments_sound:
  "parse_assignments seen as = Inr ps \<Longrightarrow>
   map assignment_text ps = as \<and> (\<forall>p \<in> set ps. assignment_ok p) \<and> distinct (map fst ps) \<and> set seen \<inter> fst ` set ps = {}"
proof (induction seen as arbitrary: ps rule: parse_assignments.induct)
  case (2 seen a as)
  obtain i assign v where part: "partition_at (CHR ''='') a = (i, assign, v)" by (cases "partition_at (CHR ''='') a") auto
  with 2(2) obtain rest where rest: "parse_assignments (i # seen) as = Inr rest" "ps = (i, v) # rest" "assign"
      "assignment_ok (i, v)" "i \<notin> set seen"
    by (auto simp: assignment_ok_def split: if_splits sum.splits)
  have "a = assignment_text (i, v)" using partition_rebuild part rest(3) by (auto simp: assignment_text_def)
  moreover have "map assignment_text rest = as \<and> (\<forall>p \<in> set rest. assignment_ok p) \<and> distinct (map fst rest) \<and>
      set (i # seen) \<inter> fst ` set rest = {}"
    using 2(1) [OF part [symmetric] refl _ _ rest(1)] rest by (auto simp: assignment_ok_def)
  ultimately show ?case using rest by auto
qed simp

lemma parse_assignments_complete:
  "(\<forall>p \<in> set ps. assignment_ok p) \<Longrightarrow> distinct (map fst ps) \<Longrightarrow> set seen \<inter> fst ` set ps = {} \<Longrightarrow>
   parse_assignments seen (map assignment_text ps) = Inr ps"
proof (induction ps arbitrary: seen)
  case (Cons p ps)
  have "partition_at (CHR ''='') (assignment_text p) = (fst p, True, snd p)"
    using Cons.prems by (simp add: partition_text assignment_ok_def no_structural_assign)
  moreover have "parse_assignments (fst p # seen) (map assignment_text ps) = Inr ps"
    using Cons.prems by (intro Cons.IH) auto
  ultimately show ?case using Cons.prems by (auto simp: assignment_ok_def)
qed simp

lemma bracket_split:
  assumes "CHR ''['' \<notin> set b"
  shows "takeWhile (\<lambda>c. c \<noteq> CHR ''['') (b @ CHR ''['' # t) = b"
    "dropWhile (\<lambda>c. c \<noteq> CHR ''['') (b @ CHR ''['' # t) = CHR ''['' # t"
  using assms by (auto simp: takeWhile_append dropWhile_append)

lemma parse_complete:
  assumes "literal_ok pm"
  shows "parse_parameterized_model (compose_parameterized_model (pm_base pm) (pm_parameters pm)) = Inr pm"
proof (cases "pm_parameters pm")
  case Nil
  then have whole: "takeWhile (\<lambda>c. c \<noteq> CHR ''['') (pm_base pm) = pm_base pm" "dropWhile (\<lambda>c. c \<noteq> CHR ''['') (pm_base pm) = []"
    using assms by (auto simp: literal_ok_def takeWhile_eq_all_conv dropWhile_eq_Nil_conv)
  show ?thesis using assms Nil
    by (simp add: parse_parameterized_model_def compose_alt literal_ok_def Let_def whole)
next
  case (Cons p ps)
  let ?body = "join_with '','' (map assignment_text (pm_parameters pm))"
  have commas: "CHR '','' \<notin> set w" if "w \<in> set (map assignment_text (pm_parameters pm))" for w
    using that assms no_structural_assign(2) by (fastforce simp: literal_ok_def assignment_ok_def assignment_text_def)
  have split: "split_on (CHR '','') ?body = map assignment_text (pm_parameters pm)"
    by (rule split_on_join) (use Cons commas in auto)
  have "?body \<noteq> []" using Cons by (cases ps) (auto simp: assignment_text_def)
  moreover have "parse_assignments [] (map assignment_text (pm_parameters pm)) = Inr (pm_parameters pm)"
    using assms by (intro parse_assignments_complete) (auto simp: literal_ok_def)
  moreover have "compose_parameterized_model (pm_base pm) (pm_parameters pm) = pm_base pm @ CHR ''['' # (?body @ '']'')"
    using Cons by (simp add: compose_alt)
  moreover note bracket_split [of "pm_base pm" "?body @ '']''"]
  ultimately show ?thesis using assms split
    by (simp add: parse_parameterized_model_def Let_def literal_ok_def butlast_append)
qed

lemma parse_sound:
  assumes "parse_parameterized_model s = Inr pm"
  shows "literal_ok pm \<and> compose_parameterized_model (pm_base pm) (pm_parameters pm) = s"
proof -
  let ?b = "takeWhile (\<lambda>c. c \<noteq> CHR ''['') s" and ?r = "dropWhile (\<lambda>c. c \<noteq> CHR ''['') s"
  have s: "s = ?b @ ?r" by simp
  have b: "CHR ''['' \<notin> set ?b" by (auto dest: set_takeWhileD)
  show ?thesis
  proof (cases "?r")
    case Nil
    then have whole: "?b = s" by (metis append_Nil2 takeWhile_dropWhile_id)
    then have "CHR ''['' \<notin> set s" using b by auto
    then show ?thesis using assms
      by (auto simp: whole Nil parse_parameterized_model_def Let_def literal_ok_def compose_alt split: if_splits)
  next
    case (Cons x t)
    have x: "x = CHR ''[''" using hd_dropWhile [of "\<lambda>c. c \<noteq> CHR ''[''" s] Cons by simp
    have ends: "last s = CHR '']''" and base: "?b \<noteq> []" "CHR '']'' \<notin> set ?b" and body: "butlast t \<noteq> []"
      using assms Cons by (auto simp: parse_parameterized_model_def Let_def split: if_splits)
    then obtain ps where ps: "parse_assignments [] (split_on (CHR '','') (butlast t)) = Inr ps"
        "pm = \<lparr>pm_base = ?b, pm_parameters = ps\<rparr>"
      using assms Cons by (auto simp: parse_parameterized_model_def Let_def split: if_splits sum.splits)
    note sound = parse_assignments_sound [OF ps(1)]
    have "last t = CHR '']''" using ends s Cons body by (metis last_appendR last_ConsR butlast.simps(1) list.simps(3))
    then have t: "t = butlast t @ '']''" using body by (metis append_butlast_last_id butlast.simps(1))
    have "ps \<noteq> []" using sound split_on_nonempty by (metis list.map_disc_iff)
    moreover have "join_with '','' (map assignment_text ps) = butlast t" using sound join_split_on by metis
    ultimately have "compose_parameterized_model (pm_base pm) (pm_parameters pm) = s"
      using ps(2) s Cons x t by (simp add: compose_alt)
    then show ?thesis using sound base b ps(2) by (simp add: literal_ok_def)
  qed
qed

section \<open>The invariant of the machine\<close>

text \<open>What construction fixes: the pairing of mode and effort, and the parsed literal.\<close>

definition request_ok :: "machine \<Rightarrow> bool" where
  "request_ok m \<longleftrightarrow>
     validate_fidelity_pairing (fidelity_mode m) (effort_selector_id m) (requested_effort m) = Inr () \<and>
     (permission_mode_selector_id m = None) = (required_permission_mode m = None) \<and>
     (case parameterized m of
        None \<Rightarrow> \<not> is_parameterized m
      | Some pm \<Rightarrow> is_parameterized m \<and> parse_parameterized_model (requested_model m) = Inr pm)"

text \<open>What each phase rests on.\<close>

definition phase_ok :: "machine \<Rightarrow> bool" where
  "phase_ok m \<longleftrightarrow>
     (case phase m of
        Initial_Options \<Rightarrow> initial_options m \<noteq> None
      | Mode_Planned \<Rightarrow> permission_mode_selector_id m \<noteq> None
      | Post_Mode \<Rightarrow> permission_mode_selector_id m \<noteq> None \<and> post_mode_options m \<noteq> None
      | Post_Model \<Rightarrow> post_model_options m \<noteq> None
      | Post_Parameter \<Rightarrow> post_model_options m \<noteq> None
      | Parameter_Planned \<Rightarrow>
          planned_parameter m =
            (case pending_parameters m of [] \<Rightarrow> None \<comment> \<open>the final readback was refused\<close> | p # _ \<Rightarrow> Some p)
      | _ \<Rightarrow> True)"

text \<open>The configuration read back in one complete set.\<close>

definition exact_set :: "option_set \<Rightarrow> machine \<Rightarrow> bool" where
  "exact_set parsed m \<longleftrightarrow>
     model_exact parsed m \<and> permission_mode_exact parsed m \<and>
     (is_whole_configuration m \<or> effort_exact parsed m) \<and>
     (\<not> is_parameterized m \<or>
        parameter_ids_exact parsed m \<and> (\<forall>(i, v) \<in> set (requested_parameters m). current_value parsed i = PStr v))"

definition answered :: "machine \<Rightarrow> (string \<times> pydict list) list" where
  "answered m = filter (\<lambda>p. fst p \<noteq> ''option_update'') (snapshots m)"

definition last_answer_exact :: "machine \<Rightarrow> bool" where
  "last_answer_exact m \<longleftrightarrow>
     answered m \<noteq> [] \<and>
     (case parse_options (Some (snd (last (answered m)))) of Inl _ \<Rightarrow> False | Inr parsed \<Rightarrow> exact_set parsed m)"

definition machine_ok :: "machine \<Rightarrow> bool" where
  "machine_ok m \<longleftrightarrow>
     request_ok m \<and> phase_ok m \<and> (effective_model m = None \<or> effective_model m = Some (requested_model m)) \<and>
     (phase m = Verified \<longrightarrow> last_answer_exact m)"

lemma request_ok_whole:
  "request_ok m \<Longrightarrow> is_whole_configuration m \<longleftrightarrow> is_model_only m \<or> is_parameterized m"
  by (auto simp: is_whole_configuration_def WHOLE_CONFIGURATION_MODES_def is_model_only_def is_parameterized_def)

lemma new_machine_ok:
  "new_machine mode mid eid rm re pid pm = Inr m \<Longrightarrow>
   machine_ok m \<and> requested_model m = rm \<and> requested_effort m = re \<and> fidelity_mode m = mode \<and> phase m = Init"
  by (auto simp: new_machine_def machine_ok_def request_ok_def phase_ok_def is_parameterized_def Let_def
      split: if_splits sum.splits)

lemma parse_options_Some: "parse_options options = Inr parsed \<Longrightarrow> \<exists>ps. options = Some ps"
  by (cases options) (auto simp: parse_options_def)

lemma snapshot_answered:
  "l \<noteq> ''option_update'' \<Longrightarrow> snapshots m = snapshots m0 @ [(l, ps)] \<Longrightarrow> answered m = answered m0 @ [(l, ps)]"
  by (simp add: answered_def)

text \<open>The request of a machine: the fields no operation changes.\<close>

definition same_request :: "machine \<Rightarrow> machine \<Rightarrow> bool" where
  "same_request m m' \<longleftrightarrow>
     fidelity_mode m' = fidelity_mode m \<and> model_selector_id m' = model_selector_id m \<and>
     effort_selector_id m' = effort_selector_id m \<and> requested_model m' = requested_model m \<and>
     requested_effort m' = requested_effort m \<and> permission_mode_selector_id m' = permission_mode_selector_id m \<and>
     required_permission_mode m' = required_permission_mode m \<and> parameterized m' = parameterized m"

lemma same_request_refl [simp]: "same_request m m"
  by (simp add: same_request_def)

lemma same_request_trans: "same_request a b \<Longrightarrow> same_request b c \<Longrightarrow> same_request a c"
  by (simp add: same_request_def)

lemma same_request_ok: "same_request m m' \<Longrightarrow> request_ok m' = request_ok m"
  by (simp add: same_request_def request_ok_def is_parameterized_def cong: option.case_cong)

lemma same_request_exact: "same_request m m' \<Longrightarrow> exact_set parsed m' = exact_set parsed m"
  by (simp add: same_request_def exact_set_def model_exact_def model_selector_value_def permission_mode_exact_def
      is_whole_configuration_def effort_exact_def is_parameterized_def parameter_ids_exact_def owned_ids_def
      requested_parameters_def cong: option.case_cong)

lemma record_snapshot_simps [simp]:
  "same_request m (record_snapshot l os m')= same_request m m'"
  "phase (record_snapshot l os m) = phase m"
  "permission_mode_selector_id (record_snapshot l os m) = permission_mode_selector_id m"
  "initial_options (record_snapshot l os m) = initial_options m"
  "post_mode_options (record_snapshot l os m) = post_mode_options m"
  "post_model_options (record_snapshot l os m) = post_model_options m"
  "pending_parameters (record_snapshot l os m) = pending_parameters m"
  "planned_parameter (record_snapshot l os m) = planned_parameter m"
  "effective_model (record_snapshot l os m) = effective_model m"
  "snapshots (record_snapshot l os m) = snapshots m @ [(l, case os of None \<Rightarrow> [] | Some ps \<Rightarrow> ps)]"
  by (simp_all add: record_snapshot_def same_request_def)

section \<open>Operations\<close>

datatype machine_op = Record_Initial "pydict list option" | Plan_Mode | Record_Mode "pydict list option"
  | Plan_Model | Record_Model "pydict list option" | Plan_Parameter | Record_Parameter "pydict list option"
  | Plan_Effort | Record_Effort "pydict list option" | Option_Update "pydict list"

text \<open>An operation: the machine it leaves and the exception it raised, if any.\<close>

fun failure :: "'e + 'a \<Rightarrow> 'e option" where
  "failure (Inl e) = Some e"
| "failure (Inr _) = None"

fun machine_step :: "machine_op \<Rightarrow> machine \<Rightarrow> machine \<times> config_error option" where
  "machine_step (Record_Initial os) m = map_prod id failure (record_initial_options os m)"
| "machine_step Plan_Mode m = map_prod id failure (permission_mode_plan m)"
| "machine_step (Record_Mode os) m = map_prod id failure (record_post_mode_options os m)"
| "machine_step Plan_Model m = map_prod id failure (model_plan m)"
| "machine_step (Record_Model os) m = map_prod id failure (record_post_model_options os m)"
| "machine_step Plan_Parameter m = map_prod id failure (parameter_plan m)"
| "machine_step (Record_Parameter os) m = map_prod id failure (record_post_parameter_options os m)"
| "machine_step Plan_Effort m = map_prod id failure (effort_plan m)"
| "machine_step (Record_Effort os) m = map_prod id failure (record_post_effort_options os m)"
| "machine_step (Option_Update ps) m = (record_option_update ps m, None)"

lemmas machine_op_defs = record_initial_options_def permission_mode_plan_def record_post_mode_options_def
  model_plan_def record_post_model_options_def parameter_plan_def record_post_parameter_options_def
  effort_plan_def record_post_effort_options_def record_option_update_def

lemmas machine_splits = if_splits option.splits sum.splits prod.splits list.splits

lemma verify_same_request: "same_request m (fst (verify_whole_configuration parsed m))"
  by (auto simp: verify_whole_configuration_def same_request_def split: option.splits sum.splits)

lemma same_request_upd [simp]:
  "same_request m (m'\<lparr>phase := p\<rparr>) = same_request m m'"
  "same_request m (m'\<lparr>initial_options := x\<rparr>) = same_request m m'"
  "same_request m (m'\<lparr>post_mode_options := x\<rparr>) = same_request m m'"
  "same_request m (m'\<lparr>post_model_options := x\<rparr>) = same_request m m'"
  "same_request m (m'\<lparr>pending_parameters := x2\<rparr>) = same_request m m'"
  "same_request m (m'\<lparr>planned_parameter := x3\<rparr>) = same_request m m'"
  by (simp_all add: same_request_def)

lemma step_same_request: "same_request m (fst (machine_step op m))"
  by (cases op) (auto simp: machine_op_defs Let_def split: machine_splits
      intro!: same_request_trans [OF _ verify_same_request])

section \<open>Every operation keeps the invariant\<close>

lemma machine_ok_upd:
  assumes "machine_ok m" "same_request m m'" "phase_ok m'" "phase m' \<noteq> Verified"
    "effective_model m' = effective_model m"
  shows "machine_ok m'"
  using assms same_request_ok [of m m'] by (auto simp: machine_ok_def same_request_def)

lemma machine_ok_verified:
  assumes "machine_ok m" "same_request m m'" "phase m' = Verified"
    "effective_model m' = effective_model m \<or> effective_model m' = Some (requested_model m)"
    "l \<noteq> ''option_update''" "snapshots m' = snapshots m @ [(l, ps)]" "parse_options (Some ps) = Inr parsed"
    "exact_set parsed m"
  shows "machine_ok m'"
  using assms same_request_ok [of m m'] same_request_exact [of m m' parsed] snapshot_answered [of l m' m ps]
  by (auto simp: machine_ok_def same_request_def last_answer_exact_def phase_ok_def)

lemma observe_parameters_exact:
  "observe_parameters parsed ps = Inr obs \<Longrightarrow> obs = ps \<and> (\<forall>(i, v) \<in> set ps. current_value parsed i = PStr v)"
  by (induction parsed ps arbitrary: obs rule: observe_parameters.induct)
    (auto simp: current_value_def split: machine_splits)

lemma verify_ok:
  assumes "verify_whole_configuration parsed m = (m', Inr u)" "request_ok m"
  shows "m' = m\<lparr>effective_model := Some (requested_model m), phase := Verified\<rparr> \<and> exact_set parsed m"
proof -
  obtain pm obs where pm: "parameterized m = Some pm" "model_exact parsed m" "parameter_ids_exact parsed m"
      "observe_parameters parsed (pm_parameters pm) = Inr obs" "permission_mode_exact parsed m"
    and m': "m' = m\<lparr>effective_model := Some (compose_parameterized_model
                      (text_of (current_value parsed (model_selector_id m))) obs), phase := Verified\<rparr>"
    using assms(1) by (auto simp: verify_whole_configuration_def split: machine_splits)
  have par: "is_parameterized m" "parse_parameterized_model (requested_model m) = Inr pm"
    using assms(2) pm(1) by (auto simp: request_ok_def)
  have "current_value parsed (model_selector_id m) = PStr (pm_base pm)"
    using pm(1,2) by (simp add: model_exact_def model_selector_value_def)
  then have "m' = m\<lparr>effective_model := Some (requested_model m), phase := Verified\<rparr>"
    using m' parse_sound [OF par(2)] observe_parameters_exact [OF pm(4)] by simp
  moreover have "exact_set parsed m"
    using pm par(1) observe_parameters_exact [OF pm(4)] request_ok_whole [OF assms(2)]
    by (auto simp: exact_set_def requested_parameters_def)
  ultimately show ?thesis by simp
qed

lemma verify_fails: "verify_whole_configuration parsed m = (m', Inl e) \<Longrightarrow> m' = m"
  by (auto simp: verify_whole_configuration_def split: machine_splits)

lemma verify_machine_ok:
  assumes "machine_ok m0" "same_request m0 m" "phase m \<noteq> Verified" "phase_ok m" "effective_model m = effective_model m0"
    "l \<noteq> ''option_update''" "snapshots m = snapshots m0 @ [(l, ps)]" "parse_options (Some ps) = Inr parsed"
  shows "machine_ok (fst (verify_whole_configuration parsed m))"
proof (cases "snd (verify_whole_configuration parsed m)")
  case (Inl e)
  then have "fst (verify_whole_configuration parsed m) = m" using verify_fails by (metis prod.collapse)
  then show ?thesis using machine_ok_upd assms by metis
next
  case (Inr u)
  have "request_ok m" using assms(1,2) same_request_ok by (auto simp: machine_ok_def)
  with Inr verify_ok have v: "fst (verify_whole_configuration parsed m) =
      m\<lparr>effective_model := Some (requested_model m), phase := Verified\<rparr>" "exact_set parsed m"
    by (metis prod.collapse)+
  show ?thesis unfolding v(1)
    by (rule machine_ok_verified [OF assms(1) _ _ _ assms(6) _ assms(8)])
      (use assms v(2) same_request_exact [OF assms(2)] in \<open>auto simp: same_request_def\<close>)
qed

lemma update_ok: "machine_ok m \<Longrightarrow> machine_ok (record_option_update ps m)"
proof -
  assume ok: "machine_ok m"
  define m' where "m' = record_option_update ps m"
  have "same_request m m'" by (simp add: m'_def record_option_update_def)
  moreover have "answered m' = answered m" by (simp add: m'_def record_option_update_def answered_def)
  moreover have "phase_ok m' = phase_ok m" "effective_model m' = effective_model m" "phase m' = phase m"
    "requested_model m' = requested_model m"
    by (simp_all add: m'_def record_option_update_def phase_ok_def record_snapshot_def cong: phase_name.case_cong)
  ultimately have "machine_ok m'"
    using ok same_request_ok [of m m'] same_request_exact [of m m']
    by (simp add: machine_ok_def last_answer_exact_def split: sum.splits)
  then show ?thesis by (simp add: m'_def)
qed

lemma snapshot_ok: "machine_ok m \<Longrightarrow> phase m \<noteq> Verified \<Longrightarrow> machine_ok (record_snapshot l os m)"
  by (rule machine_ok_upd [of m]) (auto simp: machine_ok_def phase_ok_def split: phase_name.splits)

lemma record_initial_ok: "machine_ok m \<Longrightarrow> machine_ok (fst (record_initial_options os m))"
  by (auto simp: record_initial_options_def phase_ok_def intro!: machine_ok_upd [of m] split: sum.splits)

lemma plan_mode_ok: "machine_ok m \<Longrightarrow> machine_ok (fst (permission_mode_plan m))"
  by (auto simp: permission_mode_plan_def phase_ok_def intro!: machine_ok_upd [of m] split: option.splits)

lemma record_mode_ok: "machine_ok m \<Longrightarrow> machine_ok (fst (record_post_mode_options os m))"
  by (auto simp: record_post_mode_options_def Let_def snapshot_ok split: sum.splits)
    (auto simp: phase_ok_def intro!: machine_ok_upd [of m])

lemma plan_model_ok: "machine_ok m \<Longrightarrow> machine_ok (fst (model_plan m))"
  by (auto simp: model_plan_def phase_ok_def Let_def intro!: machine_ok_upd [of m] split: option.splits)

lemma plan_parameter_ok: "machine_ok m \<Longrightarrow> machine_ok (fst (parameter_plan m))"
  by (auto simp: parameter_plan_def phase_ok_def intro!: machine_ok_upd [of m] split: option.splits list.splits)

lemma plan_effort_ok: "machine_ok m \<Longrightarrow> machine_ok (fst (effort_plan m))"
  by (auto simp: effort_plan_def phase_ok_def intro!: machine_ok_upd [of m] split: option.splits)

lemma record_effort_ok:
  assumes "machine_ok m"
  shows "machine_ok (fst (record_post_effort_options os m))"
proof (cases "\<exists>m'. record_post_effort_options os m = (m', Inr ())")
  case True
  then obtain ps parsed where ps: "os = Some ps" "parse_options (Some ps) = Inr parsed" "\<not> is_whole_configuration m"
      "current_value parsed (model_selector_id m) = PStr (requested_model m)" "effort_exact parsed m"
      "permission_mode_exact parsed m" and m': "fst (record_post_effort_options os m) = (record_snapshot ''post_effort'' os m)\<lparr>phase := Verified\<rparr>"
    using parse_options_Some by (fastforce simp: record_post_effort_options_def Let_def split: if_splits sum.splits)
  have "\<not> is_parameterized m" using ps(3) assms request_ok_whole by (auto simp: machine_ok_def)
  moreover from this have "parameterized m = None"
    using assms by (auto simp: machine_ok_def request_ok_def split: option.splits)
  ultimately have "exact_set parsed m"
    using ps by (simp add: exact_set_def model_exact_def model_selector_value_def)
  then show ?thesis unfolding m'
    by (intro machine_ok_verified [OF assms _ _ _ _ _ ps(2)]) (auto simp: ps(1))
next
  case False
  then show ?thesis using assms
    by (auto simp: record_post_effort_options_def Let_def snapshot_ok split: if_splits sum.splits)
qed

lemma record_model_ok:
  assumes "machine_ok m"
  shows "machine_ok (fst (record_post_model_options os m))"
proof (cases "phase m = Model_Planned \<and> (\<exists>parsed. parse_options os = Inr parsed \<and> model_exact parsed m \<and>
      (is_whole_configuration m \<longrightarrow> permission_mode_exact parsed m))")
  case False
  then have "fst (record_post_model_options os m) = m"
    by (auto simp: record_post_model_options_def split: sum.splits)
  then show ?thesis using assms by simp
next
  case True
  then obtain ps parsed where ps: "phase m = Model_Planned" "os = Some ps" "parse_options (Some ps) = Inr parsed"
      "model_exact parsed m" "is_whole_configuration m \<longrightarrow> permission_mode_exact parsed m"
    using parse_options_Some by blast
  show ?thesis
  proof (cases "is_parameterized m")
    case True
    have "machine_ok (fst (verify_whole_configuration parsed ((record_snapshot ''post_model'' os m)\<lparr>post_model_options := Some parsed\<rparr>)))"
      by (rule verify_machine_ok [OF assms _ _ _ _ _ _ ps(3), of _ "''post_model''"]) (auto simp: ps(1,2) phase_ok_def)
    moreover have "machine_ok ((record_snapshot ''post_model'' os m)\<lparr>post_model_options := Some parsed, phase := Post_Model\<rparr>)"
      by (rule machine_ok_upd [OF assms]) (auto simp: phase_ok_def)
    ultimately show ?thesis using True ps assms
      by (simp add: record_post_model_options_def Let_def snapshot_ok)
  next
    case False
    have "machine_ok ((record_snapshot ''post_model'' os (m\<lparr>post_model_options := Some parsed\<rparr>))\<lparr>phase := Post_Model\<rparr>)"
      by (rule machine_ok_upd [OF assms]) (auto simp: phase_ok_def)
    moreover have "machine_ok ((record_snapshot ''post_model'' os (m\<lparr>post_model_options := Some parsed\<rparr>))\<lparr>phase := Verified\<rparr>)"
      if "is_model_only m"
    proof -
      have "exact_set parsed m" "is_whole_configuration m"
        using that False ps assms request_ok_whole [of m] by (auto simp: exact_set_def machine_ok_def)
      then show ?thesis
        by (intro machine_ok_verified [OF assms _ _ _ _ _ ps(3), of _ "''post_model''"]) (auto simp: ps(2))
    qed
    ultimately show ?thesis using False ps assms
      by (simp add: record_post_model_options_def)
  qed
qed

lemma record_parameter_ok:
  assumes "machine_ok m"
  shows "machine_ok (fst (record_post_parameter_options os m))"
proof (cases "phase m = Parameter_Planned \<and> (\<exists>parsed. parse_options os = Inr parsed) \<and> planned_parameter m \<noteq> None")
  case False
  then have "fst (record_post_parameter_options os m) = m"
    by (auto simp: record_post_parameter_options_def split: option.splits sum.splits)
  then show ?thesis using assms by simp
next
  case True
  then obtain ps parsed where ps: "phase m = Parameter_Planned" "os = Some ps" "parse_options (Some ps) = Inr parsed"
    using parse_options_Some by blast
  obtain i v where iv: "planned_parameter m = Some (i, v)" using True by auto
  define m1 where "m1 = record_snapshot ''post_parameter'' os m"
  define m2 where "m2 = m1\<lparr>pending_parameters := tl (pending_parameters m), planned_parameter := None,
    post_model_options := Some parsed\<rparr>"
  have "machine_ok m1" using assms ps(1) by (simp add: m1_def snapshot_ok)
  moreover have "machine_ok (m2\<lparr>phase := Post_Parameter\<rparr>)"
    by (rule machine_ok_upd [OF assms]) (auto simp: m1_def m2_def phase_ok_def)
  moreover have "machine_ok (fst (verify_whole_configuration parsed m2))" if "pending_parameters m2 = []"
    by (rule verify_machine_ok [OF assms _ _ _ _ _ _ ps(3), of _ "''post_parameter''"])
      (use that ps(1,2) in \<open>auto simp: m1_def m2_def phase_ok_def\<close>)
  ultimately show ?thesis
    by (auto simp: record_post_parameter_options_def Let_def ps iv m1_def m2_def split: option.splits)
qed

lemma step_machine_ok: "machine_ok m \<Longrightarrow> machine_ok (fst (machine_step op m))"
  by (cases op) (simp_all add: record_initial_ok plan_mode_ok record_mode_ok plan_model_ok record_model_ok
      plan_parameter_ok record_parameter_ok plan_effort_ok record_effort_ok update_ok)

section \<open>Runs of operations\<close>

definition machine_next :: "machine \<Rightarrow> machine \<Rightarrow> bool" where
  "machine_next m m' \<longleftrightarrow> (\<exists>op. m' = fst (machine_step op m))"

definition started :: "machine \<Rightarrow> bool" where
  "started m \<longleftrightarrow> (\<exists>mode mid eid rm re pid pm. new_machine mode mid eid rm re pid pm = Inr m)"

interpretation config: inductive_invariant started machine_next machine_ok
  by unfold_locales (auto simp: started_def machine_next_def dest: new_machine_ok intro: step_machine_ok)

interpretation config_frame: step_preorder machine_ok machine_next same_request
  by unfold_locales
    (auto simp: machine_next_def intro: step_same_request same_request_trans step_machine_ok)

text \<open>The run in which every operation succeeds, as one run of the driver is.\<close>

fun run_ops :: "machine_op list \<Rightarrow> machine \<Rightarrow> machine option" where
  "run_ops [] m = Some m"
| "run_ops (op # ops) m =
     (case machine_step op m of (m', None) \<Rightarrow> run_ops ops m' | (m', Some _) \<Rightarrow> None)"

section \<open>The legs of a successful run are determined\<close>

datatype leg = Leg_Initial | Leg_Plan_Mode | Leg_Mode | Leg_Plan_Model | Leg_Model | Leg_Plan_Parameter
  | Leg_Parameter | Leg_Plan_Effort | Leg_Effort

fun leg_of :: "machine_op \<Rightarrow> leg list" where
  "leg_of (Record_Initial _) = [Leg_Initial]"
| "leg_of Plan_Mode = [Leg_Plan_Mode]"
| "leg_of (Record_Mode _) = [Leg_Mode]"
| "leg_of Plan_Model = [Leg_Plan_Model]"
| "leg_of (Record_Model _) = [Leg_Model]"
| "leg_of Plan_Parameter = [Leg_Plan_Parameter]"
| "leg_of (Record_Parameter _) = [Leg_Parameter]"
| "leg_of Plan_Effort = [Leg_Plan_Effort]"
| "leg_of (Record_Effort _) = [Leg_Effort]"
| "leg_of (Option_Update _) = []"

definition mode_legs :: "machine \<Rightarrow> leg list" where
  "mode_legs m = (if has_permission_mode m then [Leg_Plan_Mode, Leg_Mode] else [])"

definition parameter_legs :: "nat \<Rightarrow> leg list" where
  "parameter_legs k = concat (replicate k [Leg_Plan_Parameter, Leg_Parameter])"

definition parameters_done :: "machine \<Rightarrow> nat" where
  "parameters_done m = length (requested_parameters m) - length (pending_parameters m)"

definition legs_done :: "machine \<Rightarrow> leg list" where
  "legs_done m =
     (case phase m of
        Init \<Rightarrow> []
      | Initial_Options \<Rightarrow> [Leg_Initial]
      | Mode_Planned \<Rightarrow> [Leg_Initial, Leg_Plan_Mode]
      | Post_Mode \<Rightarrow> Leg_Initial # mode_legs m
      | Model_Planned \<Rightarrow> Leg_Initial # mode_legs m @ [Leg_Plan_Model]
      | Post_Model \<Rightarrow> Leg_Initial # mode_legs m @ [Leg_Plan_Model, Leg_Model]
      | Effort_Planned \<Rightarrow> Leg_Initial # mode_legs m @ [Leg_Plan_Model, Leg_Model, Leg_Plan_Effort]
      | Parameter_Planned \<Rightarrow>
          Leg_Initial # mode_legs m @ [Leg_Plan_Model, Leg_Model] @ parameter_legs (parameters_done m) @ [Leg_Plan_Parameter]
      | Post_Parameter \<Rightarrow>
          Leg_Initial # mode_legs m @ [Leg_Plan_Model, Leg_Model] @ parameter_legs (parameters_done m)
      | Verified \<Rightarrow>
          Leg_Initial # mode_legs m @ [Leg_Plan_Model, Leg_Model] @
          (if is_whole_configuration m then parameter_legs (length (requested_parameters m))
           else [Leg_Plan_Effort, Leg_Effort]))"

definition on_track :: "machine \<Rightarrow> bool" where
  "on_track m \<longleftrightarrow>
     machine_ok m \<and> length (pending_parameters m) \<le> length (requested_parameters m) \<and>
     (case phase m of
        Effort_Planned \<Rightarrow> \<not> is_whole_configuration m
      | Parameter_Planned \<Rightarrow> is_parameterized m \<and> pending_parameters m \<noteq> []
      | Post_Parameter \<Rightarrow> is_parameterized m \<and> pending_parameters m \<noteq> []
      | Verified \<Rightarrow> True
      | _ \<Rightarrow> pending_parameters m = requested_parameters m)"

lemma parameter_legs_Suc: "parameter_legs (Suc k) = parameter_legs k @ [Leg_Plan_Parameter, Leg_Parameter]"
  by (induction k) (auto simp: parameter_legs_def)

lemma parameter_legs_last:
  "Suc 0 \<le> n \<Longrightarrow> parameter_legs n = parameter_legs (n - Suc 0) @ [Leg_Plan_Parameter, Leg_Parameter]"
  by (cases n) (simp_all add: parameter_legs_Suc)

lemma same_request_legs:
  assumes "same_request m m'"
  shows "mode_legs m' = mode_legs m" "requested_parameters m' = requested_parameters m"
    "is_whole_configuration m' = is_whole_configuration m"
    "is_parameterized m' = is_parameterized m" "is_model_only m' = is_model_only m"
    "has_permission_mode m' = has_permission_mode m"
  using assms by (simp_all add: same_request_def mode_legs_def has_permission_mode_def requested_parameters_def
      is_whole_configuration_def is_parameterized_def is_model_only_def)

lemma not_parameterized: "request_ok m \<Longrightarrow> \<not> is_parameterized m \<Longrightarrow> requested_parameters m = []"
  by (auto simp: request_ok_def requested_parameters_def split: option.splits)

text \<open>Where a successful operation moves the machine.\<close>

lemma verify_moves:
  "verify_whole_configuration parsed m = (m', Inr u) \<Longrightarrow> phase m' = Verified \<and> pending_parameters m' = pending_parameters m"
  by (auto simp: verify_whole_configuration_def split: machine_splits)

lemma success_moves:
  "record_initial_options os m = (m', Inr u) \<Longrightarrow>
     phase m = Init \<and> phase m' = Initial_Options \<and> pending_parameters m' = pending_parameters m"
  "permission_mode_plan m = (m', Inr i) \<Longrightarrow>
     phase m = Initial_Options \<and> phase m' = Mode_Planned \<and> has_permission_mode m \<and> pending_parameters m' = pending_parameters m"
  "record_post_mode_options os m = (m', Inr u) \<Longrightarrow>
     phase m = Mode_Planned \<and> phase m' = Post_Mode \<and> has_permission_mode m \<and> pending_parameters m' = pending_parameters m"
  "model_plan m = (m', Inr i) \<Longrightarrow>
     phase m = (if has_permission_mode m then Post_Mode else Initial_Options) \<and> phase m' = Model_Planned \<and>
     pending_parameters m' = pending_parameters m"
  "effort_plan m = (m', Inr i) \<Longrightarrow>
     phase m = Post_Model \<and> phase m' = Effort_Planned \<and> \<not> is_whole_configuration m \<and>
     pending_parameters m' = pending_parameters m"
  "record_post_effort_options os m = (m', Inr u) \<Longrightarrow>
     phase m = Effort_Planned \<and> phase m' = Verified \<and> \<not> is_whole_configuration m \<and>
     pending_parameters m' = pending_parameters m"
  "parameter_plan m = (m', Inr p) \<Longrightarrow>
     (phase m = Post_Model \<or> phase m = Post_Parameter) \<and> phase m' = Parameter_Planned \<and> is_parameterized m \<and>
     pending_parameters m \<noteq> [] \<and> pending_parameters m' = pending_parameters m"
  by (auto simp: machine_op_defs has_permission_mode_def Let_def split: machine_splits)

lemma record_model_moves:
  "record_post_model_options os m = (m', Inr u) \<Longrightarrow>
     phase m = Model_Planned \<and> pending_parameters m' = pending_parameters m \<and>
     phase m' = (if is_parameterized m \<and> pending_parameters m = [] \<or> \<not> is_parameterized m \<and> is_model_only m
                 then Verified else Post_Model)"
  by (auto simp: record_post_model_options_def Let_def dest!: verify_moves split: machine_splits)

lemma record_parameter_moves:
  "record_post_parameter_options os m = (m', Inr u) \<Longrightarrow>
     phase m = Parameter_Planned \<and> pending_parameters m' = tl (pending_parameters m) \<and>
     phase m' = (if tl (pending_parameters m) = [] then Verified else Post_Parameter)"
  by (auto simp: record_post_parameter_options_def Let_def dest!: verify_moves split: machine_splits)

lemma failure_None [simp]: "failure r = None \<longleftrightarrow> (\<exists>x. r = Inr x)"
  by (cases r) auto

lemma step_on_track:
  assumes "on_track m" "machine_step op m = (m', None)"
  shows "on_track m' \<and> legs_done m' = legs_done m @ leg_of op"
proof -
  have same: "same_request m m'" using step_same_request [of m op] assms(2) by simp
  have ok: "machine_ok m'" using step_machine_ok [of m op] assms by (simp add: on_track_def)
  have req: "request_ok m" using assms(1) by (simp add: on_track_def machine_ok_def)
  note table = same_request_legs [OF same] request_ok_whole [OF req] not_parameterized [OF req]
    parameters_done_def parameter_legs_Suc parameter_legs_def [of 0] mode_legs_def [of m]
  note facts = assms(1) ok
  show ?thesis
  proof (cases op)
    case (Record_Model os)
    then obtain u where "record_post_model_options os m = (m', Inr u)" using assms(2) by (auto simp: map_prod_def split: prod.splits)
    from record_model_moves [OF this] show ?thesis
      using Record_Model facts table by (auto simp: on_track_def legs_done_def split: if_splits)
  next
    case (Record_Parameter os)
    then obtain u where "record_post_parameter_options os m = (m', Inr u)" using assms(2) by (auto simp: map_prod_def split: prod.splits)
    from record_parameter_moves [OF this] show ?thesis
      using Record_Parameter facts table parameter_legs_last [of "length (requested_parameters m)"]
      by (cases "pending_parameters m") (auto simp: on_track_def legs_done_def Suc_diff_Suc [symmetric] split: if_splits)
  next
    case (Option_Update ps)
    then have "phase m' = phase m" "pending_parameters m' = pending_parameters m"
      using assms(2) by (auto simp: record_option_update_def)
    then show ?thesis using facts Option_Update same_request_legs [OF same]
      by (simp add: on_track_def legs_done_def parameters_done_def cong: phase_name.case_cong)
  next
    case Plan_Parameter
    then obtain p where "parameter_plan m = (m', Inr p)" using assms(2) by (cases "parameter_plan m") auto
    from success_moves(7) [OF this] show ?thesis
      using Plan_Parameter facts table by (elim conjE disjE) (simp_all add: on_track_def legs_done_def)
  qed (use assms(2) facts table in
      \<open>auto simp: on_track_def legs_done_def map_prod_def dest!: success_moves split: prod.splits if_splits\<close>)
qed

lemma run_on_track:
  "run_ops ops m = Some m' \<Longrightarrow> on_track m \<Longrightarrow> on_track m' \<and> legs_done m' = legs_done m @ concat (map leg_of ops)"
proof (induction ops arbitrary: m)
  case (Cons op ops)
  obtain m1 where m1: "machine_step op m = (m1, None)" "run_ops ops m1 = Some m'"
    using Cons.prems(1) by (auto split: machine_splits)
  show ?case using step_on_track [OF Cons.prems(2) m1(1)] Cons.IH [OF m1(2)] by simp
qed simp

lemma new_machine_pending:
  "new_machine mode mid eid rm re pid pm = Inr m \<Longrightarrow> pending_parameters m = requested_parameters m"
  by (auto simp: new_machine_def requested_parameters_def Let_def split: if_splits sum.splits)

lemma started_on_track: "new_machine mode mid eid rm re pid pm = Inr m \<Longrightarrow> on_track m \<and> legs_done m = []"
  using new_machine_ok [of mode mid eid rm re pid pm m] new_machine_pending [of mode mid eid rm re pid pm m]
  by (simp add: on_track_def legs_done_def)

lemma run_reaches: "run_ops ops m = Some m' \<Longrightarrow> rtranclp machine_next m m'"
proof (induction ops arbitrary: m)
  case (Cons op ops)
  then obtain m1 where m1: "machine_step op m = (m1, None)" "run_ops ops m1 = Some m'" by (auto split: machine_splits)
  then have "machine_next m m1" by (auto simp: machine_next_def intro: exI [of _ op])
  then show ?case using Cons.IH [OF m1(2)] by (rule converse_rtranclp_into_rtranclp)
qed simp

lemma ready_exact:
  assumes "machine_ok m" "require_ready m = Inr (model, effort)"
  shows "model = requested_model m \<and> effort = requested_effort m \<and> last_answer_exact m"
  using assms by (auto simp: machine_ok_def require_ready_def split: machine_splits)

section \<open>Properties\<close>

text \<open>C33. The parameterized literal has exactly one reading: a text parses to a base and parameters
  exactly when these are well formed (nonempty base without brackets, nonempty identifiers and values
  without structural characters, identifiers distinct) and compose to that very text.\<close>

theorem literal_grammar_exact:
  "parse_parameterized_model s = Inr pm \<longleftrightarrow>
   literal_ok pm \<and> compose_parameterized_model (pm_base pm) (pm_parameters pm) = s"
  using parse_sound [of s pm] parse_complete [of pm] by blast

text \<open>C31. The prompt gate: whatever operations were called, in whatever order and however they failed,
  a machine that releases a pair releases the requested one, and the last complete set the agent
  answered shows the configuration exactly: the model, the permission mode when one is frozen, the
  effort or every parameter, and no parameter the request does not name.\<close>

theorem prompt_gate_exact:
  assumes "new_machine mode mid eid rm re pid pm = Inr m0" "rtranclp machine_next m0 m"
    "require_ready m = Inr (model, effort)"
  shows "model = rm \<and> effort = re \<and> last_answer_exact m"
proof -
  have "started m0" using assms(1) unfolding started_def by blast
  then have ok: "machine_ok m" "machine_ok m0" using config.inv_reachable config.inv_init assms(2) by auto
  have "same_request m0 m" using config_frame.run_rel assms(2) ok(2) by blast
  then show ?thesis using ready_exact [OF ok(1) assms(3)] new_machine_ok [OF assms(1)]
    by (simp add: same_request_def)
qed

definition demo_select :: "string \<Rightarrow> string \<Rightarrow> string list \<Rightarrow> pydict" where
  "demo_select i v cs =
     [(''id'', PStr i), (''type'', PStr ''select''), (''currentValue'', PStr v),
      (''options'', PList (map (\<lambda>c. PDict [(''value'', PStr c)]) cs))]"

definition demo_machine :: machine where
  "demo_machine = projr (new_machine ''parameterized'' ''model'' None ''b[x=1,y=2]'' ''N/A'' (Some ''mode'') (Some ''ask''))"

definition demo_set :: "string \<Rightarrow> string \<Rightarrow> string \<Rightarrow> string \<Rightarrow> pydict list option" where
  "demo_set mode base x y =
     Some [demo_select ''mode'' mode [''ask'', ''auto''], demo_select ''model'' base [''a'', ''b''],
           demo_select ''x'' x [''0'', ''1''], demo_select ''y'' y [''2'', ''3'']]"

definition demo_ops :: "machine_op list" where
  "demo_ops =
     [Record_Initial (demo_set ''auto'' ''a'' ''0'' ''3''), Plan_Mode, Record_Mode (demo_set ''ask'' ''a'' ''0'' ''3''),
      Plan_Model, Record_Model (demo_set ''ask'' ''b'' ''0'' ''3''), Plan_Parameter,
      Record_Parameter (demo_set ''ask'' ''b'' ''1'' ''3''), Option_Update [], Plan_Parameter,
      Record_Parameter (demo_set ''ask'' ''b'' ''1'' ''2'')]"

lemma demo_machine_new:
  "new_machine ''parameterized'' ''model'' None ''b[x=1,y=2]'' ''N/A'' (Some ''mode'') (Some ''ask'') = Inr demo_machine"
proof -
  have "\<not> isl (new_machine ''parameterized'' ''model'' None ''b[x=1,y=2]'' ''N/A'' (Some ''mode'') (Some ''ask''))"
    by code_simp
  then show ?thesis by (simp add: demo_machine_def)
qed

lemma demo_run: "run_ops demo_ops demo_machine = Some (the (run_ops demo_ops demo_machine))"
proof -
  have "run_ops demo_ops demo_machine \<noteq> None" by code_simp
  then show ?thesis by simp
qed

theorem prompt_gate_exact_witness: "last_answer_exact (the (run_ops demo_ops demo_machine))"
proof -
  have "require_ready (the (run_ops demo_ops demo_machine)) = Inr (''b[x=1,y=2]'', ''N/A'')" by code_simp
  from prompt_gate_exact [OF demo_machine_new run_reaches [OF demo_run] this] show ?thesis by simp
qed

text \<open>The order of the legs is forced: in any run of successful operations that ends verified, the
  operations other than pushed updates are exactly the initial discovery, the permission mode leg when
  one is frozen, the model leg, and then the effort leg, or one leg per requested parameter, or nothing,
  according to the fidelity mode.\<close>

theorem legs_forced:
  assumes "new_machine mode mid eid rm re pid pm = Inr m0" "run_ops ops m0 = Some m" "phase m = Verified"
  shows "concat (map leg_of ops) =
    Leg_Initial # mode_legs m @ [Leg_Plan_Model, Leg_Model] @
    (if is_whole_configuration m then parameter_legs (length (requested_parameters m))
     else [Leg_Plan_Effort, Leg_Effort])"
  using run_on_track [OF assms(2)] started_on_track [OF assms(1)] assms(3) by (simp add: legs_done_def)

theorem legs_forced_witness: "length (concat (map leg_of demo_ops)) = 9"
proof -
  let ?m = "the (run_ops demo_ops demo_machine)"
  have "phase ?m = Verified" by code_simp
  note forced = legs_forced [OF demo_machine_new demo_run this]
  have "has_permission_mode ?m" "is_whole_configuration ?m" "length (requested_parameters ?m) = 2" by code_simp+
  then show ?thesis unfolding forced by (simp add: mode_legs_def parameter_legs_def numeral_2_eq_2)
qed

end
