(* ===== verification/Config_Driver.thy ===== *)
theory Config_Driver
  imports Config_Props
begin

text \<open>
  The driver's configuration sequence, \<^verbatim>\<open>set_config_exact\<close> of
  \<^verbatim>\<open>native_acp/driver.py\<close>, over an agent: a function from its state and one
  \<^verbatim>\<open>session/set_config_option\<close> to its next state and its answer, \<^const>\<open>None\<close> when the call
  raises.  The sequence over an agent that honours its sets always reaches the prompt.
\<close>

section \<open>The sequence\<close>

datatype driver_error = Native_Driver_Error | Fidelity config_error

datatype wire_event = Switch_Started | Set_Option string string

type_synonym 's agent = "'s \<Rightarrow> string \<Rightarrow> string \<Rightarrow> 's \<times> pydict list option option"

record 's driver_run =
  dr_machine :: machine
  dr_agent :: 's
  dr_wire :: "wire_event list"
  dr_announced :: bool

definition announce_config_switch :: "'s driver_run \<Rightarrow> 's driver_run" where
  "announce_config_switch r =
     (if dr_announced r then r else r\<lparr>dr_announced := True, dr_wire := dr_wire r @ [Switch_Started]\<rparr>)"

text \<open>One leg: plan, write the set, hand the whole answered set to the machine.\<close>

definition set_leg ::
  "'s agent \<Rightarrow> (machine \<Rightarrow> machine \<times> (string \<times> string) config_result) \<Rightarrow>
   (pydict list option \<Rightarrow> machine \<Rightarrow> machine \<times> unit config_result) \<Rightarrow> 's driver_run \<Rightarrow> 's driver_run \<times> (driver_error + unit)" where
  "set_leg agent plan consume r =
     (case plan (dr_machine r) of
        (m1, Inl e) \<Rightarrow> (r\<lparr>dr_machine := m1\<rparr>, Inl (Fidelity e))
      | (m1, Inr (i, v)) \<Rightarrow>
          (let (a, answer) = agent (dr_agent r) i v;
               r1 = r\<lparr>dr_machine := m1, dr_agent := a, dr_wire := dr_wire r @ [Set_Option i v]\<rparr>
           in case answer of
                None \<Rightarrow> (r1, Inl Native_Driver_Error)
              | Some os \<Rightarrow>
                  (case consume os m1 of
                     (m2, Inl e) \<Rightarrow> (r1\<lparr>dr_machine := m2\<rparr>, Inl (Fidelity e))
                   | (m2, Inr _) \<Rightarrow> (r1\<lparr>dr_machine := m2\<rparr>, Inr ()))))"

definition with_value :: "(machine \<Rightarrow> string) \<Rightarrow> (machine \<Rightarrow> machine \<times> string config_result) \<Rightarrow>
    machine \<Rightarrow> machine \<times> (string \<times> string) config_result" where
  "with_value value plan m =
     (case plan m of (m1, Inl e) \<Rightarrow> (m1, Inl e) | (m1, Inr i) \<Rightarrow> (m1, Inr (i, value m)))"

definition mode_leg :: "'s agent \<Rightarrow> 's driver_run \<Rightarrow> 's driver_run \<times> (driver_error + unit)" where
  "mode_leg agent r =
     (if has_permission_mode (dr_machine r)
      then set_leg agent (with_value (\<lambda>m. the (required_permission_mode m)) permission_mode_plan) record_post_mode_options r
      else (r, Inr ()))"

definition model_leg :: "'s agent \<Rightarrow> 's driver_run \<Rightarrow> 's driver_run \<times> (driver_error + unit)" where
  "model_leg agent r = set_leg agent (with_value model_selector_value model_plan) record_post_model_options r"

definition effort_leg :: "'s agent \<Rightarrow> 's driver_run \<Rightarrow> 's driver_run \<times> (driver_error + unit)" where
  "effort_leg agent r = set_leg agent (with_value requested_effort effort_plan) record_post_effort_options r"

definition parameter_leg :: "'s agent \<Rightarrow> 's driver_run \<Rightarrow> 's driver_run \<times> (driver_error + unit)" where
  "parameter_leg agent r = set_leg agent parameter_plan record_post_parameter_options r"

lemma parameter_leg_shrinks:
  assumes "parameter_leg agent r = (r', Inr u)"
  shows "pending_parameters (dr_machine r) \<noteq> []"
    "pending_parameters (dr_machine r') = tl (pending_parameters (dr_machine r))"
  using assms
  by (auto simp: parameter_leg_def set_leg_def Let_def dest!: success_moves(7) record_parameter_moves split: machine_splits)

lemma parameter_leg_measure:
  "(r1, Inr u) = parameter_leg agent r \<Longrightarrow>
   length (pending_parameters (dr_machine r1)) < length (pending_parameters (dr_machine r))"
  using parameter_leg_shrinks [of agent r r1 u] by (cases "pending_parameters (dr_machine r)") auto

function parameter_loop :: "'s agent \<Rightarrow> 's driver_run \<Rightarrow> 's driver_run \<times> (driver_error + unit)" where
  "parameter_loop agent r =
     (if pending_parameters (dr_machine r) = [] then (r, Inr ())
      else (case parameter_leg agent r of
              (r1, Inl e) \<Rightarrow> (r1, Inl e)
            | (r1, Inr _) \<Rightarrow> parameter_loop agent r1))"
  by pat_completeness auto

termination
  by (relation "measure (\<lambda>(agent, r). length (pending_parameters (dr_machine r)))")
    (auto simp: parameter_leg_measure)

declare parameter_loop.simps [simp del]

text \<open>\<^verbatim>\<open>_check_identity\<close> asks the client whether the session identity was violated.\<close>

definition finish :: "('s \<Rightarrow> bool) \<Rightarrow> 's driver_run \<Rightarrow> 's driver_run \<times> (driver_error + string \<times> string)" where
  "finish identity_ok r =
     (if \<not> identity_ok (dr_agent r) then (r, Inl Native_Driver_Error)
      else (r, case require_ready (dr_machine r) of Inl e \<Rightarrow> Inl (Fidelity e) | Inr p \<Rightarrow> Inr p))"

definition set_config_exact ::
  "'s agent \<Rightarrow> ('s \<Rightarrow> bool) \<Rightarrow> bool \<Rightarrow> bool \<Rightarrow> 's driver_run \<Rightarrow> 's driver_run \<times> (driver_error + string \<times> string)" where
  "set_config_exact agent identity_ok has_connection has_session r0 =
     (if \<not> has_connection \<or> \<not> has_session then (r0, Inl Native_Driver_Error)
      else (case mode_leg agent (announce_config_switch r0) of
        (r1, Inl e) \<Rightarrow> (r1, Inl e)
      | (r1, Inr _) \<Rightarrow>
        (case model_leg agent r1 of
          (r2, Inl e) \<Rightarrow> (r2, Inl e)
        | (r2, Inr _) \<Rightarrow>
          if is_model_only (dr_machine r2) then finish identity_ok r2
          else if is_parameterized (dr_machine r2) then
            (case parameter_loop agent r2 of
               (r3, Inl e) \<Rightarrow> (r3, Inl e)
             | (r3, Inr _) \<Rightarrow> finish identity_ok r3)
          else (case effort_leg agent r2 of
               (r3, Inl e) \<Rightarrow> (r3, Inl e)
             | (r3, Inr _) \<Rightarrow> finish identity_ok r3))))"

section \<open>What a leg keeps and what it writes\<close>

lemma with_value_fst [simp]: "fst (with_value value plan m) = fst (plan m)"
  by (auto simp: with_value_def split: prod.splits sum.splits)

lemma with_value_Inr:
  "with_value value plan m = (m1, Inr (i, v)) \<longleftrightarrow> plan m = (m1, Inr i) \<and> v = value m"
  by (auto simp: with_value_def split: prod.splits sum.splits)

text \<open>A predicate of the machine that the plan and the consumption keep is kept by the leg.\<close>

lemma set_leg_keeps:
  assumes "P (dr_machine r)" "\<And>m. P m \<Longrightarrow> P (fst (plan m))" "\<And>os m. P m \<Longrightarrow> P (fst (consume os m))"
  shows "P (dr_machine (fst (set_leg agent plan consume r)))"
  using assms(1) assms(2) [of "dr_machine r"] assms(3)
  by (auto simp: set_leg_def Let_def split: machine_splits) (metis fst_conv)+

lemma set_leg_success:
  assumes "set_leg agent plan consume r = (r', Inr u)"
  obtains m1 i v os where "plan (dr_machine r) = (m1, Inr (i, v))"
    "snd (agent (dr_agent r) i v) = Some os" "consume os m1 = (dr_machine r', Inr ())"
    "dr_agent r' = fst (agent (dr_agent r) i v)" "dr_wire r' = dr_wire r @ [Set_Option i v]"
    "dr_announced r' = dr_announced r"
  using assms by (auto simp: set_leg_def Let_def split: machine_splits)

text \<open>The predicate every leg keeps: the invariant, for one fixed request.\<close>

definition runs :: "machine \<Rightarrow> machine \<Rightarrow> bool" where
  "runs m0 m \<longleftrightarrow> machine_ok m \<and> same_request m0 m"

lemma runs_step: "runs m0 m \<Longrightarrow> runs m0 (fst (machine_step op m))"
  using step_machine_ok step_same_request same_request_trans by (auto simp: runs_def)

lemma runs_ops:
  "runs m0 m \<Longrightarrow> runs m0 (fst (permission_mode_plan m))" "runs m0 m \<Longrightarrow> runs m0 (fst (record_post_mode_options os m))"
  "runs m0 m \<Longrightarrow> runs m0 (fst (model_plan m))" "runs m0 m \<Longrightarrow> runs m0 (fst (record_post_model_options os m))"
  "runs m0 m \<Longrightarrow> runs m0 (fst (effort_plan m))" "runs m0 m \<Longrightarrow> runs m0 (fst (record_post_effort_options os m))"
  "runs m0 m \<Longrightarrow> runs m0 (fst (parameter_plan m))" "runs m0 m \<Longrightarrow> runs m0 (fst (record_post_parameter_options os m))"
  "runs m0 m \<Longrightarrow> runs m0 (fst (record_initial_options os m))"
  using runs_step [of m0 m Plan_Mode] runs_step [of m0 m "Record_Mode os"] runs_step [of m0 m Plan_Model]
    runs_step [of m0 m "Record_Model os"] runs_step [of m0 m Plan_Effort] runs_step [of m0 m "Record_Effort os"]
    runs_step [of m0 m Plan_Parameter] runs_step [of m0 m "Record_Parameter os"] runs_step [of m0 m "Record_Initial os"]
  by simp_all

lemma legs_run:
  "runs m0 (dr_machine r) \<Longrightarrow> runs m0 (dr_machine (fst (mode_leg agent r)))"
  "runs m0 (dr_machine r) \<Longrightarrow> runs m0 (dr_machine (fst (model_leg agent r)))"
  "runs m0 (dr_machine r) \<Longrightarrow> runs m0 (dr_machine (fst (effort_leg agent r)))"
  "runs m0 (dr_machine r) \<Longrightarrow> runs m0 (dr_machine (fst (parameter_leg agent r)))"
  by (simp_all add: mode_leg_def model_leg_def effort_leg_def parameter_leg_def set_leg_keeps [of "runs m0"] runs_ops)

lemma loop_run: "runs m0 (dr_machine r) \<Longrightarrow> runs m0 (dr_machine (fst (parameter_loop agent r)))"
proof (induction agent r rule: parameter_loop.induct)
  case (1 agent r)
  show ?case using 1 legs_run(4) [OF 1(2), of agent]
    by (subst parameter_loop.simps) (auto split: prod.splits sum.splits)
qed

section \<open>The sets written\<close>

definition mode_sets :: "machine \<Rightarrow> wire_event list" where
  "mode_sets m =
     (case permission_mode_selector_id m of
        None \<Rightarrow> [] | Some i \<Rightarrow> [Set_Option i (the (required_permission_mode m))])"

definition later_sets :: "machine \<Rightarrow> wire_event list" where
  "later_sets m =
     (if is_whole_configuration m then map (\<lambda>(i, v). Set_Option i v) (requested_parameters m)
      else [Set_Option (the (effort_selector_id m)) (requested_effort m)])"

definition planned_sets :: "machine \<Rightarrow> wire_event list" where
  "planned_sets m = mode_sets m @ Set_Option (model_selector_id m) (model_selector_value m) # later_sets m"

lemma same_request_sets:
  assumes "same_request m m'"
  shows "mode_sets m' = mode_sets m" "later_sets m' = later_sets m"
    "model_selector_value m' = model_selector_value m" "model_selector_id m' = model_selector_id m"
  using assms same_request_legs [OF assms]
  by (simp_all add: mode_sets_def later_sets_def model_selector_value_def same_request_def cong: option.case_cong)

lemma plan_answers:
  "permission_mode_plan m = (m1, Inr i) \<Longrightarrow> permission_mode_selector_id m = Some i"
  "model_plan m = (m1, Inr i) \<Longrightarrow> i = model_selector_id m"
  "effort_plan m = (m1, Inr i) \<Longrightarrow> effort_selector_id m = Some i \<and> \<not> is_whole_configuration m"
  "parameter_plan m = (m1, Inr p) \<Longrightarrow> hd (pending_parameters m) = p"
  by (auto simp: machine_op_defs Let_def split: machine_splits)

lemma mode_leg_wire:
  "mode_leg agent r = (r', Inr u) \<Longrightarrow> dr_wire r' = dr_wire r @ mode_sets (dr_machine r)"
  by (auto simp: mode_leg_def has_permission_mode_def mode_sets_def with_value_Inr
      elim!: set_leg_success dest!: plan_answers split: if_splits)

lemma model_leg_wire:
  "model_leg agent r = (r', Inr u) \<Longrightarrow>
   dr_wire r' = dr_wire r @ [Set_Option (model_selector_id (dr_machine r)) (model_selector_value (dr_machine r))]"
  by (auto simp: model_leg_def with_value_Inr elim!: set_leg_success dest!: plan_answers)

lemma effort_leg_wire:
  "effort_leg agent r = (r', Inr u) \<Longrightarrow> dr_wire r' = dr_wire r @ later_sets (dr_machine r)"
  by (auto simp: effort_leg_def with_value_Inr later_sets_def elim!: set_leg_success dest!: plan_answers)

lemma parameter_leg_wire:
  "parameter_leg agent r = (r', Inr u) \<Longrightarrow>
   dr_wire r' = dr_wire r @ [case hd (pending_parameters (dr_machine r)) of (i, v) \<Rightarrow> Set_Option i v]"
  by (auto simp: parameter_leg_def elim!: set_leg_success dest!: plan_answers)

lemma loop_wire:
  "parameter_loop agent r = (r', Inr u) \<Longrightarrow>
   dr_wire r' = dr_wire r @ map (\<lambda>(i, v). Set_Option i v) (pending_parameters (dr_machine r)) \<and>
   pending_parameters (dr_machine r') = []"
proof (induction agent r rule: parameter_loop.induct)
  case (1 agent r)
  show ?case
  proof (cases "pending_parameters (dr_machine r)")
    case Nil
    then show ?thesis using 1(2) by (simp add: parameter_loop.simps)
  next
    case (Cons p ps)
    then obtain r1 u1 where leg: "parameter_leg agent r = (r1, Inr u1)" and rest: "parameter_loop agent r1 = (r', Inr u)"
      using 1(2) by (subst (asm) parameter_loop.simps) (auto split: prod.splits sum.splits)
    have "pending_parameters (dr_machine r1) = ps" using parameter_leg_shrinks(2) [OF leg] Cons by simp
    moreover have "dr_wire r' = dr_wire r1 @ map (\<lambda>(i, v). Set_Option i v) (pending_parameters (dr_machine r1)) \<and>
        pending_parameters (dr_machine r') = []"
      using 1(1) [OF _ leg [symmetric] refl rest] Cons by simp
    ultimately show ?thesis using parameter_leg_wire [OF leg] Cons by simp
  qed
qed

lemma mode_leg_pending:
  "mode_leg agent r = (r', Inr u) \<Longrightarrow> pending_parameters (dr_machine r') = pending_parameters (dr_machine r)"
  by (auto simp: mode_leg_def with_value_Inr elim!: set_leg_success dest!: success_moves split: if_splits)

lemma model_leg_pending:
  "model_leg agent r = (r', Inr u) \<Longrightarrow> pending_parameters (dr_machine r') = pending_parameters (dr_machine r)"
  by (auto simp: model_leg_def with_value_Inr elim!: set_leg_success dest!: success_moves record_model_moves)

lemma finish_Inr:
  "finish idok r = (r', Inr p) \<longleftrightarrow> r' = r \<and> idok (dr_agent r) \<and> require_ready (dr_machine r) = Inr p"
  by (auto simp: finish_def split: sum.splits)

lemma set_config_wire:
  assumes "set_config_exact agent idok c h r0 = (r, Inr p)" "runs m0 (dr_machine r0)" "\<not> dr_announced r0"
    "pending_parameters (dr_machine r0) = requested_parameters m0"
  shows "runs m0 (dr_machine r) \<and> require_ready (dr_machine r) = Inr p \<and>
    dr_wire r = dr_wire r0 @ Switch_Started # planned_sets m0"
proof -
  define ra where "ra = announce_config_switch r0"
  have ra: "dr_machine ra = dr_machine r0" "dr_wire ra = dr_wire r0 @ [Switch_Started]"
    using assms(3) by (simp_all add: ra_def announce_config_switch_def)
  obtain r1 r2 u1 u2 where l1: "mode_leg agent ra = (r1, Inr u1)" and l2: "model_leg agent r1 = (r2, Inr u2)"
    using assms(1) by (auto simp: set_config_exact_def ra_def split: if_splits prod.splits sum.splits)
  note l12 = l1 l2
  have k: "runs m0 (dr_machine ra)" using assms(2) ra by simp
  have k1: "runs m0 (dr_machine r1)" using legs_run(1) [OF k, of agent] l1 by simp
  have k2: "runs m0 (dr_machine r2)" using legs_run(2) [OF k1, of agent] l2 by simp
  have same: "same_request m0 (dr_machine ra)" "same_request m0 (dr_machine r1)" "same_request m0 (dr_machine r2)"
    and req: "request_ok (dr_machine r2)"
    using k k1 k2 by (auto simp: runs_def machine_ok_def)
  have pending: "pending_parameters (dr_machine r2) = requested_parameters m0"
    using mode_leg_pending [OF l1] model_leg_pending [OF l2] assms(4) ra by simp
  have wire: "dr_wire r2 = dr_wire r0 @ Switch_Started # mode_sets m0 @ [Set_Option (model_selector_id m0) (model_selector_value m0)]"
    using mode_leg_wire [OF l1] model_leg_wire [OF l2] ra same_request_sets [OF same(1)] same_request_sets [OF same(2)] by simp
  note kinds = same_request_legs [OF same(3)] request_ok_whole [OF req]
  consider (model_only) "is_model_only (dr_machine r2)" "r = r2"
      "require_ready (dr_machine r2) = Inr p"
    | (parameterized) u3 where "\<not> is_model_only (dr_machine r2)" "is_parameterized (dr_machine r2)"
      "parameter_loop agent r2 = (r, Inr u3)" "require_ready (dr_machine r) = Inr p"
    | (separate) u3 where "\<not> is_whole_configuration (dr_machine r2)" "effort_leg agent r2 = (r, Inr u3)"
      "require_ready (dr_machine r) = Inr p"
    using assms(1) l12 kinds
    by (auto simp: set_config_exact_def ra_def finish_Inr split: if_splits prod.splits sum.splits)
  then show ?thesis
  proof cases
    case model_only
    then have "\<not> is_parameterized (dr_machine r2)"
      by (simp add: is_model_only_def is_parameterized_def FIDELITY_MODEL_ONLY_def FIDELITY_PARAMETERIZED_def)
    then have "later_sets m0 = []"
      using not_parameterized [OF req] model_only kinds by (auto simp: later_sets_def)
    then show ?thesis using model_only wire k2 by (simp add: planned_sets_def)
  next
    case parameterized
    then show ?thesis using loop_wire [OF parameterized(3)] loop_run [OF k2, of agent] wire pending kinds
      by (simp add: planned_sets_def later_sets_def)
  next
    case separate
    then show ?thesis using effort_leg_wire [OF separate(2)] legs_run(3) [OF k2, of agent] wire same_request_sets [OF same(3)]
      by (simp add: planned_sets_def)
  qed
qed

section \<open>An agent that honours its sets\<close>

definition honest_set :: "string \<Rightarrow> string \<Rightarrow> pydict \<Rightarrow> pydict" where
  "honest_set i v payload =
     (if dget payload ''id'' = PStr i then dset ''currentValue'' (PStr v) payload else payload)"

definition honest :: "pydict list agent" where
  "honest s i v = (map (honest_set i v) s, Some (Some (map (honest_set i v) s)))"

definition set_current :: "string \<Rightarrow> string \<Rightarrow> option_set \<Rightarrow> option_set" where
  "set_current i v parsed =
     map (\<lambda>(k, opt). (k, if k = i then opt\<lparr>co_current_value := PStr v\<rparr> else opt)) parsed"

lemma has_key_dset: "has_key k (dset k' v d) \<longleftrightarrow> k = k' \<or> has_key k d"
  by (auto simp: has_key_map_of)

lemma parse_option_honest:
  "parse_option p = Inr (k, opt) \<Longrightarrow>
   parse_option (honest_set i v p) = Inr (k, if k = i then opt\<lparr>co_current_value := PStr v\<rparr> else opt)"
  by (auto simp: parse_option_def honest_set_def has_key_dset Let_def split: pyval.splits list.splits if_splits option.splits)

lemma set_current_dset:
  "set_current i v (dset k opt parsed) = dset k (if k = i then opt\<lparr>co_current_value := PStr v\<rparr> else opt) (set_current i v parsed)"
  by (induction k opt parsed rule: dset.induct) (auto simp: set_current_def)

lemma parse_payloads_honest:
  "parse_payloads acc ps = Inr parsed \<Longrightarrow>
   parse_payloads (set_current i v acc) (map (honest_set i v) ps) = Inr (set_current i v parsed)"
proof (induction acc ps rule: parse_payloads.induct)
  case (2 acc p ps)
  then obtain k opt where "parse_option p = Inr (k, opt)" "parse_payloads (dset k opt acc) ps = Inr parsed"
    by (auto split: sum.splits)
  then show ?case using 2 parse_option_honest [of p k opt i v] by (simp add: set_current_dset)
qed simp

lemma parse_options_honest:
  "parse_options (Some ps) = Inr parsed \<Longrightarrow> parse_options (Some (map (honest_set i v) ps)) = Inr (set_current i v parsed)"
  using parse_payloads_honest [of "[]" ps parsed i v] by (simp add: parse_options_def set_current_def)

lemma map_of_set_current:
  "map_of (set_current i v parsed) k = map_option (\<lambda>opt. if k = i then opt\<lparr>co_current_value := PStr v\<rparr> else opt) (map_of parsed k)"
  by (induction parsed) (auto simp: set_current_def)

lemma set_current_keys [simp]: "fst ` set (set_current i v parsed) = fst ` set parsed"
  by (force simp: set_current_def)

lemma set_current_advertises [simp]: "advertises (set_current i v parsed) k w = advertises parsed k w"
  by (simp add: advertises_def map_of_set_current split: option.splits)

lemma set_current_value:
  "advertises parsed i w \<Longrightarrow> current_value (set_current i v parsed) k = (if k = i then PStr v else current_value parsed k)"
  by (auto simp: current_value_def advertises_def map_of_set_current split: option.splits)

text \<open>The agent offers what the request needs.\<close>

definition offers :: "option_set \<Rightarrow> machine \<Rightarrow> bool" where
  "offers parsed m \<longleftrightarrow>
     advertises parsed (model_selector_id m) (model_selector_value m) \<and>
     (case permission_mode_selector_id m of
        None \<Rightarrow> True
      | Some i \<Rightarrow> i \<noteq> model_selector_id m \<and> advertises parsed i (the (required_permission_mode m))) \<and>
     (is_whole_configuration m \<or>
        (case effort_selector_id m of
           None \<Rightarrow> False
         | Some i \<Rightarrow> i \<noteq> model_selector_id m \<and> Some i \<noteq> permission_mode_selector_id m \<and> advertises parsed i (requested_effort m))) \<and>
     (\<not> is_parameterized m \<or>
        parameter_ids_exact parsed m \<and> (\<forall>(i, v) \<in> set (requested_parameters m). advertises parsed i v))"

lemma offers_set_current [simp]: "offers (set_current i v parsed) m = offers parsed m"
  by (simp add: offers_def parameter_ids_exact_def cong: option.case_cong)

lemma same_request_offers: "same_request m m' \<Longrightarrow> offers parsed m' = offers parsed m"
  by (simp add: same_request_def offers_def is_whole_configuration_def is_parameterized_def requested_parameters_def
      parameter_ids_exact_def owned_ids_def model_selector_value_def cong: option.case_cong)

lemma parameter_not_owned:
  assumes "parameter_ids_exact parsed m" "(i, v) \<in> set (requested_parameters m)"
  shows "i \<noteq> model_selector_id m" "permission_mode_selector_id m \<noteq> Some i" "i \<in> fst ` set parsed"
proof -
  have "i \<in> fst ` set (requested_parameters m)" using assms(2) by (metis fst_conv image_eqI)
  then have "i \<in> fst ` set parsed - set (owned_ids m)" using assms(1) unfolding parameter_ids_exact_def by blast
  then show "i \<noteq> model_selector_id m" "permission_mode_selector_id m \<noteq> Some i" "i \<in> fst ` set parsed"
    by (auto simp: owned_ids_def)
qed

text \<open>One leg against the honest agent, when the machine plans \<open>i := v\<close> and accepts the set.\<close>

lemma honest_leg:
  assumes "plan (dr_machine r) = (m1, Inr (i, v))" "consume (Some (map (honest_set i v) (dr_agent r))) m1 = (m2, Inr ())"
  shows "set_leg honest plan consume r =
    (r\<lparr>dr_machine := m2, dr_agent := map (honest_set i v) (dr_agent r), dr_wire := dr_wire r @ [Set_Option i v]\<rparr>, Inr ())"
  using assms by (simp add: set_leg_def honest_def)

definition discovered :: "machine \<Rightarrow> option_set option" where
  "discovered m = (if permission_mode_selector_id m = None then initial_options m else post_mode_options m)"

lemma mode_exact_set_current:
  assumes "offers parsed m" "permission_mode_selector_id m = Some i" "required_permission_mode m = Some v"
  shows "permission_mode_exact (set_current i v parsed) m"
proof -
  have "advertises parsed i v" using assms by (simp add: offers_def)
  then show ?thesis using assms by (simp add: permission_mode_exact_def set_current_value)
qed

lemma mode_exact_other:
  assumes "permission_mode_exact parsed m" "permission_mode_selector_id m \<noteq> Some i" "advertises parsed i w"
  shows "permission_mode_exact (set_current i v parsed) m"
  using assms by (auto simp: permission_mode_exact_def set_current_value split: option.splits)

lemma honest_mode_leg:
  assumes "request_ok m" "dr_machine r = m" "phase m = Initial_Options" "initial_options m = Some parsed"
    "parse_options (Some (dr_agent r)) = Inr parsed" "offers parsed m"
  obtains r1 parsed1 where "mode_leg honest r = (r1, Inr ())"
    "phase (dr_machine r1) = (if has_permission_mode m then Post_Mode else Initial_Options)"
    "discovered (dr_machine r1) = Some parsed1" "parse_options (Some (dr_agent r1)) = Inr parsed1" "offers parsed1 m"
    "permission_mode_exact parsed1 m" "same_request m (dr_machine r1)" "pending_parameters (dr_machine r1) = pending_parameters m"
proof (cases "permission_mode_selector_id m")
  case None
  then show ?thesis using that [of r parsed] assms
    by (simp add: mode_leg_def has_permission_mode_def discovered_def permission_mode_exact_def)
next
  case (Some i)
  obtain v where v: "required_permission_mode m = Some v" using assms(1) Some by (auto simp: request_ok_def)
  let ?s = "map (honest_set i v) (dr_agent r)" and ?p = "set_current i v parsed"
  have adv: "advertises parsed i v" using assms(6) Some v by (simp add: offers_def)
  have exact: "permission_mode_exact ?p m" using mode_exact_set_current [OF assms(6) Some v] .
  define m1 where "m1 = m\<lparr>phase := Mode_Planned\<rparr>"
  define m2 where "m2 = (record_snapshot ''post_mode'' (Some ?s) m1)\<lparr>post_mode_options := Some ?p, phase := Post_Mode\<rparr>"
  have plan: "with_value (\<lambda>m. the (required_permission_mode m)) permission_mode_plan (dr_machine r) = (m1, Inr (i, v))"
    using assms Some v adv by (simp add: with_value_Inr permission_mode_plan_def m1_def)
  have same1: "same_request m m1" by (simp add: m1_def)
  have "permission_mode_exact ?p m1" using exact by (simp add: permission_mode_exact_def m1_def cong: option.case_cong)
  then have "record_post_mode_options (Some ?s) m1 = (m2, Inr ())"
    using parse_options_honest [OF assms(5)] Some by (simp add: record_post_mode_options_def m1_def m2_def)
  from honest_leg [where plan = "with_value (\<lambda>m. the (required_permission_mode m)) permission_mode_plan" and consume = record_post_mode_options, OF plan this]
  have "mode_leg honest r = (r\<lparr>dr_machine := m2, dr_agent := ?s, dr_wire := dr_wire r @ [Set_Option i v]\<rparr>, Inr ())"
    using assms(2) Some by (simp add: mode_leg_def has_permission_mode_def)
  moreover have "same_request m m2" by (simp add: m2_def m1_def)
  ultimately show ?thesis
    using that exact parse_options_honest [OF assms(5)] assms(6) Some
    by (simp add: m2_def m1_def discovered_def has_permission_mode_def)
qed

text \<open>The state after the model leg and between parameter legs.\<close>

definition halfway :: "machine \<Rightarrow> parameters \<Rightarrow> pydict list driver_run \<Rightarrow> bool" where
  "halfway m finished r \<longleftrightarrow>
     (\<exists>parsed. same_request m (dr_machine r) \<and> parse_options (Some (dr_agent r)) = Inr parsed \<and> offers parsed m \<and>
        post_model_options (dr_machine r) = Some parsed \<and> model_exact parsed m \<and> permission_mode_exact parsed m \<and>
        requested_parameters m = finished @ pending_parameters (dr_machine r) \<and>
        (\<forall>(i, v) \<in> set finished. current_value parsed i = PStr v))"

lemma observe_parameters_all:
  "\<forall>(i, v) \<in> set ps. map_of parsed i \<noteq> None \<and> current_value parsed i = PStr v \<Longrightarrow> observe_parameters parsed ps = Inr ps"
  by (induction ps) (auto simp: current_value_def)

lemma same_request_checks:
  assumes "same_request m m'"
  shows "model_exact parsed m' = model_exact parsed m" "permission_mode_exact parsed m' = permission_mode_exact parsed m"
    "parameter_ids_exact parsed m' = parameter_ids_exact parsed m" "effort_exact parsed m' = effort_exact parsed m"
  using assms by (simp_all add: same_request_def model_exact_def model_selector_value_def permission_mode_exact_def
      parameter_ids_exact_def owned_ids_def requested_parameters_def effort_exact_def cong: option.case_cong)

lemma honest_verify:
  assumes "request_ok m" "is_parameterized m" "same_request m m'" "offers parsed m" "model_exact parsed m"
    "permission_mode_exact parsed m" "\<forall>(i, v) \<in> set (requested_parameters m). current_value parsed i = PStr v"
  obtains m2 where "verify_whole_configuration parsed m' = (m2, Inr ())" "phase m2 = Verified" "same_request m m2"
    "post_model_options m2 = post_model_options m'" "pending_parameters m2 = pending_parameters m'"
proof -
  obtain pm where pm: "parameterized m' = Some pm" "requested_parameters m = pm_parameters pm"
    using assms(1-3) by (auto simp: request_ok_def requested_parameters_def same_request_def split: option.splits)
  have ids: "parameter_ids_exact parsed m" using assms(2,4) by (simp add: offers_def)
  have "\<forall>(i, v) \<in> set (pm_parameters pm). map_of parsed i \<noteq> None \<and> current_value parsed i = PStr v"
    using assms(7) parameter_not_owned(3) [OF ids] pm(2) by (force simp: map_of_eq_None_iff)
  then have "observe_parameters parsed (pm_parameters pm) = Inr (pm_parameters pm)" by (rule observe_parameters_all)
  then have "verify_whole_configuration parsed m' =
      (m'\<lparr>effective_model := Some (compose_parameterized_model (text_of (current_value parsed (model_selector_id m'))) (pm_parameters pm)),
          phase := Verified\<rparr>, Inr ())"
    using pm(1) ids assms(5,6) same_request_checks [OF assms(3)] by (simp add: verify_whole_configuration_def)
  then show ?thesis using that assms(3) by (simp add: same_request_def)
qed

lemma honest_model_leg:
  assumes "request_ok m" "same_request m (dr_machine r)"
    "phase (dr_machine r) = (if has_permission_mode m then Post_Mode else Initial_Options)"
    "discovered (dr_machine r) = Some parsed" "parse_options (Some (dr_agent r)) = Inr parsed" "offers parsed m"
    "permission_mode_exact parsed m" "pending_parameters (dr_machine r) = requested_parameters m"
  obtains r1 where "model_leg honest r = (r1, Inr ())" "halfway m [] r1"
    "phase (dr_machine r1) = (if is_model_only m \<or> is_parameterized m \<and> requested_parameters m = [] then Verified else Post_Model)"
proof -
  let ?i = "model_selector_id m" and ?v = "model_selector_value m"
  let ?s = "map (honest_set ?i ?v) (dr_agent r)" and ?p = "set_current ?i ?v parsed"
  have adv: "advertises parsed ?i ?v" "permission_mode_selector_id m \<noteq> Some ?i"
    using assms(6) by (auto simp: offers_def split: option.splits)
  have ids: "model_selector_id (dr_machine r) = ?i" "model_selector_value (dr_machine r) = ?v"
    "permission_mode_selector_id (dr_machine r) = permission_mode_selector_id m"
    using assms(2) same_request_sets [OF assms(2)] by (auto simp: same_request_def)
  define m1 where "m1 = (dr_machine r)\<lparr>phase := Model_Planned\<rparr>"
  have same1: "same_request m m1" using assms(2) by (simp add: m1_def)
  have plan: "with_value model_selector_value model_plan (dr_machine r) = (m1, Inr (?i, ?v))"
    using assms(3,4) ids adv(1)
    by (auto simp: with_value_Inr model_plan_def has_permission_mode_def discovered_def m1_def Let_def split: if_splits)
  have parse: "parse_options (Some ?s) = Inr ?p" using parse_options_honest [OF assms(5)] .
  have exact: "model_exact ?p m" "permission_mode_exact ?p m"
    using adv mode_exact_other [OF assms(7) adv(2) adv(1)] by (auto simp: model_exact_def set_current_value)
  note same_facts = same_request_checks [OF same1] same_request_legs [OF same1]
  have "\<exists>m2. record_post_model_options (Some ?s) m1 = (m2, Inr ()) \<and> same_request m m2 \<and>
      post_model_options m2 = Some ?p \<and> pending_parameters m2 = requested_parameters m \<and>
      phase m2 = (if is_model_only m \<or> is_parameterized m \<and> requested_parameters m = [] then Verified else Post_Model)"
  proof (cases "is_parameterized m \<and> requested_parameters m = []")
    case True
    define m' where "m' = (record_snapshot ''post_model'' (Some ?s) m1)\<lparr>post_model_options := Some ?p\<rparr>"
    obtain m2 where m2: "verify_whole_configuration ?p m' = (m2, Inr ())" "phase m2 = Verified" "same_request m m2"
        "post_model_options m2 = post_model_options m'" "pending_parameters m2 = pending_parameters m'"
      by (rule honest_verify [OF assms(1), of m' ?p]) (use True exact assms(6) same1 in \<open>auto simp: m'_def\<close>)
    have "record_post_model_options (Some ?s) m1 = verify_whole_configuration ?p m'"
      using True parse exact same_facts assms(6,8) same1 assms(1)
      by (auto simp: record_post_model_options_def m'_def m1_def offers_def same_request_def request_ok_def
          is_parameterized_def parameter_ids_exact_def split: option.splits)
    then show ?thesis using m2 True assms(8) by (auto simp: m'_def m1_def)
  next
    case False
    have "is_parameterized m \<Longrightarrow> parameterized m1 \<noteq> None \<and> parameter_ids_exact ?p m1"
      using same_facts assms(1,6) same1
      by (auto simp: request_ok_def offers_def same_request_def parameter_ids_exact_def split: option.splits)
    moreover have "is_model_only m \<Longrightarrow> \<not> is_parameterized m"
      by (simp add: is_model_only_def is_parameterized_def FIDELITY_MODEL_ONLY_def FIDELITY_PARAMETERIZED_def)
    ultimately show ?thesis
      using False parse exact same_facts assms(8) same1
      by (auto simp: record_post_model_options_def m1_def Let_def)
  qed
  then obtain m2 where "record_post_model_options (Some ?s) m1 = (m2, Inr ())" and m2: "same_request m m2"
      "post_model_options m2 = Some ?p" "pending_parameters m2 = requested_parameters m"
      "phase m2 = (if is_model_only m \<or> is_parameterized m \<and> requested_parameters m = [] then Verified else Post_Model)"
    by blast
  from honest_leg [where plan = "with_value model_selector_value model_plan" and consume = record_post_model_options, OF plan this(1)]
  show ?thesis
    using that m2 parse exact assms(6) by (auto simp: model_leg_def halfway_def)
qed

lemma honest_effort_leg:
  assumes "halfway m [] r" "phase (dr_machine r) = Post_Model" "\<not> is_whole_configuration m" "request_ok m"
  obtains r1 where "effort_leg honest r = (r1, Inr ())" "phase (dr_machine r1) = Verified"
proof -
  obtain parsed where h: "same_request m (dr_machine r)" "parse_options (Some (dr_agent r)) = Inr parsed" "offers parsed m"
      "post_model_options (dr_machine r) = Some parsed" "model_exact parsed m" "permission_mode_exact parsed m"
    using assms(1) by (auto simp: halfway_def)
  obtain i where i: "effort_selector_id m = Some i" "i \<noteq> model_selector_id m" "permission_mode_selector_id m \<noteq> Some i"
      "advertises parsed i (requested_effort m)"
    using h(3) assms(3) by (auto simp: offers_def split: option.splits)
  let ?s = "map (honest_set i (requested_effort m)) (dr_agent r)" and ?p = "set_current i (requested_effort m) parsed"
  define m1 where "m1 = (dr_machine r)\<lparr>phase := Effort_Planned\<rparr>"
  have same1: "same_request m m1" using h(1) by (simp add: m1_def)
  have eq: "effort_selector_id (dr_machine r) = Some i" "requested_effort (dr_machine r) = requested_effort m"
    "\<not> is_whole_configuration (dr_machine r)"
    using h(1) i(1) assms(3) same_request_legs(3) [OF h(1)] by (simp_all add: same_request_def)
  have plan: "with_value requested_effort effort_plan (dr_machine r) = (m1, Inr (i, requested_effort m))"
    using eq h(4) assms(2) i(4) by (simp add: with_value_Inr effort_plan_def m1_def)
  have "\<not> is_parameterized m" using assms(3,4) request_ok_whole by blast
  then have "model_selector_value m = requested_model m"
    using assms(4) by (simp add: request_ok_def model_selector_value_def split: option.splits)
  then have "current_value ?p (model_selector_id m1) = PStr (requested_model m1)"
    using h(5) i(2,4) same1 by (simp add: model_exact_def set_current_value same_request_def)
  moreover have "effort_exact ?p m1"
    using same_request_checks(4) [OF same1] i by (simp add: effort_exact_def set_current_value)
  moreover have "permission_mode_exact ?p m1"
    using same_request_checks(2) [OF same1] mode_exact_other [OF h(6) i(3,4)] by simp
  ultimately have "record_post_effort_options (Some ?s) m1 = ((record_snapshot ''post_effort'' (Some ?s) m1)\<lparr>phase := Verified\<rparr>, Inr ())"
    using parse_options_honest [OF h(2), of i "requested_effort m"] same_request_legs(3) [OF same1] assms(3)
    by (simp add: record_post_effort_options_def m1_def)
  from honest_leg [where plan = "with_value requested_effort effort_plan" and consume = record_post_effort_options, OF plan this]
  show ?thesis using that by (simp add: effort_leg_def)
qed

lemma honest_parameter_leg:
  assumes "halfway m finished r" "phase (dr_machine r) = Post_Model \<or> phase (dr_machine r) = Post_Parameter"
    "is_parameterized m" "request_ok m" "pending_parameters (dr_machine r) = (i, v) # rest"
  obtains r1 where "parameter_leg honest r = (r1, Inr ())" "halfway m (finished @ [(i, v)]) r1"
    "phase (dr_machine r1) = (if rest = [] then Verified else Post_Parameter)" "pending_parameters (dr_machine r1) = rest"
proof -
  obtain parsed where h: "same_request m (dr_machine r)" "parse_options (Some (dr_agent r)) = Inr parsed" "offers parsed m"
      "post_model_options (dr_machine r) = Some parsed" "model_exact parsed m" "permission_mode_exact parsed m"
      "requested_parameters m = finished @ (i, v) # rest" "\<forall>(i, v) \<in> set finished. current_value parsed i = PStr v"
    using assms(1,5) by (auto simp: halfway_def)
  let ?s = "map (honest_set i v) (dr_agent r)" and ?p = "set_current i v parsed"
  have ids: "parameter_ids_exact parsed m" and adv: "advertises parsed i v"
    using h(3,7) assms(3) by (auto simp: offers_def)
  note owned = parameter_not_owned [OF ids, of i v]
  have "distinct (map fst (requested_parameters m))"
    using assms(3,4) parse_sound by (auto simp: request_ok_def requested_parameters_def literal_ok_def split: option.splits)
  then have fresh: "i \<notin> fst ` set finished" using h(7) by simp
  define m1 where "m1 = (dr_machine r)\<lparr>planned_parameter := Some (i, v), phase := Parameter_Planned\<rparr>"
  have same1: "same_request m m1" using h(1) by (simp add: m1_def)
  have plan: "parameter_plan (dr_machine r) = (m1, Inr (i, v))"
    using assms(2,3,5) h(4) adv same_request_legs(4) [OF h(1)] by (auto simp: parameter_plan_def m1_def)
  have parse: "parse_options (Some ?s) = Inr ?p" using parse_options_honest [OF h(2)] .
  have exact: "model_exact ?p m" "permission_mode_exact ?p m" "current_value ?p i = PStr v"
    using h(5,7) owned adv mode_exact_other [OF h(6) _ adv] by (auto simp: model_exact_def set_current_value)
  have finished: "\<forall>(k, w) \<in> set (finished @ [(i, v)]). current_value ?p k = PStr w"
    using h(8) fresh adv exact(3) by (force simp: set_current_value)
  define m2 where "m2 = (record_snapshot ''post_parameter'' (Some ?s) m1)
    \<lparr>pending_parameters := rest, planned_parameter := None, post_model_options := Some ?p\<rparr>"
  have same2: "same_request m m2" using same1 by (simp add: m2_def)
  have consume: "record_post_parameter_options (Some ?s) m1 =
      (if rest \<noteq> [] then (m2\<lparr>phase := Post_Parameter\<rparr>, Inr ()) else verify_whole_configuration ?p m2)"
    using parse exact same_request_checks(1) [OF same1] assms(5)
    by (simp add: record_post_parameter_options_def m1_def m2_def Let_def)
  have "\<exists>m3. record_post_parameter_options (Some ?s) m1 = (m3, Inr ()) \<and> same_request m m3 \<and>
      post_model_options m3 = Some ?p \<and> pending_parameters m3 = rest \<and>
      phase m3 = (if rest = [] then Verified else Post_Parameter)"
  proof (cases "rest = []")
    case True
    obtain m3 where "verify_whole_configuration ?p m2 = (m3, Inr ())" "phase m3 = Verified" "same_request m m3"
        "post_model_options m3 = post_model_options m2" "pending_parameters m3 = pending_parameters m2"
      by (rule honest_verify [OF assms(4,3) same2, of ?p]) (use h(3,7) True exact finished in simp_all)
    then show ?thesis using consume True by (auto simp: m2_def)
  next
    case False
    then show ?thesis using consume same2 by (simp add: m2_def)
  qed
  then obtain m3 where m3: "record_post_parameter_options (Some ?s) m1 = (m3, Inr ())" "same_request m m3"
      "post_model_options m3 = Some ?p" "pending_parameters m3 = rest" "phase m3 = (if rest = [] then Verified else Post_Parameter)"
    by blast
  from honest_leg [where plan = parameter_plan and consume = record_post_parameter_options, OF plan m3(1)]
  show ?thesis using that m3 parse exact finished h(3,7) by (simp add: parameter_leg_def halfway_def)
qed

lemma honest_loop:
  assumes "halfway m finished r" "request_ok m" "is_parameterized m"
    "phase (dr_machine r) = (if pending_parameters (dr_machine r) = [] then Verified
       else if finished = [] then Post_Model else Post_Parameter)"
  shows "\<exists>r1. parameter_loop honest r = (r1, Inr ()) \<and> phase (dr_machine r1) = Verified"
  using assms
proof (induction "pending_parameters (dr_machine r)" arbitrary: r finished)
  case Nil
  then show ?case by (simp add: parameter_loop.simps)
next
  case (Cons p rest)
  obtain i v where p: "p = (i, v)" by (cases p)
  have pend: "pending_parameters (dr_machine r) = (i, v) # rest" using Cons.hyps(2) p by simp
  obtain r1 where r1: "parameter_leg honest r = (r1, Inr ())" "halfway m (finished @ [(i, v)]) r1"
      "phase (dr_machine r1) = (if rest = [] then Verified else Post_Parameter)" "pending_parameters (dr_machine r1) = rest"
    by (rule honest_parameter_leg [OF Cons.prems(1) _ Cons.prems(3,2) pend]) (use Cons.prems(4) pend in \<open>auto split: if_splits\<close>)
  have "\<exists>r2. parameter_loop honest r1 = (r2, Inr ()) \<and> phase (dr_machine r2) = Verified"
    by (rule Cons.hyps(1) [of r1 "finished @ [(i, v)]"]) (use r1 Cons.prems in auto)
  then show ?case using r1(1) pend by (subst parameter_loop.simps) simp
qed

section \<open>Properties\<close>

text \<open>The run as it stands when the session is open: discovery recorded, nothing announced.\<close>

definition opened_run :: "machine \<Rightarrow> 's \<Rightarrow> 's driver_run" where
  "opened_run m a = \<lparr>dr_machine = m, dr_agent = a, dr_wire = [], dr_announced = False\<rparr>"

lemma opened:
  assumes "new_machine mode mid eid rm re pid pm = Inr m0" "record_initial_options os m0 = (m1, Inr u)"
  shows "runs m1 m1" "machine_ok m1" "same_request m0 m1" "pending_parameters m1 = requested_parameters m1"
    "phase m1 = Initial_Options" "requested_model m1 = rm" "requested_effort m1 = re"
    "\<exists>ps parsed. os = Some ps \<and> parse_options (Some ps) = Inr parsed \<and> initial_options m1 = Some parsed"
proof -
  note new = new_machine_ok [OF assms(1)] new_machine_pending [OF assms(1)]
  show ok: "machine_ok m1" using record_initial_ok [of m0 os] new assms(2) by simp
  show same: "same_request m0 m1" using step_same_request [of m0 "Record_Initial os"] assms(2) by simp
  show "runs m1 m1" using ok by (simp add: runs_def)
  show "phase m1 = Initial_Options" "pending_parameters m1 = requested_parameters m1"
    using success_moves(1) [OF assms(2)] new same_request_legs(2) [OF same] by auto
  show "requested_model m1 = rm" "requested_effort m1 = re" using same new by (auto simp: same_request_def)
  show "\<exists>ps parsed. os = Some ps \<and> parse_options (Some ps) = Inr parsed \<and> initial_options m1 = Some parsed"
    using assms(2) parse_options_Some by (fastforce simp: record_initial_options_def split: if_splits sum.splits)
qed

text \<open>C32. Against an arbitrary agent, when the configuration sequence returns, it returns the requested
  pair, the last complete set the agent answered shows the configuration exactly, and what was written
  is the switch boundary followed by exactly the planned sets: the permission mode, the model, and then
  the effort or the parameters in the order of the literal.\<close>

theorem configured_exactly:
  assumes "new_machine mode mid eid rm re pid pm = Inr m0" "record_initial_options os m0 = (m1, Inr u)"
    "set_config_exact agent identity_ok c h (opened_run m1 a) = (r, Inr (model, effort))"
  shows "model = rm \<and> effort = re \<and> last_answer_exact (dr_machine r) \<and> dr_wire r = Switch_Started # planned_sets m1"
proof -
  note o = opened [OF assms(1,2)]
  have "runs m1 (dr_machine r) \<and> require_ready (dr_machine r) = Inr (model, effort) \<and> dr_wire r = [] @ Switch_Started # planned_sets m1"
    using set_config_wire [OF assms(3), of m1] o(1,4) by (simp add: opened_run_def)
  then show ?thesis using ready_exact [of "dr_machine r" model effort] o(6,7) by (auto simp: runs_def same_request_def)
qed

lemma honest_configured:
  assumes "new_machine mode mid eid rm re pid pm = Inr m0" "record_initial_options (Some ps) m0 = (m1, Inr u)"
    "parse_options (Some ps) = Inr parsed" "offers parsed m0" "identity_ok = (\<lambda>s. True)"
  shows "\<exists>r. set_config_exact honest identity_ok True True (opened_run m1 ps) = (r, Inr (rm, re))"
proof -
  note o = opened [OF assms(1,2)]
  have req: "request_ok m1" using o(2) by (simp add: machine_ok_def)
  define ra where "ra = announce_config_switch (opened_run m1 ps)"
  have ra: "dr_machine ra = m1" "dr_agent ra = ps" by (simp_all add: ra_def announce_config_switch_def opened_run_def)
  have init: "initial_options m1 = Some parsed" using o(8) assms(3) by auto
  have off: "offers parsed m1" using same_request_offers [OF o(3)] assms(4) by simp
  obtain r1 parsed1 where r1: "mode_leg honest ra = (r1, Inr ())"
    "phase (dr_machine r1) = (if has_permission_mode m1 then Post_Mode else Initial_Options)"
    "discovered (dr_machine r1) = Some parsed1" "parse_options (Some (dr_agent r1)) = Inr parsed1" "offers parsed1 m1"
    "permission_mode_exact parsed1 m1" "same_request m1 (dr_machine r1)" "pending_parameters (dr_machine r1) = pending_parameters m1"
    by (rule honest_mode_leg [OF req ra(1) o(5) init _ off]) (use ra(2) assms(3) in auto)
  obtain r2 where r2: "model_leg honest r1 = (r2, Inr ())" "halfway m1 [] r2"
    "phase (dr_machine r2) = (if is_model_only m1 \<or> is_parameterized m1 \<and> requested_parameters m1 = [] then Verified else Post_Model)"
    by (rule honest_model_leg [OF req r1(7,2,3,4,5,6)]) (use r1(8) o(4) in auto)
  have pend: "pending_parameters (dr_machine r2) = requested_parameters m1" and same: "same_request m1 (dr_machine r2)"
    using r2(2) by (auto simp: halfway_def)
  note kinds = same_request_legs [OF same] request_ok_whole [OF req]
  have ready: "finish identity_ok r = (r, Inr (rm, re))"
    if "runs m1 (dr_machine r)" "phase (dr_machine r) = Verified" for r
    using that o(6,7) assms(5)
    by (auto simp: finish_Inr runs_def require_ready_def machine_ok_def same_request_def split: option.splits)
  have k1: "runs m1 (dr_machine r1)" using legs_run(1) [of m1 ra honest] o(1) ra(1) r1(1) by simp
  have k2: "runs m1 (dr_machine r2)" using legs_run(2) [OF k1, of honest] r2(1) by simp
  consider "is_model_only m1" | "\<not> is_model_only m1" "is_parameterized m1" | "\<not> is_model_only m1" "\<not> is_parameterized m1" by blast
  then show ?thesis
  proof cases
    case 1
    then show ?thesis using r1(1) r2(1,3) ready [OF k2] kinds by (simp add: set_config_exact_def flip: ra_def)
  next
    case 2
    obtain r3 where "parameter_loop honest r2 = (r3, Inr ())" "phase (dr_machine r3) = Verified"
      using honest_loop [OF r2(2) req 2(2)] r2(3) 2 pend by (fastforce split: if_splits)
    then show ?thesis using r1(1) r2(1) 2 ready [of r3] loop_run [OF k2, of honest] kinds
      by (simp add: set_config_exact_def flip: ra_def)
  next
    case 3
    obtain r3 where "effort_leg honest r2 = (r3, Inr ())" "phase (dr_machine r3) = Verified"
      by (rule honest_effort_leg [OF r2(2) _ _ req]) (use r2(3) 3 kinds in auto)
    then show ?thesis using r1(1) r2(1) 3 ready [of r3] legs_run(3) [OF k2, of honest] kinds
      by (simp add: set_config_exact_def flip: ra_def)
  qed
qed

text \<open>An agent that honours every set, and that advertises the requested model, mode, effort and
  exactly the requested parameters as select options, is always configured: the sequence ends, writes
  its sets and returns the requested pair.\<close>

theorem honest_agent_configured:
  assumes "new_machine mode mid eid rm re pid pm = Inr m0" "record_initial_options (Some ps) m0 = (m1, Inr u)"
    "parse_options (Some ps) = Inr parsed" "offers parsed m0" "identity_ok = (\<lambda>s. True)"
  shows "\<exists>r. set_config_exact honest identity_ok True True (opened_run m1 ps) = (r, Inr (rm, re))"
  by (rule honest_configured [OF assms])

definition demo_payloads :: "pydict list" where
  "demo_payloads = the (demo_set ''auto'' ''a'' ''0'' ''3'')"

definition demo_opened :: machine where
  "demo_opened = fst (record_initial_options (Some demo_payloads) demo_machine)"

definition demo_parsed :: option_set where
  "demo_parsed = projr (parse_options (Some demo_payloads))"

lemma demo_opened_ok: "record_initial_options (Some demo_payloads) demo_machine = (demo_opened, Inr ())"
proof -
  have "\<not> isl (snd (record_initial_options (Some demo_payloads) demo_machine))" by code_simp
  then show ?thesis unfolding demo_opened_def
    by (cases "record_initial_options (Some demo_payloads) demo_machine"; cases "snd (record_initial_options (Some demo_payloads) demo_machine)")
      simp_all
qed

lemma demo_parsed_ok: "parse_options (Some demo_payloads) = Inr demo_parsed"
proof -
  have "\<not> isl (parse_options (Some demo_payloads))" by code_simp
  then show ?thesis by (simp add: demo_parsed_def)
qed

theorem honest_agent_configured_witness:
  "\<exists>r. set_config_exact honest (\<lambda>s. True) True True (opened_run demo_opened demo_payloads) = (r, Inr (''b[x=1,y=2]'', ''N/A''))"
proof -
  have "offers demo_parsed demo_machine" by code_simp
  from honest_agent_configured [OF demo_machine_new demo_opened_ok demo_parsed_ok this refl] show ?thesis .
qed

theorem configured_exactly_witness:
  "dr_wire (fst (set_config_exact honest (\<lambda>s. True) True True (opened_run demo_opened demo_payloads))) =
   [Switch_Started, Set_Option ''mode'' ''ask'', Set_Option ''model'' ''b'', Set_Option ''x'' ''1'', Set_Option ''y'' ''2'']"
proof -
  let ?x = "set_config_exact honest (\<lambda>s. True) True True (opened_run demo_opened demo_payloads)"
  have "snd ?x = Inr (''b[x=1,y=2]'', ''N/A'')" by code_simp
  then have "?x = (fst ?x, Inr (''b[x=1,y=2]'', ''N/A''))" by (metis prod.collapse)
  from configured_exactly [OF demo_machine_new demo_opened_ok this]
  have "dr_wire (fst ?x) = Switch_Started # planned_sets demo_opened" by blast
  moreover have "planned_sets demo_opened =
    [Set_Option ''mode'' ''ask'', Set_Option ''model'' ''b'', Set_Option ''x'' ''1'', Set_Option ''y'' ''2'']" by code_simp
  ultimately show ?thesis by simp
qed

end
