(* ===== verification/Run_Finalize.thy ===== *)
theory Run_Finalize
  imports Reconcile
begin

text \<open>
  Finalization of a run, \<^verbatim>\<open>native_acp/run_task.py\<close>: the terminal table, the bounded final
  message, the replay tally, the terminal payload, its publication with the session's disposition, and
  the emergency path.  The asynchronous wind-down (closing the wire, reaping the child, draining the
  writer) has happened when these operations start; what it observed is the context.  Each durable
  write may fail before or after taking effect (\<open>fin_io\<close>).
\<close>

section \<open>The terminal table\<close>

record observations =
  ob_result_exists :: bool
  ob_persisted_terminal :: "string option"
  ob_dispatch_started :: bool
  ob_stop_reason :: "string option"
  ob_cancelled :: bool
  ob_timed_out :: bool
  ob_child_exit :: bool
  ob_interrupted :: bool
  ob_escalated_kill :: bool
  ob_permission_violation :: bool
  ob_rollback_unproven :: bool
  ob_pipeline_failure :: bool

datatype disposition = Keep | Reusable | Quarantine

definition status_for_stop_reason :: "string \<Rightarrow> run_status" where
  "status_for_stop_reason r =
     (if r = ''cancelled'' then CANCELLED
      else if r \<in> set COMPLETED_ACP_STOP_REASONS then COMPLETED else FAILED)"

definition post_dispatch_finalize :: "observations \<Rightarrow> run_status \<times> disposition" where
  "post_dispatch_finalize o' =
     (case ob_stop_reason o' of
        Some r \<Rightarrow>
          if ob_permission_violation o' then (FAILED, Reusable)
          else if ob_timed_out o' then (TIMED_OUT, Reusable)
          else (status_for_stop_reason r, Reusable)
      | None \<Rightarrow>
          if ob_escalated_kill o' then
            (if ob_timed_out o' then (UNKNOWN_STATUS, Quarantine)
             else if ob_cancelled o' then (UNKNOWN_STATUS, Quarantine)
             else (FAILED, Quarantine))
          else if ob_child_exit o' then (FAILED, Quarantine)
          else if ob_interrupted o' then (UNKNOWN_STATUS, Quarantine)
          else (UNKNOWN_STATUS, Quarantine))"

definition finalize_run_state :: "observations \<Rightarrow> run_status option \<times> disposition" where
  "finalize_run_state o' =
     (if ob_result_exists o' then (None, Keep)
      else (case ob_persisted_terminal o' of
        Some r \<Rightarrow> (Some (status_for_stop_reason r), Reusable)
      | None \<Rightarrow>
          if \<not> ob_dispatch_started o' then
            (Some FAILED, if ob_rollback_unproven o' then Quarantine else Reusable)
          else
            (let (status, disp) = post_dispatch_finalize o' in
             if ob_pipeline_failure o' \<and> status \<noteq> UNKNOWN_STATUS \<and> status \<in> {COMPLETED, CANCELLED, TIMED_OUT}
             then (Some FAILED, disp) else (Some status, disp))))"

section \<open>The bounded final message\<close>

record accumulator =
  ac_max :: int
  ac_parts :: "string list"
  ac_len :: int
  ac_finished :: bool
  ac_truncated :: bool
  ac_discarded :: nat

definition new_accumulator :: "int \<Rightarrow> accumulator" where
  "new_accumulator m = \<lparr>ac_max = m, ac_parts = [], ac_len = 0, ac_finished = False, ac_truncated = False, ac_discarded = 0\<rparr>"

definition discard_chunk :: "accumulator \<Rightarrow> accumulator" where
  "discard_chunk a = a\<lparr>ac_truncated := True, ac_discarded := Suc (ac_discarded a)\<rparr>"

definition retain :: "string \<Rightarrow> accumulator \<Rightarrow> accumulator" where
  "retain s a =
     (let raw = utf8_encode s in
      if s = [] then a
      else if ac_max a \<le> ac_len a then discard_chunk a
      else if int (length raw) \<le> ac_max a - ac_len a then
        a\<lparr>ac_parts := ac_parts a @ [s], ac_len := ac_len a + int (length raw)\<rparr>
      else
        (let kept = truncate_utf8_bytes raw (ac_max a - ac_len a) in
         discard_chunk
           (if kept = [] then a
            else a\<lparr>ac_parts := ac_parts a @ [utf8_decode kept], ac_len := ac_len a + int (length kept)\<rparr>)))"

definition ingest :: "string \<Rightarrow> accumulator \<Rightarrow> accumulator" where
  "ingest s a = (if s = [] \<or> ac_finished a then a else retain s a)"

definition finish_message :: "accumulator \<Rightarrow> accumulator" where
  "finish_message a = a\<lparr>ac_finished := True\<rparr>"

definition message_text :: "accumulator \<Rightarrow> string" where
  "message_text a = concat (ac_parts a)"

section \<open>The replay tally\<close>

definition REPLAY_UPDATE_KINDS :: "string list" where
  "REPLAY_UPDATE_KINDS = [''agent_message_chunk'', ''agent_thought_chunk'', ''available_commands_update'', ''config_option_update'',
   ''current_mode_update'', ''plan'', ''plan_removed'', ''plan_update'', ''session_info_update'', ''tool_call'',
   ''tool_call_update'', ''usage_update'', ''user_message_chunk'']"

record replay_ledger =
  rl_updates :: nat
  rl_by_kind :: "(string \<times> nat) list"
  rl_emitted :: bool

definition replay_key :: "pydict \<Rightarrow> string" where
  "replay_key u =
     (case dget u ''sessionUpdate'' of
        PStr k \<Rightarrow> if k \<in> set REPLAY_UPDATE_KINDS then k else ''other''
      | _ \<Rightarrow> ''other'')"

definition replay_record :: "pydict \<Rightarrow> replay_ledger \<Rightarrow> replay_ledger" where
  "replay_record u l =
     l\<lparr>rl_updates := Suc (rl_updates l),
       rl_by_kind := dset (replay_key u)
         (Suc (case map_of (rl_by_kind l) (replay_key u) of None \<Rightarrow> 0 | Some n \<Rightarrow> n)) (rl_by_kind l)\<rparr>"

definition summary_event :: "replay_ledger \<Rightarrow> pydict" where
  "summary_event l =
     [(''type'', PStr ''session_replay_summary''), (''updates'', PInt (int (rl_updates l))),
      (''by_kind'', PDict (map (\<lambda>(k, n). (k, PInt (int n))) (sort_key fst (rl_by_kind l))))]"

section \<open>The evidence pipeline's primary failure\<close>

datatype pipeline_exception = Writer_Overflow | Pipeline_Cancelled | Other_Failure

fun pipeline_failure_category :: "pipeline_exception \<Rightarrow> nat" where
  "pipeline_failure_category Writer_Overflow = 10"
| "pipeline_failure_category Pipeline_Cancelled = 20"
| "pipeline_failure_category Other_Failure = 30"

type_synonym ranked_failure = "(nat \<times> nat) \<times> pipeline_exception"

definition record_pipeline_error :: "nat \<Rightarrow> pipeline_exception \<Rightarrow> ranked_failure option \<Rightarrow> ranked_failure option" where
  "record_pipeline_error ordinal exc held =
     (let rank = (ordinal, pipeline_failure_category exc) in
      case held of
        None \<Rightarrow> Some (rank, exc)
      | Some (held_rank, e) \<Rightarrow>
          if fst rank < fst held_rank \<or> fst rank = fst held_rank \<and> snd rank < snd held_rank
          then Some (rank, exc) else held)"

section \<open>Context and world\<close>

record fin_ctx =
  fc_session :: "string option"
  fc_pending_creation :: bool
  fc_lock :: "string option"
  fc_dispatch_started :: bool
  fc_stop_reason :: "string option"
  fc_usage :: pyval
  fc_cancelled :: bool
  fc_timed_out :: bool
  fc_escalated_kill :: bool
  fc_child_exit :: bool
  fc_interrupted :: bool
  fc_pre_dispatch :: "string option"
  fc_pipeline_error :: bool
  fc_error :: bool
  fc_rollback_unproven :: bool
  fc_turn_failed :: bool
  fc_grant_violation :: bool
  fc_signal :: "int option"
  fc_message :: accumulator
  fc_last_seq :: int

record world =
  wo_store :: store
  wo_run :: run_dir

record fin_io =
  fi_fence :: io
  fi_mark :: io
  fi_clear :: io
  fi_result :: io
  fi_progress :: io
  fi_release :: io
  fi_aux :: bool \<comment> \<open>the writes of \<^verbatim>\<open>effective.json\<close>, the error log and the redaction report succeed\<close>

record fin_env =
  fe_codec :: codec
  fe_run_id :: string
  fe_run_dir :: string
  fe_moment :: string
  fe_redact :: "string \<Rightarrow> string" \<comment> \<open>\<^verbatim>\<open>redact_text\<close>\<close>

definition terminal_of :: "fin_env \<Rightarrow> world \<Rightarrow> terminal_kind \<times> pydict option" where
  "terminal_of e w = terminal_entry (co_float (fe_codec e)) (result_json (wo_run w)) (fe_run_id e)"

definition observations_of :: "fin_env \<Rightarrow> fin_ctx \<Rightarrow> world \<Rightarrow> observations" where
  "observations_of e c w =
     \<lparr>ob_result_exists = (fst (terminal_of e w) = TERM_TRUSTED), ob_persisted_terminal = None,
      ob_dispatch_started = fc_dispatch_started c, ob_stop_reason = fc_stop_reason c, ob_cancelled = fc_cancelled c,
      ob_timed_out = fc_timed_out c, ob_child_exit = fc_child_exit c, ob_interrupted = fc_interrupted c,
      ob_escalated_kill = fc_escalated_kill c, ob_permission_violation = (fc_turn_failed c \<or> fc_grant_violation c),
      ob_rollback_unproven = fc_rollback_unproven c, ob_pipeline_failure = fc_pipeline_error c\<rparr>"

section \<open>The payload\<close>

definition detail_code_for :: "fin_ctx \<Rightarrow> run_status \<Rightarrow> string option" where
  "detail_code_for c status =
     (if fc_pre_dispatch c \<noteq> None then fc_pre_dispatch c
      else if fc_grant_violation c \<and> status = FAILED then Some ''PERMISSION_VIOLATION''
      else if fc_pipeline_error c \<and> status = FAILED then Some ''EVIDENCE_PIPELINE''
      else if fc_cancelled c then Some ''SUPERVISOR_CANCELLED''
      else if fc_timed_out c \<and> status = UNKNOWN_STATUS then Some ''TURN_TIMEOUT''
      else if fc_interrupted c \<and> status = UNKNOWN_STATUS then Some ''OBSERVATION_LOST''
      else if fc_child_exit c then Some ''CHILD_EXIT_WITHOUT_TERMINAL''
      else if fc_error c then Some ''RUN_EXCEPTION''
      else None)"

definition CATEGORICAL_FAILURE_REASON_BY_DETAIL :: "(string \<times> string) list" where
  "CATEGORICAL_FAILURE_REASON_BY_DETAIL =
     [(''ADMISSION'', ''admission failed''), (''SPAWN_FAILED'', ''spawn failed''),
      (''STARTUP_TIMEOUT'', ''startup timed out''), (''LOAD_SESSION_UNADVERTISED'', ''session load unavailable''),
      (''SILENT_SESSION_RECREATION'', ''silent session recreation''),
      (''SESSION_NOT_FOUND_FOR_REUSE'', ''session not found for reuse''),
      (''SESSION_RECORD_INVALID'', ''session record invalid''),
      (''SESSION_EXTERNAL_ID_MISSING'', ''session external id missing''),
      (''SESSION_BINDING_MISMATCH'', ''session binding mismatch''), (''SESSION_QUARANTINED'', ''session quarantined''),
      (''CONFIG_FIDELITY'', ''config fidelity failed''), (''EVIDENCE_PIPELINE'', ''evidence pipeline failed''),
      (''SUPERVISOR_CANCELLED'', ''supervisor cancellation''), (''RUN_EXCEPTION'', ''run exception'')]"

definition categorical_failure_reason :: "string option \<Rightarrow> string" where
  "categorical_failure_reason detail =
     (case detail of
        None \<Rightarrow> ''run failed''
      | Some d \<Rightarrow> (case map_of CATEGORICAL_FAILURE_REASON_BY_DETAIL d of None \<Rightarrow> ''run failed'' | Some r \<Rightarrow> r))"

definition failure_reason_for :: "fin_ctx \<Rightarrow> string option \<Rightarrow> string option" where
  "failure_reason_for c detail =
     (if fc_pre_dispatch c \<noteq> None
      then sanitize_failure_reason (PStr (categorical_failure_reason (fc_pre_dispatch c)))
      else if fc_cancelled c then sanitize_failure_reason (PStr ''supervisor cancellation'')
      else if fc_error c then sanitize_failure_reason (PStr (categorical_failure_reason detail))
      else None)"

definition terminal_args :: "fin_env \<Rightarrow> fin_ctx \<Rightarrow> run_status \<Rightarrow> result_args" where
  "terminal_args e c status =
     (let acc = fc_message c; spoken = (ac_len acc \<noteq> 0 \<or> ac_truncated acc) in
      \<lparr>ra_run_id = fe_run_id e, ra_status = status,
       ra_origin = (if fc_stop_reason c \<noteq> None then ''acp'' else ''supervisor''),
       ra_detail_code = detail_code_for c status, ra_retryable = retryable_default status, ra_signal = fc_signal c,
       ra_stop_reason = fc_stop_reason c, ra_usage = sanitize_usage (co_float (fe_codec e)) (fc_usage c),
       ra_final_message = (if spoken then fe_redact e (message_text acc) else []),
       ra_truncated = (spoken \<and> ac_truncated acc),
       ra_truncate_reason = (if spoken \<and> ac_truncated acc then Some ''max_final_message_bytes'' else None),
       ra_run_dir = fe_run_dir e, ra_raw_event_path = ''events.jsonl'', ra_stderr_path = ''stderr.log'',
       ra_redaction_report_path = ''redaction-report.json'', ra_error_code = None, ra_observed_effect = None\<rparr>)"

definition with_failure_reason :: "string option \<Rightarrow> pydict \<Rightarrow> pydict" where
  "with_failure_reason r p = (case r of None \<Rightarrow> p | Some x \<Rightarrow> dset ''failure_reason'' (PStr x) p)"

definition terminal_payload :: "fin_env \<Rightarrow> fin_ctx \<Rightarrow> run_status \<Rightarrow> pydict option" where
  "terminal_payload e c status =
     enforce_native_result_ceiling (co_float (fe_codec e))
       (with_failure_reason (failure_reason_for c (detail_code_for c status))
         (with_session (fc_session c) (build_result_payload (terminal_args e c status))))
       (fe_run_id e) (fe_run_dir e) (fc_session c)"

section \<open>Publication\<close>

datatype fin_error = Store_Error session_error | Write_Error | Untrusted_Terminal | Serializer_Raised | Auxiliary_Error

definition QUARANTINE_DISPATCH_OBSERVATION_LOST :: string where
  "QUARANTINE_DISPATCH_OBSERVATION_LOST = ''DISPATCH_OBSERVATION_LOST''"

definition QUARANTINE_DISPATCH_WITHOUT_TERMINAL :: string where
  "QUARANTINE_DISPATCH_WITHOUT_TERMINAL = ''DISPATCH_WITHOUT_TRUSTWORTHY_TERMINAL''"

definition QUARANTINE_UNTRUSTED_TERMINAL_EVIDENCE :: string where
  "QUARANTINE_UNTRUSTED_TERMINAL_EVIDENCE = ''UNTRUSTED_TERMINAL_EVIDENCE''"

definition quarantine_session :: "fin_io \<Rightarrow> fin_env \<Rightarrow> fin_ctx \<Rightarrow> string \<Rightarrow> store \<Rightarrow> store \<times> (fin_error + unit)" where
  "quarantine_session i e c reason st =
     (case fc_session c of
        None \<Rightarrow> (st, Inr ())
      | Some sid \<Rightarrow>
          if fc_pending_creation c then (st, Inr ())
          else (case write_quarantine_pending (fi_fence i) sid reason (fe_run_id e) (fe_moment e) st of
                  (st1, Inl x) \<Rightarrow> (st1, Inl (Store_Error x))
                | (st1, Inr _) \<Rightarrow>
                    (case mark_quarantined (fi_mark i) (fi_clear i) sid reason (fe_run_id e) (fe_moment e) st1 of
                       (st2, Inl x) \<Rightarrow> (st2, Inl (Store_Error x))
                     | (st2, Inr _) \<Rightarrow> (st2, Inr ()))))"

text \<open>\<^verbatim>\<open>_quarantine\<close>: its default swallows the exception.\<close>

definition quarantine_swallowing :: "fin_io \<Rightarrow> fin_env \<Rightarrow> fin_ctx \<Rightarrow> string \<Rightarrow> store \<Rightarrow> store \<times> (fin_error + unit)" where
  "quarantine_swallowing i e c reason st = (fst (quarantine_session i e c reason st), Inr ())"

datatype once = Once_Ok | Once_Exists | Once_Failed

definition write_once :: "io \<Rightarrow> dentry \<Rightarrow> pydict \<Rightarrow> dentry \<times> once" where
  "write_once i old payload =
     (case old of
        Absent \<Rightarrow> (put i Absent (Doc (PDict payload)), if i = Io_Ok then Once_Ok else Once_Failed)
      | Indeterminate \<Rightarrow> (old, Once_Failed)
      | _ \<Rightarrow> (old, Once_Exists))"

definition quarantine_reason :: "fin_ctx \<Rightarrow> run_status \<Rightarrow> string" where
  "quarantine_reason c status =
     (if fc_rollback_unproven c \<and> \<not> fc_dispatch_started c then QUARANTINE_SWITCH
      else if status = UNKNOWN_STATUS then QUARANTINE_DISPATCH_OBSERVATION_LOST
      else QUARANTINE_DISPATCH_WITHOUT_TERMINAL)"

definition release_lease :: "fin_io \<Rightarrow> fin_ctx \<Rightarrow> store \<Rightarrow> store" where
  "release_lease i c st =
     (case (fc_lock c, fc_session c) of
        (Some token, Some sid) \<Rightarrow> fst (release_lock (fi_release i) sid token st)
      | _ \<Rightarrow> st)"

definition run_progress :: "fin_env \<Rightarrow> fin_ctx \<Rightarrow> string \<Rightarrow> pydict" where
  "run_progress e c state =
     [(''schema_version'', PInt 1), (''state'', PStr state), (''last_seq'', PInt (fc_last_seq c)),
      (''event_count'', PInt (fc_last_seq c)), (''updated_at'', PStr (fe_moment e))]"

definition write_progress :: "fin_io \<Rightarrow> fin_env \<Rightarrow> fin_ctx \<Rightarrow> string \<Rightarrow> run_dir \<Rightarrow> run_dir" where
  "write_progress i e c state d =
     d\<lparr>progress_json := put (fi_progress i) (progress_json d) (Doc (PDict (run_progress e c state)))\<rparr>"

text \<open>The tail of the publication, once the terminal that stands is known.\<close>

definition settle_terminal :: "fin_io \<Rightarrow> fin_env \<Rightarrow> fin_ctx \<Rightarrow> pydict \<Rightarrow> world \<Rightarrow> world \<times> (fin_error + pydict)" where
  "settle_terminal i e c payload w =
     (let w1 = w\<lparr>wo_run := write_progress i e c (the_str (dget payload ''status'')) (wo_run w)\<rparr> in
      if fi_progress i \<noteq> Io_Ok then (w1, Inl Write_Error)
      else (w1\<lparr>wo_store := release_lease i c (wo_store w1)\<rparr>, Inr payload))"

text \<open>The exclusive create, and what happens when another finalizer won it.\<close>

definition publish_result :: "fin_io \<Rightarrow> fin_env \<Rightarrow> fin_ctx \<Rightarrow> pydict \<Rightarrow> world \<Rightarrow> world \<times> (fin_error + pydict)" where
  "publish_result i e c payload w =
     (let (entry, res) = write_once (fi_result i) (result_json (wo_run w)) payload;
          w1 = w\<lparr>wo_run := (wo_run w)\<lparr>result_json := entry\<rparr>\<rparr>
      in case res of
           Once_Ok \<Rightarrow> settle_terminal i e c payload w1
         | Once_Failed \<Rightarrow> (w1, Inl Write_Error)
         | Once_Exists \<Rightarrow>
             (case terminal_of e w1 of
                (TERM_TRUSTED, Some existing) \<Rightarrow> settle_terminal i e c existing w1
              | _ \<Rightarrow>
                  (case quarantine_session i e c QUARANTINE_UNTRUSTED_TERMINAL_EVIDENCE (wo_store w1) of
                     (st2, Inl x) \<Rightarrow> (w1\<lparr>wo_store := st2\<rparr>, Inl x)
                   | (st2, Inr _) \<Rightarrow> (w1\<lparr>wo_store := st2\<rparr>, Inl Untrusted_Terminal))))"

definition publish_terminal_with_disposition ::
  "fin_io \<Rightarrow> fin_env \<Rightarrow> fin_ctx \<Rightarrow> run_status \<Rightarrow> disposition \<Rightarrow> pydict \<Rightarrow> world \<Rightarrow> world \<times> (fin_error + pydict)" where
  "publish_terminal_with_disposition i e c status disp payload w =
     (case (if disp = Quarantine then quarantine_session i e c (quarantine_reason c status) (wo_store w)
            else (wo_store w, Inr ())) of
        (st1, Inl x) \<Rightarrow> (w\<lparr>wo_store := st1\<rparr>, Inl x)
      | (st1, Inr _) \<Rightarrow> publish_result i e c payload (w\<lparr>wo_store := st1\<rparr>))"

section \<open>The two finalizers\<close>

text \<open>What the caller is told, besides what is on disk.\<close>

datatype run_answer = Published pydict | Disposition_Failed | Finalization_Failed

text \<open>\<^verbatim>\<open>_finalize_inner\<close> after the wind-down: an exception is the left side.\<close>

definition finalize_inner :: "fin_io \<Rightarrow> fin_env \<Rightarrow> fin_ctx \<Rightarrow> world \<Rightarrow> world \<times> (fin_error + run_answer)" where
  "finalize_inner i e c w =
     (case finalize_run_state (observations_of e c w) of
        (None, _) \<Rightarrow>
          (case terminal_of e w of
             (TERM_TRUSTED, Some p) \<Rightarrow> (w, Inr (Published p))
           | _ \<Rightarrow> (w\<lparr>wo_store := fst (quarantine_swallowing i e c QUARANTINE_UNTRUSTED_TERMINAL_EVIDENCE (wo_store w))\<rparr>,
                    Inl Untrusted_Terminal))
      | (Some status, disp) \<Rightarrow>
          if \<not> fi_aux i then (w, Inl Auxiliary_Error)
          else (case terminal_payload e c status of
                  None \<Rightarrow> (w, Inl Serializer_Raised)
                | Some payload \<Rightarrow>
                    (let status' = (case run_status_of (the_str (dget payload ''status'')) of Some s \<Rightarrow> s | None \<Rightarrow> status) in
                     case publish_terminal_with_disposition i e c status' disp payload w of
                       (w1, Inl _) \<Rightarrow> (w1, Inr Disposition_Failed)
                     | (w1, Inr p) \<Rightarrow> (w1, Inr (Published p)))))"

definition emergency_status :: "fin_ctx \<Rightarrow> run_status" where
  "emergency_status c = (if fc_dispatch_started c \<and> fc_stop_reason c = None then UNKNOWN_STATUS else FAILED)"

definition emergency_payload :: "fin_env \<Rightarrow> fin_ctx \<Rightarrow> pydict option" where
  "emergency_payload e c =
     enforce_native_result_ceiling (co_float (fe_codec e))
       (with_session (fc_session c)
         (build_result_payload ((supervisor_args (fe_run_id e) (emergency_status c) ''EMERGENCY_FINALIZE'' (fe_run_dir e))
            \<lparr>ra_stop_reason := fc_stop_reason c, ra_usage := sanitize_usage (co_float (fe_codec e)) (fc_usage c)\<rparr>)))
       (fe_run_id e) (fe_run_dir e) (fc_session c)"

text \<open>\<^verbatim>\<open>_emergency_cleanup\<close> once the child is reaped.\<close>

definition emergency_cleanup :: "fin_io \<Rightarrow> fin_env \<Rightarrow> fin_ctx \<Rightarrow> world \<Rightarrow> world" where
  "emergency_cleanup i e c w =
     (case fst (terminal_of e w) of
        TERM_INVALID \<Rightarrow>
          (if fc_session c = None then w
           else w\<lparr>wo_store := fst (quarantine_swallowing i e c QUARANTINE_UNTRUSTED_TERMINAL_EVIDENCE (wo_store w))\<rparr>)
      | TERM_TRUSTED \<Rightarrow> w\<lparr>wo_store := release_lease i c (wo_store w)\<rparr>
      | TERM_ABSENT \<Rightarrow>
          (let need = (fc_session c \<noteq> None \<and> fc_dispatch_started c \<and> fc_stop_reason c = None) in
           case (if need then quarantine_swallowing i e c QUARANTINE_DISPATCH_WITHOUT_TERMINAL (wo_store w)
                 else (wo_store w, Inr ())) of
             (st1, Inl _) \<Rightarrow> w\<lparr>wo_store := st1\<rparr>
           | (st1, Inr _) \<Rightarrow>
               (let w1 = w\<lparr>wo_store := st1\<rparr> in
                case emergency_payload e c of
                  None \<Rightarrow> w1
                | Some payload \<Rightarrow>
                    (let (entry, res) = write_once (fi_result i) (result_json (wo_run w1)) payload;
                         w2 = w1\<lparr>wo_run := (wo_run w1)\<lparr>result_json := entry\<rparr>\<rparr>
                     in if res = Once_Ok \<and> fst (terminal_of e w2) = TERM_TRUSTED
                        then w2\<lparr>wo_store := release_lease i c (wo_store w2)\<rparr> else w2))))"

definition finalize :: "fin_io \<Rightarrow> fin_io \<Rightarrow> fin_env \<Rightarrow> fin_ctx \<Rightarrow> world \<Rightarrow> world \<times> run_answer" where
  "finalize i j e c w =
     (case finalize_inner i e c w of
        (w1, Inr answer) \<Rightarrow> (w1, answer)
      | (w1, Inl _) \<Rightarrow> (emergency_cleanup j e c w1, Finalization_Failed))"

end
