(* ===== verification/Run_Finalize_Props.thy ===== *)
theory Run_Finalize_Props
  imports Run_Finalize Reconcile_Props
begin

text \<open>The terminal table, the message bound, the trust of what finalization publishes, the order of
  quarantine, terminal and lease, and where the emergency path departs from it.\<close>

section \<open>The table\<close>

lemma status_for_stop_reason_cases:
  "status_for_stop_reason r \<noteq> UNKNOWN_STATUS" "status_for_stop_reason r \<noteq> TIMED_OUT"
  "status_for_stop_reason r = COMPLETED \<longleftrightarrow> r \<in> set COMPLETED_ACP_STOP_REASONS"
  "status_for_stop_reason r = CANCELLED \<longleftrightarrow> r = ''cancelled''"
  by (auto simp: status_for_stop_reason_def COMPLETED_ACP_STOP_REASONS_def)

lemma table_dispatched:
  assumes "\<not> ob_result_exists x" "ob_persisted_terminal x = None" "ob_dispatch_started x"
  shows "snd (finalize_run_state x) = (if ob_stop_reason x = None then Quarantine else Reusable)"
    "fst (finalize_run_state x) = Some COMPLETED \<longleftrightarrow>
       (\<exists>r \<in> set COMPLETED_ACP_STOP_REASONS. ob_stop_reason x = Some r) \<and> \<not> ob_permission_violation x \<and>
       \<not> ob_timed_out x \<and> \<not> ob_pipeline_failure x"
    "fst (finalize_run_state x) = Some CANCELLED \<longleftrightarrow>
       ob_stop_reason x = Some ''cancelled'' \<and> \<not> ob_permission_violation x \<and> \<not> ob_timed_out x \<and> \<not> ob_pipeline_failure x"
    "fst (finalize_run_state x) = Some TIMED_OUT \<longleftrightarrow>
       ob_stop_reason x \<noteq> None \<and> \<not> ob_permission_violation x \<and> ob_timed_out x \<and> \<not> ob_pipeline_failure x"
    "fst (finalize_run_state x) = Some UNKNOWN_STATUS \<longleftrightarrow>
       ob_stop_reason x = None \<and>
       (if ob_escalated_kill x then ob_timed_out x \<or> ob_cancelled x else \<not> ob_child_exit x)"
    "fst (finalize_run_state x) \<in> {Some COMPLETED, Some CANCELLED, Some TIMED_OUT, Some UNKNOWN_STATUS, Some FAILED}"
  using assms status_for_stop_reason_cases
  by (auto simp: finalize_run_state_def post_dispatch_finalize_def status_for_stop_reason_def COMPLETED_ACP_STOP_REASONS_def
      split: option.splits if_splits)

lemma table_undispatched:
  assumes "\<not> ob_result_exists x" "ob_persisted_terminal x = None" "\<not> ob_dispatch_started x"
  shows "finalize_run_state x = (Some FAILED, if ob_rollback_unproven x then Quarantine else Reusable)"
  using assms by (simp add: finalize_run_state_def)

text \<open>C22. The terminal table is exact and never overclaims.  For a run without a standing terminal: it is
  completed exactly when it was dispatched, the agent ended the turn with a completing stop reason, nothing violated the
  grant, no deadline passed and all evidence was persisted; cancelled exactly when, under the same conditions, the agent's
  own stop reason is cancelled; timed out exactly when the agent did stop, without violation or lost evidence, but past the
  deadline; unknown exactly when a dispatched turn has no stop reason and the supervisor's own kill or the lost
  observation explains it; failed in every other case.  Its session is quarantined exactly when a dispatched turn has no
  stop reason, or, before any dispatch, when a configuration rollback is unproven.\<close>

theorem terminal_table_sound:
  assumes "\<not> ob_result_exists x" "ob_persisted_terminal x = None"
  shows
    "(fst (finalize_run_state x) = Some COMPLETED \<longleftrightarrow>
        ob_dispatch_started x \<and> (\<exists>r \<in> set COMPLETED_ACP_STOP_REASONS. ob_stop_reason x = Some r) \<and>
        \<not> ob_permission_violation x \<and> \<not> ob_timed_out x \<and> \<not> ob_pipeline_failure x) \<and>
     (fst (finalize_run_state x) = Some CANCELLED \<longleftrightarrow>
        ob_dispatch_started x \<and> ob_stop_reason x = Some ''cancelled'' \<and>
        \<not> ob_permission_violation x \<and> \<not> ob_timed_out x \<and> \<not> ob_pipeline_failure x) \<and>
     (fst (finalize_run_state x) = Some TIMED_OUT \<longleftrightarrow>
        ob_dispatch_started x \<and> ob_stop_reason x \<noteq> None \<and>
        \<not> ob_permission_violation x \<and> ob_timed_out x \<and> \<not> ob_pipeline_failure x) \<and>
     (fst (finalize_run_state x) = Some UNKNOWN_STATUS \<longleftrightarrow>
        ob_dispatch_started x \<and> ob_stop_reason x = None \<and>
        (if ob_escalated_kill x then ob_timed_out x \<or> ob_cancelled x else \<not> ob_child_exit x)) \<and>
     fst (finalize_run_state x) \<in> {Some COMPLETED, Some CANCELLED, Some TIMED_OUT, Some UNKNOWN_STATUS, Some FAILED} \<and>
     (snd (finalize_run_state x) = Quarantine \<longleftrightarrow>
        (if ob_dispatch_started x then ob_stop_reason x = None else ob_rollback_unproven x)) \<and>
     snd (finalize_run_state x) \<in> {Quarantine, Reusable}"
proof (cases "ob_dispatch_started x")
  case True
  then show ?thesis using table_dispatched [OF assms] by simp
next
  case False
  then show ?thesis using table_undispatched [OF assms] by simp
qed

definition demo_observations :: observations where
  "demo_observations =
     \<lparr>ob_result_exists = False, ob_persisted_terminal = None, ob_dispatch_started = True, ob_stop_reason = None,
      ob_cancelled = True, ob_timed_out = False, ob_child_exit = False, ob_interrupted = False, ob_escalated_kill = True,
      ob_permission_violation = False, ob_rollback_unproven = False, ob_pipeline_failure = True\<rparr>"

theorem terminal_table_sound_witness:
  "fst (finalize_run_state demo_observations) = Some UNKNOWN_STATUS \<and>
   snd (finalize_run_state demo_observations) = Quarantine"
  using terminal_table_sound [of demo_observations] by (simp add: demo_observations_def)

section \<open>The final message\<close>

lemma utf8_valid_low: "b \<le> 0x7F \<Longrightarrow> utf8_valid (b # s) = utf8_valid s"
  by (subst utf8_valid.simps) simp

lemma utf8_valid_two:
  assumes "0xC2 \<le> b" "b \<le> 0xDF"
  shows "utf8_valid (b # s) \<longleftrightarrow> (\<exists>c r. s = c # r \<and> continuation c \<and> utf8_valid r)"
proof -
  have "\<not> b \<le> (0x7F :: 8 word)"
  proof
    assume "b \<le> 0x7F"
    then have "(0xC2 :: 8 word) \<le> 0x7F" using assms(1) by (rule order_trans [rotated])
    then show False by simp
  qed
  then show ?thesis using assms by (subst utf8_valid.simps) (auto split: list.splits)
qed

lemma low_char: "(of_char c :: nat) < 128 \<Longrightarrow> \<exists>b. utf8_char c = [b] \<and> b \<le> 0x7F"
  by (auto simp: utf8_char_def word_le_nat_alt unat_byte)

lemma high_char:
  assumes "\<not> (of_char c :: nat) < 128"
  shows "\<exists>b d. utf8_char c = [b, d] \<and> 0xC2 \<le> b \<and> b \<le> 0xDF"
proof -
  define n where "n = (of_char c :: nat)"
  have n: "128 \<le> n" "n < 256" using assms by (simp_all add: n_def)
  have "2 \<le> n div 64" "n div 64 < 4" using n less_mult_imp_div_less [of n 4 64] by (simp_all add: less_eq_div_iff_mult_less_eq)
  then have "192 + n div 64 < 256" by simp
  then have "unat (of_nat (192 + n div 64) :: 8 word) = 192 + n div 64" by (rule unat_byte)
  then show ?thesis using assms \<open>2 \<le> n div 64\<close> \<open>n div 64 < 4\<close>
    by (auto simp: utf8_char_def Let_def word_le_nat_alt simp flip: n_def)
qed

lemma utf8_encode_Cons: "utf8_encode (c # s) = utf8_char c @ utf8_encode s"
  by (simp add: utf8_encode_def)

text \<open>A valid prefix of encoded text is the encoding of a prefix.\<close>

lemma valid_prefix_encoded:
  "utf8_valid (take k (utf8_encode s)) \<Longrightarrow> \<exists>j. take k (utf8_encode s) = utf8_encode (take j s)"
proof (induction s arbitrary: k)
  case Nil
  then show ?case by (simp add: utf8_encode_def)
next
  case (Cons c s)
  show ?case
  proof (cases "k = 0")
    case True
    then show ?thesis by (intro exI [of _ 0]) (simp add: utf8_encode_def)
  next
    case False
    then obtain k1 where k1: "k = Suc k1" by (cases k) auto
    show ?thesis
    proof (cases "(of_char c :: nat) < 128")
      case True
      then obtain b where b: "utf8_char c = [b]" "b \<le> 0x7F" using low_char by blast
      then have "utf8_valid (take k1 (utf8_encode s))" using Cons.prems by (simp add: utf8_encode_Cons k1 utf8_valid_low)
      then obtain j where "take k1 (utf8_encode s) = utf8_encode (take j s)" using Cons.IH by blast
      then show ?thesis using b by (intro exI [of _ "Suc j"]) (simp add: utf8_encode_Cons k1)
    next
      case False
      then obtain b d where b: "utf8_char c = [b, d]" "0xC2 \<le> b" "b \<le> 0xDF" using high_char by blast
      then have two: "utf8_valid (b # take k1 (d # utf8_encode s))" using Cons.prems by (simp add: utf8_encode_Cons k1)
      then obtain k2 where k2: "k1 = Suc k2" using utf8_valid_two [OF b(2,3)] by (cases k1) auto
      then have "utf8_valid (take k2 (utf8_encode s))" using two utf8_valid_two [OF b(2,3)] by auto
      then obtain j where "take k2 (utf8_encode s) = utf8_encode (take j s)" using Cons.IH by blast
      then show ?thesis using b by (intro exI [of _ "Suc j"]) (simp add: utf8_encode_Cons k1 k2)
    qed
  qed
qed

lemma truncated_text:
  "\<exists>j. truncate_utf8_bytes (utf8_encode s) m = utf8_encode (take j s) \<and>
       int (length (truncate_utf8_bytes (utf8_encode s) m)) \<le> max 0 m"
proof (cases "m \<le> 0 \<or> utf8_encode s = []")
  case True
  then show ?thesis by (intro exI [of _ 0]) (simp add: truncate_utf8_bytes_def utf8_encode_def)
next
  case False
  let ?c = "take (nat m) (utf8_encode s)"
  have spec: "utf8_valid (trim_invalid ?c)" "prefix (trim_invalid ?c) ?c" using trim_invalid_spec by blast+
  have eq: "truncate_utf8_bytes (utf8_encode s) m = trim_invalid ?c" using False by (simp add: truncate_utf8_bytes_def)
  have "prefix (trim_invalid ?c) (utf8_encode s)" using spec(2) take_is_prefix prefix_order.trans by blast
  then obtain k where k: "trim_invalid ?c = take k (utf8_encode s)" by (metis append_eq_conv_conj prefix_def)
  then obtain j where "trim_invalid ?c = utf8_encode (take j s)" using valid_prefix_encoded [of k s] spec(1) by auto
  moreover have "int (length (trim_invalid ?c)) \<le> m" using prefix_length_le [OF spec(2)] False by auto
  ultimately show ?thesis using eq by auto
qed

text \<open>The accumulator after ingesting chunks: its length is the encoded length of its text, within the
  bound; while nothing was cut the text is everything ingested.\<close>

definition accumulated :: "string list \<Rightarrow> accumulator \<Rightarrow> bool" where
  "accumulated chunks a \<longleftrightarrow>
     ac_len a = int (length (utf8_encode (message_text a))) \<and> ac_len a \<le> max 0 (ac_max a) \<and>
     (ac_truncated a \<longleftrightarrow> 0 < ac_discarded a) \<and> (\<not> ac_truncated a \<longrightarrow> message_text a = concat chunks)"

lemma utf8_encode_append: "utf8_encode (s @ t) = utf8_encode s @ utf8_encode t"
  by (simp add: utf8_encode_def)

lemma retain_accumulated:
  assumes "accumulated chunks a" "0 < ac_max a"
  shows "accumulated (chunks @ [s]) (retain s a) \<and> ac_max (retain s a) = ac_max a \<and> ac_finished (retain s a) = ac_finished a"
proof -
  obtain j where j: "truncate_utf8_bytes (utf8_encode s) (ac_max a - ac_len a) = utf8_encode (take j s)"
    "int (length (utf8_encode (take j s))) \<le> max 0 (ac_max a - ac_len a)"
    using truncated_text [of s "ac_max a - ac_len a"] by auto
  show ?thesis using assms j
    by (auto simp: accumulated_def retain_def discard_chunk_def message_text_def Let_def utf8_encode_append utf8_decode_encode)
qed

lemma ingest_accumulated:
  assumes "accumulated chunks a" "0 < ac_max a" "\<not> ac_finished a"
  shows "accumulated (chunks @ [s]) (ingest s a) \<and> ac_max (ingest s a) = ac_max a \<and> \<not> ac_finished (ingest s a)"
proof (cases "s = []")
  case True
  then show ?thesis using assms by (simp add: ingest_def accumulated_def)
next
  case False
  then show ?thesis using retain_accumulated [OF assms(1,2), of s] assms(3) by (simp add: ingest_def)
qed

lemma run_accumulated:
  assumes "0 < m"
  shows "accumulated chunks (fold ingest chunks (new_accumulator m)) \<and>
    ac_max (fold ingest chunks (new_accumulator m)) = m \<and> \<not> ac_finished (fold ingest chunks (new_accumulator m))"
proof (induction chunks rule: rev_induct)
  case Nil
  then show ?case using assms by (simp add: accumulated_def new_accumulator_def message_text_def utf8_encode_def)
next
  case (snoc s chunks)
  then show ?case using ingest_accumulated [of chunks _ s] assms by simp
qed

text \<open>The final message is bounded and honest about its cuts: whatever chunks the agent sends, the
  retained text encodes to at most the configured bytes; as long as the truncation flag is down the
  text is exactly the concatenation of every chunk, and the flag is up exactly when a chunk was cut or
  dropped.\<close>

theorem final_message_bounded:
  assumes "0 < m" "a = fold ingest chunks (new_accumulator m)"
  shows "int (length (utf8_encode (message_text a))) \<le> m \<and> (ac_truncated a \<longleftrightarrow> 0 < ac_discarded a) \<and>
    (\<not> ac_truncated a \<longrightarrow> message_text a = concat chunks)"
  using run_accumulated [OF assms(1), of chunks] assms by (auto simp: accumulated_def)

theorem final_message_bounded_witness:
  "int (length (utf8_encode (message_text (fold ingest [''ab'', ''cde''] (new_accumulator 4))))) \<le> 4"
  using final_message_bounded [of 4 _ "[''ab'', ''cde'']"] by simp

text \<open>Once a chunk was cut at a character boundary, a later chunk that fits is still retained, so the
  truncated text need not be a prefix of what the agent sent.\<close>

lemma message_hole:
  "message_text (fold ingest [[CHR ''a'', CHR 0xE9], ''b''] (new_accumulator 2)) = ''ab''"
  "\<not> prefix ''ab'' (concat [[CHR ''a'', CHR 0xE9], ''b''])"
  by code_simp+

section \<open>What finalization publishes is trusted\<close>

lemma failure_reason_allowed: "failure_reason_for c d = Some r \<Longrightarrow> r \<in> set ALLOWED_FAILURE_REASONS"
  by (auto simp: failure_reason_for_def ALLOWED_FAILURE_REASONS_def split: if_splits)

lemma with_failure_reason_dget: "k \<noteq> ''failure_reason'' \<Longrightarrow> dget (with_failure_reason r p) k = dget p k"
  by (cases r) (simp_all add: with_failure_reason_def)

lemma with_failure_reason_keys:
  "fst ` set (with_failure_reason r p) = (case r of None \<Rightarrow> fst ` set p | Some _ \<Rightarrow> insert ''failure_reason'' (fst ` set p))"
  by (cases r) (simp_all add: with_failure_reason_def)

lemma reason_fields_ok:
  assumes "terminal_fields_ok p run_id"
  shows "terminal_fields_ok (with_failure_reason r p) run_id"
proof -
  have keys: "fst ` set p \<subseteq> set KNOWN_NATIVE_RESULT_FIELDS"
    using assms by (auto simp: terminal_fields_ok_def list_all_iff)
  have "fst ` set (with_failure_reason r p) \<subseteq> set KNOWN_NATIVE_RESULT_FIELDS"
    using keys by (auto simp: with_failure_reason_keys KNOWN_NATIVE_RESULT_FIELDS_def split: option.splits)
  moreover have "fst ` set p \<subseteq> fst ` set (with_failure_reason r p)"
    by (auto simp: with_failure_reason_keys split: option.splits)
  ultimately show ?thesis
    using assms by (auto simp: terminal_fields_ok_def list_all_iff has_key_def with_failure_reason_dget)
qed

lemma reason_types_ok:
  assumes "terminal_types_ok p" "\<And>x. r = Some x \<Longrightarrow> x \<in> set ALLOWED_FAILURE_REASONS"
  shows "terminal_types_ok (with_failure_reason r p)"
proof (cases r)
  case None
  then show ?thesis using assms(1) by (simp add: with_failure_reason_def)
next
  case (Some x)
  then have "dget (with_failure_reason r p) ''failure_reason'' = PStr x" by (simp add: with_failure_reason_def)
  then show ?thesis using assms Some by (simp add: terminal_types_ok_def with_failure_reason_dget)
qed

lemma reason_payload_trusted:
  assumes "args_native a" "\<And>x. r = Some x \<Longrightarrow> x \<in> set ALLOWED_FAILURE_REASONS"
    "native_result_serialized_size fr (with_failure_reason r (with_session sid (build_result_payload a))) = Some n"
    "n \<le> MAX_NATIVE_RESULT_SERIALIZED_BYTES"
  shows "validate_native_terminal_result fr (PDict (with_failure_reason r (with_session sid (build_result_payload a)))) (ra_run_id a) =
    Some (with_failure_reason r (with_session sid (build_result_payload a)))"
proof -
  have "dget (build_result_payload a) ''retryable'' = PBool (ra_retryable a)"
    "dget (build_result_payload a) ''status'' = PStr (status_value (ra_status a))"
    "dget (build_result_payload a) ''origin'' = PStr (ra_origin a)"
    "dget (build_result_payload a) ''stop_reason'' = pstr_opt (ra_stop_reason a)"
    "dget (build_result_payload a) ''detail_code'' = pstr_opt (ra_detail_code a)"
    by (simp_all add: build_result_payload_def dget_def)
  moreover have "dget (build_result_payload a) ''error_code'' = pstr_opt (default_error_code (ra_status a))"
    using assms(1) by (simp add: build_result_payload_def dget_def args_native_def)
  ultimately show ?thesis
    using assms(1,3,4) reason_fields_ok [OF payload_fields_ok] reason_types_ok [OF payload_types_ok assms(2)]
    by (auto simp: validate_native_terminal_result_def with_failure_reason_dget with_session_dget args_native_def)
qed

text \<open>The status the table gives, with the origin, the stop reason and the detail the payload carries, is
  one the reader's grammar accepts.\<close>

lemma table_args_native:
  assumes "finalize_run_state (observations_of e c w) = (Some status, disp)" "fc_stop_reason c = None \<or> fc_dispatch_started c"
  shows "args_native (terminal_args e c status)"
proof -
  let ?o = "observations_of e c w"
  have base: "\<not> ob_result_exists ?o" "ob_persisted_terminal ?o = None" "ob_stop_reason ?o = fc_stop_reason c"
      "ob_dispatch_started ?o = fc_dispatch_started c"
    using assms(1) by (auto simp: finalize_run_state_def observations_of_def split: if_splits)
  have "semantic_grammar_ok status (if fc_stop_reason c \<noteq> None then ''acp'' else ''supervisor'')
      (pstr_opt (fc_stop_reason c)) (pstr_opt (detail_code_for c status))"
  proof (cases "fc_dispatch_started c")
    case True
    note t = table_dispatched [OF base(1,2)] True base(3,4) assms(1)
    show ?thesis
      using t by (cases status; cases "fc_stop_reason c") (auto simp: semantic_grammar_ok_def)
  next
    case False
    then have "status = FAILED" "fc_stop_reason c = None"
      using table_undispatched [OF base(1,2)] base(4) assms by auto
    then show ?thesis by (simp add: semantic_grammar_ok_def)
  qed
  then show ?thesis by (simp add: args_native_def terminal_args_def Let_def)
qed

lemma minimal_native: "args_native (supervisor_args run_id FAILED d rd)"
  by (simp add: args_native_def supervisor_args_def semantic_grammar_ok_def)

lemma terminal_payload_trusted:
  assumes "finalize_run_state (observations_of e c w) = (Some status, disp)" "fc_stop_reason c = None \<or> fc_dispatch_started c"
    "terminal_payload e c status = Some p" "native_result_serialized_size (co_float (fe_codec e)) p = Some n"
    "n \<le> MAX_NATIVE_RESULT_SERIALIZED_BYTES"
  shows "terminal_entry (co_float (fe_codec e)) (Doc (PDict p)) (fe_run_id e) = (TERM_TRUSTED, Some p)"
proof -
  let ?r = "failure_reason_for c (detail_code_for c status)"
  let ?full = "with_failure_reason ?r (with_session (fc_session c) (build_result_payload (terminal_args e c status)))"
  let ?min = "with_session (fc_session c)
    (build_result_payload (supervisor_args (fe_run_id e) FAILED ''EVIDENCE_PIPELINE'' (fe_run_dir e)))"
  have ids: "ra_run_id (terminal_args e c status) = fe_run_id e"
    "ra_run_id (supervisor_args (fe_run_id e) FAILED ''EVIDENCE_PIPELINE'' (fe_run_dir e)) = fe_run_id e"
    by (simp_all add: terminal_args_def supervisor_args_def Let_def)
  consider "p = ?full" | "p = ?min"
    using assms(3)
    by (auto simp: terminal_payload_def enforce_native_result_ceiling_def build_minimal_evidence_pipeline_result_def
        with_session_def split: option.splits if_splits)
  then have "validate_native_terminal_result (co_float (fe_codec e)) (PDict p) (fe_run_id e) = Some p"
  proof cases
    case 1
    show ?thesis
      using reason_payload_trusted [OF table_args_native [OF assms(1,2)], of ?r] failure_reason_allowed [of c] assms(4,5) ids(1)
      unfolding 1 by metis
  next
    case 2
    show ?thesis using native_payload_trusted [OF minimal_native] assms(4,5) ids(2) unfolding 2 by metis
  qed
  then show ?thesis by (simp add: terminal_entry_def)
qed

section \<open>Quarantine, then terminal, then lease\<close>

lemma quarantine_session_done:
  assumes "quarantine_session i e c reason st = (st', Inr u)" "fc_session c = Some sid" "\<not> fc_pending_creation c"
  shows "\<exists>ev. quarantined st' sid ev"
proof -
  obtain st1 r where "mark_quarantined (fi_mark i) (fi_clear i) sid reason (fe_run_id e) (fe_moment e) st1 = (st', Inr r)"
    using assms by (auto simp: quarantine_session_def split: prod.splits sum.splits)
  then show ?thesis
    using mark_success_settles [of "fi_mark i" "fi_clear i" sid reason "fe_run_id e" "fe_moment e" st1] by (simp add: succeeded_def)
qed

lemma quarantine_session_locks: "lock_json (fst (quarantine_session i e c reason st) s) = lock_json (st s)"
proof (cases "fc_session c")
  case (Some sid)
  have f: "lock_json (fst (write_quarantine_pending (fi_fence i) sid reason (fe_run_id e) (fe_moment e) st) s) = lock_json (st s)"
    using fence_locks_kept by (simp add: locks_kept_def)
  have m: "lock_json (fst (mark_quarantined (fi_mark i) (fi_clear i) sid reason (fe_run_id e) (fe_moment e) st1) s) = lock_json (st1 s)" for st1
    using mark_locks_kept by (simp add: locks_kept_def)
  show ?thesis using Some f m
    by (auto simp: quarantine_session_def split: prod.splits sum.splits) (metis fst_conv)+
qed (simp add: quarantine_session_def)

lemma release_lease_quarantined: "quarantined (release_lease i c st) sid ev = quarantined st sid ev"
  by (simp add: release_lease_def frame_quarantined split: option.splits)

lemma quarantine_session_keeps: "quarantined st sid ev \<Longrightarrow> quarantined (fst (quarantine_session i e c reason st)) sid ev"
  using mark_quarantined_keeps [of _ sid ev]
  by (auto simp: quarantine_session_def frame_quarantined split: option.splits prod.splits sum.splits)
    (metis fst_conv frame_quarantined(4))+

definition trusted :: "fin_env \<Rightarrow> world \<Rightarrow> bool" where
  "trusted e w \<longleftrightarrow> fst (terminal_of e w) = TERM_TRUSTED"

lemma trusted_entry: "result_json (wo_run w') = result_json (wo_run w) \<Longrightarrow> terminal_of e w' = terminal_of e w"
  by (simp add: terminal_of_def)

lemma settle_frame:
  "result_json (wo_run (fst (settle_terminal i e c p w))) = result_json (wo_run w)"
  "quarantined (wo_store (fst (settle_terminal i e c p w))) sid ev = quarantined (wo_store w) sid ev"
  by (auto simp: settle_terminal_def write_progress_def Let_def release_lease_quarantined)

lemma write_once_cases:
  "write_once i old p = (entry, res) \<Longrightarrow>
   (res = Once_Ok \<and> old = Absent \<and> entry = Doc (PDict p)) \<or> (res = Once_Failed \<and> (entry = old \<or> old = Absent)) \<or>
   (res = Once_Exists \<and> entry = old \<and> old \<noteq> Absent)"
  by (auto simp: write_once_def split: dentry.splits if_splits)

text \<open>What publication does to the world: no terminal without the required quarantine, no lease change
  without a trusted terminal, no change to a terminal that stands.\<close>

definition orderly :: "fin_env \<Rightarrow> fin_ctx \<Rightarrow> disposition \<Rightarrow> world \<Rightarrow> world \<Rightarrow> bool" where
  "orderly e c disp w w' \<longleftrightarrow>
     (\<forall>sid. result_json (wo_run w') \<noteq> result_json (wo_run w) \<and> disp = Quarantine \<and> fc_session c = Some sid \<and>
        \<not> fc_pending_creation c \<longrightarrow> (\<exists>ev. quarantined (wo_store w') sid ev)) \<and>
     (\<forall>s. lock_json (wo_store w' s) \<noteq> lock_json (wo_store w s) \<longrightarrow> trusted e w') \<and>
     (result_json (wo_run w) \<noteq> Absent \<longrightarrow> result_json (wo_run w') = result_json (wo_run w))"

lemma orderly_refl [simp]: "orderly e c disp w w"
  by (simp add: orderly_def)

lemma publish_result_effect:
  assumes "publish_result i e c payload w = (w', res)"
    "terminal_entry (co_float (fe_codec e)) (Doc (PDict payload)) (fe_run_id e) = (TERM_TRUSTED, Some payload)"
  shows "(\<forall>sid ev. quarantined (wo_store w) sid ev \<longrightarrow> quarantined (wo_store w') sid ev) \<and>
    (\<forall>s. lock_json (wo_store w' s) \<noteq> lock_json (wo_store w s) \<longrightarrow> trusted e w') \<and>
    (result_json (wo_run w) \<noteq> Absent \<longrightarrow> result_json (wo_run w') = result_json (wo_run w)) \<and>
    (\<forall>p. res = Inr p \<longrightarrow> terminal_of e w' = (TERM_TRUSTED, Some p))"
proof -
  obtain entry o1 where wr: "write_once (fi_result i) (result_json (wo_run w)) payload = (entry, o1)" by fastforce
  define w1 where "w1 = w\<lparr>wo_run := (wo_run w)\<lparr>result_json := entry\<rparr>\<rparr>"
  have w1: "result_json (wo_run w1) = entry" "wo_store w1 = wo_store w" by (simp_all add: w1_def)
  have tr: "o1 = Once_Ok \<Longrightarrow> terminal_of e w1 = (TERM_TRUSTED, Some payload)"
    using write_once_cases [OF wr] assms(2) by (auto simp: terminal_of_def w1)
  have keep: "result_json (wo_run w) \<noteq> Absent \<Longrightarrow> entry = result_json (wo_run w)"
    using write_once_cases [OF wr] by auto
  consider (settled) p where "settle_terminal i e c p w1 = (w', res)" "terminal_of e w1 = (TERM_TRUSTED, Some p)"
    | (failed) "w' = w1" "\<exists>x. res = Inl x"
    | (refused) "\<exists>x. res = Inl x"
      "w' = w1\<lparr>wo_store := fst (quarantine_session i e c QUARANTINE_UNTRUSTED_TERMINAL_EVIDENCE (wo_store w1))\<rparr>"
    using assms(1) tr
    by (auto simp: publish_result_def wr Let_def trusted_def simp flip: w1_def
        split: once.splits prod.splits sum.splits terminal_kind.splits option.splits)
  then show ?thesis
  proof cases
    case settled
    have w': "result_json (wo_run w') = entry" "quarantined (wo_store w') s ev = quarantined (wo_store w) s ev" for s ev
      using settle_frame(1) [of i e c p w1] settle_frame(2) [of i e c p w1 s ev] settled(1) w1 by simp_all
    have t: "terminal_of e w' = (TERM_TRUSTED, Some p)" using settled(2) trusted_entry [of w' w1 e] w'(1) w1(1) by simp
    have "\<forall>q. res = Inr q \<longrightarrow> q = p" using settled(1) by (auto simp: settle_terminal_def Let_def split: if_splits)
    then show ?thesis using w' keep t by (auto simp: trusted_def)
  next
    case failed
    then show ?thesis using w1 keep by auto
  next
    case refused
    then show ?thesis using w1 keep quarantine_session_locks quarantine_session_keeps by auto
  qed
qed

lemma publish_orderly:
  assumes "publish_terminal_with_disposition i e c status disp payload w = (w', res)"
    "terminal_entry (co_float (fe_codec e)) (Doc (PDict payload)) (fe_run_id e) = (TERM_TRUSTED, Some payload)"
  shows "orderly e c disp w w' \<and> (\<forall>p. res = Inr p \<longrightarrow> terminal_of e w' = (TERM_TRUSTED, Some p))"
proof -
  define q where "q = (if disp = Quarantine then quarantine_session i e c (quarantine_reason c status) (wo_store w) else (wo_store w, Inr ()))"
  obtain st1 r1 where q1: "q = (st1, r1)" by (cases q)
  have locks: "lock_json (st1 s) = lock_json (wo_store w s)" for s
    using quarantine_session_locks [of i e c "quarantine_reason c status" "wo_store w" s] q1
    by (auto simp: q_def split: if_splits)
  show ?thesis
  proof (cases r1)
    case (Inl x)
    then have "w' = w\<lparr>wo_store := st1\<rparr>" "res = Inl x"
      using assms(1) q1 by (simp_all add: publish_terminal_with_disposition_def q_def)
    then show ?thesis using locks by (simp add: orderly_def)
  next
    case (Inr u)
    have "\<exists>ev. quarantined st1 sid ev" if "disp = Quarantine" "fc_session c = Some sid" "\<not> fc_pending_creation c" for sid
      using quarantine_session_done that q1 Inr by (auto simp: q_def)
    moreover have "publish_result i e c payload (w\<lparr>wo_store := st1\<rparr>) = (w', res)"
      using assms(1) q1 Inr by (simp add: publish_terminal_with_disposition_def q_def)
    note publish_result_effect [OF this assms(2)]
    ultimately show ?thesis using locks by (fastforce simp: orderly_def)
  qed
qed

text \<open>The minimal terminal always fits when the run's names are short enough.\<close>

definition minimal_fits :: "fin_env \<Rightarrow> fin_ctx \<Rightarrow> bool" where
  "minimal_fits e c \<longleftrightarrow>
     (\<exists>n \<le> MAX_NATIVE_RESULT_SERIALIZED_BYTES. native_result_serialized_size (co_float (fe_codec e))
        (build_minimal_evidence_pipeline_result (fe_run_id e) (fe_run_dir e) (fc_session c)) = Some n)"

lemma terminal_payload_fits:
  "terminal_payload e c status = Some p \<Longrightarrow> minimal_fits e c \<Longrightarrow>
   \<exists>n \<le> MAX_NATIVE_RESULT_SERIALIZED_BYTES. native_result_serialized_size (co_float (fe_codec e)) p = Some n"
  by (auto simp: terminal_payload_def enforce_native_result_ceiling_def minimal_fits_def split: option.splits if_splits)

lemma finalize_inner_orderly:
  assumes "finalize_inner i e c w = (w', res)" "fc_stop_reason c = None \<or> fc_dispatch_started c" "minimal_fits e c"
  shows "orderly e c (snd (finalize_run_state (observations_of e c w))) w w' \<and> (\<forall>p. res = Inr (Published p) \<longrightarrow> terminal_of e w' = (TERM_TRUSTED, Some p))"
proof -
  obtain status disp where t: "finalize_run_state (observations_of e c w) = (status, disp)" by fastforce
  show ?thesis
  proof (cases status)
    case None
    then have "trusted e w" using t by (auto simp: finalize_run_state_def observations_of_def trusted_def split: option.splits if_splits prod.splits)
    moreover have "result_json (wo_run w') = result_json (wo_run w)" "\<forall>s. lock_json (wo_store w' s) = lock_json (wo_store w s)"
      using assms(1) t None quarantine_session_locks
      by (auto simp: finalize_inner_def quarantine_swallowing_def split: prod.splits terminal_kind.splits option.splits)
    moreover have "res = Inr (Published p) \<Longrightarrow> terminal_of e w = (TERM_TRUSTED, Some p)" for p
      using assms(1) t None by (auto simp: finalize_inner_def split: prod.splits terminal_kind.splits option.splits)
    ultimately show ?thesis using trusted_entry [of w' w e] by (simp add: orderly_def trusted_def)
  next
    case (Some st)
    note t' = t [unfolded Some]
    show ?thesis
    proof (cases "fi_aux i \<and> terminal_payload e c st \<noteq> None")
      case False
      then have "w' = w \<and> (\<exists>x. res = Inl x)" using assms(1) t' by (auto simp: finalize_inner_def split: if_splits option.splits)
      then show ?thesis by auto
    next
      case True
      then obtain payload where p: "terminal_payload e c st = Some payload" by auto
      have tr: "terminal_entry (co_float (fe_codec e)) (Doc (PDict payload)) (fe_run_id e) = (TERM_TRUSTED, Some payload)"
        using terminal_payload_trusted [OF t' assms(2) p] terminal_payload_fits [OF p assms(3)] by auto
      obtain st' w1 r where pub: "publish_terminal_with_disposition i e c st' disp payload w = (w1, r)"
        and w': "w' = w1" "res = (case r of Inl _ \<Rightarrow> Inr Disposition_Failed | Inr q \<Rightarrow> Inr (Published q))"
        using assms(1) t' True p by (auto simp: finalize_inner_def Let_def split: prod.splits sum.splits)
      show ?thesis using publish_orderly [OF pub tr] t' w' by (auto split: sum.splits)
    qed
  qed
qed

text \<open>The disposition of the table, for a run whose result is not trusted yet.\<close>

definition uncertain :: "fin_ctx \<Rightarrow> bool" where
  "uncertain c \<longleftrightarrow> (if fc_dispatch_started c then fc_stop_reason c = None else fc_rollback_unproven c)"

lemma uncertain_quarantines:
  assumes "\<not> trusted e w"
  shows "snd (finalize_run_state (observations_of e c w)) = Quarantine \<longleftrightarrow> uncertain c"
proof -
  let ?o = "observations_of e c w"
  have "\<not> ob_result_exists ?o" "ob_persisted_terminal ?o = None" using assms by (simp_all add: observations_of_def trusted_def)
  then show ?thesis using table_dispatched(1) [of ?o] table_undispatched [of ?o]
    by (auto simp: observations_of_def uncertain_def split: if_splits)
qed

text \<open>When the ordinary finalizer raises it has written nothing to the run.\<close>

lemma inner_raised:
  assumes "finalize_inner i e c w = (w1, Inl x)"
  shows "wo_run w1 = wo_run w" "\<not> trusted e w \<Longrightarrow> w1 = w"
  using assms
  by (auto simp: finalize_inner_def finalize_run_state_def observations_of_def trusted_def Let_def
      split: option.splits prod.splits terminal_kind.splits if_splits sum.splits)

lemma trusted_stands: "trusted e w \<Longrightarrow> result_json (wo_run w) \<noteq> Absent"
  by (auto simp: trusted_def terminal_of_def terminal_entry_def)

definition emergency_store :: "fin_io \<Rightarrow> fin_env \<Rightarrow> fin_ctx \<Rightarrow> store \<Rightarrow> store" where
  "emergency_store j e c st =
     (if fc_session c \<noteq> None \<and> fc_dispatch_started c \<and> fc_stop_reason c = None
      then fst (quarantine_session j e c QUARANTINE_DISPATCH_WITHOUT_TERMINAL st) else st)"

lemma emergency_store_locks: "lock_json (emergency_store j e c st s) = lock_json (st s)"
  by (simp add: emergency_store_def quarantine_session_locks)

lemma emergency_cases:
  fixes j e c w
  defines "w' \<equiv> emergency_cleanup j e c w" and "st \<equiv> emergency_store j e c (wo_store w)"
  obtains (same) "wo_run w' = wo_run w" "\<forall>s. lock_json (wo_store w' s) = lock_json (wo_store w s)"
    | (standing) "trusted e w" "wo_run w' = wo_run w"
    | (written) entry where "fst (terminal_of e w) = TERM_ABSENT" "result_json (wo_run w) \<noteq> Absent \<longrightarrow> entry = result_json (wo_run w)"
        "result_json (wo_run w') = entry" "wo_store w' = st \<or> wo_store w' = release_lease j c st \<and> trusted e w'"
proof (cases "fst (terminal_of e w)")
  case TERM_ABSENT
  show thesis
  proof (cases "emergency_payload e c")
    case None
    then have "w' = w\<lparr>wo_store := st\<rparr>"
      using TERM_ABSENT by (auto simp: w'_def emergency_cleanup_def st_def emergency_store_def quarantine_swallowing_def Let_def)
    then show thesis using same emergency_store_locks by (simp add: st_def)
  next
    case (Some payload)
    obtain entry res where wr: "write_once (fi_result j) (result_json (wo_run w)) payload = (entry, res)" by fastforce
    define w2 where "w2 = w\<lparr>wo_store := st, wo_run := (wo_run w)\<lparr>result_json := entry\<rparr>\<rparr>"
    have "w' = (if res = Once_Ok \<and> fst (terminal_of e w2) = TERM_TRUSTED then w2\<lparr>wo_store := release_lease j c st\<rparr> else w2)"
      using TERM_ABSENT Some wr
      by (cases "fc_session c"; cases "fc_dispatch_started c"; cases "fc_stop_reason c";
          simp add: w'_def emergency_cleanup_def st_def emergency_store_def quarantine_swallowing_def w2_def Let_def split_beta)
    moreover have "terminal_of e (w2\<lparr>wo_store := x\<rparr>) = terminal_of e w2" for x by (simp add: terminal_of_def)
    moreover have "result_json (wo_run w) \<noteq> Absent \<longrightarrow> entry = result_json (wo_run w)" using write_once_cases [OF wr] by auto
    ultimately show thesis using written [of entry] TERM_ABSENT by (auto simp: w2_def trusted_def split: if_splits)
  qed
next
  case TERM_TRUSTED
  then show thesis using standing by (simp add: w'_def emergency_cleanup_def trusted_def)
next
  case TERM_INVALID
  then show thesis using same quarantine_session_locks by (simp add: w'_def emergency_cleanup_def quarantine_swallowing_def)
qed

lemma emergency_effect:
  fixes j e c w
  defines "w' \<equiv> emergency_cleanup j e c w"
  shows "lock_json (wo_store w' s) \<noteq> lock_json (wo_store w s) \<Longrightarrow> trusted e w'"
    "result_json (wo_run w) \<noteq> Absent \<Longrightarrow> result_json (wo_run w') = result_json (wo_run w)"
    "result_json (wo_run w') \<noteq> result_json (wo_run w) \<Longrightarrow> fc_session c = Some sid \<Longrightarrow> \<not> fc_pending_creation c \<Longrightarrow>
       fc_dispatch_started c \<Longrightarrow> fc_stop_reason c = None \<Longrightarrow>
       snd (quarantine_session j e c QUARANTINE_DISPATCH_WITHOUT_TERMINAL (wo_store w)) = Inr u \<Longrightarrow> \<exists>ev. quarantined (wo_store w') sid ev"
proof -
  let ?st = "emergency_store j e c (wo_store w)"
  note cases = emergency_cases [where j = j and e = e and c = c and w = w, folded w'_def]
  show "lock_json (wo_store w' s) \<noteq> lock_json (wo_store w s) \<Longrightarrow> trusted e w'"
    by (rule cases) (use emergency_store_locks trusted_entry [of w' w e] in \<open>auto simp: trusted_def\<close>)
  show "result_json (wo_run w) \<noteq> Absent \<Longrightarrow> result_json (wo_run w') = result_json (wo_run w)"
    by (rule cases) auto
  show "\<exists>ev. quarantined (wo_store w') sid ev"
    if h: "result_json (wo_run w') \<noteq> result_json (wo_run w)" "fc_session c = Some sid" "\<not> fc_pending_creation c"
      "fc_dispatch_started c" "fc_stop_reason c = None"
      "snd (quarantine_session j e c QUARANTINE_DISPATCH_WITHOUT_TERMINAL (wo_store w)) = Inr u"
  proof -
    obtain ev where ev: "quarantined ?st sid ev"
      using quarantine_session_done [of j e c QUARANTINE_DISPATCH_WITHOUT_TERMINAL "wo_store w"] h(2-6) by (auto simp: emergency_store_def prod_eq_iff)
    show ?thesis by (rule cases) (use h(1) ev in \<open>auto simp: release_lease_quarantined\<close>)
  qed
qed

text \<open>C20. Finalization keeps the order quarantine, terminal, lease.  Whatever writes fail, on the ordinary and on the
  emergency path: the lease changes only with a terminal on disk that the strict reader trusts; a terminal that stands,
  trusted or not, is never replaced; a published answer is exactly the trusted terminal on disk; and when a terminal is
  put in place for an uncertain run (a dispatched turn without a stop reason, or an unproven rollback before any
  dispatch), its session carries quarantine evidence.  The last point has exceptions only where the ordinary path raised
  and the emergency path ran: there the quarantine is missing when its own write failed, and for an undispatched run,
  which the emergency path does not quarantine.\<close>

theorem finalization_ordered:
  assumes "finalize i j e c w = (w', answer)" "fc_stop_reason c = None \<or> fc_dispatch_started c" "minimal_fits e c"
  shows "(\<forall>s. lock_json (wo_store w' s) \<noteq> lock_json (wo_store w s) \<longrightarrow> fst (terminal_of e w') = TERM_TRUSTED) \<and>
    (result_json (wo_run w) \<noteq> Absent \<longrightarrow> result_json (wo_run w') = result_json (wo_run w)) \<and>
    (\<forall>p. answer = Published p \<longrightarrow> terminal_of e w' = (TERM_TRUSTED, Some p)) \<and>
    (\<forall>sid. result_json (wo_run w') \<noteq> result_json (wo_run w) \<and> fc_session c = Some sid \<and> \<not> fc_pending_creation c \<and>
       (if fc_dispatch_started c then fc_stop_reason c = None else fc_rollback_unproven c) \<longrightarrow>
       (\<exists>ev. quarantined (wo_store w') sid ev) \<or>
       answer = Finalization_Failed \<and>
         (\<not> fc_dispatch_started c \<or>
          (\<exists>x. snd (quarantine_session j e c QUARANTINE_DISPATCH_WITHOUT_TERMINAL (wo_store w)) = Inl x)))"
proof -
  obtain w1 r where inner: "finalize_inner i e c w = (w1, r)" by fastforce
  note ord = finalize_inner_orderly [OF inner assms(2,3)]
  show ?thesis
  proof (cases r)
    case (Inr a)
    then have "w' = w1" "answer = a" using assms(1) inner by (simp_all add: finalize_def)
    moreover have "result_json (wo_run w1) \<noteq> result_json (wo_run w) \<Longrightarrow> \<not> trusted e w"
      using ord trusted_stands by (auto simp: orderly_def)
    ultimately show ?thesis using ord Inr uncertain_quarantines [of e w c]
      by (auto simp: orderly_def uncertain_def simp flip: trusted_def)
  next
    case (Inl x)
    then have w': "w' = emergency_cleanup j e c w1" "answer = Finalization_Failed" using assms(1) inner by (simp_all add: finalize_def)
    note raised = inner_raised [OF inner [unfolded Inl]]
    note em = emergency_effect [where j = j and e = e and c = c and w = w1, folded w'(1)]
    have locks: "lock_json (wo_store w1 s) = lock_json (wo_store w s)" for s
    proof (cases "trusted e w")
      case True
      then show ?thesis using inner Inl quarantine_session_locks
        by (auto simp: finalize_inner_def finalize_run_state_def observations_of_def trusted_def quarantine_swallowing_def
            split: option.splits prod.splits terminal_kind.splits)
    qed (simp add: raised(2))
    have "\<exists>ev. quarantined (wo_store w') sid ev"
      if h: "result_json (wo_run w') \<noteq> result_json (wo_run w)" "fc_session c = Some sid" "\<not> fc_pending_creation c"
        "fc_dispatch_started c" "fc_stop_reason c = None"
        "\<forall>x. snd (quarantine_session j e c QUARANTINE_DISPATCH_WITHOUT_TERMINAL (wo_store w)) \<noteq> Inl x" for sid
    proof -
      have "\<not> trusted e w" using h(1) em(2) raised(1) trusted_stands by metis
      then have "w1 = w" by (rule raised(2))
      moreover obtain u where "snd (quarantine_session j e c QUARANTINE_DISPATCH_WITHOUT_TERMINAL (wo_store w)) = Inr u"
        using h(6) by (cases "snd (quarantine_session j e c QUARANTINE_DISPATCH_WITHOUT_TERMINAL (wo_store w))") auto
      ultimately show ?thesis using em(3) h(1-5) by blast
    qed
    then show ?thesis using em(1,2) raised(1) locks w'(2) by (auto simp: simp flip: trusted_def)
  qed
qed

definition demo_fin_env :: fin_env where
  "demo_fin_env = \<lparr>fe_codec = re_codec demo_env, fe_run_id = ''run-1'', fe_run_dir = ''/r/run-1'', fe_moment = ''m'',
     fe_redact = (\<lambda>s. s)\<rparr>"

definition demo_ctx :: fin_ctx where
  "demo_ctx =
     \<lparr>fc_session = Some ''s1'', fc_pending_creation = False, fc_lock = Some ''t'', fc_dispatch_started = True,
      fc_stop_reason = None, fc_usage = PNone, fc_cancelled = True, fc_timed_out = False, fc_escalated_kill = True,
      fc_child_exit = False, fc_interrupted = False, fc_pre_dispatch = None, fc_pipeline_error = False, fc_error = False,
      fc_rollback_unproven = False, fc_turn_failed = False, fc_grant_violation = False, fc_signal = Some 9,
      fc_message = new_accumulator 65536, fc_last_seq = 3\<rparr>"

definition demo_world :: world where
  "demo_world = \<lparr>wo_store = fst demo_leased, wo_run = demo_empty_run\<rparr>"

definition demo_fin_io :: fin_io where
  "demo_fin_io = \<lparr>fi_fence = Io_Ok, fi_mark = Io_Ok, fi_clear = Io_Ok, fi_result = Io_Ok, fi_progress = Io_Ok,
     fi_release = Io_Ok, fi_aux = True\<rparr>"

lemma demo_minimal_fits: "minimal_fits demo_fin_env demo_ctx"
proof -
  have "(case native_result_serialized_size (co_float (fe_codec demo_fin_env))
      (build_minimal_evidence_pipeline_result (fe_run_id demo_fin_env) (fe_run_dir demo_fin_env) (fc_session demo_ctx)) of
      None \<Rightarrow> False | Some n \<Rightarrow> n \<le> MAX_NATIVE_RESULT_SERIALIZED_BYTES)" by code_simp
  then show ?thesis by (auto simp: minimal_fits_def split: option.splits)
qed

theorem finalization_ordered_witness:
  "\<exists>ev. quarantined (wo_store (fst (finalize demo_fin_io demo_fin_io demo_fin_env demo_ctx demo_world))) ''s1'' ev"
proof -
  let ?x = "finalize demo_fin_io demo_fin_io demo_fin_env demo_ctx demo_world"
  have c: "fc_stop_reason demo_ctx = None" "fc_session demo_ctx = Some ''s1''" "\<not> fc_pending_creation demo_ctx"
    "fc_dispatch_started demo_ctx" by (simp_all add: demo_ctx_def)
  have "case ?x of (w', answer) \<Rightarrow> result_json (wo_run w') \<noteq> Absent \<and> answer \<noteq> Finalization_Failed" by code_simp
  moreover have "result_json (wo_run demo_world) = Absent" by (simp add: demo_world_def demo_empty_run_def)
  ultimately show ?thesis
    using finalization_ordered [OF prod.collapse [of ?x, symmetric] _ demo_minimal_fits] c by (auto simp: split_beta)
qed

text \<open>C21. Everything the table can decide is a terminal the strict reader accepts: for any observations,
  with the origin, stop reason, detail code, failure phrase and message finalization attaches, the
  payload is read back as a trusted terminal of this run, unchanged, or was replaced by the minimal
  evidence terminal, which is trusted too.\<close>

theorem finalized_terminal_trusted:
  assumes "finalize_run_state (observations_of e c w) = (Some status, disp)"
    "fc_stop_reason c = None \<or> fc_dispatch_started c" "terminal_payload e c status = Some p" "minimal_fits e c"
  shows "terminal_entry (co_float (fe_codec e)) (Doc (PDict p)) (fe_run_id e) = (TERM_TRUSTED, Some p)"
  using terminal_payload_trusted [OF assms(1-3)] terminal_payload_fits [OF assms(3,4)] by blast

theorem finalized_terminal_trusted_witness:
  "fst (terminal_entry (co_float (fe_codec demo_fin_env))
     (Doc (PDict (the (terminal_payload demo_fin_env demo_ctx UNKNOWN_STATUS)))) ''run-1'') = TERM_TRUSTED"
proof -
  have "finalize_run_state (observations_of demo_fin_env demo_ctx demo_world) = (Some UNKNOWN_STATUS, Quarantine)" by code_simp
  moreover have "terminal_payload demo_fin_env demo_ctx UNKNOWN_STATUS \<noteq> None" by code_simp
  ultimately show ?thesis
    using finalized_terminal_trusted [of demo_fin_env demo_ctx demo_world UNKNOWN_STATUS Quarantine, OF _ _ _ demo_minimal_fits]
    by (auto simp: demo_ctx_def demo_fin_env_def)
qed

section \<open>The emergency path\<close>

lemma lost_fence_changes_nothing:
  assumes "fi_fence i = Io_Lost"
  shows "fst (quarantine_session i e c reason st) = st"
proof (cases "fc_session c")
  case (Some sid)
  have "fst (write_quarantine_pending Io_Lost sid reason (fe_run_id e) (fe_moment e) st) = st"
    using require_dir [of st sid] by (auto simp: write_quarantine_pending_def split: sum.splits)
  moreover have "\<exists>x. snd (write_quarantine_pending Io_Lost sid reason (fe_run_id e) (fe_moment e) st) = Inl x"
    by (auto simp: write_quarantine_pending_def split: sum.splits)
  ultimately show ?thesis using assms Some
    by (auto simp: quarantine_session_def split: prod.splits sum.splits)
qed (simp add: quarantine_session_def)

lemma emergency_native: "args_native ((supervisor_args run_id (emergency_status c) ''EMERGENCY_FINALIZE'' rd)
    \<lparr>ra_stop_reason := fc_stop_reason c, ra_usage := u\<rparr>)"
  by (auto simp: args_native_def supervisor_args_def semantic_grammar_ok_def emergency_status_def)

lemma release_lease_fenced: "fenced (release_lease i c st) sid = fenced st sid"
  by (simp add: fenced_def release_lease_quarantined) (simp add: release_lease_def lock_ops_frame split: option.splits)

text \<open>Nor does it quarantine an undispatched run, whose rollback may be unproven.\<close>

lemma emergency_skips_rollback:
  assumes "\<not> fc_dispatch_started c" "result_json (wo_run w) = Absent"
  shows "fenced (wo_store (emergency_cleanup j e c w)) sid = fenced (wo_store w) sid"
  using assms
  by (simp add: emergency_cleanup_def terminal_of_def terminal_entry_def [of _ Absent] Let_def release_lease_fenced split_beta split: option.splits)

text \<open>C23. The emergency path does not keep that order.  It asks for the quarantine through a call that
  swallows its failure, so when the fence cannot be written, a dispatched turn without a stop reason
  still gets its unknown terminal and the lease is still released, with neither fence nor quarantine
  evidence in the session.\<close>

theorem emergency_releases_unfenced:
  assumes "result_json (wo_run w) = Absent" "fc_session c = Some sid" "fc_dispatch_started c" "fc_stop_reason c = None"
    "fi_fence i = Io_Lost" "fi_result i = Io_Ok" "\<not> fenced (wo_store w) sid"
    "emergency_payload e c = Some p" "native_result_serialized_size (co_float (fe_codec e)) p = Some n"
    "n \<le> MAX_NATIVE_RESULT_SERIALIZED_BYTES"
  shows "terminal_of e (emergency_cleanup i e c w) = (TERM_TRUSTED, Some p) \<and>
    wo_store (emergency_cleanup i e c w) = release_lease i c (wo_store w) \<and>
    \<not> fenced (wo_store (emergency_cleanup i e c w)) sid"
proof -
  have id: "ra_run_id ((supervisor_args (fe_run_id e) (emergency_status c) ''EMERGENCY_FINALIZE'' (fe_run_dir e))
      \<lparr>ra_stop_reason := fc_stop_reason c, ra_usage := sanitize_usage (co_float (fe_codec e)) (fc_usage c)\<rparr>) = fe_run_id e"
    "ra_run_id (supervisor_args (fe_run_id e) FAILED ''EVIDENCE_PIPELINE'' (fe_run_dir e)) = fe_run_id e"
    by (simp_all add: supervisor_args_def)
  consider "p = with_session (fc_session c) (build_result_payload
        ((supervisor_args (fe_run_id e) (emergency_status c) ''EMERGENCY_FINALIZE'' (fe_run_dir e))
           \<lparr>ra_stop_reason := fc_stop_reason c, ra_usage := sanitize_usage (co_float (fe_codec e)) (fc_usage c)\<rparr>))"
    | "p = with_session (fc_session c) (build_result_payload (supervisor_args (fe_run_id e) FAILED ''EVIDENCE_PIPELINE'' (fe_run_dir e)))"
    using assms(8)
    by (auto simp: emergency_payload_def enforce_native_result_ceiling_def build_minimal_evidence_pipeline_result_def
        with_session_def split: option.splits if_splits)
  then have "validate_native_terminal_result (co_float (fe_codec e)) (PDict p) (fe_run_id e) = Some p"
    using native_payload_trusted [OF emergency_native] native_payload_trusted [OF minimal_native] assms(9,10) id by cases metis+
  then have t: "terminal_entry (co_float (fe_codec e)) (Doc (PDict p)) (fe_run_id e) = (TERM_TRUSTED, Some p)"
    by (simp add: terminal_entry_def)
  have "emergency_cleanup i e c w =
      w\<lparr>wo_run := (wo_run w)\<lparr>result_json := Doc (PDict p)\<rparr>, wo_store := release_lease i c (wo_store w)\<rparr>"
    using assms t lost_fence_changes_nothing [OF assms(5)]
    by (simp add: emergency_cleanup_def terminal_of_def terminal_entry_def [of _ Absent] quarantine_swallowing_def write_once_def)
  then show ?thesis using assms(7) t by (simp add: terminal_of_def release_lease_fenced)
qed

definition demo_failing_io :: fin_io where
  "demo_failing_io = demo_fin_io\<lparr>fi_fence := Io_Lost\<rparr>"

theorem emergency_releases_unfenced_witness:
  "wo_store (emergency_cleanup demo_failing_io demo_fin_env demo_ctx demo_world) ''s1'' = demo_store ''s1'' \<and>
   \<not> fenced (wo_store (emergency_cleanup demo_failing_io demo_fin_env demo_ctx demo_world)) ''s1''"
proof -
  let ?p = "the (emergency_payload demo_fin_env demo_ctx)"
  have p: "emergency_payload demo_fin_env demo_ctx = Some ?p"
  proof -
    have "emergency_payload demo_fin_env demo_ctx \<noteq> None" by code_simp
    then show ?thesis by simp
  qed
  have "(case native_result_serialized_size (co_float (fe_codec demo_fin_env)) ?p of
      None \<Rightarrow> False | Some n \<Rightarrow> n \<le> MAX_NATIVE_RESULT_SERIALIZED_BYTES)" by code_simp
  then obtain n where n: "native_result_serialized_size (co_float (fe_codec demo_fin_env)) ?p = Some n"
      "n \<le> MAX_NATIVE_RESULT_SERIALIZED_BYTES" by (auto split: option.splits)
  have unfenced: "\<not> fenced (wo_store demo_world) ''s1''"
  proof -
    have "fence_json (wo_store demo_world ''s1'') = Absent" by code_simp
    moreover have "(case read_record (session_json (wo_store demo_world ''s1'')) of
        Inl _ \<Rightarrow> True | Inr r \<Rightarrow> dget r ''quarantine'' = PNone)" by code_simp
    ultimately show ?thesis by (auto simp: fenced_def quarantined_def)
  qed
  have io: "fi_fence demo_failing_io = Io_Lost" "fi_result demo_failing_io = Io_Ok"
    by (simp_all add: demo_failing_io_def demo_fin_io_def)
  have ctx: "fc_session demo_ctx = Some ''s1''" "fc_dispatch_started demo_ctx" "fc_stop_reason demo_ctx = None"
    by (simp_all add: demo_ctx_def)
  have absent: "result_json (wo_run demo_world) = Absent" by (simp add: demo_world_def demo_empty_run_def)
  note r = emergency_releases_unfenced [OF absent ctx io unfenced p n]
  have "release_lease demo_failing_io demo_ctx (wo_store demo_world) ''s1'' = demo_store ''s1''" by code_simp
  moreover have "wo_store (emergency_cleanup demo_failing_io demo_fin_env demo_ctx demo_world) =
      release_lease demo_failing_io demo_ctx (wo_store demo_world)" using r by blast
  moreover have "\<not> fenced (wo_store (emergency_cleanup demo_failing_io demo_fin_env demo_ctx demo_world)) ''s1''"
    using r by blast
  ultimately show ?thesis by metis
qed

end
