(* ===== verification/Protocol.thy ===== *)
theory Protocol
  imports Admission
begin

text \<open>
  The frame protocol, \<^verbatim>\<open>arsd/protocol.py\<close>, with the wire request of \<^verbatim>\<open>native_acp/spec.py\<close>: the
  closed operation and error sets, the nesting walk, framing, the request envelope, and the mapping of a
  submit payload onto a checked request.  A refusal is the left side, with its code and bounded message.
  The byte size of a frame is taken from its JSON text; the decoder's answer on a frame's bytes is an
  argument.
\<close>

section \<open>The closed sets\<close>

datatype error_code =
    UNSUPPORTED_API_VERSION | UNKNOWN_OP | MALFORMED_FRAME | FRAME_TOO_LARGE | INVALID_REQUEST
  | UNAUTHENTICATED_PEER | PEER_UID_DENIED | OWNER_MISMATCH | IDEMPOTENCY_CONFLICT
  | SUBMISSION_INDETERMINATE | UNKNOWN_RUN | UNKNOWN_SESSION | SESSION_BUSY | CAPACITY_EXHAUSTED
  | EVENT_BACKLOG_EXCEEDED | SHUTTING_DOWN | INTERNAL

definition MAX_FRAME_BYTES :: int where
  "MAX_FRAME_BYTES = (1048576 :: int)"

definition MAX_PROMPT_BYTES :: nat where
  "MAX_PROMPT_BYTES = (262144 :: nat)"

definition MAX_ERROR_MESSAGE_CHARS :: nat where
  "MAX_ERROR_MESSAGE_CHARS = (512 :: nat)"

definition MAX_JSON_NESTING_DEPTH :: nat where
  "MAX_JSON_NESTING_DEPTH = (64 :: nat)"

definition NESTING_CHECK_MAX_CONTAINERS :: nat where
  "NESTING_CHECK_MAX_CONTAINERS = (524288 :: nat)"

definition SUPPORTED_API_VERSIONS :: "int list" where
  "SUPPORTED_API_VERSIONS = [3 :: int]"

definition OPERATIONS :: "string list" where
  "OPERATIONS =
     [''server_info'', ''submit'', ''run_status'', ''run_events'', ''run_cancel'', ''session_status'',
      ''session_list'', ''agent_list'']"

definition ENVELOPE_KEYS :: "string list" where
  "ENVELOPE_KEYS = [''api_version'', ''op'', ''request_id'', ''payload'']"

definition SUBMIT_KEYS :: "string list" where
  "SUBMIT_KEYS = [''request'', ''prompt_text'', ''workspace_root'', ''cwd'', ''retry_of_run_id'']"

definition bound_message :: "string \<Rightarrow> string" where
  "bound_message m = take MAX_ERROR_MESSAGE_CHARS m"

record protocol_error =
  pe_code :: error_code
  pe_message :: string

definition protocol_refusal :: "error_code \<Rightarrow> string \<Rightarrow> protocol_error" where
  "protocol_refusal c m = \<lparr>pe_code = c, pe_message = bound_message m\<rparr>"

definition invalid :: "string \<Rightarrow> protocol_error" where
  "invalid m = protocol_refusal INVALID_REQUEST m"

text \<open>A call that may raise: the caller continues only with its value.\<close>

fun andThen :: "'e + 'a \<Rightarrow> ('a \<Rightarrow> 'e + 'b) \<Rightarrow> 'e + 'b" where
  "andThen (Inl e) f = Inl e"
| "andThen (Inr a) f = f a"

definition ensure :: "bool \<Rightarrow> 'e \<Rightarrow> 'e + unit" where
  "ensure c e = (if c then Inr () else Inl e)"

lemma andThen_Inr: "andThen x f = Inr b \<longleftrightarrow> (\<exists>a. x = Inr a \<and> f a = Inr b)"
  by (cases x) auto

lemma andThen_Inl: "andThen x f = Inl e \<longleftrightarrow> x = Inl e \<or> (\<exists>a. x = Inr a \<and> f a = Inl e)"
  by (cases x) auto

lemma ensure_iff [simp]: "ensure c e = Inr u \<longleftrightarrow> c" "ensure c e = Inl e' \<longleftrightarrow> \<not> c \<and> e' = e"
  by (auto simp: ensure_def)

definition require_closed_keys :: "pydict \<Rightarrow> string list \<Rightarrow> string \<Rightarrow> protocol_error + unit" where
  "require_closed_keys d allowed area =
     ensure (list_all (\<lambda>p. fst p \<in> set allowed) d) (invalid (''unknown '' @ area @ '' fields present''))"

section \<open>The nesting walk\<close>

fun is_container :: "pyval \<Rightarrow> bool" where
  "is_container (PList _) = True"
| "is_container (PDict _) = True"
| "is_container _ = False"

fun children :: "pyval \<Rightarrow> pyval list" where
  "children (PList xs) = xs"
| "children (PDict d) = map snd d"
| "children _ = []"

lemma child_size: "sum_list (map (\<lambda>c. Suc (size c)) (filter is_container (children v))) < Suc (size v)"
proof -
  have list: "sum_list (map (\<lambda>c. Suc (size c)) (filter is_container xs)) \<le> size_list size xs" for xs :: "pyval list"
    by (induction xs) auto
  have dict: "sum_list (map (\<lambda>c. Suc (size c)) (filter is_container (map snd d))) \<le> size_list (size_prod (\<lambda>_. 0) size) d"
    for d :: pydict by (induction d) auto
  show ?thesis using list dict by (cases v) (auto simp: less_Suc_eq_le intro: le_SucI)
qed

text \<open>The head of the list is the top of the stack: the last child is visited first.\<close>

function nesting_loop :: "(pyval \<times> nat) list \<Rightarrow> nat \<Rightarrow> bool" where
  "nesting_loop [] visited = False"
| "nesting_loop ((node, depth) # stack) visited =
     (if MAX_JSON_NESTING_DEPTH < depth then True
      else if NESTING_CHECK_MAX_CONTAINERS < Suc visited then True
      else nesting_loop (rev (map (\<lambda>c. (c, Suc depth)) (filter is_container (children node))) @ stack) (Suc visited))"
  by pat_completeness auto
termination
  by (relation "measure (\<lambda>(stack, _). sum_list (map (\<lambda>p. Suc (size (fst p))) stack))")
    (auto simp: rev_map [symmetric] comp_def sum_list_rev child_size)

definition json_nesting_exceeds_bound :: "pyval \<Rightarrow> bool" where
  "json_nesting_exceeds_bound v = (is_container v \<and> nesting_loop [(v, 1)] 0)"

section \<open>Frames\<close>

text \<open>\<^verbatim>\<open>dumps\<close> raises on values outside JSON; every serialization failure is one refusal.\<close>

definition encode_frame :: "(rat \<Rightarrow> string) \<Rightarrow> pyval \<Rightarrow> protocol_error + string" where
  "encode_frame fr v =
     andThen (ensure (is_dict v) (protocol_refusal MALFORMED_FRAME ''frame payload must be a JSON object'')) (\<lambda>_.
     andThen (ensure (\<not> json_nesting_exceeds_bound v) (protocol_refusal MALFORMED_FRAME ''frame exceeds nesting depth 64'')) (\<lambda>_.
       case dumps_fmt (fmt_canonical fr) v 0 of
         None \<Rightarrow> Inl (protocol_refusal MALFORMED_FRAME ''frame payload is not JSON-encodable'')
       | Some t \<Rightarrow>
           if utf8_len (t @ [CHR 0x0A]) \<le> MAX_FRAME_BYTES then Inr (t @ [CHR 0x0A])
           else Inl (protocol_refusal FRAME_TOO_LARGE ''frame exceeds 1048576 bytes'')))"

text \<open>\<open>loads\<close> is the JSON decoder on the frame's bytes: \<^const>\<open>None\<close> when decoding raises.\<close>

definition decode_frame :: "(bytes \<Rightarrow> pyval option) \<Rightarrow> bytes \<Rightarrow> protocol_error + pydict" where
  "decode_frame loads raw =
     (if MAX_FRAME_BYTES < int (length raw) then Inl (protocol_refusal FRAME_TOO_LARGE ''frame exceeds 1048576 bytes'')
      else (case loads raw of
              Some (PDict d) \<Rightarrow>
                if json_nesting_exceeds_bound (PDict d)
                then Inl (protocol_refusal MALFORMED_FRAME ''frame exceeds nesting depth 64'')
                else Inr d
            | _ \<Rightarrow> Inl (protocol_refusal MALFORMED_FRAME ''frame is not one JSON object line'')))"

section \<open>The envelope\<close>

definition validated_request_id :: "pyval \<Rightarrow> string option" where
  "validated_request_id v = (case v of PStr s \<Rightarrow> if request_id_ok s then Some s else None | _ \<Rightarrow> None)"

definition correlated_request_id :: "pyval \<Rightarrow> string option" where
  "correlated_request_id frame =
     (case frame of PDict d \<Rightarrow> validated_request_id (dget d ''request_id'') | _ \<Rightarrow> None)"

record parsed_request =
  pr_op :: string
  pr_request_id :: string
  pr_payload :: pydict
  pr_api_version :: int

definition payload_of :: "pydict \<Rightarrow> pyval" where
  "payload_of d = (case map_of d ''payload'' of None \<Rightarrow> PDict [] | Some v \<Rightarrow> v)"

definition parse_request :: "pyval \<Rightarrow> protocol_error + parsed_request" where
  "parse_request frame =
     (case frame of
        PDict d \<Rightarrow>
          (case dget d ''api_version'' of
             PInt version \<Rightarrow>
               if version \<notin> set SUPPORTED_API_VERSIONS
               then Inl (protocol_refusal UNSUPPORTED_API_VERSION ''unsupported api_version; supported: 3'')
               else
               (case validated_request_id (dget d ''request_id'') of
                  None \<Rightarrow> Inl (invalid ''request_id must be 1..128 characters from [A-Za-z0-9._-]'')
                | Some rid \<Rightarrow>
                    andThen (require_closed_keys d ENVELOPE_KEYS ''envelope'') (\<lambda>_.
                      case dget d ''op'' of
                        PStr op \<Rightarrow>
                          if op \<notin> set OPERATIONS then Inl (protocol_refusal UNKNOWN_OP ''unknown op'')
                          else (case payload_of d of
                                  PDict p \<Rightarrow> Inr \<lparr>pr_op = op, pr_request_id = rid, pr_payload = p, pr_api_version = version\<rparr>
                                | _ \<Rightarrow> Inl (invalid ''payload must be a JSON object''))
                      | _ \<Rightarrow> Inl (protocol_refusal UNKNOWN_OP ''unknown op'')))
           | _ \<Rightarrow> Inl (protocol_refusal UNSUPPORTED_API_VERSION ''unsupported api_version; supported: 3''))
      | _ \<Rightarrow> Inl (protocol_refusal MALFORMED_FRAME ''request frame must be a JSON object''))"

definition build_result :: "string \<Rightarrow> pydict \<Rightarrow> pydict" where
  "build_result rid result = [(''request_id'', PStr rid), (''result'', PDict result)]"

fun code_name :: "error_code \<Rightarrow> string" where
  "code_name UNSUPPORTED_API_VERSION = ''UNSUPPORTED_API_VERSION''"
| "code_name UNKNOWN_OP = ''UNKNOWN_OP''"
| "code_name MALFORMED_FRAME = ''MALFORMED_FRAME''"
| "code_name FRAME_TOO_LARGE = ''FRAME_TOO_LARGE''"
| "code_name INVALID_REQUEST = ''INVALID_REQUEST''"
| "code_name UNAUTHENTICATED_PEER = ''UNAUTHENTICATED_PEER''"
| "code_name PEER_UID_DENIED = ''PEER_UID_DENIED''"
| "code_name OWNER_MISMATCH = ''OWNER_MISMATCH''"
| "code_name IDEMPOTENCY_CONFLICT = ''IDEMPOTENCY_CONFLICT''"
| "code_name SUBMISSION_INDETERMINATE = ''SUBMISSION_INDETERMINATE''"
| "code_name UNKNOWN_RUN = ''UNKNOWN_RUN''"
| "code_name UNKNOWN_SESSION = ''UNKNOWN_SESSION''"
| "code_name SESSION_BUSY = ''SESSION_BUSY''"
| "code_name CAPACITY_EXHAUSTED = ''CAPACITY_EXHAUSTED''"
| "code_name EVENT_BACKLOG_EXCEEDED = ''EVENT_BACKLOG_EXCEEDED''"
| "code_name SHUTTING_DOWN = ''SHUTTING_DOWN''"
| "code_name INTERNAL = ''INTERNAL''"

definition build_error :: "string option \<Rightarrow> error_code \<Rightarrow> string \<Rightarrow> pydict" where
  "build_error rid c m =
     [(''request_id'', pstr_opt rid),
      (''error'', PDict [(''code'', PStr (code_name c)), (''message'', PStr (bound_message m))])]"

section \<open>The wire request\<close>

definition PERMISSION_KINDS :: "string list" where
  "PERMISSION_KINDS =
     [''read'', ''search'', ''write'', ''execute'', ''terminal'', ''delete'', ''move'', ''fetch'', ''switch_mode'', ''other'']"

text \<open>\<^verbatim>\<open>str.isprintable\<close> on the code points below 256.\<close>

definition printable :: "char \<Rightarrow> bool" where
  "printable c \<longleftrightarrow> (let n = (of_char c :: nat) in (32 \<le> n \<and> n \<le> 126 \<or> 161 \<le> n) \<and> n \<noteq> 173)"

definition text_ok :: "nat \<Rightarrow> string \<Rightarrow> bool" where
  "text_ok longest s \<longleftrightarrow> s \<noteq> [] \<and> length s \<le> longest \<and> list_all printable s"

definition require_text :: "nat \<Rightarrow> pyval \<Rightarrow> bool" where
  "require_text longest v = (case v of PStr s \<Rightarrow> text_ok longest s | _ \<Rightarrow> False)"

definition MAX_FIELD_LENGTH :: nat where
  "MAX_FIELD_LENGTH = (512 :: nat)"

definition MAX_EFFORT_LENGTH :: nat where
  "MAX_EFFORT_LENGTH = (64 :: nat)"

record input_ref =
  ir_ref :: string
  ir_content_hash :: string

record agent_run_request =
  rq_owner :: string
  rq_namespace :: string
  rq_agent_id :: string
  rq_expected_binding_hash :: "string option"
  rq_input_refs :: "input_ref list"
  rq_requested_model :: string
  rq_requested_effort :: string
  rq_grant_ref :: string
  rq_grant_hash :: string
  rq_grant_role_hash :: string
  rq_grant_capabilities :: "string list"
  rq_mcp_snapshot_hashes :: "string list"
  rq_credential_refs :: "string list"
  rq_limits :: run_limits
  rq_evidence_policy_hash :: string
  rq_recovery_policy_hash :: string
  rq_session_id :: "string option"

text \<open>The dataclass fields in order; all but the last two are required.\<close>

definition REQUIRED_REQUEST_FIELDS :: "string list" where
  "REQUIRED_REQUEST_FIELDS =
     [''owner'', ''namespace'', ''agent_id'', ''expected_binding_hash'', ''input_refs'', ''requested_model'',
      ''requested_effort'', ''grant_ref'', ''grant_hash'', ''grant_role_hash'', ''grant_capabilities'',
      ''mcp_snapshot_hashes'', ''credential_refs'', ''limits'', ''evidence_policy_hash'', ''recovery_policy_hash'']"

definition REQUEST_FIELD_NAMES :: "string list" where
  "REQUEST_FIELD_NAMES = REQUIRED_REQUEST_FIELDS @ [''session_id'', ''schema_version'']"

definition LIMIT_FIELDS :: "string list" where
  "LIMIT_FIELDS =
     [''startup_timeout_seconds'', ''turn_timeout_seconds'', ''cancel_grace_seconds'', ''max_stderr_bytes'',
      ''max_event_bytes'', ''max_events'']"

definition INT_LIMIT_FIELDS :: "string list" where
  "INT_LIMIT_FIELDS = [''max_stderr_bytes'', ''max_event_bytes'', ''max_events'']"

definition spec_refusal :: protocol_error where
  "spec_refusal = invalid ''submit request failed spec validation (SpecValidationError)''"

fun limit_items_ok :: "pydict \<Rightarrow> protocol_error + unit" where
  "limit_items_ok [] = Inr ()"
| "limit_items_ok ((name, number) # rest) =
     (if is_bool number \<or> \<not> (is_int number \<or> is_float number) then Inl (invalid (''limit '' @ name @ '' must be a number''))
      else if name \<in> set INT_LIMIT_FIELDS \<and> \<not> is_int number then Inl (invalid (''limit '' @ name @ '' must be an integer''))
      else limit_items_ok rest)"

definition limits_of :: "pydict \<Rightarrow> run_limits" where
  "limits_of d =
     (let pick = (\<lambda>k v. case map_of d k of None \<Rightarrow> v | Some x \<Rightarrow> x) in
      \<lparr>startup_timeout_seconds = pick ''startup_timeout_seconds'' (startup_timeout_seconds default_run_limits),
       turn_timeout_seconds = pick ''turn_timeout_seconds'' (turn_timeout_seconds default_run_limits),
       cancel_grace_seconds = pick ''cancel_grace_seconds'' (cancel_grace_seconds default_run_limits),
       max_stderr_bytes = pick ''max_stderr_bytes'' (max_stderr_bytes default_run_limits),
       max_event_bytes = pick ''max_event_bytes'' (max_event_bytes default_run_limits),
       max_events = pick ''max_events'' (max_events default_run_limits)\<rparr>)"

definition parse_limits :: "int \<Rightarrow> pyval \<Rightarrow> protocol_error + run_limits" where
  "parse_limits policy v =
     (case v of
        PDict d \<Rightarrow>
          andThen (require_closed_keys d LIMIT_FIELDS ''limits'') (\<lambda>_.
          andThen (limit_items_ok d) (\<lambda>_.
            if run_limits_accepted (Some policy) (limits_of d) then Inr (limits_of d) else Inl spec_refusal))
      | _ \<Rightarrow> Inl (invalid ''limits must be a JSON object''))"

definition INPUT_REF_FIELDS :: "string list" where
  "INPUT_REF_FIELDS = [''content_hash'', ''ref'']"

definition parse_input_ref :: "pyval \<Rightarrow> protocol_error + input_ref" where
  "parse_input_ref v =
     (case v of
        PDict d \<Rightarrow>
          andThen (require_closed_keys d INPUT_REF_FIELDS ''input_refs item'') (\<lambda>_.
            let missing = filter (\<lambda>k. \<not> has_key k d) INPUT_REF_FIELDS in
            if missing \<noteq> [] then Inl (invalid (''input_refs item missing fields: '' @ join_with '', '' missing))
            else if require_text MAX_FIELD_LENGTH (dget d ''ref'') \<and> require_text MAX_FIELD_LENGTH (dget d ''content_hash'')
            then Inr \<lparr>ir_ref = the_str (dget d ''ref''), ir_content_hash = the_str (dget d ''content_hash'')\<rparr>
            else Inl spec_refusal)
      | _ \<Rightarrow> Inl (invalid ''input_refs items must be JSON objects''))"

fun parse_all :: "('a \<Rightarrow> 'e + 'b) \<Rightarrow> 'a list \<Rightarrow> 'e + 'b list" where
  "parse_all f [] = Inr []"
| "parse_all f (x # xs) = andThen (f x) (\<lambda>y. andThen (parse_all f xs) (\<lambda>ys. Inr (y # ys)))"

definition parse_input_refs :: "pyval \<Rightarrow> protocol_error + input_ref list" where
  "parse_input_refs v =
     (case v of PList items \<Rightarrow> parse_all parse_input_ref items | _ \<Rightarrow> Inl (invalid ''input_refs must be a JSON array''))"

definition parse_string_tuple :: "pyval \<Rightarrow> string \<Rightarrow> protocol_error + string list" where
  "parse_string_tuple v name =
     (case v of
        PList items \<Rightarrow>
          if list_all is_str items then Inr (map the_str items)
          else Inl (invalid (''request field '' @ name @ '' must be an array of strings''))
      | _ \<Rightarrow> Inl (invalid (''request field '' @ name @ '' must be an array of strings'')))"

text \<open>The loop over the request's items in their order: the first item that fails its own rule decides.\<close>

definition parse_field :: "int \<Rightarrow> string \<Rightarrow> pyval \<Rightarrow> protocol_error + unit" where
  "parse_field policy name item =
     (if name = ''limits'' then andThen (parse_limits policy item) (\<lambda>_. Inr ())
      else if name = ''input_refs'' then andThen (parse_input_refs item) (\<lambda>_. Inr ())
      else if name \<in> {''grant_capabilities'', ''mcp_snapshot_hashes'', ''credential_refs''}
        then andThen (parse_string_tuple item name) (\<lambda>_. Inr ())
      else if name = ''schema_version'' then ensure (plain_int item) (invalid ''schema_version must be an integer'')
      else if name = ''session_id''
        then ensure (is_valid_session_id item)
          (invalid ''request field session_id must be omitted to create a Session, or a safe session-store path component to reuse one'')
      else if name = ''expected_binding_hash''
        then ensure (item = PNone \<or> is_str item) (invalid (''request field '' @ name @ '' must be a string or null''))
      else Inr ())"

fun parse_fields :: "int \<Rightarrow> pydict \<Rightarrow> protocol_error + unit" where
  "parse_fields policy [] = Inr ()"
| "parse_fields policy ((name, item) # rest) =
     andThen (parse_field policy name item) (\<lambda>_. parse_fields policy rest)"

text \<open>\<^verbatim>\<open>AgentRunRequest.__post_init__\<close> on the collected arguments.\<close>

definition TEXT_REQUEST_FIELDS :: "string list" where
  "TEXT_REQUEST_FIELDS =
     [''owner'', ''namespace'', ''requested_model'', ''grant_ref'', ''grant_hash'', ''grant_role_hash'',
      ''evidence_policy_hash'', ''recovery_policy_hash'']"

definition request_post_init :: "pydict \<Rightarrow> bool" where
  "request_post_init d \<longleftrightarrow>
     (has_key ''schema_version'' d \<longrightarrow> dget d ''schema_version'' = PInt SPEC_SCHEMA_VERSION) \<and>
     list_all (\<lambda>k. require_text MAX_FIELD_LENGTH (dget d k)) TEXT_REQUEST_FIELDS \<and>
     is_str (dget d ''agent_id'') \<and>
     (has_key ''session_id'' d \<longrightarrow> require_text MAX_FIELD_LENGTH (dget d ''session_id'')) \<and>
     require_text MAX_EFFORT_LENGTH (dget d ''requested_effort'') \<and>
     (case dget d ''grant_capabilities'' of
        PList items \<Rightarrow> list_all (\<lambda>x. \<exists>k \<in> set PERMISSION_KINDS. x = PStr k) items | _ \<Rightarrow> False)"

definition str_list :: "pyval \<Rightarrow> string list" where
  "str_list v = (case v of PList items \<Rightarrow> map the_str items | _ \<Rightarrow> [])"

definition str_opt :: "pyval \<Rightarrow> string option" where
  "str_opt v = (case v of PStr s \<Rightarrow> Some s | _ \<Rightarrow> None)"

fun right_or :: "'a \<Rightarrow> 'e + 'a \<Rightarrow> 'a" where
  "right_or x (Inl _) = x"
| "right_or x (Inr y) = y"

definition request_of :: "int \<Rightarrow> pydict \<Rightarrow> agent_run_request" where
  "request_of policy d =
     \<lparr>rq_owner = the_str (dget d ''owner''), rq_namespace = the_str (dget d ''namespace''),
      rq_agent_id = the_str (dget d ''agent_id''), rq_expected_binding_hash = str_opt (dget d ''expected_binding_hash''),
      rq_input_refs = right_or [] (parse_input_refs (dget d ''input_refs'')),
      rq_requested_model = the_str (dget d ''requested_model''), rq_requested_effort = the_str (dget d ''requested_effort''),
      rq_grant_ref = the_str (dget d ''grant_ref''), rq_grant_hash = the_str (dget d ''grant_hash''),
      rq_grant_role_hash = the_str (dget d ''grant_role_hash''), rq_grant_capabilities = str_list (dget d ''grant_capabilities''),
      rq_mcp_snapshot_hashes = str_list (dget d ''mcp_snapshot_hashes''), rq_credential_refs = str_list (dget d ''credential_refs''),
      rq_limits = right_or default_run_limits (parse_limits policy (dget d ''limits'')),
      rq_evidence_policy_hash = the_str (dget d ''evidence_policy_hash''),
      rq_recovery_policy_hash = the_str (dget d ''recovery_policy_hash''), rq_session_id = str_opt (dget d ''session_id'')\<rparr>"

definition parse_request_object :: "int \<Rightarrow> pyval \<Rightarrow> protocol_error + agent_run_request" where
  "parse_request_object policy v =
     (case v of
        PDict d \<Rightarrow>
          andThen (require_closed_keys d REQUEST_FIELD_NAMES ''request'') (\<lambda>_.
          let missing = sort (filter (\<lambda>k. \<not> has_key k d) REQUIRED_REQUEST_FIELDS) in
          andThen (ensure (missing = []) (invalid (''request missing fields: '' @ join_with '', '' missing))) (\<lambda>_.
          andThen (parse_fields policy d) (\<lambda>_.
            if request_post_init d then Inr (request_of policy d) else Inl spec_refusal)))
      | _ \<Rightarrow> Inl (invalid ''request must be a JSON object''))"

section \<open>Submit\<close>

record submit_command =
  sc_request :: agent_run_request
  sc_prompt_text :: string
  sc_workspace_root :: string
  sc_cwd :: "string option"
  sc_retry_of_run_id :: "string option"

definition optional_text :: "pydict \<Rightarrow> string \<Rightarrow> protocol_error + string option" where
  "optional_text d k =
     (case dget d k of
        PNone \<Rightarrow> Inr None
      | PStr s \<Rightarrow> if s = [] then Inl (invalid (k @ '' must be a non-empty string or null'')) else Inr (Some s)
      | _ \<Rightarrow> Inl (invalid (k @ '' must be a non-empty string or null'')))"

fun require_present :: "pydict \<Rightarrow> string list \<Rightarrow> protocol_error + unit" where
  "require_present d [] = Inr ()"
| "require_present d (k # ks) =
     (if has_key k d then require_present d ks else Inl (invalid (''submit requires '' @ k)))"

definition prompt_of :: "pyval \<Rightarrow> protocol_error + string" where
  "prompt_of v =
     (case v of
        PStr s \<Rightarrow>
          (let n = length (utf8_encode s) in
           if MAX_PROMPT_BYTES < n then Inl (invalid (''prompt_text is '' @ dec_nat n @ '' bytes (max 262144)'')) else Inr s)
      | _ \<Rightarrow> Inl (invalid ''prompt_text must be a string''))"

definition workspace_of :: "pyval \<Rightarrow> protocol_error + string" where
  "workspace_of v =
     (case v of
        PStr s \<Rightarrow> if s = [] then Inl (invalid ''workspace_root must be a non-empty string'') else Inr s
      | _ \<Rightarrow> Inl (invalid ''workspace_root must be a non-empty string''))"

definition parse_submit :: "int \<Rightarrow> pydict \<Rightarrow> protocol_error + submit_command" where
  "parse_submit policy d =
     andThen (require_closed_keys d SUBMIT_KEYS ''submit'') (\<lambda>_.
     andThen (require_present d [''request'', ''prompt_text'', ''workspace_root'']) (\<lambda>_.
     andThen (prompt_of (dget d ''prompt_text'')) (\<lambda>prompt.
     andThen (workspace_of (dget d ''workspace_root'')) (\<lambda>ws.
     andThen (optional_text d ''cwd'') (\<lambda>cwd.
     andThen (optional_text d ''retry_of_run_id'') (\<lambda>retry.
     andThen (parse_request_object policy (dget d ''request'')) (\<lambda>r.
       Inr \<lparr>sc_request = r, sc_prompt_text = prompt, sc_workspace_root = ws, sc_cwd = cwd,
            sc_retry_of_run_id = retry\<rparr>)))))))"

definition admit_event_budget :: "run_limits \<Rightarrow> int \<Rightarrow> protocol_error + unit" where
  "admit_event_budget l policy = ensure (check_run_limits policy l) spec_refusal"

section \<open>The request digest\<close>

text \<open>\<^verbatim>\<open>dataclasses.asdict\<close> of the request; a tuple is serialized as an array.\<close>

definition pstrs :: "string list \<Rightarrow> pyval" where
  "pstrs xs = PList (map PStr xs)"

definition limits_asdict :: "run_limits \<Rightarrow> pydict" where
  "limits_asdict l =
     [(''startup_timeout_seconds'', startup_timeout_seconds l), (''turn_timeout_seconds'', turn_timeout_seconds l),
      (''cancel_grace_seconds'', cancel_grace_seconds l), (''max_stderr_bytes'', max_stderr_bytes l),
      (''max_event_bytes'', max_event_bytes l), (''max_events'', max_events l)]"

definition input_ref_asdict :: "input_ref \<Rightarrow> pydict" where
  "input_ref_asdict r = [(''ref'', PStr (ir_ref r)), (''content_hash'', PStr (ir_content_hash r))]"

definition request_asdict :: "agent_run_request \<Rightarrow> pydict" where
  "request_asdict r =
     [(''owner'', PStr (rq_owner r)), (''namespace'', PStr (rq_namespace r)), (''agent_id'', PStr (rq_agent_id r)),
      (''expected_binding_hash'', pstr_opt (rq_expected_binding_hash r)),
      (''input_refs'', PList (map (PDict \<circ> input_ref_asdict) (rq_input_refs r))),
      (''requested_model'', PStr (rq_requested_model r)), (''requested_effort'', PStr (rq_requested_effort r)),
      (''grant_ref'', PStr (rq_grant_ref r)), (''grant_hash'', PStr (rq_grant_hash r)),
      (''grant_role_hash'', PStr (rq_grant_role_hash r)), (''grant_capabilities'', pstrs (rq_grant_capabilities r)),
      (''mcp_snapshot_hashes'', pstrs (rq_mcp_snapshot_hashes r)), (''credential_refs'', pstrs (rq_credential_refs r)),
      (''limits'', PDict (limits_asdict (rq_limits r))), (''evidence_policy_hash'', PStr (rq_evidence_policy_hash r)),
      (''recovery_policy_hash'', PStr (rq_recovery_policy_hash r)), (''session_id'', pstr_opt (rq_session_id r)),
      (''schema_version'', PInt SPEC_SCHEMA_VERSION)]"

definition DIGEST_SCHEMA_VERSION :: int where
  "DIGEST_SCHEMA_VERSION = (3 :: int)"

record request_digest =
  rd_value :: string
  rd_prompt_sha256 :: string
  rd_prompt_bytes :: nat

definition digest_material :: "(bytes \<Rightarrow> string) \<Rightarrow> submit_command \<Rightarrow> pydict" where
  "digest_material shab c =
     (let prompt = utf8_encode (sc_prompt_text c) in
      [(''digest_schema_version'', PInt DIGEST_SCHEMA_VERSION), (''request'', PDict (request_asdict (sc_request c))),
       (''workspace_root'', PStr (sc_workspace_root c)), (''cwd'', pstr_opt (sc_cwd c)),
       (''retry_of_run_id'', pstr_opt (sc_retry_of_run_id c)), (''prompt_sha256'', PStr (shab prompt)),
       (''prompt_bytes'', PInt (int (length prompt)))])"

definition compute_request_digest :: "(bytes \<Rightarrow> string) \<Rightarrow> (rat \<Rightarrow> string) \<Rightarrow> submit_command \<Rightarrow> request_digest option" where
  "compute_request_digest shab fr c =
     (case dumps_fmt (fmt_canonical fr) (PDict (digest_material shab c)) 0 of
        None \<Rightarrow> None
      | Some text \<Rightarrow>
          Some \<lparr>rd_value = ''sha256:'' @ shab (utf8_encode text),
                rd_prompt_sha256 = shab (utf8_encode (sc_prompt_text c)),
                rd_prompt_bytes = length (utf8_encode (sc_prompt_text c))\<rparr>)"

text \<open>What the submission record keeps of a command and its digest.\<close>

definition submit_fields_of :: "submit_command \<Rightarrow> request_digest \<Rightarrow> submit_fields" where
  "submit_fields_of c g =
     \<lparr>sf_owner = rq_owner (sc_request c), sf_namespace = rq_namespace (sc_request c),
      sf_session_id = rq_session_id (sc_request c), sf_agent_id = rq_agent_id (sc_request c),
      sf_retry_of_run_id = sc_retry_of_run_id c, sf_request_digest = rd_value g,
      sf_prompt_sha256 = rd_prompt_sha256 g, sf_prompt_bytes = rd_prompt_bytes g\<rparr>"

end
