(* ===== verification/Protocol_Props.thy ===== *)
theory Protocol_Props
  imports Protocol
begin

text \<open>
  The protocol's properties: the nesting walk decides depth and size exactly, a frame is one line,
  the envelope and the submit payload are accepted exactly in their closed shape, and no refusal
  carries the caller's text.
\<close>

section \<open>The nesting walk against depth and size\<close>

primrec nest_depth :: "pyval \<Rightarrow> nat" where
  "nest_depth PNone = 0"
| "nest_depth (PBool b) = 0"
| "nest_depth (PInt n) = 0"
| "nest_depth (PFloat x) = 0"
| "nest_depth (PStr s) = 0"
| "nest_depth (PList xs) = Suc (foldr max (map nest_depth xs) 0)"
| "nest_depth (PDict d) = Suc (foldr max (map snd (map (map_prod id nest_depth) d)) 0)"
| "nest_depth (PObj t) = 0"

primrec container_count :: "pyval \<Rightarrow> nat" where
  "container_count PNone = 0"
| "container_count (PBool b) = 0"
| "container_count (PInt n) = 0"
| "container_count (PFloat x) = 0"
| "container_count (PStr s) = 0"
| "container_count (PList xs) = Suc (sum_list (map container_count xs))"
| "container_count (PDict d) = Suc (sum_list (map snd (map (map_prod id container_count) d)))"
| "container_count (PObj t) = 0"

lemma depth_pos: "0 < nest_depth v \<longleftrightarrow> is_container v" "0 < container_count v \<longleftrightarrow> is_container v"
  by (cases v; simp)+

lemma foldr_max_gt: "(m :: nat) < foldr max ns 0 \<longleftrightarrow> (\<exists>n \<in> set ns. m < n)"
  by (induction ns) (auto simp: less_max_iff_disj)

lemma node_depth:
  assumes "is_container v" "d \<le> b"
  shows "b < d + nest_depth v - 1 \<longleftrightarrow> (\<exists>c \<in> set (children v). is_container c \<and> b < Suc d + nest_depth c - 1)"
proof -
  have step: "b < d + nest_depth v - 1 \<longleftrightarrow> (\<exists>c \<in> set (children v). b < d + nest_depth c)"
    using assms foldr_max_gt [of "b - d"] by (cases v) (auto simp: less_diff_conv2 add.commute less_diff_conv)
  have "is_container c" if "b < d + nest_depth c" for c
    using that assms(2) depth_pos(1) [of c] by (cases "is_container c") auto
  then show ?thesis using step by auto
qed

lemma sum_containers: "sum_list (map container_count (filter is_container xs)) = sum_list (map container_count xs)"
proof (induction xs)
  case (Cons x xs)
  then show ?case using depth_pos(2) [of x] by (cases "is_container x") auto
qed simp

lemma node_count:
  "is_container v \<Longrightarrow> container_count v = Suc (sum_list (map container_count (filter is_container (children v))))"
  by (cases v) (simp_all add: sum_containers comp_def)

lemma nesting_loop_exact:
  assumes "\<forall>p \<in> set stack. is_container (fst p)" "visited \<le> NESTING_CHECK_MAX_CONTAINERS"
  shows "nesting_loop stack visited \<longleftrightarrow>
    (\<exists>(v, d) \<in> set stack. MAX_JSON_NESTING_DEPTH < d + nest_depth v - 1) \<or>
    NESTING_CHECK_MAX_CONTAINERS < visited + sum_list (map (container_count \<circ> fst) stack)"
  using assms
proof (induction stack visited rule: nesting_loop.induct)
  case (2 node depth stack visited)
  have pos: "0 < nest_depth node" "0 < container_count node" using 2(2) depth_pos by auto
  show ?case
  proof (cases "MAX_JSON_NESTING_DEPTH < depth \<or> NESTING_CHECK_MAX_CONTAINERS < Suc visited")
    case True
    then show ?thesis using pos by auto
  next
    case False
    define kids where "kids = rev (map (\<lambda>c. (c, Suc depth)) (filter is_container (children node)))"
    let ?deep = "\<lambda>st. \<exists>(v, d) \<in> set st. MAX_JSON_NESTING_DEPTH < d + nest_depth v - 1"
    let ?total = "\<lambda>st. sum_list (map (container_count \<circ> fst) st)"
    have "nesting_loop ((node, depth) # stack) visited = nesting_loop (kids @ stack) (Suc visited)"
      using False by (simp add: kids_def)
    also have "\<dots> \<longleftrightarrow> ?deep (kids @ stack) \<or> NESTING_CHECK_MAX_CONTAINERS < Suc visited + ?total (kids @ stack)"
      unfolding kids_def by (rule 2(1)) (use False 2(2,3) in auto)
    also have "?deep (kids @ stack) \<longleftrightarrow> ?deep kids \<or> ?deep stack" by auto
    also have "?deep kids \<longleftrightarrow> MAX_JSON_NESTING_DEPTH < depth + nest_depth node - 1"
      using node_depth [of node depth MAX_JSON_NESTING_DEPTH] 2(2) False by (auto simp: kids_def)
    also have "Suc visited + ?total (kids @ stack) = visited + ?total ((node, depth) # stack)"
      using node_count [of node] 2(2) by (simp add: kids_def rev_map [symmetric] sum_list_rev comp_def)
    finally show ?thesis by (simp del: nesting_loop.simps add: comp_def)
  qed
qed simp

lemma nesting_exact:
  "json_nesting_exceeds_bound v \<longleftrightarrow>
     MAX_JSON_NESTING_DEPTH < nest_depth v \<or> NESTING_CHECK_MAX_CONTAINERS < container_count v"
proof (cases "is_container v")
  case True
  then show ?thesis using nesting_loop_exact [of "[(v, 1)]" 0] by (simp add: json_nesting_exceeds_bound_def)
next
  case False
  then have "nest_depth v = 0" "container_count v = 0" using depth_pos [of v] by auto
  then show ?thesis using False by (simp add: json_nesting_exceeds_bound_def)
qed

text \<open>The nesting walk is exact: a decoded value exceeds the bound exactly when its containers nest
  deeper than the protocol's depth or there are more of them than one frame can hold, whatever its shape
  and however the walk orders its stack.\<close>

theorem nesting_walk_exact:
  "json_nesting_exceeds_bound v \<longleftrightarrow>
     MAX_JSON_NESTING_DEPTH < nest_depth v \<or> NESTING_CHECK_MAX_CONTAINERS < container_count v"
  by (rule nesting_exact)

section \<open>A frame is one line\<close>

definition one_line :: "string \<Rightarrow> bool" where
  "one_line s \<longleftrightarrow> CHR 0x0A \<notin> set s"

lemma one_line_simps [simp]:
  "one_line []" "one_line (c # s) \<longleftrightarrow> c \<noteq> CHR 0x0A \<and> one_line s" "one_line (s @ t) \<longleftrightarrow> one_line s \<and> one_line t"
  by (auto simp: one_line_def)

lemma one_line_concat: "one_line (concat xss) \<longleftrightarrow> (\<forall>xs \<in> set xss. one_line xs)"
  by (induction xss) auto

lemma one_line_join: "one_line sep \<Longrightarrow> \<forall>x \<in> set xs. one_line x \<Longrightarrow> one_line (join_with sep xs)"
  by (induction sep xs rule: join_with.induct) auto

lemma hex_not_newline: "n < 16 \<Longrightarrow> hex_char n \<noteq> CHR 0x0A"
proof -
  have "list_all (\<lambda>n. hex_char n \<noteq> CHR 0x0A) [0..<16]" by code_simp
  then show "n < 16 \<Longrightarrow> ?thesis" by (simp add: list_all_iff)
qed

lemma one_line_esc: "one_line (esc_char_raw c)"
proof -
  have "(of_char c :: nat) div 16 < 16" using nat_of_char_less_256 [of c] by (simp add: less_mult_imp_div_less)
  then show ?thesis using hex_not_newline by (auto simp: esc_char_raw_def esc_char_def Let_def)
qed

lemma one_line_string: "one_line (json_string_raw s)"
  by (simp add: json_string_raw_def one_line_concat one_line_esc)

lemma one_line_dec_nat: "one_line (dec_nat n)"
proof (induction n rule: dec_nat.induct)
  case (1 n)
  have "digit_char k \<noteq> CHR 0x0A" if "k < 10" for k :: nat
  proof -
    have "list_all (\<lambda>k. digit_char k \<noteq> CHR 0x0A) [0..<10]" by code_simp
    then show ?thesis using that by (simp add: list_all_iff)
  qed
  then show ?case using 1 by (subst dec_nat.simps) (auto split: if_splits)
qed

lemma opt_seq_mem: "opt_seq xs = Some ys \<Longrightarrow> y \<in> set ys \<Longrightarrow> Some y \<in> set xs"
  by (induction xs arbitrary: ys) (auto split: option.splits)

lemma one_line_dumps:
  assumes "\<And>q. one_line (fr q)"
  shows "dumps_fmt (fmt_canonical fr) v l = Some t \<Longrightarrow> one_line t"
proof (induction v arbitrary: l t)
  case (PInt n)
  then show ?case by (auto simp: json_int_def dec_int_def one_line_dec_nat split: if_splits)
next
  case (PFloat x)
  then show ?case using assms by (cases x) (auto simp: fmt_canonical_def)
next
  case (PStr s)
  then show ?case by (auto simp: fmt_canonical_def one_line_string)
next
  case (PList xs)
  then obtain ts where ts: "opt_seq (map (\<lambda>g. g (Suc l)) (map (dumps_fmt (fmt_canonical fr)) xs)) = Some ts"
      "t = bracketed (fmt_canonical fr) l ''['' '']'' ts" by auto
  have "\<forall>x \<in> set ts. one_line x" using opt_seq_mem [OF ts(1)] PList.IH by fastforce
  then show ?case using ts(2) by (auto simp: bracketed_def line_break_def fmt_canonical_def intro: one_line_join)
next
  case (PDict d)
  then obtain ts where ts: "opt_seq (map (\<lambda>p. map_option (\<lambda>t. jf_string (fmt_canonical fr) (fst p) @ jf_key (fmt_canonical fr) @ t)
        (snd p (Suc l))) (sort_key fst (map (map_prod id (dumps_fmt (fmt_canonical fr))) d))) = Some ts"
      "t = bracketed (fmt_canonical fr) l ''{'' ''}'' ts" by auto
  have "one_line x" if "x \<in> set ts" for x
  proof -
    from opt_seq_mem [OF ts(1) that] obtain k v u where "(k, v) \<in> set d" "dumps_fmt (fmt_canonical fr) v (Suc l) = Some u"
      "x = json_string_raw k @ '':'' @ u" by (auto simp: fmt_canonical_def map_option_case split: option.splits)
    then show ?thesis using PDict.IH [of "(k, v)" v "Suc l" u] by (auto simp: one_line_string snds.simps)
  qed
  then show ?case using ts(2) by (auto simp: bracketed_def line_break_def fmt_canonical_def intro: one_line_join)
qed auto

text \<open>Framing is sound: an encoded frame is within the byte bound and ends in its only line feed, so
  no string, key or nested value of a payload can open a second frame.\<close>

theorem frame_is_one_line:
  assumes "\<And>q. one_line (fr q)" "encode_frame fr v = Inr t"
  shows "utf8_len t \<le> MAX_FRAME_BYTES \<and> (\<exists>body. t = body @ [CHR 0x0A] \<and> CHR 0x0A \<notin> set body)"
proof -
  obtain body where body: "dumps_fmt (fmt_canonical fr) v 0 = Some body" "t = body @ [CHR 0x0A]" "utf8_len t \<le> MAX_FRAME_BYTES"
    using assms(2) by (auto simp: encode_frame_def andThen_Inr split: option.splits if_splits)
  then show ?thesis using one_line_dumps [OF assms(1) body(1)] by (auto simp: one_line_def)
qed

theorem frame_is_one_line_witness:
  "\<exists>body. the (case encode_frame (\<lambda>_. ''1.5'') (PDict [(''a'', PStr [CHR 0x0A])]) of Inr t \<Rightarrow> Some t | Inl _ \<Rightarrow> None) =
     body @ [CHR 0x0A] \<and> CHR 0x0A \<notin> set body"
proof -
  obtain t where t: "encode_frame (\<lambda>_. ''1.5'') (PDict [(''a'', PStr [CHR 0x0A])]) = Inr t"
  proof -
    have "\<exists>t. encode_frame (\<lambda>_. ''1.5'') (PDict [(''a'', PStr [CHR 0x0A])]) = Inr t"
      by (simp add: encode_frame_def ensure_def json_nesting_exceeds_bound_def MAX_JSON_NESTING_DEPTH_def
          NESTING_CHECK_MAX_CONTAINERS_def fmt_canonical_def bracketed_def line_break_def json_string_raw_def
          esc_char_raw_def esc_char_def utf8_len_Cons MAX_FRAME_BYTES_def)
    then show thesis using that by blast
  qed
  then show ?thesis using frame_is_one_line [OF _ t] by simp
qed

section \<open>The submit payload\<close>

text \<open>What a parsed request guarantees, and the payload that spells it.\<close>

definition ref_text_ok :: "input_ref \<Rightarrow> bool" where
  "ref_text_ok r \<longleftrightarrow> text_ok MAX_FIELD_LENGTH (ir_ref r) \<and> text_ok MAX_FIELD_LENGTH (ir_content_hash r)"

definition request_ok :: "int \<Rightarrow> agent_run_request \<Rightarrow> bool" where
  "request_ok policy r \<longleftrightarrow>
     list_all (text_ok MAX_FIELD_LENGTH)
       [rq_owner r, rq_namespace r, rq_requested_model r, rq_grant_ref r, rq_grant_hash r, rq_grant_role_hash r,
        rq_evidence_policy_hash r, rq_recovery_policy_hash r] \<and>
     text_ok MAX_EFFORT_LENGTH (rq_requested_effort r) \<and>
     list_all ref_text_ok (rq_input_refs r) \<and>
     set (rq_grant_capabilities r) \<subseteq> set PERMISSION_KINDS \<and>
     run_limits_accepted (Some policy) (rq_limits r) \<and>
     (\<forall>s. rq_session_id r = Some s \<longrightarrow> session_id_ok s \<and> text_ok MAX_FIELD_LENGTH s)"

definition command_ok :: "int \<Rightarrow> submit_command \<Rightarrow> bool" where
  "command_ok policy c \<longleftrightarrow>
     request_ok policy (sc_request c) \<and> length (utf8_encode (sc_prompt_text c)) \<le> MAX_PROMPT_BYTES \<and>
     sc_workspace_root c \<noteq> [] \<and> sc_cwd c \<noteq> Some [] \<and> sc_retry_of_run_id c \<noteq> Some []"

definition request_wire :: "agent_run_request \<Rightarrow> pydict" where
  "request_wire r =
     (case rq_session_id r of None \<Rightarrow> ddel ''session_id'' (request_asdict r) | Some _ \<Rightarrow> request_asdict r)"

definition command_wire :: "submit_command \<Rightarrow> pydict" where
  "command_wire c =
     [(''request'', PDict (request_wire (sc_request c))), (''prompt_text'', PStr (sc_prompt_text c)),
      (''workspace_root'', PStr (sc_workspace_root c)), (''cwd'', pstr_opt (sc_cwd c)),
      (''retry_of_run_id'', pstr_opt (sc_retry_of_run_id c))]"

lemma require_text_iff: "require_text n v \<longleftrightarrow> (\<exists>s. v = PStr s \<and> text_ok n s)"
  by (cases v) (auto simp: require_text_def)

lemma parse_all_Inr: "parse_all f xs = Inr ys \<longleftrightarrow> list_all2 (\<lambda>x y. f x = Inr y) xs ys"
  by (induction xs arbitrary: ys) (auto simp: andThen_Inr list_all2_Cons1)

lemma parse_input_ref_sound: "parse_input_ref v = Inr r \<Longrightarrow> ref_text_ok r"
  by (auto simp: parse_input_ref_def andThen_Inr Let_def require_text_iff ref_text_ok_def split: pyval.splits if_splits)

lemma parse_input_refs_sound: "parse_input_refs v = Inr rs \<Longrightarrow> list_all ref_text_ok rs"
  by (fastforce simp: parse_input_refs_def parse_all_Inr list_all_iff list_all2_conv_all_nth in_set_conv_nth
      split: pyval.splits dest: parse_input_ref_sound)

lemma parse_limits_sound: "parse_limits policy v = Inr l \<Longrightarrow> run_limits_accepted (Some policy) l"
  by (auto simp: parse_limits_def andThen_Inr split: pyval.splits if_splits)

lemma parse_fields_Inr: "parse_fields policy d = Inr u \<longleftrightarrow> (\<forall>(k, v) \<in> set d. parse_field policy k v = Inr ())"
  by (induction policy d rule: parse_fields.induct) (auto simp: andThen_Inr)

lemma present_field:
  assumes "parse_fields policy d = Inr u" "has_key k d"
  shows "parse_field policy k (dget d k) = Inr ()"
proof -
  obtain v where "map_of d k = Some v" using assms(2) by (auto simp: has_key_map_of)
  then show ?thesis using assms(1) map_of_SomeD [of d k v] by (auto simp: parse_fields_Inr dget_def)
qed

lemma sort_Nil_iff: "sort xs = [] \<longleftrightarrow> xs = []"
  by (metis length_0_conv length_sort)

lemma parse_request_sound:
  assumes "parse_request_object policy v = Inr r"
  shows "request_ok policy r"
proof -
  obtain d where d: "v = PDict d" "filter (\<lambda>k. \<not> has_key k d) REQUIRED_REQUEST_FIELDS = []"
      "parse_fields policy d = Inr ()" "request_post_init d" "r = request_of policy d"
    using assms by (auto simp: parse_request_object_def andThen_Inr Let_def sort_Nil_iff split: pyval.splits if_splits)
  have present: "has_key k d" if "k \<in> set REQUIRED_REQUEST_FIELDS" for k
    using d(2) that by (auto simp: filter_empty_conv)
  have "\<exists>l. parse_limits policy (dget d ''limits'') = Inr l"
    using present_field [OF d(3), of "''limits''"] present by (auto simp: REQUIRED_REQUEST_FIELDS_def parse_field_def andThen_Inr)
  then have limits: "run_limits_accepted (Some policy) (rq_limits r)"
    using parse_limits_sound by (auto simp: d(5) request_of_def)
  have "\<exists>rs. parse_input_refs (dget d ''input_refs'') = Inr rs"
    using present_field [OF d(3), of "''input_refs''"] present by (auto simp: REQUIRED_REQUEST_FIELDS_def parse_field_def andThen_Inr)
  then have refs: "list_all ref_text_ok (rq_input_refs r)"
    using parse_input_refs_sound by (auto simp: d(5) request_of_def)
  have session: "session_id_ok s \<and> text_ok MAX_FIELD_LENGTH s" if "rq_session_id r = Some s" for s
  proof -
    have s: "dget d ''session_id'' = PStr s" using that by (auto simp: d(5) request_of_def str_opt_def split: pyval.splits)
    then have "has_key ''session_id'' d" by (auto simp: dget_def has_key_map_of split: option.splits)
    then show ?thesis using present_field [OF d(3), of "''session_id''"] d(4) s
      by (auto simp: parse_field_def request_post_init_def require_text_iff)
  qed
  have caps: "set (rq_grant_capabilities r) \<subseteq> set PERMISSION_KINDS"
    using d(4) by (auto simp: d(5) request_of_def request_post_init_def str_list_def list_all_iff split: pyval.splits)
  show ?thesis
    using d(4) limits refs session caps
    by (auto simp: request_ok_def request_post_init_def TEXT_REQUEST_FIELDS_def require_text_iff) (auto simp: d(5) request_of_def)
qed

lemma parse_submit_sound:
  assumes "parse_submit policy d = Inr c"
  shows "command_ok policy c"
  using assms
  by (auto simp: parse_submit_def andThen_Inr command_ok_def prompt_of_def workspace_of_def optional_text_def Let_def
      dest: parse_request_sound split: pyval.splits if_splits)

lemma limits_wire: "limits_of (limits_asdict l) = l"
  by (cases l) (simp add: limits_of_def limits_asdict_def Let_def)

lemma limit_float_num: "validate_limit_float v m \<Longrightarrow> \<not> is_bool v \<and> (is_int v \<or> is_float v)"
  by (auto simp: validate_limit_float_def split: pyval.splits)

lemma parse_limits_wire:
  assumes "run_limits_accepted (Some policy) l"
  shows "parse_limits policy (PDict (limits_asdict l)) = Inr l"
proof -
  have "require_closed_keys (limits_asdict l) LIMIT_FIELDS ''limits'' = Inr ()"
    by (simp add: require_closed_keys_def limits_asdict_def LIMIT_FIELDS_def)
  moreover have "limit_items_ok (limits_asdict l) = Inr ()"
  proof -
    have "\<not> is_bool v \<and> (is_int v \<or> is_float v)" if "v \<in> {startup_timeout_seconds l, turn_timeout_seconds l, cancel_grace_seconds l}" for v
      using assms that limit_float_num by (auto simp: run_limits_accepted_def run_limits_fields_ok_def)
    moreover have "\<not> is_bool v \<and> is_int v" if "v \<in> {max_stderr_bytes l, max_event_bytes l, max_events l}" for v
      using assms that by (auto simp: run_limits_accepted_def run_limits_fields_ok_def limit_int_iff)
    ultimately show ?thesis by (simp add: limits_asdict_def INT_LIMIT_FIELDS_def)
  qed
  ultimately show ?thesis using assms by (simp add: parse_limits_def limits_wire)
qed

lemma parse_ref_wire: "ref_text_ok r \<Longrightarrow> parse_input_ref (PDict (input_ref_asdict r)) = Inr r"
  by (cases r) (simp add: parse_input_ref_def input_ref_asdict_def require_closed_keys_def INPUT_REF_FIELDS_def has_key_def
      dget_def require_text_def ref_text_ok_def ensure_def)

lemma parse_refs_wire:
  "list_all ref_text_ok rs \<Longrightarrow> parse_input_refs (PList (map (PDict \<circ> input_ref_asdict) rs)) = Inr rs"
  by (auto simp: parse_input_refs_def parse_all_Inr list_all2_conv_all_nth list_all_length parse_ref_wire)

lemma parse_strings_wire: "parse_string_tuple (pstrs xs) name = Inr xs" "str_list (pstrs xs) = xs"
  by (simp_all add: parse_string_tuple_def pstrs_def str_list_def list_all_iff comp_def)

lemma dget_request:
  "dget (request_asdict r) ''owner'' = PStr (rq_owner r)" "dget (request_asdict r) ''namespace'' = PStr (rq_namespace r)"
  "dget (request_asdict r) ''agent_id'' = PStr (rq_agent_id r)"
  "dget (request_asdict r) ''expected_binding_hash'' = pstr_opt (rq_expected_binding_hash r)"
  "dget (request_asdict r) ''input_refs'' = PList (map (PDict \<circ> input_ref_asdict) (rq_input_refs r))"
  "dget (request_asdict r) ''requested_model'' = PStr (rq_requested_model r)"
  "dget (request_asdict r) ''requested_effort'' = PStr (rq_requested_effort r)"
  "dget (request_asdict r) ''grant_ref'' = PStr (rq_grant_ref r)" "dget (request_asdict r) ''grant_hash'' = PStr (rq_grant_hash r)"
  "dget (request_asdict r) ''grant_role_hash'' = PStr (rq_grant_role_hash r)"
  "dget (request_asdict r) ''grant_capabilities'' = pstrs (rq_grant_capabilities r)"
  "dget (request_asdict r) ''mcp_snapshot_hashes'' = pstrs (rq_mcp_snapshot_hashes r)"
  "dget (request_asdict r) ''credential_refs'' = pstrs (rq_credential_refs r)"
  "dget (request_asdict r) ''limits'' = PDict (limits_asdict (rq_limits r))"
  "dget (request_asdict r) ''evidence_policy_hash'' = PStr (rq_evidence_policy_hash r)"
  "dget (request_asdict r) ''recovery_policy_hash'' = PStr (rq_recovery_policy_hash r)"
  "dget (request_asdict r) ''schema_version'' = PInt SPEC_SCHEMA_VERSION"
  "dget (request_asdict r) ''session_id'' = pstr_opt (rq_session_id r)"
  by (simp_all add: request_asdict_def dget_def)

lemma dget_request_wire: "dget (request_wire r) k = dget (request_asdict r) k"
  by (cases "rq_session_id r") (simp_all add: request_wire_def dget_ddel dget_request(18))

lemma request_wire_keys:
  "map fst (request_wire r) =
     REQUIRED_REQUEST_FIELDS @ (if rq_session_id r = None then [] else [''session_id'']) @ [''schema_version'']"
  by (cases "rq_session_id r") (simp_all add: request_wire_def request_asdict_def ddel_def REQUIRED_REQUEST_FIELDS_def)

lemma request_wire_closed: "list_all (\<lambda>p. fst p \<in> set REQUEST_FIELD_NAMES) (request_wire r)"
proof -
  have "list_all (\<lambda>k. k \<in> set REQUEST_FIELD_NAMES) (map fst (request_wire r))"
    unfolding request_wire_keys by (auto simp: list_all_iff REQUEST_FIELD_NAMES_def)
  then show ?thesis by (simp add: list.pred_map comp_def)
qed

lemma request_wire_complete: "filter (\<lambda>k. \<not> has_key k (request_wire r)) REQUIRED_REQUEST_FIELDS = []"
  unfolding has_key_def request_wire_keys by (simp add: filter_empty_conv)

lemma request_wire_session: "has_key ''session_id'' (request_wire r) \<longleftrightarrow> rq_session_id r \<noteq> None"
  by (cases "rq_session_id r") (simp_all add: request_wire_def request_asdict_def ddel_def has_key_def)

lemma parse_field_wire:
  assumes "request_ok policy r"
  shows "parse_field policy ''limits'' (PDict (limits_asdict (rq_limits r))) = Inr ()"
    "parse_field policy ''input_refs'' (PList (map (PDict \<circ> input_ref_asdict) (rq_input_refs r))) = Inr ()"
    "parse_field policy ''grant_capabilities'' (pstrs xs) = Inr ()"
    "parse_field policy ''mcp_snapshot_hashes'' (pstrs xs) = Inr ()"
    "parse_field policy ''credential_refs'' (pstrs xs) = Inr ()"
    "parse_field policy ''schema_version'' (PInt n) = Inr ()"
    "parse_field policy ''expected_binding_hash'' (pstr_opt h) = Inr ()"
    "rq_session_id r = Some s \<Longrightarrow> parse_field policy ''session_id'' (PStr s) = Inr ()"
  using assms parse_limits_wire parse_refs_wire parse_strings_wire(1)
  by (cases h; simp add: parse_field_def request_ok_def plain_int_def ensure_def)+

lemma parse_field_text:
  "k \<in> set (''agent_id'' # ''requested_effort'' # TEXT_REQUEST_FIELDS) \<Longrightarrow> parse_field policy k v = Inr ()"
  by (auto simp: parse_field_def TEXT_REQUEST_FIELDS_def)

lemma parse_field_texts:
  "parse_field policy ''owner'' v = Inr ()" "parse_field policy ''namespace'' v = Inr ()"
  "parse_field policy ''agent_id'' v = Inr ()" "parse_field policy ''requested_model'' v = Inr ()"
  "parse_field policy ''requested_effort'' v = Inr ()" "parse_field policy ''grant_ref'' v = Inr ()"
  "parse_field policy ''grant_hash'' v = Inr ()" "parse_field policy ''grant_role_hash'' v = Inr ()"
  "parse_field policy ''evidence_policy_hash'' v = Inr ()" "parse_field policy ''recovery_policy_hash'' v = Inr ()"
  by (simp_all add: parse_field_def)

lemma parse_fields_wire:
  assumes "request_ok policy r"
  shows "parse_fields policy (request_wire r) = Inr ()"
proof -
  have "parse_field policy k v = Inr ()" if "(k, v) \<in> set (request_wire r)" for k v
  proof (cases "k = ''session_id''")
    case True
    then have "has_key ''session_id'' (request_wire r)" using that by (force simp: has_key_def)
    then obtain s where "rq_session_id r = Some s" by (auto simp: request_wire_session)
    moreover from this have "v = PStr s" using that True by (auto simp: request_wire_def request_asdict_def)
    ultimately show ?thesis using parse_field_wire(8) [OF assms] True by simp
  next
    case False
    then have "(k, v) \<in> set (ddel ''session_id'' (request_asdict r))"
      using that by (auto simp: request_wire_def ddel_def split: option.splits)
    then show ?thesis using parse_field_wire(1-7) [OF assms] parse_field_texts
      by (auto simp: request_asdict_def ddel_def)
  qed
  then show ?thesis by (auto simp: parse_fields_Inr)
qed

lemma request_of_wire: "request_ok policy r \<Longrightarrow> request_of policy (request_wire r) = r"
  by (cases r; cases "rq_expected_binding_hash r"; cases "rq_session_id r")
    (simp_all add: request_of_def dget_request_wire dget_request parse_limits_wire parse_refs_wire parse_strings_wire request_ok_def
      str_opt_def)

lemma post_init_wire: "request_ok policy r \<Longrightarrow> request_post_init (request_wire r)"
  by (cases "rq_session_id r")
    (auto simp: request_post_init_def request_wire_session dget_request_wire dget_request request_ok_def TEXT_REQUEST_FIELDS_def
      require_text_def pstrs_def list_all_iff)

lemma parse_request_wire:
  assumes "request_ok policy r"
  shows "parse_request_object policy (PDict (request_wire r)) = Inr r"
  using request_wire_closed request_wire_complete parse_fields_wire [OF assms] post_init_wire [OF assms] request_of_wire [OF assms]
  by (simp add: parse_request_object_def require_closed_keys_def ensure_def)

lemma parse_submit_wire:
  assumes "command_ok policy c"
  shows "parse_submit policy (command_wire c) = Inr c"
proof -
  have opt: "optional_text (command_wire c) ''cwd'' = Inr (sc_cwd c)"
    "optional_text (command_wire c) ''retry_of_run_id'' = Inr (sc_retry_of_run_id c)"
    using assms by (cases "sc_cwd c"; cases "sc_retry_of_run_id c"; simp add: optional_text_def command_wire_def dget_def command_ok_def)+
  have get: "dget (command_wire c) ''request'' = PDict (request_wire (sc_request c))"
    "dget (command_wire c) ''prompt_text'' = PStr (sc_prompt_text c)"
    "dget (command_wire c) ''workspace_root'' = PStr (sc_workspace_root c)" by (simp_all add: command_wire_def dget_def)
  have "require_closed_keys (command_wire c) SUBMIT_KEYS ''submit'' = Inr ()"
    "require_present (command_wire c) [''request'', ''prompt_text'', ''workspace_root''] = Inr ()"
    by (simp_all add: require_closed_keys_def command_wire_def SUBMIT_KEYS_def has_key_def ensure_def)
  then show ?thesis using assms parse_request_wire [of policy "sc_request c"]
    by (simp add: parse_submit_def opt get prompt_of_def workspace_of_def command_ok_def not_less)
qed

text \<open>The submit parser accepts exactly the well-formed commands: whatever it returns has every
  text field printable and bounded, capabilities from the closed set, limits within their ceilings and
  the daemon's budget, a valid session id if any and a bounded prompt; and every such command is what
  its own wire form parses to, so the digest material of an accepted command names that command.\<close>

theorem submit_commands_exact:
  "((\<exists>d. parse_submit policy d = Inr c) \<longleftrightarrow> command_ok policy c) \<and>
   (parse_submit policy (command_wire c) = Inr c \<longleftrightarrow> command_ok policy c)"
  using parse_submit_sound parse_submit_wire by blast

text \<open>A submit payload is refused with one code only, and its message is bounded.\<close>

lemma invalid_code: "pe_code (invalid m) = INVALID_REQUEST \<and> length (pe_message (invalid m)) \<le> MAX_ERROR_MESSAGE_CHARS"
  by (simp add: invalid_def protocol_refusal_def bound_message_def)

definition refused_invalid :: "protocol_error \<Rightarrow> bool" where
  "refused_invalid e \<longleftrightarrow> (\<exists>m. e = invalid m)"

lemma refusals:
  "require_closed_keys d ks area = Inl e \<Longrightarrow> refused_invalid e" "parse_limits policy v = Inl e \<Longrightarrow> refused_invalid e"
  "parse_input_refs v = Inl e \<Longrightarrow> refused_invalid e" "parse_string_tuple v name = Inl e \<Longrightarrow> refused_invalid e"
  "parse_field policy name v = Inl e \<Longrightarrow> refused_invalid e" "parse_fields policy d = Inl e \<Longrightarrow> refused_invalid e"
proof -
  have r [simp]: "refused_invalid (invalid m)" "refused_invalid spec_refusal" for m
    by (auto simp: refused_invalid_def spec_refusal_def)
  show closed: "require_closed_keys d ks area = Inl e \<Longrightarrow> refused_invalid e" for d ks area e
    by (auto simp: require_closed_keys_def)
  have "limit_items_ok d = Inl e \<Longrightarrow> refused_invalid e" for d e
    by (induction d rule: limit_items_ok.induct) (auto split: if_splits)
  then show limits: "parse_limits policy v = Inl e \<Longrightarrow> refused_invalid e" for v e
    by (auto simp: parse_limits_def andThen_Inl dest: closed split: pyval.splits if_splits)
  have one: "parse_input_ref v = Inl e \<Longrightarrow> refused_invalid e" for v e
    by (auto simp: parse_input_ref_def andThen_Inl Let_def dest: closed split: pyval.splits if_splits)
  have "parse_all parse_input_ref vs = Inl e \<Longrightarrow> refused_invalid e" for vs e
    by (induction vs) (auto simp: andThen_Inl dest: one)
  then show refs: "parse_input_refs v = Inl e \<Longrightarrow> refused_invalid e" for v e
    by (auto simp: parse_input_refs_def split: pyval.splits)
  show strs: "parse_string_tuple v name = Inl e \<Longrightarrow> refused_invalid e" for v name e
    by (auto simp: parse_string_tuple_def split: pyval.splits if_splits)
  show field: "parse_field policy name v = Inl e \<Longrightarrow> refused_invalid e" for name v e
    using limits refs strs by (auto simp: parse_field_def andThen_Inl simp del: ensure_iff(1) split: if_splits)
  show "parse_fields policy d = Inl e \<Longrightarrow> refused_invalid e"
    by (induction d) (auto simp: andThen_Inl dest: field)
qed

lemma present_refusal: "require_present d ks = Inl e \<Longrightarrow> refused_invalid e"
  by (induction d ks rule: require_present.induct) (auto simp: refused_invalid_def split: if_splits)

lemma submit_refusal:
  assumes "parse_submit policy d = Inl e"
  shows "pe_code e = INVALID_REQUEST \<and> length (pe_message e) \<le> MAX_ERROR_MESSAGE_CHARS"
proof -
  have obj: "parse_request_object policy v = Inl e \<Longrightarrow> refused_invalid e" for v
    by (auto simp: parse_request_object_def andThen_Inl Let_def refused_invalid_def spec_refusal_def
        dest!: refusals [unfolded refused_invalid_def] split: pyval.splits if_splits)
  have texts: "prompt_of v = Inl e \<Longrightarrow> refused_invalid e" "workspace_of v = Inl e \<Longrightarrow> refused_invalid e"
    "optional_text d k = Inl e \<Longrightarrow> refused_invalid e" for v k
    by (auto simp: prompt_of_def workspace_of_def optional_text_def Let_def refused_invalid_def split: pyval.splits if_splits)
  have "refused_invalid e"
    using assms obj texts refusals(1) present_refusal by (auto simp: parse_submit_def andThen_Inl simp del: require_present.simps)
  then show ?thesis using invalid_code by (auto simp: refused_invalid_def)
qed

lemma correlated_agrees: "parse_request f = Inr p \<Longrightarrow> correlated_request_id f = Some (pr_request_id p)"
  by (auto simp: parse_request_def correlated_request_id_def andThen_Inr split: pyval.splits if_splits option.splits)

section \<open>Every parsed command has a digest\<close>

text \<open>What \<^verbatim>\<open>json.dumps\<close> serializes without raising.\<close>

primrec encodable :: "pyval \<Rightarrow> bool" where
  "encodable PNone = True"
| "encodable (PBool b) = True"
| "encodable (PInt n) = (json_int n \<noteq> None)"
| "encodable (PFloat x) = True"
| "encodable (PStr s) = True"
| "encodable (PList xs) = list_all id (map encodable xs)"
| "encodable (PDict d) = list_all snd (map (map_prod id encodable) d)"
| "encodable (PObj t) = False"

lemma opt_seq_total: "list_all (\<lambda>x. x \<noteq> None) xs \<Longrightarrow> opt_seq xs \<noteq> None"
  by (induction xs) (auto split: option.splits)

lemma dumps_total: "encodable v \<Longrightarrow> dumps_fmt f v l \<noteq> None"
proof (induction v arbitrary: l)
  case (PList xs)
  then have "list_all (\<lambda>x. x \<noteq> None) (map (\<lambda>g. g (Suc l)) (map (dumps_fmt f) xs))" by (auto simp: list_all_iff)
  then show ?case using opt_seq_total by simp
next
  case (PDict d)
  then have "list_all (\<lambda>x. x \<noteq> None) (map (\<lambda>p. map_option (\<lambda>t. jf_string f (fst p) @ jf_key f @ t) (snd p (Suc l)))
          (sort_key fst (map (map_prod id (dumps_fmt f)) d)))" by (fastforce simp: list_all_iff)
  then show ?case using opt_seq_total by simp
qed auto

lemma dec_nat_short: "n < 10 ^ Suc k \<Longrightarrow> length (dec_nat n) \<le> Suc k"
proof (induction k arbitrary: n)
  case 0
  then show ?case by (subst dec_nat.simps) simp
next
  case (Suc k)
  then have "n div 10 < 10 ^ Suc k" by (simp add: div_less_iff_less_mult mult.commute)
  then show ?case using Suc.IH [of "n div 10"] by (subst dec_nat.simps) simp
qed

lemma json_int_small: "0 \<le> n \<Longrightarrow> n \<le> 10 ^ 18 \<Longrightarrow> json_int n \<noteq> None"
  using dec_nat_short [of "nat n" 18] nat_less_iff [of n "10 ^ 19"] by (simp add: json_int_def)

lemma encodable_limits: "run_limits_fields_ok l \<Longrightarrow> encodable (PDict (limits_asdict l))"
proof -
  have float: "encodable v" if "validate_limit_float v m" "m \<le> 10 ^ 18" for v m
  proof (cases v)
    case (PInt n)
    then have "0 < n" "of_int n \<le> (10 ^ 18 :: rat)" using that by (auto simp: validate_limit_float_def)
    then have "n \<le> 10 ^ 18" by (metis of_int_le_iff of_int_numeral of_int_power)
    then show ?thesis using \<open>0 < n\<close> json_int_small [of n] PInt by simp
  qed (use that in \<open>auto simp: validate_limit_float_def\<close>)
  have int: "encodable v" if "validate_limit_int v hi lo" "0 \<le> lo" "hi \<le> 10 ^ 18" for v hi lo
    using that json_int_small by (auto simp: limit_int_iff)
  assume "run_limits_fields_ok l"
  then show ?thesis
    unfolding run_limits_fields_ok_def limits_asdict_def
    using float [where m = LIMIT_STARTUP_TIMEOUT_SECONDS_MAX] float [where m = LIMIT_TURN_TIMEOUT_SECONDS_MAX]
      float [where m = LIMIT_CANCEL_GRACE_SECONDS_MAX] int [where hi = LIMIT_MAX_STDERR_BYTES_MAX and lo = 1]
      int [where hi = LIMIT_MAX_EVENT_BYTES_MAX and lo = LIMIT_MAX_EVENT_BYTES_MIN] int [where hi = LIMIT_MAX_EVENTS_MAX and lo = 1]
    by (simp add: LIMIT_STARTUP_TIMEOUT_SECONDS_MAX_def LIMIT_TURN_TIMEOUT_SECONDS_MAX_def LIMIT_CANCEL_GRACE_SECONDS_MAX_def
        LIMIT_MAX_STDERR_BYTES_MAX_def LIMIT_MAX_EVENT_BYTES_MAX_def LIMIT_MAX_EVENT_BYTES_MIN_def LIMIT_MAX_EVENTS_MAX_def)
qed

lemma command_digest_exists:
  assumes "command_ok policy c"
  shows "\<exists>g. compute_request_digest shab fr c = Some g"
proof -
  have lim: "encodable (PDict (limits_asdict (rq_limits (sc_request c))))"
    using assms by (intro encodable_limits) (simp add: command_ok_def request_ok_def run_limits_accepted_def)
  have prompt: "json_int (int (length (utf8_encode (sc_prompt_text c)))) \<noteq> None"
    using assms by (intro json_int_small) (auto simp: command_ok_def MAX_PROMPT_BYTES_def)
  have opt: "encodable (pstr_opt x)" for x by (cases x) simp_all
  have "encodable (PDict (request_asdict (sc_request c)))"
    using lim json_int_small [of SPEC_SCHEMA_VERSION] opt
    by (auto simp: request_asdict_def pstrs_def input_ref_asdict_def SPEC_SCHEMA_VERSION_def list_all_iff)
  then have "encodable (PDict (digest_material shab c))"
    using prompt json_int_small [of DIGEST_SCHEMA_VERSION] opt
    by (simp add: digest_material_def Let_def DIGEST_SCHEMA_VERSION_def)
  then show ?thesis using dumps_total [of "PDict (digest_material shab c)" "fmt_canonical fr" 0]
    by (auto simp: compute_request_digest_def simp del: dumps_fmt.simps encodable.simps)
qed

end
