(* ===== verification/Run_Registry.thy ===== *)
theory Run_Registry
  imports Protocol "HOL-Library.Multiset"
begin

text \<open>
  The bounded registry of active runs, \<^verbatim>\<open>RunRegistry\<close> of \<^verbatim>\<open>arsd/handlers.py\<close>: a slot is reserved,
  then consumed by a registration or released.  Each operation is one section under the registry's
  lock.  A reservation token is an object compared by identity: here a number never used before.  The
  task of an entry is not modelled; \<open>unregister\<close> is its final act.
\<close>

record registry_entry =
  en_principal_id :: string
  en_owner :: string
  en_namespace :: string
  en_session_id :: "string option"
  en_submitted_at :: string

record registry =
  rg_max :: nat
  rg_entries :: "(string \<times> registry_entry) list"
  rg_reservations :: "(nat \<times> string option) list"
  rg_open :: bool
  rg_next_token :: nat

definition new_registry :: "int \<Rightarrow> registry option" where
  "new_registry limit =
     (if limit < 1 then None
      else Some \<lparr>rg_max = nat limit, rg_entries = [], rg_reservations = [], rg_open = True, rg_next_token = 0\<rparr>)"

definition is_registered :: "registry \<Rightarrow> string \<Rightarrow> bool" where
  "is_registered r run_id \<longleftrightarrow> run_id \<in> set (map fst (rg_entries r))"

definition occupied :: "registry \<Rightarrow> nat" where
  "occupied r = length (rg_entries r) + length (rg_reservations r)"

text \<open>Absent and empty ids hold no session.\<close>

definition names_session :: "string option \<Rightarrow> bool" where
  "names_session s \<longleftrightarrow> (case s of None \<Rightarrow> False | Some x \<Rightarrow> x \<noteq> [])"

definition session_held :: "registry \<Rightarrow> string option \<Rightarrow> bool" where
  "session_held r s \<longleftrightarrow>
     names_session s \<and>
     (list_ex (\<lambda>p. en_session_id (snd p) = s) (rg_entries r) \<or> list_ex (\<lambda>p. snd p = s) (rg_reservations r))"

definition close_admission :: "registry \<Rightarrow> registry" where
  "close_admission r = r\<lparr>rg_open := False, rg_reservations := []\<rparr>"

definition reserve :: "string option \<Rightarrow> registry \<Rightarrow> registry \<times> (protocol_error + nat)" where
  "reserve s r =
     (if \<not> rg_open r then (r, Inl (protocol_refusal SHUTTING_DOWN ''server is shutting down''))
      else if rg_max r \<le> occupied r then (r, Inl (protocol_refusal CAPACITY_EXHAUSTED ''run capacity exhausted''))
      else if session_held r s then (r, Inl (protocol_refusal SESSION_BUSY ''session already has an active run''))
      else (r\<lparr>rg_reservations := rg_reservations r @ [(rg_next_token r, s)], rg_next_token := Suc (rg_next_token r)\<rparr>,
            Inr (rg_next_token r)))"

definition release_slot :: "nat \<Rightarrow> registry \<Rightarrow> registry" where
  "release_slot tok r = r\<lparr>rg_reservations := filter (\<lambda>p. fst p \<noteq> tok) (rg_reservations r)\<rparr>"

datatype register_error = Register_Refused protocol_error | Register_Runtime_Error

definition register :: "string \<Rightarrow> nat \<Rightarrow> registry_entry \<Rightarrow> registry \<Rightarrow> registry \<times> (register_error + unit)" where
  "register run_id tok e r =
     (if \<not> rg_open r then (r, Inl (Register_Refused (protocol_refusal SHUTTING_DOWN ''server is shutting down'')))
      else if tok \<notin> set (map fst (rg_reservations r)) then (r, Inl Register_Runtime_Error)
      else if is_registered r run_id then (r, Inl Register_Runtime_Error)
      else (release_slot tok (r\<lparr>rg_entries := rg_entries r @ [(run_id, e)]\<rparr>), Inr ()))"

text \<open>The \<^verbatim>\<open>finally\<close> of the guarded run task.\<close>

definition unregister :: "string \<Rightarrow> registry \<Rightarrow> registry" where
  "unregister run_id r = r\<lparr>rg_entries := filter (\<lambda>p. fst p \<noteq> run_id) (rg_entries r)\<rparr>"

text \<open>\<^verbatim>\<open>cancel_all\<close> drops the reservations before it cancels the tasks it found.\<close>

definition cancel_all :: "registry \<Rightarrow> registry \<times> string list" where
  "cancel_all r = (r\<lparr>rg_reservations := []\<rparr>, map fst (rg_entries r))"

section \<open>The invariant\<close>

definition held_sessions :: "registry \<Rightarrow> string option list" where
  "held_sessions r =
     filter names_session (map (\<lambda>p. en_session_id (snd p)) (rg_entries r) @ map snd (rg_reservations r))"

definition registry_ok :: "registry \<Rightarrow> bool" where
  "registry_ok r \<longleftrightarrow>
     occupied r \<le> rg_max r \<and> distinct (map fst (rg_entries r)) \<and> distinct (map fst (rg_reservations r)) \<and>
     (\<forall>p \<in> set (rg_reservations r). fst p < rg_next_token r) \<and> distinct (held_sessions r) \<and>
     (\<not> rg_open r \<longrightarrow> rg_reservations r = [])"

lemma session_held_iff: "session_held r s \<longleftrightarrow> s \<in> set (held_sessions r)"
  by (auto simp: session_held_def held_sessions_def list_ex_iff)

lemma distinct_filter_map: "distinct (filter P (map f xs)) \<Longrightarrow> distinct (filter P (map f (filter Q xs)))"
  by (induction xs) auto

lemma new_registry_ok: "new_registry n = Some r \<Longrightarrow> registry_ok r"
  by (auto simp: new_registry_def registry_ok_def occupied_def held_sessions_def split: if_splits)

lemma close_ok: "registry_ok r \<Longrightarrow> registry_ok (close_admission r)"
  by (auto simp: registry_ok_def close_admission_def occupied_def held_sessions_def)

lemma cancel_all_ok: "registry_ok r \<Longrightarrow> registry_ok (fst (cancel_all r))"
  by (auto simp: registry_ok_def cancel_all_def occupied_def held_sessions_def)

lemma reserve_ok: "registry_ok r \<Longrightarrow> registry_ok (fst (reserve s r))"
  using session_held_iff [of r s]
  by (auto simp: registry_ok_def reserve_def occupied_def held_sessions_def split: if_splits)

lemma filtered_occupied: "a + b \<le> (n :: nat) \<Longrightarrow> c \<le> a \<Longrightarrow> d \<le> b \<Longrightarrow> c + d \<le> n"
  by simp

lemma unregister_ok: "registry_ok r \<Longrightarrow> registry_ok (unregister run_id r)"
  by (auto simp: registry_ok_def unregister_def occupied_def held_sessions_def distinct_map_filter
      intro!: distinct_filter_map intro: filtered_occupied le_trans [OF length_filter_le])

lemma release_ok: "registry_ok r \<Longrightarrow> registry_ok (release_slot tok r)"
  by (auto simp: registry_ok_def release_slot_def occupied_def held_sessions_def distinct_map_filter
      intro!: distinct_filter_map intro: filtered_occupied le_trans [OF length_filter_le])

text \<open>Registration keeps the invariant when the entry names the session its reservation holds.\<close>

lemma consumed_slot:
  assumes "distinct (map fst xs)" "map_of xs tok = Some s"
  obtains us vs where "xs = us @ (tok, s) # vs" "filter (\<lambda>p. fst p \<noteq> tok) xs = us @ vs"
proof -
  obtain us vs where xs: "xs = us @ (tok, s) # vs" using map_of_SomeD [OF assms(2)] by (meson split_list)
  moreover have "filter (\<lambda>p. fst p \<noteq> tok) us = us" "filter (\<lambda>p. fst p \<noteq> tok) vs = vs"
    using assms(1) unfolding xs by (force intro!: filter_True)+
  ultimately show thesis using that [of us vs] by simp
qed

lemma register_ok:
  assumes "registry_ok r" "register run_id tok e r = (r', res)" "map_of (rg_reservations r) tok = Some (en_session_id e) \<or> res \<noteq> Inr ()"
  shows "registry_ok r'"
proof (cases "res = Inr ()")
  case False
  then show ?thesis using assms by (auto simp: register_def split: if_splits)
next
  case True
  then have new: "\<not> is_registered r run_id" "r' = release_slot tok (r\<lparr>rg_entries := rg_entries r @ [(run_id, e)]\<rparr>)" "rg_open r"
    using assms(2) by (auto simp: register_def split: if_splits)
  obtain us vs where uv: "rg_reservations r = us @ (tok, en_session_id e) # vs"
      "filter (\<lambda>p. fst p \<noteq> tok) (rg_reservations r) = us @ vs"
    using consumed_slot [of "rg_reservations r" tok "en_session_id e"] assms(1,3) True by (auto simp: registry_ok_def)
  have f: "rg_reservations r' = us @ vs" "rg_entries r' = rg_entries r @ [(run_id, e)]" "rg_max r' = rg_max r"
      "rg_next_token r' = rg_next_token r" "rg_open r'"
    using new uv(2) by (simp_all add: release_slot_def)
  have ok: "occupied r \<le> rg_max r" "distinct (map fst (rg_entries r))" "distinct (map fst (rg_reservations r))"
      "\<forall>p \<in> set (rg_reservations r). fst p < rg_next_token r" "distinct (held_sessions r)"
    using assms(1) by (simp_all add: registry_ok_def)
  have "occupied r' \<le> rg_max r'" using ok(1) f by (simp add: occupied_def uv(1))
  moreover have "distinct (map fst (rg_entries r'))" using ok(2) f(2) new(1) by (simp add: is_registered_def)
  moreover have "distinct (map fst (rg_reservations r'))" using ok(3) unfolding f(1) uv(1) by auto
  moreover have "\<forall>p \<in> set (rg_reservations r'). fst p < rg_next_token r'" using ok(4) f by (simp add: uv(1) ball_Un)
  moreover have "distinct (held_sessions r')"
  proof -
    have "mset (held_sessions r') = mset (held_sessions r)" using f by (simp add: held_sessions_def uv(1))
    then show ?thesis using ok(5) mset_eq_imp_distinct_iff by blast
  qed
  ultimately show ?thesis using f(5) by (simp add: registry_ok_def)
qed

end
