(* ===== verification/Keyed_Locks.thy ===== *)
theory Keyed_Locks
  imports ARS_Prelude
begin

text \<open>
  Per-key admission locks, \<^verbatim>\<open>KeyedLocks\<close> of \<^verbatim>\<open>arsd/admission.py\<close>.  A lock object is a number; the
  table maps a key to its object and counts the tasks between entry and exit.  A task inside
  \<^verbatim>\<open>hold\<close> is waiting for the object, holds it, or has released it and still owes the exit
  bookkeeping.  A section under the guard contains no suspension point, so it is one step.  The key,
  a pair of strings, is only compared, so its type is left open.  A
  cancelled task leaves where it stands: \<^verbatim>\<open>acquire\<close> is outside the \<^verbatim>\<open>try\<close>, and the bookkeeping
  of the exit waits for the guard.
\<close>

record 'k keyed_locks =
  kl_locks :: "'k \<rightharpoonup> nat"
  kl_waiters :: "'k \<rightharpoonup> nat"
  kl_fresh :: nat
  kl_held :: "nat set"

definition new_locks :: "'k keyed_locks" where
  "new_locks = \<lparr>kl_locks = Map.empty, kl_waiters = Map.empty, kl_fresh = 0, kl_held = {}\<rparr>"

definition waiters_of :: "'k keyed_locks \<Rightarrow> 'k \<Rightarrow> nat" where
  "waiters_of L k = (case kl_waiters L k of None \<Rightarrow> 0 | Some n \<Rightarrow> n)"

text \<open>The entry section: \<^verbatim>\<open>setdefault\<close> and the count.\<close>

definition hold_enter :: "'k \<Rightarrow> 'k keyed_locks \<Rightarrow> 'k keyed_locks \<times> nat" where
  "hold_enter k L =
     (case kl_locks L k of
        Some l \<Rightarrow> (L\<lparr>kl_waiters := (kl_waiters L)(k \<mapsto> waiters_of L k + 1)\<rparr>, l)
      | None \<Rightarrow>
          (L\<lparr>kl_locks := (kl_locks L)(k \<mapsto> kl_fresh L), kl_fresh := Suc (kl_fresh L),
             kl_waiters := (kl_waiters L)(k \<mapsto> waiters_of L k + 1)\<rparr>, kl_fresh L))"

definition hold_acquire :: "nat \<Rightarrow> 'k keyed_locks \<Rightarrow> 'k keyed_locks option" where
  "hold_acquire l L = (if l \<in> kl_held L then None else Some (L\<lparr>kl_held := insert l (kl_held L)\<rparr>))"

definition hold_release :: "nat \<Rightarrow> 'k keyed_locks \<Rightarrow> 'k keyed_locks" where
  "hold_release l L = L\<lparr>kl_held := kl_held L - {l}\<rparr>"

text \<open>The exit section; a missing count is read as one.\<close>

definition hold_leave :: "'k \<Rightarrow> 'k keyed_locks \<Rightarrow> 'k keyed_locks" where
  "hold_leave k L =
     (let remaining = int (case kl_waiters L k of None \<Rightarrow> 1 | Some n \<Rightarrow> n) - 1 in
      if remaining \<le> 0 then L\<lparr>kl_waiters := (kl_waiters L)(k := None), kl_locks := (kl_locks L)(k := None)\<rparr>
      else L\<lparr>kl_waiters := (kl_waiters L)(k \<mapsto> nat remaining)\<rparr>)"

section \<open>Tasks\<close>

datatype 'k hold_phase = Outside | Waiting 'k nat | Inside 'k nat | Leaving 'k

fun hold_key :: "'k hold_phase \<Rightarrow> 'k option" where
  "hold_key Outside = None"
| "hold_key (Waiting k _) = Some k"
| "hold_key (Inside k _) = Some k"
| "hold_key (Leaving k) = Some k"

record 'k lock_state =
  ls_locks :: "'k keyed_locks"
  ls_tasks :: "nat \<Rightarrow> 'k hold_phase"

definition init_lock_state :: "'k lock_state" where
  "init_lock_state = \<lparr>ls_locks = new_locks, ls_tasks = (\<lambda>_. Outside)\<rparr>"

definition set_task :: "nat \<Rightarrow> 'k hold_phase \<Rightarrow> 'k lock_state \<Rightarrow> 'k lock_state" where
  "set_task t p s = s\<lparr>ls_tasks := (ls_tasks s)(t := p)\<rparr>"

text \<open>The flag of a step says whether it is a cancellation.\<close>

inductive lock_step :: "bool \<Rightarrow> 'k lock_state \<Rightarrow> 'k lock_state \<Rightarrow> bool" where
  enter: "ls_tasks s t = Outside \<Longrightarrow> hold_enter k (ls_locks s) = (L, l) \<Longrightarrow>
    lock_step False s (set_task t (Waiting k l) (s\<lparr>ls_locks := L\<rparr>))"
| acquire: "ls_tasks s t = Waiting k l \<Longrightarrow> hold_acquire l (ls_locks s) = Some L \<Longrightarrow>
    lock_step False s (set_task t (Inside k l) (s\<lparr>ls_locks := L\<rparr>))"
| release: "ls_tasks s t = Inside k l \<Longrightarrow>
    lock_step False s (set_task t (Leaving k) (s\<lparr>ls_locks := hold_release l (ls_locks s)\<rparr>))"
| leave: "ls_tasks s t = Leaving k \<Longrightarrow>
    lock_step False s (set_task t Outside (s\<lparr>ls_locks := hold_leave k (ls_locks s)\<rparr>))"
| cancelled: "(\<exists>k l. ls_tasks s t = Waiting k l) \<or> (\<exists>k. ls_tasks s t = Leaving k) \<Longrightarrow>
    lock_step True s (set_task t Outside s)"

definition any_step :: "'k lock_state \<Rightarrow> 'k lock_state \<Rightarrow> bool" where
  "any_step s s' \<longleftrightarrow> (\<exists>c. lock_step c s s')"

definition users :: "'k lock_state \<Rightarrow> 'k \<Rightarrow> nat set" where
  "users s k = {t. hold_key (ls_tasks s t) = Some k}"

section \<open>The invariant\<close>

text \<open>
  Every task refers to the object the table has for its key; different keys have different objects;
  an object is locked exactly by the one task inside it; and the count of a key is at least the
  number of tasks that use it.
\<close>

definition table_ok :: "'k lock_state \<Rightarrow> bool" where
  "table_ok s \<longleftrightarrow>
     (\<forall>t k l. ls_tasks s t = Waiting k l \<or> ls_tasks s t = Inside k l \<longrightarrow> kl_locks (ls_locks s) k = Some l) \<and>
     (\<forall>k k' l. kl_locks (ls_locks s) k = Some l \<and> kl_locks (ls_locks s) k' = Some l \<longrightarrow> k = k') \<and>
     (\<forall>k l. kl_locks (ls_locks s) k = Some l \<longrightarrow> l < kl_fresh (ls_locks s))"

definition linked_ok :: "'k lock_state \<Rightarrow> bool" where
  "linked_ok s \<longleftrightarrow> (\<forall>k. kl_locks (ls_locks s) k = None \<longleftrightarrow> waiters_of (ls_locks s) k = 0)"

definition held_ok :: "'k lock_state \<Rightarrow> bool" where
  "held_ok s \<longleftrightarrow>
     (\<forall>t t' k k' l. ls_tasks s t = Inside k l \<and> ls_tasks s t' = Inside k' l \<longrightarrow> t = t') \<and>
     (\<forall>t k l. ls_tasks s t = Inside k l \<longrightarrow> l \<in> kl_held (ls_locks s))"

definition counts_ok :: "'k lock_state \<Rightarrow> bool" where
  "counts_ok s \<longleftrightarrow> (\<forall>k. finite (users s k) \<and> card (users s k) \<le> waiters_of (ls_locks s) k)"

definition locks_ok :: "'k lock_state \<Rightarrow> bool" where
  "locks_ok s \<longleftrightarrow> table_ok s \<and> linked_ok s \<and> held_ok s \<and> counts_ok s"

text \<open>Without cancellation the counts are exact and an entry exists exactly while its key is used.\<close>

definition locks_exact :: "'k lock_state \<Rightarrow> bool" where
  "locks_exact s \<longleftrightarrow>
     locks_ok s \<and> (\<forall>k. card (users s k) = waiters_of (ls_locks s) k)"

lemma users_set_task:
  "users (set_task t p s) k =
     (if hold_key p = Some k then insert t (users s k) else users s k - {t})"
  by (auto simp: users_def set_task_def)

lemma users_locks [simp]: "users (s\<lparr>ls_locks := L\<rparr>) k = users s k"
  by (simp add: users_def)

lemma in_users: "t \<in> users s k \<longleftrightarrow> hold_key (ls_tasks s t) = Some k"
  by (simp add: users_def)

lemma tasks_set_task [simp]: "ls_tasks (set_task t p s) t' = (if t' = t then p else ls_tasks s t')"
  by (simp add: set_task_def)

lemma locks_set_task [simp]: "ls_locks (set_task t p s) = ls_locks s"
  by (simp add: set_task_def)

lemma enter_counts: "hold_enter k L = (L', l) \<Longrightarrow> waiters_of L' k' = waiters_of L k' + (if k' = k then 1 else 0)"
  by (auto simp: hold_enter_def waiters_of_def split: option.splits)

lemma enter_none: "hold_enter k L = (L', l) \<Longrightarrow> kl_locks L' k' = None \<longleftrightarrow> k' \<noteq> k \<and> kl_locks L k' = None"
  by (auto simp: hold_enter_def split: option.splits if_splits)

lemma leave_counts: "waiters_of (hold_leave k L) k' = (if k' = k then waiters_of L k - 1 else waiters_of L k')"
  by (auto simp: hold_leave_def waiters_of_def Let_def split: option.splits)

lemma leave_table:
  "kl_locks (hold_leave k L) k' = (if k' = k \<and> waiters_of L k \<le> 1 then None else kl_locks L k')"
  "kl_fresh (hold_leave k L) = kl_fresh L" "kl_held (hold_leave k L) = kl_held L"
  by (auto simp: hold_leave_def waiters_of_def Let_def split: option.splits)

lemma waiting_uses: "ls_tasks s t = Waiting k l \<Longrightarrow> t \<in> users s k"
  and inside_uses: "ls_tasks s t = Inside k l \<Longrightarrow> t \<in> users s k"
  and leaving_uses: "ls_tasks s t = Leaving k \<Longrightarrow> t \<in> users s k"
  by (simp_all add: in_users)

lemma sole_user:
  assumes "counts_ok s" "waiters_of (ls_locks s) k \<le> 1" "t \<in> users s k" "t' \<in> users s k"
  shows "t' = t"
  proof -
  have "finite (users s k)" "card (users s k) \<le> Suc 0" using assms(1,2) by (auto simp: counts_ok_def intro: le_trans)
  then show ?thesis using assms(3,4) card_le_Suc0_iff_eq by blast
qed

lemma table_step: "lock_step c s s' \<Longrightarrow> locks_ok s \<Longrightarrow> table_ok s'"
proof (induction rule: lock_step.induct)
  case (enter s t k L l)
  then show ?case
    by (auto simp: locks_ok_def table_ok_def hold_enter_def split: option.splits if_splits)
      (metis less_irrefl less_Suc_eq)+
next
  case (acquire s t k l L)
  then show ?case by (auto simp: locks_ok_def table_ok_def hold_acquire_def split: if_splits)
next
  case (release s t k l)
  then show ?case by (auto simp: locks_ok_def table_ok_def hold_release_def)
next
  case (leave s t k)
  have "t' = t" if "waiters_of (ls_locks s) k \<le> 1" "ls_tasks s t' = Waiting k l \<or> ls_tasks s t' = Inside k l" for t' l
    using sole_user [of s k t t'] that leave by (auto simp: locks_ok_def in_users)
  then show ?case using leave by (auto simp: locks_ok_def table_ok_def leave_table)
next
  case (cancelled s t)
  then show ?case by (auto simp: locks_ok_def table_ok_def)
qed

lemma linked_step: "lock_step c s s' \<Longrightarrow> linked_ok s \<Longrightarrow> linked_ok s'"
proof (induction rule: lock_step.induct)
  case (enter s t k L l)
  then show ?case by (simp add: linked_ok_def enter_counts enter_none)
next
  case (acquire s t k l L)
  then show ?case by (auto simp: linked_ok_def hold_acquire_def waiters_of_def split: if_splits)
next
  case (release s t k l)
  then show ?case by (simp add: linked_ok_def hold_release_def waiters_of_def)
next
  case (leave s t k)
  then show ?case by (auto simp: linked_ok_def leave_table leave_counts)
next
  case (cancelled s t)
  then show ?case by (simp add: linked_ok_def)
qed

lemma held_step: "lock_step c s s' \<Longrightarrow> locks_ok s \<Longrightarrow> held_ok s'"
proof (induction rule: lock_step.induct)
  case (enter s t k L l)
  then show ?case by (auto simp: locks_ok_def held_ok_def hold_enter_def split: option.splits)
next
  case (acquire s t k l L)
  then show ?case by (auto simp: locks_ok_def held_ok_def hold_acquire_def split: if_splits)
next
  case (release s t k l)
  then show ?case by (auto simp: locks_ok_def held_ok_def hold_release_def)
next
  case (leave s t k)
  then show ?case by (auto simp: locks_ok_def held_ok_def leave_table)
next
  case (cancelled s t)
  then show ?case by (auto simp: locks_ok_def held_ok_def)
qed

lemma moved_users:
  "ls_tasks s t = Waiting k l \<Longrightarrow> users (set_task t (Inside k l') (s\<lparr>ls_locks := L\<rparr>)) k' = users s k'"
  "ls_tasks s t = Inside k l \<Longrightarrow> users (set_task t (Leaving k) (s\<lparr>ls_locks := L\<rparr>)) k' = users s k'"
  by (auto simp: users_set_task in_users)

lemma counts_step: "lock_step c s s' \<Longrightarrow> locks_ok s \<Longrightarrow> counts_ok s'"
proof (induction rule: lock_step.induct)
  case (enter s t k L l)
  then have "t \<notin> users s k'" for k' by (simp add: in_users)
  then show ?case using enter by (simp add: locks_ok_def counts_ok_def enter_counts users_set_task)
next
  case (acquire s t k l L)
  then show ?case by (auto simp: locks_ok_def counts_ok_def hold_acquire_def moved_users waiters_of_def split: if_splits)
next
  case (release s t k l)
  then show ?case by (auto simp: locks_ok_def counts_ok_def hold_release_def moved_users waiters_of_def)
next
  case (leave s t k)
  then show ?case by (auto simp: locks_ok_def counts_ok_def leave_counts users_set_task card_Diff_singleton leaving_uses in_users diff_le_mono)
next
  case (cancelled s t)
  then show ?case by (auto simp: locks_ok_def counts_ok_def users_set_task intro: le_trans [OF card_Diff1_le])
qed

interpretation any_lock: inductive_invariant "\<lambda>s. s = init_lock_state" any_step locks_ok
proof
  fix s s' :: "'k lock_state"
  show "s = init_lock_state \<Longrightarrow> locks_ok s"
    by (simp add: init_lock_state_def new_locks_def locks_ok_def table_ok_def linked_ok_def held_ok_def counts_ok_def users_def waiters_of_def)
  show "locks_ok s \<Longrightarrow> any_step s s' \<Longrightarrow> locks_ok s'"
    using table_step linked_step held_step counts_step unfolding any_step_def locks_ok_def by blast
qed

lemma inside_unique:
  assumes "locks_ok s" "ls_tasks s t = Inside k l" "ls_tasks s t' = Inside k l'"
  shows "t = t'"
proof -
  have "Some l = Some l'" using assms unfolding locks_ok_def table_ok_def by metis
  then show ?thesis using assms unfolding locks_ok_def held_ok_def by blast
qed

lemma exact_step: "lock_step c s s' \<Longrightarrow> \<not> c \<Longrightarrow> locks_exact s \<Longrightarrow> locks_exact s'"
proof (frule any_lock.inv_step [unfolded any_step_def, rotated, OF exI], simp add: locks_exact_def)
  assume "lock_step c s s'" "\<not> c" "locks_exact s" "locks_ok s'"
  then show "locks_exact s'"
  proof (induction rule: lock_step.induct)
    case (enter s t k L l)
    then have "t \<notin> users s k'" for k' by (simp add: in_users)
    moreover have "finite (users s k)" using enter by (simp add: locks_exact_def locks_ok_def counts_ok_def)
    ultimately show ?case using enter by (auto simp: locks_exact_def enter_counts users_set_task)
  next
    case (acquire s t k l L)
    then show ?case by (auto simp: locks_exact_def hold_acquire_def moved_users waiters_of_def split: if_splits)
  next
    case (release s t k l)
    then show ?case by (auto simp: locks_exact_def hold_release_def moved_users waiters_of_def)
  next
    case (leave s t k)
    then show ?case
      by (auto simp: locks_exact_def leave_counts users_set_task leaving_uses in_users)
  next
    case (cancelled s t)
    then show ?case by simp
  qed
qed

interpretation calm_lock: inductive_invariant "\<lambda>s. s = init_lock_state" "lock_step False" locks_exact
proof
  fix s s' :: "'k lock_state"
  show "s = init_lock_state \<Longrightarrow> locks_exact s" using any_lock.inv_init [of s]
    by (simp add: locks_exact_def init_lock_state_def new_locks_def users_def waiters_of_def)
  show "locks_exact s \<Longrightarrow> lock_step False s s' \<Longrightarrow> locks_exact s'" using exact_step by blast
qed

section \<open>Properties\<close>

text \<open>C39. Mutual exclusion per key: in every reachable state, cancellations included, at most one task is
  inside the section of a key, and while it is there the table still holds the lock it took, so a task
  that arrives meanwhile waits on the same object.\<close>

theorem keyed_mutual_exclusion:
  assumes "any_step\<^sup>*\<^sup>* init_lock_state s" "ls_tasks s t = Inside k l" "ls_tasks s t' = Inside k l'"
  shows "t = t' \<and> kl_locks (ls_locks s) k = Some l \<and> hold_acquire l (ls_locks s) = None \<and>
    snd (hold_enter k (ls_locks s)) = l"
proof -
  have ok: "locks_ok s" using any_lock.inv_reachable [OF refl assms(1)] .
  then have "kl_locks (ls_locks s) k = Some l" "l \<in> kl_held (ls_locks s)"
    using assms(2) by (auto simp: locks_ok_def table_ok_def held_ok_def)
  then show ?thesis using inside_unique [OF ok assms(2,3)] by (simp add: hold_acquire_def hold_enter_def)
qed

text \<open>Entries are removed when idle, as long as no waiting task is cancelled: in every state reached
  without a cancellation a key has an entry exactly while some task uses it.\<close>

theorem idle_entries_removed:
  assumes "(lock_step False)\<^sup>*\<^sup>* init_lock_state s"
  shows "kl_locks (ls_locks s) k = None \<longleftrightarrow> (\<forall>t. hold_key (ls_tasks s t) \<noteq> Some k)"
proof -
  have x: "locks_exact s" using calm_lock.inv_reachable [OF refl assms] .
  then have "kl_locks (ls_locks s) k = None \<longleftrightarrow> card (users s k) = 0"
    by (simp add: locks_exact_def locks_ok_def linked_ok_def)
  also have "\<dots> \<longleftrightarrow> users s k = {}"
  proof (rule card_0_eq)
    show "finite (users s k)" using x by (simp add: locks_exact_def locks_ok_def counts_ok_def)
  qed
  finally show ?thesis by (auto simp: users_def)
qed

text \<open>The count of a key exceeds its users: an exit that never comes was counted.\<close>

definition leaked :: "'k \<Rightarrow> 'k lock_state \<Rightarrow> bool" where
  "leaked k s \<longleftrightarrow> locks_ok s \<and> card (users s k) < waiters_of (ls_locks s) k"

lemma leaked_step: "lock_step c s s' \<Longrightarrow> leaked k s \<Longrightarrow> card (users s' k) < waiters_of (ls_locks s') k"
proof (induction rule: lock_step.induct)
  case (enter s t k' L l)
  then have "t \<notin> users s k" "finite (users s k)" by (simp_all add: in_users leaked_def locks_ok_def counts_ok_def)
  then show ?case using enter by (auto simp: leaked_def enter_counts users_set_task)
next
  case (acquire s t k l L)
  then show ?case by (auto simp: leaked_def hold_acquire_def moved_users waiters_of_def split: if_splits)
next
  case (release s t k l)
  then show ?case by (auto simp: leaked_def hold_release_def moved_users waiters_of_def)
next
  case (leave s t k')
  have "card (users s k - {t}) < waiters_of (ls_locks s) k - 1" if "k' = k"
  proof -
    have "t \<in> users s k" "finite (users s k)" using leave that by (simp_all add: in_users leaked_def locks_ok_def counts_ok_def)
    moreover from this have "0 < card (users s k)" by (auto simp: card_gt_0_iff)
    moreover have "card (users s k) < waiters_of (ls_locks s) k" using leave by (simp add: leaked_def)
    ultimately show ?thesis by (simp add: card_Diff_singleton)
  qed
  then show ?case using leave by (auto simp: leaked_def leave_counts users_set_task in_users)
next
  case (cancelled s t)
  then show ?case by (auto simp: leaked_def users_set_task intro: le_less_trans [OF card_Diff1_le])
qed

interpretation leak: inductive_invariant "leaked k" any_step "leaked k"
proof
  fix s s' :: "'a lock_state"
  show "leaked k s \<Longrightarrow> leaked k s" .
  assume "leaked k s" "any_step s s'"
  then obtain c where "lock_step c s s'" by (auto simp: any_step_def)
  from leaked_step [OF this \<open>leaked k s\<close>] show "leaked k s'"
    using any_lock.inv_step [of s s'] \<open>leaked k s\<close> \<open>any_step s s'\<close> by (simp add: leaked_def)
qed

text \<open>A task cancelled while it waits is never uncounted: \<^verbatim>\<open>acquire\<close> stands before the \<^verbatim>\<open>try\<close>, so
  from then on, whatever the other tasks do, the key's entry stays in the table with no one using it.\<close>

theorem cancelled_waiter_leaks:
  assumes "any_step\<^sup>*\<^sup>* init_lock_state s" "ls_tasks s t = Waiting k l" "any_step\<^sup>*\<^sup>* (set_task t Outside s) s'"
  shows "kl_locks (ls_locks s') k \<noteq> None \<and> card (users s' k) < waiters_of (ls_locks s') k"
proof -
  have ok: "locks_ok s" using any_lock.inv_reachable [OF refl assms(1)] .
  have u: "t \<in> users s k" "finite (users s k)" using assms(2) ok by (simp_all add: in_users locks_ok_def counts_ok_def)
  then have "card (users s k - {t}) < card (users s k)" by (rule card_Diff1_less [rotated])
  then have "card (users s k - {t}) < waiters_of (ls_locks s) k"
    using ok by (auto simp: locks_ok_def counts_ok_def intro: less_le_trans)
  moreover have "any_step s (set_task t Outside s)" using assms(2) by (auto simp: any_step_def intro: lock_step.cancelled)
  ultimately have "leaked k (set_task t Outside s)"
    using any_lock.inv_step [OF ok] by (simp add: leaked_def users_set_task)
  then have "leaked k s'" using leak.inv_run [OF assms(3)] by blast
  then show ?thesis by (auto simp: leaked_def locks_ok_def linked_ok_def)
qed

section \<open>Concrete runs\<close>

definition demo_key :: "string \<times> string" where
  "demo_key = (''p'', ''r'')"

definition demo_waiting :: "(string \<times> string) lock_state" where
  "demo_waiting = set_task 0 (Waiting demo_key 0) (init_lock_state\<lparr>ls_locks := fst (hold_enter demo_key new_locks)\<rparr>)"

definition demo_inside :: "(string \<times> string) lock_state" where
  "demo_inside = set_task 0 (Inside demo_key 0) (demo_waiting\<lparr>ls_locks := (ls_locks demo_waiting)\<lparr>kl_held := {0}\<rparr>\<rparr>)"

lemma demo_enter: "lock_step False init_lock_state demo_waiting"
  unfolding demo_waiting_def
  by (rule lock_step.enter) (simp_all add: init_lock_state_def hold_enter_def new_locks_def)

lemma demo_acquire: "lock_step False demo_waiting demo_inside"
  unfolding demo_inside_def
  by (rule lock_step.acquire)
    (simp_all add: demo_waiting_def hold_acquire_def hold_enter_def new_locks_def init_lock_state_def)

lemma demo_runs:
  "any_step\<^sup>*\<^sup>* init_lock_state demo_waiting" "any_step\<^sup>*\<^sup>* init_lock_state demo_inside"
  "(lock_step False)\<^sup>*\<^sup>* init_lock_state demo_inside"
  using demo_enter demo_acquire by (meson any_step_def converse_rtranclp_into_rtranclp r_into_rtranclp)+

theorem keyed_mutual_exclusion_witness: "snd (hold_enter demo_key (ls_locks demo_inside)) = 0"
  using keyed_mutual_exclusion [OF demo_runs(2), of 0 demo_key 0 0 0] by (simp add: demo_inside_def)

theorem idle_entries_removed_witness: "kl_locks (ls_locks demo_inside) demo_key \<noteq> None"
  using idle_entries_removed [OF demo_runs(3), of demo_key] by (auto simp: demo_inside_def)

theorem cancelled_waiter_leaks_witness: "kl_locks (ls_locks (set_task 0 Outside demo_waiting)) demo_key \<noteq> None"
  using cancelled_waiter_leaks [OF demo_runs(1) _ rtranclp.rtrancl_refl, of 0 demo_key 0] by (simp add: demo_waiting_def)

end
