(* ===== verification/Submit.thy ===== *)
theory Submit
  imports Run_Finalize Run_Registry Keyed_Locks
begin

text \<open>
  The submit handler, \<^verbatim>\<open>ArsdHandlers._submit\<close> of \<^verbatim>\<open>arsd/handlers.py\<close>: identity of the request, the
  per-key lock, resolution of a durable acceptance, the event budget, the reservation of a slot, the
  run directory with its submission record, the agent, the registration, and every refusal on the way.
  One submission is a task; between two suspension points it takes one step, and the steps of different
  submissions, of running runs and of shutdown interleave freely.  Durable writes may fail before or
  after taking effect.
\<close>

section \<open>The request\<close>

record caller =
  ca_principal_id :: string
  ca_owner_namespaces :: "(string \<times> string) list"
  ca_peer :: peer

record submit_env =
  se_shab :: "bytes \<Rightarrow> string" \<comment> \<open>SHA-256 of bytes, in hexadecimal\<close>
  se_sha :: "string \<Rightarrow> string" \<comment> \<open>SHA-256 of a text's bytes, in hexadecimal\<close>
  se_float :: "rat \<Rightarrow> string" \<comment> \<open>\<^verbatim>\<open>float.__repr__\<close>\<close>
  se_policy :: int
  se_root :: string
  se_agents :: "string list"

record sub_req =
  sq_key :: admission_key
  sq_command :: submit_command
  sq_digest :: request_digest
  sq_peer :: peer

definition require_owner :: "caller \<Rightarrow> string \<Rightarrow> string \<Rightarrow> protocol_error + unit" where
  "require_owner c owner ns =
     ensure ((owner, ns) \<in> set (ca_owner_namespaces c))
       (protocol_refusal OWNER_MISMATCH ''owner/namespace is not allowed for this principal'')"

text \<open>What precedes the lock.  An exception the handler does not type is answered by the server.\<close>

definition begin_submit :: "submit_env \<Rightarrow> caller \<Rightarrow> parsed_request \<Rightarrow> protocol_error + sub_req" where
  "begin_submit e c r =
     andThen (parse_submit STRUCTURAL_MAX_RUN_EVENT_BUDGET_BYTES (pr_payload r)) (\<lambda>cmd.
     andThen (require_owner c (rq_owner (sc_request cmd)) (rq_namespace (sc_request cmd))) (\<lambda>_.
       let key = \<lparr>principal_id = ca_principal_id c, request_id = pr_request_id r\<rparr> in
       andThen (ensure (principal_id key \<noteq> []) (invalid ''principal_id must be a non-empty string'')) (\<lambda>_.
       andThen (ensure (request_id_ok (request_id key)) (invalid ''request_id must be 1..128 characters from [A-Za-z0-9._-]'')) (\<lambda>_.
         case compute_request_digest (se_shab e) (se_float e) cmd of
           None \<Rightarrow> Inl (protocol_refusal INTERNAL ''internal error'')
         | Some g \<Rightarrow> Inr \<lparr>sq_key = key, sq_command = cmd, sq_digest = g, sq_peer = ca_peer c\<rparr>))))"

definition run_of :: "submit_env \<Rightarrow> sub_req \<Rightarrow> string" where
  "run_of e q = derive_run_id (se_shab e) (sq_key q)"

definition lock_key_of :: "sub_req \<Rightarrow> string \<times> string" where
  "lock_key_of q = (principal_id (sq_key q), request_id (sq_key q))"

definition fields_of :: "sub_req \<Rightarrow> submit_fields" where
  "fields_of q = submit_fields_of (sq_command q) (sq_digest q)"

definition limits_of_req :: "sub_req \<Rightarrow> run_limits" where
  "limits_of_req q = rq_limits (sc_request (sq_command q))"

text \<open>A derived run id is never empty, so the prospective session always exists.\<close>

definition tracked_session_id :: "submit_env \<Rightarrow> sub_req \<Rightarrow> string" where
  "tracked_session_id e q =
     (case sf_session_id (fields_of q) of
        Some s \<Rightarrow> s
      | None \<Rightarrow> (case derive_session_id_for_run (se_sha e) (run_of e q) of Inr s \<Rightarrow> s | Inl _ \<Rightarrow> []))"

section \<open>The daemon's state\<close>

datatype run_entry = No_Entry | Link bool \<comment> \<open>a symbolic link, and whether its target exists\<close> | Run run_dir

definition empty_run_dir :: run_dir where
  "empty_run_dir =
     \<lparr>result_json = Absent, progress_json = Absent, spec_json = Absent, launch_json = Absent, submission_json = Absent,
      dispatch_started = Absent, prompt_accepted = Absent, config_switch_started = Absent, config_proven = Absent,
      config_rollback_proven = Absent\<rparr>"

record daemon =
  da_registry :: registry
  da_runs :: "string \<Rightarrow> run_entry"
  da_store :: store
  da_started :: "string list" \<comment> \<open>the runs whose task was created, in order\<close>

record answer =
  an_run_id :: string
  an_session_id :: string
  an_accepted_at :: string

section \<open>Resolution of a durable acceptance\<close>

datatype resolution = Fresh | Refuse protocol_error | Contain pydict | Known answer

definition indeterminate :: "string \<Rightarrow> protocol_error" where
  "indeterminate m = protocol_refusal SUBMISSION_INDETERMINATE m"

definition resolve_record :: "submit_env \<Rightarrow> sub_req \<Rightarrow> registry \<Rightarrow> run_dir \<Rightarrow> pydict \<Rightarrow> submission_attribution \<Rightarrow> resolution" where
  "resolve_record e q r rd s att =
     (if \<not> submission_binds_key s (sq_key q) then Refuse (indeterminate ''submission binding integrity failure'')
      else if dget s ''run_id'' \<noteq> PStr (run_of e q) then Refuse (indeterminate ''submission binding integrity failure'')
      else if dget s ''request_digest'' \<noteq> PStr (rd_value (sq_digest q)) then
        Refuse (protocol_refusal IDEMPOTENCY_CONFLICT ''request_id already bound to a different request digest'')
      else if \<not> submission_admits_limits s (limits_of_req q) then
        Refuse (indeterminate ''submission binding integrity failure'')
      else
        (let known = Known \<lparr>an_run_id = run_of e q, an_session_id = sa_session_id att,
               an_accepted_at = the_str (dget s ''accepted_at'')\<rparr>
         in case fst (terminal_entry (se_float e) (result_json rd) (run_of e q)) of
              TERM_INVALID \<Rightarrow> Contain s
            | TERM_TRUSTED \<Rightarrow> known
            | TERM_ABSENT \<Rightarrow>
                if is_registered r (run_of e q) then known
                else Refuse (indeterminate ''submission is durable but run registration is incomplete'')))"

definition resolve_durable :: "submit_env \<Rightarrow> sub_req \<Rightarrow> daemon \<Rightarrow> resolution" where
  "resolve_durable e q d =
     (case da_runs d (run_of e q) of
        No_Entry \<Rightarrow> Fresh
      | Link target \<Rightarrow> if target then Refuse (indeterminate ''run reservation lacks a valid submission binding'') else Fresh
      | Run rd \<Rightarrow>
          (case (classify_submission (se_sha e) (submission_json rd) (run_of e q), classify_entry (submission_json rd)) of
             ((DOC_VALID, Some att), (_, Some s)) \<Rightarrow> resolve_record e q (da_registry d) rd s att
           | _ \<Rightarrow> Refuse (indeterminate ''run reservation lacks a valid submission binding'')))"

section \<open>The run directory, the record and the agent\<close>

datatype construction = Constructed | Unknown_Profile | Construction_Failed

record prep_io =
  pi_create :: io
  pi_submission :: io
  pi_construct :: construction
  pi_result :: io

definition create_run :: "io \<Rightarrow> string \<Rightarrow> daemon \<Rightarrow> daemon \<times> bool" where
  "create_run i run_id d =
     (case da_runs d run_id of
        No_Entry \<Rightarrow>
          (if i = Io_Lost then d else d\<lparr>da_runs := (da_runs d)(run_id := Run empty_run_dir)\<rparr>, i = Io_Ok)
      | _ \<Rightarrow> (d, False))"

definition set_run :: "string \<Rightarrow> run_dir \<Rightarrow> daemon \<Rightarrow> daemon" where
  "set_run run_id rd d = d\<lparr>da_runs := (da_runs d)(run_id := Run rd)\<rparr>"

definition submission_of :: "submit_env \<Rightarrow> sub_req \<Rightarrow> string \<Rightarrow> pydict" where
  "submission_of e q now =
     build_submission_artifact (sq_key q) (run_of e q) (fields_of q) now (sq_peer q) (se_policy e)"

definition agent_id_ok :: "string \<Rightarrow> bool" where
  "agent_id_ok s \<longleftrightarrow>
     (case s of [] \<Rightarrow> False
      | c # cs \<Rightarrow> (lower_alpha c \<or> digit c) \<and> length cs \<le> 63 \<and>
          list_all (\<lambda>x. lower_alpha x \<or> digit x \<or> x = CHR ''.'' \<or> x = CHR ''_'' \<or> x = CHR ''-'') cs)"

text \<open>The factory: the agent in the startup snapshot, then the task's constructor.\<close>

definition run_factory :: "submit_env \<Rightarrow> construction \<Rightarrow> sub_req \<Rightarrow> protocol_error + unit" where
  "run_factory e k q =
     (let agent = sf_agent_id (fields_of q) in
      if \<not> agent_id_ok agent then Inl (invalid ''agent refused: AGENT_ID_INVALID'')
      else if agent \<notin> set (se_agents e) then Inl (invalid ''agent refused: AGENT_NOT_REGISTERED'')
      else (case k of
              Constructed \<Rightarrow> Inr ()
            | Unknown_Profile \<Rightarrow> Inl (invalid ''unknown profile id'')
            | Construction_Failed \<Rightarrow> Inl (protocol_refusal INTERNAL ''run registration failed'')))"

definition registration_failed_payload :: "submit_env \<Rightarrow> string \<Rightarrow> pydict" where
  "registration_failed_payload e run_id =
     build_result_payload (supervisor_args run_id FAILED ''REGISTRATION_FAILED'' (se_root e @ ''/'' @ run_id))"

text \<open>Its failure is only logged.\<close>

definition finalize_registration_failure :: "submit_env \<Rightarrow> io \<Rightarrow> string \<Rightarrow> daemon \<Rightarrow> daemon" where
  "finalize_registration_failure e i run_id d =
     (case da_runs d run_id of
        Run rd \<Rightarrow> set_run run_id (rd\<lparr>result_json := fst (write_once i (result_json rd) (registration_failed_payload e run_id))\<rparr>) d
      | _ \<Rightarrow> d)"

definition admit_run :: "submit_env \<Rightarrow> prep_io \<Rightarrow> string \<Rightarrow> sub_req \<Rightarrow> daemon \<Rightarrow> daemon \<times> (protocol_error + unit)" where
  "admit_run e i now q d =
     (case create_run (pi_create i) (run_of e q) d of
        (d1, False) \<Rightarrow> (d1, Inl (protocol_refusal INTERNAL ''run reservation failed''))
      | (d1, True) \<Rightarrow>
          (let (entry, res) = write_once (pi_submission i) Absent (submission_of e q now);
               d2 = set_run (run_of e q) (empty_run_dir\<lparr>submission_json := entry\<rparr>) d1
           in if res \<noteq> Once_Ok then (d2, Inl (protocol_refusal INTERNAL ''submission persistence failed''))
              else (case run_factory e (pi_construct i) q of
                      Inl x \<Rightarrow> (finalize_registration_failure e (pi_result i) (run_of e q) d2, Inl x)
                    | Inr _ \<Rightarrow> (d2, Inr ()))))"

section \<open>Registration\<close>

definition entry_of :: "submit_env \<Rightarrow> sub_req \<Rightarrow> string \<Rightarrow> registry_entry" where
  "entry_of e q now =
     \<lparr>en_principal_id = principal_id (sq_key q), en_owner = sf_owner (fields_of q), en_namespace = sf_namespace (fields_of q),
      en_session_id = Some (tracked_session_id e q), en_submitted_at = now\<rparr>"

definition register_run :: "submit_env \<Rightarrow> io \<Rightarrow> nat \<Rightarrow> string \<Rightarrow> sub_req \<Rightarrow> daemon \<Rightarrow> daemon \<times> (protocol_error + answer)" where
  "register_run e i tok now q d =
     (case register (run_of e q) tok (entry_of e q now) (da_registry d) of
        (r, Inr _) \<Rightarrow>
          (d\<lparr>da_registry := r, da_started := da_started d @ [run_of e q]\<rparr>,
           Inr \<lparr>an_run_id = run_of e q, an_session_id = tracked_session_id e q, an_accepted_at = now\<rparr>)
      | (r, Inl x) \<Rightarrow>
          (finalize_registration_failure e i (run_of e q) (d\<lparr>da_registry := r\<rparr>),
           Inl (case x of Register_Refused p \<Rightarrow> p
                | Register_Runtime_Error \<Rightarrow> protocol_refusal INTERNAL ''run registration failed'')))"

section \<open>Containment of an untrusted terminal\<close>

definition UNTRUSTED_TERMINAL_MESSAGE :: string where
  "UNTRUSTED_TERMINAL_MESSAGE = ''untrusted or corrupt terminal evidence''"

text \<open>\<^verbatim>\<open>_quarantine_bound_session\<close>: both failures it names end it quietly; any other is the caller's.\<close>

definition quarantine_bound_session ::
  "submit_env \<Rightarrow> io \<Rightarrow> io \<Rightarrow> io \<Rightarrow> string \<Rightarrow> string \<Rightarrow> pydict option \<Rightarrow> store \<Rightarrow> store" where
  "quarantine_bound_session e fence mark clear moment run_id s st =
     (case bound_session_id_for_run (se_sha e) run_id s of
        None \<Rightarrow> st
      | Some sid \<Rightarrow>
          (if sid = [] then st
           else case write_quarantine_pending fence sid QUARANTINE_UNTRUSTED_TERMINAL_EVIDENCE run_id moment st of
                  (st1, Inl _) \<Rightarrow> st1
                | (st1, Inr _) \<Rightarrow>
                    fst (mark_quarantined mark clear sid QUARANTINE_UNTRUSTED_TERMINAL_EVIDENCE run_id moment st1)))"

section \<open>The interleaved system\<close>

datatype outcome = Refused protocol_error | Accepted answer | Abandoned

datatype phase =
    Queued
  | Resolving
  | Containing pydict
  | Reserving
  | Preparing nat
  | Registering nat string
  | Releasing nat outcome
  | Answering outcome
  | Finished outcome

record system =
  sy_daemon :: daemon
  sy_locks :: "(string \<times> string) lock_state"
  sy_tasks :: "nat \<rightharpoonup> sub_req \<times> phase"

definition goto :: "nat \<Rightarrow> sub_req \<Rightarrow> phase \<Rightarrow> daemon \<Rightarrow> system \<Rightarrow> system" where
  "goto t q p d s = s\<lparr>sy_daemon := d, sy_tasks := (sy_tasks s)(t \<mapsto> (q, p))\<rparr>"

definition after_resolution :: "submit_env \<Rightarrow> sub_req \<Rightarrow> daemon \<Rightarrow> phase" where
  "after_resolution e q d =
     (case resolve_durable e q d of
        Known a \<Rightarrow> Answering (Accepted a)
      | Refuse x \<Rightarrow> Answering (Refused x)
      | Contain s \<Rightarrow> Containing s
      | Fresh \<Rightarrow>
          (case admit_event_budget (limits_of_req q) (se_policy e) of
             Inl x \<Rightarrow> Answering (Refused x)
           | Inr _ \<Rightarrow> Reserving))"

inductive submit_step :: "submit_env \<Rightarrow> system \<Rightarrow> system \<Rightarrow> bool" for e where
  arrive: "sy_tasks s t = None \<Longrightarrow> ls_tasks (sy_locks s) t = Outside \<Longrightarrow> begin_submit e c r = Inr q \<Longrightarrow>
    hold_enter (lock_key_of q) (ls_locks (sy_locks s)) = (L, l) \<Longrightarrow>
    submit_step e s ((goto t q Queued (sy_daemon s) s)
      \<lparr>sy_locks := set_task t (Waiting (lock_key_of q) l) ((sy_locks s)\<lparr>ls_locks := L\<rparr>)\<rparr>)"
| locked: "sy_tasks s t = Some (q, Queued) \<Longrightarrow> ls_tasks (sy_locks s) t = Waiting k l \<Longrightarrow>
    hold_acquire l (ls_locks (sy_locks s)) = Some L \<Longrightarrow>
    submit_step e s ((goto t q Resolving (sy_daemon s) s)
      \<lparr>sy_locks := set_task t (Inside k l) ((sy_locks s)\<lparr>ls_locks := L\<rparr>)\<rparr>)"
| resolve: "sy_tasks s t = Some (q, Resolving) \<Longrightarrow>
    submit_step e s (goto t q (after_resolution e q (sy_daemon s)) (sy_daemon s) s)"
| fence_live: "sy_tasks s t = Some (q, Containing d) \<Longrightarrow> is_registered (da_registry (sy_daemon s)) (run_of e q) \<Longrightarrow>
    submit_step e s (goto t q (Containing d) ((sy_daemon s)
      \<lparr>da_store := quarantine_bound_session e i1 i2 i3 m (run_of e q) (Some d) (da_store (sy_daemon s))\<rparr>) s)"
| contained: "sy_tasks s t = Some (q, Containing d) \<Longrightarrow> \<not> is_registered (da_registry (sy_daemon s)) (run_of e q) \<Longrightarrow>
    submit_step e s (goto t q (Answering (Refused (protocol_refusal INTERNAL UNTRUSTED_TERMINAL_MESSAGE))) ((sy_daemon s)
      \<lparr>da_store := quarantine_bound_session e i1 i2 i3 m (run_of e q) (Some d) (da_store (sy_daemon s))\<rparr>) s)"
| reserved: "sy_tasks s t = Some (q, Reserving) \<Longrightarrow>
    reserve (Some (tracked_session_id e q)) (da_registry (sy_daemon s)) = (r, Inr tok) \<Longrightarrow>
    submit_step e s (goto t q (Preparing tok) ((sy_daemon s)\<lparr>da_registry := r\<rparr>) s)"
| not_reserved: "sy_tasks s t = Some (q, Reserving) \<Longrightarrow>
    reserve (Some (tracked_session_id e q)) (da_registry (sy_daemon s)) = (r, Inl x) \<Longrightarrow>
    submit_step e s (goto t q (Answering (Refused x)) ((sy_daemon s)\<lparr>da_registry := r\<rparr>) s)"
| prepared: "sy_tasks s t = Some (q, Preparing tok) \<Longrightarrow> now \<noteq> [] \<Longrightarrow> admit_run e i now q (sy_daemon s) = (d, Inr u) \<Longrightarrow>
    submit_step e s (goto t q (Registering tok now) d s)"
| not_prepared: "sy_tasks s t = Some (q, Preparing tok) \<Longrightarrow> now \<noteq> [] \<Longrightarrow> admit_run e i now q (sy_daemon s) = (d, Inl x) \<Longrightarrow>
    submit_step e s (goto t q (Releasing tok (Refused x)) d s)"
| registered: "sy_tasks s t = Some (q, Registering tok now) \<Longrightarrow> register_run e i1 tok now q (sy_daemon s) = (d, Inr a) \<Longrightarrow>
    submit_step e s (goto t q (Answering (Accepted a)) d s)"
| not_registered: "sy_tasks s t = Some (q, Registering tok now) \<Longrightarrow> register_run e i1 tok now q (sy_daemon s) = (d, Inl x) \<Longrightarrow>
    submit_step e s (goto t q (Releasing tok (Refused x)) d s)"
| released: "sy_tasks s t = Some (q, Releasing tok out) \<Longrightarrow>
    submit_step e s (goto t q (Answering out) ((sy_daemon s)\<lparr>da_registry := release_slot tok (da_registry (sy_daemon s))\<rparr>) s)"
| unlocked: "sy_tasks s t = Some (q, Answering out) \<Longrightarrow> ls_tasks (sy_locks s) t = Inside k l \<Longrightarrow>
    submit_step e s ((goto t q (Finished out) (sy_daemon s) s)
      \<lparr>sy_locks := set_task t (Leaving k) ((sy_locks s)\<lparr>ls_locks := hold_release l (ls_locks (sy_locks s))\<rparr>)\<rparr>)"
| left: "ls_tasks (sy_locks s) t = Leaving k \<Longrightarrow>
    submit_step e s (s\<lparr>sy_locks := set_task t Outside ((sy_locks s)\<lparr>ls_locks := hold_leave k (ls_locks (sy_locks s))\<rparr>)\<rparr>)"
| abandoned: "sy_tasks s t = Some (q, Queued) \<Longrightarrow> ls_tasks (sy_locks s) t = Waiting k l \<Longrightarrow>
    submit_step e s ((goto t q (Finished Abandoned) (sy_daemon s) s)\<lparr>sy_locks := set_task t Outside (sy_locks s)\<rparr>)"
| run_ends: "submit_step e s (s\<lparr>sy_daemon := (sy_daemon s)\<lparr>da_registry := unregister x (da_registry (sy_daemon s))\<rparr>\<rparr>)"
| run_writes: "da_runs (sy_daemon s) x = Run rd \<Longrightarrow> submission_json rd' = submission_json rd \<Longrightarrow>
    submit_step e s (s\<lparr>sy_daemon := set_run x rd' (sy_daemon s)\<rparr>)"
| shutdown: "submit_step e s (s\<lparr>sy_daemon := (sy_daemon s)\<lparr>da_registry := close_admission (da_registry (sy_daemon s))\<rparr>\<rparr>)"
| drained: "submit_step e s (s\<lparr>sy_daemon := (sy_daemon s)\<lparr>da_registry := fst (cancel_all (da_registry (sy_daemon s)))\<rparr>\<rparr>)"

end
