(* ===== verification/Submit_Props.thy ===== *)
theory Submit_Props
  imports Submit Protocol_Props
begin

text \<open>
  What every interleaving of submissions guarantees: a run is started at most once, across restarts too,
  every answer for a key states the same facts, the capacity is never exceeded and no session has two
  active runs.
\<close>

section \<open>Accepted requests and their records\<close>

definition env_ok :: "submit_env \<Rightarrow> bool" where
  "env_ok e \<longleftrightarrow>
     (\<forall>m. length (se_shab e m) = 64 \<and> list_all hex_digit (se_shab e m)) \<and> hex_digest (se_sha e) \<and>
     0 < se_policy e \<and> se_policy e \<le> STRUCTURAL_MAX_RUN_EVENT_BUDGET_BYTES"

definition req_ok :: "sub_req \<Rightarrow> bool" where
  "req_ok q \<longleftrightarrow>
     admission_key_ok (sq_key q) \<and>
     (sf_agent_id (fields_of q) \<noteq> [] \<longrightarrow> submit_fields_ok (fields_of q))"

lemma digest_texts:
  assumes "compute_request_digest shab fr c = Some g" "\<And>m. shab m \<noteq> []"
  shows "rd_value g \<noteq> [] \<and> rd_prompt_sha256 g \<noteq> []"
  using assms by (auto simp: compute_request_digest_def simp del: dumps_fmt.simps split: option.splits)

lemma begin_submit_ok:
  assumes "env_ok e" "begin_submit e c r = Inr q"
  shows "req_ok q"
proof -
  obtain cmd where cmd: "parse_submit STRUCTURAL_MAX_RUN_EVENT_BUDGET_BYTES (pr_payload r) = Inr cmd" "sq_command q = cmd"
      "admission_key_ok (sq_key q)" "compute_request_digest (se_shab e) (se_float e) cmd = Some (sq_digest q)"
    using assms(2) by (auto simp: begin_submit_def andThen_Inr Let_def admission_key_ok_def split: option.splits)
  have ok: "command_ok STRUCTURAL_MAX_RUN_EVENT_BUDGET_BYTES cmd" using parse_submit_sound [OF cmd(1)] .
  have "se_shab e m \<noteq> []" for m using assms(1) by (auto simp: env_ok_def dest: spec [of _ m])
  then have "rd_value (sq_digest q) \<noteq> []" "rd_prompt_sha256 (sq_digest q) \<noteq> []"
    using digest_texts [OF cmd(4)] by auto
  then show ?thesis using ok cmd(2,3)
    by (auto simp: req_ok_def fields_of_def submit_fields_of_def submit_fields_ok_def command_ok_def request_ok_def text_ok_def
        split: option.splits)
qed

lemma run_of_nonempty: "run_of e q \<noteq> []"
  by (simp add: run_of_def derive_run_id_def)

text \<open>The record one submission leaves: validated for its run, and read as its own answer.\<close>

definition records :: "submit_env \<Rightarrow> sub_req \<Rightarrow> string \<Rightarrow> string \<Rightarrow> pydict \<Rightarrow> bool" where
  "records e q sid now s \<longleftrightarrow>
     (\<exists>att. validate_submission_artifact (se_sha e) s (run_of e q) = Some att \<and> sa_session_id att = sid) \<and>
     dget s ''accepted_at'' = PStr now \<and> submission_binds_key s (sq_key q) \<and>
     dget s ''request_digest'' = PStr (rd_value (sq_digest q))"

lemma submission_recorded:
  assumes "env_ok e" "req_ok q" "sf_agent_id (fields_of q) \<noteq> []" "now \<noteq> []"
  shows "records e q (tracked_session_id e q) now (submission_of e q now)"
proof -
  let ?d = "submission_of e q now"
  have "submit_fields_ok (fields_of q)" "admission_key_ok (sq_key q)" "0 < se_policy e"
      "se_policy e \<le> STRUCTURAL_MAX_RUN_EVENT_BUDGET_BYTES" using assms by (auto simp: req_ok_def env_ok_def)
  from submission_reads_back [OF this(2,1) run_of_nonempty assms(4) this(3,4) refl, where p = "sq_peer q" and sha = "se_sha e"]
  obtain sid where sid: "validate_submission_artifact (se_sha e) ?d (run_of e q) =
        Some \<lparr>sa_owner = sf_owner (fields_of q), sa_namespace = sf_namespace (fields_of q), sa_session_id = sid\<rparr>"
      "case sf_session_id (fields_of q) of Some s \<Rightarrow> sid = s | None \<Rightarrow> derive_session_id_for_run (se_sha e) (run_of e q) = Inr sid"
      "submission_binds_key ?d (sq_key q)"
    unfolding submission_of_def by blast
  have "sid = tracked_session_id e q" using sid(2) by (auto simp: tracked_session_id_def split: option.splits)
  then show ?thesis using sid
    by (auto simp: records_def submission_of_def dget_submission fields_of_def submit_fields_of_def)
qed

text \<open>Two submissions that read the same record for the same key get the same answer.\<close>

lemma records_agree:
  assumes "records e q sid now s" "records e q' sid' now' s" "sq_key q' = sq_key q"
  shows "sid' = sid \<and> now' = now \<and> rd_value (sq_digest q') = rd_value (sq_digest q)"
  using assms by (auto simp: records_def run_of_def)

section \<open>The record of a run never changes\<close>

definition recorded :: "daemon \<Rightarrow> string \<Rightarrow> pydict \<Rightarrow> bool" where
  "recorded d x s \<longleftrightarrow> (\<exists>rd. da_runs d x = Run rd \<and> submission_json rd = Doc (PDict s))"

definition keeps :: "daemon \<Rightarrow> daemon \<Rightarrow> bool" where
  "keeps d d' \<longleftrightarrow>
     (\<forall>x rd. da_runs d x = Run rd \<longrightarrow> (\<exists>rd'. da_runs d' x = Run rd' \<and> submission_json rd' = submission_json rd)) \<and>
     (\<forall>x. da_runs d x \<noteq> No_Entry \<longrightarrow> da_runs d' x \<noteq> No_Entry)"

lemma keeps_recorded: "keeps d d' \<Longrightarrow> recorded d x s \<Longrightarrow> recorded d' x s"
  by (fastforce simp: keeps_def recorded_def)

lemma recorded_unique: "recorded d x s \<Longrightarrow> recorded d x s' \<Longrightarrow> s' = s"
  by (auto simp: recorded_def)

lemma keeps_same [simp]: "da_runs d' = da_runs d \<Longrightarrow> keeps d d'"
  by (simp add: keeps_def)

lemma keeps_trans: "keeps d d' \<Longrightarrow> keeps d' d'' \<Longrightarrow> keeps d d''"
  unfolding keeps_def by metis

lemma finalize_failure_keeps: "keeps d (finalize_registration_failure e i x d)"
  by (auto simp: keeps_def finalize_registration_failure_def set_run_def split: run_entry.splits)

lemma finalize_failure_state [simp]:
  "da_registry (finalize_registration_failure e i x d) = da_registry d"
  "da_started (finalize_registration_failure e i x d) = da_started d"
  by (simp_all add: finalize_registration_failure_def set_run_def split: run_entry.splits)

lemma prepare_cases:
  assumes "admit_run e i now q d = (d', res)"
  obtains (nothing) x where "d' = d" "res = Inl x"
  | (failed) rd x where "da_runs d (run_of e q) = No_Entry" "d' = set_run (run_of e q) rd d" "res = Inl x"
  | (succeeded) "da_runs d (run_of e q) = No_Entry" "res = Inr ()" "agent_id_ok (sf_agent_id (fields_of q))"
      "d' = set_run (run_of e q) (empty_run_dir\<lparr>submission_json := Doc (PDict (submission_of e q now))\<rparr>) d"
proof (cases "da_runs d (run_of e q) = No_Entry \<and> pi_create i \<noteq> Io_Lost")
  case False
  then have "d' = d \<and> (\<exists>x. res = Inl x)"
    using assms by (auto simp: admit_run_def create_run_def split: run_entry.splits bool.splits if_splits)
  then show thesis using that(1) by blast
next
  case True
  show thesis
  proof (cases "pi_create i = Io_Ok \<and> pi_submission i = Io_Ok \<and> run_factory e (pi_construct i) q = Inr ()")
    case ok: True
    then have "agent_id_ok (sf_agent_id (fields_of q))" by (auto simp: run_factory_def Let_def split: if_splits)
    then show thesis using ok True assms that(3)
      by (simp add: admit_run_def create_run_def write_once_def set_run_def)
  next
    case not_ok: False
    then have "(\<exists>rd. d' = set_run (run_of e q) rd d) \<and> (\<exists>x. res = Inl x)"
      using True assms
      by (cases "run_factory e (pi_construct i) q")
        (auto simp: admit_run_def create_run_def write_once_def set_run_def finalize_registration_failure_def Let_def
          split: bool.splits if_splits)
    then show thesis using that(2) True by blast
  qed
qed

lemma set_run_state [simp]:
  "da_registry (set_run x rd d) = da_registry d" "da_started (set_run x rd d) = da_started d"
  "da_runs (set_run x rd d) = (da_runs d)(x := Run rd)" "da_store (set_run x rd d) = da_store d"
  by (simp_all add: set_run_def)

lemma prepare_state:
  assumes "admit_run e i now q d = (d', res)"
  shows "da_registry d' = da_registry d" "da_started d' = da_started d" "keeps d d'"
    "res = Inr () \<Longrightarrow> da_runs d (run_of e q) = No_Entry \<and> recorded d' (run_of e q) (submission_of e q now) \<and>
       agent_id_ok (sf_agent_id (fields_of q))"
  using assms by (cases rule: prepare_cases; auto simp: keeps_def recorded_def)+

section \<open>The invariant\<close>

fun token_of :: "phase \<Rightarrow> nat option" where
  "token_of (Preparing tok) = Some tok"
| "token_of (Registering tok _) = Some tok"
| "token_of (Releasing tok _) = Some tok"
| "token_of _ = None"

fun outcome_of :: "phase \<Rightarrow> outcome option" where
  "outcome_of (Releasing _ out) = Some out"
| "outcome_of (Answering out) = Some out"
| "outcome_of (Finished out) = Some out"
| "outcome_of _ = None"

text \<open>A slot a submission holds is either gone or still reserved for its own session.\<close>

definition slot_ok :: "submit_env \<Rightarrow> registry \<Rightarrow> sub_req \<Rightarrow> phase \<Rightarrow> bool" where
  "slot_ok e r q p \<longleftrightarrow>
     (\<forall>tok. token_of p = Some tok \<longrightarrow> tok < rg_next_token r \<and>
        map_of (rg_reservations r) tok \<in> {None, Some (Some (tracked_session_id e q))})"

definition answer_ok :: "submit_env \<Rightarrow> daemon \<Rightarrow> sub_req \<Rightarrow> phase \<Rightarrow> bool" where
  "answer_ok e d q p \<longleftrightarrow>
     (\<forall>a. outcome_of p = Some (Accepted a) \<longrightarrow> an_run_id a = run_of e q \<and>
        (\<exists>s. recorded d (run_of e q) s \<and> records e q (an_session_id a) (an_accepted_at a) s))"

definition pending_ok :: "submit_env \<Rightarrow> daemon \<Rightarrow> sub_req \<Rightarrow> phase \<Rightarrow> bool" where
  "pending_ok e d q p \<longleftrightarrow>
     (\<forall>tok now. p = Registering tok now \<longrightarrow>
        recorded d (run_of e q) (submission_of e q now) \<and> now \<noteq> [] \<and> sf_agent_id (fields_of q) \<noteq> [] \<and>
        run_of e q \<notin> set (da_started d))"

text \<open>No two submissions are about to register the same run.\<close>

definition registering :: "submit_env \<Rightarrow> system \<Rightarrow> nat \<Rightarrow> string \<Rightarrow> bool" where
  "registering e s t x \<longleftrightarrow> (\<exists>q tok now. sy_tasks s t = Some (q, Registering tok now) \<and> run_of e q = x)"

definition started_ok :: "submit_env \<Rightarrow> daemon \<Rightarrow> bool" where
  "started_ok e d \<longleftrightarrow>
     distinct (da_started d) \<and>
     (\<forall>x \<in> set (da_started d). \<exists>q sid now s. run_of e q = x \<and> recorded d x s \<and> records e q sid now s)"

definition system_ok :: "submit_env \<Rightarrow> string set \<Rightarrow> system \<Rightarrow> bool" where
  "system_ok e old s \<longleftrightarrow>
     registry_ok (da_registry (sy_daemon s)) \<and> started_ok e (sy_daemon s) \<and>
     (\<forall>t q p. sy_tasks s t = Some (q, p) \<longrightarrow>
        req_ok q \<and> slot_ok e (da_registry (sy_daemon s)) q p \<and> answer_ok e (sy_daemon s) q p \<and> pending_ok e (sy_daemon s) q p) \<and>
     (\<forall>t t' x. registering e s t x \<and> registering e s t' x \<longrightarrow> t' = t) \<and>
     (\<forall>x \<in> old. da_runs (sy_daemon s) x \<noteq> No_Entry \<and> x \<notin> set (da_started (sy_daemon s)) \<and> (\<forall>t. \<not> registering e s t x))"

text \<open>The registry's other sections leave the slots of the submissions alone.\<close>

definition slots_kept :: "registry \<Rightarrow> registry \<Rightarrow> bool" where
  "slots_kept r r' \<longleftrightarrow>
     rg_next_token r \<le> rg_next_token r' \<and>
     (\<forall>tok < rg_next_token r. map_of (rg_reservations r') tok \<in> {None, map_of (rg_reservations r) tok})"

lemma slots_kept_ok: "slots_kept r r' \<Longrightarrow> slot_ok e r q p \<Longrightarrow> slot_ok e r' q p"
  by (fastforce simp: slots_kept_def slot_ok_def)

lemma map_of_filter_other: "map_of (filter (\<lambda>p. fst p \<noteq> tok) xs) tok' = (if tok' = tok then None else map_of xs tok')"
  by (induction xs) auto

lemma slots_kept_refl [simp]: "slots_kept r r"
  by (simp add: slots_kept_def)

lemma slots_kept_ops:
  "slots_kept r (close_admission r)" "slots_kept r (fst (cancel_all r))" "slots_kept r (unregister x r)"
  "slots_kept r (release_slot tok r)"
  by (auto simp: slots_kept_def close_admission_def cancel_all_def unregister_def release_slot_def map_of_filter_other)

lemma slots_kept_reserve: "slots_kept r (fst (reserve sess r))"
  by (auto simp: slots_kept_def reserve_def map_add_def split: option.splits)

lemma reserved_slot:
  assumes "registry_ok r" "reserve sess r = (r', Inr tok)"
  shows "tok < rg_next_token r' \<and> map_of (rg_reservations r') tok = Some sess"
proof -
  have r': "tok = rg_next_token r" "rg_reservations r' = rg_reservations r @ [(tok, sess)]" "rg_next_token r' = Suc tok"
    using assms(2) by (auto simp: reserve_def split: if_splits)
  have "map_of (rg_reservations r) tok = None"
    using assms(1) unfolding r'(1) map_of_eq_None_iff registry_ok_def by fastforce
  then show ?thesis using r' by (simp add: map_add_def)
qed

lemma slots_kept_register: "slots_kept r (fst (register x tok en r))"
  by (auto simp: slots_kept_def register_def release_slot_def map_of_filter_other)

section \<open>Every step keeps it\<close>

lemma keeps_answer: "keeps d d' \<Longrightarrow> answer_ok e d q p \<Longrightarrow> answer_ok e d' q p"
  unfolding answer_ok_def using keeps_recorded by metis

lemma keeps_pending: "keeps d d' \<Longrightarrow> pending_ok e d q p \<Longrightarrow> run_of e q \<notin> set (da_started d') \<Longrightarrow> pending_ok e d' q p"
  unfolding pending_ok_def using keeps_recorded by blast

lemma keeps_started: "keeps d d' \<Longrightarrow> started_ok e d \<Longrightarrow> da_started d' = da_started d \<Longrightarrow> started_ok e d'"
  unfolding started_ok_def using keeps_recorded by metis

lemma system_ok_locks [simp]: "system_ok e old (s\<lparr>sy_locks := L\<rparr>) = system_ok e old s"
  by (simp add: system_ok_def registering_def)

lemma registering_goto:
  "registering e (goto t q p d s) t' x \<longleftrightarrow>
     (if t' = t then (\<exists>tok now. p = Registering tok now) \<and> run_of e q = x else registering e s t' x)"
  by (auto simp: registering_def goto_def)

lemma task_facts:
  assumes "system_ok e old s" "sy_tasks s t = Some (q, p)"
  shows "req_ok q" "slot_ok e (da_registry (sy_daemon s)) q p" "answer_ok e (sy_daemon s) q p" "pending_ok e (sy_daemon s) q p"
  using assms by (auto simp: system_ok_def)

lemma registering_has_run:
  assumes "system_ok e old s" "registering e s t x"
  shows "da_runs (sy_daemon s) x \<noteq> No_Entry"
proof -
  obtain q tok now where "sy_tasks s t = Some (q, Registering tok now)" "run_of e q = x"
    using assms(2) by (auto simp: registering_def)
  then show ?thesis using task_facts(4) [OF assms(1)] by (fastforce simp: pending_ok_def recorded_def)
qed

lemma system_ok_env:
  assumes "system_ok e old s" "keeps (sy_daemon s) d" "slots_kept (da_registry (sy_daemon s)) (da_registry d)"
    "registry_ok (da_registry d)" "da_started d = da_started (sy_daemon s)"
  shows "system_ok e old (s\<lparr>sy_daemon := d\<rparr>)"
proof -
  have "registering e (s\<lparr>sy_daemon := d\<rparr>) = registering e s" by (intro ext) (simp add: registering_def)
  moreover have "pending_ok e d q p" if "sy_tasks s t = Some (q, p)" for t q p
    using task_facts(4) [OF assms(1) that] assms(5) keeps_recorded [OF assms(2)] unfolding pending_ok_def by auto
  moreover have "started_ok e d" using keeps_started [OF assms(2) _ assms(5)] assms(1) by (simp add: system_ok_def)
  moreover have "da_runs d x \<noteq> No_Entry" if "x \<in> old" for x using assms(1,2) that by (auto simp: system_ok_def keeps_def)
  ultimately show ?thesis
    using assms slots_kept_ok [OF assms(3)] keeps_answer [OF assms(2)] unfolding system_ok_def by simp
qed

lemma system_ok_goto:
  assumes "system_ok e old s" "req_ok q" "keeps (sy_daemon s) d" "slots_kept (da_registry (sy_daemon s)) (da_registry d)"
    "registry_ok (da_registry d)" "started_ok e d" "slot_ok e (da_registry d) q p" "answer_ok e d q p" "pending_ok e d q p"
    "da_started d = da_started (sy_daemon s) \<or>
      da_started d = da_started (sy_daemon s) @ [run_of e q] \<and> registering e s t (run_of e q)"
    "\<And>tok now. p = Registering tok now \<Longrightarrow> da_runs (sy_daemon s) (run_of e q) = No_Entry"
  shows "system_ok e old (goto t q p d s)"
proof -
  have fresh: "\<not> registering e s t' (run_of e q) \<and> run_of e q \<notin> old" if "p = Registering tok now" for tok now t'
    using registering_has_run [OF assms(1)] assms(11) [OF that] assms(1) unfolding system_ok_def by metis
  have other: "run_of e q' \<noteq> run_of e q"
    if "da_started d \<noteq> da_started (sy_daemon s)" "sy_tasks s t' = Some (q', Registering tok now)" "t' \<noteq> t" for t' q' tok now
    using assms(1,10) that unfolding system_ok_def registering_def by metis
  have pend: "pending_ok e d q' p'" if "sy_tasks s t' = Some (q', p')" "t' \<noteq> t" for t' q' p'
  proof (cases "\<exists>tok now. p' = Registering tok now")
    case True
    then have "run_of e q' \<notin> set (da_started d)"
      using task_facts(4) [OF assms(1) that(1)] other [of t' q'] that assms(10) by (auto simp: pending_ok_def)
    then show ?thesis using keeps_pending [OF assms(3) task_facts(4) [OF assms(1) that(1)]] by blast
  qed (simp add: pending_ok_def)
  have old: "da_runs d x \<noteq> No_Entry \<and> x \<notin> set (da_started d)" if "x \<in> old" for x
    using assms(1,3,10) that by (auto simp: system_ok_def keeps_def)
  have uniq: "t2 = t1" if "registering e (goto t q p d s) t1 x" "registering e (goto t q p d s) t2 x" for t1 t2 x
  proof -
    have "registering e s t1 x \<Longrightarrow> registering e s t2 x \<Longrightarrow> t2 = t1" using assms(1) unfolding system_ok_def by blast
    then show ?thesis using that fresh by (auto simp: registering_goto split: if_splits)
  qed
  show ?thesis
    unfolding system_ok_def
  proof (intro conjI allI impI ballI)
    fix t' q' p' assume g: "sy_tasks (goto t q p d s) t' = Some (q', p')"
    show "req_ok q'" "slot_ok e (da_registry (sy_daemon (goto t q p d s))) q' p'" "answer_ok e (sy_daemon (goto t q p d s)) q' p'"
      "pending_ok e (sy_daemon (goto t q p d s)) q' p'"
      using g assms(2,7,8,9) task_facts [OF assms(1)] slots_kept_ok [OF assms(4)] keeps_answer [OF assms(3)] pend
      by (auto simp: goto_def split: if_splits)
  next
    fix x t' assume "x \<in> old"
    then show "\<not> registering e (goto t q p d s) t' x" using fresh assms(1) by (auto simp: registering_goto system_ok_def)
  qed (use assms(5,6) old uniq in \<open>auto simp: goto_def\<close>)
qed

lemma resolution_ok:
  assumes "after_resolution e q d = p"
  shows "answer_ok e d q p" "token_of p = None" "pending_ok e d q p"
proof -
  show "token_of p = None" "pending_ok e d q p"
    using assms by (auto simp: after_resolution_def pending_ok_def split: resolution.splits sum.splits)
  show "answer_ok e d q p"
    unfolding answer_ok_def
  proof (intro allI impI)
    fix a assume "outcome_of p = Some (Accepted a)"
    then have "resolve_durable e q d = Known a"
      using assms by (auto simp: after_resolution_def split: resolution.splits sum.splits)
    then obtain rd s att where r: "da_runs d (run_of e q) = Run rd" "classify_entry (submission_json rd) = (DOC_VALID, Some s)"
        and v: "validate_submission_artifact (se_sha e) s (run_of e q) = Some att"
        and k: "resolve_record e q (da_registry d) rd s att = Known a"
      by (auto simp: resolve_durable_def classify_submission_def split: run_entry.splits prod.splits option.splits doc_kind.splits if_splits)
    have s: "submission_json rd = Doc (PDict s)" using r(2) by (cases "submission_json rd" rule: classify_entry.cases) auto
    have "submission_fields_ok s (run_of e q)" using v by (auto simp: validate_submission_artifact_def split: if_splits)
    then have acc: "dget s ''accepted_at'' = PStr (the_str (dget s ''accepted_at''))"
      by (auto simp: submission_fields_ok_def nonempty_str_iff)
    have f: "submission_binds_key s (sq_key q)" "dget s ''request_digest'' = PStr (rd_value (sq_digest q))"
        "a = \<lparr>an_run_id = run_of e q, an_session_id = sa_session_id att, an_accepted_at = the_str (dget s ''accepted_at'')\<rparr>"
      using k by (auto simp: resolve_record_def Let_def split: if_splits terminal_kind.splits)
    show "an_run_id a = run_of e q \<and> (\<exists>s. recorded d (run_of e q) s \<and> records e q (an_session_id a) (an_accepted_at a) s)"
      using r(1) s v f acc by (auto simp: recorded_def records_def intro!: exI [of _ s])
  qed
qed

lemma agent_nonempty: "agent_id_ok s \<Longrightarrow> s \<noteq> []"
  by (auto simp: agent_id_ok_def)

lemma register_run_ok:
  assumes "env_ok e" "system_ok e old s" "sy_tasks s t = Some (q, Registering tok now)"
    "register_run e i tok now q (sy_daemon s) = (d, res)"
  shows "system_ok e old (goto t q (case res of Inr a \<Rightarrow> Answering (Accepted a) | Inl x \<Rightarrow> Releasing tok (Refused x)) d s)"
proof -
  note f = task_facts [OF assms(2,3)]
  have reg_ok: "registry_ok (da_registry (sy_daemon s))" "started_ok e (sy_daemon s)" using assms(2) by (simp_all add: system_ok_def)
  obtain r x where r: "register (run_of e q) tok (entry_of e q now) (da_registry (sy_daemon s)) = (r, x)" by fastforce
  have slots: "slots_kept (da_registry (sy_daemon s)) r" using slots_kept_register r by (metis fst_conv)
  have slot: "tok < rg_next_token (da_registry (sy_daemon s))"
      "map_of (rg_reservations (da_registry (sy_daemon s))) tok \<in> {None, Some (Some (tracked_session_id e q))}"
    using f(2) by (simp_all add: slot_ok_def)
  have rec: "recorded (sy_daemon s) (run_of e q) (submission_of e q now)" "now \<noteq> []" "sf_agent_id (fields_of q) \<noteq> []"
      "run_of e q \<notin> set (da_started (sy_daemon s))" using f(4) by (auto simp: pending_ok_def)
  note own = submission_recorded [OF assms(1) f(1) rec(3,2)]
  show ?thesis
  proof (cases x)
    case (Inl y)
    then obtain z where z: "res = Inl z" "d = finalize_registration_failure e i (run_of e q) ((sy_daemon s)\<lparr>da_registry := r\<rparr>)"
      using assms(4) r by (auto simp: register_run_def)
    have "registry_ok r" using register_ok [OF reg_ok(1) r] Inl by simp
    moreover have k: "keeps (sy_daemon s) d"
      unfolding z(2) by (rule keeps_trans [OF _ finalize_failure_keeps]) simp
    moreover have "started_ok e d" using keeps_started [OF k reg_ok(2)] by (simp add: z(2))
    moreover have "slot_ok e r q (Releasing tok (Refused z))" using slots_kept_ok [OF slots f(2)] by (simp add: slot_ok_def)
    ultimately show ?thesis
      using z slots by (auto simp: answer_ok_def pending_ok_def intro!: system_ok_goto [OF assms(2) f(1)])
  next
    case (Inr u)
    then have z: "d = (sy_daemon s)\<lparr>da_registry := r, da_started := da_started (sy_daemon s) @ [run_of e q]\<rparr>"
        "res = Inr \<lparr>an_run_id = run_of e q, an_session_id = tracked_session_id e q, an_accepted_at = now\<rparr>"
      using assms(4) r by (auto simp: register_run_def)
    have k: "keeps (sy_daemon s) d" by (simp add: z(1))
    have "tok \<in> fst ` set (rg_reservations (da_registry (sy_daemon s)))" using r Inr by (auto simp: register_def split: if_splits)
    then have "map_of (rg_reservations (da_registry (sy_daemon s))) tok = Some (en_session_id (entry_of e q now))"
      using slot(2) by (auto simp: entry_of_def map_of_eq_None_iff)
    then have "registry_ok r" using register_ok [OF reg_ok(1) r] by blast
    moreover have "recorded d (run_of e q) (submission_of e q now)" using keeps_recorded [OF k rec(1)] .
    moreover have "started_ok e d"
      using reg_ok(2) rec(4) own calculation(2) keeps_recorded [OF k] unfolding started_ok_def z(1) by fastforce
    ultimately show ?thesis
      using z(2) slots k own assms(3)
      by (auto simp: answer_ok_def pending_ok_def slot_ok_def registering_def z(1) intro!: system_ok_goto [OF assms(2) f(1)])
  qed
qed

lemma quiet_goto:
  assumes "system_ok e old s" "sy_tasks s t = Some (q, p0)" "keeps (sy_daemon s) d"
    "slots_kept (da_registry (sy_daemon s)) (da_registry d)" "registry_ok (da_registry d)"
    "da_started d = da_started (sy_daemon s)" "slot_ok e (da_registry d) q p" "answer_ok e d q p"
    "\<And>tok now. p \<noteq> Registering tok now"
  shows "system_ok e old (goto t q p d s)"
  by (rule system_ok_goto [OF assms(1) task_facts(1) [OF assms(1,2)]])
    (use assms keeps_started [OF assms(3) _ assms(6)] in \<open>auto simp: pending_ok_def system_ok_def\<close>)

lemma system_ok_step:
  assumes "env_ok e" "submit_step e s s'" "system_ok e old s"
  shows "system_ok e old s'"
  using assms(2,3)
proof (induction rule: submit_step.induct)
  case (arrive s t c r q L l)
  have "system_ok e old (goto t q Queued (sy_daemon s) s)"
    by (rule system_ok_goto [OF arrive(5) begin_submit_ok [OF assms(1) arrive(3)]])
      (use arrive(5) in \<open>auto simp: system_ok_def slot_ok_def answer_ok_def pending_ok_def\<close>)
  then show ?case by simp
next
  case (locked s t q k l L)
  have "system_ok e old (goto t q Resolving (sy_daemon s) s)"
    by (rule quiet_goto [OF locked(4,1)]) (use locked(4) in \<open>auto simp: system_ok_def slot_ok_def answer_ok_def\<close>)
  then show ?case by simp
next
  case (resolve s t q)
  show ?case
    by (rule quiet_goto [OF resolve(2,1)])
      (use resolve(2) resolution_ok [of e q "sy_daemon s", OF refl] in \<open>auto simp: system_ok_def slot_ok_def\<close>)
next
  case (fence_live s t q d i1 i2 i3 m)
  show ?case
    by (rule quiet_goto [OF fence_live(3,1)]) (use fence_live(3) in \<open>auto simp: system_ok_def slot_ok_def answer_ok_def\<close>)
next
  case (contained s t q d i1 i2 i3 m)
  show ?case
    by (rule quiet_goto [OF contained(3,1)]) (use contained(3) in \<open>auto simp: system_ok_def slot_ok_def answer_ok_def\<close>)
next
  case (reserved s t q r tok)
  have "slots_kept (da_registry (sy_daemon s)) r" "registry_ok r"
    using slots_kept_reserve [of "da_registry (sy_daemon s)"] reserve_ok [of "da_registry (sy_daemon s)"] reserved(2,3)
    by (metis fst_conv system_ok_def)+
  moreover have "slot_ok e r q (Preparing tok)"
    using reserved_slot [OF _ reserved(2)] reserved(3) by (auto simp: slot_ok_def system_ok_def)
  ultimately show ?case using reserved(3) by (intro quiet_goto [OF reserved(3,1)]) (auto simp: answer_ok_def)
next
  case (not_reserved s t q r x)
  have "r = da_registry (sy_daemon s)" using not_reserved(2) by (auto simp: reserve_def split: if_splits)
  then show ?case
    by (intro quiet_goto [OF not_reserved(3,1)]) (use not_reserved(3) in \<open>auto simp: system_ok_def slot_ok_def answer_ok_def\<close>)
next
  case (prepared s t q tok now i d u)
  note p = prepare_state [OF prepared(3)]
  have "slot_ok e (da_registry d) q (Registering tok now)"
    using task_facts(2) [OF prepared(4,1)] by (simp add: slot_ok_def p(1))
  moreover have none: "da_runs (sy_daemon s) (run_of e q) = No_Entry" and rec: "recorded d (run_of e q) (submission_of e q now)"
    and "sf_agent_id (fields_of q) \<noteq> []" using p(4) agent_nonempty by auto
  moreover have "run_of e q \<notin> set (da_started (sy_daemon s))"
    using none prepared(4) by (auto simp: system_ok_def started_ok_def recorded_def)
  ultimately show ?case
    by (intro system_ok_goto [OF prepared(4) task_facts(1) [OF prepared(4,1)]])
      (use prepared(2,4) p keeps_started [OF p(3) _ p(2)] in \<open>auto simp: answer_ok_def pending_ok_def system_ok_def\<close>)
next
  case (not_prepared s t q tok now i d x)
  note p = prepare_state [OF not_prepared(3)]
  have "slot_ok e (da_registry d) q (Releasing tok (Refused x))"
    using task_facts(2) [OF not_prepared(4,1)] by (simp add: slot_ok_def p(1))
  then show ?case
    by (intro quiet_goto [OF not_prepared(4,1)]) (use not_prepared(4) p in \<open>auto simp: answer_ok_def system_ok_def\<close>)
next
  case (registered s t q tok now i1 d a)
  show ?case using register_run_ok [OF assms(1) registered(3,1,2)] by simp
next
  case (not_registered s t q tok now i1 d x)
  show ?case using register_run_ok [OF assms(1) not_registered(3,1,2)] by simp
next
  case (released s t q tok out)
  have "answer_ok e (sy_daemon s) q (Answering out)" using task_facts(3) [OF released(2,1)] by (simp add: answer_ok_def)
  then have "answer_ok e ((sy_daemon s)\<lparr>da_registry := release_slot tok (da_registry (sy_daemon s))\<rparr>) q (Answering out)"
    by (rule keeps_answer [rotated]) simp
  then show ?case
    by (intro quiet_goto [OF released(2,1)])
      (use released(2) slots_kept_ops release_ok in \<open>auto simp: system_ok_def slot_ok_def\<close>)
next
  case (unlocked s t q out k l)
  have "answer_ok e (sy_daemon s) q (Finished out)" using task_facts(3) [OF unlocked(3,1)] by (simp add: answer_ok_def)
  then have "system_ok e old (goto t q (Finished out) (sy_daemon s) s)"
    by (intro quiet_goto [OF unlocked(3,1)]) (use unlocked(3) in \<open>auto simp: system_ok_def slot_ok_def\<close>)
  then show ?case by simp
next
  case (left s t k)
  then show ?case by simp
next
  case (abandoned s t q k l)
  have "system_ok e old (goto t q (Finished Abandoned) (sy_daemon s) s)"
    by (rule quiet_goto [OF abandoned(3,1)]) (use abandoned(3) in \<open>auto simp: system_ok_def slot_ok_def answer_ok_def\<close>)
  then show ?case by simp
next
  case (run_ends s x)
  show ?case
    by (rule system_ok_env [OF run_ends]) (use run_ends unregister_ok slots_kept_ops in \<open>auto simp: system_ok_def\<close>)
next
  case (run_writes s x rd rd')
  show ?case
    by (rule system_ok_env [OF run_writes(3)]) (use run_writes in \<open>auto simp: system_ok_def keeps_def\<close>)
next
  case (shutdown s)
  show ?case
    by (rule system_ok_env [OF shutdown]) (use shutdown close_ok slots_kept_ops in \<open>auto simp: system_ok_def\<close>)
next
  case (drained s)
  show ?case
    by (rule system_ok_env [OF drained]) (use drained cancel_all_ok slots_kept_ops in \<open>auto simp: system_ok_def\<close>)
qed

section \<open>From a daemon's start\<close>

text \<open>A daemon starts with its configured capacity, the run directories and sessions it finds on disk,
  and no submission.\<close>

definition boot :: "int \<Rightarrow> (string \<Rightarrow> run_entry) \<Rightarrow> store \<Rightarrow> system option" where
  "boot n runs st =
     map_option (\<lambda>r. \<lparr>sy_daemon = \<lparr>da_registry = r, da_runs = runs, da_store = st, da_started = []\<rparr>,
                     sy_locks = init_lock_state, sy_tasks = Map.empty\<rparr>) (new_registry n)"

lemma boot_ok: "boot n runs st = Some s \<Longrightarrow> system_ok e {x. runs x \<noteq> No_Entry} s"
  using new_registry_ok by (auto simp: boot_def system_ok_def started_ok_def registering_def)

interpretation submissions: inductive_invariant
  "\<lambda>s. env_ok e \<and> (\<exists>n st. boot n runs st = Some s)" "submit_step e" "\<lambda>s. env_ok e \<and> system_ok e {x. runs x \<noteq> No_Entry} s"
  for e runs
  by unfold_locales (use boot_ok system_ok_step in blast)+

lemma booted_ok:
  assumes "env_ok e" "boot n runs st = Some s0" "(submit_step e)\<^sup>*\<^sup>* s0 s"
  shows "system_ok e {x. runs x \<noteq> No_Entry} s"
  using submissions.inv_reachable [of e runs s0 s] assms by blast

lemma step_max: "submit_step e s s' \<Longrightarrow> rg_max (da_registry (sy_daemon s')) = rg_max (da_registry (sy_daemon s))"
proof (induction rule: submit_step.induct)
  case (prepared s t q tok now i d u)
  then show ?case using prepare_state(1) [OF prepared(3)] by (simp add: goto_def)
next
  case (not_prepared s t q tok now i d x)
  then show ?case using prepare_state(1) [OF not_prepared(3)] by (simp add: goto_def)
qed (auto simp: goto_def reserve_def register_run_def register_def release_slot_def unregister_def close_admission_def cancel_all_def
    split: if_splits prod.splits sum.splits)

end
