(* ===== verification/Submit_Runs.thy ===== *)
theory Submit_Runs
  imports Submit_Props
begin

text \<open>
  Runs of the submit handler that go through: an admissible submission to a daemon with a free slot is
  accepted and its run started, its retransmission is answered with the same facts, and what a submission
  whose registration was refused is told when it is sent again.
\<close>

section \<open>An admissible submission is accepted\<close>

text \<open>A daemon that can take the submission: open, with a free slot, the session not in use, nothing on disk
  under the run's name, the budget within the ceiling and the agent registered.\<close>

definition can_accept :: "submit_env \<Rightarrow> daemon \<Rightarrow> sub_req \<Rightarrow> bool" where
  "can_accept e d q \<longleftrightarrow>
     rg_open (da_registry d) \<and> occupied (da_registry d) < rg_max (da_registry d) \<and>
     \<not> session_held (da_registry d) (Some (tracked_session_id e q)) \<and> \<not> is_registered (da_registry d) (run_of e q) \<and>
     da_runs d (run_of e q) = No_Entry \<and> check_run_limits (se_policy e) (limits_of_req q) \<and>
     agent_id_ok (sf_agent_id (fields_of q)) \<and> sf_agent_id (fields_of q) \<in> set (se_agents e)"

definition answer_of :: "submit_env \<Rightarrow> sub_req \<Rightarrow> string \<Rightarrow> answer" where
  "answer_of e q now = \<lparr>an_run_id = run_of e q, an_session_id = tracked_session_id e q, an_accepted_at = now\<rparr>"

definition accepted_daemon :: "submit_env \<Rightarrow> sub_req \<Rightarrow> string \<Rightarrow> daemon \<Rightarrow> daemon" where
  "accepted_daemon e q now d =
     (set_run (run_of e q) (empty_run_dir\<lparr>submission_json := Doc (PDict (submission_of e q now))\<rparr>) d)
       \<lparr>da_registry := (da_registry d)\<lparr>rg_entries := rg_entries (da_registry d) @ [(run_of e q, entry_of e q now)],
            rg_next_token := Suc (rg_next_token (da_registry d))\<rparr>,
        da_started := da_started d @ [run_of e q]\<rparr>"

definition fault_free :: prep_io where
  "fault_free = \<lparr>pi_create = Io_Ok, pi_submission = Io_Ok, pi_construct = Constructed, pi_result = Io_Ok\<rparr>"

text \<open>Entering a free section.\<close>

definition section_free :: "(string \<times> string) lock_state \<Rightarrow> string \<times> string \<Rightarrow> bool" where
  "section_free L k \<longleftrightarrow> snd (hold_enter k (ls_locks L)) \<notin> kl_held (ls_locks L)"

definition entered :: "nat \<Rightarrow> string \<times> string \<Rightarrow> (string \<times> string) lock_state \<Rightarrow> (string \<times> string) lock_state" where
  "entered t k L =
     (let (K, l) = hold_enter k (ls_locks L)
      in set_task t (Inside k l) (set_task t (Waiting k l) (L\<lparr>ls_locks := K\<lparr>kl_held := insert l (kl_held K)\<rparr>\<rparr>)))"

lemma hold_enter_held: "kl_held (fst (hold_enter k L)) = kl_held L"
  by (simp add: hold_enter_def split: option.splits)

lemma enter_section:
  assumes "sy_tasks s t = None" "ls_tasks (sy_locks s) t = Outside" "begin_submit e c r = Inr q"
    "section_free (sy_locks s) (lock_key_of q)"
  shows "(submit_step e)\<^sup>*\<^sup>* s ((goto t q Resolving (sy_daemon s) s)\<lparr>sy_locks := entered t (lock_key_of q) (sy_locks s)\<rparr>)"
proof -
  obtain K l where K: "hold_enter (lock_key_of q) (ls_locks (sy_locks s)) = (K, l)" by fastforce
  let ?s1 = "(goto t q Queued (sy_daemon s) s)\<lparr>sy_locks := set_task t (Waiting (lock_key_of q) l) ((sy_locks s)\<lparr>ls_locks := K\<rparr>)\<rparr>"
  have "submit_step e s ?s1" by (rule submit_step.arrive [OF assms(1-3) K])
  moreover have "l \<notin> kl_held K" using assms(4) hold_enter_held [of "lock_key_of q" "ls_locks (sy_locks s)"] K
    by (simp add: section_free_def)
  then have "submit_step e ?s1 ((goto t q Resolving (sy_daemon ?s1) ?s1)
      \<lparr>sy_locks := set_task t (Inside (lock_key_of q) l) ((sy_locks ?s1)\<lparr>ls_locks := K\<lparr>kl_held := insert l (kl_held K)\<rparr>\<rparr>)\<rparr>)"
    by (intro submit_step.locked) (auto simp: goto_def hold_acquire_def)
  moreover have "(goto t q Resolving (sy_daemon ?s1) ?s1)
      \<lparr>sy_locks := set_task t (Inside (lock_key_of q) l) ((sy_locks ?s1)\<lparr>ls_locks := K\<lparr>kl_held := insert l (kl_held K)\<rparr>\<rparr>)\<rparr> =
      (goto t q Resolving (sy_daemon s) s)\<lparr>sy_locks := entered t (lock_key_of q) (sy_locks s)\<rparr>"
    by (simp add: goto_def entered_def K set_task_def)
  ultimately show ?thesis by (metis converse_rtranclp_into_rtranclp r_into_rtranclp)
qed

lemma goto_goto: "goto t q p d (goto t q p' d' s) = goto t q p d s"
  by (simp add: goto_def)

lemma goto_parts [simp]:
  "sy_daemon (goto t q p d s) = d" "sy_tasks (goto t q p d s) = (sy_tasks s)(t \<mapsto> (q, p))"
  "sy_locks (goto t q p d s) = sy_locks s"
  by (simp_all add: goto_def)

lemma accept_submission:
  assumes "sy_tasks s t = Some (q, Resolving)" "can_accept e (sy_daemon s) q" "now \<noteq> []" "registry_ok (da_registry (sy_daemon s))"
  shows "(submit_step e)\<^sup>*\<^sup>* s (goto t q (Answering (Accepted (answer_of e q now))) (accepted_daemon e q now (sy_daemon s)) s)"
proof -
  let ?d = "sy_daemon s" and ?r = "da_registry (sy_daemon s)" and ?tok = "rg_next_token (da_registry (sy_daemon s))"
  let ?r1 = "?r\<lparr>rg_reservations := rg_reservations ?r @ [(?tok, Some (tracked_session_id e q))], rg_next_token := Suc ?tok\<rparr>"
  let ?d1 = "?d\<lparr>da_registry := ?r1\<rparr>"
  let ?d2 = "set_run (run_of e q) (empty_run_dir\<lparr>submission_json := Doc (PDict (submission_of e q now))\<rparr>) ?d1"
  have c: "rg_open ?r" "occupied ?r < rg_max ?r" "\<not> session_held ?r (Some (tracked_session_id e q))" "\<not> is_registered ?r (run_of e q)"
      "da_runs ?d (run_of e q) = No_Entry" "check_run_limits (se_policy e) (limits_of_req q)"
      "run_factory e Constructed q = Inr ()" using assms(2) by (auto simp: can_accept_def run_factory_def)
  have "after_resolution e q ?d = Reserving"
    using c(5,6) by (simp add: after_resolution_def resolve_durable_def admit_event_budget_def ensure_def)
  then have "submit_step e s (goto t q Reserving ?d s)" using submit_step.resolve [OF assms(1), of e] by simp
  moreover have "reserve (Some (tracked_session_id e q)) ?r = (?r1, Inr ?tok)" using c(1-3) by (simp add: reserve_def)
  then have "submit_step e (goto t q Reserving ?d s) (goto t q (Preparing ?tok) ?d1 s)"
    using submit_step.reserved [of "goto t q Reserving ?d s" t q e ?r1 ?tok] by (simp add: goto_goto)
  moreover have "admit_run e fault_free now q ?d1 = (?d2, Inr ())"
    using c(5,7) by (simp add: admit_run_def create_run_def fault_free_def write_once_def set_run_def)
  then have "submit_step e (goto t q (Preparing ?tok) ?d1 s) (goto t q (Registering ?tok now) ?d2 s)"
    using submit_step.prepared [of "goto t q (Preparing ?tok) ?d1 s" t q ?tok now e fault_free ?d2] assms(3) by (simp add: goto_goto)
  moreover have "filter (\<lambda>p. fst p \<noteq> ?tok) (rg_reservations ?r) = rg_reservations ?r"
    using assms(4) by (auto simp: registry_ok_def intro!: filter_True)
  then have "register_run e Io_Ok ?tok now q ?d2 = (accepted_daemon e q now ?d, Inr (answer_of e q now))"
    using c(1,4) by (simp add: register_run_def register_def is_registered_def release_slot_def accepted_daemon_def answer_of_def set_run_def)
  then have "submit_step e (goto t q (Registering ?tok now) ?d2 s)
      (goto t q (Answering (Accepted (answer_of e q now))) (accepted_daemon e q now ?d) s)"
    using submit_step.registered [of "goto t q (Registering ?tok now) ?d2 s" t q ?tok now e Io_Ok] by (simp add: goto_goto)
  ultimately show ?thesis by (meson converse_rtranclp_into_rtranclp rtranclp.rtrancl_refl)
qed

section \<open>A retransmission is answered from the record\<close>

lemma resolve_known:
  assumes "env_ok e" "req_ok q" "sf_agent_id (fields_of q) \<noteq> []" "now \<noteq> []" "da_runs d (run_of e q) = Run rd"
    "submission_json rd = Doc (PDict (submission_of e q now))" "check_run_limits (se_policy e) (limits_of_req q)"
    "fst (terminal_entry (se_float e) (result_json rd) (run_of e q)) = TERM_TRUSTED \<or>
      fst (terminal_entry (se_float e) (result_json rd) (run_of e q)) = TERM_ABSENT \<and> is_registered (da_registry d) (run_of e q)"
  shows "resolve_durable e q d = Known (answer_of e q now)"
proof -
  note rec = submission_recorded [OF assms(1-4)]
  obtain att where att: "validate_submission_artifact (se_sha e) (submission_of e q now) (run_of e q) = Some att"
      "sa_session_id att = tracked_session_id e q" using rec by (auto simp: records_def)
  have "submit_fields_ok (fields_of q)" "admission_key_ok (sq_key q)" "0 < se_policy e"
      "se_policy e \<le> STRUCTURAL_MAX_RUN_EVENT_BUDGET_BYTES" using assms by (auto simp: req_ok_def env_ok_def)
  from submission_reads_back [OF this(2,1) run_of_nonempty assms(4) this(3,4) refl, where p = "sq_peer q" and sha = "se_sha e"]
  have "submission_admits_limits (submission_of e q now) (limits_of_req q)" using assms(7) unfolding submission_of_def by blast
  moreover have "dget (submission_of e q now) ''run_id'' = PStr (run_of e q)" by (simp add: submission_of_def dget_submission)
  ultimately have "resolve_record e q (da_registry d) rd (submission_of e q now) att = Known (answer_of e q now)"
    using rec att(2) assms(8) by (auto simp: resolve_record_def records_def answer_of_def Let_def)
  then show ?thesis using assms(5,6) att(1) by (simp add: resolve_durable_def classify_submission_def)
qed

lemma leave_section:
  assumes "sy_tasks s t = Some (q, Answering out)" "ls_tasks (sy_locks s) t = Inside k l"
  shows "(submit_step e)\<^sup>*\<^sup>* s ((goto t q (Finished out) (sy_daemon s) s)\<lparr>sy_locks :=
    set_task t Outside (set_task t (Leaving k) ((sy_locks s)\<lparr>ls_locks := hold_leave k (hold_release l (ls_locks (sy_locks s)))\<rparr>))\<rparr>)"
proof -
  let ?s1 = "(goto t q (Finished out) (sy_daemon s) s)
      \<lparr>sy_locks := set_task t (Leaving k) ((sy_locks s)\<lparr>ls_locks := hold_release l (ls_locks (sy_locks s))\<rparr>)\<rparr>"
  let ?s2 = "?s1\<lparr>sy_locks := set_task t Outside ((sy_locks ?s1)\<lparr>ls_locks := hold_leave k (ls_locks (sy_locks ?s1))\<rparr>)\<rparr>"
  have "submit_step e s ?s1" by (rule submit_step.unlocked [OF assms])
  moreover have "submit_step e ?s1 ?s2" by (rule submit_step.left) simp
  ultimately have run: "(submit_step e)\<^sup>*\<^sup>* s ?s2" by (rule converse_rtranclp_into_rtranclp [OF _ r_into_rtranclp])
  have eq: "?s2 =
      (goto t q (Finished out) (sy_daemon s) s)\<lparr>sy_locks :=
        set_task t Outside (set_task t (Leaving k) ((sy_locks s)\<lparr>ls_locks := hold_leave k (hold_release l (ls_locks (sy_locks s)))\<rparr>))\<rparr>"
    by (simp add: goto_def set_task_def)
  show ?thesis by (rule subst [where P = "(submit_step e)\<^sup>*\<^sup>* s", OF eq run])
qed

lemma goes_through:
  assumes "env_ok e" "boot n runs st = Some s0" "begin_submit e c r = Inr q" "can_accept e (sy_daemon s0) q" "now \<noteq> []"
  shows "\<exists>s. (submit_step e)\<^sup>*\<^sup>* s0 s \<and> da_started (sy_daemon s) = [run_of e q] \<and>
    sy_tasks s 0 = Some (q, Finished (Accepted (answer_of e q now))) \<and>
    sy_tasks s 1 = Some (q, Answering (Accepted (answer_of e q now)))"
proof -
  let ?k = "lock_key_of q" and ?a = "Accepted (answer_of e q now)"
  have s0: "sy_tasks s0 = Map.empty" "sy_locks s0 = init_lock_state" "da_started (sy_daemon s0) = []"
      "registry_ok (da_registry (sy_daemon s0))"
    using assms(2) new_registry_ok by (auto simp: boot_def)
  define d where "d = accepted_daemon e q now (sy_daemon s0)"
  define s1 where "s1 = (goto 0 q Resolving (sy_daemon s0) s0)\<lparr>sy_locks := entered 0 ?k init_lock_state\<rparr>"
  have r1: "(submit_step e)\<^sup>*\<^sup>* s0 s1"
    using enter_section [of s0 0 e c r q] s0 assms(3) by (simp add: s1_def section_free_def init_lock_state_def new_locks_def)
  define s2 where "s2 = goto 0 q (Answering ?a) d s1"
  have r2: "(submit_step e)\<^sup>*\<^sup>* s1 s2"
    using accept_submission [of s1 0 q e now] assms(4,5) s0(4) by (simp add: s1_def s2_def d_def)
  have "ls_tasks (sy_locks s2) 0 = Inside ?k 0"
    by (simp add: s1_def s2_def entered_def init_lock_state_def new_locks_def hold_enter_def)
  then obtain L where L: "(submit_step e)\<^sup>*\<^sup>* s2 ((goto 0 q (Finished ?a) d s2)\<lparr>sy_locks := L\<rparr>)"
      "ls_tasks L 1 = Outside" "section_free L ?k"
    using leave_section [of s2 0 q ?a ?k 0 e]
    by (auto simp: s1_def s2_def section_free_def entered_def init_lock_state_def new_locks_def hold_enter_def hold_leave_def
        hold_release_def waiters_of_def)
  define s3 where "s3 = (goto 0 q (Finished ?a) d s2)\<lparr>sy_locks := L\<rparr>"
  define s4 where "s4 = (goto 1 q Resolving d s3)\<lparr>sy_locks := entered 1 ?k L\<rparr>"
  have r4: "(submit_step e)\<^sup>*\<^sup>* s3 s4"
    using enter_section [of s3 1 e c r q] s0 assms(3) L(2,3) by (simp add: s1_def s2_def s3_def s4_def)
  have "resolve_durable e q d = Known (answer_of e q now)"
    using assms(4,5) begin_submit_ok [OF assms(1,3)] agent_nonempty
    by (intro resolve_known [OF assms(1)])
      (auto simp: d_def can_accept_def accepted_daemon_def set_run_def empty_run_dir_def terminal_entry_def is_registered_def)
  then have r5: "submit_step e s4 (goto 1 q (Answering ?a) d s4)"
    using submit_step.resolve [of s4 1 q e] by (simp add: s4_def after_resolution_def)
  have "(submit_step e)\<^sup>*\<^sup>* s0 (goto 1 q (Answering ?a) d s4)"
    using r1 r2 L(1) [folded s3_def] r4 r5 by (meson rtranclp.rtrancl_into_rtrancl rtranclp_trans)
  moreover have "da_started d = [run_of e q]" using s0(3) by (simp add: d_def accepted_daemon_def)
  ultimately show ?thesis by (intro exI [of _ "goto 1 q (Answering ?a) d s4"]) (simp add: s3_def s4_def)
qed

section \<open>A refused registration resolves as accepted\<close>

lemma prepare_refused:
  assumes "da_runs d (run_of e q) = No_Entry" "agent_id_ok (sf_agent_id (fields_of q))" "sf_agent_id (fields_of q) \<notin> set (se_agents e)"
  shows "admit_run e fault_free now q d =
    (set_run (run_of e q) (empty_run_dir\<lparr>submission_json := Doc (PDict (submission_of e q now)),
        result_json := Doc (PDict (registration_failed_payload e (run_of e q)))\<rparr>) d,
     Inl (invalid ''agent refused: AGENT_NOT_REGISTERED''))"
  using assms by (simp add: admit_run_def create_run_def fault_free_def write_once_def set_run_def run_factory_def
      finalize_registration_failure_def empty_run_dir_def)

lemma registration_failed_trusted:
  assumes "native_result_serialized_size (se_float e) (registration_failed_payload e run_id) = Some n" "n \<le> MAX_NATIVE_RESULT_SERIALIZED_BYTES"
  shows "fst (terminal_entry (se_float e) (Doc (PDict (registration_failed_payload e run_id))) run_id) = TERM_TRUSTED"
proof -
  let ?a = "supervisor_args run_id FAILED ''REGISTRATION_FAILED'' (se_root e @ ''/'' @ run_id)"
  have "args_native ?a" by (simp add: args_native_def supervisor_args_def semantic_grammar_ok_def)
  moreover have "ra_run_id ?a = run_id" by (simp add: supervisor_args_def)
  ultimately have "validate_native_terminal_result (se_float e) (PDict (registration_failed_payload e run_id)) run_id =
      Some (registration_failed_payload e run_id)"
    using native_payload_trusted [of ?a "se_float e" None] assms by (simp add: registration_failed_payload_def with_session_def)
  then show ?thesis by (simp add: terminal_entry_def)
qed

section \<open>Two submissions of one request to a fresh daemon\<close>

definition demo_hex :: string where
  "demo_hex = replicate 64 (CHR ''0'')"

definition demo_submit_env :: submit_env where
  "demo_submit_env =
     \<lparr>se_shab = (\<lambda>_. demo_hex), se_sha = (\<lambda>_. demo_hex), se_float = (\<lambda>_. ''1.5''), se_policy = 1000000, se_root = ''/r'',
      se_agents = [''a'']\<rparr>"

definition demo_command :: "string \<Rightarrow> submit_command" where
  "demo_command agent =
     \<lparr>sc_request =
        \<lparr>rq_owner = ''o'', rq_namespace = ''n'', rq_agent_id = agent, rq_expected_binding_hash = None, rq_input_refs = [],
         rq_requested_model = ''m'', rq_requested_effort = ''e'', rq_grant_ref = ''g'', rq_grant_hash = ''h'', rq_grant_role_hash = ''r'',
         rq_grant_capabilities = [], rq_mcp_snapshot_hashes = [], rq_credential_refs = [],
         rq_limits = \<lparr>startup_timeout_seconds = PInt 1, turn_timeout_seconds = PInt 1, cancel_grace_seconds = PInt 1,
           max_stderr_bytes = PInt 1, max_event_bytes = PInt 256, max_events = PInt 1\<rparr>,
         rq_evidence_policy_hash = ''p'', rq_recovery_policy_hash = ''q'', rq_session_id = None\<rparr>,
      sc_prompt_text = ''hi'', sc_workspace_root = ''/w'', sc_cwd = None, sc_retry_of_run_id = None\<rparr>"

definition demo_caller :: caller where
  "demo_caller =
     \<lparr>ca_principal_id = ''u1'', ca_owner_namespaces = [(''o'', ''n'')], ca_peer = \<lparr>peer_pid = 1, peer_uid = 2, peer_gid = 3\<rparr>\<rparr>"

definition demo_parsed :: "string \<Rightarrow> parsed_request" where
  "demo_parsed agent =
     \<lparr>pr_op = ''submit'', pr_request_id = ''q1'', pr_payload = command_wire (demo_command agent), pr_api_version = 1\<rparr>"

definition demo_req :: "string \<Rightarrow> sub_req" where
  "demo_req agent =
     \<lparr>sq_key = \<lparr>principal_id = ''u1'', request_id = ''q1''\<rparr>, sq_command = demo_command agent,
      sq_digest = \<lparr>rd_value = ''sha256:'' @ demo_hex, rd_prompt_sha256 = demo_hex, rd_prompt_bytes = 2\<rparr>,
      sq_peer = \<lparr>peer_pid = 1, peer_uid = 2, peer_gid = 3\<rparr>\<rparr>"

definition demo_boot :: system where
  "demo_boot =
     \<lparr>sy_daemon = \<lparr>da_registry = \<lparr>rg_max = 2, rg_entries = [], rg_reservations = [], rg_open = True, rg_next_token = 0\<rparr>,
        da_runs = (\<lambda>_. No_Entry), da_store = (\<lambda>_. empty_sdir), da_started = []\<rparr>,
      sy_locks = init_lock_state, sy_tasks = Map.empty\<rparr>"

lemma demo_booted: "boot 2 (\<lambda>_. No_Entry) (\<lambda>_. empty_sdir) = Some demo_boot"
  by (simp add: boot_def new_registry_def demo_boot_def)

lemma demo_env_ok: "env_ok demo_submit_env"
  by (simp add: env_ok_def demo_submit_env_def hex_digest_def demo_hex_def hex_digit_def digit_def list_all_iff
      STRUCTURAL_MAX_RUN_EVENT_BUDGET_BYTES_def LIMIT_MAX_EVENT_BYTES_MAX_def LIMIT_MAX_EVENTS_MAX_def)

lemma demo_command_ok: "command_ok STRUCTURAL_MAX_RUN_EVENT_BUDGET_BYTES (demo_command agent)"
  by (simp add: command_ok_def request_ok_def demo_command_def text_ok_def MAX_FIELD_LENGTH_def MAX_EFFORT_LENGTH_def
      printable_def run_limits_accepted_def run_limits_fields_ok_def validate_limit_float_def validate_limit_int_def
      check_run_limits_def utf8_encode_def utf8_char_def MAX_PROMPT_BYTES_def LIMIT_STARTUP_TIMEOUT_SECONDS_MAX_def
      LIMIT_TURN_TIMEOUT_SECONDS_MAX_def LIMIT_CANCEL_GRACE_SECONDS_MAX_def LIMIT_MAX_STDERR_BYTES_MAX_def
      LIMIT_MAX_EVENT_BYTES_MAX_def LIMIT_MAX_EVENT_BYTES_MIN_def LIMIT_MAX_EVENTS_MAX_def STRUCTURAL_MAX_RUN_EVENT_BUDGET_BYTES_def)

lemma demo_begin: "begin_submit demo_submit_env demo_caller (demo_parsed agent) = Inr (demo_req agent)"
proof -
  have "parse_submit STRUCTURAL_MAX_RUN_EVENT_BUDGET_BYTES (command_wire (demo_command agent)) = Inr (demo_command agent)"
    by (rule parse_submit_wire [OF demo_command_ok])
  moreover obtain g where "compute_request_digest (\<lambda>_. demo_hex) (\<lambda>_. ''1.5'') (demo_command agent) = Some g"
    using command_digest_exists [OF demo_command_ok] by blast
  then have "compute_request_digest (\<lambda>_. demo_hex) (\<lambda>_. ''1.5'') (demo_command agent) = Some (sq_digest (demo_req agent))"
    by (auto simp: compute_request_digest_def demo_req_def demo_command_def utf8_encode_def utf8_char_def simp del: dumps_fmt.simps split: option.splits)
  moreover have "request_id_ok ''q1''" by code_simp
  moreover have "rq_owner (sc_request (demo_command agent)) = ''o''" "rq_namespace (sc_request (demo_command agent)) = ''n''"
    by (simp_all add: demo_command_def)
  ultimately show ?thesis
    by (simp add: begin_submit_def demo_parsed_def demo_submit_env_def demo_caller_def demo_req_def require_owner_def ensure_def Let_def)
qed

lemma demo_can_accept: "can_accept demo_submit_env (sy_daemon demo_boot) (demo_req ''a'')"
  by (simp add: can_accept_def demo_boot_def occupied_def session_held_def is_registered_def demo_submit_env_def demo_req_def
     demo_command_def limits_of_req_def check_run_limits_def fields_of_def submit_fields_of_def agent_id_ok_def lower_alpha_def)

section \<open>The handler\<close>

lemma demo_submitted:
  obtains s where "(submit_step demo_submit_env)\<^sup>*\<^sup>* demo_boot s" "da_started (sy_daemon s) = [run_of demo_submit_env (demo_req ''a'')]"
    "sy_tasks s 0 = Some (demo_req ''a'', Finished (Accepted (answer_of demo_submit_env (demo_req ''a'') ''t'')))"
    "sy_tasks s 1 = Some (demo_req ''a'', Answering (Accepted (answer_of demo_submit_env (demo_req ''a'') ''t'')))"
  using goes_through [OF demo_env_ok demo_booted demo_begin demo_can_accept, of "''t''"] by auto

text \<open>C13. A run is started at most once.  However submissions, retransmissions, failing writes, ending
  runs and shutdown interleave, no run's task is created twice; a run whose directory an earlier life of
  the daemon left behind is never started again; and every started run has on disk the valid submission
  record of its own identity.\<close>

theorem submit_starts_once:
  assumes "env_ok e" "boot n runs st = Some s0" "(submit_step e)\<^sup>*\<^sup>* s0 s"
  shows "distinct (da_started (sy_daemon s)) \<and>
    list_all (\<lambda>x. runs x = No_Entry \<and>
      (\<exists>rd att. da_runs (sy_daemon s) x = Run rd \<and> classify_submission (se_sha e) (submission_json rd) x = (DOC_VALID, Some att)))
      (da_started (sy_daemon s))"
proof -
  note ok = booted_ok [OF assms]
  have "runs x = No_Entry \<and> (\<exists>rd att. da_runs (sy_daemon s) x = Run rd \<and>
      classify_submission (se_sha e) (submission_json rd) x = (DOC_VALID, Some att))" if x: "x \<in> set (da_started (sy_daemon s))" for x
  proof -
    obtain q sid now r where "run_of e q = x" "recorded (sy_daemon s) x r" "records e q sid now r"
      using ok x unfolding system_ok_def started_ok_def by metis
    then show ?thesis using ok x
      by (auto simp: recorded_def records_def classify_submission_def system_ok_def)
  qed
  then show ?thesis using ok by (auto simp: list_all_iff system_ok_def started_ok_def)
qed

theorem submit_starts_once_witness:
  "\<exists>s :: system. da_started (sy_daemon s) = [run_of demo_submit_env (demo_req ''a'')] \<and> distinct (da_started (sy_daemon s)) \<and>
    (\<exists>rd att. da_runs (sy_daemon s) (run_of demo_submit_env (demo_req ''a'')) = Run rd \<and>
      classify_submission (se_sha demo_submit_env) (submission_json rd) (run_of demo_submit_env (demo_req ''a'')) = (DOC_VALID, Some att))"
proof -
  obtain s where s: "(submit_step demo_submit_env)\<^sup>*\<^sup>* demo_boot s" "da_started (sy_daemon s) = [run_of demo_submit_env (demo_req ''a'')]"
      "sy_tasks s 0 = Some (demo_req ''a'', Finished (Accepted (answer_of demo_submit_env (demo_req ''a'') ''t'')))"
      "sy_tasks s 1 = Some (demo_req ''a'', Answering (Accepted (answer_of demo_submit_env (demo_req ''a'') ''t'')))"
    by (rule demo_submitted)
  from submit_starts_once [OF demo_env_ok demo_booted s(1)]
  have "distinct (da_started (sy_daemon s)) \<and> (\<exists>rd att. da_runs (sy_daemon s) (run_of demo_submit_env (demo_req ''a'')) = Run rd \<and>
      classify_submission (se_sha demo_submit_env) (submission_json rd) (run_of demo_submit_env (demo_req ''a'')) = (DOC_VALID, Some att))"
    unfolding s(2) by simp
  with s(2) show ?thesis by blast
qed

text \<open>C14. Every acceptance of a key states the same facts.  In every reachable state, any two submissions
  with the same admission key that were accepted, the original and its retransmissions in any order, got
  the same run, session and acceptance time, and carried the same request digest.\<close>

theorem submit_answers_agree:
  assumes "env_ok e" "boot n runs st = Some s0" "(submit_step e)\<^sup>*\<^sup>* s0 s"
    "sy_tasks s t = Some (q, p)" "outcome_of p = Some (Accepted a)"
    "sy_tasks s t' = Some (q', p')" "outcome_of p' = Some (Accepted a')" "sq_key q' = sq_key q"
  shows "a' = a \<and> rd_value (sq_digest q') = rd_value (sq_digest q)"
proof -
  note ok = booted_ok [OF assms(1-3)]
  have same: "run_of e q' = run_of e q" using assms(8) by (simp add: run_of_def)
  obtain r where r: "an_run_id a = run_of e q" "recorded (sy_daemon s) (run_of e q) r" "records e q (an_session_id a) (an_accepted_at a) r"
    using task_facts(3) [OF ok assms(4)] assms(5) by (auto simp: answer_ok_def)
  obtain r' where r': "an_run_id a' = run_of e q" "recorded (sy_daemon s) (run_of e q) r'" "records e q' (an_session_id a') (an_accepted_at a') r'"
    using task_facts(3) [OF ok assms(6)] assms(7) same by (auto simp: answer_ok_def)
  have "r' = r" using recorded_unique [OF r(2) r'(2)] .
  then show ?thesis using records_agree [OF r(3) _ assms(8)] r r' by (cases a; cases a') auto
qed

theorem submit_answers_agree_witness:
  "\<exists>(s :: system) a a'. sy_tasks s 0 = Some (demo_req ''a'', Finished (Accepted a)) \<and>
    sy_tasks s 1 = Some (demo_req ''a'', Answering (Accepted a')) \<and> a' = a"
proof -
  obtain s a a' where s: "(submit_step demo_submit_env)\<^sup>*\<^sup>* demo_boot s"
      "sy_tasks s 0 = Some (demo_req ''a'', Finished (Accepted a))" "sy_tasks s 1 = Some (demo_req ''a'', Answering (Accepted a'))"
    by (rule demo_submitted) blast
  have "a' = a" using submit_answers_agree [OF demo_env_ok demo_booted s(1,2) _ s(3)] by simp
  with s show ?thesis by blast
qed

text \<open>C15. Submissions go through.  An admissible request sent to a freshly started daemon can run to its
  acceptance, with its run started exactly then; and the same request sent again is answered with the
  same run, session and acceptance time, without a second start.\<close>

theorem submit_goes_through:
  assumes "env_ok e" "boot n runs st = Some s0" "begin_submit e c r = Inr q" "can_accept e (sy_daemon s0) q" "now \<noteq> []"
  shows "\<exists>s. (submit_step e)\<^sup>*\<^sup>* s0 s \<and> da_started (sy_daemon s) = [run_of e q] \<and>
    sy_tasks s 0 = Some (q, Finished (Accepted (answer_of e q now))) \<and>
    sy_tasks s 1 = Some (q, Answering (Accepted (answer_of e q now)))"
  by (rule goes_through [OF assms])

theorem submit_goes_through_witness:
  "\<exists>s. (submit_step demo_submit_env)\<^sup>*\<^sup>* demo_boot s \<and> da_started (sy_daemon s) = [run_of demo_submit_env (demo_req ''a'')] \<and>
    sy_tasks s 1 = Some (demo_req ''a'', Answering (Accepted (answer_of demo_submit_env (demo_req ''a'') ''t'')))"
  using submit_goes_through [OF demo_env_ok demo_booted demo_begin demo_can_accept, of "''t''"] by auto

text \<open>C16. Capacity and sessions: in every reachable state the active runs and the slots promised to
  submissions in progress together stay within the configured maximum, and no session is held by two of
  them.\<close>

theorem submit_capacity:
  assumes "env_ok e" "boot n runs st = Some s0" "(submit_step e)\<^sup>*\<^sup>* s0 s"
  shows "int (occupied (da_registry (sy_daemon s))) \<le> n \<and> distinct (held_sessions (da_registry (sy_daemon s)))"
proof -
  have "rg_max (da_registry (sy_daemon s)) = rg_max (da_registry (sy_daemon s0))"
    using assms(3) by (induction rule: rtranclp_induct) (auto dest: step_max)
  moreover have "int (rg_max (da_registry (sy_daemon s0))) = n"
    using assms(2) by (auto simp: boot_def new_registry_def split: if_splits)
  ultimately show ?thesis using booted_ok [OF assms] by (auto simp: system_ok_def registry_ok_def)
qed

theorem submit_capacity_witness:
  "\<exists>s :: system. da_started (sy_daemon s) = [run_of demo_submit_env (demo_req ''a'')] \<and>
    int (occupied (da_registry (sy_daemon s))) \<le> 2 \<and> distinct (held_sessions (da_registry (sy_daemon s)))"
proof -
  obtain s where s: "(submit_step demo_submit_env)\<^sup>*\<^sup>* demo_boot s" "da_started (sy_daemon s) = [run_of demo_submit_env (demo_req ''a'')]"
      "sy_tasks s 0 = Some (demo_req ''a'', Finished (Accepted (answer_of demo_submit_env (demo_req ''a'') ''t'')))"
      "sy_tasks s 1 = Some (demo_req ''a'', Answering (Accepted (answer_of demo_submit_env (demo_req ''a'') ''t'')))"
    by (rule demo_submitted)
  then show ?thesis using submit_capacity [OF demo_env_ok demo_booted s(1)] by blast
qed

text \<open>C40. A submission that was refused because its agent is not registered is, when it is sent again,
  answered as accepted: the refused registration left a submission record and a trusted terminal, and the
  resolution reports the acceptance the caller never got.\<close>

theorem refused_submission_resolves_accepted:
  assumes "env_ok e" "req_ok q" "now \<noteq> []" "da_runs d (run_of e q) = No_Entry" "check_run_limits (se_policy e) (limits_of_req q)"
    "agent_id_ok (sf_agent_id (fields_of q))" "sf_agent_id (fields_of q) \<notin> set (se_agents e)"
    "native_result_serialized_size (se_float e) (registration_failed_payload e (run_of e q)) = Some n"
    "n \<le> MAX_NATIVE_RESULT_SERIALIZED_BYTES"
  shows "snd (admit_run e fault_free now q d) = Inl (invalid ''agent refused: AGENT_NOT_REGISTERED'') \<and>
    resolve_durable e q (fst (admit_run e fault_free now q d)) = Known (answer_of e q now)"
proof -
  have "resolve_durable e q (fst (admit_run e fault_free now q d)) = Known (answer_of e q now)"
    using assms(3,5) registration_failed_trusted [OF assms(8,9)] agent_nonempty [OF assms(6)]
    by (intro resolve_known [OF assms(1,2)]) (auto simp: prepare_refused [OF assms(4,6,7)] set_run_def)
  then show ?thesis by (simp add: prepare_refused [OF assms(4,6,7)])
qed


lemma demo_size:
  "case native_result_serialized_size (se_float demo_submit_env)
      (registration_failed_payload demo_submit_env (run_of demo_submit_env (demo_req ''b''))) of
     None \<Rightarrow> False | Some n \<Rightarrow> n \<le> MAX_NATIVE_RESULT_SERIALIZED_BYTES"
  by code_simp

theorem refused_submission_resolves_accepted_witness:
  "resolve_durable demo_submit_env (demo_req ''b'') (fst (admit_run demo_submit_env fault_free ''t'' (demo_req ''b'') (sy_daemon demo_boot))) =
    Known (answer_of demo_submit_env (demo_req ''b'') ''t'')"
proof -
  obtain n where n: "native_result_serialized_size (se_float demo_submit_env)
      (registration_failed_payload demo_submit_env (run_of demo_submit_env (demo_req ''b''))) = Some n" "n \<le> MAX_NATIVE_RESULT_SERIALIZED_BYTES"
    using demo_size by (auto split: option.splits)
  have "da_runs (sy_daemon demo_boot) (run_of demo_submit_env (demo_req ''b'')) = No_Entry" by (simp add: demo_boot_def)
  moreover have "check_run_limits (se_policy demo_submit_env) (limits_of_req (demo_req ''b''))"
      "agent_id_ok (sf_agent_id (fields_of (demo_req ''b'')))" "sf_agent_id (fields_of (demo_req ''b'')) \<notin> set (se_agents demo_submit_env)"
    by code_simp+
  ultimately show ?thesis
    using refused_submission_resolves_accepted [OF demo_env_ok begin_submit_ok [OF demo_env_ok demo_begin] _ _ _ _ _ n, of "''t''"] by simp
qed

end
