(* ===== verification/Event_Pages.thy ===== *)
theory Event_Pages
  imports Protocol
begin

text \<open>
  The paged reading of a run's event ledger in \<^verbatim>\<open>arsd/handlers.py\<close>: the bounded line
  reader over short reads, the page with its response budget, and the check that a page can be framed.
  The JSON decoder's answer on a line's bytes is an argument.
\<close>

section \<open>Lines\<close>

definition EVENT_LINE_ENVELOPE_HEADROOM :: nat where
  "EVENT_LINE_ENVELOPE_HEADROOM = (256 :: nat)"

definition MAX_EVENT_LINE_BYTES :: nat where
  "MAX_EVENT_LINE_BYTES = nat LIMIT_MAX_EVENT_BYTES_MAX + EVENT_LINE_ENVELOPE_HEADROOM"

definition MAX_EVENTS_RESPONSE_BYTES :: int where
  "MAX_EVENTS_RESPONSE_BYTES = (768 * 1024 :: int)"

definition READ_CHUNK_BYTES :: nat where
  "READ_CHUNK_BYTES = (65536 :: nat)"

definition MAX_EVENTS_PAGE_LIMIT :: int where
  "MAX_EVENTS_PAGE_LIMIT = (1000 :: int)"

text \<open>\<^verbatim>\<open>buf.find\<close>: the bytes before the first line feed and those after it.\<close>

fun cut_line :: "bytes \<Rightarrow> (bytes \<times> bytes) option" where
  "cut_line [] = None"
| "cut_line (b # bs) = (if b = 10 then Some ([], bs) else map_option (\<lambda>(l, r). (b # l, r)) (cut_line bs))"

datatype lines_end = Lines_Done | Line_Too_Long | Read_Failed

text \<open>The generator: what it yields and how it ends.  The k-th read of the file returns at most what was
  asked for and at least one byte before the end of the file, or raises.\<close>

lemma cut_line_length: "cut_line bs = Some (l, r) \<Longrightarrow> length l + length r < length bs"
  by (induction bs arbitrary: l r) (auto split: if_splits)

function iter_bounded_event_lines :: "(nat \<Rightarrow> nat option) \<Rightarrow> nat \<Rightarrow> bytes \<Rightarrow> bytes \<Rightarrow> bytes list \<times> lines_end" where
  "iter_bounded_event_lines reads k buf rest =
     (case cut_line buf of
        Some (line, buf') \<Rightarrow>
          (if MAX_EVENT_LINE_BYTES < length line then ([], Line_Too_Long)
           else (case iter_bounded_event_lines reads k buf' rest of (ls, e) \<Rightarrow> (line # ls, e)))
      | None \<Rightarrow>
          (if MAX_EVENT_LINE_BYTES < length buf then ([], Line_Too_Long)
           else case reads k of
                  None \<Rightarrow> ([], Read_Failed)
                | Some n \<Rightarrow>
                    (if rest = [] then (if buf = [] then [] else [buf], Lines_Done)
                     else (let got = max 1 (min n (min READ_CHUNK_BYTES (MAX_EVENT_LINE_BYTES - length buf + 1)))
                           in iter_bounded_event_lines reads (Suc k) (buf @ take got rest) (drop got rest)))))"
  by pat_completeness auto
termination
  by (relation "measure (\<lambda>(_, _, buf, rest). length buf + 2 * length rest)")
    (auto dest: cut_line_length simp: min_def neq_Nil_conv)

declare iter_bounded_event_lines.simps [simp del]

section \<open>The page\<close>

definition ascii_space :: "8 word \<Rightarrow> bool" where
  "ascii_space b \<longleftrightarrow> b \<in> {9, 10, 11, 12, 13, 32}"

definition corrupt :: protocol_error where
  "corrupt = protocol_refusal INTERNAL ''event evidence is corrupt''"

definition unreadable :: protocol_error where
  "unreadable = protocol_refusal INTERNAL ''event evidence is unreadable''"

definition event_json_size :: "(rat \<Rightarrow> string) \<Rightarrow> pydict \<Rightarrow> protocol_error + int" where
  "event_json_size fr ev =
     (if json_nesting_exceeds_bound (PDict ev) then Inl corrupt
      else case dumps_fmt (fmt_canonical fr) (PDict ev) 0 of None \<Rightarrow> Inl corrupt | Some t \<Rightarrow> Inr (utf8_len t))"

definition response_truncation_marker :: "pydict \<Rightarrow> int \<Rightarrow> pydict" where
  "response_truncation_marker ev seq =
     [(''seq'', PInt seq), (''type'', let t = dget ev ''type'' in if py_truth t then t else PStr ''unknown_update''),
      (''truncated'', PBool True), (''truncate_reason'', PStr ''response_budget'')]"

record page =
  pg_selected :: "pydict list"
  pg_last_seq :: int
  pg_used_bytes :: int

datatype page_step = Continue page | Break page bool \<comment> \<open>whether it stopped early\<close> | Raise protocol_error

text \<open>The body of the loop for an event past the cursor.\<close>

definition take_event :: "(rat \<Rightarrow> string) \<Rightarrow> int \<Rightarrow> page \<Rightarrow> pydict \<Rightarrow> int \<Rightarrow> page_step" where
  "take_event fr limit p ev seq =
     (case event_json_size fr ev of
        Inl x \<Rightarrow> Raise x
      | Inr ev_bytes \<Rightarrow>
          (let separator = if pg_selected p = [] then 0 else 1 in
           if MAX_EVENTS_RESPONSE_BYTES < pg_used_bytes p + separator + ev_bytes then
             (if pg_selected p = [] then
                (let marker = response_truncation_marker ev seq in
                 case event_json_size fr marker of
                   Inl x \<Rightarrow> Raise x
                 | Inr marker_size \<Rightarrow>
                     if MAX_EVENTS_RESPONSE_BYTES < pg_used_bytes p + marker_size
                     then Raise (protocol_refusal INTERNAL ''event evidence exceeds response budget'')
                     else Break \<lparr>pg_selected = [marker], pg_last_seq = seq, pg_used_bytes = pg_used_bytes p + marker_size\<rparr> True)
              else Break p True)
           else
             (let p' = \<lparr>pg_selected = pg_selected p @ [ev], pg_last_seq = seq, pg_used_bytes = pg_used_bytes p + separator + ev_bytes\<rparr> in
              if limit \<le> int (length (pg_selected p')) then Break p' False else Continue p')))"

definition page_line :: "(bytes \<Rightarrow> pyval option) \<Rightarrow> (rat \<Rightarrow> string) \<Rightarrow> int \<Rightarrow> int \<Rightarrow> page \<Rightarrow> bytes \<Rightarrow> page_step" where
  "page_line loads fr from_seq limit p raw =
     (if list_all ascii_space raw then Continue p
      else case loads raw of
             Some (PDict ev) \<Rightarrow>
               (case dget ev ''seq'' of
                  PInt seq \<Rightarrow>
                    (if seq \<le> from_seq then Continue p
                     else if pg_selected p \<noteq> [] \<and> seq \<le> pg_last_seq p then Raise corrupt
                     else take_event fr limit p ev seq)
                | _ \<Rightarrow> Raise corrupt)
           | _ \<Rightarrow> Raise corrupt)"

fun page_lines :: "(bytes \<Rightarrow> pyval option) \<Rightarrow> (rat \<Rightarrow> string) \<Rightarrow> int \<Rightarrow> int \<Rightarrow> page \<Rightarrow> bytes list \<times> lines_end \<Rightarrow>
    protocol_error + page \<times> bool" where
  "page_lines loads fr from_seq limit p ([], Lines_Done) = Inr (p, False)"
| "page_lines loads fr from_seq limit p ([], Line_Too_Long) =
     Inl (protocol_refusal INTERNAL ''event evidence line exceeds bound'')"
| "page_lines loads fr from_seq limit p ([], Read_Failed) = Inl unreadable"
| "page_lines loads fr from_seq limit p (raw # ls, e) =
     (case page_line loads fr from_seq limit p raw of
        Continue p' \<Rightarrow> page_lines loads fr from_seq limit p' (ls, e)
      | Break p' early \<Rightarrow> Inr (p', early)
      | Raise x \<Rightarrow> Inl x)"

datatype stat_answer = Stat_Missing | Stat_Error | Stat_Link | Stat_Regular | Stat_Other

record events_file =
  ef_lstat :: stat_answer
  ef_open :: bool
  ef_fstat :: stat_answer
  ef_reads :: "nat \<Rightarrow> nat option"
  ef_content :: bytes

definition read_events_page ::
  "(bytes \<Rightarrow> pyval option) \<Rightarrow> (rat \<Rightarrow> string) \<Rightarrow> events_file \<Rightarrow> int \<Rightarrow> int \<Rightarrow> protocol_error + pydict list \<times> int \<times> bool" where
  "read_events_page loads fr f from_seq limit =
     (if ef_lstat f = Stat_Missing then Inr ([], from_seq, True)
      else if ef_lstat f \<noteq> Stat_Regular then Inl unreadable
      else if \<not> ef_open f then Inl unreadable
      else if ef_fstat f \<noteq> Stat_Regular then Inl unreadable
      else
        (case page_lines loads fr from_seq limit \<lparr>pg_selected = [], pg_last_seq = from_seq, pg_used_bytes = 2\<rparr>
                (iter_bounded_event_lines (ef_reads f) 0 [] (ef_content f)) of
           Inl x \<Rightarrow> Inl x
         | Inr (p, early) \<Rightarrow>
             Inr (pg_selected p, pg_last_seq p, \<not> early \<and> int (length (pg_selected p)) < limit)))"

section \<open>Framing\<close>

definition page_body :: "string \<Rightarrow> pydict list \<Rightarrow> int \<Rightarrow> bool \<Rightarrow> pydict" where
  "page_body run_id events next_from_seq exhausted =
     [(''run_id'', PStr run_id), (''events'', PList (map PDict events)), (''next_from_seq'', PInt next_from_seq),
      (''exhausted'', PBool exhausted)]"

definition follow_body :: "string \<Rightarrow> pydict list \<Rightarrow> pydict" where
  "follow_body run_id events =
     [(''run_id'', PStr run_id), (''events'', PList (map PDict events)), (''follow'', PBool True)] @
     (case events of [] \<Rightarrow> [] | ev # _ \<Rightarrow> [(''seq'', dget ev ''seq'')])"

definition ensure_events_page_encodes :: "(rat \<Rightarrow> string) \<Rightarrow> pydict \<Rightarrow> protocol_error + unit" where
  "ensure_events_page_encodes fr body =
     (case encode_frame fr (PDict (build_result (replicate MAX_REQUEST_ID_CHARS (CHR ''x'')) body)) of
        Inr _ \<Rightarrow> Inr ()
      | Inl err \<Rightarrow>
          Inl (if pe_code err = FRAME_TOO_LARGE then protocol_refusal INTERNAL ''event page exceeds frame bound'' else corrupt))"

end
