(* ===== verification/Run_Queries.thy ===== *)
theory Run_Queries
  imports Submit Event_Pages
begin

text \<open>
  The read and cancel operations of \<^verbatim>\<open>ArsdHandlers\<close> in \<^verbatim>\<open>arsd/handlers.py\<close>: which runs and
  sessions a caller may ask about, and what each operation answers.  The run directory is what its
  readers see of it.  The documents read here for authorization follow links and use the plain decoder,
  so they are modelled by what \<^verbatim>\<open>is_file\<close>, \<^verbatim>\<open>read_text\<close> and \<^verbatim>\<open>json.loads\<close> together answer.
\<close>

section \<open>What the readers see\<close>

datatype soft_file = Not_A_File | Unloadable | Loader_Raises | Loaded pyval

record run_files =
  rv_submission :: soft_file
  rv_spec :: soft_file
  rv_progress :: soft_file
  rv_result :: dentry
  rv_events :: events_file

datatype run_path = Path_Missing | Path_Link | Path_Other | Path_Dir run_files

definition internal_error :: protocol_error where
  "internal_error = protocol_refusal INTERNAL ''internal error''"

definition unknown_run :: protocol_error where
  "unknown_run = protocol_refusal UNKNOWN_RUN ''unknown run''"

definition owner_mismatch :: protocol_error where
  "owner_mismatch = protocol_refusal OWNER_MISMATCH ''owner/namespace is not allowed for this principal''"

definition read_submission :: "soft_file \<Rightarrow> protocol_error + pydict option" where
  "read_submission s =
     (case s of
        Loader_Raises \<Rightarrow> Inl internal_error
      | Loaded (PDict d) \<Rightarrow>
          Inr (if py_eq_int (dget d ''schema_version'') SUBMISSION_SCHEMA_VERSION then Some d else None)
      | _ \<Rightarrow> Inr None)"

definition read_progress :: "soft_file \<Rightarrow> protocol_error + pydict option" where
  "read_progress s =
     (case s of Loader_Raises \<Rightarrow> Inl internal_error | Loaded (PDict d) \<Rightarrow> Inr (Some d) | _ \<Rightarrow> Inr None)"

text \<open>The identity block of a sealed specification, when the file is one.\<close>

definition spec_identity :: "pyval \<Rightarrow> pydict option" where
  "spec_identity v =
     (case v of PDict d \<Rightarrow> (case dget d ''identity'' of PDict i \<Rightarrow> Some i | _ \<Rightarrow> None) | _ \<Rightarrow> None)"

section \<open>Authorization\<close>

definition admit_identity :: "caller \<Rightarrow> pyval \<Rightarrow> pyval \<Rightarrow> protocol_error + unit" where
  "admit_identity c owner namespace =
     (case (owner, namespace) of
        (PStr x, PStr n) \<Rightarrow> ensure ((x, n) \<in> set (ca_owner_namespaces c)) owner_mismatch
      | _ \<Rightarrow> Inl unknown_run)"

text \<open>The submission record, and the identity it or the specification states.\<close>

definition run_owner :: "run_files \<Rightarrow> protocol_error + pydict option \<times> pyval \<times> pyval" where
  "run_owner rf =
     andThen (read_submission (rv_submission rf)) (\<lambda>sub.
       case (sub, rv_spec rf) of
         (_, Loader_Raises) \<Rightarrow> Inl internal_error
       | (Some d, Not_A_File) \<Rightarrow> Inr (sub, dget d ''owner'', dget d ''namespace'')
       | (Some d, Loaded v) \<Rightarrow>
           (case spec_identity v of
              Some i \<Rightarrow>
                if dget i ''owner'' = dget d ''owner'' \<and> dget i ''namespace'' = dget d ''namespace''
                then Inr (sub, dget d ''owner'', dget d ''namespace'') else Inl unknown_run
            | None \<Rightarrow> Inr (sub, dget d ''owner'', dget d ''namespace''))
       | (None, Loaded v) \<Rightarrow>
           (case spec_identity v of Some i \<Rightarrow> Inr (sub, dget i ''owner'', dget i ''namespace'') | None \<Rightarrow> Inl unknown_run)
       | _ \<Rightarrow> Inl unknown_run)"

definition run_dir_of :: "(string \<Rightarrow> run_path) \<Rightarrow> pyval \<Rightarrow> protocol_error + string \<times> run_files" where
  "run_dir_of look run_id =
     (case run_id of
        PStr rid \<Rightarrow>
          if rid = [] then Inl (invalid ''run_id is required'')
          else if \<not> is_safe_run_id rid then Inl (invalid ''run_id is invalid'')
          else (case look rid of Path_Dir rf \<Rightarrow> Inr (rid, rf) | _ \<Rightarrow> Inl unknown_run)
      | _ \<Rightarrow> Inl (invalid ''run_id is required''))"

definition authorize_run :: "caller \<Rightarrow> (string \<Rightarrow> run_path) \<Rightarrow> pyval \<Rightarrow> protocol_error + string \<times> run_files \<times> pydict option" where
  "authorize_run c look run_id =
     andThen (run_dir_of look run_id) (\<lambda>(rid, rf).
     andThen (run_owner rf) (\<lambda>(sub, owner, namespace).
     andThen (admit_identity c owner namespace) (\<lambda>_. Inr (rid, rf, sub))))"

section \<open>Status\<close>

record follow_request =
  fo_run_id :: string
  fo_from_seq :: int
  fo_idle_seconds :: rat

datatype reply =
    Body pydict
  | Follow follow_request
  | Contained string "pydict option" \<comment> \<open>the containment of an untrusted terminal, which ends in its refusal\<close>
  | Error protocol_error

definition query_body :: "protocol_error + reply \<Rightarrow> reply" where
  "query_body x = (case x of Inl e \<Rightarrow> Error e | Inr r \<Rightarrow> r)"

definition query_run_status :: "submit_env \<Rightarrow> caller \<Rightarrow> (string \<Rightarrow> run_path) \<Rightarrow> pydict \<Rightarrow> reply" where
  "query_run_status e c look payload = query_body (
     andThen (authorize_run c look (dget payload ''run_id'')) (\<lambda>(rid, rf, sub).
     andThen (read_progress (rv_progress rf)) (\<lambda>progress.
       let session = pstr_opt (bound_session_id_for_run (se_sha e) rid sub) in
       case terminal_entry (se_float e) (rv_result rf) rid of
         (TERM_INVALID, _) \<Rightarrow> Inr (Contained rid sub)
       | (kind, p) \<Rightarrow>
           (let result = (if kind = TERM_TRUSTED then p else None) in
            if progress = None \<and> result = None then
              Inr (Body [(''run_id'', PStr rid), (''session_id'', session), (''state'', PStr ''accepted''),
                (''accepted_at'', case sub of None \<Rightarrow> PNone | Some d \<Rightarrow> dget d ''accepted_at'')])
            else
              Inr (Body ([(''run_id'', PStr rid), (''session_id'', session)] @
                (case progress of None \<Rightarrow> [] | Some d \<Rightarrow> [(''progress'', PDict d)]) @
                (case result of None \<Rightarrow> [] | Some d \<Rightarrow> [(''result'', PDict d)])))))))"

section \<open>Events\<close>

definition DEFAULT_FOLLOW_IDLE_SECONDS :: rat where
  "DEFAULT_FOLLOW_IDLE_SECONDS = (1 / 4 :: rat)"

text \<open>The double nearest to 0.05.\<close>

definition MIN_FOLLOW_IDLE_SECONDS :: rat where
  "MIN_FOLLOW_IDLE_SECONDS = (3602879701896397 / 72057594037927936 :: rat)"

definition MAX_FOLLOW_IDLE_SECONDS :: rat where
  "MAX_FOLLOW_IDLE_SECONDS = (3600 :: rat)"

definition FOLLOW_IDLE_RANGE_MESSAGE :: string where
  "FOLLOW_IDLE_RANGE_MESSAGE = ''follow_idle_seconds must be a finite number in [0.05, 3600] seconds''"

definition dget_default :: "pydict \<Rightarrow> string \<Rightarrow> pyval \<Rightarrow> pyval" where
  "dget_default d k v = (case map_of d k of None \<Rightarrow> v | Some x \<Rightarrow> x)"

definition int_field :: "pyval \<Rightarrow> int \<Rightarrow> string \<Rightarrow> protocol_error + int" where
  "int_field v least m = (case v of PInt n \<Rightarrow> if n < least then Inl (invalid m) else Inr n | _ \<Rightarrow> Inl (invalid m))"

definition follow_idle :: "pyval \<Rightarrow> protocol_error + rat" where
  "follow_idle v =
     (let bad = Inl (invalid FOLLOW_IDLE_RANGE_MESSAGE);
          in_range = (\<lambda>q. if q < MIN_FOLLOW_IDLE_SECONDS \<or> MAX_FOLLOW_IDLE_SECONDS < q then bad else Inr q)
      in case v of PInt n \<Rightarrow> in_range (of_int n) | PFloat (PFin q) \<Rightarrow> in_range q | _ \<Rightarrow> bad)"

definition run_events ::
  "(bytes \<Rightarrow> pyval option) \<Rightarrow> submit_env \<Rightarrow> int \<Rightarrow> caller \<Rightarrow> (string \<Rightarrow> run_path) \<Rightarrow> pydict \<Rightarrow> reply" where
  "run_events loads e page_limit c look payload = query_body (
     andThen (authorize_run c look (dget payload ''run_id'')) (\<lambda>(rid, rf, sub).
     andThen (int_field (dget_default payload ''from_seq'' (PInt 0)) 0 ''from_seq must be a non-negative integer'') (\<lambda>from_seq.
     andThen (int_field (dget_default payload ''limit'' (PInt page_limit)) 1 ''limit must be a positive integer'') (\<lambda>limit.
       case dget_default payload ''follow'' (PBool False) of
         PBool False \<Rightarrow>
           andThen (read_events_page loads (se_float e) (rv_events rf) from_seq (min limit MAX_EVENTS_PAGE_LIMIT)) (\<lambda>(evs, next_seq, exhausted).
           andThen (ensure_events_page_encodes (se_float e) (page_body rid evs next_seq exhausted)) (\<lambda>_.
             Inr (Body (page_body rid evs next_seq exhausted))))
       | PBool True \<Rightarrow>
           andThen (follow_idle (dget_default payload ''follow_idle_seconds'' (PFloat (PFin DEFAULT_FOLLOW_IDLE_SECONDS)))) (\<lambda>idle.
             Inr (Follow \<lparr>fo_run_id = rid, fo_from_seq = from_seq, fo_idle_seconds = idle\<rparr>))
       | _ \<Rightarrow> Inl (invalid ''follow must be a boolean'')))))"

section \<open>Cancellation\<close>

text \<open>The request is authorized first; the answer is read after the cancellation was awaited.\<close>

definition run_cancel ::
  "submit_env \<Rightarrow> caller \<Rightarrow> (string \<Rightarrow> run_path) \<Rightarrow> (run_files \<Rightarrow> run_files) \<Rightarrow> pydict \<Rightarrow> reply" where
  "run_cancel e c look awaited payload = query_body (
     andThen (authorize_run c look (dget payload ''run_id'')) (\<lambda>(rid, rf, sub).
       case terminal_entry (se_float e) (rv_result (awaited rf)) rid of
         (TERM_INVALID, _) \<Rightarrow> Inr (Contained rid sub)
       | (TERM_TRUSTED, Some p) \<Rightarrow>
           Inr (Body [(''run_id'', PStr rid), (''result'', PDict p), (''status'', dget p ''status'')])
       | _ \<Rightarrow> Inr (Body [(''run_id'', PStr rid)])))"

section \<open>Sessions\<close>

definition authorize_session :: "caller \<Rightarrow> store \<Rightarrow> pyval \<Rightarrow> protocol_error + session_record" where
  "authorize_session c st v =
     (case v of
        PStr sid \<Rightarrow>
          if sid = [] then Inl (invalid ''session_id is required'')
          else if \<not> session_id_ok sid then Inl (invalid ''session_id is not a safe session-store path component'')
          else (case open_session st sid of
                  Inl SessionNotFoundError \<Rightarrow> Inl (protocol_refusal UNKNOWN_SESSION ''unknown session'')
                | Inl _ \<Rightarrow> Inl internal_error
                | Inr r \<Rightarrow>
                    (case (dget r ''owner'', dget r ''namespace'') of
                       (PStr x, PStr n) \<Rightarrow> andThen (ensure ((x, n) \<in> set (ca_owner_namespaces c)) owner_mismatch) (\<lambda>_. Inr r)
                     | _ \<Rightarrow> Inl (protocol_refusal UNKNOWN_SESSION ''unknown session'')))
      | _ \<Rightarrow> Inl (invalid ''session_id is required''))"

definition session_view :: "session_record \<Rightarrow> pydict" where
  "session_view r =
     [(''session_id'', dget r ''session_id''), (''owner'', dget r ''owner''), (''namespace'', dget r ''namespace''),
      (''agent_id'', dget r ''native_agent_id''), (''profile_id'', dget r ''native_profile_id''),
      (''created_at'', dget r ''created_at''), (''updated_at'', dget r ''updated_at''),
      (''last_effective_model'', dget r ''last_effective_model''), (''last_effective_effort'', dget r ''last_effective_effort''),
      (''quarantine'', dget r ''quarantine'')]"

definition session_status :: "caller \<Rightarrow> store \<Rightarrow> pydict \<Rightarrow> reply" where
  "session_status c st payload = query_body (
     andThen (authorize_session c st (dget payload ''session_id'')) (\<lambda>r. Inr (Body (session_view r))))"

text \<open>\<^verbatim>\<open>list_records\<close> over the directory's names in order; one unreadable record ends the listing.\<close>

fun list_records :: "store \<Rightarrow> string list \<Rightarrow> session_error + session_record list" where
  "list_records st [] = Inr []"
| "list_records st (sid # sids) =
     (case path_exists (session_json (st sid)) of
        Inl x \<Rightarrow> Inl x
      | Inr False \<Rightarrow> list_records st sids
      | Inr True \<Rightarrow>
          (case read_record (session_json (st sid)) of
             Inl x \<Rightarrow> Inl x
           | Inr r \<Rightarrow> map_sum id (\<lambda>rs. r # rs) (list_records st sids)))"

text \<open>A tuple is looked up by its hash, which an array or an object has not.\<close>


fun list_views :: "caller \<Rightarrow> session_record list \<Rightarrow> protocol_error + pydict list" where
  "list_views c [] = Inr []"
| "list_views c (r # rs) =
     (let x = dget r ''owner''; n = dget r ''namespace'' in
      if x = PNone \<or> n = PNone then list_views c rs
      else if \<not> py_hashable x \<or> \<not> py_hashable n then Inl internal_error
      else (case (x, n) of
              (PStr xs, PStr ns) \<Rightarrow>
                if (xs, ns) \<in> set (ca_owner_namespaces c) then map_sum id (\<lambda>vs. session_view r # vs) (list_views c rs)
                else list_views c rs
            | _ \<Rightarrow> list_views c rs))"

definition session_list :: "caller \<Rightarrow> store \<Rightarrow> string list \<Rightarrow> reply" where
  "session_list c st sids =
     (case list_records st sids of
        Inl _ \<Rightarrow> Error internal_error
      | Inr rs \<Rightarrow>
          (case list_views c rs of Inl x \<Rightarrow> Error x | Inr vs \<Rightarrow> Body [(''sessions'', PList (map PDict vs))]))"

section \<open>Dispatch\<close>

definition payload_fields :: "string \<Rightarrow> string list option" where
  "payload_fields op =
     map_of [(''server_info'', []), (''session_list'', []), (''agent_list'', []), (''run_status'', [''run_id'']),
       (''run_cancel'', [''run_id'']), (''run_events'', [''run_id'', ''from_seq'', ''limit'', ''follow'', ''follow_idle_seconds'']),
       (''session_status'', [''session_id''])] op"

definition require_closed_payload :: "string \<Rightarrow> pydict \<Rightarrow> protocol_error + unit" where
  "require_closed_payload op payload =
     (case payload_fields op of
        None \<Rightarrow> Inr ()
      | Some allowed \<Rightarrow> ensure (list_all (\<lambda>p. fst p \<in> set allowed) payload) (invalid ''unknown payload fields present''))"

record query_env =
  qe_loads :: "bytes \<Rightarrow> pyval option"
  qe_page_limit :: int
  qe_runs :: "string \<Rightarrow> run_path"
  qe_awaited :: "run_files \<Rightarrow> run_files"
  qe_store :: store
  qe_session_ids :: "string list"

text \<open>The operations on runs and sessions, as the dispatcher calls them.\<close>

definition handle_query :: "submit_env \<Rightarrow> query_env \<Rightarrow> caller \<Rightarrow> string \<Rightarrow> pydict \<Rightarrow> reply option" where
  "handle_query e w c op payload =
     (case require_closed_payload op payload of
        Inl x \<Rightarrow> Some (Error x)
      | Inr _ \<Rightarrow>
          if op = ''run_status'' then Some (query_run_status e c (qe_runs w) payload)
          else if op = ''run_events'' then Some (run_events (qe_loads w) e (qe_page_limit w) c (qe_runs w) payload)
          else if op = ''run_cancel'' then Some (run_cancel e c (qe_runs w) (qe_awaited w) payload)
          else if op = ''session_status'' then Some (session_status c (qe_store w) payload)
          else if op = ''session_list'' then Some (session_list c (qe_store w) (qe_session_ids w))
          else None)"

end
