(* ===== verification/Run_Queries_Props.thy ===== *)
theory Run_Queries_Props
  imports Run_Queries Submit_Runs
begin

text \<open>
  The read operations: they answer only about the caller's own runs and sessions, and what they say of a
  freshly accepted run is what its submission was told.
\<close>

section \<open>Tenancy\<close>

text \<open>The identity a run directory attests: that of its submission record, or of its sealed
  specification when it has no readable record.\<close>

definition texts_of :: "pydict \<Rightarrow> (string \<times> string) option" where
  "texts_of d = (case (dget d ''owner'', dget d ''namespace'') of (PStr x, PStr n) \<Rightarrow> Some (x, n) | _ \<Rightarrow> None)"

definition attested :: "run_files \<Rightarrow> (string \<times> string) option" where
  "attested rf =
     (case read_submission (rv_submission rf) of
        Inl _ \<Rightarrow> None
      | Inr (Some d) \<Rightarrow> texts_of d
      | Inr None \<Rightarrow>
          (case rv_spec rf of
             Loaded v \<Rightarrow> (case spec_identity v of Some i \<Rightarrow> texts_of i | None \<Rightarrow> None)
           | _ \<Rightarrow> None))"

definition foreign :: "caller \<Rightarrow> run_files \<Rightarrow> bool" where
  "foreign c rf \<longleftrightarrow> (case attested rf of None \<Rightarrow> True | Some i \<Rightarrow> i \<notin> set (ca_owner_namespaces c))"

lemma admit_identity_Inr:
  "admit_identity c x n = Inr u \<longleftrightarrow> (\<exists>a b. x = PStr a \<and> n = PStr b \<and> (a, b) \<in> set (ca_owner_namespaces c))"
  by (auto simp: admit_identity_def split: pyval.splits)

lemma admit_identity_Inl: "admit_identity c x n = Inl err \<Longrightarrow> err \<in> {unknown_run, owner_mismatch}"
  by (auto simp: admit_identity_def split: pyval.splits)

lemma run_owner_sound:
  assumes "run_owner rf = Inr (sub, x, n)"
  shows "read_submission (rv_submission rf) = Inr sub \<and>
    attested rf = (case (x, n) of (PStr a, PStr b) \<Rightarrow> Some (a, b) | _ \<Rightarrow> None)"
proof -
  obtain sub' where sub: "read_submission (rv_submission rf) = Inr sub'"
    using assms by (auto simp: run_owner_def andThen_Inr)
  then show ?thesis using assms
    by (cases sub'; cases "rv_spec rf") (auto simp: run_owner_def attested_def texts_of_def split: option.splits if_splits pyval.splits)
qed

lemma run_dir_of_sound: "run_dir_of look v = Inr (rid, rf) \<Longrightarrow> v = PStr rid \<and> is_safe_run_id rid \<and> look rid = Path_Dir rf"
  by (auto simp: run_dir_of_def split: pyval.splits if_splits run_path.splits)

lemma authorize_run_sound:
  assumes "authorize_run c look v = Inr (rid, rf, sub)"
  shows "v = PStr rid \<and> is_safe_run_id rid \<and> look rid = Path_Dir rf \<and> \<not> foreign c rf \<and> read_submission (rv_submission rf) = Inr sub"
proof -
  obtain x n where "run_dir_of look v = Inr (rid, rf)" "run_owner rf = Inr (sub, x, n)" "admit_identity c x n = Inr ()"
    using assms by (auto simp: authorize_run_def andThen_Inr)
  then show ?thesis using run_dir_of_sound run_owner_sound by (fastforce simp: admit_identity_Inr foreign_def)
qed

text \<open>Refusals carry nothing of the directory.\<close>

definition plain_refusals :: "protocol_error set" where
  "plain_refusals = {unknown_run, owner_mismatch, internal_error, invalid ''run_id is required'', invalid ''run_id is invalid''}"

lemma read_submission_Inl: "read_submission s = Inl err \<Longrightarrow> err = internal_error"
  by (auto simp: read_submission_def split: soft_file.splits pyval.splits)

lemma run_owner_Inl: "run_owner rf = Inl err \<Longrightarrow> err \<in> {unknown_run, internal_error}"
  by (cases "read_submission (rv_submission rf)"; cases "rv_spec rf")
    (auto simp: run_owner_def dest: read_submission_Inl split: option.splits if_splits)

lemma run_dir_of_Inl: "run_dir_of look v = Inl err \<Longrightarrow> err \<in> plain_refusals"
  by (auto simp: run_dir_of_def plain_refusals_def split: pyval.splits if_splits run_path.splits)

lemma authorize_run_refusal: "authorize_run c look v = Inl err \<Longrightarrow> err \<in> plain_refusals"
  unfolding authorize_run_def andThen_Inl
  by (auto simp: plain_refusals_def andThen_Inl dest!: admit_identity_Inl run_owner_Inl run_dir_of_Inl)

lemma foreign_refused:
  assumes "look rid = Path_Dir rf" "foreign c rf" "v = PStr rid"
  obtains err where "authorize_run c look v = Inl err" "err \<in> plain_refusals"
proof (cases "authorize_run c look v")
  case (Inl err)
  then show thesis using that authorize_run_refusal by blast
next
  case (Inr x)
  then show thesis using authorize_run_sound [of c look v] assms by (cases x) auto
qed

definition owned :: "caller \<Rightarrow> session_record \<Rightarrow> bool" where
  "owned c r \<longleftrightarrow> (\<exists>i. texts_of r = Some i \<and> i \<in> set (ca_owner_namespaces c))"

lemma list_views_own:
  "list_views c rs = Inr vs \<Longrightarrow>
    vs = map session_view (filter (owned c) rs)"
proof (induction rs arbitrary: vs)
  case (Cons r rs)
  show ?case
  proof (cases "owned c r")
    case True
    then obtain x n where "dget r ''owner'' = PStr x" "dget r ''namespace'' = PStr n" "(x, n) \<in> set (ca_owner_namespaces c)"
        "texts_of r = Some (x, n)"
      by (auto simp: owned_def texts_of_def split: pyval.splits)
    then show ?thesis using Cons True by (cases "list_views c rs") auto
  next
    case False
    then have "list_views c rs = Inr vs"
      using Cons.prems by (auto simp: Let_def owned_def texts_of_def split: if_splits pyval.splits)
    then show ?thesis using False Cons.IH by auto
  qed
qed simp

lemma authorize_session_sound:
  assumes "authorize_session c st v = Inr r"
  shows "\<exists>sid. v = PStr sid \<and> open_session st sid = Inr r \<and> owned c r"
proof (cases v)
  case (PStr sid)
  then show ?thesis using assms
    by (cases "open_session st sid")
      (auto simp: authorize_session_def andThen_Inr owned_def texts_of_def split: if_splits session_error.splits pyval.splits)
qed (use assms in \<open>auto simp: authorize_session_def\<close>)

lemma query_body_cases: "query_body x = r \<Longrightarrow> (\<And>err. r \<noteq> Error err) \<Longrightarrow> x = Inr r"
  by (auto simp: query_body_def split: sum.splits)

lemma run_query_authorized:
  assumes "query_body (andThen (authorize_run c look v) k) = r" "\<And>err. r \<noteq> Error err"
  shows "\<exists>rid rf. v = PStr rid \<and> look rid = Path_Dir rf \<and> \<not> foreign c rf"
proof -
  obtain x where "authorize_run c look v = Inr x" using query_body_cases [OF assms] by (auto simp: andThen_Inr)
  then show ?thesis using authorize_run_sound [of c look v] by (cases x) blast
qed

lemma handle_query_cases:
  assumes "handle_query e w c op payload = Some r" "\<And>err. r \<noteq> Error err"
  obtains (status) "op = ''run_status''" "r = query_run_status e c (qe_runs w) payload"
  | (events) "op = ''run_events''" "r = run_events (qe_loads w) e (qe_page_limit w) c (qe_runs w) payload"
  | (cancel) "op = ''run_cancel''" "r = run_cancel e c (qe_runs w) (qe_awaited w) payload"
  | (session) "op = ''session_status''" "r = session_status c (qe_store w) payload"
  | (list) "op = ''session_list''" "r = session_list c (qe_store w) (qe_session_ids w)"
  using assms by (auto simp: handle_query_def split: sum.splits if_splits)

text \<open>C17. Every answer stays with its tenant.  Whatever the operation and its payload, an answer that is
  not an error is about a run directory whose attested identity is one of the caller's, or about a
  session record with such an identity; and the session list is exactly the views of those records.\<close>

theorem answers_stay_with_tenant:
  assumes "handle_query e w c op payload = Some r" "\<And>err. r \<noteq> Error err"
  shows "op \<in> {''run_status'', ''run_events'', ''run_cancel''} \<and>
      (\<exists>rid rf. dget payload ''run_id'' = PStr rid \<and> qe_runs w rid = Path_Dir rf \<and> \<not> foreign c rf) \<or>
    op = ''session_status'' \<and>
      (\<exists>sid s. dget payload ''session_id'' = PStr sid \<and> open_session (qe_store w) sid = Inr s \<and> owned c s \<and> r = Body (session_view s)) \<or>
    op = ''session_list'' \<and>
      (\<exists>rs. list_records (qe_store w) (qe_session_ids w) = Inr rs \<and>
        r = Body [(''sessions'', PList (map PDict (map session_view (filter (owned c) rs))))])"
proof -
  note authorized = run_query_authorized [of c "qe_runs w" "dget payload ''run_id''" _ r, OF _ assms(2)]
  from assms show ?thesis
  proof (cases rule: handle_query_cases)
    case status
    then show ?thesis using authorized [OF status(2) [unfolded query_run_status_def, symmetric]] by blast
  next
    case events
    then show ?thesis using authorized [OF events(2) [unfolded run_events_def, symmetric]] by blast
  next
    case cancel
    then show ?thesis using authorized [OF cancel(2) [unfolded run_cancel_def, symmetric]] by blast
  next
    case session
    then have "andThen (authorize_session c (qe_store w) (dget payload ''session_id'')) (\<lambda>r. Inr (Body (session_view r))) = Inr r"
      using query_body_cases [of _ r] assms(2) by (simp add: session_status_def)
    then obtain s where s: "authorize_session c (qe_store w) (dget payload ''session_id'') = Inr s" "r = Body (session_view s)"
      by (auto simp: andThen_Inr)
    then obtain sid where "dget payload ''session_id'' = PStr sid" "open_session (qe_store w) sid = Inr s" "owned c s"
      using authorize_session_sound [OF s(1)] by blast
    then have "\<exists>sid s. dget payload ''session_id'' = PStr sid \<and> open_session (qe_store w) sid = Inr s \<and> owned c s \<and> r = Body (session_view s)"
      using s(2) by blast
    then show ?thesis using session(1) by simp
  next
    case list
    obtain rs where rs: "list_records (qe_store w) (qe_session_ids w) = Inr rs"
      using list(2) assms(2) by (cases "list_records (qe_store w) (qe_session_ids w)") (auto simp: session_list_def)
    moreover obtain vs where vs: "list_views c rs = Inr vs"
      using list(2) assms(2) rs by (cases "list_views c rs") (auto simp: session_list_def)
    moreover have "r = Body [(''sessions'', PList (map PDict vs))]" using list(2) rs vs by (simp add: session_list_def)
    moreover have "vs = map session_view (filter (owned c) rs)" by (rule list_views_own [OF vs])
    ultimately have "\<exists>rs. list_records (qe_store w) (qe_session_ids w) = Inr rs \<and>
        r = Body [(''sessions'', PList (map PDict (map session_view (filter (owned c) rs))))]" by blast
    then show ?thesis using list(1) by simp
  qed
qed

definition demo_view :: "pyval \<Rightarrow> run_files" where
  "demo_view sub =
     \<lparr>rv_submission = Loaded sub, rv_spec = Not_A_File, rv_progress = Not_A_File, rv_result = Absent,
      rv_events = \<lparr>ef_lstat = Stat_Missing, ef_open = False, ef_fstat = Stat_Error, ef_reads = (\<lambda>_. None), ef_content = []\<rparr>\<rparr>"

definition demo_queries :: query_env where
  "demo_queries =
     \<lparr>qe_loads = (\<lambda>_. None), qe_page_limit = 100,
      qe_runs = (\<lambda>_. Path_Dir (demo_view (PDict [(''schema_version'', PInt 4), (''owner'', PStr ''o''), (''namespace'', PStr ''n'')]))),
      qe_awaited = id, qe_store = (\<lambda>_. empty_sdir), qe_session_ids = []\<rparr>"

theorem answers_stay_with_tenant_witness:
  "\<exists>rf. qe_runs demo_queries ''r1'' = Path_Dir rf \<and> \<not> foreign demo_caller rf"
proof -
  have "case handle_query demo_submit_env demo_queries demo_caller ''run_status'' [(''run_id'', PStr ''r1'')] of
      Some (Body b) \<Rightarrow> True | _ \<Rightarrow> False" by code_simp
  then obtain b where "handle_query demo_submit_env demo_queries demo_caller ''run_status'' [(''run_id'', PStr ''r1'')] = Some (Body b)"
    by (auto split: option.splits reply.splits)
  from answers_stay_with_tenant [OF this] show ?thesis by (auto simp: dget_def)
qed

section \<open>An accepted run is visible to its submitter\<close>

lemma begin_submit_owner:
  assumes "begin_submit e c r = Inr q"
  shows "(sf_owner (fields_of q), sf_namespace (fields_of q)) \<in> set (ca_owner_namespaces c)"
  using assms
  by (auto simp: begin_submit_def andThen_Inr require_owner_def fields_of_def submit_fields_of_def Let_def split: option.splits)

lemma submission_binds_session:
  assumes "env_ok e" "req_ok q" "sf_agent_id (fields_of q) \<noteq> []" "now \<noteq> []"
  shows "bound_session_id_for_run (se_sha e) (run_of e q) (Some (submission_of e q now)) = Some (tracked_session_id e q)"
proof -
  have "submit_fields_ok (fields_of q)" "admission_key_ok (sq_key q)" "0 < se_policy e"
      "se_policy e \<le> STRUCTURAL_MAX_RUN_EVENT_BUDGET_BYTES" using assms by (auto simp: req_ok_def env_ok_def)
  from submission_reads_back [OF this(2,1) run_of_nonempty assms(4) this(3,4) refl, where p = "sq_peer q" and sha = "se_sha e"]
  obtain sid where sid: "case sf_session_id (fields_of q) of Some s \<Rightarrow> sid = s | None \<Rightarrow> derive_session_id_for_run (se_sha e) (run_of e q) = Inr sid"
      "bound_session_id_for_run (se_sha e) (run_of e q) (Some (submission_of e q now)) = Some sid"
    unfolding submission_of_def by blast
  then show ?thesis by (auto simp: tracked_session_id_def split: option.splits)
qed

text \<open>What a submission was told can be asked for: as long as nothing but its submission record is on
  disk, the status of an accepted run, asked by the submitter, is accepted, with the session and the
  acceptance time of the submission's answer.\<close>

theorem accepted_run_visible:
  assumes "env_ok e" "begin_submit e c r = Inr q" "sf_agent_id (fields_of q) \<noteq> []" "now \<noteq> []"
    "look (run_of e q) = Path_Dir rf" "rv_submission rf = Loaded (PDict (submission_of e q now))"
    "rv_spec rf = Not_A_File" "rv_progress rf = Not_A_File" "rv_result rf = Absent"
  shows "query_run_status e c look [(''run_id'', PStr (run_of e q))] =
    Body [(''run_id'', PStr (run_of e q)), (''session_id'', PStr (tracked_session_id e q)), (''state'', PStr ''accepted''),
      (''accepted_at'', PStr now)]"
proof -
  let ?d = "submission_of e q now" and ?f = "fields_of q"
  note ok = begin_submit_ok [OF assms(1,2)]
  have get: "dget ?d ''schema_version'' = PInt SUBMISSION_SCHEMA_VERSION" "dget ?d ''owner'' = PStr (sf_owner ?f)"
      "dget ?d ''namespace'' = PStr (sf_namespace ?f)" "dget ?d ''accepted_at'' = PStr now"
    by (simp_all add: submission_of_def dget_submission)
  have sub: "read_submission (rv_submission rf) = Inr (Some ?d)" using assms(6) get(1) by (simp add: read_submission_def py_eq_int_def)
  have "is_safe_run_id (run_of e q)"
    using derived_run_id_safe [of "se_shab e" "se_sha e" "sq_key q"] assms(1) by (simp add: env_ok_def run_of_def)
  then have "run_dir_of look (PStr (run_of e q)) = Inr (run_of e q, rf)"
    using assms(5) run_of_nonempty by (simp add: run_dir_of_def)
  moreover have "run_owner rf = Inr (Some ?d, PStr (sf_owner ?f), PStr (sf_namespace ?f))"
    using assms(7) get by (simp add: run_owner_def sub)
  moreover have "admit_identity c (PStr (sf_owner ?f)) (PStr (sf_namespace ?f)) = Inr ()"
    using begin_submit_owner [OF assms(2)] by (simp add: admit_identity_Inr)
  ultimately have auth: "authorize_run c look (PStr (run_of e q)) = Inr (run_of e q, rf, Some ?d)"
    by (simp add: authorize_run_def)
  have "bound_session_id_for_run (se_sha e) (run_of e q) (Some ?d) = Some (tracked_session_id e q)"
    by (rule submission_binds_session [OF assms(1) ok assms(3,4)])
  then show ?thesis using auth assms(8,9) get(4)
    by (simp add: query_run_status_def query_body_def read_progress_def terminal_entry_def dget_def)
qed

theorem accepted_run_visible_witness:
  "\<exists>b. query_run_status demo_submit_env demo_caller (\<lambda>_. Path_Dir (demo_view (PDict (submission_of demo_submit_env (demo_req ''a'') ''t''))))
      [(''run_id'', PStr (run_of demo_submit_env (demo_req ''a'')))] = Body b \<and>
    dget b ''session_id'' = PStr (tracked_session_id demo_submit_env (demo_req ''a''))"
  using accepted_run_visible [OF demo_env_ok demo_begin, of "''a''" "''t''" "\<lambda>_. Path_Dir (demo_view (PDict (submission_of demo_submit_env (demo_req ''a'') ''t'')))"]
    agent_nonempty demo_can_accept
  by (auto simp: demo_view_def can_accept_def dget_def)

end
