(* ===== verification/Event_Pages_Props.thy ===== *)
theory Event_Pages_Props
  imports Event_Pages Protocol_Props "HOL-Library.Multiset"
begin

text \<open>
  The paged reading of the event ledger: the line reader is exact over any short reads, a page stays
  within its budgets and frames, and pages chained by their cursors deliver every event once, in order.
\<close>

section \<open>The line reader\<close>

text \<open>The lines of a file, and those the reader may yield.\<close>

fun split_lines :: "bytes \<Rightarrow> bytes \<Rightarrow> bytes list" where
  "split_lines acc [] = (if acc = [] then [] else [acc])"
| "split_lines acc (b # bs) = (if b = 10 then acc # split_lines [] bs else split_lines (acc @ [b]) bs)"

definition bounded_lines :: "bytes list \<Rightarrow> bytes list \<times> lines_end" where
  "bounded_lines ls =
     (takeWhile (\<lambda>l. length l \<le> MAX_EVENT_LINE_BYTES) ls,
      if list_all (\<lambda>l. length l \<le> MAX_EVENT_LINE_BYTES) ls then Lines_Done else Line_Too_Long)"

lemma cut_line_Some: "cut_line bs = Some (l, r) \<Longrightarrow> split_lines acc (bs @ rest) = (acc @ l) # split_lines [] (r @ rest)"
  by (induction bs arbitrary: acc l r) (auto split: if_splits)

lemma cut_line_None: "cut_line bs = None \<Longrightarrow> split_lines acc (bs @ rest) = split_lines (acc @ bs) rest"
  by (induction bs arbitrary: acc) (auto split: if_splits)

lemma split_lines_long: "MAX_EVENT_LINE_BYTES < length acc \<Longrightarrow>
    \<exists>l ls. split_lines acc rest = l # ls \<and> MAX_EVENT_LINE_BYTES < length l"
  by (induction acc rest rule: split_lines.induct) auto

lemma bounded_lines_Cons:
  "bounded_lines (l # ls) =
     (if length l \<le> MAX_EVENT_LINE_BYTES then (case bounded_lines ls of (xs, e) \<Rightarrow> (l # xs, e)) else ([], Line_Too_Long))"
  by (simp add: bounded_lines_def)

lemma iter_exact:
  assumes "\<And>k. reads k \<noteq> None"
  shows "iter_bounded_event_lines reads k buf rest = bounded_lines (split_lines [] (buf @ rest))"
  using assms
proof (induction reads k buf rest rule: iter_bounded_event_lines.induct)
  case (1 reads k buf rest)
  show ?case
  proof (cases "cut_line buf")
    case (Some p)
    then obtain l r where p: "cut_line buf = Some (l, r)" by (cases p) auto
    show ?thesis
      using "1.IH"(2) [OF p refl] 1(3) cut_line_Some [OF p, of "[]" rest]
      by (subst iter_bounded_event_lines.simps) (auto simp: p bounded_lines_Cons)
  next
    case None
    obtain n where n: "reads k = Some n" using 1(3) by blast
    show ?thesis
      using "1.IH"(1) [OF None _ n _ refl] 1(3) n cut_line_None [OF None, of "[]" rest] split_lines_long [of buf rest]
      by (subst iter_bounded_event_lines.simps) (auto simp: None bounded_lines_def Let_def)
  qed
qed

section \<open>The text of a page\<close>

lemma dumps_level: "\<not> jf_indent f \<Longrightarrow> dumps_fmt f v l = dumps_fmt f v l'"
proof (induction v arbitrary: l l')
  case (PList xs)
  then have "map (\<lambda>g. g (Suc l)) (map (dumps_fmt f) xs) = map (\<lambda>g. g (Suc l')) (map (dumps_fmt f) xs)"
    by (simp add: list.map_comp)
  moreover have "bracketed f l = bracketed f l'" using PList(2) by (simp add: bracketed_def line_break_def fun_eq_iff)
  ultimately show ?case by (simp only: dumps_fmt.simps)
next
  case (PDict d)
  have "map_option (\<lambda>t. jf_string f (fst p) @ jf_key f @ t) (snd p (Suc l)) = map_option (\<lambda>t. jf_string f (fst p) @ jf_key f @ t) (snd p (Suc l'))"
    if mem: "p \<in> set (sort_key fst (map (map_prod id (dumps_fmt f)) d))" for p
  proof -
    obtain k v where "(k, v) \<in> set d" "p = (k, dumps_fmt f v)" using mem by auto
    then show ?thesis using PDict.IH [of "(k, v)" v "Suc l" "Suc l'"] PDict.prems by simp
  qed
  then have "map (\<lambda>p. map_option (\<lambda>t. jf_string f (fst p) @ jf_key f @ t) (snd p (Suc l))) (sort_key fst (map (map_prod id (dumps_fmt f)) d)) =
      map (\<lambda>p. map_option (\<lambda>t. jf_string f (fst p) @ jf_key f @ t) (snd p (Suc l'))) (sort_key fst (map (map_prod id (dumps_fmt f)) d))"
    by (intro map_cong) auto
  moreover have "bracketed f l = bracketed f l'" using PDict(2) by (simp add: bracketed_def line_break_def fun_eq_iff)
  ultimately show ?case by (simp only: dumps_fmt.simps)
qed auto

text \<open>The serialized size of an array of objects.\<close>

fun items_size :: "int list \<Rightarrow> int" where
  "items_size [] = 0"
| "items_size [n] = n"
| "items_size (n # ns) = n + 1 + items_size ns"

lemma items_size_snoc: "items_size (ns @ [n]) = items_size ns + (if ns = [] then 0 else 1) + n"
  by (induction ns rule: items_size.induct) auto

lemma join_size: "utf8_len sep = 1 \<Longrightarrow> utf8_len (join_with sep ts) = items_size (map utf8_len ts)"
  by (induction sep ts rule: join_with.induct) (auto simp: utf8_len_append)

text \<open>What a page says of its used bytes: two brackets, the events and the commas between them.\<close>

definition event_size :: "(rat \<Rightarrow> string) \<Rightarrow> pydict \<Rightarrow> int" where
  "event_size fr ev = (case event_json_size fr ev of Inr n \<Rightarrow> n | Inl _ \<Rightarrow> 0)"

definition sized :: "(rat \<Rightarrow> string) \<Rightarrow> pydict \<Rightarrow> bool" where
  "sized fr ev \<longleftrightarrow> (\<exists>n. event_json_size fr ev = Inr n)"

definition page_ok :: "(rat \<Rightarrow> string) \<Rightarrow> page \<Rightarrow> bool" where
  "page_ok fr p \<longleftrightarrow>
     list_all (sized fr) (pg_selected p) \<and> pg_used_bytes p = 2 + items_size (map (event_size fr) (pg_selected p)) \<and>
     pg_used_bytes p \<le> MAX_EVENTS_RESPONSE_BYTES"

lemma sized_text: "sized fr ev \<Longrightarrow> \<exists>t. dumps_fmt (fmt_canonical fr) (PDict ev) l = Some t \<and> utf8_len t = event_size fr ev"
  using dumps_level [of "fmt_canonical fr" "PDict ev" l 0]
  by (auto simp: sized_def event_size_def event_json_size_def fmt_canonical_def simp del: dumps_fmt.simps split: if_splits option.splits)

lemma sized_texts:
  "list_all (sized fr) evs \<Longrightarrow> \<exists>ts. opt_seq (map (\<lambda>g. g l) (map (dumps_fmt (fmt_canonical fr)) (map PDict evs))) = Some ts \<and>
     map utf8_len ts = map (event_size fr) evs"
proof (induction evs)
  case (Cons ev evs)
  then obtain ts where "opt_seq (map (\<lambda>g. g l) (map (dumps_fmt (fmt_canonical fr)) (map PDict evs))) = Some ts"
      "map utf8_len ts = map (event_size fr) evs" by auto
  moreover obtain t where "dumps_fmt (fmt_canonical fr) (PDict ev) l = Some t" "utf8_len t = event_size fr ev"
    using Cons.prems sized_text [of fr ev l] by auto
  ultimately show ?case by (auto simp del: dumps_fmt.simps)
qed simp

lemma array_text:
  assumes "list_all (sized fr) evs"
  shows "\<exists>t. dumps_fmt (fmt_canonical fr) (PList (map PDict evs)) l = Some t \<and> utf8_len t = 2 + items_size (map (event_size fr) evs)"
proof -
  obtain ts where ts: "opt_seq (map (\<lambda>g. g (Suc l)) (map (dumps_fmt (fmt_canonical fr)) (map PDict evs))) = Some ts"
      "map utf8_len ts = map (event_size fr) evs" using sized_texts [OF assms] by blast
  have "utf8_len (bracketed (fmt_canonical fr) l ''['' '']'' ts) = 2 + items_size (map (event_size fr) evs)"
    using ts(2) join_size [of "'',''" ts]
    by (auto simp: bracketed_def line_break_def fmt_canonical_def utf8_len_append utf8_len_Cons)
  then show ?thesis using ts(1) by (auto simp only: dumps_fmt.simps option.map)
qed

section \<open>One page\<close>

definition shown :: "(rat \<Rightarrow> string) \<Rightarrow> pydict \<times> int \<Rightarrow> pydict" where
  "shown fr es =
     (if 2 + event_size fr (fst es) \<le> MAX_EVENTS_RESPONSE_BYTES then fst es else response_truncation_marker (fst es) (snd es))"

text \<open>An event the pages can deliver: itself, or the marker that stands for it, fits an empty page.\<close>

definition deliverable :: "(rat \<Rightarrow> string) \<Rightarrow> pydict \<times> int \<Rightarrow> bool" where
  "deliverable fr es \<longleftrightarrow>
     sized fr (fst es) \<and> sized fr (shown fr es) \<and> 2 + event_size fr (shown fr es) \<le> MAX_EVENTS_RESPONSE_BYTES"

lemma event_size_nonneg: "0 \<le> event_size fr ev"
  by (auto simp: event_size_def event_json_size_def split: option.splits)

lemma items_size_nonneg: "list_all (\<lambda>n. 0 \<le> n) ns \<Longrightarrow> 0 \<le> items_size ns"
  by (induction ns rule: items_size.induct) auto

lemma take_event_spec:
  assumes "deliverable fr (ev, seq)" "page_ok fr p"
  obtains (more) p' where "take_event fr limit p ev seq = Continue p'" "pg_selected p' = pg_selected p @ [shown fr (ev, seq)]"
      "pg_last_seq p' = seq" "page_ok fr p'" "int (length (pg_selected p')) < limit"
  | (full) p' where "take_event fr limit p ev seq = Break p' False" "pg_selected p' = pg_selected p @ [shown fr (ev, seq)]"
      "pg_last_seq p' = seq" "page_ok fr p'" "limit \<le> int (length (pg_selected p'))"
  | (marker) p' where "take_event fr limit p ev seq = Break p' True" "pg_selected p = []" "pg_selected p' = [shown fr (ev, seq)]"
      "pg_last_seq p' = seq" "page_ok fr p'"
  | (early) "take_event fr limit p ev seq = Break p True" "pg_selected p \<noteq> []"
proof -
  let ?sep = "if pg_selected p = [] then 0 else 1 :: int"
  obtain n where n: "event_json_size fr ev = Inr n" "event_size fr ev = n"
    using assms(1) by (auto simp: deliverable_def sized_def event_size_def)
  have used: "pg_used_bytes p = 2 + items_size (map (event_size fr) (pg_selected p))" "list_all (sized fr) (pg_selected p)"
    using assms(2) by (auto simp: page_ok_def)
  have "0 \<le> items_size (map (event_size fr) (pg_selected p))"
    by (rule items_size_nonneg) (simp add: list_all_iff event_size_nonneg)
  then have low: "2 \<le> pg_used_bytes p" using used(1) by simp
  show thesis
  proof (cases "MAX_EVENTS_RESPONSE_BYTES < pg_used_bytes p + ?sep + n")
    case True
    show thesis
    proof (cases "pg_selected p = []")
      case False
      then show thesis using True n early by (simp add: take_event_def)
    next
      case empty: True
      then have two: "pg_used_bytes p = 2" using used(1) by simp
      then have "shown fr (ev, seq) = response_truncation_marker ev seq" using True empty n by (simp add: shown_def)
      moreover from this obtain m where m: "event_json_size fr (response_truncation_marker ev seq) = Inr m"
          "event_size fr (response_truncation_marker ev seq) = m" "2 + m \<le> MAX_EVENTS_RESPONSE_BYTES"
        using assms(1) by (auto simp: deliverable_def sized_def event_size_def)
      ultimately show thesis using True empty n two
        by (intro marker [of "\<lparr>pg_selected = [response_truncation_marker ev seq], pg_last_seq = seq, pg_used_bytes = 2 + m\<rparr>"])
          (auto simp: take_event_def page_ok_def sized_def)
    qed
  next
    case False
    let ?p = "\<lparr>pg_selected = pg_selected p @ [ev], pg_last_seq = seq, pg_used_bytes = pg_used_bytes p + ?sep + n\<rparr>"
    have "shown fr (ev, seq) = ev" using False n low by (auto simp: shown_def split: if_splits)
    moreover have "page_ok fr ?p" using False used n by (auto simp: page_ok_def items_size_snoc sized_def)
    moreover have "take_event fr limit p ev seq = (if limit \<le> int (length (pg_selected ?p)) then Break ?p False else Continue ?p)"
      using False n by (simp add: take_event_def Let_def)
    ultimately show thesis using more [of ?p] full [of ?p] by (cases "limit \<le> int (length (pg_selected ?p))") auto
  qed
qed

section \<open>The pages of a ledger\<close>

text \<open>A ledger file: it can be read, its non-blank lines are within the bound and decode to the given
  events, whose sequence numbers increase.\<close>

definition readable :: "events_file \<Rightarrow> bool" where
  "readable f \<longleftrightarrow> ef_lstat f = Stat_Regular \<and> ef_open f \<and> ef_fstat f = Stat_Regular \<and> (\<forall>k. ef_reads f k \<noteq> None)"

definition holds_events :: "(bytes \<Rightarrow> pyval option) \<Rightarrow> bytes \<Rightarrow> (pydict \<times> int) list \<Rightarrow> bool" where
  "holds_events loads content evs \<longleftrightarrow>
     list_all (\<lambda>l. length l \<le> MAX_EVENT_LINE_BYTES) (split_lines [] content) \<and>
     map loads (filter (\<lambda>l. \<not> list_all ascii_space l) (split_lines [] content)) = map (\<lambda>e. Some (PDict (fst e))) evs \<and>
     list_all (\<lambda>e. dget (fst e) ''seq'' = PInt (snd e)) evs \<and> sorted_wrt (<) (map snd evs)"

definition pending :: "int \<Rightarrow> (pydict \<times> int) list \<Rightarrow> (pydict \<times> int) list" where
  "pending from_seq evs = filter (\<lambda>e. from_seq < snd e) evs"

fun page_events :: "(rat \<Rightarrow> string) \<Rightarrow> int \<Rightarrow> page \<Rightarrow> (pydict \<times> int) list \<Rightarrow> protocol_error + page \<times> bool" where
  "page_events fr limit p [] = Inr (p, False)"
| "page_events fr limit p (e # es) =
     (case take_event fr limit p (fst e) (snd e) of
        Continue p' \<Rightarrow> page_events fr limit p' es
      | Break p' early \<Rightarrow> Inr (p', early)
      | Raise x \<Rightarrow> Inl x)"

lemma take_event_last: "take_event fr limit p ev seq = Continue p' \<Longrightarrow> pg_last_seq p' = seq"
  by (auto simp: take_event_def Let_def split: sum.splits if_splits)

lemma page_lines_events:
  assumes "map loads (filter (\<lambda>l. \<not> list_all ascii_space l) ls) = map (\<lambda>e. Some (PDict (fst e))) evs"
    "list_all (\<lambda>e. dget (fst e) ''seq'' = PInt (snd e)) evs" "sorted_wrt (<) (map snd evs)"
    "pg_selected p \<noteq> [] \<longrightarrow> list_all (\<lambda>e. pg_last_seq p < snd e) (pending from_seq evs)"
  shows "page_lines loads fr from_seq limit p (ls, Lines_Done) = page_events fr limit p (pending from_seq evs)"
  using assms
proof (induction ls arbitrary: p evs)
  case (Cons raw ls)
  show ?case
  proof (cases "list_all ascii_space raw")
    case True
    then show ?thesis using Cons by (simp add: page_line_def)
  next
    case False
    then obtain ev seq es where evs: "evs = (ev, seq) # es" "loads raw = Some (PDict ev)"
        "map loads (filter (\<lambda>l. \<not> list_all ascii_space l) ls) = map (\<lambda>e. Some (PDict (fst e))) es"
      using Cons.prems(1) by (cases evs) auto
    then have seq: "dget ev ''seq'' = PInt seq" and es: "list_all (\<lambda>e. dget (fst e) ''seq'' = PInt (snd e)) es"
        "sorted_wrt (<) (map snd es)" "\<forall>e \<in> set es. seq < snd e" using Cons.prems(2,3) by auto
    note IH = Cons.IH [OF evs(3) es(1,2)]
    show ?thesis
    proof (cases "seq \<le> from_seq")
      case True
      then show ?thesis using IH [of p] Cons.prems(4) False evs seq by (simp add: page_line_def pending_def)
    next
      case later: False
      have "page_line loads fr from_seq limit p raw = take_event fr limit p ev seq"
        using later False evs seq Cons.prems(4) by (auto simp: page_line_def pending_def)
      moreover have "page_lines loads fr from_seq limit p' (ls, Lines_Done) = page_events fr limit p' (pending from_seq es)"
        if "take_event fr limit p ev seq = Continue p'" for p'
        using IH [of p'] take_event_last [OF that] es(3) by (simp add: pending_def list_all_iff)
      ultimately show ?thesis using later evs(1) by (auto simp: pending_def split: page_step.splits)
    qed
  qed
qed (simp add: pending_def)

text \<open>A page over pending events: it takes a prefix of them, at least one, and says whether it took them all.\<close>

definition taken :: "(rat \<Rightarrow> string) \<Rightarrow> int \<Rightarrow> page \<Rightarrow> (pydict \<times> int) list \<Rightarrow> nat \<Rightarrow> page \<Rightarrow> bool \<Rightarrow> bool" where
  "taken fr limit p evs k p' early \<longleftrightarrow>
     k \<le> length evs \<and> page_ok fr p' \<and> pg_selected p' = pg_selected p @ map (shown fr) (take k evs) \<and>
     pg_last_seq p' = (if k = 0 then pg_last_seq p else snd (evs ! (k - 1))) \<and>
     (int (length (pg_selected p)) < limit \<longrightarrow> int (length (pg_selected p')) \<le> limit) \<and>
     (evs \<noteq> [] \<and> pg_selected p = [] \<longrightarrow> 0 < k) \<and>
     (\<not> early \<and> int (length (pg_selected p')) < limit \<longrightarrow> k = length evs) \<and> (early \<longrightarrow> pg_selected p' \<noteq> [])"

lemma taken_facts:
  assumes "taken fr limit p evs k p' early"
  shows "k \<le> length evs" "page_ok fr p'" "pg_selected p' = pg_selected p @ map (shown fr) (take k evs)"
    "pg_last_seq p' = (if k = 0 then pg_last_seq p else snd (evs ! (k - 1)))"
    "int (length (pg_selected p)) < limit \<Longrightarrow> int (length (pg_selected p')) \<le> limit"
    "evs \<noteq> [] \<Longrightarrow> pg_selected p = [] \<Longrightarrow> 0 < k"
    "\<not> early \<Longrightarrow> int (length (pg_selected p')) < limit \<Longrightarrow> k = length evs" "early \<Longrightarrow> pg_selected p' \<noteq> []"
  using assms unfolding taken_def by blast+

lemma taken_Suc:
  assumes "taken fr limit p' evs k p'' early" "pg_selected p' = pg_selected p @ [shown fr e]" "pg_last_seq p' = snd e"
    "int (length (pg_selected p')) < limit"
  shows "taken fr limit p (e # evs) (Suc k) p'' early"
proof -
  note t = taken_facts [OF assms(1)]
  have "pg_last_seq p'' = snd ((e # evs) ! k)" unfolding t(4) assms(3) by (cases k) simp_all
  moreover have "pg_selected p'' = pg_selected p @ map (shown fr) (take (Suc k) (e # evs))" unfolding t(3) assms(2) by simp
  moreover have "\<not> early \<and> int (length (pg_selected p'')) < limit \<longrightarrow> Suc k = length (e # evs)" using t(7) by simp
  ultimately show ?thesis using t(1,2,5,8) assms(4) unfolding taken_def by simp
qed

lemma page_events_spec:
  assumes "list_all (deliverable fr) evs" "page_ok fr p"
  shows "\<exists>k p' early. page_events fr limit p evs = Inr (p', early) \<and> taken fr limit p evs k p' early"
  using assms
proof (induction evs arbitrary: p)
  case Nil
  then show ?case by (auto simp: taken_def)
next
  case (Cons e evs)
  obtain ev seq where e: "e = (ev, seq)" by (cases e)
  have d: "deliverable fr (ev, seq)" "list_all (deliverable fr) evs" using Cons.prems(1) e by auto
  from d(1) Cons.prems(2) show ?case
  proof (cases rule: take_event_spec [where limit = limit])
    case (more p')
    obtain k p'' early where r: "page_events fr limit p' evs = Inr (p'', early)" "taken fr limit p' evs k p'' early"
      using Cons.IH [OF d(2) more(4)] by blast
    then have "taken fr limit p (e # evs) (Suc k) p'' early" using taken_Suc [OF r(2)] more e by simp
    then show ?thesis using r(1) more(1) e by auto
  next
    case (full p')
    then have "taken fr limit p (e # evs) 1 p' False" using e by (simp add: taken_def)
    then show ?thesis using full(1) e by auto
  next
    case (marker p')
    then have "taken fr limit p (e # evs) 1 p' True" using e by (simp add: taken_def)
    then show ?thesis using marker(1) e by auto
  next
    case early
    then have "taken fr limit p (e # evs) 0 p True" using Cons.prems(2) by (simp add: taken_def)
    then show ?thesis using early(1) e by auto
  qed
qed

lemma read_page_spec:
  assumes "readable f" "holds_events loads (ef_content f) evs" "list_all (deliverable fr) evs" "1 \<le> limit"
  obtains k p early where
    "read_events_page loads fr f from_seq limit = Inr (pg_selected p, pg_last_seq p, \<not> early \<and> int (length (pg_selected p)) < limit)"
    "taken fr limit \<lparr>pg_selected = [], pg_last_seq = from_seq, pg_used_bytes = 2\<rparr> (pending from_seq evs) k p early"
proof -
  let ?p = "\<lparr>pg_selected = [], pg_last_seq = from_seq, pg_used_bytes = 2\<rparr>"
  have "page_ok fr ?p" by (simp add: page_ok_def MAX_EVENTS_RESPONSE_BYTES_def)
  moreover have "list_all (deliverable fr) (pending from_seq evs)" using assms(3) by (auto simp: pending_def list_all_iff)
  ultimately obtain k p early where r: "page_events fr limit ?p (pending from_seq evs) = Inr (p, early)"
      "taken fr limit ?p (pending from_seq evs) k p early" using page_events_spec by blast
  have "iter_bounded_event_lines (ef_reads f) 0 [] (ef_content f) = (split_lines [] (ef_content f), Lines_Done)"
    using iter_exact [of "ef_reads f"] assms(1,2) by (simp add: readable_def bounded_lines_def holds_events_def list_all_iff takeWhile_eq_all_conv)
  moreover have "page_lines loads fr from_seq limit ?p (split_lines [] (ef_content f), Lines_Done) =
      page_events fr limit ?p (pending from_seq evs)"
    using assms(2) by (intro page_lines_events) (simp_all add: holds_events_def)
  ultimately show thesis using that r assms(1) by (simp add: read_events_page_def readable_def)
qed

text \<open>Reading on from each page's cursor until a page says the ledger is exhausted.\<close>

fun read_all_pages :: "(bytes \<Rightarrow> pyval option) \<Rightarrow> (rat \<Rightarrow> string) \<Rightarrow> events_file \<Rightarrow> int \<Rightarrow> nat \<Rightarrow> int \<Rightarrow>
    (protocol_error + pydict list) option" where
  "read_all_pages loads fr f limit 0 from_seq = None"
| "read_all_pages loads fr f limit (Suc n) from_seq =
     (case read_events_page loads fr f from_seq limit of
        Inl x \<Rightarrow> Some (Inl x)
      | Inr (evs, next_from_seq, exhausted) \<Rightarrow>
          if exhausted then Some (Inr evs)
          else map_option (map_sum id (\<lambda>more. evs @ more)) (read_all_pages loads fr f limit n next_from_seq))"

lemma pending_advance:
  assumes "sorted_wrt (<) (map snd evs)" "0 < k" "k \<le> length (pending from_seq evs)"
  shows "pending (snd (pending from_seq evs ! (k - 1))) evs = drop k (pending from_seq evs)"
proof -
  let ?ps = "pending from_seq evs" and ?c = "snd (pending from_seq evs ! (k - 1))"
  have s: "sorted_wrt (\<lambda>a b. snd a < snd b) ?ps"
    using assms(1) by (auto simp: pending_def sorted_wrt_map intro: sorted_wrt_filter)
  have "?ps ! (k - 1) \<in> set ?ps" using assms(2,3) by (intro nth_mem) simp
  then have "from_seq < ?c" by (auto simp: pending_def)
  then have "pending ?c evs = filter (\<lambda>e. ?c < snd e) ?ps" by (auto simp: pending_def intro!: filter_cong)
  also have "\<dots> = filter (\<lambda>e. ?c < snd e) (take k ?ps) @ filter (\<lambda>e. ?c < snd e) (drop k ?ps)"
    by (metis append_take_drop_id filter_append)
  also have "filter (\<lambda>e. ?c < snd e) (take k ?ps) = []"
  proof -
    have "snd e \<le> ?c" if mem: "e \<in> set (take k ?ps)" for e
    proof -
      obtain i where i: "i < k" "i < length ?ps" "e = ?ps ! i" using mem by (auto simp: in_set_conv_nth)
      then show ?thesis using sorted_wrt_nth_less [OF s, of i "k - 1"] assms(2,3) by (cases "i = k - 1") (auto simp: less_diff_conv intro: less_imp_le)
    qed
    then show ?thesis by (simp add: filter_empty_conv not_less)
  qed
  also have "filter (\<lambda>e. ?c < snd e) (drop k ?ps) = drop k ?ps"
  proof -
    have "?c < snd e" if mem: "e \<in> set (drop k ?ps)" for e
    proof -
      obtain i where "i < length ?ps - k" "e = ?ps ! (k + i)" using mem by (auto simp: in_set_conv_nth)
      then show ?thesis using sorted_wrt_nth_less [OF s, of "k - 1" "k + i"] assms(2) by simp
    qed
    then show ?thesis by (simp add: filter_id_conv)
  qed
  finally show ?thesis by simp
qed

lemma pages_deliver_all:
  assumes "readable f" "holds_events loads (ef_content f) evs" "list_all (deliverable fr) evs" "1 \<le> limit"
  shows "length (pending from_seq evs) < n \<Longrightarrow>
    read_all_pages loads fr f limit n from_seq = Some (Inr (map (shown fr) (pending from_seq evs)))"
proof (induction n arbitrary: from_seq)
  case (Suc n)
  let ?ps = "pending from_seq evs"
  obtain k p early where r:
    "read_events_page loads fr f from_seq limit = Inr (pg_selected p, pg_last_seq p, \<not> early \<and> int (length (pg_selected p)) < limit)"
    "taken fr limit \<lparr>pg_selected = [], pg_last_seq = from_seq, pg_used_bytes = 2\<rparr> ?ps k p early"
    using read_page_spec [OF assms] .
  note t = taken_facts [OF r(2)]
  have sel: "pg_selected p = map (shown fr) (take k ?ps)" using t(3) by simp
  show ?case
  proof (cases "\<not> early \<and> int (length (pg_selected p)) < limit")
    case True
    then have "k = length ?ps" using t(7) by blast
    then have "pg_selected p = map (shown fr) ?ps" using sel by simp
    then show ?thesis using r(1) True by simp
  next
    case False
    have "0 < k"
    proof (rule ccontr)
      assume "\<not> 0 < k"
      then have "pg_selected p = []" using sel by simp
      then show False using False t(8) assms(4) by simp
    qed
    then have next_ps: "pending (pg_last_seq p) evs = drop k ?ps"
      using pending_advance [of evs k from_seq] assms(2) t(1) unfolding t(4) by (simp add: holds_events_def)
    then have "length (pending (pg_last_seq p) evs) < n" using Suc.prems \<open>0 < k\<close> t(1) by simp
    moreover have "read_events_page loads fr f from_seq limit = Inr (map (shown fr) (take k ?ps), pg_last_seq p, False)"
      using False r(1) sel by simp
    ultimately show ?thesis using Suc.IH [of "pg_last_seq p"] next_ps by (simp flip: map_append)
  qed
qed simp

text \<open>C18. The paged reading is complete and ends.  Whoever reads a ledger page by page from any cursor,
  with any page limit, is told that it is exhausted after at most one page more than there are events
  left, and has then received every event past the cursor exactly once and in order, each one whole or,
  where it alone exceeds the response budget, as the marker carrying its sequence number.\<close>

theorem events_paging_complete:
  assumes "readable f" "holds_events loads (ef_content f) evs" "list_all (deliverable fr) evs" "1 \<le> limit"
    "length (pending from_seq evs) < n"
  shows "read_all_pages loads fr f limit n from_seq = Some (Inr (map (shown fr) (pending from_seq evs)))"
  by (rule pages_deliver_all [OF assms])

definition demo_event :: pydict where
  "demo_event = [(''seq'', PInt 1), (''type'', PStr ''usage_updated'')]"

definition demo_loads :: "bytes \<Rightarrow> pyval option" where
  "demo_loads _ = Some (PDict demo_event)"

definition demo_events_file :: events_file where
  "demo_events_file =
     \<lparr>ef_lstat = Stat_Regular, ef_open = True, ef_fstat = Stat_Regular, ef_reads = (\<lambda>_. Some 1), ef_content = [123, 125, 10]\<rparr>"

lemma demo_event_json: "event_json_size (\<lambda>_. []) demo_event = Inr 32"
proof -
  have "json_int 1 = Some ''1''" by code_simp
  then show ?thesis
    by (simp add: event_json_size_def demo_event_def json_nesting_exceeds_bound_def MAX_JSON_NESTING_DEPTH_def
        NESTING_CHECK_MAX_CONTAINERS_def fmt_canonical_def bracketed_def line_break_def json_string_raw_def
        esc_char_raw_def utf8_len_Cons utf8_len_append)
qed

lemma demo_event_deliverable: "deliverable (\<lambda>_. []) (demo_event, 1)"
  by (simp add: deliverable_def shown_def sized_def event_size_def demo_event_json MAX_EVENTS_RESPONSE_BYTES_def)

lemma demo_file_holds: "holds_events demo_loads (ef_content demo_events_file) [(demo_event, 1)]"
  by (simp add: holds_events_def demo_events_file_def demo_loads_def ascii_space_def MAX_EVENT_LINE_BYTES_def
      EVENT_LINE_ENVELOPE_HEADROOM_def demo_event_def dget_def)

theorem events_paging_complete_witness:
  "read_all_pages demo_loads (\<lambda>_. []) demo_events_file 1 2 0 = Some (Inr [demo_event])"
  using events_paging_complete [OF _ demo_file_holds, where fr = "\<lambda>_. []" and limit = 1 and n = 2 and from_seq = 0]
  by (simp add: demo_event_deliverable readable_def demo_events_file_def pending_def shown_def event_size_def demo_event_json
      MAX_EVENTS_RESPONSE_BYTES_def)

text \<open>The line reader is exact.  However the operating system cuts its reads, the generator yields
  the lines of the file up to the first one over the bound, and ends with the refusal exactly when there
  is such a line.\<close>

theorem event_lines_exact:
  assumes "\<And>k. reads k \<noteq> None"
  shows "iter_bounded_event_lines reads 0 [] content = bounded_lines (split_lines [] content)"
  using iter_exact [of reads 0 "[]" content] assms by simp

theorem event_lines_exact_witness:
  "iter_bounded_event_lines (\<lambda>_. Some 1) 0 [] [65, 10, 66] = ([[65], [66]], Lines_Done)"
  using event_lines_exact [of "\<lambda>_. Some 1" "[65, 10, 66]"]
  by (simp add: bounded_lines_def MAX_EVENT_LINE_BYTES_def EVENT_LINE_ENVELOPE_HEADROOM_def)

section \<open>Every page is bounded, ordered and framable\<close>

definition page_seqs :: "int \<Rightarrow> page \<Rightarrow> bool" where
  "page_seqs from_seq p \<longleftrightarrow>
     (\<exists>ss. map (\<lambda>e. dget e ''seq'') (pg_selected p) = map PInt ss \<and> sorted_wrt (<) (from_seq # ss) \<and>
       pg_last_seq p = last (from_seq # ss))"

lemma sorted_snoc: "sorted_wrt (<) (xs @ [x :: int]) \<longleftrightarrow> sorted_wrt (<) xs \<and> (\<forall>y \<in> set xs. y < x)"
  by (simp add: sorted_wrt_append)

lemma sorted_last: "sorted_wrt (<) (xs :: int list) \<Longrightarrow> y \<in> set xs \<Longrightarrow> y \<le> last xs"
  by (induction xs) (auto intro: less_imp_le)

lemma page_seqs_snoc:
  assumes "page_seqs from_seq p" "dget e ''seq'' = PInt seq" "pg_last_seq p < seq"
  shows "page_seqs from_seq \<lparr>pg_selected = pg_selected p @ [e], pg_last_seq = seq, pg_used_bytes = n\<rparr>"
proof -
  obtain ss where ss: "map (\<lambda>e. dget e ''seq'') (pg_selected p) = map PInt ss" "sorted_wrt (<) (from_seq # ss)"
      "pg_last_seq p = last (from_seq # ss)" using assms(1) by (auto simp: page_seqs_def)
  have "\<forall>y \<in> set (from_seq # ss). y < seq" using sorted_last [OF ss(2)] ss(3) assms(3) by fastforce
  then have "sorted_wrt (<) ((from_seq # ss) @ [seq])" using ss(2) unfolding sorted_snoc by blast
  then show ?thesis using ss(1) assms(2) unfolding page_seqs_def by (intro exI [of _ "ss @ [seq]"]) auto
qed

lemma take_event_page:
  assumes "page_ok fr p" "page_seqs from_seq p" "dget ev ''seq'' = PInt seq" "pg_last_seq p < seq" "int (length (pg_selected p)) < limit"
    "take_event fr limit p ev seq = r"
  shows "case r of
      Continue p' \<Rightarrow> page_ok fr p' \<and> page_seqs from_seq p' \<and> int (length (pg_selected p')) < limit
    | Break p' early \<Rightarrow> page_ok fr p' \<and> page_seqs from_seq p' \<and> int (length (pg_selected p')) \<le> limit
    | Raise x \<Rightarrow> True"
proof -
  have mark: "dget (response_truncation_marker ev seq) ''seq'' = PInt seq" by (simp add: response_truncation_marker_def dget_def)
  have "page_ok fr \<lparr>pg_selected = pg_selected p @ [e], pg_last_seq = seq, pg_used_bytes = pg_used_bytes p + (if pg_selected p = [] then 0 else 1) + n\<rparr>"
    if "event_json_size fr e = Inr n" "pg_used_bytes p + (if pg_selected p = [] then 0 else 1) + n \<le> MAX_EVENTS_RESPONSE_BYTES" for e n
    using that assms(1) by (simp add: page_ok_def items_size_snoc sized_def event_size_def)
  note ok = this
  show ?thesis
    using assms ok [of ev] ok [of "response_truncation_marker ev seq"] page_seqs_snoc [OF assms(2,3,4)] page_seqs_snoc [OF assms(2) mark assms(4)]
    unfolding take_event_def by (auto simp: Let_def split: sum.splits if_splits)
qed

lemma page_lines_page:
  assumes "page_ok fr p" "page_seqs from_seq p" "int (length (pg_selected p)) < limit"
    "page_lines loads fr from_seq limit p (ls, e) = Inr (p', early)"
  shows "page_ok fr p' \<and> page_seqs from_seq p' \<and> int (length (pg_selected p')) \<le> limit"
  using assms
proof (induction ls arbitrary: p)
  case Nil
  then show ?case by (cases e) auto
next
  case (Cons raw ls)
  have step: "case page_line loads fr from_seq limit p raw of
      Continue p' \<Rightarrow> page_ok fr p' \<and> page_seqs from_seq p' \<and> int (length (pg_selected p')) < limit
    | Break p' early \<Rightarrow> page_ok fr p' \<and> page_seqs from_seq p' \<and> int (length (pg_selected p')) \<le> limit
    | Raise x \<Rightarrow> True"
  proof (cases "page_line loads fr from_seq limit p raw = Continue p \<or> page_line loads fr from_seq limit p raw = Raise corrupt")
    case True
    then show ?thesis using Cons.prems by auto
  next
    case False
    then obtain ev seq where ev: "page_line loads fr from_seq limit p raw = take_event fr limit p ev seq" "dget ev ''seq'' = PInt seq"
        "from_seq < seq" "pg_selected p \<noteq> [] \<longrightarrow> pg_last_seq p < seq"
      unfolding page_line_def by (auto split: option.splits pyval.splits if_splits)
    have "pg_last_seq p < seq"
      using ev(3,4) Cons.prems(2) by (cases "pg_selected p = []") (auto simp: page_seqs_def)
    then show ?thesis using take_event_page [OF Cons.prems(1,2) ev(2) _ Cons.prems(3) refl] ev(1) by simp
  qed
  then show ?case using Cons.IH Cons.prems(4) by (cases "page_line loads fr from_seq limit p raw") auto
qed

lemma read_page_ok:
  assumes "read_events_page loads fr f from_seq limit = Inr (evs, next_seq, exhausted)" "1 \<le> limit"
  obtains p where "page_ok fr p" "page_seqs from_seq p" "int (length evs) \<le> limit" "evs = pg_selected p" "next_seq = pg_last_seq p"
proof -
  let ?p = "\<lparr>pg_selected = [], pg_last_seq = from_seq, pg_used_bytes = 2\<rparr>"
  have start: "page_ok fr ?p" "page_seqs from_seq ?p" by (auto simp: page_ok_def page_seqs_def MAX_EVENTS_RESPONSE_BYTES_def)
  from assms(1) consider (none) "evs = []" "next_seq = from_seq"
    | (page) p early ls e where "page_lines loads fr from_seq limit ?p (ls, e) = Inr (p, early)" "evs = pg_selected p" "next_seq = pg_last_seq p"
    by (cases "iter_bounded_event_lines (ef_reads f) 0 [] (ef_content f)") (auto simp: read_events_page_def split: if_splits sum.splits)
  then show thesis
  proof cases
    case none
    then show thesis using that [of ?p] start assms(2) by simp
  next
    case page
    then show thesis using that [of p] page_lines_page [OF start _ page(1)] assms(2) by simp
  qed
qed

text \<open>Whatever the file holds, a page that is returned has at most the requested number of events,
  its events serialize within the response budget, their sequence numbers increase strictly from beyond
  the cursor, and the cursor it returns is the last of them.\<close>

theorem events_page_bounded:
  assumes "read_events_page loads fr f from_seq limit = Inr (evs, next_seq, exhausted)" "1 \<le> limit"
  shows "int (length evs) \<le> limit \<and>
    (\<exists>t. dumps_fmt (fmt_canonical fr) (PList (map PDict evs)) 0 = Some t \<and> utf8_len t \<le> MAX_EVENTS_RESPONSE_BYTES) \<and>
    (\<exists>ss. map (\<lambda>e. dget e ''seq'') evs = map PInt ss \<and> sorted_wrt (<) (from_seq # ss) \<and> next_seq = last (from_seq # ss))"
proof -
  obtain p where p: "page_ok fr p" "page_seqs from_seq p" "int (length evs) \<le> limit" "evs = pg_selected p" "next_seq = pg_last_seq p"
    using read_page_ok [OF assms] .
  have "\<exists>t. dumps_fmt (fmt_canonical fr) (PList (map PDict evs)) 0 = Some t \<and> utf8_len t \<le> MAX_EVENTS_RESPONSE_BYTES"
    using array_text [of fr evs 0] p(1,4) by (auto simp: page_ok_def simp del: dumps_fmt.simps)
  then show ?thesis using p(2-5) by (simp add: page_seqs_def del: dumps_fmt.simps)
qed

theorem events_page_bounded_witness:
  "\<exists>evs next_seq exhausted. read_events_page demo_loads (\<lambda>_. []) demo_events_file 0 1 = Inr (evs, next_seq, exhausted) \<and>
    int (length evs) \<le> 1"
proof -
  have "readable demo_events_file" by (simp add: readable_def demo_events_file_def)
  then obtain evs next_seq exhausted where r:
      "read_events_page demo_loads (\<lambda>_. []) demo_events_file 0 1 = Inr (evs, next_seq, exhausted)"
    by (rule read_page_spec [OF _ demo_file_holds, of "\<lambda>_. []" 1 0]) (use demo_event_deliverable in auto)
  then show ?thesis using events_page_bounded [OF r] by auto
qed

section \<open>A page always frames\<close>

lemma utf8_len_le: "utf8_len s \<le> 2 * int (length s)"
  by (induction s) (auto simp: utf8_len_def)

lemma json_string_raw_size: "utf8_len (json_string_raw s) \<le> 2 + 12 * int (length s)"
proof -
  have c: "utf8_len (esc_char_raw c) \<le> 12" for c
    using utf8_len_le [of "esc_char_raw c"] by (simp add: esc_char_raw_def esc_char_def Let_def split: if_splits)
  have "utf8_len (concat (map esc_char_raw s)) \<le> 12 * int (length s)"
  proof (induction s)
    case (Cons a s)
    then show ?case using c [of a] by (simp add: utf8_len_append)
  qed simp
  then show ?thesis by (simp add: json_string_raw_def utf8_len_append utf8_len_Cons)
qed

lemma json_int_size: "json_int n = Some t \<Longrightarrow> utf8_len t \<le> 8602"
  using utf8_len_le [of t] by (auto simp: json_int_def dec_int_def split: if_splits)

lemma opt_seq_all2: "opt_seq (map g xs) = Some ts \<Longrightarrow> list_all2 (\<lambda>x t. g x = Some t) xs ts"
  by (induction xs arbitrary: ts) (auto split: option.splits)

lemma opt_seq_Some: "opt_seq xs = Some ts \<Longrightarrow> x \<in> set xs \<Longrightarrow> x \<noteq> None"
  by (induction xs arbitrary: ts) (auto split: option.splits)

lemma items_size_sum: "list_all (\<lambda>n. 0 \<le> n) ns \<Longrightarrow> sum_list ns \<le> items_size ns"
  by (induction ns rule: items_size.induct) auto

lemma bracketed_size: "utf8_len a = 1 \<Longrightarrow> utf8_len b = 1 \<Longrightarrow>
    utf8_len (bracketed (fmt_canonical fr) l a b ts) = 2 + items_size (map utf8_len ts)"
  using join_size [of "'',''" ts] by (auto simp: bracketed_def line_break_def fmt_canonical_def utf8_len_append utf8_len_Cons)

lemma texts_cover:
  assumes "list_all2 (\<lambda>x t. 2 * int (c x) \<le> utf8_len t) xs ts"
  shows "2 * int (sum_list (map c xs)) \<le> items_size (map utf8_len ts)"
proof -
  have "2 * int (sum_list (map c xs)) \<le> sum_list (map utf8_len ts)" using assms by (induction rule: list_all2_induct) auto
  also have "\<dots> \<le> items_size (map utf8_len ts)" by (rule items_size_sum) (simp add: list_all_iff)
  finally show ?thesis .
qed

lemma containers_in_text: "dumps_fmt (fmt_canonical fr) v l = Some t \<Longrightarrow> 2 * int (container_count v) \<le> utf8_len t"
proof (induction v arbitrary: l t)
  case (PList xs)
  then obtain ts where ts: "opt_seq (map (\<lambda>x. dumps_fmt (fmt_canonical fr) x (Suc l)) xs) = Some ts"
      "t = bracketed (fmt_canonical fr) l ''['' '']'' ts" by (auto simp: comp_def)
  have "list_all2 (\<lambda>x t. 2 * int (container_count x) \<le> utf8_len t) xs ts"
    using opt_seq_all2 [OF ts(1)] PList.IH by (fastforce simp: list_all2_conv_all_nth)
  from texts_cover [OF this] show ?case by (simp add: ts(2) bracketed_size utf8_len_Cons)
next
  case (PDict d)
  let ?d = "sort_key fst d" and ?g = "\<lambda>p. map_option (\<lambda>t. jf_string (fmt_canonical fr) (fst p) @ jf_key (fmt_canonical fr) @ t)
      (dumps_fmt (fmt_canonical fr) (snd p) (Suc l))"
  obtain ts where ts: "opt_seq (map ?g ?d) = Some ts" "t = bracketed (fmt_canonical fr) l ''{'' ''}'' ts"
    using PDict.prems by (auto simp: comp_def simp flip: sort_map_snd)
  have "2 * int (container_count (snd p)) \<le> utf8_len u" if mem: "p \<in> set ?d" and gp: "?g p = Some u" for p u
  proof -
    obtain w where w: "dumps_fmt (fmt_canonical fr) (snd p) (Suc l) = Some w"
        "u = jf_string (fmt_canonical fr) (fst p) @ jf_key (fmt_canonical fr) @ w" using gp by blast
    have "2 * int (container_count (snd p)) \<le> utf8_len w" using PDict.IH [of p "snd p"] w(1) mem by (cases p) auto
    then show ?thesis by (simp add: w(2) utf8_len_append add_increasing)
  qed
  then have "list_all2 (\<lambda>p t. 2 * int (container_count (snd p)) \<le> utf8_len t) ?d ts"
    using list.rel_mono_strong [OF opt_seq_all2 [OF ts(1)]] by simp
  from texts_cover [OF this] have "2 * int (sum_list (map (\<lambda>p. container_count (snd p)) ?d)) \<le> items_size (map utf8_len ts)" .
  moreover have "sum_list (map (\<lambda>p. container_count (snd p)) ?d) = sum_list (map (\<lambda>p. container_count (snd p)) d)"
    by (simp flip: sum_mset_sum_list)
  ultimately show ?case by (simp add: ts(2) bracketed_size utf8_len_Cons comp_def)
qed simp_all

lemma dumps_member:
  assumes "dumps_fmt (fmt_canonical fr) (PDict d) l = Some t" "(k, v) \<in> set d"
  shows "dumps_fmt (fmt_canonical fr) v (Suc l) \<noteq> None"
proof -
  let ?g = "\<lambda>p. map_option (\<lambda>t. jf_string (fmt_canonical fr) (fst p) @ jf_key (fmt_canonical fr) @ t)
      (dumps_fmt (fmt_canonical fr) (snd p) (Suc l))"
  obtain ts where "opt_seq (map ?g (sort_key fst d)) = Some ts"
    using assms(1) by (auto simp: comp_def simp flip: sort_map_snd)
  moreover have "(k, v) \<in> set (sort_key fst d)" using assms(2) by simp
  then have "?g (k, v) \<in> set (map ?g (sort_key fst d))" unfolding set_map by (rule imageI)
  ultimately have "?g (k, v) \<noteq> None" by (rule opt_seq_Some)
  then show ?thesis by simp
qed

lemma frame_text:
  assumes "\<And>l. dumps_fmt (fmt_canonical fr) v l = Some ta" "json_int n = Some ti"
  shows "\<exists>t. dumps_fmt (fmt_canonical fr) (PDict (build_result rid [(''run_id'', PStr r), (''events'', v), (''next_from_seq'', PInt n),
      (''exhausted'', PBool b)])) 0 = Some t \<and>
    utf8_len t \<le> 200 + utf8_len (json_string_raw rid) + utf8_len (json_string_raw r) + utf8_len ta + utf8_len ti"
  using assms
  by (simp add: build_result_def bracketed_def line_break_def fmt_canonical_def utf8_len_append utf8_len_Cons
      json_string_raw_def esc_char_raw_def)

text \<open>A text shorter than a frame has few enough containers, so only depth is left to check.\<close>

lemma body_encodes:
  assumes "dumps_fmt (fmt_canonical fr) (PDict (build_result (replicate MAX_REQUEST_ID_CHARS (CHR ''x'')) body)) 0 = Some t"
    "utf8_len t < MAX_FRAME_BYTES"
    "nest_depth (PDict (build_result (replicate MAX_REQUEST_ID_CHARS (CHR ''x'')) body)) \<le> MAX_JSON_NESTING_DEPTH"
  shows "ensure_events_page_encodes fr body = Inr ()"
proof -
  let ?frame = "PDict (build_result (replicate MAX_REQUEST_ID_CHARS (CHR ''x'')) body)"
  have "container_count ?frame \<le> NESTING_CHECK_MAX_CONTAINERS"
    using containers_in_text [OF assms(1)] assms(2) by (simp add: MAX_FRAME_BYTES_def NESTING_CHECK_MAX_CONTAINERS_def del: container_count.simps)
  then have "\<not> json_nesting_exceeds_bound ?frame" using assms(3) by (simp add: nesting_exact)
  then show ?thesis using assms(1,2)
    by (simp add: ensure_events_page_encodes_def encode_frame_def ensure_def utf8_len_append utf8_len_Cons del: dumps_fmt.simps)
qed

text \<open>A page's cursor has a decimal text: it came from the caller, or from an event that serializes.\<close>

lemma page_cursor_text:
  assumes "page_ok fr p" "page_seqs from_seq p" "json_int from_seq \<noteq> None"
  shows "\<exists>ti. json_int (pg_last_seq p) = Some ti"
proof -
  obtain ss where ss: "map (\<lambda>e. dget e ''seq'') (pg_selected p) = map PInt ss" "pg_last_seq p = last (from_seq # ss)"
    using assms(2) by (auto simp: page_seqs_def)
  show ?thesis
  proof (cases "ss = []")
    case False
    then have "PInt (last ss) \<in> set (map (\<lambda>e. dget e ''seq'') (pg_selected p))" unfolding ss(1) by simp
    then obtain e where e: "e \<in> set (pg_selected p)" "dget e ''seq'' = PInt (last ss)" by auto
    then have "(''seq'', PInt (last ss)) \<in> set e" by (auto simp: dget_def split: option.splits dest: map_of_SomeD)
    moreover obtain t where "dumps_fmt (fmt_canonical fr) (PDict e) 0 = Some t"
      using sized_text [of fr e 0] assms(1) e(1) by (auto simp: page_ok_def list_all_iff simp del: dumps_fmt.simps)
    ultimately show ?thesis using dumps_member ss(2) False by fastforce
  qed (use ss assms(3) in auto)
qed

lemma page_frames:
  assumes "read_events_page loads fr f from_seq limit = Inr (evs, next_seq, exhausted)" "1 \<le> limit" "json_int from_seq \<noteq> None"
    "length run_id \<le> 255" "list_all (\<lambda>e. nest_depth (PDict e) \<le> 61) evs"
  shows "ensure_events_page_encodes fr (page_body run_id evs next_seq exhausted) = Inr ()"
proof -
  let ?rid = "replicate MAX_REQUEST_ID_CHARS (CHR ''x'')"
  let ?frame = "PDict (build_result ?rid (page_body run_id evs next_seq exhausted))"
  obtain p where p: "page_ok fr p" "page_seqs from_seq p" "evs = pg_selected p" "next_seq = pg_last_seq p"
    using read_page_ok [OF assms(1,2)] .
  obtain ta where ta: "\<And>l. dumps_fmt (fmt_canonical fr) (PList (map PDict evs)) l = Some ta" "utf8_len ta \<le> MAX_EVENTS_RESPONSE_BYTES"
  proof -
    obtain ta where "dumps_fmt (fmt_canonical fr) (PList (map PDict evs)) 0 = Some ta" "utf8_len ta \<le> MAX_EVENTS_RESPONSE_BYTES"
      using array_text [of fr evs 0] p by (auto simp: page_ok_def simp del: dumps_fmt.simps)
    then show thesis using that dumps_level [of "fmt_canonical fr" "PList (map PDict evs)" _ 0]
      by (simp add: fmt_canonical_def del: dumps_fmt.simps)
  qed
  obtain ti where ti: "json_int next_seq = Some ti" using page_cursor_text [OF p(1,2) assms(3)] p(4) by blast
  obtain t where t: "dumps_fmt (fmt_canonical fr) ?frame 0 = Some t"
      "utf8_len t \<le> 200 + utf8_len (json_string_raw ?rid) + utf8_len (json_string_raw run_id) + utf8_len ta + utf8_len ti"
    using frame_text [OF ta(1) ti, of ?rid run_id exhausted] by (auto simp: page_body_def simp del: dumps_fmt.simps)
  have small: "utf8_len t < MAX_FRAME_BYTES"
    using t(2) ta(2) json_int_size [OF ti] json_string_raw_size [of ?rid] json_string_raw_size [of run_id] assms(4)
    by (simp add: MAX_REQUEST_ID_CHARS_def MAX_EVENTS_RESPONSE_BYTES_def MAX_FRAME_BYTES_def)
  have "foldr max (map (nest_depth \<circ> PDict) evs) 0 \<le> 61"
    using assms(5) foldr_max_gt [of 61 "map (nest_depth \<circ> PDict) evs"] by (fastforce simp: list_all_iff simp del: nest_depth.simps)
  then have "nest_depth ?frame \<le> MAX_JSON_NESTING_DEPTH"
    by (simp add: build_result_def page_body_def MAX_JSON_NESTING_DEPTH_def)
  then show ?thesis by (rule body_encodes [OF t(1) small])
qed

text \<open>A page never gets stuck at the wire: a returned page whose events nest at most 61 deep fits one
  frame for every request id, whatever its run's name, its events and its cursor.\<close>

theorem events_page_frames:
  assumes "read_events_page loads fr f from_seq limit = Inr (evs, next_seq, exhausted)" "1 \<le> limit" "json_int from_seq \<noteq> None"
    "length run_id \<le> 255" "list_all (\<lambda>e. nest_depth (PDict e) \<le> 61) evs"
  shows "ensure_events_page_encodes fr (page_body run_id evs next_seq exhausted) = Inr ()"
  by (rule page_frames [OF assms])

theorem events_page_frames_witness:
  "\<exists>evs next_seq exhausted. read_events_page demo_loads (\<lambda>_. []) demo_events_file 0 1 = Inr (evs, next_seq, exhausted) \<and>
    ensure_events_page_encodes (\<lambda>_. []) (page_body ''run-1'' evs next_seq exhausted) = Inr ()"
proof -
  have "readable demo_events_file" by (simp add: readable_def demo_events_file_def)
  then obtain k p early where r:
      "read_events_page demo_loads (\<lambda>_. []) demo_events_file 0 1 = Inr (pg_selected p, pg_last_seq p, \<not> early \<and> int (length (pg_selected p)) < 1)"
      "taken (\<lambda>_. []) 1 \<lparr>pg_selected = [], pg_last_seq = 0, pg_used_bytes = 2\<rparr> (pending 0 [(demo_event, 1)]) k p early"
    by (rule read_page_spec [OF _ demo_file_holds, of "\<lambda>_. []" 1 0]) (use demo_event_deliverable in auto)
  have "pg_selected p = map (shown (\<lambda>_. [])) (take k [(demo_event, 1)])" using taken_facts(3) [OF r(2)] by (simp add: pending_def)
  then have "set (pg_selected p) \<subseteq> {demo_event}"
    by (cases k) (auto simp: shown_def event_size_def demo_event_json MAX_EVENTS_RESPONSE_BYTES_def)
  then have "list_all (\<lambda>e. nest_depth (PDict e) \<le> 61) (pg_selected p)" by (auto simp: list_all_iff demo_event_def)
  moreover have "json_int 0 \<noteq> None" by code_simp
  ultimately show ?thesis using events_page_frames [OF r(1), of "''run-1''"] r(1) by auto
qed

end
