(* ===== verification/Event_Follow.thy ===== *)
theory Event_Follow
  imports Run_Queries Event_Pages_Props
begin

text \<open>
  The follow stream of a run's events, \<^verbatim>\<open>EventFollowStream\<close> of \<^verbatim>\<open>arsd/handlers.py\<close>: a watcher that
  pages through the growing ledger into a bounded queue, and the consumer that drains it.  One round of
  the watcher has no suspension point between reading the page and inspecting the terminal; the run
  appends whole lines, and publishes its terminal only after its ledger is closed.
\<close>

section \<open>State\<close>

datatype watcher = Watching | Ending | Containing_Invalid | Stopped

datatype stream_end = Ended | Closed_Early | Raised protocol_error

record follow_stream =
  fs_file :: events_file
  fs_ledger :: "(pydict \<times> int) list" \<comment> \<open>the events the file holds\<close>
  fs_terminal :: terminal_kind
  fs_cursor :: int
  fs_queue :: "pydict option list" \<comment> \<open>\<^const>\<open>None\<close> is the end marker\<close>
  fs_failure :: "protocol_error option"
  fs_watcher :: watcher
  fs_closed :: bool
  fs_delivered :: "pydict list"
  fs_end :: "stream_end option"

definition open_stream :: "int \<Rightarrow> events_file \<Rightarrow> (pydict \<times> int) list \<Rightarrow> terminal_kind \<Rightarrow> follow_stream" where
  "open_stream from_seq f evs t =
     \<lparr>fs_file = f, fs_ledger = evs, fs_terminal = t, fs_cursor = from_seq, fs_queue = [], fs_failure = None,
      fs_watcher = Watching, fs_closed = False, fs_delivered = [], fs_end = None\<rparr>"

section \<open>The watcher\<close>

definition backlog_exceeded :: protocol_error where
  "backlog_exceeded = protocol_refusal EVENT_BACKLOG_EXCEEDED ''event follow backlog exceeded''"

text \<open>A queue of size zero is unbounded.\<close>

definition queue_full :: "nat \<Rightarrow> 'a list \<Rightarrow> bool" where
  "queue_full cap q \<longleftrightarrow> 0 < cap \<and> cap \<le> length q"

definition seq_of :: "pydict \<Rightarrow> int" where
  "seq_of ev = (case dget ev ''seq'' of PInt n \<Rightarrow> n | _ \<Rightarrow> 0)"

fun offer_events :: "(rat \<Rightarrow> string) \<Rightarrow> string \<Rightarrow> nat \<Rightarrow> pydict list \<Rightarrow> int \<Rightarrow> pydict option list \<Rightarrow>
    int \<times> pydict option list \<times> protocol_error option" where
  "offer_events fr run_id cap [] cursor q = (cursor, q, None)"
| "offer_events fr run_id cap (ev # evs) cursor q =
     (case ensure_events_page_encodes fr (follow_body run_id [ev]) of
        Inl err \<Rightarrow> (cursor, q, Some err)
      | Inr _ \<Rightarrow>
          if queue_full cap q then (cursor, q, Some backlog_exceeded)
          else offer_events fr run_id cap evs (max cursor (seq_of ev)) (q @ [Some ev]))"

text \<open>The first failure stays.\<close>

definition fail_stream :: "protocol_error \<Rightarrow> follow_stream \<Rightarrow> follow_stream" where
  "fail_stream err s =
     s\<lparr>fs_failure := (case fs_failure s of None \<Rightarrow> Some err | Some x \<Rightarrow> Some x), fs_watcher := Stopped\<rparr>"

definition watch_round :: "(bytes \<Rightarrow> pyval option) \<Rightarrow> (rat \<Rightarrow> string) \<Rightarrow> string \<Rightarrow> nat \<Rightarrow> follow_stream \<Rightarrow> follow_stream" where
  "watch_round loads fr run_id cap s =
     (case read_events_page loads fr (fs_file s) (fs_cursor s) MAX_EVENTS_PAGE_LIMIT of
        Inl err \<Rightarrow> fail_stream err s
      | Inr (evs, next_seq, exhausted) \<Rightarrow>
          (case offer_events fr run_id cap evs (fs_cursor s) (fs_queue s) of
             (cursor, q, Some err) \<Rightarrow> fail_stream err (s\<lparr>fs_cursor := cursor, fs_queue := q\<rparr>)
           | (cursor, q, None) \<Rightarrow>
               s\<lparr>fs_cursor := cursor, fs_queue := q,
                  fs_watcher := (case fs_terminal s of
                      TERM_TRUSTED \<Rightarrow> if evs = [] then Ending else Watching
                    | TERM_INVALID \<Rightarrow> Containing_Invalid
                    | TERM_ABSENT \<Rightarrow> Watching)\<rparr>))"

section \<open>Steps\<close>

inductive follow_step :: "(bytes \<Rightarrow> pyval option) \<Rightarrow> (rat \<Rightarrow> string) \<Rightarrow> string \<Rightarrow> nat \<Rightarrow> follow_stream \<Rightarrow> follow_stream \<Rightarrow> bool"
  for loads fr run_id cap where
  appended: "fs_terminal s = TERM_ABSENT \<Longrightarrow> readable f \<Longrightarrow> holds_events loads (ef_content f) (fs_ledger s @ new) \<Longrightarrow>
    list_all (deliverable fr) new \<Longrightarrow> follow_step loads fr run_id cap s (s\<lparr>fs_file := f, fs_ledger := fs_ledger s @ new\<rparr>)"
| settled: "fs_terminal s = TERM_ABSENT \<Longrightarrow> follow_step loads fr run_id cap s (s\<lparr>fs_terminal := t\<rparr>)"
| watched: "fs_watcher s = Watching \<Longrightarrow> \<not> fs_closed s \<Longrightarrow> follow_step loads fr run_id cap s (watch_round loads fr run_id cap s)"
| marked: "fs_watcher s = Ending \<Longrightarrow> \<not> queue_full cap (fs_queue s) \<Longrightarrow>
    follow_step loads fr run_id cap s (s\<lparr>fs_queue := fs_queue s @ [None], fs_watcher := Stopped\<rparr>)"
| refused: "fs_watcher s = Containing_Invalid \<Longrightarrow>
    follow_step loads fr run_id cap s (fail_stream (protocol_refusal INTERNAL UNTRUSTED_TERMINAL_MESSAGE) s)"
| delivered: "fs_end s = None \<Longrightarrow> fs_failure s = None \<Longrightarrow> fs_queue s = Some ev # q \<Longrightarrow>
    follow_step loads fr run_id cap s (s\<lparr>fs_queue := q, fs_delivered := fs_delivered s @ [ev]\<rparr>)"
| ended: "fs_end s = None \<Longrightarrow> fs_failure s = None \<Longrightarrow> fs_queue s = None # q \<Longrightarrow>
    follow_step loads fr run_id cap s (s\<lparr>fs_queue := q, fs_end := Some Ended\<rparr>)"
| raised: "fs_end s = None \<Longrightarrow> fs_failure s = Some err \<Longrightarrow> follow_step loads fr run_id cap s (s\<lparr>fs_end := Some (Raised err)\<rparr>)"
| closed: "fs_watcher s \<noteq> Containing_Invalid \<Longrightarrow> follow_step loads fr run_id cap s (s\<lparr>fs_closed := True, fs_watcher := Stopped\<rparr>)"
| drained: "fs_end s = None \<Longrightarrow> fs_failure s = None \<Longrightarrow> fs_closed s \<Longrightarrow> fs_queue s = [] \<Longrightarrow>
    follow_step loads fr run_id cap s (s\<lparr>fs_end := Some Closed_Early\<rparr>)"

end
