(* ===== verification/Event_Follow_Props.thy ===== *)
theory Event_Follow_Props
  imports Event_Follow
begin

text \<open>
  The follow stream delivers a prefix of the ledger's events in order, and when it ends by itself it has
  delivered all of them.
\<close>

lemma shown_seq: "dget (fst e) ''seq'' = PInt (snd e) \<Longrightarrow> seq_of (shown fr e) = snd e"
  by (simp add: shown_def seq_of_def response_truncation_marker_def dget_def)

text \<open>Offering events: a prefix of them is queued, all of them when nothing failed.\<close>

lemma offer_events_spec:
  assumes "offer_events fr run_id cap (map (shown fr) es) cursor q = (cursor', q', failure)"
    "list_all (\<lambda>e. dget (fst e) ''seq'' = PInt (snd e)) es" "sorted_wrt (<) (cursor # map snd es)"
  shows "\<exists>j \<le> length es. q' = q @ map (\<lambda>e. Some (shown fr e)) (take j es) \<and>
    cursor' = (if j = 0 then cursor else snd (es ! (j - 1))) \<and> (failure = None \<longrightarrow> j = length es) \<and>
    (0 < cap \<and> length q \<le> cap \<longrightarrow> length q' \<le> cap)"
  using assms
proof (induction es arbitrary: cursor q)
  case Nil
  then show ?case by auto
next
  case (Cons e es)
  show ?case
  proof (cases "ensure_events_page_encodes fr (follow_body run_id [shown fr e]) = Inr () \<and> \<not> queue_full cap q")
    case False
    then have "cursor' = cursor" "q' = q" "failure \<noteq> None"
      using Cons.prems(1) by (auto split: sum.splits if_splits)
    then show ?thesis by (intro exI [of _ 0]) auto
  next
    case True
    have seq: "max cursor (seq_of (shown fr e)) = snd e" using Cons.prems(2,3) shown_seq [of e fr] by simp
    have "offer_events fr run_id cap (map (shown fr) es) (snd e) (q @ [Some (shown fr e)]) = (cursor', q', failure)"
      using Cons.prems(1) True seq by simp
    moreover have "list_all (\<lambda>e. dget (fst e) ''seq'' = PInt (snd e)) es" "sorted_wrt (<) (snd e # map snd es)"
      using Cons.prems(2,3) by simp_all
    ultimately obtain j where j: "j \<le> length es"
        "q' = (q @ [Some (shown fr e)]) @ map (\<lambda>e. Some (shown fr e)) (take j es)"
        "cursor' = (if j = 0 then snd e else snd (es ! (j - 1)))" "failure = None \<longrightarrow> j = length es"
        "0 < cap \<and> length (q @ [Some (shown fr e)]) \<le> cap \<longrightarrow> length q' \<le> cap" using Cons.IH by blast
    have "cursor' = snd ((e # es) ! j)" using j(3) by (cases j) auto
    moreover have "0 < cap \<and> length q \<le> cap \<longrightarrow> length q' \<le> cap" using j(5) True by (auto simp: queue_full_def)
    ultimately show ?thesis using j(1,2,4) by (intro exI [of _ "Suc j"]) auto
  qed
qed

section \<open>The invariant\<close>

text \<open>How far the stream is: \<open>k\<close> of the pending events are delivered or in the queue, which holds \<open>xs\<close> and
  then possibly the end marker.\<close>

definition stream_at :: "(rat \<Rightarrow> string) \<Rightarrow> (pydict \<times> int) list \<Rightarrow> int \<Rightarrow> follow_stream \<Rightarrow> nat \<Rightarrow> pydict list \<Rightarrow> pydict option list \<Rightarrow> bool" where
  "stream_at fr ps from_seq s k xs tail \<longleftrightarrow>
     k \<le> length ps \<and> fs_queue s = map Some xs @ tail \<and> fs_delivered s @ xs = map (shown fr) (take k ps) \<and>
     fs_cursor s = (if k = 0 then from_seq else snd (ps ! (k - 1))) \<and>
     (tail = [] \<or> tail = [None]) \<and> (tail = [None] \<or> fs_end s = Some Ended \<longrightarrow> fs_watcher s = Stopped) \<and>
     (fs_end s = Some Ended \<longrightarrow> xs = [] \<and> tail = []) \<and>
     (fs_watcher s = Ending \<or> tail = [None] \<or> fs_end s = Some Ended \<longrightarrow> fs_terminal s = TERM_TRUSTED \<and> k = length ps)"

definition stream_ok :: "(bytes \<Rightarrow> pyval option) \<Rightarrow> (rat \<Rightarrow> string) \<Rightarrow> int \<Rightarrow> nat \<Rightarrow> follow_stream \<Rightarrow> bool" where
  "stream_ok loads fr from_seq cap s \<longleftrightarrow>
     readable (fs_file s) \<and> holds_events loads (ef_content (fs_file s)) (fs_ledger s) \<and> list_all (deliverable fr) (fs_ledger s) \<and>
     (0 < cap \<longrightarrow> length (fs_queue s) \<le> cap) \<and> (\<exists>k xs tail. stream_at fr (pending from_seq (fs_ledger s)) from_seq s k xs tail)"

lemma pending_append: "pending c (xs @ ys) = pending c xs @ pending c ys"
  by (simp add: pending_def)

lemma append_ok:
  assumes "stream_ok loads fr from_seq cap s" "fs_terminal s = TERM_ABSENT" "readable f"
    "holds_events loads (ef_content f) (fs_ledger s @ new)" "list_all (deliverable fr) new"
  shows "stream_ok loads fr from_seq cap (s\<lparr>fs_file := f, fs_ledger := fs_ledger s @ new\<rparr>)"
proof -
  obtain k xs tail where at: "stream_at fr (pending from_seq (fs_ledger s)) from_seq s k xs tail"
    using assms(1) by (auto simp: stream_ok_def)
  then have "stream_at fr (pending from_seq (fs_ledger s @ new)) from_seq (s\<lparr>fs_file := f, fs_ledger := fs_ledger s @ new\<rparr>) k xs tail"
    using assms(2) by (auto simp: stream_at_def pending_append nth_append)
  then show ?thesis using assms by (auto simp: stream_ok_def)
qed

lemma stream_at_advance:
  assumes "k + j \<le> length ps" "fs_delivered s @ xs = map (shown fr) (take k ps)" "fs_cursor s = (if k = 0 then from_seq else snd (ps ! (k - 1)))"
    "fs_queue s' = map Some xs @ map (\<lambda>e. Some (shown fr e)) (take j (drop k ps))" "fs_delivered s' = fs_delivered s"
    "fs_cursor s' = (if j = 0 then fs_cursor s else snd (drop k ps ! (j - 1)))" "fs_end s' \<noteq> Some Ended"
    "fs_watcher s' = Ending \<longrightarrow> fs_terminal s' = TERM_TRUSTED \<and> k + j = length ps"
  shows "stream_at fr ps from_seq s' (k + j) (xs @ map (shown fr) (take j (drop k ps))) []"
proof -
  have "fs_delivered s' @ xs @ map (shown fr) (take j (drop k ps)) = map (shown fr) (take (k + j) ps)"
    using assms(2,5) by (simp add: take_add flip: append_assoc)
  moreover have "fs_cursor s' = (if k + j = 0 then from_seq else snd (ps ! (k + j - 1)))"
    using assms(1,3,6) by (cases j) auto
  ultimately show ?thesis using assms(1,4,7,8) by (simp add: stream_at_def)
qed

lemma watch_ok:
  assumes "stream_ok loads fr from_seq cap s" "fs_watcher s = Watching"
  shows "stream_ok loads fr from_seq cap (watch_round loads fr run_id cap s)"
proof -
  let ?ps = "pending from_seq (fs_ledger s)" and ?s' = "watch_round loads fr run_id cap s"
  have led: "readable (fs_file s)" "holds_events loads (ef_content (fs_file s)) (fs_ledger s)" "list_all (deliverable fr) (fs_ledger s)"
      "0 < cap \<longrightarrow> length (fs_queue s) \<le> cap" using assms(1) by (auto simp: stream_ok_def)
  obtain k xs tail where "stream_at fr ?ps from_seq s k xs tail" using assms(1) by (auto simp: stream_ok_def)
  then have at: "k \<le> length ?ps" "fs_queue s = map Some xs" "fs_delivered s @ xs = map (shown fr) (take k ?ps)"
      "fs_cursor s = (if k = 0 then from_seq else snd (?ps ! (k - 1)))" "fs_end s \<noteq> Some Ended"
    using assms(2) by (auto simp: stream_at_def)
  have sorted: "sorted_wrt (<) (map snd (fs_ledger s))" and seqs: "list_all (\<lambda>e. dget (fst e) ''seq'' = PInt (snd e)) (fs_ledger s)"
    using led(2) by (auto simp: holds_events_def)
  have rest: "pending (fs_cursor s) (fs_ledger s) = drop k ?ps"
    using at(1,4) pending_advance [OF sorted, of k from_seq] by (cases "k = 0") auto
  have one: "1 \<le> MAX_EVENTS_PAGE_LIMIT" by (simp add: MAX_EVENTS_PAGE_LIMIT_def)
  obtain n p early where page: "read_events_page loads fr (fs_file s) (fs_cursor s) MAX_EVENTS_PAGE_LIMIT =
        Inr (pg_selected p, pg_last_seq p, \<not> early \<and> int (length (pg_selected p)) < MAX_EVENTS_PAGE_LIMIT)"
      "taken fr MAX_EVENTS_PAGE_LIMIT \<lparr>pg_selected = [], pg_last_seq = fs_cursor s, pg_used_bytes = 2\<rparr> (drop k ?ps) n p early"
    by (rule read_page_spec [OF led(1-3) one, of "fs_cursor s", unfolded rest])
  let ?es = "take n (drop k ?ps)"
  have sel: "pg_selected p = map (shown fr) ?es" using taken_facts(3) [OF page(2)] by simp
  obtain cursor q failure where off: "offer_events fr run_id cap (map (shown fr) ?es) (fs_cursor s) (fs_queue s) = (cursor, q, failure)"
    by (metis prod_cases3)
  have "list_all (\<lambda>e. dget (fst e) ''seq'' = PInt (snd e)) ?es"
    using seqs by (auto simp: list_all_iff pending_def dest!: in_set_takeD in_set_dropD)
  moreover have "sorted_wrt (<) (fs_cursor s # map snd ?es)"
    unfolding rest [symmetric] using sorted
    by (auto simp: pending_def sorted_wrt_map intro!: sorted_wrt_take sorted_wrt_filter dest!: in_set_takeD)
  ultimately have es: "list_all (\<lambda>e. dget (fst e) ''seq'' = PInt (snd e)) ?es" "sorted_wrt (<) (fs_cursor s # map snd ?es)" .
  obtain j where j: "j \<le> length ?es" "q = fs_queue s @ map (\<lambda>e. Some (shown fr e)) (take j ?es)"
      "cursor = (if j = 0 then fs_cursor s else snd (?es ! (j - 1)))" "failure = None \<longrightarrow> j = length ?es"
      "0 < cap \<and> length (fs_queue s) \<le> cap \<longrightarrow> length q \<le> cap" using offer_events_spec [OF off es] by blast
  have s': "fs_file ?s' = fs_file s" "fs_ledger ?s' = fs_ledger s" "fs_queue ?s' = q" "fs_cursor ?s' = cursor" "fs_delivered ?s' = fs_delivered s"
      "fs_end ?s' = fs_end s" "fs_terminal ?s' = fs_terminal s"
    using page(1) off by (auto simp: watch_round_def fail_stream_def sel split: option.splits)
  have ending: "fs_terminal s = TERM_TRUSTED \<and> k + j = length ?ps" if "fs_watcher ?s' = Ending"
  proof -
    have "fs_terminal s = TERM_TRUSTED" "?es = []"
      using that page(1) off by (auto simp: watch_round_def fail_stream_def sel split: option.splits terminal_kind.splits if_splits)
    then show ?thesis using taken_facts(6) [OF page(2)] j(1) at(1) by (cases "drop k ?ps = []") auto
  qed
  have "take j ?es = take j (drop k ?ps)" "j \<noteq> 0 \<longrightarrow> ?es ! (j - 1) = drop k ?ps ! (j - 1)" "k + j \<le> length ?ps"
    using j(1) at(1) by (auto simp: min_def split: if_splits)
  then have "stream_at fr ?ps from_seq ?s' (k + j) (xs @ map (shown fr) (take j (drop k ?ps))) []"
    using at j s' ending by (intro stream_at_advance [of _ _ _ s]) auto
  then show ?thesis using led j(5) s' by (auto simp: stream_ok_def)
qed

lemma settle_ok: "stream_ok loads fr from_seq cap s \<Longrightarrow> fs_terminal s = TERM_ABSENT \<Longrightarrow> stream_ok loads fr from_seq cap (s\<lparr>fs_terminal := t\<rparr>)"
  unfolding stream_ok_def by (fastforce simp: stream_at_def)

lemma stream_quiet:
  assumes "stream_ok loads fr from_seq cap s" "fs_file s' = fs_file s" "fs_ledger s' = fs_ledger s" "fs_queue s' = fs_queue s"
    "fs_delivered s' = fs_delivered s" "fs_cursor s' = fs_cursor s" "fs_terminal s' = fs_terminal s"
    "fs_end s' = fs_end s \<or> fs_end s' \<noteq> Some Ended" "fs_watcher s' = fs_watcher s \<or> fs_watcher s' = Stopped"
  shows "stream_ok loads fr from_seq cap s'"
proof -
  obtain k xs tail where "stream_at fr (pending from_seq (fs_ledger s)) from_seq s k xs tail" using assms(1) by (auto simp: stream_ok_def)
  then have "stream_at fr (pending from_seq (fs_ledger s)) from_seq s' k xs tail" using assms(8,9) unfolding stream_at_def assms(2-7) by auto
  then show ?thesis using assms(1) unfolding stream_ok_def assms(2-7) by auto
qed

lemma stream_step_ok:
  assumes "follow_step loads fr run_id cap s s'" "stream_ok loads fr from_seq cap s"
  shows "stream_ok loads fr from_seq cap s'"
  using assms
proof (cases rule: follow_step.cases)
  case (appended f new)
  then show ?thesis using append_ok [OF assms(2)] by simp
next
  case (settled t)
  then show ?thesis using settle_ok [OF assms(2)] by simp
next
  case watched
  then show ?thesis using watch_ok [OF assms(2)] by simp
next
  case marked
  obtain k xs tail where at: "stream_at fr (pending from_seq (fs_ledger s)) from_seq s k xs tail" using assms(2) by (auto simp: stream_ok_def)
  then have "stream_at fr (pending from_seq (fs_ledger s)) from_seq s' k xs [None]"
    using marked by (auto simp: stream_at_def)
  then show ?thesis using assms(2) marked by (auto simp: stream_ok_def queue_full_def)
next
  case refused
  then show ?thesis using assms(2) by (intro stream_quiet [OF assms(2)]) (auto simp: fail_stream_def)
next
  case (delivered ev q)
  obtain k xs tail where at: "stream_at fr (pending from_seq (fs_ledger s)) from_seq s k xs tail" using assms(2) by (auto simp: stream_ok_def)
  then obtain ys where "xs = ev # ys" using delivered by (cases xs) (auto simp: stream_at_def)
  then have "stream_at fr (pending from_seq (fs_ledger s)) from_seq s' k ys tail"
    using at delivered by (auto simp: stream_at_def)
  then show ?thesis using assms(2) delivered by (auto simp: stream_ok_def)
next
  case (ended q)
  obtain k xs tail where at: "stream_at fr (pending from_seq (fs_ledger s)) from_seq s k xs tail" using assms(2) by (auto simp: stream_ok_def)
  then have "xs = []" "tail = [None]" using ended by (cases xs; auto simp: stream_at_def)+
  then have "stream_at fr (pending from_seq (fs_ledger s)) from_seq s' k [] []"
    using at ended by (auto simp: stream_at_def)
  then show ?thesis using assms(2) ended by (auto simp: stream_ok_def)
next
  case (raised err)
  then show ?thesis using assms(2) by (intro stream_quiet [OF assms(2)]) (auto)
next
  case closed
  then show ?thesis using assms(2) by (intro stream_quiet [OF assms(2)]) (auto)
next
  case drained
  then show ?thesis using assms(2) by (intro stream_quiet [OF assms(2)]) (auto)
qed

interpretation follow: inductive_invariant
  "\<lambda>s. \<exists>f evs t. s = open_stream from_seq f evs t \<and> readable f \<and> holds_events loads (ef_content f) evs \<and> list_all (deliverable fr) evs"
  "follow_step loads fr run_id cap" "stream_ok loads fr from_seq cap"
  for loads fr run_id cap from_seq
proof unfold_locales
  fix s
  assume "\<exists>f evs t. s = open_stream from_seq f evs t \<and> readable f \<and> holds_events loads (ef_content f) evs \<and> list_all (deliverable fr) evs"
  then obtain f evs t where s: "s = open_stream from_seq f evs t" "readable f" "holds_events loads (ef_content f) evs" "list_all (deliverable fr) evs"
    by blast
  then have "stream_at fr (pending from_seq evs) from_seq s 0 [] []" by (simp add: stream_at_def open_stream_def)
  then show "stream_ok loads fr from_seq cap s" using s by (auto simp: stream_ok_def open_stream_def)
qed (rule stream_step_ok)

text \<open>C19. A follow stream is faithful.  However the run appends, the watcher polls and the consumer takes
  its time, the events delivered so far are the first events past the cursor, in order and without gaps,
  and the queue stays within its bound; and a stream that ends by itself has delivered every event of a
  ledger whose run has a trusted terminal.\<close>

theorem follow_stream_faithful:
  assumes "readable f" "holds_events loads (ef_content f) evs" "list_all (deliverable fr) evs"
    "(follow_step loads fr run_id cap)\<^sup>*\<^sup>* (open_stream from_seq f evs t) s"
  shows "(\<exists>k. fs_delivered s = map (shown fr) (take k (pending from_seq (fs_ledger s)))) \<and>
    (0 < cap \<longrightarrow> length (fs_queue s) \<le> cap) \<and>
    (fs_end s = Some Ended \<longrightarrow>
      fs_delivered s = map (shown fr) (pending from_seq (fs_ledger s)) \<and> fs_terminal s = TERM_TRUSTED)"
proof -
  have "stream_ok loads fr from_seq cap s" using follow.inv_reachable [OF _ assms(4)] assms(1-3) by blast
  then obtain k xs tail where at: "stream_at fr (pending from_seq (fs_ledger s)) from_seq s k xs tail" "0 < cap \<longrightarrow> length (fs_queue s) \<le> cap"
    by (auto simp: stream_ok_def)
  then have all: "fs_delivered s @ xs = map (shown fr) (take k (pending from_seq (fs_ledger s)))"
      "fs_end s = Some Ended \<longrightarrow> xs = [] \<and> k = length (pending from_seq (fs_ledger s)) \<and> fs_terminal s = TERM_TRUSTED"
    by (auto simp: stream_at_def)
  have "fs_delivered s = take (length (fs_delivered s)) (map (shown fr) (take k (pending from_seq (fs_ledger s))))"
    unfolding all(1) [symmetric] by simp
  then have "fs_delivered s = map (shown fr) (take (min (length (fs_delivered s)) k) (pending from_seq (fs_ledger s)))"
    by (simp add: take_map min.commute)
  then show ?thesis using all at(2) by auto
qed

section \<open>A followed event always frames\<close>

lemma follow_text:
  assumes "\<And>l. dumps_fmt (fmt_canonical fr) v l = Some ta" "json_int n = Some ti"
  shows "\<exists>t. dumps_fmt (fmt_canonical fr) (PDict (build_result rid [(''run_id'', PStr r), (''events'', v), (''follow'', PBool True),
      (''seq'', PInt n)])) 0 = Some t \<and>
    utf8_len t \<le> 200 + utf8_len (json_string_raw rid) + utf8_len (json_string_raw r) + utf8_len ta + utf8_len ti"
  using assms
  by (simp add: build_result_def bracketed_def line_break_def fmt_canonical_def utf8_len_append utf8_len_Cons
      json_string_raw_def esc_char_raw_def)

lemma followed_event_frames:
  assumes "sized fr ev" "2 + event_size fr ev \<le> MAX_EVENTS_RESPONSE_BYTES" "dget ev ''seq'' = PInt n" "length run_id \<le> 255"
    "nest_depth (PDict ev) \<le> 61"
  shows "ensure_events_page_encodes fr (follow_body run_id [ev]) = Inr ()"
proof -
  let ?rid = "replicate MAX_REQUEST_ID_CHARS (CHR ''x'')"
  obtain ta where ta: "\<And>l. dumps_fmt (fmt_canonical fr) (PList (map PDict [ev])) l = Some ta" "utf8_len ta \<le> MAX_EVENTS_RESPONSE_BYTES"
  proof -
    obtain ta where "dumps_fmt (fmt_canonical fr) (PList (map PDict [ev])) 0 = Some ta" "utf8_len ta \<le> MAX_EVENTS_RESPONSE_BYTES"
      using array_text [of fr "[ev]" 0] assms(1,2) by (auto simp del: dumps_fmt.simps)
    then show thesis using that dumps_level [of "fmt_canonical fr" "PList (map PDict [ev])" _ 0]
      by (simp add: fmt_canonical_def del: dumps_fmt.simps)
  qed
  obtain ti where ti: "json_int n = Some ti"
  proof -
    obtain t where t: "dumps_fmt (fmt_canonical fr) (PDict ev) 0 = Some t" using sized_text [OF assms(1), of 0] by blast
    have "(''seq'', PInt n) \<in> set ev" using assms(3) by (auto simp: dget_def split: option.splits dest: map_of_SomeD)
    then show thesis using dumps_member [OF t] that by fastforce
  qed
  have body: "follow_body run_id [ev] =
      [(''run_id'', PStr run_id), (''events'', PList (map PDict [ev])), (''follow'', PBool True), (''seq'', PInt n)]"
    using assms(3) by (simp add: follow_body_def)
  obtain t where t: "dumps_fmt (fmt_canonical fr) (PDict (build_result ?rid (follow_body run_id [ev]))) 0 = Some t"
      "utf8_len t \<le> 200 + utf8_len (json_string_raw ?rid) + utf8_len (json_string_raw run_id) + utf8_len ta + utf8_len ti"
    using follow_text [OF ta(1) ti, of ?rid run_id] unfolding body by blast
  have "utf8_len t < MAX_FRAME_BYTES"
    using t(2) ta(2) json_int_size [OF ti] json_string_raw_size [of ?rid] json_string_raw_size [of run_id] assms(4)
    by (simp add: MAX_REQUEST_ID_CHARS_def MAX_EVENTS_RESPONSE_BYTES_def MAX_FRAME_BYTES_def)
  moreover have "nest_depth (PDict (build_result ?rid (follow_body run_id [ev]))) \<le> MAX_JSON_NESTING_DEPTH"
    using assms(5) unfolding body by (simp add: build_result_def MAX_JSON_NESTING_DEPTH_def del: nest_depth.simps(7)) (simp add: nest_depth.simps(7))
  ultimately show ?thesis by (rule body_encodes [OF t(1)])
qed

section \<open>A stream over one event\<close>

definition demo_stream :: "int \<Rightarrow> pydict option list \<Rightarrow> watcher \<Rightarrow> pydict list \<Rightarrow> stream_end option \<Rightarrow> follow_stream" where
  "demo_stream c q w dl e =
     (open_stream 0 demo_events_file [(demo_event, 1)] TERM_TRUSTED)\<lparr>fs_cursor := c, fs_queue := q, fs_watcher := w, fs_delivered := dl, fs_end := e\<rparr>"

lemma demo_readable: "readable demo_events_file"
  by (simp add: readable_def demo_events_file_def)

lemma demo_page: "\<exists>b. read_events_page demo_loads (\<lambda>_. []) demo_events_file c MAX_EVENTS_PAGE_LIMIT =
    Inr (if c < 1 then ([demo_event], 1, b) else ([], c, b))"
proof -
  have one: "1 \<le> MAX_EVENTS_PAGE_LIMIT" by (simp add: MAX_EVENTS_PAGE_LIMIT_def)
  have del: "list_all (deliverable (\<lambda>_. [])) [(demo_event, 1)]" using demo_event_deliverable by simp
  have ev: "shown (\<lambda>_. []) (demo_event, 1) = demo_event"
    by (simp add: shown_def event_size_def demo_event_json MAX_EVENTS_RESPONSE_BYTES_def)
  obtain k p early where page: "read_events_page demo_loads (\<lambda>_. []) demo_events_file c MAX_EVENTS_PAGE_LIMIT =
        Inr (pg_selected p, pg_last_seq p, \<not> early \<and> int (length (pg_selected p)) < MAX_EVENTS_PAGE_LIMIT)"
      "taken (\<lambda>_. []) MAX_EVENTS_PAGE_LIMIT \<lparr>pg_selected = [], pg_last_seq = c, pg_used_bytes = 2\<rparr> (pending c [(demo_event, 1)]) k p early"
    by (rule read_page_spec [OF demo_readable demo_file_holds del one, of c])
  note t = taken_facts [OF page(2)]
  show ?thesis
  proof (cases "c < 1")
    case True
    then have ps: "pending c [(demo_event, 1)] = [(demo_event, 1)]" by (simp add: pending_def)
    then have "k = 1" using t(1,6) by simp
    then show ?thesis using page(1) t(3,4) True ev ps by auto
  next
    case False
    then have ps: "pending c [(demo_event, 1)] = []" by (simp add: pending_def)
    then have "k = 0" using t(1) by simp
    then show ?thesis using page(1) t(3,4) False ps by auto
  qed
qed

lemma demo_frames: "ensure_events_page_encodes (\<lambda>_. []) (follow_body ''r1'' [demo_event]) = Inr ()"
proof -
  have "dget demo_event ''seq'' = PInt 1" "nest_depth (PDict demo_event) \<le> 61" by (simp_all add: demo_event_def dget_def)
  then show ?thesis using followed_event_frames [of "\<lambda>_. []" demo_event 1 "''r1''"]
    by (simp add: sized_def event_size_def demo_event_json MAX_EVENTS_RESPONSE_BYTES_def del: nest_depth.simps)
qed

theorem follow_stream_faithful_witness:
  "\<exists>s. (follow_step demo_loads (\<lambda>_. []) ''r1'' 2)\<^sup>*\<^sup>* (open_stream 0 demo_events_file [(demo_event, 1)] TERM_TRUSTED) s \<and>
    fs_end s = Some Ended \<and> fs_delivered s = [demo_event]"
proof -
  let ?st = "follow_step demo_loads (\<lambda>_. []) ''r1'' 2"
  have s0: "open_stream 0 demo_events_file [(demo_event, 1)] TERM_TRUSTED = demo_stream 0 [] Watching [] None"
    by (simp add: demo_stream_def open_stream_def)
  have seq: "seq_of demo_event = 1" by (simp add: seq_of_def demo_event_def dget_def)
  have "watch_round demo_loads (\<lambda>_. []) ''r1'' 2 (demo_stream 0 [] Watching [] None) = demo_stream 1 [Some demo_event] Watching [] None"
    using demo_page [of 0] by (auto simp: watch_round_def demo_stream_def open_stream_def demo_frames queue_full_def seq)
  then have "?st (demo_stream 0 [] Watching [] None) (demo_stream 1 [Some demo_event] Watching [] None)"
    using follow_step.watched [of "demo_stream 0 [] Watching [] None" demo_loads "\<lambda>_. []" "''r1''" 2] by (simp add: demo_stream_def open_stream_def)
  moreover have "?st (demo_stream 1 [Some demo_event] Watching [] None) (demo_stream 1 [] Watching [demo_event] None)"
    using follow_step.delivered [of "demo_stream 1 [Some demo_event] Watching [] None" demo_event "[]"] by (simp add: demo_stream_def open_stream_def)
  moreover have "watch_round demo_loads (\<lambda>_. []) ''r1'' 2 (demo_stream 1 [] Watching [demo_event] None) = demo_stream 1 [] Ending [demo_event] None"
    using demo_page [of 1] by (auto simp: watch_round_def demo_stream_def open_stream_def)
  then have "?st (demo_stream 1 [] Watching [demo_event] None) (demo_stream 1 [] Ending [demo_event] None)"
    using follow_step.watched [of "demo_stream 1 [] Watching [demo_event] None" demo_loads "\<lambda>_. []" "''r1''" 2] by (simp add: demo_stream_def open_stream_def)
  moreover have "?st (demo_stream 1 [] Ending [demo_event] None) (demo_stream 1 [None] Stopped [demo_event] None)"
    using follow_step.marked [of "demo_stream 1 [] Ending [demo_event] None" 2] by (simp add: demo_stream_def open_stream_def queue_full_def)
  moreover have "?st (demo_stream 1 [None] Stopped [demo_event] None) (demo_stream 1 [] Stopped [demo_event] (Some Ended))"
    using follow_step.ended [of "demo_stream 1 [None] Stopped [demo_event] None" "[]"] by (simp add: demo_stream_def open_stream_def)
  ultimately have run: "?st\<^sup>*\<^sup>* (open_stream 0 demo_events_file [(demo_event, 1)] TERM_TRUSTED) (demo_stream 1 [] Stopped [demo_event] (Some Ended))"
    unfolding s0 by (meson converse_rtranclp_into_rtranclp rtranclp.rtrancl_refl)
  have "fs_delivered (demo_stream 1 [] Stopped [demo_event] (Some Ended)) = [demo_event]"
    using follow_stream_faithful [OF demo_readable demo_file_holds _ run] demo_event_deliverable
    by (simp add: demo_stream_def open_stream_def pending_def shown_def event_size_def demo_event_json MAX_EVENTS_RESPONSE_BYTES_def)
  then show ?thesis using run by (intro exI [of _ "demo_stream 1 [] Stopped [demo_event] (Some Ended)"]) (simp add: demo_stream_def)
qed

end
