(* ===== verification/Profiles.thy ===== *)
theory Profiles
  imports Spec_Documents Config_Fidelity Protocol
begin

text \<open>
  The closed set of agent profiles, \<^verbatim>\<open>native_acp/profile.py\<close>: what a profile must satisfy to be
  constructed, the permission mode it requires of a run, its identity snapshot, and the registry of the
  profiles the source defines.  The JSON decoder's answer on a frozen metadata text is the argument
  \<open>loads\<close>.
\<close>

section \<open>Mediation\<close>

definition reserved_mediation_keys :: "(string \<times> (string \<times> string) list) list \<Rightarrow> string list" where
  "reserved_mediation_keys bindings = remdups (concat (map (\<lambda>b. map fst (snd b)) bindings))"

definition RESERVED_MEDIATION_KEYS :: "string list" where
  "RESERVED_MEDIATION_KEYS = reserved_mediation_keys MEDIATION_BINDINGS"

text \<open>\<^const>\<open>None\<close>: the unregistered binding raises.\<close>

definition mediation_pairs :: "string option \<Rightarrow> (string \<times> string) list option" where
  "mediation_pairs m = (case m of None \<Rightarrow> Some [] | Some i \<Rightarrow> map_of MEDIATION_BINDINGS i)"

section \<open>Permission-mode policies\<close>

definition READ_ONLY_GRANT_CAPABILITIES :: "string list" where
  "READ_ONLY_GRANT_CAPABILITIES = [''read'', ''search'']"

definition read_only_grant_ask_else_agent :: "string list \<Rightarrow> string" where
  "read_only_grant_ask_else_agent caps = (if set caps \<subseteq> set READ_ONLY_GRANT_CAPABILITIES then ''ask'' else ''agent'')"

definition read_only_grant_read_only_else_agent :: "string list \<Rightarrow> string" where
  "read_only_grant_read_only_else_agent caps =
     (if set caps \<subseteq> set READ_ONLY_GRANT_CAPABILITIES then ''read-only'' else ''agent'')"

definition PERMISSION_MODE_POLICY_READ_ONLY_ASK :: string where
  "PERMISSION_MODE_POLICY_READ_ONLY_ASK = ''read-only-grant-ask-else-agent-v1''"

definition PERMISSION_MODE_POLICY_READ_ONLY_MODE :: string where
  "PERMISSION_MODE_POLICY_READ_ONLY_MODE = ''read-only-grant-read-only-else-agent-v1''"

definition PERMISSION_MODE_POLICIES :: "(string \<times> (string list \<Rightarrow> string)) list" where
  "PERMISSION_MODE_POLICIES =
     [(PERMISSION_MODE_POLICY_READ_ONLY_ASK, read_only_grant_ask_else_agent),
      (PERMISSION_MODE_POLICY_READ_ONLY_MODE, read_only_grant_read_only_else_agent)]"

section \<open>Profiles\<close>

definition BASE_ENV_ALLOWLIST :: "string list" where
  "BASE_ENV_ALLOWLIST =
     [''HOME'', ''PATH'', ''USER'', ''LOGNAME'', ''SHELL'', ''LANG'', ''LC_ALL'', ''TZ'', ''TERM'', ''TMPDIR'',
      ''XDG_CACHE_HOME'', ''XDG_CONFIG_HOME'', ''XDG_DATA_HOME'', ''XDG_STATE_HOME'', ''XDG_RUNTIME_DIR'',
      ''http_proxy'', ''https_proxy'', ''ftp_proxy'', ''all_proxy'', ''no_proxy'',
      ''HTTP_PROXY'', ''HTTPS_PROXY'', ''FTP_PROXY'', ''ALL_PROXY'', ''NO_PROXY'',
      ''SSL_CERT_FILE'', ''SSL_CERT_DIR'', ''REQUESTS_CA_BUNDLE'', ''CURL_CA_BUNDLE'', ''NODE_EXTRA_CA_CERTS'']"

record profile =
  pf_profile_id :: string
  pf_revision :: int
  pf_acp_protocol_version :: string
  pf_required_capabilities :: "string list"
  pf_forbidden_capabilities :: "string list"
  pf_requires_session_load :: bool
  pf_base_allowlist :: "string list"
  pf_config_fidelity_mode :: string
  pf_model_selector_id :: string
  pf_effort_selector_id :: "string option"
  pf_permission_mode_selector_id :: "string option"
  pf_required_permission_mode :: "string option"
  pf_permission_mode_policy_id :: "string option"
  pf_launch_permission_policy_id :: "string option"
  pf_session_meta :: "string option"
  pf_client_capabilities_meta :: "string option"

section \<open>Construction\<close>

definition MAX_SESSION_META_LENGTH :: nat where
  "MAX_SESSION_META_LENGTH = (4096 :: nat)"

definition canonical_json :: "(rat \<Rightarrow> string) \<Rightarrow> pyval \<Rightarrow> string option" where
  "canonical_json fr v = dumps_fmt (fmt_canonical fr) v 0"

definition validate_frozen_meta :: "(string \<Rightarrow> pyval option) \<Rightarrow> (rat \<Rightarrow> string) \<Rightarrow> string \<Rightarrow> bool" where
  "validate_frozen_meta loads fr value \<longleftrightarrow>
     value \<noteq> [] \<and> length value \<le> MAX_SESSION_META_LENGTH \<and>
     (case loads value of
        Some (PDict d) \<Rightarrow> canonical_json fr (PDict d) = Some value \<and> list_all (\<lambda>p. fst p \<noteq> []) d
      | _ \<Rightarrow> False)"

text \<open>\<^verbatim>\<open>str.isdigit\<close> below 256 also takes the superscript digits; \<^verbatim>\<open>\d\<close> of the pattern does not.\<close>

definition py_isdigit :: "char \<Rightarrow> bool" where
  "py_isdigit c \<longleftrightarrow> digit c \<or> (of_char c :: nat) \<in> {178, 179, 185}"

text \<open>The digits of \<^verbatim>\<open>.*-v(\d+)\<close>.\<close>

definition protocol_generation :: "string \<Rightarrow> string option" where
  "protocol_generation s =
     (let ds = rev (takeWhile digit (rev s)); pre = rev (dropWhile digit (rev s)) in
      if ds \<noteq> [] \<and> 2 \<le> length pre \<and> drop (length pre - 2) pre = ''-v'' \<and> CHR 0x0A \<notin> set pre then Some ds else None)"

definition validate_config_fidelity :: "profile \<Rightarrow> bool" where
  "validate_config_fidelity p \<longleftrightarrow>
     validate_fidelity_pairing (pf_config_fidelity_mode p) (pf_effort_selector_id p) EFFORT_NOT_APPLICABLE = Inr () \<and>
     Some (pf_model_selector_id p) \<noteq> pf_effort_selector_id p"

definition validate_launch_permissions :: "profile \<Rightarrow> bool" where
  "validate_launch_permissions p \<longleftrightarrow>
     (case pf_launch_permission_policy_id p of
        None \<Rightarrow> True
      | Some i \<Rightarrow>
          i \<in> set (map fst POLICY_ENV_NAMES) \<and>
          list_all (\<lambda>k. k \<notin> set RESERVED_LAUNCH_PERMISSION_KEYS) (pf_base_allowlist p @ RESERVED_MEDIATION_KEYS))"

definition validate_protocol_generation :: "profile \<Rightarrow> bool" where
  "validate_protocol_generation p \<longleftrightarrow>
     (case protocol_generation (pf_profile_id p) of None \<Rightarrow> True | Some g \<Rightarrow> pf_acp_protocol_version p = g)"

definition mode_text :: "string option \<Rightarrow> bool" where
  "mode_text v \<longleftrightarrow> (case v of None \<Rightarrow> True | Some s \<Rightarrow> s \<noteq> [] \<and> list_all printable s)"

definition validate_permission_mode :: "profile \<Rightarrow> bool" where
  "validate_permission_mode p \<longleftrightarrow>
     (case pf_permission_mode_policy_id p of None \<Rightarrow> True | Some i \<Rightarrow> i \<in> set (map fst PERMISSION_MODE_POLICIES)) \<and>
     (case pf_permission_mode_selector_id p of
        None \<Rightarrow> pf_required_permission_mode p = None \<and> pf_permission_mode_policy_id p = None
      | Some selector \<Rightarrow>
          (pf_required_permission_mode p = None) \<noteq> (pf_permission_mode_policy_id p = None) \<and>
          mode_text (Some selector) \<and> mode_text (pf_required_permission_mode p))"

definition validate_session_meta :: "(string \<Rightarrow> pyval option) \<Rightarrow> (rat \<Rightarrow> string) \<Rightarrow> profile \<Rightarrow> bool" where
  "validate_session_meta loads fr p \<longleftrightarrow>
     list_all (\<lambda>m. case m of None \<Rightarrow> True | Some t \<Rightarrow> validate_frozen_meta loads fr t) [pf_session_meta p, pf_client_capabilities_meta p]"

definition validate_mediation_disjointness :: "profile \<Rightarrow> bool" where
  "validate_mediation_disjointness p \<longleftrightarrow> list_all (\<lambda>k. k \<notin> set RESERVED_MEDIATION_KEYS) (pf_base_allowlist p)"

text \<open>\<^verbatim>\<open>__post_init__\<close> accepts.\<close>

definition profile_ok :: "(string \<Rightarrow> pyval option) \<Rightarrow> (rat \<Rightarrow> string) \<Rightarrow> profile \<Rightarrow> bool" where
  "profile_ok loads fr p \<longleftrightarrow>
     pf_profile_id p \<noteq> [] \<and> pf_acp_protocol_version p \<noteq> [] \<and> list_all py_isdigit (pf_acp_protocol_version p) \<and>
     list_all (\<lambda>c. c \<notin> set (pf_forbidden_capabilities p)) (pf_required_capabilities p) \<and>
     validate_config_fidelity p \<and> validate_launch_permissions p \<and> validate_protocol_generation p \<and>
     validate_permission_mode p \<and> validate_session_meta loads fr p \<and> validate_mediation_disjointness p"

section \<open>Questions a profile answers\<close>

text \<open>The inner option is the mode, absent for a profile without a selector; the outer one is a failed
  assertion or lookup.\<close>

definition required_permission_mode_for :: "profile \<Rightarrow> string list \<Rightarrow> string option option" where
  "required_permission_mode_for p caps =
     (case pf_permission_mode_selector_id p of
        None \<Rightarrow> Some None
      | Some _ \<Rightarrow>
          (case pf_required_permission_mode p of
             Some m \<Rightarrow> Some (Some m)
           | None \<Rightarrow>
               (case pf_permission_mode_policy_id p of
                  None \<Rightarrow> None
                | Some i \<Rightarrow> map_option (\<lambda>f. Some (f caps)) (map_of PERMISSION_MODE_POLICIES i))))"

definition opt_field :: "string \<Rightarrow> string option \<Rightarrow> pydict" where
  "opt_field k v = (case v of None \<Rightarrow> [] | Some s \<Rightarrow> [(k, PStr s)])"

definition meta_field :: "(string \<Rightarrow> pyval option) \<Rightarrow> string \<Rightarrow> string option \<Rightarrow> pydict" where
  "meta_field loads k v = (case v of None \<Rightarrow> [] | Some t \<Rightarrow> (case loads t of Some d \<Rightarrow> [(k, d)] | None \<Rightarrow> []))"

definition profile_snapshot :: "(string \<Rightarrow> pyval option) \<Rightarrow> profile \<Rightarrow> pydict" where
  "profile_snapshot loads p =
     [(''profile_id'', PStr (pf_profile_id p)), (''revision'', PInt (pf_revision p)),
      (''acp_protocol_version'', PStr (pf_acp_protocol_version p)),
      (''required_capabilities'', pstrs (pf_required_capabilities p)),
      (''forbidden_capabilities'', pstrs (pf_forbidden_capabilities p)),
      (''requires_session_load'', PBool (pf_requires_session_load p)), (''base_allowlist'', pstrs (pf_base_allowlist p)),
      (''model_selector_id'', PStr (pf_model_selector_id p)), (''effort_selector_id'', pstr_opt (pf_effort_selector_id p))] @
     (if pf_config_fidelity_mode p \<noteq> FIDELITY_SEPARATE_SELECTORS
      then [(''config_fidelity_mode'', PStr (pf_config_fidelity_mode p))] else []) @
     opt_field ''launch_permission_policy_id'' (pf_launch_permission_policy_id p) @
     (case pf_permission_mode_selector_id p of
        None \<Rightarrow> []
      | Some s \<Rightarrow>
          [(''permission_mode_selector_id'', PStr s)] @ opt_field ''required_permission_mode'' (pf_required_permission_mode p) @
          opt_field ''permission_mode_policy_id'' (pf_permission_mode_policy_id p)) @
     meta_field loads ''session_meta'' (pf_session_meta p) @
     meta_field loads ''client_capabilities_meta'' (pf_client_capabilities_meta p)"

definition profile_hash :: "(string \<Rightarrow> string) \<Rightarrow> (string \<Rightarrow> pyval option) \<Rightarrow> (rat \<Rightarrow> string) \<Rightarrow> profile \<Rightarrow> string option" where
  "profile_hash sha loads fr p = map_option sha (canonical_json fr (PDict (profile_snapshot loads p)))"

definition snapshot_ref :: "profile \<Rightarrow> string" where
  "snapshot_ref p = ''registry:'' @ pf_profile_id p @ ''@r'' @ dec_int (pf_revision p)"

section \<open>The registry\<close>

text \<open>\<^const>\<open>None\<close>: a duplicate id.\<close>

definition profile_registry :: "profile list \<Rightarrow> (string \<times> profile) list option" where
  "profile_registry ps = (if distinct (map pf_profile_id ps) then Some (map (\<lambda>p. (pf_profile_id p, p)) ps) else None)"

definition standard_profile :: "string \<Rightarrow> profile" where
  "standard_profile i =
     \<lparr>pf_profile_id = i, pf_revision = 1, pf_acp_protocol_version = ''1'', pf_required_capabilities = [''loadSession''],
      pf_forbidden_capabilities = [], pf_requires_session_load = True, pf_base_allowlist = BASE_ENV_ALLOWLIST,
      pf_config_fidelity_mode = FIDELITY_SEPARATE_SELECTORS, pf_model_selector_id = ''model'',
      pf_effort_selector_id = Some ''effort'', pf_permission_mode_selector_id = None, pf_required_permission_mode = None,
      pf_permission_mode_policy_id = None, pf_launch_permission_policy_id = None, pf_session_meta = None,
      pf_client_capabilities_meta = None\<rparr>"

definition STANDARD_NATIVE_ACP_V1 :: profile where
  "STANDARD_NATIVE_ACP_V1 = standard_profile ''standard-native-acp-v1''"

definition CLAUDE_SESSION_META :: string where
  "CLAUDE_SESSION_META =
     ''{\"claudeCode\":{\"options\":{\"settingSources\":[],\"tools\":{\"preset\":\"claude_code\",\"type\":\"preset\"}}}}''"

definition CLAUDE_AGENT_ACP_COMPAT_V1 :: profile where
  "CLAUDE_AGENT_ACP_COMPAT_V1 =
     (standard_profile ''claude-agent-acp-compat-v1'')
       \<lparr>pf_permission_mode_selector_id := Some ''mode'', pf_required_permission_mode := Some ''default'',
        pf_session_meta := Some CLAUDE_SESSION_META\<rparr>"

definition CODEX_AGENT_ACP_COMPAT_V1 :: profile where
  "CODEX_AGENT_ACP_COMPAT_V1 =
     (standard_profile ''codex-agent-acp-compat-v1'')
       \<lparr>pf_permission_mode_selector_id := Some ''mode'', pf_permission_mode_policy_id := Some PERMISSION_MODE_POLICY_READ_ONLY_MODE\<rparr>"

definition PARAMETERIZED_PICKER_META :: string where
  "PARAMETERIZED_PICKER_META = ''{\"parameterizedModelPicker\":true}''"

definition CURSOR_NATIVE_ACP_V1 :: profile where
  "CURSOR_NATIVE_ACP_V1 =
     (standard_profile ''cursor-native-acp-v1'')
       \<lparr>pf_revision := 4, pf_config_fidelity_mode := FIDELITY_PARAMETERIZED, pf_effort_selector_id := None,
        pf_permission_mode_selector_id := Some ''mode'', pf_permission_mode_policy_id := Some PERMISSION_MODE_POLICY_READ_ONLY_ASK,
        pf_client_capabilities_meta := Some PARAMETERIZED_PICKER_META\<rparr>"

definition REASONIX_AGENT_ACP_COMPAT_V1 :: profile where
  "REASONIX_AGENT_ACP_COMPAT_V1 =
     (standard_profile ''reasonix-agent-acp-compat-v1'')
       \<lparr>pf_permission_mode_selector_id := Some ''tool_approval'', pf_required_permission_mode := Some ''ask''\<rparr>"

definition DEFAULT_PROFILES :: "profile list" where
  "DEFAULT_PROFILES =
     [STANDARD_NATIVE_ACP_V1, CLAUDE_AGENT_ACP_COMPAT_V1, CODEX_AGENT_ACP_COMPAT_V1, CURSOR_NATIVE_ACP_V1,
      REASONIX_AGENT_ACP_COMPAT_V1]"

definition DEFAULT_REGISTRY :: "(string \<times> profile) list" where
  "DEFAULT_REGISTRY = (case profile_registry DEFAULT_PROFILES of Some r \<Rightarrow> r | None \<Rightarrow> [])"

end
