(* ===== verification/Agent_Registry.thy ===== *)
theory Agent_Registry
  imports Profiles Submit
begin

text \<open>
  The operator's agent registry, \<^verbatim>\<open>native_acp/agent_registration.py\<close> (the grammar of one entry) and
  \<^verbatim>\<open>native_acp/agent_registry.py\<close> (the file and the rules over the whole document), with the pair of
  profile and entry that the run path asks, \<^verbatim>\<open>AgentInstance\<close> of \<^verbatim>\<open>native_acp/profile.py\<close>.  A
  refusal is its rule name.  The UTF-8 and TOML decoders' answers are arguments.
\<close>

section \<open>Entries\<close>

definition REGISTRY_SCHEMA_VERSION :: int where
  "REGISTRY_SCHEMA_VERSION = (1 :: int)"

definition REQUIRED_ENTRY_FIELDS :: "string list" where
  "REQUIRED_ENTRY_FIELDS = [''profile'', ''command'']"

definition OPTIONAL_ENTRY_FIELDS :: "string list" where
  "OPTIONAL_ENTRY_FIELDS = [''args'', ''mediation'', ''env_passthrough'', ''env_overlay'', ''model_selector'', ''effort_selector'',
   ''forbidden_capabilities'', ''session_epoch'']"
definition ENTRY_FIELDS :: "string list" where
  "ENTRY_FIELDS = REQUIRED_ENTRY_FIELDS @ OPTIONAL_ENTRY_FIELDS"

definition MAX_COMMAND_BYTES :: int where
  "MAX_COMMAND_BYTES = (4096 :: int)"

definition MAX_ARGS :: nat where
  "MAX_ARGS = (32 :: nat)"

definition MAX_ARG_BYTES :: int where
  "MAX_ARG_BYTES = (1024 :: int)"

definition MAX_ENV_OVERLAY :: nat where
  "MAX_ENV_OVERLAY = (32 :: nat)"

definition MAX_ENV_OVERLAY_VALUE_BYTES :: int where
  "MAX_ENV_OVERLAY_VALUE_BYTES = (4096 :: int)"

definition MAX_FORBIDDEN_CAPABILITIES :: nat where
  "MAX_FORBIDDEN_CAPABILITIES = (16 :: nat)"

record agent_entry =
  ae_agent_id :: string
  ae_profile_id :: string
  ae_command :: string
  ae_args :: "string list"
  ae_mediation_id :: "string option"
  ae_env_passthrough :: "string list"
  ae_env_overlay :: "(string \<times> string) list"
  ae_model_selector_id :: "string option"
  ae_effort_selector_id :: "string option"
  ae_forbidden_capabilities :: "string list"
  ae_session_epoch :: "int option"

definition entry_argv :: "agent_entry \<Rightarrow> string list" where
  "entry_argv e = ae_command e # ae_args e"

section \<open>Validators\<close>

definition texts_in :: "pyval list \<Rightarrow> string list option" where
  "texts_in vs = opt_seq (map (\<lambda>v. case v of PStr s \<Rightarrow> Some s | _ \<Rightarrow> None) vs)"

definition validate_command :: "pyval \<Rightarrow> string + string" where
  "validate_command v =
     (case v of
        PStr s \<Rightarrow>
          if s \<noteq> [] \<and> utf8_len s \<le> MAX_COMMAND_BYTES \<and> CHR 0x00 \<notin> set s \<and> (hd s = CHR ''/'' \<or> CHR ''/'' \<notin> set s)
          then Inr s else Inl ''ENTRY_COMMAND_INVALID''
      | _ \<Rightarrow> Inl ''ENTRY_COMMAND_INVALID'')"

definition validate_args :: "pyval \<Rightarrow> string + string list" where
  "validate_args v =
     (case v of
        PList vs \<Rightarrow>
          (case texts_in vs of
             Some ts \<Rightarrow>
               if length ts \<le> MAX_ARGS \<and> list_all (\<lambda>t. utf8_len t \<le> MAX_ARG_BYTES \<and> CHR 0x00 \<notin> set t) ts
               then Inr ts else Inl ''ENTRY_ARG_TOKEN_INVALID''
           | None \<Rightarrow> Inl ''ENTRY_ARG_TOKEN_INVALID'')
      | _ \<Rightarrow> Inl ''ENTRY_ARG_TOKEN_INVALID'')"

text \<open>The walk that follows a rejected list only chooses among messages of one rule.\<close>

definition validate_env_passthrough :: "pyval \<Rightarrow> string + string list" where
  "validate_env_passthrough v =
     (case v of
        PList vs \<Rightarrow>
          if is_env_passthrough_domain v then (case texts_in vs of Some ts \<Rightarrow> Inr ts | None \<Rightarrow> Inl ''ENTRY_ENV_KEY_INVALID'')
          else Inl ''ENTRY_ENV_KEY_INVALID''
      | _ \<Rightarrow> Inl ''ENTRY_ENV_KEY_INVALID'')"

fun overlay_pairs :: "pydict \<Rightarrow> string + (string \<times> string) list" where
  "overlay_pairs [] = Inr []"
| "overlay_pairs ((name, v) # d) =
     (if \<not> is_env_name (PStr name) then Inl ''ENTRY_ENV_KEY_INVALID''
      else case v of
             PStr s \<Rightarrow>
               if MAX_ENV_OVERLAY_VALUE_BYTES < utf8_len s \<or> \<not> list_all printable s then Inl ''ENTRY_ENV_VALUE_INVALID''
               else map_sum id (\<lambda>ps. (name, s) # ps) (overlay_pairs d)
           | _ \<Rightarrow> Inl ''ENTRY_ENV_VALUE_INVALID'')"

definition validate_env_overlay :: "pyval \<Rightarrow> string + (string \<times> string) list" where
  "validate_env_overlay v =
     (case v of
        PDict d \<Rightarrow> if MAX_ENV_OVERLAY < length d then Inl ''ENTRY_ENV_KEY_INVALID'' else overlay_pairs d
      | _ \<Rightarrow> Inl ''ENTRY_ENV_KEY_INVALID'')"

text \<open>\<^verbatim>\<open>[A-Za-z][A-Za-z0-9_]{0,63}\<close>: selector ids and capability names share the grammar.\<close>

definition bounded_name :: "string \<Rightarrow> bool" where
  "bounded_name s \<longleftrightarrow>
     (case s of [] \<Rightarrow> False
      | c # cs \<Rightarrow> (lower_alpha c \<or> upper_alpha c) \<and> length cs \<le> 63 \<and> list_all (\<lambda>x. alnum x \<or> x = CHR ''_'') cs)"

definition validate_selector :: "pyval \<Rightarrow> string + string" where
  "validate_selector v =
     (case v of PStr s \<Rightarrow> if bounded_name s then Inr s else Inl ''ENTRY_SELECTOR_INVALID'' | _ \<Rightarrow> Inl ''ENTRY_SELECTOR_INVALID'')"

definition validate_forbidden_capabilities :: "pyval \<Rightarrow> string + string list" where
  "validate_forbidden_capabilities v =
     (case v of
        PList vs \<Rightarrow>
          if MAX_FORBIDDEN_CAPABILITIES < length vs then Inl ''ENTRY_CAPABILITY_INVALID''
          else (case texts_in vs of
                  Some ts \<Rightarrow> if list_all bounded_name ts then Inr (sort (remdups ts)) else Inl ''ENTRY_CAPABILITY_INVALID''
                | None \<Rightarrow> Inl ''ENTRY_CAPABILITY_INVALID'')
      | _ \<Rightarrow> Inl ''ENTRY_CAPABILITY_INVALID'')"

definition validate_session_epoch :: "pyval \<Rightarrow> string + int" where
  "validate_session_epoch v =
     (case v of PInt n \<Rightarrow> if 0 < n then Inr n else Inl ''ENTRY_SESSION_EPOCH_INVALID'' | _ \<Rightarrow> Inl ''ENTRY_SESSION_EPOCH_INVALID'')"

text \<open>An optional key: absent, or validated.\<close>

definition optional_entry :: "(pyval \<Rightarrow> string + 'a) \<Rightarrow> pydict \<Rightarrow> string \<Rightarrow> string + 'a option" where
  "optional_entry f d k = (case map_of d k of None \<Rightarrow> Inr None | Some v \<Rightarrow> map_sum id Some (f v))"

definition entry_default :: "pydict \<Rightarrow> string \<Rightarrow> pyval \<Rightarrow> pyval" where
  "entry_default d k v = (case map_of d k of None \<Rightarrow> v | Some x \<Rightarrow> x)"

definition parse_entry :: "string list \<Rightarrow> string list \<Rightarrow> string \<Rightarrow> pyval \<Rightarrow> string + agent_entry" where
  "parse_entry known_profiles known_mediations agent_id payload =
     andThen (ensure (agent_id_ok agent_id) ''AGENT_ID_INVALID'') (\<lambda>_.
     case payload of
       PDict d \<Rightarrow>
         andThen (ensure (list_all (\<lambda>p. fst p \<in> set ENTRY_FIELDS) d) ''REGISTRY_UNKNOWN_KEY'') (\<lambda>_.
         andThen (ensure (list_all (\<lambda>k. has_key k d) REQUIRED_ENTRY_FIELDS) ''ENTRY_FIELD_MISSING'') (\<lambda>_.
         andThen (case dget d ''profile'' of
                    PStr s \<Rightarrow> if s \<in> set known_profiles then Inr s else Inl ''ENTRY_UNKNOWN_PROFILE''
                  | _ \<Rightarrow> Inl ''ENTRY_UNKNOWN_PROFILE'') (\<lambda>profile_id.
         andThen (case dget d ''mediation'' of
                    PNone \<Rightarrow> Inr None
                  | PStr s \<Rightarrow> if s \<in> set known_mediations then Inr (Some s) else Inl ''ENTRY_UNKNOWN_MEDIATION_ID''
                  | _ \<Rightarrow> Inl ''ENTRY_UNKNOWN_MEDIATION_ID'') (\<lambda>mediation.
         andThen (validate_command (dget d ''command'')) (\<lambda>command.
         andThen (validate_args (entry_default d ''args'' (PList []))) (\<lambda>args.
         andThen (validate_env_passthrough (entry_default d ''env_passthrough'' (PList []))) (\<lambda>passthrough.
         andThen (validate_env_overlay (entry_default d ''env_overlay'' (PDict []))) (\<lambda>overlay.
         andThen (optional_entry validate_selector d ''model_selector'') (\<lambda>model_selector.
         andThen (optional_entry validate_selector d ''effort_selector'') (\<lambda>effort_selector.
         andThen (validate_forbidden_capabilities (entry_default d ''forbidden_capabilities'' (PList []))) (\<lambda>forbidden.
         andThen (optional_entry validate_session_epoch d ''session_epoch'') (\<lambda>epoch.
           Inr \<lparr>ae_agent_id = agent_id, ae_profile_id = profile_id, ae_command = command, ae_args = args,
                ae_mediation_id = mediation, ae_env_passthrough = passthrough, ae_env_overlay = overlay,
                ae_model_selector_id = model_selector, ae_effort_selector_id = effort_selector,
                ae_forbidden_capabilities = forbidden, ae_session_epoch = epoch\<rparr>))))))))))))
     | _ \<Rightarrow> Inl ''REGISTRY_PARSE'')"

definition declared_environment_names :: "agent_entry \<Rightarrow> string list" where
  "declared_environment_names e = ae_env_passthrough e @ map fst (ae_env_overlay e)"

definition entry_projection :: "agent_entry \<Rightarrow> pydict" where
  "entry_projection e =
     [(''agent_id'', PStr (ae_agent_id e)), (''profile'', PStr (ae_profile_id e)), (''command'', PStr (ae_command e)),
      (''args'', pstrs (ae_args e)), (''mediation'', pstr_opt (ae_mediation_id e)),
      (''env_passthrough'', pstrs (ae_env_passthrough e)), (''env_overlay_names'', pstrs (map fst (ae_env_overlay e))),
      (''model_selector'', pstr_opt (ae_model_selector_id e)), (''effort_selector'', pstr_opt (ae_effort_selector_id e)),
      (''forbidden_capabilities'', pstrs (ae_forbidden_capabilities e)), (''session_epoch'', pint_opt (ae_session_epoch e))]"

section \<open>The document\<close>

definition TOP_LEVEL_FIELDS :: "string list" where
  "TOP_LEVEL_FIELDS = [''schema_version'', ''agents'']"

definition reserved_keys_for_policy :: "string option \<Rightarrow> string list" where
  "reserved_keys_for_policy p =
     (case p of None \<Rightarrow> [] | Some i \<Rightarrow> (case map_of POLICY_ENV_NAMES i of None \<Rightarrow> [] | Some n \<Rightarrow> [n]))"

definition declares_any :: "string list \<Rightarrow> agent_entry \<Rightarrow> bool" where
  "declares_any keys e \<longleftrightarrow> list_ex (\<lambda>n. n \<in> set keys) (declared_environment_names e)"

definition refuse_mediation_key_collisions :: "(string \<times> agent_entry) list \<Rightarrow> string + unit" where
  "refuse_mediation_key_collisions es =
     ensure (\<not> list_ex (\<lambda>e. declares_any RESERVED_MEDIATION_KEYS (snd e)) es) ''MEDIATION_KEY_COLLISION''"

text \<open>The lookup of an entry's profile cannot fail: the entry names a known profile.\<close>

definition profile_launch_keys :: "(string \<times> profile) list \<Rightarrow> agent_entry \<Rightarrow> string list" where
  "profile_launch_keys reg e =
     (case map_of reg (ae_profile_id e) of
        None \<Rightarrow> []
      | Some p \<Rightarrow> reserved_keys_for_policy (pf_launch_permission_policy_id p))"

definition refuse_launch_permission_key_collisions :: "(string \<times> profile) list \<Rightarrow> (string \<times> agent_entry) list \<Rightarrow> string + unit" where
  "refuse_launch_permission_key_collisions reg es =
     ensure (\<not> list_ex (\<lambda>e. declares_any (profile_launch_keys reg (snd e)) (snd e)) es) ''LAUNCH_PERMISSION_KEY_COLLISION''"

fun parse_entries :: "(string \<times> profile) list \<Rightarrow> pydict \<Rightarrow> string + (string \<times> agent_entry) list" where
  "parse_entries reg [] = Inr []"
| "parse_entries reg ((agent_id, v) # d) =
     andThen (parse_entry (map fst reg) MEDIATION_BINDING_IDS agent_id v) (\<lambda>e.
     andThen (parse_entries reg d) (\<lambda>es. Inr ((agent_id, e) # es)))"

definition parse_registry_document :: "(string \<times> profile) list \<Rightarrow> pyval \<Rightarrow> string + (string \<times> agent_entry) list" where
  "parse_registry_document reg document =
     (case document of
        PDict d \<Rightarrow>
          andThen (ensure (list_all (\<lambda>p. fst p \<in> set TOP_LEVEL_FIELDS) d) ''REGISTRY_UNKNOWN_KEY'') (\<lambda>_.
          andThen (ensure (dget d ''schema_version'' = PInt REGISTRY_SCHEMA_VERSION) ''REGISTRY_SCHEMA_VERSION'') (\<lambda>_.
          case entry_default d ''agents'' (PDict []) of
            PDict agents \<Rightarrow>
              andThen (parse_entries reg (sort_key fst agents)) (\<lambda>es.
              andThen (refuse_mediation_key_collisions es) (\<lambda>_.
              andThen (refuse_launch_permission_key_collisions reg es) (\<lambda>_. Inr es)))
          | _ \<Rightarrow> Inl ''REGISTRY_PARSE''))
      | _ \<Rightarrow> Inl ''REGISTRY_PARSE'')"

section \<open>The single read\<close>

definition MAX_REGISTRY_BYTES :: nat where
  "MAX_REGISTRY_BYTES = (1048576 :: nat)"

definition REGISTRY_READ_CHUNK :: nat where
  "REGISTRY_READ_CHUNK = (65536 :: nat)"

datatype open_answer = Open_Ok | Open_Absent | Open_Directory | Open_Error

record registry_file =
  gf_open :: open_answer
  gf_fstat :: bool
  gf_regular :: bool
  gf_group_writable :: bool
  gf_world_writable :: bool
  gf_size :: nat
  gf_reads :: "nat \<Rightarrow> nat option"
  gf_content :: bytes

function read_chunks :: "(nat \<Rightarrow> nat option) \<Rightarrow> nat \<Rightarrow> nat \<Rightarrow> bytes \<Rightarrow> bytes option" where
  "read_chunks reads k remaining rest =
     (if remaining = 0 then Some []
      else case reads k of
             None \<Rightarrow> None
           | Some n \<Rightarrow>
               if rest = [] then Some []
               else (let got = min (length rest) (max 1 (min n (min remaining REGISTRY_READ_CHUNK))) in
                     map_option (\<lambda>more. take got rest @ more) (read_chunks reads (Suc k) (remaining - got) (drop got rest))))"
  by pat_completeness auto
termination
  by (relation "measure (\<lambda>(_, _, _, rest). length rest)") (auto simp: min_def neq_Nil_conv)

declare read_chunks.simps [simp del]

definition read_registry_bytes :: "registry_file \<Rightarrow> string + bytes" where
  "read_registry_bytes f =
     (case gf_open f of
        Open_Absent \<Rightarrow> Inl ''REGISTRY_ABSENT''
      | Open_Directory \<Rightarrow> Inl ''REGISTRY_NOT_REGULAR_FILE''
      | Open_Error \<Rightarrow> Inl ''REGISTRY_UNREADABLE''
      | Open_Ok \<Rightarrow>
          if \<not> gf_fstat f then Inl ''REGISTRY_UNREADABLE''
          else if \<not> gf_regular f then Inl ''REGISTRY_NOT_REGULAR_FILE''
          else if gf_group_writable f \<or> gf_world_writable f then Inl ''REGISTRY_UNSAFE_MODE''
          else if MAX_REGISTRY_BYTES < gf_size f then Inl ''REGISTRY_TOO_LARGE''
          else (case read_chunks (gf_reads f) 0 (MAX_REGISTRY_BYTES + 1) (gf_content f) of
                  None \<Rightarrow> Inl ''REGISTRY_UNREADABLE''
                | Some raw \<Rightarrow> if MAX_REGISTRY_BYTES < length raw then Inl ''REGISTRY_TOO_LARGE'' else Inr raw))"

definition load_agents_file ::
  "(bytes \<Rightarrow> string option) \<Rightarrow> (string \<Rightarrow> pyval option) \<Rightarrow> registry_file \<Rightarrow> string + (string \<times> agent_entry) list" where
  "load_agents_file utf8 toml f =
     andThen (read_registry_bytes f) (\<lambda>raw.
     case utf8 raw of
       None \<Rightarrow> Inl ''REGISTRY_PARSE''
     | Some t \<Rightarrow> (case toml t of None \<Rightarrow> Inl ''REGISTRY_PARSE'' | Some v \<Rightarrow> parse_registry_document DEFAULT_REGISTRY v))"

definition snapshot_ids :: "(string \<times> agent_entry) list \<Rightarrow> string list" where
  "snapshot_ids es = sort (map fst es)"

definition snapshot_get :: "(string \<times> agent_entry) list \<Rightarrow> string \<Rightarrow> string + agent_entry" where
  "snapshot_get es agent_id =
     (if \<not> agent_id_ok agent_id then Inl ''AGENT_ID_INVALID''
      else case map_of es agent_id of None \<Rightarrow> Inl ''AGENT_NOT_REGISTERED'' | Some e \<Rightarrow> Inr e)"

section \<open>The pair of profile and entry\<close>

definition instance_ok :: "profile \<Rightarrow> agent_entry \<Rightarrow> bool" where
  "instance_ok p e \<longleftrightarrow>
     ae_profile_id e = pf_profile_id p \<and>
     (pf_config_fidelity_mode p = FIDELITY_SEPARATE_SELECTORS \<or> ae_effort_selector_id e = None)"

definition instance_forbidden_capabilities :: "profile \<Rightarrow> agent_entry \<Rightarrow> string list" where
  "instance_forbidden_capabilities p e = sort (remdups (pf_forbidden_capabilities p @ ae_forbidden_capabilities e))"

text \<open>\<^verbatim>\<open>or\<close>: an empty hint counts as none.\<close>

definition instance_model_selector :: "profile \<Rightarrow> agent_entry \<Rightarrow> string" where
  "instance_model_selector p e = (case ae_model_selector_id e of Some (c # cs) \<Rightarrow> c # cs | _ \<Rightarrow> pf_model_selector_id p)"

definition instance_effort_selector :: "profile \<Rightarrow> agent_entry \<Rightarrow> string option" where
  "instance_effort_selector p e =
     (if pf_config_fidelity_mode p \<noteq> FIDELITY_SEPARATE_SELECTORS then None
      else case ae_effort_selector_id e of Some (c # cs) \<Rightarrow> Some (c # cs) | _ \<Rightarrow> pf_effort_selector_id p)"

definition resolve_run_environment ::
  "(string \<times> string) list \<Rightarrow> profile \<Rightarrow> agent_entry \<Rightarrow> (string \<times> string) list \<Rightarrow> resolved_environment option" where
  "resolve_run_environment arsd_env p e launch_permission =
     map_option (\<lambda>pairs. resolve_environment
       \<lparr>el_arsd_env = arsd_env, el_base_names = pf_base_allowlist p, el_passthrough = ae_env_passthrough e,
        el_overlay = ae_env_overlay e, el_mediation = pairs, el_mediation_id = ae_mediation_id e,
        el_launch_permission = launch_permission\<rparr>) (mediation_pairs (ae_mediation_id e))"

end
