(* ===== verification/Agent_Registry_Props.thy ===== *)
theory Agent_Registry_Props
  imports Agent_Registry Spec_Props
begin

text \<open>
  The agent registry and the profiles: one read of the file yields its whole content or a refusal, the
  entries accepted are exactly the well-formed ones, the built-in profiles are constructible and their
  snapshots identify them, and nothing an operator declares can own a mediation key of the environment.
\<close>

section \<open>The file read\<close>

lemma read_chunks_take: "read_chunks reads k remaining rest = Some raw \<Longrightarrow> raw = take remaining rest"
proof (induction reads k remaining rest arbitrary: raw rule: read_chunks.induct)
  case (1 reads k remaining rest)
  show ?case
  proof (cases "remaining = 0 \<or> rest = []")
    case True
    with "1.prems" show ?thesis by (subst (asm) read_chunks.simps) (auto split: option.splits if_splits)
  next
    case False
    then obtain n where n: "reads k = Some n"
      using "1.prems" by (subst (asm) read_chunks.simps) (auto split: option.splits)
    define got where "got = min (length rest) (max 1 (min n (min remaining REGISTRY_READ_CHUNK)))"
    from "1.prems" False n obtain tail where tail: "read_chunks reads (Suc k) (remaining - got) (drop got rest) = Some tail"
        "raw = take got rest @ tail"
      by (subst (asm) read_chunks.simps) (auto simp: got_def Let_def)
    have "tail = take (remaining - got) (drop got rest)"
      using "1.IH" [OF _ n _ got_def tail(1)] False by simp
    moreover have "got \<le> remaining" using False by (auto simp: got_def)
    ultimately show ?thesis using tail(2) by (simp add: take_add [symmetric])
  qed
qed

lemma read_chunks_total: "\<forall>i. reads i \<noteq> None \<Longrightarrow> \<exists>raw. read_chunks reads k remaining rest = Some raw"
proof (induction reads k remaining rest rule: read_chunks.induct)
  case (1 reads k remaining rest)
  show ?case
  proof (cases "remaining = 0 \<or> rest = []")
    case True
    with "1.prems" [rule_format, of k] show ?thesis by (subst read_chunks.simps) (auto split: option.splits)
  next
    case False
    obtain n where n: "reads k = Some n" using "1.prems" by blast
    define got where "got = min (length rest) (max 1 (min n (min remaining REGISTRY_READ_CHUNK)))"
    have "\<exists>raw. read_chunks reads (Suc k) (remaining - got) (drop got rest) = Some raw"
      using "1.IH" [OF _ n _ got_def "1.prems"] False by simp
    then show ?thesis using False n by (subst read_chunks.simps) (auto simp: Let_def got_def)
  qed
qed

text \<open>The single read of the agent registry is all or nothing: however the operating system splits
  the file into chunks, an accepted read is the complete content of a regular file that neither group nor
  world may write and that holds at most one mebibyte; and such a file, once it opens and every read
  succeeds, is always accepted.\<close>

lemma registry_read_exact:
  "read_registry_bytes f = Inr raw \<longleftrightarrow>
     gf_open f = Open_Ok \<and> gf_fstat f \<and> gf_regular f \<and> \<not> gf_group_writable f \<and> \<not> gf_world_writable f \<and>
     gf_size f \<le> MAX_REGISTRY_BYTES \<and> length (gf_content f) \<le> MAX_REGISTRY_BYTES \<and> raw = gf_content f \<and>
     read_chunks (gf_reads f) 0 (MAX_REGISTRY_BYTES + 1) (gf_content f) \<noteq> None"
proof (cases "read_chunks (gf_reads f) 0 (MAX_REGISTRY_BYTES + 1) (gf_content f)")
  case None
  then show ?thesis using None [simplified] by (auto simp: read_registry_bytes_def split: open_answer.splits)
next
  case (Some r)
  have r: "r = take (MAX_REGISTRY_BYTES + 1) (gf_content f)" by (rule read_chunks_take [OF Some])
  have fits: "\<not> MAX_REGISTRY_BYTES < length r \<longleftrightarrow> length (gf_content f) \<le> MAX_REGISTRY_BYTES"
    by (auto simp: r)
  have "r = gf_content f" if "length (gf_content f) \<le> MAX_REGISTRY_BYTES" using that by (simp add: r)
  then show ?thesis using fits by (auto simp: read_registry_bytes_def Some Some [simplified] split: open_answer.splits)
qed

section \<open>The environment\<close>

lemma map_of_values: "map_of (map (\<lambda>(n, v, s, p). (n, v)) xs) k = map_option fst (map_of xs k)"
  by (induction xs) auto

lemma resolved_values: "map_of (re_values (resolve_environment l)) k = map_option fst (map_of (resolved_map l) k)"
  by (simp add: resolve_environment_def Let_def map_of_values environment_layers_map_of)

lemma present_in_names: "fst ` set (present_in env ns) \<subseteq> set ns"
  by (auto simp: present_in_def map_filter_def)

lemma resolved_mediation_key:
  assumes "k \<notin> set (el_base_names l)" "k \<notin> set (el_passthrough l)" "k \<notin> fst ` set (el_overlay l)"
    and "k \<notin> fst ` set (el_launch_permission l)"
  shows "map_of (resolved_map l) k =
     map_option (\<lambda>v. (v, ''mediation'', the (map_of ENV_PRECEDENCE ''mediation''))) (map_of (rev (el_mediation l)) k)"
proof -
  have "map_of (rev (present_in (el_arsd_env l) ns)) k = None" if "k \<notin> set ns" for ns
    using that present_in_names [of "el_arsd_env l" ns] by (auto simp: map_of_eq_None_iff)
  moreover have "map_of (rev xs) k = None" if "k \<notin> fst ` set xs" for xs :: "(string \<times> string) list"
    using that by (simp add: map_of_eq_None_iff)
  ultimately show ?thesis
    using assms by (simp add: resolved_map_def map_of_fold_place del: map_of_eq_None_iff split: option.splits)
qed

lemma parsed_entries:
  "parse_entries reg d = Inr es \<Longrightarrow> (a, e) \<in> set es \<Longrightarrow> \<exists>v. parse_entry (map fst reg) MEDIATION_BINDING_IDS a v = Inr e"
  by (induction d arbitrary: es) (auto simp: andThen_Inr, blast+)

definition entry_steps :: "string list \<Rightarrow> string list \<Rightarrow> pydict \<Rightarrow> agent_entry \<Rightarrow> bool" where
  "entry_steps kp km d e \<longleftrightarrow>
     list_all (\<lambda>p. fst p \<in> set ENTRY_FIELDS) d \<and> list_all (\<lambda>k. has_key k d) REQUIRED_ENTRY_FIELDS \<and>
     dget d ''profile'' = PStr (ae_profile_id e) \<and> ae_profile_id e \<in> set kp \<and>
     dget d ''mediation'' = pstr_opt (ae_mediation_id e) \<and> set_option (ae_mediation_id e) \<subseteq> set km \<and>
     validate_command (dget d ''command'') = Inr (ae_command e) \<and>
     validate_args (entry_default d ''args'' (PList [])) = Inr (ae_args e) \<and>
     validate_env_passthrough (entry_default d ''env_passthrough'' (PList [])) = Inr (ae_env_passthrough e) \<and>
     validate_env_overlay (entry_default d ''env_overlay'' (PDict [])) = Inr (ae_env_overlay e) \<and>
     optional_entry validate_selector d ''model_selector'' = Inr (ae_model_selector_id e) \<and>
     optional_entry validate_selector d ''effort_selector'' = Inr (ae_effort_selector_id e) \<and>
     validate_forbidden_capabilities (entry_default d ''forbidden_capabilities'' (PList [])) = Inr (ae_forbidden_capabilities e) \<and>
     optional_entry validate_session_epoch d ''session_epoch'' = Inr (ae_session_epoch e)"

lemma profile_step:
  "(case v of PStr s \<Rightarrow> if s \<in> A then Inr s else Inl x | _ \<Rightarrow> Inl x) = Inr p \<longleftrightarrow> v = PStr p \<and> p \<in> A"
  by (auto split: pyval.splits)

lemma mediation_step:
  "(case v of PNone \<Rightarrow> Inr None | PStr s \<Rightarrow> if s \<in> A then Inr (Some s) else Inl x | _ \<Rightarrow> Inl x) = Inr m \<longleftrightarrow>
     v = pstr_opt m \<and> set_option m \<subseteq> A"
  by (cases m) (auto split: pyval.splits)

lemma parse_entry_steps:
  assumes "parse_entry kp km a v = Inr e"
  shows "ae_agent_id e = a \<and> agent_id_ok a \<and> (\<exists>d. v = PDict d \<and> entry_steps kp km d e)"
proof (cases v)
  case (PDict d)
  from assms show ?thesis
    unfolding parse_entry_def PDict pyval.case andThen_Inr ensure_iff profile_step mediation_step
    by (elim exE conjE) (simp add: entry_steps_def, (drule sym)?, simp)
qed (use assms in \<open>simp_all add: parse_entry_def andThen_Inr\<close>)

lemma parse_entry_complete:
  assumes "agent_id_ok (ae_agent_id e)" and "entry_steps kp km d e"
  shows "parse_entry kp km (ae_agent_id e) (PDict d) = Inr e"
proof -
  have m: "(case dget d ''mediation'' of PNone \<Rightarrow> Inr None | PStr s \<Rightarrow> if s \<in> set km then Inr (Some s) else Inl x | _ \<Rightarrow> Inl x)
      = Inr (ae_mediation_id e)" for x :: string
    using assms(2) by (simp add: mediation_step entry_steps_def)
  show ?thesis
    using assms unfolding parse_entry_def entry_steps_def pyval.case m by (simp add: ensure_def)
qed

section \<open>Well-formed entries\<close>

lemma map_PStr_eq [simp]: "map PStr xs = map PStr ys \<longleftrightarrow> xs = ys"
  by (rule inj_map_eq_map) (simp add: inj_def)

lemma texts_in_map [simp]: "texts_in (map PStr ts) = Some ts"
  by (induction ts) (simp_all add: texts_in_def)

lemma texts_in_map_of: "texts_in vs = Some ts \<Longrightarrow> vs = map PStr ts"
proof (induction vs arbitrary: ts)
  case (Cons v vs)
  then show ?case by (auto simp: texts_in_def split: pyval.splits option.splits)
qed (simp add: texts_in_def)

lemma texts_in_iff: "texts_in vs = Some ts \<longleftrightarrow> vs = map PStr ts"
  using texts_in_map_of by auto

definition command_ok :: "string \<Rightarrow> bool" where
  "command_ok s \<longleftrightarrow> s \<noteq> [] \<and> utf8_len s \<le> MAX_COMMAND_BYTES \<and> CHR 0x00 \<notin> set s \<and> (hd s = CHR ''/'' \<or> CHR ''/'' \<notin> set s)"

definition args_ok :: "string list \<Rightarrow> bool" where
  "args_ok ts \<longleftrightarrow> length ts \<le> MAX_ARGS \<and> list_all (\<lambda>t. utf8_len t \<le> MAX_ARG_BYTES \<and> CHR 0x00 \<notin> set t) ts"

definition overlay_ok :: "(string \<times> string) list \<Rightarrow> bool" where
  "overlay_ok ps \<longleftrightarrow> length ps \<le> MAX_ENV_OVERLAY \<and>
     list_all (\<lambda>(n, s). is_env_name (PStr n) \<and> utf8_len s \<le> MAX_ENV_OVERLAY_VALUE_BYTES \<and> list_all printable s) ps"

definition capabilities_ok :: "string list \<Rightarrow> bool" where
  "capabilities_ok cs \<longleftrightarrow> length cs \<le> MAX_FORBIDDEN_CAPABILITIES \<and> list_all bounded_name cs \<and> sorted cs \<and> distinct cs"

definition entry_ok :: "string list \<Rightarrow> string list \<Rightarrow> agent_entry \<Rightarrow> bool" where
  "entry_ok kp km e \<longleftrightarrow>
     agent_id_ok (ae_agent_id e) \<and> ae_profile_id e \<in> set kp \<and> set_option (ae_mediation_id e) \<subseteq> set km \<and>
     command_ok (ae_command e) \<and> args_ok (ae_args e) \<and> is_env_passthrough_domain (pstrs (ae_env_passthrough e)) \<and>
     overlay_ok (ae_env_overlay e) \<and> pred_option bounded_name (ae_model_selector_id e) \<and>
     pred_option bounded_name (ae_effort_selector_id e) \<and> capabilities_ok (ae_forbidden_capabilities e) \<and>
     pred_option ((<) 0) (ae_session_epoch e)"

text \<open>The table an operator would write for an entry.\<close>

definition entry_table :: "agent_entry \<Rightarrow> pydict" where
  "entry_table e =
     [(''profile'', PStr (ae_profile_id e)), (''command'', PStr (ae_command e)), (''args'', pstrs (ae_args e)),
      (''env_passthrough'', pstrs (ae_env_passthrough e)),
      (''env_overlay'', PDict (map (\<lambda>(n, s). (n, PStr s)) (ae_env_overlay e))),
      (''forbidden_capabilities'', pstrs (ae_forbidden_capabilities e))] @
     opt_field ''mediation'' (ae_mediation_id e) @ opt_field ''model_selector'' (ae_model_selector_id e) @
     opt_field ''effort_selector'' (ae_effort_selector_id e) @
     (case ae_session_epoch e of None \<Rightarrow> [] | Some n \<Rightarrow> [(''session_epoch'', PInt n)])"

lemma command_step: "validate_command v = Inr s \<longleftrightarrow> v = PStr s \<and> command_ok s"
  by (auto simp: validate_command_def command_ok_def split: pyval.splits)

lemma args_step: "validate_args v = Inr ts \<longleftrightarrow> v = pstrs ts \<and> args_ok ts"
proof (cases v)
  case (PList vs)
  then show ?thesis
    using texts_in_map_of [of vs]
    by (cases "texts_in vs") (auto simp: validate_args_def args_ok_def pstrs_def)
qed (auto simp: validate_args_def pstrs_def)

lemma passthrough_step: "validate_env_passthrough v = Inr ts \<longleftrightarrow> v = pstrs ts \<and> is_env_passthrough_domain v"
proof (cases v)
  case (PList vs)
  then show ?thesis
    using texts_in_map_of [of vs]
    by (cases "texts_in vs") (auto simp: validate_env_passthrough_def pstrs_def)
qed (auto simp: validate_env_passthrough_def pstrs_def)

lemma overlay_pairs_step:
  "overlay_pairs d = Inr ps \<longleftrightarrow>
     d = map (\<lambda>(n, s). (n, PStr s)) ps \<and>
     list_all (\<lambda>(n, s). is_env_name (PStr n) \<and> utf8_len s \<le> MAX_ENV_OVERLAY_VALUE_BYTES \<and> list_all printable s) ps"
proof (induction d arbitrary: ps rule: overlay_pairs.induct)
  case (2 name v d)
  show ?case
  proof (cases v)
    case (PStr s)
    show ?thesis
    proof (cases "is_env_name (PStr name) \<and> \<not> (MAX_ENV_OVERLAY_VALUE_BYTES < utf8_len s \<or> \<not> list_all printable s)")
      case True
      then have IH: "overlay_pairs d = Inr qs \<longleftrightarrow>
          d = map (\<lambda>(n, s). (n, PStr s)) qs \<and>
          list_all (\<lambda>(n, s). is_env_name (PStr n) \<and> utf8_len s \<le> MAX_ENV_OVERLAY_VALUE_BYTES \<and> list_all printable s) qs" for qs
        using "2.IH" [OF _ PStr, of qs] by blast
      have "overlay_pairs ((name, v) # d) = Inr ps \<longleftrightarrow> (\<exists>qs. ps = (name, s) # qs \<and> overlay_pairs d = Inr qs)"
        using True by (cases "overlay_pairs d") (auto simp: PStr)
      then show ?thesis using True by (cases ps) (auto simp: PStr IH split: prod.splits)
    next
      case False
      then show ?thesis by (cases ps) (auto simp: PStr split: prod.splits)
    qed
  qed (auto simp: Cons_eq_map_conv)
qed auto

lemma overlay_step:
  "validate_env_overlay v = Inr ps \<longleftrightarrow> v = PDict (map (\<lambda>(n, s). (n, PStr s)) ps) \<and> overlay_ok ps"
  by (auto simp: validate_env_overlay_def overlay_ok_def overlay_pairs_step split: pyval.splits)

lemma selector_step: "validate_selector v = Inr s \<longleftrightarrow> v = PStr s \<and> bounded_name s"
  by (auto simp: validate_selector_def split: pyval.splits)

lemma epoch_step: "validate_session_epoch v = Inr n \<longleftrightarrow> v = PInt n \<and> 0 < n"
  by (auto simp: validate_session_epoch_def split: pyval.splits)

lemma capabilities_sound: "validate_forbidden_capabilities v = Inr cs \<Longrightarrow> capabilities_ok cs"
  by (auto simp: validate_forbidden_capabilities_def capabilities_ok_def texts_in_iff list_all_iff
      split: pyval.splits option.splits if_splits)
     (meson length_remdups_leq le_trans linorder_not_less)

lemma capabilities_complete: "capabilities_ok cs \<Longrightarrow> validate_forbidden_capabilities (pstrs cs) = Inr cs"
  by (simp add: validate_forbidden_capabilities_def pstrs_def capabilities_ok_def distinct_remdups_id sorted_sort_id)

lemma optional_step:
  assumes "\<And>v x. f v = Inr x \<Longrightarrow> P x" and "optional_entry f d k = Inr y"
  shows "pred_option P y"
  using assms by (cases "map_of d k"; cases "f (the (map_of d k))") (auto simp: optional_entry_def)

lemma entry_steps_sound: "agent_id_ok (ae_agent_id e) \<Longrightarrow> entry_steps kp km d e \<Longrightarrow> entry_ok kp km e"
  unfolding entry_steps_def entry_ok_def command_step args_step passthrough_step overlay_step
  by (auto intro: capabilities_sound optional_step [where f = validate_selector]
      optional_step [where f = validate_session_epoch] simp: selector_step epoch_step)

lemma entry_table_keys:
  "map_of (entry_table e) ''profile'' = Some (PStr (ae_profile_id e))"
  "map_of (entry_table e) ''command'' = Some (PStr (ae_command e))"
  "map_of (entry_table e) ''args'' = Some (pstrs (ae_args e))"
  "map_of (entry_table e) ''env_passthrough'' = Some (pstrs (ae_env_passthrough e))"
  "map_of (entry_table e) ''env_overlay'' = Some (PDict (map (\<lambda>(n, s). (n, PStr s)) (ae_env_overlay e)))"
  "map_of (entry_table e) ''forbidden_capabilities'' = Some (pstrs (ae_forbidden_capabilities e))"
  "map_of (entry_table e) ''mediation'' = map_option PStr (ae_mediation_id e)"
  "map_of (entry_table e) ''model_selector'' = map_option PStr (ae_model_selector_id e)"
  "map_of (entry_table e) ''effort_selector'' = map_option PStr (ae_effort_selector_id e)"
  "map_of (entry_table e) ''session_epoch'' = map_option PInt (ae_session_epoch e)"
  by (simp_all add: entry_table_def opt_field_def split: option.splits)

lemma entry_table_fields:
  "list_all (\<lambda>p. fst p \<in> set ENTRY_FIELDS) (entry_table e)" "list_all (\<lambda>k. has_key k (entry_table e)) REQUIRED_ENTRY_FIELDS"
  by (auto simp: entry_table_def opt_field_def ENTRY_FIELDS_def REQUIRED_ENTRY_FIELDS_def OPTIONAL_ENTRY_FIELDS_def
      has_key_def split: option.splits)

lemma entry_steps_table: "entry_ok kp km e \<Longrightarrow> entry_steps kp km (entry_table e) e"
  using passthrough_step [of "pstrs (ae_env_passthrough e)" "ae_env_passthrough e"]
    command_step [of "PStr (ae_command e)" "ae_command e"] args_step [of "pstrs (ae_args e)" "ae_args e"]
  by (auto simp: entry_steps_def entry_ok_def entry_table_fields dget_def entry_default_def entry_table_keys
      overlay_step capabilities_complete optional_entry_def validate_selector_def validate_session_epoch_def
      split: option.splits)

lemma registry_entries_parse:
  "(\<exists>v. parse_entry kp km a v = Inr e) \<longleftrightarrow> ae_agent_id e = a \<and> entry_ok kp km e"
  "entry_ok kp km e \<Longrightarrow> parse_entry kp km (ae_agent_id e) (PDict (entry_table e)) = Inr e"
proof -
  have again: "parse_entry kp km (ae_agent_id e) (PDict (entry_table e)) = Inr e" if "entry_ok kp km e"
    using that parse_entry_complete [OF _ entry_steps_table] by (simp add: entry_ok_def)
  have "entry_ok kp km e \<and> ae_agent_id e = a" if "parse_entry kp km a v = Inr e" for v
    using parse_entry_steps [OF that] entry_steps_sound [of e kp km] by blast
  then show "(\<exists>v. parse_entry kp km a v = Inr e) \<longleftrightarrow> ae_agent_id e = a \<and> entry_ok kp km e"
    using again by blast
  show "entry_ok kp km e \<Longrightarrow> parse_entry kp km (ae_agent_id e) (PDict (entry_table e)) = Inr e"
    by (rule again)
qed

text \<open>The registry grammar is exact and loses nothing: some table is accepted as the entry \<open>e\<close> under the
  id \<open>a\<close> exactly when \<open>e\<close> carries that id and is well-formed (known profile, known mediation, bounded
  command, arguments, environment names and values, selectors, capabilities and a positive epoch), and the
  table written for a well-formed entry parses back to that entry.\<close>

theorem registry_entries_exact:
  "((\<exists>v. parse_entry kp km a v = Inr e) \<longleftrightarrow> ae_agent_id e = a \<and> entry_ok kp km e) \<and>
   (parse_entry kp km (ae_agent_id e) (PDict (entry_table e)) = Inr e \<longleftrightarrow> entry_ok kp km e)"
  using registry_entries_parse(2) [of kp km e] registry_entries_parse(1) [of kp km "ae_agent_id e" e] registry_entries_parse(1) [of kp km a e] by blast

section \<open>Ownership of the mediation keys\<close>

lemma binding_total: "set_option m \<subseteq> set MEDIATION_BINDING_IDS \<Longrightarrow> mediation_pairs m \<noteq> None"
  by (cases m) (simp_all add: mediation_pairs_def MEDIATION_BINDING_IDS_def map_of_eq_None_iff del: not_None_eq)

lemma binding_once: "mediation_pairs m = Some pairs \<Longrightarrow> map_of (rev pairs) k = map_of pairs k"
  by (auto simp: mediation_pairs_def MEDIATION_BINDINGS_def split: option.splits if_splits)

lemma reserved_keys_disjoint: "k \<in> set RESERVED_MEDIATION_KEYS \<Longrightarrow> k \<notin> set RESERVED_LAUNCH_PERMISSION_KEYS"
  by (auto simp: RESERVED_MEDIATION_KEYS_def reserved_mediation_keys_def MEDIATION_BINDINGS_def
      RESERVED_LAUNCH_PERMISSION_KEYS_def POLICY_ENV_NAMES_def CURSOR_CONFIG_DIR_ENV_def)

lemma accepted_document:
  assumes "parse_registry_document reg v = Inr es" and "(a, e) \<in> set es"
  shows "entry_ok (map fst reg) MEDIATION_BINDING_IDS e"
    and "set (declared_environment_names e) \<inter> set RESERVED_MEDIATION_KEYS = {}"
    and "set (declared_environment_names e) \<inter> set (profile_launch_keys reg e) = {}"
proof -
  from assms(1) obtain d where es: "parse_entries reg d = Inr es"
    and m: "refuse_mediation_key_collisions es = Inr ()" and l: "refuse_launch_permission_key_collisions reg es = Inr ()"
    by (auto simp: parse_registry_document_def andThen_Inr split: pyval.splits)
  show "entry_ok (map fst reg) MEDIATION_BINDING_IDS e"
    using parsed_entries [OF es assms(2)] registry_entries_parse(1) by blast
  show "set (declared_environment_names e) \<inter> set RESERVED_MEDIATION_KEYS = {}"
    "set (declared_environment_names e) \<inter> set (profile_launch_keys reg e) = {}"
    using m l assms(2) unfolding refuse_mediation_key_collisions_def refuse_launch_permission_key_collisions_def ensure_iff
      declares_any_def by (fastforce simp: list_ex_iff)+
qed

lemma mediation_owned:
  assumes doc: "parse_registry_document reg v = Inr es" "(a, e) \<in> set es"
    and p: "validate_mediation_disjointness p"
    and lp: "fst ` set launch \<subseteq> set RESERVED_LAUNCH_PERMISSION_KEYS"
    and k: "k \<in> set RESERVED_MEDIATION_KEYS"
  shows "\<exists>pairs r. mediation_pairs (ae_mediation_id e) = Some pairs \<and> resolve_run_environment arsd_env p e launch = Some r \<and>
     map_of (re_values r) k = map_of pairs k"
proof -
  have "set_option (ae_mediation_id e) \<subseteq> set MEDIATION_BINDING_IDS"
    using accepted_document(1) [OF doc] by (simp add: entry_ok_def)
  then obtain pairs where pairs: "mediation_pairs (ae_mediation_id e) = Some pairs" using binding_total by blast
  define l where "l = \<lparr>el_arsd_env = arsd_env, el_base_names = pf_base_allowlist p, el_passthrough = ae_env_passthrough e,
    el_overlay = ae_env_overlay e, el_mediation = pairs, el_mediation_id = ae_mediation_id e, el_launch_permission = launch\<rparr>"
  have "k \<notin> set (el_base_names l)" using p k by (auto simp: validate_mediation_disjointness_def list_all_iff l_def)
  moreover have "k \<notin> set (el_passthrough l)" "k \<notin> fst ` set (el_overlay l)"
    using accepted_document(2) [OF doc] k by (auto simp: declared_environment_names_def l_def)
  moreover have "k \<notin> fst ` set (el_launch_permission l)" using lp k reserved_keys_disjoint by (auto simp: l_def)
  ultimately have "map_of (re_values (resolve_environment l)) k = map_of pairs k"
    by (simp add: resolved_values resolved_mediation_key option.map_comp comp_def option.map_ident binding_once [OF pairs])
       (simp add: l_def binding_once [OF pairs])
  then show ?thesis using pairs by (simp add: resolve_run_environment_def l_def)
qed

lemma default_disjoint: "map_of DEFAULT_REGISTRY i = Some p \<Longrightarrow> validate_mediation_disjointness p"
proof -
  have reserved: "RESERVED_MEDIATION_KEYS = [''OPENCODE_PERMISSION'']"
    by (simp add: RESERVED_MEDIATION_KEYS_def reserved_mediation_keys_def MEDIATION_BINDINGS_def)
  have base: "list_all (\<lambda>k. k \<notin> set RESERVED_MEDIATION_KEYS) BASE_ENV_ALLOWLIST"
    by (simp add: reserved BASE_ENV_ALLOWLIST_def)
  assume "map_of DEFAULT_REGISTRY i = Some p"
  then have "p \<in> set DEFAULT_PROFILES"
    by (auto simp: DEFAULT_REGISTRY_def profile_registry_def dest!: map_of_SomeD split: if_splits)
  then have "pf_base_allowlist p = BASE_ENV_ALLOWLIST"
    by (auto simp: DEFAULT_PROFILES_def STANDARD_NATIVE_ACP_V1_def CLAUDE_AGENT_ACP_COMPAT_V1_def
        CODEX_AGENT_ACP_COMPAT_V1_def CURSOR_NATIVE_ACP_V1_def REASONIX_AGENT_ACP_COMPAT_V1_def standard_profile_def)
  then show ?thesis using base by (simp add: validate_mediation_disjointness_def)
qed

text \<open>C27. Nothing an operator writes can own a mediation key.  Whatever registry file was loaded and whatever
  the daemon's own environment holds, for every entry of it the run environment resolves, and in it a
  reserved mediation key has exactly the value of the entry's binding: the binding's own literal when it
  sets the key, and no value at all when the entry selects no such binding.\<close>

theorem mediation_keys_owned:
  assumes "load_agents_file utf8 toml f = Inr es" and "(a, e) \<in> set es"
    and "map_of DEFAULT_REGISTRY (ae_profile_id e) = Some p"
    and "fst ` set launch \<subseteq> set RESERVED_LAUNCH_PERMISSION_KEYS" and "k \<in> set RESERVED_MEDIATION_KEYS"
  shows "\<exists>pairs r. mediation_pairs (ae_mediation_id e) = Some pairs \<and>
     resolve_run_environment arsd_env p e launch = Some r \<and> map_of (re_values r) k = map_of pairs k"
proof -
  from assms(1) obtain v where "parse_registry_document DEFAULT_REGISTRY v = Inr es"
    by (auto simp: load_agents_file_def andThen_Inr split: option.splits)
  from mediation_owned [OF this assms(2) default_disjoint [OF assms(3)] assms(4,5)] show ?thesis .
qed

section \<open>The built-in profiles\<close>

definition claude_meta_doc :: pydict where
  "claude_meta_doc =
     [(''claudeCode'', PDict [(''options'', PDict [(''settingSources'', PList []),
        (''tools'', PDict [(''preset'', PStr ''claude_code''), (''type'', PStr ''preset'')])])])]"

definition picker_meta_doc :: pydict where
  "picker_meta_doc = [(''parameterizedModelPicker'', PBool True)]"

lemmas meta_text_simps = bracketed_def line_break_def json_string_raw_def esc_char_raw_def

lemma claude_meta_canonical: "canonical_json fr (PDict claude_meta_doc) = Some CLAUDE_SESSION_META"
  by (simp add: canonical_json_def claude_meta_doc_def CLAUDE_SESSION_META_def fmt_canonical_def meta_text_simps)

lemma picker_meta_canonical: "canonical_json fr (PDict picker_meta_doc) = Some PARAMETERIZED_PICKER_META"
  by (simp add: canonical_json_def picker_meta_doc_def PARAMETERIZED_PICKER_META_def fmt_canonical_def meta_text_simps)

lemma default_registry: "profile_registry DEFAULT_PROFILES = Some DEFAULT_REGISTRY"
  by (simp add: DEFAULT_REGISTRY_def profile_registry_def DEFAULT_PROFILES_def STANDARD_NATIVE_ACP_V1_def
      CLAUDE_AGENT_ACP_COMPAT_V1_def CODEX_AGENT_ACP_COMPAT_V1_def CURSOR_NATIVE_ACP_V1_def
      REASONIX_AGENT_ACP_COMPAT_V1_def standard_profile_def)

lemma frozen_metas:
  assumes "loads CLAUDE_SESSION_META = Some (PDict claude_meta_doc)"
    and "loads PARAMETERIZED_PICKER_META = Some (PDict picker_meta_doc)"
  shows "validate_frozen_meta loads fr CLAUDE_SESSION_META" "validate_frozen_meta loads fr PARAMETERIZED_PICKER_META"
  using assms claude_meta_canonical picker_meta_canonical
  by (simp_all add: validate_frozen_meta_def MAX_SESSION_META_LENGTH_def)
     (simp_all add: CLAUDE_SESSION_META_def claude_meta_doc_def PARAMETERIZED_PICKER_META_def picker_meta_doc_def)

lemma standard_ids:
  "protocol_generation ''standard-native-acp-v1'' = Some ''1''"
  "protocol_generation ''claude-agent-acp-compat-v1'' = Some ''1''"
  "protocol_generation ''codex-agent-acp-compat-v1'' = Some ''1''"
  "protocol_generation ''cursor-native-acp-v1'' = Some ''1''"
  "protocol_generation ''reasonix-agent-acp-compat-v1'' = Some ''1''"
  by code_simp+

lemma base_disjoint: "list_all (\<lambda>k. k \<notin> set RESERVED_MEDIATION_KEYS) BASE_ENV_ALLOWLIST"
  by (simp add: RESERVED_MEDIATION_KEYS_def reserved_mediation_keys_def MEDIATION_BINDINGS_def BASE_ENV_ALLOWLIST_def)

lemmas profile_checks = profile_ok_def validate_config_fidelity_def validate_launch_permissions_def
  validate_protocol_generation_def validate_permission_mode_def validate_session_meta_def
  validate_mediation_disjointness_def mode_text_def base_disjoint standard_ids

lemmas fidelity_words = validate_fidelity_pairing_def FIDELITY_MODES_def WHOLE_CONFIGURATION_MODES_def
  FIDELITY_SEPARATE_SELECTORS_def FIDELITY_MODEL_ONLY_def FIDELITY_PARAMETERIZED_def

lemmas policy_words = PERMISSION_MODE_POLICIES_def PERMISSION_MODE_POLICY_READ_ONLY_ASK_def
  PERMISSION_MODE_POLICY_READ_ONLY_MODE_def

lemma version_digits: "list_all py_isdigit ''1''"
  by code_simp

lemma mode_words: "list_all printable ''mode''" "list_all printable ''default''" "list_all printable ''tool_approval''"
  "list_all printable ''ask''"
  by code_simp+

lemma default_profiles_ok:
  assumes "loads CLAUDE_SESSION_META = Some (PDict claude_meta_doc)"
    and "loads PARAMETERIZED_PICKER_META = Some (PDict picker_meta_doc)"
  shows "list_all (profile_ok loads fr) DEFAULT_PROFILES"
proof -
  have "profile_ok loads fr STANDARD_NATIVE_ACP_V1"
    using version_digits by (simp add: profile_checks STANDARD_NATIVE_ACP_V1_def standard_profile_def fidelity_words)
  moreover have "profile_ok loads fr CLAUDE_AGENT_ACP_COMPAT_V1"
    using version_digits mode_words frozen_metas [OF assms]
    by (simp add: profile_checks CLAUDE_AGENT_ACP_COMPAT_V1_def standard_profile_def fidelity_words)
  moreover have "profile_ok loads fr CODEX_AGENT_ACP_COMPAT_V1"
    using version_digits mode_words
    by (simp add: profile_checks CODEX_AGENT_ACP_COMPAT_V1_def standard_profile_def fidelity_words policy_words)
  moreover have "profile_ok loads fr CURSOR_NATIVE_ACP_V1"
    using version_digits mode_words frozen_metas [OF assms]
    by (simp add: profile_checks CURSOR_NATIVE_ACP_V1_def standard_profile_def fidelity_words policy_words)
  moreover have "profile_ok loads fr REASONIX_AGENT_ACP_COMPAT_V1"
    using version_digits mode_words
    by (simp add: profile_checks REASONIX_AGENT_ACP_COMPAT_V1_def standard_profile_def fidelity_words)
  ultimately show ?thesis by (simp add: DEFAULT_PROFILES_def)
qed

lemma permission_mode_total:
  assumes "profile_ok loads fr p"
  shows "\<exists>m. required_permission_mode_for p caps = Some m \<and> (m = None \<longleftrightarrow> pf_permission_mode_selector_id p = None) \<and>
     (pf_permission_mode_policy_id p \<noteq> None \<longrightarrow> (m = Some ''agent'' \<longleftrightarrow> \<not> set caps \<subseteq> {''read'', ''search''}))"
proof -
  have mode: "validate_permission_mode p" using assms by (simp add: profile_ok_def)
  show ?thesis
  proof (cases "pf_permission_mode_selector_id p")
    case None
    with mode show ?thesis by (simp add: required_permission_mode_for_def validate_permission_mode_def)
  next
    case (Some s)
    with mode show ?thesis
      by (auto simp: required_permission_mode_for_def validate_permission_mode_def policy_words
          read_only_grant_ask_else_agent_def read_only_grant_read_only_else_agent_def READ_ONLY_GRANT_CAPABILITIES_def
          split: option.splits)
  qed
qed

lemma default_lookup: "p \<in> set DEFAULT_PROFILES \<Longrightarrow> map_of DEFAULT_REGISTRY (pf_profile_id p) = Some p"
proof -
  assume p: "p \<in> set DEFAULT_PROFILES"
  have d: "distinct (map pf_profile_id DEFAULT_PROFILES)"
    and r: "DEFAULT_REGISTRY = map (\<lambda>p. (pf_profile_id p, p)) DEFAULT_PROFILES"
    using default_registry by (auto simp: profile_registry_def split: if_splits)
  show ?thesis unfolding r by (rule map_of_is_SomeI) (use p d in \<open>auto simp: comp_def\<close>)
qed

text \<open>Every profile the source defines can be constructed, is found in the default registry under its own
  id, and answers every grant with a permission mode without failing: no mode exactly when the profile has
  no mode selector, and under a mode policy \<^verbatim>\<open>agent\<close> exactly when the grant exceeds reading and
  searching.  The hypotheses say what the JSON decoder returns on the two frozen metadata texts.\<close>

theorem default_profiles_typed:
  assumes "loads CLAUDE_SESSION_META = Some (PDict claude_meta_doc)"
    and "loads PARAMETERIZED_PICKER_META = Some (PDict picker_meta_doc)" and "p \<in> set DEFAULT_PROFILES"
  shows "profile_ok loads fr p \<and> map_of DEFAULT_REGISTRY (pf_profile_id p) = Some p \<and>
     (\<exists>m. required_permission_mode_for p caps = Some m \<and> (m = None \<longleftrightarrow> pf_permission_mode_selector_id p = None) \<and>
        (pf_permission_mode_policy_id p \<noteq> None \<longrightarrow> (m = Some ''agent'' \<longleftrightarrow> \<not> set caps \<subseteq> {''read'', ''search''})))"
proof -
  have "profile_ok loads fr p" using default_profiles_ok [OF assms(1,2)] assms(3) by (simp add: list_all_iff)
  then show ?thesis using permission_mode_total default_lookup [OF assms(3)] by blast
qed

definition demo_loads :: "string \<Rightarrow> pyval option" where
  "demo_loads = map_of [(CLAUDE_SESSION_META, PDict claude_meta_doc), (PARAMETERIZED_PICKER_META, PDict picker_meta_doc)]"

lemma demo_loads_metas:
  "demo_loads CLAUDE_SESSION_META = Some (PDict claude_meta_doc)"
  "demo_loads PARAMETERIZED_PICKER_META = Some (PDict picker_meta_doc)"
  by (simp_all add: demo_loads_def CLAUDE_SESSION_META_def PARAMETERIZED_PICKER_META_def)

theorem default_profiles_typed_witness:
  "profile_ok demo_loads (\<lambda>_. []) CURSOR_NATIVE_ACP_V1 \<and>
   required_permission_mode_for CURSOR_NATIVE_ACP_V1 [''read'', ''edit''] = Some (Some ''agent'')"
proof -
  have p: "CURSOR_NATIVE_ACP_V1 \<in> set DEFAULT_PROFILES" "pf_permission_mode_policy_id CURSOR_NATIVE_ACP_V1 \<noteq> None"
    by (simp_all add: DEFAULT_PROFILES_def CURSOR_NATIVE_ACP_V1_def)
  show ?thesis
    using default_profiles_typed [OF demo_loads_metas p(1), of "\<lambda>_. []" "[''read'', ''edit'']"] p(2) by auto
qed

section \<open>Profile identity\<close>

lemma snapshot_keys:
  fixes p loads
  defines "s \<equiv> map_of (profile_snapshot loads p)"
  shows "s ''profile_id'' = Some (PStr (pf_profile_id p))" "s ''revision'' = Some (PInt (pf_revision p))"
    "s ''acp_protocol_version'' = Some (PStr (pf_acp_protocol_version p))"
    "s ''required_capabilities'' = Some (pstrs (pf_required_capabilities p))"
    "s ''forbidden_capabilities'' = Some (pstrs (pf_forbidden_capabilities p))"
    "s ''requires_session_load'' = Some (PBool (pf_requires_session_load p))"
    "s ''base_allowlist'' = Some (pstrs (pf_base_allowlist p))"
    "s ''model_selector_id'' = Some (PStr (pf_model_selector_id p))"
    "s ''effort_selector_id'' = Some (pstr_opt (pf_effort_selector_id p))"
    "s ''config_fidelity_mode'' =
       (if pf_config_fidelity_mode p \<noteq> FIDELITY_SEPARATE_SELECTORS then Some (PStr (pf_config_fidelity_mode p)) else None)"
    "s ''launch_permission_policy_id'' = map_option PStr (pf_launch_permission_policy_id p)"
    "s ''permission_mode_selector_id'' = map_option PStr (pf_permission_mode_selector_id p)"
  unfolding s_def by (simp_all add: profile_snapshot_def opt_field_def meta_field_def map_add_def split: option.splits)

lemma snapshot_optional_keys:
  fixes p loads
  defines "s \<equiv> map_of (profile_snapshot loads p)"
  assumes "pf_permission_mode_selector_id p = None \<Longrightarrow> pf_required_permission_mode p = None \<and> pf_permission_mode_policy_id p = None"
  shows "s ''required_permission_mode'' = map_option PStr (pf_required_permission_mode p)"
    "s ''permission_mode_policy_id'' = map_option PStr (pf_permission_mode_policy_id p)"
    "s ''session_meta'' = Option.bind (pf_session_meta p) loads"
    "s ''client_capabilities_meta'' = Option.bind (pf_client_capabilities_meta p) loads"
  using assms(2) unfolding s_def
  by (auto simp: profile_snapshot_def opt_field_def meta_field_def map_add_def split: option.splits)

lemma frozen_meta_text:
  "pred_option (validate_frozen_meta loads fr) m \<Longrightarrow> m = Option.bind (Option.bind m loads) (canonical_json fr)"
  by (cases m) (auto simp: validate_frozen_meta_def split: option.splits pyval.splits)

lemma profile_ok_facts:
  assumes "profile_ok loads fr p"
  shows "pf_permission_mode_selector_id p = None \<Longrightarrow> pf_required_permission_mode p = None \<and> pf_permission_mode_policy_id p = None"
    and "pred_option (validate_frozen_meta loads fr) (pf_session_meta p)"
    and "pred_option (validate_frozen_meta loads fr) (pf_client_capabilities_meta p)"
  using assms by (auto simp: profile_ok_def validate_permission_mode_def validate_session_meta_def split: option.splits)

lemma pstr_opt_eq [simp]: "pstr_opt a = pstr_opt b \<longleftrightarrow> a = b"
  by (cases a; cases b) auto

lemma pstrs_eq [simp]: "pstrs a = pstrs b \<longleftrightarrow> a = b"
  by (simp add: pstrs_def)

lemma map_PStr_option [simp]: "map_option PStr a = map_option PStr b \<longleftrightarrow> a = b"
  by (cases a; cases b) auto

text \<open>The snapshot that a profile's hash covers identifies the profile: two constructible profiles with
  the same snapshot are equal in every field, although the snapshot leaves out the fields at their
  defaults and stores decoded metadata instead of its text.\<close>

theorem profile_snapshot_identifies:
  assumes ok: "profile_ok loads fr p" "profile_ok loads fr q" and same: "profile_snapshot loads p = profile_snapshot loads q"
  shows "p = q"
proof -
  note P = snapshot_keys [of loads p] snapshot_optional_keys [of p loads, OF profile_ok_facts(1) [OF ok(1)]]
  note Q = snapshot_keys [of loads q] snapshot_optional_keys [of q loads, OF profile_ok_facts(1) [OF ok(2)]]
  have fields: "pf_profile_id p = pf_profile_id q" "pf_revision p = pf_revision q"
    "pf_acp_protocol_version p = pf_acp_protocol_version q" "pf_required_capabilities p = pf_required_capabilities q"
    "pf_forbidden_capabilities p = pf_forbidden_capabilities q" "pf_requires_session_load p = pf_requires_session_load q"
    "pf_base_allowlist p = pf_base_allowlist q" "pf_model_selector_id p = pf_model_selector_id q"
    "pf_effort_selector_id p = pf_effort_selector_id q"
    "pf_launch_permission_policy_id p = pf_launch_permission_policy_id q"
    "pf_permission_mode_selector_id p = pf_permission_mode_selector_id q"
    using P(1-9,11,12) Q(1-9,11,12) by (simp_all add: same)
  moreover have "pf_config_fidelity_mode p = pf_config_fidelity_mode q"
    using P(10) Q(10) by (simp add: same split: if_splits)
  moreover have "pf_required_permission_mode p = pf_required_permission_mode q"
    "pf_permission_mode_policy_id p = pf_permission_mode_policy_id q"
    using P(13,14) Q(13,14) by (simp_all add: same)
  moreover have "pf_session_meta p = pf_session_meta q"
    using P(15) Q(15) frozen_meta_text [OF profile_ok_facts(2) [OF ok(1)]] frozen_meta_text [OF profile_ok_facts(2) [OF ok(2)]]
    by (simp add: same)
  moreover have "pf_client_capabilities_meta p = pf_client_capabilities_meta q"
    using P(16) Q(16) frozen_meta_text [OF profile_ok_facts(3) [OF ok(1)]] frozen_meta_text [OF profile_ok_facts(3) [OF ok(2)]]
    by (simp add: same)
  ultimately show ?thesis by simp
qed

theorem profile_snapshot_identifies_witness:
  "profile_ok demo_loads (\<lambda>_. []) CURSOR_NATIVE_ACP_V1 \<and>
   (\<exists>q. profile_ok demo_loads (\<lambda>_. []) q \<and> profile_snapshot demo_loads q = profile_snapshot demo_loads CURSOR_NATIVE_ACP_V1 \<and>
     q = CURSOR_NATIVE_ACP_V1)"
proof -
  have ok: "profile_ok demo_loads (\<lambda>_. []) CURSOR_NATIVE_ACP_V1"
    using default_profiles_ok [OF demo_loads_metas, of "\<lambda>_. []"] by (simp add: DEFAULT_PROFILES_def)
  show ?thesis using ok profile_snapshot_identifies [OF ok ok] by blast
qed

section \<open>The snapshot as the run factory asks it\<close>

text \<open>The factory's refusal of an agent is the snapshot's.\<close>

lemma factory_agrees:
  assumes "set (se_agents e) = set (snapshot_ids es)"
  shows "run_factory e k q = (case snapshot_get es (sf_agent_id (fields_of q)) of
     Inl rule \<Rightarrow> Inl (invalid (''agent refused: '' @ rule))
   | Inr _ \<Rightarrow> (case k of Constructed \<Rightarrow> Inr () | Unknown_Profile \<Rightarrow> Inl (invalid ''unknown profile id'')
       | Construction_Failed \<Rightarrow> Inl (protocol_refusal INTERNAL ''run registration failed'')))"
proof -
  have "sf_agent_id (fields_of q) \<in> set (se_agents e) \<longleftrightarrow> map_of es (sf_agent_id (fields_of q)) \<noteq> None"
    using assms by (simp add: snapshot_ids_def map_of_eq_None_iff del: not_None_eq)
  then show ?thesis by (auto simp: run_factory_def Let_def snapshot_get_def split: option.splits)
qed

section \<open>An accepted registry file\<close>

definition demo_document :: pyval where
  "demo_document = PDict [(''schema_version'', PInt 1), (''agents'', PDict [(''opencode'', PDict
     [(''profile'', PStr ''standard-native-acp-v1''), (''command'', PStr ''opencode''),
      (''mediation'', PStr ''ask-privileged-tool-families-v1''),
      (''env_overlay'', PDict [(''OPENCODE_MODE'', PStr ''quiet'')])])])]"

definition demo_file :: registry_file where
  "demo_file = \<lparr>gf_open = Open_Ok, gf_fstat = True, gf_regular = True, gf_group_writable = False,
     gf_world_writable = False, gf_size = 1, gf_reads = (\<lambda>_. Some 65536), gf_content = [10]\<rparr>"

definition demo_entry :: agent_entry where
  "demo_entry = \<lparr>ae_agent_id = ''opencode'', ae_profile_id = ''standard-native-acp-v1'', ae_command = ''opencode'',
     ae_args = [], ae_mediation_id = Some ''ask-privileged-tool-families-v1'', ae_env_passthrough = [],
     ae_env_overlay = [(''OPENCODE_MODE'', ''quiet'')], ae_model_selector_id = None, ae_effort_selector_id = None,
     ae_forbidden_capabilities = [], ae_session_epoch = None\<rparr>"

lemma demo_read: "read_registry_bytes demo_file = Inr [10]"
proof -
  obtain raw where raw: "read_chunks (\<lambda>_. Some 65536) 0 (MAX_REGISTRY_BYTES + 1) [10 :: 8 word] = Some raw"
    using read_chunks_total [of "\<lambda>_. Some 65536" 0 "MAX_REGISTRY_BYTES + 1" "[10]"] by auto
  have "raw = [10]" using read_chunks_take [OF raw] by (simp add: MAX_REGISTRY_BYTES_def)
  with raw show ?thesis by (simp add: read_registry_bytes_def demo_file_def MAX_REGISTRY_BYTES_def)
qed

lemma demo_parse: "parse_registry_document DEFAULT_REGISTRY demo_document = Inr [(''opencode'', demo_entry)]"
  by code_simp

lemma demo_loaded: "load_agents_file (\<lambda>_. Some []) (\<lambda>_. Some demo_document) demo_file = Inr [(''opencode'', demo_entry)]"
  by (simp add: load_agents_file_def demo_read demo_parse)

theorem mediation_keys_owned_witness:
  "\<exists>r. resolve_run_environment [(''OPENCODE_PERMISSION'', ''allow''), (''HOME'', ''/root'')] STANDARD_NATIVE_ACP_V1 demo_entry [] = Some r \<and>
     map_of (re_values r) ''OPENCODE_PERMISSION'' = Some ''{\"bash\":\"ask\",\"edit\":\"ask\",\"webfetch\":\"ask\"}''"
proof -
  have k: "''OPENCODE_PERMISSION'' \<in> set RESERVED_MEDIATION_KEYS"
    by (simp add: RESERVED_MEDIATION_KEYS_def reserved_mediation_keys_def MEDIATION_BINDINGS_def)
  have p: "map_of DEFAULT_REGISTRY (ae_profile_id demo_entry) = Some STANDARD_NATIVE_ACP_V1"
    using default_lookup [of STANDARD_NATIVE_ACP_V1]
    by (simp add: DEFAULT_PROFILES_def demo_entry_def STANDARD_NATIVE_ACP_V1_def standard_profile_def)
  have m: "mediation_pairs (ae_mediation_id demo_entry) =
      Some [(''OPENCODE_PERMISSION'', ''{\"bash\":\"ask\",\"edit\":\"ask\",\"webfetch\":\"ask\"}'')]"
    by (simp add: mediation_pairs_def demo_entry_def MEDIATION_BINDINGS_def)
  show ?thesis
    using mediation_keys_owned [OF demo_loaded _ p _ k, of "''opencode''" "[]"
        "[(''OPENCODE_PERMISSION'', ''allow''), (''HOME'', ''/root'')]"] by (simp add: m)
qed

end
