(* ===== verification/Durable_Files.thy ===== *)
theory Durable_Files
  imports Run_Result
begin

text \<open>
  The file primitives of \<^verbatim>\<open>event_store.py\<close> on one directory, call by call.  A file's bytes are
  durable up to the length its last \<^verbatim>\<open>fsync\<close> covered; a name's binding is durable once the
  directory was synced, and until then a crash may leave any binding the name had since.  The kernel's
  answer to every call is the argument \<open>os\<close>, indexed by the number of calls made: done (with a byte
  count, read by \<^verbatim>\<open>write\<close>), failed before taking effect, failed after it, or the process killed
  before the call.
\<close>

section \<open>The directory and its crash images\<close>

record inode =
  nd_data :: bytes
  nd_synced :: nat
  nd_mode :: nat
  nd_regular :: bool

record disk =
  dk_names :: "string \<Rightarrow> nat option"
  dk_maybe :: "string \<Rightarrow> nat option set"
  dk_nodes :: "nat \<Rightarrow> inode"
  dk_next :: nat
  dk_calls :: nat

datatype sys = Sys_Done nat | Sys_Error | Sys_Late nat | Sys_Killed

datatype file_error = File_Exists | Not_Found | OS_Fail | Event_Store_Error

datatype 'a run = Returned 'a | Raised file_error | Killed

type_synonym 'a prog = "disk \<Rightarrow> disk \<times> 'a run"

definition live_read :: "disk \<Rightarrow> string \<Rightarrow> bytes option" where
  "live_read d n = map_option (\<lambda>i. nd_data (dk_nodes d i)) (dk_names d n)"

text \<open>What a crash may leave of a file's bytes: the synced prefix, and everything once all of it is synced.\<close>

definition survives :: "inode \<Rightarrow> bytes \<Rightarrow> bool" where
  "survives nd c \<longleftrightarrow> take (nd_synced nd) c = take (nd_synced nd) (nd_data nd) \<and>
     (nd_synced nd = length (nd_data nd) \<longrightarrow> c = nd_data nd)"

definition crash_reads :: "disk \<Rightarrow> string \<Rightarrow> bytes option set" where
  "crash_reads d n =
     {r. \<exists>b\<in>dk_maybe d n. case b of None \<Rightarrow> r = None | Some i \<Rightarrow> \<exists>c. r = Some c \<and> survives (dk_nodes d i) c}"

section \<open>Programs over the directory\<close>

definition returns :: "'a \<Rightarrow> 'a prog" where
  "returns x = (\<lambda>d. (d, Returned x))"

definition raises :: "file_error \<Rightarrow> 'a prog" where
  "raises e = (\<lambda>d. (d, Raised e))"

definition seqp :: "'a prog \<Rightarrow> ('a \<Rightarrow> 'b prog) \<Rightarrow> 'b prog" where
  "seqp p f = (\<lambda>d. case p d of
     (d1, Returned x) \<Rightarrow> f x d1 | (d1, Raised e) \<Rightarrow> (d1, Raised e) | (d1, Killed) \<Rightarrow> (d1, Killed))"

definition catch :: "'a prog \<Rightarrow> (file_error \<Rightarrow> 'a prog) \<Rightarrow> 'a prog" where
  "catch p h = (\<lambda>d. case p d of (d1, Raised e) \<Rightarrow> h e d1 | r \<Rightarrow> r)"

text \<open>\<^verbatim>\<open>raise EventStoreError(...) from exc\<close>, and \<^verbatim>\<open>except OSError: pass\<close>.\<close>

definition wrap :: "'a prog \<Rightarrow> 'a prog" where
  "wrap p = catch p (\<lambda>_. raises Event_Store_Error)"

definition ignoring :: "unit prog \<Rightarrow> unit prog" where
  "ignoring p = catch p (\<lambda>_. returns ())"

section \<open>System calls\<close>

definition sys_call :: "(nat \<Rightarrow> sys) \<Rightarrow> (nat \<Rightarrow> disk \<Rightarrow> disk \<times> (file_error + 'a)) \<Rightarrow> 'a prog" where
  "sys_call os eff = (\<lambda>d.
     let d1 = d\<lparr>dk_calls := Suc (dk_calls d)\<rparr> in
     case os (dk_calls d) of
       Sys_Killed \<Rightarrow> (d, Killed)
     | Sys_Error \<Rightarrow> (d1, Raised OS_Fail)
     | Sys_Late n \<Rightarrow> (fst (eff n d1), Raised OS_Fail)
     | Sys_Done n \<Rightarrow> (case eff n d1 of (d2, Inl e) \<Rightarrow> (d2, Raised e) | (d2, Inr x) \<Rightarrow> (d2, Returned x)))"

definition FILE_MODE :: nat where
  "FILE_MODE = 384"

definition bind_name :: "string \<Rightarrow> nat option \<Rightarrow> disk \<Rightarrow> disk" where
  "bind_name n b d = d\<lparr>dk_names := (dk_names d)(n := b), dk_maybe := (dk_maybe d)(n := insert b (dk_maybe d n))\<rparr>"

definition set_node :: "nat \<Rightarrow> inode \<Rightarrow> disk \<Rightarrow> disk" where
  "set_node i nd d = d\<lparr>dk_nodes := (dk_nodes d)(i := nd)\<rparr>"

definition new_file :: "string \<Rightarrow> disk \<Rightarrow> disk \<times> (file_error + nat)" where
  "new_file n d =
     (let i = dk_next d; nd = \<lparr>nd_data = [], nd_synced = 0, nd_mode = FILE_MODE, nd_regular = True\<rparr> in
      (bind_name n (Some i) (set_node i nd (d\<lparr>dk_next := Suc i\<rparr>)), Inr i))"

definition open_excl :: "(nat \<Rightarrow> sys) \<Rightarrow> string \<Rightarrow> nat prog" where
  "open_excl os n = sys_call os (\<lambda>_ d. if dk_names d n \<noteq> None then (d, Inl File_Exists) else new_file n d)"

definition open_existing :: "(nat \<Rightarrow> sys) \<Rightarrow> string \<Rightarrow> nat prog" where
  "open_existing os n = sys_call os (\<lambda>_ d. case dk_names d n of None \<Rightarrow> (d, Inl Not_Found) | Some i \<Rightarrow> (d, Inr i))"

definition open_create :: "(nat \<Rightarrow> sys) \<Rightarrow> string \<Rightarrow> nat prog" where
  "open_create os n = sys_call os (\<lambda>_ d. case dk_names d n of None \<Rightarrow> new_file n d | Some i \<Rightarrow> (d, Inr i))"

definition fstat_regular :: "(nat \<Rightarrow> sys) \<Rightarrow> nat \<Rightarrow> bool prog" where
  "fstat_regular os i = sys_call os (\<lambda>_ d. (d, Inr (nd_regular (dk_nodes d i))))"

definition fchmod :: "(nat \<Rightarrow> sys) \<Rightarrow> nat \<Rightarrow> nat \<Rightarrow> unit prog" where
  "fchmod os i m = sys_call os (\<lambda>_ d. (set_node i ((dk_nodes d i)\<lparr>nd_mode := m\<rparr>) d, Inr ()))"

definition os_write :: "(nat \<Rightarrow> sys) \<Rightarrow> nat \<Rightarrow> bytes \<Rightarrow> nat prog" where
  "os_write os i bs = sys_call os (\<lambda>n d.
     (set_node i ((dk_nodes d i)\<lparr>nd_data := nd_data (dk_nodes d i) @ take n bs\<rparr>) d, Inr (min n (length bs))))"

definition fsync :: "(nat \<Rightarrow> sys) \<Rightarrow> nat \<Rightarrow> unit prog" where
  "fsync os i = sys_call os (\<lambda>_ d. (set_node i ((dk_nodes d i)\<lparr>nd_synced := length (nd_data (dk_nodes d i))\<rparr>) d, Inr ()))"

definition inert :: "(nat \<Rightarrow> sys) \<Rightarrow> unit prog" where
  "inert os = sys_call os (\<lambda>_ d. (d, Inr ()))"

definition os_unlink :: "(nat \<Rightarrow> sys) \<Rightarrow> string \<Rightarrow> unit prog" where
  "os_unlink os n = sys_call os (\<lambda>_ d. if dk_names d n = None then (d, Inl Not_Found) else (bind_name n None d, Inr ()))"

definition os_replace :: "(nat \<Rightarrow> sys) \<Rightarrow> string \<Rightarrow> string \<Rightarrow> unit prog" where
  "os_replace os a b = sys_call os (\<lambda>_ d.
     if dk_names d a = None then (d, Inl Not_Found) else (bind_name a None (bind_name b (dk_names d a) d), Inr ()))"

definition os_link :: "(nat \<Rightarrow> sys) \<Rightarrow> string \<Rightarrow> string \<Rightarrow> unit prog" where
  "os_link os a b = sys_call os (\<lambda>_ d.
     if dk_names d b \<noteq> None then (d, Inl File_Exists)
     else if dk_names d a = None then (d, Inl Not_Found)
     else (bind_name b (dk_names d a) d, Inr ()))"

definition os_chmod :: "(nat \<Rightarrow> sys) \<Rightarrow> string \<Rightarrow> nat \<Rightarrow> unit prog" where
  "os_chmod os n m = sys_call os (\<lambda>_ d. case dk_names d n of
     None \<Rightarrow> (d, Inl Not_Found) | Some i \<Rightarrow> (set_node i ((dk_nodes d i)\<lparr>nd_mode := m\<rparr>) d, Inr ()))"

definition sync_names :: "(nat \<Rightarrow> sys) \<Rightarrow> unit prog" where
  "sync_names os = sys_call os (\<lambda>_ d. (d\<lparr>dk_maybe := (\<lambda>n. {dk_names d n})\<rparr>, Inr ()))"

section \<open>The primitives of the store\<close>

function write_all :: "(nat \<Rightarrow> sys) \<Rightarrow> nat \<Rightarrow> bytes \<Rightarrow> unit prog" where
  "write_all os i bs d =
     (if bs = [] then (d, Returned ())
     else case os_write os i bs d of
            (d1, Killed) \<Rightarrow> (d1, Killed)
          | (d1, Raised _) \<Rightarrow> (d1, Raised Event_Store_Error)
          | (d1, Returned n) \<Rightarrow> if n = 0 then (d1, Raised Event_Store_Error) else write_all os i (drop n bs) d1)"
  by pat_completeness auto
termination
  by (relation "measure (\<lambda>(_, _, bs, _). length bs)") auto

declare write_all.simps [simp del]

text \<open>\<^verbatim>\<open>_fsync_dir\<close>: the descriptor is closed even when the sync fails, and a failing close replaces
  the error.\<close>

definition fsync_dir :: "(nat \<Rightarrow> sys) \<Rightarrow> unit prog" where
  "fsync_dir os =
     seqp (wrap (inert os)) (\<lambda>_. (\<lambda>d.
       case wrap (sync_names os) d of
         (d1, Killed) \<Rightarrow> (d1, Killed)
       | (d1, r) \<Rightarrow> (case inert os d1 of (d2, Returned _) \<Rightarrow> (d2, r) | q \<Rightarrow> q)))"

text \<open>The candidates for a temporary name, at most \<open>k\<close> of them.\<close>

primrec open_temp :: "(nat \<Rightarrow> sys) \<Rightarrow> (nat \<Rightarrow> string) \<Rightarrow> nat \<Rightarrow> (string \<times> nat) prog" where
  "open_temp os cand 0 = raises Event_Store_Error"
| "open_temp os cand (Suc k) = (\<lambda>d.
     case open_excl os (cand k) d of
       (d1, Returned fd) \<Rightarrow> (d1, Returned (cand k, fd))
     | (d1, Raised File_Exists) \<Rightarrow> open_temp os cand k d1
     | (d1, Raised _) \<Rightarrow> (d1, Raised Event_Store_Error)
     | (d1, Killed) \<Rightarrow> (d1, Killed))"

text \<open>\<^verbatim>\<open>try\<close> body \<^verbatim>\<open>finally\<close> close: an error of the close counts only when the body
  succeeded; \<open>cleanup\<close> runs when the body failed.\<close>

definition closing :: "(nat \<Rightarrow> sys) \<Rightarrow> unit prog \<Rightarrow> unit prog \<Rightarrow> unit prog" where
  "closing os cleanup body = (\<lambda>d.
     case body d of
       (d1, Killed) \<Rightarrow> (d1, Killed)
     | (d1, Returned _) \<Rightarrow> wrap (inert os) d1
     | (d1, Raised e) \<Rightarrow> seqp (ignoring (inert os)) (\<lambda>_. seqp (ignoring cleanup) (\<lambda>_. raises e)) d1)"

definition fill_temp :: "(nat \<Rightarrow> sys) \<Rightarrow> unit prog \<Rightarrow> nat \<Rightarrow> bytes \<Rightarrow> unit prog" where
  "fill_temp os cleanup fd data =
     closing os cleanup
       (seqp (wrap (fchmod os fd FILE_MODE)) (\<lambda>_. seqp (write_all os fd data) (\<lambda>_. wrap (fsync os fd))))"

definition durable_atomic_write_bytes :: "(nat \<Rightarrow> sys) \<Rightarrow> (nat \<Rightarrow> string) \<Rightarrow> string \<Rightarrow> bytes \<Rightarrow> unit prog" where
  "durable_atomic_write_bytes os cand path data =
     seqp (wrap (inert os)) (\<lambda>_.
     seqp (open_temp os cand 32) (\<lambda>(tmp, fd).
     seqp (fill_temp os (os_unlink os tmp) fd data) (\<lambda>_.
     seqp (catch (os_replace os tmp path) (\<lambda>_. seqp (ignoring (os_unlink os tmp)) (\<lambda>_. raises Event_Store_Error))) (\<lambda>_.
     seqp (wrap (os_chmod os path FILE_MODE)) (\<lambda>_.
     wrap (fsync_dir os))))))"

definition durable_unlink :: "(nat \<Rightarrow> sys) \<Rightarrow> string \<Rightarrow> unit prog" where
  "durable_unlink os path = (\<lambda>d.
     case os_unlink os path d of
       (d1, Raised Not_Found) \<Rightarrow> (d1, Returned ())
     | (d1, Raised _) \<Rightarrow> (d1, Raised Event_Store_Error)
     | (d1, Killed) \<Rightarrow> (d1, Killed)
     | (d1, Returned _) \<Rightarrow> wrap (fsync_dir os) d1)"

definition exclusive_create_bytes :: "(nat \<Rightarrow> sys) \<Rightarrow> (nat \<Rightarrow> string) \<Rightarrow> string \<Rightarrow> bytes \<Rightarrow> unit prog" where
  "exclusive_create_bytes os cand path data =
     seqp (wrap (inert os)) (\<lambda>_.
     seqp (open_temp os cand 32) (\<lambda>(tmp, fd).
     seqp (fill_temp os (returns ()) fd data) (\<lambda>_.
     seqp (catch (os_link os tmp path)
            (\<lambda>e. if e = File_Exists then seqp (ignoring (os_unlink os tmp)) (\<lambda>_. raises File_Exists)
                 else raises Event_Store_Error)) (\<lambda>_.
     seqp (ignoring (os_unlink os tmp)) (\<lambda>_.
     wrap (fsync_dir os))))))"

definition append_opened :: "(nat \<Rightarrow> sys) \<Rightarrow> nat \<Rightarrow> bool \<Rightarrow> bytes \<Rightarrow> unit prog" where
  "append_opened os fd created encoded =
     seqp (closing os (returns ())
            (seqp (wrap (fstat_regular os fd)) (\<lambda>regular.
               if \<not> regular then raises Event_Store_Error
               else seqp (wrap (fchmod os fd FILE_MODE)) (\<lambda>_.
                    seqp (write_all os fd encoded) (\<lambda>_. wrap (fsync os fd)))))) (\<lambda>_.
     if created then wrap (fsync_dir os) else returns ())"

definition append_text :: "(nat \<Rightarrow> sys) \<Rightarrow> string \<Rightarrow> bytes \<Rightarrow> unit prog" where
  "append_text os path encoded =
     seqp (catch (seqp (open_existing os path) (\<lambda>fd. returns (fd, False)))
            (\<lambda>e. if e = Not_Found then wrap (seqp (open_create os path) (\<lambda>fd. returns (fd, True)))
                 else raises Event_Store_Error)) (\<lambda>x.
     append_opened os (fst x) (snd x) encoded)"

text \<open>\<^verbatim>\<open>_atomic_write_bytes\<close>, which never syncs: an error removes the temporary file when it still
  exists, and a failing removal replaces the error.\<close>

definition atomic_write_bytes :: "(nat \<Rightarrow> sys) \<Rightarrow> string \<Rightarrow> string \<Rightarrow> bytes \<Rightarrow> unit prog" where
  "atomic_write_bytes os tmp path data =
     seqp (inert os) (\<lambda>_.
     seqp (open_excl os tmp) (\<lambda>fd.
     catch (seqp (catch (write_all os fd data) (\<lambda>_. seqp (ignoring (inert os)) (\<lambda>_. raises OS_Fail))) (\<lambda>_.
            seqp (inert os) (\<lambda>_. seqp (os_replace os tmp path) (\<lambda>_. os_chmod os path FILE_MODE))))
       (\<lambda>e d. if dk_names d tmp \<noteq> None then seqp (os_unlink os tmp) (\<lambda>_. raises e) d else (d, Raised e))))"

end
