(* ===== verification/Durable_Files_Spec.thy ===== *)
theory Durable_Files_Spec
  imports Durable_Files
begin

text \<open>
  A calculus of specifications for the file programs: what holds when a program returns, and what holds when it
  raises or the process dies, for every answer of the kernel.  With it, the calls of a durable write and of an
  exclusive creation are shown to touch only temporary names and young files until the new file, complete and
  synced, is published.
\<close>

section \<open>Specifications of programs\<close>

definition spec :: "(disk \<Rightarrow> bool) \<Rightarrow> 'a prog \<Rightarrow> ('a \<Rightarrow> disk \<Rightarrow> bool) \<Rightarrow> (file_error option \<Rightarrow> disk \<Rightarrow> bool) \<Rightarrow> bool" where
  "spec P p Q E \<longleftrightarrow>
     (\<forall>d. P d \<longrightarrow> (case p d of (d', Returned x) \<Rightarrow> Q x d' | (d', Raised e) \<Rightarrow> E (Some e) d' | (d', Killed) \<Rightarrow> E None d'))"

lemma specD:
  assumes "spec P p Q E" "P d"
  shows "p d = (d', Returned x) \<Longrightarrow> Q x d'" "p d = (d', Raised e) \<Longrightarrow> E (Some e) d'" "p d = (d', Killed) \<Longrightarrow> E None d'"
  using assms by (auto simp: spec_def split: prod.splits run.splits)

lemma spec_conseq:
  assumes "spec P' p Q' E'" "\<And>d. P d \<Longrightarrow> P' d" "\<And>x d. Q' x d \<Longrightarrow> Q x d" "\<And>e d. E' e d \<Longrightarrow> E e d"
  shows "spec P p Q E"
  using assms unfolding spec_def by (fastforce split: prod.splits run.splits)

lemma spec_returns: "(\<And>d. P d \<Longrightarrow> Q x d) \<Longrightarrow> spec P (returns x) Q E"
  by (simp add: spec_def returns_def)

lemma spec_raises: "(\<And>d. P d \<Longrightarrow> E (Some e) d) \<Longrightarrow> spec P (raises e) Q E"
  by (simp add: spec_def raises_def)

lemma spec_seqp: "spec P p Q E \<Longrightarrow> (\<And>x. spec (Q x) (f x) R E) \<Longrightarrow> spec P (seqp p f) R E"
  unfolding spec_def seqp_def by (fastforce split: prod.splits run.splits)

lemma spec_catch:
  assumes "spec P p Q F" "\<And>e. spec (F (Some e)) (h e) Q E" "\<And>d. F None d \<Longrightarrow> E None d"
  shows "spec P (catch p h) Q E"
  using assms unfolding spec_def catch_def by (fastforce split: prod.splits run.splits)

lemma spec_wrap: "spec P p Q (\<lambda>_. E) \<Longrightarrow> spec P (wrap p) Q (\<lambda>_. E)"
  unfolding wrap_def by (rule spec_catch) (auto intro: spec_raises)

lemma spec_ignoring: "spec P p (\<lambda>_. Q) (\<lambda>e. case e of None \<Rightarrow> E None | Some _ \<Rightarrow> Q) \<Longrightarrow> spec P (ignoring p) (\<lambda>_. Q) E"
  unfolding ignoring_def
  by (rule spec_catch [where F = "\<lambda>e. case e of None \<Rightarrow> E None | Some _ \<Rightarrow> Q"]) (auto intro: spec_returns)

lemma spec_sys:
  assumes "\<And>d n. P d \<Longrightarrow> (case eff n (d\<lparr>dk_calls := Suc (dk_calls d)\<rparr>) of
       (d2, Inl e) \<Rightarrow> E (Some e) d2 \<and> E (Some OS_Fail) d2 | (d2, Inr x) \<Rightarrow> Q x d2 \<and> E (Some OS_Fail) d2)"
    and "\<And>d. P d \<Longrightarrow> E (Some OS_Fail) (d\<lparr>dk_calls := Suc (dk_calls d)\<rparr>) \<and> E None d"
  shows "spec P (sys_call os eff) Q E"
  unfolding spec_def sys_call_def Let_def
proof (intro allI impI)
  fix d assume d: "P d"
  show "case case os (dk_calls d) of
          Sys_Done n \<Rightarrow> case eff n (d\<lparr>dk_calls := Suc (dk_calls d)\<rparr>) of (d2, Inl e) \<Rightarrow> (d2, Raised e) | (d2, Inr x) \<Rightarrow> (d2, Returned x)
        | Sys_Error \<Rightarrow> (d\<lparr>dk_calls := Suc (dk_calls d)\<rparr>, Raised OS_Fail)
        | Sys_Late n \<Rightarrow> (fst (eff n (d\<lparr>dk_calls := Suc (dk_calls d)\<rparr>)), Raised OS_Fail)
        | Sys_Killed \<Rightarrow> (d, Killed) of
          (d', Returned x) \<Rightarrow> Q x d' | (d', Raised e) \<Rightarrow> E (Some e) d' | (d', Killed) \<Rightarrow> E None d'"
  proof (cases "os (dk_calls d)")
    case (Sys_Done n)
    then show ?thesis using assms(1) [OF d, of n] by (auto split: prod.splits sum.splits)
  next
    case (Sys_Late n)
    then show ?thesis using assms(1) [OF d, of n] by (auto split: prod.splits sum.splits)
  qed (use assms(2) [OF d] in simp_all)
qed

text \<open>A call that only moves the call counter.\<close>

definition uncounted :: "(disk \<Rightarrow> bool) \<Rightarrow> bool" where
  "uncounted P \<longleftrightarrow> (\<forall>d n. P d \<longrightarrow> P (d\<lparr>dk_calls := n\<rparr>))"

lemma spec_inert: "uncounted P \<Longrightarrow> spec P (inert os) (\<lambda>_. P) (\<lambda>_. P)"
  unfolding inert_def by (rule spec_sys) (simp_all add: uncounted_def)

lemma spec_write_all:
  assumes "\<And>bs'. spec (I bs') (os_write os i bs') (\<lambda>n. if n = 0 then F None else I (drop n bs')) F"
    and "\<And>e d. F e d \<Longrightarrow> E d"
  shows "spec (I bs) (write_all os i bs) (\<lambda>_. I []) (\<lambda>_. E)"
  unfolding spec_def
proof (intro allI impI)
  fix d assume "I bs d"
  then show "case write_all os i bs d of (d', Returned x) \<Rightarrow> I [] d' | (d', Raised e) \<Rightarrow> E d' | (d', Killed) \<Rightarrow> E d'"
  proof (induction "length bs" arbitrary: bs d rule: less_induct)
    case less
    show ?case
    proof (cases "bs = []")
      case True
      with less.prems show ?thesis by (subst write_all.simps) simp
    next
      case False
      obtain d1 r where w: "os_write os i bs d = (d1, r)" by (cases "os_write os i bs d")
      show ?thesis
      proof (cases r)
        case (Returned n)
        show ?thesis
        proof (cases "n = 0")
          case True
          then show ?thesis
            using specD(1) [OF assms(1) less.prems w [unfolded Returned]] assms(2) False
            by (subst write_all.simps) (simp add: w Returned)
        next
          case nz: False
          then have "I (drop n bs) d1" using specD(1) [OF assms(1) less.prems w [unfolded Returned]] by simp
          then show ?thesis using less.hyps [of "drop n bs" d1] False nz by (subst write_all.simps) (simp add: w Returned)
        qed
      next
        case (Raised e)
        then show ?thesis using specD(2) [OF assms(1) less.prems w [unfolded Raised]] assms(2) False
          by (subst write_all.simps) (simp add: w)
      next
        case Killed
        then show ?thesis using specD(3) [OF assms(1) less.prems w [unfolded Killed]] assms(2) False
          by (subst write_all.simps) (simp add: w)
      qed
    qed
  qed
qed

lemma spec_closing:
  assumes "spec P body (\<lambda>_. Q) (\<lambda>_. E)" "spec E cleanup (\<lambda>_. E) (\<lambda>_. E)" "uncounted Q" "uncounted E" "\<And>d. Q d \<Longrightarrow> E d"
  shows "spec P (closing os cleanup body) (\<lambda>_. Q) (\<lambda>_. E)"
proof -
  have ok: "spec Q (wrap (inert os)) (\<lambda>_. Q) (\<lambda>_. E)"
    by (rule spec_wrap) (rule spec_conseq [OF spec_inert [OF assms(3)]], auto intro: assms(5))
  have bad: "spec E (seqp (ignoring (inert os)) (\<lambda>_. seqp (ignoring cleanup) (\<lambda>_. raises e))) (\<lambda>_. Q) (\<lambda>_. E)" for e
    by (intro spec_seqp [where Q = "\<lambda>_. E"] spec_ignoring spec_raises)
       (auto intro: spec_conseq [OF spec_inert [OF assms(4)]] spec_conseq [OF assms(2)] split: option.splits)
  show ?thesis
    unfolding spec_def
  proof (intro allI impI)
    fix d assume d: "P d"
    show "case closing os cleanup body d of (d', Returned x) \<Rightarrow> Q d' | (d', Raised e) \<Rightarrow> E d' | (d', Killed) \<Rightarrow> E d'"
    proof (cases "body d")
      case (Pair d1 r)
      show ?thesis
      proof (cases r)
        case (Returned u)
        with Pair have "Q d1" using specD(1) [OF assms(1) d] by blast
        from ok [unfolded spec_def, rule_format, OF this] show ?thesis by (simp add: closing_def Pair Returned)
      next
        case (Raised e)
        with Pair have "E d1" using specD(2) [OF assms(1) d] by blast
        from bad [unfolded spec_def, rule_format, OF this] show ?thesis by (simp add: closing_def Pair Raised)
      next
        case Killed
        with Pair show ?thesis using specD(3) [OF assms(1) d] by (simp add: closing_def)
      qed
    qed
  qed
qed

section \<open>What a write may have touched\<close>

definition disk_ok :: "disk \<Rightarrow> bool" where
  "disk_ok d \<longleftrightarrow> (\<forall>n. dk_names d n \<in> dk_maybe d n) \<and> (\<forall>n i. Some i \<in> dk_maybe d n \<longrightarrow> i < dk_next d) \<and>
     (\<forall>i. nd_synced (dk_nodes d i) \<le> length (nd_data (dk_nodes d i)))"

definition same_node :: "inode \<Rightarrow> inode \<Rightarrow> bool" where
  "same_node a b \<longleftrightarrow> nd_data b = nd_data a \<and> nd_synced b = nd_synced a"

text \<open>Only names in \<open>T\<close> and files younger than \<open>d0\<close> changed.\<close>

definition aside :: "string set \<Rightarrow> disk \<Rightarrow> disk \<Rightarrow> bool" where
  "aside T d0 d \<longleftrightarrow> disk_ok d \<and> dk_next d0 \<le> dk_next d \<and>
     (\<forall>n. n \<notin> T \<longrightarrow> dk_names d n = dk_names d0 n \<and> dk_maybe d n = dk_maybe d0 n) \<and>
     (\<forall>i < dk_next d0. same_node (dk_nodes d0 i) (dk_nodes d i))"

definition temp_holds :: "string set \<Rightarrow> disk \<Rightarrow> string \<Rightarrow> nat \<Rightarrow> bytes \<Rightarrow> disk \<Rightarrow> bool" where
  "temp_holds T d0 tmp fd bs d \<longleftrightarrow> aside T d0 d \<and> tmp \<in> T \<and> dk_names d tmp = Some fd \<and> dk_next d0 \<le> fd \<and>
     nd_data (dk_nodes d fd) = bs"

definition temp_full :: "string set \<Rightarrow> disk \<Rightarrow> string \<Rightarrow> nat \<Rightarrow> bytes \<Rightarrow> disk \<Rightarrow> bool" where
  "temp_full T d0 tmp fd bs d \<longleftrightarrow> temp_holds T d0 tmp fd bs d \<and> nd_synced (dk_nodes d fd) = length bs"

text \<open>The new file stands under \<open>p\<close>; a crash may still find a binding \<open>p\<close> had before.\<close>

definition published :: "string set \<Rightarrow> disk \<Rightarrow> string \<Rightarrow> bytes \<Rightarrow> disk \<Rightarrow> bool" where
  "published T d0 p bs d \<longleftrightarrow> disk_ok d \<and> dk_next d0 \<le> dk_next d \<and>
     (\<exists>fd \<ge> dk_next d0. dk_names d p = Some fd \<and> nd_data (dk_nodes d fd) = bs \<and> nd_synced (dk_nodes d fd) = length bs \<and>
        dk_maybe d p \<subseteq> insert (Some fd) (dk_maybe d0 p)) \<and>
     (\<forall>n. n \<notin> insert p T \<longrightarrow> dk_names d n = dk_names d0 n \<and> dk_maybe d n \<subseteq> dk_maybe d0 n) \<and>
     (\<forall>i < dk_next d0. same_node (dk_nodes d0 i) (dk_nodes d i))"

definition settled :: "string \<Rightarrow> disk \<Rightarrow> bool" where
  "settled p d \<longleftrightarrow> dk_maybe d p = {dk_names d p}"

lemmas touched = aside_def temp_holds_def temp_full_def published_def settled_def disk_ok_def

lemma uncounted_touched:
  "uncounted (aside T d0)" "uncounted (temp_holds T d0 tmp fd bs)" "uncounted (temp_full T d0 tmp fd bs)"
  "uncounted (published T d0 p bs)" "uncounted (settled p)"
  by (simp_all add: uncounted_def touched)

lemma uncounted_conj: "uncounted P \<Longrightarrow> uncounted Q \<Longrightarrow> uncounted (\<lambda>d. P d \<and> Q d)"
  by (simp add: uncounted_def)

lemma aside_refl: "disk_ok d \<Longrightarrow> aside T d d"
  by (simp add: aside_def same_node_def)

lemma temp_aside: "temp_holds T d0 tmp fd bs d \<Longrightarrow> aside T d0 d" "temp_full T d0 tmp fd bs d \<Longrightarrow> aside T d0 d"
  by (simp_all add: temp_holds_def temp_full_def)

section \<open>The calls of a write\<close>

lemma aside_new_file:
  assumes "aside T d0 d" "n \<in> T"
  shows "temp_holds T d0 n (dk_next d) [] (fst (new_file n d))" "snd (new_file n d) = Inr (dk_next d)"
  using assms by (auto simp: new_file_def Let_def touched bind_name_def set_node_def same_node_def less_SucI)

lemma spec_open_excl:
  assumes "n \<in> T"
  shows "spec (aside T d0) (open_excl os n) (\<lambda>fd. temp_holds T d0 n fd []) (\<lambda>_. aside T d0)"
  unfolding open_excl_def
proof (rule spec_sys)
  fix d k assume d: "aside T d0 d"
  let ?d = "d\<lparr>dk_calls := Suc (dk_calls d)\<rparr>"
  have a: "aside T d0 ?d" using d uncounted_touched(1) by (simp add: uncounted_def)
  show "case if dk_names ?d n \<noteq> None then (?d, Inl File_Exists) else new_file n ?d of
      (d2, Inl e) \<Rightarrow> aside T d0 d2 \<and> aside T d0 d2 | (d2, Inr x) \<Rightarrow> temp_holds T d0 n x [] d2 \<and> aside T d0 d2"
    using a aside_new_file [OF a assms] temp_aside(1) by (auto split: prod.splits)
qed (use uncounted_touched(1) in \<open>simp add: uncounted_def\<close>)

lemma spec_open_temp:
  assumes "range cand \<subseteq> T"
  shows "spec (aside T d0) (open_temp os cand k) (\<lambda>(tmp, fd). temp_holds T d0 tmp fd []) (\<lambda>_. aside T d0)"
proof (induction k)
  case 0
  show ?case by (simp add: spec_raises)
next
  case (Suc k)
  have c: "cand k \<in> T" using assms by blast
  show ?case
    unfolding spec_def open_temp.simps
  proof (intro allI impI)
    fix d assume d: "aside T d0 d"
    obtain d1 r where o1: "open_excl os (cand k) d = (d1, r)" by (cases "open_excl os (cand k) d")
    note s = specD [OF spec_open_excl [OF c] d, of os d1] 
    show "case case open_excl os (cand k) d of
            (d1, Returned fd) \<Rightarrow> (d1, Returned (cand k, fd)) | (d1, Raised File_Exists) \<Rightarrow> open_temp os cand k d1
          | (d1, Raised _) \<Rightarrow> (d1, Raised Event_Store_Error) | (d1, Killed) \<Rightarrow> (d1, Killed) of
          (d', Returned x) \<Rightarrow> (case x of (tmp, fd) \<Rightarrow> temp_holds T d0 tmp fd []) d' | (d', Raised e) \<Rightarrow> aside T d0 d' | (d', Killed) \<Rightarrow> aside T d0 d'"
    proof (cases "r = Raised File_Exists")
      case True
      then have "aside T d0 d1" using s(2) o1 by blast
      from Suc.IH [unfolded spec_def, rule_format, OF this] show ?thesis by (simp add: o1 True)
    next
      case False
      then show ?thesis using s o1 by (auto split: run.splits file_error.splits)
    qed
  qed
qed

lemma temp_set_node:
  assumes "temp_holds T d0 tmp fd bs d" "nd_synced nd \<le> length (nd_data nd)"
  shows "temp_holds T d0 tmp fd (nd_data nd) (set_node fd nd d)"
  using assms by (auto simp: touched set_node_def same_node_def)

lemma spec_fchmod: "spec (temp_holds T d0 tmp fd bs) (fchmod os fd m) (\<lambda>_. temp_holds T d0 tmp fd bs) (\<lambda>_. aside T d0)"
  unfolding fchmod_def
proof (rule spec_sys)
  fix d k assume d: "temp_holds T d0 tmp fd bs d"
  let ?d = "d\<lparr>dk_calls := Suc (dk_calls d)\<rparr>"
  let ?n = "(dk_nodes ?d fd)\<lparr>nd_mode := m\<rparr>"
  have t: "temp_holds T d0 tmp fd bs ?d" using d uncounted_touched(2) by (simp add: uncounted_def)
  then have "nd_synced ?n \<le> length (nd_data ?n)" "nd_data ?n = bs" by (auto simp: touched)
  with temp_set_node [OF t this(1)] show "case (set_node fd ?n ?d, Inr ()) of
      (d2, Inl e) \<Rightarrow> aside T d0 d2 \<and> aside T d0 d2 | (d2, Inr x) \<Rightarrow> temp_holds T d0 tmp fd bs d2 \<and> aside T d0 d2"
    using temp_aside(1) by auto
qed (use uncounted_touched(1) temp_aside in \<open>auto simp: uncounted_def\<close>)

lemma spec_os_write:
  "spec (temp_holds T d0 tmp fd bs) (os_write os fd rest)
     (\<lambda>n. temp_holds T d0 tmp fd (bs @ take n rest)) (\<lambda>_. aside T d0)"
  unfolding os_write_def
proof (rule spec_sys)
  fix d k assume d: "temp_holds T d0 tmp fd bs d"
  let ?d = "d\<lparr>dk_calls := Suc (dk_calls d)\<rparr>"
  let ?n = "(dk_nodes ?d fd)\<lparr>nd_data := nd_data (dk_nodes ?d fd) @ take k rest\<rparr>"
  have t: "temp_holds T d0 tmp fd bs ?d" using d uncounted_touched(2) by (simp add: uncounted_def)
  then have "nd_synced ?n \<le> length (nd_data ?n)" "nd_data ?n = bs @ take k rest" by (auto simp: touched trans_le_add1)
  with temp_set_node [OF t this(1)] show "case (set_node fd ?n ?d, Inr (min k (length rest))) of
      (d2, Inl e) \<Rightarrow> aside T d0 d2 \<and> aside T d0 d2
    | (d2, Inr x) \<Rightarrow> temp_holds T d0 tmp fd (bs @ take x rest) d2 \<and> aside T d0 d2"
    using temp_aside(1) by (auto simp: min_def)
qed (use uncounted_touched(1) temp_aside in \<open>auto simp: uncounted_def\<close>)

lemma spec_fsync: "spec (temp_holds T d0 tmp fd bs) (fsync os fd) (\<lambda>_. temp_full T d0 tmp fd bs) (\<lambda>_. aside T d0)"
  unfolding fsync_def
proof (rule spec_sys)
  fix d k assume d: "temp_holds T d0 tmp fd bs d"
  let ?d = "d\<lparr>dk_calls := Suc (dk_calls d)\<rparr>"
  let ?n = "(dk_nodes ?d fd)\<lparr>nd_synced := length (nd_data (dk_nodes ?d fd))\<rparr>"
  have t: "temp_holds T d0 tmp fd bs ?d" using d uncounted_touched(2) by (simp add: uncounted_def)
  then have "nd_synced ?n \<le> length (nd_data ?n)" "nd_data ?n = bs" by (auto simp: touched)
  with temp_set_node [OF t this(1)] show "case (set_node fd ?n ?d, Inr ()) of
      (d2, Inl e) \<Rightarrow> aside T d0 d2 \<and> aside T d0 d2 | (d2, Inr x) \<Rightarrow> temp_full T d0 tmp fd bs d2 \<and> aside T d0 d2"
    using temp_aside(1) by (auto simp: temp_full_def set_node_def)
qed (use uncounted_touched(1) temp_aside in \<open>auto simp: uncounted_def\<close>)

lemma spec_write_temp:
  "spec (temp_holds T d0 tmp fd []) (write_all os fd data) (\<lambda>_. temp_holds T d0 tmp fd data) (\<lambda>_. aside T d0)"
proof -
  define I where "I bs d \<longleftrightarrow> (\<exists>pre. pre @ bs = data \<and> temp_holds T d0 tmp fd pre d)" for bs d
  have "spec (I bs) (os_write os fd bs) (\<lambda>n. if n = 0 then aside T d0 else I (drop n bs)) (\<lambda>_. aside T d0)" for bs
    unfolding spec_def
  proof (intro allI impI)
    fix d assume "I bs d"
    then obtain pre where pre: "pre @ bs = data" "temp_holds T d0 tmp fd pre d" by (auto simp: I_def)
    have step: "I (drop n bs) e" if "temp_holds T d0 tmp fd (pre @ take n bs) e" for n e
      unfolding I_def by (rule exI [of _ "pre @ take n bs"]) (use that pre(1) in simp)
    show "case os_write os fd bs d of (d', Returned x) \<Rightarrow> (if x = 0 then aside T d0 else I (drop x bs)) d'
        | (d', Raised e) \<Rightarrow> aside T d0 d' | (d', Killed) \<Rightarrow> aside T d0 d'"
      using spec_os_write [of T d0 tmp fd pre os bs, unfolded spec_def, rule_format, OF pre(2)] temp_aside(1)
      by (auto simp: step split: prod.splits run.splits)
  qed
  then have "spec (I data) (write_all os fd data) (\<lambda>_. I []) (\<lambda>_. aside T d0)"
    by (rule spec_write_all [where F = "\<lambda>_. aside T d0"]) auto
  then show ?thesis by (rule spec_conseq) (auto simp: I_def)
qed

lemma spec_unlink_temp: "n \<in> T \<Longrightarrow> spec (aside T d0) (os_unlink os n) (\<lambda>_. aside T d0) (\<lambda>_. aside T d0)"
  unfolding os_unlink_def by (rule spec_sys) (auto simp: touched bind_name_def same_node_def)

lemma spec_fill_temp:
  assumes "spec (aside T d0) cleanup (\<lambda>_. aside T d0) (\<lambda>_. aside T d0)"
  shows "spec (temp_holds T d0 tmp fd []) (fill_temp os cleanup fd data) (\<lambda>_. temp_full T d0 tmp fd data) (\<lambda>_. aside T d0)"
  unfolding fill_temp_def
  by (intro spec_closing assms uncounted_touched spec_seqp [OF spec_wrap [OF spec_fchmod]] spec_seqp [OF spec_write_temp]
      spec_wrap spec_fsync temp_aside(2))

section \<open>Publication\<close>

lemma names_bound: "disk_ok d \<Longrightarrow> dk_names d n = Some i \<Longrightarrow> i < dk_next d"
  unfolding disk_ok_def by metis

lemma disk_ok_bind: "disk_ok d \<Longrightarrow> pred_option (\<lambda>i. i < dk_next d) b \<Longrightarrow> disk_ok (bind_name n b d)"
  by (auto simp: disk_ok_def bind_name_def)

lemma published_bind:
  assumes full: "temp_full T d0 tmp fd bs d" and p: "p \<notin> T"
  shows "published T d0 p bs (bind_name p (Some fd) d)" "published T d0 p bs (bind_name tmp None (bind_name p (Some fd) d))"
proof -
  have ok: "disk_ok d" "dk_names d tmp = Some fd" and ne: "p \<noteq> tmp" using full p by (auto simp: temp_full_def temp_holds_def aside_def)
  have "disk_ok (bind_name p (Some fd) d)" by (rule disk_ok_bind [OF ok(1)]) (simp add: names_bound [OF ok])
  moreover from this have "disk_ok (bind_name tmp None (bind_name p (Some fd) d))" by (rule disk_ok_bind) simp
  ultimately show "published T d0 p bs (bind_name p (Some fd) d)"
    "published T d0 p bs (bind_name tmp None (bind_name p (Some fd) d))"
    using full p ne by (auto simp: published_def temp_full_def temp_holds_def aside_def bind_name_def)
qed

lemma published_set_mode:
  "published T d0 p bs d \<Longrightarrow> published T d0 p bs (set_node i ((dk_nodes d i)\<lparr>nd_mode := m\<rparr>) d)"
  by (auto simp: touched set_node_def same_node_def)

lemma disk_ok_sync: "disk_ok d \<Longrightarrow> disk_ok (d\<lparr>dk_maybe := (\<lambda>n. {dk_names d n})\<rparr>)"
  unfolding disk_ok_def by simp metis

lemma published_sync: "published T d0 p bs d \<Longrightarrow> disk_ok d0 \<Longrightarrow> published T d0 p bs (d\<lparr>dk_maybe := (\<lambda>n. {dk_names d n})\<rparr>)"
  using disk_ok_sync [of d] by (auto simp: published_def disk_ok_def [of d0])

lemma spec_chmod: "spec (published T d0 p bs) (os_chmod os n m) (\<lambda>_. published T d0 p bs) (\<lambda>_. published T d0 p bs)"
  unfolding os_chmod_def
proof (rule spec_sys)
  fix d k assume d: "published T d0 p bs d"
  let ?d = "d\<lparr>dk_calls := Suc (dk_calls d)\<rparr>"
  have t: "published T d0 p bs ?d" using d uncounted_touched(4) by (simp add: uncounted_def)
  from t published_set_mode [OF t]
  show "case case dk_names ?d n of None \<Rightarrow> (?d, Inl Not_Found)
      | Some i \<Rightarrow> (set_node i ((dk_nodes ?d i)\<lparr>nd_mode := m\<rparr>) ?d, Inr ()) of
      (d2, Inl e) \<Rightarrow> published T d0 p bs d2 \<and> published T d0 p bs d2 | (d2, Inr x) \<Rightarrow> published T d0 p bs d2 \<and> published T d0 p bs d2"
    by (auto split: option.splits)
qed (use uncounted_touched(4) in \<open>simp add: uncounted_def\<close>)

lemma spec_unlink_published: "n \<in> T \<Longrightarrow> p \<notin> T \<Longrightarrow> spec (published T d0 p bs) (os_unlink os n) (\<lambda>_. published T d0 p bs) (\<lambda>_. published T d0 p bs)"
  unfolding os_unlink_def by (rule spec_sys) (auto simp: touched bind_name_def same_node_def)

lemma spec_fsync_dir:
  assumes "uncounted P" "\<And>d. P d \<Longrightarrow> P (d\<lparr>dk_maybe := (\<lambda>n. {dk_names d n})\<rparr>)"
  shows "spec P (fsync_dir os) (\<lambda>_ d. P d \<and> (\<forall>n. settled n d)) (\<lambda>_. P)"
proof -
  have sync: "spec P (wrap (sync_names os)) (\<lambda>_ d. P d \<and> (\<forall>n. settled n d)) (\<lambda>_. P)"
    unfolding sync_names_def
  proof (intro spec_wrap spec_sys)
    fix d n assume d: "P d"
    let ?d = "d\<lparr>dk_calls := Suc (dk_calls d)\<rparr>"
    have "P (?d\<lparr>dk_maybe := (\<lambda>n. {dk_names ?d n})\<rparr>)" using d assms by (simp only: uncounted_def)
    then show "case (?d\<lparr>dk_maybe := (\<lambda>n. {dk_names ?d n})\<rparr>, Inr ()) of (d2, Inl e) \<Rightarrow> P d2 \<and> P d2
        | (d2, Inr x) \<Rightarrow> (P d2 \<and> (\<forall>n. settled n d2)) \<and> P d2"
      by (simp add: settled_def)
  qed (use assms(1) in \<open>simp add: uncounted_def\<close>)
  have close: "case inert os d of (d2, Killed) \<Rightarrow> P d2 | (d2, _) \<Rightarrow> P d2 \<and> ((\<forall>n. settled n d) \<longrightarrow> (\<forall>n. settled n d2))" if "P d" for d
    using that assms(1) by (auto simp: inert_def sys_call_def uncounted_def settled_def Let_def split: sys.splits)
  have "spec P (\<lambda>d. case wrap (sync_names os) d of
         (d1, Killed) \<Rightarrow> (d1, Killed)
       | (d1, r) \<Rightarrow> (case inert os d1 of (d2, Returned _) \<Rightarrow> (d2, r) | q \<Rightarrow> q)) (\<lambda>_ d. P d \<and> (\<forall>n. settled n d)) (\<lambda>_. P)"
    unfolding spec_def
  proof (intro allI impI)
    fix d assume d: "P d"
    note s = sync [unfolded spec_def, rule_format, OF d]
    show "case case wrap (sync_names os) d of (d1, Killed) \<Rightarrow> (d1, Killed)
         | (d1, r) \<Rightarrow> (case inert os d1 of (d2, Returned _) \<Rightarrow> (d2, r) | q \<Rightarrow> q) of
       (d', Returned x) \<Rightarrow> P d' \<and> (\<forall>n. settled n d') | (d', Raised e) \<Rightarrow> P d' | (d', Killed) \<Rightarrow> P d'"
      using s close by (cases "wrap (sync_names os) d"; cases "inert os (fst (wrap (sync_names os) d))")
        (fastforce split: run.splits)
  qed
  then show ?thesis
    unfolding fsync_dir_def by (intro spec_seqp [OF spec_wrap [OF spec_inert [OF assms(1)]]])
qed

lemma spec_replace:
  assumes "p \<notin> T"
  shows "spec (temp_full T d0 tmp fd bs) (os_replace os tmp p) (\<lambda>_. published T d0 p bs) (\<lambda>_ d. aside T d0 d \<or> published T d0 p bs d)"
  unfolding os_replace_def
proof (rule spec_sys)
  fix d k assume d: "temp_full T d0 tmp fd bs d"
  let ?d = "d\<lparr>dk_calls := Suc (dk_calls d)\<rparr>"
  have t: "temp_full T d0 tmp fd bs ?d" using d uncounted_touched(3) by (simp add: uncounted_def)
  then have n: "dk_names ?d tmp = Some fd" by (simp only: temp_full_def temp_holds_def)
  show "case if dk_names ?d tmp = None then (?d, Inl Not_Found) else (bind_name tmp None (bind_name p (dk_names ?d tmp) ?d), Inr ()) of
      (d2, Inl e) \<Rightarrow> (aside T d0 d2 \<or> published T d0 p bs d2) \<and> (aside T d0 d2 \<or> published T d0 p bs d2)
    | (d2, Inr x) \<Rightarrow> published T d0 p bs d2 \<and> (aside T d0 d2 \<or> published T d0 p bs d2)"
    using published_bind(2) [OF t assms] unfolding n by simp
qed (use uncounted_touched(1) temp_aside(2) in \<open>auto simp: uncounted_def\<close>)

lemma spec_link:
  assumes "p \<notin> T"
  shows "spec (temp_full T d0 tmp fd bs) (os_link os tmp p) (\<lambda>_ d. dk_names d0 p = None \<and> published T d0 p bs d)
     (\<lambda>_ d. aside T d0 d \<or> dk_names d0 p = None \<and> published T d0 p bs d)"
  unfolding os_link_def
proof (rule spec_sys)
  fix d k assume d: "temp_full T d0 tmp fd bs d"
  let ?d = "d\<lparr>dk_calls := Suc (dk_calls d)\<rparr>"
  have t: "temp_full T d0 tmp fd bs ?d" using d uncounted_touched(3) by (simp add: uncounted_def)
  then have n: "dk_names ?d tmp = Some fd" "dk_names ?d p = dk_names d0 p" "aside T d0 ?d"
    using assms unfolding temp_full_def temp_holds_def aside_def by blast+
  show "case if dk_names ?d p \<noteq> None then (?d, Inl File_Exists)
        else if dk_names ?d tmp = None then (?d, Inl Not_Found) else (bind_name p (dk_names ?d tmp) ?d, Inr ()) of
      (d2, Inl e) \<Rightarrow> (aside T d0 d2 \<or> dk_names d0 p = None \<and> published T d0 p bs d2) \<and>
                     (aside T d0 d2 \<or> dk_names d0 p = None \<and> published T d0 p bs d2)
    | (d2, Inr x) \<Rightarrow> (dk_names d0 p = None \<and> published T d0 p bs d2) \<and>
                     (aside T d0 d2 \<or> dk_names d0 p = None \<and> published T d0 p bs d2)"
    using published_bind(1) [OF t assms] n(3) unfolding n(1,2) by simp
qed (use uncounted_touched(1) temp_aside(2) in \<open>auto simp: uncounted_def\<close>)

lemma spec_or:
  "spec P p Q (\<lambda>_. E) \<Longrightarrow> spec P' p Q' (\<lambda>_. E') \<Longrightarrow>
   spec (\<lambda>d. P d \<or> P' d) p (\<lambda>x d. Q x d \<or> Q' x d) (\<lambda>_ d. E d \<or> E' d)"
  unfolding spec_def by (fastforce split: prod.splits run.splits)

lemma spec_const: "spec P p (\<lambda>_. Q) (\<lambda>_. E) \<Longrightarrow> spec (\<lambda>d. b \<and> P d) p (\<lambda>_ d. b \<and> Q d) (\<lambda>_ d. b \<and> E d)"
  unfolding spec_def by (fastforce split: prod.splits run.splits)

lemma spec_ignoring_same: "spec P p (\<lambda>_. P) (\<lambda>_. P) \<Longrightarrow> (\<And>d. P d \<Longrightarrow> E None d) \<Longrightarrow> spec P (ignoring p) (\<lambda>_. P) E"
  by (rule spec_ignoring) (auto intro: spec_conseq split: option.splits)

lemma spec_durable_write:
  assumes "range cand \<subseteq> T" "p \<notin> T" "disk_ok d0"
  shows "spec (aside T d0) (durable_atomic_write_bytes os cand p data)
     (\<lambda>_ d. published T d0 p data d \<and> (\<forall>n. settled n d)) (\<lambda>_ d. aside T d0 d \<or> published T d0 p data d)"
proof -
  let ?E = "\<lambda>d. aside T d0 d \<or> published T d0 p data d"
  have weak: "spec P q Q (\<lambda>_. aside T d0) \<Longrightarrow> spec P q Q (\<lambda>_. ?E)" for P :: "disk \<Rightarrow> bool" and q :: "'a prog" and Q
    by (erule spec_conseq) auto
  have weaku: "spec P q Q (\<lambda>_. published T d0 p data) \<Longrightarrow> spec P q Q (\<lambda>_. ?E)" for P :: "disk \<Rightarrow> bool" and q :: "unit prog" and Q
    by (erule spec_conseq) auto
  have inT: "spec (temp_holds T d0 tmp fd []) (fill_temp os (os_unlink os tmp) fd data) (\<lambda>_. temp_full T d0 tmp fd data) (\<lambda>_. ?E)" for tmp fd
  proof (cases "tmp \<in> T")
    case True
    show ?thesis by (rule spec_conseq [OF spec_fill_temp [OF spec_unlink_temp [OF True]]]) auto
  qed (simp add: spec_def temp_holds_def)
  have repl: "spec (temp_full T d0 tmp fd data)
      (catch (os_replace os tmp p) (\<lambda>_. seqp (ignoring (os_unlink os tmp)) (\<lambda>_. raises Event_Store_Error)))
      (\<lambda>_. published T d0 p data) (\<lambda>_. ?E)" for tmp fd
  proof (cases "tmp \<in> T")
    case True
    have "spec ?E (os_unlink os tmp) (\<lambda>_. ?E) (\<lambda>_. ?E)"
      by (rule spec_or [OF spec_unlink_temp [OF True] spec_unlink_published [OF True assms(2)]])
    then show ?thesis
      by (intro spec_catch [OF spec_replace [OF assms(2)]] spec_seqp [where Q = "\<lambda>_. ?E"] spec_ignoring_same spec_raises) auto
  qed (simp add: spec_def temp_full_def temp_holds_def)
  have tail: "spec (published T d0 p data) (seqp (wrap (os_chmod os p FILE_MODE)) (\<lambda>_. wrap (fsync_dir os)))
      (\<lambda>_ d. published T d0 p data d \<and> (\<forall>n. settled n d)) (\<lambda>_. ?E)"
    by (intro weaku spec_seqp [OF spec_wrap [OF spec_chmod]] spec_wrap spec_fsync_dir uncounted_touched(4) published_sync assms(3))
  have first: "spec (aside T d0) (wrap (inert os)) (\<lambda>_. aside T d0) (\<lambda>_. ?E)"
    by (rule spec_conseq [OF spec_wrap [OF spec_inert [OF uncounted_touched(1)]]]) auto
  have opened: "spec (aside T d0) (open_temp os cand 32) (\<lambda>(tmp, fd). temp_holds T d0 tmp fd []) (\<lambda>_. ?E)"
    by (rule spec_conseq [OF spec_open_temp [OF assms(1)]]) auto
  show ?thesis
    unfolding durable_atomic_write_bytes_def
    by (rule spec_seqp [OF first], rule spec_seqp [OF opened])
       (clarsimp split: prod.splits, rule spec_seqp [OF inT], rule spec_seqp [OF repl], rule tail)
qed

lemma spec_exclusive_create:
  assumes "range cand \<subseteq> T" "p \<notin> T" "disk_ok d0"
  shows "spec (aside T d0) (exclusive_create_bytes os cand p data)
     (\<lambda>_ d. dk_names d0 p = None \<and> published T d0 p data d \<and> (\<forall>n. settled n d))
     (\<lambda>_ d. aside T d0 d \<or> dk_names d0 p = None \<and> published T d0 p data d)"
proof -
  let ?N = "\<lambda>d. dk_names d0 p = None \<and> published T d0 p data d"
  let ?E = "\<lambda>d. aside T d0 d \<or> ?N d"
  have fill: "spec (temp_holds T d0 tmp fd []) (fill_temp os (returns ()) fd data) (\<lambda>_. temp_full T d0 tmp fd data) (\<lambda>_. ?E)" for tmp fd
    by (rule spec_conseq [OF spec_fill_temp [OF spec_returns]]) auto
  have link: "spec (temp_full T d0 tmp fd data)
      (catch (os_link os tmp p) (\<lambda>e. if e = File_Exists then seqp (ignoring (os_unlink os tmp)) (\<lambda>_. raises File_Exists)
         else raises Event_Store_Error)) (\<lambda>_ d. tmp \<in> T \<and> ?N d) (\<lambda>_. ?E)" for tmp fd
  proof (cases "tmp \<in> T")
    case True
    have "spec ?E (os_unlink os tmp) (\<lambda>_. ?E) (\<lambda>_. ?E)"
      by (rule spec_or [OF spec_unlink_temp [OF True] spec_const [OF spec_unlink_published [OF True assms(2)]]])
    then have h: "spec ?E (if e = File_Exists then seqp (ignoring (os_unlink os tmp)) (\<lambda>_. raises File_Exists)
         else raises Event_Store_Error) (\<lambda>_. ?N) (\<lambda>_. ?E)" for e
      by (auto intro!: spec_seqp [where Q = "\<lambda>_. ?E"] spec_ignoring_same spec_raises)
    show ?thesis using True by (intro spec_conseq [OF spec_catch [OF spec_link [OF assms(2)] h]]) auto
  qed (simp add: spec_def temp_full_def temp_holds_def)
  have drop_tmp: "spec (\<lambda>d. tmp \<in> T \<and> ?N d) (ignoring (os_unlink os tmp)) (\<lambda>_. ?N) (\<lambda>_. ?E)" for tmp
  proof (cases "tmp \<in> T")
    case True
    have "spec ?N (ignoring (os_unlink os tmp)) (\<lambda>_. ?N) (\<lambda>_. ?E)"
      by (rule spec_ignoring_same [OF spec_const [OF spec_unlink_published [OF True assms(2)]]]) auto
    then show ?thesis by (rule spec_conseq) auto
  qed (simp add: spec_def)
  have tail: "spec ?N (wrap (fsync_dir os)) (\<lambda>_ d. dk_names d0 p = None \<and> published T d0 p data d \<and> (\<forall>n. settled n d)) (\<lambda>_. ?E)"
    by (rule spec_conseq [OF spec_wrap [OF spec_const [OF spec_fsync_dir [OF uncounted_touched(4) published_sync [OF _ assms(3)]]]]]) auto
  have first: "spec (aside T d0) (wrap (inert os)) (\<lambda>_. aside T d0) (\<lambda>_. ?E)"
    by (rule spec_conseq [OF spec_wrap [OF spec_inert [OF uncounted_touched(1)]]]) auto
  have opened: "spec (aside T d0) (open_temp os cand 32) (\<lambda>(tmp, fd). temp_holds T d0 tmp fd []) (\<lambda>_. ?E)"
    by (rule spec_conseq [OF spec_open_temp [OF assms(1)]]) auto
  show ?thesis
    unfolding exclusive_create_bytes_def
    by (rule spec_seqp [OF first], rule spec_seqp [OF opened])
       (clarsimp split: prod.splits, rule spec_seqp [OF fill], rule spec_seqp [OF link], rule spec_seqp [OF drop_tmp], rule tail)
qed

end
