(* ===== verification/Durable_Files_Props.thy ===== *)
theory Durable_Files_Props
  imports Durable_Files_Spec Run_Finalize
begin

text \<open>
  What the file primitives promise whatever the kernel answers: a durable write leaves the old bytes or the
  new ones at every moment a crash can happen, an exclusive creation never touches an existing file, an
  append keeps what was durable before it; and the three outcomes the stores assume of a write are the ones
  the call sequences have.
\<close>

section \<open>What readers see\<close>

lemma survives_same: "same_node a b \<Longrightarrow> survives b c \<longleftrightarrow> survives a c"
  by (simp add: same_node_def survives_def)

lemma aside_reads:
  assumes "aside T d0 d" "disk_ok d0" "n \<notin> T"
  shows "live_read d n = live_read d0 n" "crash_reads d n = crash_reads d0 n"
proof -
  have old: "i < dk_next d0" if "Some i \<in> dk_maybe d0 n" for i using that assms(2) by (auto simp: disk_ok_def)
  have names: "dk_names d n = dk_names d0 n" "dk_maybe d n = dk_maybe d0 n" "dk_names d0 n \<in> dk_maybe d0 n"
    and same: "\<And>i. i < dk_next d0 \<Longrightarrow> same_node (dk_nodes d0 i) (dk_nodes d i)"
    using assms by (auto simp: aside_def disk_ok_def)
  show "live_read d n = live_read d0 n"
    using names same old by (cases "dk_names d0 n") (auto simp: live_read_def same_node_def)
  show "crash_reads d n = crash_reads d0 n"
    using names(2) survives_same [OF same [OF old]]
    by (auto simp: crash_reads_def split: option.splits intro!: bexI)
qed

lemma published_reads:
  assumes "published T d0 p bs d" "disk_ok d0" "p \<notin> T"
  shows "live_read d p = Some bs" "crash_reads d p \<subseteq> insert (Some bs) (crash_reads d0 p)"
    "settled p d \<Longrightarrow> crash_reads d p = {Some bs}"
    "n \<notin> insert p T \<Longrightarrow> live_read d n = live_read d0 n \<and> crash_reads d n \<subseteq> crash_reads d0 n"
proof -
  from assms(1) obtain fd where fd: "dk_next d0 \<le> fd" "dk_names d p = Some fd" "nd_data (dk_nodes d fd) = bs"
    "nd_synced (dk_nodes d fd) = length bs" "dk_maybe d p \<subseteq> insert (Some fd) (dk_maybe d0 p)"
    by (auto simp: published_def)
  have same: "\<And>i. i < dk_next d0 \<Longrightarrow> same_node (dk_nodes d0 i) (dk_nodes d i)" using assms(1) by (simp add: published_def)
  have old: "i < dk_next d0" if "Some i \<in> dk_maybe d0 m" for i m using that assms(2) by (auto simp: disk_ok_def)
  have new: "survives (dk_nodes d fd) c \<longleftrightarrow> c = bs" for c using fd by (auto simp: survives_def)
  show "live_read d p = Some bs" using fd by (simp add: live_read_def)
  show "crash_reads d p \<subseteq> insert (Some bs) (crash_reads d0 p)"
  proof
    fix r assume "r \<in> crash_reads d p"
    then obtain b where b: "b \<in> dk_maybe d p" "case b of None \<Rightarrow> r = None | Some i \<Rightarrow> \<exists>c. r = Some c \<and> survives (dk_nodes d i) c"
      by (auto simp: crash_reads_def)
    show "r \<in> insert (Some bs) (crash_reads d0 p)"
    proof (cases "b = Some fd")
      case True
      with b(2) new show ?thesis by auto
    next
      case False
      with b(1) fd(5) have m: "b \<in> dk_maybe d0 p" by blast
      then have "case b of None \<Rightarrow> r = None | Some i \<Rightarrow> \<exists>c. r = Some c \<and> survives (dk_nodes d0 i) c"
        using b(2) survives_same [OF same [OF old]] by (auto split: option.splits)
      with m show ?thesis by (auto simp: crash_reads_def)
    qed
  qed
  show "crash_reads d p = {Some bs}" if "settled p d"
    using that fd(2) new by (auto simp: crash_reads_def settled_def)
  assume n: "n \<notin> insert p T"
  then have nn: "dk_names d n = dk_names d0 n" "dk_maybe d n \<subseteq> dk_maybe d0 n" using assms(1) by (auto simp: published_def)
  have "dk_names d0 n \<in> dk_maybe d0 n" using assms(2) by (simp add: disk_ok_def)
  then have "live_read d n = live_read d0 n"
    using nn same old by (cases "dk_names d0 n") (auto simp: live_read_def same_node_def)
  moreover have "crash_reads d n \<subseteq> crash_reads d0 n"
    using nn(2) survives_same [OF same [OF old]] by (fastforce simp: crash_reads_def split: option.splits)
  ultimately show "live_read d n = live_read d0 n \<and> crash_reads d n \<subseteq> crash_reads d0 n" by simp
qed

lemma durable_write_outcomes:
  assumes "durable_atomic_write_bytes os cand p data d = (d', r)" "p \<notin> range cand" "disk_ok d"
  shows "aside (range cand) d d' \<or> published (range cand) d p data d'"
    "r = Returned u \<Longrightarrow> published (range cand) d p data d' \<and> settled p d'"
  using spec_durable_write [OF subset_refl assms(2,3), of os data, unfolded spec_def, rule_format, OF aside_refl [OF assms(3)]]
    assms(1) by (auto split: run.splits)

text \<open>C4. A durable write is all or nothing, at every moment.  Whatever the kernel answers to each call, and
  wherever the process is killed or the machine crashes, the file holds its old bytes or exactly the new ones,
  both for readers now and after a crash, and other files are untouched; when the write returns, the new bytes
  are what every crash leaves.\<close>

theorem durable_write_all_or_nothing:
  assumes "durable_atomic_write_bytes os cand p data d = (d', r)" and "p \<notin> range cand" and "disk_ok d"
  shows "live_read d' p \<in> {live_read d p, Some data} \<and> crash_reads d' p \<subseteq> insert (Some data) (crash_reads d p) \<and>
     (r = Returned () \<longrightarrow> live_read d' p = Some data \<and> crash_reads d' p = {Some data}) \<and>
     (\<forall>n. n \<notin> insert p (range cand) \<longrightarrow> live_read d' n = live_read d n \<and> crash_reads d' n \<subseteq> crash_reads d n)"
proof -
  note out = durable_write_outcomes [OF assms]
  have finished: "live_read d' p = Some data \<and> crash_reads d' p = {Some data}" if "r = Returned ()"
    using out(2) [OF that] published_reads(1,3) [OF _ assms(3,2)] by blast
  from out(1) show ?thesis
  proof
    assume a: "aside (range cand) d d'"
    show ?thesis using finished aside_reads [OF a assms(3)] assms(2) by auto
  next
    assume b: "published (range cand) d p data d'"
    show ?thesis using finished published_reads [OF b assms(3,2)] by auto
  qed
qed

lemma exclusive_create_outcomes:
  assumes "exclusive_create_bytes os cand p data d = (d', r)" "p \<notin> range cand" "disk_ok d"
  shows "aside (range cand) d d' \<or> dk_names d p = None \<and> published (range cand) d p data d'"
    "r = Returned u \<Longrightarrow> dk_names d p = None \<and> published (range cand) d p data d' \<and> settled p d'"
  using spec_exclusive_create [OF subset_refl assms(2,3), of os data, unfolded spec_def, rule_format, OF aside_refl [OF assms(3)]]
    assms(1) by (auto split: run.splits)

text \<open>An exclusive creation never touches a file that exists: it does not return, and neither readers nor
  a crash find anything changed.  Where no file existed, at every moment there is still none or exactly the
  complete new one, and when the creation returns every crash leaves it.\<close>

theorem exclusive_create_never_clobbers:
  assumes "exclusive_create_bytes os cand p data d = (d', r)" and "p \<notin> range cand" and "disk_ok d"
  shows "(live_read d p \<noteq> None \<longrightarrow> r \<noteq> Returned () \<and> live_read d' p = live_read d p \<and> crash_reads d' p = crash_reads d p) \<and>
     (live_read d p = None \<longrightarrow> live_read d' p \<in> {None, Some data} \<and> crash_reads d' p \<subseteq> insert (Some data) (crash_reads d p)) \<and>
     (r = Returned () \<longrightarrow> live_read d' p = Some data \<and> crash_reads d' p = {Some data})"
proof -
  note out = exclusive_create_outcomes [OF assms]
  have none: "live_read d p = None \<longleftrightarrow> dk_names d p = None" by (simp add: live_read_def)
  have finished: "live_read d p = None \<and> live_read d' p = Some data \<and> crash_reads d' p = {Some data}" if "r = Returned ()"
    using out(2) [OF that] none published_reads(1,3) [OF _ assms(3,2)] by blast
  from out(1) show ?thesis
  proof
    assume a: "aside (range cand) d d'"
    show ?thesis using finished aside_reads [OF a assms(3)] assms(2) by auto
  next
    assume b: "dk_names d p = None \<and> published (range cand) d p data d'"
    then have "live_read d p = None" "live_read d' p = Some data" "crash_reads d' p \<subseteq> insert (Some data) (crash_reads d p)"
      using none published_reads(1,2) [OF conjunct2 [OF b] assms(3,2)] by simp_all
    then show ?thesis using finished by simp
  qed
qed

section \<open>Appends\<close>

text \<open>The whole ledger is durable: its name and every byte of it, or it does not exist yet.\<close>

definition ledger_at :: "string \<Rightarrow> bytes \<Rightarrow> disk \<Rightarrow> bool" where
  "ledger_at p old d \<longleftrightarrow> disk_ok d \<and>
     (dk_names d p = None \<and> dk_maybe d p = {None} \<and> old = [] \<or>
      (\<exists>i. dk_names d p = Some i \<and> dk_maybe d p = {Some i} \<and> nd_data (dk_nodes d i) = old \<and> nd_synced (dk_nodes d i) = length old))"

definition growing :: "string \<Rightarrow> nat \<Rightarrow> nat option set \<Rightarrow> bytes \<Rightarrow> bytes \<Rightarrow> disk \<Rightarrow> bool" where
  "growing p i M old w d \<longleftrightarrow> disk_ok d \<and> dk_names d p = Some i \<and> dk_maybe d p = M \<and> (M = {Some i} \<or> M = {None, Some i} \<and> old = []) \<and>
     nd_data (dk_nodes d i) = old @ w \<and> length old \<le> nd_synced (dk_nodes d i)"

definition keeps :: "string \<Rightarrow> bytes \<Rightarrow> disk \<Rightarrow> bool" where
  "keeps p old d \<longleftrightarrow> (\<forall>r \<in> crash_reads d p. case r of None \<Rightarrow> old = [] | Some c \<Rightarrow> take (length old) c = old)"

lemma crash_reads_calls: "crash_reads (d\<lparr>dk_calls := n\<rparr>) p = crash_reads d p"
  by (simp add: crash_reads_def cong: option.case_cong)

lemma uncounted_append: "uncounted (ledger_at p old)" "uncounted (growing p i M old w)" "uncounted (keeps p old)"
  by (simp_all add: uncounted_def ledger_at_def growing_def keeps_def crash_reads_calls disk_ok_def)

lemma crash_reads_absent: "dk_maybe d p = {None} \<Longrightarrow> crash_reads d p = {None}"
  by (simp add: crash_reads_def)

lemma crash_reads_synced:
  "dk_maybe d p = {Some i} \<Longrightarrow> nd_synced (dk_nodes d i) = length (nd_data (dk_nodes d i)) \<Longrightarrow>
   crash_reads d p = {Some (nd_data (dk_nodes d i))}"
  by (simp add: crash_reads_def survives_def)

lemma ledger_crash: "ledger_at p old d \<Longrightarrow> crash_reads d p = (if dk_names d p = None then {None} else {Some old})"
  using crash_reads_absent crash_reads_synced unfolding ledger_at_def by fastforce

lemma ledger_keeps: "ledger_at p old d \<Longrightarrow> keeps p old d"
  using ledger_crash [of p old d] by (auto simp: keeps_def ledger_at_def split: if_splits)

lemma growing_keeps: "growing p i M old w d \<Longrightarrow> keeps p old d"
proof -
  assume g: "growing p i M old w d"
  have "take (length old) c = old" if "survives (dk_nodes d i) c" for c
  proof -
    have s: "take (nd_synced (dk_nodes d i)) c = take (nd_synced (dk_nodes d i)) (old @ w)" "length old \<le> nd_synced (dk_nodes d i)"
      using that g by (auto simp: survives_def growing_def)
    have "take (length old) (take (nd_synced (dk_nodes d i)) c) = take (length old) (old @ w)"
      unfolding s(1) using s(2) by (simp add: min_def)
    then show ?thesis using s(2) by (simp add: min_def)
  qed
  with g show ?thesis by (auto simp: keeps_def crash_reads_def growing_def)
qed

lemma growing_set_node:
  assumes "growing p i M old w d" "nd_data nd = old @ w'" "length old \<le> nd_synced nd" "nd_synced nd \<le> length (nd_data nd)"
  shows "growing p i M old w' (set_node i nd d)"
  using assms by (auto simp: growing_def disk_ok_def set_node_def)

lemma growing_new_file:
  assumes "ledger_at p old d" "dk_names d p = None"
  shows "growing p (dk_next d) {None, Some (dk_next d)} old [] (fst (new_file p d))" "snd (new_file p d) = Inr (dk_next d)"
  using assms by (auto simp: new_file_def Let_def growing_def ledger_at_def disk_ok_def bind_name_def set_node_def less_SucI)

definition opened :: "string \<Rightarrow> bytes \<Rightarrow> nat \<times> bool \<Rightarrow> disk \<Rightarrow> bool" where
  "opened p old x d \<longleftrightarrow> (case x of (fd, created) \<Rightarrow> growing p fd (if created then {None, Some fd} else {Some fd}) old [] d)"

lemma spec_open_existing:
  "spec (ledger_at p old) (open_existing os p) (\<lambda>fd. opened p old (fd, False)) (\<lambda>e. if e = None then keeps p old else ledger_at p old)"
  unfolding open_existing_def
proof (rule spec_sys)
  fix d k assume d: "ledger_at p old d"
  let ?d = "d\<lparr>dk_calls := Suc (dk_calls d)\<rparr>"
  have l: "ledger_at p old ?d" using d uncounted_append(1) by (simp add: uncounted_def)
  then have "opened p old (i, False) ?d" if "dk_names ?d p = Some i" for i
    using that by (auto simp: opened_def growing_def ledger_at_def)
  with l show "case case dk_names ?d p of None \<Rightarrow> (?d, Inl Not_Found) | Some i \<Rightarrow> (?d, Inr i) of
      (d2, Inl e) \<Rightarrow> (if Some e = None then keeps p old else ledger_at p old) d2 \<and> (if Some OS_Fail = None then keeps p old else ledger_at p old) d2
    | (d2, Inr x) \<Rightarrow> opened p old (x, False) d2 \<and> (if Some OS_Fail = None then keeps p old else ledger_at p old) d2"
    by (simp split: option.splits)
qed (use uncounted_append(1) ledger_keeps in \<open>simp add: uncounted_def\<close>)

lemma spec_open_create:
  "spec (ledger_at p old) (open_create os p) (\<lambda>fd d. \<exists>created. opened p old (fd, created) d) (\<lambda>_. keeps p old)"
  unfolding open_create_def
proof (rule spec_sys)
  fix d k assume d: "ledger_at p old d"
  let ?d = "d\<lparr>dk_calls := Suc (dk_calls d)\<rparr>"
  have l: "ledger_at p old ?d" using d uncounted_append(1) by (simp add: uncounted_def)
  then have ex: "opened p old (i, False) ?d" if "dk_names ?d p = Some i" for i
    using that by (auto simp: opened_def growing_def ledger_at_def)
  have new: "growing p (dk_next ?d) {None, Some (dk_next ?d)} old [] (fst (new_file p ?d)) \<and> snd (new_file p ?d) = Inr (dk_next ?d)"
    if "dk_names ?d p = None" using growing_new_file [OF l that] by blast
  show "case case dk_names ?d p of None \<Rightarrow> new_file p ?d | Some i \<Rightarrow> (?d, Inr i) of
      (d2, Inl e) \<Rightarrow> keeps p old d2 \<and> keeps p old d2
    | (d2, Inr x) \<Rightarrow> (\<exists>created. opened p old (x, created) d2) \<and> keeps p old d2"
  proof (cases "dk_names ?d p")
    case None
    obtain d2 r where nf: "new_file p ?d = (d2, r)" by (cases "new_file p ?d")
    with new [OF None] have g: "growing p (dk_next ?d) {None, Some (dk_next ?d)} old [] d2" and r: "r = Inr (dk_next ?d)" by simp_all
    then have "opened p old (dk_next ?d, True) d2" by (simp only: opened_def prod.case if_True)
    with growing_keeps [OF g] show ?thesis unfolding None option.case nf r prod.case sum.case by blast
  next
    case (Some i)
    show ?thesis unfolding Some option.case prod.case sum.case using ex [OF Some] ledger_keeps [OF l] by blast
  qed
qed (use uncounted_append(3) ledger_keeps in \<open>auto simp: uncounted_def\<close>)

definition grown :: "string \<Rightarrow> nat \<Rightarrow> nat option set \<Rightarrow> bytes \<Rightarrow> bytes \<Rightarrow> disk \<Rightarrow> bool" where
  "grown p i M old v d \<longleftrightarrow> growing p i M old v d \<and> nd_synced (dk_nodes d i) = length (old @ v)"

lemma uncounted_grown: "uncounted (grown p i M old v)"
  by (simp add: uncounted_def grown_def growing_def disk_ok_def)

lemma spec_growing_node:
  assumes "\<And>nd n. nd_data nd = old @ w \<Longrightarrow> length old \<le> nd_synced nd \<Longrightarrow> nd_synced nd \<le> length (nd_data nd) \<Longrightarrow>
      nd_data (g n nd) = old @ w' n \<and> length old \<le> nd_synced (g n nd) \<and> nd_synced (g n nd) \<le> length (nd_data (g n nd))"
  shows "spec (growing p i M old w) (sys_call os (\<lambda>n d. (set_node i (g n (dk_nodes d i)) d, Inr (h n))))
     (\<lambda>x d. \<exists>n. x = h n \<and> growing p i M old (w' n) d \<and> (\<exists>nd. dk_nodes d i = g n nd)) (\<lambda>_. keeps p old)"
proof (rule spec_sys)
  fix d n assume d: "growing p i M old w d"
  let ?d = "d\<lparr>dk_calls := Suc (dk_calls d)\<rparr>"
  have t: "growing p i M old w ?d" using d uncounted_append(2) by (simp add: uncounted_def)
  then have "nd_data (dk_nodes ?d i) = old @ w" "length old \<le> nd_synced (dk_nodes ?d i)"
    "nd_synced (dk_nodes ?d i) \<le> length (nd_data (dk_nodes ?d i))" unfolding growing_def disk_ok_def by blast+
  from assms [OF this, of n] have "growing p i M old (w' n) (set_node i (g n (dk_nodes ?d i)) ?d)"
    using growing_set_node [OF t] by blast
  moreover have "dk_nodes (set_node i (g n (dk_nodes ?d i)) ?d) i = g n (dk_nodes ?d i)" by (simp add: set_node_def)
  ultimately show "case (set_node i (g n (dk_nodes ?d i)) ?d, Inr (h n)) of
      (d2, Inl e) \<Rightarrow> keeps p old d2 \<and> keeps p old d2
    | (d2, Inr x) \<Rightarrow> (\<exists>n. x = h n \<and> growing p i M old (w' n) d2 \<and> (\<exists>nd. dk_nodes d2 i = g n nd)) \<and> keeps p old d2"
    unfolding prod.case sum.case using growing_keeps by blast
qed (use uncounted_append(3) growing_keeps in \<open>auto simp: uncounted_def\<close>)

lemma spec_fchmod_growing: "spec (growing p i M old w) (fchmod os i m) (\<lambda>_. growing p i M old w) (\<lambda>_. keeps p old)"
  unfolding fchmod_def
  by (rule spec_conseq [OF spec_growing_node [where g = "\<lambda>_ nd. nd\<lparr>nd_mode := m\<rparr>" and w = w and w' = "\<lambda>_. w" and h = "\<lambda>_. ()"]]) auto

lemma spec_write_growing:
  "spec (growing p i M old w) (os_write os i bs) (\<lambda>n. growing p i M old (w @ take n bs)) (\<lambda>_. keeps p old)"
  unfolding os_write_def
  by (rule spec_conseq [OF spec_growing_node [where g = "\<lambda>n nd. nd\<lparr>nd_data := nd_data nd @ take n bs\<rparr>" and w = w
        and w' = "\<lambda>n. w @ take n bs" and h = "\<lambda>n. min n (length bs)"]]) (auto simp: min_def split: if_splits)

lemma growing_grown:
  assumes "growing p i M old w d" "dk_nodes d i = nd\<lparr>nd_synced := length (nd_data nd)\<rparr>"
  shows "grown p i M old w d"
proof -
  have "nd_data nd = old @ w" using assms by (simp add: growing_def)
  then have "nd_synced (dk_nodes d i) = length (old @ w)" unfolding assms(2) by simp
  with assms(1) show ?thesis by (simp add: grown_def)
qed

lemma spec_fsync_growing: "spec (growing p i M old w) (fsync os i) (\<lambda>_. grown p i M old w) (\<lambda>_. keeps p old)"
  unfolding fsync_def
  by (rule spec_conseq [OF spec_growing_node [where g = "\<lambda>_ nd. nd\<lparr>nd_synced := length (nd_data nd)\<rparr>" and w = w
        and w' = "\<lambda>_. w" and h = "\<lambda>_. ()"]])
     (simp_all, blast intro: growing_grown)

lemma spec_append_all:
  "spec (growing p i M old []) (write_all os i v) (\<lambda>_. growing p i M old v) (\<lambda>_. keeps p old)"
proof -
  define I where "I bs d \<longleftrightarrow> (\<exists>pre. pre @ bs = v \<and> growing p i M old pre d)" for bs d
  have "spec (I bs) (os_write os i bs) (\<lambda>n. if n = 0 then keeps p old else I (drop n bs)) (\<lambda>_. keeps p old)" for bs
    unfolding spec_def
  proof (intro allI impI)
    fix d assume "I bs d"
    then obtain pre where pre: "pre @ bs = v" "growing p i M old pre d" by (auto simp: I_def)
    have step: "I (drop n bs) e" if "growing p i M old (pre @ take n bs) e" for n e
      unfolding I_def by (rule exI [of _ "pre @ take n bs"]) (use that pre(1) in simp)
    show "case os_write os i bs d of (d', Returned x) \<Rightarrow> (if x = 0 then keeps p old else I (drop x bs)) d'
        | (d', Raised e) \<Rightarrow> keeps p old d' | (d', Killed) \<Rightarrow> keeps p old d'"
      using spec_write_growing [of p i M old pre os bs, unfolded spec_def, rule_format, OF pre(2)] growing_keeps
      by (auto simp: step split: prod.splits run.splits)
  qed
  then have "spec (I v) (write_all os i v) (\<lambda>_. I []) (\<lambda>_. keeps p old)"
    by (rule spec_write_all [where F = "\<lambda>_. keeps p old"]) auto
  then show ?thesis by (rule spec_conseq) (auto simp: I_def)
qed

lemma grown_keeps: "grown p i M old v d \<Longrightarrow> keeps p old d"
  by (auto simp: grown_def growing_keeps)

lemma grown_ledger: "grown p i M old v d \<Longrightarrow> dk_maybe d p = {Some i} \<Longrightarrow> ledger_at p (old @ v) d \<and> dk_names d p \<noteq> None"
  by (auto simp: grown_def growing_def ledger_at_def)

lemma spec_append_body:
  "spec (growing p i M old []) (closing os (returns ())
      (seqp (wrap (fstat_regular os i)) (\<lambda>regular.
         if \<not> regular then raises Event_Store_Error
         else seqp (wrap (fchmod os i FILE_MODE)) (\<lambda>_. seqp (write_all os i v) (\<lambda>_. wrap (fsync os i))))))
     (\<lambda>_. grown p i M old v) (\<lambda>_. keeps p old)"
proof -
  have stat: "spec (growing p i M old []) (fstat_regular os i) (\<lambda>_. growing p i M old []) (\<lambda>_. keeps p old)"
    unfolding fstat_regular_def
    by (rule spec_sys) (use uncounted_append(2,3) growing_keeps in \<open>auto simp: uncounted_def\<close>)
  have "spec (growing p i M old []) (if \<not> regular then raises Event_Store_Error
       else seqp (wrap (fchmod os i FILE_MODE)) (\<lambda>_. seqp (write_all os i v) (\<lambda>_. wrap (fsync os i))))
     (\<lambda>_. grown p i M old v) (\<lambda>_. keeps p old)" for regular
    by (cases regular) (auto intro!: spec_raises growing_keeps spec_seqp [OF spec_wrap [OF spec_fchmod_growing]]
        spec_seqp [OF spec_append_all] spec_wrap spec_fsync_growing)
  then show ?thesis
    by (intro spec_closing spec_seqp [OF spec_wrap [OF stat]] spec_returns uncounted_grown uncounted_append(3))
       (auto intro: grown_keeps)
qed

definition ready :: "string \<Rightarrow> bytes \<Rightarrow> nat \<times> bool \<Rightarrow> disk \<Rightarrow> bool" where
  "ready p old x d \<longleftrightarrow> (\<exists>b. (b \<longrightarrow> snd x) \<and> opened p old (fst x, b) d)"

lemma spec_append_open:
  "spec (ledger_at p old)
     (catch (seqp (open_existing os p) (\<lambda>fd. returns (fd, False)))
        (\<lambda>e. if e = Not_Found then wrap (seqp (open_create os p) (\<lambda>fd. returns (fd, True))) else raises Event_Store_Error))
     (ready p old) (\<lambda>_. keeps p old)"
proof (rule spec_catch [where F = "\<lambda>e. if e = None then keeps p old else ledger_at p old"])
  show "spec (ledger_at p old) (seqp (open_existing os p) (\<lambda>fd. returns (fd, False))) (ready p old)
      (\<lambda>e. if e = None then keeps p old else ledger_at p old)"
    by (rule spec_seqp [OF spec_open_existing], rule spec_returns) (auto simp: ready_def)
  show "spec (if Some e = None then keeps p old else ledger_at p old)
      (if e = Not_Found then wrap (seqp (open_create os p) (\<lambda>fd. returns (fd, True))) else raises Event_Store_Error)
      (ready p old) (\<lambda>_. keeps p old)" for e
  proof (cases "e = Not_Found")
    case True
    have "spec (ledger_at p old) (wrap (seqp (open_create os p) (\<lambda>fd. returns (fd, True)))) (ready p old) (\<lambda>_. keeps p old)"
      by (rule spec_wrap, rule spec_seqp [OF spec_open_create], rule spec_returns) (auto simp: ready_def)
    with True show ?thesis by simp
  next
    case False
    then show ?thesis by (simp add: spec_raises ledger_keeps)
  qed
qed simp

lemma spec_append_finish:
  assumes "b \<longrightarrow> created"
  shows "spec (grown p i (if b then {None, Some i} else {Some i}) old v) (if created then wrap (fsync_dir os) else returns ())
     (\<lambda>_ d. ledger_at p (old @ v) d \<and> dk_names d p \<noteq> None) (\<lambda>_. keeps p old)"
proof -
  define P where "P d \<longleftrightarrow> grown p i {Some i} old v d \<or> grown p i {None, Some i} old v d" for d
  have sync: "P (d\<lparr>dk_maybe := (\<lambda>n. {dk_names d n})\<rparr>)" if "P d" for d
    using that disk_ok_sync [of d] by (auto simp: P_def grown_def growing_def)
  have unc: "uncounted P" using uncounted_grown by (auto simp: P_def uncounted_def)
  have start: "P d" if "grown p i (if b then {None, Some i} else {Some i}) old v d" for d using that by (auto simp: P_def split: if_splits)
  have fin: "ledger_at p (old @ v) d \<and> dk_names d p \<noteq> None" if "P d" "settled p d" for d
  proof -
    have "dk_maybe d p = {Some i}" using that by (auto simp: P_def grown_def growing_def settled_def)
    then show ?thesis using that(1) grown_ledger unfolding P_def by blast
  qed
  have keep: "keeps p old d" if "P d" for d using that grown_keeps unfolding P_def by blast
  show ?thesis
  proof (cases created)
    case True
    have "spec P (wrap (fsync_dir os)) (\<lambda>_ d. P d \<and> (\<forall>n. settled n d)) (\<lambda>_. P)"
      by (rule spec_wrap [OF spec_fsync_dir [OF unc sync]])
    then have "spec (grown p i (if b then {None, Some i} else {Some i}) old v) (wrap (fsync_dir os))
        (\<lambda>_ d. ledger_at p (old @ v) d \<and> dk_names d p \<noteq> None) (\<lambda>_. keeps p old)"
      by (rule spec_conseq) (use start fin keep in blast)+
    with True show ?thesis by simp
  next
    case False
    with assms have nb: "\<not> b" by simp
    have "ledger_at p (old @ v) d \<and> dk_names d p \<noteq> None" if "grown p i {Some i} old v d" for d
      using grown_ledger [OF that] that by (simp add: grown_def growing_def)
    with False nb show ?thesis by (simp add: spec_returns)
  qed
qed

lemma spec_append_opened:
  "spec (ready p old x) (append_opened os (fst x) (snd x) v)
     (\<lambda>_ d. ledger_at p (old @ v) d \<and> dk_names d p \<noteq> None) (\<lambda>_. keeps p old)"
proof -
  have one: "spec (opened p old (fst x, b)) (append_opened os (fst x) (snd x) v)
      (\<lambda>_ d. ledger_at p (old @ v) d \<and> dk_names d p \<noteq> None) (\<lambda>_. keeps p old)" if "b \<longrightarrow> snd x" for b
    unfolding opened_def prod.case append_opened_def
    by (rule spec_seqp [OF spec_append_body]) (rule spec_append_finish [OF that])
  show ?thesis
    unfolding spec_def [of "ready p old x"] ready_def
  proof (intro allI impI, elim exE conjE)
    fix d b assume "b \<longrightarrow> snd x" "opened p old (fst x, b) d"
    from one [OF this(1), unfolded spec_def, rule_format, OF this(2)]
    show "case append_opened os (fst x) (snd x) v d of
        (d', Returned x) \<Rightarrow> ledger_at p (old @ v) d' \<and> dk_names d' p \<noteq> None | (d', Raised e) \<Rightarrow> keeps p old d' | (d', Killed) \<Rightarrow> keeps p old d'" .
  qed
qed

lemma spec_append:
  "spec (ledger_at p old) (append_text os p v) (\<lambda>_ d. ledger_at p (old @ v) d \<and> dk_names d p \<noteq> None) (\<lambda>_. keeps p old)"
  unfolding append_text_def by (rule spec_seqp [OF spec_append_open spec_append_opened])

text \<open>The writer's use of the file: lines are appended one after the other, and the first append that does
  not return is the last.\<close>

primrec append_lines :: "(nat \<Rightarrow> sys) \<Rightarrow> string \<Rightarrow> bytes list \<Rightarrow> disk \<Rightarrow> disk \<times> nat" where
  "append_lines os p [] d = (d, 0)"
| "append_lines os p (l # ls) d =
     (case append_text os p l d of
        (d1, Returned _) \<Rightarrow> apsnd Suc (append_lines os p ls d1)
      | (d1, _) \<Rightarrow> (d1, 0))"

lemma append_lines_keep:
  "ledger_at p old d \<Longrightarrow> append_lines os p ls d = (d', k) \<Longrightarrow>
   keeps p (old @ concat (take k ls)) d' \<and> k \<le> length ls \<and> (k = length ls \<longrightarrow> ledger_at p (old @ concat ls) d')"
proof (induction ls arbitrary: old d k)
  case Nil
  then show ?case using ledger_keeps by auto
next
  case (Cons l ls)
  obtain d1 r where a: "append_text os p l d = (d1, r)" by (cases "append_text os p l d")
  show ?case
  proof (cases r)
    case (Returned u)
    with a Cons.prems(2) obtain k' where k: "append_lines os p ls d1 = (d', k')" "k = Suc k'"
      by (auto simp: apsnd_def map_prod_def split: prod.splits)
    have "ledger_at p (old @ l) d1" using specD(1) [OF spec_append Cons.prems(1) a [unfolded Returned]] by blast
    from Cons.IH [OF this k(1)] show ?thesis by (simp add: k(2))
  next
    case (Raised e)
    with a Cons.prems(2) show ?thesis using specD(2) [OF spec_append Cons.prems(1) a [unfolded Raised]] by simp
  next
    case Killed
    with a Cons.prems(2) show ?thesis using specD(3) [OF spec_append Cons.prems(1) a [unfolded Killed]] by simp
  qed
qed

text \<open>C5. Acknowledged lines survive every crash.  Starting from a ledger that is durable (or not created yet),
  whatever the kernel answers and wherever the process dies, after any number of appends a crash leaves a file
  that begins with the old ledger followed by all lines whose append returned; when all of them returned, it is
  exactly that.\<close>

theorem acknowledged_lines_survive:
  assumes "ledger_at p old d" and "append_lines os p ls d = (d', k)"
  shows "(\<forall>r \<in> crash_reads d' p. take (length (old @ concat (take k ls))) (case r of None \<Rightarrow> [] | Some c \<Rightarrow> c) = old @ concat (take k ls)) \<and>
     (k = length ls \<longrightarrow> crash_reads d' p = (if dk_names d' p = None then {None} else {Some (old @ concat ls)}))"
proof -
  have k: "keeps p (old @ concat (take k ls)) d'" "k = length ls \<Longrightarrow> ledger_at p (old @ concat ls) d'"
    using append_lines_keep [OF assms] by auto
  show ?thesis using k(1) ledger_crash [OF k(2)] by (auto simp: keeps_def split: option.splits)
qed

section \<open>The outcomes the stores assume\<close>

text \<open>A write as the stores see it: it takes effect or not, and only a return is reported as success.\<close>

definition refines_put :: "(bytes option \<Rightarrow> dentry) \<Rightarrow> string \<Rightarrow> bytes option \<Rightarrow> disk \<Rightarrow> disk \<times> unit run \<Rightarrow> bool" where
  "refines_put entry p new d x \<longleftrightarrow>
     (\<exists>i. entry (live_read (fst x) p) = put i (entry (live_read d p)) (entry new) \<and> (snd x = Returned () \<longleftrightarrow> i = Io_Ok))"

lemma refines_putI:
  assumes "live_read (fst x) p \<in> {live_read d p, new}" "snd x = Returned () \<Longrightarrow> live_read (fst x) p = new"
  shows "refines_put entry p new d x"
proof (cases "snd x = Returned ()")
  case True
  with assms(2) show ?thesis unfolding refines_put_def by (intro exI [of _ Io_Ok]) simp
next
  case False
  with assms(1) show ?thesis
    unfolding refines_put_def
    by (cases "live_read (fst x) p = live_read d p") (auto intro: exI [of _ Io_Lost] exI [of _ Io_Late])
qed

lemma durable_write_refines:
  assumes "p \<notin> range cand" "disk_ok d"
  shows "refines_put entry p (Some data) d (durable_atomic_write_bytes os cand p data d)"
proof -
  obtain d' r where x: "durable_atomic_write_bytes os cand p data d = (d', r)" by (cases "durable_atomic_write_bytes os cand p data d")
  note out = durable_write_outcomes [OF x assms]
  show ?thesis
    using out aside_reads(1) [OF _ assms(2,1)] published_reads(1) [OF _ assms(2,1)]
    by (intro refines_putI) (auto simp: x)
qed

lemma exclusive_create_refines:
  assumes "p \<notin> range cand" "disk_ok d"
  shows "refines_put entry p (if live_read d p = None then Some data else live_read d p) d (exclusive_create_bytes os cand p data d) \<and>
    (live_read d p \<noteq> None \<longrightarrow> snd (exclusive_create_bytes os cand p data d) \<noteq> Returned ())"
proof -
  obtain d' r where x: "exclusive_create_bytes os cand p data d = (d', r)" by (cases "exclusive_create_bytes os cand p data d")
  note out = exclusive_create_outcomes [OF x assms]
  have none: "live_read d p = None \<longleftrightarrow> dk_names d p = None" by (simp add: live_read_def)
  have kept: "live_read d' p \<in> {live_read d p, Some data}" "live_read d p \<noteq> None \<Longrightarrow> live_read d' p = live_read d p"
    using out(1) none aside_reads(1) [OF _ assms(2,1)] published_reads(1) [OF _ assms(2,1)] by auto
  have ret: "live_read d p = None \<and> live_read d' p = Some data" if "r = Returned ()"
    using out(2) [OF that] none published_reads(1) [OF _ assms(2,1)] by auto
  show ?thesis using kept ret by (intro conjI refines_putI) (auto simp: x)
qed

lemma spec_os_unlink_live:
  "spec (\<lambda>d. d = d0) (os_unlink os p) (\<lambda>_ d. dk_names d p = None)
     (\<lambda>e d. if e = Some Not_Found then dk_names d p = None else live_read d p \<in> {live_read d0 p, None})"
  unfolding os_unlink_def by (rule spec_sys) (auto simp: bind_name_def live_read_def)

lemma durable_unlink_refines: "refines_put entry p None d (durable_unlink os p d)"
proof -
  obtain d1 r1 where u: "os_unlink os p d = (d1, r1)" by (cases "os_unlink os p d")
  note s = specD [OF spec_os_unlink_live [of d os p] refl]
  have gone: "live_read e p = None \<longleftrightarrow> dk_names e p = None" for e by (simp add: live_read_def)
  have sync: "spec (\<lambda>d. dk_names d p = None) (wrap (fsync_dir os)) (\<lambda>_ d. dk_names d p = None) (\<lambda>_ d. dk_names d p = None)"
    by (rule spec_wrap, rule spec_conseq [OF spec_fsync_dir [where P = "\<lambda>d. dk_names d p = None"]]) (auto simp: uncounted_def)
  show ?thesis
  proof (cases r1)
    case (Returned x)
    obtain d2 r2 where w: "wrap (fsync_dir os) d1 = (d2, r2)" by (cases "wrap (fsync_dir os) d1")
    have "dk_names d2 p = None"
      using sync [unfolded spec_def, rule_format, OF s(1) [OF u [unfolded Returned]]] w by (cases r2) auto
    then show ?thesis using gone by (intro refines_putI) (simp_all add: durable_unlink_def u Returned w)
  next
    case (Raised e)
    with s(2) [OF u [unfolded Raised]] gone show ?thesis
      by (intro refines_putI) (auto simp: durable_unlink_def u split: file_error.splits if_splits)
  next
    case Killed
    with s(3) [OF u [unfolded Killed]] show ?thesis by (intro refines_putI) (auto simp: durable_unlink_def u)
  qed
qed

lemma aside_live: "aside {tmp} d0 d \<Longrightarrow> disk_ok d0 \<Longrightarrow> p \<noteq> tmp \<Longrightarrow> live_read d p = live_read d0 p"
  using aside_reads(1) [of "{tmp}" d0 d p] by simp

lemma live_read_calls: "live_read (d\<lparr>dk_calls := n\<rparr>) p = live_read d p"
  by (simp add: live_read_def)

lemma live_read_mode: "live_read (set_node i ((dk_nodes d i)\<lparr>nd_mode := m\<rparr>) d) p = live_read d p"
  by (cases "dk_names d p") (auto simp: live_read_def set_node_def)

lemma live_read_bind: "live_read (bind_name n b d) p = (if p = n then map_option (\<lambda>i. nd_data (dk_nodes d i)) b else live_read d p)"
  by (simp add: live_read_def bind_name_def)

lemma spec_branch:
  "spec P q Q E \<Longrightarrow> (\<And>d. P d \<Longrightarrow> E (Some x) d) \<Longrightarrow> spec P (\<lambda>d. if c d then q d else (d, Raised x)) Q E"
  by (simp add: spec_def)

lemma atomic_write_refines:
  assumes "p \<noteq> tmp" "disk_ok d"
  shows "refines_put entry p (Some data) d (atomic_write_bytes os tmp p data d)"
proof -
  let ?E = "\<lambda>e. live_read e p \<in> {live_read d p, Some data}" and ?N = "\<lambda>e. live_read e p = Some data"
  have old: "?E e" if "aside {tmp} d e" for e using aside_live [OF that assms(2,1)] by simp
  have unc: "uncounted ?E" "uncounted ?N" by (simp_all add: uncounted_def live_read_calls)
  have weak: "spec P q Q (\<lambda>_. aside {tmp} d) \<Longrightarrow> spec P q Q (\<lambda>_. ?E)" for P q and Q :: "'a \<Rightarrow> disk \<Rightarrow> bool"
    by (erule spec_conseq) (auto dest: old)
  have repl: "spec (temp_holds {tmp} d tmp fd data) (os_replace os tmp p) (\<lambda>_. ?N) (\<lambda>_. ?E)" for fd
    unfolding os_replace_def
    by (rule spec_sys) (use assms(1) old in \<open>auto simp: temp_holds_def live_read_bind live_read_calls\<close>)
  have chmod: "spec ?N (os_chmod os p FILE_MODE) (\<lambda>_. ?N) (\<lambda>_. ?E)"
    unfolding os_chmod_def
  proof (rule spec_sys)
    fix e n assume e: "?N e"
    let ?e = "e\<lparr>dk_calls := Suc (dk_calls e)\<rparr>"
    have l: "?N ?e" "\<And>i. ?N (set_node i ((dk_nodes ?e i)\<lparr>nd_mode := FILE_MODE\<rparr>) ?e)"
      using e by (simp_all only: live_read_calls live_read_mode)
    show "case case dk_names ?e p of None \<Rightarrow> (?e, Inl Not_Found)
        | Some i \<Rightarrow> (set_node i ((dk_nodes ?e i)\<lparr>nd_mode := FILE_MODE\<rparr>) ?e, Inr ()) of
        (d2, Inl x) \<Rightarrow> ?E d2 \<and> ?E d2 | (d2, Inr x) \<Rightarrow> ?N d2 \<and> ?E d2"
      using l by (cases "dk_names ?e p") auto
  qed (simp add: live_read_calls)
  have unlink: "spec ?E (os_unlink os tmp) (\<lambda>_. ?E) (\<lambda>_. ?E)"
    unfolding os_unlink_def by (rule spec_sys) (use assms(1) in \<open>auto simp: live_read_bind live_read_calls\<close>)
  have close: "spec (temp_holds {tmp} d tmp fd data) (inert os) (\<lambda>_. temp_holds {tmp} d tmp fd data) (\<lambda>_. ?E)" for fd
    by (rule spec_conseq [OF spec_inert [OF uncounted_touched(2)]]) (auto dest: temp_aside(1) old)
  have fill: "spec (temp_holds {tmp} d tmp fd []) (catch (write_all os fd data) (\<lambda>_. seqp (ignoring (inert os)) (\<lambda>_. raises OS_Fail)))
      (\<lambda>_. temp_holds {tmp} d tmp fd data) (\<lambda>_. ?E)" for fd
  proof (rule spec_catch [OF spec_write_temp])
    have "spec ?E (seqp (ignoring (inert os)) (\<lambda>_. raises OS_Fail)) (\<lambda>_. temp_holds {tmp} d tmp fd data) (\<lambda>_. ?E)"
      by (intro spec_seqp [OF spec_ignoring_same [OF spec_inert [OF unc(1)]]] spec_raises)
    then show "spec (aside {tmp} d) (seqp (ignoring (inert os)) (\<lambda>_. raises OS_Fail)) (\<lambda>_. temp_holds {tmp} d tmp fd data) (\<lambda>_. ?E)"
      by (rule spec_conseq) (auto dest: old)
  qed (rule old)
  have first: "spec (aside {tmp} d) (inert os) (\<lambda>_. aside {tmp} d) (\<lambda>_. ?E)"
    by (rule weak [OF spec_inert [OF uncounted_touched(1)]])
  have handler: "spec ?E (\<lambda>e. if dk_names e tmp \<noteq> None then seqp (os_unlink os tmp) (\<lambda>_. raises x) e else (e, Raised x)) (\<lambda>_. ?N) (\<lambda>_. ?E)" for x
    by (rule spec_branch) (intro spec_seqp [OF unlink] spec_raises, auto)
  have "spec (aside {tmp} d) (atomic_write_bytes os tmp p data) (\<lambda>_. ?N) (\<lambda>_. ?E)"
    unfolding atomic_write_bytes_def
    by (rule spec_seqp [OF first], rule spec_seqp [OF weak [OF spec_open_excl [of tmp]]])
       (simp, intro spec_catch [OF _ handler] spec_seqp [OF fill] spec_seqp [OF close] spec_seqp [OF repl] chmod, simp)
  from this [unfolded spec_def, rule_format, OF aside_refl [OF assms(2)]] show ?thesis
    by (intro refines_putI) (auto split: prod.splits run.splits)
qed

text \<open>C6. The stores may treat every write as one step with three outcomes.  The call sequences of the durable
  write, the plain atomic write, the removal and, where no file exists, the exclusive creation all leave the
  directory entry they found or the one they were to write, never another, and report success only with the new
  entry in place; an exclusive creation over an existing file leaves it and does not succeed.\<close>

theorem file_writes_refine_io:
  assumes "p \<notin> range cand" and "p \<noteq> tmp" and "disk_ok d"
  shows "refines_put entry p (Some data) d (durable_atomic_write_bytes os cand p data d) \<and>
    refines_put entry p (Some data) d (atomic_write_bytes os tmp p data d) \<and>
    refines_put entry p None d (durable_unlink os p d) \<and>
    refines_put entry p (if live_read d p = None then Some data else live_read d p) d (exclusive_create_bytes os cand p data d) \<and>
    (live_read d p \<noteq> None \<longrightarrow> snd (exclusive_create_bytes os cand p data d) \<noteq> Returned ())"
  using durable_write_refines [OF assms(1,3)] atomic_write_refines [OF assms(2,3)] durable_unlink_refines
    exclusive_create_refines [OF assms(1,3)] by blast

section \<open>Progress\<close>

text \<open>A kernel that does what it is asked, in writes as short as it likes.\<close>

definition healthy :: "(nat \<Rightarrow> sys) \<Rightarrow> bool" where
  "healthy os \<longleftrightarrow> (\<forall>k. \<exists>n>0. os k = Sys_Done n)"

definition gets :: "(disk \<Rightarrow> bool) \<Rightarrow> 'a prog \<Rightarrow> ('a \<Rightarrow> disk \<Rightarrow> bool) \<Rightarrow> bool" where
  "gets P p Q \<longleftrightarrow> (\<forall>d. P d \<longrightarrow> (\<exists>x d'. p d = (d', Returned x) \<and> Q x d'))"

lemma gets_seqp: "gets P p Q \<Longrightarrow> (\<And>x. gets (Q x) (f x) R) \<Longrightarrow> gets P (seqp p f) R"
  unfolding gets_def seqp_def by (fastforce split: prod.splits run.splits)

lemma gets_catch: "gets P p Q \<Longrightarrow> gets P (catch p h) Q"
  unfolding gets_def catch_def by fastforce

lemma gets_returns: "(\<And>d. P d \<Longrightarrow> Q x d) \<Longrightarrow> gets P (returns x) Q"
  by (simp add: gets_def returns_def)

lemma gets_wrap: "gets P p Q \<Longrightarrow> gets P (wrap p) Q"
  unfolding wrap_def by (rule gets_catch)

lemma gets_ignoring: "gets P p Q \<Longrightarrow> gets P (ignoring p) Q"
  unfolding ignoring_def by (rule gets_catch)

lemma gets_sys:
  assumes "healthy os" "\<And>d n. P d \<Longrightarrow> 0 < n \<Longrightarrow> \<exists>x d'. eff n (d\<lparr>dk_calls := Suc (dk_calls d)\<rparr>) = (d', Inr x) \<and> Q x d'"
  shows "gets P (sys_call os eff) Q"
  unfolding gets_def sys_call_def Let_def
proof (intro allI impI)
  fix d assume d: "P d"
  obtain n where n: "0 < n" "os (dk_calls d) = Sys_Done n" using assms(1) by (auto simp: healthy_def)
  obtain x d' where "eff n (d\<lparr>dk_calls := Suc (dk_calls d)\<rparr>) = (d', Inr x)" "Q x d'" using assms(2) [OF d n(1)] by blast
  then show "\<exists>x d'. (case os (dk_calls d) of
      Sys_Done n \<Rightarrow> case eff n (d\<lparr>dk_calls := Suc (dk_calls d)\<rparr>) of (d2, Inl e) \<Rightarrow> (d2, Raised e) | (d2, Inr x) \<Rightarrow> (d2, Returned x)
    | Sys_Error \<Rightarrow> (d\<lparr>dk_calls := Suc (dk_calls d)\<rparr>, Raised OS_Fail)
    | Sys_Late n \<Rightarrow> (fst (eff n (d\<lparr>dk_calls := Suc (dk_calls d)\<rparr>)), Raised OS_Fail)
    | Sys_Killed \<Rightarrow> (d, Killed)) = (d', Returned x) \<and> Q x d'" by (simp add: n(2))
qed

text \<open>The calls on a descriptor leave the names alone.\<close>

definition about_names :: "(disk \<Rightarrow> bool) \<Rightarrow> bool" where
  "about_names P \<longleftrightarrow> (\<forall>d d'. dk_names d' = dk_names d \<longrightarrow> P d \<longrightarrow> P d')"

lemma gets_names:
  assumes "healthy os" "about_names P"
  shows "gets P (inert os) (\<lambda>_. P)" "gets P (fchmod os i m) (\<lambda>_. P)" "gets P (fsync os i) (\<lambda>_. P)" "gets P (sync_names os) (\<lambda>_. P)"
    "gets P (os_write os i bs) (\<lambda>n d. P d \<and> (bs = [] \<or> 0 < n))" "gets P (fstat_regular os i) (\<lambda>_. P)"
  unfolding inert_def fchmod_def fsync_def sync_names_def os_write_def fstat_regular_def set_node_def
  by (rule gets_sys [OF assms(1)], use assms(2) in \<open>simp add: about_names_def\<close>)+

lemma gets_write_all:
  assumes "healthy os" "about_names P"
  shows "gets P (write_all os i bs) (\<lambda>_. P)"
  unfolding gets_def
proof (intro allI impI)
  fix d assume "P d"
  then show "\<exists>x d'. write_all os i bs d = (d', Returned x) \<and> P d'"
  proof (induction "length bs" arbitrary: bs d rule: less_induct)
    case less
    show ?case
    proof (cases "bs = []")
      case True
      with less.prems show ?thesis by (subst write_all.simps) simp
    next
      case False
      obtain n d1 where w: "os_write os i bs d = (d1, Returned n)" "P d1" "0 < n"
        using gets_names(5) [OF assms, of i bs] less.prems False unfolding gets_def by blast
      then show ?thesis using less.hyps [of "drop n bs" d1] False by (subst write_all.simps) simp
    qed
  qed
qed

lemma gets_closing: "gets P body (\<lambda>_. Q) \<Longrightarrow> gets Q (inert os) (\<lambda>_. Q) \<Longrightarrow> gets P (closing os c body) (\<lambda>_. Q)"
  using gets_wrap [of Q "inert os" "\<lambda>_. Q"] unfolding gets_def closing_def by fastforce

lemma gets_fsync_dir:
  assumes "healthy os" "about_names P"
  shows "gets P (fsync_dir os) (\<lambda>_. P)"
  using gets_wrap [OF gets_names(1) [OF assms]] gets_wrap [OF gets_names(4) [OF assms]] gets_names(1) [OF assms]
  unfolding gets_def fsync_dir_def seqp_def by fastforce

lemma gets_fill_temp:
  assumes "healthy os" "about_names P"
  shows "gets P (fill_temp os c fd data) (\<lambda>_. P)"
  unfolding fill_temp_def
  by (intro gets_closing gets_seqp [where Q = "\<lambda>_. P"] gets_wrap gets_names(1-3) gets_write_all assms)

lemma gets_open_temp:
  assumes "healthy os"
  shows "gets (\<lambda>d. dk_names d (cand k) = None \<and> dk_names d p = b \<and> cand k \<noteq> p) (open_temp os cand (Suc k))
     (\<lambda>x d. fst x \<noteq> p \<and> dk_names d (fst x) \<noteq> None \<and> dk_names d p = b)"
proof -
  have "gets (\<lambda>d. dk_names d (cand k) = None \<and> dk_names d p = b \<and> cand k \<noteq> p) (open_excl os (cand k))
      (\<lambda>_ d. cand k \<noteq> p \<and> dk_names d (cand k) \<noteq> None \<and> dk_names d p = b)"
    unfolding open_excl_def by (rule gets_sys [OF assms]) (auto simp: new_file_def Let_def bind_name_def set_node_def)
  then show ?thesis unfolding gets_def open_temp.simps by fastforce
qed

lemma about_names_demands:
  "about_names (\<lambda>d. dk_names d (cand k) = None \<and> dk_names d p = b \<and> cand k \<noteq> p)"
  "about_names (\<lambda>d. n \<noteq> p \<and> dk_names d n \<noteq> None \<and> dk_names d p = b)" "about_names (\<lambda>d. dk_names d p \<noteq> None)" "about_names (\<lambda>_. True)"
  by (auto simp: about_names_def)

text \<open>With a healthy kernel and one free candidate name the writes return.\<close>

lemma durable_write_returns:
  assumes "healthy os" "dk_names d (cand 31) = None" "cand 31 \<noteq> p"
  shows "\<exists>d'. durable_atomic_write_bytes os cand p data d = (d', Returned ())"
proof -
  let ?b = "dk_names d p"
  have repl: "gets (\<lambda>d. n \<noteq> p \<and> dk_names d n \<noteq> None \<and> dk_names d p = ?b) (os_replace os n p) (\<lambda>_ d. dk_names d p \<noteq> None)" for n
    unfolding os_replace_def by (rule gets_sys [OF assms(1)]) (auto simp: bind_name_def)
  have chmod: "gets (\<lambda>d. dk_names d p \<noteq> None) (os_chmod os p FILE_MODE) (\<lambda>_ d. dk_names d p \<noteq> None)"
    unfolding os_chmod_def by (rule gets_sys [OF assms(1)]) (auto simp: set_node_def split: option.splits)
  have rest: "gets (\<lambda>d. fst x \<noteq> p \<and> dk_names d (fst x) \<noteq> None \<and> dk_names d p = ?b)
      (case x of (tmp, fd) \<Rightarrow> seqp (fill_temp os (os_unlink os tmp) fd data) (\<lambda>_.
         seqp (catch (os_replace os tmp p) (\<lambda>_. seqp (ignoring (os_unlink os tmp)) (\<lambda>_. raises Event_Store_Error))) (\<lambda>_.
         seqp (wrap (os_chmod os p FILE_MODE)) (\<lambda>_. wrap (fsync_dir os))))) (\<lambda>_ d. dk_names d p \<noteq> None)" for x
    by (cases x) (simp only: prod.case fst_conv, intro gets_seqp [OF gets_fill_temp [OF assms(1) about_names_demands(2)]]
        gets_seqp [OF gets_catch [OF repl]] gets_seqp [OF gets_wrap [OF chmod]] gets_wrap gets_fsync_dir assms(1) about_names_demands(3))
  have "gets (\<lambda>d. dk_names d (cand 31) = None \<and> dk_names d p = ?b \<and> cand 31 \<noteq> p)
      (durable_atomic_write_bytes os cand p data) (\<lambda>_ d. dk_names d p \<noteq> None)"
    unfolding durable_atomic_write_bytes_def
    using gets_open_temp [OF assms(1), of cand 31 p ?b]
    by (intro gets_seqp [OF gets_wrap [OF gets_names(1) [OF assms(1) about_names_demands(1)]]] gets_seqp [OF _ rest]) simp
  then show ?thesis using assms(2,3) unfolding gets_def by auto
qed

lemma append_returns:
  assumes "healthy os" "dk_names d p = None"
  shows "\<exists>d'. append_text os p v d = (d', Returned ())"
proof -
  have open1: "\<exists>d1. catch (seqp (open_existing os p) (\<lambda>fd. returns (fd, False)))
        (\<lambda>e. if e = Not_Found then wrap (seqp (open_create os p) (\<lambda>fd. returns (fd, True))) else raises Event_Store_Error) d
      = (d1, Returned (dk_next d, True)) \<and> nd_regular (dk_nodes d1 (dk_next d))"
  proof -
    obtain n m where "os (dk_calls d) = Sys_Done n" "os (Suc (dk_calls d)) = Sys_Done m" using assms(1) unfolding healthy_def by metis
    then show ?thesis
      by (simp add: catch_def seqp_def open_existing_def open_create_def sys_call_def wrap_def returns_def assms(2) new_file_def
          Let_def bind_name_def set_node_def)
  qed
  let ?R = "\<lambda>d1. nd_regular (dk_nodes d1 (dk_next d))"
  have stat: "gets ?R (fstat_regular os (dk_next d)) (\<lambda>x _. x)"
    unfolding fstat_regular_def by (rule gets_sys [OF assms(1)]) (auto intro: exI [of _ True])
  have body: "gets (\<lambda>_. regular) (if \<not> regular then raises Event_Store_Error
      else seqp (wrap (fchmod os fd FILE_MODE)) (\<lambda>_. seqp (write_all os fd v) (\<lambda>_. wrap (fsync os fd)))) (\<lambda>_ _. True)" for regular fd
  proof (cases regular)
    case True
    have "gets (\<lambda>_. True) (seqp (wrap (fchmod os fd FILE_MODE)) (\<lambda>_. seqp (write_all os fd v) (\<lambda>_. wrap (fsync os fd)))) (\<lambda>_ _. True)"
      by (intro gets_seqp [OF gets_wrap [OF gets_names(2) [OF assms(1) about_names_demands(4)]]]
          gets_seqp [OF gets_write_all [OF assms(1) about_names_demands(4)]] gets_wrap gets_names(3) assms(1) about_names_demands(4))
    with True show ?thesis by simp
  qed (simp add: gets_def)
  have "gets (\<lambda>_. True) (if c then wrap (fsync_dir os) else returns ()) (\<lambda>_ _. True)" for c
    by (cases c) (auto intro: gets_wrap gets_fsync_dir [OF assms(1) about_names_demands(4)] gets_returns)
  then have "gets ?R (append_opened os (dk_next d) c v) (\<lambda>_ _. True)" for c
    unfolding append_opened_def
    by (intro gets_seqp [OF gets_closing [OF gets_seqp [OF gets_wrap [OF stat] body]]] gets_names(1) assms(1) about_names_demands(4))
  with open1 show ?thesis unfolding append_text_def seqp_def [of "catch _ _"] gets_def by fastforce
qed

section \<open>A directory with one file\<close>

definition demo_disk :: disk where
  "demo_disk = \<lparr>dk_names = (\<lambda>n. if n = ''session.json'' then Some 0 else None),
     dk_maybe = (\<lambda>n. if n = ''session.json'' then {Some 0} else {None}),
     dk_nodes = (\<lambda>_. \<lparr>nd_data = [1, 2], nd_synced = 2, nd_mode = 384, nd_regular = True\<rparr>), dk_next = 1, dk_calls = 0\<rparr>"

definition demo_cand :: "nat \<Rightarrow> string" where
  "demo_cand k = ''.tmp-durable-'' @ replicate k (CHR ''0'')"

definition short_writes :: "nat \<Rightarrow> sys" where
  "short_writes k = Sys_Done 2"

lemma demo_disk_ok: "disk_ok demo_disk" "''session.json'' \<notin> range demo_cand" "''events.jsonl'' \<notin> range demo_cand"
  by (auto simp: disk_ok_def demo_disk_def demo_cand_def)


lemma short_writes_healthy: "healthy short_writes"
  by (simp add: healthy_def short_writes_def)

lemma demo_ledger: "ledger_at ''events.jsonl'' [] demo_disk"
  using demo_disk_ok(1) by (simp add: ledger_at_def demo_disk_def)

theorem durable_write_all_or_nothing_witness:
  "\<exists>d'. durable_atomic_write_bytes short_writes demo_cand ''session.json'' [7, 8, 9] demo_disk = (d', Returned ()) \<and>
     crash_reads d' ''session.json'' = {Some [7, 8, 9]}"
proof -
  obtain d' where d': "durable_atomic_write_bytes short_writes demo_cand ''session.json'' [7, 8, 9] demo_disk = (d', Returned ())"
    using durable_write_returns [OF short_writes_healthy, of demo_disk demo_cand "''session.json''" "[7, 8, 9]"]
    by (auto simp: demo_disk_def demo_cand_def)
  show ?thesis using d' durable_write_all_or_nothing [OF d' demo_disk_ok(2,1)] by blast
qed

theorem exclusive_create_never_clobbers_witness:
  "live_read (fst (exclusive_create_bytes short_writes demo_cand ''session.json'' [7, 8, 9] demo_disk)) ''session.json'' = Some [1, 2]"
proof -
  obtain d' r where x: "exclusive_create_bytes short_writes demo_cand ''session.json'' [7, 8, 9] demo_disk = (d', r)"
    by (cases "exclusive_create_bytes short_writes demo_cand ''session.json'' [7, 8, 9] demo_disk")
  have l: "live_read demo_disk ''session.json'' = Some [1, 2]" by (simp add: live_read_def demo_disk_def)
  show ?thesis using exclusive_create_never_clobbers [OF x demo_disk_ok(2,1)] by (simp add: x l)
qed

theorem acknowledged_lines_survive_witness:
  "\<exists>d'. append_lines short_writes ''events.jsonl'' [[7, 8, 9]] demo_disk = (d', 1) \<and> crash_reads d' ''events.jsonl'' = {Some [7, 8, 9]}"
proof -
  have n: "dk_names demo_disk ''events.jsonl'' = None" by (simp add: demo_disk_def)
  obtain d' where a: "append_text short_writes ''events.jsonl'' [7, 8, 9] demo_disk = (d', Returned ())"
    using append_returns [OF short_writes_healthy n] by blast
  then have k: "append_lines short_writes ''events.jsonl'' [[7, 8, 9]] demo_disk = (d', 1)" by simp
  have "dk_names d' ''events.jsonl'' \<noteq> None" using specD(1) [OF spec_append demo_ledger a] by blast
  then show ?thesis using k acknowledged_lines_survive [OF demo_ledger k] by auto
qed

theorem file_writes_refine_io_witness:
  "refines_put (\<lambda>b. case b of None \<Rightarrow> Absent | Some _ \<Rightarrow> Doc (PDict [])) ''session.json'' (Some [7]) demo_disk
     (atomic_write_bytes short_writes ''.tmp-x'' ''session.json'' [7] demo_disk)"
  using file_writes_refine_io [of "''session.json''" demo_cand "''.tmp-x''" demo_disk
      "\<lambda>b. case b of None \<Rightarrow> Absent | Some _ \<Rightarrow> Doc (PDict [])" "[7]" short_writes] demo_disk_ok by auto

section \<open>An append that only seems durable\<close>

text \<open>When the append that creates the file fails to sync the directory, the next append finds the file and
  returns without syncing it: a crash can still lose the file with the line that was reported.  The event
  writer stops at the first failed append, so its ledger never gets there.\<close>

definition sync_fails_once :: "nat \<Rightarrow> sys" where
  "sync_fails_once k = (if k = 8 then Sys_Error else Sys_Done 1)"

lemma write_all_one:
  "write_all os i [b] d = (case os_write os i [b] d of
     (d1, Killed) \<Rightarrow> (d1, Killed) | (d1, Raised _) \<Rightarrow> (d1, Raised Event_Store_Error)
   | (d1, Returned n) \<Rightarrow> if n = 0 then (d1, Raised Event_Store_Error) else (d1, Returned ()))"
  by (subst write_all.simps) (auto simp: write_all.simps [of os i "[]"] neq0_conv drop_Cons' split: prod.splits run.splits)

lemmas append_run = append_text_def append_opened_def seqp_def catch_def wrap_def ignoring_def returns_def raises_def
  sys_call_def inert_def open_existing_def open_create_def new_file_def bind_name_def set_node_def fchmod_def os_write_def
  fsync_def closing_def sync_names_def fsync_dir_def fstat_regular_def write_all_one sync_fails_once_def Let_def

lemma append_after_failed_creation:
  "\<exists>d1 d2. append_text sync_fails_once ''events.jsonl'' [7] demo_disk = (d1, Raised Event_Store_Error) \<and>
     append_text sync_fails_once ''events.jsonl'' [8] d1 = (d2, Returned ()) \<and> None \<in> crash_reads d2 ''events.jsonl''"
  by (simp add: append_run demo_disk_def crash_reads_def)

end
