(* ===== verification/Observation.thy ===== *)
theory Observation
  imports Agent_Registry
begin

text \<open>
  Observed evidence, \<^verbatim>\<open>native_acp/observation.py\<close>: what one \<^verbatim>\<open>initialize\<close> exchange
  reported, its verdict against the profile's declared contract, the drift warnings against the session's previous
  observation, and the durable projections.  \<^verbatim>\<open>str\<close> of a float, a container or an object is the argument
  \<open>rp\<close>.
\<close>

section \<open>The observation\<close>

definition OBSERVATION_REFUSALS :: "string list" where
  "OBSERVATION_REFUSALS =
     [''PROTOCOL_MISMATCH'', ''CAPABILITY_MISSING'', ''CAPABILITY_FORBIDDEN'', ''CONFIG_FIDELITY'', ''PERMISSION_MODE_UNPROVEN'']"

definition AGENT_SELF_REPORT_CHANGED :: string where
  "AGENT_SELF_REPORT_CHANGED = ''AGENT_SELF_REPORT_CHANGED''"

definition ADVERTISED_CAPABILITIES_CHANGED :: string where
  "ADVERTISED_CAPABILITIES_CHANGED = ''ADVERTISED_CAPABILITIES_CHANGED''"

definition POLICY_WARNING :: string where
  "POLICY_WARNING = ''policy_warning''"

definition SUBJECT_AGENT_SELF_REPORT :: string where
  "SUBJECT_AGENT_SELF_REPORT = ''agent_self_report''"

definition SUBJECT_ADVERTISED_CAPABILITIES :: string where
  "SUBJECT_ADVERTISED_CAPABILITIES = ''advertised_capabilities''"

definition COMPARISON_PREVIOUS_RUN_OF_SESSION :: string where
  "COMPARISON_PREVIOUS_RUN_OF_SESSION = ''previous_run_of_session''"

definition WARNING_VOCABULARY :: "string list" where
  "WARNING_VOCABULARY =
     [SUBJECT_AGENT_SELF_REPORT, SUBJECT_ADVERTISED_CAPABILITIES, COMPARISON_PREVIOUS_RUN_OF_SESSION,
      AGENT_SELF_REPORT_CHANGED, ADVERTISED_CAPABILITIES_CHANGED, POLICY_WARNING]"

record initialize_observation =
  iv_agent_info :: "pydict option"
  iv_protocol_version :: "int option"
  iv_capabilities :: "pydict option"
  iv_load_session :: "bool option"

definition py_str :: "(pyval \<Rightarrow> string) \<Rightarrow> pyval \<Rightarrow> string" where
  "py_str rp v =
     (case v of
        PStr s \<Rightarrow> s
      | PNone \<Rightarrow> ''None''
      | PBool b \<Rightarrow> if b then ''True'' else ''False''
      | PInt n \<Rightarrow> dec_int n
      | _ \<Rightarrow> rp v)"

text \<open>\<^verbatim>\<open>d or {}\<close>\<close>

definition dict_or_empty :: "pydict option \<Rightarrow> pydict" where
  "dict_or_empty d = (case d of None \<Rightarrow> [] | Some x \<Rightarrow> x)"

definition self_report :: "(pyval \<Rightarrow> string) \<Rightarrow> initialize_observation \<Rightarrow> string \<times> string" where
  "self_report rp ob =
     (let info = dict_or_empty (iv_agent_info ob) in
      (py_str rp (entry_default info ''name'' (PStr [])), py_str rp (entry_default info ''version'' (PStr []))))"

definition advertised :: "initialize_observation \<Rightarrow> string list" where
  "advertised ob = sort (map fst (filter (\<lambda>p. py_truth (snd p)) (dict_or_empty (iv_capabilities ob))))"

definition dict_value :: "pydict option \<Rightarrow> pyval" where
  "dict_value d = (case d of None \<Rightarrow> PNone | Some x \<Rightarrow> PDict x)"

definition observation_to_dict :: "initialize_observation \<Rightarrow> pydict" where
  "observation_to_dict ob =
     [(''agent_info'', dict_value (iv_agent_info ob)),
      (''protocol_version'', pint_opt (iv_protocol_version ob)),
      (''capabilities'', dict_value (iv_capabilities ob)),
      (''load_session_advertised'', case iv_load_session ob of None \<Rightarrow> PNone | Some b \<Rightarrow> PBool b)]"

section \<open>The verdict\<close>

record verdict =
  vd_observed :: initialize_observation
  vd_refusal :: "string option"
  vd_detail :: "string option"
  vd_warnings :: "pydict list"

definition to_evidence :: "verdict \<Rightarrow> pydict" where
  "to_evidence v =
     [(''schema_version'', PInt 2), (''authoritative'', PBool False),
      (''observed'', PDict (observation_to_dict (vd_observed v))), (''refusal'', pstr_opt (vd_refusal v)),
      (''warnings'', PList (map PDict (vd_warnings v)))]"

definition policy_warning :: "string \<Rightarrow> string \<Rightarrow> string \<Rightarrow> pydict" where
  "policy_warning code subject comparison =
     [(''type'', PStr POLICY_WARNING), (''code'', PStr code), (''subject'', PStr subject),
      (''comparison'', PStr comparison), (''authoritative'', PBool False), (''refused'', PBool False)]"

definition version_text :: "int option \<Rightarrow> string" where
  "version_text v = (case v of None \<Rightarrow> ''None'' | Some n \<Rightarrow> dec_int n)"

fun required_verdict :: "initialize_observation \<Rightarrow> string list \<Rightarrow> (string \<times> string) option" where
  "required_verdict ob [] = None"
| "required_verdict ob (c # cs) =
     (let present = py_truth (dget (dict_or_empty (iv_capabilities ob)) c) \<or>
                    c = ''loadSession'' \<and> iv_load_session ob = Some True
      in if \<not> present then Some (''CAPABILITY_MISSING'', ''required capability '' @ c @ '' is absent'')
         else required_verdict ob cs)"

fun forbidden_verdict :: "initialize_observation \<Rightarrow> string list \<Rightarrow> (string \<times> string) option" where
  "forbidden_verdict ob [] = None"
| "forbidden_verdict ob (c # cs) =
     (if py_truth (dget (dict_or_empty (iv_capabilities ob)) c)
      then Some (''CAPABILITY_FORBIDDEN'', ''forbidden capability '' @ c @ '' is advertised'')
      else forbidden_verdict ob cs)"

definition contract_verdict :: "profile \<Rightarrow> agent_entry \<Rightarrow> initialize_observation \<Rightarrow> (string \<times> string) option" where
  "contract_verdict p e ob =
     (if version_text (iv_protocol_version ob) \<noteq> pf_acp_protocol_version p
      then Some (''PROTOCOL_MISMATCH'', ''the profile speaks ACP major '' @ pf_acp_protocol_version p)
      else (case required_verdict ob (pf_required_capabilities p) of
              Some r \<Rightarrow> Some r
            | None \<Rightarrow> forbidden_verdict ob (instance_forbidden_capabilities p e)))"

definition drift_warnings ::
    "(pyval \<Rightarrow> string) \<Rightarrow> initialize_observation option \<Rightarrow> initialize_observation \<Rightarrow> pydict list" where
  "drift_warnings rp previous ob =
     (case previous of
        None \<Rightarrow> []
      | Some before \<Rightarrow>
          (if self_report rp before \<noteq> self_report rp ob
           then [policy_warning AGENT_SELF_REPORT_CHANGED SUBJECT_AGENT_SELF_REPORT COMPARISON_PREVIOUS_RUN_OF_SESSION]
           else []) @
          (if advertised before \<noteq> advertised ob
           then [policy_warning ADVERTISED_CAPABILITIES_CHANGED SUBJECT_ADVERTISED_CAPABILITIES COMPARISON_PREVIOUS_RUN_OF_SESSION]
           else []))"

definition judge_initialize ::
    "(pyval \<Rightarrow> string) \<Rightarrow> profile \<Rightarrow> agent_entry \<Rightarrow> initialize_observation \<Rightarrow> initialize_observation option \<Rightarrow> verdict" where
  "judge_initialize rp p e ob previous =
     \<lparr>vd_observed = ob, vd_refusal = map_option fst (contract_verdict p e ob),
      vd_detail = map_option snd (contract_verdict p e ob), vd_warnings = drift_warnings rp previous ob\<rparr>"

section \<open>The session's previous observation\<close>

text \<open>
  Iterating the stored value: a list of names as \<^const>\<open>commit_last_observation\<close> writes it, and what iteration
  gives on a string or an object.  A list with other items, which no writer leaves, is not distinguished from a value
  that cannot be iterated.
\<close>

definition stored_names :: "pyval \<Rightarrow> session_error + string list" where
  "stored_names v =
     (if \<not> py_truth v then Inr []
      else (case v of
              PList vs \<Rightarrow> (case texts_in vs of Some ts \<Rightarrow> Inr ts | None \<Rightarrow> Inl Type_Error)
            | PStr s \<Rightarrow> Inr (map (\<lambda>c. [c]) s)
            | PDict d \<Rightarrow> Inr (map fst d)
            | _ \<Rightarrow> Inl Type_Error))"

definition value_or_empty :: "pyval \<Rightarrow> pyval" where
  "value_or_empty v = (if py_truth v then v else PStr [])"

definition observation_from_record :: "session_record \<Rightarrow> session_error + initialize_observation option" where
  "observation_from_record r =
     (let name = dget r ''native_last_agent_info_name''; version = dget r ''native_last_agent_info_version'';
          caps = dget r ''native_last_advertised_capabilities''
      in if name = PNone \<and> version = PNone \<and> caps = PNone then Inr None
         else (case stored_names caps of
                 Inl e \<Rightarrow> Inl e
               | Inr ns \<Rightarrow>
                   Inr (Some \<lparr>iv_agent_info = Some [(''name'', value_or_empty name), (''version'', value_or_empty version)],
                              iv_protocol_version = None,
                              iv_capabilities = Some (fold (\<lambda>n d. dset n (PBool True) d) ns []),
                              iv_load_session = None\<rparr>)))"

definition observed_runtime_evidence :: "string \<Rightarrow> string list \<Rightarrow> string option \<Rightarrow> string option \<Rightarrow> pydict" where
  "observed_runtime_evidence declared_command argv path_lookup_hit mapped_image =
     [(''authoritative'', PBool False), (''declared_command'', PStr declared_command),
      (''argv'', PList (map PStr argv)), (''path_lookup_hit'', pstr_opt path_lookup_hit),
      (''mapped_image'', pstr_opt mapped_image)]"

section \<open>The contract\<close>

text \<open>The declared contract, written out: refused exactly when it is broken, with the first broken term.\<close>

definition has_capability :: "initialize_observation \<Rightarrow> string \<Rightarrow> bool" where
  "has_capability ob c \<longleftrightarrow> py_truth (dget (dict_or_empty (iv_capabilities ob)) c)"

definition contract_kept :: "profile \<Rightarrow> agent_entry \<Rightarrow> initialize_observation \<Rightarrow> bool" where
  "contract_kept p e ob \<longleftrightarrow>
     version_text (iv_protocol_version ob) = pf_acp_protocol_version p \<and>
     list_all (\<lambda>c. has_capability ob c \<or> c = ''loadSession'' \<and> iv_load_session ob = Some True) (pf_required_capabilities p) \<and>
     list_all (\<lambda>c. \<not> has_capability ob c) (pf_forbidden_capabilities p @ ae_forbidden_capabilities e)"

lemma required_verdict_None:
  "required_verdict ob cs = None \<longleftrightarrow>
   list_all (\<lambda>c. has_capability ob c \<or> c = ''loadSession'' \<and> iv_load_session ob = Some True) cs"
  by (induction cs) (auto simp: has_capability_def Let_def)

lemma forbidden_verdict_None: "forbidden_verdict ob cs = None \<longleftrightarrow> list_all (\<lambda>c. \<not> has_capability ob c) cs"
  by (induction cs) (simp_all add: has_capability_def)

lemma contract_verdict_None: "contract_verdict p e ob = None \<longleftrightarrow> contract_kept p e ob"
  using required_verdict_None [of ob "pf_required_capabilities p"]
  by (cases "required_verdict ob (pf_required_capabilities p)")
    (simp_all add: contract_verdict_def contract_kept_def forbidden_verdict_None instance_forbidden_capabilities_def list_all_iff)

lemma required_verdict_code: "required_verdict ob cs = Some r \<Longrightarrow> fst r = ''CAPABILITY_MISSING''"
  by (induction cs) (auto simp: Let_def split: if_splits)

lemma forbidden_verdict_code: "forbidden_verdict ob cs = Some r \<Longrightarrow> fst r = ''CAPABILITY_FORBIDDEN''"
  by (induction cs) (auto split: if_splits)

lemma contract_verdict_code:
  "contract_verdict p e ob = Some r \<Longrightarrow>
   fst r \<in> {''PROTOCOL_MISMATCH'', ''CAPABILITY_MISSING'', ''CAPABILITY_FORBIDDEN''}"
  by (auto simp: contract_verdict_def dest: required_verdict_code forbidden_verdict_code split: if_splits option.splits)

section \<open>Drift\<close>

text \<open>The texts of a warning: none of them comes from an observation.\<close>

definition warning_texts :: "pydict \<Rightarrow> string list" where
  "warning_texts d = concat (map (\<lambda>p. case snd p of PStr s \<Rightarrow> [s] | _ \<Rightarrow> []) d)"

lemma drift_warning_texts:
  "w \<in> set (drift_warnings rp previous ob) \<Longrightarrow> set (warning_texts w) \<subseteq> set WARNING_VOCABULARY"
  by (auto simp: drift_warnings_def policy_warning_def warning_texts_def WARNING_VOCABULARY_def split: option.splits if_splits)

lemma drift_warning_shape:
  "w \<in> set (drift_warnings rp previous ob) \<Longrightarrow>
   dget w ''authoritative'' = PBool False \<and> dget w ''refused'' = PBool False \<and> dget w ''type'' = PStr POLICY_WARNING"
  by (auto simp: drift_warnings_def policy_warning_def dget_def split: option.splits if_splits)

text \<open>Reading back the names that were stored from one observation advertises them again.\<close>

lemma map_of_flags: "map_of (fold (\<lambda>n d. dset n (PBool True) d) ns d) k =
    (if k \<in> set ns then Some (PBool True) else map_of d k)"
  by (induction ns arbitrary: d) auto

lemma flags_distinct: "distinct (map fst d) \<Longrightarrow> distinct (map fst (fold (\<lambda>n d. dset n (PBool True) d) ns d))"
  by (induction ns arbitrary: d) (simp_all add: distinct_dset)

lemma flags_set:
  "set (map fst (fold (\<lambda>n d. dset n (PBool True) d) ns [])) = set ns"
  using map_of_flags [of ns "[]"]
  by (metis (no_types, lifting) dom_map_of_conv_image_fst list.set_map domIff subset_antisym subsetI map_of.simps(1) option.distinct(1))

lemma flags_true: "(k, v) \<in> set (fold (\<lambda>n d. dset n (PBool True) d) ns []) \<Longrightarrow> v = PBool True"
  using map_of_flags [of ns "[]" k] map_of_is_SomeI [OF flags_distinct [of "[]" ns], of k v]
  by (auto split: if_splits)

lemma advertised_flags:
  assumes "distinct ns" "sorted ns"
  shows "advertised \<lparr>iv_agent_info = i, iv_protocol_version = v,
     iv_capabilities = Some (fold (\<lambda>n d. dset n (PBool True) d) ns []), iv_load_session = l\<rparr> = ns"
proof -
  let ?d = "fold (\<lambda>n d. dset n (PBool True) d) ns []"
  have "filter (\<lambda>p. py_truth (snd p)) ?d = ?d"
    by (rule filter_True) (metis flags_true prod.collapse py_truth.simps(2))
  moreover have "sort (map fst ?d) = ns"
  proof (rule sorted_distinct_set_unique)
    show "distinct (sort (map fst ?d))" using flags_distinct [of "[]" ns] by simp
    show "set (sort (map fst ?d)) = set ns" using flags_set [of ns] by simp
  qed (use assms in simp_all)
  ultimately show ?thesis by (simp add: advertised_def dict_or_empty_def)
qed

lemma advertised_sorted [simp]: "sorted (advertised ob)"
  by (simp add: advertised_def)

lemma advertised_distinct:
  "distinct (map fst (dict_or_empty (iv_capabilities ob))) \<Longrightarrow> distinct (advertised ob)"
  by (simp add: advertised_def distinct_map_filter)

lemma texts_in_PStr [simp]: "texts_in (map PStr ts) = Some ts"
  by (induction ts) (simp_all add: texts_in_def)

lemma stored_names_PStr [simp]: "stored_names (PList (map PStr ns)) = Inr ns"
  by (cases ns) (simp_all add: stored_names_def flip: list.map)

lemma py_str_value_or_empty [simp]: "py_str rp (value_or_empty (PStr s)) = s"
  by (simp add: value_or_empty_def py_str_def)

text \<open>What a session's record carries after an observation was committed compares equal to that observation.\<close>

definition carries :: "(pyval \<Rightarrow> string) \<Rightarrow> initialize_observation \<Rightarrow> session_record \<Rightarrow> bool" where
  "carries rp ob r \<longleftrightarrow>
     dget r ''native_last_agent_info_name'' = PStr (fst (self_report rp ob)) \<and>
     dget r ''native_last_agent_info_version'' = PStr (snd (self_report rp ob)) \<and>
     dget r ''native_last_advertised_capabilities'' = PList (map PStr (advertised ob))"

lemma carried_observation:
  assumes "carries rp ob r" "distinct (map fst (dict_or_empty (iv_capabilities ob)))"
  shows "\<exists>before. observation_from_record r = Inr (Some before) \<and>
     self_report rp before = self_report rp ob \<and> advertised before = advertised ob"
proof -
  let ?b = "\<lparr>iv_agent_info = Some [(''name'', value_or_empty (PStr (fst (self_report rp ob)))),
        (''version'', value_or_empty (PStr (snd (self_report rp ob))))],
      iv_protocol_version = None, iv_capabilities = Some (fold (\<lambda>n d. dset n (PBool True) d) (advertised ob) []),
      iv_load_session = None\<rparr>"
  have "observation_from_record r = Inr (Some ?b)"
    using assms(1) by (simp add: observation_from_record_def carries_def Let_def)
  moreover have "self_report rp ?b = self_report rp ob"
    by (simp add: self_report_def [of rp ?b] dict_or_empty_def entry_default_def)
  moreover have "advertised ?b = advertised ob"
    by (rule advertised_flags) (simp_all add: advertised_distinct [OF assms(2)])
  ultimately show ?thesis by blast
qed

lemma no_drift:
  assumes "self_report rp before = self_report rp ob" "advertised before = advertised ob"
  shows "drift_warnings rp (Some before) ob = []"
  using assms by (simp add: drift_warnings_def)

end
