(* ===== verification/Run_Start.thy ===== *)
theory Run_Start
  imports Run_Finalize Observation Config_Driver
begin

text \<open>
  The drive of a run up to its one prompt, \<^verbatim>\<open>native_acp/run_task.py\<close>: the session is bound and leased, the
  child is told to \<^verbatim>\<open>initialize\<close>, its report is judged and recorded, the session is created or loaded, the
  configuration is set and proven, and the prompt is dispatched behind its markers.  The ACP calls are answered by an
  agent given as functions of its state, every durable write has one of the three outcomes of \<^typ>\<open>io\<close>, and each
  frame on the wire is recorded with the files as they were at that moment.  A call that does not return raised inside
  the SDK (\<^const>\<open>None\<close> from the agent) or was interrupted: by the startup timeout or by cancellation.
\<close>

section \<open>What a run is given\<close>

record init_summary =
  su_protocol_version :: int
  su_agent_info :: pydict
  su_load_session :: bool
  su_capabilities :: pydict

datatype interrupt = Startup_Timeout | Task_Cancelled

datatype prompt_answer = Prompt_Returned string pyval | Prompt_Raised | Prompt_Timed_Out | Prompt_Cancelled

record 's acp_agent =
  ag_initialize :: "'s \<Rightarrow> 's \<times> init_summary option"
  ag_new_session :: "'s \<Rightarrow> 's \<times> (string \<times> pydict list option) option"
  ag_load_session :: "'s \<Rightarrow> string \<Rightarrow> 's \<times> pydict list option option"
  ag_set_option :: "'s agent"
  ag_prompt :: "'s \<Rightarrow> 's \<times> bool \<times> prompt_answer" \<comment> \<open>the flag: the prompt frame was written\<close>
  ag_identity_ok :: "'s \<Rightarrow> bool" \<comment> \<open>the client has recorded no identity violation\<close>
  ag_interrupt :: "'s \<Rightarrow> interrupt option" \<comment> \<open>what ended a call that gave no answer, if not an exception of the SDK\<close>
  ag_violations :: "'s \<Rightarrow> bool \<times> bool" \<comment> \<open>the bridge's \<^verbatim>\<open>turn_failed\<close> and \<^verbatim>\<open>grant_violation\<close>\<close>

record run_args =
  rn_run_id :: string
  rn_moment :: string
  rn_repr :: "pyval \<Rightarrow> string"
  rn_float :: "rat \<Rightarrow> string"
  rn_session :: "string option"
  rn_prospective :: string
  rn_identity :: run_identity
  rn_profile :: profile
  rn_entry :: agent_entry
  rn_grant :: "string list"
  rn_model :: string
  rn_effort :: string
  rn_cwd :: string
  rn_root :: "string option"
  rn_argv :: "string list"
  rn_child :: process_identity
  rn_token :: string
  rn_now :: int
  rn_probe :: probe
  rn_isofmt :: "int \<Rightarrow> string"
  rn_isoparse :: "string \<Rightarrow> int option"

record start_io =
  so_unlink :: io
  so_lock :: io
  so_holder :: io
  so_spawn :: "string option" \<comment> \<open>the code of a failed spawn\<close>
  so_open :: bool
  so_evidence :: io
  so_observe :: io
  so_create :: io
  so_switch :: io
  so_proven :: io
  so_commit :: io
  so_effective :: io
  so_progress :: io
  so_rb_commit :: io
  so_rb_marker :: io
  so_emit :: "nat \<Rightarrow> pipeline_exception option" \<comment> \<open>the writer's answer to the n-th emission\<close>
  so_can_accept :: bool
  so_dispatch :: io
  so_accept :: io
  so_child_exited :: bool

datatype start_exc = Pre_Dispatch string | Wire_Failure | Interrupted interrupt | Other_Exception

section \<open>Binding the session\<close>

datatype start_plan = CreateSessionPlan string | LoadSessionPlan string string

definition lease_args :: "run_args \<Rightarrow> acquire_args" where
  "lease_args a =
     \<lparr>aq_owner = ri_owner (rn_identity a), aq_now = rn_now a, aq_lease_seconds = PInt DEFAULT_SESSION_LEASE_SECONDS,
      aq_reclaim_crashed = False, aq_reclaimable = False, aq_holder_kind = ''supervisor'', aq_refuse_quarantined = True\<rparr>"

definition record_child :: "run_args \<Rightarrow> start_io \<Rightarrow> string \<Rightarrow> string \<Rightarrow> store \<Rightarrow> store \<times> (session_error + unit)" where
  "record_child a i sid token st =
     update_lock_holder (so_holder i) sid token (rn_child a) ''native_agent'' False (rn_moment a) st"

text \<open>\<^verbatim>\<open>ctx.lock\<close> is set before the holder is recorded, so it is part of the answer in every case.\<close>

definition acquire_lease ::
    "run_args \<Rightarrow> start_io \<Rightarrow> string \<Rightarrow> bool \<Rightarrow> store \<Rightarrow> store \<times> string option \<times> (session_error + unit)" where
  "acquire_lease a i sid child st =
     (case acquire_lock (rn_isofmt a) (rn_isoparse a) (rn_probe a) (so_unlink i) (so_lock i) (rn_token a) sid (lease_args a) st of
        (st1, Inl e) \<Rightarrow> (st1, None, Inl e)
      | (st1, Inr l) \<Rightarrow>
          if \<not> child then (st1, Some (lk_token l), Inr ())
          else (case record_child a i sid (lk_token l) st1 of (st2, r) \<Rightarrow> (st2, Some (lk_token l), r)))"

definition plan_reuse_session :: "run_args \<Rightarrow> string \<Rightarrow> store \<Rightarrow> string + start_plan \<times> pyval \<times> pyval" where
  "plan_reuse_session a sid st =
     (case open_session st sid of
        Inl SessionNotFoundError \<Rightarrow> Inl ''SESSION_NOT_FOUND_FOR_REUSE''
      | Inl _ \<Rightarrow> Inl ''SESSION_RECORD_INVALID''
      | Inr r \<Rightarrow>
          if validate_native_session_record r sid \<noteq> [] then Inl ''SESSION_RECORD_INVALID''
          else (case dget r ''agent_session_id'' of
                  PStr external \<Rightarrow>
                    (case validate_native_binding r (rn_identity a) True of
                       Inl SessionQuarantinedError \<Rightarrow> Inl ''SESSION_QUARANTINED''
                     | Inl _ \<Rightarrow> Inl ''SESSION_BINDING_MISMATCH''
                     | Inr _ \<Rightarrow> Inr (LoadSessionPlan sid external, dget r ''last_effective_model'', dget r ''last_effective_effort''))
                | _ \<Rightarrow> Inl ''SESSION_EXTERNAL_ID_MISSING''))"

definition plan_create_session :: "run_args \<Rightarrow> start_plan" where
  "plan_create_session a = CreateSessionPlan (rn_prospective a)"

record bound =
  bd_plan :: start_plan
  bd_pair :: "pyval \<times> pyval"
  bd_previous :: "initialize_observation option"

definition bind_session :: "run_args \<Rightarrow> start_io \<Rightarrow> store \<Rightarrow> store \<times> string option \<times> (start_exc + bound)" where
  "bind_session a i st =
     (case rn_session a of
        None \<Rightarrow> (st, None, Inr \<lparr>bd_plan = plan_create_session a, bd_pair = (PNone, PNone), bd_previous = None\<rparr>)
      | Some sid \<Rightarrow>
          (case plan_reuse_session a sid st of
             Inl code \<Rightarrow> (st, None, Inl (Pre_Dispatch code))
           | Inr (plan, pair) \<Rightarrow>
               (case acquire_lease a i sid False st of
                  (st1, lock, Inl SessionQuarantinedError) \<Rightarrow> (st1, lock, Inl (Pre_Dispatch ''SESSION_QUARANTINED''))
                | (st1, lock, Inl _) \<Rightarrow> (st1, lock, Inl Other_Exception)
                | (st1, lock, Inr _) \<Rightarrow>
                    (case open_session st1 sid of
                       Inl _ \<Rightarrow> (st1, lock, Inl Other_Exception)
                     | Inr r \<Rightarrow>
                         (case observation_from_record r of
                            Inl _ \<Rightarrow> (st1, lock, Inl Other_Exception)
                          | Inr ob \<Rightarrow> (st1, lock, Inr \<lparr>bd_plan = plan, bd_pair = pair, bd_previous = ob\<rparr>))))))"

section \<open>The state of a started run\<close>

datatype wire_act = Spawned | Initialized | New_Session | Load_Session string | Set_Config string string | Prompted

record effective_state =
  ef_process :: "process_identity option"
  ef_agent_info :: "pydict option"
  ef_protocol_version :: "int option"
  ef_capabilities :: "pydict option"
  ef_load_session :: "bool option"
  ef_agent_session :: "string option"
  ef_snapshots :: "(string \<times> pydict list) list"
  ef_model :: "string option"
  ef_effort :: "string option"
  ef_command :: "string option"
  ef_argv :: "string list"

definition no_effective :: effective_state where
  "no_effective =
     \<lparr>ef_process = None, ef_agent_info = None, ef_protocol_version = None, ef_capabilities = None, ef_load_session = None,
      ef_agent_session = None, ef_snapshots = [], ef_model = None, ef_effort = None, ef_command = None, ef_argv = []\<rparr>"

definition identity_dict :: "process_identity \<Rightarrow> pydict" where
  "identity_dict p =
     [(''pid'', PInt (id_pid p)), (''process_start'', pstr_opt (id_process_start p)), (''boot_id'', pstr_opt (id_boot_id p)),
      (''host'', PStr (id_host p))]"

definition effective_to_dict :: "effective_state \<Rightarrow> pydict" where
  "effective_to_dict ef =
     [(''process_identity'', case ef_process ef of None \<Rightarrow> PNone | Some p \<Rightarrow> PDict (identity_dict p)),
      (''agent_info'', dict_value (ef_agent_info ef)), (''protocol_version'', pint_opt (ef_protocol_version ef)),
      (''capabilities'', dict_value (ef_capabilities ef)),
      (''load_session_advertised'', case ef_load_session ef of None \<Rightarrow> PNone | Some b \<Rightarrow> PBool b),
      (''agent_session_id'', pstr_opt (ef_agent_session ef)),
      (''discovery_snapshots'', PList (map (\<lambda>(label, opts).
          PDict [(''label'', PStr label), (''options'', PList (map PDict opts))]) (ef_snapshots ef))),
      (''effective_model'', pstr_opt (ef_model ef)), (''effective_effort'', pstr_opt (ef_effort ef)),
      (''observed_runtime'', PDict [(''authoritative'', PBool False), (''declared_command'', pstr_opt (ef_command ef)),
         (''resolved_argv'', PList (map PStr (ef_argv ef))), (''path_lookup_hit'', PNone), (''mapped_image'', PNone)])]"

record 's start_state =
  st_ctx :: fin_ctx
  st_world :: world
  st_evidence :: dentry
  st_effective :: dentry
  st_wire :: "(wire_act \<times> world) list"
  st_events :: "pydict list"
  st_emits :: nat
  st_markers :: nat
  st_pipeline :: "ranked_failure option"
  st_driver :: "'s driver_run"
  st_eff :: effective_state
  st_pair :: "pyval \<times> pyval"
  st_previous :: "initialize_observation option"
  st_held :: "initialize_observation option"

type_synonym ('s, 'a) act = "'s start_state \<Rightarrow> 's start_state \<times> (start_exc + 'a)"

definition give :: "'a \<Rightarrow> ('s, 'a) act" where
  "give x s = (s, Inr x)"

definition stop :: "start_exc \<Rightarrow> ('s, 'a) act" where
  "stop e s = (s, Inl e)"

definition chain :: "('s, 'a) act \<Rightarrow> ('a \<Rightarrow> ('s, 'b) act) \<Rightarrow> ('s, 'b) act" where
  "chain m f s =
     (case m s of (s1, Inl e) \<Rightarrow> (s1, Inl e) | (s1, Inr x) \<Rightarrow> f x s1)"

definition update :: "('s start_state \<Rightarrow> 's start_state) \<Rightarrow> ('s, unit) act" where
  "update f s =
     (f s, Inr ())"

definition in_store :: "(store \<Rightarrow> store \<times> (session_error + 'a)) \<Rightarrow> ('s, 'a) act" where
  "in_store f s =
     (case f (wo_store (st_world s)) of
     (st, r) \<Rightarrow> (s\<lparr>st_world := (st_world s)\<lparr>wo_store := st\<rparr>\<rparr>, case r of Inl _ \<Rightarrow> Inl Other_Exception | Inr x \<Rightarrow> Inr x))"

definition on_wire :: "wire_act \<Rightarrow> ('s, unit) act" where
  "on_wire x = update (\<lambda>s. s\<lparr>st_wire := st_wire s @ [(x, st_world s)]\<rparr>)"

section \<open>Evidence: events, markers, the write-once artifacts\<close>

definition note_pipeline :: "nat \<Rightarrow> pipeline_exception \<Rightarrow> 's start_state \<Rightarrow> 's start_state" where
  "note_pipeline n x s =
     s\<lparr>st_pipeline := record_pipeline_error n x (st_pipeline s), st_ctx := (st_ctx s)\<lparr>fc_pipeline_error := True\<rparr>\<rparr>"

text \<open>The answer is whether the writer took the event.\<close>

definition submit_event :: "start_io \<Rightarrow> pydict \<Rightarrow> ('s, bool) act" where
  "submit_event i ev s =
     (let n = Suc (st_emits s); s1 = s\<lparr>st_emits := n\<rparr> in
     case so_emit i n of
       None \<Rightarrow> (s1\<lparr>st_events := st_events s1 @ [ev]\<rparr>, Inr True)
     | Some x \<Rightarrow> (note_pipeline n x s1, Inr False))"

definition emit :: "start_io \<Rightarrow> pydict \<Rightarrow> ('s, unit) act" where
  "emit i ev = chain (submit_event i ev) (\<lambda>_. give ())"

fun emit_all :: "start_io \<Rightarrow> pydict list \<Rightarrow> ('s, unit) act" where
  "emit_all i [] = give ()"
| "emit_all i (ev # evs) = chain (emit i ev) (\<lambda>_. emit_all i evs)"

definition type_event :: "string \<Rightarrow> pydict" where
  "type_event t = [(''type'', PStr t)]"

datatype marker = Dispatch_Started | Prompt_Accepted | Switch_Begun | Config_Proven | Rollback_Proven

fun marker_name :: "marker \<Rightarrow> string" where
  "marker_name Dispatch_Started = ''prompt-dispatch-started''"
| "marker_name Prompt_Accepted = ''prompt-accepted''"
| "marker_name Switch_Begun = ''config-switch-started''"
| "marker_name Config_Proven = ''config-proven''"
| "marker_name Rollback_Proven = ''config-rollback-proven''"

fun marker_entry :: "marker \<Rightarrow> run_dir \<Rightarrow> dentry" where
  "marker_entry Dispatch_Started d = dispatch_started d"
| "marker_entry Prompt_Accepted d = prompt_accepted d"
| "marker_entry Switch_Begun d = config_switch_started d"
| "marker_entry Config_Proven d = config_proven d"
| "marker_entry Rollback_Proven d = config_rollback_proven d"

fun set_marker :: "marker \<Rightarrow> dentry \<Rightarrow> run_dir \<Rightarrow> run_dir" where
  "set_marker Dispatch_Started x d = d\<lparr>dispatch_started := x\<rparr>"
| "set_marker Prompt_Accepted x d = d\<lparr>prompt_accepted := x\<rparr>"
| "set_marker Switch_Begun x d = d\<lparr>config_switch_started := x\<rparr>"
| "set_marker Config_Proven x d = d\<lparr>config_proven := x\<rparr>"
| "set_marker Rollback_Proven x d = d\<lparr>config_rollback_proven := x\<rparr>"

definition marker_payload :: "run_args \<Rightarrow> marker \<Rightarrow> nat \<Rightarrow> pydict" where
  "marker_payload a k n =
     [(''marker'', PStr (marker_name k)), (''run_id'', PStr (rn_run_id a)), (''ordinal'', PInt (int n)),
      (''created_at'', PStr (rn_moment a))]"

definition write_marker :: "run_args \<Rightarrow> io \<Rightarrow> marker \<Rightarrow> ('s, unit) act" where
  "write_marker a w k s =
     (let n = Suc (st_markers s);
         (entry, r) = write_once w (marker_entry k (wo_run (st_world s))) (marker_payload a k n)
     in (s\<lparr>st_markers := n, st_world := (st_world s)\<lparr>wo_run := set_marker k entry (wo_run (st_world s))\<rparr>\<rparr>,
         if r = Once_Ok then Inr () else Inl Other_Exception))"

text \<open>\<^verbatim>\<open>_write_config_marker\<close> swallows every exception of the write.\<close>

definition write_config_marker :: "run_args \<Rightarrow> io \<Rightarrow> marker \<Rightarrow> ('s, unit) act" where
  "write_config_marker a w k s =
     ((fst (write_marker a w k s :: 's start_state \<times> (start_exc + unit)), Inr ()))"

definition write_evidence :: "start_io \<Rightarrow> pydict \<Rightarrow> ('s, unit) act" where
  "write_evidence i payload s =
     (let (entry, r) = write_once (so_evidence i) (st_evidence s) payload
     in (s\<lparr>st_evidence := entry\<rparr>, if r = Once_Ok then Inr () else Inl Other_Exception))"

definition write_effective :: "start_io \<Rightarrow> ('s, unit) act" where
  "write_effective i s =
     (let (entry, r) = write_once (so_effective i) (st_effective s) (effective_to_dict (st_eff s))
     in (s\<lparr>st_effective := entry\<rparr>, if r = Once_Ok then Inr () else Inl Other_Exception))"

definition write_running :: "run_args \<Rightarrow> start_io \<Rightarrow> ('s, unit) act" where
  "write_running a i s =
     (let d = wo_run (st_world s);
         payload = [(''schema_version'', PInt 1), (''state'', PStr ''running''), (''last_seq'', PInt (fc_last_seq (st_ctx s))),
           (''event_count'', PInt (fc_last_seq (st_ctx s))), (''updated_at'', PStr (rn_moment a))]
     in (s\<lparr>st_world := (st_world s)\<lparr>wo_run := d\<lparr>progress_json := put (so_progress i) (progress_json d) (Doc (PDict payload))\<rparr>\<rparr>\<rparr>,
         if so_progress i = Io_Ok then Inr () else Inl Other_Exception))"

section \<open>Initialization\<close>

definition unanswered :: "'s acp_agent \<Rightarrow> 's \<Rightarrow> start_exc" where
  "unanswered ag x = (case ag_interrupt ag x of Some k \<Rightarrow> Interrupted k | None \<Rightarrow> Wire_Failure)"

definition with_agent :: "'s \<Rightarrow> 's start_state \<Rightarrow> 's start_state" where
  "with_agent x s = s\<lparr>st_driver := (st_driver s)\<lparr>dr_agent := x\<rparr>\<rparr>"

text \<open>\<^verbatim>\<open>_call\<close>: one request to the agent, its exceptions converted.\<close>

definition call_agent :: "'s acp_agent \<Rightarrow> ('s \<Rightarrow> 's \<times> 'r option) \<Rightarrow> ('s, 'r) act" where
  "call_agent ag f s =
     (case f (dr_agent (st_driver s)) of
       (x, None) \<Rightarrow> stop (unanswered ag x) (with_agent x s)
     | (x, Some r) \<Rightarrow> give r (with_agent x s))"

definition check_identity :: "'s acp_agent \<Rightarrow> ('s, unit) act" where
  "check_identity ag s =
     (if ag_identity_ok ag (dr_agent (st_driver s)) then give () s else stop Wire_Failure s)"

definition driver_initialize :: "'s acp_agent \<Rightarrow> ('s, init_summary) act" where
  "driver_initialize ag = chain (on_wire Initialized) (\<lambda>_. call_agent ag (ag_initialize ag))"

definition record_summary :: "init_summary \<Rightarrow> ('s, unit) act" where
  "record_summary su = update (\<lambda>s. s\<lparr>st_eff := (st_eff s)
     \<lparr>ef_agent_info := Some (su_agent_info su), ef_protocol_version := Some (su_protocol_version su),
      ef_capabilities := Some (su_capabilities su), ef_load_session := Some (su_load_session su)\<rparr>\<rparr>)"

definition observed_of :: "init_summary \<Rightarrow> initialize_observation" where
  "observed_of su =
     \<lparr>iv_agent_info = Some (su_agent_info su), iv_protocol_version = Some (su_protocol_version su),
      iv_capabilities = Some (su_capabilities su), iv_load_session = Some (su_load_session su)\<rparr>"

definition commit_observation ::
    "run_args \<Rightarrow> io \<Rightarrow> string \<Rightarrow> initialize_observation \<Rightarrow> store \<Rightarrow> store \<times> (session_error + session_record)" where
  "commit_observation a w sid ob st =
     commit_last_observation w sid (PStr (fst (self_report (rn_repr a) ob))) (PStr (snd (self_report (rn_repr a) ob)))
       (map PStr (advertised ob)) (rn_moment a) st"

definition commit_pending_observation :: "run_args \<Rightarrow> start_io \<Rightarrow> ('s, unit) act" where
  "commit_pending_observation a i s =
     (case (st_held s, fc_session (st_ctx s)) of
       (Some ob, Some sid) \<Rightarrow>
         if fc_pending_creation (st_ctx s) then give () s
         else chain (in_store (commit_observation a (so_observe i) sid ob)) (\<lambda>_. update (\<lambda>s. s\<lparr>st_held := None\<rparr>)) s
     | _ \<Rightarrow> give () s)"

definition observe_initialize :: "run_args \<Rightarrow> start_io \<Rightarrow> init_summary \<Rightarrow> ('s, unit) act" where
  "observe_initialize a i su s =
     (let ob = observed_of su; v = judge_initialize (rn_repr a) (rn_profile a) (rn_entry a) ob (st_previous s) in
     chain (write_evidence i (to_evidence v)) (\<lambda>_.
     chain (emit_all i (vd_warnings v)) (\<lambda>_.
       case vd_refusal v of
         Some code \<Rightarrow> stop (Pre_Dispatch code)
       | None \<Rightarrow>
           if pf_requires_session_load (rn_profile a) \<and> \<not> su_load_session su then stop (Pre_Dispatch ''CAPABILITY_MISSING'')
           else chain (update (\<lambda>s. s\<lparr>st_held := Some ob\<rparr>)) (\<lambda>_. commit_pending_observation a i))) s)"

section \<open>Opening the session\<close>

text \<open>The driver lets the machine's exceptions through: a \<^verbatim>\<open>ConfigFidelityError\<close> is handled like an error of the
  wire, any other escapes the handler.\<close>

definition config_exc :: "config_error \<Rightarrow> start_exc" where
  "config_exc e = (if e = Config_Fidelity_Error then Wire_Failure else Other_Exception)"

definition take_options :: "pydict list option \<Rightarrow> ('s, unit) act" where
  "take_options os s =
     (case record_initial_options os (dr_machine (st_driver s)) of
       (m, r) \<Rightarrow> (s\<lparr>st_driver := (st_driver s)\<lparr>dr_machine := m\<rparr>\<rparr>, case r of Inl e \<Rightarrow> Inl (config_exc e) | Inr _ \<Rightarrow> Inr ()))"

definition driver_new_session :: "'s acp_agent \<Rightarrow> ('s, string) act" where
  "driver_new_session ag =
     chain (on_wire New_Session) (\<lambda>_.
     chain (call_agent ag (ag_new_session ag)) (\<lambda>(external, os).
     chain (take_options os) (\<lambda>_. give external)))"

definition driver_load_session :: "'s acp_agent \<Rightarrow> string \<Rightarrow> ('s, unit) act" where
  "driver_load_session ag external =
     chain (on_wire (Load_Session external)) (\<lambda>_.
     chain (call_agent ag (\<lambda>x. ag_load_session ag x external)) (\<lambda>os.
     chain (take_options os) (\<lambda>_. check_identity ag)))"

definition session_record_args :: "run_args \<Rightarrow> string \<Rightarrow> string \<Rightarrow> create_args" where
  "session_record_args a sid external =
     \<lparr>ca_session_id = sid, ca_profile_id = ri_profile_id (rn_identity a), ca_profile_revision = ri_profile_revision (rn_identity a),
      ca_profile_hash = ri_profile_hash (rn_identity a), ca_owner = ri_owner (rn_identity a),
      ca_namespace = ri_namespace (rn_identity a), ca_workspace_hash = ri_workspace_hash (rn_identity a),
      ca_effective_cwd = rn_cwd a, ca_matched_root = rn_root a, ca_agent_session_id = external,
      ca_agent_id = ri_agent_id (rn_identity a), ca_session_epoch = ri_epoch (rn_identity a)\<rparr>"

definition lease_started :: "run_args \<Rightarrow> start_io \<Rightarrow> string \<Rightarrow> ('s, unit) act" where
  "lease_started a i sid s =
     (case acquire_lease a i sid True (wo_store (st_world s)) of
       (st, lock, r) \<Rightarrow>
         (s\<lparr>st_world := (st_world s)\<lparr>wo_store := st\<rparr>, st_ctx := (st_ctx s)\<lparr>fc_lock := lock\<rparr>\<rparr>,
          case r of Inl _ \<Rightarrow> Inl Other_Exception | Inr _ \<Rightarrow> Inr ()))"

definition agent_session :: "string \<Rightarrow> ('s, unit) act" where
  "agent_session external = update (\<lambda>s. s\<lparr>st_eff := (st_eff s)\<lparr>ef_agent_session := Some external\<rparr>\<rparr>)"

definition create_arm :: "run_args \<Rightarrow> start_io \<Rightarrow> 's acp_agent \<Rightarrow> string \<Rightarrow> ('s, unit) act" where
  "create_arm a i ag sid =
     chain (emit i (type_event ''session_new_requested'')) (\<lambda>_.
     chain (driver_new_session ag) (\<lambda>external.
     chain (agent_session external) (\<lambda>_.
     chain (in_store (create_native_session (so_create i) (rn_moment a) (session_record_args a sid external))) (\<lambda>_.
     chain (update (\<lambda>s. s\<lparr>st_ctx := (st_ctx s)\<lparr>fc_pending_creation := False\<rparr>\<rparr>)) (\<lambda>_.
     chain (lease_started a i sid) (\<lambda>_.
     commit_pending_observation a i))))))"

definition load_arm :: "start_io \<Rightarrow> 's acp_agent \<Rightarrow> init_summary \<Rightarrow> string \<Rightarrow> ('s, unit) act" where
  "load_arm i ag su external =
     (if \<not> su_load_session su then stop (Pre_Dispatch ''LOAD_SESSION_UNADVERTISED'')
      else chain (emit i (type_event ''session_load_requested'')) (\<lambda>_.
           chain (driver_load_session ag external) (\<lambda>_. agent_session external)))"

section \<open>Configuration\<close>

fun set_acts :: "wire_event list \<Rightarrow> wire_act list" where
  "set_acts [] = []"
| "set_acts (Switch_Started # ws) = set_acts ws"
| "set_acts (Set_Option i v # ws) = Set_Config i v # set_acts ws"

definition announce_switch :: "run_args \<Rightarrow> start_io \<Rightarrow> ('s, unit) act" where
  "announce_switch a i s =
     (if dr_announced (st_driver s) then give () s else write_config_marker a (so_switch i) Switch_Begun s)"

text \<open>
  \<^const>\<open>set_config_exact\<close> on the run's driver with the given machine: the switch marker goes to disk when the switch is
  announced, and the sets it writes join the record of the wire.  The files do not change while the sets are under way.
\<close>

definition driver_configure :: "'s acp_agent \<Rightarrow> machine \<Rightarrow> ('s, machine \<times> (start_exc + string \<times> string)) act" where
  "driver_configure ag m s =
     (case set_config_exact (ag_set_option ag) (ag_identity_ok ag) True True ((st_driver s)\<lparr>dr_machine := m\<rparr>) of
       (r, out) \<Rightarrow>
         (let s1 = s\<lparr>st_driver := r\<lparr>dr_machine := dr_machine (st_driver s)\<rparr>,
                st_wire := st_wire s @ map (\<lambda>x. (x, st_world s)) (set_acts (drop (length (dr_wire (st_driver s))) (dr_wire r)))\<rparr>
          in case out of
               Inr pair \<Rightarrow> give (dr_machine r, Inr pair) s1
             | Inl Native_Driver_Error \<Rightarrow>
                 (case ag_interrupt ag (dr_agent r) of
                    Some k \<Rightarrow> stop (Interrupted k) s1
                  | None \<Rightarrow> give (dr_machine r, Inl Wire_Failure) s1)
             | Inl (Fidelity e) \<Rightarrow> give (dr_machine r, Inl (config_exc e)) s1))"

definition configure :: "run_args \<Rightarrow> start_io \<Rightarrow> 's acp_agent \<Rightarrow> machine \<Rightarrow> ('s, machine \<times> (start_exc + string \<times> string)) act" where
  "configure a i ag m = chain (announce_switch a i) (\<lambda>_. driver_configure ag m)"

text \<open>The run's own sequence: its machine is the driver's.\<close>

definition configure_run :: "run_args \<Rightarrow> start_io \<Rightarrow> 's acp_agent \<Rightarrow> ('s, string \<times> string) act" where
  "configure_run a i ag s =
     (chain (configure a i ag (dr_machine (st_driver s))) (\<lambda>(m, out).
       chain (update (\<lambda>s. s\<lparr>st_driver := (st_driver s)\<lparr>dr_machine := m\<rparr>\<rparr>)) (\<lambda>_.
         case out of Inr pair \<Rightarrow> give pair | Inl e \<Rightarrow> stop e)) s)"

definition run_machine :: "run_args \<Rightarrow> string \<Rightarrow> string \<Rightarrow> machine config_result option" where
  "run_machine a model effort =
     map_option (\<lambda>perm. new_machine (pf_config_fidelity_mode (rn_profile a))
       (instance_model_selector (rn_profile a) (rn_entry a)) (instance_effort_selector (rn_profile a) (rn_entry a))
       model effort (pf_permission_mode_selector_id (rn_profile a)) perm)
       (required_permission_mode_for (rn_profile a) (rn_grant a))"

definition commit_effective :: "run_args \<Rightarrow> io \<Rightarrow> string \<Rightarrow> string \<Rightarrow> ('s, unit) act" where
  "commit_effective a w model effort s =
     (case fc_session (st_ctx s) of
       None \<Rightarrow> stop Other_Exception s
     | Some sid \<Rightarrow> chain (in_store (commit_last_effective w sid model effort (rn_moment a))) (\<lambda>_. give ()) s)"

definition mark_unproven :: "start_io \<Rightarrow> ('s, unit) act" where
  "mark_unproven i =
     chain (update (\<lambda>s. s\<lparr>st_ctx := (st_ctx s)\<lparr>fc_rollback_unproven := True\<rparr>\<rparr>)) (\<lambda>_.
     emit i (type_event ''config_rollback_failed''))"

text \<open>\<^verbatim>\<open>except Exception\<close>: everything but an interruption.\<close>

definition unless_exception :: "('s, unit) act \<Rightarrow> ('s, unit) act \<Rightarrow> ('s, unit) act" where
  "unless_exception m h s =
     (case m s of
       (s1, Inr _) \<Rightarrow> (s1, Inr ())
     | (s1, Inl (Interrupted k)) \<Rightarrow> (s1, Inl (Interrupted k))
     | (s1, Inl _) \<Rightarrow> h s1)"

definition latest_options :: "machine \<Rightarrow> pydict list option" where
  "latest_options m = (if snapshots m = [] then None else Some (snd (last (snapshots m))))"

definition rollback_sequence :: "run_args \<Rightarrow> start_io \<Rightarrow> 's acp_agent \<Rightarrow> string \<Rightarrow> string \<Rightarrow> ('s, unit) act" where
  "rollback_sequence a i ag model effort s =
     (case run_machine a model effort of
       Some (Inr m0) \<Rightarrow>
         (case record_initial_options (latest_options (dr_machine (st_driver s))) m0 of
            (m1, Inl _) \<Rightarrow> stop Wire_Failure s
          | (m1, Inr _) \<Rightarrow>
              chain (configure a i ag m1) (\<lambda>(m2, out).
                case out of
                  Inl _ \<Rightarrow> stop Wire_Failure
                | Inr _ \<Rightarrow>
                    chain (commit_effective a (so_rb_commit i) model effort) (\<lambda>_.
                    chain (write_config_marker a (so_rb_marker i) Rollback_Proven) (\<lambda>_.
                    emit i (type_event ''config_rollback_proven'')))) s)
     | _ \<Rightarrow> stop Wire_Failure s)"

text \<open>The stored pair is what \<^const>\<open>commit_last_effective\<close> wrote: two strings, or nothing.\<close>

definition rollback_after_partial_switch :: "run_args \<Rightarrow> start_io \<Rightarrow> 's acp_agent \<Rightarrow> ('s, unit) act" where
  "rollback_after_partial_switch a i ag =
     chain (emit i (type_event ''config_rollback_started'')) (\<lambda>_ s.
       case st_pair s of
         (PStr model, PStr effort) \<Rightarrow>
           if model = [] \<or> effort = [] then mark_unproven i s
           else unless_exception (rollback_sequence a i ag model effort) (mark_unproven i) s
       | _ \<Rightarrow> mark_unproven i s)"

section \<open>The startup sequence\<close>

definition open_and_configure :: "run_args \<Rightarrow> start_io \<Rightarrow> 's acp_agent \<Rightarrow> start_plan \<Rightarrow> ('s, string \<times> string) act" where
  "open_and_configure a i ag plan =
     chain (emit i [(''type'', PStr ''run_started''), (''method'', PStr ''initialize'')]) (\<lambda>_.
     chain (if so_open i then give () else stop Other_Exception) (\<lambda>_.
     chain (driver_initialize ag) (\<lambda>su.
     chain (record_summary su) (\<lambda>_.
     chain (observe_initialize a i su) (\<lambda>_.
     chain (case plan of
              CreateSessionPlan sid \<Rightarrow> create_arm a i ag sid
            | LoadSessionPlan sid external \<Rightarrow> load_arm i ag su external) (\<lambda>_.
     configure_run a i ag))))))"

definition partial_switch :: "'s start_state \<Rightarrow> bool" where
  "partial_switch s \<longleftrightarrow>
     \<not> fc_pending_creation (st_ctx s) \<and> phase (dr_machine (st_driver s)) \<notin> {Init, Initial_Options}"

definition wire_failure :: "run_args \<Rightarrow> start_io \<Rightarrow> 's acp_agent \<Rightarrow> ('s, 'a) act" where
  "wire_failure a i ag s =
     (if \<not> ag_identity_ok ag (dr_agent (st_driver s)) then stop (Pre_Dispatch ''SILENT_SESSION_RECREATION'') s
     else chain (\<lambda>s. if partial_switch s then rollback_after_partial_switch a i ag s else give () s)
            (\<lambda>_. stop (Pre_Dispatch ''CONFIG_FIDELITY'')) s)"

definition on_wire_failure :: "('s, 'a) act \<Rightarrow> ('s, 'a) act \<Rightarrow> ('s, 'a) act" where
  "on_wire_failure m h s =
     (case m s of (s1, Inl Wire_Failure) \<Rightarrow> h s1 | r \<Rightarrow> r)"

definition record_proven :: "string \<Rightarrow> string \<Rightarrow> ('s, unit) act" where
  "record_proven model effort = update (\<lambda>s. s\<lparr>st_eff := (st_eff s)
     \<lparr>ef_model := Some model, ef_effort := Some effort, ef_snapshots := snapshots (dr_machine (st_driver s))\<rparr>\<rparr>)"

definition record_configuration :: "run_args \<Rightarrow> start_io \<Rightarrow> string \<times> string \<Rightarrow> ('s, unit) act" where
  "record_configuration a i pair =
     chain (write_config_marker a (so_proven i) Config_Proven) (\<lambda>_.
     chain (record_proven (fst pair) (snd pair)) (\<lambda>_.
     chain (commit_effective a (so_commit i) (fst pair) (snd pair)) (\<lambda>_.
     chain (write_effective i) (\<lambda>_.
     write_running a i))))"

definition startup_sequence :: "run_args \<Rightarrow> start_io \<Rightarrow> 's acp_agent \<Rightarrow> start_plan \<Rightarrow> ('s, unit) act" where
  "startup_sequence a i ag plan =
     chain (on_wire_failure (open_and_configure a i ag plan) (wire_failure a i ag)) (record_configuration a i)"

section \<open>Dispatch\<close>

definition driver_failed :: "start_io \<Rightarrow> 's start_state \<Rightarrow> 's start_state" where
  "driver_failed i s =
     (if so_child_exited i then s\<lparr>st_ctx := (st_ctx s)\<lparr>fc_child_exit := True\<rparr>\<rparr>
      else s\<lparr>st_ctx := (st_ctx s)\<lparr>fc_interrupted := True\<rparr>\<rparr>)"

definition usage_value :: "pydict option \<Rightarrow> pyval" where
  "usage_value u = dict_value u"

text \<open>The bridge's flags are read when the run is finalized, however the prompt ended.\<close>

definition note_violations :: "'s acp_agent \<Rightarrow> 's start_state \<Rightarrow> 's start_state" where
  "note_violations ag s =
     (let (turn, grant) = ag_violations ag (dr_agent (st_driver s))
      in s\<lparr>st_ctx := (st_ctx s)\<lparr>fc_turn_failed := turn, fc_grant_violation := grant\<rparr>\<rparr>)"

definition prompt_answered :: "run_args \<Rightarrow> start_io \<Rightarrow> 's acp_agent \<Rightarrow> prompt_answer \<Rightarrow> ('s, unit) act" where
  "prompt_answered a i ag answer s0 =
     (let s = note_violations ag s0 in
      case answer of
       Prompt_Timed_Out \<Rightarrow> give () (s\<lparr>st_ctx := (st_ctx s)\<lparr>fc_timed_out := True, fc_escalated_kill := True\<rparr>\<rparr>)
     | Prompt_Cancelled \<Rightarrow> stop (Interrupted Task_Cancelled) s
     | Prompt_Raised \<Rightarrow> give () (driver_failed i s)
     | Prompt_Returned reason u \<Rightarrow>
         if \<not> ag_identity_ok ag (dr_agent (st_driver s)) then give () (driver_failed i s)
         else (let s1 = s\<lparr>st_ctx := (st_ctx s)\<lparr>fc_stop_reason := Some reason, fc_usage := usage_value (sanitize_usage (rn_float a) u)\<rparr>\<rparr>
               in if fc_turn_failed (st_ctx s1) \<or> fc_grant_violation (st_ctx s1) then give () s1
                  else emit i [(''type'', PStr ''run_completed''), (''stop_reason'', PStr reason)] s1))"

text \<open>The frame hook runs inside the SDK's observer; an exception of it is the SDK's to report.\<close>

definition prompt_once :: "run_args \<Rightarrow> start_io \<Rightarrow> 's acp_agent \<Rightarrow> ('s, unit) act" where
  "prompt_once a i ag s =
     (case require_ready (dr_machine (st_driver s)) of
       Inl _ \<Rightarrow> stop Other_Exception s
     | Inr _ \<Rightarrow>
         if \<not> ag_identity_ok ag (dr_agent (st_driver s)) then give () (driver_failed i s)
         else chain (on_wire Prompted) (\<lambda>_ s.
           case ag_prompt ag (dr_agent (st_driver s)) of
             (x, written, answer) \<Rightarrow>
               chain (if written then write_config_marker a (so_accept i) Prompt_Accepted else give ())
                 (\<lambda>_. prompt_answered a i ag answer) (with_agent x s)) s)"

definition dispatch :: "run_args \<Rightarrow> start_io \<Rightarrow> 's acp_agent \<Rightarrow> ('s, unit) act" where
  "dispatch a i ag s =
     (if fc_pipeline_error (st_ctx s) \<or> \<not> so_can_accept i then stop (Pre_Dispatch ''EVIDENCE_PIPELINE'') s
     else chain (write_marker a (so_dispatch i) Dispatch_Started) (\<lambda>_.
          chain (update (\<lambda>s. s\<lparr>st_ctx := (st_ctx s)\<lparr>fc_dispatch_started := True\<rparr>\<rparr>)) (\<lambda>_.
          chain (submit_event i (type_event ''session_prompt_sent'')) (\<lambda>taken.
            if \<not> taken then give () else (\<lambda>s. if fc_pipeline_error (st_ctx s) then give () s else prompt_once a i ag s)))) s)"

section \<open>The drive\<close>

definition no_ctx :: fin_ctx where
  "no_ctx =
     \<lparr>fc_session = None, fc_pending_creation = False, fc_lock = None, fc_dispatch_started = False, fc_stop_reason = None,
      fc_usage = PNone, fc_cancelled = False, fc_timed_out = False, fc_escalated_kill = False, fc_child_exit = False,
      fc_interrupted = False, fc_pre_dispatch = None, fc_pipeline_error = False, fc_error = False,
      fc_rollback_unproven = False, fc_turn_failed = False, fc_grant_violation = False, fc_signal = None,
      fc_message = new_accumulator (64 * 1024), fc_last_seq = 0\<rparr>"

definition bound_ctx :: "run_args \<Rightarrow> string option \<Rightarrow> fin_ctx" where
  "bound_ctx a lock =
     (case rn_session a of
        Some sid \<Rightarrow> no_ctx\<lparr>fc_session := Some sid, fc_lock := lock\<rparr>
      | None \<Rightarrow> no_ctx\<lparr>fc_session := Some (rn_prospective a), fc_pending_creation := True\<rparr>)"

definition started_run :: "run_args \<Rightarrow> bound \<Rightarrow> fin_ctx \<Rightarrow> machine \<Rightarrow> 's \<Rightarrow> world \<Rightarrow> 's start_state" where
  "started_run a b c m x w =
     \<lparr>st_ctx = c, st_world = w, st_evidence = Absent, st_effective = Absent, st_wire = [(Spawned, w)], st_events = [],
      st_emits = 0, st_markers = 0, st_pipeline = None,
      st_driver = \<lparr>dr_machine = m, dr_agent = x, dr_wire = [], dr_announced = False\<rparr>,
      st_eff = no_effective\<lparr>ef_process := Some (rn_child a), ef_command := Some (ae_command (rn_entry a)), ef_argv := rn_argv a\<rparr>,
      st_pair = bd_pair b, st_previous = bd_previous b, st_held = None\<rparr>"

text \<open>What a drive leaves: it ended before the wire was set up, or with a started run.\<close>

datatype 's driven = Not_Started fin_ctx world start_exc | Driven "'s start_state" "start_exc + unit"

definition from_timeout :: "start_exc + unit \<Rightarrow> start_exc + unit" where
  "from_timeout r = (if r = Inl (Interrupted Startup_Timeout) then Inl (Pre_Dispatch ''STARTUP_TIMEOUT'') else r)"

definition sequence_and_dispatch :: "run_args \<Rightarrow> start_io \<Rightarrow> 's acp_agent \<Rightarrow> start_plan \<Rightarrow> 's start_state \<Rightarrow> 's start_state \<times> (start_exc + unit)" where
  "sequence_and_dispatch a i ag plan s =
     (case startup_sequence a i ag plan s of
        (s1, Inl e) \<Rightarrow> (s1, from_timeout (Inl e))
      | (s1, Inr _) \<Rightarrow> dispatch a i ag s1)"

definition record_spawned :: "run_args \<Rightarrow> start_io \<Rightarrow> string option \<Rightarrow> store \<Rightarrow> store \<times> (session_error + unit)" where
  "record_spawned a i lock st =
     (case (lock, rn_session a) of
        (Some token, Some sid) \<Rightarrow> record_child a i sid token st
      | _ \<Rightarrow> (st, Inr ()))"

definition drive :: "run_args \<Rightarrow> start_io \<Rightarrow> 's acp_agent \<Rightarrow> 's \<Rightarrow> world \<Rightarrow> 's driven" where
  "drive a i ag x w =
     (case bind_session a i (wo_store w) of
        (st1, lock, Inl e) \<Rightarrow> Not_Started (bound_ctx a lock) (w\<lparr>wo_store := st1\<rparr>) e
      | (st1, lock, Inr b) \<Rightarrow>
          (let c = bound_ctx a lock in
           case so_spawn i of
             Some code \<Rightarrow> Not_Started c (w\<lparr>wo_store := st1\<rparr>) (Pre_Dispatch code)
           | None \<Rightarrow>
               (case record_spawned a i lock st1 of
                  (st2, Inl e) \<Rightarrow> Not_Started c (w\<lparr>wo_store := st2\<rparr>) Other_Exception
                | (st2, Inr _) \<Rightarrow>
                    (case run_machine a (rn_model a) (rn_effort a) of
                       None \<Rightarrow> Not_Started c (w\<lparr>wo_store := st2\<rparr>) Other_Exception
                     | Some (Inl _) \<Rightarrow> Not_Started c (w\<lparr>wo_store := st2\<rparr>) (Pre_Dispatch ''CONFIG_FIDELITY'')
                     | Some (Inr m) \<Rightarrow>
                         (case sequence_and_dispatch a i ag (bd_plan b) (started_run a b c m x (w\<lparr>wo_store := st2\<rparr>)) of
                            (s, r) \<Rightarrow> Driven s r)))))"

text \<open>\<^verbatim>\<open>run\<close>'s handlers: how an exception of the drive reaches the context that is finalized.\<close>

definition absorb :: "fin_ctx \<Rightarrow> start_exc + unit \<Rightarrow> fin_ctx" where
  "absorb c r =
     (let open = (fc_dispatch_started c \<and> fc_stop_reason c = None) in
      case r of
        Inr _ \<Rightarrow> c
      | Inl (Pre_Dispatch code) \<Rightarrow> c\<lparr>fc_pre_dispatch := Some code\<rparr>
      | Inl (Interrupted _) \<Rightarrow> c\<lparr>fc_cancelled := True, fc_escalated_kill := (open \<or> fc_escalated_kill c)\<rparr>
      | Inl _ \<Rightarrow> c\<lparr>fc_error := True, fc_interrupted := (open \<or> fc_interrupted c)\<rparr>)"

fun driven_ctx :: "'s driven \<Rightarrow> fin_ctx" where
  "driven_ctx (Not_Started c w e) = absorb c (Inl e)"
| "driven_ctx (Driven s r) = absorb (st_ctx s) r"

fun driven_world :: "'s driven \<Rightarrow> world" where
  "driven_world (Not_Started c w e) = w"
| "driven_world (Driven s r) = st_world s"

fun driven_wire :: "'s driven \<Rightarrow> (wire_act \<times> world) list" where
  "driven_wire (Not_Started c w e) = []"
| "driven_wire (Driven s r) = st_wire s"

definition run_task :: "run_args \<Rightarrow> start_io \<Rightarrow> fin_io \<Rightarrow> fin_io \<Rightarrow> fin_env \<Rightarrow> 's acp_agent \<Rightarrow> 's \<Rightarrow> world \<Rightarrow> world \<times> run_answer" where
  "run_task a i fi fj e ag x w =
     (let d = drive a i ag x w in finalize fi fj e (driven_ctx d) (driven_world d))"

end
