(* ===== verification/Run_Start_Spec.thy ===== *)
theory Run_Start_Spec
  imports Run_Start
begin

text \<open>
  Reasoning about the drive: what an action keeps however it ends (\<open>stays\<close>), what holds when it returns
  (\<open>yields\<close>), and with them the frames on the wire, the lease, the recorded configuration and the dispatch.
\<close>

section \<open>Invariants of actions\<close>

text \<open>An action keeps a property of the state, however it ends.\<close>

definition stays :: "('s start_state \<Rightarrow> bool) \<Rightarrow> ('s, 'a) act \<Rightarrow> bool" where
  "stays I m \<longleftrightarrow> (\<forall>s. I s \<longrightarrow> I (fst (m s)))"

named_theorems stays_intros

lemma staysD: "stays I m \<Longrightarrow> I s \<Longrightarrow> I (fst (m s))"
  by (simp add: stays_def)

lemma ended_state [simp]: "fst (give x s) = s" "fst (stop e s) = s"
  by (simp_all add: give_def stop_def)

lemma stays_give [stays_intros]: "stays I (give x)" and stays_stop [stays_intros]: "stays I (stop e)"
  by (simp_all add: stays_def give_def stop_def)

lemma stays_chain [stays_intros]: "stays I m \<Longrightarrow> (\<And>x. stays I (g x)) \<Longrightarrow> stays I (chain m g)"
  unfolding stays_def chain_def by (simp split: prod.splits sum.splits) (metis fst_conv)

lemma stays_update: "(\<And>s. I s \<Longrightarrow> I (h s)) \<Longrightarrow> stays I (update h)"
  by (simp add: stays_def update_def)

lemma stays_if [stays_intros]: "stays I m \<Longrightarrow> stays I m' \<Longrightarrow> stays I (if b then m else m')"
  by simp

lemma stays_if_state [stays_intros]: "stays I m \<Longrightarrow> stays I m' \<Longrightarrow> stays I (\<lambda>s. if b s then m s else m' s)"
  by (simp add: stays_def)

text \<open>The actions that choose by the state, as functions of it.\<close>

lemma announce_switch_fun:
  "announce_switch a i = (\<lambda>s. if dr_announced (st_driver s) then give () s else write_config_marker a (so_switch i) Switch_Begun s)"
  by (rule ext) (simp add: announce_switch_def)

lemma wire_failure_fun:
  "wire_failure a i ag = (\<lambda>s. if \<not> ag_identity_ok ag (dr_agent (st_driver s)) then stop (Pre_Dispatch ''SILENT_SESSION_RECREATION'') s
     else chain (\<lambda>s. if partial_switch s then rollback_after_partial_switch a i ag s else give () s)
            (\<lambda>_. stop (Pre_Dispatch ''CONFIG_FIDELITY'')) s)"
  by (rule ext) (simp add: wire_failure_def)

lemma dispatch_fun:
  "dispatch a i ag = (\<lambda>s.
     if fc_pipeline_error (st_ctx s) \<or> \<not> so_can_accept i then stop (Pre_Dispatch ''EVIDENCE_PIPELINE'') s
     else chain (write_marker a (so_dispatch i) Dispatch_Started) (\<lambda>_.
          chain (update (\<lambda>s. s\<lparr>st_ctx := (st_ctx s)\<lparr>fc_dispatch_started := True\<rparr>\<rparr>)) (\<lambda>_.
          chain (submit_event i (type_event ''session_prompt_sent'')) (\<lambda>taken.
            if \<not> taken then give () else (\<lambda>s. if fc_pipeline_error (st_ctx s) then give () s else prompt_once a i ag s)))) s)"
  by (rule ext) (simp add: dispatch_def)

lemma stays_unless [stays_intros]: "stays I m \<Longrightarrow> stays I h \<Longrightarrow> stays I (unless_exception m h)"
  unfolding stays_def unless_exception_def by (auto split: prod.splits sum.splits start_exc.splits)

lemma stays_on_wire_failure [stays_intros]: "stays I m \<Longrightarrow> stays I h \<Longrightarrow> stays I (on_wire_failure m h)"
  unfolding stays_def on_wire_failure_def by (auto split: prod.splits sum.splits start_exc.splits)

section \<open>Each store operation touches one session\<close>

lemma commit_fields_elsewhere [simp]: "sid' \<noteq> sid \<Longrightarrow> fst (commit_fields w sid ch st) sid' = st sid'"
  by (auto simp: commit_fields_def Let_def split: sum.splits)

lemma commit_elsewhere [simp]:
  "sid' \<noteq> sid \<Longrightarrow> fst (commit_last_effective w sid m f t st) sid' = st sid'"
  "sid' \<noteq> sid \<Longrightarrow> fst (commit_observation a w sid ob st) sid' = st sid'"
  by (simp_all add: commit_last_effective_def commit_observation_def commit_last_observation_def)

lemma create_elsewhere [simp]:
  "sid' \<noteq> ca_session_id c \<Longrightarrow> fst (create_native_session w t c st) sid' = st sid'"
  by (auto simp: create_native_session_def Let_def split: sum.splits bool.splits)

lemma acquire_elsewhere [simp]:
  "sid' \<noteq> sid \<Longrightarrow> fst (acquire_lock f g p u w tok sid aq st) sid' = st sid'"
  by (auto simp: acquire_lock_def Let_def split: sum.splits pyval.splits)

lemma holder_elsewhere [simp]:
  "sid' \<noteq> sid \<Longrightarrow> fst (record_child a i sid tok st) sid' = st sid'"
  by (auto simp: record_child_def update_lock_holder_def Let_def split: sum.splits)

lemma lease_elsewhere [simp]: "sid' \<noteq> sid \<Longrightarrow> fst (acquire_lease a i sid b st) sid' = st sid'"
  using acquire_elsewhere [of sid' sid "rn_isofmt a" "rn_isoparse a" "rn_probe a" "so_unlink i" "so_lock i" "rn_token a" "lease_args a" st]
    holder_elsewhere [of sid' sid a i]
  by (auto simp: acquire_lease_def split: prod.splits sum.splits simp del: acquire_elsewhere holder_elsewhere) (metis fst_conv)+

section \<open>What holds until the dispatch\<close>

text \<open>
  Only allowed frames on the wire, one fixed session, no other session touched, and neither the dispatch marker nor the
  result file of the run changed.
\<close>

definition tame :: "(wire_act \<Rightarrow> bool) \<Rightarrow> string \<Rightarrow> world \<Rightarrow> 's start_state \<Rightarrow> bool" where
  "tame K sid w s \<longleftrightarrow>
     list_all (\<lambda>p. K (fst p)) (st_wire s) \<and> fc_session (st_ctx s) = Some sid \<and> \<not> fc_dispatch_started (st_ctx s) \<and>
     fc_stop_reason (st_ctx s) = None \<and> (\<forall>sid'. sid' \<noteq> sid \<longrightarrow> wo_store (st_world s) sid' = wo_store w sid') \<and>
     dispatch_started (wo_run (st_world s)) = dispatch_started (wo_run w) \<and>
     result_json (wo_run (st_world s)) = result_json (wo_run w)"

lemma tame_submit [stays_intros]: "stays (tame K sid w) (submit_event i ev)"
  by (auto simp: stays_def submit_event_def note_pipeline_def tame_def Let_def split: option.splits)

lemma tame_emit [stays_intros]: "stays (tame K sid w) (emit i ev)"
  unfolding emit_def by (intro stays_intros)

lemma tame_emit_all [stays_intros]: "stays (tame K sid w) (emit_all i evs)"
  by (induction evs) (auto intro: stays_intros)

lemma tame_on_wire: "K x \<Longrightarrow> stays (tame K sid w) (on_wire x)"
  by (simp add: stays_def on_wire_def update_def tame_def)

lemma tame_in_store:
  "(\<And>st sid'. sid' \<noteq> sid \<Longrightarrow> fst (f st) sid' = st sid') \<Longrightarrow> stays (tame K sid w) (in_store f)"
  by (auto simp: stays_def in_store_def tame_def split: prod.splits) (metis fst_conv)

lemma tame_config_marker:
  "k \<noteq> Dispatch_Started \<Longrightarrow> stays (tame K sid w) (write_config_marker a io k)"
  by (cases k) (auto simp: stays_def write_config_marker_def write_marker_def tame_def Let_def split: prod.splits)

lemma tame_artifacts [stays_intros]:
  "stays (tame K sid w) (write_evidence i p)" "stays (tame K sid w) (write_effective i)"
  "stays (tame K sid w) (write_running a i)"
  by (auto simp: stays_def write_evidence_def write_effective_def write_running_def tame_def Let_def split: prod.splits)

lemma tame_updates [stays_intros]:
  "stays (tame K sid w) (record_summary su)" "stays (tame K sid w) (agent_session ext)"
  "stays (tame K sid w) (record_proven m f)" "stays (tame K sid w) (update (\<lambda>s. s\<lparr>st_held := h\<rparr>))"
  "stays (tame K sid w) (update (\<lambda>s. s\<lparr>st_ctx := (st_ctx s)\<lparr>fc_pending_creation := b\<rparr>\<rparr>))"
  "stays (tame K sid w) (update (\<lambda>s. s\<lparr>st_ctx := (st_ctx s)\<lparr>fc_rollback_unproven := b\<rparr>\<rparr>))"
  "stays (tame K sid w) (update (\<lambda>s. s\<lparr>st_driver := (st_driver s)\<lparr>dr_machine := mc\<rparr>\<rparr>))"
  by (auto simp: stays_def record_summary_def agent_session_def record_proven_def update_def tame_def)

lemma tame_with_agent [simp]: "tame K sid w (with_agent x s) = tame K sid w s"
  by (simp add: tame_def with_agent_def)

lemma tame_take_options [stays_intros]: "stays (tame K sid w) (take_options os)"
  by (auto simp: stays_def take_options_def tame_def split: prod.splits)

lemma tame_call [stays_intros]: "stays (tame K sid w) (call_agent ag f)"
  by (auto simp: stays_def call_agent_def stop_def give_def split: prod.splits option.splits)

lemma tame_check [stays_intros]: "stays (tame K sid w) (check_identity ag)"
  by (simp add: stays_def check_identity_def stop_def give_def)

lemma stays_prod [stays_intros]: "(\<And>x y. stays I (g x y)) \<Longrightarrow> stays I (case p of (x, y) \<Rightarrow> g x y)"
  by (cases p) simp

lemma tame_initialize: "K Initialized \<Longrightarrow> stays (tame K sid w) (driver_initialize ag)"
  unfolding driver_initialize_def by (intro stays_intros tame_on_wire)

lemma tame_new_session: "K New_Session \<Longrightarrow> stays (tame K sid w) (driver_new_session ag)"
  unfolding driver_new_session_def by (intro stays_intros tame_on_wire)

lemma tame_load_session: "K (Load_Session ext) \<Longrightarrow> stays (tame K sid w) (driver_load_session ag ext)"
  unfolding driver_load_session_def by (intro stays_intros tame_on_wire)

lemma tame_commit_pending [stays_intros]: "stays (tame K sid w) (commit_pending_observation a i)"
proof -
  have "stays (tame K sid w) (chain (in_store (commit_observation a (so_observe i) sid ob)) (\<lambda>_. update (\<lambda>s. s\<lparr>st_held := None\<rparr>)))"
    for ob by (intro stays_intros tame_in_store) simp
  then show ?thesis
    by (auto simp: stays_def commit_pending_observation_def give_def tame_def [of K sid w s for s] split: option.splits)
qed

lemma tame_observe: "stays (tame K sid w) (observe_initialize a i su)"
  unfolding stays_def observe_initialize_def Let_def
  by (intro allI impI) (intro staysD [where I = "tame K sid w"] stays_intros, simp_all split: option.splits, auto intro!: stays_intros)

lemma tame_lease: "stays (tame K sid w) (lease_started a i sid)"
  unfolding stays_def
proof (intro allI impI)
  fix s :: "'a start_state" assume "tame K sid w s"
  then show "tame K sid w (fst (lease_started a i sid s))"
    using lease_elsewhere [of _ sid a i True "wo_store (st_world s)"]
    by (cases "acquire_lease a i sid True (wo_store (st_world s))") (auto simp: lease_started_def tame_def)
qed

lemma tame_create_arm: "K New_Session \<Longrightarrow> stays (tame K sid w) (create_arm a i ag sid)"
  unfolding create_arm_def
  by (intro stays_intros tame_new_session tame_in_store tame_lease) (simp_all add: session_record_args_def)

lemma tame_load_arm: "K (Load_Session ext) \<Longrightarrow> stays (tame K sid w) (load_arm i ag su ext)"
  unfolding load_arm_def by (intro stays_intros tame_load_session)

lemma set_acts_all: "(\<And>j v. K (Set_Config j v)) \<Longrightarrow> list_all K (set_acts ws)"
  by (induction ws rule: set_acts.induct) simp_all

lemma tame_announce [stays_intros]: "stays (tame K sid w) (announce_switch a i)"
  using tame_config_marker [of Switch_Begun K sid w a "so_switch i"]
  by (auto simp: announce_switch_def stays_def give_def)

lemma tame_configure: "(\<And>j v. K (Set_Config j v)) \<Longrightarrow> stays (tame K sid w) (configure a i ag m)"
  unfolding configure_def
  by (intro stays_chain tame_announce)
    (auto simp: stays_def driver_configure_def tame_def list_all_iff Let_def
      dest: set_acts_all [of K, unfolded list_all_iff, rule_format, rotated]
      split: prod.splits sum.splits driver_error.splits option.splits)

lemma stays_sum [stays_intros]:
  "(\<And>x. stays I (f x)) \<Longrightarrow> (\<And>x. stays I (g x)) \<Longrightarrow> stays I (case r of Inl x \<Rightarrow> f x | Inr x \<Rightarrow> g x)"
  by (cases r) simp_all

lemma tame_configure_run: "(\<And>j v. K (Set_Config j v)) \<Longrightarrow> stays (tame K sid w) (configure_run a i ag)"
  unfolding stays_def configure_run_def
  by (intro allI impI) (intro staysD [where I = "tame K sid w"] stays_intros tame_configure, simp_all)

lemma tame_commit_effective [stays_intros]: "stays (tame K sid w) (commit_effective a io m f)"
proof -
  have "stays (tame K sid w) (chain (in_store (commit_last_effective io sid m f (rn_moment a))) (\<lambda>_. give ()))"
    by (intro stays_intros tame_in_store) simp
  then show ?thesis by (auto simp: stays_def commit_effective_def tame_def [of K sid w s for s] split: option.splits)
qed

lemma tame_unproven [stays_intros]: "stays (tame K sid w) (mark_unproven i)"
  unfolding mark_unproven_def by (intro stays_intros)

lemma tame_rollback_sequence:
  assumes K: "\<And>j v. K (Set_Config j v)"
  shows "stays (tame K sid w) (rollback_sequence a i ag m f)"
proof -
  have "stays (tame K sid w) (chain (configure a i ag m1) (\<lambda>(m2, out).
      case out of Inl _ \<Rightarrow> stop Wire_Failure
      | Inr _ \<Rightarrow> chain (commit_effective a (so_rb_commit i) m f) (\<lambda>_.
          chain (write_config_marker a (so_rb_marker i) Rollback_Proven) (\<lambda>_. emit i (type_event ''config_rollback_proven'')))))"
    for m1 by (intro stays_intros tame_configure tame_config_marker K) simp
  then show ?thesis
    by (auto simp: rollback_sequence_def stays_def stop_def split: option.splits sum.splits prod.splits)
qed

lemma tame_rollback: "(\<And>j v. K (Set_Config j v)) \<Longrightarrow> stays (tame K sid w) (rollback_after_partial_switch a i ag)"
  unfolding rollback_after_partial_switch_def
  using tame_unproven [of K sid w i] stays_unless [OF tame_rollback_sequence tame_unproven, of K sid w a i ag]
  by (intro stays_chain tame_emit) (auto simp: stays_def split: prod.splits pyval.splits)

lemma tame_wire_failure: "(\<And>j v. K (Set_Config j v)) \<Longrightarrow> stays (tame K sid w) (wire_failure a i ag)"
  unfolding wire_failure_fun by (intro stays_intros tame_rollback)

text \<open>The session and the frames a plan allows.\<close>

fun plan_session :: "start_plan \<Rightarrow> string" where
  "plan_session (CreateSessionPlan sid) = sid"
| "plan_session (LoadSessionPlan sid external) = sid"

fun plan_frame :: "start_plan \<Rightarrow> wire_act" where
  "plan_frame (CreateSessionPlan sid) = New_Session"
| "plan_frame (LoadSessionPlan sid external) = Load_Session external"

definition plan_frames :: "start_plan \<Rightarrow> wire_act \<Rightarrow> bool" where
  "plan_frames plan x \<longleftrightarrow> x \<in> {Spawned, Initialized, plan_frame plan} \<or> (\<exists>j v. x = Set_Config j v)"

lemma stays_plan [stays_intros]:
  "(\<And>sid. stays I (f sid)) \<Longrightarrow> (\<And>sid ext. stays I (g sid ext)) \<Longrightarrow>
   stays I (case plan of CreateSessionPlan sid \<Rightarrow> f sid | LoadSessionPlan sid ext \<Rightarrow> g sid ext)"
  by (cases plan) simp_all

lemma tame_open_and_configure:
  "stays (tame (plan_frames plan) (plan_session plan) w) (open_and_configure a i ag plan)"
proof (cases plan)
  case (CreateSessionPlan sid)
  show ?thesis unfolding open_and_configure_def CreateSessionPlan start_plan.case plan_session.simps
    by (intro stays_intros tame_initialize tame_observe tame_create_arm tame_configure_run) (simp_all add: plan_frames_def)
next
  case (LoadSessionPlan sid ext)
  show ?thesis unfolding open_and_configure_def LoadSessionPlan start_plan.case plan_session.simps
    by (intro stays_intros tame_initialize tame_observe tame_load_arm tame_configure_run) (simp_all add: plan_frames_def)
qed

lemma tame_startup:
  "stays (tame (plan_frames plan) (plan_session plan) w) (startup_sequence a i ag plan)"
  unfolding startup_sequence_def record_configuration_def
  by (intro stays_intros tame_open_and_configure tame_wire_failure tame_config_marker) (simp_all add: plan_frames_def)

section \<open>The way to a prompt\<close>

text \<open>What holds when an action returns.\<close>

definition yields :: "('s start_state \<Rightarrow> bool) \<Rightarrow> ('s, 'a) act \<Rightarrow> ('a \<Rightarrow> 's start_state \<Rightarrow> bool) \<Rightarrow> bool" where
  "yields P m Q \<longleftrightarrow> (\<forall>s s' x. P s \<longrightarrow> m s = (s', Inr x) \<longrightarrow> Q x s')"

lemma yieldsD: "yields P m Q \<Longrightarrow> P s \<Longrightarrow> m s = (s', Inr x) \<Longrightarrow> Q x s'"
  by (auto simp: yields_def)

lemma yields_stays: "stays I m \<Longrightarrow> yields I m (\<lambda>_. I)"
  unfolding yields_def stays_def by (metis fst_conv)

lemma yields_chain: "yields P m Q \<Longrightarrow> (\<And>x. yields (Q x) (g x) R) \<Longrightarrow> yields P (chain m g) R"
  unfolding yields_def chain_def by (fastforce split: prod.splits sum.splits)

lemma yields_give: "(\<And>s. P s \<Longrightarrow> Q x s) \<Longrightarrow> yields P (give x) Q"
  by (simp add: yields_def give_def)

lemma yields_stop: "yields P (stop e) Q"
  by (simp add: yields_def stop_def)

lemma yields_frame: "stays I m \<Longrightarrow> yields P m Q \<Longrightarrow> yields (\<lambda>s. P s \<and> I s) m (\<lambda>x s. Q x s \<and> I s)"
  unfolding yields_def stays_def by (metis fst_conv)

lemma yields_pre: "yields P' m Q \<Longrightarrow> (\<And>s. P s \<Longrightarrow> P' s) \<Longrightarrow> yields P m Q"
  by (auto simp: yields_def)

lemma yields_post: "yields P m Q' \<Longrightarrow> (\<And>x s. Q' x s \<Longrightarrow> Q x s) \<Longrightarrow> yields P m Q"
  by (auto simp: yields_def)

text \<open>The frames so far, the driver apart from its agent, and the flag of a failed rollback.\<close>

type_synonym core_view = "wire_act list \<times> machine \<times> wire_event list \<times> bool \<times> bool"

definition core :: "'s start_state \<Rightarrow> core_view" where
  "core s = (map fst (st_wire s), dr_machine (st_driver s), dr_wire (st_driver s), dr_announced (st_driver s),
     fc_rollback_unproven (st_ctx s))"

named_theorems core_intros

lemma core_submit [core_intros]: "stays (\<lambda>s. core s = c) (submit_event i ev)"
  by (auto simp: stays_def submit_event_def note_pipeline_def core_def Let_def split: option.splits)

lemma core_emit [core_intros]: "stays (\<lambda>s. core s = c) (emit i ev)"
  unfolding emit_def by (intro stays_intros core_intros)

lemma core_emit_all [core_intros]: "stays (\<lambda>s. core s = c) (emit_all i evs)"
  by (induction evs) (auto intro: stays_intros core_intros)

lemma core_in_store [core_intros]: "stays (\<lambda>s. core s = c) (in_store f)"
  by (auto simp: stays_def in_store_def core_def split: prod.splits)

lemma core_config_marker [core_intros]: "stays (\<lambda>s. core s = c) (write_config_marker a io k)"
  by (auto simp: stays_def write_config_marker_def write_marker_def core_def Let_def split: prod.splits)

lemma core_artifacts [core_intros]:
  "stays (\<lambda>s. core s = c) (write_evidence i p)" "stays (\<lambda>s. core s = c) (write_effective i)"
  "stays (\<lambda>s. core s = c) (write_running a i)"
  by (auto simp: stays_def write_evidence_def write_effective_def write_running_def core_def Let_def split: prod.splits)

lemma core_updates [core_intros]:
  "stays (\<lambda>s. core s = c) (record_summary su)" "stays (\<lambda>s. core s = c) (agent_session ext)"
  "stays (\<lambda>s. core s = c) (record_proven m f)" "stays (\<lambda>s. core s = c) (update (\<lambda>s. s\<lparr>st_held := h\<rparr>))"
  "stays (\<lambda>s. core s = c) (update (\<lambda>s. s\<lparr>st_ctx := (st_ctx s)\<lparr>fc_pending_creation := b\<rparr>\<rparr>))"
  by (auto simp: stays_def record_summary_def agent_session_def record_proven_def update_def core_def)

lemma core_call [core_intros]: "stays (\<lambda>s. core s = c) (call_agent ag f)"
  by (auto simp: stays_def call_agent_def stop_def give_def core_def with_agent_def split: prod.splits option.splits)

lemma core_check [core_intros]: "stays (\<lambda>s. core s = c) (check_identity ag)"
  by (simp add: stays_def check_identity_def stop_def give_def)

lemma core_lease [core_intros]: "stays (\<lambda>s. core s = c) (lease_started a i sid)"
  by (auto simp: stays_def lease_started_def core_def split: prod.splits)

lemma core_commit_pending [core_intros]: "stays (\<lambda>s. core s = c) (commit_pending_observation a i)"
proof -
  have "stays (\<lambda>s. core s = c) (chain (in_store (commit_observation a (so_observe i) sid ob)) (\<lambda>_. update (\<lambda>s. s\<lparr>st_held := None\<rparr>)))"
    for sid ob by (intro stays_intros core_intros)
  then show ?thesis by (auto simp: stays_def commit_pending_observation_def give_def split: option.splits)
qed

lemma core_commit_effective [core_intros]: "stays (\<lambda>s. core s = c) (commit_effective a io m f)"
proof -
  have "stays (\<lambda>s. core s = c) (chain (in_store (commit_last_effective io sid m f (rn_moment a))) (\<lambda>_. give ()))"
    for sid by (intro stays_intros core_intros)
  then show ?thesis by (auto simp: stays_def commit_effective_def stop_def split: option.splits)
qed

lemma core_observe [core_intros]: "stays (\<lambda>s. core s = c) (observe_initialize a i su)"
  unfolding stays_def observe_initialize_def Let_def
  by (intro allI impI) (intro staysD [where I = "\<lambda>s. core s = c"] stays_intros core_intros, simp_all split: option.splits,
      auto intro!: stays_intros core_intros)

text \<open>The frames and the machine move at four places.\<close>

lemma yields_on_wire: "yields (\<lambda>s. core s = (acts, m, ws, b)) (on_wire x) (\<lambda>_ s. core s = (acts @ [x], m, ws, b))"
  by (auto simp: yields_def on_wire_def update_def core_def)

lemma yields_take_options:
  "yields (\<lambda>s. core s = (acts, m, ws, b)) (take_options os)
     (\<lambda>_ s. \<exists>m1. record_initial_options os m = (m1, Inr ()) \<and> core s = (acts, m1, ws, b))"
  by (auto simp: yields_def take_options_def core_def split: prod.splits sum.splits)

lemma stays_core: "(\<And>c. stays (\<lambda>s. core s = c) m) \<Longrightarrow> stays (\<lambda>s. P (core s)) m"
  by (simp add: stays_def)

definition opened_core :: "wire_act list \<Rightarrow> machine \<Rightarrow> core_view \<Rightarrow> bool" where
  "opened_core acts m0 c \<longleftrightarrow> (\<exists>os m1. record_initial_options os m0 = (m1, Inr ()) \<and> c = (acts, m1, [], False, False))"

lemma yields_core: "(\<And>c. stays (\<lambda>s. core s = c) m) \<Longrightarrow> yields (\<lambda>s. P (core s)) m (\<lambda>_ s. P (core s))"
  by (rule yields_stays) (rule stays_core)

lemma yields_options:
  "yields (\<lambda>s. core s = (acts, m0, [], False, False)) (take_options os) (\<lambda>_ s. opened_core acts m0 (core s))"
  by (rule yields_post [OF yields_take_options]) (auto simp: opened_core_def)

lemma yields_prod: "(\<And>x y. yields P (g x y) Q) \<Longrightarrow> yields P (case p of (x, y) \<Rightarrow> g x y) Q"
  by (cases p) simp

lemma yields_new_session:
  "yields (\<lambda>s. core s = (acts, m0, [], False, False)) (driver_new_session ag) (\<lambda>_ s. opened_core (acts @ [New_Session]) m0 (core s))"
  unfolding driver_new_session_def
  by (rule yields_chain [OF yields_on_wire], rule yields_chain [OF yields_stays [OF core_call]], rule yields_prod,
      rule yields_chain [OF yields_options], rule yields_give)

lemma yields_load_session:
  "yields (\<lambda>s. core s = (acts, m0, [], False, False)) (driver_load_session ag ext)
     (\<lambda>_ s. opened_core (acts @ [Load_Session ext]) m0 (core s))"
  unfolding driver_load_session_def
  by (rule yields_chain [OF yields_on_wire], rule yields_chain [OF yields_stays [OF core_call]],
      rule yields_chain [OF yields_options], rule yields_core [OF core_check])

lemma yields_create_arm:
  "yields (\<lambda>s. core s = (acts, m0, [], False, False)) (create_arm a i ag sid) (\<lambda>_ s. opened_core (acts @ [New_Session]) m0 (core s))"
  unfolding create_arm_def
  by (rule yields_chain [OF yields_stays [OF core_emit]], rule yields_chain [OF yields_new_session], rule yields_core)
    (intro stays_intros core_intros)

lemma yields_load_arm:
  "yields (\<lambda>s. core s = (acts, m0, [], False, False)) (load_arm i ag su ext)
     (\<lambda>_ s. opened_core (acts @ [Load_Session ext]) m0 (core s))"
proof (cases "su_load_session su")
  case True
  show ?thesis unfolding load_arm_def using True
    by (simp, intro yields_chain [OF yields_stays [OF core_emit]] yields_chain [OF yields_load_session] yields_core core_intros)
qed (simp add: load_arm_def yields_stop)

definition configured :: "machine \<Rightarrow> machine \<Rightarrow> string \<times> string \<Rightarrow> bool" where
  "configured m1 m pair \<longleftrightarrow> runs m1 m \<and> require_ready m = Inr pair"

lemma set_acts_append: "set_acts (xs @ ys) = set_acts xs @ set_acts ys"
  by (induction xs rule: set_acts.induct) simp_all

lemma core_announce [core_intros]: "stays (\<lambda>s. core s = c) (announce_switch a i)"
  unfolding announce_switch_fun by (intro stays_intros core_intros)

lemma configure_returns:
  assumes "core s = (acts, m, [], False, False)" "configure a i ag m1 s = (s', Inr (m2, Inr pair))" "runs m1 m1"
    "pending_parameters m1 = requested_parameters m1"
  shows "map fst (st_wire s') = acts @ set_acts (planned_sets m1) \<and> configured m1 m2 pair"
proof -
  obtain t where ann: "announce_switch a i s = (t, Inr ())"
    by (cases "dr_announced (st_driver s)") (auto simp: announce_switch_def give_def write_config_marker_def)
  have core: "core t = (acts, m, [], False, False)"
    using staysD [OF core_announce, of s "(acts, m, [], False, False)" a i] assms(1) ann by simp
  obtain r out where run: "set_config_exact (ag_set_option ag) (ag_identity_ok ag) True True ((st_driver t)\<lparr>dr_machine := m1\<rparr>) = (r, out)"
    by (cases "set_config_exact (ag_set_option ag) (ag_identity_ok ag) True True ((st_driver t)\<lparr>dr_machine := m1\<rparr>)")
  have eq: "out = Inr pair" "m2 = dr_machine r"
    "st_wire s' = st_wire t @ map (\<lambda>x. (x, st_world t)) (set_acts (drop (length (dr_wire (st_driver t))) (dr_wire r)))"
    using assms(2) ann run
    by (auto simp: configure_def driver_configure_def chain_def Let_def give_def stop_def split: sum.splits driver_error.splits option.splits)
  have "runs m1 (dr_machine r) \<and> require_ready (dr_machine r) = Inr pair \<and> dr_wire r = [] @ Switch_Started # planned_sets m1"
    using set_config_wire [OF run [unfolded eq(1)], of m1] core assms(3,4) by (simp add: core_def)
  then show ?thesis using eq core by (simp add: configured_def core_def comp_def)
qed

definition to_prompt :: "start_plan \<Rightarrow> machine \<Rightarrow> string \<times> string \<Rightarrow> core_view \<Rightarrow> bool" where
  "to_prompt plan m0 pair c \<longleftrightarrow>
     (\<exists>os m1. record_initial_options os m0 = (m1, Inr ()) \<and>
        fst c = [Spawned, Initialized, plan_frame plan] @ set_acts (planned_sets m1) \<and> configured m1 (fst (snd c)) pair)"

lemma yields_configure_run:
  assumes new: "new_machine mode mid eid rm re pid pm = Inr m0"
  shows "yields (\<lambda>s. opened_core [Spawned, Initialized, plan_frame plan] m0 (core s)) (configure_run a i ag)
     (\<lambda>pair s. to_prompt plan m0 pair (core s))"
  unfolding yields_def
proof (intro allI impI)
  fix s s' pair
  assume "opened_core [Spawned, Initialized, plan_frame plan] m0 (core s)" and run: "configure_run a i ag s = (s', Inr pair)"
  then obtain os m1 where o: "record_initial_options os m0 = (m1, Inr ())"
      "core s = ([Spawned, Initialized, plan_frame plan], m1, [], False, False)" by (auto simp: opened_core_def)
  obtain t m2 where t: "configure a i ag m1 s = (t, Inr (m2, Inr pair))"
      "s' = t\<lparr>st_driver := (st_driver t)\<lparr>dr_machine := m2\<rparr>\<rparr>"
    using run o(2) by (auto simp: configure_run_def chain_def update_def give_def stop_def core_def split: prod.splits sum.splits)
  have "map fst (st_wire t) = [Spawned, Initialized, plan_frame plan] @ set_acts (planned_sets m1) \<and> configured m1 m2 pair"
    using configure_returns [OF o(2) t(1)] opened(1,4) [OF new o(1)] by simp
  then show "to_prompt plan m0 pair (core s')" using o(1) t(2) by (auto simp: to_prompt_def core_def)
qed

lemma yields_open_and_configure:
  assumes new: "new_machine mode mid eid rm re pid pm = Inr m0"
  shows "yields (\<lambda>s. core s = ([Spawned], m0, [], False, False)) (open_and_configure a i ag plan) (\<lambda>pair s. to_prompt plan m0 pair (core s))"
proof -
  have arm: "yields (\<lambda>s. core s = ([Spawned, Initialized], m0, [], False, False))
      (case plan of CreateSessionPlan sid \<Rightarrow> create_arm a i ag sid | LoadSessionPlan sid ext \<Rightarrow> load_arm i ag su ext)
      (\<lambda>_ s. opened_core [Spawned, Initialized, plan_frame plan] m0 (core s))" for su
    using yields_create_arm [of "[Spawned, Initialized]" m0 a i ag] yields_load_arm [of "[Spawned, Initialized]" m0 i ag su]
    by (cases plan) simp_all
  have init: "yields (\<lambda>s. core s = ([Spawned], m0, [], False, False)) (driver_initialize ag)
      (\<lambda>_ s. core s = ([Spawned, Initialized], m0, [], False, False))"
    unfolding driver_initialize_def
    using yields_chain [OF yields_on_wire yields_stays [OF core_call], of "[Spawned]" m0 "[]" "(False, False)" Initialized] by simp
  show ?thesis unfolding open_and_configure_def
    by (rule yields_chain [OF yields_stays [OF core_emit]], rule yields_chain, rule yields_stays, intro stays_intros,
        rule yields_chain [OF init], rule yields_chain, rule yields_stays, rule core_updates,
        rule yields_chain [OF yields_stays [OF core_observe]], rule yields_chain [OF arm], rule yields_configure_run [OF new])
qed

section \<open>The lease\<close>

definition lock_is :: "string \<Rightarrow> dentry \<Rightarrow> 's start_state \<Rightarrow> bool" where
  "lock_is sid l s \<longleftrightarrow> lock_json (wo_store (st_world s) sid) = l"

named_theorems lock_intros

lemma commit_lock [simp]:
  "lock_json (fst (commit_fields w sid' ch st) sid) = lock_json (st sid)"
  "lock_json (fst (commit_last_effective w sid' m f t st) sid) = lock_json (st sid)"
  "lock_json (fst (commit_observation a w sid' ob st) sid) = lock_json (st sid)"
  "lock_json (fst (create_native_session w t c st) sid) = lock_json (st sid)"
proof -
  show "lock_json (fst (commit_fields w sid' ch st) sid) = lock_json (st sid)" for ch
    by (auto simp: commit_fields_def require_session_dir_def Let_def split: sum.splits if_splits bool.splits)
  then show "lock_json (fst (commit_last_effective w sid' m f t st) sid) = lock_json (st sid)"
    "lock_json (fst (commit_observation a w sid' ob st) sid) = lock_json (st sid)"
    by (simp_all add: commit_last_effective_def commit_observation_def commit_last_observation_def)
  show "lock_json (fst (create_native_session w t c st) sid) = lock_json (st sid)"
    by (auto simp: create_native_session_def Let_def split: sum.splits bool.splits)
qed

lemma lock_quiet [lock_intros]:
  "stays (lock_is sid l) (submit_event i ev)" "stays (lock_is sid l) (write_config_marker a io k)"
  "stays (lock_is sid l) (write_evidence i p)" "stays (lock_is sid l) (write_effective i)"
  "stays (lock_is sid l) (write_running a i)" "stays (lock_is sid l) (record_summary su)"
  "stays (lock_is sid l) (agent_session ext)" "stays (lock_is sid l) (record_proven m f)"
  "stays (lock_is sid l) (update (\<lambda>s. s\<lparr>st_held := h\<rparr>))" "stays (lock_is sid l) (on_wire x)"
  "stays (lock_is sid l) (update (\<lambda>s. s\<lparr>st_ctx := (st_ctx s)\<lparr>fc_pending_creation := b\<rparr>\<rparr>))"
  "stays (lock_is sid l) (update (\<lambda>s. s\<lparr>st_driver := (st_driver s)\<lparr>dr_machine := mc\<rparr>\<rparr>))"
  "stays (lock_is sid l) (take_options os)" "stays (lock_is sid l) (call_agent ag g)" "stays (lock_is sid l) (check_identity ag)"
  by (auto simp: stays_def lock_is_def submit_event_def note_pipeline_def write_config_marker_def write_marker_def
      write_evidence_def write_effective_def write_running_def record_summary_def agent_session_def record_proven_def
      on_wire_def update_def take_options_def call_agent_def with_agent_def stop_def give_def check_identity_def Let_def
      split: prod.splits option.splits)

lemma lock_in_store: "(\<And>st. lock_json (fst (f st) sid) = lock_json (st sid)) \<Longrightarrow> stays (lock_is sid l) (in_store f)"
  by (auto simp: stays_def in_store_def lock_is_def split: prod.splits) (metis fst_conv)

lemma lock_emit [lock_intros]: "stays (lock_is sid l) (emit i ev)" "stays (lock_is sid l) (emit_all i evs)"
proof -
  show one: "stays (lock_is sid l) (emit i ev)" for ev
    unfolding emit_def by (intro stays_intros lock_intros)
  show "stays (lock_is sid l) (emit_all i evs)"
    by (induction evs) (auto intro: stays_intros one)
qed

lemma lock_commit_pending [lock_intros]: "stays (lock_is sid l) (commit_pending_observation a i)"
proof -
  have "stays (lock_is sid l) (chain (in_store (commit_observation a (so_observe i) sid' ob)) (\<lambda>_. update (\<lambda>s. s\<lparr>st_held := None\<rparr>)))"
    for sid' ob by (intro stays_intros lock_intros lock_in_store commit_lock)
  then show ?thesis by (auto simp: stays_def commit_pending_observation_def give_def split: option.splits)
qed

lemma lock_commit_effective [lock_intros]: "stays (lock_is sid l) (commit_effective a io m f)"
proof -
  have "stays (lock_is sid l) (chain (in_store (commit_last_effective io sid' m f (rn_moment a))) (\<lambda>_. give ()))"
    for sid' by (intro stays_intros lock_intros lock_in_store commit_lock)
  then show ?thesis by (auto simp: stays_def commit_effective_def stop_def split: option.splits)
qed

lemma lock_observe [lock_intros]: "stays (lock_is sid l) (observe_initialize a i su)"
  unfolding stays_def observe_initialize_def Let_def
  by (intro allI impI) (intro staysD [where I = "lock_is sid l"] stays_intros lock_intros, simp_all split: option.splits,
      auto intro!: stays_intros lock_intros)

lemma lock_configure [lock_intros]: "stays (lock_is sid l) (configure_run a i ag)"
proof -
  have "stays (lock_is sid l) (configure a i ag m)" for m
    unfolding configure_def announce_switch_fun
    by (intro stays_chain stays_if_state stays_give lock_intros)
      (auto simp: stays_def driver_configure_def lock_is_def Let_def split: prod.splits sum.splits driver_error.splits option.splits)
  then show ?thesis unfolding stays_def [of _ "configure_run a i ag"] configure_run_def
    by (intro allI impI) (intro staysD [where I = "lock_is sid l"] stays_intros lock_intros)
qed

definition lease_ours :: "run_args \<Rightarrow> string \<Rightarrow> dentry \<Rightarrow> bool" where
  "lease_ours a sid l \<longleftrightarrow> (\<exists>d. owned_lock (rn_token a) l = Inr d)"

lemma stays_lease_ours: "(\<And>l. stays (lock_is sid l) m) \<Longrightarrow> stays (\<lambda>s. lease_ours a sid (lock_json (wo_store (st_world s) sid))) m"
  by (simp add: stays_def lock_is_def)

lemma acquired_lock:
  "acquire_lock f g p u w tok sid aq st = (st', Inr l) \<Longrightarrow>
   lk_token l = tok \<and> (\<exists>d. lock_json (st' sid) = Doc (PDict d) \<and> dget d ''token'' = PStr tok)"
  by (cases w) (auto simp: acquire_lock_def lock_payload_def dget_def Let_def split: sum.splits pyval.splits if_splits)

lemma recorded_child:
  "record_child a i sid tok st = (st', Inr u) \<Longrightarrow> \<exists>d. owned_lock tok (lock_json (st' sid)) = Inr d"
  by (cases "so_holder i")
    (auto simp: record_child_def update_lock_holder_def owned_lock_def dget_def Let_def split: sum.splits pyval.splits if_splits bool.splits)

lemma acquired_lease:
  assumes "acquire_lease a i sid b st = (st', lock, Inr u)"
  shows "lease_ours a sid (lock_json (st' sid)) \<and> lock = Some (rn_token a)"
proof -
  obtain st1 l where l: "acquire_lock (rn_isofmt a) (rn_isoparse a) (rn_probe a) (so_unlink i) (so_lock i) (rn_token a) sid (lease_args a) st = (st1, Inr l)"
    "lock = Some (lk_token l)" "\<not> b \<and> st' = st1 \<or> record_child a i sid (lk_token l) st1 = (st', Inr u)"
    using assms by (auto simp: acquire_lease_def split: prod.splits sum.splits if_splits)
  then show ?thesis using acquired_lock [OF l(1)] recorded_child [of a i sid "lk_token l" st1 st' u]
    by (auto simp: lease_ours_def owned_lock_def)
qed

lemma yields_skip: "(\<And>x. yields (\<lambda>_. True) (g x) R) \<Longrightarrow> yields P (chain m g) R"
  unfolding yields_def chain_def by (fastforce split: prod.splits sum.splits)

abbreviation held :: "run_args \<Rightarrow> string \<Rightarrow> 's start_state \<Rightarrow> bool" where
  "held a sid s \<equiv> lease_ours a sid (lock_json (wo_store (st_world s) sid))"

lemma yields_lease: "yields P (lease_started a i sid) (\<lambda>_. held a sid)"
  unfolding yields_def lease_started_def using acquired_lease by (fastforce split: prod.splits sum.splits)

lemma create_arm_held: "yields P (create_arm a i ag sid) (\<lambda>_. held a sid)"
  unfolding create_arm_def
  by (intro yields_skip yields_chain [OF yields_lease] yields_stays stays_lease_ours lock_intros)

lemma load_arm_held: "stays (held a sid) (load_arm i ag su ext)"
  unfolding load_arm_def driver_load_session_def by (intro stays_lease_ours stays_intros lock_intros)

lemma open_held:
  assumes "\<And>sid ext. plan = LoadSessionPlan sid ext \<Longrightarrow> held a sid s"
    "open_and_configure a i ag plan s = (s', Inr pair)"
  shows "held a (plan_session plan) s'"
proof (cases plan)
  case (CreateSessionPlan sid)
  have "yields (\<lambda>_. True) (open_and_configure a i ag plan) (\<lambda>_. held a sid)"
    unfolding open_and_configure_def CreateSessionPlan start_plan.case
    by (intro yields_skip yields_chain [OF create_arm_held] yields_stays stays_lease_ours lock_intros)
  then show ?thesis using CreateSessionPlan assms(2) by (auto dest: yieldsD)
next
  case (LoadSessionPlan sid ext)
  have "stays (held a sid) (open_and_configure a i ag plan)"
    unfolding open_and_configure_def driver_initialize_def LoadSessionPlan start_plan.case
    by (intro stays_intros stays_lease_ours lock_intros load_arm_held)
  then show ?thesis using LoadSessionPlan assms staysD [of "held a sid" "open_and_configure a i ag plan" s] by simp
qed

section \<open>The recorded configuration\<close>

definition effective_shows :: "string \<times> string \<Rightarrow> dentry \<Rightarrow> bool" where
  "effective_shows pair l \<longleftrightarrow>
     (\<exists>d. l = Doc (PDict d) \<and> dget d ''effective_model'' = PStr (fst pair) \<and> dget d ''effective_effort'' = PStr (snd pair))"

definition eff_pair :: "string \<times> string \<Rightarrow> 's start_state \<Rightarrow> bool" where
  "eff_pair pair s \<longleftrightarrow> ef_model (st_eff s) = Some (fst pair) \<and> ef_effort (st_eff s) = Some (snd pair)"

lemma eff_in_store: "stays (eff_pair pair) (in_store f)"
  by (auto simp: stays_def in_store_def eff_pair_def split: prod.splits)

lemma eff_commit: "stays (eff_pair pair) (commit_effective a io m f)"
proof -
  have "stays (eff_pair pair) (chain (in_store (commit_last_effective io sid m f (rn_moment a))) (\<lambda>_. give ()))"
    for sid by (intro stays_intros eff_in_store)
  then show ?thesis by (auto simp: stays_def commit_effective_def stop_def split: option.splits)
qed

lemma once_ok: "write_once w old payload = (entry, Once_Ok) \<Longrightarrow> entry = Doc (PDict payload)"
  by (cases w; cases old) (auto simp: write_once_def)

lemma effective_written: "yields (eff_pair pair) (write_effective i) (\<lambda>_ s. effective_shows pair (st_effective s))"
  by (auto simp: yields_def write_effective_def eff_pair_def effective_shows_def effective_to_dict_def dget_def Let_def
      dest!: once_ok split: prod.splits if_splits)

lemma recorded_effective:
  "yields P (record_configuration a i pair) (\<lambda>_ s. effective_shows pair (st_effective s))"
proof -
  have proven: "yields (\<lambda>_. True) (record_proven (fst pair) (snd pair)) (\<lambda>_. eff_pair pair)"
    by (simp add: yields_def record_proven_def update_def eff_pair_def)
  have running: "stays (\<lambda>s. effective_shows pair (st_effective s)) (write_running a i)"
    by (simp add: stays_def write_running_def Let_def)
  show ?thesis unfolding record_configuration_def
    by (intro yields_skip yields_chain [OF proven] yields_chain [OF yields_stays [OF eff_commit]]
        yields_chain [OF effective_written] yields_stays [OF running])
qed

lemma recorded_core [core_intros]: "stays (\<lambda>s. core s = c) (record_configuration a i pair)"
  unfolding record_configuration_def by (intro stays_intros core_intros)

lemma recorded_lock [lock_intros]: "stays (lock_is sid l) (record_configuration a i pair)"
  unfolding record_configuration_def by (intro stays_intros lock_intros)

section \<open>The startup sequence, returned\<close>

lemma wire_failure_raises: "wire_failure a i ag s \<noteq> (t, Inr x)"
  by (auto simp: wire_failure_def stop_def chain_def split: if_splits prod.splits sum.splits)

lemma chain_Inr: "chain m f s = (s', Inr y) \<Longrightarrow> \<exists>t x. m s = (t, Inr x) \<and> f x t = (s', Inr y)"
  by (auto simp: chain_def split: prod.splits sum.splits)

lemma startup_returns:
  assumes "startup_sequence a i ag plan s = (s', Inr u)"
  obtains t pair where "open_and_configure a i ag plan s = (t, Inr pair)" "record_configuration a i pair t = (s', Inr ())"
proof -
  obtain t pair where t: "on_wire_failure (open_and_configure a i ag plan) (wire_failure a i ag) s = (t, Inr pair)"
    "record_configuration a i pair t = (s', Inr u)"
    using chain_Inr [OF assms [unfolded startup_sequence_def]] by blast
  have "open_and_configure a i ag plan s = (t, Inr pair)"
    using t(1) by (auto simp: on_wire_failure_def wire_failure_raises split: prod.splits sum.splits start_exc.splits)
  then show ?thesis using that [of t pair] t(2) by simp
qed

section \<open>The dispatch\<close>

definition dispatched :: "'s start_state \<Rightarrow> 's start_state \<Rightarrow> bool" where
  "dispatched s s' \<longleftrightarrow>
     (\<exists>w d. st_wire s' = st_wire s @ [(Prompted, w)] \<and> dispatch_started (wo_run w) = Doc d \<and> wo_store w = wo_store (st_world s) \<and>
        type_event ''session_prompt_sent'' \<in> set (st_events s') \<and> st_effective s' = st_effective s \<and>
        fc_dispatch_started (st_ctx s'))"

text \<open>What the actions behind the prompt keep.\<close>

definition trail :: "'s start_state \<Rightarrow> (wire_act \<times> world) list \<times> dentry \<times> bool" where
  "trail s = (st_wire s, st_effective s, fc_dispatch_started (st_ctx s))"

lemma trail_emit [simp]:
  "trail (fst (emit i ev s)) = trail s" "ev' \<in> set (st_events s) \<Longrightarrow> ev' \<in> set (st_events (fst (emit i ev s)))"
  by (auto simp: emit_def chain_def give_def submit_event_def note_pipeline_def trail_def Let_def split: option.splits)

lemma trail_ctx [simp]: "fc_dispatch_started c = fc_dispatch_started (st_ctx s) \<Longrightarrow> trail (s\<lparr>st_ctx := c\<rparr>) = trail s"
  by (simp add: trail_def)

lemma trail_driver_failed [simp]: "trail (driver_failed i s) = trail s" "st_events (driver_failed i s) = st_events s"
  by (simp_all add: driver_failed_def)

lemma violations_frame [simp]:
  "trail (note_violations ag s) = trail s" "st_events (note_violations ag s) = st_events s" "st_world (note_violations ag s) = st_world s"
  by (simp_all add: note_violations_def trail_def split_beta Let_def)

lemma trail_answered: "stays (\<lambda>s. trail s = c \<and> ev' \<in> set (st_events s)) (prompt_answered a i ag ans)"
  by (auto simp: stays_def prompt_answered_def give_def stop_def Let_def split: prompt_answer.splits prod.splits)

lemma trail_accept: "stays (\<lambda>s. trail s = c \<and> ev' \<in> set (st_events s)) (write_config_marker a io k)"
  by (auto simp: stays_def write_config_marker_def write_marker_def trail_def Let_def split: prod.splits)

lemma prompt_trail:
  assumes "prompt_once a i ag s = (s', r)" "ev' \<in> set (st_events s)"
  shows "st_wire s' \<in> {st_wire s, st_wire s @ [(Prompted, st_world s)]} \<and> st_effective s' = st_effective s \<and>
    fc_dispatch_started (st_ctx s') = fc_dispatch_started (st_ctx s) \<and> ev' \<in> set (st_events s')"
proof (cases "require_ready (dr_machine (st_driver s))")
  case (Inl e)
  then show ?thesis using assms by (simp add: prompt_once_def stop_def)
next
  case (Inr pair)
  show ?thesis
  proof (cases "ag_identity_ok ag (dr_agent (st_driver s))")
    case False
    then have "s' = driver_failed i s" using assms(1) Inr by (simp add: prompt_once_def give_def)
    then show ?thesis using trail_driver_failed [of i s] assms(2) by (simp add: trail_def)
  next
    case True
    let ?s1 = "s\<lparr>st_wire := st_wire s @ [(Prompted, st_world s)]\<rparr>"
    obtain x b ans where ans: "ag_prompt ag (dr_agent (st_driver s)) = (x, b, ans)" by (cases "ag_prompt ag (dr_agent (st_driver s))")
    let ?m = "chain (if b then write_config_marker a (so_accept i) Prompt_Accepted else give ()) (\<lambda>_. prompt_answered a i ag ans)"
    have "stays (\<lambda>t. trail t = c \<and> ev' \<in> set (st_events t)) ?m" for c
      by (intro stays_intros trail_accept trail_answered)
    from staysD [OF this, of "with_agent x ?s1" "trail ?s1"]
    have "trail (fst (?m (with_agent x ?s1))) = trail ?s1 \<and> ev' \<in> set (st_events (fst (?m (with_agent x ?s1))))"
      using assms(2) by (simp add: trail_def with_agent_def)
    moreover have "s' = fst (?m (with_agent x ?s1))"
      using assms(1) Inr True ans by (auto simp: prompt_once_def on_wire_def update_def chain_def [of "update f" for f])
    ultimately show ?thesis by (simp add: trail_def)
  qed
qed

lemma marker_written:
  "write_marker a io Dispatch_Started s = (s', Inr u) \<Longrightarrow>
   (\<exists>d. dispatch_started (wo_run (st_world s')) = Doc d) \<and> wo_store (st_world s') = wo_store (st_world s) \<and>
   st_wire s' = st_wire s \<and> st_effective s' = st_effective s"
  by (auto simp: write_marker_def Let_def dest!: once_ok split: prod.splits if_splits)

lemma dispatch_trail:
  assumes "dispatch a i ag s = (s', r)"
  shows "st_wire s' = st_wire s \<or> dispatched s s'"
proof (cases "fc_pipeline_error (st_ctx s) \<or> \<not> so_can_accept i")
  case True
  then show ?thesis using assms by (auto simp: dispatch_def stop_def)
next
  case False
  obtain s1 r1 where m: "write_marker a (so_dispatch i) Dispatch_Started s = (s1, r1)"
    by (cases "write_marker a (so_dispatch i) Dispatch_Started s :: _ \<times> (start_exc + unit)")
  show ?thesis
  proof (cases r1)
    case (Inl e)
    then show ?thesis using assms False m by (auto simp: dispatch_def chain_def write_marker_def Let_def split: prod.splits if_splits)
  next
    case (Inr u)
    define s2 where "s2 = s1\<lparr>st_ctx := (st_ctx s1)\<lparr>fc_dispatch_started := True\<rparr>\<rparr>"
    note w = marker_written [OF m [unfolded Inr]]
    obtain s3 b where sub: "submit_event i (type_event ''session_prompt_sent'') s2 = (s3, Inr b)"
      by (cases "so_emit i (Suc (st_emits s2))") (auto simp: submit_event_def Let_def)
    have s3: "st_wire s3 = st_wire s" "st_effective s3 = st_effective s" "st_world s3 = st_world s1" "fc_dispatch_started (st_ctx s3)"
      "b \<Longrightarrow> type_event ''session_prompt_sent'' \<in> set (st_events s3)"
      using sub w by (auto simp: s2_def submit_event_def note_pipeline_def Let_def split: option.splits)
    have eq: "dispatch a i ag s = (if \<not> b \<or> fc_pipeline_error (st_ctx s3) then (s3, Inr ()) else prompt_once a i ag s3)"
      using False m Inr sub by (simp add: dispatch_def chain_def update_def give_def flip: s2_def)
    show ?thesis
    proof (cases "\<not> b \<or> fc_pipeline_error (st_ctx s3)")
      case True
      then show ?thesis using assms eq s3 by (auto split: if_splits)
    next
      case False
      then have "prompt_once a i ag s3 = (s', r)" using assms eq by (simp split: if_splits)
      from prompt_trail [OF this s3(5)] False show ?thesis using w s3 by (auto simp: dispatched_def)
    qed
  qed
qed

section \<open>From the drive to the sequence\<close>

definition session_of :: "run_args \<Rightarrow> string" where
  "session_of a = (case rn_session a of Some sid \<Rightarrow> sid | None \<Rightarrow> rn_prospective a)"

text \<open>The plan a run may have: a creation for a request without a session, else the load of its valid, bound record.\<close>

definition plan_of :: "run_args \<Rightarrow> store \<Rightarrow> start_plan \<Rightarrow> bool" where
  "plan_of a st plan \<longleftrightarrow>
     (case rn_session a of
        None \<Rightarrow> plan = CreateSessionPlan (rn_prospective a)
      | Some sid \<Rightarrow>
          \<exists>r external. open_session st sid = Inr r \<and> dget r ''agent_session_id'' = PStr external \<and>
            validate_native_session_record r sid = [] \<and> validate_native_binding r (rn_identity a) True = Inr () \<and>
            plan = LoadSessionPlan sid external)"

lemma planned_reuse:
  assumes "plan_reuse_session a sid st = Inr (plan, pair)"
  shows "\<exists>r external. open_session st sid = Inr r \<and> dget r ''agent_session_id'' = PStr external \<and>
     validate_native_session_record r sid = [] \<and> validate_native_binding r (rn_identity a) True = Inr () \<and>
     plan = LoadSessionPlan sid external"
proof (cases "open_session st sid")
  case (Inl e)
  then show ?thesis using assms by (cases e) (auto simp: plan_reuse_session_def)
next
  case (Inr r)
  obtain external where v: "validate_native_session_record r sid = []" "dget r ''agent_session_id'' = PStr external"
    using assms Inr by (auto simp: plan_reuse_session_def split: if_splits pyval.splits)
  show ?thesis
  proof (cases "validate_native_binding r (rn_identity a) True")
    case (Inl e)
    then show ?thesis using assms Inr v \<open>open_session st sid = Inr r\<close> by (cases e) (auto simp: plan_reuse_session_def)
  next
    case (Inr u)
    then show ?thesis using assms v \<open>open_session st sid = Inr r\<close> by (auto simp: plan_reuse_session_def)
  qed
qed

lemma bound_session:
  assumes "bind_session a i st = (st1, lock, Inr b)"
  shows "plan_of a st (bd_plan b)" "rn_session a = None \<Longrightarrow> st1 = st \<and> lock = None"
    "rn_session a = Some sid \<Longrightarrow> lease_ours a sid (lock_json (st1 sid)) \<and> lock = Some (rn_token a)"
proof -
  show "rn_session a = None \<Longrightarrow> st1 = st \<and> lock = None" using assms by (auto simp: bind_session_def)
  have some: "\<exists>pair u. plan_reuse_session a sid st = Inr (bd_plan b, pair) \<and> acquire_lease a i sid False st = (st1, lock, Inr u)"
    if "rn_session a = Some sid" for sid
    using assms that by (auto simp: bind_session_def split: sum.splits prod.splits session_error.splits)
  then show "rn_session a = Some sid \<Longrightarrow> lease_ours a sid (lock_json (st1 sid)) \<and> lock = Some (rn_token a)"
    using acquired_lease by blast
  show "plan_of a st (bd_plan b)"
  proof (cases "rn_session a")
    case None
    then show ?thesis using assms by (auto simp: bind_session_def plan_of_def plan_create_session_def)
  next
    case (Some sid)
    then show ?thesis using some [OF Some] planned_reuse [of a sid st "bd_plan b"] by (auto simp: plan_of_def)
  qed
qed

lemma bind_elsewhere: "sid' \<noteq> session_of a \<Longrightarrow> fst (bind_session a i st) sid' = st sid'"
proof (cases "rn_session a")
  case (Some sid)
  assume "sid' \<noteq> session_of a"
  then have "fst (acquire_lease a i sid False st) sid' = st sid'" using Some by (simp add: session_of_def)
  then show ?thesis
    using Some by (auto simp: bind_session_def split: sum.splits prod.splits session_error.splits)
qed (simp add: bind_session_def)

lemma spawned_elsewhere: "sid' \<noteq> session_of a \<Longrightarrow> fst (record_spawned a i lock st) sid' = st sid'"
  by (auto simp: record_spawned_def session_of_def split: option.splits)

lemma plan_of_session: "plan_of a st plan \<Longrightarrow> plan_session plan = session_of a"
  by (auto simp: plan_of_def session_of_def split: option.splits)

lemma tame_frames: "tame K sid w s \<Longrightarrow> x \<in> fst ` set (st_wire s) \<Longrightarrow> K x"
  by (auto simp: tame_def list_all_iff)

lemma tame_unprompted: "tame (plan_frames plan) sid w s \<Longrightarrow> Prompted \<notin> fst ` set (st_wire s)"
  using tame_frames [of "plan_frames plan" sid w s Prompted] by (cases plan) (auto simp: plan_frames_def)

text \<open>The state in which the startup sequence begins.\<close>

definition run_started :: "run_args \<Rightarrow> world \<Rightarrow> start_plan \<Rightarrow> machine \<Rightarrow> 's start_state \<Rightarrow> bool" where
  "run_started a w plan m0 s \<longleftrightarrow>
     plan_of a (wo_store w) plan \<and> run_machine a (rn_model a) (rn_effort a) = Some (Inr m0) \<and>
     core s = ([Spawned], m0, [], False, False) \<and> tame (plan_frames plan) (plan_session plan) w s \<and>
     (rn_session a = None \<longrightarrow> fc_pending_creation (st_ctx s) \<and> wo_store (st_world s) = wo_store w) \<and>
     (\<forall>sid ext. plan = LoadSessionPlan sid ext \<longrightarrow> held a sid s)"

lemma driven:
  assumes "drive a i ag x w = Driven s r"
  obtains plan m0 s0 where "run_started a w plan m0 s0" "sequence_and_dispatch a i ag plan s0 = (s, r)"
proof -
  obtain st1 lock b where bind: "bind_session a i (wo_store w) = (st1, lock, Inr b)"
    using assms by (auto simp: drive_def split: prod.splits sum.splits)
  obtain st2 m0 where rest: "record_spawned a i lock st1 = (st2, Inr ())" "run_machine a (rn_model a) (rn_effort a) = Some (Inr m0)"
    "sequence_and_dispatch a i ag (bd_plan b) (started_run a b (bound_ctx a lock) m0 x (w\<lparr>wo_store := st2\<rparr>)) = (s, r)"
    using assms bind by (auto simp: drive_def Let_def split: prod.splits sum.splits option.splits)
  let ?s0 = "started_run a b (bound_ctx a lock) m0 x (w\<lparr>wo_store := st2\<rparr>)"
  note plan = bound_session(1) [OF bind]
  have ctx: "fc_session (bound_ctx a lock) = Some (session_of a)" "\<not> fc_dispatch_started (bound_ctx a lock)"
    "fc_stop_reason (bound_ctx a lock) = None" "\<not> fc_rollback_unproven (bound_ctx a lock)"
    "rn_session a = None \<Longrightarrow> fc_pending_creation (bound_ctx a lock)"
    by (auto simp: bound_ctx_def no_ctx_def session_of_def split: option.splits)
  have other: "st2 sid' = wo_store w sid'" if "sid' \<noteq> session_of a" for sid'
    using bind_elsewhere [OF that, of i "wo_store w"] spawned_elsewhere [OF that, of i lock st1] bind rest(1) by simp
  have "held a sid ?s0" if "bd_plan b = LoadSessionPlan sid ext" for sid ext
  proof -
    have "rn_session a = Some sid" using plan that by (auto simp: plan_of_def split: option.splits)
    then show ?thesis using bound_session(3) [OF bind] rest(1) recorded_child [of a i sid "rn_token a" st1 st2 "()"]
      by (simp add: record_spawned_def lease_ours_def started_run_def)
  qed
  moreover have "rn_session a = None \<Longrightarrow> st2 = wo_store w"
    using bound_session(2) [OF bind] rest(1) by (auto simp: record_spawned_def)
  moreover have "tame (plan_frames (bd_plan b)) (plan_session (bd_plan b)) w ?s0"
    using ctx other plan_of_session [OF plan] by (simp add: tame_def started_run_def plan_frames_def)
  ultimately have "run_started a w (bd_plan b) m0 ?s0"
    using plan rest(2) ctx by (auto simp: run_started_def core_def started_run_def)
  then show ?thesis using that rest(3) by blast
qed

section \<open>The store\<close>

text \<open>The dispatch and the turn do not touch the session store.\<close>

lemma store_answered: "stays (\<lambda>s. wo_store (st_world s) = st) (prompt_answered a i ag ans)"
  by (auto simp: stays_def prompt_answered_def give_def stop_def driver_failed_def emit_def chain_def submit_event_def
      note_pipeline_def Let_def split: prompt_answer.splits prod.splits option.splits)

lemma store_marker: "stays (\<lambda>s. wo_store (st_world s) = st) (write_marker a io k)"
  "stays (\<lambda>s. wo_store (st_world s) = st) (write_config_marker a io k)"
  by (auto simp: stays_def write_config_marker_def write_marker_def Let_def split: prod.splits)

lemma store_prompt: "stays (\<lambda>s. wo_store (st_world s) = st) (prompt_once a i ag)"
proof -
  have after: "wo_store (st_world (fst (chain (if b then write_config_marker a (so_accept i) Prompt_Accepted else give ())
      (\<lambda>_. prompt_answered a i ag ans) (with_agent x s)))) = wo_store (st_world s)" for b ans x s
  proof -
    have "stays (\<lambda>t. wo_store (st_world t) = wo_store (st_world s))
        (chain (if b then write_config_marker a (so_accept i) Prompt_Accepted else give ()) (\<lambda>_. prompt_answered a i ag ans))"
      by (intro stays_intros store_marker store_answered)
    from staysD [OF this, of "with_agent x s"] show ?thesis by (simp add: with_agent_def split del: if_split)
  qed
  have "stays (\<lambda>s. wo_store (st_world s) = st) (chain (on_wire Prompted) (\<lambda>_ s. case ag_prompt ag (dr_agent (st_driver s)) of
      (x, b, ans) \<Rightarrow> chain (if b then write_config_marker a (so_accept i) Prompt_Accepted else give ())
        (\<lambda>_. prompt_answered a i ag ans) (with_agent x s)))"
    by (rule stays_chain) (auto simp: stays_def on_wire_def update_def after split: prod.splits split del: if_split)
  moreover have "wo_store (st_world (driver_failed i s)) = wo_store (st_world s)" for s :: "'a start_state"
    by (simp add: driver_failed_def)
  ultimately show ?thesis by (simp add: stays_def prompt_once_def split: sum.splits)
qed

lemma store_dispatch: "stays (\<lambda>s. wo_store (st_world s) = st) (dispatch a i ag)"
proof -
  have sub: "stays (\<lambda>s. wo_store (st_world s) = st) (submit_event i ev)" for ev
    by (auto simp: stays_def submit_event_def note_pipeline_def Let_def split: option.splits)
  have flag: "stays (\<lambda>s. wo_store (st_world s) = st) (update (\<lambda>s. s\<lparr>st_ctx := (st_ctx s)\<lparr>fc_dispatch_started := True\<rparr>\<rparr>))"
    by (rule stays_update) simp
  show ?thesis unfolding dispatch_fun by (intro stays_intros store_marker sub flag store_prompt)
qed

lemma dispatch_frames:
  assumes "dispatch a i ag s = (s', r)"
  shows "fst ` set (st_wire s') \<subseteq> insert Prompted (fst ` set (st_wire s))" "wo_store (st_world s') = wo_store (st_world s)"
  using dispatch_trail [OF assms] staysD [OF store_dispatch, of s "wo_store (st_world s)" a i ag] assms by (auto simp: dispatched_def)

text \<open>Only the run's own session is touched, and only the plan's frames and the prompt are written.\<close>

lemma driven_tame:
  assumes "run_started a w plan m0 s0" "sequence_and_dispatch a i ag plan s0 = (s, r)"
  shows "x \<in> fst ` set (st_wire s) \<Longrightarrow> x = Prompted \<or> plan_frames plan x"
    "sid' \<noteq> session_of a \<Longrightarrow> wo_store (st_world s) sid' = wo_store w sid'"
proof -
  obtain s1 r1 where st: "startup_sequence a i ag plan s0 = (s1, r1)"
    by (cases "startup_sequence a i ag plan s0 :: _ \<times> (start_exc + unit)")
  have t: "tame (plan_frames plan) (session_of a) w s1"
    using staysD [OF tame_startup, of plan w s0 a i ag] assms(1) st plan_of_session [of a "wo_store w" plan] by (simp add: run_started_def)
  have "s = s1 \<or> dispatch a i ag s1 = (s, r)" using assms(2) st by (auto simp: sequence_and_dispatch_def split: sum.splits)
  then have "fst ` set (st_wire s) \<subseteq> insert Prompted (fst ` set (st_wire s1)) \<and> wo_store (st_world s) = wo_store (st_world s1)"
    using dispatch_frames [of a i ag s1 s r] by auto
  then show "x \<in> fst ` set (st_wire s) \<Longrightarrow> x = Prompted \<or> plan_frames plan x"
    "sid' \<noteq> session_of a \<Longrightarrow> wo_store (st_world s) sid' = wo_store w sid'"
    using tame_frames [OF t] t by (blast, simp add: tame_def)
qed

lemma not_started:
  assumes "drive a i ag x w = Not_Started c w' e"
  shows "sid' \<noteq> session_of a \<Longrightarrow> wo_store w' sid' = wo_store w sid'" "rn_session a = None \<Longrightarrow> wo_store w' = wo_store w"
proof -
  obtain st1 lock r where bind: "bind_session a i (wo_store w) = (st1, lock, r)" by (cases "bind_session a i (wo_store w)")
  have "wo_store w' = st1 \<or> wo_store w' = fst (record_spawned a i lock st1)"
    using assms bind by (auto simp: drive_def Let_def split: sum.splits option.splits prod.splits)
  moreover have "st1 sid' = wo_store w sid'" if "sid' \<noteq> session_of a" for sid' using bind_elsewhere [OF that, of i "wo_store w"] bind by simp
  moreover have "rn_session a = None \<Longrightarrow> st1 = wo_store w" using bind by (auto simp: bind_session_def)
  moreover have "rn_session a = None \<Longrightarrow> fst (record_spawned a i lock st1) = st1" by (auto simp: record_spawned_def split: option.splits)
  ultimately show "sid' \<noteq> session_of a \<Longrightarrow> wo_store w' sid' = wo_store w sid'" "rn_session a = None \<Longrightarrow> wo_store w' = wo_store w"
    using spawned_elsewhere [of sid' a i lock st1] by auto
qed

section \<open>Creation\<close>

text \<open>A frame that was written stays written.\<close>

definition wired :: "wire_act \<Rightarrow> 's start_state \<Rightarrow> bool" where
  "wired x s \<longleftrightarrow> x \<in> set (fst (core s))"

named_theorems wired_intros

lemma wired_core: "(\<And>c. stays (\<lambda>s. core s = c) m) \<Longrightarrow> stays (wired x) m"
  unfolding wired_def by (rule stays_core)

lemmas wired_quiet [wired_intros] = core_intros [THEN wired_core]

lemma wired_moves [wired_intros]:
  "stays (wired x) (on_wire y)" "stays (wired x) (take_options os)" "stays (wired x) (driver_configure ag m)"
  "stays (wired x) (update (\<lambda>s. s\<lparr>st_driver := (st_driver s)\<lparr>dr_machine := mc\<rparr>\<rparr>))"
  "stays (wired x) (update (\<lambda>s. s\<lparr>st_ctx := (st_ctx s)\<lparr>fc_rollback_unproven := b\<rparr>\<rparr>))"
  by (auto simp: stays_def wired_def on_wire_def update_def core_def take_options_def driver_configure_def Let_def
      split: prod.splits sum.splits driver_error.splits option.splits)

lemma wired_configure [wired_intros]: "stays (wired x) (configure a i ag m)"
  unfolding configure_def by (intro stays_intros wired_intros)

lemma wired_configure_run [wired_intros]: "stays (wired x) (configure_run a i ag)"
  unfolding stays_def configure_run_def
  by (intro allI impI) (intro staysD [where I = "wired x"] stays_intros wired_intros)

lemma wired_rollback [wired_intros]: "stays (wired x) (rollback_after_partial_switch a i ag)"
proof -
  have un: "stays (wired x) (mark_unproven i)" unfolding mark_unproven_def by (intro stays_intros wired_intros)
  have seq: "stays (wired x) (rollback_sequence a i ag m f)" for m f
  proof -
    have "stays (wired x) (chain (configure a i ag m1) (\<lambda>(m2, out).
        case out of Inl _ \<Rightarrow> stop Wire_Failure
        | Inr _ \<Rightarrow> chain (commit_effective a (so_rb_commit i) m f) (\<lambda>_.
            chain (write_config_marker a (so_rb_marker i) Rollback_Proven) (\<lambda>_. emit i (type_event ''config_rollback_proven'')))))"
      for m1 by (intro stays_intros wired_intros)
    then show ?thesis by (auto simp: rollback_sequence_def stays_def split: option.splits sum.splits prod.splits)
  qed
  show ?thesis unfolding rollback_after_partial_switch_def
    using un stays_unless [OF seq un] by (intro stays_chain wired_intros) (auto simp: stays_def split: prod.splits pyval.splits)
qed

lemma wired_failure [wired_intros]: "stays (wired x) (wire_failure a i ag)"
  unfolding wire_failure_fun by (intro stays_intros wired_intros)

text \<open>However it ends.\<close>

definition ends :: "('s start_state \<Rightarrow> bool) \<Rightarrow> ('s, 'a) act \<Rightarrow> ('s start_state \<Rightarrow> bool) \<Rightarrow> bool" where
  "ends P m Q \<longleftrightarrow> (\<forall>s. P s \<longrightarrow> Q (fst (m s)))"

lemma ends_then: "ends P m I \<Longrightarrow> (\<And>x. stays I (g x)) \<Longrightarrow> ends P (chain m g) I"
  unfolding ends_def stays_def chain_def by (simp split: prod.splits sum.splits) (metis fst_conv)

lemma ends_after: "stays F m \<Longrightarrow> (\<And>x. ends F (g x) Q) \<Longrightarrow> (\<And>s. F s \<Longrightarrow> Q s) \<Longrightarrow> ends F (chain m g) Q"
  unfolding ends_def stays_def chain_def by (simp split: prod.splits sum.splits) (metis fst_conv)

lemma ends_weaken: "ends P m Q \<Longrightarrow> (\<And>s. P' s \<Longrightarrow> P s) \<Longrightarrow> (\<And>s. Q s \<Longrightarrow> Q' s) \<Longrightarrow> ends P' m Q'"
  by (auto simp: ends_def)

lemma emit_returns: "\<exists>s'. emit i ev s = (s', Inr ())"
  by (auto simp: emit_def chain_def give_def submit_event_def Let_def split: option.splits)

lemma create_arm_wired: "ends P (create_arm a i ag sid) (wired New_Session)"
proof -
  have "ends (\<lambda>_. True) (on_wire New_Session) (wired New_Session)"
    by (simp add: ends_def on_wire_def update_def wired_def core_def)
  then have "ends (\<lambda>_. True) (driver_new_session ag) (wired New_Session)"
    unfolding driver_new_session_def by (rule ends_then) (intro stays_intros wired_intros)
  then have rest: "ends (\<lambda>_. True) (chain (driver_new_session ag) (\<lambda>external.
     chain (agent_session external) (\<lambda>_.
     chain (in_store (create_native_session (so_create i) (rn_moment a) (session_record_args a sid external))) (\<lambda>_.
     chain (update (\<lambda>s. s\<lparr>st_ctx := (st_ctx s)\<lparr>fc_pending_creation := False\<rparr>\<rparr>)) (\<lambda>_.
     chain (lease_started a i sid) (\<lambda>_.
     commit_pending_observation a i)))))) (wired New_Session)"
    by (rule ends_then) (intro stays_intros wired_intros)
  show ?thesis unfolding ends_def
  proof (intro allI impI)
    fix s :: "'a start_state"
    obtain s' where "emit i (type_event ''session_new_requested'') s = (s', Inr ())" using emit_returns by blast
    then show "wired New_Session (fst (create_arm a i ag sid s))"
      using rest unfolding create_arm_def by (simp add: chain_def [of "emit i ev" for ev] ends_def)
  qed
qed

definition fresh :: "store \<Rightarrow> 's start_state \<Rightarrow> bool" where
  "fresh st s \<longleftrightarrow> fc_pending_creation (st_ctx s) \<and> wo_store (st_world s) = st"

named_theorems fresh_intros

lemma fresh_quiet [fresh_intros]:
  "stays (fresh st) (submit_event i ev)" "stays (fresh st) (write_evidence i p)" "stays (fresh st) (record_summary su)"
  "stays (fresh st) (on_wire x)" "stays (fresh st) (call_agent ag g)" "stays (fresh st) (update (\<lambda>s. s\<lparr>st_held := h\<rparr>))"
  "stays (fresh st) (commit_pending_observation a i)"
  by (auto simp: stays_def fresh_def submit_event_def note_pipeline_def write_evidence_def record_summary_def on_wire_def
      update_def call_agent_def with_agent_def commit_pending_observation_def Let_def split: prod.splits option.splits)

lemma fresh_emit [fresh_intros]: "stays (fresh st) (emit i ev)" "stays (fresh st) (emit_all i evs)"
proof -
  show one: "stays (fresh st) (emit i ev)" for ev unfolding emit_def by (intro stays_intros fresh_intros)
  show "stays (fresh st) (emit_all i evs)" by (induction evs) (auto intro: stays_intros one)
qed

lemma fresh_observe [fresh_intros]: "stays (fresh st) (observe_initialize a i su)"
  unfolding stays_def observe_initialize_def Let_def
  by (intro allI impI) (intro staysD [where I = "fresh st"] stays_intros fresh_intros, simp_all split: option.splits,
      auto intro!: stays_intros fresh_intros)

lemma fresh_failure [fresh_intros]: "stays (fresh st) (wire_failure a i ag)"
  by (auto simp: stays_def wire_failure_def chain_def partial_switch_def fresh_def give_def stop_def)

lemma open_created:
  "ends (fresh st) (open_and_configure a i ag (CreateSessionPlan sid)) (\<lambda>s. wired New_Session s \<or> fresh st s)"
proof -
  have arm: "ends (fresh st) (chain (create_arm a i ag sid) (\<lambda>_. configure_run a i ag)) (\<lambda>s. wired New_Session s \<or> fresh st s)"
    by (rule ends_weaken [OF ends_then [OF create_arm_wired]]) (auto intro: wired_intros)
  show ?thesis unfolding open_and_configure_def driver_initialize_def start_plan.case
    by (intro ends_after arm stays_intros fresh_intros) simp_all
qed

lemma ends_on_wire_failure: "ends P m Q \<Longrightarrow> stays Q h \<Longrightarrow> ends P (on_wire_failure m h) Q"
  unfolding ends_def stays_def on_wire_failure_def by (auto split: prod.splits sum.splits start_exc.splits)

lemma stays_disj: "stays I m \<Longrightarrow> stays J m \<Longrightarrow> stays (\<lambda>s. I s \<or> J s) m"
  by (auto simp: stays_def)

lemma startup_created:
  assumes "run_started a w (CreateSessionPlan sid) m0 s0" "startup_sequence a i ag (CreateSessionPlan sid) s0 = (s1, r)"
    "rn_session a = None"
  shows "wired New_Session s1 \<or> fresh (wo_store w) s1"
proof -
  let ?m = "on_wire_failure (open_and_configure a i ag (CreateSessionPlan sid)) (wire_failure a i ag)"
  have j: "ends (fresh (wo_store w)) ?m (\<lambda>s. wired New_Session s \<or> fresh (wo_store w) s)"
    by (intro ends_on_wire_failure open_created stays_disj wired_failure fresh_failure)
  have fresh0: "fresh (wo_store w) s0" using assms(1,3) by (simp add: run_started_def fresh_def)
  obtain t q where t: "?m s0 = (t, q)" by (cases "?m s0")
  show ?thesis
  proof (cases q)
    case (Inl e)
    then have "s1 = t" using assms(2) t by (simp add: startup_sequence_def chain_def)
    then show ?thesis using j fresh0 t by (auto simp: ends_def)
  next
    case (Inr pair)
    then have "open_and_configure a i ag (CreateSessionPlan sid) s0 = (t, Inr pair)"
      using t by (auto simp: on_wire_failure_def wire_failure_raises split: prod.splits sum.splits start_exc.splits)
    moreover obtain mode mid eid pid pm where new: "new_machine mode mid eid (rn_model a) (rn_effort a) pid pm = Inr m0"
      using assms(1) by (auto simp: run_started_def run_machine_def)
    ultimately have "wired New_Session t"
      using yieldsD [OF yields_open_and_configure [OF new], of s0 a i ag "CreateSessionPlan sid" t pair] assms(1)
      by (auto simp: run_started_def to_prompt_def wired_def)
    moreover have "s1 = fst (record_configuration a i pair t)" using assms(2) t Inr by (simp add: startup_sequence_def chain_def)
    ultimately show ?thesis using staysD [OF wired_core [OF recorded_core]] by blast
  qed
qed

text \<open>A creation that put no \<^verbatim>\<open>session/new\<close> on the wire left the store alone.\<close>

lemma driven_created:
  assumes "run_started a w plan m0 s0" "sequence_and_dispatch a i ag plan s0 = (s, r)" "rn_session a = None"
  shows "New_Session \<in> fst ` set (st_wire s) \<or> wo_store (st_world s) = wo_store w"
proof -
  have plan: "plan = CreateSessionPlan (rn_prospective a)" using assms(1,3) by (simp add: run_started_def plan_of_def)
  obtain s1 r1 where st: "startup_sequence a i ag plan s0 = (s1, r1)"
    by (cases "startup_sequence a i ag plan s0 :: _ \<times> (start_exc + unit)")
  have "s = s1 \<or> dispatch a i ag s1 = (s, r)" using assms(2) st by (auto simp: sequence_and_dispatch_def split: sum.splits)
  then have "set (st_wire s1) \<subseteq> set (st_wire s) \<and> wo_store (st_world s) = wo_store (st_world s1)"
    using dispatch_trail [of a i ag s1 s r] dispatch_frames(2) [of a i ag s1 s r] by (auto simp: dispatched_def)
  then show ?thesis using startup_created [OF assms(1) [unfolded plan] st [unfolded plan] assms(3)]
    by (auto simp: wired_def fresh_def core_def)
qed

section \<open>The flag of a failed rollback\<close>

definition calm :: "'s start_state \<Rightarrow> bool" where
  "calm s \<longleftrightarrow> \<not> snd (snd (snd (snd (core s))))"

lemma calm_iff: "calm s \<longleftrightarrow> \<not> fc_rollback_unproven (st_ctx s)"
  by (simp add: calm_def core_def)

named_theorems calm_intros

lemma calm_core: "(\<And>c. stays (\<lambda>s. core s = c) m) \<Longrightarrow> stays calm m"
  unfolding calm_def by (rule stays_core)

lemmas calm_quiet [calm_intros] = core_intros [THEN calm_core]

lemma calm_moves [calm_intros]:
  "stays calm (on_wire y)" "stays calm (take_options os)" "stays calm (driver_configure ag m)"
  "stays calm (update (\<lambda>s. s\<lparr>st_driver := (st_driver s)\<lparr>dr_machine := mc\<rparr>\<rparr>))"
  by (auto simp: stays_def calm_iff on_wire_def update_def take_options_def driver_configure_def Let_def
      split: prod.splits sum.splits driver_error.splits option.splits)

lemma calm_configure [calm_intros]: "stays calm (configure a i ag m)"
  unfolding configure_def by (intro stays_intros calm_intros)

lemma calm_configure_run [calm_intros]: "stays calm (configure_run a i ag)"
  unfolding stays_def configure_run_def
  by (intro allI impI) (intro staysD [where I = calm] stays_intros calm_intros)

lemma calm_open [calm_intros]: "stays calm (open_and_configure a i ag plan)"
  unfolding open_and_configure_def driver_initialize_def create_arm_def driver_new_session_def load_arm_def driver_load_session_def
  by (intro stays_intros calm_intros)

lemma calm_rollback_sequence [calm_intros]: "stays calm (rollback_sequence a i ag m f)"
proof -
  have "stays calm (chain (configure a i ag m1) (\<lambda>(m2, out).
      case out of Inl _ \<Rightarrow> stop Wire_Failure
      | Inr _ \<Rightarrow> chain (commit_effective a (so_rb_commit i) m f) (\<lambda>_.
          chain (write_config_marker a (so_rb_marker i) Rollback_Proven) (\<lambda>_. emit i (type_event ''config_rollback_proven'')))))"
    for m1 by (intro stays_intros calm_intros)
  then show ?thesis by (auto simp: rollback_sequence_def stays_def split: option.splits sum.splits prod.splits)
qed

lemma unproven_returns: "\<exists>s'. mark_unproven i s = (s', Inr ())"
  using emit_returns [of i "type_event ''config_rollback_failed''"] by (simp add: mark_unproven_def chain_def update_def)

text \<open>The flag is only set on the way to the code \<^verbatim>\<open>CONFIG_FIDELITY\<close>.\<close>

lemma calm_rollback_raised:
  assumes "rollback_after_partial_switch a i ag s = (s', Inl e)" "calm s"
  shows "calm s'"
proof -
  obtain t where t: "emit i (type_event ''config_rollback_started'') s = (t, Inr ())" using emit_returns by blast
  have "calm t" using staysD [OF calm_core [OF core_emit] assms(2)] t by (metis fst_conv)
  moreover have un: "mark_unproven i t \<noteq> (s', Inl e)" for t :: "'a start_state"
    using unproven_returns [of i t] by auto
  then obtain m f where "rollback_sequence a i ag m f t = (s', Inl e)"
    using assms(1) t by (auto simp: rollback_after_partial_switch_def chain_def unless_exception_def
        split: prod.splits pyval.splits if_splits sum.splits start_exc.splits)
  ultimately show ?thesis using staysD [OF calm_rollback_sequence] by (metis fst_conv)
qed

lemma calm_failure:
  assumes "wire_failure a i ag s = (s', r)" "calm s" "r \<noteq> Inl (Pre_Dispatch ''CONFIG_FIDELITY'')"
  shows "calm s'"
proof (cases "ag_identity_ok ag (dr_agent (st_driver s)) \<and> partial_switch s")
  case True
  then obtain e where "rollback_after_partial_switch a i ag s = (s', Inl e)"
    using assms(1,3) by (auto simp: wire_failure_def chain_def stop_def split: prod.splits sum.splits)
  then show ?thesis using calm_rollback_raised assms(2) by blast
next
  case False
  then show ?thesis using assms
    by (cases "ag_identity_ok ag (dr_agent (st_driver s))") (auto simp: wire_failure_def chain_def stop_def give_def)
qed

lemma calm_startup:
  assumes "startup_sequence a i ag plan s = (s', r)" "calm s" "r \<noteq> Inl (Pre_Dispatch ''CONFIG_FIDELITY'')"
  shows "calm s'"
proof -
  obtain t q where t: "open_and_configure a i ag plan s = (t, q)" by (cases "open_and_configure a i ag plan s")
  have calm: "calm t" using staysD [OF calm_open assms(2), of a i ag plan] t by simp
  show ?thesis
  proof (cases q)
    case (Inr pair)
    then have "s' = fst (record_configuration a i pair t)"
      using assms(1) t by (simp add: startup_sequence_def chain_def on_wire_failure_def)
    then show ?thesis using staysD [OF calm_core [OF recorded_core] calm] by simp
  next
    case (Inl e)
    show ?thesis
    proof (cases "e = Wire_Failure")
      case True
      obtain t' q' where "wire_failure a i ag t = (t', q' :: start_exc + string \<times> string)" by (cases "wire_failure a i ag t :: _ \<times> (start_exc + string \<times> string)")
      moreover from this obtain e' where "q' = Inl e'" by (cases q') (auto simp: wire_failure_raises)
      ultimately have "wire_failure a i ag t = (s', Inl e' :: start_exc + string \<times> string)" "r = Inl e'"
        using assms(1) t Inl True by (auto simp: startup_sequence_def chain_def on_wire_failure_def)
      then show ?thesis using calm_failure [OF _ calm] assms(3) by blast
    next
      case False
      then show ?thesis using assms(1) t Inl calm by (cases e) (auto simp: startup_sequence_def chain_def on_wire_failure_def)
    qed
  qed
qed

text \<open>A run that did not reach its dispatch keeps the flag clear and its result file as it was.\<close>

lemma dispatch_refused:
  assumes "dispatch a i ag s = (s', r)" "\<not> fc_dispatch_started (st_ctx s')"
  shows "fc_rollback_unproven (st_ctx s') = fc_rollback_unproven (st_ctx s) \<and>
    result_json (wo_run (st_world s')) = result_json (wo_run (st_world s))"
proof (cases "fc_pipeline_error (st_ctx s) \<or> \<not> so_can_accept i")
  case True
  then show ?thesis using assms by (auto simp: dispatch_def stop_def)
next
  case False
  obtain s1 r1 where m: "write_marker a (so_dispatch i) Dispatch_Started s = (s1, r1)"
    by (cases "write_marker a (so_dispatch i) Dispatch_Started s :: _ \<times> (start_exc + unit)")
  show ?thesis
  proof (cases r1)
    case (Inl e)
    then show ?thesis using assms False m by (auto simp: dispatch_def chain_def write_marker_def Let_def split: prod.splits if_splits)
  next
    case (Inr u)
    define s2 where "s2 = s1\<lparr>st_ctx := (st_ctx s1)\<lparr>fc_dispatch_started := True\<rparr>\<rparr>"
    obtain s3 b where sub: "submit_event i (type_event ''session_prompt_sent'') s2 = (s3, Inr b)"
      by (cases "so_emit i (Suc (st_emits s2))") (auto simp: submit_event_def Let_def)
    have s3: "fc_dispatch_started (st_ctx s3)" "b \<Longrightarrow> type_event ''session_prompt_sent'' \<in> set (st_events s3)"
      using sub by (auto simp: s2_def submit_event_def note_pipeline_def Let_def split: option.splits)
    have eq: "dispatch a i ag s = (if \<not> b \<or> fc_pipeline_error (st_ctx s3) then (s3, Inr ()) else prompt_once a i ag s3)"
      using False m Inr sub by (simp add: dispatch_def chain_def update_def give_def flip: s2_def)
    have "fc_dispatch_started (st_ctx s')"
      using assms(1) eq s3 prompt_trail [of a i ag s3 s' r, OF _ s3(2)] by (auto split: if_splits)
    then show ?thesis using assms(2) by simp
  qed
qed

lemma undispatched:
  assumes "run_started a w plan m0 s0" "sequence_and_dispatch a i ag plan s0 = (s, r)"
    "\<not> fc_dispatch_started (st_ctx s)" "r \<noteq> Inl (Pre_Dispatch ''CONFIG_FIDELITY'')"
  shows "\<not> fc_rollback_unproven (st_ctx s)" "result_json (wo_run (st_world s)) = result_json (wo_run w)"
proof -
  obtain s1 r1 where st: "startup_sequence a i ag plan s0 = (s1, r1)"
    by (cases "startup_sequence a i ag plan s0 :: _ \<times> (start_exc + unit)")
  have t: "result_json (wo_run (st_world s1)) = result_json (wo_run w)"
    using staysD [OF tame_startup, of plan w s0 a i ag] assms(1) st by (simp add: run_started_def tame_def)
  have "calm s0" using assms(1) by (simp add: run_started_def calm_def)
  have r1: "r1 \<noteq> Inl (Pre_Dispatch ''CONFIG_FIDELITY'')" using assms(2,4) st by (auto simp: sequence_and_dispatch_def from_timeout_def)
  have c: "\<not> fc_rollback_unproven (st_ctx s1)" using calm_startup [OF st \<open>calm s0\<close> r1] by (simp add: calm_iff)
  have "s = s1 \<or> dispatch a i ag s1 = (s, r)" using assms(2) st by (auto simp: sequence_and_dispatch_def split: sum.splits)
  then show "\<not> fc_rollback_unproven (st_ctx s)" "result_json (wo_run (st_world s)) = result_json (wo_run w)"
    using dispatch_refused [of a i ag s1 s r] assms(3) c t by auto
qed

end
