(* ===== verification/Run_Start_Live.thy ===== *)
theory Run_Start_Live
  imports Run_Start_Spec Run_Finalize_Props
begin

text \<open>
  Progress of the drive: when every write succeeds, the writer takes every event and the agent answers, keeps its
  contract and honours its sets, a run that reuses its session gets to its prompt.
\<close>

section \<open>Actions that return\<close>

definition returns :: "('s start_state \<Rightarrow> bool) \<Rightarrow> ('s, 'a) act \<Rightarrow> ('a \<Rightarrow> 's start_state \<Rightarrow> bool) \<Rightarrow> bool" where
  "returns P m Q \<longleftrightarrow> (\<forall>s. P s \<longrightarrow> (\<exists>s' x. m s = (s', Inr x) \<and> Q x s'))"

lemma returnsD: "returns P m Q \<Longrightarrow> P s \<Longrightarrow> \<exists>s' x. m s = (s', Inr x) \<and> Q x s'"
  by (simp add: returns_def)

lemma returns_chain: "returns P m Q \<Longrightarrow> (\<And>x. returns (Q x) (g x) R) \<Longrightarrow> returns P (chain m g) R"
  unfolding returns_def chain_def by fastforce

lemma returns_give: "(\<And>s. P s \<Longrightarrow> Q x s) \<Longrightarrow> returns P (give x) Q"
  by (simp add: returns_def give_def)

lemma returns_update: "(\<And>s. P s \<Longrightarrow> Q () (f s)) \<Longrightarrow> returns P (update f) Q"
  by (simp add: returns_def update_def)

lemma chain_update [simp]: "chain (update f) g s = g () (f s)"
  by (simp add: chain_def update_def)

lemma returns_stays: "returns P m Q \<Longrightarrow> stays I m \<Longrightarrow> returns (\<lambda>s. P s \<and> I s) m (\<lambda>x s. Q x s \<and> I s)"
  unfolding returns_def stays_def by (metis fst_conv)

text \<open>The same with a postcondition on whatever ends the action.\<close>

definition comes :: "('s start_state \<Rightarrow> bool) \<Rightarrow> ('s, 'a) act \<Rightarrow> (start_exc + 'a \<Rightarrow> 's start_state \<Rightarrow> bool) \<Rightarrow> bool" where
  "comes P m R \<longleftrightarrow> (\<forall>s. P s \<longrightarrow> (\<exists>s' r. m s = (s', r) \<and> R r s'))"

lemma comesD: "comes P m R \<Longrightarrow> P s \<Longrightarrow> \<exists>s' r. m s = (s', r) \<and> R r s'"
  by (simp add: comes_def)

lemma comes_chain: "returns P m Q \<Longrightarrow> (\<And>x. comes (Q x) (g x) R) \<Longrightarrow> comes P (chain m g) R"
  unfolding returns_def comes_def chain_def by (metis (mono_tags, lifting) old.prod.case old.sum.simps(6))

lemma comes_returns: "returns P m Q \<Longrightarrow> comes P m (\<lambda>r s. \<exists>x. r = Inr x \<and> Q x s)"
  unfolding returns_def comes_def by blast

lemma returns_post: "returns P m Q' \<Longrightarrow> (\<And>x s. Q' x s \<Longrightarrow> Q x s) \<Longrightarrow> returns P m Q"
  unfolding returns_def by blast

section \<open>A run under way\<close>

text \<open>A session whose record is native, readable and not quarantined.\<close>

definition usable :: "string \<Rightarrow> store \<Rightarrow> bool" where
  "usable sid st \<longleftrightarrow>
     session_id_ok sid \<and>
     (\<exists>r. read_record (session_json (st sid)) = Inr r \<and> record_wf r \<and> dget r ''session_kind'' = PStr SESSION_KIND_NATIVE \<and>
          dget r ''quarantine'' = PNone)"

lemma commit_usable:
  assumes "usable sid st" "set (map fst ch) \<subseteq> set DECLARED_RECORD_FIELDS - {''session_kind'', ''quarantine''}"
  shows "\<exists>st' u. commit_fields Io_Ok sid ch st = (st', Inr u) \<and> usable sid st'"
proof -
  obtain r where r: "session_id_ok sid" "read_record (session_json (st sid)) = Inr r" "record_wf r"
    "dget r ''session_kind'' = PStr SESSION_KIND_NATIVE" "dget r ''quarantine'' = PNone"
    using assms(1) by (auto simp: usable_def)
  define u where "u = fold (\<lambda>(k, v). dset k v) ch r"
  have dir: "require_session_dir st sid = Inr (st sid)"
    using r(1,2) by (cases "session_json (st sid)") (auto simp: require_session_dir_def read_record_def)
  have keep: "dget u k = dget r k" if "k \<in> {''session_kind'', ''quarantine''}" for k
  proof -
    have "dget (fold (\<lambda>(k, v). dset k v) ch r) k = dget r k" if "k \<notin> set (map fst ch)" for ch and r :: pydict
      using that by (induction ch arbitrary: r) auto
    then show ?thesis using assms(2) that by (auto simp: u_def)
  qed
  have keys: "set (map fst u) \<subseteq> set DECLARED_RECORD_FIELDS"
  proof -
    have "set (map fst (fold (\<lambda>(k, v). dset k v) ch r)) = set (map fst ch) \<union> set (map fst r)" for ch and r :: pydict
      by (induction ch arbitrary: r) (simp_all add: case_prod_beta)
    then show ?thesis using assms(2) r(3) by (simp add: u_def record_wf_def del: set_map) blast
  qed
  have read: "read_record (Doc (PDict (record_to_dict u))) = Inr (new_record (record_to_dict u))"
    using record_to_dict_keys [of u] keys by (simp add: read_record_def record_from_dict_def list_all_iff) blast
  have "dget (record_to_dict u) ''session_kind'' = dget u ''session_kind''" "dget (record_to_dict u) ''quarantine'' = PNone"
    using keep r(4,5) by (auto simp: record_to_dict_def Let_def dget_del_when dget_ddel LEGACY_ONLY_FIELDS_def NATIVE_FIELDS_def)
  then have new: "dget (new_record (record_to_dict u)) ''session_kind'' = PStr SESSION_KIND_NATIVE"
    "dget (new_record (record_to_dict u)) ''quarantine'' = PNone"
    using keep r(4) by (simp_all add: dget_new_record DECLARED_RECORD_FIELDS_def)
  have "commit_fields Io_Ok sid ch st = (st(sid := (st sid)\<lparr>session_json := Doc (PDict (record_to_dict u))\<rparr>), Inr u)"
    using dir r(2,5) by (simp add: commit_fields_def u_def Let_def)
  then show ?thesis using r(1) read new by (auto simp: usable_def)
qed

lemma commits_usable:
  assumes "usable sid st"
  shows "\<exists>st' u. commit_last_effective Io_Ok sid m f t st = (st', Inr u) \<and> usable sid st'"
    "\<exists>st' u. commit_observation a Io_Ok sid ob st = (st', Inr u) \<and> usable sid st'"
  using commit_usable [OF assms, of "[(''last_effective_model'', PStr m), (''last_effective_effort'', PStr f), (''updated_at'', PStr t)]"]
    commit_usable [OF assms, of "[(''native_last_agent_info_name'', PStr (fst (self_report (rn_repr a) ob))),
      (''native_last_agent_info_version'', PStr (snd (self_report (rn_repr a) ob))),
      (''native_last_advertised_capabilities'', PList (map PStr (advertised ob))), (''updated_at'', PStr (rn_moment a))]"]
  by (simp_all add: commit_last_effective_def commit_observation_def commit_last_observation_def DECLARED_RECORD_FIELDS_def list_all_iff)

definition smooth :: "start_io \<Rightarrow> bool" where
  "smooth i \<longleftrightarrow>
     so_unlink i = Io_Ok \<and> so_lock i = Io_Ok \<and> so_holder i = Io_Ok \<and> so_spawn i = None \<and> so_open i \<and> so_evidence i = Io_Ok \<and>
     so_observe i = Io_Ok \<and> so_commit i = Io_Ok \<and> so_effective i = Io_Ok \<and> so_progress i = Io_Ok \<and> so_dispatch i = Io_Ok \<and>
     (\<forall>n. so_emit i n = None) \<and> so_can_accept i"

text \<open>The wire is up, nothing failed so far, the agent has the given state.\<close>

definition going :: "string \<Rightarrow> 's \<Rightarrow> 's start_state \<Rightarrow> bool" where
  "going sid x s \<longleftrightarrow>
     dr_agent (st_driver s) = x \<and> \<not> fc_pipeline_error (st_ctx s) \<and> fc_session (st_ctx s) = Some sid \<and>
     \<not> fc_pending_creation (st_ctx s) \<and> \<not> fc_dispatch_started (st_ctx s) \<and> usable sid (wo_store (st_world s)) \<and>
     dispatch_started (wo_run (st_world s)) = Absent \<and> st_effective s = Absent"

lemma going_quiet:
  assumes "smooth i"
  shows "returns (going sid x) (emit i ev) (\<lambda>_. going sid x)"
    "returns (going sid x) (record_summary su) (\<lambda>_. going sid x)" "returns (going sid x) (agent_session ext) (\<lambda>_. going sid x)"
    "returns (going sid x) (record_proven m f) (\<lambda>_. going sid x)" "returns (going sid x) (on_wire y) (\<lambda>_. going sid x)"
    "k \<noteq> Dispatch_Started \<Longrightarrow> returns (going sid x) (write_config_marker a io k) (\<lambda>_. going sid x)"
  using assms
  by (auto simp: returns_def going_def smooth_def emit_def chain_def give_def submit_event_def record_summary_def agent_session_def
      record_proven_def on_wire_def update_def write_config_marker_def write_marker_def Let_def split: prod.splits)
    (cases k; simp)

lemma going_emit_all: "smooth i \<Longrightarrow> returns (going sid x) (emit_all i evs) (\<lambda>_. going sid x)"
  by (induction evs) (auto intro: returns_give returns_chain going_quiet)

lemma going_commits:
  assumes "smooth i"
  shows "returns (going sid x) (commit_pending_observation a i) (\<lambda>_. going sid x)"
    "returns (going sid x) (commit_effective a (so_commit i) m f) (\<lambda>_. going sid x)"
proof -
  have store: "returns (going sid x) (in_store g) (\<lambda>_. going sid x)"
    if g: "\<And>st. usable sid st \<Longrightarrow> \<exists>st' u. g st = (st', Inr u) \<and> usable sid st'" for g :: "store \<Rightarrow> store \<times> (session_error + session_record)"
    unfolding returns_def
  proof (intro allI impI)
    fix s :: "'a start_state" assume s: "going sid x s"
    then obtain st' u where "g (wo_store (st_world s)) = (st', Inr u)" "usable sid st'" using g by (fastforce simp: going_def)
    then show "\<exists>s' y. in_store g s = (s', Inr y) \<and> going sid x s'" using s by (auto simp: in_store_def going_def)
  qed
  have "returns (going sid x) (chain (in_store (commit_observation a Io_Ok sid ob)) (\<lambda>_. update (\<lambda>s. s\<lparr>st_held := None\<rparr>))) (\<lambda>_. going sid x)" for ob
    by (rule returns_chain [OF store [OF commits_usable(2)]], assumption, rule returns_update) (simp add: going_def)
  then show "returns (going sid x) (commit_pending_observation a i) (\<lambda>_. going sid x)"
    using assms by (fastforce simp: returns_def commit_pending_observation_def going_def smooth_def give_def split: option.splits)
  have "returns (going sid x) (chain (in_store (commit_last_effective Io_Ok sid m f (rn_moment a))) (\<lambda>_. give ())) (\<lambda>_. going sid x)"
    by (rule returns_chain [OF store [OF commits_usable(1)]], assumption, rule returns_give)
  then show "returns (going sid x) (commit_effective a (so_commit i) m f) (\<lambda>_. going sid x)"
    using assms by (fastforce simp: returns_def commit_effective_def going_def smooth_def)
qed

section \<open>The way to the prompt\<close>

text \<open>An agent that answers \<^verbatim>\<open>initialize\<close> with a summary and a load with its option set, and whose client
  never saw a foreign session; a willing one honours its sets as well.\<close>

definition answering :: "pydict list acp_agent \<Rightarrow> init_summary \<Rightarrow> bool" where
  "answering ag su \<longleftrightarrow>
     (\<forall>x. ag_initialize ag x = (x, Some su) \<and> (\<forall>ext. ag_load_session ag x ext = (x, Some (Some x)))) \<and>
     ag_identity_ok ag = (\<lambda>x. True)"

definition willing :: "pydict list acp_agent \<Rightarrow> init_summary \<Rightarrow> bool" where
  "willing ag su \<longleftrightarrow> answering ag su \<and> ag_set_option ag = honest"

lemma willing_answering: "willing ag su \<Longrightarrow> answering ag su"
  by (simp add: willing_def)

lemma going_observe:
  assumes "smooth i" "contract_kept (rn_profile a) (rn_entry a) (observed_of su)" "su_load_session su"
  shows "returns (\<lambda>s. going sid x s \<and> st_evidence s = Absent) (observe_initialize a i su) (\<lambda>_. going sid x)"
  unfolding returns_def
proof (intro allI impI)
  fix s :: "'a start_state" assume s: "going sid x s \<and> st_evidence s = Absent"
  let ?v = "judge_initialize (rn_repr a) (rn_profile a) (rn_entry a) (observed_of su) (st_previous s)"
  have ok: "vd_refusal ?v = None" using assms(2) by (simp add: judge_initialize_def contract_verdict_None)
  have ev: "returns (\<lambda>s. going sid x s \<and> st_evidence s = Absent) (write_evidence i (to_evidence ?v)) (\<lambda>_. going sid x)"
    using assms(1) by (auto simp: returns_def write_evidence_def write_once_def smooth_def going_def)
  have held: "returns (going sid x) (update (\<lambda>s. s\<lparr>st_held := Some (observed_of su)\<rparr>)) (\<lambda>_. going sid x)"
    by (rule returns_update) (simp add: going_def)
  have "returns (\<lambda>s. going sid x s \<and> st_evidence s = Absent)
      (chain (write_evidence i (to_evidence ?v)) (\<lambda>_. chain (emit_all i (vd_warnings ?v)) (\<lambda>_.
        chain (update (\<lambda>s. s\<lparr>st_held := Some (observed_of su)\<rparr>)) (\<lambda>_. commit_pending_observation a i)))) (\<lambda>_. going sid x)"
    by (rule returns_chain [OF ev], rule returns_chain [OF going_emit_all [OF assms(1)]], rule returns_chain [OF held],
        rule going_commits(1) [OF assms(1)])
  from returnsD [OF this s] show "\<exists>s' y. observe_initialize a i su s = (s', Inr y) \<and> going sid x s'"
    using ok assms(3) by (simp add: observe_initialize_def Let_def)
qed

lemma going_load:
  assumes "smooth i" "answering ag su" "su_load_session su" "parse_options (Some x) = Inr parsed"
  shows "returns (\<lambda>s. going sid x s \<and> core s = (acts, m0, [], False, False) \<and> phase m0 = Init) (load_arm i ag su ext)
     (\<lambda>_ s. going sid x s \<and> (\<exists>m1. record_initial_options (Some x) m0 = (m1, Inr ()) \<and>
        core s = (acts @ [Load_Session ext], m1, [], False, False)))"
  unfolding returns_def
proof (intro allI impI)
  fix s assume s: "going sid x s \<and> core s = (acts, m0, [], False, False) \<and> phase m0 = Init"
  obtain m1 where m1: "record_initial_options (Some x) m0 = (m1, Inr ())"
    using s assms(4) by (auto simp: record_initial_options_def)
  show "\<exists>s' y. load_arm i ag su ext s = (s', Inr y) \<and> going sid x s' \<and>
      (\<exists>m1. record_initial_options (Some x) m0 = (m1, Inr ()) \<and> core s' = (acts @ [Load_Session ext], m1, [], False, False))"
    using s assms m1
    by (auto simp: load_arm_def chain_def emit_def submit_event_def smooth_def give_def driver_load_session_def on_wire_def update_def
        call_agent_def answering_def with_agent_def take_options_def check_identity_def agent_session_def going_def core_def Let_def)
qed

lemma going_announce:
  assumes "smooth i" "going sid x s" "core s = (acts, m, [], False, False)"
  obtains t where "announce_switch a i s = (t, Inr ())" "going sid x t" "core t = core s"
    "(st_driver t)\<lparr>dr_machine := m\<rparr> = opened_run m x"
proof -
  obtain t where t: "write_config_marker a (so_switch i) Switch_Begun s = (t, Inr ())" "going sid x t"
    using returnsD [OF going_quiet(6) [OF assms(1), of Switch_Begun sid x a "so_switch i"] assms(2)] by auto
  have core: "core t = core s"
    using staysD [OF core_config_marker, of s "core s" a "so_switch i" Switch_Begun] t(1) by (metis fst_conv)
  show ?thesis using that [of t] t core assms(3) by (simp add: announce_switch_def core_def going_def opened_run_def)
qed

lemma going_configure:
  assumes "smooth i" "willing ag su" "new_machine mode mid eid rm re pid pm = Inr m0"
    "record_initial_options (Some x) m0 = (m1, Inr ())" "parse_options (Some x) = Inr parsed" "offers parsed m0"
  shows "returns (\<lambda>s. going sid x s \<and> core s = (acts, m1, [], False, False)) (configure_run a i ag)
     (\<lambda>pair s. pair = (rm, re) \<and> (\<exists>y. going sid y s) \<and> require_ready (dr_machine (st_driver s)) = Inr (rm, re))"
  unfolding returns_def
proof (intro allI impI)
  fix s assume s: "going sid x s \<and> core s = (acts, m1, [], False, False)"
  obtain t where t: "announce_switch a i s = (t, Inr ())" "going sid x t" "core t = core s"
    "(st_driver t)\<lparr>dr_machine := m1\<rparr> = opened_run m1 x"
    by (rule going_announce [OF assms(1)]) (use s in auto)
  obtain r where r: "set_config_exact honest (\<lambda>x. True) True True (opened_run m1 x) = (r, Inr (rm, re))"
    using honest_configured [OF assms(3,4,5,6) refl] by blast
  have "require_ready (dr_machine r) = Inr (rm, re)"
    using set_config_wire [OF r, of m1] opened(1,4) [OF assms(3,4)] by (simp add: opened_run_def)
  then show "\<exists>s' y. configure_run a i ag s = (s', Inr y) \<and> y = (rm, re) \<and> (\<exists>z. going sid z s') \<and>
      require_ready (dr_machine (st_driver s')) = Inr (rm, re)"
    using s t r assms(2)
    by (auto simp: configure_run_def configure_def driver_configure_def chain_def update_def give_def willing_def answering_def core_def going_def Let_def)
qed

text \<open>A set that the startup timeout interrupts.\<close>

lemma going_interrupted:
  assumes "smooth i" "set_config_exact (ag_set_option ag) (ag_identity_ok ag) True True (opened_run m1 x) = (r, Inl Native_Driver_Error)"
    "ag_interrupt ag (dr_agent r) = Some Startup_Timeout"
  shows "comes (\<lambda>s. going sid x s \<and> core s = (acts, m1, [], False, False)) (configure_run a i ag)
     (\<lambda>out s. out = Inl (Interrupted Startup_Timeout) \<and> going sid (dr_agent r) s \<and> set (set_acts (dr_wire r)) \<subseteq> fst ` set (st_wire s))"
  unfolding comes_def
proof (intro allI impI)
  fix s assume s: "going sid x s \<and> core s = (acts, m1, [], False, False)"
  obtain t where t: "announce_switch a i s = (t, Inr ())" "going sid x t" "core t = core s"
    "(st_driver t)\<lparr>dr_machine := m1\<rparr> = opened_run m1 x"
    by (rule going_announce [OF assms(1)]) (use s in auto)
  then show "\<exists>s' out. configure_run a i ag s = (s', out) \<and> out = Inl (Interrupted Startup_Timeout) \<and> going sid (dr_agent r) s' \<and>
      set (set_acts (dr_wire r)) \<subseteq> fst ` set (st_wire s')"
    using s assms(2,3)
    by (auto simp: configure_run_def configure_def driver_configure_def chain_def stop_def core_def going_def Let_def image_Un image_image)
qed

text \<open>The configuration is on record and the writer still takes events: the dispatch goes out.\<close>

definition poised :: "'s start_state \<Rightarrow> bool" where
  "poised s \<longleftrightarrow> \<not> fc_pipeline_error (st_ctx s) \<and> dispatch_started (wo_run (st_world s)) = Absent"

lemma going_recorded:
  assumes "smooth i"
  shows "returns (going sid x) (record_configuration a i pair) (\<lambda>_. poised)"
proof -
  have "returns (going sid x) (chain (write_effective i) (\<lambda>_. write_running a i)) (\<lambda>_. poised)"
    using assms
    by (auto simp: returns_def chain_def write_effective_def write_running_def write_once_def smooth_def going_def poised_def Let_def)
  then show ?thesis unfolding record_configuration_def
    by (intro returns_chain [OF going_quiet(6) [OF assms]] returns_chain [OF going_quiet(4) [OF assms]]
        returns_chain [OF going_commits(2) [OF assms]]) simp
qed

lemma poised_prompts:
  assumes "smooth i" "willing ag su" "poised s" "require_ready (dr_machine (st_driver s)) = Inr pair"
  shows "Prompted \<in> fst ` set (st_wire (fst (dispatch a i ag s)))"
proof -
  define s1 where "s1 = fst (write_marker a Io_Ok Dispatch_Started s :: _ \<times> (start_exc + unit))"
  define s2 where "s2 = s1\<lparr>st_ctx := (st_ctx s1)\<lparr>fc_dispatch_started := True\<rparr>\<rparr>"
  define s3 where "s3 = s2\<lparr>st_emits := Suc (st_emits s2), st_events := st_events s2 @ [type_event ''session_prompt_sent'']\<rparr>"
  have m: "write_marker a Io_Ok Dispatch_Started s = (s1, Inr ())"
    using assms(3) by (simp add: s1_def write_marker_def write_once_def poised_def Let_def)
  have keep: "st_driver s1 = st_driver s" "fc_pipeline_error (st_ctx s1) = fc_pipeline_error (st_ctx s)"
    by (simp_all add: s1_def write_marker_def Let_def split: prod.splits)
  have e: "dispatch a i ag s = prompt_once a i ag s3"
    using assms(1,3) m keep
    by (simp add: dispatch_def chain_def update_def submit_event_def smooth_def poised_def s2_def s3_def Let_def)
  have ready: "require_ready (dr_machine (st_driver s3)) = Inr pair" using assms(4) keep by (simp add: s2_def s3_def)
  obtain y b ans where ans: "ag_prompt ag (dr_agent (st_driver s3)) = (y, b, ans)" by (cases "ag_prompt ag (dr_agent (st_driver s3))")
  let ?s4 = "with_agent y (s3\<lparr>st_wire := st_wire s3 @ [(Prompted, st_world s3)]\<rparr>)"
  let ?m = "chain (if b then write_config_marker a (so_accept i) Prompt_Accepted else give ()) (\<lambda>_. prompt_answered a i ag ans)"
  have "prompt_once a i ag s3 = ?m ?s4"
    using ready assms(2) ans by (simp add: prompt_once_def willing_def answering_def on_wire_def)
  moreover have "stays (\<lambda>t. trail t = trail ?s4 \<and> type_event ''session_prompt_sent'' \<in> set (st_events t)) ?m"
    by (intro stays_intros trail_accept trail_answered)
  then have "trail (fst (?m ?s4)) = trail ?s4" by (rule staysD [THEN conjunct1]) (simp add: with_agent_def s3_def)
  ultimately show ?thesis using e by (simp add: trail_def with_agent_def)
qed

section \<open>The drive\<close>

text \<open>The wire is up and no evidence is written yet.\<close>

abbreviation fresh_run :: "string \<Rightarrow> 's \<Rightarrow> wire_act list \<Rightarrow> machine \<Rightarrow> 's start_state \<Rightarrow> bool" where
  "fresh_run sid x acts m s \<equiv> (going sid x s \<and> st_evidence s = Absent) \<and> core s = (acts, m, [], False, False)"

lemma fresh_run_steps:
  assumes "smooth i" "answering ag su"
  shows "returns (fresh_run sid x acts m) (emit i ev) (\<lambda>_. fresh_run sid x acts m)"
    "returns (fresh_run sid x acts m) (if so_open i then give () else stop Other_Exception) (\<lambda>_. fresh_run sid x acts m)"
    "returns (fresh_run sid x acts m) (driver_initialize ag) (\<lambda>su' s. su' = su \<and> fresh_run sid x (acts @ [Initialized]) m s)"
    "returns (fresh_run sid x acts m) (record_summary su) (\<lambda>_. fresh_run sid x acts m)"
  using assms
  by (auto simp: returns_def going_def core_def smooth_def answering_def emit_def chain_def give_def submit_event_def
      driver_initialize_def on_wire_def update_def call_agent_def with_agent_def record_summary_def Let_def)

lemma going_open:
  assumes "smooth i" "answering ag su" "contract_kept (rn_profile a) (rn_entry a) (observed_of su)" "su_load_session su"
    "phase m0 = Init" "parse_options (Some x) = Inr parsed" "record_initial_options (Some x) m0 = (m1, Inr ())"
    "\<And>acts. comes (\<lambda>s. going sid x s \<and> core s = (acts, m1, [], False, False)) (configure_run a i ag) R"
  shows "comes (fresh_run sid x acts m0) (open_and_configure a i ag (LoadSessionPlan sid ext)) R"
proof -
  let ?acts = "acts @ [Initialized]"
  have observe: "returns (fresh_run sid x ?acts m0) (observe_initialize a i su)
      (\<lambda>_ s. going sid x s \<and> core s = (?acts, m0, [], False, False))"
    by (rule returns_stays [OF going_observe [OF assms(1,3,4)] core_observe])
  have load: "returns (\<lambda>s. going sid x s \<and> core s = (?acts, m0, [], False, False)) (load_arm i ag su ext)
      (\<lambda>_ s. going sid x s \<and> core s = (?acts @ [Load_Session ext], m1, [], False, False))"
    using going_load [OF assms(1,2,4,6), of sid ?acts m0 ext] assms(5,7) by (simp add: returns_def)
  have rest: "comes (fresh_run sid x ?acts m0) (chain (record_summary su) (\<lambda>_. chain (observe_initialize a i su) (\<lambda>_.
      chain (load_arm i ag su ext) (\<lambda>_. configure_run a i ag)))) R"
    by (rule comes_chain [OF fresh_run_steps(4) [OF assms(1,2)]], rule comes_chain [OF observe], rule comes_chain [OF load], rule assms(8))
  have "comes (\<lambda>s. su' = su \<and> fresh_run sid x ?acts m0 s) (chain (record_summary su') (\<lambda>_. chain (observe_initialize a i su') (\<lambda>_.
      chain (load_arm i ag su' ext) (\<lambda>_. configure_run a i ag)))) R" for su'
    using rest by (auto simp: comes_def)
  then show ?thesis unfolding open_and_configure_def start_plan.case
    by (intro comes_chain [OF fresh_run_steps(1) [OF assms(1,2)]] comes_chain [OF fresh_run_steps(2) [OF assms(1,2)]]
        comes_chain [OF fresh_run_steps(3) [OF assms(1,2)]])
qed

text \<open>Binding and recording the child keep the record; a bound session is usable.\<close>

lemma lease_keeps_record:
  "acquire_lease a i sid False st = (st', l, r) \<Longrightarrow> session_json (st' sid) = session_json (st sid)"
  "record_child a i sid tok st = (st', r') \<Longrightarrow> session_json (st' sid) = session_json (st sid)"
  by (auto simp: acquire_lease_def acquire_lock_def record_child_def update_lock_holder_def require_session_dir_def Let_def
      split: sum.splits prod.splits pyval.splits if_splits bool.splits)

lemma bound_usable:
  assumes "bind_session a i st = (st1, lock, Inr b)" "rn_session a = Some sid" "smooth i"
  obtains ext st2 where "bd_plan b = LoadSessionPlan sid ext" "record_spawned a i lock st1 = (st2, Inr ())" "usable sid st2"
proof -
  obtain r ext where r: "open_session st sid = Inr r" "validate_native_binding r (rn_identity a) True = Inr ()"
    "bd_plan b = LoadSessionPlan sid ext"
    using bound_session(1) [OF assms(1)] assms(2) by (auto simp: plan_of_def)
  have ok: "session_id_ok sid" "read_record (session_json (st sid)) = Inr r"
    using r(1) by (auto simp: open_session_def require_session_dir_def split: sum.splits bool.splits if_splits)
  obtain u where "acquire_lease a i sid False st = (st1, lock, Inr u)"
    using assms(1,2) by (auto simp: bind_session_def split: sum.splits prod.splits session_error.splits)
  then have st1: "session_json (st1 sid) = session_json (st sid)" by (rule lease_keeps_record)
  obtain d where d: "lock = Some (rn_token a)" "owned_lock (rn_token a) (lock_json (st1 sid)) = Inr d"
    using bound_session(3) [OF assms(1,2)] by (auto simp: lease_ours_def)
  have "require_session_dir st1 sid = Inr (st1 sid)"
    using ok st1 by (cases "session_json (st sid)") (auto simp: require_session_dir_def read_record_def)
  then obtain st2 where st2: "record_child a i sid (rn_token a) st1 = (st2, Inr ())"
    using d(2) assms(3) by (simp add: record_child_def update_lock_holder_def smooth_def Let_def)
  have "session_json (st2 sid) = session_json (st sid)" using lease_keeps_record(2) [OF st2] st1 by simp
  then have "usable sid st2"
    using ok r(2) read_record_wf [OF ok(2)] by (auto simp: usable_def validate_native_binding_def Let_def split: if_splits)
  then show ?thesis using that [OF r(3)] st2 d(1) assms(2) by (simp add: record_spawned_def)
qed

text \<open>What the agent must have reported and offered, and the session and the files the run must have found.\<close>

definition ready_to_drive :: "run_args \<Rightarrow> start_io \<Rightarrow> init_summary \<Rightarrow> machine \<Rightarrow> world \<Rightarrow> bool" where
  "ready_to_drive a i su m0 w \<longleftrightarrow>
     smooth i \<and> rn_session a \<noteq> None \<and> \<not> isl (snd (snd (bind_session a i (wo_store w)))) \<and> dispatch_started (wo_run w) = Absent \<and>
     contract_kept (rn_profile a) (rn_entry a) (observed_of su) \<and> su_load_session su \<and>
     run_machine a (rn_model a) (rn_effort a) = Some (Inr m0)"

lemma machine_init: "run_machine a m f = Some (Inr m0) \<Longrightarrow> phase m0 = Init"
  by (auto simp: run_machine_def new_machine_def Let_def split: if_splits sum.splits)

lemma initial_options: "phase m0 = Init \<Longrightarrow> parse_options (Some x) = Inr parsed \<Longrightarrow> \<exists>m1. record_initial_options (Some x) m0 = (m1, Inr ())"
  by (auto simp: record_initial_options_def)

lemma drive_opens:
  assumes "rn_session a = Some sid" "ready_to_drive a i su m0 w" "answering ag su"
    "parse_options (Some x) = Inr parsed" "record_initial_options (Some x) m0 = (m1, Inr ())"
    "\<And>acts. comes (\<lambda>s. going sid x s \<and> core s = (acts, m1, [], False, False)) (configure_run a i ag) R"
  obtains plan s0 t out where "open_and_configure a i ag plan s0 = (t, out)" "R out t"
    "drive a i ag x w = (case sequence_and_dispatch a i ag plan s0 of (s, r) \<Rightarrow> Driven s r)"
proof -
  have d: "smooth i" "dispatch_started (wo_run w) = Absent" "contract_kept (rn_profile a) (rn_entry a) (observed_of su)"
    "su_load_session su" "run_machine a (rn_model a) (rn_effort a) = Some (Inr m0)"
    using assms(2) by (simp_all add: ready_to_drive_def)
  obtain st1 lock answer where bound: "bind_session a i (wo_store w) = (st1, lock, answer)" by (rule prod_cases3)
  then obtain b where bind: "bind_session a i (wo_store w) = (st1, lock, Inr b)"
    using assms(2) by (cases answer) (simp_all add: ready_to_drive_def)
  obtain ext st2 where b: "bd_plan b = LoadSessionPlan sid ext" "record_spawned a i lock st1 = (st2, Inr ())" "usable sid st2"
    by (rule bound_usable [OF bind assms(1) d(1)])
  let ?s0 = "started_run a b (bound_ctx a lock) m0 x (w\<lparr>wo_store := st2\<rparr>)"
  have "fresh_run sid x [Spawned] m0 ?s0"
    using b(3) assms(1) d(2) by (simp add: going_def core_def started_run_def bound_ctx_def no_ctx_def)
  then obtain t out where t: "open_and_configure a i ag (LoadSessionPlan sid ext) ?s0 = (t, out)" "R out t"
    using comesD [OF going_open [OF d(1) assms(3) d(3,4) machine_init [OF d(5)] assms(4-6)]] by metis
  show ?thesis using that [OF t] bind b(1,2) d(1,5) by (simp add: drive_def smooth_def Let_def)
qed

lemma willing_prompts:
  assumes "rn_session a = Some sid" "ready_to_drive a i su m0 w" "willing ag su"
    "parse_options (Some x) = Inr parsed" "offers parsed m0"
  obtains s r where "drive a i ag x w = Driven s r" "Prompted \<in> fst ` set (st_wire s)"
proof -
  have d: "smooth i" "run_machine a (rn_model a) (rn_effort a) = Some (Inr m0)"
    using assms(2) by (simp_all add: ready_to_drive_def)
  obtain mode mid eid pid pm where new: "new_machine mode mid eid (rn_model a) (rn_effort a) pid pm = Inr m0"
    using d(2) by (auto simp: run_machine_def)
  obtain m1 where m1: "record_initial_options (Some x) m0 = (m1, Inr ())"
    using initial_options [OF machine_init [OF d(2)] assms(4)] by blast
  obtain plan s0 t out where t: "open_and_configure a i ag plan s0 = (t, out)"
      "\<exists>pair. out = Inr pair \<and> pair = (rn_model a, rn_effort a) \<and> (\<exists>y. going sid y t) \<and>
         require_ready (dr_machine (st_driver t)) = Inr (rn_model a, rn_effort a)"
      "drive a i ag x w = (case sequence_and_dispatch a i ag plan s0 of (s, r) \<Rightarrow> Driven s r)"
    by (rule drive_opens [OF assms(1,2) willing_answering [OF assms(3)] assms(4) m1
          comes_returns [OF going_configure [OF d(1) assms(3) new m1 assms(4,5)]]])
  then obtain y where y: "going sid y t" "require_ready (dr_machine (st_driver t)) = Inr (rn_model a, rn_effort a)" by blast
  let ?pair = "(rn_model a, rn_effort a)"
  obtain s1 where s1: "record_configuration a i ?pair t = (s1, Inr ())" "poised s1"
    using returnsD [OF going_recorded [OF d(1), of sid y a ?pair] y(1)] by auto
  have "core s1 = core t" using staysD [OF recorded_core, of t "core t" a i ?pair] s1(1) by simp
  then have ready: "require_ready (dr_machine (st_driver s1)) = Inr ?pair" using y(2) by (simp add: core_def)
  have "sequence_and_dispatch a i ag plan s0 = dispatch a i ag s1"
    using t(1,2) s1(1) by (simp add: sequence_and_dispatch_def startup_sequence_def chain_def on_wire_failure_def)
  then have "drive a i ag x w = Driven (fst (dispatch a i ag s1)) (snd (dispatch a i ag s1))" using t(3) by (simp add: split_beta)
  then show ?thesis using that poised_prompts [OF d(1) assms(3) s1(2) ready] by blast
qed

lemma switch_times_out:
  assumes "rn_session a = Some sid" "ready_to_drive a i su m0 w" "answering ag su"
    "parse_options (Some x) = Inr parsed" "record_initial_options (Some x) m0 = (m1, Inr ())"
    "set_config_exact (ag_set_option ag) (ag_identity_ok ag) True True (opened_run m1 x) = (r, Inl Native_Driver_Error)"
    "ag_interrupt ag (dr_agent r) = Some Startup_Timeout"
  obtains s where "drive a i ag x w = Driven s (Inl (Pre_Dispatch ''STARTUP_TIMEOUT''))" "going sid (dr_agent r) s"
    "set (set_acts (dr_wire r)) \<subseteq> fst ` set (st_wire s)"
proof -
  have smooth: "smooth i" using assms(2) by (simp add: ready_to_drive_def)
  obtain plan s0 t out where t: "open_and_configure a i ag plan s0 = (t, out)"
      "out = Inl (Interrupted Startup_Timeout) \<and> going sid (dr_agent r) t \<and> set (set_acts (dr_wire r)) \<subseteq> fst ` set (st_wire t)"
      "drive a i ag x w = (case sequence_and_dispatch a i ag plan s0 of (s, r) \<Rightarrow> Driven s r)"
    by (rule drive_opens [OF assms(1-5) going_interrupted [OF smooth assms(6,7)]])
  then have "sequence_and_dispatch a i ag plan s0 = (t, Inl (Pre_Dispatch ''STARTUP_TIMEOUT''))"
    by (simp add: sequence_and_dispatch_def startup_sequence_def chain_def on_wire_failure_def from_timeout_def)
  then show ?thesis using that t(2,3) by simp
qed

end
