(* ===== verification/Run_Start_Props.thy ===== *)
theory Run_Start_Props
  imports Run_Start_Live
begin

text \<open>
  What the drive of a run guarantees: the prompt goes out only behind its proofs and markers, a reuse request never
  creates, a creation that the agent did not answer leaves nothing, and what an observed report may decide; and what the
  drive does not guarantee, the configuration of a session whose startup timed out.
\<close>

section \<open>The prompt\<close>

lemma machine_of_run:
  "run_machine a m f = Some (Inr m0) \<Longrightarrow> \<exists>mode mid eid pid pm. new_machine mode mid eid m f pid pm = Inr m0"
  by (auto simp: run_machine_def) blast

lemma configured_pair:
  assumes "new_machine mode mid eid rm re pid pm = Inr m0" "record_initial_options os m0 = (m1, Inr ())"
    "configured m1 m pair"
  shows "pair = (rm, re)"
  using assms(3) opened(6,7) [OF assms(1,2)] ready_exact [of m "fst pair" "snd pair"]
  by (cases pair) (auto simp: configured_def runs_def same_request_def)

lemma startup_to_prompt:
  assumes "startup_sequence a i ag plan s = (s', Inr u)" "core s = ([Spawned], m0, [], False, False)"
    "run_machine a (rn_model a) (rn_effort a) = Some (Inr m0)"
    "\<And>sid ext. plan = LoadSessionPlan sid ext \<Longrightarrow> held a sid s"
  obtains os m1 where "record_initial_options os m0 = (m1, Inr ())"
    "map fst (st_wire s') = [Spawned, Initialized, plan_frame plan] @ set_acts (planned_sets m1)"
    "held a (plan_session plan) s'" "effective_shows (rn_model a, rn_effort a) (st_effective s')"
proof -
  obtain mode mid eid pid pm where new: "new_machine mode mid eid (rn_model a) (rn_effort a) pid pm = Inr m0"
    using machine_of_run [OF assms(3)] by blast
  obtain t pair where t: "open_and_configure a i ag plan s = (t, Inr pair)" "record_configuration a i pair t = (s', Inr ())"
    by (rule startup_returns [OF assms(1)])
  have "to_prompt plan m0 pair (core t)"
    using yieldsD [OF yields_open_and_configure [OF new] _ t(1)] assms(2) by simp
  then obtain os m1 where o: "record_initial_options os m0 = (m1, Inr ())"
      "map fst (st_wire t) = [Spawned, Initialized, plan_frame plan] @ set_acts (planned_sets m1)"
      "configured m1 (dr_machine (st_driver t)) pair"
    by (auto simp: to_prompt_def core_def)
  have pair: "pair = (rn_model a, rn_effort a)" by (rule configured_pair [OF new o(1,3)])
  have "core s' = core t" using staysD [OF recorded_core, of t "core t"] t(2) by (metis fst_conv)
  moreover have "held a (plan_session plan) s'"
    using staysD [OF stays_lease_ours [OF recorded_lock], of a "plan_session plan" t a i pair] t(2) open_held [OF _ t(1)] assms(4) by simp
  moreover have "effective_shows pair (st_effective s')"
    using yieldsD [OF recorded_effective [of "\<lambda>_. True"] _ t(2)] by simp
  ultimately show ?thesis using that [OF o(1)] o(2) pair by (simp add: core_def)
qed

text \<open>C10. Whatever the agent answers and whatever writes fail, a prompt goes out at most once, as the last frame, and
  only after exactly the planned frames: the child was initialized, its session was created, for a request without a
  session, or else loaded under the external id of its valid and matching record, and every planned configuration set
  was written.  At that moment the dispatch marker is on disk and the session's lease is this run's; the effective
  configuration on record is the requested pair, and the event announcing the prompt has been taken by the writer.\<close>

theorem prompt_behind_proofs:
  assumes "drive a i ag x w = Driven s r" "(Prompted, w') \<in> set (st_wire s)"
  shows "\<exists>plan m0 os m1. plan_of a (wo_store w) plan \<and> run_machine a (rn_model a) (rn_effort a) = Some (Inr m0) \<and>
      record_initial_options os m0 = (m1, Inr ()) \<and>
      map fst (st_wire s) = [Spawned, Initialized, plan_frame plan] @ set_acts (planned_sets m1) @ [Prompted] \<and>
      (\<exists>d. dispatch_started (wo_run w') = Doc d) \<and>
      (\<exists>d. owned_lock (rn_token a) (lock_json (wo_store w' (session_of a))) = Inr d) \<and>
      effective_shows (rn_model a, rn_effort a) (st_effective s) \<and>
      type_event ''session_prompt_sent'' \<in> set (st_events s)"
proof -
  obtain plan m0 s0 where d: "run_started a w plan m0 s0" "sequence_and_dispatch a i ag plan s0 = (s, r)"
    by (rule driven [OF assms(1)])
  obtain s1 r1 where st: "startup_sequence a i ag plan s0 = (s1, r1)"
    by (cases "startup_sequence a i ag plan s0 :: _ \<times> (start_exc + unit)")
  have no: "Prompted \<notin> fst ` set (st_wire s1)"
    using staysD [OF tame_startup, of plan w s0 a i ag] d(1) st tame_unprompted by (force simp: run_started_def)
  obtain u where r1: "r1 = Inr u" using d(2) st no assms(2) by (cases r1) (force simp: sequence_and_dispatch_def)+
  have disp: "dispatch a i ag s1 = (s, r)" using d(2) st r1 by (simp add: sequence_and_dispatch_def)
  have "dispatched s1 s" using dispatch_trail [OF disp] no assms(2) by force
  then obtain e where e: "st_wire s = st_wire s1 @ [(Prompted, e)]" "\<exists>d. dispatch_started (wo_run e) = Doc d"
    "wo_store e = wo_store (st_world s1)" "type_event ''session_prompt_sent'' \<in> set (st_events s)" "st_effective s = st_effective s1"
    by (auto simp: dispatched_def)
  have "w' = e" using e(1) no assms(2) by force
  moreover obtain os m1 where "record_initial_options os m0 = (m1, Inr ())"
    "map fst (st_wire s1) = [Spawned, Initialized, plan_frame plan] @ set_acts (planned_sets m1)"
    "held a (plan_session plan) s1" "effective_shows (rn_model a, rn_effort a) (st_effective s1)"
    using d(1) by (blast intro: startup_to_prompt [OF st [unfolded r1]] dest: run_started_def [THEN iffD1])
  ultimately show ?thesis using d(1) e plan_of_session [of a "wo_store w" plan] by (auto simp: lease_ours_def run_started_def)
qed

section \<open>The session\<close>

text \<open>C11. A request that names a session never creates one and never leaves it: no \<^verbatim>\<open>session/new\<close> frame is
  written, every \<^verbatim>\<open>session/load\<close> carries exactly the external id of the session's record, which had to match
  the run's identity and carry no quarantine, no other session is touched, and when the session has no record the store
  is left as it was and nothing is started.\<close>

theorem reuse_never_creates:
  assumes "rn_session a = Some sid"
  shows "New_Session \<notin> fst ` set (driven_wire (drive a i ag x w)) \<and>
    (\<forall>ext. Load_Session ext \<in> fst ` set (driven_wire (drive a i ag x w)) \<longrightarrow>
       (\<exists>r. open_session (wo_store w) sid = Inr r \<and> dget r ''agent_session_id'' = PStr ext \<and>
            validate_native_binding r (rn_identity a) True = Inr ())) \<and>
    (\<forall>sid'. sid' \<noteq> sid \<longrightarrow> wo_store (driven_world (drive a i ag x w)) sid' = wo_store w sid') \<and>
    (session_json (wo_store w sid) = Absent \<longrightarrow> drive a i ag x w \<in> range (Not_Started (bound_ctx a None) w))"
proof (cases "drive a i ag x w")
  case (Not_Started c w' e)
  have "drive a i ag x w \<in> range (Not_Started (bound_ctx a None) w)" if "session_json (wo_store w sid) = Absent"
    using assms that
    by (auto simp: drive_def bind_session_def plan_reuse_session_def open_session_def require_session_dir_def)
  then show ?thesis using Not_Started assms not_started [OF Not_Started] by (simp add: session_of_def)
next
  case (Driven s r)
  obtain plan m0 s0 where d: "run_started a w plan m0 s0" "sequence_and_dispatch a i ag plan s0 = (s, r)"
    by (rule driven [OF Driven])
  obtain rec ext where p: "open_session (wo_store w) sid = Inr rec" "dget rec ''agent_session_id'' = PStr ext"
    "validate_native_binding rec (rn_identity a) True = Inr ()" "plan = LoadSessionPlan sid ext"
    using d(1) assms by (auto simp: run_started_def plan_of_def)
  have "session_json (wo_store w sid) \<noteq> Absent"
    using p(1) by (auto simp: open_session_def require_session_dir_def split: if_splits)
  then show ?thesis
    using Driven p assms driven_tame [OF d] by (auto simp: session_of_def plan_frames_def)
qed

text \<open>C24. A request for a new session touches the store only once the agent has been asked for one: as long as no
  \<^verbatim>\<open>session/new\<close> frame was written, nothing exists under the prospective id and the whole store is as it was;
  and whatever happens afterwards, no other session and no existing session's frame is touched: the run never loads.\<close>

theorem creation_waits_for_agent:
  assumes "rn_session a = None"
  shows "(New_Session \<in> fst ` set (driven_wire (drive a i ag x w)) \<or> wo_store (driven_world (drive a i ag x w)) = wo_store w) \<and>
    (\<forall>sid'. sid' \<noteq> rn_prospective a \<longrightarrow> wo_store (driven_world (drive a i ag x w)) sid' = wo_store w sid') \<and>
    (\<forall>ext. Load_Session ext \<notin> fst ` set (driven_wire (drive a i ag x w)))"
proof (cases "drive a i ag x w")
  case (Not_Started c w' e)
  then show ?thesis using assms not_started [OF Not_Started] by simp
next
  case (Driven s r)
  obtain plan m0 s0 where d: "run_started a w plan m0 s0" "sequence_and_dispatch a i ag plan s0 = (s, r)"
    by (rule driven [OF Driven])
  have "plan = CreateSessionPlan (rn_prospective a)" using d(1) assms by (simp add: run_started_def plan_of_def)
  then show ?thesis
    using Driven assms driven_tame [OF d] driven_created [OF d assms] by (auto simp: session_of_def plan_frames_def)
qed

section \<open>A startup that was interrupted\<close>

text \<open>Without a result, without a dispatch and without the flag, finalization only releases the lease.\<close>

lemma release_keeps:
  "session_json (release_lease i c st sid) = session_json (st sid)" "fence_json (release_lease i c st sid) = fence_json (st sid)"
  by (auto simp: release_lease_def release_lock_def require_session_dir_def split: option.splits sum.splits bool.splits if_splits)

lemma finalize_only_releases:
  assumes "result_json (wo_run w) = Absent" "\<not> fc_dispatch_started c" "\<not> fc_rollback_unproven c"
  shows "session_json (wo_store (fst (finalize fi fj e c w)) sid) = session_json (wo_store w sid) \<and>
    fence_json (wo_store (fst (finalize fi fj e c w)) sid) = fence_json (wo_store w sid)"
proof -
  have absent: "terminal_of e w = (TERM_ABSENT, None)" using assms(1) by (simp add: terminal_of_def terminal_entry_def)
  have status: "finalize_run_state (observations_of e c w) = (Some FAILED, Reusable)"
    using assms(2,3) absent by (simp add: finalize_run_state_def observations_of_def)
  have publish: "wo_store (fst (publish_result fi e c p w)) = wo_store w \<or>
      wo_store (fst (publish_result fi e c p w)) = release_lease fi c (wo_store w)" for p
    using assms(1) by (auto simp: publish_result_def write_once_def settle_terminal_def Let_def)
  have emergency: "wo_store (emergency_cleanup fj e c w) = wo_store w \<or>
      wo_store (emergency_cleanup fj e c w) = release_lease fj c (wo_store w)"
    using absent assms(1,2) by (auto simp: emergency_cleanup_def Let_def split: option.splits prod.splits)
  have "wo_store (fst (finalize fi fj e c w)) \<in> {wo_store w, release_lease fi c (wo_store w), release_lease fj c (wo_store w)}"
  proof (cases "fi_aux fi \<and> terminal_payload e c FAILED \<noteq> None")
    case True
    then obtain p where "terminal_payload e c FAILED = Some p" by blast
    then show ?thesis using True status publish [of p]
      by (auto simp: finalize_def finalize_inner_def publish_terminal_with_disposition_def Let_def split: prod.splits sum.splits)
  next
    case False
    then show ?thesis using status emergency by (auto simp: finalize_def finalize_inner_def)
  qed
  then show ?thesis using release_keeps by auto
qed

lemma absorb_flags [simp]:
  "fc_dispatch_started (absorb c r) = fc_dispatch_started c" "fc_rollback_unproven (absorb c r) = fc_rollback_unproven c"
  by (auto simp: absorb_def Let_def split: sum.splits start_exc.splits)

text \<open>C25. Only a failure of the wire or of the fidelity machine leads to a rollback or to quarantine: a run whose
  startup ends in any other way before the dispatch, by the startup timeout, by cancellation or by a failed write, is
  finalized without fencing its session, even when configuration sets have already reached the agent and nothing proved
  what it is configured to.  The session's record and fence are exactly as the drive left them.\<close>

theorem interrupted_startup_unfenced:
  assumes "drive a i ag x w = Driven s r" "r \<noteq> Inl (Pre_Dispatch ''CONFIG_FIDELITY'')" "\<not> fc_dispatch_started (st_ctx s)"
    "result_json (wo_run w) = Absent"
  shows "session_json (wo_store (fst (run_task a i fi fj e ag x w)) sid) = session_json (wo_store (st_world s) sid) \<and>
    fence_json (wo_store (fst (run_task a i fi fj e ag x w)) sid) = fence_json (wo_store (st_world s) sid)"
proof -
  obtain plan m0 s0 where d: "run_started a w plan m0 s0" "sequence_and_dispatch a i ag plan s0 = (s, r)"
    by (rule driven [OF assms(1)])
  show ?thesis
    using finalize_only_releases [of "st_world s" "absorb (st_ctx s) r" fi fj e sid] undispatched [OF d assms(3,2)] assms
    by (simp add: run_task_def)
qed

section \<open>What the report decides\<close>

definition observed_fields :: "string list" where
  "observed_fields = [''native_last_agent_info_name'', ''native_last_agent_info_version'', ''native_last_advertised_capabilities'']"

lemma to_dict_observed:
  "dget r ''session_kind'' = PStr SESSION_KIND_NATIVE \<Longrightarrow> k \<in> set observed_fields \<Longrightarrow> dget (record_to_dict r) k = dget r k"
  by (auto simp: record_to_dict_def Let_def dget_del_when dget_ddel observed_fields_def LEGACY_ONLY_FIELDS_def)

lemma declared_observed: "k \<in> set observed_fields \<Longrightarrow> k \<in> set DECLARED_RECORD_FIELDS"
  by (auto simp: observed_fields_def DECLARED_RECORD_FIELDS_def)

text \<open>What is read back after a committed observation carries it.\<close>

lemma committed_observation:
  assumes "open_session st sid = Inr r0" "dget r0 ''session_kind'' = PStr SESSION_KIND_NATIVE"
    "commit_observation a io sid ob st = (st', Inr u)"
  shows "\<exists>r. open_session st' sid = Inr r \<and> carries (rn_repr a) ob r"
proof -
  let ?ch = "[(''native_last_agent_info_name'', PStr (fst (self_report (rn_repr a) ob))),
      (''native_last_agent_info_version'', PStr (snd (self_report (rn_repr a) ob))),
      (''native_last_advertised_capabilities'', PList (map PStr (advertised ob))), (''updated_at'', PStr (rn_moment a))]"
  have read: "session_id_ok sid" "read_record (session_json (st sid)) = Inr r0"
    using assms(1) by (auto simp: open_session_def require_session_dir_def split: sum.splits bool.splits if_splits)
  have u: "u = fold (\<lambda>(k, v). dset k v) ?ch r0" "session_json (st' sid) = Doc (PDict (record_to_dict u))"
    using assms(1,3) read
    by (cases io; auto simp: commit_observation_def commit_last_observation_def commit_fields_def open_session_def Let_def
        split: sum.splits if_splits)+
  have kind: "dget u ''session_kind'' = PStr SESSION_KIND_NATIVE" using assms(2) by (simp add: u(1) dget_dset)
  have keys: "set (map fst u) \<subseteq> set DECLARED_RECORD_FIELDS"
  proof -
    have "set (map fst r0) \<subseteq> set DECLARED_RECORD_FIELDS"
      using read(2) by (auto simp: read_record_def record_from_dict_def new_record_def comp_def split: sum.splits pyval.splits if_splits)
    then show ?thesis by (simp add: u(1)) (simp add: DECLARED_RECORD_FIELDS_def)
  qed
  then have "list_all (\<lambda>k. k \<in> set DECLARED_RECORD_FIELDS) (map fst (record_to_dict u))"
    using record_to_dict_keys [of u] unfolding list_all_iff by blast
  then have "open_session st' sid = Inr (new_record (record_to_dict u))"
    using read(1) u(2) by (simp add: open_session_def require_session_dir_def read_record_def record_from_dict_def)
  moreover have "dget (new_record (record_to_dict u)) k = dget u k" if "k \<in> set observed_fields" for k
    using that kind by (simp add: dget_new_record declared_observed to_dict_observed)
  then have "carries (rn_repr a) ob (new_record (record_to_dict u))"
    by (simp add: carries_def observed_fields_def) (simp add: u(1) dget_dset)
  ultimately show ?thesis by blast
qed

text \<open>The judgement: once the evidence is written, the verdict decides, then the session-load term of the profile.\<close>

definition contract_honoured :: "profile \<Rightarrow> agent_entry \<Rightarrow> init_summary \<Rightarrow> bool" where
  "contract_honoured p e su \<longleftrightarrow> contract_kept p e (observed_of su) \<and> (pf_requires_session_load p \<longrightarrow> su_load_session su)"

lemma emit_all_frame:
  "\<exists>s'. emit_all i evs s = (s', Inr ()) \<and> st_evidence s' = st_evidence s \<and> st_world s' = st_world s \<and>
     fc_session (st_ctx s') = fc_session (st_ctx s) \<and> fc_pending_creation (st_ctx s') = fc_pending_creation (st_ctx s)"
proof (induction evs arbitrary: s)
  case (Cons ev evs)
  obtain t where t: "emit i ev s = (t, Inr ())" using emit_returns by blast
  then have "st_evidence t = st_evidence s \<and> st_world t = st_world s \<and> fc_session (st_ctx t) = fc_session (st_ctx s) \<and>
      fc_pending_creation (st_ctx t) = fc_pending_creation (st_ctx s)"
    by (auto simp: emit_def chain_def give_def submit_event_def note_pipeline_def Let_def split: option.splits)
  then show ?case using t Cons [of t] by (auto simp: chain_def)
qed (simp add: give_def)

lemma observe_judges:
  fixes a su s
  defines "v \<equiv> judge_initialize (rn_repr a) (rn_profile a) (rn_entry a) (observed_of su) (st_previous s)"
  assumes "so_evidence i = Io_Ok" "st_evidence s = Absent"
  obtains s1 where "st_evidence s1 = Doc (PDict (to_evidence v))" "st_world s1 = st_world s"
    "fc_session (st_ctx s1) = fc_session (st_ctx s)" "fc_pending_creation (st_ctx s1) = fc_pending_creation (st_ctx s)"
    "observe_initialize a i su s =
       (case vd_refusal v of
          Some code \<Rightarrow> (s1, Inl (Pre_Dispatch code))
        | None \<Rightarrow>
            if pf_requires_session_load (rn_profile a) \<and> \<not> su_load_session su then (s1, Inl (Pre_Dispatch ''CAPABILITY_MISSING''))
            else commit_pending_observation a i (s1\<lparr>st_held := Some (observed_of su)\<rparr>))"
proof -
  define s0 where "s0 = s\<lparr>st_evidence := Doc (PDict (to_evidence v))\<rparr>"
  have w: "write_evidence i (to_evidence v) s = (s0, Inr ())"
    using assms(2,3) by (simp add: s0_def write_evidence_def write_once_def)
  obtain s1 where s1: "emit_all i (vd_warnings v) s0 = (s1, Inr ())" "st_evidence s1 = st_evidence s0" "st_world s1 = st_world s0"
    "fc_session (st_ctx s1) = fc_session (st_ctx s0)" "fc_pending_creation (st_ctx s1) = fc_pending_creation (st_ctx s0)"
    using emit_all_frame by blast
  show ?thesis
    by (rule that [of s1], use s1 w in \<open>auto simp: s0_def observe_initialize_def Let_def stop_def update_def chain_def
        simp flip: v_def split: option.splits\<close>)
qed

lemma pending_commits:
  assumes "commit_pending_observation a i (t\<lparr>st_held := Some ob\<rparr>) = (s', r)"
  shows "st_evidence s' = st_evidence t" "r = Inl e \<Longrightarrow> e = Other_Exception"
    "r = Inr () \<Longrightarrow> fc_session (st_ctx t) = Some sid \<Longrightarrow> \<not> fc_pending_creation (st_ctx t) \<Longrightarrow>
       \<exists>u. commit_observation a (so_observe i) sid ob (wo_store (st_world t)) = (wo_store (st_world s'), Inr u)"
  using assms
  by (auto simp: commit_pending_observation_def chain_def in_store_def update_def give_def
      split: option.splits if_splits prod.splits sum.splits)

text \<open>C26. What an agent reports at \<^verbatim>\<open>initialize\<close> is judged against the declared contract alone.  Once its
  evidence could be written, the run is refused exactly when the report breaks the contract: the protocol major, a
  required or a forbidden capability, or session loading where the profile requires it; whatever the session observed
  before.  A refusal has one of the declared codes and leaves the session store as it was, and the evidence of the report
  is on disk either way.  Warnings depend only on the previous observation, are of the closed vocabulary, marked as not
  authoritative and not refused, and repeat nothing the agent said.  When the report was accepted on a native session
  that exists, the record then carries it, and a later run with the same report is warned about nothing.\<close>

theorem report_judged_by_contract:
  fixes a su s
  defines "v \<equiv> judge_initialize (rn_repr a) (rn_profile a) (rn_entry a) (observed_of su) (st_previous s)"
  assumes "observe_initialize a i su s = (s', r)" "so_evidence i = Io_Ok" "st_evidence s = Absent"
  shows "((\<exists>code. r = Inl (Pre_Dispatch code)) \<longleftrightarrow> \<not> contract_honoured (rn_profile a) (rn_entry a) su) \<and>
    (\<forall>code. r = Inl (Pre_Dispatch code) \<longrightarrow>
       code \<in> set OBSERVATION_REFUSALS \<and> wo_store (st_world s') = wo_store (st_world s)) \<and>
    st_evidence s' = Doc (PDict (to_evidence v)) \<and>
    (vd_warnings v = [] \<longleftrightarrow> (\<forall>before. st_previous s = Some before \<longrightarrow>
       self_report (rn_repr a) before = self_report (rn_repr a) (observed_of su) \<and> advertised before = advertised (observed_of su))) \<and>
    (\<forall>w \<in> set (vd_warnings v).
       set (warning_texts w) \<subseteq> set WARNING_VOCABULARY \<and> dget w ''refused'' = PBool False \<and> dget w ''authoritative'' = PBool False) \<and>
    (\<forall>sid r0. r = Inr () \<and> fc_session (st_ctx s) = Some sid \<and> \<not> fc_pending_creation (st_ctx s) \<and>
       open_session (wo_store (st_world s)) sid = Inr r0 \<and> dget r0 ''session_kind'' = PStr SESSION_KIND_NATIVE \<and>
       distinct (map fst (su_capabilities su)) \<longrightarrow>
       (\<exists>r1 before. open_session (wo_store (st_world s')) sid = Inr r1 \<and> observation_from_record r1 = Inr (Some before) \<and>
          vd_warnings (judge_initialize (rn_repr a) (rn_profile a) (rn_entry a) (observed_of su) (Some before)) = []))"
proof -
  let ?ob = "observed_of su"
  obtain s1 where s1: "st_evidence s1 = Doc (PDict (to_evidence v))" "st_world s1 = st_world s"
    "fc_session (st_ctx s1) = fc_session (st_ctx s)" "fc_pending_creation (st_ctx s1) = fc_pending_creation (st_ctx s)"
    "observe_initialize a i su s =
       (case vd_refusal v of
          Some code \<Rightarrow> (s1, Inl (Pre_Dispatch code))
        | None \<Rightarrow>
            if pf_requires_session_load (rn_profile a) \<and> \<not> su_load_session su then (s1, Inl (Pre_Dispatch ''CAPABILITY_MISSING''))
            else commit_pending_observation a i (s1\<lparr>st_held := Some ?ob\<rparr>))"
    by (rule observe_judges [OF assms(3,4), of a su, folded v_def])
  have none: "vd_refusal v = None \<longleftrightarrow> contract_kept (rn_profile a) (rn_entry a) ?ob"
    using contract_verdict_None [of "rn_profile a" "rn_entry a" ?ob] by (simp add: v_def judge_initialize_def)
  have codes: "vd_refusal v = Some code \<Longrightarrow> code \<in> set OBSERVATION_REFUSALS" for code
    using contract_verdict_code [of "rn_profile a" "rn_entry a" ?ob] by (auto simp: v_def judge_initialize_def OBSERVATION_REFUSALS_def)
  have warn: "vd_warnings v = drift_warnings (rn_repr a) (st_previous s) ?ob" by (simp add: v_def judge_initialize_def)
  have kept: "\<exists>r1 before. open_session (wo_store (st_world s')) sid = Inr r1 \<and> observation_from_record r1 = Inr (Some before) \<and>
      vd_warnings (judge_initialize (rn_repr a) (rn_profile a) (rn_entry a) ?ob (Some before)) = []"
    if acc: "commit_pending_observation a i (s1\<lparr>st_held := Some ?ob\<rparr>) = (s', r)" and h: "r = Inr ()"
      "fc_session (st_ctx s) = Some sid" "\<not> fc_pending_creation (st_ctx s)" "open_session (wo_store (st_world s)) sid = Inr r0"
      "dget r0 ''session_kind'' = PStr SESSION_KIND_NATIVE" "distinct (map fst (su_capabilities su))" for sid r0
  proof -
    obtain u where "commit_observation a (so_observe i) sid ?ob (wo_store (st_world s)) = (wo_store (st_world s'), Inr u)"
      using pending_commits(3) [OF acc] h(1-3) s1(2-4) by metis
    then obtain r1 where "open_session (wo_store (st_world s')) sid = Inr r1" "carries (rn_repr a) ?ob r1"
      using committed_observation [OF h(4,5)] by blast
    moreover have "distinct (map fst (dict_or_empty (iv_capabilities ?ob)))"
      using h(6) by (simp add: observed_of_def dict_or_empty_def)
    ultimately show ?thesis using carried_observation [of "rn_repr a" ?ob r1] no_drift by (fastforce simp: judge_initialize_def)
  qed
  have "((\<exists>code. r = Inl (Pre_Dispatch code)) \<longleftrightarrow> \<not> contract_honoured (rn_profile a) (rn_entry a) su) \<and>
    (\<forall>code. r = Inl (Pre_Dispatch code) \<longrightarrow> code \<in> set OBSERVATION_REFUSALS \<and> wo_store (st_world s') = wo_store (st_world s)) \<and>
    st_evidence s' = Doc (PDict (to_evidence v)) \<and>
    (r = Inr () \<longrightarrow> commit_pending_observation a i (s1\<lparr>st_held := Some ?ob\<rparr>) = (s', r))"
    using assms(2) s1 none codes pending_commits(1,2) [where a = a and i = i and t = s1 and ob = ?ob and s' = s' and r = r]
    by (auto simp: contract_honoured_def OBSERVATION_REFUSALS_def split: option.splits if_splits)
  moreover have "vd_warnings v = [] \<longleftrightarrow> (\<forall>before. st_previous s = Some before \<longrightarrow>
      self_report (rn_repr a) before = self_report (rn_repr a) ?ob \<and> advertised before = advertised ?ob)"
    by (auto simp: warn drift_warnings_def split: option.splits)
  moreover have "\<forall>w \<in> set (vd_warnings v).
      set (warning_texts w) \<subseteq> set WARNING_VOCABULARY \<and> dget w ''refused'' = PBool False \<and> dget w ''authoritative'' = PBool False"
    using drift_warning_texts drift_warning_shape by (metis warn)
  ultimately show ?thesis using kept by blast
qed

section \<open>Progress\<close>

text \<open>C12. A run that reuses its session gets to its prompt: when the session can be bound and leased, every write
  succeeds and the writer takes every event, and when the agent answers \<^verbatim>\<open>initialize\<close> within the contract and
  with session loading, loads the session with a well formed option set that offers the requested pair, and honours
  the sets it is sent, then the drive reaches a started run whose wire ends in exactly one prompt.\<close>

theorem willing_agent_is_prompted:
  assumes "rn_session a = Some sid" "ready_to_drive a i su m0 w" "willing ag su"
    "parse_options (Some x) = Inr parsed" "offers parsed m0"
  shows "\<exists>s r acts e. drive a i ag x w = Driven s r \<and> st_wire s = acts @ [(Prompted, e)] \<and> Prompted \<notin> fst ` set acts"
proof -
  obtain s r where s: "drive a i ag x w = Driven s r" "Prompted \<in> fst ` set (st_wire s)"
    by (rule willing_prompts [OF assms])
  obtain plan m s0 where d: "run_started a w plan m s0" "sequence_and_dispatch a i ag plan s0 = (s, r)" by (rule driven [OF s(1)])
  obtain s1 r1 where st: "startup_sequence a i ag plan s0 = (s1, r1)"
    by (cases "startup_sequence a i ag plan s0 :: _ \<times> (start_exc + unit)")
  have no: "Prompted \<notin> fst ` set (st_wire s1)"
    using staysD [OF tame_startup, of plan w s0 a i ag] d(1) st tame_unprompted by (force simp: run_started_def)
  obtain u where "r1 = Inr u" using d(2) st no s(2) by (cases r1) (force simp: sequence_and_dispatch_def)+
  then have "dispatch a i ag s1 = (s, r)" using d(2) st by (simp add: sequence_and_dispatch_def)
  then have "dispatched s1 s" using dispatch_trail no s(2) by metis
  then show ?thesis using s(1) no by (auto simp: dispatched_def)
qed

section \<open>A concrete run\<close>

definition demo_run_args :: "string option \<Rightarrow> run_args" where
  "demo_run_args sid =
     \<lparr>rn_run_id = ''run-1'', rn_moment = ''m'', rn_repr = (\<lambda>v. ''?''), rn_float = (\<lambda>x. ''0''), rn_session = sid,
      rn_prospective = ''s2'',
      rn_identity = \<lparr>ri_profile_id = ''p'', ri_profile_revision = 3, ri_profile_hash = ''h'', ri_workspace_hash = ''w'',
        ri_owner = ''o'', ri_namespace = ''n'', ri_agent_id = None, ri_epoch = None\<rparr>,
      rn_profile = STANDARD_NATIVE_ACP_V1,
      rn_entry = \<lparr>ae_agent_id = ''x'', ae_profile_id = ''standard-native-acp-v1'', ae_command = ''x'', ae_args = [],
        ae_mediation_id = None, ae_env_passthrough = [], ae_env_overlay = [], ae_model_selector_id = None,
        ae_effort_selector_id = None, ae_forbidden_capabilities = [], ae_session_epoch = None\<rparr>,
      rn_grant = [''read''], rn_model = ''b'', rn_effort = ''high'', rn_cwd = ''/w'', rn_root = None, rn_argv = [''x''],
      rn_child = \<lparr>id_pid = 7, id_process_start = None, id_boot_id = None, id_host = ''h''\<rparr>, rn_token = ''t'', rn_now = 0,
      rn_probe = REAL_PROBE demo_os, rn_isofmt = (\<lambda>t. ''t''), rn_isoparse = (\<lambda>s. None)\<rparr>"

definition demo_start_io :: start_io where
  "demo_start_io =
     \<lparr>so_unlink = Io_Ok, so_lock = Io_Ok, so_holder = Io_Ok, so_spawn = None, so_open = True, so_evidence = Io_Ok,
      so_observe = Io_Ok, so_create = Io_Ok, so_switch = Io_Ok, so_proven = Io_Ok, so_commit = Io_Ok, so_effective = Io_Ok,
      so_progress = Io_Ok, so_rb_commit = Io_Ok, so_rb_marker = Io_Ok, so_emit = (\<lambda>n. None), so_can_accept = True,
      so_dispatch = Io_Ok, so_accept = Io_Ok, so_child_exited = False\<rparr>"

definition demo_options :: "pydict list" where
  "demo_options = [demo_select ''model'' ''a'' [''a'', ''b''], demo_select ''effort'' ''low'' [''low'', ''high'']]"

definition demo_agent :: "pydict list acp_agent" where
  "demo_agent =
     \<lparr>ag_initialize = (\<lambda>s. (s, Some \<lparr>su_protocol_version = 1, su_agent_info = [(''name'', PStr ''x'')],
        su_load_session = True, su_capabilities = [(''loadSession'', PBool True)]\<rparr>)),
      ag_new_session = (\<lambda>s. (s, Some (''ext'', Some s))), ag_load_session = (\<lambda>s ext. (s, Some (Some s))),
      ag_set_option = honest, ag_prompt = (\<lambda>s. (s, True, Prompt_Returned ''end_turn'' PNone)),
      ag_identity_ok = (\<lambda>s. True), ag_interrupt = (\<lambda>s. None), ag_violations = (\<lambda>s. (False, False))\<rparr>"

text \<open>The same agent, but the startup timeout hits while the first set is under way.\<close>

definition demo_slow_agent :: "pydict list acp_agent" where
  "demo_slow_agent = demo_agent\<lparr>ag_set_option := (\<lambda>s i v. (fst (honest s i v), None)), ag_interrupt := (\<lambda>s. Some Startup_Timeout)\<rparr>"

definition demo_before :: world where
  "demo_before = \<lparr>wo_store = demo_store, wo_run = demo_empty_run\<rparr>"

definition demo_summary :: init_summary where
  "demo_summary = the (snd (ag_initialize demo_agent []))"

definition demo_fresh_machine :: machine where
  "demo_fresh_machine = projr (the (run_machine (demo_run_args (Some ''s1'')) ''b'' ''high''))"

definition demo_choice :: option_set where
  "demo_choice = projr (parse_options (Some demo_options))"

definition demo_loaded :: machine where
  "demo_loaded = fst (record_initial_options (Some demo_options) demo_fresh_machine)"

lemma demo_bound: "\<not> isl (snd (snd (bind_session (demo_run_args (Some ''s1'')) demo_start_io demo_store)))"
  by code_simp

lemma demo_contract: "contract_kept STANDARD_NATIVE_ACP_V1 (rn_entry (demo_run_args (Some ''s1''))) (observed_of demo_summary)"
  by code_simp

lemma demo_machine_made: "run_machine (demo_run_args (Some ''s1'')) ''b'' ''high'' = Some (Inr demo_fresh_machine)"
  by code_simp

lemma demo_choice_parsed: "parse_options (Some demo_options) = Inr demo_choice"
  by code_simp

lemma demo_choice_offers: "offers demo_choice demo_fresh_machine"
  by code_simp

lemma demo_loaded_ok: "record_initial_options (Some demo_options) demo_fresh_machine = (demo_loaded, Inr ())"
  by code_simp

lemmas demo_facts = demo_bound demo_contract demo_machine_made

lemma demo_ready: "ready_to_drive (demo_run_args (Some ''s1'')) demo_start_io demo_summary demo_fresh_machine demo_before"
  using demo_facts
  by (simp add: ready_to_drive_def smooth_def demo_start_io_def demo_before_def demo_empty_run_def demo_run_args_def demo_summary_def demo_agent_def)

lemma demo_willing: "willing demo_agent demo_summary" "answering demo_slow_agent demo_summary"
  by (simp_all add: willing_def answering_def demo_slow_agent_def demo_summary_def demo_agent_def)

lemma demo_session: "rn_session (demo_run_args s) = s"
  by (simp add: demo_run_args_def)

theorem willing_agent_is_prompted_witness:
  "\<exists>s r acts e. drive (demo_run_args (Some ''s1'')) demo_start_io demo_agent demo_options demo_before = Driven s r \<and>
     st_wire s = acts @ [(Prompted, e)] \<and> Prompted \<notin> fst ` set acts"
  by (rule willing_agent_is_prompted [OF demo_session demo_ready demo_willing(1) demo_choice_parsed demo_choice_offers])

theorem prompt_behind_proofs_witness:
  "\<exists>s r w'. drive (demo_run_args (Some ''s1'')) demo_start_io demo_agent demo_options demo_before = Driven s r \<and>
     (Prompted, w') \<in> set (st_wire s) \<and> last (map fst (st_wire s)) = Prompted \<and>
     (\<exists>d. owned_lock ''t'' (lock_json (wo_store w' ''s1'')) = Inr d) \<and> effective_shows (''b'', ''high'') (st_effective s)"
proof -
  obtain s r where s: "drive (demo_run_args (Some ''s1'')) demo_start_io demo_agent demo_options demo_before = Driven s r"
      "Prompted \<in> fst ` set (st_wire s)"
    by (rule willing_prompts [OF demo_session demo_ready demo_willing(1) demo_choice_parsed demo_choice_offers])
  then obtain w' where w: "(Prompted, w') \<in> set (st_wire s)" by auto
  have "rn_token (demo_run_args (Some ''s1'')) = ''t''" "rn_model (demo_run_args (Some ''s1'')) = ''b''"
    "rn_effort (demo_run_args (Some ''s1'')) = ''high''" "session_of (demo_run_args (Some ''s1'')) = ''s1''"
    by (simp_all add: demo_run_args_def session_of_def)
  then show ?thesis using s(1) w prompt_behind_proofs [OF s(1) w] by auto
qed

theorem reuse_never_creates_witness:
  "New_Session \<notin> fst ` set (driven_wire (drive (demo_run_args (Some ''s1'')) demo_start_io demo_agent demo_options demo_before))"
  using reuse_never_creates [OF demo_session, of "''s1''" demo_start_io demo_agent demo_options demo_before] by blast

theorem creation_waits_for_agent_witness:
  "wo_store (driven_world (drive (demo_run_args None) demo_start_io demo_agent demo_options demo_before)) ''s1'' = demo_store ''s1''"
proof -
  have "rn_prospective (demo_run_args None) = ''s2''" by (simp add: demo_run_args_def)
  then show ?thesis
    using creation_waits_for_agent [OF demo_session, of demo_start_io demo_agent demo_options demo_before] by (simp add: demo_before_def)
qed

lemma demo_slow_set:
  "set_config_exact (ag_set_option demo_slow_agent) (\<lambda>s. True) True True (opened_run demo_loaded demo_options) = (r, out) \<Longrightarrow>
   out = Inl Native_Driver_Error \<and> set_acts (dr_wire r) = [Set_Config ''model'' ''b'']"
proof -
  let ?x = "set_config_exact (ag_set_option demo_slow_agent) (\<lambda>s. True) True True (opened_run demo_loaded demo_options)"
  have "snd ?x = Inl Native_Driver_Error \<and> set_acts (dr_wire (fst ?x)) = [Set_Config ''model'' ''b'']" by code_simp
  then show "?x = (r, out) \<Longrightarrow> ?thesis" by simp
qed

text \<open>The model was already set when the startup timed out, and after the run the session is usable as before.\<close>

theorem interrupted_startup_unfenced_witness:
  "\<exists>s. drive (demo_run_args (Some ''s1'')) demo_start_io demo_slow_agent demo_options demo_before =
       Driven s (Inl (Pre_Dispatch ''STARTUP_TIMEOUT'')) \<and>
     Set_Config ''model'' ''b'' \<in> fst ` set (st_wire s) \<and>
     usable ''s1'' (wo_store (fst (run_task (demo_run_args (Some ''s1'')) demo_start_io demo_fin_io demo_fin_io demo_fin_env
       demo_slow_agent demo_options demo_before)))"
proof -
  obtain r out where x: "set_config_exact (ag_set_option demo_slow_agent) (\<lambda>s. True) True True (opened_run demo_loaded demo_options) = (r, out)"
    by (cases "set_config_exact (ag_set_option demo_slow_agent) (\<lambda>s. True) True True (opened_run demo_loaded demo_options)")
  note sets = demo_slow_set [OF x]
  have id: "ag_identity_ok demo_slow_agent = (\<lambda>s. True)" "ag_interrupt demo_slow_agent (dr_agent r) = Some Startup_Timeout"
    by (simp_all add: demo_slow_agent_def demo_agent_def)
  obtain s where s: "drive (demo_run_args (Some ''s1'')) demo_start_io demo_slow_agent demo_options demo_before =
       Driven s (Inl (Pre_Dispatch ''STARTUP_TIMEOUT''))" "going ''s1'' (dr_agent r) s" "set (set_acts (dr_wire r)) \<subseteq> fst ` set (st_wire s)"
    by (rule switch_times_out [OF demo_session demo_ready demo_willing(2) demo_choice_parsed demo_loaded_ok, of r])
      (use x sets id in auto)
  have "\<not> fc_dispatch_started (st_ctx s)" "result_json (wo_run demo_before) = Absent" "usable ''s1'' (wo_store (st_world s))"
    using s(2) by (simp_all add: going_def demo_before_def demo_empty_run_def)
  with interrupted_startup_unfenced [OF s(1), of demo_fin_io demo_fin_io demo_fin_env "''s1''"]
  show ?thesis using s(1,3) sets by (auto simp: usable_def)
qed

text \<open>An accepted report on the session of the concrete run, and the same agent without session loading, refused.\<close>

definition demo_begun :: "pydict list start_state" where
  "demo_begun = started_run (demo_run_args (Some ''s1'')) \<lparr>bd_plan = LoadSessionPlan ''s1'' ''ext'', bd_pair = (PNone, PNone), bd_previous = None\<rparr>
     (bound_ctx (demo_run_args (Some ''s1'')) None) demo_fresh_machine demo_options demo_before"

lemma demo_unhonoured: "\<not> contract_honoured STANDARD_NATIVE_ACP_V1 (rn_entry (demo_run_args (Some ''s1''))) (demo_summary\<lparr>su_load_session := False\<rparr>)"
  by code_simp

lemma demo_native:
  "session_id_ok ''s1'' \<and> (case read_record (session_json (demo_store ''s1'')) of
     Inl _ \<Rightarrow> False | Inr r \<Rightarrow> dget r ''session_kind'' = PStr SESSION_KIND_NATIVE \<and> dget r ''quarantine'' = PNone)"
  by code_simp

lemma demo_usable: "usable ''s1'' demo_store"
  using demo_native read_record_wf by (auto simp: usable_def split: sum.splits)

theorem report_judged_by_contract_witness:
  "(\<exists>s' code. observe_initialize (demo_run_args (Some ''s1'')) demo_start_io (demo_summary\<lparr>su_load_session := False\<rparr>) demo_begun =
      (s', Inl (Pre_Dispatch code)) \<and> wo_store (st_world s') = demo_store) \<and>
   (\<exists>s' r1 before. observe_initialize (demo_run_args (Some ''s1'')) demo_start_io demo_summary demo_begun = (s', Inr ()) \<and>
      open_session (wo_store (st_world s')) ''s1'' = Inr r1 \<and> observation_from_record r1 = Inr (Some before) \<and>
      vd_warnings (judge_initialize (\<lambda>v. ''?'') STANDARD_NATIVE_ACP_V1 (rn_entry (demo_run_args (Some ''s1''))) (observed_of demo_summary)
        (Some before)) = [])"
proof
  let ?a = "demo_run_args (Some ''s1'')"
  have a: "rn_profile ?a = STANDARD_NATIVE_ACP_V1" "rn_repr ?a = (\<lambda>v. ''?'')" by (simp_all add: demo_run_args_def)
  have s: "so_evidence demo_start_io = Io_Ok" "st_evidence demo_begun = Absent" "wo_store (st_world demo_begun) = demo_store"
    "fc_session (st_ctx demo_begun) = Some ''s1''" "\<not> fc_pending_creation (st_ctx demo_begun)"
    by (simp_all add: demo_start_io_def demo_begun_def started_run_def demo_before_def bound_ctx_def demo_session no_ctx_def)
  let ?x = "observe_initialize ?a demo_start_io (demo_summary\<lparr>su_load_session := False\<rparr>) demo_begun"
  show "\<exists>s' code. ?x = (s', Inl (Pre_Dispatch code)) \<and> wo_store (st_world s') = demo_store"
    using report_judged_by_contract [OF prod.collapse [of ?x, symmetric] s(1,2)] demo_unhonoured a(1) s(3) by (metis prod.collapse)
  obtain r0 where r0: "open_session demo_store ''s1'' = Inr r0" "dget r0 ''session_kind'' = PStr SESSION_KIND_NATIVE"
    using demo_usable
    by (cases "session_json (demo_store ''s1'')") (auto simp: usable_def open_session_def require_session_dir_def read_record_def)
  have "usable ''s1'' demo_store" by (rule demo_usable)
  then have "going ''s1'' demo_options demo_begun \<and> st_evidence demo_begun = Absent"
    using s by (simp add: going_def demo_begun_def started_run_def bound_ctx_def demo_session no_ctx_def demo_before_def demo_empty_run_def)
  moreover have "smooth demo_start_io" "su_load_session demo_summary" using demo_ready by (simp_all add: ready_to_drive_def)
  ultimately obtain s' where s': "observe_initialize ?a demo_start_io demo_summary demo_begun = (s', Inr ())"
    using returnsD [OF going_observe [of demo_start_io ?a demo_summary]] demo_contract a(1) by fastforce
  have "distinct (map fst (su_capabilities demo_summary))" by code_simp
  with report_judged_by_contract [OF s' s(1,2)] r0 s(3-5) a s'
  show "\<exists>s' r1 before. observe_initialize ?a demo_start_io demo_summary demo_begun = (s', Inr ()) \<and>
      open_session (wo_store (st_world s')) ''s1'' = Inr r1 \<and> observation_from_record r1 = Inr (Some before) \<and>
      vd_warnings (judge_initialize (\<lambda>v. ''?'') STANDARD_NATIVE_ACP_V1 (rn_entry ?a) (observed_of demo_summary) (Some before)) = []"
    by auto
qed

end
