(* ===== verification/Spec2Isabelle.thy ===== *)
theory Spec2Isabelle
  imports Event_Writer_Limits Session_Props Spec_Props Reconcile_Props Permissions_Props Config_Driver Run_Finalize_Props Protocol_Props Submit_Runs Run_Queries_Props Event_Follow_Props Agent_Registry_Props Durable_Files_Props Run_Start_Props
begin

text \<open>
  \<^bold>\<open>Verification of agent-run-supervisor\<close>

  The supervisor runs coding agents as child processes that speak the Agent Client Protocol and keeps durable evidence
  of everything it did: one directory per run, one per session.  A daemon admits requests over a socket, starts each
  admitted run once, mediates what the agent asks for, and records one terminal fact; after a crash it reconciles every
  run directory it finds.  The sources are under \<^verbatim>\<open>src/src/agent_run_supervisor\<close>; the file names below are relative to it.

  \<^bold>\<open>The parts and how they interact\<close>

  A request frame (\<^verbatim>\<open>arsd/protocol.py\<close>) reaches a handler (\<^verbatim>\<open>arsd/handlers.py\<close>).  A submission takes the lock of its
  admission key and a slot of the run registry, reserves the run directory, writes its submission record
  (\<^verbatim>\<open>arsd/admission.py\<close>) and the sealed documents (\<^verbatim>\<open>native_acp/spec.py\<close>) and starts a task.  The task
  (\<^verbatim>\<open>native_acp/run_task.py\<close>) leases its session (\<^verbatim>\<open>session.py\<close>), drives the agent through the driver
  (\<^verbatim>\<open>native_acp/driver.py\<close>) and the configuration machine (\<^verbatim>\<open>native_acp/config_fidelity.py\<close>), judges what the agent reports
  (\<^verbatim>\<open>native_acp/observation.py\<close>), answers its permission requests (\<^verbatim>\<open>native_acp/permissions.py\<close>), writes events through the
  ledger (\<^verbatim>\<open>native_acp/event_writer.py\<close>), and publishes one result (\<^verbatim>\<open>result.py\<close>).  Read requests page through what is on
  disk; reconciliation (\<^verbatim>\<open>arsd/reconcile.py\<close>) settles what a dead process left behind.

  \<^bold>\<open>The theories\<close>

  Foundations.  \<open>ARS_Prelude\<close>: Python values and dictionaries, JSON text, and the two interfaces of the
  transition systems, the locales \<open>inductive_invariant\<close> (reachable states satisfy an invariant) and
  \<open>step_preorder\<close> (what a run cannot undo); every state machine below interprets them.  \<open>Json_Text\<close>: the other
  JSON formats that are measured or hashed.

  Durable files, \<^verbatim>\<open>event_store.py\<close>.  \<open>Durable_Files\<close> has each primitive call by call over a directory with explicit
  crash images; \<open>Durable_Files_Spec\<close> is the calculus of its programs; \<open>Durable_Files_Props\<close> shows that a durable
  write is all or nothing at every moment, that acknowledged lines survive, and that the three outcomes which the other
  theories give a write (done, failed before, failed after: the type \<open>io\<close>) cover every execution of the call sequences.

  The event ledger, \<^verbatim>\<open>native_acp/event_writer.py\<close>.  \<open>Event_Writer\<close>: the state record \<open>ew\<close>, one function per stretch
  between two suspension points, and the step relation \<open>ew_step\<close>; \<open>Event_Writer_Inv\<close>, \<open>Event_Writer_Steps\<close>
  and \<open>Event_Writer_Mono\<close>: its invariant, kept by every step, and what is final; \<open>Event_Writer_Props\<close> and
  \<open>Event_Writer_Limits\<close>: a clean close certifies the file, acknowledgements are durable, no wakeup is lost, retention
  is bounded, the truncation marker fits, the published failure does not depend on order.

  Results and evidence, \<^verbatim>\<open>result.py\<close>, \<^verbatim>\<open>exit_classifier.py\<close>, \<^verbatim>\<open>native_acp/storage.py\<close>.  \<open>Run_Result\<close>: the result
  emitter, its ceilings and the strict validator.  \<open>Storage\<close>: what one observation of a path may conclude.

  Sessions, \<^verbatim>\<open>session.py\<close> and \<^verbatim>\<open>process_liveness.py\<close>.  \<open>Process_Liveness\<close>: the probes, with the locale
  \<open>sound_probe\<close> interpreted on the real one.  \<open>Session_Record\<close>: the record, its validation, the binding gate.
  \<open>Session_Store\<close>: the record, lock and fence of each session and every operation on them under every write fault.
  \<open>Session_Props\<close>: quarantine is irreversible, a fenced session gets no lease, a lease is exclusive; the locale
  \<open>quarantine_protocol\<close> states what the fence and quarantine operations promise the run task and reconciliation.

  Sealed documents, profiles and registry.  \<open>Spec_Documents\<close>, \<open>Spec_Props\<close> (\<^verbatim>\<open>native_acp/spec.py\<close>,
  \<^verbatim>\<open>native_acp/launch_permissions.py\<close>): limits, the layered environment, the launch snapshot and its strict reader.
  \<open>Profiles\<close> (\<^verbatim>\<open>native_acp/profile.py\<close>), \<open>Agent_Registry\<close>, \<open>Agent_Registry_Props\<close>
  (\<^verbatim>\<open>native_acp/agent_registration.py\<close>, \<^verbatim>\<open>native_acp/agent_registry.py\<close>): one read of the registry is all or nothing,
  the accepted entries are the well-formed ones, and no operator setting can own a mediation key.

  The daemon, \<^verbatim>\<open>arsd\<close>.  \<open>Protocol\<close>, \<open>Protocol_Props\<close>: frames, nesting, requests.  \<open>Admission\<close>: admission
  keys and submission records.  \<open>Keyed_Locks\<close>: mutual exclusion per key, and the entry a cancelled waiter leaks.
  \<open>Run_Registry\<close>: bounded slots.  \<open>Submit\<close>, \<open>Submit_Props\<close>, \<open>Submit_Runs\<close>: the submit handler as
  a step relation over interleaved submissions, runs and restarts; each run starts once, answers agree, capacity holds,
  and an admissible submission goes through.  \<open>Event_Pages\<close>, \<open>Event_Pages_Props\<close>: chained pages deliver every
  event once.  \<open>Event_Follow\<close>, \<open>Event_Follow_Props\<close>: a stream delivers a gapless prefix.  \<open>Run_Queries\<close>,
  \<open>Run_Queries_Props\<close>: answers stay with their tenant.  \<open>Reconcile\<close>, \<open>Reconcile_Props\<close>: the first-match table and
  its effects; a pass converges, never touches evidence, and quarantines before it publishes.

  The run task, \<^verbatim>\<open>native_acp\<close>.  \<open>Path_Walk\<close>, \<open>Permissions\<close>, \<open>Permissions_Props\<close>: canonical locations,
  prompts, reads and the bookkeeping of open calls.  \<open>Config_Fidelity\<close>, \<open>Config_Props\<close>, \<open>Config_Driver\<close>: the
  configuration machine, its prompt gate, and the driver's sequence over any agent.  \<open>Observation\<close>: the judgement of
  \<^verbatim>\<open>initialize\<close>.  \<open>Run_Start\<close>: the drive, one definition per method (\<open>bind_session\<close>, \<open>acquire_lease\<close>,
  \<open>observe_initialize\<close>, \<open>startup_sequence\<close>, \<open>rollback_after_partial_switch\<close>, \<open>dispatch\<close>,
  \<open>drive\<close>, \<open>run_task\<close>), over the state record \<open>start_state\<close> with a trace of the frames and of the files at
  each frame.  \<open>Run_Start_Spec\<close>: what its actions keep and yield.  \<open>Run_Start_Live\<close>: when they return.
  \<open>Run_Start_Props\<close>: the prompt goes out at most once and behind its proofs, reuse never creates, creation waits for
  the agent, a willing agent is prompted, a report is refused exactly when it breaks the declared contract, and an
  interrupted startup leaves its session unfenced.
  \<open>Run_Finalize\<close>, \<open>Run_Finalize_Props\<close>: the exact terminal table, the final message, the order of quarantine,
  terminal and lease over both finalizers, and where the emergency path departs from it.

  \<^bold>\<open>How the code is rendered\<close>

  A class is a record, an enumeration a datatype, an exception a value of a sum or option type, a dictionary an
  association list in insertion order, text a list of the code points U+0000 to U+00FF.  Python integers are \<open>int\<close>.
  Code that awaits is cut at its suspension points: the event ledger, the locks, the submit handler and the follow stream
  are step relations whose steps interleave freely.  The drive of one run is sequential and is a state and exception
  monad, \<open>('s, 'a) act\<close>.  Every durable write may fail before or after it took effect, chosen by an argument; a theorem
  about the outcomes holds for all of them.

  Code outside the repository is an argument: SHA-256, the JSON and TOML decoders, the ISO time formats, the text of
  floats, the answers of the kernel, clock and timers, and the agent behind the protocol, a record of functions on its
  own state.  Where a property needs more of the agent (that it answers and honours its sets), that is a hypothesis of
  the property, and its witness has a concrete agent.

  \<^bold>\<open>Loops and bounds\<close>

  No definition uses fuel; the forty hops of a path walk are the code's own count.  The draining loop of the ledger, the parameter loop of the driver, the nesting walk, the chunked,
  capped and paged readers and the partial writes are total by a measure.  The growth ladder of the queue policy, which would not
  end for a bad factor, is a partial function, and validation is proved to return for every argument.

  \<^bold>\<open>What is not modelled\<close>

  Process spawning, signalling and reaping (\<^verbatim>\<open>managed_process.py\<close>), the socket (\<^verbatim>\<open>arsd/server.py\<close>, \<^verbatim>\<open>arsd/client.py\<close>), the
  callbacks of the protocol library (\<^verbatim>\<open>native_acp/client.py\<close>, \<^verbatim>\<open>native_acp/events.py\<close>), regular-expression redaction
  (\<^verbatim>\<open>redaction.py\<close>), argument parsing, the service unit and the command line are input and output around the modelled
  parts.  In the run task, the deferred settlement of an emission is answered at the call, the update callbacks that run
  beside the startup reach the model only as the agent's answers and violations, and the wind-down of the child is the
  context from which finalization starts; the cancellation of the finalizer itself is left out.  Code points beyond U+00FF are outside the text model.
\<close>

end
